(* ===== verification/Go_Base.thy ===== *)
theory Go_Base
  imports Main "HOL-Library.Word"
begin

text \<open>
  The vocabulary every component of the model shares: Go's sized integers as words, byte slices as
  lists, and the big-endian accessors of Go's \<^verbatim>\<open>encoding/binary\<close>.  A nil slice and an
  empty slice are both the empty list: the modelled code only ever looks at a slice's length and
  contents.  Go's \<^verbatim>\<open>int\<close> is 64 bits wide and slice lengths are below \<open>2 ^ 63\<close>, so
  lengths are natural numbers; a conversion to a narrower type is written out as \<open>of_nat\<close>,
  which truncates as Go does.
\<close>

unbundle bit_operations_syntax

type_synonym u8 = "8 word"
type_synonym u16 = "16 word"
type_synonym u32 = "32 word"
type_synonym u64 = "64 word"
type_synonym bytes = "8 word list"

named_theorems codec_simps "layout facts of the encoders and decoders"
named_theorems err_simps "which errors a function can return"

section \<open>Big-endian integers\<close>

text \<open>\<^verbatim>\<open>binary.BigEndian.PutUintN\<close> writes the most significant octet first.\<close>

definition PutUint16 :: "u16 \<Rightarrow> bytes" where
  "PutUint16 v = [ucast (drop_bit 8 v), ucast v]"

definition PutUint32 :: "u32 \<Rightarrow> bytes" where
  "PutUint32 v = [ucast (drop_bit 24 v), ucast (drop_bit 16 v), ucast (drop_bit 8 v), ucast v]"

definition PutUint64 :: "u64 \<Rightarrow> bytes" where
  "PutUint64 v =
     [ucast (drop_bit 56 v), ucast (drop_bit 48 v), ucast (drop_bit 40 v), ucast (drop_bit 32 v),
      ucast (drop_bit 24 v), ucast (drop_bit 16 v), ucast (drop_bit 8 v), ucast v]"

text \<open>\<^verbatim>\<open>binary.BigEndian.UintN\<close> on the octets, most significant first.\<close>

definition u16_of :: "u8 \<Rightarrow> u8 \<Rightarrow> u16" where
  "u16_of a b = push_bit 8 (ucast a) OR ucast b"

definition u32_of :: "u8 \<Rightarrow> u8 \<Rightarrow> u8 \<Rightarrow> u8 \<Rightarrow> u32" where
  "u32_of a b c d = push_bit 24 (ucast a) OR push_bit 16 (ucast b) OR push_bit 8 (ucast c) OR ucast d"

definition u64_of :: "u8 \<Rightarrow> u8 \<Rightarrow> u8 \<Rightarrow> u8 \<Rightarrow> u8 \<Rightarrow> u8 \<Rightarrow> u8 \<Rightarrow> u8 \<Rightarrow> u64" where
  "u64_of a b c d e f g h =
     push_bit 56 (ucast a) OR push_bit 48 (ucast b) OR push_bit 40 (ucast c) OR
     push_bit 32 (ucast d) OR push_bit 24 (ucast e) OR push_bit 16 (ucast f) OR
     push_bit 8 (ucast g) OR ucast h"

lemma length_PutUint16 [simp]: "length (PutUint16 v) = 2"
  by (simp add: PutUint16_def)

lemma length_PutUint32 [simp]: "length (PutUint32 v) = 4"
  by (simp add: PutUint32_def)

lemma length_PutUint64 [simp]: "length (PutUint64 v) = 8"
  by (simp add: PutUint64_def)

text \<open>Every bit position lies in one octet; case analysis over it evaluates shifts by octets.\<close>

lemma octet_cases:
  fixes n :: nat
  obtains k where "k < 8" "n = k" | k where "k < 8" "n = 8 + k" | k where "k < 8" "n = 16 + k"
  | k where "k < 8" "n = 24 + k" | k where "k < 8" "n = 32 + k" | k where "k < 8" "n = 40 + k"
  | k where "k < 8" "n = 48 + k" | k where "n = 56 + k"
proof -
  consider "n < 8" | "8 \<le> n" "n < 16" | "16 \<le> n" "n < 24" | "24 \<le> n" "n < 32"
    | "32 \<le> n" "n < 40" | "40 \<le> n" "n < 48" | "48 \<le> n" "n < 56" | "56 \<le> n"
    by linarith
  then show thesis
    using that(1) [of n] that(2) [of "n - 8"] that(3) [of "n - 16"] that(4) [of "n - 24"]
      that(5) [of "n - 32"] that(6) [of "n - 40"] that(7) [of "n - 48"] that(8) [of "n - 56"]
    by cases simp_all
qed

lemma u16_of_split [simp]: "u16_of (ucast (drop_bit 8 v)) (ucast v) = v"
  unfolding u16_of_def
  by (rule bit_word_eqI) (auto simp: bit_simps)

lemma u32_of_split [simp]:
  "u32_of (ucast (drop_bit 24 v)) (ucast (drop_bit 16 v)) (ucast (drop_bit 8 v)) (ucast v) = v"
proof (rule bit_word_eqI)
  fix n
  assume "n < LENGTH(32)"
  then show "bit (u32_of (ucast (drop_bit 24 v)) (ucast (drop_bit 16 v)) (ucast (drop_bit 8 v)) (ucast v)) n
      = bit v n"
    by (cases n rule: octet_cases) (simp_all add: u32_of_def bit_simps)
qed

lemma u64_of_split [simp]:
  "u64_of (ucast (drop_bit 56 v)) (ucast (drop_bit 48 v)) (ucast (drop_bit 40 v))
     (ucast (drop_bit 32 v)) (ucast (drop_bit 24 v)) (ucast (drop_bit 16 v))
     (ucast (drop_bit 8 v)) (ucast v) = v" (is "?l = v")
proof (rule bit_word_eqI)
  fix n
  assume "n < LENGTH(64)"
  then show "bit ?l n = bit v n"
    by (cases n rule: octet_cases) (simp_all add: u64_of_def bit_simps)
qed

lemma ucast_u16_of [simp]: "ucast (u16_of a b) = b"
  unfolding u16_of_def
  by (rule bit_word_eqI) (auto simp: bit_simps)

lemma ucast_drop_u16_of [simp]: "ucast (drop_bit 8 (u16_of a b)) = a"
  unfolding u16_of_def
  by (rule bit_word_eqI) (auto simp: bit_simps dest: bit_imp_le_length)

lemma PutUint16_u16_of [simp]: "PutUint16 (u16_of a b) = [a, b]"
  by (simp add: PutUint16_def)

lemma bit_u8_beyond [simp]:
  "\<not> bit (b :: u8) (8 + n)" "\<not> bit (b :: u8) (16 + n)" "\<not> bit (b :: u8) (24 + n)"
  by (auto dest: bit_imp_le_length)

lemma u32_of_octets [simp]:
  "ucast (drop_bit 24 (u32_of a b c d)) = a" "ucast (drop_bit 16 (u32_of a b c d)) = b"
  "ucast (drop_bit 8 (u32_of a b c d)) = c" "ucast (u32_of a b c d) = d"
  by (rule bit_word_eqI; simp add: u32_of_def bit_simps)+

lemma PutUint32_u32_of [simp]: "PutUint32 (u32_of a b c d) = [a, b, c, d]"
  by (simp add: PutUint32_def)

lemma PutUint16_inj [simp]: "PutUint16 v = PutUint16 w \<longleftrightarrow> v = w"
  by (metis PutUint16_def list.inject u16_of_split)

section \<open>Conversions of lengths\<close>

text \<open>\<^verbatim>\<open>byte(n)\<close>, \<^verbatim>\<open>uint16(n)\<close> and \<^verbatim>\<open>uint32(n)\<close> of a Go \<^verbatim>\<open>int\<close>: the
  low-order bits.\<close>

definition go_byte :: "nat \<Rightarrow> u8" where
  "go_byte n = of_nat n"

definition go_uint16 :: "nat \<Rightarrow> u16" where
  "go_uint16 n = of_nat n"

definition go_uint32 :: "nat \<Rightarrow> u32" where
  "go_uint32 n = of_nat n"

lemma unat_go_byte [simp]: "n < 256 \<Longrightarrow> unat (go_byte n) = n"
  by (simp add: go_byte_def unat_of_nat)

lemma unat_go_uint16 [simp]: "n < 65536 \<Longrightarrow> unat (go_uint16 n) = n"
  by (simp add: go_uint16_def unat_of_nat)

lemma unat_go_uint32 [simp]: "n < 4294967296 \<Longrightarrow> unat (go_uint32 n) = n"
  by (simp add: go_uint32_def unat_of_nat)

lemma go_byte_unat [simp]: "go_byte (unat b) = b"
  by (simp add: go_byte_def)

lemma go_uint16_unat [simp]: "go_uint16 (unat w) = w"
  by (simp add: go_uint16_def)

lemma go_uint32_unat [simp]: "go_uint32 (unat w) = w"
  by (simp add: go_uint32_def)

lemma unat_u8_less: "unat (b :: u8) < 256"
  using unsigned_less [of b] by simp

lemma unat_u16_less: "unat (w :: u16) < 65536"
  using unsigned_less [of w] by simp

lemma unat_u32_less: "unat (w :: u32) < 4294967296"
  using unsigned_less [of w] by simp

section \<open>Slices\<close>

lemma take_append_length [simp]: "length xs = n \<Longrightarrow> take n (xs @ ys) = xs"
  by simp

lemma drop_append_length [simp]: "length xs = n \<Longrightarrow> drop n (xs @ ys) = ys"
  by simp

lemma drop_Cons4 [simp]: "4 \<le> n \<Longrightarrow> drop n (a # b # c # d # xs) = drop (n - 4) xs"
  by (simp add: drop_Cons' eval_nat_numeral)

lemma drop_Cons8 [simp]:
  "8 \<le> n \<Longrightarrow> drop n (a # b # c # d # e # f # g # h # xs) = drop (n - 8) xs"
  by (simp add: drop_Cons' eval_nat_numeral)

lemma take_Cons4: "4 \<le> n \<Longrightarrow> take n (a # b # c # d # xs) = a # b # c # d # take (n - 4) xs"
  by (simp add: take_Cons' eval_nat_numeral)

lemma length4_cases:
  assumes "\<not> length xs < 4"
  obtains a b c d ys where "xs = a # b # c # d # ys"
  using assms by (auto simp: not_less Suc_le_length_iff numeral_eq_Suc)

lemma length8_cases:
  assumes "\<not> length xs < 8"
  obtains a b c d e f g h ys where "xs = a # b # c # d # e # f # g # h # ys"
  using assms by (auto simp: not_less Suc_le_length_iff numeral_eq_Suc)

end
