(* ===== verification/Go_Result.thy ===== *)
theory Go_Result
  imports Go_Base
begin

text \<open>
  Go's error results and slice accesses.  A function that returns \<^verbatim>\<open>(T, error)\<close> becomes a
  function into \<open>go_error + T\<close>.  An error is kept as its chain of sentinels, which is what
  \<^verbatim>\<open>errors.Is\<close> sees; the formatted text is dropped.  A slice expression or an index out of
  range panics in Go: the accesses below return \<open>Panic\<close> then, so that the absence of panics is a
  statement about the model and not an assumption of it.  A loop that stopped making progress would
  return \<open>Diverge\<close>.

  The theory also holds the interfaces the components share: \<open>codec\<close> and its extensions for a pair
  of an encoder and a decoder, and \<open>stream_item\<close> for the element parser of a loop over the
  remaining bytes.
\<close>

section \<open>Errors\<close>

text \<open>The sentinels of the modelled packages; \<open>Esp_\<close> and \<open>Eap_\<close> mark those of \<^verbatim>\<open>esp\<close> and
  \<^verbatim>\<open>eapaka\<close> whose names other packages use too.\<close>

datatype (plugins only: code) sentinel =
    ErrShortHeader | ErrShortPayload | ErrInvalidLength
  | ErrInvalidNotify | ErrIKEv2NotifyError | ErrNotifyUnsupportedCriticalPayload
  | ErrNotifyInvalidIKESPI | ErrNotifyInvalidMajorVersion | ErrNotifyInvalidSyntax
  | ErrNotifyInvalidMessageID | ErrNotifyInvalidSPI | ErrNotifyNoProposalChosen
  | ErrNotifyInvalidKEPayload | ErrNotifyAuthenticationFailed | ErrNotifySinglePairRequired
  | ErrNotifyNoAdditionalSAs | ErrNotifyInternalAddressFailure | ErrNotifyFailedCPRequired
  | ErrNotifyTSUnacceptable | ErrNotifyInvalidSelectors | ErrNotifyUnacceptableAddresses
  | ErrNotifyUnexpectedNATDetected | ErrInvalidDelete | ErrInvalidAddress
  | ErrInvalidSA | ErrUnsupportedSASelection
  | ErrInvalidIdentity | ErrInvalidConfiguration | ErrInvalidTrafficSelector
  | ErrInvalidEncryptedFragment | ErrInvalidAuthenticationPayload
  | ErrUnsupportedTransform | ErrUnsupportedPRF | ErrInvalidChildSA
  | ErrInvalidSKPayload | ErrInvalidInformational | ErrInvalidInitConfig | ErrInvalidInitResponse
  | Esp_ErrInvalidSA | Esp_ErrInvalidPacket | Esp_ErrReplay
  | Eap_ErrInvalidPacket | Eap_ErrInvalidAttribute | Eap_ErrInvalidCheckcode
  | ErrInvalidAKAChallenge | ErrInvalidEncryptedData | ErrInvalidMAC | ErrInvalidKeyMaterial
  | ErrInvalidReauth | ErrBiddingDown | ErrUnsupportedKDF | ErrSyncFailure | ErrAuthFailure
  | ErrInvalidPacketTunnel | ErrPacketTunnelClosed | ErrUnsupportedInnerPacket
  | ErrInvalidChildSARekeyPolicy | ErrInvalidIKELiveness | ErrInvalidIKEControl
  | ErrMOBIKEUpdateRejected | ErrInvalidCreateChild | ErrInvalidAuthConfig | ErrInvalidAuthResponse
  | ErrAKAUnsupported | ErrAKATemporaryFailure

record Notify =
  ntf_ProtocolID :: u8
  ntf_NotifyType :: u16
  ntf_SPI :: bytes
  ntf_NotificationData :: bytes

text \<open>
  \<open>Err s\<close> is \<^verbatim>\<open>s\<close> or \<^verbatim>\<open>fmt.Errorf("%w: ...", s)\<close>; \<open>Wrap s e\<close> is
  \<^verbatim>\<open>fmt.Errorf("%w: %w", s, e)\<close>; \<open>NotifyErr\<close> is a \<^verbatim>\<open>*NotifyError\<close>; \<open>Fmt\<close> is an
  error without a sentinel; \<open>ExtErr\<close> is an error handed in by a caller's handler, transport,
  context or random source, told apart by a number.
\<close>

datatype go_error =
    Err sentinel
  | Wrap sentinel go_error
  | NotifyErr Notify sentinel
  | Fmt string
  | ExtErr nat
  | Panic
  | Diverge

fun errors_Is :: "go_error \<Rightarrow> sentinel \<Rightarrow> bool" where
  "errors_Is (Err s) t = (s = t)"
| "errors_Is (Wrap s e) t = (s = t \<or> errors_Is e t)"
| "errors_Is (NotifyErr n s) t = (t = ErrIKEv2NotifyError \<or> t = s)"
| "errors_Is (Fmt m) t = False"
| "errors_Is (ExtErr k) t = False"
| "errors_Is Panic t = False"
| "errors_Is Diverge t = False"

type_synonym 'a res = "go_error + 'a"

text \<open>Sequencing: \<^verbatim>\<open>x, err := m; if err != nil { return err }; f(x)\<close>.\<close>

definition rbind :: "'a res \<Rightarrow> ('a \<Rightarrow> 'b res) \<Rightarrow> 'b res" where
  "rbind m f = (case m of Inl e \<Rightarrow> Inl e | Inr x \<Rightarrow> f x)"

lemma rbind_Inl [simp]: "rbind (Inl e) f = Inl e"
  by (simp add: rbind_def)

lemma rbind_Inr [simp]: "rbind (Inr x) f = f x"
  by (simp add: rbind_def)

lemma rbind_eq_Inr_iff: "rbind m f = Inr y \<longleftrightarrow> (\<exists>x. m = Inr x \<and> f x = Inr y)"
  by (cases m) auto

lemma rbind_eq_Inl_iff: "rbind m f = Inl e \<longleftrightarrow> m = Inl e \<or> (\<exists>x. m = Inr x \<and> f x = Inl e)"
  by (cases m) auto

lemma rbind_assoc: "rbind (rbind m f) g = rbind m (\<lambda>x. rbind (f x) g)"
  by (cases m) auto

lemma rbind_cong [fundef_cong]:
  "m = m' \<Longrightarrow> (\<And>x. m' = Inr x \<Longrightarrow> f x = g x) \<Longrightarrow> rbind m f = rbind m' g"
  by (cases m') auto

lemma not_isl_iff: "\<not> isl r \<longleftrightarrow> (\<exists>x. r = Inr x)"
  by (cases r) auto

text \<open>A result that is neither a panic nor a loop without progress.\<close>

definition safe :: "'a res \<Rightarrow> bool" where
  "safe r \<longleftrightarrow> r \<noteq> Inl Panic \<and> r \<noteq> Inl Diverge"

lemma safe_Inr [simp]: "safe (Inr x)"
  by (simp add: safe_def)

lemma safe_Inl [simp]: "safe (Inl e) \<longleftrightarrow> e \<noteq> Panic \<and> e \<noteq> Diverge"
  by (simp add: safe_def)

lemma safe_rbind: "safe m \<Longrightarrow> (\<And>x. m = Inr x \<Longrightarrow> safe (f x)) \<Longrightarrow> safe (rbind m f)"
  by (cases m) auto

lemma safe_if: "(P \<Longrightarrow> safe a) \<Longrightarrow> (\<not> P \<Longrightarrow> safe b) \<Longrightarrow> safe (if P then a else b)"
  by simp

text \<open>\<open>only_errs E r\<close>: when \<open>r\<close> is an error, it is one of \<open>E\<close>.\<close>

definition only_errs :: "go_error set \<Rightarrow> 'a res \<Rightarrow> bool" where
  "only_errs E r \<longleftrightarrow> (case r of Inl e \<Rightarrow> e \<in> E | Inr _ \<Rightarrow> True)"

lemma only_errs_simps [simp]: "only_errs E (Inl e) \<longleftrightarrow> e \<in> E" "only_errs E (Inr x)"
  by (simp_all add: only_errs_def)

lemma only_errs_rbind:
  "only_errs E m \<Longrightarrow> (\<And>x. m = Inr x \<Longrightarrow> only_errs E (f x)) \<Longrightarrow> only_errs E (rbind m f)"
  by (cases m) auto

lemma only_errs_if:
  "(P \<Longrightarrow> only_errs E a) \<Longrightarrow> (\<not> P \<Longrightarrow> only_errs E b) \<Longrightarrow> only_errs E (if P then a else b)"
  by simp

lemma only_errs_mono: "only_errs E r \<Longrightarrow> E \<subseteq> F \<Longrightarrow> only_errs F r"
  by (cases r) auto

lemma only_errs_safe: "only_errs E r \<Longrightarrow> Panic \<notin> E \<Longrightarrow> Diverge \<notin> E \<Longrightarrow> safe r"
  by (cases r) auto

section \<open>Checked slice accesses\<close>

definition idx :: "nat \<Rightarrow> 'a list \<Rightarrow> 'a res" where
  "idx i xs = (if i < length xs then Inr (xs ! i) else Inl Panic)"

text \<open>\<open>sub a b xs\<close> is \<^verbatim>\<open>xs[a:b]\<close>.\<close>

definition sub :: "nat \<Rightarrow> nat \<Rightarrow> 'a list \<Rightarrow> 'a list res" where
  "sub a b xs = (if a \<le> b \<and> b \<le> length xs then Inr (take (b - a) (drop a xs)) else Inl Panic)"

text \<open>\<^verbatim>\<open>xs[a:b]\<close> with bounds that are Go \<^verbatim>\<open>int\<close>s and may be negative.\<close>

definition subi :: "int \<Rightarrow> int \<Rightarrow> 'a list \<Rightarrow> 'a list res" where
  "subi a b xs = (if a < 0 \<or> b < 0 then Inl Panic else sub (nat a) (nat b) xs)"

text \<open>\<open>copy_at k xs src\<close> is \<^verbatim>\<open>xs\<close> after \<^verbatim>\<open>copy(xs[k:], src)\<close>, which copies as many
  elements as fit.\<close>

definition copy_at :: "nat \<Rightarrow> 'a list \<Rightarrow> 'a list \<Rightarrow> 'a list" where
  "copy_at k xs src = take k xs @ take (length xs - k) src @ drop (k + length src) xs"

definition u16_at :: "nat \<Rightarrow> bytes \<Rightarrow> u16 res" where
  "u16_at i xs = rbind (sub i (i + 2) xs) (\<lambda>b. Inr (u16_of (b ! 0) (b ! 1)))"

definition u32_at :: "nat \<Rightarrow> bytes \<Rightarrow> u32 res" where
  "u32_at i xs = rbind (sub i (i + 4) xs) (\<lambda>b. Inr (u32_of (b ! 0) (b ! 1) (b ! 2) (b ! 3)))"

definition u64_at :: "nat \<Rightarrow> bytes \<Rightarrow> u64 res" where
  "u64_at i xs = rbind (sub i (i + 8) xs)
     (\<lambda>b. Inr (u64_of (b ! 0) (b ! 1) (b ! 2) (b ! 3) (b ! 4) (b ! 5) (b ! 6) (b ! 7)))"

lemma idx_ok [simp]: "i < length xs \<Longrightarrow> idx i xs = Inr (xs ! i)"
  by (simp add: idx_def)

lemma sub_ok [simp]: "a \<le> b \<Longrightarrow> b \<le> length xs \<Longrightarrow> sub a b xs = Inr (take (b - a) (drop a xs))"
  by (simp add: sub_def)

lemma subi_ok [simp]:
  "0 \<le> a \<Longrightarrow> a \<le> b \<Longrightarrow> b \<le> int (length xs) \<Longrightarrow> subi a b xs = Inr (take (nat b - nat a) (drop (nat a) xs))"
  by (auto simp: subi_def sub_def)

lemma copy_at_append [simp]:
  "length ys = length src \<Longrightarrow> length xs = k \<Longrightarrow> copy_at k (xs @ ys) src = xs @ src"
  by (simp add: copy_at_def)

lemma u16_at_ok [simp]: "i + 2 \<le> length xs \<Longrightarrow> u16_at i xs = Inr (u16_of (xs ! i) (xs ! Suc i))"
  by (simp add: u16_at_def)

lemma u32_at_ok [simp]:
  "i + 4 \<le> length xs \<Longrightarrow>
   u32_at i xs = Inr (u32_of (xs ! i) (xs ! (i + 1)) (xs ! (i + 2)) (xs ! (i + 3)))"
  by (simp add: u32_at_def)

lemma u64_at_ok [simp]:
  "i + 8 \<le> length xs \<Longrightarrow>
   u64_at i xs = Inr (u64_of (xs ! i) (xs ! (i + 1)) (xs ! (i + 2)) (xs ! (i + 3))
      (xs ! (i + 4)) (xs ! (i + 5)) (xs ! (i + 6)) (xs ! (i + 7)))"
  by (simp add: u64_at_def)

section \<open>Loops over the remaining bytes\<close>

text \<open>
  \<open>many item data\<close> is the loop \<^verbatim>\<open>for len(data) > 0 { x, data = item(data); out = append(out, x) }\<close>
  that returns at the first error.  An \<open>item\<close> that does not consume its input would make the Go
  loop run forever.
\<close>

function many :: "(bytes \<Rightarrow> ('a \<times> bytes) res) \<Rightarrow> bytes \<Rightarrow> 'a list res" where
  "many item data =
     (if data = [] then Inr []
      else rbind (item data) (\<lambda>(x, rest).
        if length rest < length data
        then rbind (many item rest) (\<lambda>xs. Inr (x # xs))
        else Inl Diverge))"
  by pat_completeness auto
termination
  by (relation "measure (\<lambda>(item, data). length data)") auto

declare many.simps [simp del]

lemma many_Nil [simp]: "many item [] = Inr []"
  by (simp add: many.simps)

lemma many_step:
  "data \<noteq> [] \<Longrightarrow> item data = Inr (x, rest) \<Longrightarrow> length rest < length data \<Longrightarrow>
   many item data = rbind (many item rest) (\<lambda>xs. Inr (x # xs))"
  by (simp add: many.simps [of item data])

lemma many_error: "data \<noteq> [] \<Longrightarrow> item data = Inl e \<Longrightarrow> many item data = Inl e"
  by (simp add: many.simps [of item data])

lemma many_safe:
  assumes ok: "\<And>d. d \<noteq> [] \<Longrightarrow> safe (item d)"
    and shrink: "\<And>d x rest. item d = Inr (x, rest) \<Longrightarrow> length rest < length d"
  shows "safe (many item data)"
proof (induction data rule: length_induct)
  case (1 data)
  show ?case
  proof (cases "data = []")
    case False
    have "safe (item data)" using False by (rule ok)
    then show ?thesis
      using False 1 shrink
      by (subst many.simps) (auto intro!: safe_rbind split: if_splits)
  qed simp
qed

lemma many_only_errs:
  assumes ok: "\<And>d. d \<noteq> [] \<Longrightarrow> only_errs E (item d)"
    and shrink: "\<And>d x rest. item d = Inr (x, rest) \<Longrightarrow> length rest < length d"
  shows "only_errs E (many item data)"
proof (induction data rule: length_induct)
  case (1 data)
  show ?case
  proof (cases "data = []")
    case False
    have "only_errs E (item data)" using False by (rule ok)
    then show ?thesis
      using False 1 shrink
      by (subst many.simps) (auto intro!: only_errs_rbind split: if_splits)
  qed simp
qed

lemma many_all:
  assumes "many item data = Inr xs" and "\<And>d x rest. item d = Inr (x, rest) \<Longrightarrow> P x"
  shows "\<forall>x \<in> set xs. P x"
  using assms(1)
proof (induction data arbitrary: xs rule: length_induct)
  case (1 data)
  then show ?case
    using assms(2)
    by (cases "data = []") (fastforce simp: many.simps [of item data] rbind_eq_Inr_iff split: if_splits)+
qed

section \<open>Interfaces\<close>

text \<open>
  An encoder and a decoder with the values the encoder is meant for.  A \<open>codec\<close> decodes what it
  encodes; a \<open>lenient_codec\<close> also decodes other byte strings, to values it can encode again; an
  \<open>exact_codec\<close> decodes nothing but its own encodings.
\<close>

locale codec =
  fixes enc :: "'a \<Rightarrow> bytes res" and dec :: "bytes \<Rightarrow> 'a res" and wf :: "'a \<Rightarrow> bool"
  assumes enc_total: "wf x \<Longrightarrow> \<exists>b. enc x = Inr b"
    and dec_enc: "wf x \<Longrightarrow> enc x = Inr b \<Longrightarrow> dec b = Inr x"
begin

lemma roundtrip: "wf x \<Longrightarrow> rbind (enc x) dec = Inr x"
  using enc_total dec_enc by fastforce

lemma enc_inj: "wf x \<Longrightarrow> wf y \<Longrightarrow> enc x = enc y \<Longrightarrow> x = y"
  by (metis roundtrip sum.inject(2))

end

locale lenient_codec = codec +
  assumes dec_wf: "dec b = Inr x \<Longrightarrow> wf x"
begin

lemma reencode: "dec b = Inr x \<Longrightarrow> \<exists>b'. enc x = Inr b' \<and> dec b' = Inr x"
  using dec_wf enc_total dec_enc by blast

lemma wf_iff_encodable: "wf x \<longleftrightarrow> (\<exists>b. dec b = Inr x)"
  using dec_wf enc_total dec_enc by blast

end

locale exact_codec = lenient_codec +
  assumes enc_dec: "dec b = Inr x \<Longrightarrow> enc x = Inr b"
begin

lemma dec_inj: "dec b = Inr x \<Longrightarrow> dec b' = Inr x \<Longrightarrow> b = b'"
  using enc_dec by (metis sum.inject(2))

lemma dec_iff_enc: "dec b = Inr x \<longleftrightarrow> wf x \<and> enc x = Inr b"
  using dec_wf enc_dec dec_enc by blast

end

text \<open>
  The element parser of a \<open>many\<close> loop with the encoder of one element: it returns the element and
  the bytes that follow it, and always consumes something.
\<close>

locale stream_item =
  fixes enc1 :: "'a \<Rightarrow> bytes" and item :: "bytes \<Rightarrow> ('a \<times> bytes) res" and wf1 :: "'a \<Rightarrow> bool"
  assumes item_enc1: "wf1 x \<Longrightarrow> item (enc1 x @ rest) = Inr (x, rest)"
    and enc1_nonempty: "wf1 x \<Longrightarrow> enc1 x \<noteq> []"
    and item_shrinks: "item d = Inr (x, rest) \<Longrightarrow> length rest < length d"
    and item_safe: "d \<noteq> [] \<Longrightarrow> safe (item d)"
begin

lemma many_enc: "list_all wf1 xs \<Longrightarrow> many item (concat (map enc1 xs)) = Inr xs"
proof (induction xs)
  case (Cons x xs)
  then have "item (enc1 x @ concat (map enc1 xs)) = Inr (x, concat (map enc1 xs))"
    and "enc1 x \<noteq> []"
    using item_enc1 enc1_nonempty by auto
  with Cons show ?case by (simp add: many_step)
qed simp

lemma many_returns: "safe (many item d)"
  using item_safe item_shrinks by (rule many_safe)

lemma many_error_first:
  assumes "list_all wf1 xs" and "d \<noteq> []" and "item d = Inl e"
  shows "many item (concat (map enc1 xs) @ d) = Inl e"
  using assms(1)
proof (induction xs)
  case Nil
  with assms show ?case by (simp add: many_error)
next
  case (Cons x xs)
  then have "item (enc1 x @ concat (map enc1 xs) @ d) = Inr (x, concat (map enc1 xs) @ d)"
    and "enc1 x \<noteq> []"
    using item_enc1 enc1_nonempty by auto
  with Cons show ?case by (simp add: many_step)
qed

end

text \<open>When the element encoder is also a left inverse, the loop accepts encodings only.\<close>

locale exact_stream_item = stream_item +
  assumes enc1_item: "item d = Inr (x, rest) \<Longrightarrow> wf1 x \<and> d = enc1 x @ rest"
begin

lemma many_exact: "many item d = Inr xs \<Longrightarrow> list_all wf1 xs \<and> d = concat (map enc1 xs)"
proof (induction d arbitrary: xs rule: length_induct)
  case (1 d)
  show ?case
  proof (cases "d = []")
    case True
    with 1 show ?thesis by simp
  next
    case False
    with 1(2) obtain x rest ys where
      x: "item d = Inr (x, rest)" and "many item rest = Inr ys" "xs = x # ys" "length rest < length d"
      by (auto simp: many.simps [of item d] rbind_eq_Inr_iff split: if_splits)
    with 1(1) have "list_all wf1 ys \<and> rest = concat (map enc1 ys)" by blast
    with enc1_item [OF x] \<open>xs = x # ys\<close> show ?thesis by simp
  qed
qed

lemma many_iff: "many item d = Inr xs \<longleftrightarrow> list_all wf1 xs \<and> d = concat (map enc1 xs)"
  using many_enc many_exact by blast

end

section \<open>Folding a checked encoder over a list\<close>

text \<open>\<open>encode_all f xs\<close> is the loop that appends \<^verbatim>\<open>f(x)\<close> for each \<^verbatim>\<open>x\<close> and returns
  at the first error.\<close>

fun encode_all :: "('a \<Rightarrow> bytes res) \<Rightarrow> 'a list \<Rightarrow> bytes res" where
  "encode_all f [] = Inr []"
| "encode_all f (x # xs) = rbind (f x) (\<lambda>b. rbind (encode_all f xs) (\<lambda>bs. Inr (b @ bs)))"

lemma encode_all_concat:
  "(\<And>x. x \<in> set xs \<Longrightarrow> f x = Inr (g x)) \<Longrightarrow> encode_all f xs = Inr (concat (map g xs))"
  by (induction xs) auto

lemma encode_all_Inr_D: "encode_all f xs = Inr bs \<Longrightarrow> x \<in> set xs \<Longrightarrow> \<exists>b. f x = Inr b"
  by (induction xs arbitrary: bs) (auto simp: rbind_eq_Inr_iff)

lemma encode_all_safe: "(\<And>x. safe (f x)) \<Longrightarrow> safe (encode_all f xs)"
  by (induction xs) (auto intro!: safe_rbind)

end
