(* ===== verification/IKE_Types.thy ===== *)
theory IKE_Types
  imports Go_Result
begin

text \<open>
  \<^verbatim>\<open>engine/swu/ikev2/types.go\<close>: the IKEv2 header, the chain of generic payloads and the whole
  message, each with its encoder and decoder.  The section on properties shows that the header and
  the message decode to what was encoded, that a decoded payload chain can be encoded again without
  changing its meaning, and that no input makes the decoders panic.
\<close>

section \<open>Constants\<close>

abbreviation PayloadNoNext :: u8 where "PayloadNoNext \<equiv> 0"
abbreviation PayloadSA :: u8 where "PayloadSA \<equiv> 33"
abbreviation PayloadKE :: u8 where "PayloadKE \<equiv> 34"
abbreviation PayloadIDi :: u8 where "PayloadIDi \<equiv> 35"
abbreviation PayloadIDr :: u8 where "PayloadIDr \<equiv> 36"
abbreviation PayloadAUTH :: u8 where "PayloadAUTH \<equiv> 39"
abbreviation PayloadNonce :: u8 where "PayloadNonce \<equiv> 40"
abbreviation PayloadNotify :: u8 where "PayloadNotify \<equiv> 41"
abbreviation PayloadDelete :: u8 where "PayloadDelete \<equiv> 42"
abbreviation PayloadTSi :: u8 where "PayloadTSi \<equiv> 44"
abbreviation PayloadTSr :: u8 where "PayloadTSr \<equiv> 45"
abbreviation PayloadSK :: u8 where "PayloadSK \<equiv> 46"
abbreviation PayloadCP :: u8 where "PayloadCP \<equiv> 47"
abbreviation PayloadEAP :: u8 where "PayloadEAP \<equiv> 48"
abbreviation PayloadSKF :: u8 where "PayloadSKF \<equiv> 53"

abbreviation ExchangeIKE_SA_INIT :: u8 where "ExchangeIKE_SA_INIT \<equiv> 34"
abbreviation ExchangeIKE_AUTH :: u8 where "ExchangeIKE_AUTH \<equiv> 35"
abbreviation ExchangeCREATE_CHILD_SA :: u8 where "ExchangeCREATE_CHILD_SA \<equiv> 36"
abbreviation ExchangeINFORMATIONAL :: u8 where "ExchangeINFORMATIONAL \<equiv> 37"

abbreviation FlagInitiator :: u8 where "FlagInitiator \<equiv> 0x08"
abbreviation FlagVersion :: u8 where "FlagVersion \<equiv> 0x10"
abbreviation FlagResponse :: u8 where "FlagResponse \<equiv> 0x20"

abbreviation HeaderLength :: nat where "HeaderLength \<equiv> 28"

section \<open>The header\<close>

record Header =
  hdr_InitiatorSPI :: u64
  hdr_ResponderSPI :: u64
  hdr_NextPayload :: u8
  hdr_Version :: u8
  hdr_ExchangeType :: u8
  hdr_Flags :: u8
  hdr_MessageID :: u32
  hdr_Length :: u32

definition Header_MarshalBinary :: "Header \<Rightarrow> bytes res" where
  "Header_MarshalBinary h =
     (let version = (if hdr_Version h = 0 then 0x20 else hdr_Version h);
          length' = (if hdr_Length h = 0 then go_uint32 HeaderLength else hdr_Length h)
      in if unat length' < HeaderLength then Inl (Err ErrInvalidLength)
         else Inr (PutUint64 (hdr_InitiatorSPI h) @ PutUint64 (hdr_ResponderSPI h) @
                   [hdr_NextPayload h, version, hdr_ExchangeType h, hdr_Flags h] @
                   PutUint32 (hdr_MessageID h) @ PutUint32 length'))"

definition ParseHeader :: "bytes \<Rightarrow> Header res" where
  "ParseHeader data =
     (if length data < HeaderLength then Inl (Err ErrShortHeader)
      else
        rbind (u64_at 0 data) (\<lambda>spiI.
        rbind (u64_at 8 data) (\<lambda>spiR.
        rbind (idx 16 data) (\<lambda>nxt.
        rbind (idx 17 data) (\<lambda>version.
        rbind (idx 18 data) (\<lambda>exchange.
        rbind (idx 19 data) (\<lambda>flags.
        rbind (u32_at 20 data) (\<lambda>msgID.
        rbind (u32_at 24 data) (\<lambda>len.
          if unat len < HeaderLength then Inl (Err ErrInvalidLength)
          else if unat len > length data then Inl (Err ErrInvalidLength)
          else Inr \<lparr>hdr_InitiatorSPI = spiI, hdr_ResponderSPI = spiR, hdr_NextPayload = nxt,
                    hdr_Version = version, hdr_ExchangeType = exchange, hdr_Flags = flags,
                    hdr_MessageID = msgID, hdr_Length = len\<rparr>)))))))))"

section \<open>The payload chain\<close>

record Payload =
  pl_Type :: u8
  pl_NextPayload :: u8
  pl_Critical :: bool
  pl_Body :: bytes

abbreviation mkPayload :: "u8 \<Rightarrow> bytes \<Rightarrow> Payload" where
  "mkPayload t b \<equiv> \<lparr>pl_Type = t, pl_NextPayload = 0, pl_Critical = False, pl_Body = b\<rparr>"

definition isEncryptedPayload :: "u8 \<Rightarrow> bool" where
  "isEncryptedPayload payloadType \<longleftrightarrow> payloadType = PayloadSK \<or> payloadType = PayloadSKF"

text \<open>The loop of \<^verbatim>\<open>MarshalPayloads\<close>; \<open>rest\<close> tells whether \<^verbatim>\<open>i+1 < len(payloads)\<close>.\<close>

fun marshalPayloads_loop :: "Payload list \<Rightarrow> bytes res" where
  "marshalPayloads_loop [] = Inr []"
| "marshalPayloads_loop (p # rest) =
     (if isEncryptedPayload (pl_Type p) \<and> rest \<noteq> [] then Inl (Err ErrInvalidLength)
      else
        let nxt = (if isEncryptedPayload (pl_Type p) then pl_NextPayload p
                   else case rest of [] \<Rightarrow> PayloadNoNext | q # _ \<Rightarrow> pl_Type q)
        in if length (pl_Body p) + 4 > 0xffff then Inl (Err ErrInvalidLength)
           else
             let flags = (if pl_Critical p then 0x80 else 0);
                 hdr = [nxt, flags] @ PutUint16 (go_uint16 (length (pl_Body p) + 4))
             in rbind (marshalPayloads_loop rest) (\<lambda>bs. Inr (hdr @ pl_Body p @ bs)))"

definition MarshalPayloads :: "Payload list \<Rightarrow> (u8 \<times> bytes) res" where
  "MarshalPayloads payloads =
     (case payloads of [] \<Rightarrow> Inr (PayloadNoNext, [])
      | p # _ \<Rightarrow> rbind (marshalPayloads_loop payloads) (\<lambda>bs. Inr (pl_Type p, bs)))"

text \<open>One iteration of the loop of \<^verbatim>\<open>ParsePayloads\<close>: the payload, the next type and the rest.\<close>

definition parsePayload1 :: "u8 \<Rightarrow> bytes \<Rightarrow> (Payload \<times> u8 \<times> bytes) res" where
  "parsePayload1 current rest =
     (if length rest < 4 then Inl (Err ErrShortPayload)
      else
        rbind (u16_at 2 rest) (\<lambda>len16.
        let len = unat len16 in
        if len < 4 \<or> len > length rest then Inl (Err ErrInvalidLength)
        else
          rbind (idx 0 rest) (\<lambda>b0.
          rbind (idx 1 rest) (\<lambda>b1.
          rbind (sub 4 len rest) (\<lambda>body.
          rbind (sub len (length rest) rest) (\<lambda>rest'.
            Inr (\<lparr>pl_Type = current, pl_NextPayload = b0, pl_Critical = (b1 AND 0x80 \<noteq> 0),
                  pl_Body = body\<rparr>,
                 if isEncryptedPayload current then PayloadNoNext else b0,
                 rest')))))))"

lemma parsePayload1_shrinks [simp]:
  "parsePayload1 t d = Inr (p, n, rest) \<Longrightarrow> length rest < length d"
  by (auto simp: parsePayload1_def Let_def rbind_eq_Inr_iff sub_def split: if_splits)

function ParsePayloads :: "u8 \<Rightarrow> bytes \<Rightarrow> Payload list res" where
  "ParsePayloads nxt rest =
     (if nxt = PayloadNoNext
      then (if rest \<noteq> [] then Inl (Err ErrInvalidLength) else Inr [])
      else rbind (parsePayload1 nxt rest) (\<lambda>(p, nxt', rest').
             rbind (ParsePayloads nxt' rest') (\<lambda>ps. Inr (p # ps))))"
  by pat_completeness auto
termination
  by (relation "measure (\<lambda>(nxt, rest). length rest)") auto

declare ParsePayloads.simps [simp del]

section \<open>The message\<close>

record Message =
  msg_Header :: Header
  msg_Payloads :: "Payload list"

definition Message_MarshalBinary :: "Message \<Rightarrow> bytes res" where
  "Message_MarshalBinary m =
     rbind (MarshalPayloads (msg_Payloads m)) (\<lambda>(first, payloadBytes).
     rbind (Header_MarshalBinary ((msg_Header m)
              \<lparr>hdr_NextPayload := first,
               hdr_Length := go_uint32 (HeaderLength + length payloadBytes)\<rparr>)) (\<lambda>headerBytes.
       Inr (headerBytes @ payloadBytes)))"

definition ParseMessage :: "bytes \<Rightarrow> Message res" where
  "ParseMessage data =
     rbind (ParseHeader data) (\<lambda>h.
     rbind (sub HeaderLength (unat (hdr_Length h)) data) (\<lambda>body.
     rbind (ParsePayloads (hdr_NextPayload h) body) (\<lambda>payloads.
       Inr \<lparr>msg_Header = h, msg_Payloads = payloads\<rparr>)))"

section \<open>Properties\<close>

subsection \<open>The header\<close>

text \<open>A header the decoder returns unchanged: its version is set and its length covers the header.\<close>

definition header_wf :: "Header \<Rightarrow> bool" where
  "header_wf h \<longleftrightarrow> hdr_Version h \<noteq> 0 \<and> HeaderLength \<le> unat (hdr_Length h)"

lemma Header_MarshalBinary_length [codec_simps]:
  "Header_MarshalBinary h = Inr b \<Longrightarrow> length b = 28"
  by (auto simp: Header_MarshalBinary_def Let_def split: if_splits)

lemma ParseHeader_append:
  assumes "header_wf h" and "Header_MarshalBinary h = Inr b"
    and "unat (hdr_Length h) \<le> HeaderLength + length rest"
  shows "ParseHeader (b @ rest) = Inr h"
  using assms
  by (auto simp: ParseHeader_def Header_MarshalBinary_def header_wf_def Let_def
        PutUint64_def PutUint32_def split: if_splits)

lemma ParseHeader_short: "length data < 28 \<Longrightarrow> ParseHeader data = Inl (Err ErrShortHeader)"
  by (simp add: ParseHeader_def)

lemma ParseHeader_errs:
  "only_errs {Err ErrShortHeader, Err ErrInvalidLength} (ParseHeader data)"
  by (auto simp: ParseHeader_def intro!: only_errs_rbind only_errs_if)

lemma ParseHeader_bounds:
  "ParseHeader data = Inr h \<Longrightarrow> 28 \<le> unat (hdr_Length h) \<and> unat (hdr_Length h) \<le> length data"
  by (auto simp: ParseHeader_def rbind_eq_Inr_iff split: if_splits)

subsection \<open>The payload chain\<close>

definition first_type :: "Payload list \<Rightarrow> u8" where
  "first_type ps = (case ps of [] \<Rightarrow> PayloadNoNext | p # _ \<Rightarrow> pl_Type p)"

text \<open>The next-payload octets the encoder writes, recorded in the payloads themselves.\<close>

fun link_payloads :: "Payload list \<Rightarrow> Payload list" where
  "link_payloads [] = []"
| "link_payloads (p # rest) =
     (if isEncryptedPayload (pl_Type p) then p else p\<lparr>pl_NextPayload := first_type rest\<rparr>)
     # link_payloads rest"

text \<open>Payloads that fit their length field, none of type zero, an encrypted one at the end only.\<close>

fun payloads_wf :: "Payload list \<Rightarrow> bool" where
  "payloads_wf [] = True"
| "payloads_wf (p # rest) \<longleftrightarrow>
     pl_Type p \<noteq> 0 \<and> length (pl_Body p) + 4 \<le> 0xffff \<and>
     (isEncryptedPayload (pl_Type p) \<longrightarrow> rest = []) \<and> payloads_wf rest"

definition payload_enc :: "Payload \<Rightarrow> bytes" where
  "payload_enc p = [pl_NextPayload p, if pl_Critical p then 0x80 else 0] @
     PutUint16 (go_uint16 (length (pl_Body p) + 4)) @ pl_Body p"

definition payloads_enc :: "Payload list \<Rightarrow> bytes" where
  "payloads_enc ps = concat (map payload_enc (link_payloads ps))"

lemma first_type_simps [simp]:
  "first_type [] = 0" "first_type (p # ps) = pl_Type p"
  by (simp_all add: first_type_def)

lemma link_payloads_link [simp]: "link_payloads (link_payloads ps) = link_payloads ps"
  by (induction ps) (auto simp: first_type_def split: list.splits)

lemma link_payloads_eq_Nil [simp]: "link_payloads ps = [] \<longleftrightarrow> ps = []"
  by (cases ps) auto

lemma payloads_wf_link [simp]: "payloads_wf (link_payloads ps) = payloads_wf ps"
  by (induction ps) (auto split: list.splits)

lemma first_type_link [simp]: "first_type (link_payloads ps) = first_type ps"
  by (cases ps) auto

lemma length_payload_enc [simp]: "length (payload_enc p) = 4 + length (pl_Body p)"
  by (simp add: payload_enc_def)

lemma length_payloads_enc: "length (payloads_enc ps) = (\<Sum>p\<leftarrow>ps. 4 + length (pl_Body p))"
  unfolding payloads_enc_def by (induction ps) auto

lemma payloads_enc_simps [simp]:
  "payloads_enc [] = []"
  "payloads_enc (p # ps) =
     payload_enc (if isEncryptedPayload (pl_Type p) then p else p\<lparr>pl_NextPayload := first_type ps\<rparr>)
     @ payloads_enc ps"
  by (simp_all add: payloads_enc_def)

lemma marshalPayloads_loop_wf:
  "payloads_wf ps \<Longrightarrow> marshalPayloads_loop ps = Inr (payloads_enc ps)"
  by (induction ps) (auto simp: payload_enc_def first_type_def Let_def split: list.splits)

lemma MarshalPayloads_wf:
  "payloads_wf ps \<Longrightarrow> MarshalPayloads ps = Inr (first_type ps, payloads_enc ps)"
  using marshalPayloads_loop_wf [of ps] by (cases ps) (simp_all add: MarshalPayloads_def del: payloads_enc_simps)

text \<open>One iteration on a chain that has the four header octets.\<close>

lemma parsePayload1_Cons [codec_simps]:
  "parsePayload1 t (a # b # c # e # ys) =
     (let len = unat (u16_of c e) in
      if len < 4 \<or> len > 4 + length ys then Inl (Err ErrInvalidLength)
      else Inr (\<lparr>pl_Type = t, pl_NextPayload = a, pl_Critical = (b AND 0x80 \<noteq> 0),
                 pl_Body = take (len - 4) ys\<rparr>,
                if isEncryptedPayload t then 0 else a, drop (len - 4) ys))"
  by (auto simp: parsePayload1_def Let_def)

lemma parsePayload1_short:
  "length d < 4 \<Longrightarrow> parsePayload1 t d = Inl (Err ErrShortPayload)"
  by (simp add: parsePayload1_def)

lemma parsePayload1_enc:
  "length (pl_Body p) + 4 \<le> 0xffff \<Longrightarrow>
   parsePayload1 (pl_Type p) (payload_enc p @ rest)
     = Inr (p, if isEncryptedPayload (pl_Type p) then 0 else pl_NextPayload p, rest)"
  by (auto simp: parsePayload1_Cons payload_enc_def PutUint16_def Let_def)

lemma ParsePayloads_enc:
  "payloads_wf ps \<Longrightarrow> ParsePayloads (first_type ps) (payloads_enc ps) = Inr (link_payloads ps)"
proof (induction ps)
  case (Cons p ps)
  let ?q = "if isEncryptedPayload (pl_Type p) then p else p\<lparr>pl_NextPayload := first_type ps\<rparr>"
  have q: "pl_Type ?q = pl_Type p" "pl_Body ?q = pl_Body p" by simp_all
  have "parsePayload1 (pl_Type p) (payload_enc ?q @ payloads_enc ps)
      = Inr (?q, first_type ps, payloads_enc ps)"
    using parsePayload1_enc [of ?q "payloads_enc ps"] Cons.prems by (auto split: if_splits)
  with Cons show ?case by (simp add: ParsePayloads.simps [of "pl_Type p"])
qed (simp add: ParsePayloads.simps)

lemma parsePayload1_wf:
  assumes "parsePayload1 t d = Inr (p, n, rest)"
  shows "pl_Type p = t \<and> length (pl_Body p) + 4 \<le> 0xffff \<and>
    length d = 4 + length (pl_Body p) + length rest \<and>
    n = (if isEncryptedPayload t then 0 else pl_NextPayload p)"
proof (cases "length d < 4")
  case True
  with assms show ?thesis by (simp add: parsePayload1_short)
next
  case False
  then obtain a b c e ys where d: "d = a # b # c # e # ys" by (rule length4_cases)
  with assms unat_u16_less [of "u16_of c e"] show ?thesis
    by (auto simp: parsePayload1_Cons Let_def split: if_splits)
qed

lemma ParsePayloads_wf:
  "ParsePayloads t d = Inr ps \<Longrightarrow>
   payloads_wf ps \<and> link_payloads ps = ps \<and> first_type ps = t \<and>
   length d = (\<Sum>p\<leftarrow>ps. 4 + length (pl_Body p))"
proof (induction t d arbitrary: ps rule: ParsePayloads.induct)
  case (1 nxt rest)
  show ?case
  proof (cases "nxt = 0")
    case True
    with 1(2) show ?thesis by (auto simp: ParsePayloads.simps [of 0] split: if_splits)
  next
    case False
    with 1(2) obtain p n rest' qs where
      p: "parsePayload1 nxt rest = Inr (p, n, rest')"
      and qs: "ParsePayloads n rest' = Inr qs" and ps: "ps = p # qs"
      by (auto simp: ParsePayloads.simps [of nxt] rbind_eq_Inr_iff)
    have IH: "payloads_wf qs \<and> link_payloads qs = qs \<and> first_type qs = n \<and>
        length rest' = (\<Sum>p\<leftarrow>qs. 4 + length (pl_Body p))"
      using 1(1) [OF False p refl refl qs] .
    have end_if_encrypted: "qs = []" if "isEncryptedPayload nxt"
      using that parsePayload1_wf [OF p] qs
      by (auto simp: ParsePayloads.simps [of 0] split: if_splits)
    show ?thesis
      using IH ps False parsePayload1_wf [OF p] end_if_encrypted by auto
  qed
qed

lemma parsePayload1_errs:
  "only_errs {Err ErrShortPayload, Err ErrInvalidLength} (parsePayload1 t d)"
  by (cases "length d < 4")
    (auto simp: parsePayload1_short parsePayload1_Cons Let_def elim!: length4_cases)

lemma ParsePayloads_errs:
  "only_errs {Err ErrShortPayload, Err ErrInvalidLength} (ParsePayloads t d)"
proof (induction t d rule: ParsePayloads.induct)
  case (1 nxt rest)
  then show ?case
    by (subst ParsePayloads.simps) (auto intro!: only_errs_rbind simp: parsePayload1_errs)
qed

lemma payloads_wf_if_marshals:
  "marshalPayloads_loop ps = Inr bs \<Longrightarrow> list_all (\<lambda>p. pl_Type p \<noteq> 0) ps \<Longrightarrow> payloads_wf ps"
  by (induction ps arbitrary: bs) (auto simp: Let_def rbind_eq_Inr_iff split: if_splits)

lemma MarshalPayloads_Inr:
  assumes "MarshalPayloads ps = Inr (t, bs)" and "list_all (\<lambda>p. pl_Type p \<noteq> 0) ps"
  shows "payloads_wf ps \<and> t = first_type ps \<and> bs = payloads_enc ps"
proof -
  have "marshalPayloads_loop ps = Inr bs"
    using assms(1)
    by (auto simp: MarshalPayloads_def rbind_eq_Inr_iff simp del: marshalPayloads_loop.simps(2)
        split: list.splits)
  then have "payloads_wf ps" using assms(2) by (rule payloads_wf_if_marshals)
  with assms(1) show ?thesis by (simp add: MarshalPayloads_wf)
qed

subsection \<open>The message\<close>

text \<open>A message as the decoder returns it: the header's length and next-payload fields describe
  the chain, the version is set, and the total length fits the thirty-two-bit field.\<close>

definition message_wf :: "Message \<Rightarrow> bool" where
  "message_wf m \<longleftrightarrow>
     hdr_Version (msg_Header m) \<noteq> 0 \<and>
     payloads_wf (msg_Payloads m) \<and> link_payloads (msg_Payloads m) = msg_Payloads m \<and>
     hdr_NextPayload (msg_Header m) = first_type (msg_Payloads m) \<and>
     unat (hdr_Length (msg_Header m)) = 28 + length (payloads_enc (msg_Payloads m))"

lemma Message_MarshalBinary_wf:
  assumes "message_wf m"
  shows "\<exists>hb. Header_MarshalBinary (msg_Header m) = Inr hb \<and>
    Message_MarshalBinary m = Inr (hb @ payloads_enc (msg_Payloads m))"
proof -
  let ?h = "msg_Header m" and ?ps = "msg_Payloads m"
  have len: "go_uint32 (28 + length (payloads_enc ?ps)) = hdr_Length ?h"
    using assms go_uint32_unat [of "hdr_Length ?h"] by (simp add: message_wf_def)
  have h: "?h\<lparr>hdr_NextPayload := first_type ?ps,
      hdr_Length := go_uint32 (28 + length (payloads_enc ?ps))\<rparr> = ?h"
    using assms len by (simp add: message_wf_def)
  obtain hb where "Header_MarshalBinary ?h = Inr hb"
    using assms by (fastforce simp: message_wf_def Header_MarshalBinary_def Let_def)
  with h assms show ?thesis
    by (simp add: Message_MarshalBinary_def MarshalPayloads_wf message_wf_def)
qed

lemma ParseMessage_enc:
  assumes m: "message_wf m" and hb: "Header_MarshalBinary (msg_Header m) = Inr hb"
  shows "ParseMessage (hb @ payloads_enc (msg_Payloads m)) = Inr m"
proof -
  have "header_wf (msg_Header m)"
    using m by (simp add: message_wf_def header_wf_def)
  with m hb have "ParseHeader (hb @ payloads_enc (msg_Payloads m)) = Inr (msg_Header m)"
    by (intro ParseHeader_append) (auto simp: message_wf_def)
  moreover have "length hb = 28" using hb by (rule Header_MarshalBinary_length)
  ultimately show ?thesis
    using m ParsePayloads_enc [of "msg_Payloads m"]
    by (simp add: ParseMessage_def message_wf_def)
qed

interpretation message: codec Message_MarshalBinary ParseMessage message_wf
  by unfold_locales (metis Message_MarshalBinary_wf ParseMessage_enc sum.inject(2))+

lemma ParseMessage_wf:
  assumes "ParseMessage b = Inr m" and "hdr_Version (msg_Header m) \<noteq> 0"
  shows "message_wf m"
proof -
  obtain body where h: "ParseHeader b = Inr (msg_Header m)"
    and body: "sub 28 (unat (hdr_Length (msg_Header m))) b = Inr body"
    and ps: "ParsePayloads (hdr_NextPayload (msg_Header m)) body = Inr (msg_Payloads m)"
    using assms(1) by (auto simp: ParseMessage_def rbind_eq_Inr_iff)
  have "length body = unat (hdr_Length (msg_Header m)) - 28"
    using body by (auto simp: sub_def split: if_splits)
  with ParsePayloads_wf [OF ps] ParseHeader_bounds [OF h] assms(2) show ?thesis
    by (auto simp: message_wf_def length_payloads_enc)
qed

text \<open>What the encoder puts on the wire for a message whose header fields are not filled in yet: the
  version defaults to 2.0.\<close>

definition complete_message :: "Message \<Rightarrow> Message" where
  "complete_message m =
     \<lparr>msg_Header = (msg_Header m)
        \<lparr>hdr_NextPayload := first_type (msg_Payloads m),
         hdr_Version := (if hdr_Version (msg_Header m) = 0 then 0x20 else hdr_Version (msg_Header m)),
         hdr_Length := go_uint32 (28 + length (payloads_enc (msg_Payloads m)))\<rparr>,
      msg_Payloads = link_payloads (msg_Payloads m)\<rparr>"

lemma payloads_enc_link [simp]: "payloads_enc (link_payloads ps) = payloads_enc ps"
  by (simp add: payloads_enc_def)

lemma complete_message_wf:
  assumes "payloads_wf (msg_Payloads m)"
    and "28 + length (payloads_enc (msg_Payloads m)) < 4294967296"
  shows "message_wf (complete_message m)"
  using assms by (simp add: message_wf_def complete_message_def)

lemma Message_MarshalBinary_complete:
  "payloads_wf (msg_Payloads m) \<Longrightarrow> Message_MarshalBinary (complete_message m) = Message_MarshalBinary m"
  by (simp add: Message_MarshalBinary_def complete_message_def MarshalPayloads_wf Header_MarshalBinary_def
      Let_def)

lemma ParseMessage_marshal:
  assumes "payloads_wf (msg_Payloads m)" and "28 + length (payloads_enc (msg_Payloads m)) < 4294967296"
    and "Message_MarshalBinary m = Inr b"
  shows "ParseMessage b = Inr (complete_message m)"
  using message.dec_enc [OF complete_message_wf [OF assms(1,2)]] assms
  by (simp add: Message_MarshalBinary_complete)

text \<open>C24: a message whose payloads fit their length fields, with an encrypted payload at the end
  only, survives the wire: encoding succeeds, and decoding the octets gives the message back with
  its version, length and next-payload fields filled in.\<close>

theorem ike_message_roundtrip:
  assumes "payloads_wf (msg_Payloads m)"
    and "28 + length (payloads_enc (msg_Payloads m)) < 4294967296"
  shows "rbind (Message_MarshalBinary m) ParseMessage = Inr (complete_message m)"
  using message.roundtrip [OF complete_message_wf [OF assms]] assms(1)
  by (simp add: Message_MarshalBinary_complete)

theorem ike_message_roundtrip_witness:
  "rbind (Message_MarshalBinary
      \<lparr>msg_Header = \<lparr>hdr_InitiatorSPI = 1, hdr_ResponderSPI = 2, hdr_NextPayload = 0,
         hdr_Version = 0, hdr_ExchangeType = 34, hdr_Flags = 8, hdr_MessageID = 3, hdr_Length = 0\<rparr>,
       msg_Payloads = [mkPayload PayloadNonce [1, 2, 3], mkPayload PayloadSK [7]]\<rparr>) ParseMessage
   = Inr (complete_message
      \<lparr>msg_Header = \<lparr>hdr_InitiatorSPI = 1, hdr_ResponderSPI = 2, hdr_NextPayload = 0,
         hdr_Version = 0, hdr_ExchangeType = 34, hdr_Flags = 8, hdr_MessageID = 3, hdr_Length = 0\<rparr>,
       msg_Payloads = [mkPayload PayloadNonce [1, 2, 3], mkPayload PayloadSK [7]]\<rparr>)"
  by (rule ike_message_roundtrip) (simp_all add: isEncryptedPayload_def)

text \<open>whatever octets arrive, decoding an IKE message neither indexes out of range nor loops;
  it returns a message or one of the package's three length errors.\<close>

theorem ParseMessage_never_panics:
  "only_errs {Err ErrShortHeader, Err ErrShortPayload, Err ErrInvalidLength} (ParseMessage data)"
  by (auto simp: ParseMessage_def intro!: only_errs_rbind only_errs_mono [OF ParseHeader_errs]
      only_errs_mono [OF ParsePayloads_errs] dest: ParseHeader_bounds)

text \<open>a decoded message whose version octet is set can be sent on: encoding it succeeds, takes
  exactly the octets its length field announces, and decodes to the same message.\<close>

theorem ParseMessage_reencodes:
  assumes "ParseMessage b = Inr m" and "hdr_Version (msg_Header m) \<noteq> 0"
  shows "\<exists>b'. Message_MarshalBinary m = Inr b' \<and> length b' = unat (hdr_Length (msg_Header m)) \<and>
    ParseMessage b' = Inr m"
proof -
  have wf: "message_wf m" using assms by (rule ParseMessage_wf)
  then obtain hb where hb: "Header_MarshalBinary (msg_Header m) = Inr hb"
    and enc: "Message_MarshalBinary m = Inr (hb @ payloads_enc (msg_Payloads m))"
    using Message_MarshalBinary_wf by blast
  have "length (hb @ payloads_enc (msg_Payloads m)) = unat (hdr_Length (msg_Header m))"
    using wf Header_MarshalBinary_length [OF hb] by (simp add: message_wf_def)
  with enc ParseMessage_enc [OF wf hb] show ?thesis by blast
qed

theorem ParseMessage_reencodes_witness:
  "\<exists>m b'. ParseMessage [0,0,0,0,0,0,0,1, 0,0,0,0,0,0,0,2, 40,0x20,34,8, 0,0,0,3, 0,0,0,34,
             0,5,0,6,9,9, 77] = Inr m \<and> Message_MarshalBinary m = Inr b' \<and> length b' = 34"
proof -
  let ?b = "[0,0,0,0,0,0,0,1, 0,0,0,0,0,0,0,2, 40,0x20,34,8, 0,0,0,3, 0,0,0,34, 0,5,0,6,9,9, 77] :: bytes"
  obtain m where m: "ParseMessage ?b = Inr m" "hdr_Version (msg_Header m) \<noteq> 0"
    "unat (hdr_Length (msg_Header m)) = 34"
    by (simp add: ParseMessage_def ParseHeader_def ParsePayloads.simps parsePayload1_def
        u64_of_def u32_of_def u16_of_def isEncryptedPayload_def)
  then show ?thesis using ParseMessage_reencodes [OF m(1,2)] by auto
qed

end
