(* ===== verification/Go_Net.thy ===== *)
theory Go_Net
  imports Go_Result
begin

text \<open>
  What the code uses of Go's \<^verbatim>\<open>net.IP\<close> and \<^verbatim>\<open>bytes.Compare\<close>.  An \<^verbatim>\<open>IP\<close> is a byte
  slice; \<^verbatim>\<open>To4\<close> and \<^verbatim>\<open>To16\<close> return nil on a slice that is no address of that kind, which
  is \<open>None\<close> here.
\<close>

type_synonym ip = bytes

definition v4InV6Prefix :: bytes where
  "v4InV6Prefix = [0, 0, 0, 0, 0, 0, 0, 0, 0, 0, 0xff, 0xff]"

definition To4 :: "ip \<Rightarrow> ip option" where
  "To4 a =
     (if length a = 4 then Some a
      else if length a = 16 \<and> take 12 a = v4InV6Prefix then Some (drop 12 a)
      else None)"

definition To16 :: "ip \<Rightarrow> ip option" where
  "To16 a =
     (if length a = 4 then Some (v4InV6Prefix @ a)
      else if length a = 16 then Some a
      else None)"

text \<open>\<^verbatim>\<open>bytes.Compare(a, b) <= 0\<close>: lexicographic, a proper prefix is smaller.\<close>

fun bytes_le :: "bytes \<Rightarrow> bytes \<Rightarrow> bool" where
  "bytes_le [] ys = True"
| "bytes_le (x # xs) [] = False"
| "bytes_le (x # xs) (y # ys) = (x < y \<or> (x = y \<and> bytes_le xs ys))"

lemma To4_length: "To4 a = Some b \<Longrightarrow> length b = 4"
  by (auto simp: To4_def split: if_splits)

lemma To16_length: "To16 a = Some b \<Longrightarrow> length b = 16"
  by (auto simp: To16_def v4InV6Prefix_def split: if_splits)

lemma To4_idem [simp]: "To4 a = Some b \<Longrightarrow> To4 b = Some b"
  by (auto simp: To4_def split: if_splits)

lemma To4_To16: "To16 a = Some b \<Longrightarrow> To4 b = To4 a"
  by (auto simp: To4_def To16_def v4InV6Prefix_def split: if_splits)

lemma bytes_le_refl [simp]: "bytes_le xs xs"
  by (induction xs) auto

lemma bytes_le_trans [trans]: "bytes_le xs ys \<Longrightarrow> bytes_le ys zs \<Longrightarrow> bytes_le xs zs"
  by (induction xs ys arbitrary: zs rule: bytes_le.induct)
    (auto elim: bytes_le.elims, (case_tac zs; auto)+)

lemma bytes_le_antisym: "bytes_le xs ys \<Longrightarrow> bytes_le ys xs \<Longrightarrow> xs = ys"
  by (induction xs ys rule: bytes_le.induct) (auto elim: bytes_le.elims)

lemma bytes_le_total: "bytes_le xs ys \<or> bytes_le ys xs"
  by (induction xs ys rule: bytes_le.induct) auto

text \<open>On addresses of one family the order is that of the numbers they encode.\<close>

definition be_nat :: "bytes \<Rightarrow> nat" where
  "be_nat xs = foldl (\<lambda>n b. 256 * n + unat b) 0 xs"

lemma foldl_be_nat: "foldl (\<lambda>n b. 256 * n + unat b) k xs = k * 256 ^ length xs + be_nat xs"
proof (induction xs arbitrary: k)
  case (Cons x xs)
  show ?case
    using Cons [of "256 * k + unat x"] Cons [of "unat x"]
    by (simp add: be_nat_def algebra_simps)
qed (simp add: be_nat_def)

lemma be_nat_Cons: "be_nat (x # xs) = unat x * 256 ^ length xs + be_nat xs"
  using foldl_be_nat [of "unat x" xs] by (simp add: be_nat_def)

lemma be_nat_bound: "be_nat xs < 256 ^ length xs"
proof (induction xs)
  case (Cons x xs)
  have "unat x + 1 \<le> 256" using unat_u8_less [of x] by simp
  then have "(unat x + 1) * 256 ^ length xs \<le> 256 * 256 ^ length xs" by (rule mult_le_mono1)
  then have "unat x * 256 ^ length xs + 256 ^ length xs \<le> 256 ^ length (x # xs)"
    unfolding distrib_right by (simp add: mult.commute)
  with Cons show ?case unfolding be_nat_Cons by linarith
qed (simp add: be_nat_def)

lemma bytes_le_be_nat:
  "length xs = length ys \<Longrightarrow> bytes_le xs ys \<longleftrightarrow> be_nat xs \<le> be_nat ys"
proof (induction xs ys rule: bytes_le.induct)
  case (3 x xs y ys)
  then have len: "length xs = length ys" by simp
  consider "unat x < unat y" | "x = y" | "unat y < unat x"
    by (metis linorder_neqE_nat unsigned_word_eqI)
  then show ?case
  proof cases
    case 1
    then have "(unat x + 1) * 256 ^ length ys \<le> unat y * 256 ^ length ys"
      by (intro mult_le_mono1) simp
    with 1 be_nat_bound [of xs] len show ?thesis
      by (simp add: be_nat_Cons word_less_nat_alt)
  next
    case 2
    with 3 len show ?thesis by (simp add: be_nat_Cons)
  next
    case 3
    then have "(unat y + 1) * 256 ^ length ys \<le> unat x * 256 ^ length ys"
      by (intro mult_le_mono1) simp
    with 3 be_nat_bound [of ys] len show ?thesis
      by (auto simp: be_nat_Cons word_less_nat_alt)
  qed
qed (auto simp: be_nat_def)

end
