(* ===== verification/IKE_Payloads.thy ===== *)
theory IKE_Payloads
  imports IKE_Types Go_Net
begin

text \<open>
  \<^verbatim>\<open>engine/swu/ikev2/payloads.go\<close>: the bodies of the Notify, Delete and Key Exchange payloads,
  the classification of error notifications, and the notifications of NAT detection, cookies and
  MOBIKE.  A Go result \<^verbatim>\<open>(T, bool, error)\<close> is a \<open>T option res\<close>: the flag is \<open>False\<close> for
  \<open>None\<close>, and the flag returned next to an error is dropped, since no caller reads it.  A returned
  \<^verbatim>\<open>error\<close> on its own is a \<open>go_error option\<close>.  SHA-1 is a parameter.
\<close>

section \<open>Constants\<close>

abbreviation ProtocolIKE :: u8 where "ProtocolIKE \<equiv> 1"
abbreviation ProtocolAH :: u8 where "ProtocolAH \<equiv> 2"
abbreviation ProtocolESP :: u8 where "ProtocolESP \<equiv> 3"

abbreviation NotifyUnsupportedCriticalPayload :: u16 where "NotifyUnsupportedCriticalPayload \<equiv> 1"
abbreviation NotifyInvalidIKESPI :: u16 where "NotifyInvalidIKESPI \<equiv> 4"
abbreviation NotifyInvalidMajorVersion :: u16 where "NotifyInvalidMajorVersion \<equiv> 5"
abbreviation NotifyInvalidSyntax :: u16 where "NotifyInvalidSyntax \<equiv> 7"
abbreviation NotifyInvalidMessageID :: u16 where "NotifyInvalidMessageID \<equiv> 9"
abbreviation NotifyInvalidSPI :: u16 where "NotifyInvalidSPI \<equiv> 11"
abbreviation NotifyNoProposalChosen :: u16 where "NotifyNoProposalChosen \<equiv> 14"
abbreviation NotifyInvalidKEPayload :: u16 where "NotifyInvalidKEPayload \<equiv> 17"
abbreviation NotifyAuthenticationFailed :: u16 where "NotifyAuthenticationFailed \<equiv> 24"
abbreviation NotifySinglePairRequired :: u16 where "NotifySinglePairRequired \<equiv> 34"
abbreviation NotifyNoAdditionalSAs :: u16 where "NotifyNoAdditionalSAs \<equiv> 35"
abbreviation NotifyInternalAddressFailure :: u16 where "NotifyInternalAddressFailure \<equiv> 36"
abbreviation NotifyFailedCPRequired :: u16 where "NotifyFailedCPRequired \<equiv> 37"
abbreviation NotifyTSUnacceptable :: u16 where "NotifyTSUnacceptable \<equiv> 38"
abbreviation NotifyInvalidSelectors :: u16 where "NotifyInvalidSelectors \<equiv> 39"
abbreviation NotifyUnacceptableAddresses :: u16 where "NotifyUnacceptableAddresses \<equiv> 40"
abbreviation NotifyUnexpectedNATDetected :: u16 where "NotifyUnexpectedNATDetected \<equiv> 41"
abbreviation NotifyNATDetectionSourceIP :: u16 where "NotifyNATDetectionSourceIP \<equiv> 16388"
abbreviation NotifyNATDetectionDestinationIP :: u16 where "NotifyNATDetectionDestinationIP \<equiv> 16389"
abbreviation NotifyCookie :: u16 where "NotifyCookie \<equiv> 16390"
abbreviation NotifyRekeySA :: u16 where "NotifyRekeySA \<equiv> 16393"
abbreviation NotifyMOBIKESupported :: u16 where "NotifyMOBIKESupported \<equiv> 16396"
abbreviation NotifyAdditionalIPv4Address :: u16 where "NotifyAdditionalIPv4Address \<equiv> 16397"
abbreviation NotifyAdditionalIPv6Address :: u16 where "NotifyAdditionalIPv6Address \<equiv> 16398"
abbreviation NotifyNoAdditionalAddresses :: u16 where "NotifyNoAdditionalAddresses \<equiv> 16399"
abbreviation NotifyUpdateSAAddresses :: u16 where "NotifyUpdateSAAddresses \<equiv> 16400"
abbreviation NotifyCookie2 :: u16 where "NotifyCookie2 \<equiv> 16401"
abbreviation NotifyNoNATsAllowed :: u16 where "NotifyNoNATsAllowed \<equiv> 16402"

abbreviation MaxIKECookieLength :: nat where "MaxIKECookieLength \<equiv> 64"

section \<open>Notify\<close>

text \<open>A notification with no protocol and no SPI, Go's \<^verbatim>\<open>Notify{NotifyType: t, NotificationData: d}\<close>.\<close>

abbreviation mkNotify :: "u16 \<Rightarrow> bytes \<Rightarrow> Notify" where
  "mkNotify t d \<equiv> \<lparr>ntf_ProtocolID = 0, ntf_NotifyType = t, ntf_SPI = [], ntf_NotificationData = d\<rparr>"

record InvalidSelectorReport =
  isr_ProtocolID :: u8
  isr_SPI :: bytes
  isr_PacketPrefix :: bytes

definition Notify_InvalidKEPayloadAlternativeGroup :: "Notify \<Rightarrow> u16 option res" where
  "Notify_InvalidKEPayloadAlternativeGroup n =
     (if ntf_NotifyType n \<noteq> NotifyInvalidKEPayload then Inr None
      else if length (ntf_NotificationData n) \<noteq> 2 then Inl (Err ErrInvalidNotify)
      else rbind (u16_at 0 (ntf_NotificationData n)) (\<lambda>g. Inr (Some g)))"

text \<open>\<^verbatim>\<open>errors.As(err, &notifyErr)\<close>: the first \<^verbatim>\<open>*NotifyError\<close> of the chain.\<close>

fun errors_As_NotifyError :: "go_error \<Rightarrow> Notify option" where
  "errors_As_NotifyError (NotifyErr n s) = Some n"
| "errors_As_NotifyError (Wrap s e) = errors_As_NotifyError e"
| "errors_As_NotifyError e = None"

definition InvalidKEPayloadAlternativeGroupFromError :: "go_error option \<Rightarrow> u16 option res" where
  "InvalidKEPayloadAlternativeGroupFromError err =
     (case err of None \<Rightarrow> Inr None
      | Some e \<Rightarrow> (case errors_As_NotifyError e of None \<Rightarrow> Inr None
         | Some n \<Rightarrow> Notify_InvalidKEPayloadAlternativeGroup n))"

definition Notify_InvalidSelectorReport :: "Notify \<Rightarrow> InvalidSelectorReport option res" where
  "Notify_InvalidSelectorReport n =
     (if ntf_NotifyType n \<noteq> NotifyInvalidSelectors then Inr None
      else if ntf_ProtocolID n \<noteq> ProtocolAH \<and> ntf_ProtocolID n \<noteq> ProtocolESP
      then Inl (Err ErrInvalidNotify)
      else if length (ntf_SPI n) \<noteq> 4 then Inl (Err ErrInvalidNotify)
      else if length (ntf_NotificationData n) = 0 then Inl (Err ErrInvalidNotify)
      else Inr (Some \<lparr>isr_ProtocolID = ntf_ProtocolID n, isr_SPI = ntf_SPI n,
                      isr_PacketPrefix = ntf_NotificationData n\<rparr>))"

definition InvalidSelectorReportFromError :: "go_error option \<Rightarrow> InvalidSelectorReport option res" where
  "InvalidSelectorReportFromError err =
     (case err of None \<Rightarrow> Inr None
      | Some e \<Rightarrow> (case errors_As_NotifyError e of None \<Rightarrow> Inr None
         | Some n \<Rightarrow> Notify_InvalidSelectorReport n))"

definition Notify_Cookie :: "Notify \<Rightarrow> bytes option res" where
  "Notify_Cookie n =
     (if ntf_NotifyType n \<noteq> NotifyCookie then Inr None
      else if length (ntf_SPI n) \<noteq> 0 then Inl (Err ErrInvalidNotify)
      else if length (ntf_NotificationData n) = 0 \<or> length (ntf_NotificationData n) > MaxIKECookieLength
      then Inl (Err ErrInvalidNotify)
      else Inr (Some (ntf_NotificationData n)))"

definition Notify_MarshalBinary :: "Notify \<Rightarrow> bytes res" where
  "Notify_MarshalBinary n =
     (if length (ntf_SPI n) > 0xff then Inl (Err ErrInvalidNotify)
      else Inr ([ntf_ProtocolID n, go_byte (length (ntf_SPI n))] @ PutUint16 (ntf_NotifyType n) @
                ntf_SPI n @ ntf_NotificationData n))"

definition ParseNotify :: "bytes \<Rightarrow> Notify res" where
  "ParseNotify data =
     (if length data < 4 then Inl (Err ErrInvalidNotify)
      else
        rbind (idx 1 data) (\<lambda>b1.
        let spiSize = unat b1 in
        if length data < 4 + spiSize then Inl (Err ErrInvalidNotify)
        else
          rbind (idx 0 data) (\<lambda>b0.
          rbind (u16_at 2 data) (\<lambda>t.
          rbind (sub 4 (4 + spiSize) data) (\<lambda>spi.
          rbind (sub (4 + spiSize) (length data) data) (\<lambda>nd.
            Inr \<lparr>ntf_ProtocolID = b0, ntf_NotifyType = t, ntf_SPI = spi,
                 ntf_NotificationData = nd\<rparr>))))))"

definition NotifyPayload :: "Notify \<Rightarrow> Payload res" where
  "NotifyPayload n = rbind (Notify_MarshalBinary n) (\<lambda>body. Inr (mkPayload PayloadNotify body))"

definition notifyErrorClass :: "u16 \<Rightarrow> sentinel option" where
  "notifyErrorClass t =
     (if t = NotifyUnsupportedCriticalPayload then Some ErrNotifyUnsupportedCriticalPayload
      else if t = NotifyInvalidIKESPI then Some ErrNotifyInvalidIKESPI
      else if t = NotifyInvalidMajorVersion then Some ErrNotifyInvalidMajorVersion
      else if t = NotifyInvalidSyntax then Some ErrNotifyInvalidSyntax
      else if t = NotifyInvalidMessageID then Some ErrNotifyInvalidMessageID
      else if t = NotifyInvalidSPI then Some ErrNotifyInvalidSPI
      else if t = NotifyNoProposalChosen then Some ErrNotifyNoProposalChosen
      else if t = NotifyInvalidKEPayload then Some ErrNotifyInvalidKEPayload
      else if t = NotifyAuthenticationFailed then Some ErrNotifyAuthenticationFailed
      else if t = NotifySinglePairRequired then Some ErrNotifySinglePairRequired
      else if t = NotifyNoAdditionalSAs then Some ErrNotifyNoAdditionalSAs
      else if t = NotifyInternalAddressFailure then Some ErrNotifyInternalAddressFailure
      else if t = NotifyFailedCPRequired then Some ErrNotifyFailedCPRequired
      else if t = NotifyTSUnacceptable then Some ErrNotifyTSUnacceptable
      else if t = NotifyInvalidSelectors then Some ErrNotifyInvalidSelectors
      else if t = NotifyUnacceptableAddresses then Some ErrNotifyUnacceptableAddresses
      else if t = NotifyUnexpectedNATDetected then Some ErrNotifyUnexpectedNATDetected
      else if t < 16384 then Some ErrIKEv2NotifyError
      else None)"

definition NotifyErrorFor :: "Notify \<Rightarrow> go_error option" where
  "NotifyErrorFor n =
     (case notifyErrorClass (ntf_NotifyType n) of None \<Rightarrow> None | Some err \<Rightarrow> Some (NotifyErr n err))"

fun FirstNotifyError :: "Payload list \<Rightarrow> go_error option" where
  "FirstNotifyError [] = None"
| "FirstNotifyError (payload # payloads) =
     (if pl_Type payload \<noteq> PayloadNotify then FirstNotifyError payloads
      else case ParseNotify (pl_Body payload) of
          Inl err \<Rightarrow> Some err
        | Inr notify \<Rightarrow> (case NotifyErrorFor notify of
              Some err \<Rightarrow> Some err
            | None \<Rightarrow> FirstNotifyError payloads))"

fun FirstNotify :: "Payload list \<Rightarrow> u16 \<Rightarrow> Notify option res" where
  "FirstNotify [] notifyType = Inr None"
| "FirstNotify (payload # payloads) notifyType =
     (if pl_Type payload \<noteq> PayloadNotify then FirstNotify payloads notifyType
      else rbind (ParseNotify (pl_Body payload)) (\<lambda>notify.
        if ntf_NotifyType notify = notifyType then Inr (Some notify)
        else FirstNotify payloads notifyType))"

section \<open>Delete\<close>

record Delete =
  del_ProtocolID :: u8
  del_SPIs :: "bytes list"

definition validateDelete :: "Delete \<Rightarrow> unit res" where
  "validateDelete d =
     (if del_ProtocolID d = ProtocolIKE
      then (if length (del_SPIs d) \<noteq> 0 then Inl (Err ErrInvalidDelete) else Inr ())
      else if del_ProtocolID d \<noteq> ProtocolAH \<and> del_ProtocolID d \<noteq> ProtocolESP
      then Inl (Err ErrInvalidDelete)
      else if length (del_SPIs d) = 0 then Inl (Err ErrInvalidDelete)
      else if length (del_SPIs d) > 0xffff then Inl (Err ErrInvalidDelete)
      else
        rbind (idx 0 (del_SPIs d)) (\<lambda>spi0.
          if length spi0 \<noteq> 4 then Inl (Err ErrInvalidDelete)
          else if list_ex (\<lambda>spi. length spi \<noteq> length spi0) (del_SPIs d)
          then Inl (Err ErrInvalidDelete)
          else Inr ()))"

definition Delete_MarshalBinary :: "Delete \<Rightarrow> bytes res" where
  "Delete_MarshalBinary d =
     rbind (validateDelete d) (\<lambda>_.
     let spiSize = (case del_SPIs d of [] \<Rightarrow> 0 | spi # _ \<Rightarrow> length spi)
     in Inr ([del_ProtocolID d, go_byte spiSize] @ PutUint16 (go_uint16 (length (del_SPIs d))) @
             concat (del_SPIs d)))"

text \<open>The loop that cuts \<open>spiCount\<close> SPIs off the rest.\<close>

fun parseDelete_loop :: "nat \<Rightarrow> nat \<Rightarrow> bytes \<Rightarrow> bytes list res" where
  "parseDelete_loop spiSize 0 rest = Inr []"
| "parseDelete_loop spiSize (Suc n) rest =
     rbind (sub 0 spiSize rest) (\<lambda>spi.
     rbind (sub spiSize (length rest) rest) (\<lambda>rest'.
     rbind (parseDelete_loop spiSize n rest') (\<lambda>spis. Inr (spi # spis))))"

definition ParseDelete :: "bytes \<Rightarrow> Delete res" where
  "ParseDelete data =
     (if length data < 4 then Inl (Err ErrInvalidDelete)
      else
        rbind (idx 1 data) (\<lambda>b1.
        rbind (u16_at 2 data) (\<lambda>cnt.
        let spiSize = unat b1; spiCount = unat cnt in
        if 4 + spiSize * spiCount \<noteq> length data then Inl (Err ErrInvalidDelete)
        else
          rbind (idx 0 data) (\<lambda>b0.
          rbind (sub 4 (length data) data) (\<lambda>rest.
          rbind (parseDelete_loop spiSize spiCount rest) (\<lambda>spis.
          let d = \<lparr>del_ProtocolID = b0, del_SPIs = spis\<rparr> in
          rbind (validateDelete d) (\<lambda>_. Inr d)))))))"

definition DeletePayload :: "Delete \<Rightarrow> Payload res" where
  "DeletePayload d = rbind (Delete_MarshalBinary d) (\<lambda>body. Inr (mkPayload PayloadDelete body))"

definition IKEDeletePayload :: Payload where
  "IKEDeletePayload = mkPayload PayloadDelete [ProtocolIKE, 0, 0, 0]"

definition ESPDeletePayload :: "bytes list \<Rightarrow> Payload res" where
  "ESPDeletePayload spis = DeletePayload \<lparr>del_ProtocolID = ProtocolESP, del_SPIs = spis\<rparr>"

text \<open>Of a \<^verbatim>\<open>ChildSAResult\<close> the two delete builders read the local SPI only.\<close>

definition ChildSADeletePayload :: "bytes \<Rightarrow> Payload res" where
  "ChildSADeletePayload localSPI =
     (if length localSPI = 0 then Inl (Err ErrInvalidDelete) else ESPDeletePayload [localSPI])"

definition TeardownDeletePayloads :: "bytes \<Rightarrow> bool \<Rightarrow> Payload list res" where
  "TeardownDeletePayloads localSPI includeIKESA =
     rbind (if length localSPI > 0
            then rbind (ChildSADeletePayload localSPI) (\<lambda>payload. Inr [payload])
            else Inr []) (\<lambda>out.
     let out' = (if includeIKESA then out @ [IKEDeletePayload] else out)
     in if length out' = 0 then Inl (Err ErrInvalidDelete) else Inr out')"

section \<open>Key exchange, nonce, EAP\<close>

record KeyExchange =
  ke_DHGroup :: u16
  ke_KeyData :: bytes

definition KeyExchange_MarshalBinary :: "KeyExchange \<Rightarrow> bytes" where
  "KeyExchange_MarshalBinary k = PutUint16 (ke_DHGroup k) @ [0, 0] @ ke_KeyData k"

definition ParseKeyExchange :: "bytes \<Rightarrow> KeyExchange res" where
  "ParseKeyExchange data =
     (if length data < 4 then Inl (Err ErrShortPayload)
      else
        rbind (u16_at 0 data) (\<lambda>g.
        rbind (sub 4 (length data) data) (\<lambda>key.
          Inr \<lparr>ke_DHGroup = g, ke_KeyData = key\<rparr>)))"

definition KeyExchangePayload :: "u16 \<Rightarrow> bytes \<Rightarrow> Payload" where
  "KeyExchangePayload dhGroup keyData =
     mkPayload PayloadKE (KeyExchange_MarshalBinary \<lparr>ke_DHGroup = dhGroup, ke_KeyData = keyData\<rparr>)"

definition NoncePayload :: "bytes \<Rightarrow> Payload" where
  "NoncePayload nonce = mkPayload PayloadNonce nonce"

definition EAPPayload :: "bytes \<Rightarrow> Payload" where
  "EAPPayload packet = mkPayload PayloadEAP packet"

section \<open>NAT detection, MOBIKE and cookie notifications\<close>

definition NATDetectionHash :: "(bytes \<Rightarrow> bytes) \<Rightarrow> u64 \<Rightarrow> u64 \<Rightarrow> ip \<Rightarrow> u16 \<Rightarrow> bytes res" where
  "NATDetectionHash sha1 spiI spiR a port =
     (case (case To4 a of Some v4 \<Rightarrow> Some v4 | None \<Rightarrow> To16 a) of
        None \<Rightarrow> Inl (Err ErrInvalidAddress)
      | Some normalized \<Rightarrow>
          Inr (sha1 (PutUint64 spiI @ PutUint64 spiR @ normalized @
                     [ucast (drop_bit 8 port), ucast port])))"

definition NATDetectionNotify ::
  "(bytes \<Rightarrow> bytes) \<Rightarrow> u16 \<Rightarrow> u64 \<Rightarrow> u64 \<Rightarrow> ip \<Rightarrow> u16 \<Rightarrow> Payload res" where
  "NATDetectionNotify sha1 notifyType spiI spiR a port =
     (if notifyType \<noteq> NotifyNATDetectionSourceIP \<and> notifyType \<noteq> NotifyNATDetectionDestinationIP
      then Inl (Err ErrInvalidNotify)
      else rbind (NATDetectionHash sha1 spiI spiR a port) (\<lambda>hash.
        NotifyPayload \<lparr>ntf_ProtocolID = ProtocolIKE, ntf_NotifyType = notifyType, ntf_SPI = [],
                       ntf_NotificationData = hash\<rparr>))"

text \<open>The builders below drop the error of \<^verbatim>\<open>MarshalBinary\<close>; on an error the body would be nil.\<close>

definition marshal_or_nil :: "Notify \<Rightarrow> bytes" where
  "marshal_or_nil n = (case Notify_MarshalBinary n of Inl _ \<Rightarrow> [] | Inr body \<Rightarrow> body)"

definition MOBIKESupportedNotify :: Payload where
  "MOBIKESupportedNotify = mkPayload PayloadNotify (marshal_or_nil (mkNotify NotifyMOBIKESupported []))"

definition UpdateSAAddressesNotify :: Payload where
  "UpdateSAAddressesNotify = mkPayload PayloadNotify (marshal_or_nil (mkNotify NotifyUpdateSAAddresses []))"

definition NoAdditionalAddressesNotify :: Payload where
  "NoAdditionalAddressesNotify =
     mkPayload PayloadNotify (marshal_or_nil (mkNotify NotifyNoAdditionalAddresses []))"

definition NotifyWithZeroSPI :: "u16 \<Rightarrow> bytes \<Rightarrow> Payload" where
  "NotifyWithZeroSPI notifyType data = mkPayload PayloadNotify (marshal_or_nil (mkNotify notifyType data))"

definition AdditionalIPAddressNotify :: "ip \<Rightarrow> Payload res" where
  "AdditionalIPAddressNotify a =
     (case To4 a of Some v4 \<Rightarrow> Inr (NotifyWithZeroSPI NotifyAdditionalIPv4Address v4)
      | None \<Rightarrow> (case To16 a of Some v6 \<Rightarrow> Inr (NotifyWithZeroSPI NotifyAdditionalIPv6Address v6)
         | None \<Rightarrow> Inl (Err ErrInvalidAddress)))"

definition Cookie2Notify :: "bytes \<Rightarrow> Payload res" where
  "Cookie2Notify cookie =
     (if length cookie < 8 \<or> length cookie > 64 then Inl (Err ErrInvalidNotify)
      else rbind (Notify_MarshalBinary (mkNotify NotifyCookie2 cookie)) (\<lambda>body.
        Inr (mkPayload PayloadNotify body)))"

definition CookieNotify :: "bytes \<Rightarrow> Payload res" where
  "CookieNotify cookie =
     (let notify = mkNotify NotifyCookie cookie in
      rbind (Notify_Cookie notify) (\<lambda>_.
      rbind (Notify_MarshalBinary notify) (\<lambda>body. Inr (mkPayload PayloadNotify body))))"

section \<open>Properties\<close>

subsection \<open>Notify\<close>

definition notify_wf :: "Notify \<Rightarrow> bool" where
  "notify_wf n \<longleftrightarrow> length (ntf_SPI n) \<le> 255"

lemma ParseNotify_Cons [codec_simps]:
  "ParseNotify (a # b # c # d # ys) =
     (if length ys < unat b then Inl (Err ErrInvalidNotify)
      else Inr \<lparr>ntf_ProtocolID = a, ntf_NotifyType = u16_of c d, ntf_SPI = take (unat b) ys,
                ntf_NotificationData = drop (unat b) ys\<rparr>)"
  by (auto simp: ParseNotify_def Let_def)

lemma ParseNotify_short: "length d < 4 \<Longrightarrow> ParseNotify d = Inl (Err ErrInvalidNotify)"
  by (simp add: ParseNotify_def)

lemma ParseNotify_errs: "only_errs {Err ErrInvalidNotify} (ParseNotify d)"
  by (cases "length d < 4") (auto simp: ParseNotify_short ParseNotify_Cons elim!: length4_cases)

lemma Notify_enc_dec:
  assumes "ParseNotify b = Inr n"
  shows "notify_wf n \<and> Notify_MarshalBinary n = Inr b"
proof -
  have "\<not> length b < 4" using assms by (auto simp: ParseNotify_short)
  then obtain x y z w ys where "b = x # y # z # w # ys" by (rule length4_cases)
  with assms unat_u8_less [of y] show ?thesis
    by (auto simp: ParseNotify_Cons Notify_MarshalBinary_def notify_wf_def split: if_splits)
qed

interpretation notify: exact_codec Notify_MarshalBinary ParseNotify notify_wf
proof unfold_locales
  fix n b
  show "\<exists>b. Notify_MarshalBinary n = Inr b" if "notify_wf n"
    using that by (simp add: Notify_MarshalBinary_def notify_wf_def)
  show "ParseNotify b = Inr n" if "notify_wf n" "Notify_MarshalBinary n = Inr b"
    using that by (auto simp: Notify_MarshalBinary_def notify_wf_def ParseNotify_Cons PutUint16_def)
qed (use Notify_enc_dec in blast)+

lemma marshal_or_nil_wf [simp]:
  "notify_wf n \<Longrightarrow> ParseNotify (marshal_or_nil n) = Inr n"
  using notify.enc_total [of n] notify.dec_enc [of n] by (auto simp: marshal_or_nil_def)

text \<open>the Notify body format is canonical: the decoder accepts exactly the octets the encoder
  produces for a notification whose SPI fits the one-octet size field, and returns that
  notification.\<close>

theorem ParseNotify_iff_encoding:
  "ParseNotify b = Inr n \<longleftrightarrow> length (ntf_SPI n) \<le> 255 \<and> Notify_MarshalBinary n = Inr b"
  using notify.dec_iff_enc [of b n] by (simp add: notify_wf_def)

subsection \<open>Error notifications\<close>

lemma notifyErrorClass_None: "notifyErrorClass t = None \<longleftrightarrow> 16384 \<le> t"
  by (auto simp: notifyErrorClass_def not_less word_le_nat_alt word_less_nat_alt)

lemma NotifyErrorFor_None: "NotifyErrorFor n = None \<longleftrightarrow> 16384 \<le> ntf_NotifyType n"
  by (auto simp: NotifyErrorFor_def notifyErrorClass_None [symmetric] split: option.splits)

lemma NotifyErrorFor_Some:
  "NotifyErrorFor n = Some e \<Longrightarrow> \<exists>s. e = NotifyErr n s \<and> notifyErrorClass (ntf_NotifyType n) = Some s"
  by (auto simp: NotifyErrorFor_def split: option.splits)

text \<open>The notifications of a payload list, decoded, up to the first malformed one.\<close>

definition notify_bodies :: "Payload list \<Rightarrow> Notify res list" where
  "notify_bodies ps = map (ParseNotify \<circ> pl_Body) (filter (\<lambda>p. pl_Type p = PayloadNotify) ps)"

definition bad_notify :: "Notify res \<Rightarrow> bool" where
  "bad_notify r \<longleftrightarrow> (case r of Inl _ \<Rightarrow> True | Inr n \<Rightarrow> ntf_NotifyType n < 16384)"

definition notify_error_of :: "Notify res \<Rightarrow> go_error option" where
  "notify_error_of r = (case r of Inl e \<Rightarrow> Some e | Inr n \<Rightarrow> NotifyErrorFor n)"

lemma notify_error_of_None: "notify_error_of r = None \<longleftrightarrow> \<not> bad_notify r"
  by (cases r) (auto simp: notify_error_of_def bad_notify_def NotifyErrorFor_None not_less)

lemma notify_bodies_simps [simp]:
  "notify_bodies [] = []"
  "notify_bodies (p # ps) =
     (if pl_Type p = PayloadNotify then ParseNotify (pl_Body p) # notify_bodies ps else notify_bodies ps)"
  by (auto simp: notify_bodies_def)

text \<open>\<^verbatim>\<open>FirstNotifyError\<close> reports the first notification of a payload list that is malformed
  or of an error type (below 16384), and nothing when there is none; status notifications before it
  and everything after it do not matter.\<close>

theorem FirstNotifyError_first_bad:
  "FirstNotifyError ps =
     (case filter bad_notify (notify_bodies ps) of [] \<Rightarrow> None | r # _ \<Rightarrow> notify_error_of r)"
proof (induction ps)
  case (Cons p ps)
  show ?case
  proof (cases "pl_Type p = PayloadNotify")
    case True
    have "FirstNotifyError (p # ps) =
        (case notify_error_of (ParseNotify (pl_Body p)) of Some e \<Rightarrow> Some e | None \<Rightarrow> FirstNotifyError ps)"
      using True by (auto simp: notify_error_of_def split: sum.splits)
    with True Cons notify_error_of_None [of "ParseNotify (pl_Body p)"] show ?thesis
      by (auto split: option.splits)
  qed (use Cons in simp)
qed simp

text \<open>every error \<^verbatim>\<open>FirstNotifyError\<close> reports for well-formed notifications is recognised by
  \<^verbatim>\<open>errors.Is\<close> as an IKEv2 notify error and as the sentinel of its own type, and gives the
  notification back to \<^verbatim>\<open>errors.As\<close>.\<close>

theorem NotifyErrorFor_recognised:
  assumes "NotifyErrorFor n = Some e"
  shows "errors_Is e ErrIKEv2NotifyError \<and> errors_As_NotifyError e = Some n \<and>
    (\<exists>s. notifyErrorClass (ntf_NotifyType n) = Some s \<and> errors_Is e s)"
  using NotifyErrorFor_Some [OF assms] by auto

theorem NotifyErrorFor_recognised_witness:
  "errors_Is (NotifyErr (mkNotify 24 []) ErrNotifyAuthenticationFailed) ErrIKEv2NotifyError"
  using NotifyErrorFor_recognised
    [of "mkNotify 24 []" "NotifyErr (mkNotify 24 []) ErrNotifyAuthenticationFailed"]
  by (simp add: NotifyErrorFor_def notifyErrorClass_def)

subsection \<open>Delete\<close>

definition delete_wf :: "Delete \<Rightarrow> bool" where
  "delete_wf d \<longleftrightarrow> validateDelete d = Inr ()"

lemma delete_wf_iff:
  "delete_wf d \<longleftrightarrow>
     del_ProtocolID d = ProtocolIKE \<and> del_SPIs d = [] \<or>
     (del_ProtocolID d = ProtocolAH \<or> del_ProtocolID d = ProtocolESP) \<and> del_SPIs d \<noteq> [] \<and>
       length (del_SPIs d) \<le> 0xffff \<and> (\<forall>spi \<in> set (del_SPIs d). length spi = 4)"
  by (cases "del_SPIs d") (auto simp: delete_wf_def validateDelete_def list_ex_iff)

lemma validateDelete_errs: "only_errs {Err ErrInvalidDelete} (validateDelete d)"
  by (auto simp: validateDelete_def intro!: only_errs_rbind only_errs_if)

lemma length_concat_const: "\<forall>x \<in> set xs. length x = k \<Longrightarrow> length (concat xs) = k * length xs"
  by (induction xs) auto

lemma parseDelete_loop_concat:
  "\<forall>spi \<in> set spis. length spi = k \<Longrightarrow> parseDelete_loop k (length spis) (concat spis) = Inr spis"
  by (induction spis) auto

lemma parseDelete_loop_total:
  "length rest = k * n \<Longrightarrow>
   \<exists>spis. parseDelete_loop k n rest = Inr spis \<and> length spis = n \<and> concat spis = rest"
proof (induction n arbitrary: rest)
  case (Suc n)
  then have "length (drop k rest) = k * n" by simp
  then obtain spis where "parseDelete_loop k n (drop k rest) = Inr spis"
    "length spis = n" "concat spis = drop k rest"
    using Suc.IH [of "drop k rest"] by auto
  with Suc.prems show ?case by simp
qed simp

lemma ParseDelete_Cons [codec_simps]:
  "ParseDelete (a # b # c # d # ys) =
     (if unat b * unat (u16_of c d) \<noteq> length ys then Inl (Err ErrInvalidDelete)
      else
        rbind (parseDelete_loop (unat b) (unat (u16_of c d)) ys) (\<lambda>spis.
        rbind (validateDelete \<lparr>del_ProtocolID = a, del_SPIs = spis\<rparr>) (\<lambda>_.
          Inr \<lparr>del_ProtocolID = a, del_SPIs = spis\<rparr>)))"
  by (auto simp: ParseDelete_def Let_def)

lemma ParseDelete_errs: "only_errs {Err ErrInvalidDelete} (ParseDelete d)"
proof (cases "length d < 4")
  case False
  then obtain x y z w ys where "d = x # y # z # w # ys" by (rule length4_cases)
  moreover have "\<exists>spis. parseDelete_loop (unat y) (unat (u16_of z w)) ys = Inr spis"
    if "unat y * unat (u16_of z w) = length ys"
    using parseDelete_loop_total [of ys "unat y" "unat (u16_of z w)"] that by auto
  ultimately show ?thesis
    by (auto simp: ParseDelete_Cons intro!: only_errs_rbind validateDelete_errs)
qed (simp add: ParseDelete_def)

interpretation delete: lenient_codec Delete_MarshalBinary ParseDelete delete_wf
proof unfold_locales
  fix d b
  show "\<exists>b. Delete_MarshalBinary d = Inr b" if "delete_wf d"
    using that by (simp add: Delete_MarshalBinary_def delete_wf_def Let_def)
  show "ParseDelete b = Inr d" if wf: "delete_wf d" and b: "Delete_MarshalBinary d = Inr b"
  proof -
    let ?spis = "del_SPIs d"
    define k where "k = (case ?spis of [] \<Rightarrow> 0 | spi # _ \<Rightarrow> length spi)"
    have k: "k < 256" "\<forall>spi \<in> set ?spis. length spi = k" "length ?spis < 65536"
      using wf by (auto simp: delete_wf_iff k_def split: list.splits)
    have "b = del_ProtocolID d # go_byte k # PutUint16 (go_uint16 (length ?spis)) @ concat ?spis"
      using b wf by (simp add: Delete_MarshalBinary_def delete_wf_def k_def Let_def)
    with k wf length_concat_const [OF k(2)] show ?thesis
      by (cases d) (simp add: ParseDelete_Cons PutUint16_def parseDelete_loop_concat delete_wf_def)
  qed
  show "delete_wf d" if "ParseDelete b = Inr d"
    using that by (auto simp: ParseDelete_def delete_wf_def Let_def rbind_eq_Inr_iff split: if_splits)
qed

text \<open>a Delete payload can be decoded exactly when it follows the protocol's rules: an IKE SA
  delete names no SPI; an AH or ESP delete names between one and 65535 SPIs of four octets each.
  Every such payload is encoded, and every other one is refused by the encoder too.\<close>

theorem Delete_decodable_iff_valid:
  "(\<exists>b. ParseDelete b = Inr d) \<longleftrightarrow>
     del_ProtocolID d = ProtocolIKE \<and> del_SPIs d = [] \<or>
     (del_ProtocolID d = ProtocolAH \<or> del_ProtocolID d = ProtocolESP) \<and> del_SPIs d \<noteq> [] \<and>
       length (del_SPIs d) \<le> 0xffff \<and> list_all (\<lambda>spi. length spi = 4) (del_SPIs d)"
  using delete.wf_iff_encodable [of d] by (simp add: delete_wf_iff list_all_iff)

text \<open>tearing a tunnel down announces exactly what is torn down: the payloads decode to the ESP
  delete of the local SPI, when there is one, followed by the IKE SA delete, when it is asked for.\<close>

theorem TeardownDeletePayloads_announces:
  assumes "length localSPI = 0 \<or> length localSPI = 4" and "includeIKESA \<or> length localSPI = 4"
  shows "\<exists>ps. TeardownDeletePayloads localSPI includeIKESA = Inr ps \<and>
    map (ParseDelete \<circ> pl_Body) ps =
      (if length localSPI = 4 then [Inr \<lparr>del_ProtocolID = ProtocolESP, del_SPIs = [localSPI]\<rparr>] else []) @
      (if includeIKESA then [Inr \<lparr>del_ProtocolID = ProtocolIKE, del_SPIs = []\<rparr>] else [])"
proof -
  have esp: "ParseDelete (3 # 4 # 0 # 1 # localSPI) = Inr \<lparr>del_ProtocolID = 3, del_SPIs = [localSPI]\<rparr>"
    if "length localSPI = 4"
    using that parseDelete_loop_concat [of "[localSPI]" 4]
    by (simp add: ParseDelete_Cons u16_of_def validateDelete_def)
  have ike: "ParseDelete (pl_Body IKEDeletePayload) = Inr \<lparr>del_ProtocolID = 1, del_SPIs = []\<rparr>"
    by (simp add: IKEDeletePayload_def ParseDelete_Cons u16_of_def validateDelete_def)
  have body: "ESPDeletePayload [localSPI] = Inr (mkPayload PayloadDelete (3 # 4 # 0 # 1 # localSPI))"
    if "length localSPI = 4"
    using that by (simp add: ESPDeletePayload_def DeletePayload_def Delete_MarshalBinary_def
        validateDelete_def PutUint16_def go_byte_def go_uint16_def)
  show ?thesis
    using assms esp ike body
    by (auto simp: TeardownDeletePayloads_def ChildSADeletePayload_def Let_def)
qed

theorem TeardownDeletePayloads_announces_witness:
  "\<exists>ps. TeardownDeletePayloads [1, 2, 3, 4] True = Inr ps \<and> length ps = 2"
  using TeardownDeletePayloads_announces [of "[1, 2, 3, 4]" True]
  by (auto dest: arg_cong [of _ _ length])

subsection \<open>Key exchange\<close>

interpretation key_exchange: lenient_codec "\<lambda>k. Inr (KeyExchange_MarshalBinary k)" ParseKeyExchange "\<lambda>_. True"
  by unfold_locales (auto simp: KeyExchange_MarshalBinary_def ParseKeyExchange_def PutUint16_def)

subsection \<open>NAT detection\<close>

lemma NATDetectionHash_normalizes:
  "To16 a = Some b \<Longrightarrow> NATDetectionHash sha1 i r b port = NATDetectionHash sha1 i r a port"
  by (auto simp: NATDetectionHash_def To4_To16 To16_def To4_def v4InV6Prefix_def split: option.splits if_splits)

end
