(* ===== verification/IKE_SA.thy ===== *)
theory IKE_SA
  imports IKE_Payloads "HOL-Library.Multiset"
begin

text \<open>
  \<^verbatim>\<open>engine/swu/ikev2/sa.go\<close>: the proposals of a Security Association payload, their encoder and
  decoder, the proposals this client offers, and the check that a responder selected something that
  was offered.  The comparison of attribute lists, a loop over a \<^verbatim>\<open>used\<close> array, is shown to be
  equality of multisets.
\<close>

section \<open>Constants and data\<close>

abbreviation TransformENCR :: u8 where "TransformENCR \<equiv> 1"
abbreviation TransformPRF :: u8 where "TransformPRF \<equiv> 2"
abbreviation TransformINTEG :: u8 where "TransformINTEG \<equiv> 3"
abbreviation TransformDHRGroup :: u8 where "TransformDHRGroup \<equiv> 4"
abbreviation TransformESN :: u8 where "TransformESN \<equiv> 5"

abbreviation ENCR_AES_CBC :: u16 where "ENCR_AES_CBC \<equiv> 12"
abbreviation ENCR_AES_GCM_16 :: u16 where "ENCR_AES_GCM_16 \<equiv> 20"
abbreviation PRF_HMAC_SHA1 :: u16 where "PRF_HMAC_SHA1 \<equiv> 2"
abbreviation PRF_HMAC_SHA2_256 :: u16 where "PRF_HMAC_SHA2_256 \<equiv> 5"
abbreviation PRF_HMAC_SHA2_384 :: u16 where "PRF_HMAC_SHA2_384 \<equiv> 6"
abbreviation PRF_HMAC_SHA2_512 :: u16 where "PRF_HMAC_SHA2_512 \<equiv> 7"
abbreviation INTEG_HMAC_SHA1_96 :: u16 where "INTEG_HMAC_SHA1_96 \<equiv> 2"
abbreviation INTEG_AES_XCBC_96 :: u16 where "INTEG_AES_XCBC_96 \<equiv> 5"
abbreviation INTEG_HMAC_SHA2_256_128 :: u16 where "INTEG_HMAC_SHA2_256_128 \<equiv> 12"
abbreviation INTEG_HMAC_SHA2_384_192 :: u16 where "INTEG_HMAC_SHA2_384_192 \<equiv> 13"
abbreviation INTEG_HMAC_SHA2_512_256 :: u16 where "INTEG_HMAC_SHA2_512_256 \<equiv> 14"
abbreviation ESNNo :: u16 where "ESNNo \<equiv> 0"
abbreviation ESNYes :: u16 where "ESNYes \<equiv> 1"
abbreviation AttributeKeyLength :: u16 where "AttributeKeyLength \<equiv> 14"
abbreviation DHGroup2048BitMODP :: u16 where "DHGroup2048BitMODP \<equiv> 14"
abbreviation DHGroupCurve25519 :: u16 where "DHGroupCurve25519 \<equiv> 31"

record TransformAttribute =
  at_Type :: u16
  at_Value :: bytes

record Transform =
  tr_Type :: u8
  tr_ID :: u16
  tr_Attributes :: "TransformAttribute list"

record Proposal =
  prop_Number :: u8
  prop_ProtocolID :: u8
  prop_SPI :: bytes
  prop_Transforms :: "Transform list"

record SecurityAssociation =
  sa_Proposals :: "Proposal list"

definition KeyLengthAttribute :: "u16 \<Rightarrow> TransformAttribute" where
  "KeyLengthAttribute bits = \<lparr>at_Type = AttributeKeyLength, at_Value = PutUint16 bits\<rparr>"

abbreviation mkTransform :: "u8 \<Rightarrow> u16 \<Rightarrow> Transform" where
  "mkTransform t i \<equiv> \<lparr>tr_Type = t, tr_ID = i, tr_Attributes = []\<rparr>"

section \<open>The proposals offered\<close>

definition DefaultIKEProposal :: SecurityAssociation where
  "DefaultIKEProposal = \<lparr>sa_Proposals = [\<lparr>prop_Number = 1, prop_ProtocolID = ProtocolIKE, prop_SPI = [],
     prop_Transforms =
       [\<lparr>tr_Type = TransformENCR, tr_ID = ENCR_AES_CBC, tr_Attributes = [KeyLengthAttribute 128]\<rparr>,
        mkTransform TransformPRF PRF_HMAC_SHA2_256,
        mkTransform TransformINTEG INTEG_HMAC_SHA2_256_128,
        mkTransform TransformDHRGroup DHGroupCurve25519]\<rparr>]\<rparr>"

definition Default3GPPIKEProposal :: SecurityAssociation where
  "Default3GPPIKEProposal = \<lparr>sa_Proposals = [\<lparr>prop_Number = 1, prop_ProtocolID = ProtocolIKE, prop_SPI = [],
     prop_Transforms =
       [\<lparr>tr_Type = TransformENCR, tr_ID = ENCR_AES_CBC, tr_Attributes = [KeyLengthAttribute 128]\<rparr>,
        mkTransform TransformPRF PRF_HMAC_SHA2_256,
        mkTransform TransformPRF PRF_HMAC_SHA1,
        mkTransform TransformINTEG INTEG_HMAC_SHA2_256_128,
        mkTransform TransformINTEG INTEG_HMAC_SHA1_96,
        mkTransform TransformDHRGroup DHGroup2048BitMODP]\<rparr>]\<rparr>"

definition DefaultESPProposal :: "bytes \<Rightarrow> SecurityAssociation" where
  "DefaultESPProposal spi = \<lparr>sa_Proposals = [\<lparr>prop_Number = 1, prop_ProtocolID = ProtocolESP, prop_SPI = spi,
     prop_Transforms =
       [\<lparr>tr_Type = TransformENCR, tr_ID = ENCR_AES_CBC, tr_Attributes = [KeyLengthAttribute 128]\<rparr>,
        mkTransform TransformINTEG INTEG_HMAC_SHA2_256_128,
        mkTransform TransformESN ESNNo]\<rparr>]\<rparr>"

definition Default3GPPESPProposal :: "bytes \<Rightarrow> SecurityAssociation" where
  "Default3GPPESPProposal spi = \<lparr>sa_Proposals = [\<lparr>prop_Number = 1, prop_ProtocolID = ProtocolESP, prop_SPI = spi,
     prop_Transforms =
       [\<lparr>tr_Type = TransformENCR, tr_ID = ENCR_AES_CBC, tr_Attributes = [KeyLengthAttribute 128]\<rparr>,
        mkTransform TransformINTEG INTEG_HMAC_SHA2_256_128,
        mkTransform TransformINTEG INTEG_HMAC_SHA1_96,
        mkTransform TransformESN ESNNo]\<rparr>]\<rparr>"

section \<open>Encoding\<close>

text \<open>One round of the loop of \<^verbatim>\<open>marshalTransformAttributes\<close>.\<close>

definition marshalTransformAttribute1 :: "TransformAttribute \<Rightarrow> bytes res" where
  "marshalTransformAttribute1 attr =
     (if length (at_Value attr) = 2
      then Inr (PutUint16 (at_Type attr OR 0x8000) @ at_Value attr)
      else if length (at_Value attr) > 0xffff then Inl (Err ErrInvalidSA)
      else Inr (PutUint16 (at_Type attr) @ PutUint16 (go_uint16 (length (at_Value attr))) @ at_Value attr))"

definition marshalTransformAttributes :: "TransformAttribute list \<Rightarrow> bytes res" where
  "marshalTransformAttributes attrs = encode_all marshalTransformAttribute1 attrs"

definition Transform_marshal :: "bool \<Rightarrow> Transform \<Rightarrow> bytes res" where
  "Transform_marshal hasMore t =
     rbind (marshalTransformAttributes (tr_Attributes t)) (\<lambda>attrs.
       if 8 + length attrs > 0xffff then Inl (Err ErrInvalidSA)
       else Inr ([if hasMore then 3 else 0, 0] @ PutUint16 (go_uint16 (8 + length attrs)) @
                 [tr_Type t, 0] @ PutUint16 (tr_ID t) @ attrs))"

text \<open>The loops over transforms and over proposals append each element with a flag that tells
  whether \<^verbatim>\<open>i+1 < len\<close>, and stop at the first error.\<close>

fun encode_flagged :: "(bool \<Rightarrow> 'a \<Rightarrow> bytes res) \<Rightarrow> 'a list \<Rightarrow> bytes res" where
  "encode_flagged f [] = Inr []"
| "encode_flagged f (x # xs) =
     rbind (f (xs \<noteq> []) x) (\<lambda>b. rbind (encode_flagged f xs) (\<lambda>bs. Inr (b @ bs)))"

definition Proposal_marshalBody :: "Proposal \<Rightarrow> bytes res" where
  "Proposal_marshalBody p =
     (if length (prop_Transforms p) = 0 then Inl (Err ErrInvalidSA)
      else if length (prop_SPI p) > 0xff \<or> length (prop_Transforms p) > 0xff then Inl (Err ErrInvalidSA)
      else
        rbind (encode_flagged Transform_marshal (prop_Transforms p)) (\<lambda>trs.
          Inr ([prop_Number p, prop_ProtocolID p, go_byte (length (prop_SPI p)),
                go_byte (length (prop_Transforms p))] @ prop_SPI p @ trs)))"

text \<open>One round of the loop of \<^verbatim>\<open>SecurityAssociation.MarshalBinary\<close>.\<close>

definition marshalProposal1 :: "bool \<Rightarrow> Proposal \<Rightarrow> bytes res" where
  "marshalProposal1 hasMore p =
     rbind (Proposal_marshalBody p) (\<lambda>body.
       if length body + 4 > 0xffff then Inl (Err ErrInvalidSA)
       else Inr ([if hasMore then 2 else 0, 0] @ PutUint16 (go_uint16 (length body + 4)) @ body))"

definition SecurityAssociation_MarshalBinary :: "SecurityAssociation \<Rightarrow> bytes res" where
  "SecurityAssociation_MarshalBinary sa =
     (if length (sa_Proposals sa) = 0 then Inl (Err ErrInvalidSA)
      else encode_flagged marshalProposal1 (sa_Proposals sa))"

definition SecurityAssociationPayload :: "SecurityAssociation \<Rightarrow> Payload res" where
  "SecurityAssociationPayload sa =
     rbind (SecurityAssociation_MarshalBinary sa) (\<lambda>body. Inr (mkPayload PayloadSA body))"

section \<open>Decoding\<close>

definition parseTransformAttribute1 :: "bytes \<Rightarrow> (TransformAttribute \<times> bytes) res" where
  "parseTransformAttribute1 data =
     (if length data < 4 then Inl (Err ErrInvalidSA)
      else
        rbind (u16_at 0 data) (\<lambda>attrType.
        if attrType AND 0x8000 \<noteq> 0
        then rbind (sub 2 4 data) (\<lambda>v.
             rbind (sub 4 (length data) data) (\<lambda>rest.
               Inr (\<lparr>at_Type = attrType AND 0x7fff, at_Value = v\<rparr>, rest)))
        else rbind (u16_at 2 data) (\<lambda>len16.
          let len = unat len16 in
          if length data < 4 + len then Inl (Err ErrInvalidSA)
          else rbind (sub 4 (4 + len) data) (\<lambda>v.
               rbind (sub (4 + len) (length data) data) (\<lambda>rest.
                 Inr (\<lparr>at_Type = attrType, at_Value = v\<rparr>, rest))))))"

definition parseTransformAttributes :: "bytes \<Rightarrow> TransformAttribute list res" where
  "parseTransformAttributes data = many parseTransformAttribute1 data"

text \<open>\<^verbatim>\<open>parseTransform\<close> with the caller's \<^verbatim>\<open>rest = rest[length:]\<close>.\<close>

definition parseTransform :: "bytes \<Rightarrow> (Transform \<times> bool \<times> bytes) res" where
  "parseTransform data =
     (if length data < 8 then Inl (Err ErrInvalidSA)
      else
        rbind (idx 0 data) (\<lambda>moreFlag.
        rbind (u16_at 2 data) (\<lambda>len16.
        let len = unat len16 in
        if len < 8 \<or> len > length data then Inl (Err ErrInvalidSA)
        else
          rbind (idx 4 data) (\<lambda>t.
          rbind (u16_at 6 data) (\<lambda>i.
          rbind (sub 8 len data) (\<lambda>ab.
          rbind (parseTransformAttributes ab) (\<lambda>attrs.
          rbind (sub len (length data) data) (\<lambda>rest.
          let tr = \<lparr>tr_Type = t, tr_ID = i, tr_Attributes = attrs\<rparr> in
            if moreFlag = 0 then Inr (tr, False, rest)
            else if moreFlag = 3 then Inr (tr, True, rest)
            else Inl (Err ErrInvalidSA)))))))))"

text \<open>
  The loop \<^verbatim>\<open>for len(rest) > 0\<close> of both decoders: an element that is not the last continues; the
  last one must leave nothing behind.
\<close>

function many_flagged :: "(bytes \<Rightarrow> ('a \<times> bool \<times> bytes) res) \<Rightarrow> bytes \<Rightarrow> 'a list res" where
  "many_flagged item data =
     (if data = [] then Inr []
      else rbind (item data) (\<lambda>(x, hasMore, rest).
        if \<not> hasMore then (if rest \<noteq> [] then Inl (Err ErrInvalidSA) else Inr [x])
        else if length rest < length data
        then rbind (many_flagged item rest) (\<lambda>xs. Inr (x # xs))
        else Inl Diverge))"
  by pat_completeness auto
termination
  by (relation "measure (\<lambda>(item, data). length data)") auto

declare many_flagged.simps [simp del]

definition parseProposalBody :: "bytes \<Rightarrow> Proposal res" where
  "parseProposalBody data =
     (if length data < 4 then Inl (Err ErrInvalidSA)
      else
        rbind (idx 2 data) (\<lambda>b2.
        rbind (idx 3 data) (\<lambda>b3.
        let spiSize = unat b2; transformCount = unat b3 in
        if length data < 4 + spiSize then Inl (Err ErrInvalidSA)
        else
          rbind (idx 0 data) (\<lambda>num.
          rbind (idx 1 data) (\<lambda>prot.
          rbind (sub 4 (4 + spiSize) data) (\<lambda>spi.
          rbind (sub (4 + spiSize) (length data) data) (\<lambda>rest.
          rbind (many_flagged parseTransform rest) (\<lambda>trs.
            if length trs \<noteq> transformCount then Inl (Err ErrInvalidSA)
            else Inr \<lparr>prop_Number = num, prop_ProtocolID = prot, prop_SPI = spi,
                      prop_Transforms = trs\<rparr>))))))))"

text \<open>One round of the loop of \<^verbatim>\<open>ParseSecurityAssociation\<close>.\<close>

definition parseProposal1 :: "bytes \<Rightarrow> (Proposal \<times> bool \<times> bytes) res" where
  "parseProposal1 data =
     (if length data < 4 then Inl (Err ErrInvalidSA)
      else
        rbind (idx 0 data) (\<lambda>hasMore.
        rbind (u16_at 2 data) (\<lambda>len16.
        let len = unat len16 in
        if len < 8 \<or> len > length data then Inl (Err ErrInvalidSA)
        else
          rbind (sub 4 len data) (\<lambda>body.
          rbind (parseProposalBody body) (\<lambda>p.
          rbind (sub len (length data) data) (\<lambda>rest.
            if hasMore = 0 then Inr (p, False, rest)
            else if hasMore \<noteq> 2 then Inl (Err ErrInvalidSA)
            else Inr (p, True, rest)))))))"

definition ParseSecurityAssociation :: "bytes \<Rightarrow> SecurityAssociation res" where
  "ParseSecurityAssociation data =
     rbind (many_flagged parseProposal1 data) (\<lambda>ps.
       if length ps = 0 then Inl (Err ErrInvalidSA) else Inr \<lparr>sa_Proposals = ps\<rparr>)"

section \<open>Checking the responder's selection\<close>

text \<open>\<^verbatim>\<open>findTransform\<close> of \<^verbatim>\<open>keys.go\<close>; its flag is the option.\<close>

definition findTransform :: "Proposal \<Rightarrow> u8 \<Rightarrow> Transform option" where
  "findTransform p transformType = find (\<lambda>tr. tr_Type tr = transformType) (prop_Transforms p)"

definition isCombinedModeEncryption :: "u16 \<Rightarrow> bool" where
  "isCombinedModeEncryption i \<longleftrightarrow> i = ENCR_AES_GCM_16"

definition proposalHasTransformType :: "Proposal \<Rightarrow> u8 \<Rightarrow> bool" where
  "proposalHasTransformType p transformType \<longleftrightarrow>
     list_ex (\<lambda>tr. tr_Type tr = transformType) (prop_Transforms p)"

text \<open>The inner loop of \<^verbatim>\<open>transformAttributesEqual\<close>: mark the first unused attribute of \<^verbatim>\<open>b\<close> that
  equals \<^verbatim>\<open>attrA\<close>, or fail.\<close>

fun markUsed :: "TransformAttribute \<Rightarrow> TransformAttribute list \<Rightarrow> bool list \<Rightarrow> bool list option" where
  "markUsed attrA (attrB # bs) (u # used) =
     (if u \<or> at_Type attrA \<noteq> at_Type attrB \<or> at_Value attrA \<noteq> at_Value attrB
      then map_option (\<lambda>used'. u # used') (markUsed attrA bs used)
      else Some (True # used))"
| "markUsed attrA _ _ = None"

fun attributesEqual_loop :: "TransformAttribute list \<Rightarrow> TransformAttribute list \<Rightarrow> bool list \<Rightarrow> bool" where
  "attributesEqual_loop [] b used = True"
| "attributesEqual_loop (attrA # a) b used =
     (case markUsed attrA b used of None \<Rightarrow> False | Some used' \<Rightarrow> attributesEqual_loop a b used')"

definition transformAttributesEqual :: "TransformAttribute list \<Rightarrow> TransformAttribute list \<Rightarrow> bool" where
  "transformAttributesEqual a b =
     (if length a \<noteq> length b then False
      else attributesEqual_loop a b (replicate (length b) False))"

definition transformsEqual :: "Transform \<Rightarrow> Transform \<Rightarrow> bool" where
  "transformsEqual a b \<longleftrightarrow>
     tr_Type a = tr_Type b \<and> tr_ID a = tr_ID b \<and>
     transformAttributesEqual (tr_Attributes a) (tr_Attributes b)"

definition proposalHasTransform :: "Proposal \<Rightarrow> Transform \<Rightarrow> bool" where
  "proposalHasTransform p target \<longleftrightarrow> list_ex (\<lambda>tr. transformsEqual tr target) (prop_Transforms p)"

definition proposalSupportsSelection :: "Proposal \<Rightarrow> Proposal \<Rightarrow> bool" where
  "proposalSupportsSelection offered selected =
     (if prop_ProtocolID offered \<noteq> prop_ProtocolID selected then False
      else list_all (proposalHasTransform offered) (prop_Transforms selected))"

definition validateSelectedProposalRequiredTransforms :: "Proposal \<Rightarrow> unit res" where
  "validateSelectedProposalRequiredTransforms p =
     (let encr = findTransform p TransformENCR;
          required0 = (if prop_ProtocolID p = ProtocolIKE
                       then Some [TransformENCR, TransformPRF, TransformDHRGroup]
                       else if prop_ProtocolID p = ProtocolESP then Some [TransformENCR, TransformESN]
                       else None)
      in case required0 of
          None \<Rightarrow> Inl (Err ErrUnsupportedSASelection)
        | Some required \<Rightarrow>
            let combined = (case encr of None \<Rightarrow> False | Some tr \<Rightarrow> isCombinedModeEncryption (tr_ID tr))
            in if combined \<and> proposalHasTransformType p TransformINTEG
               then Inl (Err ErrUnsupportedSASelection)
               else
                 let required' = (if combined then required else required @ [TransformINTEG])
                 in if list_ex (\<lambda>t. \<not> proposalHasTransformType p t) required'
                    then Inl (Err ErrUnsupportedSASelection) else Inr ())"

definition ValidateSelectedSA :: "SecurityAssociation \<Rightarrow> SecurityAssociation \<Rightarrow> unit res" where
  "ValidateSelectedSA offered selected =
     (if length (sa_Proposals offered) = 0 then Inl (Err ErrUnsupportedSASelection)
      else if length (sa_Proposals selected) = 0 then Inl (Err ErrUnsupportedSASelection)
      else if length (sa_Proposals selected) \<noteq> 1 then Inl (Err ErrUnsupportedSASelection)
      else
        rbind (idx 0 (sa_Proposals selected)) (\<lambda>selectedProposal.
          if length (prop_Transforms selectedProposal) = 0 then Inl (Err ErrUnsupportedSASelection)
          else
            rbind (validateSelectedProposalRequiredTransforms selectedProposal) (\<lambda>_.
              if list_ex (\<lambda>p. proposalSupportsSelection p selectedProposal) (sa_Proposals offered)
              then Inr () else Inl (Err ErrUnsupportedSASelection))))"

section \<open>Loops over flagged elements\<close>

lemma many_flagged_Nil [simp]: "many_flagged item [] = Inr []"
  by (simp add: many_flagged.simps)

lemma many_flagged_more:
  "data \<noteq> [] \<Longrightarrow> item data = Inr (x, True, rest) \<Longrightarrow> length rest < length data \<Longrightarrow>
   many_flagged item data = rbind (many_flagged item rest) (\<lambda>xs. Inr (x # xs))"
  by (simp add: many_flagged.simps [of item data])

lemma many_flagged_last:
  "data \<noteq> [] \<Longrightarrow> item data = Inr (x, False, []) \<Longrightarrow> many_flagged item data = Inr [x]"
  by (simp add: many_flagged.simps [of item data])

lemma encode_flagged_eq_Nil:
  "encode_flagged f xs = Inr [] \<Longrightarrow> (\<And>m x b. f m x = Inr b \<Longrightarrow> b \<noteq> []) \<Longrightarrow> xs = []"
  by (cases xs) (auto simp: rbind_eq_Inr_iff)

text \<open>The interface between an element's encoder and decoder that makes the loops inverse.\<close>

locale flagged_item =
  fixes enc1 :: "bool \<Rightarrow> 'a \<Rightarrow> bytes res"
    and item :: "bytes \<Rightarrow> ('a \<times> bool \<times> bytes) res" and wf1 :: "'a \<Rightarrow> bool" and E :: "go_error set"
  assumes item_enc1: "wf1 x \<Longrightarrow> enc1 hasMore x = Inr b \<Longrightarrow> item (b @ rest) = Inr (x, hasMore, rest)"
    and enc1_nonempty: "enc1 hasMore x = Inr b \<Longrightarrow> b \<noteq> []"
    and item_shrinks: "item d = Inr (x, hasMore, rest) \<Longrightarrow> length rest < length d"
    and item_errs: "only_errs E (item d)"
    and trailing_err: "Err ErrInvalidSA \<in> E"
begin

lemma many_flagged_enc:
  "list_all wf1 xs \<Longrightarrow> encode_flagged enc1 xs = Inr bs \<Longrightarrow> many_flagged item bs = Inr xs"
proof (induction xs arbitrary: bs)
  case (Cons x xs)
  then obtain b bs' where b: "enc1 (xs \<noteq> []) x = Inr b" and bs': "encode_flagged enc1 xs = Inr bs'"
    and bs: "bs = b @ bs'" by (auto simp: rbind_eq_Inr_iff)
  have item: "item (b @ bs') = Inr (x, xs \<noteq> [], bs')"
    using Cons.prems(1) b by (intro item_enc1) simp_all
  show ?case
  proof (cases "xs = []")
    case True
    with bs bs' item enc1_nonempty [OF b] show ?thesis by (simp add: many_flagged_last)
  next
    case False
    with bs item enc1_nonempty [OF b] Cons.IH [OF _ bs'] Cons.prems(1) show ?thesis
      by (simp add: many_flagged_more)
  qed
qed simp

lemma many_flagged_errs: "only_errs E (many_flagged item data)"
proof (induction data rule: length_induct)
  case (1 data)
  show ?case
  proof (cases "data = []")
    case False
    then show ?thesis
      using 1 item_shrinks item_errs [of data] trailing_err
      by (subst many_flagged.simps) (auto intro!: only_errs_rbind)
  qed simp
qed

end

section \<open>Properties\<close>

subsection \<open>Attributes\<close>

definition attr_wf :: "TransformAttribute \<Rightarrow> bool" where
  "attr_wf a \<longleftrightarrow> at_Type a AND 0x8000 = 0 \<and> length (at_Value a) \<le> 0xffff"

definition attr_enc :: "TransformAttribute \<Rightarrow> bytes" where
  "attr_enc a =
     (if length (at_Value a) = 2 then PutUint16 (at_Type a OR 0x8000) @ at_Value a
      else PutUint16 (at_Type a) @ PutUint16 (go_uint16 (length (at_Value a))) @ at_Value a)"

lemma parseTransformAttribute1_Cons [codec_simps]:
  "parseTransformAttribute1 (a # b # c # d # ys) =
     (let t = u16_of a b in
      if t AND 0x8000 \<noteq> 0 then Inr (\<lparr>at_Type = t AND 0x7fff, at_Value = [c, d]\<rparr>, ys)
      else if length ys < unat (u16_of c d) then Inl (Err ErrInvalidSA)
      else Inr (\<lparr>at_Type = t, at_Value = take (unat (u16_of c d)) ys\<rparr>, drop (unat (u16_of c d)) ys))"
  by (auto simp: parseTransformAttribute1_def Let_def take_Cons')

lemma parseTransformAttribute1_short:
  "length d < 4 \<Longrightarrow> parseTransformAttribute1 d = Inl (Err ErrInvalidSA)"
  by (simp add: parseTransformAttribute1_def)

lemma or_0x8000:
  "(t OR 0x8000) AND (0x8000 :: u16) \<noteq> 0"
  "(t :: u16) AND 0x8000 = 0 \<Longrightarrow> (t OR 0x8000) AND 0x7fff = t"
proof -
  have "bit ((t OR 0x8000) AND (0x8000 :: u16)) 15" by (simp add: bit_simps bit_numeral_rec)
  then show "(t OR 0x8000) AND (0x8000 :: u16) \<noteq> 0" by auto
next
  assume t: "t AND 0x8000 = 0"
  have "(t OR 0x8000) AND 0x7fff = (t AND 0x7fff) OR (t AND 0x8000)"
    using t by (simp add: bit.conj_disj_distrib2)
  also have "\<dots> = t AND (0x7fff OR 0x8000)" by (simp only: bit.conj_disj_distrib)
  also have "(0x7fff OR 0x8000 :: u16) = -1" by simp
  finally show "(t OR 0x8000) AND 0x7fff = t" by simp
qed

lemma attr_enc_marshal: "attr_wf a \<Longrightarrow> marshalTransformAttribute1 a = Inr (attr_enc a)"
  by (simp add: marshalTransformAttribute1_def attr_enc_def attr_wf_def)

interpretation attribute: stream_item attr_enc parseTransformAttribute1 attr_wf
proof unfold_locales
  fix a :: TransformAttribute and d rest
  show "parseTransformAttribute1 (attr_enc a @ rest) = Inr (a, rest)" if wf: "attr_wf a"
  proof (cases "length (at_Value a) = 2")
    case True
    then obtain c d where v: "at_Value a = [c, d]" by (auto simp: length_Suc_conv numeral_2_eq_2)
    define t where "t = at_Type a OR 0x8000"
    have t: "t AND 0x8000 \<noteq> 0" "t AND 0x7fff = at_Type a"
      using or_0x8000 [of "at_Type a"] wf by (simp_all add: t_def attr_wf_def)
    have "attr_enc a = PutUint16 t @ [c, d]" by (simp add: attr_enc_def v t_def)
    with t v show ?thesis
      by (simp add: PutUint16_def parseTransformAttribute1_Cons)
  next
    case False
    with wf show ?thesis
      by (simp add: attr_enc_def PutUint16_def parseTransformAttribute1_Cons attr_wf_def)
  qed
  show "attr_enc a \<noteq> []" by (simp add: attr_enc_def PutUint16_def)
  show "length rest < length d" if "parseTransformAttribute1 d = Inr (a, rest)"
    using that by (cases "length d < 4")
      (auto simp: parseTransformAttribute1_short parseTransformAttribute1_Cons Let_def
        elim!: length4_cases split: if_splits)
  show "safe (parseTransformAttribute1 d)"
    by (cases "length d < 4")
      (auto simp: parseTransformAttribute1_short parseTransformAttribute1_Cons Let_def elim!: length4_cases)
qed

lemma parseTransformAttribute1_errs: "only_errs {Err ErrInvalidSA} (parseTransformAttribute1 d)"
  by (cases "length d < 4")
    (auto simp: parseTransformAttribute1_short parseTransformAttribute1_Cons Let_def elim!: length4_cases)

lemma parseTransformAttributes_errs: "only_errs {Err ErrInvalidSA} (parseTransformAttributes d)"
  unfolding parseTransformAttributes_def
  using parseTransformAttribute1_errs attribute.item_shrinks by (rule many_only_errs)

lemma parse_marshal_attributes:
  assumes "list_all (\<lambda>a. at_Type a AND 0x8000 = 0) attrs" and "marshalTransformAttributes attrs = Inr b"
  shows "parseTransformAttributes b = Inr attrs"
proof -
  have ok: "\<exists>b. marshalTransformAttribute1 a = Inr b" if "a \<in> set attrs" for a
    using assms(2) that unfolding marshalTransformAttributes_def by (rule encode_all_Inr_D)
  have wf: "list_all attr_wf attrs"
    unfolding list_all_iff
  proof
    fix a assume a: "a \<in> set attrs"
    show "attr_wf a"
      using ok [OF a] assms(1) a
      by (auto simp: attr_wf_def marshalTransformAttribute1_def list_all_iff split: if_splits)
  qed
  have "b = concat (map attr_enc attrs)"
    using assms(2) wf encode_all_concat [of attrs marshalTransformAttribute1 attr_enc]
    by (simp add: marshalTransformAttributes_def attr_enc_marshal list_all_iff)
  with attribute.many_enc [OF wf] show ?thesis by (simp add: parseTransformAttributes_def)
qed

subsection \<open>Transforms, proposals and the whole payload\<close>

text \<open>The one thing the encoder does not check: the top bit of an attribute type is the format
  flag on the wire.\<close>

definition transform_wf :: "Transform \<Rightarrow> bool" where
  "transform_wf t \<longleftrightarrow> list_all (\<lambda>a. at_Type a AND 0x8000 = 0) (tr_Attributes t)"

definition proposal_wf :: "Proposal \<Rightarrow> bool" where
  "proposal_wf p \<longleftrightarrow> list_all transform_wf (prop_Transforms p)"

lemma parseTransform_Cons [codec_simps]:
  "parseTransform (a # b # c # d # e # f # g # h # ys) =
     (let len = unat (u16_of c d) in
      if len < 8 \<or> len > 8 + length ys then Inl (Err ErrInvalidSA)
      else rbind (parseTransformAttributes (take (len - 8) ys)) (\<lambda>attrs.
        let tr = \<lparr>tr_Type = e, tr_ID = u16_of g h, tr_Attributes = attrs\<rparr> in
        if a = 0 then Inr (tr, False, drop (len - 8) ys)
        else if a = 3 then Inr (tr, True, drop (len - 8) ys)
        else Inl (Err ErrInvalidSA)))"
  by (auto simp: parseTransform_def Let_def simp del: drop_Cons4)

lemma parseTransform_short: "length d < 8 \<Longrightarrow> parseTransform d = Inl (Err ErrInvalidSA)"
  by (simp add: parseTransform_def)

interpretation transform: flagged_item Transform_marshal parseTransform transform_wf "{Err ErrInvalidSA}"
proof unfold_locales
  fix t :: Transform and hasMore b rest d
  show "parseTransform (b @ rest) = Inr (t, hasMore, rest)"
    if wf: "transform_wf t" and b: "Transform_marshal hasMore t = Inr b"
  proof -
    from b obtain attrs where attrs: "marshalTransformAttributes (tr_Attributes t) = Inr attrs"
      "8 + length attrs \<le> 0xffff"
      and "b = [if hasMore then 3 else 0, 0] @ PutUint16 (go_uint16 (8 + length attrs)) @
          [tr_Type t, 0] @ PutUint16 (tr_ID t) @ attrs"
      by (auto simp: Transform_marshal_def rbind_eq_Inr_iff split: if_splits)
    moreover have "parseTransformAttributes attrs = Inr (tr_Attributes t)"
      using wf attrs(1) unfolding transform_wf_def by (rule parse_marshal_attributes)
    ultimately show ?thesis
      by (cases t) (simp add: PutUint16_def parseTransform_Cons)
  qed
  show "b \<noteq> []" if "Transform_marshal hasMore t = Inr b"
    using that by (auto simp: Transform_marshal_def rbind_eq_Inr_iff split: if_splits)
  show "length rest < length d" if "parseTransform d = Inr (t, hasMore, rest)"
    using that by (cases "length d < 8")
      (auto simp: parseTransform_short parseTransform_Cons Let_def rbind_eq_Inr_iff
        elim!: length8_cases split: if_splits)
  show "only_errs {Err ErrInvalidSA} (parseTransform d)"
    by (cases "length d < 8")
      (auto simp: parseTransform_short parseTransform_Cons Let_def
        intro!: only_errs_rbind parseTransformAttributes_errs elim!: length8_cases)
qed simp

lemma parseProposalBody_Cons [codec_simps]:
  "parseProposalBody (a # b # c # d # ys) =
     (if length ys < unat c then Inl (Err ErrInvalidSA)
      else rbind (many_flagged parseTransform (drop (unat c) ys)) (\<lambda>trs.
        if length trs \<noteq> unat d then Inl (Err ErrInvalidSA)
        else Inr \<lparr>prop_Number = a, prop_ProtocolID = b, prop_SPI = take (unat c) ys, prop_Transforms = trs\<rparr>))"
  by (auto simp: parseProposalBody_def Let_def)

lemma parseProposalBody_short: "length d < 4 \<Longrightarrow> parseProposalBody d = Inl (Err ErrInvalidSA)"
  by (simp add: parseProposalBody_def)

lemma parseProposalBody_errs: "only_errs {Err ErrInvalidSA} (parseProposalBody d)"
  by (cases "length d < 4")
    (auto simp: parseProposalBody_short parseProposalBody_Cons
      intro!: only_errs_rbind transform.many_flagged_errs elim!: length4_cases)

lemma parse_marshal_body:
  assumes wf: "proposal_wf p" and b: "Proposal_marshalBody p = Inr b"
  shows "parseProposalBody b = Inr p" and "4 \<le> length b"
proof -
  from b obtain trs where trs: "encode_flagged Transform_marshal (prop_Transforms p) = Inr trs"
    and sizes: "length (prop_SPI p) < 256" "length (prop_Transforms p) < 256"
    and "b = [prop_Number p, prop_ProtocolID p, go_byte (length (prop_SPI p)),
        go_byte (length (prop_Transforms p))] @ prop_SPI p @ trs"
    by (auto simp: Proposal_marshalBody_def rbind_eq_Inr_iff not_less split: if_splits)
  moreover have "many_flagged parseTransform trs = Inr (prop_Transforms p)"
    using wf trs unfolding proposal_wf_def by (rule transform.many_flagged_enc)
  ultimately show "parseProposalBody b = Inr p" "4 \<le> length b"
    by (cases p; simp add: parseProposalBody_Cons)+
qed

lemma parseProposal1_Cons [codec_simps]:
  "parseProposal1 (a # b # c # d # ys) =
     (let len = unat (u16_of c d) in
      if len < 8 \<or> len > 4 + length ys then Inl (Err ErrInvalidSA)
      else rbind (parseProposalBody (take (len - 4) ys)) (\<lambda>p.
        if a = 0 then Inr (p, False, drop (len - 4) ys)
        else if a \<noteq> 2 then Inl (Err ErrInvalidSA)
        else Inr (p, True, drop (len - 4) ys)))"
  by (auto simp: parseProposal1_def Let_def)

lemma parseProposal1_short: "length d < 4 \<Longrightarrow> parseProposal1 d = Inl (Err ErrInvalidSA)"
  by (simp add: parseProposal1_def)

interpretation proposal: flagged_item marshalProposal1 parseProposal1 proposal_wf "{Err ErrInvalidSA}"
proof unfold_locales
  fix p :: Proposal and hasMore b rest d
  show "parseProposal1 (b @ rest) = Inr (p, hasMore, rest)"
    if wf: "proposal_wf p" and b: "marshalProposal1 hasMore p = Inr b"
  proof -
    from b obtain body where body: "Proposal_marshalBody p = Inr body"
      and len: "length body + 4 \<le> 0xffff"
      and "b = [if hasMore then 2 else 0, 0] @ PutUint16 (go_uint16 (length body + 4)) @ body"
      by (auto simp: marshalProposal1_def rbind_eq_Inr_iff split: if_splits)
    with parse_marshal_body [OF wf body] show ?thesis
      by (simp add: PutUint16_def parseProposal1_Cons)
  qed
  show "b \<noteq> []" if "marshalProposal1 hasMore p = Inr b"
    using that by (auto simp: marshalProposal1_def rbind_eq_Inr_iff split: if_splits)
  show "length rest < length d" if "parseProposal1 d = Inr (p, hasMore, rest)"
    using that by (cases "length d < 4")
      (auto simp: parseProposal1_short parseProposal1_Cons Let_def rbind_eq_Inr_iff
        elim!: length4_cases split: if_splits)
  show "only_errs {Err ErrInvalidSA} (parseProposal1 d)"
    by (cases "length d < 4")
      (auto simp: parseProposal1_short parseProposal1_Cons Let_def
        intro!: only_errs_rbind parseProposalBody_errs elim!: length4_cases)
qed simp

lemma ParseSecurityAssociation_errs: "only_errs {Err ErrInvalidSA} (ParseSecurityAssociation d)"
  by (auto simp: ParseSecurityAssociation_def intro!: only_errs_rbind proposal.many_flagged_errs)

definition sa_wf :: "SecurityAssociation \<Rightarrow> bool" where
  "sa_wf sa \<longleftrightarrow> list_all proposal_wf (sa_Proposals sa) \<and> \<not> isl (SecurityAssociation_MarshalBinary sa)"

lemma parse_marshal_sa:
  assumes "list_all proposal_wf (sa_Proposals sa)" and "SecurityAssociation_MarshalBinary sa = Inr b"
  shows "ParseSecurityAssociation b = Inr sa"
proof -
  have "sa_Proposals sa \<noteq> []" "encode_flagged marshalProposal1 (sa_Proposals sa) = Inr b"
    using assms(2) by (auto simp: SecurityAssociation_MarshalBinary_def split: if_splits)
  with proposal.many_flagged_enc [OF assms(1)] show ?thesis
    by (cases sa) (simp add: ParseSecurityAssociation_def)
qed

interpretation sa: codec SecurityAssociation_MarshalBinary ParseSecurityAssociation sa_wf
  by unfold_locales (auto simp: sa_wf_def parse_marshal_sa not_isl_iff)

text \<open>whatever Security Association the encoder accepts is read back unchanged by the decoder,
  through all three nested length-delimited levels, provided no attribute type uses the bit that
  marks the short attribute format.\<close>

theorem sa_payload_roundtrip:
  assumes "SecurityAssociation_MarshalBinary sa = Inr b"
    and "list_all (\<lambda>p. list_all (\<lambda>t. list_all (\<lambda>a. at_Type a AND 0x8000 = 0) (tr_Attributes t))
           (prop_Transforms p)) (sa_Proposals sa)"
  shows "ParseSecurityAssociation b = Inr sa"
proof -
  have "sa_wf sa"
    using assms by (simp add: sa_wf_def proposal_wf_def [abs_def] transform_wf_def [abs_def])
  then show ?thesis using assms(1) by (rule sa.dec_enc)
qed

theorem sa_payload_roundtrip_witness:
  "\<exists>b. SecurityAssociation_MarshalBinary Default3GPPIKEProposal = Inr b \<and>
     ParseSecurityAssociation b = Inr Default3GPPIKEProposal"
proof -
  obtain b where b: "SecurityAssociation_MarshalBinary Default3GPPIKEProposal = Inr b"
    by (simp add: SecurityAssociation_MarshalBinary_def Default3GPPIKEProposal_def marshalProposal1_def
        Proposal_marshalBody_def Transform_marshal_def marshalTransformAttributes_def
        marshalTransformAttribute1_def KeyLengthAttribute_def)
  from sa_payload_roundtrip [OF b] b show ?thesis
    by (simp add: Default3GPPIKEProposal_def KeyLengthAttribute_def)
qed

text \<open>no octets make the Security Association decoder panic or loop; all it can report is an
  invalid SA payload.\<close>

theorem ParseSecurityAssociation_never_panics:
  "only_errs {Err ErrInvalidSA} (ParseSecurityAssociation data)"
  by (rule ParseSecurityAssociation_errs)

subsection \<open>Comparing attributes\<close>

text \<open>The attributes of \<open>b\<close> that are still free.\<close>

definition unused :: "TransformAttribute list \<Rightarrow> bool list \<Rightarrow> TransformAttribute multiset" where
  "unused b used = mset (map fst (filter (\<lambda>(_, u). \<not> u) (zip b used)))"

lemma unused_simps [simp]:
  "unused [] used = {#}" "unused b [] = {#}"
  "unused (x # b) (u # used) = (if u then unused b used else add_mset x (unused b used))"
  by (simp_all add: unused_def)

lemma unused_replicate [simp]: "unused b (replicate (length b) False) = mset b"
  by (induction b) auto

lemma attribute_eqI: "at_Type a = at_Type b \<Longrightarrow> at_Value a = at_Value b \<Longrightarrow> a = (b :: TransformAttribute)"
  by simp

lemma markUsed_unused:
  "length b = length used \<Longrightarrow>
   (case markUsed a b used of
      None \<Rightarrow> a \<notin># unused b used
    | Some used' \<Rightarrow> length used' = length b \<and> unused b used = add_mset a (unused b used'))"
  by (induction a b used rule: markUsed.induct) (auto split: option.splits intro: attribute_eqI)

lemma attributesEqual_loop_unused:
  "length b = length used \<Longrightarrow> attributesEqual_loop a b used \<longleftrightarrow> mset a \<subseteq># unused b used"
proof (induction a arbitrary: used)
  case (Cons x a)
  note mark = markUsed_unused [OF Cons.prems, of x]
  show ?case
  proof (cases "markUsed x b used")
    case None
    with mark show ?thesis by (auto dest: mset_subset_eqD)
  next
    case (Some used')
    with mark Cons.IH [of used'] show ?thesis by simp
  qed
qed simp

lemma transformAttributesEqual_mset: "transformAttributesEqual a b \<longleftrightarrow> mset a = mset b"
proof (cases "length a = length b")
  case True
  have "attributesEqual_loop a b (replicate (length b) False) \<longleftrightarrow> mset a \<subseteq># mset b"
    using attributesEqual_loop_unused [of b "replicate (length b) False" a] by simp
  also have "\<dots> \<longleftrightarrow> mset a = mset b"
    using True by (metis size_mset subset_mset.order_refl mset_subset_size subset_mset.le_neq_trans less_irrefl)
  finally show ?thesis using True by (simp add: transformAttributesEqual_def)
next
  case False
  then show ?thesis
    by (metis transformAttributesEqual_def mset_eq_length)
qed

text \<open>the array of used flags in the attribute comparison implements equality up to order: two
  attribute lists compare equal exactly when they are the same multiset, repeated attributes
  counted.\<close>

theorem transformAttributesEqual_iff_mset:
  "transformAttributesEqual a b \<longleftrightarrow> mset a = mset b"
  by (rule transformAttributesEqual_mset)

subsection \<open>The responder's selection\<close>

text \<open>Two transforms that differ at most in the order of their attributes.\<close>

definition same_transform :: "Transform \<Rightarrow> Transform \<Rightarrow> bool" where
  "same_transform a b \<longleftrightarrow>
     tr_Type a = tr_Type b \<and> tr_ID a = tr_ID b \<and> mset (tr_Attributes a) = mset (tr_Attributes b)"

lemma transformsEqual_same: "transformsEqual a b \<longleftrightarrow> same_transform a b"
  by (simp add: transformsEqual_def same_transform_def transformAttributesEqual_mset)

lemma ValidateSelectedSA_errs: "only_errs {Err ErrUnsupportedSASelection} (ValidateSelectedSA off sel)"
  by (auto simp: ValidateSelectedSA_def validateSelectedProposalRequiredTransforms_def Let_def
      intro!: only_errs_rbind only_errs_if split: option.splits)

lemma required_transforms_present:
  assumes "validateSelectedProposalRequiredTransforms p = Inr ()"
  shows "prop_ProtocolID p = ProtocolIKE \<and> proposalHasTransformType p TransformPRF \<and>
      proposalHasTransformType p TransformDHRGroup \<or>
      prop_ProtocolID p = ProtocolESP \<and> proposalHasTransformType p TransformESN"
    and "\<exists>encr. findTransform p TransformENCR = Some encr \<and>
      (isCombinedModeEncryption (tr_ID encr) \<longleftrightarrow> \<not> proposalHasTransformType p TransformINTEG)"
  using assms
  by (auto simp: validateSelectedProposalRequiredTransforms_def Let_def findTransform_def
      proposalHasTransformType_def find_None_iff list_ex_iff split: if_splits option.splits)

lemma selection_offered:
  assumes "ValidateSelectedSA offered selected = Inr ()"
  shows "\<exists>p q. sa_Proposals selected = [p] \<and> q \<in> set (sa_Proposals offered) \<and>
    prop_ProtocolID q = prop_ProtocolID p \<and>
    (\<forall>t \<in> set (prop_Transforms p). \<exists>t' \<in> set (prop_Transforms q). same_transform t' t) \<and>
    validateSelectedProposalRequiredTransforms p = Inr ()"
proof -
  obtain p where sel: "sa_Proposals selected = [p]"
    and req: "validateSelectedProposalRequiredTransforms p = Inr ()"
    and "list_ex (\<lambda>q. proposalSupportsSelection q p) (sa_Proposals offered)"
    using assms by (cases "sa_Proposals selected")
      (auto simp: ValidateSelectedSA_def rbind_eq_Inr_iff split: if_splits)
  then obtain q where q: "q \<in> set (sa_Proposals offered)" "proposalSupportsSelection q p"
    by (auto simp: list_ex_iff)
  have "prop_ProtocolID q = prop_ProtocolID p \<and>
      (\<forall>t \<in> set (prop_Transforms p). \<exists>t' \<in> set (prop_Transforms q). same_transform t' t)"
    using q(2) by (auto simp: proposalSupportsSelection_def proposalHasTransform_def
        transformsEqual_same list_all_iff list_ex_iff split: if_splits)
  with sel q(1) req show ?thesis by blast
qed

text \<open>a selection the client accepts contains nothing it did not offer.  There is exactly one
  selected proposal; one offered proposal of the same protocol holds each of its transforms, up to
  the order of attributes; the transforms the protocol requires are there; and integrity is
  selected exactly when the cipher is not a combined-mode one.\<close>

theorem ValidateSelectedSA_no_downgrade:
  assumes "ValidateSelectedSA offered selected = Inr ()"
  shows "\<exists>p q encr. sa_Proposals selected = [p] \<and> q \<in> set (sa_Proposals offered) \<and>
    prop_ProtocolID q = prop_ProtocolID p \<and>
    (\<forall>t \<in> set (prop_Transforms p). \<exists>t' \<in> set (prop_Transforms q). same_transform t' t) \<and>
    (prop_ProtocolID p = ProtocolIKE \<and> proposalHasTransformType p TransformPRF \<and>
       proposalHasTransformType p TransformDHRGroup \<or>
     prop_ProtocolID p = ProtocolESP \<and> proposalHasTransformType p TransformESN) \<and>
    findTransform p TransformENCR = Some encr \<and>
    (tr_ID encr = ENCR_AES_GCM_16 \<longleftrightarrow> \<not> proposalHasTransformType p TransformINTEG)"
proof -
  obtain p q where "sa_Proposals selected = [p]" "q \<in> set (sa_Proposals offered)"
    "prop_ProtocolID q = prop_ProtocolID p"
    "\<forall>t \<in> set (prop_Transforms p). \<exists>t' \<in> set (prop_Transforms q). same_transform t' t"
    and req: "validateSelectedProposalRequiredTransforms p = Inr ()"
    using selection_offered [OF assms] by blast
  with required_transforms_present [OF req] show ?thesis
    unfolding isCombinedModeEncryption_def by blast
qed

theorem ValidateSelectedSA_no_downgrade_witness:
  "\<exists>p. sa_Proposals DefaultIKEProposal = [p] \<and> prop_ProtocolID p = ProtocolIKE"
proof -
  have "ValidateSelectedSA DefaultIKEProposal DefaultIKEProposal = Inr ()"
    by (simp add: ValidateSelectedSA_def DefaultIKEProposal_def
        validateSelectedProposalRequiredTransforms_def proposalHasTransformType_def findTransform_def
        isCombinedModeEncryption_def proposalSupportsSelection_def proposalHasTransform_def
        transformsEqual_def transformAttributesEqual_mset)
  from ValidateSelectedSA_no_downgrade [OF this] show ?thesis
    by (auto simp: DefaultIKEProposal_def)
qed

end
