(* ===== verification/Go_Crypto.thy ===== *)
theory Go_Crypto
  imports Go_Result
begin

text \<open>
  What the code uses of Go's \<^verbatim>\<open>crypto\<close> packages.  The primitives (HMAC, SHA-1, the AES block
  function, AES-GCM) are the fields of a record that every protocol function takes, and \<open>crypto_ok\<close>
  says what the packages document about them: output lengths, and that decryption undoes encryption.
  Nothing is assumed about secrecy or unforgeability.  The CBC mode around the block function is
  written out.  \<open>demo_crypto\<close> is a concrete instance, for evaluating the model.
\<close>

section \<open>Hash functions\<close>

text \<open>\<^verbatim>\<open>crypto.Hash\<close>: the zero value and the four functions the packages import, all of which are
  available.  \<^verbatim>\<open>Size\<close> of the zero value panics.\<close>

datatype hash = NoHash | SHA1 | SHA256 | SHA384 | SHA512

fun hash_len :: "hash \<Rightarrow> nat" where
  "hash_len NoHash = 0"
| "hash_len SHA1 = 20"
| "hash_len SHA256 = 32"
| "hash_len SHA384 = 48"
| "hash_len SHA512 = 64"

definition hash_Available :: "hash \<Rightarrow> bool" where
  "hash_Available h \<longleftrightarrow> h \<noteq> NoHash"

definition hash_Size :: "hash \<Rightarrow> nat res" where
  "hash_Size h = (if h = NoHash then Inl Panic else Inr (hash_len h))"

section \<open>Primitives\<close>

record crypto =
  cr_hmac :: "hash \<Rightarrow> bytes \<Rightarrow> bytes \<Rightarrow> bytes"
  cr_sha1 :: "bytes \<Rightarrow> bytes"
  cr_aes_enc :: "bytes \<Rightarrow> bytes \<Rightarrow> bytes"
  cr_aes_dec :: "bytes \<Rightarrow> bytes \<Rightarrow> bytes"
  cr_gcm_seal :: "bytes \<Rightarrow> nat \<Rightarrow> bytes \<Rightarrow> bytes \<Rightarrow> bytes \<Rightarrow> bytes"
  cr_gcm_open :: "bytes \<Rightarrow> nat \<Rightarrow> bytes \<Rightarrow> bytes \<Rightarrow> bytes \<Rightarrow> bytes option"

definition aes_key_ok :: "bytes \<Rightarrow> bool" where
  "aes_key_ok key \<longleftrightarrow> length key = 16 \<or> length key = 24 \<or> length key = 32"

definition crypto_ok :: "crypto \<Rightarrow> bool" where
  "crypto_ok c \<longleftrightarrow>
     (\<forall>h k d. length (cr_hmac c h k d) = hash_len h) \<and>
     (\<forall>d. length (cr_sha1 c d) = 20) \<and>
     (\<forall>k b. length b = 16 \<longrightarrow> length (cr_aes_enc c k b) = 16 \<and> length (cr_aes_dec c k b) = 16 \<and>
        (aes_key_ok k \<longrightarrow> cr_aes_dec c k (cr_aes_enc c k b) = b)) \<and>
     (\<forall>k t n p a. length (cr_gcm_seal c k t n p a) = length p + t \<and>
        cr_gcm_open c k t n (cr_gcm_seal c k t n p a) a = Some p) \<and>
     (\<forall>k t n x a p. cr_gcm_open c k t n x a = Some p \<longrightarrow> length x = length p + t)"

lemma crypto_ok_hmac [simp]: "crypto_ok c \<Longrightarrow> length (cr_hmac c h k d) = hash_len h"
  unfolding crypto_ok_def by blast

lemma crypto_ok_sha1 [simp]: "crypto_ok c \<Longrightarrow> length (cr_sha1 c d) = 20"
  unfolding crypto_ok_def by blast

lemma crypto_ok_aes_length [simp]:
  "crypto_ok c \<Longrightarrow> length b = 16 \<Longrightarrow> length (cr_aes_enc c k b) = 16"
  "crypto_ok c \<Longrightarrow> length b = 16 \<Longrightarrow> length (cr_aes_dec c k b) = 16"
  unfolding crypto_ok_def by blast+

lemma crypto_ok_aes [simp]:
  "crypto_ok c \<Longrightarrow> aes_key_ok k \<Longrightarrow> length b = 16 \<Longrightarrow> cr_aes_dec c k (cr_aes_enc c k b) = b"
  unfolding crypto_ok_def by blast

lemma crypto_ok_gcm [simp]:
  "crypto_ok c \<Longrightarrow> length (cr_gcm_seal c k t n p a) = length p + t"
  "crypto_ok c \<Longrightarrow> cr_gcm_open c k t n (cr_gcm_seal c k t n p a) a = Some p"
  unfolding crypto_ok_def by blast+

lemma crypto_ok_gcm_open:
  "crypto_ok c \<Longrightarrow> cr_gcm_open c k t n x a = Some p \<Longrightarrow> length x = length p + t"
  unfolding crypto_ok_def by blast

text \<open>\<^verbatim>\<open>aes.NewCipher(key)\<close>: a key size error unless the key has 16, 24 or 32 octets.\<close>

definition aes_NewCipher :: "bytes \<Rightarrow> unit res" where
  "aes_NewCipher key = (if aes_key_ok key then Inr () else Inl (Fmt ''crypto/aes: invalid key size''))"

text \<open>\<^verbatim>\<open>cipher.NewGCMWithTagSize\<close> accepts tags of 12 to 16 octets; \<^verbatim>\<open>Seal\<close> and \<^verbatim>\<open>Open\<close> panic on
  a nonce that has not twelve octets.\<close>

definition gcm_tag_ok :: "int \<Rightarrow> bool" where
  "gcm_tag_ok t \<longleftrightarrow> 12 \<le> t \<and> t \<le> 16"

definition gcm_Seal :: "crypto \<Rightarrow> bytes \<Rightarrow> nat \<Rightarrow> bytes \<Rightarrow> bytes \<Rightarrow> bytes \<Rightarrow> bytes res" where
  "gcm_Seal c key t nonce plain aad =
     (if length nonce \<noteq> 12 then Inl Panic else Inr (cr_gcm_seal c key t nonce plain aad))"

definition gcm_Open :: "crypto \<Rightarrow> bytes \<Rightarrow> nat \<Rightarrow> bytes \<Rightarrow> bytes \<Rightarrow> bytes \<Rightarrow> bytes option res" where
  "gcm_Open c key t nonce x aad =
     (if length nonce \<noteq> 12 then Inl Panic else Inr (cr_gcm_open c key t nonce x aad))"

section \<open>CBC\<close>

definition xor_bytes :: "bytes \<Rightarrow> bytes \<Rightarrow> bytes" where
  "xor_bytes xs ys = map2 (XOR) xs ys"

lemma length_xor_bytes [simp]: "length (xor_bytes xs ys) = min (length xs) (length ys)"
  by (simp add: xor_bytes_def)

lemma xor_bytes_cancel: "length xs = length ys \<Longrightarrow> xor_bytes (xor_bytes xs ys) ys = xs"
  unfolding xor_bytes_def by (induction xs ys rule: list_induct2) (auto simp: xor.assoc)

text \<open>\<^verbatim>\<open>cipher.NewCBCEncrypter(block, iv).CryptBlocks\<close> on whole blocks, and its inverse.\<close>

function cbc_encrypt :: "crypto \<Rightarrow> bytes \<Rightarrow> bytes \<Rightarrow> bytes \<Rightarrow> bytes" where
  "cbc_encrypt c key prev plain =
     (if plain = [] then []
      else let x = cr_aes_enc c key (xor_bytes (take 16 plain) prev)
           in x @ cbc_encrypt c key x (drop 16 plain))"
  by pat_completeness auto
termination
  by (relation "measure (\<lambda>(c, key, prev, plain). length plain)") auto

function cbc_decrypt :: "crypto \<Rightarrow> bytes \<Rightarrow> bytes \<Rightarrow> bytes \<Rightarrow> bytes" where
  "cbc_decrypt c key prev ct =
     (if ct = [] then []
      else xor_bytes (cr_aes_dec c key (take 16 ct)) prev @ cbc_decrypt c key (take 16 ct) (drop 16 ct))"
  by pat_completeness auto
termination
  by (relation "measure (\<lambda>(c, key, prev, ct). length ct)") auto

declare cbc_encrypt.simps [simp del] cbc_decrypt.simps [simp del]

lemma cbc_encrypt_Nil [simp]: "cbc_encrypt c key prev [] = []"
  by (simp add: cbc_encrypt.simps)

lemma cbc_decrypt_Nil [simp]: "cbc_decrypt c key prev [] = []"
  by (simp add: cbc_decrypt.simps)

lemma mod16_drop: "length xs mod 16 = 0 \<Longrightarrow> xs \<noteq> [] \<Longrightarrow> 16 \<le> length xs \<and> length (drop 16 xs) mod 16 = 0"
  by (cases "length xs < 16") (auto simp: mod_if)

lemma cbc_encrypt_length:
  assumes "crypto_ok c"
  shows "length prev = 16 \<Longrightarrow> length plain mod 16 = 0 \<Longrightarrow> length (cbc_encrypt c key prev plain) = length plain"
proof (induction plain arbitrary: prev rule: length_induct)
  case (1 plain)
  show ?case
  proof (cases "plain = []")
    case False
    let ?x = "cr_aes_enc c key (xor_bytes (take 16 plain) prev)"
    have d: "16 \<le> length plain" "length (drop 16 plain) mod 16 = 0" using mod16_drop [OF 1(3) False] by auto
    have x: "length ?x = 16" using d 1(2) assms by simp
    have "length (cbc_encrypt c key ?x (drop 16 plain)) = length (drop 16 plain)"
      using 1(1) d x False by (metis length_drop diff_less length_greater_0_conv zero_less_numeral)
    with x d False show ?thesis by (simp add: cbc_encrypt.simps [of c key prev plain] Let_def)
  qed simp
qed

lemma cbc_roundtrip:
  assumes c: "crypto_ok c" and key: "aes_key_ok key"
  shows "length prev = 16 \<Longrightarrow> length plain mod 16 = 0 \<Longrightarrow>
    cbc_decrypt c key prev (cbc_encrypt c key prev plain) = plain"
proof (induction plain arbitrary: prev rule: length_induct)
  case (1 plain)
  show ?case
  proof (cases "plain = []")
    case False
    let ?x = "cr_aes_enc c key (xor_bytes (take 16 plain) prev)"
    have d: "16 \<le> length plain" "length (drop 16 plain) mod 16 = 0" using mod16_drop [OF 1(3) False] by auto
    have b: "length (xor_bytes (take 16 plain) prev) = 16" using d 1(2) by simp
    have x: "length ?x = 16" "?x \<noteq> []" using b c by (auto dest: arg_cong [of _ _ length])
    have "cbc_decrypt c key ?x (cbc_encrypt c key ?x (drop 16 plain)) = drop 16 plain"
      using 1(1) d x False by (metis length_drop diff_less length_greater_0_conv zero_less_numeral)
    moreover have "xor_bytes (cr_aes_dec c key ?x) prev = take 16 plain"
      using b c key d 1(2) by (simp add: xor_bytes_cancel)
    ultimately show ?thesis
      using False x
      by (simp add: cbc_encrypt.simps [of c key prev plain] Let_def cbc_decrypt.simps [of c key prev "?x @ _"])
  qed simp
qed

lemma cbc_decrypt_length:
  assumes "crypto_ok c"
  shows "length prev = 16 \<Longrightarrow> length ct mod 16 = 0 \<Longrightarrow> length (cbc_decrypt c key prev ct) = length ct"
proof (induction ct arbitrary: prev rule: length_induct)
  case (1 ct)
  show ?case
  proof (cases "ct = []")
    case False
    have d: "16 \<le> length ct" "length (drop 16 ct) mod 16 = 0" using mod16_drop [OF 1(3) False] by auto
    have "length (cbc_decrypt c key (take 16 ct) (drop 16 ct)) = length (drop 16 ct)"
      using 1(1) d False
      by (metis length_drop diff_less length_greater_0_conv zero_less_numeral length_take min.absorb2)
    with d False 1(2) assms show ?thesis by (simp add: cbc_decrypt.simps [of c key prev ct])
  qed simp
qed

section \<open>Random sources\<close>

text \<open>An \<^verbatim>\<open>io.Reader\<close> of random octets: the octets \<^verbatim>\<open>io.ReadFull\<close> would fill a buffer of a given
  length with, or its error.  \<^verbatim>\<open>randomBytes\<close> of \<^verbatim>\<open>init.go\<close> reads from it.\<close>

type_synonym random = "nat \<Rightarrow> bytes res"

definition random_ok :: "random \<Rightarrow> bool" where
  "random_ok r \<longleftrightarrow> (\<forall>n b. r n = Inr b \<longrightarrow> length b = n)"

definition randomBytes :: "random \<Rightarrow> int \<Rightarrow> bytes res" where
  "randomBytes r n = (if n \<le> 0 then Inl (Err ErrInvalidInitConfig) else r (nat n))"

section \<open>A concrete instance\<close>

definition demo_sum :: "bytes \<Rightarrow> u8" where
  "demo_sum d = foldr (\<lambda>x a. 3 * a + x) d 7"

definition demo_crypto :: crypto where
  "demo_crypto =
     \<lparr>cr_hmac = (\<lambda>h k d. replicate (hash_len h) (demo_sum (k @ d))),
      cr_sha1 = (\<lambda>d. replicate 20 (demo_sum d)),
      cr_aes_enc = (\<lambda>k b. map (\<lambda>x. x + demo_sum k) b),
      cr_aes_dec = (\<lambda>k b. map (\<lambda>x. x - demo_sum k) b),
      cr_gcm_seal = (\<lambda>k t n p a. p @ replicate t (demo_sum (k @ n @ p @ a))),
      cr_gcm_open = (\<lambda>k t n x a.
        if length x < t then None
        else let p = take (length x - t) x in
             if x = p @ replicate t (demo_sum (k @ n @ p @ a)) then Some p else None)\<rparr>"

lemma demo_crypto_ok: "crypto_ok demo_crypto"
  by (auto simp: crypto_ok_def demo_crypto_def Let_def comp_def dest: arg_cong [of _ _ length] split: if_splits)

end
