(* ===== verification/IKE_DH.thy ===== *)
theory IKE_DH
  imports IKE_SA Go_Net Go_Crypto
begin

text \<open>
  \<^verbatim>\<open>engine/swu/ikev2/dh.go\<close>: the Diffie-Hellman exchange of IKE_SA_INIT.  The 2048-bit MODP group
  is written out over natural numbers (Go's \<^verbatim>\<open>big.Int\<close>); the curve \<^verbatim>\<open>X25519\<close> of Go's
  \<^verbatim>\<open>crypto/ecdh\<close> is a record of functions.  A reader of random octets is a sequence of reads.
\<close>

section \<open>Numbers and octets\<close>

text \<open>\<^verbatim>\<open>big.Int.FillBytes\<close> writes a number into a buffer, most significant octet first, and panics
  when it does not fit.\<close>

fun be_bytes :: "nat \<Rightarrow> nat \<Rightarrow> bytes" where
  "be_bytes 0 n = []"
| "be_bytes (Suc k) n = be_bytes k (n div 256) @ [of_nat n]"

definition leftPadBigInt :: "nat \<Rightarrow> nat \<Rightarrow> bytes res" where
  "leftPadBigInt v sz = (if v \<ge> 256 ^ sz then Inl Panic else Inr (be_bytes sz v))"

text \<open>\<^verbatim>\<open>big.Int.Exp\<close> and \<^verbatim>\<open>big.Int.BitLen\<close>.\<close>

function modexp :: "nat \<Rightarrow> nat \<Rightarrow> nat \<Rightarrow> nat" where
  "modexp b e m =
     (if e = 0 then 1 mod m
      else let r = modexp (b * b mod m) (e div 2) m in if even e then r else b * r mod m)"
  by pat_completeness auto
termination
  by (relation "measure (\<lambda>(b, e, m). e)") auto

declare modexp.simps [simp del]

fun bitLen :: "nat \<Rightarrow> nat" where
  "bitLen n = (if n = 0 then 0 else Suc (bitLen (n div 2)))"

declare bitLen.simps [simp del]

section \<open>Key exchanges\<close>

type_synonym reader = "nat \<Rightarrow> random"

record dhKeyExchange =
  dh_public :: bytes
  dh_shared :: "bytes \<Rightarrow> bytes res"

text \<open>A private key of the curve: its public key, and \<^verbatim>\<open>NewPublicKey\<close> followed by \<^verbatim>\<open>ECDH\<close>.\<close>

record ecdh_key =
  eck_public :: bytes
  eck_ECDH :: "bytes \<Rightarrow> bytes res"

record ecdh =
  ec_NewPrivateKey :: "bytes \<Rightarrow> ecdh_key res"
  ec_GenerateKey :: "random \<Rightarrow> ecdh_key res"

definition x25519PrivateKey :: "ecdh \<Rightarrow> bytes \<Rightarrow> random \<Rightarrow> ecdh_key res" where
  "x25519PrivateKey ec raw rnd =
     (if length raw > 0 then ec_NewPrivateKey ec raw else ec_GenerateKey ec rnd)"

definition modp2048Prime :: nat where
  "modp2048Prime =
     0xFFFFFFFFFFFFFFFFC90FDAA22168C234C4C6628B80DC1CD129024E088A67CC74020BBEA63B139B22514A08798E3404DDEF9519B3CD3A431B302B0A6DF25F14374FE1356D6D51C245E485B576625E7EC6F44C42E9A637ED6B0BFF5CB6F406B7EDEE386BFB5A899FA5AE9F24117C4B1FE649286651ECE45B3DC2007CB8A163BF0598DA48361C55D39A69163FA8FD24CF5F83655D23DCA3AD961C62F356208552BB9ED529077096966D670C354E4ABC9804F1746C08CA18217C32905E462E36CE3BE39E772C180E86039B2783A2EC07A28FB5C55DF06F4C52C9DE2BCBF6955817183995497CEA956AE515D2261898FA051015728E5A8AACAA68FFFFFFFFFFFFFFFF"

definition modpGroup :: "u16 \<Rightarrow> (nat \<times> nat) res" where
  "modpGroup g =
     (if g \<noteq> DHGroup2048BitMODP then Inl (Err ErrInvalidInitConfig)
      else Inr (modp2048Prime, (bitLen modp2048Prime + 7) div 8))"

abbreviation (input) modpPrivateExponentBytes :: int where "modpPrivateExponentBytes \<equiv> 32"

definition modpShared :: "nat \<Rightarrow> nat \<Rightarrow> nat \<Rightarrow> bytes \<Rightarrow> bytes res" where
  "modpShared p sz private peer =
     (if length peer = 0 \<or> length peer > sz then Inl (Err ErrInvalidInitResponse)
      else
        let peerPublic = be_nat peer in
        if peerPublic < 2 \<or> peerPublic > p - 2 then Inl (Err ErrInvalidInitResponse)
        else leftPadBigInt (modexp peerPublic private p) sz)"

definition newMODPKeyExchange :: "u16 \<Rightarrow> bytes \<Rightarrow> random \<Rightarrow> dhKeyExchange res" where
  "newMODPKeyExchange g rawPrivate rnd =
     rbind (modpGroup g) (\<lambda>(p, sz).
     rbind (if length rawPrivate = 0 then randomBytes rnd modpPrivateExponentBytes else Inr rawPrivate)
       (\<lambda>privateBytes.
       let private = be_nat privateBytes mod (p - 3) + 2 in
       rbind (leftPadBigInt (modexp 2 private p) sz) (\<lambda>publicBytes.
         Inr \<lparr>dh_public = publicBytes, dh_shared = modpShared p sz private\<rparr>)))"

definition newDHKeyExchange :: "ecdh \<Rightarrow> u16 \<Rightarrow> bytes \<Rightarrow> random \<Rightarrow> dhKeyExchange res" where
  "newDHKeyExchange ec g rawPrivate rnd =
     (if g = DHGroupCurve25519
      then rbind (x25519PrivateKey ec rawPrivate rnd) (\<lambda>priv.
        Inr \<lparr>dh_public = eck_public priv,
             dh_shared = (\<lambda>peer. case eck_ECDH priv peer of
               Inl e \<Rightarrow> Inl (Wrap ErrInvalidInitResponse e) | Inr secret \<Rightarrow> Inr secret)\<rparr>)
      else if g = DHGroup2048BitMODP then newMODPKeyExchange g rawPrivate rnd
      else Inl (Err ErrInvalidInitConfig))"

text \<open>The first transform of type D-H in the first proposal that has one.\<close>

definition dhGroupFromSA :: "SecurityAssociation \<Rightarrow> u16 res" where
  "dhGroupFromSA sa =
     (case find (\<lambda>t. tr_Type t = TransformDHRGroup) (concat (map prop_Transforms (sa_Proposals sa))) of
        Some t \<Rightarrow> Inr (tr_ID t)
      | None \<Rightarrow> Inl (Err ErrInvalidInitConfig))"

section \<open>Lemmas\<close>

lemma length_be_bytes [simp]: "length (be_bytes k n) = k"
  by (induction k arbitrary: n) auto

lemma be_nat_snoc1: "be_nat (xs @ [x]) = 256 * be_nat xs + unat x"
  by (simp add: be_nat_def)

lemma be_nat_be_bytes: "be_nat (be_bytes k n) = n mod 256 ^ k"
proof (induction k arbitrary: n)
  case 0
  then show ?case by (simp add: be_nat_def)
next
  case (Suc k)
  have "be_nat (be_bytes (Suc k) n) = 256 * (n div 256 mod 256 ^ k) + n mod 256"
    by (simp add: be_nat_snoc1 Suc unat_of_nat)
  then show ?case by (simp add: mod_mult2_eq)
qed

lemma modexp_power: "modexp b e m = b ^ e mod m"
proof (induction b e m rule: modexp.induct)
  case (1 b e m)
  show ?case
  proof (cases "e = 0")
    case True
    then show ?thesis by (simp add: modexp.simps)
  next
    case False
    have r: "modexp (b * b mod m) (e div 2) m = (b * b) ^ (e div 2) mod m"
      using 1 [OF False] by (simp add: power_mod)
    have sq: "(b * b) ^ k = b ^ (2 * k)" for k by (simp add: power_mult power2_eq_square)
    show ?thesis
    proof (cases "even e")
      case True
      then have "2 * (e div 2) = e" by simp
      with True False r sq show ?thesis by (subst modexp.simps) (simp add: Let_def)
    next
      case odd: False
      then have "b ^ e = b * b ^ (2 * (e div 2))"
        by (metis odd_two_times_div_two_succ power_Suc Suc_eq_plus1)
      with odd False r sq show ?thesis
        by (subst modexp.simps) (simp add: Let_def mod_mult_right_eq)
    qed
  qed
qed

lemma bitLen_eq: "2 ^ k \<le> n \<Longrightarrow> n < 2 ^ Suc k \<Longrightarrow> bitLen n = Suc k"
proof (induction k arbitrary: n)
  case 0
  then have "n = 1" by simp
  then show ?case by (simp add: bitLen.simps)
next
  case (Suc k)
  then have "bitLen (n div 2) = Suc k" by (intro Suc.IH) auto
  moreover have "n \<noteq> 0" using Suc.prems(1) by (cases n) simp_all
  ultimately show ?case by (subst bitLen.simps) simp
qed

lemma modp2048_size: "(bitLen modp2048Prime + 7) div 8 = 256"
proof -
  have "bitLen modp2048Prime = Suc 2047"
    by (rule bitLen_eq) (simp_all add: modp2048Prime_def)
  then show ?thesis by simp
qed

lemma modp2048_bounds: "5 < modp2048Prime" "modp2048Prime < 256 ^ 256"
  by (simp_all add: modp2048Prime_def)

text \<open>A group in which both parties compute the same secret from each other's public values.\<close>

locale key_agreement =
  fixes kx :: "bytes \<Rightarrow> random \<Rightarrow> dhKeyExchange res" and acceptable :: "bytes \<Rightarrow> bool"
  assumes agree: "kx a ra = Inr ka \<Longrightarrow> kx b rb = Inr kb \<Longrightarrow>
      acceptable (dh_public ka) \<Longrightarrow> acceptable (dh_public kb) \<Longrightarrow>
      \<exists>s. dh_shared ka (dh_public kb) = Inr s \<and> dh_shared kb (dh_public ka) = Inr s"
begin

text \<open>Whatever is derived from the secret alone is the same on both sides.\<close>

lemma derived_agree:
  assumes "kx a ra = Inr ka" "kx b rb = Inr kb" "acceptable (dh_public ka)" "acceptable (dh_public kb)"
  shows "rbind (dh_shared ka (dh_public kb)) f = rbind (dh_shared kb (dh_public ka)) f"
  using agree [OF assms] by auto

end

definition modp_acceptable :: "bytes \<Rightarrow> bool" where
  "modp_acceptable pub \<longleftrightarrow> 2 \<le> be_nat pub \<and> be_nat pub \<le> modp2048Prime - 2"

lemma newMODPKeyExchange_Inr:
  assumes "newMODPKeyExchange DHGroup2048BitMODP raw rnd = Inr k"
  obtains x where "dh_public k = be_bytes 256 (2 ^ x mod modp2048Prime)"
    "be_nat (dh_public k) = 2 ^ x mod modp2048Prime" "dh_shared k = modpShared modp2048Prime 256 x"
proof -
  have lt: "2 ^ x mod modp2048Prime < 256 ^ 256" for x
    using modp2048_bounds by (meson less_trans mod_less_divisor zero_less_numeral)
  obtain bs where "k = \<lparr>dh_public = be_bytes 256 (2 ^ (be_nat bs mod (modp2048Prime - 3) + 2) mod modp2048Prime),
      dh_shared = modpShared modp2048Prime 256 (be_nat bs mod (modp2048Prime - 3) + 2)\<rparr>"
    using assms
    by (auto simp: newMODPKeyExchange_def modpGroup_def modp2048_size rbind_eq_Inr_iff leftPadBigInt_def
        modexp_power Let_def simp del: power_Suc split: if_splits)
  then obtain x where k: "k = \<lparr>dh_public = be_bytes 256 (2 ^ x mod modp2048Prime),
      dh_shared = modpShared modp2048Prime 256 x\<rparr>" by blast
  show thesis
    by (rule that [of x]) (simp_all only: k dhKeyExchange.simps be_nat_be_bytes mod_less [OF lt])
qed

interpretation modp: key_agreement "newMODPKeyExchange DHGroup2048BitMODP" modp_acceptable
proof
  fix a ra ka b rb kb
  assume ka: "newMODPKeyExchange DHGroup2048BitMODP a ra = Inr ka"
    and kb: "newMODPKeyExchange DHGroup2048BitMODP b rb = Inr kb"
    and acc: "modp_acceptable (dh_public ka)" "modp_acceptable (dh_public kb)"
  obtain x where x: "dh_public ka = be_bytes 256 (2 ^ x mod modp2048Prime)"
    "be_nat (dh_public ka) = 2 ^ x mod modp2048Prime" "dh_shared ka = modpShared modp2048Prime 256 x"
    using newMODPKeyExchange_Inr [OF ka] .
  obtain y where y: "dh_public kb = be_bytes 256 (2 ^ y mod modp2048Prime)"
    "be_nat (dh_public kb) = 2 ^ y mod modp2048Prime" "dh_shared kb = modpShared modp2048Prime 256 y"
    using newMODPKeyExchange_Inr [OF kb] .
  let ?s = "2 ^ (x * y) mod modp2048Prime"
  have lt: "?s < 256 ^ 256"
    using modp2048_bounds by (meson less_trans mod_less_divisor zero_less_numeral)
  have "modexp (be_nat (dh_public kb)) x modp2048Prime = ?s"
    by (simp add: y(2) modexp_power power_mod power_mult [symmetric] mult.commute)
  then have "dh_shared ka (dh_public kb) = Inr (be_bytes 256 ?s)"
    using acc(2) lt unfolding x(3) modpShared_def modp_acceptable_def
    by (simp add: y(1) leftPadBigInt_def Let_def not_le)
  moreover have "modexp (be_nat (dh_public ka)) y modp2048Prime = ?s"
    by (simp add: x(2) modexp_power power_mod power_mult [symmetric])
  then have "dh_shared kb (dh_public ka) = Inr (be_bytes 256 ?s)"
    using acc(1) lt unfolding y(3) modpShared_def modp_acceptable_def
    by (simp add: x(1) leftPadBigInt_def Let_def not_le)
  ultimately show "\<exists>s. dh_shared ka (dh_public kb) = Inr s \<and> dh_shared kb (dh_public ka) = Inr s"
    by blast
qed

end
