(* ===== verification/IKE_Keys.thy ===== *)
theory IKE_Keys
  imports IKE_SA Go_Crypto
begin

text \<open>
  \<^verbatim>\<open>engine/swu/ikev2/crypto.go\<close> and \<^verbatim>\<open>keys.go\<close>: the pseudo-random function, its expansion
  \<^verbatim>\<open>prf+\<close>, the key profile of a selected proposal and the split of the key material into the seven
  IKE SA keys.  Lengths are Go \<^verbatim>\<open>int\<close>s and stay integers here; a slice with a negative or too large
  bound panics.
\<close>

section \<open>The pseudo-random function\<close>

definition PRF :: "crypto \<Rightarrow> hash \<Rightarrow> bytes \<Rightarrow> bytes \<Rightarrow> bytes res" where
  "PRF c h key data =
     (if \<not> hash_Available h then Inl (Err ErrUnsupportedPRF) else Inr (cr_hmac c h key data))"

text \<open>The loop of \<^verbatim>\<open>PRFPlus\<close>; the counter is a byte and wraps.  A block without octets would keep
  the loop running.\<close>

function prfPlus_loop ::
  "crypto \<Rightarrow> hash \<Rightarrow> bytes \<Rightarrow> bytes \<Rightarrow> nat \<Rightarrow> u8 \<Rightarrow> bytes \<Rightarrow> bytes \<Rightarrow> bytes res" where
  "prfPlus_loop c h key seed len counter out previous =
     (if length out < len
      then rbind (PRF c h key (previous @ seed @ [counter])) (\<lambda>block.
        if block = [] then Inl Diverge
        else prfPlus_loop c h key seed len (counter + 1) (out @ block) block)
      else Inr (take len out))"
  by pat_completeness auto
termination
  by (relation "measure (\<lambda>(c, h, key, seed, len, counter, out, previous). len - length out)")
    (auto intro!: diff_less_mono2)

declare prfPlus_loop.simps [simp del]

definition PRFPlus :: "crypto \<Rightarrow> hash \<Rightarrow> bytes \<Rightarrow> bytes \<Rightarrow> int \<Rightarrow> bytes res" where
  "PRFPlus c h key seed len =
     (if len < 0 then Inl (Err ErrInvalidLength)
      else if len = 0 then Inr []
      else rbind (hash_Size h) (\<lambda>size.
        if len > 255 * int size then Inl (Err ErrInvalidLength)
        else prfPlus_loop c h key seed (nat len) 1 [] []))"

definition SKEYSEED :: "crypto \<Rightarrow> hash \<Rightarrow> bytes \<Rightarrow> bytes \<Rightarrow> bytes \<Rightarrow> bytes res" where
  "SKEYSEED c h nonceI nonceR sharedSecret = PRF c h (nonceI @ nonceR) sharedSecret"

definition DeriveIKESAKeyMaterial ::
  "crypto \<Rightarrow> hash \<Rightarrow> bytes \<Rightarrow> bytes \<Rightarrow> bytes \<Rightarrow> u64 \<Rightarrow> u64 \<Rightarrow> int \<Rightarrow> bytes res" where
  "DeriveIKESAKeyMaterial c h skeyseed nonceI nonceR spiI spiR len =
     PRFPlus c h skeyseed (nonceI @ nonceR @ PutUint64 spiI @ PutUint64 spiR) len"

section \<open>Key profiles\<close>

record KeyMaterialProfile =
  kmp_PRF :: hash
  kmp_EncryptionID :: u16
  kmp_EncryptionKeyLength :: int
  kmp_EncryptionBlockSize :: int
  kmp_IntegrityID :: u16
  kmp_IntegrityKeyLength :: int
  kmp_IntegrityChecksumLength :: int
  kmp_PRFKeyLength :: int

abbreviation aesGCMSaltLength :: int where "aesGCMSaltLength \<equiv> 4"
abbreviation aesGCMExplicitIVLength :: int where "aesGCMExplicitIVLength \<equiv> 8"
abbreviation aesGCM16ChecksumLength :: int where "aesGCM16ChecksumLength \<equiv> 16"

definition RequiredLength :: "KeyMaterialProfile \<Rightarrow> int" where
  "RequiredLength p =
     kmp_PRFKeyLength p + kmp_IntegrityKeyLength p * 2 + kmp_EncryptionKeyLength p * 2 + kmp_PRFKeyLength p * 2"

record IKEKeys =
  ik_Profile :: KeyMaterialProfile
  ik_SKD :: bytes
  ik_SKAi :: bytes
  ik_SKAr :: bytes
  ik_SKEi :: bytes
  ik_SKEr :: bytes
  ik_SKPi :: bytes
  ik_SKPr :: bytes

definition PRFHashForTransform :: "u16 \<Rightarrow> hash res" where
  "PRFHashForTransform i =
     (if i = PRF_HMAC_SHA1 then Inr SHA1
      else if i = PRF_HMAC_SHA2_256 then Inr SHA256
      else if i = PRF_HMAC_SHA2_384 then Inr SHA384
      else if i = PRF_HMAC_SHA2_512 then Inr SHA512
      else Inl (Err ErrUnsupportedTransform))"

definition transformKeyLength :: "Transform \<Rightarrow> u16" where
  "transformKeyLength t =
     (case find (\<lambda>attr. at_Type attr = AttributeKeyLength \<and> length (at_Value attr) \<ge> 2) (tr_Attributes t) of
        None \<Rightarrow> 0
      | Some attr \<Rightarrow> u16_of (at_Value attr ! 0) (at_Value attr ! 1))"

definition encryptionProfile :: "Transform \<Rightarrow> (int \<times> int) res" where
  "encryptionProfile t =
     (if tr_ID t = ENCR_AES_CBC
      then let bits = (if transformKeyLength t = 0 then 128 else transformKeyLength t)
           in if bits \<noteq> 128 \<and> bits \<noteq> 192 \<and> bits \<noteq> 256 then Inl (Err ErrUnsupportedTransform)
              else Inr (uint (bits div 8), 16)
      else if tr_ID t = ENCR_AES_GCM_16
      then let bits = (if transformKeyLength t = 0 then 128 else transformKeyLength t)
           in if bits \<noteq> 128 \<and> bits \<noteq> 192 \<and> bits \<noteq> 256 then Inl (Err ErrUnsupportedTransform)
              else Inr (uint (bits div 8) + aesGCMSaltLength, aesGCMExplicitIVLength)
      else Inl (Err ErrUnsupportedTransform))"

definition combinedModeChecksumLength :: "u16 \<Rightarrow> int res" where
  "combinedModeChecksumLength i =
     (if i = ENCR_AES_GCM_16 then Inr aesGCM16ChecksumLength else Inl (Err ErrUnsupportedTransform))"

definition integrityProfile :: "u16 \<Rightarrow> (int \<times> int) res" where
  "integrityProfile i =
     (if i = INTEG_HMAC_SHA1_96 then Inr (int (hash_len SHA1), 12)
      else if i = INTEG_HMAC_SHA2_256_128 then Inr (int (hash_len SHA256), 16)
      else if i = INTEG_HMAC_SHA2_384_192 then Inr (int (hash_len SHA384), 24)
      else if i = INTEG_HMAC_SHA2_512_256 then Inr (int (hash_len SHA512), 32)
      else Inl (Err ErrUnsupportedTransform))"

text \<open>The part of \<^verbatim>\<open>KeyMaterialProfileFromSA\<close> that chooses the integrity algorithm.\<close>

definition integritySelection :: "Proposal \<Rightarrow> Transform \<Rightarrow> (u16 \<times> int \<times> int) res" where
  "integritySelection p encr =
     (if isCombinedModeEncryption (tr_ID encr)
      then (if findTransform p TransformINTEG \<noteq> None then Inl (Err ErrUnsupportedTransform)
            else rbind (combinedModeChecksumLength (tr_ID encr)) (\<lambda>checksumLen. Inr (0, 0, checksumLen)))
      else (case findTransform p TransformINTEG of
              None \<Rightarrow> Inl (Err ErrUnsupportedTransform)
            | Some integ \<Rightarrow> rbind (integrityProfile (tr_ID integ)) (\<lambda>(integKeyLen, checksumLen).
                Inr (tr_ID integ, integKeyLen, checksumLen))))"

definition KeyMaterialProfileFromSA :: "SecurityAssociation \<Rightarrow> KeyMaterialProfile res" where
  "KeyMaterialProfileFromSA sa =
     (if length (sa_Proposals sa) = 0 then Inl (Err ErrInvalidSA)
      else rbind (idx 0 (sa_Proposals sa)) (\<lambda>p.
        case findTransform p TransformENCR of
          None \<Rightarrow> Inl (Err ErrUnsupportedTransform)
        | Some encr \<Rightarrow> (case findTransform p TransformPRF of
            None \<Rightarrow> Inl (Err ErrUnsupportedTransform)
          | Some prf \<Rightarrow>
              rbind (PRFHashForTransform (tr_ID prf)) (\<lambda>prfHash.
              rbind (encryptionProfile encr) (\<lambda>(encrKeyLen, blockSize).
              rbind (integritySelection p encr) (\<lambda>(integID, integKeyLen, checksumLen).
              rbind (hash_Size prfHash) (\<lambda>size.
                Inr \<lparr>kmp_PRF = prfHash, kmp_EncryptionID = tr_ID encr, kmp_EncryptionKeyLength = encrKeyLen,
                     kmp_EncryptionBlockSize = blockSize, kmp_IntegrityID = integID,
                     kmp_IntegrityKeyLength = integKeyLen, kmp_IntegrityChecksumLength = checksumLen,
                     kmp_PRFKeyLength = int size\<rparr>)))))))"

text \<open>The closure \<^verbatim>\<open>take\<close> of \<^verbatim>\<open>SplitIKEKeys\<close>: \<^verbatim>\<open>rest[:n]\<close> and the new \<^verbatim>\<open>rest\<close>.\<close>

definition cut :: "int \<Rightarrow> bytes \<Rightarrow> (bytes \<times> bytes) res" where
  "cut n rest =
     (if n < 0 \<or> int (length rest) < n then Inl Panic else Inr (take (nat n) rest, drop (nat n) rest))"

definition SplitIKEKeys :: "KeyMaterialProfile \<Rightarrow> bytes \<Rightarrow> IKEKeys res" where
  "SplitIKEKeys profile keyMaterial =
     (let need = RequiredLength profile in
      if need \<le> 0 then Inl (Err ErrUnsupportedTransform)
      else if int (length keyMaterial) < need then Inl (Err ErrInvalidLength)
      else
        rbind (cut (kmp_PRFKeyLength profile) keyMaterial) (\<lambda>(skd, r1).
        rbind (cut (kmp_IntegrityKeyLength profile) r1) (\<lambda>(skai, r2).
        rbind (cut (kmp_IntegrityKeyLength profile) r2) (\<lambda>(skar, r3).
        rbind (cut (kmp_EncryptionKeyLength profile) r3) (\<lambda>(skei, r4).
        rbind (cut (kmp_EncryptionKeyLength profile) r4) (\<lambda>(sker, r5).
        rbind (cut (kmp_PRFKeyLength profile) r5) (\<lambda>(skpi, r6).
        rbind (cut (kmp_PRFKeyLength profile) r6) (\<lambda>(skpr, r7).
          Inr \<lparr>ik_Profile = profile, ik_SKD = skd, ik_SKAi = skai, ik_SKAr = skar, ik_SKEi = skei,
               ik_SKEr = sker, ik_SKPi = skpi, ik_SKPr = skpr\<rparr>))))))))"

section \<open>Properties\<close>

subsection \<open>prf+\<close>

text \<open>The blocks of RFC 7296, section 2.13: \<open>T n = prf (K, T (n - 1) | S | n)\<close>.\<close>

fun prf_T :: "crypto \<Rightarrow> hash \<Rightarrow> bytes \<Rightarrow> bytes \<Rightarrow> nat \<Rightarrow> bytes" where
  "prf_T c h key seed 0 = []"
| "prf_T c h key seed (Suc n) = cr_hmac c h key (prf_T c h key seed n @ seed @ [go_byte (Suc n)])"

definition prf_stream :: "crypto \<Rightarrow> hash \<Rightarrow> bytes \<Rightarrow> bytes \<Rightarrow> nat \<Rightarrow> bytes" where
  "prf_stream c h key seed n = concat (map (\<lambda>i. prf_T c h key seed (Suc i)) [0..<n])"

lemma prf_stream_simps [simp]:
  "prf_stream c h key seed 0 = []"
  "prf_stream c h key seed (Suc n) = prf_stream c h key seed n @ prf_T c h key seed (Suc n)"
  by (simp_all add: prf_stream_def)

lemma length_prf_stream: "crypto_ok c \<Longrightarrow> length (prf_stream c h key seed n) = n * hash_len h"
  by (induction n) simp_all

lemma go_byte_Suc: "go_byte n + 1 = go_byte (Suc n)"
  by (simp add: go_byte_def)

lemma prf_stream_prefix:
  "m \<le> n \<Longrightarrow> \<exists>rest. prf_stream c h key seed n = prf_stream c h key seed m @ rest"
  by (induction n) (auto simp: le_Suc_eq)

lemma hash_len_pos: "h \<noteq> NoHash \<Longrightarrow> 0 < hash_len h"
  by (cases h) simp_all

lemma prfPlus_loop_stream:
  assumes c: "crypto_ok c" and h: "h \<noteq> NoHash"
  shows "n * hash_len h \<le> len + hash_len h \<Longrightarrow> m * hash_len h \<ge> len \<Longrightarrow> n \<le> m \<Longrightarrow>
    prfPlus_loop c h key seed len (go_byte (Suc n)) (prf_stream c h key seed n) (prf_T c h key seed n)
      = Inr (take len (prf_stream c h key seed m))"
proof (induction "m - n" arbitrary: n)
  case 0
  then have "n = m" by simp
  with 0 c show ?case by (simp add: prfPlus_loop.simps [of c] length_prf_stream)
next
  case (Suc k)
  show ?case
  proof (cases "length (prf_stream c h key seed n) < len")
    case True
    have len: "n * hash_len h < len" using True c by (simp add: length_prf_stream)
    have ne: "prf_T c h key seed (Suc n) \<noteq> []"
      using c hash_len_pos [OF h] by (metis crypto_ok_hmac length_0_conv less_irrefl prf_T.simps(2))
    have "prfPlus_loop c h key seed len (go_byte (Suc n)) (prf_stream c h key seed n) (prf_T c h key seed n)
        = prfPlus_loop c h key seed len (go_byte (Suc (Suc n))) (prf_stream c h key seed (Suc n))
            (prf_T c h key seed (Suc n))"
      using True h ne
      by (subst prfPlus_loop.simps) (simp add: PRF_def hash_Available_def go_byte_Suc)
    also have "\<dots> = Inr (take len (prf_stream c h key seed m))"
      using Suc.prems Suc.hyps(2) len by (intro Suc.hyps(1)) auto
    finally show ?thesis .
  next
    case False
    from Suc.prems(3) obtain rest where "prf_stream c h key seed m = prf_stream c h key seed n @ rest"
      using prf_stream_prefix by blast
    with False show ?thesis by (simp add: prfPlus_loop.simps [of c])
  qed
qed

lemma PRFPlus_take:
  assumes "crypto_ok c" and "h \<noteq> NoHash" and "0 \<le> len" and "len \<le> 255 * int (hash_len h)"
  shows "PRFPlus c h key seed len = Inr (take (nat len) (prf_stream c h key seed 255))"
proof -
  have "nat len \<le> 255 * hash_len h" using assms(3,4) by linarith
  then have "prfPlus_loop c h key seed (nat len) (go_byte (Suc 0)) [] []
      = Inr (take (nat len) (prf_stream c h key seed 255))"
    using prfPlus_loop_stream [OF assms(1,2), of 0 "nat len" 255 key seed] by simp
  moreover have "go_byte (Suc 0) = 1" by (simp add: go_byte_def)
  ultimately show ?thesis
    using assms by (auto simp: PRFPlus_def hash_Size_def)
qed

lemma PRFPlus_length:
  assumes "crypto_ok c" and "PRFPlus c h key seed len = Inr out"
  shows "length out = nat len"
proof (cases "len = 0")
  case False
  then have "0 \<le> len" "h \<noteq> NoHash" "len \<le> 255 * int (hash_len h)"
    using assms(2) by (auto simp: PRFPlus_def hash_Size_def split: if_splits)
  moreover from this have "nat len \<le> 255 * hash_len h" by linarith
  ultimately show ?thesis
    using assms PRFPlus_take [of c h len key seed] by (auto simp: length_prf_stream)
qed (use assms in \<open>simp add: PRFPlus_def\<close>)

text \<open>C32: the key expansion is the \<^verbatim>\<open>prf+\<close> of the protocol.  For every length up to 255 blocks the
  loop ends and returns exactly that many octets of the stream \<open>T1 | T2 | ...\<close>, in which each block
  is keyed by its own number, so that the one-octet counter never repeats; a longer request is an
  error, not a repeated stream.\<close>

theorem PRFPlus_is_prf_plus:
  assumes "crypto_ok c" and "h \<noteq> NoHash"
  shows "PRFPlus c h key seed len =
    (if 0 \<le> len \<and> len \<le> 255 * int (hash_len h)
     then Inr (take (nat len) (concat (map (\<lambda>i. prf_T c h key seed (Suc i)) [0..<255])))
     else Inl (Err ErrInvalidLength))"
  using PRFPlus_take [OF assms, of len key seed] assms(2)
  by (auto simp: PRFPlus_def hash_Size_def prf_stream_def)

theorem PRFPlus_is_prf_plus_witness:
  "PRFPlus demo_crypto SHA256 [1, 2] [3] 40 =
     Inr (take 40 (concat (map (\<lambda>i. prf_T demo_crypto SHA256 [1, 2] [3] (Suc i)) [0..<255])))"
  using PRFPlus_is_prf_plus [OF demo_crypto_ok, of SHA256 "[1, 2]" "[3]" 40] by simp

subsection \<open>Splitting the key material\<close>

definition profile_wf :: "KeyMaterialProfile \<Rightarrow> bool" where
  "profile_wf p \<longleftrightarrow> 0 < kmp_PRFKeyLength p \<and> 0 \<le> kmp_IntegrityKeyLength p \<and> 0 < kmp_EncryptionKeyLength p \<and>
     kmp_PRF p \<noteq> NoHash \<and> kmp_PRFKeyLength p = int (hash_len (kmp_PRF p)) \<and>
     (kmp_EncryptionID p = ENCR_AES_CBC \<and> kmp_EncryptionBlockSize p = 16 \<and>
        kmp_EncryptionKeyLength p \<in> {16, 24, 32} \<and> 0 < kmp_IntegrityKeyLength p \<and>
        (kmp_IntegrityID p, kmp_IntegrityKeyLength p, kmp_IntegrityChecksumLength p)
          \<in> {(2, 20, 12), (12, 32, 16), (13, 48, 24), (14, 64, 32)} \<or>
      kmp_EncryptionID p = ENCR_AES_GCM_16 \<and> kmp_EncryptionBlockSize p = 8 \<and>
        kmp_EncryptionKeyLength p \<in> {20, 28, 36} \<and>
        (kmp_IntegrityID p, kmp_IntegrityKeyLength p, kmp_IntegrityChecksumLength p) = (0, 0, 16))"

lemma PRFHashForTransform_Inr: "PRFHashForTransform i = Inr h \<Longrightarrow> h \<noteq> NoHash"
  by (auto simp: PRFHashForTransform_def split: if_splits)

lemma encryptionProfile_Inr:
  "encryptionProfile t = Inr (k, b) \<Longrightarrow>
   tr_ID t = ENCR_AES_CBC \<and> b = 16 \<and> k \<in> {16, 24, 32} \<or>
   tr_ID t = ENCR_AES_GCM_16 \<and> b = 8 \<and> k \<in> {20, 28, 36}"
  by (auto simp: encryptionProfile_def Let_def split: if_splits)

lemma integritySelection_Inr:
  "integritySelection p t = Inr x \<Longrightarrow>
   (if tr_ID t = ENCR_AES_GCM_16 then x = (0, 0, 16)
    else x \<in> {(2, 20, 12), (12, 32, 16), (13, 48, 24), (14, 64, 32)})"
  by (auto simp: integritySelection_def isCombinedModeEncryption_def combinedModeChecksumLength_def
      integrityProfile_def rbind_eq_Inr_iff split: if_splits option.splits)

lemma KeyMaterialProfileFromSA_wf:
  assumes "KeyMaterialProfileFromSA sa = Inr p"
  shows "profile_wf p"
proof -
  obtain q encr tr h k b x y z where h: "PRFHashForTransform (tr_ID (tr :: Transform)) = Inr h"
    and e: "encryptionProfile encr = Inr (k, b)" and i: "integritySelection q encr = Inr (x, y, z)"
    and p: "p = \<lparr>kmp_PRF = h, kmp_EncryptionID = tr_ID encr, kmp_EncryptionKeyLength = k,
        kmp_EncryptionBlockSize = b, kmp_IntegrityID = x, kmp_IntegrityKeyLength = y,
        kmp_IntegrityChecksumLength = z, kmp_PRFKeyLength = int (hash_len h)\<rparr>"
    using assms
    by (auto simp: KeyMaterialProfileFromSA_def rbind_eq_Inr_iff hash_Size_def split: if_splits option.splits)
  have "h \<noteq> NoHash" "0 < hash_len h" using PRFHashForTransform_Inr [OF h] hash_len_pos by auto
  with encryptionProfile_Inr [OF e] integritySelection_Inr [OF i] show ?thesis
    unfolding p profile_wf_def by (elim disjE conjE) auto
qed

lemma cut_append: "n = int (length a) \<Longrightarrow> cut n (a @ b) = Inr (a, b)"
  by (simp add: cut_def)

lemma split_at: "n \<le> length xs \<Longrightarrow> \<exists>a b. xs = a @ b \<and> length a = n"
  by (metis append_take_drop_id length_take min.absorb2)

lemma SplitIKEKeys_cuts:
  assumes "KeyMaterialProfileFromSA sa = Inr p" and "RequiredLength p \<le> int (length km)"
  shows "\<exists>k. SplitIKEKeys p km = Inr k \<and> ik_Profile k = p \<and>
    ik_SKD k @ ik_SKAi k @ ik_SKAr k @ ik_SKEi k @ ik_SKEr k @ ik_SKPi k @ ik_SKPr k
      = take (nat (RequiredLength p)) km \<and>
    int (length (ik_SKD k)) = kmp_PRFKeyLength p \<and>
    int (length (ik_SKAi k)) = kmp_IntegrityKeyLength p \<and> int (length (ik_SKAr k)) = kmp_IntegrityKeyLength p \<and>
    int (length (ik_SKEi k)) = kmp_EncryptionKeyLength p \<and> int (length (ik_SKEr k)) = kmp_EncryptionKeyLength p \<and>
    int (length (ik_SKPi k)) = kmp_PRFKeyLength p \<and> int (length (ik_SKPr k)) = kmp_PRFKeyLength p"
proof -
  have "profile_wf p" using assms(1) by (rule KeyMaterialProfileFromSA_wf)
  then obtain f i e where n: "kmp_PRFKeyLength p = int f" "kmp_IntegrityKeyLength p = int i"
    "kmp_EncryptionKeyLength p = int e" "0 < f"
    unfolding profile_wf_def by (metis nonneg_int_cases of_nat_0_less_iff order_less_imp_le)
  have req: "RequiredLength p = int (f + i + i + e + e + f + f)"
    by (simp add: RequiredLength_def n)
  then have pos: "0 < RequiredLength p" using n(4) by linarith
  have km: "f + i + i + e + e + f + f \<le> length km" using assms(2) req by linarith
  obtain d r1 where 1: "km = d @ r1" "length d = f" using split_at [of f km] km by auto
  obtain ai r2 where 2: "r1 = ai @ r2" "length ai = i" using split_at [of i r1] km 1 by auto
  obtain ar r3 where 3: "r2 = ar @ r3" "length ar = i" using split_at [of i r2] km 1 2 by auto
  obtain ei r4 where 4: "r3 = ei @ r4" "length ei = e" using split_at [of e r3] km 1 2 3 by auto
  obtain er r5 where 5: "r4 = er @ r5" "length er = e" using split_at [of e r4] km 1 2 3 4 by auto
  obtain pi r6 where 6: "r5 = pi @ r6" "length pi = f" using split_at [of f r5] km 1 2 3 4 5 by auto
  obtain pr r7 where 7: "r6 = pr @ r7" "length pr = f" using split_at [of f r6] km 1 2 3 4 5 6 by auto
  have "SplitIKEKeys p km = Inr \<lparr>ik_Profile = p, ik_SKD = d, ik_SKAi = ai, ik_SKAr = ar, ik_SKEi = ei,
      ik_SKEr = er, ik_SKPi = pi, ik_SKPr = pr\<rparr>"
    using assms(2) pos by (simp add: SplitIKEKeys_def Let_def n 1 2 3 4 5 6 7 cut_append)
  moreover have "take (f + i + i + e + e + f + f) km = d @ ai @ ar @ ei @ er @ pi @ pr"
    using 1 2 3 4 5 6 7 by simp
  ultimately show ?thesis
    unfolding req nat_int using 1 2 3 4 5 6 7 n by simp
qed

text \<open>the keys of the IKE SA are the key material cut in the order of RFC 7296, section 2.14,
  \<open>SK_d | SK_ai | SK_ar | SK_ei | SK_er | SK_pi | SK_pr\<close>: nothing overlaps, nothing is skipped, and
  each key has the length of its algorithm.\<close>

theorem SplitIKEKeys_partitions:
  assumes "KeyMaterialProfileFromSA sa = Inr p" and "RequiredLength p \<le> int (length km)"
  shows "\<exists>k. SplitIKEKeys p km = Inr k \<and> ik_Profile k = p \<and>
    ik_SKD k @ ik_SKAi k @ ik_SKAr k @ ik_SKEi k @ ik_SKEr k @ ik_SKPi k @ ik_SKPr k
      = take (nat (RequiredLength p)) km \<and>
    int (length (ik_SKD k)) = kmp_PRFKeyLength p \<and>
    int (length (ik_SKAi k)) = kmp_IntegrityKeyLength p \<and> int (length (ik_SKAr k)) = kmp_IntegrityKeyLength p \<and>
    int (length (ik_SKEi k)) = kmp_EncryptionKeyLength p \<and> int (length (ik_SKEr k)) = kmp_EncryptionKeyLength p \<and>
    int (length (ik_SKPi k)) = kmp_PRFKeyLength p \<and> int (length (ik_SKPr k)) = kmp_PRFKeyLength p"
  using assms by (rule SplitIKEKeys_cuts)

theorem SplitIKEKeys_partitions_witness:
  "\<exists>p k. KeyMaterialProfileFromSA DefaultIKEProposal = Inr p \<and> RequiredLength p = 192 \<and>
     SplitIKEKeys p (replicate 192 0) = Inr k \<and> length (ik_SKPr k) = 32"
proof -
  obtain p where p: "KeyMaterialProfileFromSA DefaultIKEProposal = Inr p" "RequiredLength p = 192"
    "kmp_PRFKeyLength p = 32"
    by (simp add: KeyMaterialProfileFromSA_def DefaultIKEProposal_def findTransform_def KeyLengthAttribute_def
        PRFHashForTransform_def encryptionProfile_def transformKeyLength_def PutUint16_def u16_of_def
        integritySelection_def isCombinedModeEncryption_def integrityProfile_def hash_Size_def RequiredLength_def)
  then show ?thesis
    using SplitIKEKeys_partitions [OF p(1), of "replicate 192 0"] by auto
qed

end
