(* ===== verification/IKE_Init.thy ===== *)
theory IKE_Init
  imports IKE_DH IKE_Keys
begin

text \<open>
  \<^verbatim>\<open>engine/swu/ikev2/init.go\<close>: the IKE_SA_INIT exchange of the initiator, from the request with its
  cookie retry to the keys of the IKE SA.  The transport is the sequence of its exchanges, the random
  source the sequence of its reads; the UDP sockets behind them are not modelled.  The loop of
  \<^verbatim>\<open>runIKESAInitRequest\<close> sends at most twice and is written out.  \<^verbatim>\<open>randomSPI\<close> reads until it
  gets a non-zero value: it is a partial function, and \<open>None\<close> is a run that never ends.
\<close>

section \<open>Data\<close>

type_synonym transport = "nat \<Rightarrow> bytes \<Rightarrow> bytes res"

record InitConfig =
  ic_Transport :: "transport option"
  ic_Random :: "reader option"
  ic_SA :: SecurityAssociation
  ic_InitiatorSPI :: u64
  ic_NonceI :: bytes
  ic_X25519PrivateKey :: bytes
  ic_DHPrivateKey :: bytes
  ic_LocalIP :: ip
  ic_LocalPort :: u16
  ic_RemoteIP :: ip
  ic_RemotePort :: u16
  ic_KeyMaterialLength :: int

record InitResult =
  ir_RequestBytes :: bytes
  ir_ResponseBytes :: bytes
  ir_Request :: Message
  ir_Response :: Message
  ir_SelectedSA :: SecurityAssociation
  ir_InitiatorSPI :: u64
  ir_ResponderSPI :: u64
  ir_NonceI :: bytes
  ir_NonceR :: bytes
  ir_PublicKeyI :: bytes
  ir_PublicKeyR :: bytes
  ir_SharedSecret :: bytes
  ir_PRF :: hash
  ir_SKEYSEED :: bytes
  ir_KeyMaterial :: bytes
  ir_Keys :: IKEKeys
  ir_MOBIKESupported :: bool
  ir_NATDetected :: bool

record parsedInitResponse =
  pr_sa :: SecurityAssociation
  pr_keyExchange :: KeyExchange
  pr_nonceR :: bytes
  pr_notifies :: "Notify list"
  pr_mobikeSupported :: bool

abbreviation (input) DefaultNonceLength :: int where "DefaultNonceLength \<equiv> 32"

text \<open>The zero value of \<^verbatim>\<open>IKEKeys\<close>.\<close>

definition NoIKEKeys :: IKEKeys where
  "NoIKEKeys =
     \<lparr>ik_Profile = \<lparr>kmp_PRF = NoHash, kmp_EncryptionID = 0, kmp_EncryptionKeyLength = 0,
        kmp_EncryptionBlockSize = 0, kmp_IntegrityID = 0, kmp_IntegrityKeyLength = 0,
        kmp_IntegrityChecksumLength = 0, kmp_PRFKeyLength = 0\<rparr>,
      ik_SKD = [], ik_SKAi = [], ik_SKAr = [], ik_SKEi = [], ik_SKEr = [], ik_SKPi = [], ik_SKPr = []\<rparr>"

section \<open>Random values\<close>

partial_function (option) randomSPI :: "reader \<Rightarrow> nat \<Rightarrow> (u64 \<times> nat) res option" where
  "randomSPI rd k =
     (case randomBytes (rd k) 8 of
        Inl e \<Rightarrow> Some (Inl e)
      | Inr b \<Rightarrow>
          (case u64_at 0 b of
             Inl e \<Rightarrow> Some (Inl e)
           | Inr spi \<Rightarrow> if spi \<noteq> 0 then Some (Inr (spi, k + 1)) else randomSPI rd (k + 1)))"

definition bytesEqual :: "bytes \<Rightarrow> bytes \<Rightarrow> bool" where
  "bytesEqual a b \<longleftrightarrow> length a = length b \<and> fold (\<lambda>(x, y) diff. diff OR (x XOR y)) (zip a b) 0 = 0"

section \<open>NAT detection\<close>

definition initNATPayloads :: "crypto \<Rightarrow> InitConfig \<Rightarrow> u64 \<Rightarrow> u64 \<Rightarrow> Payload list" where
  "initNATPayloads c cfg spiI spiR =
     (if ic_LocalIP cfg = [] \<or> ic_RemoteIP cfg = [] \<or> ic_LocalPort cfg = 0 \<or> ic_RemotePort cfg = 0 then []
      else case NATDetectionNotify (cr_sha1 c) NotifyNATDetectionSourceIP spiI spiR (ic_LocalIP cfg) (ic_LocalPort cfg) of
        Inl e \<Rightarrow> []
      | Inr src \<Rightarrow>
          (case NATDetectionNotify (cr_sha1 c) NotifyNATDetectionDestinationIP spiI spiR (ic_RemoteIP cfg)
             (ic_RemotePort cfg) of
             Inl e \<Rightarrow> []
           | Inr dst \<Rightarrow> [src, dst]))"

definition detectNAT :: "crypto \<Rightarrow> Notify list \<Rightarrow> u64 \<Rightarrow> u64 \<Rightarrow> InitConfig \<Rightarrow> bool" where
  "detectNAT c notifies spiI spiR cfg =
     (if ic_LocalIP cfg = [] \<or> ic_RemoteIP cfg = [] \<or> ic_LocalPort cfg = 0 \<or> ic_RemotePort cfg = 0 then False
      else case (NATDetectionHash (cr_sha1 c) spiI spiR (ic_RemoteIP cfg) (ic_RemotePort cfg),
                 NATDetectionHash (cr_sha1 c) spiI spiR (ic_LocalIP cfg) (ic_LocalPort cfg)) of
        (Inr sourceHash, Inr destHash) \<Rightarrow>
          list_ex (\<lambda>n. ntf_NotifyType n = NotifyNATDetectionSourceIP \<and> \<not> bytesEqual (ntf_NotificationData n) sourceHash
            \<or> ntf_NotifyType n = NotifyNATDetectionDestinationIP \<and> \<not> bytesEqual (ntf_NotificationData n) destHash)
            notifies
      | _ \<Rightarrow> False)"

section \<open>The response\<close>

definition checkInitHeader :: "Message \<Rightarrow> u64 \<Rightarrow> unit res" where
  "checkInitHeader resp spiI =
     (let h = msg_Header resp in
      if hdr_InitiatorSPI h \<noteq> spiI then Inl (Err ErrInvalidInitResponse)
      else if hdr_ExchangeType h \<noteq> ExchangeIKE_SA_INIT \<or> hdr_MessageID h \<noteq> 0 \<or> hdr_Flags h AND FlagResponse = 0
      then Inl (Err ErrInvalidInitResponse)
      else case FirstNotifyError (msg_Payloads resp) of
        Some e \<Rightarrow> Inl (Wrap ErrInvalidInitResponse e)
      | None \<Rightarrow> Inr ())"

fun firstCookie :: "Payload list \<Rightarrow> bytes option res" where
  "firstCookie [] = Inr None"
| "firstCookie (p # ps) =
     (if pl_Type p \<noteq> PayloadNotify then firstCookie ps
      else case ParseNotify (pl_Body p) of
        Inl e \<Rightarrow> Inl (Wrap ErrInvalidInitResponse e)
      | Inr notify \<Rightarrow>
          (case Notify_Cookie notify of
             Inl e \<Rightarrow> Inl (Wrap ErrInvalidInitResponse e)
           | Inr (Some cookie) \<Rightarrow> Inr (Some cookie)
           | Inr None \<Rightarrow> firstCookie ps))"

definition initResponseCookie :: "Message \<Rightarrow> u64 \<Rightarrow> bytes option res" where
  "initResponseCookie resp spiI =
     rbind (checkInitHeader resp spiI) (\<lambda>_. firstCookie (msg_Payloads resp))"

fun initPayloads_loop :: "u16 \<Rightarrow> Payload list \<Rightarrow> parsedInitResponse \<Rightarrow> parsedInitResponse res" where
  "initPayloads_loop g [] out = Inr out"
| "initPayloads_loop g (p # ps) out =
     (if pl_Type p = PayloadSA
      then rbind (ParseSecurityAssociation (pl_Body p)) (\<lambda>sa. initPayloads_loop g ps (out\<lparr>pr_sa := sa\<rparr>))
      else if pl_Type p = PayloadKE
      then rbind (ParseKeyExchange (pl_Body p)) (\<lambda>ke.
        if ke_DHGroup ke \<noteq> g then Inl (Err ErrInvalidInitResponse)
        else initPayloads_loop g ps (out\<lparr>pr_keyExchange := ke\<rparr>))
      else if pl_Type p = PayloadNonce then initPayloads_loop g ps (out\<lparr>pr_nonceR := pl_Body p\<rparr>)
      else if pl_Type p = PayloadNotify
      then rbind (ParseNotify (pl_Body p)) (\<lambda>n.
        initPayloads_loop g ps (out\<lparr>pr_notifies := pr_notifies out @ [n],
          pr_mobikeSupported := pr_mobikeSupported out \<or> ntf_NotifyType n = NotifyMOBIKESupported\<rparr>))
      else initPayloads_loop g ps out)"

definition parseInitResponse :: "Message \<Rightarrow> u64 \<Rightarrow> u16 \<Rightarrow> parsedInitResponse res" where
  "parseInitResponse resp spiI expectedDHGroup =
     rbind (checkInitHeader resp spiI) (\<lambda>_.
     if hdr_ResponderSPI (msg_Header resp) = 0 then Inl (Err ErrInvalidInitResponse)
     else
       rbind (initPayloads_loop expectedDHGroup (msg_Payloads resp)
         \<lparr>pr_sa = \<lparr>sa_Proposals = []\<rparr>, pr_keyExchange = \<lparr>ke_DHGroup = 0, ke_KeyData = []\<rparr>, pr_nonceR = [],
          pr_notifies = [], pr_mobikeSupported = False\<rparr>) (\<lambda>out.
       if length (sa_Proposals (pr_sa out)) = 0 then Inl (Err ErrInvalidInitResponse)
       else if length (ke_KeyData (pr_keyExchange out)) = 0 then Inl (Err ErrInvalidInitResponse)
       else if length (pr_nonceR out) = 0 then Inl (Err ErrInvalidInitResponse)
       else Inr out))"

section \<open>The exchange\<close>

definition initRequest :: "u64 \<Rightarrow> Payload list \<Rightarrow> Message" where
  "initRequest spiI payloads =
     \<lparr>msg_Header = \<lparr>hdr_InitiatorSPI = spiI, hdr_ResponderSPI = 0, hdr_NextPayload = 0, hdr_Version = 0,
        hdr_ExchangeType = ExchangeIKE_SA_INIT, hdr_Flags = FlagInitiator, hdr_MessageID = 0, hdr_Length = 0\<rparr>,
      msg_Payloads = payloads\<rparr>"

text \<open>One turn of the loop, the \<open>k\<close>-th exchange of the transport: the request and the response, and the
  cookie the responder asks for.\<close>

definition initAttempt ::
  "transport \<Rightarrow> nat \<Rightarrow> u64 \<Rightarrow> Payload list \<Rightarrow> bytes \<Rightarrow>
   ((Message \<times> bytes \<times> Message \<times> bytes) \<times> bytes option) res" where
  "initAttempt transport k spiI payloads cookie =
     rbind (if length cookie > 0 then rbind (CookieNotify cookie) (\<lambda>cp. Inr (cp # payloads)) else Inr payloads)
       (\<lambda>reqPayloads.
       let req = initRequest spiI reqPayloads in
       rbind (Message_MarshalBinary req) (\<lambda>reqBytes.
       rbind (transport k reqBytes) (\<lambda>respBytes.
       rbind (ParseMessage respBytes) (\<lambda>resp.
       rbind (initResponseCookie resp spiI) (\<lambda>nextCookie.
         Inr ((req, reqBytes, resp, respBytes), nextCookie))))))"

definition runIKESAInitRequest ::
  "transport \<Rightarrow> u64 \<Rightarrow> Payload list \<Rightarrow> (Message \<times> bytes \<times> Message \<times> bytes) res" where
  "runIKESAInitRequest transport spiI payloads =
     rbind (initAttempt transport 0 spiI payloads []) (\<lambda>(r0, next0).
       case next0 of
         None \<Rightarrow> Inr r0
       | Some cookie \<Rightarrow>
           rbind (initAttempt transport 1 spiI payloads cookie) (\<lambda>(r1, next1).
             case next1 of None \<Rightarrow> Inr r1 | Some _ \<Rightarrow> Inl (Err ErrInvalidInitResponse)))"

text \<open>The proposal, the length of the key material and the split of the keys, with their defaults.\<close>

definition offeredSA :: "InitConfig \<Rightarrow> SecurityAssociation" where
  "offeredSA cfg = (if length (sa_Proposals (ic_SA cfg)) = 0 then DefaultIKEProposal else ic_SA cfg)"

definition keyMaterialLength :: "InitConfig \<Rightarrow> KeyMaterialProfile \<Rightarrow> int" where
  "keyMaterialLength cfg profile =
     (if ic_KeyMaterialLength cfg \<le> 0 then RequiredLength profile else ic_KeyMaterialLength cfg)"

definition initKeys :: "KeyMaterialProfile \<Rightarrow> bytes \<Rightarrow> IKEKeys res" where
  "initKeys profile keyMaterial =
     (if int (length keyMaterial) \<ge> RequiredLength profile then SplitIKEKeys profile keyMaterial
      else Inr NoIKEKeys)"

text \<open>What follows the choice of the SPI and the nonce, with the number \<open>k\<close> of reads so far.\<close>

definition runInitExchange ::
  "crypto \<Rightarrow> ecdh \<Rightarrow> InitConfig \<Rightarrow> transport \<Rightarrow> reader \<Rightarrow> u64 \<Rightarrow> bytes \<Rightarrow> nat \<Rightarrow> InitResult res" where
  "runInitExchange c ec cfg transport rd spiI nonceI k =
     (let sa = offeredSA cfg in
      rbind (dhGroupFromSA sa) (\<lambda>dhGroup.
      let privateKey = (if dhGroup = DHGroupCurve25519 \<and> length (ic_DHPrivateKey cfg) = 0
                        then ic_X25519PrivateKey cfg else ic_DHPrivateKey cfg) in
      rbind (newDHKeyExchange ec dhGroup privateKey (rd k)) (\<lambda>dh.
      rbind (SecurityAssociationPayload sa) (\<lambda>saPayload.
      rbind (runIKESAInitRequest transport spiI
        ([saPayload, KeyExchangePayload dhGroup (dh_public dh), NoncePayload nonceI]
          @ initNATPayloads c cfg spiI 0 @ [MOBIKESupportedNotify])) (\<lambda>(req, reqBytes, resp, respBytes).
      rbind (parseInitResponse resp spiI dhGroup) (\<lambda>parsed.
      rbind (ValidateSelectedSA sa (pr_sa parsed)) (\<lambda>_.
      rbind (dh_shared dh (ke_KeyData (pr_keyExchange parsed))) (\<lambda>shared.
      rbind (KeyMaterialProfileFromSA (pr_sa parsed)) (\<lambda>profile.
      rbind (SKEYSEED c (kmp_PRF profile) nonceI (pr_nonceR parsed) shared) (\<lambda>skeyseed.
      let spiR = hdr_ResponderSPI (msg_Header resp) in
      rbind (DeriveIKESAKeyMaterial c (kmp_PRF profile) skeyseed nonceI (pr_nonceR parsed) spiI spiR
        (keyMaterialLength cfg profile)) (\<lambda>keyMaterial.
      rbind (initKeys profile keyMaterial) (\<lambda>keys.
        Inr \<lparr>ir_RequestBytes = reqBytes, ir_ResponseBytes = respBytes, ir_Request = req, ir_Response = resp,
             ir_SelectedSA = pr_sa parsed, ir_InitiatorSPI = spiI, ir_ResponderSPI = spiR, ir_NonceI = nonceI,
             ir_NonceR = pr_nonceR parsed, ir_PublicKeyI = dh_public dh,
             ir_PublicKeyR = ke_KeyData (pr_keyExchange parsed), ir_SharedSecret = shared,
             ir_PRF = kmp_PRF profile, ir_SKEYSEED = skeyseed, ir_KeyMaterial = keyMaterial, ir_Keys = keys,
             ir_MOBIKESupported = pr_mobikeSupported parsed,
             ir_NATDetected = detectNAT c (pr_notifies parsed) spiI spiR cfg\<rparr>))))))))))))"

definition RunIKE_SA_INIT :: "crypto \<Rightarrow> ecdh \<Rightarrow> reader \<Rightarrow> InitConfig \<Rightarrow> InitResult res option" where
  "RunIKE_SA_INIT c ec randReader cfg =
     (case ic_Transport cfg of
        None \<Rightarrow> Some (Inl (Err ErrInvalidInitConfig))
      | Some transport \<Rightarrow>
          let rd = (case ic_Random cfg of Some r \<Rightarrow> r | None \<Rightarrow> randReader) in
          (case (if ic_InitiatorSPI cfg = 0 then randomSPI rd 0 else Some (Inr (ic_InitiatorSPI cfg, 0))) of
             None \<Rightarrow> None
           | Some (Inl e) \<Rightarrow> Some (Inl e)
           | Some (Inr (spiI, k)) \<Rightarrow>
               Some (rbind (if length (ic_NonceI cfg) = 0
                            then rbind (randomBytes (rd k) DefaultNonceLength) (\<lambda>n. Inr (n, k + 1))
                            else Inr (ic_NonceI cfg, k)) (\<lambda>(nonceI, k').
                 runInitExchange c ec cfg transport rd spiI nonceI k'))))"

text \<open>\<^verbatim>\<open>selectedPRFHash\<close>: the first usable PRF of the selected proposals, SHA-256 without one.\<close>

definition selectedPRFHash :: "SecurityAssociation \<Rightarrow> hash" where
  "selectedPRFHash sa =
     (case List.map_filter (\<lambda>t. if tr_Type t = TransformPRF
                                then (case PRFHashForTransform (tr_ID t) of Inr h \<Rightarrow> Some h | Inl _ \<Rightarrow> None)
                                else None) (concat (map prop_Transforms (sa_Proposals sa))) of
        h # _ \<Rightarrow> h
      | [] \<Rightarrow> SHA256)"

section \<open>Lemmas\<close>

text \<open>The accumulated difference is zero iff no octet differs.\<close>

lemma or_eq_0_iff: "(a :: u8) OR b = 0 \<longleftrightarrow> a = 0 \<and> b = 0"
  by (metis or.right_neutral or_eq_0_iff)

lemma xor_eq_0_iff: "(a :: u8) XOR b = 0 \<longleftrightarrow> a = b"
  by (metis xor.left_neutral xor.right_neutral xor_self_eq xor.assoc)

lemma diff_fold: "fold (\<lambda>(x, y) diff. diff OR (x XOR y)) ps (d :: u8) = 0 \<longleftrightarrow> d = 0 \<and> (\<forall>(x, y) \<in> set ps. x = y)"
  by (induction ps arbitrary: d) (auto simp: or_eq_0_iff xor_eq_0_iff)

lemma bytesEqual_iff: "bytesEqual a b \<longleftrightarrow> a = b"
  unfolding bytesEqual_def diff_fold
  by (auto simp: list_eq_iff_zip_eq)

lemma randomSPI_result: "randomSPI rd k = Some r \<Longrightarrow> r \<noteq> Inr (0, j)"
proof (erule randomSPI.raw_induct [rotated])
  fix f :: "reader \<Rightarrow> nat \<Rightarrow> (u64 \<times> nat) res option" and rd k r
  assume "\<And>rd k r. f rd k = Some r \<Longrightarrow> r \<noteq> Inr (0, j)"
    and "(case randomBytes (rd k) 8 of Inl e \<Rightarrow> Some (Inl e)
      | Inr b \<Rightarrow> (case u64_at 0 b of Inl e \<Rightarrow> Some (Inl e)
        | Inr spi \<Rightarrow> if spi \<noteq> 0 then Some (Inr (spi, k + 1)) else f rd (k + 1))) = Some r"
  then show "r \<noteq> Inr (0, j)"
    by (auto split: sum.splits if_splits)
qed

text \<open>The search ends as soon as one read is an error or has a non-zero value.\<close>

lemma randomSPI_returns:
  assumes "random_ok (rd n)" and "case rd n 8 of Inl _ \<Rightarrow> True | Inr b \<Rightarrow> u64_at 0 b \<noteq> Inr 0" and "k \<le> n"
  shows "\<exists>r. randomSPI rd k = Some r"
  using assms(3)
proof (induction "n - k" arbitrary: k)
  case 0
  then have "k = n" by simp
  then show ?case
    using assms(1,2) by (subst randomSPI.simps) (auto simp: randomBytes_def random_ok_def split: sum.splits)
next
  case (Suc d)
  then have "\<exists>r. randomSPI rd (k + 1) = Some r" by (intro Suc.hyps(1)) auto
  then show ?case by (subst randomSPI.simps) (auto split: sum.splits)
qed

lemma initAttempt_Inr:
  assumes "initAttempt transport k spiI payloads cookie = Inr ((req, reqBytes, resp, respBytes), next)"
  shows "Message_MarshalBinary req = Inr reqBytes" "transport k reqBytes = Inr respBytes"
    "ParseMessage respBytes = Inr resp" "initResponseCookie resp spiI = Inr next"
    "if cookie = [] then req = initRequest spiI payloads
     else \<exists>cp. CookieNotify cookie = Inr cp \<and> req = initRequest spiI (cp # payloads)"
  using assms by (auto simp: initAttempt_def rbind_eq_Inr_iff Let_def split: if_splits)

lemma firstCookie_nonempty: "firstCookie ps = Inr (Some cookie) \<Longrightarrow> cookie \<noteq> []"
  by (induction ps) (auto simp: Notify_Cookie_def split: if_splits sum.splits option.splits)

lemma initResponseCookie_nonempty: "initResponseCookie resp spiI = Inr (Some cookie) \<Longrightarrow> cookie \<noteq> []"
  by (auto simp: initResponseCookie_def rbind_eq_Inr_iff dest: firstCookie_nonempty)

lemma RunIKE_SA_INIT_Inr:
  assumes "RunIKE_SA_INIT c ec randReader cfg = Some (Inr r)"
  obtains transport rd spiI nonceI k where "ic_Transport cfg = Some transport" "spiI \<noteq> 0"
    "runInitExchange c ec cfg transport rd spiI nonceI k = Inr r"
proof -
  from assms obtain transport where t: "ic_Transport cfg = Some transport"
    by (auto simp: RunIKE_SA_INIT_def split: option.splits)
  define rd where "rd = (case ic_Random cfg of Some r \<Rightarrow> r | None \<Rightarrow> randReader)"
  from assms t obtain spiI k nonceI k' where
    s: "(if ic_InitiatorSPI cfg = 0 then randomSPI rd 0 else Some (Inr (ic_InitiatorSPI cfg, 0))) = Some (Inr (spiI, k))"
    and x: "runInitExchange c ec cfg transport rd spiI nonceI k' = Inr r"
    by (auto simp: RunIKE_SA_INIT_def rd_def [symmetric] Let_def rbind_eq_Inr_iff
        split: option.splits sum.splits if_splits)
  have "spiI \<noteq> 0" using s randomSPI_result [of rd 0 "Inr (spiI, k)" k] by (auto split: if_splits)
  with t x that show thesis by blast
qed

text \<open>What a successful exchange has checked and computed.\<close>

lemma runInitExchange_Inr:
  assumes "runInitExchange c ec cfg transport rd spiI nonceI k = Inr r"
  shows "\<exists>g priv dh reqPayloads parsed profile.
    dhGroupFromSA (offeredSA cfg) = Inr g \<and> newDHKeyExchange ec g priv (rd k) = Inr dh \<and>
    runIKESAInitRequest transport spiI reqPayloads
      = Inr (ir_Request r, ir_RequestBytes r, ir_Response r, ir_ResponseBytes r) \<and>
    parseInitResponse (ir_Response r) spiI g = Inr parsed \<and>
    ValidateSelectedSA (offeredSA cfg) (ir_SelectedSA r) = Inr () \<and>
    KeyMaterialProfileFromSA (ir_SelectedSA r) = Inr profile \<and>
    ir_SelectedSA r = pr_sa parsed \<and> ir_NonceR r = pr_nonceR parsed \<and> ir_NonceI r = nonceI \<and>
    ir_InitiatorSPI r = spiI \<and> ir_ResponderSPI r = hdr_ResponderSPI (msg_Header (ir_Response r)) \<and>
    ir_PublicKeyI r = dh_public dh \<and> ir_PublicKeyR r = ke_KeyData (pr_keyExchange parsed) \<and>
    dh_shared dh (ir_PublicKeyR r) = Inr (ir_SharedSecret r) \<and> ir_PRF r = kmp_PRF profile \<and>
    SKEYSEED c (ir_PRF r) nonceI (ir_NonceR r) (ir_SharedSecret r) = Inr (ir_SKEYSEED r) \<and>
    DeriveIKESAKeyMaterial c (ir_PRF r) (ir_SKEYSEED r) nonceI (ir_NonceR r) spiI (ir_ResponderSPI r)
      (keyMaterialLength cfg profile) = Inr (ir_KeyMaterial r) \<and>
    initKeys profile (ir_KeyMaterial r) = Inr (ir_Keys r)"
  using assms unfolding runInitExchange_def Let_def
  by (clarsimp simp: rbind_eq_Inr_iff) (intro exI conjI, (rule refl | assumption | simp)+)

lemma parseInitResponse_Inr:
  assumes "parseInitResponse resp spiI g = Inr parsed"
  shows "hdr_InitiatorSPI (msg_Header resp) = spiI" "hdr_ResponderSPI (msg_Header resp) \<noteq> 0"
    "FirstNotifyError (msg_Payloads resp) = None" "pr_nonceR parsed \<noteq> []"
  using assms
  by (auto simp: parseInitResponse_def checkInitHeader_def Let_def rbind_eq_Inr_iff split: if_splits option.splits)

section \<open>A concrete exchange\<close>

text \<open>A responder with the private exponent 4 that accepts a proposal with the MODP group, and an
  initiator with the private exponent 3.\<close>

definition demo_modp_sa :: SecurityAssociation where
  "demo_modp_sa = \<lparr>sa_Proposals = [\<lparr>prop_Number = 1, prop_ProtocolID = ProtocolIKE, prop_SPI = [],
     prop_Transforms =
       [\<lparr>tr_Type = TransformENCR, tr_ID = ENCR_AES_CBC, tr_Attributes = [KeyLengthAttribute 128]\<rparr>,
        mkTransform TransformPRF PRF_HMAC_SHA2_256,
        mkTransform TransformINTEG INTEG_HMAC_SHA2_256_128,
        mkTransform TransformDHRGroup DHGroup2048BitMODP]\<rparr>]\<rparr>"

definition demo_sa_body :: bytes where
  "demo_sa_body = (case SecurityAssociation_MarshalBinary demo_modp_sa of Inr b \<Rightarrow> b | Inl _ \<Rightarrow> [])"

definition demo_response :: Message where
  "demo_response =
     \<lparr>msg_Header = \<lparr>hdr_InitiatorSPI = 1, hdr_ResponderSPI = 2, hdr_NextPayload = 0, hdr_Version = 0x20,
        hdr_ExchangeType = ExchangeIKE_SA_INIT, hdr_Flags = FlagResponse, hdr_MessageID = 0, hdr_Length = 0\<rparr>,
      msg_Payloads = [mkPayload PayloadSA demo_sa_body, KeyExchangePayload DHGroup2048BitMODP (be_bytes 256 16),
        NoncePayload [9]]\<rparr>"

definition demo_init_cfg :: InitConfig where
  "demo_init_cfg =
     \<lparr>ic_Transport = Some (\<lambda>k req. Message_MarshalBinary demo_response), ic_Random = None, ic_SA = demo_modp_sa,
      ic_InitiatorSPI = 1, ic_NonceI = [7], ic_X25519PrivateKey = [], ic_DHPrivateKey = [1],
      ic_LocalIP = [], ic_LocalPort = 0, ic_RemoteIP = [], ic_RemotePort = 0, ic_KeyMaterialLength = 0\<rparr>"

lemma demo_sa_body_marshal:
  "SecurityAssociation_MarshalBinary demo_modp_sa = Inr demo_sa_body \<and> length demo_sa_body = 44"
  by (simp add: demo_sa_body_def demo_modp_sa_def SecurityAssociation_MarshalBinary_def marshalProposal1_def
      Proposal_marshalBody_def Transform_marshal_def marshalTransformAttributes_def
      marshalTransformAttribute1_def KeyLengthAttribute_def)

lemma demo_sa_body_parse: "ParseSecurityAssociation demo_sa_body = Inr demo_modp_sa"
  by (rule parse_marshal_sa [OF _ conjunct1 [OF demo_sa_body_marshal]])
    (simp add: demo_modp_sa_def proposal_wf_def transform_wf_def attr_wf_def KeyLengthAttribute_def)

lemma marshal_returns:
  assumes "payloads_wf (msg_Payloads m)" "28 + length (payloads_enc (msg_Payloads m)) < 4294967296"
  shows "\<exists>b. Message_MarshalBinary m = Inr b \<and> ParseMessage b = Inr (complete_message m)"
  using message.enc_total [OF complete_message_wf [OF assms]] ParseMessage_marshal [OF assms]
  by (auto simp: Message_MarshalBinary_complete [OF assms(1)])

lemma demo_response_parses:
  "\<exists>b. Message_MarshalBinary demo_response = Inr b \<and> ParseMessage b = Inr (complete_message demo_response)"
  by (rule marshal_returns)
    (simp_all add: demo_response_def KeyExchangePayload_def KeyExchange_MarshalBinary_def NoncePayload_def
      isEncryptedPayload_def demo_sa_body_marshal)

lemma demo_modp_key:
  assumes "x = be_nat raw + 2" "raw \<noteq> []" "be_nat raw < 10"
  shows "newMODPKeyExchange DHGroup2048BitMODP raw rnd =
    Inr \<lparr>dh_public = be_bytes 256 (2 ^ x), dh_shared = modpShared modp2048Prime 256 x\<rparr>"
proof -
  have "be_nat raw mod (modp2048Prime - 3) = be_nat raw"
    using assms(3) by (simp add: modp2048Prime_def)
  moreover have "(2 :: nat) ^ x \<le> 2 ^ 11" using assms by (intro power_increasing) auto
  then have "2 ^ x < modp2048Prime" "(2 :: nat) ^ x < 256 ^ 256"
    by (auto intro: le_less_trans simp: modp2048Prime_def)
  ultimately show ?thesis
    using assms
    by (simp add: newMODPKeyExchange_def modpGroup_def modp2048_size modexp_power leftPadBigInt_def Let_def
        del: power_Suc)
qed

definition demo_profile :: KeyMaterialProfile where
  "demo_profile = \<lparr>kmp_PRF = SHA256, kmp_EncryptionID = ENCR_AES_CBC, kmp_EncryptionKeyLength = 16,
     kmp_EncryptionBlockSize = 16, kmp_IntegrityID = INTEG_HMAC_SHA2_256_128, kmp_IntegrityKeyLength = 32,
     kmp_IntegrityChecksumLength = 16, kmp_PRFKeyLength = 32\<rparr>"

definition demo_ecdh :: ecdh where
  "demo_ecdh = \<lparr>ec_NewPrivateKey = (\<lambda>_. Inl (Err ErrInvalidKeyMaterial)), ec_GenerateKey = (\<lambda>_. Inl (Err ErrInvalidKeyMaterial))\<rparr>"

lemma demo_sa_facts:
  "dhGroupFromSA demo_modp_sa = Inr DHGroup2048BitMODP"
  "ValidateSelectedSA demo_modp_sa demo_modp_sa = Inr ()"
  "KeyMaterialProfileFromSA demo_modp_sa = Inr demo_profile"
  "RequiredLength demo_profile = 192" "kmp_PRF demo_profile = SHA256"
  "length (sa_Proposals demo_modp_sa) = 1"
  by code_simp+

lemma demo_offered: "offeredSA demo_init_cfg = demo_modp_sa"
  by (simp add: offeredSA_def demo_init_cfg_def demo_sa_facts)

lemma demo_init_facts:
  "initResponseCookie (complete_message demo_response) 1 = Inr None"
  "parseInitResponse (complete_message demo_response) 1 DHGroup2048BitMODP = Inr
     \<lparr>pr_sa = demo_modp_sa, pr_keyExchange = \<lparr>ke_DHGroup = DHGroup2048BitMODP, ke_KeyData = be_bytes 256 16\<rparr>,
      pr_nonceR = [9], pr_notifies = [], pr_mobikeSupported = False\<rparr>"
  "hdr_ResponderSPI (msg_Header (complete_message demo_response)) = 2"
  by (simp_all add: initResponseCookie_def parseInitResponse_def checkInitHeader_def demo_response_def
      complete_message_def KeyExchangePayload_def KeyExchange_MarshalBinary_def ParseKeyExchange_def NoncePayload_def
      demo_sa_body_parse demo_modp_sa_def PutUint16_def u16_of_def Let_def)

lemma demo_attempt:
  assumes "payloads_wf ps" "28 + length (payloads_enc ps) < 4294967296"
  shows "\<exists>b b'. runIKESAInitRequest (\<lambda>k req. Message_MarshalBinary demo_response) 1 ps =
    Inr (initRequest 1 ps, b, complete_message demo_response, b')"
  using marshal_returns [of "initRequest 1 ps"] assms demo_response_parses
  by (auto simp: runIKESAInitRequest_def initAttempt_def initRequest_def demo_init_facts Let_def)

lemma demo_exchange:
  "\<exists>r. RunIKE_SA_INIT demo_crypto ec rd demo_init_cfg = Some (Inr r) \<and>
    ir_PublicKeyI r = be_bytes 256 8 \<and> ir_PublicKeyR r = be_bytes 256 16"
proof -
  have k: "newDHKeyExchange ec DHGroup2048BitMODP [1] (rd 0)
      = Inr \<lparr>dh_public = be_bytes 256 8, dh_shared = modpShared modp2048Prime 256 3\<rparr>"
    using demo_modp_key [of 3 "[1]" "rd 0"] by (simp add: newDHKeyExchange_def be_nat_def)
  let ?ps = "[mkPayload PayloadSA demo_sa_body, KeyExchangePayload DHGroup2048BitMODP (be_bytes 256 8),
      NoncePayload [7], MOBIKESupportedNotify]"
  obtain b b' where x: "runIKESAInitRequest (\<lambda>k req. Message_MarshalBinary demo_response) 1 ?ps =
      Inr (initRequest 1 ?ps, b, complete_message demo_response, b')"
    using demo_attempt [of ?ps] by (auto simp: KeyExchangePayload_def KeyExchange_MarshalBinary_def NoncePayload_def
      isEncryptedPayload_def demo_sa_body_marshal MOBIKESupportedNotify_def marshal_or_nil_def
      Notify_MarshalBinary_def)
  have s: "modpShared modp2048Prime 256 3 (be_bytes 256 16) = Inr (be_bytes 256 4096)"
    by (simp add: modpShared_def be_nat_be_bytes modexp_power leftPadBigInt_def modp2048Prime_def)
  have p: "SecurityAssociationPayload demo_modp_sa = Inr (mkPayload PayloadSA demo_sa_body)"
    by (simp add: SecurityAssociationPayload_def demo_sa_body_marshal)
  obtain seed where seed: "SKEYSEED demo_crypto SHA256 [7] [9] (be_bytes 256 4096) = Inr seed"
    by (simp add: SKEYSEED_def PRF_def hash_Available_def)
  obtain km where km: "DeriveIKESAKeyMaterial demo_crypto SHA256 seed [7] [9] 1 2 192 = Inr km" "length km = 192"
    using PRFPlus_take [OF demo_crypto_ok, of SHA256 192] PRFPlus_length [OF demo_crypto_ok]
    unfolding DeriveIKESAKeyMaterial_def by fastforce
  obtain ks where "initKeys demo_profile km = Inr ks"
    using SplitIKEKeys_cuts [OF demo_sa_facts(3), of km] km(2) by (auto simp: initKeys_def demo_sa_facts)
  then show ?thesis
    using k x s p seed km
    by (simp add: RunIKE_SA_INIT_def runInitExchange_def demo_offered [unfolded demo_init_cfg_def] demo_init_cfg_def demo_sa_facts demo_init_facts
        keyMaterialLength_def initNATPayloads_def Let_def)
qed

section \<open>Properties\<close>

text \<open>C16: A successful IKE_SA_INIT exchange is sound: the SPIs of both sides are non-zero and the response
  carries the initiator's, no notification of an error was in the response, the responder's nonce is
  not empty, and the selected proposal passed the check against the offered one.  The key material is derived
  from \<^verbatim>\<open>SKEYSEED\<close>, both nonces and both SPIs, and has the length the caller asked for, by default what the
  selected proposal needs.  The seven keys of the IKE SA, each of the length of the proposal's algorithms, are the
  first octets of the material, in the order of RFC 7296; when the caller asked for less than they need, there are no keys.\<close>

theorem RunIKE_SA_INIT_sound:
  assumes "RunIKE_SA_INIT c ec randReader cfg = Some (Inr r)" and "crypto_ok c"
    and "keys = ir_Keys r" and "km = ir_KeyMaterial r"
  shows "ir_InitiatorSPI r \<noteq> 0 \<and> ir_ResponderSPI r \<noteq> 0 \<and>
    hdr_InitiatorSPI (msg_Header (ir_Response r)) = ir_InitiatorSPI r \<and>
    FirstNotifyError (msg_Payloads (ir_Response r)) = None \<and> ir_NonceR r \<noteq> [] \<and>
    ValidateSelectedSA (offeredSA cfg) (ir_SelectedSA r) = Inr () \<and>
    (\<exists>p. KeyMaterialProfileFromSA (ir_SelectedSA r) = Inr p \<and>
      DeriveIKESAKeyMaterial c (kmp_PRF p) (ir_SKEYSEED r) (ir_NonceI r) (ir_NonceR r) (ir_InitiatorSPI r) (ir_ResponderSPI r)
        (int (length km)) = Inr km \<and>
      int (length km) = (if ic_KeyMaterialLength cfg \<le> 0 then RequiredLength p else ic_KeyMaterialLength cfg) \<and>
      (if RequiredLength p \<le> int (length km)
       then ik_SKD keys @ ik_SKAi keys @ ik_SKAr keys @ ik_SKEi keys @ ik_SKEr keys @ ik_SKPi keys @ ik_SKPr keys
           = take (nat (RequiredLength p)) km \<and> ik_Profile keys = p \<and>
         int (length (ik_SKD keys)) = kmp_PRFKeyLength p \<and>
         int (length (ik_SKAi keys)) = kmp_IntegrityKeyLength p \<and> int (length (ik_SKAr keys)) = kmp_IntegrityKeyLength p \<and>
         int (length (ik_SKEi keys)) = kmp_EncryptionKeyLength p \<and> int (length (ik_SKEr keys)) = kmp_EncryptionKeyLength p \<and>
         int (length (ik_SKPi keys)) = kmp_PRFKeyLength p \<and> int (length (ik_SKPr keys)) = kmp_PRFKeyLength p
       else keys = NoIKEKeys))"
proof -
  obtain transport rd spiI nonceI k where spi: "spiI \<noteq> 0"
    and x: "runInitExchange c ec cfg transport rd spiI nonceI k = Inr r"
    using RunIKE_SA_INIT_Inr [OF assms(1)] by metis
  obtain g parsed profile where v: "ValidateSelectedSA (offeredSA cfg) (ir_SelectedSA r) = Inr ()"
    and p: "parseInitResponse (ir_Response r) spiI g = Inr parsed"
    and r: "ir_NonceR r = pr_nonceR parsed" "ir_NonceI r = nonceI" "ir_InitiatorSPI r = spiI"
      "ir_ResponderSPI r = hdr_ResponderSPI (msg_Header (ir_Response r))" "ir_PRF r = kmp_PRF profile"
    and pf: "KeyMaterialProfileFromSA (ir_SelectedSA r) = Inr profile"
    and km: "DeriveIKESAKeyMaterial c (ir_PRF r) (ir_SKEYSEED r) nonceI (ir_NonceR r) spiI (ir_ResponderSPI r)
      (keyMaterialLength cfg profile) = Inr (ir_KeyMaterial r)"
    and ks: "initKeys profile (ir_KeyMaterial r) = Inr (ir_Keys r)"
    using runInitExchange_Inr [OF x] by blast
  have "0 \<le> RequiredLength profile"
    using KeyMaterialProfileFromSA_wf [OF pf] by (auto simp: profile_wf_def RequiredLength_def)
  then have l: "int (length km) = keyMaterialLength cfg profile"
    using km PRFPlus_length [OF assms(2)] by (auto simp: assms(4) DeriveIKESAKeyMaterial_def keyMaterialLength_def)
  have keys: "if RequiredLength profile \<le> int (length km) then SplitIKEKeys profile km = Inr keys else keys = NoIKEKeys"
    using ks by (auto simp: initKeys_def assms(3,4) split: if_splits)
  show ?thesis
    using spi v r parseInitResponse_Inr [OF p] pf km l keys SplitIKEKeys_cuts [OF pf, of km]
    by (auto simp: assms(4) keyMaterialLength_def split: if_splits)
qed

theorem RunIKE_SA_INIT_sound_witness:
  "\<exists>r p. RunIKE_SA_INIT demo_crypto demo_ecdh (\<lambda>_ _. Inr []) demo_init_cfg = Some (Inr r) \<and>
    ir_InitiatorSPI r \<noteq> 0 \<and> ir_ResponderSPI r \<noteq> 0 \<and> ValidateSelectedSA demo_modp_sa (ir_SelectedSA r) = Inr () \<and>
    KeyMaterialProfileFromSA (ir_SelectedSA r) = Inr p \<and> int (length (ik_SKD (ir_Keys r))) = kmp_PRFKeyLength p"
proof -
  obtain r where r: "RunIKE_SA_INIT demo_crypto demo_ecdh (\<lambda>_ _. Inr []) demo_init_cfg = Some (Inr r)"
    using demo_exchange by blast
  have "ic_KeyMaterialLength demo_init_cfg \<le> 0" by (simp add: demo_init_cfg_def)
  then show ?thesis
    using r RunIKE_SA_INIT_sound [OF r demo_crypto_ok refl refl] by (auto simp: demo_offered)
qed

text \<open>C17: Both ends of an IKE_SA_INIT exchange over the 2048-bit MODP group compute the same secret, and with
  it the same \<^verbatim>\<open>SKEYSEED\<close> and key material, whenever the public values are in the accepted range:
  what the initiator holds is what the responder derives from its own key and the initiator's public
  value.\<close>

theorem init_keys_agree:
  assumes run: "RunIKE_SA_INIT c ec randReader cfg = Some (Inr r)"
    and grp: "dhGroupFromSA (offeredSA cfg) = Inr DHGroup2048BitMODP"
    and resp: "newMODPKeyExchange DHGroup2048BitMODP rawR rndR = Inr kr" "ir_PublicKeyR r = dh_public kr"
    and acc: "modp_acceptable (ir_PublicKeyI r)" "modp_acceptable (ir_PublicKeyR r)"
  shows "\<exists>profile. KeyMaterialProfileFromSA (ir_SelectedSA r) = Inr profile \<and>
    rbind (dh_shared kr (ir_PublicKeyI r)) (\<lambda>s.
      rbind (SKEYSEED c (ir_PRF r) (ir_NonceI r) (ir_NonceR r) s) (\<lambda>seed.
      rbind (DeriveIKESAKeyMaterial c (ir_PRF r) seed (ir_NonceI r) (ir_NonceR r)
        (ir_InitiatorSPI r) (ir_ResponderSPI r) (keyMaterialLength cfg profile)) (\<lambda>km. Inr (s, seed, km))))
    = Inr (ir_SharedSecret r, ir_SKEYSEED r, ir_KeyMaterial r)"
proof -
  obtain transport rd spiI nonceI k where x: "runInitExchange c ec cfg transport rd spiI nonceI k = Inr r"
    using RunIKE_SA_INIT_Inr [OF run] by metis
  obtain priv dh profile where dh: "newDHKeyExchange ec DHGroup2048BitMODP priv (rd k) = Inr dh"
    and r: "ir_NonceI r = nonceI" "ir_InitiatorSPI r = spiI" "ir_PublicKeyI r = dh_public dh"
    and s: "dh_shared dh (ir_PublicKeyR r) = Inr (ir_SharedSecret r)"
    and seed: "SKEYSEED c (ir_PRF r) nonceI (ir_NonceR r) (ir_SharedSecret r) = Inr (ir_SKEYSEED r)"
    and pf: "KeyMaterialProfileFromSA (ir_SelectedSA r) = Inr profile"
    and km: "DeriveIKESAKeyMaterial c (ir_PRF r) (ir_SKEYSEED r) nonceI (ir_NonceR r) spiI (ir_ResponderSPI r)
      (keyMaterialLength cfg profile) = Inr (ir_KeyMaterial r)"
    using runInitExchange_Inr [OF x] grp by (metis sum.inject(2))
  have dh': "newMODPKeyExchange DHGroup2048BitMODP priv (rd k) = Inr dh"
    using dh by (simp add: newDHKeyExchange_def)
  have "dh_shared kr (ir_PublicKeyI r) = Inr (ir_SharedSecret r)"
    using modp.agree [OF dh' resp(1)] acc s r(3) resp(2) by auto
  with seed km r pf show ?thesis by simp
qed

theorem init_keys_agree_witness:
  "\<exists>r kr. RunIKE_SA_INIT demo_crypto demo_ecdh (\<lambda>_ _. Inr []) demo_init_cfg = Some (Inr r) \<and>
    newMODPKeyExchange DHGroup2048BitMODP [2] (\<lambda>_. Inr []) = Inr kr \<and>
    dh_shared kr (ir_PublicKeyI r) = Inr (ir_SharedSecret r)"
proof -
  obtain r where r: "RunIKE_SA_INIT demo_crypto demo_ecdh (\<lambda>_ _. Inr []) demo_init_cfg = Some (Inr r)"
    "ir_PublicKeyI r = be_bytes 256 8" "ir_PublicKeyR r = be_bytes 256 16"
    using demo_exchange by blast
  have k: "newMODPKeyExchange DHGroup2048BitMODP [2] (\<lambda>_. Inr [])
      = Inr \<lparr>dh_public = be_bytes 256 16, dh_shared = modpShared modp2048Prime 256 4\<rparr>"
    using demo_modp_key [of 4 "[2]" "\<lambda>_. Inr []"] by (simp add: be_nat_def)
  have "modp_acceptable (be_bytes 256 8)" "modp_acceptable (be_bytes 256 16)"
    by (simp_all add: modp_acceptable_def be_nat_be_bytes modp2048Prime_def)
  then show ?thesis
    using init_keys_agree [OF r(1) _ k] r k demo_offered demo_sa_facts(1) by (auto simp: rbind_eq_Inr_iff)
qed

text \<open>C36: The cookie exchange: the request that is finally answered is the original one, sent first, or, when the
  first answer asked for a cookie, the same request with exactly that cookie put in front, sent second;
  the answer that counts asks for no cookie, so there is at most one retry.\<close>

theorem init_cookie_echoed:
  assumes "runIKESAInitRequest transport spiI payloads = Inr (req, reqBytes, resp, respBytes)"
  shows "Message_MarshalBinary req = Inr reqBytes \<and> ParseMessage respBytes = Inr resp \<and>
    initResponseCookie resp spiI = Inr None \<and>
    (req = initRequest spiI payloads \<and> transport 0 reqBytes = Inr respBytes \<or>
     (\<exists>cookie cp req0 answer0 resp0. cookie \<noteq> [] \<and>
       Message_MarshalBinary (initRequest spiI payloads) = Inr req0 \<and> transport 0 req0 = Inr answer0 \<and>
       ParseMessage answer0 = Inr resp0 \<and> initResponseCookie resp0 spiI = Inr (Some cookie) \<and>
       CookieNotify cookie = Inr cp \<and> req = initRequest spiI (cp # payloads) \<and>
       transport 1 reqBytes = Inr respBytes))"
proof -
  obtain q0 b0 r0 a0 n0 where f: "initAttempt transport 0 spiI payloads [] = Inr ((q0, b0, r0, a0), n0)"
    using assms by (auto simp: runIKESAInitRequest_def rbind_eq_Inr_iff)
  note f' = initAttempt_Inr [OF f]
  show ?thesis
  proof (cases n0)
    case None
    then show ?thesis using assms f f' by (simp add: runIKESAInitRequest_def)
  next
    case (Some cookie)
    then obtain n1 where g: "initAttempt transport 1 spiI payloads cookie = Inr ((req, reqBytes, resp, respBytes), n1)"
      and n1: "n1 = None"
      using assms f by (auto simp: runIKESAInitRequest_def rbind_eq_Inr_iff split: option.splits)
    have c: "cookie \<noteq> []" using f'(4) Some initResponseCookie_nonempty by blast
    show ?thesis using initAttempt_Inr [OF g] n1 f' c Some by fastforce
  qed
qed

theorem init_cookie_echoed_witness:
  "\<exists>req reqBytes resp respBytes.
    runIKESAInitRequest (\<lambda>k req. Message_MarshalBinary demo_response) 1 [NoncePayload [7]]
      = Inr (req, reqBytes, resp, respBytes) \<and>
    Message_MarshalBinary req = Inr reqBytes \<and> initResponseCookie resp 1 = Inr None"
proof -
  obtain b b' where x: "runIKESAInitRequest (\<lambda>k req. Message_MarshalBinary demo_response) 1 [NoncePayload [7]]
      = Inr (initRequest 1 [NoncePayload [7]], b, complete_message demo_response, b')"
    using demo_attempt [of "[NoncePayload [7]]"] by (auto simp: NoncePayload_def isEncryptedPayload_def)
  with init_cookie_echoed [OF x] show ?thesis by blast
qed

end
