(* ===== verification/Go_IO.thy ===== *)
theory Go_IO
  imports IKE_DH IKE_Init
begin

text \<open>
  Code that talks to a peer.  An action reads and updates the record of what has happened so far: the requests that
  were handed to the transport, in order, and the number of reads made from the random source.  It keeps the record
  when it fails, so that what was sent before an error can be talked about.  The transport's answer may depend on
  how many requests came before; the random source is the sequence of its reads.
  A judgement in the style of Hoare carries facts over the sequencing of actions.
\<close>

record io =
  io_sent :: "bytes list"
  io_reads :: nat

type_synonym 'a act = "io \<Rightarrow> 'a res \<times> io"

definition abind :: "'a act \<Rightarrow> ('a \<Rightarrow> 'b act) \<Rightarrow> 'b act" where
  "abind m f = (\<lambda>w. case m w of (Inl e, w') \<Rightarrow> (Inl e, w') | (Inr x, w') \<Rightarrow> f x w')"

definition lift_res :: "'a res \<Rightarrow> 'a act" where
  "lift_res r = (\<lambda>w. (r, w))"

abbreviation areturn :: "'a \<Rightarrow> 'a act" where
  "areturn x \<equiv> lift_res (Inr x)"

abbreviation afail :: "go_error \<Rightarrow> 'a act" where
  "afail e \<equiv> lift_res (Inl e)"

text \<open>\<^verbatim>\<open>Transport.ExchangeIKE\<close> and a read of the random source.\<close>

definition ExchangeIKE :: "transport \<Rightarrow> bytes \<Rightarrow> bytes act" where
  "ExchangeIKE tr req = (\<lambda>w. (tr (length (io_sent w)) req, w\<lparr>io_sent := io_sent w @ [req]\<rparr>))"

definition read_random :: "(random \<Rightarrow> bytes res) \<Rightarrow> reader \<Rightarrow> bytes act" where
  "read_random f rd = (\<lambda>w. (f (rd (io_reads w)), w\<lparr>io_reads := io_reads w + 1\<rparr>))"

lemma abind_cong [fundef_cong]:
  "m = m' \<Longrightarrow> (\<And>x. f x = g x) \<Longrightarrow> abind m f = abind m' g"
  by (simp add: abind_def cong: prod.case_cong sum.case_cong)

lemma lift_res_simps [simp]:
  "abind (areturn x) f = f x" "abind (afail e) f = afail e" "lift_res r w = (r, w)"
  by (simp_all add: abind_def lift_res_def)

lemma abind_eq_Inr_iff:
  "abind m f w = (Inr y, w'') \<longleftrightarrow> (\<exists>x w'. m w = (Inr x, w') \<and> f x w' = (Inr y, w''))"
  by (auto simp: abind_def split: prod.splits sum.splits)

lemma case_act_iff:
  "(case v of None \<Rightarrow> afail e | Some x \<Rightarrow> f x) w = (Inr y, w') \<longleftrightarrow> (\<exists>x. v = Some x \<and> f x w = (Inr y, w'))"
  "(case r of Inl e \<Rightarrow> afail (g e) | Inr x \<Rightarrow> h x) w = (Inr y, w') \<longleftrightarrow> (\<exists>x. r = Inr x \<and> h x w = (Inr y, w'))"
  by (auto split: option.splits sum.splits)

lemma abind_step:
  "m w = (Inr x, w') \<Longrightarrow> abind m f w = f x w'"
  by (simp add: abind_def)

section \<open>Partial correctness with a condition on failure\<close>

definition hoare :: "(io \<Rightarrow> bool) \<Rightarrow> 'a act \<Rightarrow> ('a \<Rightarrow> io \<Rightarrow> bool) \<Rightarrow> (io \<Rightarrow> bool) \<Rightarrow> bool" where
  "hoare P m Q E \<longleftrightarrow> (\<forall>w. P w \<longrightarrow> (case m w of (Inr x, w') \<Rightarrow> Q x w' | (Inl e, w') \<Rightarrow> E w'))"

lemma hoare_abind:
  assumes "hoare P m R E" and "\<And>x. hoare (R x) (f x) Q E"
  shows "hoare P (abind m f) Q E"
  using assms unfolding hoare_def abind_def by (fastforce split: prod.splits sum.splits)

lemma hoare_lift: "(\<And>x w. r = Inr x \<Longrightarrow> P w \<Longrightarrow> Q x w) \<Longrightarrow> (\<And>e w. r = Inl e \<Longrightarrow> P w \<Longrightarrow> E w) \<Longrightarrow> hoare P (lift_res r) Q E"
  by (cases r) (simp_all add: hoare_def)

lemma hoare_if: "(b \<Longrightarrow> hoare P m Q E) \<Longrightarrow> (\<not> b \<Longrightarrow> hoare P m' Q E) \<Longrightarrow> hoare P (if b then m else m') Q E"
  by simp

lemma hoare_pre: "hoare P m Q E \<Longrightarrow> (\<And>w. P' w \<Longrightarrow> P w) \<Longrightarrow> hoare P' m Q E"
  by (auto simp: hoare_def)

lemma hoare_post: "hoare P m Q E \<Longrightarrow> (\<And>x w. Q x w \<Longrightarrow> Q' x w) \<Longrightarrow> hoare P m Q' E"
  unfolding hoare_def by (fastforce split: prod.splits sum.splits)

lemma hoareD: "hoare P m Q E \<Longrightarrow> P w \<Longrightarrow> m w = (Inr x, w') \<Longrightarrow> Q x w'"
  by (fastforce simp: hoare_def)

lemma hoareI: "(\<And>w x w'. P w \<Longrightarrow> m w = (Inr x, w') \<Longrightarrow> Q x w') \<Longrightarrow> hoare P m Q (\<lambda>_. True)"
  by (auto simp: hoare_def split: sum.splits prod.splits)

lemma hoare_bind_lift: "(\<And>x. r = Inr x \<Longrightarrow> hoare P (f x) Q (\<lambda>_. True)) \<Longrightarrow> hoare P (abind (lift_res r) f) Q (\<lambda>_. True)"
  by (cases r) (auto simp: hoare_def)

lemma hoare_bind_any: "(\<And>x. hoare (\<lambda>_. True) (f x) Q (\<lambda>_. True)) \<Longrightarrow> hoare P (abind m f) Q (\<lambda>_. True)"
  by (rule hoare_abind [where R = "\<lambda>_ _. True"]) (auto simp: hoare_def split: sum.splits)

lemma hoare_option:
  "(v = None \<Longrightarrow> hoare P m Q E) \<Longrightarrow> (\<And>x. v = Some x \<Longrightarrow> hoare P (f x) Q E) \<Longrightarrow> hoare P (case v of None \<Rightarrow> m | Some x \<Rightarrow> f x) Q E"
  by (cases v) simp_all

lemma hoare_prod: "(\<And>x y. v = (x, y) \<Longrightarrow> hoare P (f x y) Q E) \<Longrightarrow> hoare P (case v of (x, y) \<Rightarrow> f x y) Q E"
  by (cases v) simp

lemma hoare_triple: "hoare P (f x y z) Q E \<Longrightarrow> hoare P (case (x, y, z) of (x, y, z) \<Rightarrow> f x y z) Q E"
  by simp

section \<open>What a result satisfies, whatever happened before\<close>

definition yields :: "'a act \<Rightarrow> ('a \<Rightarrow> bool) \<Rightarrow> bool" where
  "yields m Q \<longleftrightarrow> (\<forall>w x w'. m w = (Inr x, w') \<longrightarrow> Q x)"

lemma yieldsD: "yields m Q \<Longrightarrow> m w = (Inr x, w') \<Longrightarrow> Q x"
  by (auto simp: yields_def)

lemma yields_lift: "(\<And>x. r = Inr x \<Longrightarrow> Q x) \<Longrightarrow> yields (lift_res r) Q"
  by (simp add: yields_def)

lemma yields_bind_lift: "(\<And>x. r = Inr x \<Longrightarrow> yields (f x) Q) \<Longrightarrow> yields (abind (lift_res r) f) Q"
  by (cases r) (auto simp: yields_def)

lemma yields_bind: "(\<And>x. yields (f x) Q) \<Longrightarrow> yields (abind m f) Q"
  by (auto simp: yields_def abind_eq_Inr_iff)

lemma yields_seq: "yields m P \<Longrightarrow> (\<And>x. P x \<Longrightarrow> yields (f x) Q) \<Longrightarrow> yields (abind m f) Q"
  unfolding yields_def abind_eq_Inr_iff by blast

lemma yields_if: "(b \<Longrightarrow> yields m Q) \<Longrightarrow> (\<not> b \<Longrightarrow> yields m' Q) \<Longrightarrow> yields (if b then m else m') Q"
  by simp

lemma yields_option:
  "(v = None \<Longrightarrow> yields m Q) \<Longrightarrow> (\<And>x. v = Some x \<Longrightarrow> yields (f x) Q) \<Longrightarrow> yields (case v of None \<Rightarrow> m | Some x \<Rightarrow> f x) Q"
  by (cases v) simp_all

lemma yields_prod: "(\<And>x y. v = (x, y) \<Longrightarrow> yields (f x y) Q) \<Longrightarrow> yields (case v of (x, y) \<Rightarrow> f x y) Q"
  by (cases v) simp

lemmas yields_steps = yields_option yields_if yields_prod yields_bind_lift yields_lift yields_bind

end
