(* ===== verification/IKE_Session_Payloads.thy ===== *)
theory IKE_Session_Payloads
  imports IKE_SA
begin

text \<open>
  \<^verbatim>\<open>engine/swu/ikev2/session_payloads.go\<close>, \<^verbatim>\<open>fragments.go\<close> and the payload codec of
  \<^verbatim>\<open>auth_payload.go\<close>: identities, configuration, traffic selectors, encrypted fragments and AUTH.
  Traffic selectors get a meaning, the set of packets they let through, and the check that the
  responder only narrowed the offered selectors is shown to be inclusion of these sets.
\<close>

section \<open>Identity\<close>

abbreviation IDIPv4Addr :: u8 where "IDIPv4Addr \<equiv> 1"
abbreviation IDFQDN :: u8 where "IDFQDN \<equiv> 2"
abbreviation IDRFC822Addr :: u8 where "IDRFC822Addr \<equiv> 3"
abbreviation IDIPv6Addr :: u8 where "IDIPv6Addr \<equiv> 5"
abbreviation IDKeyID :: u8 where "IDKeyID \<equiv> 11"

record Identity =
  id_Type :: u8
  id_Data :: bytes

definition Identity_MarshalBinary :: "Identity \<Rightarrow> bytes res" where
  "Identity_MarshalBinary i =
     (if id_Type i = 0 then Inl (Err ErrInvalidIdentity)
      else Inr ([id_Type i, 0, 0, 0] @ id_Data i))"

definition ParseIdentity :: "bytes \<Rightarrow> Identity res" where
  "ParseIdentity data =
     (if length data < 4 then Inl (Err ErrInvalidIdentity)
      else rbind (idx 0 data) (\<lambda>t.
        if t = 0 then Inl (Err ErrInvalidIdentity)
        else rbind (sub 4 (length data) data) (\<lambda>d. Inr \<lparr>id_Type = t, id_Data = d\<rparr>)))"

definition IdentityPayload :: "u8 \<Rightarrow> Identity \<Rightarrow> Payload res" where
  "IdentityPayload payloadType i =
     (if payloadType \<noteq> PayloadIDi \<and> payloadType \<noteq> PayloadIDr then Inl (Err ErrInvalidIdentity)
      else rbind (Identity_MarshalBinary i) (\<lambda>body. Inr (mkPayload payloadType body)))"

section \<open>Configuration\<close>

abbreviation CFGRequest :: u8 where "CFGRequest \<equiv> 1"
abbreviation CFGReply :: u8 where "CFGReply \<equiv> 2"
abbreviation CFGSet :: u8 where "CFGSet \<equiv> 3"
abbreviation CFGAck :: u8 where "CFGAck \<equiv> 4"

abbreviation ConfigInternalIPv4Address :: u16 where "ConfigInternalIPv4Address \<equiv> 1"
abbreviation ConfigInternalIPv4DNS :: u16 where "ConfigInternalIPv4DNS \<equiv> 3"
abbreviation ConfigInternalIPv6Address :: u16 where "ConfigInternalIPv6Address \<equiv> 8"
abbreviation ConfigInternalIPv6DNS :: u16 where "ConfigInternalIPv6DNS \<equiv> 10"
abbreviation ConfigPCSCFIPv4Address :: u16 where "ConfigPCSCFIPv4Address \<equiv> 20"
abbreviation ConfigPCSCFIPv6Address :: u16 where "ConfigPCSCFIPv6Address \<equiv> 21"

record ConfigurationAttribute =
  ca_Type :: u16
  ca_Value :: bytes

record Configuration =
  cfg_Type :: u8
  cfg_Attributes :: "ConfigurationAttribute list"

definition marshalConfigurationAttribute1 :: "ConfigurationAttribute \<Rightarrow> bytes res" where
  "marshalConfigurationAttribute1 attr =
     (if length (ca_Value attr) > 0xffff then Inl (Err ErrInvalidConfiguration)
      else Inr (PutUint16 (ca_Type attr) @ PutUint16 (go_uint16 (length (ca_Value attr))) @ ca_Value attr))"

definition Configuration_MarshalBinary :: "Configuration \<Rightarrow> bytes res" where
  "Configuration_MarshalBinary c =
     (if cfg_Type c = 0 then Inl (Err ErrInvalidConfiguration)
      else rbind (encode_all marshalConfigurationAttribute1 (cfg_Attributes c)) (\<lambda>bs.
        Inr ([cfg_Type c, 0, 0, 0] @ bs)))"

definition parseConfigurationAttribute1 :: "bytes \<Rightarrow> (ConfigurationAttribute \<times> bytes) res" where
  "parseConfigurationAttribute1 rest =
     (if length rest < 4 then Inl (Err ErrInvalidConfiguration)
      else rbind (u16_at 2 rest) (\<lambda>len16.
        let len = unat len16 in
        if length rest < 4 + len then Inl (Err ErrInvalidConfiguration)
        else
          rbind (u16_at 0 rest) (\<lambda>t.
          rbind (sub 4 (4 + len) rest) (\<lambda>v.
          rbind (sub (4 + len) (length rest) rest) (\<lambda>rest'.
            Inr (\<lparr>ca_Type = t, ca_Value = v\<rparr>, rest'))))))"

definition ParseConfiguration :: "bytes \<Rightarrow> Configuration res" where
  "ParseConfiguration data =
     (if length data < 4 then Inl (Err ErrInvalidConfiguration)
      else rbind (idx 0 data) (\<lambda>t.
        if t = 0 then Inl (Err ErrInvalidConfiguration)
        else
          rbind (sub 4 (length data) data) (\<lambda>rest.
          rbind (many parseConfigurationAttribute1 rest) (\<lambda>attrs.
            Inr \<lparr>cfg_Type = t, cfg_Attributes = attrs\<rparr>))))"

definition ConfigurationPayload :: "Configuration \<Rightarrow> Payload res" where
  "ConfigurationPayload c = rbind (Configuration_MarshalBinary c) (\<lambda>body. Inr (mkPayload PayloadCP body))"

definition SWuConfigurationRequest :: Configuration where
  "SWuConfigurationRequest = \<lparr>cfg_Type = CFGRequest, cfg_Attributes =
     [\<lparr>ca_Type = ConfigInternalIPv4Address, ca_Value = []\<rparr>,
      \<lparr>ca_Type = ConfigInternalIPv4DNS, ca_Value = []\<rparr>,
      \<lparr>ca_Type = ConfigInternalIPv6Address, ca_Value = []\<rparr>,
      \<lparr>ca_Type = ConfigInternalIPv6DNS, ca_Value = []\<rparr>,
      \<lparr>ca_Type = ConfigPCSCFIPv4Address, ca_Value = []\<rparr>,
      \<lparr>ca_Type = ConfigPCSCFIPv6Address, ca_Value = []\<rparr>]\<rparr>"

section \<open>Traffic selectors\<close>

abbreviation TSIPv4AddressRange :: u8 where "TSIPv4AddressRange \<equiv> 7"
abbreviation TSIPv6AddressRange :: u8 where "TSIPv6AddressRange \<equiv> 8"

text \<open>\<^verbatim>\<open>TrafficSelector\<close> and \<^verbatim>\<open>trafficSelectorRange\<close> have the same fields; the second holds
  normalised addresses.\<close>

record TrafficSelector =
  ts_Type :: u8
  ts_IPProtocol :: u8
  ts_StartPort :: u16
  ts_EndPort :: u16
  ts_StartAddr :: ip
  ts_EndAddr :: ip

type_synonym trafficSelectorRange = TrafficSelector

record TrafficSelectors =
  tss_Selectors :: "TrafficSelector list"

definition normalizeSelectorAddresses :: "u8 \<Rightarrow> ip \<Rightarrow> ip \<Rightarrow> (bytes \<times> bytes) res" where
  "normalizeSelectorAddresses selectorType start en =
     (if selectorType = TSIPv4AddressRange
      then (case (To4 start, To4 en) of
              (Some start4, Some end4) \<Rightarrow> Inr (start4, end4)
            | _ \<Rightarrow> Inl (Err ErrInvalidTrafficSelector))
      else if selectorType = TSIPv6AddressRange
      then (case (To16 start, To16 en) of
              (Some start16, Some end16) \<Rightarrow>
                if To4 start \<noteq> None \<or> To4 en \<noteq> None then Inl (Err ErrInvalidTrafficSelector)
                else Inr (start16, end16)
            | _ \<Rightarrow> Inl (Err ErrInvalidTrafficSelector))
      else Inl (Err ErrInvalidTrafficSelector))"

definition TrafficSelector_MarshalBinary :: "TrafficSelector \<Rightarrow> bytes res" where
  "TrafficSelector_MarshalBinary ts =
     rbind (normalizeSelectorAddresses (ts_Type ts) (ts_StartAddr ts) (ts_EndAddr ts)) (\<lambda>(start, en).
       let len = 8 + length start + length en in
       if len > 0xffff then Inl (Err ErrInvalidTrafficSelector)
       else Inr ([ts_Type ts, ts_IPProtocol ts] @ PutUint16 (go_uint16 len) @
                 PutUint16 (ts_StartPort ts) @ PutUint16 (ts_EndPort ts) @ start @ en))"

text \<open>\<^verbatim>\<open>parseTrafficSelector\<close> with the caller's \<^verbatim>\<open>rest = rest[length:]\<close>.\<close>

definition parseTrafficSelector :: "bytes \<Rightarrow> (TrafficSelector \<times> bytes) res" where
  "parseTrafficSelector data =
     (if length data < 8 then Inl (Err ErrInvalidTrafficSelector)
      else rbind (u16_at 2 data) (\<lambda>len16.
        let len = unat len16 in
        if len < 16 \<or> len > length data then Inl (Err ErrInvalidTrafficSelector)
        else rbind (idx 0 data) (\<lambda>t.
          if t \<noteq> TSIPv4AddressRange \<and> t \<noteq> TSIPv6AddressRange then Inl (Err ErrInvalidTrafficSelector)
          else
            let addrLen = (if t = TSIPv4AddressRange then 4 else 16) in
            if len \<noteq> 8 + addrLen * 2 then Inl (Err ErrInvalidTrafficSelector)
            else
              rbind (idx 1 data) (\<lambda>proto.
              rbind (u16_at 4 data) (\<lambda>sp.
              rbind (u16_at 6 data) (\<lambda>ep.
              rbind (sub 8 (8 + addrLen) data) (\<lambda>sa.
              rbind (sub (8 + addrLen) len data) (\<lambda>ea.
              rbind (sub len (length data) data) (\<lambda>rest.
                Inr (\<lparr>ts_Type = t, ts_IPProtocol = proto, ts_StartPort = sp, ts_EndPort = ep,
                      ts_StartAddr = sa, ts_EndAddr = ea\<rparr>, rest)))))))))) "

definition TrafficSelectors_MarshalBinary :: "TrafficSelectors \<Rightarrow> bytes res" where
  "TrafficSelectors_MarshalBinary ts =
     (if length (tss_Selectors ts) = 0 \<or> length (tss_Selectors ts) > 0xff
      then Inl (Err ErrInvalidTrafficSelector)
      else rbind (encode_all TrafficSelector_MarshalBinary (tss_Selectors ts)) (\<lambda>bs.
        Inr ([go_byte (length (tss_Selectors ts)), 0, 0, 0] @ bs)))"

definition ParseTrafficSelectors :: "bytes \<Rightarrow> TrafficSelectors res" where
  "ParseTrafficSelectors data =
     (if length data < 4 then Inl (Err ErrInvalidTrafficSelector)
      else
        rbind (idx 0 data) (\<lambda>cnt.
        rbind (sub 4 (length data) data) (\<lambda>rest.
        rbind (many parseTrafficSelector rest) (\<lambda>sels.
          if length sels \<noteq> unat cnt then Inl (Err ErrInvalidTrafficSelector)
          else Inr \<lparr>tss_Selectors = sels\<rparr>))))"

definition TrafficSelectorsPayload :: "u8 \<Rightarrow> TrafficSelectors \<Rightarrow> Payload res" where
  "TrafficSelectorsPayload payloadType ts =
     (if payloadType \<noteq> PayloadTSi \<and> payloadType \<noteq> PayloadTSr then Inl (Err ErrInvalidTrafficSelector)
      else rbind (TrafficSelectors_MarshalBinary ts) (\<lambda>body. Inr (mkPayload payloadType body)))"

text \<open>\<^verbatim>\<open>net.IPv4(a, b, c, d)\<close> is the sixteen-octet form.\<close>

definition IPv4AnyTrafficSelectors :: TrafficSelectors where
  "IPv4AnyTrafficSelectors = \<lparr>tss_Selectors =
     [\<lparr>ts_Type = TSIPv4AddressRange, ts_IPProtocol = 0, ts_StartPort = 0, ts_EndPort = 65535,
       ts_StartAddr = v4InV6Prefix @ [0, 0, 0, 0], ts_EndAddr = v4InV6Prefix @ [255, 255, 255, 255]\<rparr>]\<rparr>"

definition SWuAnyTrafficSelectors :: TrafficSelectors where
  "SWuAnyTrafficSelectors = \<lparr>tss_Selectors =
     tss_Selectors IPv4AnyTrafficSelectors @
     [\<lparr>ts_Type = TSIPv6AddressRange, ts_IPProtocol = 0, ts_StartPort = 0, ts_EndPort = 65535,
       ts_StartAddr = replicate 16 0, ts_EndAddr = replicate 16 255\<rparr>]\<rparr>"

definition trafficSelectorsOrIPv4Any :: "TrafficSelectors \<Rightarrow> TrafficSelectors" where
  "trafficSelectorsOrIPv4Any ts =
     (if length (tss_Selectors ts) = 0 then IPv4AnyTrafficSelectors else ts)"

definition normalizeTrafficSelectorRange :: "TrafficSelector \<Rightarrow> trafficSelectorRange res" where
  "normalizeTrafficSelectorRange selector =
     rbind (normalizeSelectorAddresses (ts_Type selector) (ts_StartAddr selector) (ts_EndAddr selector))
       (\<lambda>(start, en).
         if ts_StartPort selector > ts_EndPort selector then Inl (Err ErrInvalidTrafficSelector)
         else if \<not> bytes_le start en then Inl (Err ErrInvalidTrafficSelector)
         else Inr \<lparr>ts_Type = ts_Type selector, ts_IPProtocol = ts_IPProtocol selector,
                   ts_StartPort = ts_StartPort selector, ts_EndPort = ts_EndPort selector,
                   ts_StartAddr = start, ts_EndAddr = en\<rparr>)"

definition trafficSelectorCovers :: "trafficSelectorRange \<Rightarrow> trafficSelectorRange \<Rightarrow> bool" where
  "trafficSelectorCovers offered selected =
     (if ts_Type offered \<noteq> ts_Type selected then False
      else if ts_IPProtocol offered \<noteq> 0 \<and> ts_IPProtocol offered \<noteq> ts_IPProtocol selected then False
      else if ts_IPProtocol selected = 0 \<and> ts_IPProtocol offered \<noteq> 0 then False
      else if ts_StartPort offered > ts_StartPort selected \<or> ts_EndPort selected > ts_EndPort offered
      then False
      else bytes_le (ts_StartAddr offered) (ts_StartAddr selected) \<and>
           bytes_le (ts_EndAddr selected) (ts_EndAddr offered))"

definition trafficSelectorCoveredByAny :: "trafficSelectorRange list \<Rightarrow> trafficSelectorRange \<Rightarrow> bool" where
  "trafficSelectorCoveredByAny offered selected \<longleftrightarrow> list_ex (\<lambda>c. trafficSelectorCovers c selected) offered"

text \<open>The two loops of \<^verbatim>\<open>ValidateTrafficSelectorNarrowing\<close>.\<close>

fun normalizeRanges :: "TrafficSelector list \<Rightarrow> trafficSelectorRange list res" where
  "normalizeRanges [] = Inr []"
| "normalizeRanges (s # ss) =
     rbind (normalizeTrafficSelectorRange s) (\<lambda>n. rbind (normalizeRanges ss) (\<lambda>ns. Inr (n # ns)))"

fun checkNarrowing :: "trafficSelectorRange list \<Rightarrow> TrafficSelector list \<Rightarrow> unit res" where
  "checkNarrowing offeredRanges [] = Inr ()"
| "checkNarrowing offeredRanges (selector # rest) =
     rbind (normalizeTrafficSelectorRange selector) (\<lambda>normalized.
       if trafficSelectorCoveredByAny offeredRanges normalized then checkNarrowing offeredRanges rest
       else Inl (Err ErrInvalidTrafficSelector))"

definition ValidateTrafficSelectorNarrowing :: "TrafficSelectors \<Rightarrow> TrafficSelectors \<Rightarrow> unit res" where
  "ValidateTrafficSelectorNarrowing offered selected =
     (if length (tss_Selectors offered) = 0 then Inl (Err ErrInvalidTrafficSelector)
      else if length (tss_Selectors selected) = 0 then Inl (Err ErrInvalidTrafficSelector)
      else rbind (normalizeRanges (tss_Selectors offered)) (\<lambda>offeredRanges.
        checkNarrowing offeredRanges (tss_Selectors selected)))"

section \<open>Encrypted fragments\<close>

abbreviation encryptedFragmentBodyHeaderLength :: nat where "encryptedFragmentBodyHeaderLength \<equiv> 4"

record EncryptedFragment =
  ef_FragmentNumber :: u16
  ef_TotalFragments :: u16
  ef_EncryptedData :: bytes

definition EncryptedFragment_MarshalBinary :: "EncryptedFragment \<Rightarrow> bytes res" where
  "EncryptedFragment_MarshalBinary f =
     (if ef_FragmentNumber f = 0 then Inl (Err ErrInvalidEncryptedFragment)
      else if ef_TotalFragments f = 0 then Inl (Err ErrInvalidEncryptedFragment)
      else if ef_FragmentNumber f > ef_TotalFragments f then Inl (Err ErrInvalidEncryptedFragment)
      else if length (ef_EncryptedData f) = 0 then Inl (Err ErrInvalidEncryptedFragment)
      else if encryptedFragmentBodyHeaderLength + length (ef_EncryptedData f) + 4 > 0xffff
      then Inl (Wrap ErrInvalidEncryptedFragment (Err ErrInvalidLength))
      else Inr (PutUint16 (ef_FragmentNumber f) @ PutUint16 (ef_TotalFragments f) @ ef_EncryptedData f))"

definition ParseEncryptedFragment :: "bytes \<Rightarrow> EncryptedFragment res" where
  "ParseEncryptedFragment data =
     (if length data \<le> encryptedFragmentBodyHeaderLength then Inl (Err ErrInvalidEncryptedFragment)
      else
        rbind (u16_at 0 data) (\<lambda>fragmentNumber.
        rbind (u16_at 2 data) (\<lambda>totalFragments.
          if fragmentNumber = 0 then Inl (Err ErrInvalidEncryptedFragment)
          else if totalFragments = 0 then Inl (Err ErrInvalidEncryptedFragment)
          else if fragmentNumber > totalFragments then Inl (Err ErrInvalidEncryptedFragment)
          else rbind (sub encryptedFragmentBodyHeaderLength (length data) data) (\<lambda>d.
            Inr \<lparr>ef_FragmentNumber = fragmentNumber, ef_TotalFragments = totalFragments,
                 ef_EncryptedData = d\<rparr>))))"

definition EncryptedFragmentPayload :: "u8 \<Rightarrow> EncryptedFragment \<Rightarrow> Payload res" where
  "EncryptedFragmentPayload nextPayload fragment =
     rbind (EncryptedFragment_MarshalBinary fragment) (\<lambda>body.
       Inr \<lparr>pl_Type = PayloadSKF, pl_NextPayload = nextPayload, pl_Critical = False, pl_Body = body\<rparr>)"

section \<open>AUTH\<close>

abbreviation AuthMethodSharedKeyMIC :: u8 where "AuthMethodSharedKeyMIC \<equiv> 2"

record Authentication =
  auth_Method :: u8
  auth_Data :: bytes

definition AuthenticationPayload :: "u8 \<Rightarrow> bytes \<Rightarrow> Payload res" where
  "AuthenticationPayload method data =
     (if method = 0 \<or> length data = 0 then Inl (Err ErrInvalidAuthenticationPayload)
      else Inr (mkPayload PayloadAUTH ([method, 0, 0, 0] @ data)))"

definition ParseAuthentication :: "bytes \<Rightarrow> Authentication res" where
  "ParseAuthentication data =
     (if length data < 5 then Inl (Err ErrInvalidAuthenticationPayload)
      else rbind (idx 0 data) (\<lambda>m.
        if m = 0 then Inl (Err ErrInvalidAuthenticationPayload)
        else rbind (sub 4 (length data) data) (\<lambda>d. Inr \<lparr>auth_Method = m, auth_Data = d\<rparr>)))"

section \<open>Properties\<close>

subsection \<open>Identity, AUTH and fragments\<close>

lemma ParseIdentity_Cons [codec_simps]:
  "ParseIdentity (a # b # c # d # ys) =
     (if a = 0 then Inl (Err ErrInvalidIdentity) else Inr \<lparr>id_Type = a, id_Data = ys\<rparr>)"
  by (simp add: ParseIdentity_def)

lemma ParseIdentity_short: "length d < 4 \<Longrightarrow> ParseIdentity d = Inl (Err ErrInvalidIdentity)"
  by (simp add: ParseIdentity_def)

interpretation identity: lenient_codec Identity_MarshalBinary ParseIdentity "\<lambda>i. id_Type i \<noteq> 0"
proof unfold_locales
  fix i :: Identity and b
  show "id_Type i \<noteq> 0" if "ParseIdentity b = Inr i"
    using that by (cases "length b < 4")
      (auto simp: ParseIdentity_short ParseIdentity_Cons elim!: length4_cases split: if_splits)
qed (auto simp: Identity_MarshalBinary_def ParseIdentity_Cons)

lemma ParseAuthentication_Cons [codec_simps]:
  "ParseAuthentication (a # b # c # d # ys) =
     (if ys = [] \<or> a = 0 then Inl (Err ErrInvalidAuthenticationPayload)
      else Inr \<lparr>auth_Method = a, auth_Data = ys\<rparr>)"
  by (cases ys) (auto simp: ParseAuthentication_def)

lemma ParseAuthentication_short:
  "length d < 4 \<Longrightarrow> ParseAuthentication d = Inl (Err ErrInvalidAuthenticationPayload)"
  by (simp add: ParseAuthentication_def)

interpretation auth_payload: lenient_codec
  "\<lambda>a. rbind (AuthenticationPayload (auth_Method a) (auth_Data a)) (\<lambda>p. Inr (pl_Body p))"
  ParseAuthentication "\<lambda>a. auth_Method a \<noteq> 0 \<and> auth_Data a \<noteq> []"
proof unfold_locales
  fix a :: Authentication and b
  show "auth_Method a \<noteq> 0 \<and> auth_Data a \<noteq> []" if "ParseAuthentication b = Inr a"
    using that by (cases "length b < 4")
      (auto simp: ParseAuthentication_short ParseAuthentication_Cons elim!: length4_cases split: if_splits)
qed (auto simp: AuthenticationPayload_def ParseAuthentication_Cons)

definition fragment_wf :: "EncryptedFragment \<Rightarrow> bool" where
  "fragment_wf f \<longleftrightarrow> 0 < ef_FragmentNumber f \<and> ef_FragmentNumber f \<le> ef_TotalFragments f \<and>
     ef_EncryptedData f \<noteq> [] \<and> length (ef_EncryptedData f) \<le> 65527"

interpretation fragment: codec EncryptedFragment_MarshalBinary ParseEncryptedFragment fragment_wf
proof unfold_locales
  fix f :: EncryptedFragment and b
  assume wf: "fragment_wf f"
  have enc: "EncryptedFragment_MarshalBinary f =
      Inr (PutUint16 (ef_FragmentNumber f) @ PutUint16 (ef_TotalFragments f) @ ef_EncryptedData f)"
    using wf by (auto simp: EncryptedFragment_MarshalBinary_def fragment_wf_def not_less)
  then show "\<exists>b. EncryptedFragment_MarshalBinary f = Inr b" by blast
  show "ParseEncryptedFragment b = Inr f" if "EncryptedFragment_MarshalBinary f = Inr b"
    using that wf enc
    by (auto simp: ParseEncryptedFragment_def fragment_wf_def PutUint16_def not_less Suc_le_eq)
qed

text \<open>an encrypted fragment is numbered from one up to the total, is not empty and fits a
  payload exactly when it can be encoded; what is encoded is decoded to the same fragment.\<close>

theorem fragment_encodable_iff_valid:
  "(\<exists>b. EncryptedFragment_MarshalBinary f = Inr b \<and> ParseEncryptedFragment b = Inr f) \<longleftrightarrow>
     0 < ef_FragmentNumber f \<and> ef_FragmentNumber f \<le> ef_TotalFragments f \<and>
     ef_EncryptedData f \<noteq> [] \<and> length (ef_EncryptedData f) \<le> 65527"
proof
  assume "\<exists>b. EncryptedFragment_MarshalBinary f = Inr b \<and> ParseEncryptedFragment b = Inr f"
  then show "0 < ef_FragmentNumber f \<and> ef_FragmentNumber f \<le> ef_TotalFragments f \<and>
     ef_EncryptedData f \<noteq> [] \<and> length (ef_EncryptedData f) \<le> 65527"
    by (auto simp: EncryptedFragment_MarshalBinary_def word_gt_0 not_less split: if_splits)
next
  assume "0 < ef_FragmentNumber f \<and> ef_FragmentNumber f \<le> ef_TotalFragments f \<and>
     ef_EncryptedData f \<noteq> [] \<and> length (ef_EncryptedData f) \<le> 65527"
  then have "fragment_wf f" by (simp add: fragment_wf_def)
  then show "\<exists>b. EncryptedFragment_MarshalBinary f = Inr b \<and> ParseEncryptedFragment b = Inr f"
    using fragment.enc_total fragment.dec_enc by blast
qed

subsection \<open>Configuration\<close>

definition cfg_attr_wf :: "ConfigurationAttribute \<Rightarrow> bool" where
  "cfg_attr_wf a \<longleftrightarrow> length (ca_Value a) \<le> 0xffff"

definition cfg_attr_enc :: "ConfigurationAttribute \<Rightarrow> bytes" where
  "cfg_attr_enc a = PutUint16 (ca_Type a) @ PutUint16 (go_uint16 (length (ca_Value a))) @ ca_Value a"

lemma parseConfigurationAttribute1_Cons [codec_simps]:
  "parseConfigurationAttribute1 (a # b # c # d # ys) =
     (if length ys < unat (u16_of c d) then Inl (Err ErrInvalidConfiguration)
      else Inr (\<lparr>ca_Type = u16_of a b, ca_Value = take (unat (u16_of c d)) ys\<rparr>,
                drop (unat (u16_of c d)) ys))"
  by (auto simp: parseConfigurationAttribute1_def Let_def)

lemma parseConfigurationAttribute1_short:
  "length d < 4 \<Longrightarrow> parseConfigurationAttribute1 d = Inl (Err ErrInvalidConfiguration)"
  by (simp add: parseConfigurationAttribute1_def)

interpretation cfg_attr: exact_stream_item cfg_attr_enc parseConfigurationAttribute1 cfg_attr_wf
proof unfold_locales
  fix a :: ConfigurationAttribute and d rest
  show "parseConfigurationAttribute1 (cfg_attr_enc a @ rest) = Inr (a, rest)" if "cfg_attr_wf a"
    using that by (simp add: cfg_attr_enc_def PutUint16_def parseConfigurationAttribute1_Cons cfg_attr_wf_def)
  show "cfg_attr_enc a \<noteq> []" by (simp add: cfg_attr_enc_def PutUint16_def)
  show "length rest < length d" if "parseConfigurationAttribute1 d = Inr (a, rest)"
    using that by (cases "length d < 4")
      (auto simp: parseConfigurationAttribute1_short parseConfigurationAttribute1_Cons
        elim!: length4_cases split: if_splits)
  show "safe (parseConfigurationAttribute1 d)"
    by (cases "length d < 4")
      (auto simp: parseConfigurationAttribute1_short parseConfigurationAttribute1_Cons elim!: length4_cases)
  show "cfg_attr_wf a \<and> d = cfg_attr_enc a @ rest" if a: "parseConfigurationAttribute1 d = Inr (a, rest)"
  proof -
    have "\<not> length d < 4" using a by (auto simp: parseConfigurationAttribute1_short)
    then obtain x y z w ys where "d = x # y # z # w # ys" by (rule length4_cases)
    with a unat_u16_less [of "u16_of z w"] show ?thesis
      by (auto simp: parseConfigurationAttribute1_Cons cfg_attr_wf_def cfg_attr_enc_def split: if_splits)
  qed
qed

definition cfg_wf :: "Configuration \<Rightarrow> bool" where
  "cfg_wf c \<longleftrightarrow> cfg_Type c \<noteq> 0 \<and> list_all cfg_attr_wf (cfg_Attributes c)"

lemma ParseConfiguration_Cons [codec_simps]:
  "ParseConfiguration (a # b # c # d # ys) =
     (if a = 0 then Inl (Err ErrInvalidConfiguration)
      else rbind (many parseConfigurationAttribute1 ys) (\<lambda>attrs. Inr \<lparr>cfg_Type = a, cfg_Attributes = attrs\<rparr>))"
  by (simp add: ParseConfiguration_def)

lemma ParseConfiguration_short: "length d < 4 \<Longrightarrow> ParseConfiguration d = Inl (Err ErrInvalidConfiguration)"
  by (simp add: ParseConfiguration_def)

lemma Configuration_MarshalBinary_wf:
  "cfg_wf c \<Longrightarrow>
   Configuration_MarshalBinary c = Inr ([cfg_Type c, 0, 0, 0] @ concat (map cfg_attr_enc (cfg_Attributes c)))"
  by (subst Configuration_MarshalBinary_def, subst encode_all_concat [where g = cfg_attr_enc])
    (auto simp: cfg_wf_def cfg_attr_wf_def list_all_iff marshalConfigurationAttribute1_def cfg_attr_enc_def)

interpretation configuration: lenient_codec Configuration_MarshalBinary ParseConfiguration cfg_wf
proof unfold_locales
  fix c :: Configuration and b
  show "\<exists>b. Configuration_MarshalBinary c = Inr b" if "cfg_wf c"
    using that by (simp add: Configuration_MarshalBinary_wf)
  show "ParseConfiguration b = Inr c" if wf: "cfg_wf c" and "Configuration_MarshalBinary c = Inr b"
    using that cfg_attr.many_enc [of "cfg_Attributes c"]
    by (auto simp: Configuration_MarshalBinary_wf ParseConfiguration_Cons cfg_wf_def)
  show "cfg_wf c" if "ParseConfiguration b = Inr c"
    using that by (cases "length b < 4")
      (auto simp: ParseConfiguration_short ParseConfiguration_Cons cfg_attr.many_iff rbind_eq_Inr_iff
        cfg_wf_def elim!: length4_cases split: if_splits)
qed

text \<open>the configuration the responder assigned (addresses, DNS servers, P-CSCF servers) is read
  without loss or invention: a body decodes exactly when its type is set and the rest, after three
  reserved octets, is the concatenation of the encodings of the attributes returned.\<close>

theorem ParseConfiguration_exact:
  "ParseConfiguration b = Inr c \<longleftrightarrow>
     (\<exists>r1 r2 r3. b = [cfg_Type c, r1, r2, r3] @ concat (map cfg_attr_enc (cfg_Attributes c))) \<and>
     cfg_Type c \<noteq> 0 \<and> list_all cfg_attr_wf (cfg_Attributes c)" (is "?l \<longleftrightarrow> ?r")
proof
  assume ?l
  then show ?r
    by (cases "length b < 4")
      (auto simp: ParseConfiguration_short ParseConfiguration_Cons cfg_attr.many_iff rbind_eq_Inr_iff
        elim!: length4_cases split: if_splits)
next
  assume ?r
  then show ?l
    using cfg_attr.many_enc [of "cfg_Attributes c"] by (auto simp: ParseConfiguration_Cons)
qed

subsection \<open>Traffic selectors on the wire\<close>

definition selector_wf :: "TrafficSelector \<Rightarrow> bool" where
  "selector_wf s \<longleftrightarrow>
     ts_Type s = TSIPv4AddressRange \<and> length (ts_StartAddr s) = 4 \<and> length (ts_EndAddr s) = 4 \<or>
     ts_Type s = TSIPv6AddressRange \<and> length (ts_StartAddr s) = 16 \<and> length (ts_EndAddr s) = 16"

definition selector_enc :: "TrafficSelector \<Rightarrow> bytes" where
  "selector_enc s =
     [ts_Type s, ts_IPProtocol s] @
     PutUint16 (go_uint16 (8 + length (ts_StartAddr s) + length (ts_EndAddr s))) @
     PutUint16 (ts_StartPort s) @ PutUint16 (ts_EndPort s) @ ts_StartAddr s @ ts_EndAddr s"

lemma parseTrafficSelector_Cons [codec_simps]:
  "parseTrafficSelector (a # b # c # d # e # f # g # h # ys) =
     (let len = unat (u16_of c d); k = (if a = TSIPv4AddressRange then 4 else 16) in
      if a \<noteq> TSIPv4AddressRange \<and> a \<noteq> TSIPv6AddressRange \<or> len \<noteq> 8 + 2 * k \<or> length ys < 2 * k
      then Inl (Err ErrInvalidTrafficSelector)
      else Inr (\<lparr>ts_Type = a, ts_IPProtocol = b, ts_StartPort = u16_of e f, ts_EndPort = u16_of g h,
                 ts_StartAddr = take k ys, ts_EndAddr = take k (drop k ys)\<rparr>, drop (2 * k) ys))"
  by (auto simp: parseTrafficSelector_def Let_def simp del: drop_Cons4)

lemma parseTrafficSelector_ConsE:
  assumes "parseTrafficSelector (a # b # c # d # e # f # g # h # ys) = Inr (s, rest)"
  obtains k where "a = TSIPv4AddressRange \<and> k = 4 \<or> a = TSIPv6AddressRange \<and> k = 16"
    "unat (u16_of c d) = 8 + 2 * k" "2 * k \<le> length ys"
    "s = \<lparr>ts_Type = a, ts_IPProtocol = b, ts_StartPort = u16_of e f, ts_EndPort = u16_of g h,
      ts_StartAddr = take k ys, ts_EndAddr = take k (drop k ys)\<rparr>" "rest = drop (2 * k) ys"
proof (rule that [of "if a = TSIPv4AddressRange then 4 else 16"])
qed (use assms in \<open>simp_all add: parseTrafficSelector_Cons Let_def split: if_splits\<close>)

lemma parseTrafficSelector_short:
  "length d < 8 \<Longrightarrow> parseTrafficSelector d = Inl (Err ErrInvalidTrafficSelector)"
  by (simp add: parseTrafficSelector_def)

lemma take_take_drop: "take k ys @ take k (drop k ys) @ drop (2 * k) ys = ys"
  by (metis append.assoc append_take_drop_id mult_2 take_add)

interpretation selector: exact_stream_item selector_enc parseTrafficSelector selector_wf
proof unfold_locales
  fix s :: TrafficSelector and d rest
  show "parseTrafficSelector (selector_enc s @ rest) = Inr (s, rest)" if "selector_wf s"
    using that by (auto simp: selector_wf_def selector_enc_def PutUint16_def parseTrafficSelector_Cons)
  show "selector_enc s \<noteq> []" by (simp add: selector_enc_def)
  show "length rest < length d" if "parseTrafficSelector d = Inr (s, rest)"
    using that by (cases "length d < 8")
      (auto simp: parseTrafficSelector_short parseTrafficSelector_Cons Let_def
        elim!: length8_cases split: if_splits)
  show "safe (parseTrafficSelector d)"
    by (cases "length d < 8")
      (auto simp: parseTrafficSelector_short parseTrafficSelector_Cons Let_def elim!: length8_cases)
  show "selector_wf s \<and> d = selector_enc s @ rest" if s: "parseTrafficSelector d = Inr (s, rest)"
  proof -
    have "\<not> length d < 8" using s by (auto simp: parseTrafficSelector_short)
    then obtain a b c e f g h i ys where d: "d = a # b # c # e # f # g # h # i # ys" by (rule length8_cases)
    from s [unfolded d] obtain k where
      k: "a = TSIPv4AddressRange \<and> k = 4 \<or> a = TSIPv6AddressRange \<and> k = 16"
      "unat (u16_of c e) = 8 + 2 * k" "2 * k \<le> length ys"
      and s': "s = \<lparr>ts_Type = a, ts_IPProtocol = b, ts_StartPort = u16_of f g, ts_EndPort = u16_of h i,
        ts_StartAddr = take k ys, ts_EndAddr = take k (drop k ys)\<rparr>" "rest = drop (2 * k) ys"
      by (rule parseTrafficSelector_ConsE)
    have "8 + k + k = unat (u16_of c e)" using k(2) by simp
    then have "go_uint16 (8 + k + k) = u16_of c e" by simp
    moreover have "length (take k ys) = k" "length (take k (drop k ys)) = k" using k(3) by simp_all
    ultimately have "selector_enc s @ rest = a # b # c # e # f # g # h # i #
        take k ys @ take k (drop k ys) @ drop (2 * k) ys"
      unfolding s' selector_enc_def by (simp del: length_take)
    with k d show ?thesis by (auto simp: take_take_drop s' selector_wf_def)
  qed
qed

lemma replicate_16: "replicate 16 x = [x, x, x, x, x, x, x, x, x, x, x, x, x, x, x, x]"
  by (simp add: numeral_eq_Suc)

text \<open>The selector with its addresses in wire form.\<close>

definition canonical_selector :: "TrafficSelector \<Rightarrow> TrafficSelector" where
  "canonical_selector s =
     (case normalizeSelectorAddresses (ts_Type s) (ts_StartAddr s) (ts_EndAddr s) of
        Inl _ \<Rightarrow> s | Inr (start, en) \<Rightarrow> s\<lparr>ts_StartAddr := start, ts_EndAddr := en\<rparr>)"

lemma normalizeSelectorAddresses_length:
  "normalizeSelectorAddresses t a b = Inr (start, en) \<Longrightarrow>
   t = TSIPv4AddressRange \<and> length start = 4 \<and> length en = 4 \<or>
   t = TSIPv6AddressRange \<and> length start = 16 \<and> length en = 16"
  by (auto simp: normalizeSelectorAddresses_def dest: To4_length To16_length
      split: if_splits option.splits)

lemma TrafficSelector_MarshalBinary_canonical:
  assumes "TrafficSelector_MarshalBinary s = Inr b"
  shows "selector_wf (canonical_selector s) \<and> b = selector_enc (canonical_selector s)"
proof -
  obtain start en where n: "normalizeSelectorAddresses (ts_Type s) (ts_StartAddr s) (ts_EndAddr s) = Inr (start, en)"
    using assms by (auto simp: TrafficSelector_MarshalBinary_def rbind_eq_Inr_iff)
  with assms normalizeSelectorAddresses_length [OF n] show ?thesis
    by (auto simp: TrafficSelector_MarshalBinary_def canonical_selector_def selector_wf_def selector_enc_def)
qed

lemma encode_selectors:
  "encode_all TrafficSelector_MarshalBinary ss = Inr bs \<Longrightarrow>
   list_all selector_wf (map canonical_selector ss) \<and> bs = concat (map selector_enc (map canonical_selector ss))"
  by (induction ss arbitrary: bs)
    (auto simp: rbind_eq_Inr_iff dest: TrafficSelector_MarshalBinary_canonical)

lemma parse_marshal_ts:
  assumes "TrafficSelectors_MarshalBinary ts = Inr b"
  shows "ParseTrafficSelectors b = Inr \<lparr>tss_Selectors = map canonical_selector (tss_Selectors ts)\<rparr>"
proof -
  obtain bs where bs: "encode_all TrafficSelector_MarshalBinary (tss_Selectors ts) = Inr bs"
    and b: "b = [go_byte (length (tss_Selectors ts)), 0, 0, 0] @ bs"
    and len: "length (tss_Selectors ts) < 256"
    using assms by (auto simp: TrafficSelectors_MarshalBinary_def rbind_eq_Inr_iff split: if_splits)
  have "many parseTrafficSelector bs = Inr (map canonical_selector (tss_Selectors ts))"
    using encode_selectors [OF bs] by (simp add: selector.many_enc del: map_map)
  with b len show ?thesis by (simp add: ParseTrafficSelectors_def)
qed

text \<open>traffic selectors survive the wire: whatever list the encoder accepts is decoded to the
  same selectors with their addresses in wire form (four octets for IPv4, sixteen for IPv6).\<close>

theorem traffic_selectors_roundtrip:
  assumes "TrafficSelectors_MarshalBinary ts = Inr b"
  shows "ParseTrafficSelectors b = Inr \<lparr>tss_Selectors = map canonical_selector (tss_Selectors ts)\<rparr>"
  by (rule parse_marshal_ts [OF assms])

theorem traffic_selectors_roundtrip_witness:
  "\<exists>b s4 s6. TrafficSelectors_MarshalBinary SWuAnyTrafficSelectors = Inr b \<and>
     ParseTrafficSelectors b = Inr \<lparr>tss_Selectors = [s4, s6]\<rparr> \<and>
     ts_StartAddr s4 = [0, 0, 0, 0] \<and> ts_EndAddr s4 = [255, 255, 255, 255] \<and> length (ts_EndAddr s6) = 16"
proof -
  let ?ts = SWuAnyTrafficSelectors
  obtain b where b: "TrafficSelectors_MarshalBinary ?ts = Inr b"
    by (simp add: TrafficSelectors_MarshalBinary_def SWuAnyTrafficSelectors_def IPv4AnyTrafficSelectors_def
        TrafficSelector_MarshalBinary_def normalizeSelectorAddresses_def To4_def To16_def v4InV6Prefix_def
        replicate_16)
  from traffic_selectors_roundtrip [OF b] b show ?thesis
    by (simp add: SWuAnyTrafficSelectors_def IPv4AnyTrafficSelectors_def canonical_selector_def
        normalizeSelectorAddresses_def To4_def To16_def v4InV6Prefix_def replicate_16)
qed

subsection \<open>What selectors let through\<close>

text \<open>
  A packet as a selector sees it: address family (as a selector type), protocol, port and address.
  Protocol zero in a selector stands for every protocol.
\<close>

record flow =
  fl_Type :: u8
  fl_IPProtocol :: u8
  fl_Port :: u16
  fl_Addr :: bytes

definition lets_through :: "trafficSelectorRange \<Rightarrow> flow \<Rightarrow> bool" where
  "lets_through s f \<longleftrightarrow>
     ts_Type s = fl_Type f \<and> (ts_IPProtocol s = 0 \<or> ts_IPProtocol s = fl_IPProtocol f) \<and>
     ts_StartPort s \<le> fl_Port f \<and> fl_Port f \<le> ts_EndPort s \<and>
     bytes_le (ts_StartAddr s) (fl_Addr f) \<and> bytes_le (fl_Addr f) (ts_EndAddr s)"

lemma covers_sound: "trafficSelectorCovers q s \<Longrightarrow> lets_through s f \<Longrightarrow> lets_through q f"
  by (auto simp: trafficSelectorCovers_def lets_through_def not_less
      intro: bytes_le_trans order_trans split: if_splits)

lemma covers_complete:
  assumes incl: "\<And>f. lets_through s f \<Longrightarrow> lets_through q f"
    and s: "ts_StartPort s \<le> ts_EndPort s" "bytes_le (ts_StartAddr s) (ts_EndAddr s)"
  shows "trafficSelectorCovers q s"
proof -
  let ?f = "\<lambda>p x a. \<lparr>fl_Type = ts_Type s, fl_IPProtocol = p, fl_Port = x, fl_Addr = a\<rparr>"
  have lo: "lets_through q (?f (ts_IPProtocol s) (ts_StartPort s) (ts_StartAddr s))"
    by (rule incl) (use s in \<open>simp add: lets_through_def\<close>)
  have hi: "lets_through q (?f (ts_IPProtocol s) (ts_EndPort s) (ts_EndAddr s))"
    by (rule incl) (use s in \<open>simp add: lets_through_def\<close>)
  have "ts_IPProtocol q = 0" if "ts_IPProtocol s = 0"
  proof (rule ccontr)
    assume "ts_IPProtocol q \<noteq> 0"
    moreover have "lets_through q (?f 0 (ts_StartPort s) (ts_StartAddr s))"
      by (rule incl) (use s that in \<open>simp add: lets_through_def\<close>)
    ultimately show False by (simp add: lets_through_def)
  qed
  with lo hi show ?thesis
    by (auto simp: trafficSelectorCovers_def lets_through_def not_less)
qed

text \<open>the field-by-field comparison of two selector ranges decides inclusion: one range covers a
  non-empty other exactly when it lets through every packet the other lets through.\<close>

theorem trafficSelectorCovers_iff_inclusion:
  assumes "ts_StartPort s \<le> ts_EndPort s" and "bytes_le (ts_StartAddr s) (ts_EndAddr s)"
  shows "trafficSelectorCovers q s \<longleftrightarrow> (\<forall>f. lets_through s f \<longrightarrow> lets_through q f)"
  using covers_sound covers_complete [OF _ assms] by blast

theorem trafficSelectorCovers_iff_inclusion_witness:
  "let s = \<lparr>ts_Type = 7, ts_IPProtocol = 17, ts_StartPort = 5060, ts_EndPort = 5061,
            ts_StartAddr = [10, 0, 0, 1], ts_EndAddr = [10, 0, 0, 9]\<rparr>;
       q = s\<lparr>ts_IPProtocol := 0, ts_StartAddr := [10, 0, 0, 0]\<rparr>
   in \<forall>f. lets_through s f \<longrightarrow> lets_through q f"
  using trafficSelectorCovers_iff_inclusion [of
      "\<lparr>ts_Type = 7, ts_IPProtocol = 17, ts_StartPort = 5060, ts_EndPort = 5061,
        ts_StartAddr = [10, 0, 0, 1], ts_EndAddr = [10, 0, 0, 9]\<rparr>"
      "\<lparr>ts_Type = 7, ts_IPProtocol = 0, ts_StartPort = 5060, ts_EndPort = 5061,
        ts_StartAddr = [10, 0, 0, 0], ts_EndAddr = [10, 0, 0, 9]\<rparr>"]
  by (simp add: trafficSelectorCovers_def word_less_nat_alt)

lemma normalizeTrafficSelectorRange_canonical:
  "normalizeTrafficSelectorRange s = Inr n \<Longrightarrow> n = canonical_selector s"
  by (auto simp: normalizeTrafficSelectorRange_def canonical_selector_def rbind_eq_Inr_iff
      split: if_splits sum.splits)

lemma normalizeRanges_canonical: "normalizeRanges ss = Inr ns \<Longrightarrow> ns = map canonical_selector ss"
  by (induction ss arbitrary: ns)
    (auto simp: rbind_eq_Inr_iff dest: normalizeTrafficSelectorRange_canonical)

lemma checkNarrowing_covered:
  "checkNarrowing qs ss = Inr () \<Longrightarrow> s \<in> set ss \<Longrightarrow>
   \<exists>q \<in> set qs. trafficSelectorCovers q (canonical_selector s)"
  by (induction qs ss rule: checkNarrowing.induct)
    (auto simp: rbind_eq_Inr_iff trafficSelectorCoveredByAny_def list_ex_iff
      dest: normalizeTrafficSelectorRange_canonical split: if_splits)

lemma narrowing_sound:
  assumes "ValidateTrafficSelectorNarrowing offered selected = Inr ()"
    and "s \<in> set (tss_Selectors selected)" and "lets_through (canonical_selector s) f"
  shows "\<exists>q \<in> set (tss_Selectors offered). lets_through (canonical_selector q) f"
proof -
  obtain qs where qs: "normalizeRanges (tss_Selectors offered) = Inr qs"
    and "checkNarrowing qs (tss_Selectors selected) = Inr ()"
    using assms(1) by (auto simp: ValidateTrafficSelectorNarrowing_def rbind_eq_Inr_iff split: if_splits)
  with assms(2) obtain q where "q \<in> set qs" "trafficSelectorCovers q (canonical_selector s)"
    using checkNarrowing_covered by blast
  with normalizeRanges_canonical [OF qs] assms(3) show ?thesis by (auto dest: covers_sound)
qed

text \<open>the responder can only narrow.  When its selectors pass the check, every packet one of
  them lets through is let through by one of the selectors the client offered.\<close>

theorem ValidateTrafficSelectorNarrowing_only_narrows:
  assumes "ValidateTrafficSelectorNarrowing offered selected = Inr ()"
    and "s \<in> set (tss_Selectors selected)" and "lets_through (canonical_selector s) f"
  shows "\<exists>q \<in> set (tss_Selectors offered). lets_through (canonical_selector q) f"
  by (rule narrowing_sound [OF assms])

theorem ValidateTrafficSelectorNarrowing_only_narrows_witness:
  "\<exists>q \<in> set (tss_Selectors IPv4AnyTrafficSelectors). lets_through (canonical_selector q)
     \<lparr>fl_Type = 7, fl_IPProtocol = 6, fl_Port = 80, fl_Addr = [10, 0, 0, 1]\<rparr>"
proof -
  let ?s = "\<lparr>ts_Type = 7, ts_IPProtocol = 6, ts_StartPort = 80, ts_EndPort = 80,
    ts_StartAddr = [10, 0, 0, 1], ts_EndAddr = [10, 0, 0, 1]\<rparr>"
  have "ValidateTrafficSelectorNarrowing IPv4AnyTrafficSelectors \<lparr>tss_Selectors = [?s]\<rparr> = Inr ()"
    by (simp add: ValidateTrafficSelectorNarrowing_def IPv4AnyTrafficSelectors_def
        normalizeTrafficSelectorRange_def normalizeSelectorAddresses_def To4_def v4InV6Prefix_def
        trafficSelectorCoveredByAny_def trafficSelectorCovers_def word_less_nat_alt)
  then show ?thesis
    by (rule ValidateTrafficSelectorNarrowing_only_narrows [where s = ?s])
      (simp_all add: lets_through_def canonical_selector_def normalizeSelectorAddresses_def To4_def)
qed

end
