(* ===== verification/ESP.thy ===== *)
theory ESP
  imports IKE_SA Go_Crypto
begin

text \<open>
  \<^verbatim>\<open>engine/swu/esp/esp.go\<close>: one direction of an ESP security association.  \<^verbatim>\<open>Seal\<close> and
  \<^verbatim>\<open>Open\<close> update the SA in place; here they return the new SA next to the result, also when the
  result is an error.  The receiver is a non-nil pointer.  A block size is a natural number: \<^verbatim>\<open>NewSA\<close>
  refuses a negative one.  The replay window, a bitmap of the last 64 sequence numbers, is related to
  the set of all sequence numbers ever accepted.
\<close>

section \<open>Data\<close>

abbreviation NextHeaderIPv4 :: u8 where "NextHeaderIPv4 \<equiv> 4"
abbreviation NextHeaderIPv6 :: u8 where "NextHeaderIPv6 \<equiv> 41"
abbreviation IntegrityHMACSHA1_96 :: u16 where "IntegrityHMACSHA1_96 \<equiv> INTEG_HMAC_SHA1_96"
abbreviation IntegrityHMACSHA2_256_128 :: u16 where "IntegrityHMACSHA2_256_128 \<equiv> INTEG_HMAC_SHA2_256_128"
abbreviation EncryptionAESCBC :: u16 where "EncryptionAESCBC \<equiv> ENCR_AES_CBC"
abbreviation EncryptionAESGCM_16 :: u16 where "EncryptionAESGCM_16 \<equiv> ENCR_AES_GCM_16"
abbreviation aesGCMPaddingAlignment :: nat where "aesGCMPaddingAlignment \<equiv> 4"

record SA =
  esp_SPI :: u32
  esp_Encryption :: u16
  esp_EncryptionKey :: bytes
  esp_IntegrityKey :: bytes
  esp_Integrity :: u16
  esp_ICVLength :: int
  esp_BlockSize :: nat
  esp_Sequence :: u32
  esp_HighestSequence :: u32
  esp_ReplayWindowSize :: u32
  esp_ReplayBitmap :: u64

record SealOptions =
  so_Sequence :: u32
  so_IV :: bytes
  so_Random :: random

record OpenResult =
  or_SPI :: u32
  or_Sequence :: u32
  or_NextHeader :: u8
  or_Payload :: bytes

section \<open>Construction\<close>

definition encryptionAlgorithm :: "SA \<Rightarrow> u16" where
  "encryptionAlgorithm s = (if esp_Encryption s = 0 then EncryptionAESCBC else esp_Encryption s)"

definition validAESGCMKeyLength :: "nat \<Rightarrow> bool" where
  "validAESGCMKeyLength n \<longleftrightarrow> n = 16 + 4 \<or> n = 24 + 4 \<or> n = 32 + 4"

definition integrityICVLength :: "u16 \<Rightarrow> int" where
  "integrityICVLength integ =
     (if integ = IntegrityHMACSHA1_96 then 12
      else if integ = IntegrityHMACSHA2_256_128 then 16
      else 0)"

definition NewSA :: "SA \<Rightarrow> SA res" where
  "NewSA sa =
     (if esp_SPI sa = 0 then Inl (Err Esp_ErrInvalidSA)
      else if encryptionAlgorithm sa = EncryptionAESCBC
      then (if length (esp_EncryptionKey sa) \<noteq> 16 \<and> length (esp_EncryptionKey sa) \<noteq> 24 \<and>
              length (esp_EncryptionKey sa) \<noteq> 32
            then Inl (Err Esp_ErrInvalidSA)
            else if length (esp_IntegrityKey sa) = 0 then Inl (Err Esp_ErrInvalidSA)
            else
              let sa1 = (if esp_BlockSize sa = 0 then sa\<lparr>esp_BlockSize := 16\<rparr> else sa) in
              if esp_BlockSize sa1 \<noteq> 16 then Inl (Err Esp_ErrInvalidSA)
              else
                let sa2 = (if esp_ICVLength sa1 = 0
                           then sa1\<lparr>esp_ICVLength := integrityICVLength (esp_Integrity sa1)\<rparr> else sa1) in
                if esp_ICVLength sa2 \<le> 0 then Inl (Err Esp_ErrInvalidSA) else Inr sa2)
      else if encryptionAlgorithm sa = EncryptionAESGCM_16
      then (if \<not> validAESGCMKeyLength (length (esp_EncryptionKey sa)) then Inl (Err Esp_ErrInvalidSA)
            else
              let sa1 = (if esp_BlockSize sa = 0 then sa\<lparr>esp_BlockSize := aesGCMPaddingAlignment\<rparr> else sa) in
              if esp_BlockSize sa1 \<noteq> aesGCMPaddingAlignment then Inl (Err Esp_ErrInvalidSA)
              else
                let sa2 = (if esp_ICVLength sa1 = 0 then sa1\<lparr>esp_ICVLength := 16\<rparr> else sa1) in
                if esp_ICVLength sa2 \<noteq> 16 then Inl (Err Esp_ErrInvalidSA) else Inr sa2)
      else Inl (Err Esp_ErrInvalidSA))"

definition spiFromBytes :: "bytes \<Rightarrow> u32 res" where
  "spiFromBytes spi =
     (if length spi \<noteq> 4 then Inl (Err Esp_ErrInvalidSA)
      else rbind (u32_at 0 spi) (\<lambda>v. if v = 0 then Inl (Err Esp_ErrInvalidSA) else Inr v))"

section \<open>Plaintext and primitives\<close>

definition espPlaintext :: "bytes \<Rightarrow> u8 \<Rightarrow> nat \<Rightarrow> bytes res" where
  "espPlaintext payload nextHeader blockSize =
     (if blockSize = 0 then Inl Panic
      else
        let padLen = (blockSize - ((length payload + 2) mod blockSize)) mod blockSize
        in Inr (payload @ map go_byte [1..<padLen + 1] @ [go_byte padLen, nextHeader]))"

text \<open>The padding loop of \<^verbatim>\<open>parseESPPlaintext\<close>: octet \<open>i\<close> of the padding must be \<open>i + 1\<close>.\<close>

definition parseESPPlaintext :: "bytes \<Rightarrow> (bytes \<times> u8) res" where
  "parseESPPlaintext plain =
     (if length plain < 2 then Inl (Err Esp_ErrInvalidPacket)
      else
        rbind (idx (length plain - 2) plain) (\<lambda>b.
        rbind (idx (length plain - 1) plain) (\<lambda>nextHeader.
        let padLen = unat b in
        if padLen + 2 > length plain then Inl (Err Esp_ErrInvalidPacket)
        else
          let paddingStart = length plain - 2 - padLen in
          if list_ex (\<lambda>i. plain ! (paddingStart + i) \<noteq> go_byte (i + 1)) [0..<padLen]
          then Inl (Err Esp_ErrInvalidPacket)
          else rbind (sub 0 paddingStart plain) (\<lambda>payload. Inr (payload, nextHeader)))))"

definition aesCBCEncrypt :: "crypto \<Rightarrow> bytes \<Rightarrow> bytes \<Rightarrow> bytes \<Rightarrow> bytes res" where
  "aesCBCEncrypt c key iv plain =
     rbind (aes_NewCipher key) (\<lambda>_.
       if length iv \<noteq> 16 \<or> length plain mod 16 \<noteq> 0 then Inl (Err Esp_ErrInvalidPacket)
       else Inr (cbc_encrypt c key iv plain))"

definition aesCBCDecrypt :: "crypto \<Rightarrow> bytes \<Rightarrow> bytes \<Rightarrow> bytes \<Rightarrow> bytes res" where
  "aesCBCDecrypt c key iv ciphertext =
     rbind (aes_NewCipher key) (\<lambda>_.
       if length iv \<noteq> 16 \<or> length ciphertext mod 16 \<noteq> 0 then Inl (Err Esp_ErrInvalidPacket)
       else Inr (cbc_decrypt c key iv ciphertext))"

definition SA_integrity :: "crypto \<Rightarrow> SA \<Rightarrow> bytes \<Rightarrow> bytes res" where
  "SA_integrity c s data =
     rbind (if esp_Integrity s = IntegrityHMACSHA1_96 then Inr SHA1
            else if esp_Integrity s = IntegrityHMACSHA2_256_128 then Inr SHA256
            else Inl (Err Esp_ErrInvalidSA)) (\<lambda>h.
       let su = cr_hmac c h (esp_IntegrityKey s) data in
       if esp_ICVLength s > int (length su) then Inl (Err Esp_ErrInvalidSA)
       else subi 0 (esp_ICVLength s) su)"

definition SA_aesGCMAEAD :: "SA \<Rightarrow> (bytes \<times> bytes) res" where
  "SA_aesGCMAEAD s =
     (let keyLen = int (length (esp_EncryptionKey s)) - 4 in
      rbind (subi 0 keyLen (esp_EncryptionKey s)) (\<lambda>key.
      rbind (aes_NewCipher key) (\<lambda>_.
        if \<not> gcm_tag_ok (esp_ICVLength s) then Inl (Fmt ''cipher: incorrect tag size given to GCM'')
        else rbind (subi keyLen (int (length (esp_EncryptionKey s))) (esp_EncryptionKey s)) (\<lambda>salt.
          Inr (key, salt)))))"

definition aesGCMNonce :: "bytes \<Rightarrow> bytes \<Rightarrow> bytes" where
  "aesGCMNonce salt iv = salt @ iv"

section \<open>Sealing\<close>

definition sealAESCBC :: "crypto \<Rightarrow> SA \<Rightarrow> u8 \<Rightarrow> bytes \<Rightarrow> u32 \<Rightarrow> SealOptions \<Rightarrow> bytes res" where
  "sealAESCBC c s nextHeader payload seq opts =
     rbind (if length (so_IV opts) = 0 then so_Random opts (esp_BlockSize s) else Inr (so_IV opts)) (\<lambda>iv.
       if length iv \<noteq> esp_BlockSize s then Inl (Err Esp_ErrInvalidPacket)
       else
         rbind (espPlaintext payload nextHeader (esp_BlockSize s)) (\<lambda>plain.
         rbind (aesCBCEncrypt c (esp_EncryptionKey s) iv plain) (\<lambda>ciphertext.
         let packet = PutUint32 (esp_SPI s) @ PutUint32 seq @ iv @ ciphertext in
         rbind (SA_integrity c s packet) (\<lambda>icv. Inr (packet @ icv)))))"

definition sealAESGCM :: "crypto \<Rightarrow> SA \<Rightarrow> u8 \<Rightarrow> bytes \<Rightarrow> u32 \<Rightarrow> SealOptions \<Rightarrow> bytes res" where
  "sealAESGCM c s nextHeader payload seq opts =
     (let iv = (if length (so_IV opts) = 0 then PutUint64 (ucast seq) else so_IV opts) in
      if length iv \<noteq> 8 then Inl (Err Esp_ErrInvalidPacket)
      else
        rbind (SA_aesGCMAEAD s) (\<lambda>(key, salt).
        rbind (espPlaintext payload nextHeader (esp_BlockSize s)) (\<lambda>plain.
        let hdr = PutUint32 (esp_SPI s) @ PutUint32 seq in
        rbind (gcm_Seal c key (nat (esp_ICVLength s)) (aesGCMNonce salt iv) plain hdr) (\<lambda>sealed.
          Inr (hdr @ iv @ sealed)))))"

definition SA_Seal :: "crypto \<Rightarrow> SA \<Rightarrow> u8 \<Rightarrow> bytes \<Rightarrow> SealOptions \<Rightarrow> bytes res \<times> SA" where
  "SA_Seal c s nextHeader payload opts =
     (if so_Sequence opts = 0 \<and> esp_Sequence s = - 1 then (Inl (Err Esp_ErrInvalidSA), s)
      else
        let seq = (if so_Sequence opts = 0 then esp_Sequence s + 1 else so_Sequence opts);
            s' = (if so_Sequence opts = 0 \<or> seq > esp_Sequence s then s\<lparr>esp_Sequence := seq\<rparr> else s)
        in (if encryptionAlgorithm s' = EncryptionAESCBC
            then sealAESCBC c s' nextHeader payload seq opts
            else if encryptionAlgorithm s' = EncryptionAESGCM_16
            then sealAESGCM c s' nextHeader payload seq opts
            else Inl (Err Esp_ErrInvalidSA), s'))"

section \<open>The replay window\<close>

definition checkReplay :: "SA \<Rightarrow> u32 \<Rightarrow> unit res" where
  "checkReplay s seq =
     (if esp_ReplayWindowSize s = 0 then Inr ()
      else
        let window = (if esp_ReplayWindowSize s > 64 then 64 else esp_ReplayWindowSize s) in
        if seq > esp_HighestSequence s then Inr ()
        else
          let diff = esp_HighestSequence s - seq in
          if diff \<ge> window then Inl (Err Esp_ErrReplay)
          else if esp_ReplayBitmap s AND push_bit (unat diff) 1 \<noteq> 0 then Inl (Err Esp_ErrReplay)
          else Inr ())"

definition acceptSequence :: "SA \<Rightarrow> u32 \<Rightarrow> SA" where
  "acceptSequence s seq =
     (if esp_ReplayWindowSize s = 0
      then (if seq > esp_HighestSequence s then s\<lparr>esp_HighestSequence := seq\<rparr> else s)
      else if seq > esp_HighestSequence s
      then
        let diff = seq - esp_HighestSequence s;
            bitmap = (if diff \<ge> 64 then 1 else push_bit (unat diff) (esp_ReplayBitmap s) OR 1)
        in s\<lparr>esp_ReplayBitmap := bitmap, esp_HighestSequence := seq\<rparr>
      else
        let diff = esp_HighestSequence s - seq in
        if diff < 64 then s\<lparr>esp_ReplayBitmap := esp_ReplayBitmap s OR push_bit (unat diff) 1\<rparr> else s)"

section \<open>Opening\<close>

definition openAESCBC :: "crypto \<Rightarrow> SA \<Rightarrow> bytes \<Rightarrow> (OpenResult \<times> SA) res" where
  "openAESCBC c s packet =
     (let bs = int (esp_BlockSize s); n = int (length packet) in
      if n < 8 + bs + esp_ICVLength s + bs then Inl (Err Esp_ErrInvalidPacket)
      else rbind (u32_at 0 packet) (\<lambda>spi.
        if spi \<noteq> esp_SPI s then Inl (Err Esp_ErrInvalidPacket)
        else rbind (u32_at 4 packet) (\<lambda>seq.
          if seq = 0 then Inl (Err Esp_ErrInvalidPacket)
          else
            let bodyEnd = n - esp_ICVLength s in
            rbind (subi bodyEnd n packet) (\<lambda>gotICV.
            rbind (subi 0 bodyEnd packet) (\<lambda>signed.
            rbind (SA_integrity c s signed) (\<lambda>wantICV.
            if gotICV \<noteq> wantICV then Inl (Err Esp_ErrInvalidPacket)
            else
              rbind (checkReplay s seq) (\<lambda>_.
              rbind (subi 8 bodyEnd packet) (\<lambda>body.
              if length body < esp_BlockSize s then Inl (Err Esp_ErrInvalidPacket)
              else if esp_BlockSize s = 0 then Inl Panic
              else if (length body - esp_BlockSize s) mod esp_BlockSize s \<noteq> 0
              then Inl (Err Esp_ErrInvalidPacket)
              else
                rbind (sub 0 (esp_BlockSize s) body) (\<lambda>iv.
                rbind (sub (esp_BlockSize s) (length body) body) (\<lambda>ciphertext.
                rbind (aesCBCDecrypt c (esp_EncryptionKey s) iv ciphertext) (\<lambda>plain.
                rbind (parseESPPlaintext plain) (\<lambda>(payload, nextHeader).
                  Inr (\<lparr>or_SPI = spi, or_Sequence = seq, or_NextHeader = nextHeader, or_Payload = payload\<rparr>,
                       acceptSequence s seq))))))))))))) "

definition openAESGCM :: "crypto \<Rightarrow> SA \<Rightarrow> bytes \<Rightarrow> (OpenResult \<times> SA) res" where
  "openAESGCM c s packet =
     (if int (length packet) < 8 + 8 + esp_ICVLength s + 2 then Inl (Err Esp_ErrInvalidPacket)
      else rbind (u32_at 0 packet) (\<lambda>spi.
        if spi \<noteq> esp_SPI s then Inl (Err Esp_ErrInvalidPacket)
        else rbind (u32_at 4 packet) (\<lambda>seq.
          if seq = 0 then Inl (Err Esp_ErrInvalidPacket)
          else
            rbind (SA_aesGCMAEAD s) (\<lambda>(key, salt).
            rbind (sub 8 (length packet) packet) (\<lambda>body.
            rbind (sub 0 8 body) (\<lambda>iv.
            rbind (sub 8 (length body) body) (\<lambda>ciphertext.
            rbind (sub 0 8 packet) (\<lambda>aad.
            rbind (gcm_Open c key (nat (esp_ICVLength s)) (aesGCMNonce salt iv) ciphertext aad) (\<lambda>opened.
              case opened of
                None \<Rightarrow> Inl (Err Esp_ErrInvalidPacket)
              | Some plain \<Rightarrow>
                  rbind (checkReplay s seq) (\<lambda>_.
                  rbind (parseESPPlaintext plain) (\<lambda>(payload, nextHeader).
                    Inr (\<lparr>or_SPI = spi, or_Sequence = seq, or_NextHeader = nextHeader, or_Payload = payload\<rparr>,
                         acceptSequence s seq))))))))))))"

text \<open>\<^verbatim>\<open>Open\<close> changes the SA only when it succeeds: the two branches return the new SA with the
  result.\<close>

definition SA_Open :: "crypto \<Rightarrow> SA \<Rightarrow> bytes \<Rightarrow> OpenResult res \<times> SA" where
  "SA_Open c s packet =
     (let r = (if encryptionAlgorithm s = EncryptionAESCBC then openAESCBC c s packet
               else if encryptionAlgorithm s = EncryptionAESGCM_16 then openAESGCM c s packet
               else Inl (Err Esp_ErrInvalidSA))
      in case r of Inl e \<Rightarrow> (Inl e, s) | Inr (x, s') \<Rightarrow> (Inr x, s'))"

section \<open>Interfaces\<close>

text \<open>
  A guard against replays: \<open>tracks s A\<close> says that the guard's state stands for the set \<open>A\<close> of
  accepted numbers.  A receiver on top of it accepts what the guard lets pass, records it, and does
  not change on errors; then no number is accepted twice, whatever arrives in whatever order.
\<close>

locale replay_guard =
  fixes check :: "'s \<Rightarrow> u32 \<Rightarrow> bool" and accept :: "'s \<Rightarrow> u32 \<Rightarrow> 's" and tracks :: "'s \<Rightarrow> u32 set \<Rightarrow> bool"
  assumes check_fresh: "tracks s A \<Longrightarrow> check s q \<Longrightarrow> q \<notin> A"
    and accept_tracks: "tracks s A \<Longrightarrow> tracks (accept s q) (insert q A)"
begin

lemma check_accept: "tracks s A \<Longrightarrow> \<not> check (accept s q) q"
  using check_fresh accept_tracks by blast

end

fun run_recv :: "('s \<Rightarrow> 'p \<Rightarrow> 'r res \<times> 's) \<Rightarrow> 's \<Rightarrow> 'p list \<Rightarrow> 'r res list \<times> 's" where
  "run_recv recv s [] = ([], s)"
| "run_recv recv s (p # ps) =
     (let (r, s1) = recv s p; (rs, s2) = run_recv recv s1 ps in (r # rs, s2))"

fun oks :: "'r res list \<Rightarrow> 'r list" where
  "oks [] = []"
| "oks (Inl e # rs) = oks rs"
| "oks (Inr x # rs) = x # oks rs"

locale replay_receiver = replay_guard +
  fixes recv :: "'a \<Rightarrow> 'p \<Rightarrow> 'r res \<times> 'a" and seq_of :: "'r \<Rightarrow> u32"
  assumes recv_ok: "recv s p = (Inr r, s') \<Longrightarrow> check s (seq_of r) \<and> s' = accept s (seq_of r)"
    and recv_err: "recv s p = (Inl e, s') \<Longrightarrow> s' = s"
begin

lemma run_tracks:
  "tracks s A \<Longrightarrow> run_recv recv s ps = (rs, s') \<Longrightarrow>
   distinct (map seq_of (oks rs)) \<and> set (map seq_of (oks rs)) \<inter> A = {} \<and>
   tracks s' (A \<union> set (map seq_of (oks rs)))"
proof (induction ps arbitrary: s A rs)
  case (Cons p ps)
  obtain r s1 where r: "recv s p = (r, s1)" by fastforce
  obtain rs1 where rs1: "run_recv recv s1 ps = (rs1, s')" and rs: "rs = r # rs1"
    using Cons.prems(2) r by (auto split: prod.splits)
  show ?case
  proof (cases r)
    case (Inl e)
    then have "s1 = s" using recv_err r by blast
    with Cons.IH [OF Cons.prems(1)] rs1 rs Inl show ?thesis by auto
  next
    case (Inr x)
    then have x: "check s (seq_of x)" "s1 = accept s (seq_of x)" using recv_ok r by blast+
    have "tracks s1 (insert (seq_of x) A)" using accept_tracks [OF Cons.prems(1)] x by simp
    from Cons.IH [OF this rs1] check_fresh [OF Cons.prems(1) x(1)] rs Inr show ?thesis by auto
  qed
qed simp

lemma run_distinct: "tracks s A \<Longrightarrow> distinct (map seq_of (oks (fst (run_recv recv s ps))))"
  using run_tracks [of s A ps "fst (run_recv recv s ps)" "snd (run_recv recv s ps)"] by simp

end

section \<open>The replay window as a set\<close>

text \<open>The bitmap has a bit for each accepted number among the 64 up to the highest; none is above.\<close>

definition window_tracks :: "SA \<Rightarrow> u32 set \<Rightarrow> bool" where
  "window_tracks s A \<longleftrightarrow>
     esp_ReplayWindowSize s \<noteq> 0 \<and> (\<forall>q \<in> A. q \<le> esp_HighestSequence s) \<and>
     (\<forall>d < 64. bit (esp_ReplayBitmap s) d \<longleftrightarrow> (\<exists>q \<in> A. unat q + d = unat (esp_HighestSequence s)))"

definition window_size :: "SA \<Rightarrow> nat" where
  "window_size s = min 64 (unat (esp_ReplayWindowSize s))"

lemma unat_diff_le: "q \<le> (h :: u32) \<Longrightarrow> unat (h - q) = unat h - unat q"
  by (simp add: unat_sub)

lemma checkReplay_iff:
  assumes "window_tracks s A"
  shows "checkReplay s q = Inr () \<longleftrightarrow>
    q > esp_HighestSequence s \<or> unat (esp_HighestSequence s) - unat q < window_size s \<and> q \<notin> A"
proof (cases "q > esp_HighestSequence s")
  case False
  let ?h = "esp_HighestSequence s"
  define d where "d = unat ?h - unat q"
  have le: "q \<le> ?h" using False by simp
  have q: "unat q + d = unat ?h" using le by (simp add: d_def word_le_nat_alt)
  have d: "unat (?h - q) = d" using unat_diff_le [OF le] by (simp add: d_def)
  have w: "(?h - q \<ge> (if esp_ReplayWindowSize s > 64 then 64 else esp_ReplayWindowSize s)) \<longleftrightarrow> window_size s \<le> d"
    by (auto simp: word_le_nat_alt word_less_nat_alt d window_size_def)
  have "bit (esp_ReplayBitmap s) d \<longleftrightarrow> q \<in> A" if "d < window_size s"
  proof -
    have "d < 64" using that by (simp add: window_size_def)
    then have "bit (esp_ReplayBitmap s) d \<longleftrightarrow> (\<exists>q' \<in> A. unat q' + d = unat ?h)"
      using assms by (simp add: window_tracks_def)
    also have "\<dots> \<longleftrightarrow> q \<in> A"
      using q by (metis add_right_cancel unsigned_word_eqI)
    finally show ?thesis .
  qed
  moreover have "checkReplay s q = Inr () \<longleftrightarrow> d < window_size s \<and> \<not> bit (esp_ReplayBitmap s) d"
    using assms False w
    by (auto simp: checkReplay_def window_tracks_def Let_def d bit_iff_and_push_bit_not_eq_0 not_less)
  ultimately show ?thesis using False d_def by auto
qed (use assms in \<open>auto simp: checkReplay_def window_tracks_def Let_def\<close>)

lemma accept_new_bit:
  assumes "unat h < unat (q :: u32)" and "\<forall>x \<in> A. x \<le> h" and "(d :: nat) < 64"
  shows "(\<exists>x \<in> insert q A. unat x + d = unat q) \<longleftrightarrow>
    d = 0 \<or> unat q - unat h \<le> d \<and> (\<exists>x \<in> A. unat x + (d - (unat q - unat h)) = unat h)"
proof (cases "d = 0")
  case False
  have "unat x + d = unat q \<longleftrightarrow> unat q - unat h \<le> d \<and> unat x + (d - (unat q - unat h)) = unat h"
    if "x \<in> A" for x
    using assms that by (auto simp: word_le_nat_alt)
  with False show ?thesis by auto
qed auto

lemma acceptSequence_tracks:
  assumes "window_tracks s A"
  shows "window_tracks (acceptSequence s q) (insert q A)"
proof (cases "q > esp_HighestSequence s")
  case True
  let ?h = "esp_HighestSequence s" and ?b = "esp_ReplayBitmap s"
  let ?n = "unat q - unat ?h"
  have lt: "unat ?h < unat q" using True by (simp add: word_less_nat_alt)
  have n: "unat (q - ?h) = ?n" using True unat_diff_le [of ?h q] by simp
  have le: "\<forall>x \<in> A. x \<le> ?h" using assms by (simp add: window_tracks_def)
  let ?new = "if q - ?h \<ge> 64 then 1 else push_bit (unat (q - ?h)) ?b OR 1"
  have new: "bit ?new d \<longleftrightarrow> d = 0 \<or> ?n \<le> d \<and> bit ?b (d - ?n)" if "d < 64" for d
    using that n by (auto simp: word_le_nat_alt bit_simps)
  have "bit ?new d \<longleftrightarrow> (\<exists>x \<in> insert q A. unat x + d = unat q)" if d: "d < 64" for d
    using new [OF d] accept_new_bit [OF lt le d] assms d
    by (auto simp: window_tracks_def)
  moreover have "x \<le> q" if "x \<in> insert q A" for x
    using that le True by auto
  ultimately show ?thesis
    using assms True by (auto simp: acceptSequence_def window_tracks_def Let_def)
next
  case False
  let ?h = "esp_HighestSequence s" and ?b = "esp_ReplayBitmap s"
  have le: "q \<le> ?h" using False by simp
  have n: "unat (?h - q) = unat ?h - unat q" using unat_diff_le [OF le] .
  have q: "unat q \<le> unat ?h" using le by (simp add: word_le_nat_alt)
  have "bit (?b OR push_bit (unat ?h - unat q) 1) d \<longleftrightarrow> (\<exists>x \<in> insert q A. unat x + d = unat ?h)"
    if "d < 64" for d
    using assms that q by (auto simp: window_tracks_def bit_simps)
  moreover have "(\<exists>x \<in> A. unat x + d = unat ?h) \<longleftrightarrow> (\<exists>x \<in> insert q A. unat x + d = unat ?h)"
    if "d < 64" "\<not> unat ?h - unat q < 64" for d
    using that q by auto
  ultimately show ?thesis
    using assms False le n
    by (auto simp: acceptSequence_def window_tracks_def Let_def word_less_nat_alt)
qed

interpretation window: replay_guard "\<lambda>s q. checkReplay s q = Inr ()" acceptSequence window_tracks
proof
  fix s A q
  show "q \<notin> A" if "window_tracks s A" "checkReplay s q = Inr ()"
    using that checkReplay_iff [OF that(1), of q] by (auto simp: window_tracks_def)
qed (rule acceptSequence_tracks)

lemma SA_Open_Inr:
  assumes "SA_Open c s p = (Inr r, s')"
  shows "checkReplay s (or_Sequence r) = Inr () \<and> s' = acceptSequence s (or_Sequence r) \<and>
    or_SPI r = esp_SPI s \<and> or_Sequence r \<noteq> 0"
  using assms
  by (auto simp: SA_Open_def openAESCBC_def openAESGCM_def Let_def rbind_eq_Inr_iff
      split: if_splits sum.splits option.splits)

lemma SA_Open_Inl: "SA_Open c s p = (Inl e, s') \<Longrightarrow> s' = s"
  by (auto simp: SA_Open_def Let_def split: sum.splits prod.splits)

interpretation inbound: replay_receiver "\<lambda>s q. checkReplay s q = Inr ()" acceptSequence window_tracks
  "SA_Open c" or_Sequence for c
  by unfold_locales (auto dest: SA_Open_Inr SA_Open_Inl)

text \<open>C11: no ESP packet is accepted twice.  An inbound SA that has accepted nothing yet, with a
  non-empty replay window, may be given any packets in any order, copies and forgeries among them:
  the sequence numbers of the packets it accepts are pairwise different.\<close>

theorem SA_Open_no_replay:
  assumes "esp_ReplayWindowSize s \<noteq> 0" and "esp_HighestSequence s = 0" and "esp_ReplayBitmap s = 0"
  shows "distinct (map or_Sequence (oks (fst (run_recv (SA_Open c) s packets))))"
proof -
  have "window_tracks s {}" using assms by (simp add: window_tracks_def)
  then show ?thesis by (rule inbound.run_distinct)
qed

definition demo_sa :: SA where
  "demo_sa = \<lparr>esp_SPI = 0x01020304, esp_Encryption = EncryptionAESGCM_16, esp_EncryptionKey = replicate 20 5,
     esp_IntegrityKey = [], esp_Integrity = 0, esp_ICVLength = 16, esp_BlockSize = 4, esp_Sequence = 0,
     esp_HighestSequence = 0, esp_ReplayWindowSize = 64, esp_ReplayBitmap = 0\<rparr>"

theorem SA_Open_no_replay_witness:
  "distinct (map or_Sequence (oks (fst (run_recv (SA_Open demo_crypto) demo_sa
     (replicate 2 [1, 2, 3, 4, 0, 0, 0, 1])))))"
  by (rule SA_Open_no_replay) (simp_all add: demo_sa_def)

text \<open>C14: the window rejects nothing else.  When the SA's state stands for the set of numbers
  accepted so far, a number passes the check exactly when it is new and not older than the window:
  above the highest one, or among the last 64 (or fewer, if the window is smaller) and not accepted
  before.  Accepting it keeps state and set in step.\<close>

theorem replay_window_refines_set:
  assumes "window_tracks s A"
  shows "(checkReplay s q = Inr () \<longleftrightarrow>
      q \<notin> A \<and> (q > esp_HighestSequence s \<or> unat (esp_HighestSequence s) - unat q < window_size s)) \<and>
    window_tracks (acceptSequence s q) (insert q A)"
  using checkReplay_iff [OF assms, of q] window.check_fresh [OF assms, of q] acceptSequence_tracks [OF assms]
  by blast

theorem replay_window_refines_set_witness:
  "checkReplay (acceptSequence demo_sa 70) 6 = Inl (Err Esp_ErrReplay) \<and>
   (checkReplay (acceptSequence demo_sa 70) 7 = Inr () \<longleftrightarrow>
      7 \<notin> {70 :: u32} \<and> (7 > (70 :: u32) \<or> unat (70 :: u32) - unat (7 :: u32) < 64))"
proof -
  have "window_tracks demo_sa {}" by (simp add: window_tracks_def demo_sa_def)
  then have t: "window_tracks (acceptSequence demo_sa 70) {70}" by (rule acceptSequence_tracks)
  show ?thesis
    using replay_window_refines_set [OF t, of 7]
    by (simp add: acceptSequence_def demo_sa_def window_size_def checkReplay_def word_less_nat_alt word_le_nat_alt)
qed

section \<open>Well-formed SAs\<close>

definition esp_wf :: "SA \<Rightarrow> bool" where
  "esp_wf s \<longleftrightarrow> esp_SPI s \<noteq> 0 \<and>
     (encryptionAlgorithm s = EncryptionAESCBC \<and> aes_key_ok (esp_EncryptionKey s) \<and>
        esp_IntegrityKey s \<noteq> [] \<and> esp_BlockSize s = 16 \<and> 0 < esp_ICVLength s \<or>
      encryptionAlgorithm s = EncryptionAESGCM_16 \<and> validAESGCMKeyLength (length (esp_EncryptionKey s)) \<and>
        esp_BlockSize s = 4 \<and> esp_ICVLength s = 16)"

lemma NewSA_wf: "NewSA s0 = Inr s \<Longrightarrow> esp_wf s"
  by (auto simp: NewSA_def esp_wf_def encryptionAlgorithm_def aes_key_ok_def Let_def split: if_splits)

lemma acceptSequence_static [simp]:
  "esp_SPI (acceptSequence s q) = esp_SPI s" "encryptionAlgorithm (acceptSequence s q) = encryptionAlgorithm s"
  "esp_EncryptionKey (acceptSequence s q) = esp_EncryptionKey s"
  "esp_IntegrityKey (acceptSequence s q) = esp_IntegrityKey s"
  "esp_BlockSize (acceptSequence s q) = esp_BlockSize s" "esp_ICVLength (acceptSequence s q) = esp_ICVLength s"
  by (simp_all add: acceptSequence_def encryptionAlgorithm_def Let_def)

lemma esp_wf_acceptSequence [simp]: "esp_wf (acceptSequence s q) = esp_wf s"
  by (simp add: esp_wf_def)

lemma esp_wf_Sequence [simp]: "esp_wf (s\<lparr>esp_Sequence := q\<rparr>) = esp_wf s"
  by (simp add: esp_wf_def encryptionAlgorithm_def)

lemma SA_Open_wf: "esp_wf s \<Longrightarrow> esp_wf (snd (SA_Open c s p))"
  using SA_Open_Inr [of c s p] SA_Open_Inl [of c s p]
  by (cases "SA_Open c s p"; cases "fst (SA_Open c s p)") auto

lemma SA_Seal_wf: "esp_wf s \<Longrightarrow> esp_wf (snd (SA_Seal c s nh p opts))"
  by (simp add: SA_Seal_def Let_def)

section \<open>Opening what was sealed\<close>

lemma map_go_byte_upt: "map go_byte [1..<k + 1] = map (\<lambda>i. go_byte (Suc i)) [0..<k]"
  by (induction k) simp_all

lemma parseESP_espPlaintext:
  assumes "espPlaintext payload nh b = Inr plain" and "b \<le> 256"
  shows "parseESPPlaintext plain = Inr (payload, nh)"
proof -
  define k where "k = (b - ((length payload + 2) mod b)) mod b"
  have b: "0 < b" using assms(1) by (auto simp: espPlaintext_def split: if_splits)
  then have "k < 256" using assms(2) mod_less_divisor [of b] unfolding k_def by (meson less_le_trans)
  then have k: "unat (go_byte k) = k" by simp
  have p: "plain = payload @ map (\<lambda>i. go_byte (Suc i)) [0..<k] @ [go_byte k, nh]"
    using assms(1) b unfolding espPlaintext_def Let_def k_def [symmetric] map_go_byte_upt by simp
  have "plain ! (length plain - 2) = go_byte k" "plain ! (length plain - 1) = nh"
    by (simp_all add: p nth_append)
  moreover have "\<not> list_ex (\<lambda>i. plain ! (length payload + i) \<noteq> go_byte (i + 1)) [0..<k]"
    by (auto simp: p list_ex_iff nth_append)
  ultimately show ?thesis
    using k by (simp add: parseESPPlaintext_def Let_def p)
qed

lemma espPlaintext_length:
  assumes "espPlaintext payload nh b = Inr plain"
  shows "length plain mod b = 0" and "2 \<le> length plain"
proof -
  have b: "0 < b" using assms by (auto simp: espPlaintext_def split: if_splits)
  let ?k = "(b - ((length payload + 2) mod b)) mod b"
  have len: "length plain = length payload + 2 + ?k" using assms b by (auto simp: espPlaintext_def Let_def)
  have "(length payload + 2 + ?k) mod b = ((length payload + 2) mod b + (b - (length payload + 2) mod b)) mod b"
    by (simp only: mod_add_left_eq mod_add_right_eq)
  also have "\<dots> = 0" using mod_less_divisor [OF b, of "length payload + 2"] by simp
  finally show "length plain mod b = 0" by (simp only: len)
  show "2 \<le> length plain" using len by simp
qed

lemma esp_header_read [simp]:
  "u32_at 0 (PutUint32 a @ PutUint32 b @ xs) = Inr a" "u32_at 4 (PutUint32 a @ PutUint32 b @ xs) = Inr b"
  by (simp_all add: PutUint32_def)

text \<open>The two ends of a tunnel: the same SPI, algorithms and keys.\<close>

definition peers :: "SA \<Rightarrow> SA \<Rightarrow> bool" where
  "peers s r \<longleftrightarrow> esp_SPI s = esp_SPI r \<and> encryptionAlgorithm s = encryptionAlgorithm r \<and>
     esp_EncryptionKey s = esp_EncryptionKey r \<and> esp_IntegrityKey s = esp_IntegrityKey r \<and>
     esp_Integrity s = esp_Integrity r \<and> esp_ICVLength s = esp_ICVLength r \<and> esp_BlockSize s = esp_BlockSize r"

lemma peers_integrity: "peers s r \<Longrightarrow> SA_integrity c s = SA_integrity c r"
  by (rule ext) (simp add: SA_integrity_def peers_def Let_def)

lemma peers_aead: "peers s r \<Longrightarrow> SA_aesGCMAEAD s = SA_aesGCMAEAD r"
  by (simp add: SA_aesGCMAEAD_def peers_def Let_def cong: if_cong)

lemma SA_integrity_length: "SA_integrity c s d = Inr icv \<Longrightarrow> int (length icv) = esp_ICVLength s"
  by (auto simp: SA_integrity_def Let_def rbind_eq_Inr_iff subi_def sub_def split: if_splits)

lemma open_sealAESCBC:
  assumes c: "crypto_ok c" and pr: "peers s r" and wf: "esp_wf r" "encryptionAlgorithm r = EncryptionAESCBC"
    and seal: "sealAESCBC c s nh payload seq opts = Inr pkt" and seq: "seq \<noteq> 0" "checkReplay r seq = Inr ()"
  shows "openAESCBC c r pkt =
    Inr (\<lparr>or_SPI = esp_SPI r, or_Sequence = seq, or_NextHeader = nh, or_Payload = payload\<rparr>, acceptSequence r seq)"
proof -
  have r: "esp_BlockSize r = 16" "esp_BlockSize s = 16" "esp_SPI s = esp_SPI r" "0 < esp_ICVLength r"
    "esp_EncryptionKey s = esp_EncryptionKey r" "aes_key_ok (esp_EncryptionKey r)"
    using wf pr by (auto simp: esp_wf_def peers_def)
  let ?hdr = "PutUint32 (esp_SPI r) @ PutUint32 seq"
  from seal r obtain iv plain icv where iv: "length iv = 16"
    and plain: "espPlaintext payload nh 16 = Inr plain" "length plain mod 16 = 0"
    and icv: "SA_integrity c s (PutUint32 (esp_SPI r) @ PutUint32 seq @ iv @ cbc_encrypt c (esp_EncryptionKey r) iv plain) = Inr icv"
    and pkt: "pkt = (PutUint32 (esp_SPI r) @ PutUint32 seq @ iv @ cbc_encrypt c (esp_EncryptionKey r) iv plain) @ icv"
    unfolding sealAESCBC_def
    by (auto simp: rbind_eq_Inr_iff aesCBCEncrypt_def aes_NewCipher_def Let_def split: if_splits)
  define ct where "ct = cbc_encrypt c (esp_EncryptionKey r) iv plain"
  have len: "length ct = length plain" using cbc_encrypt_length [OF c iv plain(2)] by (simp add: ct_def)
  have "16 \<le> length plain" using espPlaintext_length [OF plain(1)] by (cases "length plain < 16") auto
  moreover have dec: "cbc_decrypt c (esp_EncryptionKey r) iv ct = plain"
    using cbc_roundtrip [OF c r(6) iv plain(2)] by (simp add: ct_def)
  moreover have "int (length icv) = esp_ICVLength r"
    using SA_integrity_length [OF icv] pr by (simp add: peers_def)
  moreover define n where "n = length icv"
  ultimately show ?thesis
    using r iv plain len seq icv parseESP_espPlaintext [OF plain(1)] unfolding pkt ct_def [symmetric]
    by (simp add: openAESCBC_def peers_integrity [OF pr] Let_def aesCBCDecrypt_def aes_NewCipher_def)
qed

lemma SA_aesGCMAEAD_ok:
  assumes "validAESGCMKeyLength (length (esp_EncryptionKey s))" and "esp_ICVLength s = 16"
  shows "\<exists>key salt. SA_aesGCMAEAD s = Inr (key, salt) \<and> length salt = 4"
  using assms
  by (auto simp: SA_aesGCMAEAD_def validAESGCMKeyLength_def Let_def aes_NewCipher_def aes_key_ok_def gcm_tag_ok_def)

lemma open_sealAESGCM:
  assumes c: "crypto_ok c" and pr: "peers s r" and wf: "esp_wf r" "encryptionAlgorithm r = EncryptionAESGCM_16"
    and seal: "sealAESGCM c s nh payload seq opts = Inr pkt" and seq: "seq \<noteq> 0" "checkReplay r seq = Inr ()"
  shows "openAESGCM c r pkt =
    Inr (\<lparr>or_SPI = esp_SPI r, or_Sequence = seq, or_NextHeader = nh, or_Payload = payload\<rparr>, acceptSequence r seq)"
proof -
  have r: "esp_BlockSize s = 4" "esp_SPI s = esp_SPI r" "esp_ICVLength r = 16" "esp_ICVLength s = 16"
    "validAESGCMKeyLength (length (esp_EncryptionKey r))"
    using wf pr by (auto simp: esp_wf_def peers_def)
  obtain key salt where aead: "SA_aesGCMAEAD r = Inr (key, salt)" "length salt = 4"
    using SA_aesGCMAEAD_ok [of r] r by auto
  from seal r obtain iv plain where iv: "length iv = 8"
    and plain: "espPlaintext payload nh 4 = Inr plain"
    and pkt: "pkt = PutUint32 (esp_SPI r) @ PutUint32 seq @ iv @
        cr_gcm_seal c key 16 (salt @ iv) plain (PutUint32 (esp_SPI r) @ PutUint32 seq)"
    unfolding sealAESGCM_def peers_aead [OF pr] aead(1)
    by (auto simp: rbind_eq_Inr_iff gcm_Seal_def aesGCMNonce_def Let_def split: if_splits)
  have "length (cr_gcm_seal c key 16 (salt @ iv) plain (PutUint32 (esp_SPI r) @ PutUint32 seq)) = length plain + 16"
    using c by simp
  with espPlaintext_length(2) [OF plain] show ?thesis
    using c r iv aead seq parseESP_espPlaintext [OF plain]
    by (simp add: pkt openAESGCM_def gcm_Open_def aesGCMNonce_def)
qed

text \<open>The sequence number \<^verbatim>\<open>Seal\<close> puts into the packet.\<close>

definition seal_seq :: "SA \<Rightarrow> SealOptions \<Rightarrow> u32" where
  "seal_seq s opts = (if so_Sequence opts = 0 then esp_Sequence s + 1 else so_Sequence opts)"

lemma seal_seq_nonzero: "fst (SA_Seal c s nh p opts) = Inr pkt \<Longrightarrow> seal_seq s opts \<noteq> 0"
proof
  assume "fst (SA_Seal c s nh p opts) = Inr pkt" "seal_seq s opts = 0"
  moreover from this(2) have "so_Sequence opts = 0" "esp_Sequence s = -1"
    by (auto simp: seal_seq_def eq_neg_iff_add_eq_0 split: if_splits)
  ultimately show False by (simp add: SA_Seal_def)
qed

lemma SA_Seal_Inr:
  assumes "fst (SA_Seal c s nh p opts) = Inr pkt"
  shows "\<exists>s'. peers s s' \<and>
    (encryptionAlgorithm s' = EncryptionAESCBC \<and> sealAESCBC c s' nh p (seal_seq s opts) opts = Inr pkt \<or>
     encryptionAlgorithm s' = EncryptionAESGCM_16 \<and> sealAESGCM c s' nh p (seal_seq s opts) opts = Inr pkt)"
proof (rule exI [of _ "snd (SA_Seal c s nh p opts)"], intro conjI)
  show "peers s (snd (SA_Seal c s nh p opts))"
    by (simp add: SA_Seal_def Let_def peers_def encryptionAlgorithm_def)
qed (use assms in \<open>auto simp: SA_Seal_def Let_def seal_seq_def split: if_splits\<close>)

lemma open_seal_peers:
  assumes "crypto_ok c" and "esp_wf r" and "peers s r"
    and "fst (SA_Seal c s nh payload opts) = Inr pkt" and "checkReplay r (seal_seq s opts) = Inr ()"
  shows "SA_Open c r pkt =
    (Inr \<lparr>or_SPI = esp_SPI r, or_Sequence = seal_seq s opts, or_NextHeader = nh, or_Payload = payload\<rparr>,
     acceptSequence r (seal_seq s opts))"
proof -
  obtain s' where "peers s s'" and seal:
    "encryptionAlgorithm s' = EncryptionAESCBC \<and> sealAESCBC c s' nh payload (seal_seq s opts) opts = Inr pkt \<or>
     encryptionAlgorithm s' = EncryptionAESGCM_16 \<and> sealAESGCM c s' nh payload (seal_seq s opts) opts = Inr pkt"
    using SA_Seal_Inr [OF assms(4)] by blast
  then have pr: "peers s' r" using assms(3) by (simp add: peers_def)
  from seal show ?thesis
  proof (elim disjE conjE)
    assume alg: "encryptionAlgorithm s' = EncryptionAESCBC"
      and "sealAESCBC c s' nh payload (seal_seq s opts) opts = Inr pkt"
    moreover have "encryptionAlgorithm r = EncryptionAESCBC" using alg pr by (simp add: peers_def)
    ultimately show ?thesis
      using open_sealAESCBC [OF assms(1) pr assms(2) _ _ seal_seq_nonzero [OF assms(4)] assms(5)]
      by (simp add: SA_Open_def)
  next
    assume alg: "encryptionAlgorithm s' = EncryptionAESGCM_16"
      and "sealAESGCM c s' nh payload (seal_seq s opts) opts = Inr pkt"
    moreover have "encryptionAlgorithm r = EncryptionAESGCM_16" using alg pr by (simp add: peers_def)
    ultimately show ?thesis
      using open_sealAESGCM [OF assms(1) pr assms(2) _ _ seal_seq_nonzero [OF assms(4)] assms(5)]
      by (simp add: SA_Open_def)
  qed
qed

text \<open>C12: the other end reads what was sealed.  A packet one end sealed, for either cipher and with any
  explicit or automatic sequence number and initialisation vector, is opened by the end with the same
  keys to exactly the payload and next-header octet that went in, unless the replay window refuses
  its sequence number.\<close>

theorem SA_Open_SA_Seal:
  assumes "crypto_ok c" and "esp_wf r" and "peers s r"
    and "fst (SA_Seal c s nh payload opts) = Inr pkt" and "checkReplay r (seal_seq s opts) = Inr ()"
  shows "SA_Open c r pkt =
    (Inr \<lparr>or_SPI = esp_SPI r, or_Sequence = seal_seq s opts, or_NextHeader = nh, or_Payload = payload\<rparr>,
     acceptSequence r (seal_seq s opts))"
  by (rule open_seal_peers [OF assms])

text \<open>Automatic sequence number and initialisation vector.\<close>

abbreviation auto_opts :: "random \<Rightarrow> SealOptions" where
  "auto_opts r \<equiv> \<lparr>so_Sequence = 0, so_IV = [], so_Random = r\<rparr>"

theorem SA_Open_SA_Seal_witness:
  "\<exists>pkt. fst (SA_Seal demo_crypto demo_sa NextHeaderIPv4 [7, 8, 9] (auto_opts (\<lambda>n. Inl (ExtErr 0)))) = Inr pkt \<and>
     fst (SA_Open demo_crypto demo_sa pkt) =
       Inr \<lparr>or_SPI = 0x01020304, or_Sequence = 1, or_NextHeader = 4, or_Payload = [7, 8, 9]\<rparr>"
proof -
  let ?o = "auto_opts (\<lambda>n. Inl (ExtErr 0))"
  obtain pkt where p: "fst (SA_Seal demo_crypto demo_sa 4 [7, 8, 9] ?o) = Inr pkt"
    by (simp add: SA_Seal_def demo_sa_def Let_def encryptionAlgorithm_def sealAESGCM_def SA_aesGCMAEAD_def
        aes_NewCipher_def aes_key_ok_def gcm_tag_ok_def espPlaintext_def gcm_Seal_def aesGCMNonce_def)
  have "SA_Open demo_crypto demo_sa pkt =
      (Inr \<lparr>or_SPI = esp_SPI demo_sa, or_Sequence = seal_seq demo_sa ?o, or_NextHeader = 4, or_Payload = [7, 8, 9]\<rparr>,
       acceptSequence demo_sa (seal_seq demo_sa ?o))"
    by (rule SA_Open_SA_Seal [OF demo_crypto_ok _ _ p])
      (simp_all add: esp_wf_def peers_def demo_sa_def encryptionAlgorithm_def validAESGCMKeyLength_def
        seal_seq_def checkReplay_def word_less_nat_alt)
  with p show ?thesis by (simp add: demo_sa_def seal_seq_def)
qed

section \<open>No panics\<close>

lemma aesCBCDecrypt_safe: "safe (aesCBCDecrypt c key iv ct)"
  by (auto simp: aesCBCDecrypt_def aes_NewCipher_def intro!: safe_rbind)

lemma checkReplay_safe: "safe (checkReplay s q)"
  by (auto simp: checkReplay_def Let_def)

lemma parseESPPlaintext_safe: "safe (parseESPPlaintext plain)"
  by (auto simp: parseESPPlaintext_def Let_def intro!: safe_rbind)

lemma SA_integrity_safe: "0 \<le> esp_ICVLength s \<Longrightarrow> safe (SA_integrity c s d)"
  by (auto simp: SA_integrity_def Let_def intro!: safe_rbind)

lemma openAESCBC_safe:
  assumes "esp_BlockSize s = 16" and "0 < esp_ICVLength s"
  shows "safe (openAESCBC c s p)"
  using assms
  by (auto simp: openAESCBC_def Let_def SA_integrity_safe checkReplay_safe aesCBCDecrypt_safe
      parseESPPlaintext_safe intro!: safe_rbind safe_if)

lemma openAESGCM_safe:
  assumes "validAESGCMKeyLength (length (esp_EncryptionKey s))" and "esp_ICVLength s = 16"
  shows "safe (openAESGCM c s p)"
proof -
  obtain key salt where "SA_aesGCMAEAD s = Inr (key, salt)" "length salt = 4"
    using SA_aesGCMAEAD_ok [OF assms] by blast
  with assms(2) show ?thesis
    by (auto simp: openAESGCM_def gcm_Open_def aesGCMNonce_def checkReplay_safe parseESPPlaintext_safe
        intro!: safe_rbind safe_if split: option.splits)
qed

text \<open>no packet makes the ESP receiver panic.  Every SA \<^verbatim>\<open>NewSA\<close> built keeps its well-formedness
  under any sequence of received packets, and opening any octets with it returns a result or an
  error; on an error the SA does not change.\<close>

theorem SA_Open_never_panics:
  assumes "NewSA s0 = Inr s"
  shows "safe (fst (SA_Open c (snd (run_recv (SA_Open c) s packets)) pkt)) \<and>
    esp_wf (snd (run_recv (SA_Open c) s packets))"
proof -
  have wf: "esp_wf (snd (run_recv (SA_Open c) t packets))" if "esp_wf t" for t
    using that
  proof (induction packets arbitrary: t)
    case (Cons p ps)
    have "esp_wf (snd (SA_Open c t p))" using Cons.prems by (rule SA_Open_wf)
    from Cons.IH [OF this] show ?case by (simp split: prod.splits) (metis snd_conv)
  qed simp
  have "safe (fst (SA_Open c t pkt))" if "esp_wf t" for t
    using that openAESCBC_safe [of t c pkt] openAESGCM_safe [of t c pkt]
    by (auto simp: esp_wf_def SA_Open_def Let_def split: sum.splits prod.splits)
  with wf NewSA_wf [OF assms] show ?thesis by blast
qed

theorem SA_Open_never_panics_witness:
  "safe (fst (SA_Open demo_crypto (snd (run_recv (SA_Open demo_crypto) demo_sa [[1, 2, 3]])) [4, 5]))"
proof -
  have "NewSA demo_sa = Inr demo_sa"
    by (simp add: NewSA_def demo_sa_def encryptionAlgorithm_def validAESGCMKeyLength_def Let_def)
  from SA_Open_never_panics [OF this, of demo_crypto "[[1, 2, 3]]" "[4, 5]"] show ?thesis by simp
qed

section \<open>Outgoing sequence numbers\<close>

fun run_seal :: "random \<Rightarrow> crypto \<Rightarrow> SA \<Rightarrow> (u8 \<times> bytes) list \<Rightarrow> bytes res list \<times> SA" where
  "run_seal r c s [] = ([], s)"
| "run_seal r c s ((nh, p) # ps) =
     (let (x, s1) = SA_Seal c s nh p (auto_opts r); (rs, s2) = run_seal r c s1 ps in (x # rs, s2))"

definition packet_seq :: "bytes \<Rightarrow> u32" where
  "packet_seq p = u32_of (p ! 4) (p ! 5) (p ! 6) (p ! 7)"

lemma packet_seq_header: "packet_seq (PutUint32 a @ PutUint32 b @ xs) = b"
  by (simp add: packet_seq_def PutUint32_def)

lemma SA_Seal_packet_seq:
  assumes "SA_Seal c s nh p (auto_opts r) = (Inr pkt, s')"
  shows "packet_seq pkt = esp_Sequence s' \<and> unat (esp_Sequence s') = Suc (unat (esp_Sequence s))"
proof -
  have ne: "esp_Sequence s \<noteq> - 1" and s': "esp_Sequence s' = esp_Sequence s + 1"
    using assms by (auto simp: SA_Seal_def Let_def split: if_splits)
  have "packet_seq pkt = esp_Sequence s + 1"
    using assms by (auto simp: SA_Seal_def Let_def sealAESCBC_def sealAESGCM_def rbind_eq_Inr_iff
        gcm_Seal_def packet_seq_header split: if_splits)
  moreover have "unat (esp_Sequence s + 1) = Suc (unat (esp_Sequence s))"
    using ne by (metis add.commute unatSuc add_eq_0_iff2 add.inverse_inverse)
  ultimately show ?thesis by (simp add: s')
qed

lemma SA_Seal_mono: "unat (esp_Sequence s) \<le> unat (esp_Sequence (snd (SA_Seal c s nh p (auto_opts r))))"
proof (cases "esp_Sequence s = - 1")
  case False
  then have "unat (esp_Sequence s + 1) = Suc (unat (esp_Sequence s))"
    by (metis add.commute unatSuc add_eq_0_iff2 add.inverse_inverse)
  with False show ?thesis by (simp add: SA_Seal_def Let_def)
qed (simp add: SA_Seal_def)

lemma run_seal_increasing:
  "run_seal r c s ps = (rs, s') \<Longrightarrow>
   sorted_wrt (<) (map (\<lambda>x. unat (packet_seq x)) (oks rs)) \<and>
   (\<forall>pkt \<in> set (oks rs). unat (esp_Sequence s) < unat (packet_seq pkt))"
proof (induction ps arbitrary: s rs)
  case (Cons x ps)
  obtain nh p where x: "x = (nh, p)" by fastforce
  obtain x1 s1 where r: "SA_Seal c s nh p (auto_opts r) = (x1, s1)" by fastforce
  obtain rs1 where rs1: "run_seal r c s1 ps = (rs1, s')" and rs: "rs = x1 # rs1"
    using Cons.prems r x by (auto split: prod.splits)
  have IH: "sorted_wrt (<) (map (\<lambda>x. unat (packet_seq x)) (oks rs1))"
    "\<forall>pkt \<in> set (oks rs1). unat (esp_Sequence s1) < unat (packet_seq pkt)"
    using Cons.IH [OF rs1] by auto
  have le: "unat (esp_Sequence s) \<le> unat (esp_Sequence s1)"
    using SA_Seal_mono [of s c nh p r] r by simp
  show ?case
  proof (cases x1)
    case (Inl e)
    with rs IH le show ?thesis by (auto intro: le_less_trans)
  next
    case (Inr pkt)
    with SA_Seal_packet_seq [of c s nh p r pkt s1] r IH le rs show ?thesis
      by (auto intro: le_less_trans)
  qed
qed simp

text \<open>The explicit initialisation vector of a packet under AES-GCM.\<close>

definition packet_iv :: "bytes \<Rightarrow> bytes" where
  "packet_iv p = take 8 (drop 8 p)"

lemma counter_iv_inj: "PutUint64 (ucast (a :: u32)) = PutUint64 (ucast b) \<Longrightarrow> a = b"
proof -
  assume eq: "PutUint64 (ucast a) = PutUint64 (ucast b)"
  have "u64_of (PutUint64 v ! 0) (PutUint64 v ! 1) (PutUint64 v ! 2) (PutUint64 v ! 3) (PutUint64 v ! 4) (PutUint64 v ! 5)
      (PutUint64 v ! 6) (PutUint64 v ! 7) = v" for v
    by (simp add: PutUint64_def)
  then have "(ucast a :: u64) = ucast b" using eq by metis
  then have "unat (ucast a :: u64) = unat (ucast b :: u64)" by simp
  moreover have "unat (ucast x :: u64) = unat x" for x :: u32 by transfer simp
  ultimately have "unat a = unat b" by metis
  then show ?thesis by (rule unsigned_word_eqI)
qed

text \<open>How a packet under AES-GCM was made: the nonce is the salt and the vector of the packet, which is its number.\<close>

definition gcm_made :: "crypto \<Rightarrow> SA \<Rightarrow> bytes \<Rightarrow> bytes \<Rightarrow> bytes \<Rightarrow> bool" where
  "gcm_made c s key salt pkt \<longleftrightarrow>
     (\<exists>plain. gcm_Seal c key (nat (esp_ICVLength s)) (aesGCMNonce salt (packet_iv pkt)) plain (take 8 pkt) = Inr (drop 16 pkt))"

lemma SA_Seal_gcm:
  assumes "SA_Seal c s nh p (auto_opts r) = (Inr pkt, s')" "encryptionAlgorithm s = EncryptionAESGCM_16" "SA_aesGCMAEAD s = Inr (key, salt)"
  shows "packet_iv pkt = PutUint64 (ucast (packet_seq pkt)) \<and> gcm_made c s key salt pkt"
proof -
  let ?q = "esp_Sequence s + 1"
  have f: "encryptionAlgorithm (s\<lparr>esp_Sequence := ?q\<rparr>) = encryptionAlgorithm s" "SA_aesGCMAEAD (s\<lparr>esp_Sequence := ?q\<rparr>) = SA_aesGCMAEAD s"
    by (simp add: encryptionAlgorithm_def, rule peers_aead, simp add: peers_def encryptionAlgorithm_def)
  have "sealAESGCM c (s\<lparr>esp_Sequence := ?q\<rparr>) nh p ?q (auto_opts r) = Inr pkt"
    using assms(1,2) f(1) by (auto simp: SA_Seal_def Let_def split: if_splits)
  then obtain plain sealed where g: "gcm_Seal c key (nat (esp_ICVLength s)) (aesGCMNonce salt (PutUint64 (ucast ?q))) plain
      (PutUint32 (esp_SPI s) @ PutUint32 ?q) = Inr sealed"
    and pkt: "pkt = PutUint32 (esp_SPI s) @ PutUint32 ?q @ PutUint64 (ucast ?q) @ sealed"
    using assms(3) f(2) by (auto simp: sealAESGCM_def Let_def rbind_eq_Inr_iff)
  have "packet_seq pkt = ?q" "packet_iv pkt = PutUint64 (ucast ?q)" "take 8 pkt = PutUint32 (esp_SPI s) @ PutUint32 ?q" "drop 16 pkt = sealed"
    by (simp_all add: pkt packet_seq_header packet_iv_def)
  with g show ?thesis by (auto simp: gcm_made_def)
qed

lemma run_seal_gcm:
  assumes "encryptionAlgorithm s = EncryptionAESGCM_16" "SA_aesGCMAEAD s = Inr (key, salt)" "pkt \<in> set (oks (fst (run_seal r c s ps)))"
  shows "packet_iv pkt = PutUint64 (ucast (packet_seq pkt)) \<and> gcm_made c s key salt pkt"
  using assms
proof (induction ps arbitrary: s)
  case (Cons x ps)
  obtain nh p where x: "x = (nh, p)" by fastforce
  obtain r1 s1 where r1: "SA_Seal c s nh p (auto_opts r) = (r1, s1)" by fastforce
  have p1: "peers s1 s" using arg_cong [OF r1, of snd] by (auto simp: SA_Seal_def Let_def peers_def encryptionAlgorithm_def split: if_splits)
  then have s1: "encryptionAlgorithm s1 = encryptionAlgorithm s" "SA_aesGCMAEAD s1 = SA_aesGCMAEAD s" "gcm_made c s1 key salt = gcm_made c s key salt"
    using peers_aead [OF p1] by (simp_all add: peers_def gcm_made_def fun_eq_iff)
  obtain rs s2 where rs: "run_seal r c s1 ps = (rs, s2)" by fastforce
  have IH: "packet_iv pkt = PutUint64 (ucast (packet_seq pkt)) \<and> gcm_made c s key salt pkt" if "pkt \<in> set (oks rs)"
    using Cons.IH [of s1] Cons.prems(1,2) s1 rs that by simp
  show ?case
  proof (cases r1)
    case (Inl e)
    then show ?thesis using Cons.prems(3) IH by (simp add: x r1 rs)
  next
    case (Inr y)
    then consider "pkt = y" | "pkt \<in> set (oks rs)" using Cons.prems(3) by (auto simp: x r1 rs)
    then show ?thesis using SA_Seal_gcm [of c s nh p r y s1] r1 Inr Cons.prems(1,2) IH by cases auto
  qed
qed simp

text \<open>C34: the sender never repeats a sequence number, nor a nonce.  With automatic numbering the packets of an
  outbound SA carry strictly increasing sequence numbers, failed packets in between included, and
  sealing stops with an error rather than wrap around.  With AES-GCM and a key of a valid length each packet is sealed under the nonce that is made of
  the salt of the key and the vector in the packet, and these nonces are pairwise different.\<close>

theorem SA_Seal_sequence_increases:
  "sorted_wrt (<) (map (\<lambda>x. unat (packet_seq x)) (oks (fst (run_seal r c s ps)))) \<and>
   SA_Seal c (t\<lparr>esp_Sequence := - 1\<rparr>) nh p (auto_opts r) =
     (Inl (Err Esp_ErrInvalidSA), t\<lparr>esp_Sequence := - 1\<rparr>) \<and>
   (encryptionAlgorithm s = EncryptionAESGCM_16 \<and> SA_aesGCMAEAD s = Inr (key, salt) \<longrightarrow>
     distinct (map (\<lambda>x. aesGCMNonce salt (packet_iv x)) (oks (fst (run_seal r c s ps)))) \<and>
     (\<forall>x \<in> set (oks (fst (run_seal r c s ps))). gcm_made c s key salt x))"
proof -
  let ?ps = "oks (fst (run_seal r c s ps))"
  have inc: "sorted_wrt (<) (map (\<lambda>x. unat (packet_seq x)) ?ps)"
    using run_seal_increasing [of r c s ps "fst (run_seal r c s ps)" "snd (run_seal r c s ps)"] by simp
  then have "distinct (map (\<lambda>x. unat (packet_seq x)) ?ps)" by (simp add: strict_sorted_iff)
  then have d: "distinct ?ps" "inj_on packet_seq (set ?ps)" by (auto simp: distinct_map inj_on_def)
  have "inj_on (\<lambda>x. aesGCMNonce salt (packet_iv x)) (set ?ps)"
    if "encryptionAlgorithm s = EncryptionAESGCM_16" "SA_aesGCMAEAD s = Inr (key, salt)"
  proof (rule inj_onI)
    fix x y assume xy: "x \<in> set ?ps" "y \<in> set ?ps" "aesGCMNonce salt (packet_iv x) = aesGCMNonce salt (packet_iv y)"
    then have "PutUint64 (ucast (packet_seq x)) = PutUint64 (ucast (packet_seq y))"
      using run_seal_gcm [OF that] by (simp add: aesGCMNonce_def)
    then show "x = y" using counter_iv_inj d(2) xy(1,2) by (metis inj_onD)
  qed
  then show ?thesis using inc d(1) run_seal_gcm [of s key salt _ r c ps] by (simp add: distinct_map SA_Seal_def)
qed

theorem SA_Seal_sequence_increases_witness:
  "distinct (map (\<lambda>x. aesGCMNonce (replicate 4 5) (packet_iv x))
      (oks (fst (run_seal (\<lambda>_. Inl (ExtErr 0)) demo_crypto demo_sa [(4, [7]), (4, [7])])))) \<and>
   length (oks (fst (run_seal (\<lambda>_. Inl (ExtErr 0)) demo_crypto demo_sa [(4, [7]), (4, [7])]))) = 2"
proof -
  have "encryptionAlgorithm demo_sa = EncryptionAESGCM_16 \<and> SA_aesGCMAEAD demo_sa = Inr (replicate 16 5, replicate 4 5)" by code_simp
  moreover have "length (oks (fst (run_seal (\<lambda>_. Inl (ExtErr 0)) demo_crypto demo_sa [(4, [7]), (4, [7])]))) = 2" by code_simp
  ultimately show ?thesis
    using SA_Seal_sequence_increases [of "\<lambda>_. Inl (ExtErr 0)" demo_crypto demo_sa "[(4, [7]), (4, [7])]"] by blast
qed

end
