(* ===== verification/EAP_AKA.thy ===== *)
theory EAP_AKA
  imports Go_Crypto
begin

text \<open>
  \<^verbatim>\<open>engine/swu/eapaka/eapaka.go\<close>: EAP-AKA packets and attributes, the typed values of attributes
  (RAND, AUTN, RES, AUTS, identities, counters, key derivation functions), and the classification of
  failures.  A Go string is its octets.  SHA-1 is the field of the \<open>crypto\<close> record.  An error
  wrapped with added text only is the wrapped error.
\<close>

section \<open>Constants and data\<close>

abbreviation (input) CodeRequest :: u8 where "CodeRequest \<equiv> 1"
abbreviation (input) CodeResponse :: u8 where "CodeResponse \<equiv> 2"
abbreviation (input) CodeSuccess :: u8 where "CodeSuccess \<equiv> 3"
abbreviation (input) CodeFailure :: u8 where "CodeFailure \<equiv> 4"
abbreviation (input) TypeAKA :: u8 where "TypeAKA \<equiv> 23"
abbreviation (input) TypeAKAPrime :: u8 where "TypeAKAPrime \<equiv> 50"
abbreviation (input) SubtypeChallenge :: u8 where "SubtypeChallenge \<equiv> 1"
abbreviation (input) SubtypeAuthenticationReject :: u8 where "SubtypeAuthenticationReject \<equiv> 2"
abbreviation (input) SubtypeSynchronizationFailure :: u8 where "SubtypeSynchronizationFailure \<equiv> 4"
abbreviation (input) SubtypeIdentity :: u8 where "SubtypeIdentity \<equiv> 5"
abbreviation (input) SubtypeNotification :: u8 where "SubtypeNotification \<equiv> 12"
abbreviation (input) SubtypeReauthentication :: u8 where "SubtypeReauthentication \<equiv> 13"
abbreviation (input) SubtypeClientError :: u8 where "SubtypeClientError \<equiv> 14"

abbreviation (input) AttributeRAND :: u8 where "AttributeRAND \<equiv> 1"
abbreviation (input) AttributeAUTN :: u8 where "AttributeAUTN \<equiv> 2"
abbreviation (input) AttributeRES :: u8 where "AttributeRES \<equiv> 3"
abbreviation (input) AttributeAUTS :: u8 where "AttributeAUTS \<equiv> 4"
abbreviation (input) AttributePadding :: u8 where "AttributePadding \<equiv> 6"
abbreviation (input) AttributePermanentIDReq :: u8 where "AttributePermanentIDReq \<equiv> 10"
abbreviation (input) AttributeMAC :: u8 where "AttributeMAC \<equiv> 11"
abbreviation (input) AttributeNotification :: u8 where "AttributeNotification \<equiv> 12"
abbreviation (input) AttributeAnyIDReq :: u8 where "AttributeAnyIDReq \<equiv> 13"
abbreviation (input) AttributeIdentity :: u8 where "AttributeIdentity \<equiv> 14"
abbreviation (input) AttributeVersionList :: u8 where "AttributeVersionList \<equiv> 15"
abbreviation (input) AttributeSelectedVersion :: u8 where "AttributeSelectedVersion \<equiv> 16"
abbreviation (input) AttributeFullAuthIDReq :: u8 where "AttributeFullAuthIDReq \<equiv> 17"
abbreviation (input) AttributeCounter :: u8 where "AttributeCounter \<equiv> 19"
abbreviation (input) AttributeCounterTooSmall :: u8 where "AttributeCounterTooSmall \<equiv> 20"
abbreviation (input) AttributeNonceS :: u8 where "AttributeNonceS \<equiv> 21"
abbreviation (input) AttributeClientErrorCode :: u8 where "AttributeClientErrorCode \<equiv> 22"
abbreviation (input) AttributeKDFInput :: u8 where "AttributeKDFInput \<equiv> 23"
abbreviation (input) AttributeKDF :: u8 where "AttributeKDF \<equiv> 24"
abbreviation (input) AttributeIV :: u8 where "AttributeIV \<equiv> 129"
abbreviation (input) AttributeEncrData :: u8 where "AttributeEncrData \<equiv> 130"
abbreviation (input) AttributeNextPseudonym :: u8 where "AttributeNextPseudonym \<equiv> 132"
abbreviation (input) AttributeNextReauthID :: u8 where "AttributeNextReauthID \<equiv> 133"
abbreviation (input) AttributeCheckcode :: u8 where "AttributeCheckcode \<equiv> 134"
abbreviation (input) AttributeResultInd :: u8 where "AttributeResultInd \<equiv> 135"
abbreviation (input) AttributeBidding :: u8 where "AttributeBidding \<equiv> 136"

abbreviation (input) NotificationSuccessBit :: u16 where "NotificationSuccessBit \<equiv> 0x8000"
abbreviation (input) NotificationPBit :: u16 where "NotificationPBit \<equiv> 0x4000"
abbreviation (input) ClientErrorInsufficientChallenges :: u16 where "ClientErrorInsufficientChallenges \<equiv> 2"
abbreviation (input) ClientErrorRANDNotFresh :: u16 where "ClientErrorRANDNotFresh \<equiv> 3"
abbreviation (input) RANDLength :: nat where "RANDLength \<equiv> 16"
abbreviation (input) AUTNLength :: nat where "AUTNLength \<equiv> 16"
abbreviation (input) AUTSLength :: nat where "AUTSLength \<equiv> 14"
abbreviation (input) AKLength :: nat where "AKLength \<equiv> 6"
abbreviation (input) AMFLength :: nat where "AMFLength \<equiv> 2"
abbreviation (input) AUTNMACLength :: nat where "AUTNMACLength \<equiv> 8"
abbreviation (input) RESMinBits :: u16 where "RESMinBits \<equiv> 32"
abbreviation (input) RESMaxBits :: u16 where "RESMaxBits \<equiv> 128"

record Attribute =
  attr_Type :: u8
  attr_Data :: bytes

record Packet =
  pkt_Code :: u8
  pkt_Identifier :: u8
  pkt_Type :: u8
  pkt_Subtype :: u8
  pkt_Attributes :: "Attribute list"
  pkt_Data :: bytes

record EncryptedIdentityState =
  eis_NextPseudonym :: bytes
  eis_NextReauthID :: bytes

record AUTNFields =
  autn_SQNXorAK :: bytes
  autn_AMF :: bytes
  autn_MAC :: bytes

record AUTSFields =
  auts_SQNMSXorAK :: bytes
  auts_MACS :: bytes

record NotificationInfo =
  ni_Value :: u16
  ni_Code :: u16
  ni_Success :: bool
  ni_BeforeAuthentication :: bool

datatype AKARecoveryAction = AKARecoveryNone | AKARecoveryRetry | AKARecoveryResync | AKARecoveryFail

record SynchronizationFailureInfo =
  sfi_AUTS :: bytes
  sfi_AUTSFields :: AUTSFields
  sfi_KDFValues :: "u16 list"

text \<open>The zero value of \<^verbatim>\<open>SyncInfo\<close> is \<open>None\<close>.\<close>

record AKARecoveryDecision =
  rd_Action :: AKARecoveryAction
  rd_SyncFailure :: bool
  rd_AuthFailure :: bool
  rd_ClientError :: bool
  rd_ClientErrorCode :: u16
  rd_SyncInfo :: "SynchronizationFailureInfo option"

section \<open>Attributes on the wire\<close>

definition paddingFor4 :: "nat \<Rightarrow> nat" where
  "paddingFor4 n = (if n mod 4 \<noteq> 0 then 4 - n mod 4 else 0)"

definition Attribute_MarshalBinary :: "Attribute \<Rightarrow> bytes res" where
  "Attribute_MarshalBinary a =
     (let len = 2 + length (attr_Data a); pad = paddingFor4 len; total = len + pad in
      if total < 4 \<or> total > 0xff * 4 then Inl (Err Eap_ErrInvalidAttribute)
      else Inr ([attr_Type a, go_byte (total div 4)] @ attr_Data a @ replicate pad 0))"

definition MarshalAttributes :: "Attribute list \<Rightarrow> bytes res" where
  "MarshalAttributes attrs = encode_all Attribute_MarshalBinary attrs"

definition parseAttribute1 :: "bytes \<Rightarrow> (Attribute \<times> bytes) res" where
  "parseAttribute1 data =
     (if length data < 4 then Inl (Err Eap_ErrInvalidAttribute)
      else rbind (idx 1 data) (\<lambda>b1.
        let len = unat b1 * 4 in
        if len < 4 \<or> len > length data then Inl (Err Eap_ErrInvalidAttribute)
        else
          rbind (idx 0 data) (\<lambda>t.
          rbind (sub 2 len data) (\<lambda>d.
          rbind (sub len (length data) data) (\<lambda>rest.
            Inr (\<lparr>attr_Type = t, attr_Data = d\<rparr>, rest))))))"

definition ParseAttributes :: "bytes \<Rightarrow> Attribute list res" where
  "ParseAttributes data = many parseAttribute1 data"

section \<open>Packets\<close>

definition isEAPCode :: "u8 \<Rightarrow> bool" where
  "isEAPCode code \<longleftrightarrow> code = CodeRequest \<or> code = CodeResponse \<or> code = CodeSuccess \<or> code = CodeFailure"

definition isAKAType :: "u8 \<Rightarrow> bool" where
  "isAKAType eapType \<longleftrightarrow> eapType = 0 \<or> eapType = TypeAKA \<or> eapType = TypeAKAPrime"

definition Packet_MarshalBinary :: "Packet \<Rightarrow> bytes res" where
  "Packet_MarshalBinary p =
     (if \<not> isEAPCode (pkt_Code p) then Inl (Err Eap_ErrInvalidPacket)
      else if pkt_Code p = CodeSuccess \<or> pkt_Code p = CodeFailure
      then Inr [pkt_Code p, pkt_Identifier p, 0, 4]
      else
        let ty = (if pkt_Type p = 0 then TypeAKA else pkt_Type p) in
        rbind (if length (pkt_Data p) > 0 then Inr (pkt_Data p)
               else rbind (MarshalAttributes (pkt_Attributes p)) (\<lambda>attrs. Inr ([pkt_Subtype p, 0, 0] @ attrs)))
          (\<lambda>rest.
            let body = ty # rest in
            if length body + 4 > 0xffff then Inl (Err Eap_ErrInvalidPacket)
            else Inr ([pkt_Code p, pkt_Identifier p] @ PutUint16 (go_uint16 (length body + 4)) @ body)))"

definition ParsePacket :: "bytes \<Rightarrow> Packet res" where
  "ParsePacket data =
     (if length data < 4 then Inl (Err Eap_ErrInvalidPacket)
      else rbind (u16_at 2 data) (\<lambda>len16.
        let len = unat len16 in
        if len < 4 \<or> len > length data then Inl (Err Eap_ErrInvalidPacket)
        else
          rbind (idx 0 data) (\<lambda>code.
          rbind (idx 1 data) (\<lambda>ident.
          let p = \<lparr>pkt_Code = code, pkt_Identifier = ident, pkt_Type = 0, pkt_Subtype = 0,
                   pkt_Attributes = [], pkt_Data = []\<rparr> in
          if \<not> isEAPCode code then Inl (Err Eap_ErrInvalidPacket)
          else if code = CodeSuccess \<or> code = CodeFailure
          then (if len \<noteq> 4 then Inl (Err Eap_ErrInvalidPacket) else Inr p)
          else if len < 8 then Inl (Err Eap_ErrInvalidPacket)
          else rbind (idx 4 data) (\<lambda>ty.
            if ty \<noteq> TypeAKA \<and> ty \<noteq> TypeAKAPrime
            then rbind (sub 5 len data) (\<lambda>d. Inr (p\<lparr>pkt_Type := ty, pkt_Data := d\<rparr>))
            else
              rbind (idx 5 data) (\<lambda>st.
              rbind (sub 8 len data) (\<lambda>ab.
              rbind (ParseAttributes ab) (\<lambda>attrs.
                Inr (p\<lparr>pkt_Type := ty, pkt_Subtype := st, pkt_Attributes := attrs\<rparr>)))))))))"

section \<open>Building attributes\<close>

definition FixedAttribute :: "u8 \<Rightarrow> bytes \<Rightarrow> Attribute" where
  "FixedAttribute attributeType value = \<lparr>attr_Type = attributeType, attr_Data = [0, 0] @ value\<rparr>"

definition VariableAttribute :: "u8 \<Rightarrow> bytes \<Rightarrow> Attribute" where
  "VariableAttribute attributeType value =
     \<lparr>attr_Type = attributeType, attr_Data = PutUint16 (go_uint16 (length value)) @ value\<rparr>"

text \<open>The attributes whose data is one sixteen-bit value.\<close>

definition uint16Attribute :: "u8 \<Rightarrow> u16 \<Rightarrow> Attribute" where
  "uint16Attribute t v = \<lparr>attr_Type = t, attr_Data = PutUint16 v\<rparr>"

definition IdentityAttribute :: "bytes \<Rightarrow> Attribute" where
  "IdentityAttribute identity = VariableAttribute AttributeIdentity identity"

definition VersionListAttribute :: "u16 list \<Rightarrow> Attribute" where
  "VersionListAttribute versions = VariableAttribute AttributeVersionList (concat (map PutUint16 versions))"

definition SelectedVersionAttribute :: "u16 \<Rightarrow> Attribute" where
  "SelectedVersionAttribute version = uint16Attribute AttributeSelectedVersion version"

definition BiddingAttribute :: "bool \<Rightarrow> Attribute" where
  "BiddingAttribute preferAKAPrime =
     \<lparr>attr_Type = AttributeBidding, attr_Data = [if preferAKAPrime then 0x80 else 0, 0]\<rparr>"

definition RESAttribute :: "bytes \<Rightarrow> Attribute" where
  "RESAttribute res =
     \<lparr>attr_Type = AttributeRES, attr_Data = PutUint16 (go_uint16 (length res * 8)) @ res\<rparr>"

definition AUTSAttribute :: "bytes \<Rightarrow> Attribute" where
  "AUTSAttribute auts = FixedAttribute AttributeAUTS auts"

definition RANDAttribute :: "bytes list \<Rightarrow> Attribute" where
  "RANDAttribute rand16 = FixedAttribute AttributeRAND (concat rand16)"

definition AUTNAttribute :: "bytes \<Rightarrow> Attribute" where
  "AUTNAttribute autn16 = FixedAttribute AttributeAUTN autn16"

definition PermanentIDReqAttribute :: Attribute where
  "PermanentIDReqAttribute = FixedAttribute AttributePermanentIDReq []"

definition AnyIDReqAttribute :: Attribute where
  "AnyIDReqAttribute = FixedAttribute AttributeAnyIDReq []"

definition FullAuthIDReqAttribute :: Attribute where
  "FullAuthIDReqAttribute = FixedAttribute AttributeFullAuthIDReq []"

definition KDFInputAttribute :: "bytes \<Rightarrow> Attribute" where
  "KDFInputAttribute networkName = VariableAttribute AttributeKDFInput networkName"

definition KDFAttribute :: "u16 \<Rightarrow> Attribute" where
  "KDFAttribute kdf = uint16Attribute AttributeKDF kdf"

definition NotificationAttribute :: "u16 \<Rightarrow> Attribute" where
  "NotificationAttribute code = uint16Attribute AttributeNotification code"

definition ClientErrorCodeAttribute :: "u16 \<Rightarrow> Attribute" where
  "ClientErrorCodeAttribute code = uint16Attribute AttributeClientErrorCode code"

definition CounterAttribute :: "u16 \<Rightarrow> Attribute" where
  "CounterAttribute counter = uint16Attribute AttributeCounter counter"

definition CounterTooSmallAttribute :: Attribute where
  "CounterTooSmallAttribute = FixedAttribute AttributeCounterTooSmall []"

definition NonceSAttribute :: "bytes \<Rightarrow> Attribute" where
  "NonceSAttribute nonce16 = FixedAttribute AttributeNonceS nonce16"

definition IVAttribute :: "bytes \<Rightarrow> Attribute" where
  "IVAttribute iv16 = FixedAttribute AttributeIV iv16"

definition EncrDataAttribute :: "bytes \<Rightarrow> Attribute" where
  "EncrDataAttribute ciphertext = FixedAttribute AttributeEncrData ciphertext"

definition NextPseudonymAttribute :: "bytes \<Rightarrow> Attribute" where
  "NextPseudonymAttribute identity = VariableAttribute AttributeNextPseudonym identity"

definition NextReauthIDAttribute :: "bytes \<Rightarrow> Attribute" where
  "NextReauthIDAttribute identity = VariableAttribute AttributeNextReauthID identity"

definition CheckcodeAttribute :: "bytes \<Rightarrow> Attribute" where
  "CheckcodeAttribute checkcode = FixedAttribute AttributeCheckcode checkcode"

definition ResultIndAttribute :: Attribute where
  "ResultIndAttribute = FixedAttribute AttributeResultInd []"

definition IdentityCheckcode :: "crypto \<Rightarrow> bytes list \<Rightarrow> bytes" where
  "IdentityCheckcode c packets = cr_sha1 c (concat packets)"

definition CheckcodeAttributeForPackets :: "crypto \<Rightarrow> bytes list \<Rightarrow> Attribute" where
  "CheckcodeAttributeForPackets c packets =
     (if length packets = 0 then CheckcodeAttribute [] else CheckcodeAttribute (IdentityCheckcode c packets))"

section \<open>Reading attribute values\<close>

definition requireZeroBytes :: "bytes \<Rightarrow> unit res" where
  "requireZeroBytes data = (if list_ex (\<lambda>b. b \<noteq> 0) data then Inl (Err Eap_ErrInvalidAttribute) else Inr ())"

definition requireReservedZero :: "bytes \<Rightarrow> unit res" where
  "requireReservedZero data =
     (if length data < 2 then Inl (Err Eap_ErrInvalidAttribute)
      else rbind (sub 0 2 data) requireZeroBytes)"

definition VariableValue :: "Attribute \<Rightarrow> bytes res" where
  "VariableValue a =
     (if length (attr_Data a) < 2 then Inl (Err Eap_ErrInvalidAttribute)
      else rbind (u16_at 0 (attr_Data a)) (\<lambda>len16.
        let len = unat len16 in
        if len > length (attr_Data a) - 2 then Inl (Err Eap_ErrInvalidAttribute)
        else
          rbind (sub (2 + len) (length (attr_Data a)) (attr_Data a)) (\<lambda>padding.
          rbind (requireZeroBytes padding) (\<lambda>_.
            sub 2 (2 + len) (attr_Data a)))))"

definition IdentityValue :: "Attribute \<Rightarrow> bytes res" where
  "IdentityValue a = VariableValue a"

fun uint16s :: "bytes \<Rightarrow> u16 list" where
  "uint16s (a # b # xs) = u16_of a b # uint16s xs"
| "uint16s _ = []"

definition VersionListValue :: "Attribute \<Rightarrow> u16 list res" where
  "VersionListValue a =
     rbind (VariableValue a) (\<lambda>value.
       if length value = 0 \<or> length value mod 2 \<noteq> 0 then Inl (Err Eap_ErrInvalidAttribute)
       else Inr (uint16s value))"

definition directUint16Value :: "Attribute \<Rightarrow> u16 res" where
  "directUint16Value a =
     (if length (attr_Data a) \<noteq> 2 then Inl (Err Eap_ErrInvalidAttribute) else u16_at 0 (attr_Data a))"

definition SelectedVersionValue :: "Attribute \<Rightarrow> u16 res" where
  "SelectedVersionValue a = directUint16Value a"

definition BiddingValue :: "Attribute \<Rightarrow> bool res" where
  "BiddingValue a =
     (if length (attr_Data a) \<noteq> 2 then Inl (Err Eap_ErrInvalidAttribute)
      else
        rbind (idx 0 (attr_Data a)) (\<lambda>b0.
        rbind (idx 1 (attr_Data a)) (\<lambda>b1.
          if b0 AND 0x7f \<noteq> 0 \<or> b1 \<noteq> 0 then Inl (Err Eap_ErrInvalidAttribute)
          else Inr (b0 AND 0x80 \<noteq> 0))))"

definition RESValue :: "Attribute \<Rightarrow> (bytes \<times> u16) res" where
  "RESValue a =
     (let d = attr_Data a in
      if length d < 2 then Inl (Err Eap_ErrInvalidAttribute)
      else rbind (u16_at 0 d) (\<lambda>bits.
        if bits < RESMinBits \<or> bits > RESMaxBits then Inl (Err Eap_ErrInvalidAttribute)
        else
          let octets = (unat bits + 7) div 8; baseLength = 2 + octets;
              paddedLength = baseLength + paddingFor4 (2 + baseLength) in
          if length d \<noteq> baseLength \<and> length d \<noteq> paddedLength then Inl (Err Eap_ErrInvalidAttribute)
          else if octets > length d - 2 then Inl (Err Eap_ErrInvalidAttribute)
          else
            rbind (if unat bits mod 8 \<noteq> 0
                   then rbind (idx (1 + octets) d) (\<lambda>b.
                     if b AND (push_bit (8 - unat bits mod 8) 1 - 1) \<noteq> 0
                     then Inl (Err Eap_ErrInvalidAttribute) else Inr ())
                   else Inr ()) (\<lambda>_.
            rbind (sub baseLength (length d) d) (\<lambda>padding.
              if list_ex (\<lambda>b. b \<noteq> 0) padding then Inl (Err Eap_ErrInvalidAttribute)
              else rbind (sub 2 (2 + octets) d) (\<lambda>v. Inr (v, bits))))))"

text \<open>\<^verbatim>\<open>FixedValue(size)\<close> and \<^verbatim>\<open>fixedValueExact(size)\<close>; every caller passes a constant size.\<close>

definition FixedValue :: "nat \<Rightarrow> Attribute \<Rightarrow> bytes res" where
  "FixedValue sz a =
     (if length (attr_Data a) < 2 + sz then Inl (Err Eap_ErrInvalidAttribute)
      else rbind (requireReservedZero (attr_Data a)) (\<lambda>_. sub 2 (2 + sz) (attr_Data a)))"

definition fixedValueExact :: "nat \<Rightarrow> Attribute \<Rightarrow> bytes res" where
  "fixedValueExact sz a =
     (if length (attr_Data a) < 2 then Inl (Err Eap_ErrInvalidAttribute)
      else rbind (requireReservedZero (attr_Data a)) (\<lambda>_.
        let baseLength = 2 + sz; paddedLength = baseLength + paddingFor4 (2 + baseLength) in
        if length (attr_Data a) \<noteq> baseLength \<and> length (attr_Data a) \<noteq> paddedLength
        then Inl (Err Eap_ErrInvalidAttribute)
        else
          rbind (sub baseLength (length (attr_Data a)) (attr_Data a)) (\<lambda>padding.
          rbind (requireZeroBytes padding) (\<lambda>_.
            sub 2 baseLength (attr_Data a)))))"

function chunks16 :: "bytes \<Rightarrow> bytes list" where
  "chunks16 xs = (if xs = [] then [] else take 16 xs # chunks16 (drop 16 xs))"
  by pat_completeness auto
termination
  by (relation "measure length") auto

declare chunks16.simps [simp del]

definition fixed16Values :: "Attribute \<Rightarrow> bytes list res" where
  "fixed16Values a =
     (if length (attr_Data a) < 2 \<or> (length (attr_Data a) - 2) mod 16 \<noteq> 0
      then Inl (Err Eap_ErrInvalidAttribute)
      else rbind (requireReservedZero (attr_Data a)) (\<lambda>_.
        let out = chunks16 (drop 2 (attr_Data a)) in
        if length out = 0 then Inl (Err Eap_ErrInvalidAttribute) else Inr out))"

definition RANDValues :: "Attribute \<Rightarrow> bytes list res" where
  "RANDValues a = fixed16Values a"

definition AUTNValue :: "Attribute \<Rightarrow> bytes res" where
  "AUTNValue a = fixedValueExact AUTNLength a"

definition AUTNValues :: "Attribute \<Rightarrow> bytes list res" where
  "AUTNValues a = fixed16Values a"

definition ParseAUTN :: "bytes \<Rightarrow> AUTNFields res" where
  "ParseAUTN autn16 =
     (if length autn16 \<noteq> AUTNLength then Inl (Err Eap_ErrInvalidAttribute)
      else
        rbind (sub 0 AKLength autn16) (\<lambda>s.
        rbind (sub AKLength (AKLength + AMFLength) autn16) (\<lambda>amf.
        rbind (sub (AKLength + AMFLength) (length autn16) autn16) (\<lambda>mac.
          Inr \<lparr>autn_SQNXorAK = s, autn_AMF = amf, autn_MAC = mac\<rparr>))))"

definition ParseAUTS :: "bytes \<Rightarrow> AUTSFields res" where
  "ParseAUTS auts14 =
     (if length auts14 \<noteq> AUTSLength then Inl (Err Eap_ErrInvalidAttribute)
      else
        rbind (sub 0 AKLength auts14) (\<lambda>s.
        rbind (sub AKLength (length auts14) auts14) (\<lambda>mac.
          Inr \<lparr>auts_SQNMSXorAK = s, auts_MACS = mac\<rparr>)))"

definition Attribute_AUTNFields :: "Attribute \<Rightarrow> AUTNFields res" where
  "Attribute_AUTNFields a = rbind (AUTNValue a) ParseAUTN"

definition AUTSValue :: "Attribute \<Rightarrow> bytes res" where
  "AUTSValue a = fixedValueExact AUTSLength a"

definition Attribute_AUTSFields :: "Attribute \<Rightarrow> AUTSFields res" where
  "Attribute_AUTSFields a = rbind (AUTSValue a) ParseAUTS"

definition MACValue :: "Attribute \<Rightarrow> bytes res" where
  "MACValue a = fixedValueExact 16 a"

definition ResultIndValue :: "Attribute \<Rightarrow> unit res" where
  "ResultIndValue a =
     (if length (attr_Data a) \<noteq> 2 then Inl (Err Eap_ErrInvalidAttribute) else requireReservedZero (attr_Data a))"

definition KDFInputValue :: "Attribute \<Rightarrow> bytes res" where
  "KDFInputValue a = VariableValue a"

definition KDFValue :: "Attribute \<Rightarrow> u16 res" where
  "KDFValue a =
     (let d = attr_Data a in
      if length d = 2 then u16_at 0 d
      else if length d \<ge> 4 \<and> d ! 0 = 0 \<and> d ! 1 = 0 then u16_at 2 d
      else Inl (Err Eap_ErrInvalidAttribute))"

definition NotificationValue :: "Attribute \<Rightarrow> u16 res" where
  "NotificationValue a = directUint16Value a"

definition Attribute_NotificationInfo :: "Attribute \<Rightarrow> NotificationInfo res" where
  "Attribute_NotificationInfo a =
     rbind (NotificationValue a) (\<lambda>value.
       Inr \<lparr>ni_Value = value, ni_Code = value AND NOT (NotificationSuccessBit OR NotificationPBit),
            ni_Success = (value AND NotificationSuccessBit \<noteq> 0),
            ni_BeforeAuthentication = (value AND NotificationPBit \<noteq> 0)\<rparr>)"

definition ClientErrorCodeValue :: "Attribute \<Rightarrow> u16 res" where
  "ClientErrorCodeValue a = directUint16Value a"

definition CounterValue :: "Attribute \<Rightarrow> u16 res" where
  "CounterValue a = directUint16Value a"

definition CounterTooSmallValue :: "Attribute \<Rightarrow> unit res" where
  "CounterTooSmallValue a =
     (if length (attr_Data a) \<noteq> 2 then Inl (Err Eap_ErrInvalidAttribute) else requireReservedZero (attr_Data a))"

definition NonceSValue :: "Attribute \<Rightarrow> bytes res" where
  "NonceSValue a = fixedValueExact RANDLength a"

definition IVValue :: "Attribute \<Rightarrow> bytes res" where
  "IVValue a = fixedValueExact RANDLength a"

definition EncrDataValue :: "Attribute \<Rightarrow> bytes res" where
  "EncrDataValue a =
     (if length (attr_Data a) < 2 then Inl (Err Eap_ErrInvalidAttribute)
      else rbind (requireReservedZero (attr_Data a)) (\<lambda>_. sub 2 (length (attr_Data a)) (attr_Data a)))"

definition NextPseudonymValue :: "Attribute \<Rightarrow> bytes res" where
  "NextPseudonymValue a = VariableValue a"

definition NextReauthIDValue :: "Attribute \<Rightarrow> bytes res" where
  "NextReauthIDValue a = VariableValue a"

definition CheckcodeValue :: "Attribute \<Rightarrow> bytes res" where
  "CheckcodeValue a =
     (if length (attr_Data a) = 2
      then rbind (requireReservedZero (attr_Data a)) (\<lambda>_. Inr [])
      else if length (attr_Data a) = 22
      then rbind (requireReservedZero (attr_Data a)) (\<lambda>_. sub 2 (length (attr_Data a)) (attr_Data a))
      else Inl (Err Eap_ErrInvalidAttribute))"

definition VerifyCheckcodeAttribute :: "crypto \<Rightarrow> Attribute \<Rightarrow> bytes list \<Rightarrow> unit res" where
  "VerifyCheckcodeAttribute c attr packets =
     rbind (CheckcodeValue attr) (\<lambda>value.
       if length value = 0
       then (if length packets = 0 then Inr () else Inl (Err Eap_ErrInvalidCheckcode))
       else if value \<noteq> IdentityCheckcode c packets then Inl (Err Eap_ErrInvalidCheckcode)
       else Inr ())"

definition AUTNFields_SQN :: "AUTNFields \<Rightarrow> bytes \<Rightarrow> bytes res" where
  "AUTNFields_SQN a ak =
     (if length (autn_SQNXorAK a) \<noteq> AKLength then Inl (Err Eap_ErrInvalidAttribute)
      else if length ak \<noteq> AKLength then Inl (Err Eap_ErrInvalidAttribute)
      else Inr (xor_bytes (autn_SQNXorAK a) ak))"

definition AUTSFields_Bytes :: "AUTSFields \<Rightarrow> bytes res" where
  "AUTSFields_Bytes a =
     (if length (auts_SQNMSXorAK a) \<noteq> AKLength then Inl (Err Eap_ErrInvalidAttribute)
      else if length (auts_MACS a) \<noteq> AUTNMACLength then Inl (Err Eap_ErrInvalidAttribute)
      else Inr (auts_SQNMSXorAK a @ auts_MACS a))"

definition AUTSFields_SQNMS :: "AUTSFields \<Rightarrow> bytes \<Rightarrow> bytes res" where
  "AUTSFields_SQNMS a ak =
     (if length (auts_SQNMSXorAK a) \<noteq> AKLength then Inl (Err Eap_ErrInvalidAttribute)
      else if length ak \<noteq> AKLength then Inl (Err Eap_ErrInvalidAttribute)
      else Inr (xor_bytes (auts_SQNMSXorAK a) ak))"

section \<open>Finding attributes in a packet\<close>

definition FindAttribute :: "Attribute list \<Rightarrow> u8 \<Rightarrow> Attribute option" where
  "FindAttribute attrs attributeType = find (\<lambda>a. attr_Type a = attributeType) attrs"

definition FindSingleAttribute :: "Attribute list \<Rightarrow> u8 \<Rightarrow> Attribute option res" where
  "FindSingleAttribute attrs attributeType =
     (case filter (\<lambda>a. attr_Type a = attributeType) attrs of
        [] \<Rightarrow> Inr None
      | [a] \<Rightarrow> Inr (Some a)
      | _ \<Rightarrow> Inl (Err Eap_ErrInvalidAttribute))"

text \<open>The common shape of the \<^verbatim>\<open>...FromAttributes\<close> functions: no attribute, its value, or an error.\<close>

definition valueFromAttributes :: "u8 \<Rightarrow> (Attribute \<Rightarrow> 'v res) \<Rightarrow> Attribute list \<Rightarrow> 'v option res" where
  "valueFromAttributes t val attrs =
     rbind (FindSingleAttribute attrs t) (\<lambda>r.
       case r of None \<Rightarrow> Inr None | Some a \<Rightarrow> rbind (val a) (\<lambda>v. Inr (Some v)))"

definition NotificationFromAttributes :: "Attribute list \<Rightarrow> NotificationInfo option res" where
  "NotificationFromAttributes attrs = valueFromAttributes AttributeNotification Attribute_NotificationInfo attrs"

definition ClientErrorCodeFromAttributes :: "Attribute list \<Rightarrow> u16 option res" where
  "ClientErrorCodeFromAttributes attrs = valueFromAttributes AttributeClientErrorCode ClientErrorCodeValue attrs"

definition CounterFromAttributes :: "Attribute list \<Rightarrow> u16 option res" where
  "CounterFromAttributes attrs = valueFromAttributes AttributeCounter CounterValue attrs"

definition NonceSFromAttributes :: "Attribute list \<Rightarrow> bytes option res" where
  "NonceSFromAttributes attrs = valueFromAttributes AttributeNonceS NonceSValue attrs"

definition CheckcodeFromAttributes :: "Attribute list \<Rightarrow> bytes option res" where
  "CheckcodeFromAttributes attrs = valueFromAttributes AttributeCheckcode CheckcodeValue attrs"

definition CounterTooSmallFromAttributes :: "Attribute list \<Rightarrow> bool res" where
  "CounterTooSmallFromAttributes attrs =
     rbind (FindSingleAttribute attrs AttributeCounterTooSmall) (\<lambda>r.
       case r of None \<Rightarrow> Inr False | Some a \<Rightarrow> rbind (CounterTooSmallValue a) (\<lambda>_. Inr True))"

definition ResultIndFromAttributes :: "Attribute list \<Rightarrow> bool res" where
  "ResultIndFromAttributes attrs =
     rbind (FindSingleAttribute attrs AttributeResultInd) (\<lambda>r.
       case r of None \<Rightarrow> Inr False | Some a \<Rightarrow> rbind (ResultIndValue a) (\<lambda>_. Inr True))"

definition ParseNotificationRequest :: "Packet \<Rightarrow> NotificationInfo res" where
  "ParseNotificationRequest request =
     (if pkt_Code request \<noteq> CodeRequest \<or> pkt_Subtype request \<noteq> SubtypeNotification
      then Inl (Err Eap_ErrInvalidPacket)
      else if \<not> isAKAType (pkt_Type request) then Inl (Err Eap_ErrInvalidPacket)
      else rbind (NotificationFromAttributes (pkt_Attributes request)) (\<lambda>r.
        case r of None \<Rightarrow> Inl (Err Eap_ErrInvalidAttribute) | Some info \<Rightarrow> Inr info))"

definition ParseClientErrorResponse :: "Packet \<Rightarrow> u16 res" where
  "ParseClientErrorResponse response =
     (if pkt_Code response \<noteq> CodeResponse \<or> pkt_Subtype response \<noteq> SubtypeClientError
      then Inl (Err Eap_ErrInvalidPacket)
      else if \<not> isAKAType (pkt_Type response) then Inl (Err Eap_ErrInvalidPacket)
      else rbind (ClientErrorCodeFromAttributes (pkt_Attributes response)) (\<lambda>r.
        case r of None \<Rightarrow> Inl (Err Eap_ErrInvalidAttribute) | Some code \<Rightarrow> Inr code))"

fun kdfValues :: "Attribute list \<Rightarrow> u16 list res" where
  "kdfValues [] = Inr []"
| "kdfValues (a # attrs) =
     (if attr_Type a \<noteq> AttributeKDF then kdfValues attrs
      else rbind (KDFValue a) (\<lambda>v. rbind (kdfValues attrs) (\<lambda>vs. Inr (v # vs))))"

definition ParseSynchronizationFailureResponse :: "Packet \<Rightarrow> SynchronizationFailureInfo res" where
  "ParseSynchronizationFailureResponse response =
     (if pkt_Code response \<noteq> CodeResponse \<or> pkt_Subtype response \<noteq> SubtypeSynchronizationFailure
      then Inl (Err Eap_ErrInvalidPacket)
      else if \<not> isAKAType (pkt_Type response) then Inl (Err Eap_ErrInvalidPacket)
      else rbind (FindSingleAttribute (pkt_Attributes response) AttributeAUTS) (\<lambda>r.
        case r of
          None \<Rightarrow> Inl (Err Eap_ErrInvalidAttribute)
        | Some attr \<Rightarrow>
            rbind (AUTSValue attr) (\<lambda>auts.
            rbind (ParseAUTS auts) (\<lambda>fields.
            rbind (kdfValues (pkt_Attributes response)) (\<lambda>kdfs.
              if pkt_Type response = TypeAKAPrime \<and> length kdfs = 0 then Inl (Err Eap_ErrInvalidAttribute)
              else Inr \<lparr>sfi_AUTS = auts, sfi_AUTSFields = fields, sfi_KDFValues = kdfs\<rparr>)))))"

definition clientErrorRecoveryAction :: "u16 \<Rightarrow> AKARecoveryAction" where
  "clientErrorRecoveryAction code =
     (if code = ClientErrorInsufficientChallenges \<or> code = ClientErrorRANDNotFresh then AKARecoveryRetry
      else AKARecoveryFail)"

abbreviation recoveryDecision :: "AKARecoveryAction \<Rightarrow> AKARecoveryDecision" where
  "recoveryDecision act \<equiv> \<lparr>rd_Action = act, rd_SyncFailure = False, rd_AuthFailure = False,
     rd_ClientError = False, rd_ClientErrorCode = 0, rd_SyncInfo = None\<rparr>"

definition ClassifyAKARecoveryPacket :: "Packet \<Rightarrow> AKARecoveryDecision option res" where
  "ClassifyAKARecoveryPacket packet =
     (if pkt_Code packet = CodeFailure then Inr (Some (recoveryDecision AKARecoveryFail))
      else if pkt_Code packet \<noteq> CodeResponse then Inr None
      else if pkt_Subtype packet = SubtypeSynchronizationFailure
      then rbind (ParseSynchronizationFailureResponse packet) (\<lambda>info.
        Inr (Some ((recoveryDecision AKARecoveryResync)\<lparr>rd_SyncFailure := True, rd_SyncInfo := Some info\<rparr>)))
      else if pkt_Subtype packet = SubtypeAuthenticationReject
      then (if \<not> isAKAType (pkt_Type packet) then Inl (Err Eap_ErrInvalidPacket)
            else Inr (Some ((recoveryDecision AKARecoveryFail)\<lparr>rd_AuthFailure := True\<rparr>)))
      else if pkt_Subtype packet = SubtypeClientError
      then rbind (ParseClientErrorResponse packet) (\<lambda>code.
        Inr (Some ((recoveryDecision (clientErrorRecoveryAction code))
          \<lparr>rd_ClientError := True, rd_ClientErrorCode := code\<rparr>)))
      else Inr None)"

fun identityState_loop :: "Attribute list \<Rightarrow> EncryptedIdentityState \<Rightarrow> EncryptedIdentityState res" where
  "identityState_loop [] out = Inr out"
| "identityState_loop (a # attrs) out =
     (if attr_Type a = AttributeNextPseudonym
      then rbind (NextPseudonymValue a) (\<lambda>v. identityState_loop attrs (out\<lparr>eis_NextPseudonym := v\<rparr>))
      else if attr_Type a = AttributeNextReauthID
      then rbind (NextReauthIDValue a) (\<lambda>v. identityState_loop attrs (out\<lparr>eis_NextReauthID := v\<rparr>))
      else identityState_loop attrs out)"

definition IdentityStateFromAttributes :: "Attribute list \<Rightarrow> EncryptedIdentityState res" where
  "IdentityStateFromAttributes attrs =
     identityState_loop attrs \<lparr>eis_NextPseudonym = [], eis_NextReauthID = []\<rparr>"

section \<open>Validation\<close>

abbreviation ignore_value :: "'v res \<Rightarrow> unit res" where
  "ignore_value r \<equiv> rbind r (\<lambda>_. Inr ())"

definition ValidateAttribute :: "Attribute \<Rightarrow> unit res" where
  "ValidateAttribute a =
     (let t = attr_Type a in
      if t = AttributeRAND then ignore_value (RANDValues a)
      else if t = AttributeAUTN then ignore_value (AUTNValues a)
      else if t = AttributeRES then ignore_value (RESValue a)
      else if t = AttributeAUTS then ignore_value (AUTSValue a)
      else if t = AttributePadding
      then (let totalLength = length (attr_Data a) + 2 in
            if totalLength \<noteq> 4 \<and> totalLength \<noteq> 8 \<and> totalLength \<noteq> 12 then Inl (Err Eap_ErrInvalidAttribute)
            else requireZeroBytes (attr_Data a))
      else if t = AttributePermanentIDReq \<or> t = AttributeAnyIDReq \<or> t = AttributeFullAuthIDReq
      then ignore_value (fixedValueExact 0 a)
      else if t = AttributeMAC then ignore_value (MACValue a)
      else if t = AttributeNotification then ignore_value (NotificationValue a)
      else if t = AttributeIdentity then ignore_value (IdentityValue a)
      else if t = AttributeVersionList then ignore_value (VersionListValue a)
      else if t = AttributeSelectedVersion then ignore_value (SelectedVersionValue a)
      else if t = AttributeCounter then ignore_value (CounterValue a)
      else if t = AttributeCounterTooSmall then CounterTooSmallValue a
      else if t = AttributeNonceS then ignore_value (NonceSValue a)
      else if t = AttributeClientErrorCode then ignore_value (ClientErrorCodeValue a)
      else if t = AttributeKDFInput then ignore_value (KDFInputValue a)
      else if t = AttributeKDF then ignore_value (KDFValue a)
      else if t = AttributeIV then ignore_value (IVValue a)
      else if t = AttributeEncrData then ignore_value (EncrDataValue a)
      else if t = AttributeNextPseudonym then ignore_value (NextPseudonymValue a)
      else if t = AttributeNextReauthID then ignore_value (NextReauthIDValue a)
      else if t = AttributeCheckcode then ignore_value (CheckcodeValue a)
      else if t = AttributeResultInd then ResultIndValue a
      else if t = AttributeBidding then ignore_value (BiddingValue a)
      else Inr ())"

fun ValidateAttributes :: "Attribute list \<Rightarrow> unit res" where
  "ValidateAttributes [] = Inr ()"
| "ValidateAttributes (a # attrs) = rbind (ValidateAttribute a) (\<lambda>_. ValidateAttributes attrs)"

section \<open>Attributes on the wire: lemmas\<close>

text \<open>\<open>wire a\<close> is the attribute as the receiver sees it: the data padded with zeros to a whole
  number of four-octet units.  \<open>fits\<close> is the bound on its length.\<close>

definition fits :: "Attribute \<Rightarrow> bool" where
  "fits a \<longleftrightarrow> length (attr_Data a) \<le> 1018"

definition wire :: "Attribute \<Rightarrow> Attribute" where
  "wire a = a\<lparr>attr_Data := attr_Data a @ replicate (paddingFor4 (2 + length (attr_Data a))) 0\<rparr>"

definition aligned :: "Attribute \<Rightarrow> bool" where
  "aligned a \<longleftrightarrow> length (attr_Data a) mod 4 = 2 \<and> length (attr_Data a) \<le> 1018"

definition eap_attr_enc :: "Attribute \<Rightarrow> bytes" where
  "eap_attr_enc a = [attr_Type a, go_byte ((2 + length (attr_Data a)) div 4)] @ attr_Data a"

lemma wire_type [simp]: "attr_Type (wire a) = attr_Type a"
  by (simp add: wire_def)

lemma paddingFor4_less: "paddingFor4 n < 4"
  by (simp add: paddingFor4_def)

lemma mod4_paddingFor4: "(n + paddingFor4 n) mod 4 = 0"
  unfolding paddingFor4_def by presburger

lemma fits_padded:
  assumes "fits a"
  shows "2 + length (attr_Data a) + paddingFor4 (2 + length (attr_Data a)) \<le> 1020"
  using assms mod4_paddingFor4 [of "2 + length (attr_Data a)"] paddingFor4_less [of "2 + length (attr_Data a)"]
  unfolding fits_def by presburger

lemma aligned_wire: "fits a \<Longrightarrow> aligned (wire a)"
  using fits_padded [of a] mod4_paddingFor4 [of "2 + length (attr_Data a)"]
  by (simp add: aligned_def wire_def) presburger

lemma wire_aligned [simp]: "aligned a \<Longrightarrow> wire a = a"
  unfolding aligned_def wire_def paddingFor4_def by (simp add: mod_simps) presburger

lemma Attribute_MarshalBinary_fits:
  "fits a \<Longrightarrow> Attribute_MarshalBinary a = Inr (eap_attr_enc (wire a))"
proof -
  assume f: "fits a"
  have "4 \<le> 2 + length (attr_Data a) + paddingFor4 (2 + length (attr_Data a))"
    using mod4_paddingFor4 [of "2 + length (attr_Data a)"] by presburger
  with fits_padded [OF f] show ?thesis
    by (simp add: Attribute_MarshalBinary_def Let_def wire_def eap_attr_enc_def add.assoc)
qed

lemma Attribute_MarshalBinary_not_fits:
  "\<not> fits a \<Longrightarrow> Attribute_MarshalBinary a = Inl (Err Eap_ErrInvalidAttribute)"
  by (simp add: Attribute_MarshalBinary_def Let_def fits_def)

lemma MarshalAttributes_fits:
  "list_all fits attrs \<Longrightarrow> MarshalAttributes attrs = Inr (concat (map eap_attr_enc (map wire attrs)))"
  unfolding MarshalAttributes_def
  by (induction attrs) (auto simp: Attribute_MarshalBinary_fits)

lemma MarshalAttributes_fitsD: "MarshalAttributes attrs = Inr b \<Longrightarrow> list_all fits attrs"
  unfolding MarshalAttributes_def list_all_iff
  by (metis Attribute_MarshalBinary_not_fits Inr_Inl_False encode_all_Inr_D)

lemma units_mod4: "0 < k \<Longrightarrow> Suc (Suc (k * 4 - 4)) mod 4 = 2"
proof (cases k)
  case (Suc j)
  have "Suc (Suc (j * 4)) mod 4 = 2" by presburger
  with Suc show ?thesis by simp
qed simp

interpretation eap_attr: exact_stream_item eap_attr_enc parseAttribute1 aligned
proof
  fix x :: Attribute and rest :: bytes
  assume x: "aligned x"
  have n: "length (attr_Data x) \<ge> 2" "(2 + length (attr_Data x)) div 4 * 4 = 2 + length (attr_Data x)"
    "(2 + length (attr_Data x)) div 4 < 256"
    using x unfolding aligned_def by presburger+
  show "parseAttribute1 (eap_attr_enc x @ rest) = Inr (x, rest)"
    using n by (simp add: parseAttribute1_def eap_attr_enc_def Let_def)
next
  fix x :: Attribute
  show "eap_attr_enc x \<noteq> []" by (simp add: eap_attr_enc_def)
next
  fix d x and rest :: bytes
  assume "parseAttribute1 d = Inr (x, rest)"
  then show "length rest < length d"
    by (auto simp: parseAttribute1_def Let_def rbind_eq_Inr_iff idx_def split: if_splits)
next
  fix d :: bytes
  show "safe (parseAttribute1 d)"
    by (auto simp: parseAttribute1_def Let_def idx_def)
next
  fix d x and rest :: bytes
  assume p: "parseAttribute1 d = Inr (x, rest)"
  then have l4: "\<not> length d < 4" by (auto simp: parseAttribute1_def)
  then obtain t b1 b2 b3 ds where d: "d = t # b1 # b2 # b3 # ds" by (rule length4_cases)
  have x: "attr_Type x = t" "attr_Data x = b2 # b3 # take (unat b1 * 4 - 4) ds"
    "rest = drop (unat b1 * 4 - 4) ds" "4 \<le> unat b1 * 4" "unat b1 * 4 \<le> 4 + length ds"
    using p unfolding d
    by (auto simp: parseAttribute1_def Let_def take_Cons' split: if_splits)
  have len: "length (attr_Data x) = Suc (Suc (unat b1 * 4 - 4))" using x by simp
  then have "aligned x"
    using x units_mod4 [of "unat b1"] unat_u8_less [of b1] unfolding aligned_def by simp
  moreover have "(2 + length (attr_Data x)) div 4 = unat b1"
    using x(4) unfolding len by presburger
  ultimately show "aligned x \<and> d = eap_attr_enc x @ rest"
    using x by (simp add: eap_attr_enc_def d)
qed

lemma ParseAttributes_MarshalAttributes:
  "list_all fits attrs \<Longrightarrow> rbind (MarshalAttributes attrs) ParseAttributes = Inr (map wire attrs)"
  by (simp add: MarshalAttributes_fits ParseAttributes_def eap_attr.many_enc list_all_iff aligned_wire
      del: map_map)

lemma parseAttribute1_only_errs: "only_errs {Err Eap_ErrInvalidAttribute} (parseAttribute1 d)"
  by (auto simp: parseAttribute1_def Let_def idx_def)

lemma ParseAttributes_only_errs: "only_errs {Err Eap_ErrInvalidAttribute} (ParseAttributes d)"
  unfolding ParseAttributes_def
  by (rule many_only_errs [OF parseAttribute1_only_errs eap_attr.item_shrinks])

section \<open>Packets on the wire\<close>

definition eap_packet_wf :: "Packet \<Rightarrow> bool" where
  "eap_packet_wf p \<longleftrightarrow>
     (if pkt_Code p = CodeSuccess \<or> pkt_Code p = CodeFailure
      then pkt_Type p = 0 \<and> pkt_Subtype p = 0 \<and> pkt_Attributes p = [] \<and> pkt_Data p = []
      else (pkt_Code p = CodeRequest \<or> pkt_Code p = CodeResponse) \<and>
        (if pkt_Type p = TypeAKA \<or> pkt_Type p = TypeAKAPrime
         then pkt_Data p = [] \<and> list_all aligned (pkt_Attributes p) \<and>
           length (concat (map eap_attr_enc (pkt_Attributes p))) \<le> 65527
         else pkt_Type p \<noteq> 0 \<and> pkt_Subtype p = 0 \<and> pkt_Attributes p = [] \<and>
           3 \<le> length (pkt_Data p) \<and> length (pkt_Data p) \<le> 65530))"

lemma aligned_fits: "aligned a \<Longrightarrow> fits a"
  by (simp add: aligned_def fits_def)

lemma map_wire_aligned: "list_all aligned attrs \<Longrightarrow> map wire attrs = attrs"
  by (induction attrs) auto

lemma MarshalAttributes_aligned:
  "list_all aligned attrs \<Longrightarrow> MarshalAttributes attrs = Inr (concat (map eap_attr_enc attrs))"
  using MarshalAttributes_fits [of attrs] map_wire_aligned [of attrs]
  by (auto simp: list_all_iff aligned_fits simp del: map_map)

lemma ParsePacket_AKA:
  assumes "code = CodeRequest \<or> code = CodeResponse" and "ty = TypeAKA \<or> ty = TypeAKAPrime"
    and "length ab \<le> 65527"
  shows "ParsePacket ([code, ident] @ PutUint16 (go_uint16 (8 + length ab)) @ [ty, st, r1, r2] @ ab) =
    rbind (ParseAttributes ab) (\<lambda>attrs.
      Inr \<lparr>pkt_Code = code, pkt_Identifier = ident, pkt_Type = ty, pkt_Subtype = st,
           pkt_Attributes = attrs, pkt_Data = []\<rparr>)"
  using assms
  by (auto simp: ParsePacket_def PutUint16_def isEAPCode_def Let_def nth_Cons' intro!: arg_cong [where f = "rbind _"])

lemma ParsePacket_other:
  assumes "code = CodeRequest \<or> code = CodeResponse" and "ty \<noteq> TypeAKA" "ty \<noteq> TypeAKAPrime"
    and "3 \<le> length d" "length d \<le> 65530"
  shows "ParsePacket ([code, ident] @ PutUint16 (go_uint16 (5 + length d)) @ [ty] @ d) =
    Inr \<lparr>pkt_Code = code, pkt_Identifier = ident, pkt_Type = ty, pkt_Subtype = 0,
         pkt_Attributes = [], pkt_Data = d\<rparr>"
  using assms
  by (auto simp: ParsePacket_def PutUint16_def isEAPCode_def Let_def nth_Cons')

interpretation eap_packet: codec Packet_MarshalBinary ParsePacket eap_packet_wf
proof
  fix p :: Packet
  assume "eap_packet_wf p"
  then show "\<exists>b. Packet_MarshalBinary p = Inr b"
    by (auto simp: eap_packet_wf_def Packet_MarshalBinary_def isEAPCode_def Let_def
        MarshalAttributes_aligned split: if_splits)
next
  fix p :: Packet and b
  assume wf: "eap_packet_wf p" and m: "Packet_MarshalBinary p = Inr b"
  obtain code ident ty st attrs d where p: "p = \<lparr>pkt_Code = code, pkt_Identifier = ident, pkt_Type = ty,
      pkt_Subtype = st, pkt_Attributes = attrs, pkt_Data = d\<rparr>"
    by (cases p) auto
  consider "code = CodeSuccess \<or> code = CodeFailure"
    | "code = CodeRequest \<or> code = CodeResponse" "ty = TypeAKA \<or> ty = TypeAKAPrime"
    | "code = CodeRequest \<or> code = CodeResponse" "ty \<noteq> TypeAKA" "ty \<noteq> TypeAKAPrime"
    using wf by (auto simp: eap_packet_wf_def p split: if_splits)
  then show "ParsePacket b = Inr p"
  proof cases
    case 1
    then show ?thesis
      using wf m
      by (auto simp: p eap_packet_wf_def Packet_MarshalBinary_def isEAPCode_def ParsePacket_def u16_of_def)
  next
    case 2
    let ?ab = "concat (map eap_attr_enc attrs)"
    have w: "d = []" "list_all aligned attrs" "length ?ab \<le> 65527"
      using wf 2 by (auto simp: p eap_packet_wf_def)
    have "b = [code, ident] @ PutUint16 (go_uint16 (8 + length ?ab)) @ [ty, st, 0, 0] @ ?ab"
      using m 2 w by (auto simp: p Packet_MarshalBinary_def isEAPCode_def MarshalAttributes_aligned Let_def)
    then show ?thesis
      using ParsePacket_AKA [OF 2 w(3)] w by (simp add: p ParseAttributes_def eap_attr.many_enc)
  next
    case 3
    have w: "ty \<noteq> 0" "st = 0" "attrs = []" "3 \<le> length d" "length d \<le> 65530"
      using wf 3 by (auto simp: p eap_packet_wf_def)
    have "b = [code, ident] @ PutUint16 (go_uint16 (5 + length d)) @ [ty] @ d"
      using m 3 w by (cases d) (auto simp: p Packet_MarshalBinary_def isEAPCode_def Let_def)
    then show ?thesis
      using ParsePacket_other [OF 3 w(4,5)] w by (simp add: p)
  qed
qed

lemma ParsePacket_only_errs:
  "only_errs {Err Eap_ErrInvalidPacket, Err Eap_ErrInvalidAttribute} (ParsePacket d)"
proof -
  have a: "only_errs {Err Eap_ErrInvalidPacket, Err Eap_ErrInvalidAttribute} (ParseAttributes ab)" for ab
    by (rule only_errs_mono [OF ParseAttributes_only_errs]) simp
  show ?thesis
    by (auto simp: ParsePacket_def Let_def idx_def intro!: only_errs_rbind a)
qed

section \<open>Typed values across the wire\<close>

text \<open>
  A typed attribute: a builder, a reader and the values they are meant for.  The reader returns the
  value from the attribute as it arrives, padding included.
\<close>

locale attribute_value =
  fixes t :: u8 and build :: "'v \<Rightarrow> Attribute" and val :: "Attribute \<Rightarrow> 'v res" and ok :: "'v \<Rightarrow> bool"
  assumes build_type: "attr_Type (build v) = t"
    and build_fits: "ok v \<Longrightarrow> fits (build v)"
    and val_wire: "ok v \<Longrightarrow> val (wire (build v)) = Inr v"
begin

lemma find_built:
  assumes "ok v" and "\<forall>a \<in> set (as @ bs). attr_Type a \<noteq> t"
  shows "valueFromAttributes t val (map wire (as @ build v # bs)) = Inr (Some v)"
proof -
  have none: "filter (\<lambda>a. attr_Type a = t) (map wire xs) = []" if "set xs \<subseteq> set (as @ bs)" for xs
    using assms(2) that by (auto simp: filter_empty_conv)
  have "filter (\<lambda>a. attr_Type a = t) (map wire (as @ build v # bs)) = [wire (build v)]"
    using none [of as] none [of bs] by (simp add: build_type)
  then show ?thesis
    by (simp add: valueFromAttributes_def FindSingleAttribute_def val_wire [OF assms(1)])
qed

text \<open>The value written by the builder is read back from the encoded attributes.\<close>

lemma value_survives:
  assumes "ok v" and "list_all fits (as @ bs)" and "\<forall>a \<in> set (as @ bs). attr_Type a \<noteq> t"
  shows "rbind (rbind (MarshalAttributes (as @ build v # bs)) ParseAttributes) (valueFromAttributes t val)
    = Inr (Some v)"
proof -
  have "list_all fits (as @ build v # bs)" using assms(1,2) build_fits by simp
  then show ?thesis
    using find_built [OF assms(1,3)] by (simp add: ParseAttributes_MarshalAttributes)
qed

end

lemma paddingFor4_plus4 [simp]:
  "paddingFor4 (4 + n) = paddingFor4 n" "paddingFor4 (Suc (Suc (Suc (Suc n)))) = paddingFor4 n"
proof -
  have "(4 + n) mod 4 = n mod 4" "Suc (Suc (Suc (Suc n))) mod 4 = n mod 4" by presburger+
  then show "paddingFor4 (4 + n) = paddingFor4 n" "paddingFor4 (Suc (Suc (Suc (Suc n)))) = paddingFor4 n"
    by (simp_all add: paddingFor4_def)
qed

lemma requireReservedZero_00 [simp]: "requireReservedZero (0 # 0 # xs) = Inr ()"
  by (simp add: requireReservedZero_def requireZeroBytes_def)

lemma requireZeroBytes_replicate [simp]: "requireZeroBytes (replicate n 0) = Inr ()"
  by (simp add: requireZeroBytes_def list_ex_iff)

lemma wire_FixedAttribute:
  "wire (FixedAttribute t v) =
   \<lparr>attr_Type = t, attr_Data = 0 # 0 # v @ replicate (paddingFor4 (length v)) 0\<rparr>"
  by (simp add: wire_def FixedAttribute_def)

lemma wire_VariableAttribute:
  "wire (VariableAttribute t v) =
   \<lparr>attr_Type = t, attr_Data = PutUint16 (go_uint16 (length v)) @ v @ replicate (paddingFor4 (length v)) 0\<rparr>"
  by (simp add: wire_def VariableAttribute_def)

lemma fixedValueExact_wire: "length v = n \<Longrightarrow> fixedValueExact n (wire (FixedAttribute t v)) = Inr v"
  by (simp add: fixedValueExact_def wire_FixedAttribute Let_def)

lemma VariableValue_wire:
  "length v \<le> 1016 \<Longrightarrow> VariableValue (wire (VariableAttribute t v)) = Inr v"
  by (simp add: VariableValue_def wire_VariableAttribute PutUint16_def Let_def)

lemma wire_uint16Attribute [simp]: "wire (uint16Attribute t v) = uint16Attribute t v"
  by (simp add: uint16Attribute_def aligned_def)

lemma directUint16Value_wire: "directUint16Value (uint16Attribute t v) = Inr v"
  by (simp add: directUint16Value_def uint16Attribute_def PutUint16_def)

lemma fits_simps [simp]:
  "fits (FixedAttribute t v) \<longleftrightarrow> length v \<le> 1016" "fits (VariableAttribute t v) \<longleftrightarrow> length v \<le> 1016"
  "fits (uint16Attribute t w)"
  by (simp_all add: fits_def FixedAttribute_def VariableAttribute_def uint16Attribute_def)

lemma attr_Type_simps [simp]:
  "attr_Type (FixedAttribute t v) = t" "attr_Type (VariableAttribute t v) = t"
  "attr_Type (uint16Attribute t w) = t"
  by (simp_all add: FixedAttribute_def VariableAttribute_def uint16Attribute_def)

interpretation auts: attribute_value AttributeAUTS AUTSAttribute AUTSValue "\<lambda>v. length v = AUTSLength"
  by unfold_locales (simp_all add: AUTSAttribute_def AUTSValue_def fixedValueExact_wire)

interpretation autn: attribute_value AttributeAUTN AUTNAttribute AUTNValue "\<lambda>v. length v = AUTNLength"
  by unfold_locales (simp_all add: AUTNAttribute_def AUTNValue_def fixedValueExact_wire)

interpretation nonce_s: attribute_value AttributeNonceS NonceSAttribute NonceSValue "\<lambda>v. length v = RANDLength"
  by unfold_locales (simp_all add: NonceSAttribute_def NonceSValue_def fixedValueExact_wire)

interpretation eap_identity: attribute_value AttributeIdentity IdentityAttribute IdentityValue "\<lambda>v. length v \<le> 1016"
  by unfold_locales (simp_all add: IdentityAttribute_def IdentityValue_def VariableValue_wire)

interpretation next_pseudonym:
  attribute_value AttributeNextPseudonym NextPseudonymAttribute NextPseudonymValue "\<lambda>v. length v \<le> 1016"
  by unfold_locales (simp_all add: NextPseudonymAttribute_def NextPseudonymValue_def VariableValue_wire)

interpretation next_reauth_id:
  attribute_value AttributeNextReauthID NextReauthIDAttribute NextReauthIDValue "\<lambda>v. length v \<le> 1016"
  by unfold_locales (simp_all add: NextReauthIDAttribute_def NextReauthIDValue_def VariableValue_wire)

interpretation counter: attribute_value AttributeCounter CounterAttribute CounterValue "\<lambda>_. True"
  by unfold_locales (simp_all add: CounterAttribute_def CounterValue_def directUint16Value_wire)

interpretation client_error:
  attribute_value AttributeClientErrorCode ClientErrorCodeAttribute ClientErrorCodeValue "\<lambda>_. True"
  by unfold_locales (simp_all add: ClientErrorCodeAttribute_def ClientErrorCodeValue_def directUint16Value_wire)

interpretation selected_version:
  attribute_value AttributeSelectedVersion SelectedVersionAttribute SelectedVersionValue "\<lambda>_. True"
  by unfold_locales (simp_all add: SelectedVersionAttribute_def SelectedVersionValue_def directUint16Value_wire)

section \<open>Properties\<close>

text \<open>A well-formed EAP packet survives encoding and decoding: EAP-Success and EAP-Failure with
  their identifier, EAP-AKA and EAP-AKA' packets with their subtype and every attribute, and packets
  of another EAP type with at least three octets of data.\<close>

theorem eap_packet_roundtrip:
  assumes "eap_packet_wf p"
  shows "rbind (Packet_MarshalBinary p) ParsePacket = Inr p"
  using assms by (rule eap_packet.roundtrip)

definition demo_eap_packet :: Packet where
  "demo_eap_packet = \<lparr>pkt_Code = CodeResponse, pkt_Identifier = 7, pkt_Type = TypeAKA,
     pkt_Subtype = SubtypeSynchronizationFailure,
     pkt_Attributes = [wire (AUTSAttribute (replicate 14 9)), CounterAttribute 3], pkt_Data = []\<rparr>"

theorem eap_packet_roundtrip_witness:
  "eap_packet_wf demo_eap_packet \<and> rbind (Packet_MarshalBinary demo_eap_packet) ParsePacket = Inr demo_eap_packet"
proof -
  have "eap_packet_wf demo_eap_packet"
    by (simp add: eap_packet_wf_def demo_eap_packet_def aligned_def AUTSAttribute_def wire_FixedAttribute
        CounterAttribute_def uint16Attribute_def eap_attr_enc_def paddingFor4_def)
  then show ?thesis using eap_packet_roundtrip by blast
qed

text \<open>Whatever the octets, decoding an EAP packet returns, and when it fails the error is the
  invalid-packet or the invalid-attribute sentinel: no index or slice is out of range.\<close>

theorem ParsePacket_error_classes:
  "only_errs {Err Eap_ErrInvalidPacket, Err Eap_ErrInvalidAttribute} (ParsePacket d)"
  by (rule ParsePacket_only_errs)

text \<open>The checkcode attribute built over the identity packets and sent over the wire is accepted
  by the verifier exactly when the SHA-1 digests of the packets on the two sides agree or, for a
  builder that saw none, when the verifier saw none either.\<close>

theorem checkcode_agreement:
  assumes "\<forall>m. length (cr_sha1 c m) = 20"
  shows "VerifyCheckcodeAttribute c (wire (CheckcodeAttributeForPackets c sent)) seen = Inr () \<longleftrightarrow>
    (if sent = [] then seen = [] else IdentityCheckcode c sent = IdentityCheckcode c seen)"
proof (cases "sent = []")
  case True
  then show ?thesis
    by (simp add: VerifyCheckcodeAttribute_def CheckcodeAttributeForPackets_def CheckcodeValue_def
        CheckcodeAttribute_def wire_FixedAttribute paddingFor4_def IdentityCheckcode_def)
next
  case False
  have l: "length (IdentityCheckcode c sent) = 20"
    using assms by (simp add: IdentityCheckcode_def)
  have "CheckcodeValue (wire (CheckcodeAttributeForPackets c sent)) = Inr (IdentityCheckcode c sent)"
    using False l
    by (simp add: CheckcodeAttributeForPackets_def CheckcodeValue_def CheckcodeAttribute_def
        wire_FixedAttribute paddingFor4_def)
  moreover have "IdentityCheckcode c sent \<noteq> []" using l by auto
  ultimately show ?thesis
    using False by (simp add: VerifyCheckcodeAttribute_def)
qed

theorem checkcode_agreement_witness:
  "(\<forall>m. length (cr_sha1 demo_crypto m) = 20) \<and>
   VerifyCheckcodeAttribute demo_crypto (wire (CheckcodeAttributeForPackets demo_crypto [[1, 2], [3]])) [[1, 2], [3]]
     = Inr () \<and>
   VerifyCheckcodeAttribute demo_crypto (wire (CheckcodeAttributeForPackets demo_crypto [[1, 2], [3]])) [[1, 2]]
     \<noteq> Inr ()"
proof -
  have d: "\<forall>m. length (cr_sha1 demo_crypto m) = 20" by (simp add: demo_crypto_def)
  have "IdentityCheckcode demo_crypto [[1, 2], [3]] \<noteq> IdentityCheckcode demo_crypto [[1, 2]]"
    by (simp add: IdentityCheckcode_def demo_crypto_def demo_sum_def)
  then show ?thesis
    using d checkcode_agreement [OF d, of "[[1, 2], [3]]" "[[1, 2], [3]]"]
      checkcode_agreement [OF d, of "[[1, 2], [3]]" "[[1, 2]]"] by simp
qed

text \<open>A packet of another EAP type with one or two octets of data is encoded without an error,
  and the decoder refuses the encoding: the minimum of eight octets that holds for EAP-AKA is applied
  before the type is looked at.\<close>

theorem short_legacy_packet_not_decodable:
  assumes "pkt_Code p = CodeRequest \<or> pkt_Code p = CodeResponse"
    and "pkt_Type p \<noteq> TypeAKA" and "pkt_Type p \<noteq> TypeAKAPrime" and "pkt_Type p \<noteq> 0"
    and "length (pkt_Data p) = 1 \<or> length (pkt_Data p) = 2"
  shows "\<exists>b. Packet_MarshalBinary p = Inr b \<and> ParsePacket b = Inl (Err Eap_ErrInvalidPacket)"
proof -
  have "Packet_MarshalBinary p =
      Inr ([pkt_Code p, pkt_Identifier p] @ PutUint16 (go_uint16 (5 + length (pkt_Data p))) @ pkt_Type p # pkt_Data p)"
    using assms by (cases "pkt_Data p") (auto simp: Packet_MarshalBinary_def isEAPCode_def Let_def)
  moreover have "unat (u16_of (ucast (drop_bit 8 (go_uint16 n))) (ucast (go_uint16 n))) < 8" if "n < 8" for n
    using that by simp
  ultimately show ?thesis
    using assms by (auto simp: ParsePacket_def PutUint16_def isEAPCode_def Let_def)
qed

theorem short_legacy_packet_not_decodable_witness:
  "let p = \<lparr>pkt_Code = CodeResponse, pkt_Identifier = 1, pkt_Type = 3, pkt_Subtype = 0,
            pkt_Attributes = [], pkt_Data = [50]\<rparr> in
   \<exists>b. Packet_MarshalBinary p = Inr b \<and> ParsePacket b = Inl (Err Eap_ErrInvalidPacket)"
  unfolding Let_def by (rule short_legacy_packet_not_decodable) simp_all

end
