(* ===== verification/IKE_Child.thy ===== *)
theory IKE_Child
  imports IKE_Init IKE_Session_Payloads ESP EAP_AKA
begin

text \<open>
  \<^verbatim>\<open>engine/swu/ikev2/childsa.go\<close>: what the client reads from the responder's half of a child SA
  negotiation, and the keys of the two directions; with it the two constructors of
  \<^verbatim>\<open>engine/swu/esp/esp.go\<close> that make ESP security associations of the result.  A nil
  \<^verbatim>\<open>offeredSA\<close> (here \<open>offered\<close>) or \<^verbatim>\<open>Configuration\<close> pointer is \<open>None\<close>.
\<close>

section \<open>Data\<close>

record ESPKeyProfile =
  ekp_EncryptionID :: u16
  ekp_EncryptionKeyLength :: int
  ekp_IntegrityID :: u16
  ekp_IntegrityKeyLength :: int
  ekp_ESN :: bool

record ESPKeys =
  ek_EncryptionKey :: bytes
  ek_IntegrityKey :: bytes

record ChildSAKeys =
  ck_Profile :: ESPKeyProfile
  ck_Outbound :: ESPKeys
  ck_Inbound :: ESPKeys

record ChildSAResult =
  cs_SelectedSA :: SecurityAssociation
  cs_TSi :: TrafficSelectors
  cs_TSr :: TrafficSelectors
  cs_Configuration :: "Configuration option"
  cs_LocalSPI :: bytes
  cs_RemoteSPI :: bytes
  cs_Keys :: ChildSAKeys
  cs_EAPSuccess :: bool
  cs_NextMessageID :: u32

definition DirectionKeyLength :: "ESPKeyProfile \<Rightarrow> int" where
  "DirectionKeyLength p = ekp_EncryptionKeyLength p + ekp_IntegrityKeyLength p"

text \<open>The zero values.\<close>

definition NoChildSAKeys :: ChildSAKeys where
  "NoChildSAKeys =
     \<lparr>ck_Profile = \<lparr>ekp_EncryptionID = 0, ekp_EncryptionKeyLength = 0, ekp_IntegrityID = 0,
        ekp_IntegrityKeyLength = 0, ekp_ESN = False\<rparr>,
      ck_Outbound = \<lparr>ek_EncryptionKey = [], ek_IntegrityKey = []\<rparr>,
      ck_Inbound = \<lparr>ek_EncryptionKey = [], ek_IntegrityKey = []\<rparr>\<rparr>"

definition NoChildSAResult :: ChildSAResult where
  "NoChildSAResult =
     \<lparr>cs_SelectedSA = \<lparr>sa_Proposals = []\<rparr>, cs_TSi = \<lparr>tss_Selectors = []\<rparr>, cs_TSr = \<lparr>tss_Selectors = []\<rparr>,
      cs_Configuration = None, cs_LocalSPI = [], cs_RemoteSPI = [], cs_Keys = NoChildSAKeys,
      cs_EAPSuccess = False, cs_NextMessageID = 0\<rparr>"

section \<open>Keys\<close>

text \<open>The part of \<^verbatim>\<open>ESPKeyProfileFromSA\<close> that chooses the integrity algorithm.\<close>

definition espIntegritySelection :: "Proposal \<Rightarrow> Transform \<Rightarrow> (u16 \<times> int) res" where
  "espIntegritySelection p encr =
     (if isCombinedModeEncryption (tr_ID encr)
      then (if findTransform p TransformINTEG \<noteq> None then Inl (Err ErrInvalidChildSA) else Inr (0, 0))
      else (case findTransform p TransformINTEG of
              None \<Rightarrow> Inl (Err ErrInvalidChildSA)
            | Some integ \<Rightarrow> rbind (integrityProfile (tr_ID integ)) (\<lambda>(integLen, _). Inr (tr_ID integ, integLen))))"

definition ESPKeyProfileFromSA :: "SecurityAssociation \<Rightarrow> ESPKeyProfile res" where
  "ESPKeyProfileFromSA sa =
     (if length (sa_Proposals sa) = 0 then Inl (Err ErrInvalidChildSA)
      else rbind (idx 0 (sa_Proposals sa)) (\<lambda>p.
        if prop_ProtocolID p \<noteq> ProtocolESP then Inl (Err ErrInvalidChildSA)
        else case findTransform p TransformENCR of
          None \<Rightarrow> Inl (Err ErrInvalidChildSA)
        | Some encr \<Rightarrow>
            rbind (encryptionProfile encr) (\<lambda>(encrLen, _).
            rbind (espIntegritySelection p encr) (\<lambda>(integID, integLen).
              Inr \<lparr>ekp_EncryptionID = tr_ID encr, ekp_EncryptionKeyLength = encrLen, ekp_IntegrityID = integID,
                   ekp_IntegrityKeyLength = integLen,
                   ekp_ESN = (case findTransform p TransformESN of Some t \<Rightarrow> tr_ID t = ESNYes | None \<Rightarrow> False)\<rparr>))))"

definition splitESPKeys :: "ESPKeyProfile \<Rightarrow> bytes \<Rightarrow> ESPKeys res" where
  "splitESPKeys profile material =
     rbind (subi 0 (ekp_EncryptionKeyLength profile) material) (\<lambda>ek.
     rbind (subi (ekp_EncryptionKeyLength profile) (DirectionKeyLength profile) material) (\<lambda>ik.
       Inr \<lparr>ek_EncryptionKey = ek, ek_IntegrityKey = ik\<rparr>))"

definition DeriveChildSAKeysWithNonces ::
  "crypto \<Rightarrow> hash \<Rightarrow> bytes \<Rightarrow> bytes \<Rightarrow> bytes \<Rightarrow> SecurityAssociation \<Rightarrow> ChildSAKeys res" where
  "DeriveChildSAKeysWithNonces c prf skD nonceI nonceR selectedSA =
     (if length skD = 0 \<or> length nonceI = 0 \<or> length nonceR = 0 then Inl (Err ErrInvalidChildSA)
      else
        rbind (ESPKeyProfileFromSA selectedSA) (\<lambda>profile.
        let dirLen = DirectionKeyLength profile in
        if dirLen \<le> 0 then Inl (Err ErrInvalidChildSA)
        else
          rbind (PRFPlus c prf skD (nonceI @ nonceR) (dirLen * 2)) (\<lambda>keymat.
          rbind (subi 0 dirLen keymat) (\<lambda>o_mat.
          rbind (splitESPKeys profile o_mat) (\<lambda>outbound.
          rbind (subi dirLen (int (length keymat)) keymat) (\<lambda>i_mat.
          rbind (splitESPKeys profile i_mat) (\<lambda>inbound.
            Inr \<lparr>ck_Profile = profile, ck_Outbound = outbound, ck_Inbound = inbound\<rparr>))))))) "

definition DeriveChildSAKeys :: "crypto \<Rightarrow> InitResult \<Rightarrow> SecurityAssociation \<Rightarrow> ChildSAKeys res" where
  "DeriveChildSAKeys c init selectedSA =
     (if kmp_PRF (ik_Profile (ir_Keys init)) = NoHash \<or> length (ik_SKD (ir_Keys init)) = 0
      then Inl (Err ErrInvalidChildSA)
      else DeriveChildSAKeysWithNonces c (kmp_PRF (ik_Profile (ir_Keys init))) (ik_SKD (ir_Keys init))
        (ir_NonceI init) (ir_NonceR init) selectedSA)"

section \<open>The responder's half\<close>

fun childPayloads_loop :: "Payload list \<Rightarrow> ChildSAResult \<Rightarrow> ChildSAResult res" where
  "childPayloads_loop [] out = Inr out"
| "childPayloads_loop (p # ps) out =
     (if pl_Type p = PayloadSA
      then rbind (ParseSecurityAssociation (pl_Body p)) (\<lambda>sa. childPayloads_loop ps (out\<lparr>cs_SelectedSA := sa\<rparr>))
      else if pl_Type p = PayloadTSi
      then rbind (ParseTrafficSelectors (pl_Body p)) (\<lambda>ts. childPayloads_loop ps (out\<lparr>cs_TSi := ts\<rparr>))
      else if pl_Type p = PayloadTSr
      then rbind (ParseTrafficSelectors (pl_Body p)) (\<lambda>ts. childPayloads_loop ps (out\<lparr>cs_TSr := ts\<rparr>))
      else if pl_Type p = PayloadCP
      then rbind (ParseConfiguration (pl_Body p)) (\<lambda>cfg. childPayloads_loop ps (out\<lparr>cs_Configuration := Some cfg\<rparr>))
      else if pl_Type p = PayloadEAP
      then rbind (ParsePacket (pl_Body p)) (\<lambda>pkt.
        childPayloads_loop ps (out\<lparr>cs_EAPSuccess := (pkt_Code pkt = CodeSuccess)\<rparr>))
      else childPayloads_loop ps out)"

text \<open>One of the two checks of the selected traffic selectors.\<close>

definition checkOfferedTS :: "TrafficSelectors \<Rightarrow> TrafficSelectors \<Rightarrow> unit res" where
  "checkOfferedTS offered selected =
     (if length (tss_Selectors offered) > 0
      then (case ValidateTrafficSelectorNarrowing offered selected of
              Inl e \<Rightarrow> Inl (Wrap ErrInvalidChildSA e) | Inr u \<Rightarrow> Inr u)
      else Inr ())"

definition parseChildSAResultWithNonces ::
  "crypto \<Rightarrow> InitResult \<Rightarrow> Payload list \<Rightarrow> bytes \<Rightarrow> bytes \<Rightarrow> bytes \<Rightarrow> SecurityAssociation option \<Rightarrow>
   TrafficSelectors \<Rightarrow> TrafficSelectors \<Rightarrow> ChildSAResult res" where
  "parseChildSAResultWithNonces c init inner localSPI nonceI nonceR offered offeredTSi offeredTSr =
     rbind (childPayloads_loop inner NoChildSAResult) (\<lambda>out.
     if length (sa_Proposals (cs_SelectedSA out)) = 0 then Inl (Err ErrInvalidChildSA)
     else
       rbind (case offered of None \<Rightarrow> Inr () | Some sa \<Rightarrow> ValidateSelectedSA sa (cs_SelectedSA out)) (\<lambda>_.
       rbind (idx 0 (sa_Proposals (cs_SelectedSA out))) (\<lambda>p.
       if length (prop_SPI p) = 0 then Inl (Err ErrInvalidChildSA)
       else if length (tss_Selectors (cs_TSi out)) = 0 then Inl (Err ErrInvalidChildSA)
       else if length (tss_Selectors (cs_TSr out)) = 0 then Inl (Err ErrInvalidChildSA)
       else
         rbind (checkOfferedTS offeredTSi (cs_TSi out)) (\<lambda>_.
         rbind (checkOfferedTS offeredTSr (cs_TSr out)) (\<lambda>_.
         rbind (DeriveChildSAKeysWithNonces c (kmp_PRF (ik_Profile (ir_Keys init))) (ik_SKD (ir_Keys init))
           nonceI nonceR (cs_SelectedSA out)) (\<lambda>keys.
           Inr (out\<lparr>cs_LocalSPI := localSPI, cs_RemoteSPI := prop_SPI p, cs_Keys := keys\<rparr>)))))))"

definition ParseChildSAResultWithNonces ::
  "crypto \<Rightarrow> InitResult \<Rightarrow> Payload list \<Rightarrow> bytes \<Rightarrow> bytes \<Rightarrow> bytes \<Rightarrow> ChildSAResult res" where
  "ParseChildSAResultWithNonces c init inner localSPI nonceI nonceR =
     parseChildSAResultWithNonces c init inner localSPI nonceI nonceR None \<lparr>tss_Selectors = []\<rparr> \<lparr>tss_Selectors = []\<rparr>"

definition ParseChildSAResult :: "crypto \<Rightarrow> InitResult \<Rightarrow> Payload list \<Rightarrow> bytes \<Rightarrow> ChildSAResult res" where
  "ParseChildSAResult c init inner localSPI =
     ParseChildSAResultWithNonces c init inner localSPI (ir_NonceI init) (ir_NonceR init)"

definition parseChildSAResultWithOfferedSA ::
  "crypto \<Rightarrow> InitResult \<Rightarrow> Payload list \<Rightarrow> bytes \<Rightarrow> SecurityAssociation \<Rightarrow> ChildSAResult res" where
  "parseChildSAResultWithOfferedSA c init inner localSPI offered =
     parseChildSAResultWithNonces c init inner localSPI (ir_NonceI init) (ir_NonceR init) (Some offered)
       \<lparr>tss_Selectors = []\<rparr> \<lparr>tss_Selectors = []\<rparr>"

definition firstSecurityAssociation :: "Payload list \<Rightarrow> SecurityAssociation option res" where
  "firstSecurityAssociation payloads =
     (case find (\<lambda>p. pl_Type p = PayloadSA) payloads of
        None \<Rightarrow> Inr None
      | Some p \<Rightarrow> rbind (ParseSecurityAssociation (pl_Body p)) (\<lambda>sa. Inr (Some sa)))"

section \<open>ESP security associations of a child SA\<close>

definition blockSizeForChildProfile :: "ESPKeyProfile \<Rightarrow> nat" where
  "blockSizeForChildProfile p = (if ekp_EncryptionID p = EncryptionAESGCM_16 then aesGCMPaddingAlignment else 16)"

definition icvLengthForChildProfile :: "ESPKeyProfile \<Rightarrow> int" where
  "icvLengthForChildProfile p =
     (if ekp_EncryptionID p = EncryptionAESGCM_16 then 16 else integrityICVLength (ekp_IntegrityID p))"

definition NewOutboundSAFromChild :: "ChildSAResult \<Rightarrow> SA res" where
  "NewOutboundSAFromChild child =
     rbind (spiFromBytes (cs_RemoteSPI child)) (\<lambda>spi.
     let keys = cs_Keys child; profile = ck_Profile keys in
     NewSA \<lparr>esp_SPI = spi, esp_Encryption = ekp_EncryptionID profile,
       esp_EncryptionKey = ek_EncryptionKey (ck_Outbound keys), esp_IntegrityKey = ek_IntegrityKey (ck_Outbound keys),
       esp_Integrity = ekp_IntegrityID profile, esp_ICVLength = icvLengthForChildProfile profile,
       esp_BlockSize = blockSizeForChildProfile profile, esp_Sequence = 0, esp_HighestSequence = 0,
       esp_ReplayWindowSize = 0, esp_ReplayBitmap = 0\<rparr>)"

definition NewInboundSAFromChild :: "ChildSAResult \<Rightarrow> SA res" where
  "NewInboundSAFromChild child =
     rbind (spiFromBytes (cs_LocalSPI child)) (\<lambda>spi.
     let keys = cs_Keys child; profile = ck_Profile keys in
     NewSA \<lparr>esp_SPI = spi, esp_Encryption = ekp_EncryptionID profile,
       esp_EncryptionKey = ek_EncryptionKey (ck_Inbound keys), esp_IntegrityKey = ek_IntegrityKey (ck_Inbound keys),
       esp_Integrity = ekp_IntegrityID profile, esp_ICVLength = icvLengthForChildProfile profile,
       esp_BlockSize = blockSizeForChildProfile profile, esp_Sequence = 0, esp_HighestSequence = 0,
       esp_ReplayWindowSize = 64, esp_ReplayBitmap = 0\<rparr>)"

section \<open>Lemmas\<close>

definition esp_profile_wf :: "ESPKeyProfile \<Rightarrow> bool" where
  "esp_profile_wf p \<longleftrightarrow>
     ekp_EncryptionID p = ENCR_AES_CBC \<and> ekp_EncryptionKeyLength p \<in> {16, 24, 32} \<and>
       (ekp_IntegrityID p, ekp_IntegrityKeyLength p)
         \<in> {(INTEG_HMAC_SHA1_96, 20), (INTEG_HMAC_SHA2_256_128, 32), (INTEG_HMAC_SHA2_384_192, 48),
            (INTEG_HMAC_SHA2_512_256, 64)} \<or>
     ekp_EncryptionID p = ENCR_AES_GCM_16 \<and> ekp_EncryptionKeyLength p \<in> {20, 28, 36} \<and>
       ekp_IntegrityID p = 0 \<and> ekp_IntegrityKeyLength p = 0"

lemma espIntegritySelection_Inr:
  "espIntegritySelection p t = Inr x \<Longrightarrow>
   (if tr_ID t = ENCR_AES_GCM_16 then x = (0, 0) else x \<in> {(2, 20), (12, 32), (13, 48), (14, 64)})"
  by (auto simp: espIntegritySelection_def isCombinedModeEncryption_def integrityProfile_def rbind_eq_Inr_iff
      split: if_splits option.splits)

lemma ESPKeyProfileFromSA_wf:
  assumes "ESPKeyProfileFromSA sa = Inr p"
  shows "esp_profile_wf p"
proof -
  obtain t q b x where e: "encryptionProfile t = Inr (ekp_EncryptionKeyLength p, b)"
    and x: "espIntegritySelection q t = Inr (ekp_IntegrityID p, ekp_IntegrityKeyLength p)"
    and t: "ekp_EncryptionID p = tr_ID t"
    using assms by (auto simp: ESPKeyProfileFromSA_def rbind_eq_Inr_iff split: if_splits option.splits)
  from encryptionProfile_Inr [OF e] espIntegritySelection_Inr [OF x] t show ?thesis
    by (auto simp: esp_profile_wf_def)
qed

lemma esp_profile_wf_pos:
  "esp_profile_wf p \<Longrightarrow> 0 < ekp_EncryptionKeyLength p \<and> 0 \<le> ekp_IntegrityKeyLength p \<and> 0 < DirectionKeyLength p"
  by (auto simp: esp_profile_wf_def DirectionKeyLength_def)

lemma splitESPKeys_cuts:
  assumes "esp_profile_wf p" and "int (length m) = DirectionKeyLength p"
  shows "\<exists>k. splitESPKeys p m = Inr k \<and> ek_EncryptionKey k @ ek_IntegrityKey k = m \<and>
    int (length (ek_EncryptionKey k)) = ekp_EncryptionKeyLength p \<and>
    int (length (ek_IntegrityKey k)) = ekp_IntegrityKeyLength p"
proof -
  obtain e i where n: "ekp_EncryptionKeyLength p = int e" "ekp_IntegrityKeyLength p = int i"
    using esp_profile_wf_pos [OF assms(1)] by (metis zero_le_imp_eq_int less_imp_le)
  then have "length m = e + i" using assms(2) by (simp add: DirectionKeyLength_def)
  with n show ?thesis
    by (simp add: splitESPKeys_def subi_def sub_def DirectionKeyLength_def nat_add_distrib)
qed

text \<open>The key material is cut into the four keys without a gap or an overlap.\<close>

lemma DeriveChildSAKeys_cuts:
  assumes "crypto_ok c" and "DeriveChildSAKeysWithNonces c prf skD ni nr sa = Inr k"
  shows "ESPKeyProfileFromSA sa = Inr (ck_Profile k)"
    "PRFPlus c prf skD (ni @ nr) (DirectionKeyLength (ck_Profile k) * 2) =
       Inr (ek_EncryptionKey (ck_Outbound k) @ ek_IntegrityKey (ck_Outbound k) @
            ek_EncryptionKey (ck_Inbound k) @ ek_IntegrityKey (ck_Inbound k))"
    "\<forall>d \<in> {ck_Outbound k, ck_Inbound k}.
       int (length (ek_EncryptionKey d)) = ekp_EncryptionKeyLength (ck_Profile k) \<and>
       int (length (ek_IntegrityKey d)) = ekp_IntegrityKeyLength (ck_Profile k)"
proof -
  let ?p = "ck_Profile k"
  let ?n = "DirectionKeyLength ?p"
  obtain km om im where p: "ESPKeyProfileFromSA sa = Inr ?p"
    and km: "PRFPlus c prf skD (ni @ nr) (?n * 2) = Inr km"
    and om: "subi 0 ?n km = Inr om" "splitESPKeys ?p om = Inr (ck_Outbound k)"
    and im: "subi ?n (int (length km)) km = Inr im" "splitESPKeys ?p im = Inr (ck_Inbound k)"
    using assms(2) by (auto simp: DeriveChildSAKeysWithNonces_def Let_def rbind_eq_Inr_iff split: if_splits)
  have wf: "esp_profile_wf ?p" using p by (rule ESPKeyProfileFromSA_wf)
  obtain n where n: "?n = int n" using esp_profile_wf_pos [OF wf] by (metis zero_le_imp_eq_int less_imp_le)
  have l: "length km = 2 * n" using PRFPlus_length [OF assms(1) km] n by simp
  have o: "om = take n km" "length om = n" using om(1) n l by (auto simp: subi_def sub_def)
  have i: "im = drop n km" "length im = n"
    using im(1) n l by (auto simp: subi_def sub_def nat_mult_distrib split: if_splits)
  from splitESPKeys_cuts [OF wf, of om] om(2) o n
  have O: "ek_EncryptionKey (ck_Outbound k) @ ek_IntegrityKey (ck_Outbound k) = om"
    "int (length (ek_EncryptionKey (ck_Outbound k))) = ekp_EncryptionKeyLength ?p"
    "int (length (ek_IntegrityKey (ck_Outbound k))) = ekp_IntegrityKeyLength ?p" by auto
  from splitESPKeys_cuts [OF wf, of im] im(2) i n
  have I: "ek_EncryptionKey (ck_Inbound k) @ ek_IntegrityKey (ck_Inbound k) = im"
    "int (length (ek_EncryptionKey (ck_Inbound k))) = ekp_EncryptionKeyLength ?p"
    "int (length (ek_IntegrityKey (ck_Inbound k))) = ekp_IntegrityKeyLength ?p" by auto
  show "ESPKeyProfileFromSA sa = Inr ?p" by (rule p)
  have "ek_EncryptionKey (ck_Outbound k) @ ek_IntegrityKey (ck_Outbound k) @
      ek_EncryptionKey (ck_Inbound k) @ ek_IntegrityKey (ck_Inbound k) = om @ im"
    by (simp flip: O(1) I(1))
  with km o(1) i(1) show "PRFPlus c prf skD (ni @ nr) (?n * 2) =
       Inr (ek_EncryptionKey (ck_Outbound k) @ ek_IntegrityKey (ck_Outbound k) @
            ek_EncryptionKey (ck_Inbound k) @ ek_IntegrityKey (ck_Inbound k))" by simp
  show "\<forall>d \<in> {ck_Outbound k, ck_Inbound k}.
       int (length (ek_EncryptionKey d)) = ekp_EncryptionKeyLength ?p \<and>
       int (length (ek_IntegrityKey d)) = ekp_IntegrityKeyLength ?p"
    using O(2,3) I(2,3) by simp
qed

lemma parseChildSAResult_Inr:
  assumes "parseChildSAResultWithNonces c init inner localSPI ni nr offered oi or' = Inr r"
  shows "offered = Some sa \<Longrightarrow> ValidateSelectedSA sa (cs_SelectedSA r) = Inr ()"
    "tss_Selectors oi \<noteq> [] \<Longrightarrow> ValidateTrafficSelectorNarrowing oi (cs_TSi r) = Inr ()"
    "tss_Selectors or' \<noteq> [] \<Longrightarrow> ValidateTrafficSelectorNarrowing or' (cs_TSr r) = Inr ()"
    "DeriveChildSAKeysWithNonces c (kmp_PRF (ik_Profile (ir_Keys init))) (ik_SKD (ir_Keys init)) ni nr
       (cs_SelectedSA r) = Inr (cs_Keys r)"
    "cs_LocalSPI r = localSPI" "sa_Proposals (cs_SelectedSA r) \<noteq> []"
    "cs_RemoteSPI r = prop_SPI (hd (sa_Proposals (cs_SelectedSA r)))"
  using assms
  by (auto simp: parseChildSAResultWithNonces_def checkOfferedTS_def rbind_eq_Inr_iff hd_conv_nth idx_def
      split: if_splits option.splits sum.splits)

section \<open>The two ends of a child SA\<close>

text \<open>The view of the other end: what is outbound here is inbound there.\<close>

definition mirror :: "ChildSAResult \<Rightarrow> ChildSAResult" where
  "mirror r = r\<lparr>cs_LocalSPI := cs_RemoteSPI r, cs_RemoteSPI := cs_LocalSPI r,
     cs_Keys := (cs_Keys r)\<lparr>ck_Outbound := ck_Inbound (cs_Keys r), ck_Inbound := ck_Outbound (cs_Keys r)\<rparr>\<rparr>"

lemma mirror_simps [simp]:
  "mirror (mirror r) = r" "cs_LocalSPI (mirror r) = cs_RemoteSPI r" "cs_RemoteSPI (mirror r) = cs_LocalSPI r"
  "ck_Outbound (cs_Keys (mirror r)) = ck_Inbound (cs_Keys r)"
  "ck_Inbound (cs_Keys (mirror r)) = ck_Outbound (cs_Keys r)"
  "ck_Profile (cs_Keys (mirror r)) = ck_Profile (cs_Keys r)"
  by (simp_all add: mirror_def)

definition child_keys_wf :: "ChildSAKeys \<Rightarrow> bool" where
  "child_keys_wf k \<longleftrightarrow> esp_profile_wf (ck_Profile k) \<and>
     (\<forall>d \<in> {ck_Outbound k, ck_Inbound k}.
       int (length (ek_EncryptionKey d)) = ekp_EncryptionKeyLength (ck_Profile k) \<and>
       int (length (ek_IntegrityKey d)) = ekp_IntegrityKeyLength (ck_Profile k))"

text \<open>The integrity algorithms \<^verbatim>\<open>esp.go\<close> implements; 0 stands for a combined-mode cipher.\<close>

definition esp_integrity_known :: "u16 \<Rightarrow> bool" where
  "esp_integrity_known i \<longleftrightarrow> i \<in> {0, IntegrityHMACSHA1_96, IntegrityHMACSHA2_256_128}"

lemma NewSA_complete: "esp_wf sa \<Longrightarrow> NewSA sa = Inr sa"
  by (auto simp: NewSA_def esp_wf_def aes_key_ok_def)

text \<open>The security association of one direction, before its replay window is chosen.\<close>

abbreviation (input) direction_sa :: "ChildSAKeys \<Rightarrow> ESPKeys \<Rightarrow> u32 \<Rightarrow> u32 \<Rightarrow> SA" where
  "direction_sa keys d spi window \<equiv>
     \<lparr>esp_SPI = spi, esp_Encryption = ekp_EncryptionID (ck_Profile keys),
      esp_EncryptionKey = ek_EncryptionKey d, esp_IntegrityKey = ek_IntegrityKey d,
      esp_Integrity = ekp_IntegrityID (ck_Profile keys), esp_ICVLength = icvLengthForChildProfile (ck_Profile keys),
      esp_BlockSize = blockSizeForChildProfile (ck_Profile keys), esp_Sequence = 0, esp_HighestSequence = 0,
      esp_ReplayWindowSize = window, esp_ReplayBitmap = 0\<rparr>"

lemma direction_sa_wf:
  assumes "child_keys_wf k" and "esp_integrity_known (ekp_IntegrityID (ck_Profile k))" and "spi \<noteq> 0"
  shows "esp_wf (direction_sa k (ck_Outbound k) spi w)"
proof -
  let ?d = "ck_Outbound k"
  consider "ekp_EncryptionID (ck_Profile k) = ENCR_AES_CBC" "aes_key_ok (ek_EncryptionKey ?d)"
      "ek_IntegrityKey ?d \<noteq> []" "integrityICVLength (ekp_IntegrityID (ck_Profile k)) > 0"
    | "ekp_EncryptionID (ck_Profile k) = ENCR_AES_GCM_16" "validAESGCMKeyLength (length (ek_EncryptionKey ?d))"
    using assms(1,2)
    unfolding child_keys_wf_def esp_profile_wf_def esp_integrity_known_def integrityICVLength_def
      validAESGCMKeyLength_def aes_key_ok_def by force
  then show ?thesis
    using assms(3)
    by cases (simp_all add: esp_wf_def encryptionAlgorithm_def blockSizeForChildProfile_def icvLengthForChildProfile_def)
qed

text \<open>The integrity algorithm and its tag length are those of the code.\<close>

definition esp_icv_ok :: "SA \<Rightarrow> bool" where
  "esp_icv_ok s \<longleftrightarrow> (encryptionAlgorithm s = EncryptionAESCBC \<longrightarrow> esp_integrity_known (esp_Integrity s) \<and>
     0 < integrityICVLength (esp_Integrity s) \<and> esp_ICVLength s = integrityICVLength (esp_Integrity s))"

lemma child_direction:
  assumes "child_keys_wf (cs_Keys r)" and "esp_integrity_known (ekp_IntegrityID (ck_Profile (cs_Keys r)))"
    and spi: "spiFromBytes (cs_RemoteSPI r) = Inr spi"
  shows "\<exists>s q. NewOutboundSAFromChild r = Inr s \<and> NewInboundSAFromChild (mirror r) = Inr q \<and>
    peers s q \<and> esp_wf q \<and> esp_SPI q = spi \<and> esp_HighestSequence q = 0 \<and> esp_wf s \<and> esp_Sequence s = 0 \<and>
    esp_icv_ok s"
proof -
  let ?d = "direction_sa (cs_Keys r) (ck_Outbound (cs_Keys r)) spi"
  have "spi \<noteq> 0" using spi by (auto simp: spiFromBytes_def rbind_eq_Inr_iff split: if_splits)
  note wf = direction_sa_wf [OF assms(1,2) this]
  have "NewOutboundSAFromChild r = Inr (?d 0)" "NewInboundSAFromChild (mirror r) = Inr (?d 64)"
    using spi NewSA_complete [OF wf]
    by (simp_all add: NewOutboundSAFromChild_def NewInboundSAFromChild_def Let_def)
  moreover have "peers (?d 0) (?d 64)" by (simp add: peers_def encryptionAlgorithm_def)
  moreover have "esp_icv_ok (?d 0)"
    using wf [of 0] assms(2) by (auto simp: esp_icv_ok_def esp_wf_def icvLengthForChildProfile_def encryptionAlgorithm_def)
  moreover have "esp_SPI (?d 64) = spi" "esp_HighestSequence (?d 64) = 0" "esp_Sequence (?d 0) = 0" by simp_all
  ultimately show ?thesis using wf by blast
qed

text \<open>A fresh inbound SA opens whatever its peer seals.\<close>

lemma fresh_open:
  assumes "crypto_ok c" "esp_wf q" "peers s q" "esp_HighestSequence q = 0"
    and "fst (SA_Seal c s nh payload opts) = Inr pkt"
  shows "fst (SA_Open c q pkt) = Inr \<lparr>or_SPI = esp_SPI q, or_Sequence = seal_seq s opts, or_NextHeader = nh, or_Payload = payload\<rparr>"
proof -
  have "0 < seal_seq s opts" using seal_seq_nonzero [OF assms(5)] by (simp add: word_neq_0_conv)
  then have "checkReplay q (seal_seq s opts) = Inr ()" using assms(4) by (simp add: checkReplay_def)
  from open_seal_peers [OF assms(1-3) assms(5) this] show ?thesis by simp
qed

text \<open>Sealing with automatic numbers fails only at the last sequence number or for want of random octets.\<close>

lemma seal_total:
  assumes "crypto_ok c" "esp_wf s" "rnd 16 = Inr iv" "length iv = 16" "esp_Sequence s \<noteq> - 1"
    and "esp_icv_ok s"
  shows "\<exists>pkt. fst (SA_Seal c s nh payload (auto_opts rnd)) = Inr pkt"
proof -
  define s' where "s' = s\<lparr>esp_Sequence := esp_Sequence s + 1\<rparr>"
  have p: "peers s' s" by (simp add: s'_def peers_def encryptionAlgorithm_def)
  then have s': "encryptionAlgorithm s' = encryptionAlgorithm s" "SA_aesGCMAEAD s' = SA_aesGCMAEAD s"
    using peers_aead [OF p] unfolding peers_def by blast+
  have seal: "fst (SA_Seal c s nh payload (auto_opts rnd)) =
     (if encryptionAlgorithm s' = EncryptionAESCBC
      then sealAESCBC c s' nh payload (esp_Sequence s + 1) (auto_opts rnd)
      else if encryptionAlgorithm s' = EncryptionAESGCM_16
      then sealAESGCM c s' nh payload (esp_Sequence s + 1) (auto_opts rnd) else Inl (Err Esp_ErrInvalidSA))"
    using assms(5) by (simp add: SA_Seal_def s'_def Let_def)
  from assms(2) consider
      "encryptionAlgorithm s = EncryptionAESCBC" "aes_key_ok (esp_EncryptionKey s)" "esp_BlockSize s = 16"
    | "encryptionAlgorithm s = EncryptionAESGCM_16" "validAESGCMKeyLength (length (esp_EncryptionKey s))"
      "esp_BlockSize s = 4" "esp_ICVLength s = 16"
    by (auto simp: esp_wf_def)
  then show ?thesis
  proof cases
    case 1
    obtain plain where pl: "espPlaintext payload nh 16 = Inr plain" by (simp add: espPlaintext_def Let_def)
    have icv: "\<exists>icv. SA_integrity c s d = Inr icv" for d
      using assms(1,6) 1(1)
      by (auto simp: SA_integrity_def esp_icv_ok_def esp_integrity_known_def integrityICVLength_def Let_def
          split: if_splits)
    have "aesCBCEncrypt c (esp_EncryptionKey s) iv plain = Inr (cbc_encrypt c (esp_EncryptionKey s) iv plain)"
      using 1(2) assms(4) espPlaintext_length(1) [OF pl] by (simp add: aesCBCEncrypt_def aes_NewCipher_def)
    then show ?thesis
      using 1(1,3) assms(3,4) pl s'(1) peers_integrity [OF p]
        icv [of "PutUint32 (esp_SPI s) @ PutUint32 (esp_Sequence s + 1) @ iv @ cbc_encrypt c (esp_EncryptionKey s) iv plain"]
      by (auto simp: seal sealAESCBC_def s'_def [symmetric]) (simp add: s'_def Let_def)
  next
    case 2
    obtain plain where pl: "espPlaintext payload nh 4 = Inr plain" by (simp add: espPlaintext_def Let_def)
    obtain key salt where "SA_aesGCMAEAD s' = Inr (key, salt)" "length salt = 4"
      using SA_aesGCMAEAD_ok [OF 2(2,4)] s'(2) by auto
    then show ?thesis
      using 2 pl s'(1) by (simp add: seal sealAESGCM_def gcm_Seal_def aesGCMNonce_def s'_def Let_def)
  qed
qed

section \<open>A concrete negotiation\<close>

definition demo_init :: InitResult where
  "demo_init =
     \<lparr>ir_RequestBytes = [], ir_ResponseBytes = [], ir_Request = demo_response, ir_Response = demo_response,
      ir_SelectedSA = demo_modp_sa, ir_InitiatorSPI = 1, ir_ResponderSPI = 2, ir_NonceI = [7], ir_NonceR = [9],
      ir_PublicKeyI = [], ir_PublicKeyR = [], ir_SharedSecret = [], ir_PRF = SHA256, ir_SKEYSEED = [],
      ir_KeyMaterial = [], ir_Keys = NoIKEKeys\<lparr>ik_Profile := demo_profile, ik_SKD := [3]\<rparr>,
      ir_MOBIKESupported = True, ir_NATDetected = False\<rparr>"

definition demo_esp_sa :: "u16 \<Rightarrow> SecurityAssociation" where
  "demo_esp_sa integ = \<lparr>sa_Proposals = [\<lparr>prop_Number = 1, prop_ProtocolID = ProtocolESP, prop_SPI = [0, 0, 0, 5],
     prop_Transforms =
       [\<lparr>tr_Type = TransformENCR, tr_ID = ENCR_AES_CBC, tr_Attributes = [KeyLengthAttribute 128]\<rparr>,
        mkTransform TransformINTEG integ, mkTransform TransformESN ESNNo]\<rparr>]\<rparr>"

text \<open>What the responder answers: the selected proposal and, for both sides, any IPv4 traffic.\<close>

definition demo_inner :: "u16 \<Rightarrow> Payload list" where
  "demo_inner integ =
     (case (SecurityAssociation_MarshalBinary (demo_esp_sa integ), TrafficSelectors_MarshalBinary IPv4AnyTrafficSelectors) of
        (Inr sa, Inr ts) \<Rightarrow> [mkPayload PayloadSA sa, mkPayload PayloadTSi ts, mkPayload PayloadTSr ts]
      | _ \<Rightarrow> [])"

lemma demo_inner_parses:
  "\<exists>ts. tss_Selectors ts \<noteq> [] \<and> ValidateTrafficSelectorNarrowing IPv4AnyTrafficSelectors ts = Inr () \<and>
    childPayloads_loop (demo_inner integ) NoChildSAResult
      = Inr (NoChildSAResult\<lparr>cs_SelectedSA := demo_esp_sa integ, cs_TSi := ts, cs_TSr := ts\<rparr>)"
proof -
  obtain b where b: "SecurityAssociation_MarshalBinary (demo_esp_sa integ) = Inr b"
    by (simp add: demo_esp_sa_def SecurityAssociation_MarshalBinary_def marshalProposal1_def
        Proposal_marshalBody_def Transform_marshal_def marshalTransformAttributes_def
        marshalTransformAttribute1_def KeyLengthAttribute_def)
  have p: "ParseSecurityAssociation b = Inr (demo_esp_sa integ)"
    by (rule parse_marshal_sa [OF _ b])
      (simp add: demo_esp_sa_def proposal_wf_def transform_wf_def attr_wf_def KeyLengthAttribute_def)
  obtain t where t: "TrafficSelectors_MarshalBinary IPv4AnyTrafficSelectors = Inr t"
    by (simp add: TrafficSelectors_MarshalBinary_def IPv4AnyTrafficSelectors_def
        TrafficSelector_MarshalBinary_def normalizeSelectorAddresses_def To4_def v4InV6Prefix_def)
  obtain ts where ts: "ParseTrafficSelectors t = Inr ts" "tss_Selectors ts \<noteq> []"
    "ValidateTrafficSelectorNarrowing IPv4AnyTrafficSelectors ts = Inr ()"
    using parse_marshal_ts [OF t]
    by (simp add: IPv4AnyTrafficSelectors_def canonical_selector_def ValidateTrafficSelectorNarrowing_def
        normalizeTrafficSelectorRange_def normalizeSelectorAddresses_def To4_def v4InV6Prefix_def
        trafficSelectorCoveredByAny_def trafficSelectorCovers_def)
  show ?thesis
    by (rule exI [of _ ts]) (simp add: demo_inner_def b t p ts)
qed

text \<open>The keys of a profile can always be derived: its two directions need far less than prf+ can give.\<close>

lemma DeriveChildSAKeys_succeeds:
  assumes "crypto_ok c" "h \<noteq> NoHash" "skd \<noteq> []" "ni \<noteq> []" "nr \<noteq> []" "ESPKeyProfileFromSA sa = Inr p" "DirectionKeyLength p \<le> 100"
  shows "\<exists>k. DeriveChildSAKeysWithNonces c h skd ni nr sa = Inr k \<and> ck_Profile k = p"
proof -
  note pos = esp_profile_wf_pos [OF ESPKeyProfileFromSA_wf [OF assms(6)]]
  have "20 \<le> hash_len h" using assms(2) by (cases h) auto
  then obtain km where km: "PRFPlus c h skd (ni @ nr) (DirectionKeyLength p * 2) = Inr km"
    using PRFPlus_take [OF assms(1,2), of "DirectionKeyLength p * 2" skd "ni @ nr"] assms(7) pos by auto
  obtain n where n: "DirectionKeyLength p = int n" using pos by (metis zero_le_imp_eq_int less_imp_le)
  have "length km = 2 * n" using PRFPlus_length [OF assms(1) km] n by simp
  then have "subi 0 (int n) km = Inr (take n km)" "subi (int n) (int (length km)) km = Inr (drop n km)"
    "int (length (take n km)) = int n" "int (length (drop n km)) = int n"
    by (simp_all add: subi_def sub_def nat_mult_distrib)
  moreover obtain ok ik where "splitESPKeys p (take n km) = Inr ok" "splitESPKeys p (drop n km) = Inr ik"
    using splitESPKeys_cuts [OF ESPKeyProfileFromSA_wf [OF assms(6)]] n calculation by metis
  ultimately show ?thesis
    using assms(3-6) km n pos by (simp add: DeriveChildSAKeysWithNonces_def Let_def)
qed

lemma demo_child:
  assumes "ESPKeyProfileFromSA (demo_esp_sa integ) = Inr p" and "DirectionKeyLength p \<le> 100"
    and "ValidateSelectedSA (demo_esp_sa integ) (demo_esp_sa integ) = Inr ()"
  shows "\<exists>r. parseChildSAResultWithNonces demo_crypto demo_init (demo_inner integ) [0, 0, 0, 6] [7] [9]
      (Some (demo_esp_sa integ)) IPv4AnyTrafficSelectors IPv4AnyTrafficSelectors = Inr r \<and>
    cs_RemoteSPI r = [0, 0, 0, 5] \<and> ck_Profile (cs_Keys r) = p"
proof -
  obtain ts where ts: "tss_Selectors ts \<noteq> []" "ValidateTrafficSelectorNarrowing IPv4AnyTrafficSelectors ts = Inr ()"
    "childPayloads_loop (demo_inner integ) NoChildSAResult
      = Inr (NoChildSAResult\<lparr>cs_SelectedSA := demo_esp_sa integ, cs_TSi := ts, cs_TSr := ts\<rparr>)"
    using demo_inner_parses by blast
  have "\<exists>k. DeriveChildSAKeysWithNonces demo_crypto SHA256 [3] [7] [9] (demo_esp_sa integ) = Inr k \<and> ck_Profile k = p"
    by (rule DeriveChildSAKeys_succeeds [OF demo_crypto_ok _ _ _ _ assms(1,2)]) simp_all
  then show ?thesis
    using ts assms(3)
    by (auto simp: parseChildSAResultWithNonces_def checkOfferedTS_def demo_init_def demo_profile_def)
      (simp add: demo_esp_sa_def)+
qed

lemma demo_sha384:
  "ESPKeyProfileFromSA (demo_esp_sa INTEG_HMAC_SHA2_384_192) = Inr \<lparr>ekp_EncryptionID = ENCR_AES_CBC,
     ekp_EncryptionKeyLength = 16, ekp_IntegrityID = INTEG_HMAC_SHA2_384_192, ekp_IntegrityKeyLength = 48, ekp_ESN = False\<rparr>"
  "ValidateSelectedSA (demo_esp_sa INTEG_HMAC_SHA2_384_192) (demo_esp_sa INTEG_HMAC_SHA2_384_192) = Inr ()"
  by code_simp+

text \<open>A proposal of AES-CBC with a key of the given size and an integrity algorithm.\<close>

definition cbc_proposal :: "u8 \<Rightarrow> bytes \<Rightarrow> u16 \<Rightarrow> u16 \<Rightarrow> Proposal" where
  "cbc_proposal n spi bits integ = \<lparr>prop_Number = n, prop_ProtocolID = ProtocolESP, prop_SPI = spi,
     prop_Transforms =
       [\<lparr>tr_Type = TransformENCR, tr_ID = ENCR_AES_CBC, tr_Attributes = [KeyLengthAttribute bits]\<rparr>,
        mkTransform TransformINTEG integ, mkTransform TransformESN ESNNo]\<rparr>"

lemma cbc_profile:
  assumes "integ \<in> {INTEG_HMAC_SHA2_384_192, INTEG_HMAC_SHA2_512_256}" and "bits \<in> {128, 192, 256}"
    and "sa_Proposals sa = [cbc_proposal n spi bits integ]"
  shows "\<exists>p. ESPKeyProfileFromSA sa = Inr p \<and> ekp_EncryptionID p = ENCR_AES_CBC \<and> ekp_IntegrityID p = integ \<and> DirectionKeyLength p \<le> 100"
proof -
  have "transformKeyLength \<lparr>tr_Type = TransformENCR, tr_ID = ENCR_AES_CBC, tr_Attributes = [KeyLengthAttribute bits]\<rparr> = bits"
    using assms(2) by (elim insertE emptyE; hypsubst; code_simp)
  then show ?thesis
    using assms
    by (auto simp: ESPKeyProfileFromSA_def cbc_proposal_def findTransform_def encryptionProfile_def espIntegritySelection_def
        isCombinedModeEncryption_def integrityProfile_def DirectionKeyLength_def)
qed

lemma cbc_selected:
  assumes "sa_Proposals sa = [cbc_proposal n spi bits integ]" "q \<in> set (sa_Proposals offered)" "prop_ProtocolID q = ProtocolESP"
    and "set (prop_Transforms (cbc_proposal n spi bits integ)) \<subseteq> set (prop_Transforms q)"
  shows "ValidateSelectedSA offered sa = Inr ()"
proof -
  let ?p = "cbc_proposal n spi bits integ"
  have "\<forall>t \<in> set (prop_Transforms ?p). transformsEqual t t"
    by (auto simp: cbc_proposal_def transformsEqual_def transformAttributesEqual_def)
  then have "proposalSupportsSelection q ?p"
    using assms(3,4) by (auto simp: proposalSupportsSelection_def proposalHasTransform_def list_all_iff list_ex_iff cbc_proposal_def)
  moreover have "validateSelectedProposalRequiredTransforms ?p = Inr ()"
    by (simp add: validateSelectedProposalRequiredTransforms_def cbc_proposal_def findTransform_def isCombinedModeEncryption_def proposalHasTransformType_def)
  moreover have "sa_Proposals offered \<noteq> []" using assms(2) by auto
  ultimately show ?thesis
    using assms(1,2) by (auto simp: ValidateSelectedSA_def list_ex_iff) (simp add: cbc_proposal_def)
qed

section \<open>Properties\<close>

text \<open>A negotiated child SA carries traffic both ways: when the responder's half was accepted, the SPIs of
  both ends are four octets other than zero and the integrity algorithm is one the ESP code has, both
  ESP security associations of either end can be built; a fresh one seals any payload, given random octets for an
  initialisation vector; and every packet one end seals is opened by the other end, which swaps the two
  directions, to the payload and next header that went in.\<close>

theorem child_sa_carries_traffic:
  assumes "crypto_ok c"
    and r: "parseChildSAResultWithNonces c init inner localSPI ni nr offered oi or' = Inr r"
    and "spiFromBytes localSPI = Inr lspi" and "spiFromBytes (cs_RemoteSPI r) = Inr rspi"
    and "esp_integrity_known (ekp_IntegrityID (ck_Profile (cs_Keys r)))"
    and rnd: "rnd 16 = Inr iv" "length iv = 16"
  shows "\<exists>out peer_in peer_out inb.
    NewOutboundSAFromChild r = Inr out \<and> NewInboundSAFromChild (mirror r) = Inr peer_in \<and>
    NewOutboundSAFromChild (mirror r) = Inr peer_out \<and> NewInboundSAFromChild r = Inr inb \<and>
    (\<forall>nh payload. \<exists>pkt. fst (SA_Seal c out nh payload (auto_opts rnd)) = Inr pkt) \<and>
    (\<forall>nh payload opts pkt. fst (SA_Seal c out nh payload opts) = Inr pkt \<longrightarrow>
      fst (SA_Open c peer_in pkt)
        = Inr \<lparr>or_SPI = rspi, or_Sequence = seal_seq out opts, or_NextHeader = nh, or_Payload = payload\<rparr>) \<and>
    (\<forall>nh payload opts pkt. fst (SA_Seal c peer_out nh payload opts) = Inr pkt \<longrightarrow>
      fst (SA_Open c inb pkt)
        = Inr \<lparr>or_SPI = lspi, or_Sequence = seal_seq peer_out opts, or_NextHeader = nh, or_Payload = payload\<rparr>)"
proof -
  note k = DeriveChildSAKeys_cuts [OF assms(1) parseChildSAResult_Inr(4) [OF r]]
  have wf: "child_keys_wf (cs_Keys r)" "child_keys_wf (cs_Keys (mirror r))"
    using ESPKeyProfileFromSA_wf [OF k(1)] k(3) by (simp_all add: child_keys_wf_def)
  obtain out peer_in where o: "NewOutboundSAFromChild r = Inr out" "NewInboundSAFromChild (mirror r) = Inr peer_in"
    "peers out peer_in" "esp_wf peer_in" "esp_SPI peer_in = rspi" "esp_HighestSequence peer_in = 0"
    "esp_wf out" "esp_Sequence out = 0" "esp_icv_ok out"
    using child_direction [OF wf(1) assms(5,4)] by blast
  obtain peer_out inb where i: "NewOutboundSAFromChild (mirror r) = Inr peer_out" "NewInboundSAFromChild r = Inr inb"
    "peers peer_out inb" "esp_wf inb" "esp_SPI inb = lspi" "esp_HighestSequence inb = 0"
    using child_direction [OF wf(2)] assms(3,5) parseChildSAResult_Inr(5) [OF r] by auto
  have "\<forall>nh payload. \<exists>pkt. fst (SA_Seal c out nh payload (auto_opts rnd)) = Inr pkt"
    using seal_total [where rnd = rnd and s = out] assms(1) o(7,8,9) rnd by simp
  then show ?thesis
    using o(1,2) i(1,2) fresh_open [OF assms(1) o(4,3,6)] fresh_open [OF assms(1) i(4,3,6)] o(5) i(5) by blast
qed

theorem child_sa_carries_traffic_witness:
  "\<exists>r out peer_in pkt. parseChildSAResultWithNonces demo_crypto demo_init (demo_inner INTEG_HMAC_SHA2_256_128)
      [0, 0, 0, 6] [7] [9] (Some (demo_esp_sa INTEG_HMAC_SHA2_256_128)) IPv4AnyTrafficSelectors IPv4AnyTrafficSelectors = Inr r \<and>
    NewOutboundSAFromChild r = Inr out \<and> NewInboundSAFromChild (mirror r) = Inr peer_in \<and>
    fst (SA_Seal demo_crypto out 4 [1, 2] (auto_opts (\<lambda>n. Inr (replicate n 9)))) = Inr pkt \<and>
    (\<exists>o'. fst (SA_Open demo_crypto peer_in pkt) = Inr o' \<and> or_Payload o' = [1, 2])"
proof -
  let ?p = "\<lparr>ekp_EncryptionID = ENCR_AES_CBC, ekp_EncryptionKeyLength = 16, ekp_IntegrityID = INTEG_HMAC_SHA2_256_128,
      ekp_IntegrityKeyLength = 32, ekp_ESN = False\<rparr>"
  have p: "ESPKeyProfileFromSA (demo_esp_sa INTEG_HMAC_SHA2_256_128) = Inr ?p"
    "ValidateSelectedSA (demo_esp_sa INTEG_HMAC_SHA2_256_128) (demo_esp_sa INTEG_HMAC_SHA2_256_128) = Inr ()"
    by code_simp+
  obtain r where r: "parseChildSAResultWithNonces demo_crypto demo_init (demo_inner INTEG_HMAC_SHA2_256_128)
      [0, 0, 0, 6] [7] [9] (Some (demo_esp_sa INTEG_HMAC_SHA2_256_128)) IPv4AnyTrafficSelectors IPv4AnyTrafficSelectors = Inr r"
    "cs_RemoteSPI r = [0, 0, 0, 5]" "ck_Profile (cs_Keys r) = ?p"
    using demo_child [OF p(1) _ p(2)] by (auto simp: DirectionKeyLength_def)
  have "spiFromBytes [0, 0, 0, 6] = Inr 6" "spiFromBytes [0, 0, 0, 5] = Inr 5"
    by code_simp+
  then show ?thesis
    using child_sa_carries_traffic [OF demo_crypto_ok r(1), of 6 5 "\<lambda>n. Inr (replicate n 9)" "replicate 16 9"] r
    by (simp add: esp_integrity_known_def) (metis OpenResult.select_convs(4))
qed

text \<open>C15: A child SA stays within what the client offered: the selected proposal is one of the offered ones, with
  transforms the client offered there, and every packet the negotiated selectors of either side let through is let
  through by a selector the client offered for that side.\<close>

theorem child_sa_within_offer:
  assumes r: "parseChildSAResultWithNonces c init inner localSPI ni nr (Some sa) oi or' = Inr r"
    and "tss_Selectors oi \<noteq> []" and "tss_Selectors or' \<noteq> []"
  shows "(\<exists>p q. sa_Proposals (cs_SelectedSA r) = [p] \<and> q \<in> set (sa_Proposals sa) \<and>
      prop_ProtocolID q = ProtocolESP \<and> prop_ProtocolID p = ProtocolESP \<and> cs_RemoteSPI r = prop_SPI p \<and>
      (\<forall>t \<in> set (prop_Transforms p). \<exists>t' \<in> set (prop_Transforms q). same_transform t' t)) \<and>
    (\<forall>s f. s \<in> set (tss_Selectors (cs_TSi r)) \<longrightarrow> lets_through (canonical_selector s) f \<longrightarrow>
      (\<exists>q \<in> set (tss_Selectors oi). lets_through (canonical_selector q) f)) \<and>
    (\<forall>s f. s \<in> set (tss_Selectors (cs_TSr r)) \<longrightarrow> lets_through (canonical_selector s) f \<longrightarrow>
      (\<exists>q \<in> set (tss_Selectors or'). lets_through (canonical_selector q) f))"
proof -
  note P = parseChildSAResult_Inr [OF r]
  obtain p q where pq: "sa_Proposals (cs_SelectedSA r) = [p]" "q \<in> set (sa_Proposals sa)"
    "prop_ProtocolID q = prop_ProtocolID p"
    "\<forall>t \<in> set (prop_Transforms p). \<exists>t' \<in> set (prop_Transforms q). same_transform t' t"
    using selection_offered [OF P(1) [OF refl]] by blast
  have "prop_ProtocolID p = ProtocolESP"
    using P(4) pq(1) by (auto simp: DeriveChildSAKeysWithNonces_def ESPKeyProfileFromSA_def rbind_eq_Inr_iff
        split: if_splits)
  with pq P(7) have "\<exists>p q. sa_Proposals (cs_SelectedSA r) = [p] \<and> q \<in> set (sa_Proposals sa) \<and>
      prop_ProtocolID q = ProtocolESP \<and> prop_ProtocolID p = ProtocolESP \<and> cs_RemoteSPI r = prop_SPI p \<and>
      (\<forall>t \<in> set (prop_Transforms p). \<exists>t' \<in> set (prop_Transforms q). same_transform t' t)"
    by auto
  then show ?thesis
    using narrowing_sound [OF P(2) [OF assms(2)]] narrowing_sound [OF P(3) [OF assms(3)]] by blast
qed

theorem child_sa_within_offer_witness:
  "\<exists>r. parseChildSAResultWithNonces demo_crypto demo_init (demo_inner INTEG_HMAC_SHA2_384_192)
      [0, 0, 0, 6] [7] [9] (Some (demo_esp_sa INTEG_HMAC_SHA2_384_192)) IPv4AnyTrafficSelectors IPv4AnyTrafficSelectors = Inr r \<and>
    (\<forall>s f. s \<in> set (tss_Selectors (cs_TSi r)) \<longrightarrow> lets_through (canonical_selector s) f \<longrightarrow>
      (\<exists>q \<in> set (tss_Selectors IPv4AnyTrafficSelectors). lets_through (canonical_selector q) f))"
proof -
  note p = demo_sha384
  obtain r where r: "parseChildSAResultWithNonces demo_crypto demo_init (demo_inner INTEG_HMAC_SHA2_384_192)
      [0, 0, 0, 6] [7] [9] (Some (demo_esp_sa INTEG_HMAC_SHA2_384_192)) IPv4AnyTrafficSelectors IPv4AnyTrafficSelectors = Inr r"
    using demo_child [OF p(1) _ p(2)] by (auto simp: DirectionKeyLength_def)
  have "tss_Selectors IPv4AnyTrafficSelectors \<noteq> []" by (simp add: IPv4AnyTrafficSelectors_def)
  with r child_sa_within_offer [OF r] show ?thesis by blast
qed

text \<open>C40: The SHA-384 and SHA-512 integrity algorithms are negotiated, and keys are derived for them, but the ESP
  code has no such algorithm.  When the client has offered AES-CBC with either of them and the responder selects it,
  with its SPI and selectors within the offered ones, the child SA is accepted, with keys, and then neither of its
  ESP security associations can be built.\<close>

theorem child_sha2_long_unusable:
  assumes "crypto_ok c" and "kmp_PRF (ik_Profile (ir_Keys init)) \<noteq> NoHash" and "ik_SKD (ir_Keys init) \<noteq> []" and "ni \<noteq> []" and "nr \<noteq> []"
    and "integ \<in> {INTEG_HMAC_SHA2_384_192, INTEG_HMAC_SHA2_512_256}" and "bits \<in> {128, 192, 256}" and "spi \<noteq> []"
    and "q \<in> set (sa_Proposals offered)" and "prop_ProtocolID q = ProtocolESP"
    and "set (prop_Transforms (cbc_proposal n spi bits integ)) \<subseteq> set (prop_Transforms q)"
    and "childPayloads_loop inner NoChildSAResult = Inr out" and "sa_Proposals (cs_SelectedSA out) = [cbc_proposal n spi bits integ]"
    and "tss_Selectors (cs_TSi out) \<noteq> []" and "tss_Selectors (cs_TSr out) \<noteq> []"
    and "ValidateTrafficSelectorNarrowing oi (cs_TSi out) = Inr ()" and "ValidateTrafficSelectorNarrowing or' (cs_TSr out) = Inr ()"
  shows "\<exists>r. parseChildSAResultWithNonces c init inner localSPI ni nr (Some offered) oi or' = Inr r \<and>
    ekp_IntegrityID (ck_Profile (cs_Keys r)) = integ \<and>
    isl (NewOutboundSAFromChild r) \<and> errors_Is (projl (NewOutboundSAFromChild r)) Esp_ErrInvalidSA \<and>
    isl (NewInboundSAFromChild r) \<and> errors_Is (projl (NewInboundSAFromChild r)) Esp_ErrInvalidSA"
proof -
  obtain p where p: "ESPKeyProfileFromSA (cs_SelectedSA out) = Inr p" "ekp_EncryptionID p = ENCR_AES_CBC" "ekp_IntegrityID p = integ"
    "DirectionKeyLength p \<le> 100"
    using cbc_profile [OF assms(6,7,13)] by blast
  obtain k where k: "DeriveChildSAKeysWithNonces c (kmp_PRF (ik_Profile (ir_Keys init))) (ik_SKD (ir_Keys init)) ni nr (cs_SelectedSA out) = Inr k"
    "ck_Profile k = p"
    using DeriveChildSAKeys_succeeds [OF assms(1-5) p(1,4)] by blast
  let ?r = "out\<lparr>cs_LocalSPI := localSPI, cs_RemoteSPI := spi, cs_Keys := k\<rparr>"
  have "parseChildSAResultWithNonces c init inner localSPI ni nr (Some offered) oi or' = Inr ?r"
    using assms(8,12-17) k(1) cbc_selected [OF assms(13,9,10,11)]
    by (simp add: parseChildSAResultWithNonces_def checkOfferedTS_def cbc_proposal_def)
  moreover have "isl (NewOutboundSAFromChild ?r) \<and> errors_Is (projl (NewOutboundSAFromChild ?r)) Esp_ErrInvalidSA"
    "isl (NewInboundSAFromChild ?r) \<and> errors_Is (projl (NewInboundSAFromChild ?r)) Esp_ErrInvalidSA"
    using k(2) p(2,3) assms(6)
    by (auto simp: NewOutboundSAFromChild_def NewInboundSAFromChild_def NewSA_def spiFromBytes_def Let_def
        encryptionAlgorithm_def blockSizeForChildProfile_def icvLengthForChildProfile_def integrityICVLength_def)
  ultimately show ?thesis using k(2) p(3) by auto
qed

theorem child_sha2_long_unusable_witness:
  "(\<exists>r. parseChildSAResultWithNonces demo_crypto demo_init (demo_inner INTEG_HMAC_SHA2_384_192)
      [0, 0, 0, 6] [7] [9] (Some (demo_esp_sa INTEG_HMAC_SHA2_384_192)) IPv4AnyTrafficSelectors IPv4AnyTrafficSelectors = Inr r \<and>
      isl (NewOutboundSAFromChild r) \<and> isl (NewInboundSAFromChild r)) \<and>
   (\<exists>r. parseChildSAResultWithNonces demo_crypto demo_init (demo_inner INTEG_HMAC_SHA2_512_256)
      [0, 0, 0, 6] [7] [9] (Some (demo_esp_sa INTEG_HMAC_SHA2_512_256)) IPv4AnyTrafficSelectors IPv4AnyTrafficSelectors = Inr r \<and>
      isl (NewOutboundSAFromChild r) \<and> isl (NewInboundSAFromChild r))"
proof -
  have "\<exists>r. parseChildSAResultWithNonces demo_crypto demo_init (demo_inner integ)
      [0, 0, 0, 6] [7] [9] (Some (demo_esp_sa integ)) IPv4AnyTrafficSelectors IPv4AnyTrafficSelectors = Inr r \<and>
      isl (NewOutboundSAFromChild r) \<and> isl (NewInboundSAFromChild r)"
    if integ: "integ \<in> {INTEG_HMAC_SHA2_384_192, INTEG_HMAC_SHA2_512_256}" for integ
  proof -
    obtain ts where ts: "tss_Selectors ts \<noteq> []" "ValidateTrafficSelectorNarrowing IPv4AnyTrafficSelectors ts = Inr ()"
      "childPayloads_loop (demo_inner integ) NoChildSAResult
        = Inr (NoChildSAResult\<lparr>cs_SelectedSA := demo_esp_sa integ, cs_TSi := ts, cs_TSr := ts\<rparr>)"
      using demo_inner_parses by blast
    have sa: "sa_Proposals (demo_esp_sa integ) = [cbc_proposal 1 [0, 0, 0, 5] 128 integ]"
      by (simp add: demo_esp_sa_def cbc_proposal_def)
    then have q: "cbc_proposal 1 [0, 0, 0, 5] 128 integ \<in> set (sa_Proposals (demo_esp_sa integ))"
      "prop_ProtocolID (cbc_proposal 1 [0, 0, 0, 5] 128 integ) = ProtocolESP" by (simp_all add: cbc_proposal_def)
    have init: "kmp_PRF (ik_Profile (ir_Keys demo_init)) \<noteq> NoHash" "ik_SKD (ir_Keys demo_init) \<noteq> []"
      by (simp_all add: demo_init_def demo_profile_def)
    show ?thesis
      using child_sha2_long_unusable [OF demo_crypto_ok init _ _ integ _ _ q order_refl ts(3), of "[7]" "[9]" IPv4AnyTrafficSelectors IPv4AnyTrafficSelectors "[0, 0, 0, 6]"] sa ts(1,2) by auto
  qed
  then show ?thesis by simp
qed

end
