(* ===== verification/IKE_SK.thy ===== *)
theory IKE_SK
  imports IKE_Keys
begin

text \<open>
  \<^verbatim>\<open>engine/swu/ikev2/sk.go\<close>: the Encrypted payload.  \<^verbatim>\<open>ProtectMessage\<close> pads, encrypts and
  authenticates the inner payloads; \<^verbatim>\<open>UnprotectMessage\<close> checks and opens them.  The section on
  properties shows that the second undoes the first for both ciphers, that nothing is returned
  unless the integrity check value matches, and that no input makes the receiver panic.
  \<^verbatim>\<open>validateKeySet\<close> rejects profiles whose lengths are not positive before they are used, so that
  the conversions \<open>nat\<close> below lose nothing.
\<close>

section \<open>Padding\<close>

definition padIKEPlaintext :: "bytes \<Rightarrow> nat \<Rightarrow> bytes" where
  "padIKEPlaintext data blockSize =
     (let padLen = (blockSize - ((length data + 1) mod blockSize)) mod blockSize
      in data @ map (\<lambda>i. go_byte (i + 1)) [0..<padLen] @ [go_byte padLen])"

definition unpadIKEPlaintext :: "bytes \<Rightarrow> bytes res" where
  "unpadIKEPlaintext data =
     (if length data = 0 then Inl (Err ErrInvalidSKPayload)
      else rbind (idx (length data - 1) data) (\<lambda>b.
        let padLen = unat b in
        if padLen + 1 > length data then Inl (Err ErrInvalidSKPayload)
        else sub 0 (length data - padLen - 1) data))"

section \<open>Ciphers and checksums\<close>

definition encryptAESCBC :: "crypto \<Rightarrow> bytes \<Rightarrow> bytes \<Rightarrow> bytes \<Rightarrow> bytes res" where
  "encryptAESCBC c key iv plain =
     rbind (aes_NewCipher key) (\<lambda>_.
       if length iv \<noteq> 16 \<or> length plain mod 16 \<noteq> 0 then Inl (Err ErrInvalidSKPayload)
       else Inr (cbc_encrypt c key iv plain))"

definition decryptAESCBC :: "crypto \<Rightarrow> bytes \<Rightarrow> bytes \<Rightarrow> bytes \<Rightarrow> bytes res" where
  "decryptAESCBC c key iv ciphertext =
     rbind (aes_NewCipher key) (\<lambda>_.
       if length iv \<noteq> 16 \<or> length ciphertext = 0 \<or> length ciphertext mod 16 \<noteq> 0
       then Inl (Err ErrInvalidSKPayload)
       else Inr (cbc_decrypt c key iv ciphertext))"

definition validAESGCMIKEKeyLength :: "int \<Rightarrow> bool" where
  "validAESGCMIKEKeyLength n \<longleftrightarrow>
     n = 16 + aesGCMSaltLength \<or> n = 24 + aesGCMSaltLength \<or> n = 32 + aesGCMSaltLength"

text \<open>The AEAD is given by its AES key; the salt comes second, as in the code.\<close>

definition aesGCMIKEAEAD :: "bytes \<Rightarrow> int \<Rightarrow> (bytes \<times> bytes) res" where
  "aesGCMIKEAEAD key tagLen =
     (if \<not> validAESGCMIKEKeyLength (int (length key)) then Inl (Err ErrInvalidSKPayload)
      else
        let aesKeyLen = length key - nat aesGCMSaltLength in
        rbind (sub 0 aesKeyLen key) (\<lambda>aesKey.
        rbind (aes_NewCipher aesKey) (\<lambda>_.
          if \<not> gcm_tag_ok tagLen then Inl (Fmt ''cipher: incorrect tag size given to GCM'')
          else rbind (sub aesKeyLen (length key) key) (\<lambda>salt. Inr (aesKey, salt)))))"

definition aesGCMIKENonce :: "bytes \<Rightarrow> bytes \<Rightarrow> bytes" where
  "aesGCMIKENonce salt iv = salt @ iv"

definition ikeSKAssociatedData :: "bytes \<Rightarrow> bytes res" where
  "ikeSKAssociatedData raw =
     (if length raw < HeaderLength + 4 then Inl (Err ErrInvalidSKPayload)
      else sub 0 (HeaderLength + 4) raw)"

definition integrityHash :: "u16 \<Rightarrow> hash res" where
  "integrityHash i =
     (if i = INTEG_HMAC_SHA1_96 then Inr SHA1
      else if i = INTEG_HMAC_SHA2_256_128 then Inr SHA256
      else if i = INTEG_HMAC_SHA2_384_192 then Inr SHA384
      else if i = INTEG_HMAC_SHA2_512_256 then Inr SHA512
      else Inl (Err ErrUnsupportedTransform))"

definition IntegrityChecksum :: "crypto \<Rightarrow> KeyMaterialProfile \<Rightarrow> bytes \<Rightarrow> bytes \<Rightarrow> bytes res" where
  "IntegrityChecksum c profile key data =
     rbind (integrityHash (kmp_IntegrityID profile)) (\<lambda>h.
       if \<not> hash_Available h then Inl (Err ErrUnsupportedPRF)
       else
         let s = cr_hmac c h key data in
         if kmp_IntegrityChecksumLength profile \<le> 0 \<or> kmp_IntegrityChecksumLength profile > int (length s)
         then Inl (Err ErrInvalidSKPayload)
         else sub 0 (nat (kmp_IntegrityChecksumLength profile)) s)"

definition RandomIV :: "random \<Rightarrow> KeyMaterialProfile \<Rightarrow> bytes res" where
  "RandomIV r profile = randomBytes r (kmp_EncryptionBlockSize profile)"

definition keysForDirection :: "IKEKeys \<Rightarrow> bool \<Rightarrow> bytes \<times> bytes" where
  "keysForDirection keys fromInitiator =
     (if fromInitiator then (ik_SKEi keys, ik_SKAi keys) else (ik_SKEr keys, ik_SKAr keys))"

definition validateKeySet :: "IKEKeys \<Rightarrow> unit res" where
  "validateKeySet keys =
     (let p = ik_Profile keys in
      if kmp_EncryptionID p = ENCR_AES_CBC
      then (if kmp_EncryptionBlockSize p \<noteq> 16 \<or> kmp_EncryptionKeyLength p \<le> 0 \<or>
              kmp_IntegrityKeyLength p \<le> 0 \<or> kmp_IntegrityChecksumLength p \<le> 0
            then Inl (Err ErrInvalidSKPayload)
            else if int (length (ik_SKEi keys)) \<noteq> kmp_EncryptionKeyLength p \<or>
              int (length (ik_SKEr keys)) \<noteq> kmp_EncryptionKeyLength p \<or>
              int (length (ik_SKAi keys)) \<noteq> kmp_IntegrityKeyLength p \<or>
              int (length (ik_SKAr keys)) \<noteq> kmp_IntegrityKeyLength p
            then Inl (Err ErrInvalidSKPayload) else Inr ())
      else if kmp_EncryptionID p = ENCR_AES_GCM_16
      then (if kmp_EncryptionBlockSize p \<noteq> aesGCMExplicitIVLength \<or>
              \<not> validAESGCMIKEKeyLength (kmp_EncryptionKeyLength p) \<or> kmp_IntegrityID p \<noteq> 0 \<or>
              kmp_IntegrityKeyLength p \<noteq> 0 \<or> kmp_IntegrityChecksumLength p \<noteq> aesGCM16ChecksumLength
            then Inl (Err ErrInvalidSKPayload)
            else if int (length (ik_SKEi keys)) \<noteq> kmp_EncryptionKeyLength p \<or>
              int (length (ik_SKEr keys)) \<noteq> kmp_EncryptionKeyLength p \<or>
              length (ik_SKAi keys) \<noteq> 0 \<or> length (ik_SKAr keys) \<noteq> 0
            then Inl (Err ErrInvalidSKPayload) else Inr ())
      else Inl (Err ErrUnsupportedTransform))"

section \<open>Protecting\<close>

definition skMessage :: "Header \<Rightarrow> u8 \<Rightarrow> bytes \<Rightarrow> Message" where
  "skMessage header firstInner body =
     \<lparr>msg_Header = header,
      msg_Payloads = [\<lparr>pl_Type = PayloadSK, pl_NextPayload = firstInner, pl_Critical = False, pl_Body = body\<rparr>]\<rparr>"

definition protectMessageAESCBC ::
  "crypto \<Rightarrow> random \<Rightarrow> Header \<Rightarrow> IKEKeys \<Rightarrow> bool \<Rightarrow> u8 \<Rightarrow> bytes \<Rightarrow> bytes \<Rightarrow> (Message \<times> bytes) res" where
  "protectMessageAESCBC c r header keys fromInitiator firstInner innerBytes iv0 =
     (let blockSize = kmp_EncryptionBlockSize (ik_Profile keys) in
      rbind (if length iv0 = 0 then randomBytes r blockSize else Inr iv0) (\<lambda>iv.
      if int (length iv) \<noteq> blockSize then Inl (Err ErrInvalidSKPayload)
      else
        let plain = padIKEPlaintext innerBytes (nat blockSize);
            (encrKey, integKey) = keysForDirection keys fromInitiator in
        rbind (encryptAESCBC c encrKey iv plain) (\<lambda>ciphertext.
        let bodyNoICV = iv @ ciphertext;
            icvLen = nat (kmp_IntegrityChecksumLength (ik_Profile keys));
            msg = skMessage header firstInner (bodyNoICV @ replicate icvLen 0) in
        rbind (Message_MarshalBinary msg) (\<lambda>rawWithZeros.
        rbind (sub 0 (length rawWithZeros - icvLen) rawWithZeros) (\<lambda>signed.
        rbind (IntegrityChecksum c (ik_Profile keys) integKey signed) (\<lambda>checksum.
          Inr (skMessage header firstInner (copy_at (length bodyNoICV) (bodyNoICV @ replicate icvLen 0) checksum),
               copy_at (length rawWithZeros - icvLen) rawWithZeros checksum)))))))"

definition protectMessageAESGCM ::
  "crypto \<Rightarrow> random \<Rightarrow> Header \<Rightarrow> IKEKeys \<Rightarrow> bool \<Rightarrow> u8 \<Rightarrow> bytes \<Rightarrow> bytes \<Rightarrow> (Message \<times> bytes) res" where
  "protectMessageAESGCM c r header keys fromInitiator firstInner innerBytes iv0 =
     (let ivLen = kmp_EncryptionBlockSize (ik_Profile keys);
          tagLen = kmp_IntegrityChecksumLength (ik_Profile keys) in
      rbind (if length iv0 = 0 then randomBytes r ivLen else Inr iv0) (\<lambda>iv.
      if int (length iv) \<noteq> ivLen then Inl (Err ErrInvalidSKPayload)
      else
        let (encrKey, _) = keysForDirection keys fromInitiator in
        rbind (aesGCMIKEAEAD encrKey tagLen) (\<lambda>(aesKey, salt).
        let plain = padIKEPlaintext innerBytes 1;
            body = iv @ replicate (length plain + nat tagLen) 0;
            msg = skMessage header firstInner body in
        rbind (Message_MarshalBinary msg) (\<lambda>rawWithZeros.
        rbind (ikeSKAssociatedData rawWithZeros) (\<lambda>aad.
        rbind (gcm_Seal c aesKey (nat tagLen) (aesGCMIKENonce salt iv) plain aad) (\<lambda>sealed.
        let body' = copy_at (length iv) body sealed in
          Inr (skMessage header firstInner body', copy_at (HeaderLength + 4) rawWithZeros body')))))))"

definition ProtectMessage ::
  "crypto \<Rightarrow> random \<Rightarrow> Header \<Rightarrow> IKEKeys \<Rightarrow> bool \<Rightarrow> Payload list \<Rightarrow> bytes \<Rightarrow> (Message \<times> bytes) res" where
  "ProtectMessage c r header keys fromInitiator inner iv =
     (if length inner = 0 \<and> hdr_ExchangeType header \<noteq> ExchangeINFORMATIONAL
      then Inl (Err ErrInvalidSKPayload)
      else
        rbind (validateKeySet keys) (\<lambda>_.
        rbind (MarshalPayloads inner) (\<lambda>(firstInner, innerBytes).
          if kmp_EncryptionID (ik_Profile keys) = ENCR_AES_CBC
          then protectMessageAESCBC c r header keys fromInitiator firstInner innerBytes iv
          else if kmp_EncryptionID (ik_Profile keys) = ENCR_AES_GCM_16
          then protectMessageAESGCM c r header keys fromInitiator firstInner innerBytes iv
          else Inl (Err ErrUnsupportedTransform))))"

section \<open>Unprotecting\<close>

definition unprotectMessageAESCBC ::
  "crypto \<Rightarrow> bytes \<Rightarrow> Message \<Rightarrow> IKEKeys \<Rightarrow> bool \<Rightarrow> (Message \<times> Payload list) res" where
  "unprotectMessageAESCBC c raw msg keys fromInitiator =
     rbind (idx 0 (msg_Payloads msg)) (\<lambda>sk.
     let blockSize = nat (kmp_EncryptionBlockSize (ik_Profile keys));
         icvLen = nat (kmp_IntegrityChecksumLength (ik_Profile keys));
         body = pl_Body sk in
     if length body < blockSize + icvLen \<or> length raw < icvLen then Inl (Err ErrInvalidSKPayload)
     else
       rbind (sub 0 (length body - icvLen) body) (\<lambda>bodyNoICV.
       rbind (sub (length body - icvLen) (length body) body) (\<lambda>gotICV.
       let (encrKey, integKey) = keysForDirection keys fromInitiator in
       rbind (sub 0 (length raw - icvLen) raw) (\<lambda>signed.
       rbind (IntegrityChecksum c (ik_Profile keys) integKey signed) (\<lambda>expected.
         if gotICV \<noteq> expected then Inl (Err ErrInvalidSKPayload)
         else
           rbind (sub 0 blockSize bodyNoICV) (\<lambda>iv.
           rbind (sub blockSize (length bodyNoICV) bodyNoICV) (\<lambda>ciphertext.
           rbind (decryptAESCBC c encrKey iv ciphertext) (\<lambda>plain.
           rbind (unpadIKEPlaintext plain) (\<lambda>innerBytes.
           rbind (ParsePayloads (pl_NextPayload sk) innerBytes) (\<lambda>inner.
             Inr (msg, inner)))))))))))"

definition unprotectMessageAESGCM ::
  "crypto \<Rightarrow> bytes \<Rightarrow> Message \<Rightarrow> IKEKeys \<Rightarrow> bool \<Rightarrow> (Message \<times> Payload list) res" where
  "unprotectMessageAESGCM c raw msg keys fromInitiator =
     rbind (idx 0 (msg_Payloads msg)) (\<lambda>sk.
     let ivLen = nat (kmp_EncryptionBlockSize (ik_Profile keys));
         tagLen = kmp_IntegrityChecksumLength (ik_Profile keys);
         body = pl_Body sk in
     if length body < ivLen + nat tagLen + 1 then Inl (Err ErrInvalidSKPayload)
     else
       rbind (sub 0 ivLen body) (\<lambda>iv.
       rbind (sub ivLen (length body) body) (\<lambda>ciphertext.
       let (encrKey, _) = keysForDirection keys fromInitiator in
       rbind (aesGCMIKEAEAD encrKey tagLen) (\<lambda>(aesKey, salt).
       rbind (ikeSKAssociatedData raw) (\<lambda>aad.
       rbind (gcm_Open c aesKey (nat tagLen) (aesGCMIKENonce salt iv) ciphertext aad) (\<lambda>opened.
         case opened of
           None \<Rightarrow> Inl (Err ErrInvalidSKPayload)
         | Some plain \<Rightarrow>
             rbind (unpadIKEPlaintext plain) (\<lambda>innerBytes.
             rbind (ParsePayloads (pl_NextPayload sk) innerBytes) (\<lambda>inner.
               Inr (msg, inner)))))))))"

definition UnprotectMessage :: "crypto \<Rightarrow> bytes \<Rightarrow> IKEKeys \<Rightarrow> bool \<Rightarrow> (Message \<times> Payload list) res" where
  "UnprotectMessage c raw keys fromInitiator =
     rbind (validateKeySet keys) (\<lambda>_.
     rbind (ParseMessage raw) (\<lambda>msg.
       if length (msg_Payloads msg) \<noteq> 1 then Inl (Err ErrInvalidSKPayload)
       else rbind (idx 0 (msg_Payloads msg)) (\<lambda>p0.
         if pl_Type p0 \<noteq> PayloadSK then Inl (Err ErrInvalidSKPayload)
         else if kmp_EncryptionID (ik_Profile keys) = ENCR_AES_CBC
         then unprotectMessageAESCBC c raw msg keys fromInitiator
         else if kmp_EncryptionID (ik_Profile keys) = ENCR_AES_GCM_16
         then unprotectMessageAESGCM c raw msg keys fromInitiator
         else Inl (Err ErrUnsupportedTransform))))"

section \<open>Properties\<close>

subsection \<open>Padding\<close>

lemma pad_mod: "0 < b \<Longrightarrow> (n + 1 + (b - ((n + 1) mod b)) mod b) mod b = (0 :: nat)"
proof -
  assume b: "0 < b"
  let ?m = "(n + 1) mod b"
  have "(n + 1 + (b - ?m) mod b) mod b = (?m + (b - ?m)) mod b" by (simp only: mod_add_left_eq mod_add_right_eq)
  also have "?m + (b - ?m) = b" using mod_less_divisor [OF b, of "n + 1"] by simp
  finally show ?thesis by simp
qed

lemma padIKEPlaintext_length: "0 < b \<Longrightarrow> length (padIKEPlaintext d b) mod b = 0"
  using pad_mod [of b "length d"] by (simp add: padIKEPlaintext_def Let_def add.commute add.left_commute)

lemma padIKEPlaintext_nonempty [simp]: "padIKEPlaintext d b \<noteq> []"
  by (simp add: padIKEPlaintext_def Let_def)

lemma unpad_pad:
  assumes "0 < b" and "b \<le> 256"
  shows "unpadIKEPlaintext (padIKEPlaintext d b) = Inr d"
proof -
  define k where "k = (b - ((length d + 1) mod b)) mod b"
  have "k < 256" using assms mod_less_divisor [of b] unfolding k_def by (meson less_le_trans)
  then have k: "unat (go_byte k) = k" by simp
  have "padIKEPlaintext d b = d @ map (\<lambda>i. go_byte (i + 1)) [0..<k] @ [go_byte k]"
    by (simp add: padIKEPlaintext_def k_def Let_def)
  then show ?thesis
    using k by (simp add: unpadIKEPlaintext_def Let_def nth_append)
qed

lemma unpadIKEPlaintext_safe: "safe (unpadIKEPlaintext d)"
  by (auto simp: unpadIKEPlaintext_def Let_def intro!: safe_rbind)

subsection \<open>The wire form of a message with one SK payload\<close>

definition sk_prefix :: "Header \<Rightarrow> u8 \<Rightarrow> nat \<Rightarrow> bytes" where
  "sk_prefix h nxt n =
     PutUint64 (hdr_InitiatorSPI h) @ PutUint64 (hdr_ResponderSPI h) @
     [PayloadSK, if hdr_Version h = 0 then 0x20 else hdr_Version h, hdr_ExchangeType h, hdr_Flags h] @
     PutUint32 (hdr_MessageID h) @ PutUint32 (go_uint32 (32 + n)) @
     [nxt, 0] @ PutUint16 (go_uint16 (n + 4))"

lemma length_sk_prefix [simp]: "length (sk_prefix h nxt n) = 32"
  by (simp add: sk_prefix_def)

lemma isEncryptedPayload_SK [simp]: "isEncryptedPayload PayloadSK"
  by (simp add: isEncryptedPayload_def)

lemma skMessage_wf: "length b + 4 \<le> 0xffff \<Longrightarrow> payloads_wf (msg_Payloads (skMessage h nxt b))"
  by (simp add: skMessage_def)

lemma payloads_enc_sk:
  "payloads_enc (msg_Payloads (skMessage h nxt b)) = [nxt, 0] @ PutUint16 (go_uint16 (length b + 4)) @ b"
  by (simp add: skMessage_def payload_enc_def)

lemma marshal_skMessage:
  assumes "length b + 4 \<le> 0xffff"
  shows "Message_MarshalBinary (skMessage h nxt b) = Inr (sk_prefix h nxt (length b) @ b)"
proof -
  have len: "unat (go_uint32 (32 + length b)) = 32 + length b" using assms by simp
  then have "go_uint32 (32 + length b) \<noteq> 0" by (metis add_is_0 unsigned_0 zero_neq_numeral)
  moreover have "28 + length (payloads_enc (msg_Payloads (skMessage h nxt b))) = 32 + length b"
    by (simp add: payloads_enc_sk)
  ultimately show ?thesis
    using assms len skMessage_wf [of b h nxt]
    by (simp add: Message_MarshalBinary_def MarshalPayloads_wf payloads_enc_sk Header_MarshalBinary_def
        Let_def sk_prefix_def) (simp add: skMessage_def)
qed

lemma marshal_skMessage_Inr:
  assumes "Message_MarshalBinary (skMessage h nxt b) = Inr raw"
  shows "length b + 4 \<le> 0xffff \<and> raw = sk_prefix h nxt (length b) @ b"
proof -
  have "length b + 4 \<le> 0xffff"
    using assms by (auto simp: Message_MarshalBinary_def MarshalPayloads_def skMessage_def Let_def
        rbind_eq_Inr_iff split: if_splits)
  with assms show ?thesis by (simp add: marshal_skMessage)
qed

lemma parse_skMessage:
  assumes "length b + 4 \<le> 0xffff"
  shows "ParseMessage (sk_prefix h nxt (length b) @ b) = Inr (complete_message (skMessage h nxt b))"
  using assms
  by (intro ParseMessage_marshal [OF skMessage_wf _ marshal_skMessage]) (simp_all add: payloads_enc_sk)

lemma complete_skMessage [simp]:
  "msg_Payloads (complete_message (skMessage h nxt b)) = msg_Payloads (skMessage h nxt b)"
  by (simp add: complete_message_def skMessage_def)

subsection \<open>Checksums and keys\<close>

lemma IntegrityChecksum_Inr:
  assumes "IntegrityChecksum c p key d = Inr x"
  shows "int (length x) = kmp_IntegrityChecksumLength p"
    and "\<exists>h. integrityHash (kmp_IntegrityID p) = Inr h \<and>
      x = take (nat (kmp_IntegrityChecksumLength p)) (cr_hmac c h key d)"
  using assms by (auto simp: IntegrityChecksum_def rbind_eq_Inr_iff Let_def split: if_splits)

lemma IntegrityChecksum_safe: "safe (IntegrityChecksum c p key d)"
  by (auto simp: IntegrityChecksum_def integrityHash_def Let_def intro!: safe_rbind)

definition gcm_key_ok :: "bytes \<Rightarrow> bool" where
  "gcm_key_ok key \<longleftrightarrow> length key = 20 \<or> length key = 28 \<or> length key = 36"

lemma aesGCMIKEAEAD_ok:
  assumes "gcm_key_ok key"
  shows "aesGCMIKEAEAD key 16 = Inr (take (length key - 4) key, drop (length key - 4) key)"
  using assms
  by (auto simp: aesGCMIKEAEAD_def gcm_key_ok_def validAESGCMIKEKeyLength_def Let_def aes_NewCipher_def
      aes_key_ok_def gcm_tag_ok_def)

lemma validateKeySet_Inr:
  assumes "validateKeySet keys = Inr ()"
  shows "kmp_EncryptionID (ik_Profile keys) = ENCR_AES_CBC \<and>
      kmp_EncryptionBlockSize (ik_Profile keys) = 16 \<and> 0 < kmp_IntegrityChecksumLength (ik_Profile keys) \<or>
    kmp_EncryptionID (ik_Profile keys) = ENCR_AES_GCM_16 \<and>
      kmp_EncryptionBlockSize (ik_Profile keys) = 8 \<and> kmp_IntegrityChecksumLength (ik_Profile keys) = 16 \<and>
      gcm_key_ok (fst (keysForDirection keys d))"
  using assms
  by (auto simp: validateKeySet_def Let_def validAESGCMIKEKeyLength_def keysForDirection_def gcm_key_ok_def
      split: if_splits)

subsection \<open>Opening what was sealed\<close>

lemma decrypt_encrypt_AESCBC:
  assumes "crypto_ok c" and "encryptAESCBC c key iv plain = Inr ct" and "plain \<noteq> []"
  shows "decryptAESCBC c key iv ct = Inr plain" and "length iv = 16"
proof -
  have key: "aes_key_ok key" and iv: "length iv = 16" and p: "length plain mod 16 = 0"
    and ct: "ct = cbc_encrypt c key iv plain"
    using assms(2) by (auto simp: encryptAESCBC_def aes_NewCipher_def split: if_splits)
  have "length ct = length plain" using cbc_encrypt_length [OF assms(1) iv p] ct by simp
  with key iv p assms(3) cbc_roundtrip [OF assms(1) key iv p] show "decryptAESCBC c key iv ct = Inr plain"
    by (simp add: decryptAESCBC_def aes_NewCipher_def ct)
  show "length iv = 16" by (rule iv)
qed

lemma unprotect_protect_AESCBC:
  assumes c: "crypto_ok c" and wf: "payloads_wf inner"
    and keys: "validateKeySet keys = Inr ()" "kmp_EncryptionID (ik_Profile keys) = ENCR_AES_CBC"
    and p: "protectMessageAESCBC c r header keys d (first_type inner) (payloads_enc inner) iv0 = Inr (msg, raw)"
  shows "UnprotectMessage c raw keys d = Inr (complete_message msg, link_payloads inner)"
proof -
  let ?prof = "ik_Profile keys" and ?plain = "padIKEPlaintext (payloads_enc inner) 16"
  obtain ek ak where dir: "keysForDirection keys d = (ek, ak)" by fastforce
  have bs: "kmp_EncryptionBlockSize ?prof = 16" "0 < kmp_IntegrityChecksumLength ?prof"
    using validateKeySet_Inr [OF keys(1), of d] keys(2) by auto
  define k where "k = nat (kmp_IntegrityChecksumLength ?prof)"
  from p obtain iv ct rawZ icv where
    ct: "encryptAESCBC c ek iv ?plain = Inr ct"
    and rawZ: "Message_MarshalBinary (skMessage header (first_type inner) ((iv @ ct) @ replicate k 0)) = Inr rawZ"
    and icv: "IntegrityChecksum c ?prof ak (take (length rawZ - k) rawZ) = Inr icv"
    and msg: "msg = skMessage header (first_type inner) (copy_at (length (iv @ ct)) ((iv @ ct) @ replicate k 0) icv)"
    and raw: "raw = copy_at (length rawZ - k) rawZ icv"
    unfolding protectMessageAESCBC_def Let_def bs dir k_def [symmetric]
    by (auto simp: rbind_eq_Inr_iff simp del: append_assoc split: if_splits)
  define b where "b = iv @ ct"
  have k: "length icv = k" using IntegrityChecksum_Inr(1) [OF icv] by (simp add: k_def)
  have len: "length b + k + 4 \<le> 0xffff" and rawZ': "rawZ = sk_prefix header (first_type inner) (length b + k) @ b @ replicate k 0"
    using marshal_skMessage_Inr [OF rawZ] by (simp_all add: b_def add.assoc)
  define pre where "pre = sk_prefix header (first_type inner) (length b + k)"
  have raw': "raw = pre @ b @ icv"
    using copy_at_append [of "replicate k 0" icv "pre @ b" "length (pre @ b)"] k
    by (simp add: raw rawZ' pre_def)
  have msg': "msg = skMessage header (first_type inner) (b @ icv)"
    using k by (simp add: msg b_def [symmetric] del: append_assoc)
  have parse: "ParseMessage raw = Inr (complete_message msg)"
    using parse_skMessage [of "b @ icv" header "first_type inner"] len k by (simp add: raw' msg' pre_def)
  have signed: "take (length rawZ - k) rawZ = pre @ b" by (simp add: rawZ' pre_def)
  note dec = decrypt_encrypt_AESCBC [OF c ct padIKEPlaintext_nonempty]
  have unpad: "unpadIKEPlaintext ?plain = Inr (payloads_enc inner)" by (simp add: unpad_pad)
  show ?thesis
    using keys bs parse icv [unfolded signed] k dec unpad ParsePayloads_enc [OF wf]
    by (simp add: UnprotectMessage_def unprotectMessageAESCBC_def Let_def dir k_def [symmetric] raw' msg')
      (simp add: skMessage_def b_def)
qed

lemma unprotect_protect_AESGCM:
  assumes c: "crypto_ok c" and wf: "payloads_wf inner"
    and keys: "validateKeySet keys = Inr ()" "kmp_EncryptionID (ik_Profile keys) = ENCR_AES_GCM_16"
    and p: "protectMessageAESGCM c r header keys d (first_type inner) (payloads_enc inner) iv0 = Inr (msg, raw)"
  shows "UnprotectMessage c raw keys d = Inr (complete_message msg, link_payloads inner)"
proof -
  let ?prof = "ik_Profile keys" and ?plain = "padIKEPlaintext (payloads_enc inner) 1"
  obtain ek ak where dir: "keysForDirection keys d = (ek, ak)" by fastforce
  have bs: "kmp_EncryptionBlockSize ?prof = 8" "kmp_IntegrityChecksumLength ?prof = 16" "gcm_key_ok ek"
    using validateKeySet_Inr [OF keys(1), of d] keys(2) dir by auto
  define key salt where "key = take (length ek - 4) ek" and "salt = drop (length ek - 4) ek"
  have salt: "length salt = 4" using bs(3) by (auto simp: salt_def gcm_key_ok_def)
  note aead = aesGCMIKEAEAD_ok [OF bs(3), folded key_def salt_def]
  define z :: bytes where "z = replicate (length ?plain + 16) 0"
  from p obtain iv rawZ where iv: "length iv = 8"
    and rawZ: "Message_MarshalBinary (skMessage header (first_type inner) (iv @ z)) = Inr rawZ"
    and long: "32 \<le> length rawZ"
    and msg: "msg = skMessage header (first_type inner)
        (copy_at 8 (iv @ z) (cr_gcm_seal c key 16 (salt @ iv) ?plain (take 32 rawZ)))"
    and raw: "raw = copy_at 32 rawZ
        (copy_at 8 (iv @ z) (cr_gcm_seal c key 16 (salt @ iv) ?plain (take 32 rawZ)))"
    unfolding protectMessageAESGCM_def Let_def bs dir z_def
    by (auto simp: rbind_eq_Inr_iff aead ikeSKAssociatedData_def gcm_Seal_def aesGCMIKENonce_def
        split: if_splits)
  define pre where "pre = sk_prefix header (first_type inner) (length (iv @ z))"
  have len: "length (iv @ z) + 4 \<le> 0xffff" and rawZ': "rawZ = pre @ iv @ z"
    using marshal_skMessage_Inr [OF rawZ] by (simp_all add: pre_def)
  define x where "x = cr_gcm_seal c key 16 (salt @ iv) ?plain pre"
  have x: "length x = length z" using c by (simp add: x_def z_def)
  have pre: "take 32 rawZ = pre" by (simp add: rawZ' pre_def)
  have body: "copy_at 8 (iv @ z) (cr_gcm_seal c key 16 (salt @ iv) ?plain (take 32 rawZ)) = iv @ x"
    using iv x unfolding pre x_def by (intro copy_at_append) simp_all
  have raw': "raw = pre @ iv @ x"
    unfolding raw body unfolding rawZ' using x by (intro copy_at_append) (simp_all add: pre_def)
  have msg': "msg = skMessage header (first_type inner) (iv @ x)" unfolding msg body by (rule refl)
  have parse: "ParseMessage raw = Inr (complete_message msg)"
    using parse_skMessage [of "iv @ x" header "first_type inner"] len x
    by (simp add: raw' msg' pre_def)
  have "unpadIKEPlaintext ?plain = Inr (payloads_enc inner)" by (simp add: unpad_pad)
  moreover have "cr_gcm_open c key 16 (salt @ iv) x pre = Some ?plain" using c by (simp add: x_def)
  moreover have "1 \<le> length ?plain" by (simp add: Suc_le_eq)
  ultimately show ?thesis
    using keys bs parse iv x salt ParsePayloads_enc [OF wf]
    by (simp add: UnprotectMessage_def unprotectMessageAESGCM_def Let_def dir aead raw' msg'
        ikeSKAssociatedData_def gcm_Open_def aesGCMIKENonce_def pre_def z_def)
      (simp add: skMessage_def)
qed

lemma ProtectMessage_cases:
  assumes "ProtectMessage c r header keys d inner iv = Inr (msg, raw)" and "list_all (\<lambda>p. pl_Type p \<noteq> 0) inner"
  shows "validateKeySet keys = Inr () \<and> payloads_wf inner \<and>
    (kmp_EncryptionID (ik_Profile keys) = ENCR_AES_CBC \<and>
       protectMessageAESCBC c r header keys d (first_type inner) (payloads_enc inner) iv = Inr (msg, raw) \<or>
     kmp_EncryptionID (ik_Profile keys) = ENCR_AES_GCM_16 \<and>
       protectMessageAESGCM c r header keys d (first_type inner) (payloads_enc inner) iv = Inr (msg, raw))"
  using assms
  by (auto simp: ProtectMessage_def rbind_eq_Inr_iff dest!: MarshalPayloads_Inr split: if_splits)

text \<open>A header and a key set to evaluate the model on.\<close>

definition demo_header :: Header where
  "demo_header = \<lparr>hdr_InitiatorSPI = 1, hdr_ResponderSPI = 2, hdr_NextPayload = 0, hdr_Version = 0,
     hdr_ExchangeType = ExchangeINFORMATIONAL, hdr_Flags = FlagInitiator, hdr_MessageID = 3, hdr_Length = 0\<rparr>"

definition demo_keys :: IKEKeys where
  "demo_keys =
     \<lparr>ik_Profile = \<lparr>kmp_PRF = SHA256, kmp_EncryptionID = ENCR_AES_GCM_16, kmp_EncryptionKeyLength = 20,
        kmp_EncryptionBlockSize = 8, kmp_IntegrityID = 0, kmp_IntegrityKeyLength = 0,
        kmp_IntegrityChecksumLength = 16, kmp_PRFKeyLength = 32\<rparr>,
      ik_SKD = [], ik_SKAi = [], ik_SKAr = [], ik_SKEi = replicate 20 5, ik_SKEr = replicate 20 6,
      ik_SKPi = [], ik_SKPr = []\<rparr>"

lemmas demo_simps = validateKeySet_def validAESGCMIKEKeyLength_def protectMessageAESGCM_def
  keysForDirection_def randomBytes_def aesGCMIKEAEAD_def aes_NewCipher_def aes_key_ok_def gcm_tag_ok_def
  padIKEPlaintext_def Let_def marshal_skMessage ikeSKAssociatedData_def gcm_Seal_def aesGCMIKENonce_def

lemma ProtectMessage_header: "ProtectMessage c r header keys d inner iv = Inr (msg, raw) \<Longrightarrow> msg_Header msg = header"
  by (cases d)
    (auto simp: ProtectMessage_def protectMessageAESCBC_def protectMessageAESGCM_def skMessage_def rbind_eq_Inr_iff
      Let_def keysForDirection_def split: if_splits)

lemma unprotect_protect:
  assumes "crypto_ok c" and "list_all (\<lambda>p. pl_Type p \<noteq> 0) inner"
    and "ProtectMessage c r header keys fromInitiator inner iv = Inr (msg, raw)"
  shows "UnprotectMessage c raw keys fromInitiator = Inr (complete_message msg, link_payloads inner)"
  using ProtectMessage_cases [OF assms(3,2)] assms(1)
  by (auto intro: unprotect_protect_AESCBC unprotect_protect_AESGCM)

text \<open>C13: the receiver reads what the sender protected.  For either cipher, any direction and any
  initialisation vector, opening a protected message with the same keys returns its header, filled
  in, and exactly the inner payloads.\<close>

theorem UnprotectMessage_ProtectMessage:
  assumes "crypto_ok c" and "list_all (\<lambda>p. pl_Type p \<noteq> 0) inner"
    and "ProtectMessage c r header keys fromInitiator inner iv = Inr (msg, raw)"
  shows "UnprotectMessage c raw keys fromInitiator = Inr (complete_message msg, link_payloads inner)"
  by (rule unprotect_protect [OF assms])

theorem UnprotectMessage_ProtectMessage_witness:
  "\<exists>msg raw. ProtectMessage demo_crypto (\<lambda>n. Inr (replicate n 9)) demo_header demo_keys True
       [mkPayload PayloadNotify [0, 0, 64, 16]] [] = Inr (msg, raw) \<and>
     UnprotectMessage demo_crypto raw demo_keys True =
       Inr (complete_message msg, link_payloads [mkPayload PayloadNotify [0, 0, 64, 16]])"
proof -
  obtain msg raw where p: "ProtectMessage demo_crypto (\<lambda>n. Inr (replicate n 9)) demo_header demo_keys True
      [mkPayload PayloadNotify [0, 0, 64, 16]] [] = Inr (msg, raw)"
    by (simp add: ProtectMessage_def demo_header_def demo_keys_def MarshalPayloads_def isEncryptedPayload_def demo_simps)
  moreover have "UnprotectMessage demo_crypto raw demo_keys True =
      Inr (complete_message msg, link_payloads [mkPayload PayloadNotify [0, 0, 64, 16]])"
    by (rule UnprotectMessage_ProtectMessage [OF demo_crypto_ok _ p]) simp
  ultimately show ?thesis by blast
qed

text \<open>C33: nothing unauthenticated gets through.  When a message is opened, it consists of one SK
  payload; with CBC the tail of its body is the keyed checksum of all octets of the datagram before
  it; with GCM the body passes the AEAD check with the first 32 octets, header and payload header,
  as associated data.\<close>

theorem UnprotectMessage_authenticated:
  assumes "UnprotectMessage c raw keys d = Inr (msg, inner)"
  shows "\<exists>sk. msg_Payloads msg = [sk] \<and> pl_Type sk = PayloadSK \<and>
    (if kmp_EncryptionID (ik_Profile keys) = ENCR_AES_CBC
     then let n = nat (kmp_IntegrityChecksumLength (ik_Profile keys)) in
       0 < n \<and> (\<exists>h. integrityHash (kmp_IntegrityID (ik_Profile keys)) = Inr h \<and>
         drop (length (pl_Body sk) - n) (pl_Body sk) =
           take n (cr_hmac c h (snd (keysForDirection keys d)) (take (length raw - n) raw)))
     else \<exists>key salt plain. aesGCMIKEAEAD (fst (keysForDirection keys d)) 16 = Inr (key, salt) \<and>
         cr_gcm_open c key 16 (salt @ take 8 (pl_Body sk)) (drop 8 (pl_Body sk)) (take 32 raw) = Some plain)"
proof -
  obtain msg' sk where msg': "msg_Payloads msg' = [sk]" "pl_Type sk = PayloadSK"
    and keys: "validateKeySet keys = Inr ()"
    and u: "(if kmp_EncryptionID (ik_Profile keys) = ENCR_AES_CBC
        then unprotectMessageAESCBC c raw msg' keys d else unprotectMessageAESGCM c raw msg' keys d)
      = Inr (msg, inner)"
    using assms validateKeySet_Inr [of keys d]
    by (auto simp: UnprotectMessage_def rbind_eq_Inr_iff length_Suc_conv split: if_splits)
  show ?thesis
  proof (cases "kmp_EncryptionID (ik_Profile keys) = ENCR_AES_CBC")
    case True
    then have "0 < kmp_IntegrityChecksumLength (ik_Profile keys)"
      using validateKeySet_Inr [OF keys, of d] by auto
    with True u msg' show ?thesis
      by (auto simp: unprotectMessageAESCBC_def Let_def rbind_eq_Inr_iff split: if_splits prod.splits
          dest!: IntegrityChecksum_Inr(2))
  next
    case False
    then have "kmp_EncryptionBlockSize (ik_Profile keys) = 8"
      "kmp_IntegrityChecksumLength (ik_Profile keys) = 16"
      using validateKeySet_Inr [OF keys, of d] by auto
    with False u msg' show ?thesis
      by (fastforce simp: unprotectMessageAESGCM_def Let_def rbind_eq_Inr_iff gcm_Open_def
          ikeSKAssociatedData_def aesGCMIKENonce_def split: if_splits prod.splits option.splits)
  qed
qed

theorem UnprotectMessage_authenticated_witness:
  "\<exists>raw msg inner sk. UnprotectMessage demo_crypto raw demo_keys True = Inr (msg, inner) \<and>
     msg_Payloads msg = [sk] \<and> pl_Type sk = PayloadSK"
proof -
  obtain msg raw where p: "protectMessageAESGCM demo_crypto (\<lambda>n. Inr (replicate n 9)) demo_header demo_keys True
      (first_type []) (payloads_enc []) [] = Inr (msg, raw)"
    by (simp add: demo_header_def demo_keys_def demo_simps)
  have u: "UnprotectMessage demo_crypto raw demo_keys True = Inr (complete_message msg, link_payloads [])"
    by (rule unprotect_protect_AESGCM [OF demo_crypto_ok _ _ _ p]) (simp_all add: demo_keys_def demo_simps)
  from UnprotectMessage_authenticated [OF u] u show ?thesis by blast
qed

subsection \<open>No panics\<close>

lemma decryptAESCBC_safe: "safe (decryptAESCBC c key iv ct)"
  by (auto simp: decryptAESCBC_def aes_NewCipher_def intro!: safe_rbind)

lemma only_errs_ParsePayloads_safe: "safe (ParsePayloads t d)"
  using ParsePayloads_errs by (rule only_errs_safe) simp_all

lemma ParseMessage_safe: "safe (ParseMessage d)"
  by (auto simp: ParseMessage_def only_errs_ParsePayloads_safe intro!: safe_rbind only_errs_safe [OF ParseHeader_errs]
      dest: ParseHeader_bounds)

lemma validateKeySet_safe: "safe (validateKeySet keys)"
  by (auto simp: validateKeySet_def Let_def)

lemma unprotectMessageAESCBC_safe:
  assumes "kmp_EncryptionBlockSize (ik_Profile keys) = 16" and "msg_Payloads msg = [sk]"
  shows "safe (unprotectMessageAESCBC c raw msg keys d)"
  using assms
  by (auto simp: unprotectMessageAESCBC_def Let_def IntegrityChecksum_safe decryptAESCBC_safe
      unpadIKEPlaintext_safe only_errs_ParsePayloads_safe split: prod.splits intro!: safe_rbind)

lemma unprotectMessageAESGCM_safe:
  assumes "kmp_EncryptionBlockSize (ik_Profile keys) = 8" and "kmp_IntegrityChecksumLength (ik_Profile keys) = 16"
    and "gcm_key_ok (fst (keysForDirection keys d))" and "msg_Payloads msg = [sk]"
  shows "safe (unprotectMessageAESGCM c raw msg keys d)"
  using assms
  by (auto simp: unprotectMessageAESGCM_def Let_def aesGCMIKEAEAD_ok gcm_key_ok_def ikeSKAssociatedData_def
      gcm_Open_def aesGCMIKENonce_def unpadIKEPlaintext_safe only_errs_ParsePayloads_safe
      split: prod.splits option.splits intro!: safe_rbind)

text \<open>no datagram and no key set makes the receiver panic or loop: it returns the payloads or an
  error.\<close>

theorem UnprotectMessage_never_panics: "safe (UnprotectMessage c raw keys fromInitiator)"
  using validateKeySet_Inr [of keys fromInitiator]
  by (auto simp: UnprotectMessage_def validateKeySet_safe ParseMessage_safe length_Suc_conv
      intro!: safe_rbind unprotectMessageAESCBC_safe unprotectMessageAESGCM_safe)

end
