(* ===== verification/IKE_CreateChild.thy ===== *)
theory IKE_CreateChild
  imports IKE_Child IKE_SK
begin

text \<open>
  \<^verbatim>\<open>engine/swu/ikev2/create_child.go\<close> and \<^verbatim>\<open>create_child_rekey.go\<close>: the CREATE_CHILD_SA exchange of the
  initiator and the rekeying of a child SA with it.  The transport is one exchange, the random source the sequence
  of its reads: the SPI, the nonce and the initialisation vector are the reads 0, 1 and 2 in this order, each made
  only when the configuration does not give the value.  The clones of the code copy values and are identities.
\<close>

section \<open>Data\<close>

record CreateChildSAConfig =
  cc_Transport :: "transport option"
  cc_Init :: InitResult
  cc_Keys :: IKEKeys
  cc_MessageID :: u32
  cc_ChildSA :: SecurityAssociation
  cc_ChildSPI :: bytes
  cc_TSi :: TrafficSelectors
  cc_TSr :: TrafficSelectors
  cc_Nonce :: bytes
  cc_RekeySPI :: bytes
  cc_Random :: "reader option"
  cc_IV :: bytes

record CreateChildSAResult =
  cr_RequestBytes :: bytes
  cr_ResponseBytes :: bytes
  cr_RequestNonce :: bytes
  cr_ResponseNonce :: bytes
  cr_ResponseInner :: "Payload list"
  cr_ChildSA :: ChildSAResult
  cr_NextMessageID :: u32
  cr_Rekeyed :: bool

section \<open>The request\<close>

text \<open>The proposal, the SPI in it and the number of reads made from the random source.\<close>

definition createChildProposal :: "CreateChildSAConfig \<Rightarrow> reader \<Rightarrow> (SecurityAssociation \<times> bytes \<times> nat) res" where
  "createChildProposal cfg rd =
     (case sa_Proposals (cc_ChildSA cfg) of
        [] \<Rightarrow>
          rbind (if length (cc_ChildSPI cfg) = 0 then rbind (randomBytes (rd 0) 4) (\<lambda>b. Inr (b, 1))
                 else Inr (cc_ChildSPI cfg, 0)) (\<lambda>(spi, k).
          if length spi \<noteq> 4 then Inl (Err ErrInvalidCreateChild)
          else Inr (DefaultESPProposal spi, spi, k))
      | p # rest \<Rightarrow>
          if rest \<noteq> [] then Inl (Err ErrInvalidCreateChild)
          else
            let spi = (if length (cc_ChildSPI cfg) = 0 then prop_SPI p else cc_ChildSPI cfg) in
            if length spi \<noteq> 4 then Inl (Err ErrInvalidCreateChild)
            else Inr (\<lparr>sa_Proposals = [p\<lparr>prop_SPI := spi\<rparr>]\<rparr>, spi, 0))"

text \<open>The payloads, the nonce, the local SPI and the number of reads.\<close>

definition BuildCreateChildSAPayloads ::
  "reader \<Rightarrow> CreateChildSAConfig \<Rightarrow> (Payload list \<times> bytes \<times> bytes \<times> nat) res" where
  "BuildCreateChildSAPayloads randReader cfg =
     (let rd = (case cc_Random cfg of Some r \<Rightarrow> r | None \<Rightarrow> randReader) in
      rbind (createChildProposal cfg rd) (\<lambda>(childSA, localSPI, k).
      rbind (if length (cc_Nonce cfg) = 0 then rbind (randomBytes (rd k) DefaultNonceLength) (\<lambda>b. Inr (b, k + 1))
             else Inr (cc_Nonce cfg, k)) (\<lambda>(nonce, k).
      if length nonce = 0 then Inl (Err ErrInvalidCreateChild)
      else
        rbind (SecurityAssociationPayload childSA) (\<lambda>saPayload.
        let tsi = (if length (tss_Selectors (cc_TSi cfg)) = 0 then IPv4AnyTrafficSelectors else cc_TSi cfg) in
        rbind (TrafficSelectorsPayload PayloadTSi tsi) (\<lambda>tsiPayload.
        let tsr = (if length (tss_Selectors (cc_TSr cfg)) = 0 then IPv4AnyTrafficSelectors else cc_TSr cfg) in
        rbind (TrafficSelectorsPayload PayloadTSr tsr) (\<lambda>tsrPayload.
        rbind (if length (cc_RekeySPI cfg) > 0
               then (if length (cc_RekeySPI cfg) \<noteq> 4 then Inl (Err ErrInvalidCreateChild)
                     else rbind (NotifyPayload \<lparr>ntf_ProtocolID = ProtocolESP, ntf_NotifyType = NotifyRekeySA,
                       ntf_SPI = cc_RekeySPI cfg, ntf_NotificationData = []\<rparr>) (\<lambda>rekey. Inr [rekey]))
               else Inr []) (\<lambda>payloads.
          Inr (payloads @ [saPayload, NoncePayload nonce, tsiPayload, tsrPayload], nonce, localSPI, k))))))))"

definition createChildHeader :: "InitResult \<Rightarrow> u32 \<Rightarrow> bool \<Rightarrow> Header" where
  "createChildHeader init messageID fromInitiator =
     \<lparr>hdr_InitiatorSPI = ir_InitiatorSPI init, hdr_ResponderSPI = ir_ResponderSPI init, hdr_NextPayload = 0,
      hdr_Version = 0, hdr_ExchangeType = ExchangeCREATE_CHILD_SA,
      hdr_Flags = (if fromInitiator then FlagInitiator else FlagResponse), hdr_MessageID = messageID, hdr_Length = 0\<rparr>"

definition createChildIV :: "random \<Rightarrow> KeyMaterialProfile \<Rightarrow> bytes \<Rightarrow> bytes res" where
  "createChildIV rnd profile override =
     (if length override > 0
      then (if int (length override) \<noteq> kmp_EncryptionBlockSize profile then Inl (Err ErrInvalidCreateChild)
            else Inr override)
      else RandomIV rnd profile)"

section \<open>The response\<close>

definition unprotectCreateChildResponse ::
  "crypto \<Rightarrow> bytes \<Rightarrow> InitResult \<Rightarrow> IKEKeys \<Rightarrow> u32 \<Rightarrow> (Message \<times> Payload list) res" where
  "unprotectCreateChildResponse c raw init keys messageID =
     rbind (UnprotectMessage c raw keys False) (\<lambda>(msg, inner).
     let h = msg_Header msg in
     if hdr_InitiatorSPI h \<noteq> ir_InitiatorSPI init \<or> hdr_ResponderSPI h \<noteq> ir_ResponderSPI init \<or>
        hdr_ExchangeType h \<noteq> ExchangeCREATE_CHILD_SA \<or> hdr_MessageID h \<noteq> messageID \<or>
        hdr_Flags h AND FlagResponse = 0
     then Inl (Err ErrInvalidCreateChild)
     else Inr (msg, inner))"

fun firstNonce :: "Payload list \<Rightarrow> bytes res" where
  "firstNonce [] = Inl (Err ErrInvalidCreateChild)"
| "firstNonce (p # ps) =
     (if pl_Type p = PayloadNonce
      then (if length (pl_Body p) = 0 then Inl (Err ErrInvalidCreateChild) else Inr (pl_Body p))
      else firstNonce ps)"

section \<open>The exchange\<close>

definition RunCREATE_CHILD_SA :: "crypto \<Rightarrow> reader \<Rightarrow> CreateChildSAConfig \<Rightarrow> CreateChildSAResult res" where
  "RunCREATE_CHILD_SA c randReader cfg =
     (case cc_Transport cfg of
        None \<Rightarrow> Inl (Err ErrInvalidCreateChild)
      | Some transport \<Rightarrow>
          let init = cc_Init cfg;
              keys = (if RequiredLength (ik_Profile (cc_Keys cfg)) = 0 then ir_Keys init else cc_Keys cfg);
              rd = (case cc_Random cfg of Some r \<Rightarrow> r | None \<Rightarrow> randReader) in
          rbind (validateKeySet keys) (\<lambda>_.
          if ir_InitiatorSPI init = 0 \<or> ir_ResponderSPI init = 0 then Inl (Err ErrInvalidCreateChild)
          else if cc_MessageID cfg = 0 then Inl (Err ErrInvalidCreateChild)
          else
            rbind (BuildCreateChildSAPayloads randReader cfg) (\<lambda>(payloads, requestNonce, localSPI, k).
            rbind (firstSecurityAssociation payloads) (\<lambda>found.
            case found of
              None \<Rightarrow> Inl (Err ErrInvalidCreateChild)
            | Some offered \<Rightarrow>
                rbind (createChildIV (rd k) (ik_Profile keys) (cc_IV cfg)) (\<lambda>iv.
                rbind (ProtectMessage c (randReader (k + 1)) (createChildHeader init (cc_MessageID cfg) True) keys True
                  payloads iv) (\<lambda>(_, reqBytes).
                rbind (transport 0 reqBytes) (\<lambda>respBytes.
                rbind (unprotectCreateChildResponse c respBytes init keys (cc_MessageID cfg)) (\<lambda>(_, inner).
                case FirstNotifyError inner of
                  Some e \<Rightarrow> Inl (Wrap ErrInvalidCreateChild e)
                | None \<Rightarrow>
                    rbind (firstNonce inner) (\<lambda>responseNonce.
                    rbind (parseChildSAResultWithNonces c (init\<lparr>ir_Keys := keys\<rparr>) inner localSPI requestNonce
                      responseNonce (Some offered) (trafficSelectorsOrIPv4Any (cc_TSi cfg))
                      (trafficSelectorsOrIPv4Any (cc_TSr cfg))) (\<lambda>child.
                      Inr \<lparr>cr_RequestBytes = reqBytes, cr_ResponseBytes = respBytes, cr_RequestNonce = requestNonce,
                        cr_ResponseNonce = responseNonce, cr_ResponseInner = inner,
                        cr_ChildSA = child\<lparr>cs_NextMessageID := cc_MessageID cfg + 1\<rparr>,
                        cr_NextMessageID = cc_MessageID cfg + 1, cr_Rekeyed = (length (cc_RekeySPI cfg) > 0)\<rparr>))))))))))"

section \<open>Rekeying\<close>

record ChildSARekeyConfig =
  rk_Transport :: "transport option"
  rk_Init :: InitResult
  rk_Keys :: IKEKeys
  rk_MessageID :: u32
  rk_OldChildSA :: ChildSAResult
  rk_ChildSA :: SecurityAssociation
  rk_ChildSPI :: bytes
  rk_RekeySPI :: bytes
  rk_TSi :: TrafficSelectors
  rk_TSr :: TrafficSelectors
  rk_Nonce :: bytes
  rk_Random :: "reader option"
  rk_IV :: bytes

record ChildSARekeyPlan =
  rp_Config :: CreateChildSAConfig
  rp_OldLocalSPI :: bytes
  rp_OldRemoteSPI :: bytes
  rp_RekeySPI :: bytes
  rp_NewLocalSPI :: bytes

definition childSAForRekey :: "ChildSARekeyConfig \<Rightarrow> reader \<Rightarrow> (SecurityAssociation \<times> bytes \<times> nat) res" where
  "childSAForRekey cfg rd =
     (let spi0 = (if length (rk_ChildSPI cfg) = 0 \<and> length (sa_Proposals (rk_ChildSA cfg)) > 0
                  then rbind (idx 0 (sa_Proposals (rk_ChildSA cfg))) (\<lambda>p. Inr (prop_SPI p))
                  else Inr (rk_ChildSPI cfg)) in
      rbind spi0 (\<lambda>spi1.
      rbind (if length spi1 = 0 then rbind (randomBytes (rd 0) 4) (\<lambda>b. Inr (b, 1)) else Inr (spi1, 0)) (\<lambda>(childSPI, k).
      if length childSPI \<noteq> 4 then Inl (Err ErrInvalidCreateChild)
      else
        let sa = (if length (sa_Proposals (rk_ChildSA cfg)) = 0 then cs_SelectedSA (rk_OldChildSA cfg)
                  else rk_ChildSA cfg) in
        case sa_Proposals sa of
          [] \<Rightarrow> Inr (DefaultESPProposal childSPI, childSPI, k)
        | p # rest \<Rightarrow>
            if rest \<noteq> [] then Inl (Err ErrInvalidCreateChild)
            else if prop_ProtocolID p \<noteq> ProtocolESP then Inl (Err ErrInvalidCreateChild)
            else Inr (\<lparr>sa_Proposals = [p\<lparr>prop_SPI := childSPI\<rparr>]\<rparr>, childSPI, k))))"

text \<open>The reader after its first \<open>k\<close> reads.\<close>

definition advance_reader :: "nat \<Rightarrow> reader \<Rightarrow> reader" where
  "advance_reader k rd = (\<lambda>i. rd (k + i))"

text \<open>The plan and the number of reads made for it.\<close>

definition NewChildSARekeyPlan :: "reader \<Rightarrow> ChildSARekeyConfig \<Rightarrow> (ChildSARekeyPlan \<times> nat) res" where
  "NewChildSARekeyPlan randReader cfg =
     (let old = rk_OldChildSA cfg; oldLocalSPI = cs_LocalSPI old in
      if length oldLocalSPI \<noteq> 4 then Inl (Err ErrInvalidCreateChild)
      else
        let rekeySPI = (if length (rk_RekeySPI cfg) = 0 then oldLocalSPI else rk_RekeySPI cfg) in
        if length rekeySPI \<noteq> 4 then Inl (Err ErrInvalidCreateChild)
        else
          rbind (childSAForRekey cfg (case rk_Random cfg of Some r \<Rightarrow> r | None \<Rightarrow> randReader)) (\<lambda>(childSA, childSPI, k).
          let tsi = (if length (tss_Selectors (rk_TSi cfg)) = 0 then cs_TSi old else rk_TSi cfg);
              tsr = (if length (tss_Selectors (rk_TSr cfg)) = 0 then cs_TSr old else rk_TSr cfg) in
            Inr (\<lparr>rp_Config = \<lparr>cc_Transport = rk_Transport cfg, cc_Init = rk_Init cfg, cc_Keys = rk_Keys cfg,
                    cc_MessageID = rk_MessageID cfg, cc_ChildSA = childSA, cc_ChildSPI = childSPI, cc_TSi = tsi,
                    cc_TSr = tsr, cc_Nonce = rk_Nonce cfg, cc_RekeySPI = rekeySPI,
                    cc_Random = map_option (advance_reader k) (rk_Random cfg), cc_IV = rk_IV cfg\<rparr>,
                  rp_OldLocalSPI = oldLocalSPI, rp_OldRemoteSPI = cs_RemoteSPI old, rp_RekeySPI = rekeySPI,
                  rp_NewLocalSPI = childSPI\<rparr>, k)))"

definition RunCREATE_CHILD_SARekey :: "crypto \<Rightarrow> reader \<Rightarrow> ChildSARekeyConfig \<Rightarrow> CreateChildSAResult res" where
  "RunCREATE_CHILD_SARekey c randReader cfg =
     rbind (NewChildSARekeyPlan randReader cfg) (\<lambda>(plan, k).
       RunCREATE_CHILD_SA c (if rk_Random cfg = None then advance_reader k randReader else randReader) (rp_Config plan))"

section \<open>Lemmas\<close>

lemma firstSecurityAssociation_link [simp]: "firstSecurityAssociation (link_payloads ps) = firstSecurityAssociation ps"
  by (induction ps) (auto simp: firstSecurityAssociation_def)

lemma firstNonce_link [simp]: "firstNonce (link_payloads ps) = firstNonce ps"
  by (induction ps) auto

lemma DefaultESPProposal_wf [simp]: "list_all proposal_wf (sa_Proposals (DefaultESPProposal spi))"
  by (simp add: DefaultESPProposal_def proposal_wf_def transform_wf_def KeyLengthAttribute_def)

lemma createChildProposal_Inr:
  assumes "createChildProposal cfg rd = Inr (sa, spi, k)" and "list_all proposal_wf (sa_Proposals (cc_ChildSA cfg))"
  shows "list_all proposal_wf (sa_Proposals sa) \<and> length spi = 4 \<and> (\<exists>p. sa_Proposals sa = [p] \<and> prop_SPI p = spi \<and>
    (cc_ChildSPI cfg \<noteq> [] \<longrightarrow> spi = cc_ChildSPI cfg) \<and>
    (\<forall>q. sa_Proposals (cc_ChildSA cfg) = [q] \<longrightarrow> prop_Transforms p = prop_Transforms q))"
proof (cases "sa_Proposals (cc_ChildSA cfg)")
  case Nil
  then have "sa = DefaultESPProposal spi" "length spi = 4" "cc_ChildSPI cfg \<noteq> [] \<longrightarrow> spi = cc_ChildSPI cfg"
    using assms(1) by (auto simp: createChildProposal_def rbind_eq_Inr_iff split: if_splits)
  with Nil show ?thesis using DefaultESPProposal_wf [of spi] by (auto simp: DefaultESPProposal_def)
next
  case (Cons q rest)
  then show ?thesis
    using assms by (auto simp: createChildProposal_def Let_def proposal_wf_def split: if_splits)
qed

text \<open>The request as a list of payloads.\<close>

lemma BuildCreateChildSAPayloads_Inr:
  assumes "BuildCreateChildSAPayloads rr cfg = Inr (ps, nonce, spi, k)"
  obtains rd sa k0 b ti tr pre where
    "createChildProposal cfg rd = Inr (sa, spi, k0)" "SecurityAssociation_MarshalBinary sa = Inr b" "nonce \<noteq> []"
    "TrafficSelectors_MarshalBinary (trafficSelectorsOrIPv4Any (cc_TSi cfg)) = Inr ti"
    "TrafficSelectors_MarshalBinary (trafficSelectorsOrIPv4Any (cc_TSr cfg)) = Inr tr"
    "ps = pre @ [mkPayload PayloadSA b, mkPayload PayloadNonce nonce, mkPayload PayloadTSi ti, mkPayload PayloadTSr tr]"
    "if cc_RekeySPI cfg = [] then pre = []
     else length (cc_RekeySPI cfg) = 4 \<and> (\<exists>nb. pre = [mkPayload PayloadNotify nb] \<and>
       Notify_MarshalBinary \<lparr>ntf_ProtocolID = ProtocolESP, ntf_NotifyType = NotifyRekeySA, ntf_SPI = cc_RekeySPI cfg,
         ntf_NotificationData = []\<rparr> = Inr nb)"
proof -
  define rd where "rd = (case cc_Random cfg of Some r \<Rightarrow> r | None \<Rightarrow> rr)"
  obtain sa k0 where p: "createChildProposal cfg rd = Inr (sa, spi, k0)"
    using assms by (auto simp: BuildCreateChildSAPayloads_def rd_def [symmetric] Let_def rbind_eq_Inr_iff split: if_splits)
  from assms p show ?thesis
    by (auto simp: BuildCreateChildSAPayloads_def rd_def [symmetric] Let_def rbind_eq_Inr_iff SecurityAssociationPayload_def
        TrafficSelectorsPayload_def trafficSelectorsOrIPv4Any_def NotifyPayload_def NoncePayload_def
        split: if_splits intro!: that)
qed

lemma request_offer:
  assumes "BuildCreateChildSAPayloads rr cfg = Inr (ps, nonce, spi, k)"
    and "list_all proposal_wf (sa_Proposals (cc_ChildSA cfg))"
  shows "\<exists>rd sa k0. createChildProposal cfg rd = Inr (sa, spi, k0) \<and> firstSecurityAssociation ps = Inr (Some sa) \<and>
    firstNonce ps = Inr nonce \<and> list_all (\<lambda>p. pl_Type p \<noteq> 0) ps"
  using assms(1)
proof (rule BuildCreateChildSAPayloads_Inr)
  fix rd sa k0 b ti tr pre
  assume p: "createChildProposal cfg rd = Inr (sa, spi, k0)" and b: "SecurityAssociation_MarshalBinary sa = Inr b"
    and "nonce \<noteq> []" and "ps = pre @ [mkPayload PayloadSA b, mkPayload PayloadNonce nonce, mkPayload PayloadTSi ti, mkPayload PayloadTSr tr]"
    and "if cc_RekeySPI cfg = [] then pre = []
     else length (cc_RekeySPI cfg) = 4 \<and> (\<exists>nb. pre = [mkPayload PayloadNotify nb] \<and>
       Notify_MarshalBinary \<lparr>ntf_ProtocolID = ProtocolESP, ntf_NotifyType = NotifyRekeySA, ntf_SPI = cc_RekeySPI cfg,
         ntf_NotificationData = []\<rparr> = Inr nb)"
  moreover have "ParseSecurityAssociation b = Inr sa"
    using parse_marshal_sa [OF _ b] createChildProposal_Inr [OF p assms(2)] by blast
  ultimately have "firstSecurityAssociation ps = Inr (Some sa)" "firstNonce ps = Inr nonce" "list_all (\<lambda>p. pl_Type p \<noteq> 0) ps"
    by (auto simp: firstSecurityAssociation_def split: if_splits)
  with p show ?thesis by blast
qed

text \<open>What a completed exchange went through.\<close>

lemma RunCREATE_CHILD_SA_Inr:
  assumes "RunCREATE_CHILD_SA c rr cfg = Inr r"
  obtains keys payloads spi k sa iv msg rmsg child where
    "keys = (if RequiredLength (ik_Profile (cc_Keys cfg)) = 0 then ir_Keys (cc_Init cfg) else cc_Keys cfg)"
    "BuildCreateChildSAPayloads rr cfg = Inr (payloads, cr_RequestNonce r, spi, k)"
    "firstSecurityAssociation payloads = Inr (Some sa)"
    "ProtectMessage c (rr (k + 1)) (createChildHeader (cc_Init cfg) (cc_MessageID cfg) True) keys True payloads iv
       = Inr (msg, cr_RequestBytes r)"
    "unprotectCreateChildResponse c (cr_ResponseBytes r) (cc_Init cfg) keys (cc_MessageID cfg) = Inr (rmsg, cr_ResponseInner r)"
    "FirstNotifyError (cr_ResponseInner r) = None" "firstNonce (cr_ResponseInner r) = Inr (cr_ResponseNonce r)"
    "parseChildSAResultWithNonces c ((cc_Init cfg)\<lparr>ir_Keys := keys\<rparr>) (cr_ResponseInner r) spi (cr_RequestNonce r)
       (cr_ResponseNonce r) (Some sa) (trafficSelectorsOrIPv4Any (cc_TSi cfg)) (trafficSelectorsOrIPv4Any (cc_TSr cfg)) = Inr child"
    "cr_ChildSA r = child\<lparr>cs_NextMessageID := cc_MessageID cfg + 1\<rparr>"
    "cr_NextMessageID r = cc_MessageID cfg + 1" "cr_Rekeyed r = (cc_RekeySPI cfg \<noteq> [])" "cc_MessageID cfg \<noteq> 0"
  using assms
  by (auto simp: RunCREATE_CHILD_SA_def Let_def rbind_eq_Inr_iff split: option.splits if_splits prod.splits intro!: that)

lemma trafficSelectorsOrIPv4Any_nonempty [simp]: "tss_Selectors (trafficSelectorsOrIPv4Any ts) \<noteq> []"
  by (simp add: trafficSelectorsOrIPv4Any_def IPv4AnyTrafficSelectors_def)

text \<open>The request as the other end reads it, and the checks the resulting child SA has passed.\<close>

lemma create_child_run:
  assumes "crypto_ok c" and run: "RunCREATE_CHILD_SA c rr cfg = Inr r"
    and wf: "list_all proposal_wf (sa_Proposals (cc_ChildSA cfg))"
    and keys: "keys = (if RequiredLength (ik_Profile (cc_Keys cfg)) = 0 then ir_Keys (cc_Init cfg) else cc_Keys cfg)"
  obtains msg payloads spi k rd sa k0 where
    "UnprotectMessage c (cr_RequestBytes r) keys True = Inr (complete_message msg, link_payloads payloads)"
    "msg_Header msg = createChildHeader (cc_Init cfg) (cc_MessageID cfg) True"
    "BuildCreateChildSAPayloads rr cfg = Inr (payloads, cr_RequestNonce r, spi, k)"
    "createChildProposal cfg rd = Inr (sa, spi, k0)" "firstSecurityAssociation payloads = Inr (Some sa)"
    "firstNonce payloads = Inr (cr_RequestNonce r)" "firstNonce (cr_ResponseInner r) = Inr (cr_ResponseNonce r)"
    "cs_LocalSPI (cr_ChildSA r) = spi" "ValidateSelectedSA sa (cs_SelectedSA (cr_ChildSA r)) = Inr ()"
    "ValidateTrafficSelectorNarrowing (trafficSelectorsOrIPv4Any (cc_TSi cfg)) (cs_TSi (cr_ChildSA r)) = Inr ()"
    "ValidateTrafficSelectorNarrowing (trafficSelectorsOrIPv4Any (cc_TSr cfg)) (cs_TSr (cr_ChildSA r)) = Inr ()"
    "DeriveChildSAKeysWithNonces c (kmp_PRF (ik_Profile keys)) (ik_SKD keys) (cr_RequestNonce r) (cr_ResponseNonce r)
      (cs_SelectedSA (cr_ChildSA r)) = Inr (cs_Keys (cr_ChildSA r))"
    "cr_Rekeyed r = (cc_RekeySPI cfg \<noteq> [])"
  using run
proof (rule RunCREATE_CHILD_SA_Inr)
  fix keys' payloads spi k sa iv msg rmsg child
  assume k: "keys' = (if RequiredLength (ik_Profile (cc_Keys cfg)) = 0 then ir_Keys (cc_Init cfg) else cc_Keys cfg)"
    and b: "BuildCreateChildSAPayloads rr cfg = Inr (payloads, cr_RequestNonce r, spi, k)"
    and f: "firstSecurityAssociation payloads = Inr (Some sa)"
    and pm: "ProtectMessage c (rr (k + 1)) (createChildHeader (cc_Init cfg) (cc_MessageID cfg) True) keys' True payloads iv
       = Inr (msg, cr_RequestBytes r)"
    and n: "firstNonce (cr_ResponseInner r) = Inr (cr_ResponseNonce r)"
    and ch: "parseChildSAResultWithNonces c ((cc_Init cfg)\<lparr>ir_Keys := keys'\<rparr>) (cr_ResponseInner r) spi (cr_RequestNonce r)
       (cr_ResponseNonce r) (Some sa) (trafficSelectorsOrIPv4Any (cc_TSi cfg)) (trafficSelectorsOrIPv4Any (cc_TSr cfg)) = Inr child"
    and r: "cr_ChildSA r = child\<lparr>cs_NextMessageID := cc_MessageID cfg + 1\<rparr>" "cr_Rekeyed r = (cc_RekeySPI cfg \<noteq> [])"
  have [simp]: "keys' = keys" using k keys by simp
  obtain rd k0 where o: "createChildProposal cfg rd = Inr (sa, spi, k0)" "firstNonce payloads = Inr (cr_RequestNonce r)"
    "list_all (\<lambda>p. pl_Type p \<noteq> 0) payloads"
    using request_offer [OF b wf] f by auto
  note P = parseChildSAResult_Inr [OF ch]
  show thesis
    by (rule that [OF _ ProtectMessage_header [OF pm] b o(1) f o(2) n])
      (use unprotect_protect [OF assms(1) o(3) pm] P(1) [OF refl] P(2,3,4,5) r in simp_all)
qed

section \<open>A concrete exchange\<close>

text \<open>Keys of an IKE SA with AES-GCM, and a responder that answers any request with given payloads.\<close>

definition demo_ike_keys :: IKEKeys where
  "demo_ike_keys = demo_keys\<lparr>ik_SKD := [3], ik_SKPi := [4], ik_SKPr := [5]\<rparr>"

lemma demo_protects:
  assumes "payloads_wf inner" "inner \<noteq> []" "length (payloads_enc inner) \<le> 1000" "length iv = 8"
  shows "\<exists>msg raw. ProtectMessage demo_crypto rnd header demo_ike_keys d inner iv = Inr (msg, raw)"
  using assms
  by (cases d) (auto simp: ProtectMessage_def MarshalPayloads_wf demo_ike_keys_def demo_keys_def demo_simps)

definition demo_reply :: "Header \<Rightarrow> Payload list \<Rightarrow> bytes" where
  "demo_reply header inner =
     (case ProtectMessage demo_crypto (\<lambda>_. Inl Panic) header demo_ike_keys False inner (replicate 8 1) of
        Inl _ \<Rightarrow> [] | Inr (_, raw) \<Rightarrow> raw)"

lemma demo_reply_opens:
  assumes "payloads_wf inner" "inner \<noteq> []" "length (payloads_enc inner) \<le> 1000"
  shows "\<exists>msg. UnprotectMessage demo_crypto (demo_reply header inner) demo_ike_keys False
    = Inr (complete_message msg, link_payloads inner) \<and> msg_Header msg = header"
proof -
  obtain msg raw where p: "ProtectMessage demo_crypto (\<lambda>_. Inl Panic) header demo_ike_keys False inner (replicate 8 1) = Inr (msg, raw)"
    using demo_protects [OF assms] by fastforce
  have "list_all (\<lambda>p. pl_Type p \<noteq> 0) inner" using assms(1) by (induction inner) auto
  from unprotect_protect [OF demo_crypto_ok this p] p ProtectMessage_header [OF p] show ?thesis
    by (auto simp: demo_reply_def)
qed

lemma childPayloads_link [simp]: "childPayloads_loop (link_payloads ps) out = childPayloads_loop ps out"
  by (induction ps arbitrary: out) (auto cong: rbind_cong)

lemma childPayloads_snoc_nonce [simp]:
  "childPayloads_loop (ps @ [mkPayload PayloadNonce n]) out = childPayloads_loop ps out"
  by (induction ps arbitrary: out) (auto cong: rbind_cong)

lemma FirstNotifyError_link [simp]: "FirstNotifyError (link_payloads ps) = FirstNotifyError ps"
  by (induction ps) (auto split: sum.splits option.splits)

definition demo_answer :: "Payload list" where
  "demo_answer = demo_inner INTEG_HMAC_SHA2_256_128 @ [mkPayload PayloadNonce [9]]"

definition demo_create_cfg :: CreateChildSAConfig where
  "demo_create_cfg =
     \<lparr>cc_Transport = Some (\<lambda>_ _. Inr (demo_reply (createChildHeader demo_init 2 False) demo_answer)),
      cc_Init = demo_init, cc_Keys = demo_ike_keys, cc_MessageID = 2,
      cc_ChildSA = demo_esp_sa INTEG_HMAC_SHA2_256_128, cc_ChildSPI = [], cc_TSi = \<lparr>tss_Selectors = []\<rparr>,
      cc_TSr = \<lparr>tss_Selectors = []\<rparr>, cc_Nonce = [7], cc_RekeySPI = [], cc_Random = None, cc_IV = replicate 8 2\<rparr>"

lemma demo_inner_shape:
  "\<exists>b t. demo_inner integ = [mkPayload PayloadSA b, mkPayload PayloadTSi t, mkPayload PayloadTSr t] \<and>
     length b \<le> 100 \<and> length t \<le> 100"
proof -
  obtain b where "SecurityAssociation_MarshalBinary (demo_esp_sa integ) = Inr b" "length b \<le> 100"
    by (simp add: demo_esp_sa_def SecurityAssociation_MarshalBinary_def marshalProposal1_def
        Proposal_marshalBody_def Transform_marshal_def marshalTransformAttributes_def
        marshalTransformAttribute1_def KeyLengthAttribute_def)
  moreover obtain t where "TrafficSelectors_MarshalBinary IPv4AnyTrafficSelectors = Inr t" "length t \<le> 100"
    by (simp add: TrafficSelectors_MarshalBinary_def IPv4AnyTrafficSelectors_def
        TrafficSelector_MarshalBinary_def normalizeSelectorAddresses_def To4_def v4InV6Prefix_def)
  ultimately show ?thesis by (simp add: demo_inner_def)
qed

lemma demo_answer_facts:
  "payloads_wf demo_answer \<and> demo_answer \<noteq> [] \<and> length (payloads_enc demo_answer) \<le> 1000 \<and>
   FirstNotifyError demo_answer = None \<and> firstNonce demo_answer = Inr [9]"
  using demo_inner_shape [of INTEG_HMAC_SHA2_256_128] by (auto simp: demo_answer_def isEncryptedPayload_def)

text \<open>The local SPI is only recorded, and of the IKE SA only the PRF and SK_d are used.\<close>

lemma parseChildSAResult_local:
  assumes "kmp_PRF (ik_Profile (ir_Keys init')) = kmp_PRF (ik_Profile (ir_Keys init))" "ik_SKD (ir_Keys init') = ik_SKD (ir_Keys init)"
    and "childPayloads_loop inner' NoChildSAResult = childPayloads_loop inner NoChildSAResult"
  shows "parseChildSAResultWithNonces c init' inner' l' ni nr offered oi or' =
    rbind (parseChildSAResultWithNonces c init inner l ni nr offered oi or') (\<lambda>r. Inr (r\<lparr>cs_LocalSPI := l'\<rparr>))"
  unfolding parseChildSAResultWithNonces_def assms
  by (simp add: rbind_assoc if_distrib [of "\<lambda>m. rbind m k" for k] cong: rbind_cong if_cong)
    (auto intro!: rbind_cong)

lemma demo_child_sa:
  "\<exists>r. parseChildSAResultWithNonces demo_crypto demo_init (demo_inner INTEG_HMAC_SHA2_256_128) [0, 0, 0, 6] [7] [9]
      (Some (demo_esp_sa INTEG_HMAC_SHA2_256_128)) IPv4AnyTrafficSelectors IPv4AnyTrafficSelectors = Inr r"
proof -
  have "ESPKeyProfileFromSA (demo_esp_sa INTEG_HMAC_SHA2_256_128) = Inr \<lparr>ekp_EncryptionID = ENCR_AES_CBC,
      ekp_EncryptionKeyLength = 16, ekp_IntegrityID = INTEG_HMAC_SHA2_256_128, ekp_IntegrityKeyLength = 32, ekp_ESN = False\<rparr>"
    "ValidateSelectedSA (demo_esp_sa INTEG_HMAC_SHA2_256_128) (demo_esp_sa INTEG_HMAC_SHA2_256_128) = Inr ()"
    by code_simp+
  from demo_child [OF this(1) _ this(2)] show ?thesis by (auto simp: DirectionKeyLength_def)
qed

lemma demo_ike_keys_simps [simp]:
  "RequiredLength (ik_Profile demo_ike_keys) \<noteq> 0" "validateKeySet demo_ike_keys = Inr ()"
  "kmp_EncryptionBlockSize (ik_Profile demo_ike_keys) = 8" "kmp_PRF (ik_Profile demo_ike_keys) = SHA256"
  "ik_SKD demo_ike_keys = [3]"
  by (simp_all add: demo_ike_keys_def demo_keys_def RequiredLength_def demo_simps)

lemma demo_init_simps [simp]:
  "ir_InitiatorSPI demo_init = 1" "ir_ResponderSPI demo_init = 2" "kmp_PRF (ik_Profile (ir_Keys demo_init)) = SHA256"
  "ik_SKD (ir_Keys demo_init) = [3]" "ir_NonceI demo_init = [7]" "ir_NonceR demo_init = [9]"
  by (simp_all add: demo_init_def demo_profile_def)

text \<open>The exchange that offers the demonstration proposal, with or without a child SA to rekey.\<close>

lemma demo_run:
  assumes cfg: "cc_Transport cfg = Some (\<lambda>_ _. Inr (demo_reply (createChildHeader demo_init 2 False) demo_answer))"
    "cc_Init cfg = demo_init" "cc_Keys cfg = demo_ike_keys" "cc_MessageID cfg = 2" "cc_IV cfg = replicate 8 2"
    "trafficSelectorsOrIPv4Any (cc_TSi cfg) = IPv4AnyTrafficSelectors" "trafficSelectorsOrIPv4Any (cc_TSr cfg) = IPv4AnyTrafficSelectors"
    and build: "BuildCreateChildSAPayloads rr cfg = Inr (ps, [7], [0, 0, 0, 5], k)"
    and first: "firstSecurityAssociation ps = Inr (Some (demo_esp_sa INTEG_HMAC_SHA2_256_128))"
    and ps: "payloads_wf ps" "ps \<noteq> []" "length (payloads_enc ps) \<le> 1000"
  shows "\<exists>r. RunCREATE_CHILD_SA demo_crypto rr cfg = Inr r"
proof -
  let ?sa = "demo_esp_sa INTEG_HMAC_SHA2_256_128"
  obtain msg raw where req: "ProtectMessage demo_crypto (rr (k + 1)) (createChildHeader demo_init 2 True) demo_ike_keys True ps
      (replicate 8 2) = Inr (msg, raw)"
    using demo_protects [OF ps, of "replicate 8 2"] by fastforce
  obtain rmsg where "UnprotectMessage demo_crypto (demo_reply (createChildHeader demo_init 2 False) demo_answer) demo_ike_keys False
      = Inr (complete_message rmsg, link_payloads demo_answer)" "msg_Header rmsg = createChildHeader demo_init 2 False"
    using demo_reply_opens [of demo_answer] demo_answer_facts by blast
  then have opened: "unprotectCreateChildResponse demo_crypto (demo_reply (createChildHeader demo_init 2 False) demo_answer)
      demo_init demo_ike_keys 2 = Inr (complete_message rmsg, link_payloads demo_answer)"
    by (simp add: unprotectCreateChildResponse_def complete_message_def createChildHeader_def Let_def)
  obtain r where child: "parseChildSAResultWithNonces demo_crypto (demo_init\<lparr>ir_Keys := demo_ike_keys\<rparr>) (link_payloads demo_answer)
      [0, 0, 0, 5] [7] [9] (Some ?sa) IPv4AnyTrafficSelectors IPv4AnyTrafficSelectors = Inr r"
    using demo_child_sa
      parseChildSAResult_local [of "demo_init\<lparr>ir_Keys := demo_ike_keys\<rparr>" demo_init "link_payloads demo_answer"
        "demo_inner INTEG_HMAC_SHA2_256_128" demo_crypto "[0, 0, 0, 5]" "[7]" "[9]" "Some ?sa"
        IPv4AnyTrafficSelectors IPv4AnyTrafficSelectors "[0, 0, 0, 6]"]
    by (auto simp: demo_answer_def)
  have iv: "createChildIV (rd k) (ik_Profile demo_ike_keys) (replicate 8 2) = Inr (replicate 8 2)" for rd
    by (simp add: createChildIV_def)
  show ?thesis
    using build first opened child req demo_answer_facts
    by (simp add: RunCREATE_CHILD_SA_def Let_def cfg iv)
qed

lemma demo_request:
  "\<exists>b t. SecurityAssociation_MarshalBinary (demo_esp_sa INTEG_HMAC_SHA2_256_128) = Inr b \<and> length b \<le> 100 \<and>
     ParseSecurityAssociation b = Inr (demo_esp_sa INTEG_HMAC_SHA2_256_128) \<and>
     TrafficSelectors_MarshalBinary IPv4AnyTrafficSelectors = Inr t \<and> length t \<le> 100"
proof -
  have wf: "list_all proposal_wf (sa_Proposals (demo_esp_sa INTEG_HMAC_SHA2_256_128))"
    by (simp add: demo_esp_sa_def proposal_wf_def transform_wf_def KeyLengthAttribute_def)
  show ?thesis
    using demo_inner_shape [of INTEG_HMAC_SHA2_256_128] parse_marshal_sa [OF wf]
    by (auto simp: demo_inner_def split: sum.splits)
qed

lemma demo_create_run: "\<exists>r. RunCREATE_CHILD_SA demo_crypto rr demo_create_cfg = Inr r"
proof -
  obtain b t where bt: "SecurityAssociation_MarshalBinary (demo_esp_sa INTEG_HMAC_SHA2_256_128) = Inr b" "length b \<le> 100"
    "ParseSecurityAssociation b = Inr (demo_esp_sa INTEG_HMAC_SHA2_256_128)"
    "TrafficSelectors_MarshalBinary IPv4AnyTrafficSelectors = Inr t" "length t \<le> 100"
    using demo_request by blast
  let ?ps = "[mkPayload PayloadSA b, mkPayload PayloadNonce [7], mkPayload PayloadTSi t, mkPayload PayloadTSr t]"
  have "BuildCreateChildSAPayloads rr demo_create_cfg = Inr (?ps, [7], [0, 0, 0, 5], 0)"
    using bt(1,4) by (simp add: BuildCreateChildSAPayloads_def createChildProposal_def demo_create_cfg_def demo_esp_sa_def
        SecurityAssociationPayload_def TrafficSelectorsPayload_def NoncePayload_def Let_def)
  then show ?thesis
    by (intro demo_run [where ps = ?ps and k = 0])
      (use bt in \<open>simp_all add: demo_create_cfg_def firstSecurityAssociation_def trafficSelectorsOrIPv4Any_def isEncryptedPayload_def\<close>)
qed

section \<open>Properties\<close>

text \<open>C7: Both ends of a CREATE_CHILD_SA exchange agree.  The holder of the keys of the IKE SA reads in the
  request, under the message number the client chose, one ESP proposal with the client's four-octet SPI and the
  client's nonce; the child SA that results has that SPI, was selected from that proposal, and its keys are the
  ones the two nonces, as the other end sees them, derive from SK_d.\<close>

theorem create_child_agreement:
  assumes "crypto_ok c" and "RunCREATE_CHILD_SA c rr cfg = Inr r"
    and wf: "list_all proposal_wf (sa_Proposals (cc_ChildSA cfg))"
    and "keys = (if RequiredLength (ik_Profile (cc_Keys cfg)) = 0 then ir_Keys (cc_Init cfg) else cc_Keys cfg)"
  shows "\<exists>msg inner sa p. UnprotectMessage c (cr_RequestBytes r) keys True = Inr (msg, inner) \<and>
    hdr_ExchangeType (msg_Header msg) = ExchangeCREATE_CHILD_SA \<and> hdr_MessageID (msg_Header msg) = cc_MessageID cfg \<and>
    firstSecurityAssociation inner = Inr (Some sa) \<and> sa_Proposals sa = [p] \<and>
    prop_SPI p = cs_LocalSPI (cr_ChildSA r) \<and> length (prop_SPI p) = 4 \<and>
    ValidateSelectedSA sa (cs_SelectedSA (cr_ChildSA r)) = Inr () \<and>
    firstNonce inner = Inr (cr_RequestNonce r) \<and> firstNonce (cr_ResponseInner r) = Inr (cr_ResponseNonce r) \<and>
    DeriveChildSAKeysWithNonces c (kmp_PRF (ik_Profile keys)) (ik_SKD keys) (cr_RequestNonce r) (cr_ResponseNonce r)
      (cs_SelectedSA (cr_ChildSA r)) = Inr (cs_Keys (cr_ChildSA r))"
  using assms
proof (rule create_child_run)
  fix msg payloads spi k rd sa k0
  assume p: "createChildProposal cfg rd = Inr (sa, spi, k0)" "cs_LocalSPI (cr_ChildSA r) = spi"
    and h: "msg_Header msg = createChildHeader (cc_Init cfg) (cc_MessageID cfg) True"
    and rest: "UnprotectMessage c (cr_RequestBytes r) keys True = Inr (complete_message msg, link_payloads payloads)"
      "firstSecurityAssociation payloads = Inr (Some sa)" "firstNonce payloads = Inr (cr_RequestNonce r)"
      "firstNonce (cr_ResponseInner r) = Inr (cr_ResponseNonce r)" "ValidateSelectedSA sa (cs_SelectedSA (cr_ChildSA r)) = Inr ()"
      "DeriveChildSAKeysWithNonces c (kmp_PRF (ik_Profile keys)) (ik_SKD keys) (cr_RequestNonce r) (cr_ResponseNonce r)
        (cs_SelectedSA (cr_ChildSA r)) = Inr (cs_Keys (cr_ChildSA r))"
  obtain q where "sa_Proposals sa = [q]" "prop_SPI q = cs_LocalSPI (cr_ChildSA r)" "length (prop_SPI q) = 4"
    using createChildProposal_Inr [OF p(1) wf] p(2) by auto
  with h rest show ?thesis by (auto simp: complete_message_def createChildHeader_def)
qed

theorem create_child_agreement_witness:
  "\<exists>r msg inner sa p. RunCREATE_CHILD_SA demo_crypto (\<lambda>_ _. Inl Panic) demo_create_cfg = Inr r \<and>
    UnprotectMessage demo_crypto (cr_RequestBytes r) demo_ike_keys True = Inr (msg, inner) \<and>
    hdr_MessageID (msg_Header msg) = 2 \<and> firstSecurityAssociation inner = Inr (Some sa) \<and> sa_Proposals sa = [p] \<and>
    prop_SPI p = cs_LocalSPI (cr_ChildSA r)"
proof -
  obtain r where r: "RunCREATE_CHILD_SA demo_crypto (\<lambda>_ _. Inl Panic) demo_create_cfg = Inr r" using demo_create_run by blast
  have "list_all proposal_wf (sa_Proposals (cc_ChildSA demo_create_cfg))"
    by (simp add: demo_create_cfg_def demo_esp_sa_def proposal_wf_def transform_wf_def KeyLengthAttribute_def)
  from create_child_agreement [OF demo_crypto_ok r this refl] r show ?thesis
    by (fastforce simp: demo_create_cfg_def)
qed

text \<open>The configuration of a rekeying when only the old child SA is given.\<close>

lemma rekey_plan:
  assumes "NewChildSARekeyPlan rr cfg = Inr (plan, k)"
    and none: "rk_RekeySPI cfg = []" "tss_Selectors (rk_TSi cfg) = []" "tss_Selectors (rk_TSr cfg) = []" "sa_Proposals (rk_ChildSA cfg) = []"
    and old: "tss_Selectors (cs_TSi (rk_OldChildSA cfg)) \<noteq> []" "tss_Selectors (cs_TSr (rk_OldChildSA cfg)) \<noteq> []"
      "sa_Proposals (cs_SelectedSA (rk_OldChildSA cfg)) = [old_p]"
  shows "cc_RekeySPI (rp_Config plan) = cs_LocalSPI (rk_OldChildSA cfg)" "length (cs_LocalSPI (rk_OldChildSA cfg)) = 4"
    "trafficSelectorsOrIPv4Any (cc_TSi (rp_Config plan)) = cs_TSi (rk_OldChildSA cfg)"
    "trafficSelectorsOrIPv4Any (cc_TSr (rp_Config plan)) = cs_TSr (rk_OldChildSA cfg)"
    "cc_Keys (rp_Config plan) = rk_Keys cfg" "cc_Init (rp_Config plan) = rk_Init cfg"
    "\<exists>spi. sa_Proposals (cc_ChildSA (rp_Config plan)) = [old_p\<lparr>prop_SPI := spi\<rparr>]"
  using assms
  by (auto simp: NewChildSARekeyPlan_def childSAForRekey_def Let_def rbind_eq_Inr_iff trafficSelectorsOrIPv4Any_def
      split: if_splits)

lemma rekey_notify:
  assumes "BuildCreateChildSAPayloads rr cfg = Inr (payloads, nonce, spi, k)" and "length (cc_RekeySPI cfg) = 4"
  shows "\<exists>p ps. link_payloads payloads = p # ps \<and> pl_Type p = PayloadNotify \<and>
    ParseNotify (pl_Body p) = Inr \<lparr>ntf_ProtocolID = ProtocolESP, ntf_NotifyType = NotifyRekeySA,
      ntf_SPI = cc_RekeySPI cfg, ntf_NotificationData = []\<rparr>"
  using assms(1)
  by (rule BuildCreateChildSAPayloads_Inr)
    (use assms(2) in \<open>auto simp: notify_wf_def split: if_splits intro!: notify.dec_enc\<close>)

text \<open>C8: Rekeying keeps to the old child SA.  With nothing else configured, the request names the SPI of the old
  child SA as the one to rekey, every packet the new child SA lets through on either side was let through by the old
  one, and every transform of the new one is one of the old one.\<close>

theorem rekey_within_old_child:
  assumes run: "RunCREATE_CHILD_SARekey c rr cfg = Inr r" and "crypto_ok c"
    and keys: "keys = (if RequiredLength (ik_Profile (rk_Keys cfg)) = 0 then ir_Keys (rk_Init cfg) else rk_Keys cfg)"
    and none: "rk_RekeySPI cfg = []" "tss_Selectors (rk_TSi cfg) = []" "tss_Selectors (rk_TSr cfg) = []" "sa_Proposals (rk_ChildSA cfg) = []"
    and old: "tss_Selectors (cs_TSi (rk_OldChildSA cfg)) \<noteq> []" "tss_Selectors (cs_TSr (rk_OldChildSA cfg)) \<noteq> []"
      "sa_Proposals (cs_SelectedSA (rk_OldChildSA cfg)) = [old_p]" "proposal_wf old_p"
  shows "cr_Rekeyed r \<and>
    (\<exists>msg p ps. UnprotectMessage c (cr_RequestBytes r) keys True = Inr (msg, p # ps) \<and> pl_Type p = PayloadNotify \<and>
      ParseNotify (pl_Body p) = Inr \<lparr>ntf_ProtocolID = ProtocolESP, ntf_NotifyType = NotifyRekeySA,
        ntf_SPI = cs_LocalSPI (rk_OldChildSA cfg), ntf_NotificationData = []\<rparr>) \<and>
    (\<forall>s f. s \<in> set (tss_Selectors (cs_TSi (cr_ChildSA r))) \<longrightarrow> lets_through (canonical_selector s) f \<longrightarrow>
      (\<exists>q \<in> set (tss_Selectors (cs_TSi (rk_OldChildSA cfg))). lets_through (canonical_selector q) f)) \<and>
    (\<forall>s f. s \<in> set (tss_Selectors (cs_TSr (cr_ChildSA r))) \<longrightarrow> lets_through (canonical_selector s) f \<longrightarrow>
      (\<exists>q \<in> set (tss_Selectors (cs_TSr (rk_OldChildSA cfg))). lets_through (canonical_selector q) f)) \<and>
    (\<exists>p. sa_Proposals (cs_SelectedSA (cr_ChildSA r)) = [p] \<and>
      (\<forall>t \<in> set (prop_Transforms p). \<exists>t' \<in> set (prop_Transforms old_p). same_transform t' t))"
proof -
  obtain plan k0 rr' where plan: "NewChildSARekeyPlan rr cfg = Inr (plan, k0)"
    and run': "RunCREATE_CHILD_SA c rr' (rp_Config plan) = Inr r"
    using run by (auto simp: RunCREATE_CHILD_SARekey_def rbind_eq_Inr_iff)
  let ?cfg = "rp_Config plan" and ?old = "rk_OldChildSA cfg"
  note cfg = rekey_plan [OF plan none old(1-3)]
  have wf: "list_all proposal_wf (sa_Proposals (cc_ChildSA ?cfg))" using cfg(7) old(4) by (auto simp: proposal_wf_def)
  have "keys = (if RequiredLength (ik_Profile (cc_Keys ?cfg)) = 0 then ir_Keys (cc_Init ?cfg) else cc_Keys ?cfg)"
    using keys cfg(5,6) by simp
  with assms(2) run' wf show ?thesis
  proof (rule create_child_run)
    fix msg payloads spi k rd sa k1
    assume u: "UnprotectMessage c (cr_RequestBytes r) keys True = Inr (complete_message msg, link_payloads payloads)"
      and b: "BuildCreateChildSAPayloads rr' ?cfg = Inr (payloads, cr_RequestNonce r, spi, k)"
      and o: "createChildProposal ?cfg rd = Inr (sa, spi, k1)" "ValidateSelectedSA sa (cs_SelectedSA (cr_ChildSA r)) = Inr ()"
      and t: "ValidateTrafficSelectorNarrowing (trafficSelectorsOrIPv4Any (cc_TSi ?cfg)) (cs_TSi (cr_ChildSA r)) = Inr ()"
        "ValidateTrafficSelectorNarrowing (trafficSelectorsOrIPv4Any (cc_TSr ?cfg)) (cs_TSr (cr_ChildSA r)) = Inr ()"
      and "cr_Rekeyed r = (cc_RekeySPI ?cfg \<noteq> [])"
    moreover obtain p where "sa_Proposals sa = [p]" "prop_Transforms p = prop_Transforms old_p"
      using createChildProposal_Inr [OF o(1) wf] cfg(7) by auto
    then have "\<exists>p. sa_Proposals (cs_SelectedSA (cr_ChildSA r)) = [p] \<and>
        (\<forall>t \<in> set (prop_Transforms p). \<exists>t' \<in> set (prop_Transforms old_p). same_transform t' t)"
      using selection_offered [OF o(2)] by auto
    moreover note rekey_notify [OF b] narrowing_sound [OF t(1)] narrowing_sound [OF t(2)]
    ultimately show ?thesis using cfg(1-4) by fastforce
  qed
qed

text \<open>The same exchange as the rekeying of a child SA.\<close>

definition demo_rekey_cfg :: ChildSARekeyConfig where
  "demo_rekey_cfg =
     \<lparr>rk_Transport = Some (\<lambda>_ _. Inr (demo_reply (createChildHeader demo_init 2 False) demo_answer)),
      rk_Init = demo_init, rk_Keys = demo_ike_keys, rk_MessageID = 2,
      rk_OldChildSA = NoChildSAResult\<lparr>cs_LocalSPI := [0, 0, 0, 8], cs_SelectedSA := demo_esp_sa INTEG_HMAC_SHA2_256_128,
        cs_TSi := IPv4AnyTrafficSelectors, cs_TSr := IPv4AnyTrafficSelectors\<rparr>,
      rk_ChildSA = \<lparr>sa_Proposals = []\<rparr>, rk_ChildSPI = [0, 0, 0, 5], rk_RekeySPI = [], rk_TSi = \<lparr>tss_Selectors = []\<rparr>,
      rk_TSr = \<lparr>tss_Selectors = []\<rparr>, rk_Nonce = [7], rk_Random = None, rk_IV = replicate 8 2\<rparr>"

lemma demo_rekey_run: "\<exists>r. RunCREATE_CHILD_SARekey demo_crypto rr demo_rekey_cfg = Inr r"
proof -
  obtain b t where bt: "SecurityAssociation_MarshalBinary (demo_esp_sa INTEG_HMAC_SHA2_256_128) = Inr b" "length b \<le> 100"
    "ParseSecurityAssociation b = Inr (demo_esp_sa INTEG_HMAC_SHA2_256_128)"
    "TrafficSelectors_MarshalBinary IPv4AnyTrafficSelectors = Inr t" "length t \<le> 100"
    using demo_request by blast
  obtain nb where nb: "Notify_MarshalBinary \<lparr>ntf_ProtocolID = ProtocolESP, ntf_NotifyType = NotifyRekeySA,
      ntf_SPI = [0, 0, 0, 8], ntf_NotificationData = []\<rparr> = Inr nb" "length nb \<le> 100"
    by (simp add: Notify_MarshalBinary_def)
  obtain plan where plan: "NewChildSARekeyPlan rr demo_rekey_cfg = Inr (plan, 0)"
    and cfg: "cc_Transport (rp_Config plan) = Some (\<lambda>_ _. Inr (demo_reply (createChildHeader demo_init 2 False) demo_answer))"
      "cc_Init (rp_Config plan) = demo_init" "cc_Keys (rp_Config plan) = demo_ike_keys" "cc_MessageID (rp_Config plan) = 2"
      "cc_IV (rp_Config plan) = replicate 8 2" "cc_TSi (rp_Config plan) = IPv4AnyTrafficSelectors"
      "cc_TSr (rp_Config plan) = IPv4AnyTrafficSelectors" "cc_ChildSA (rp_Config plan) = demo_esp_sa INTEG_HMAC_SHA2_256_128"
      "cc_ChildSPI (rp_Config plan) = [0, 0, 0, 5]" "cc_Nonce (rp_Config plan) = [7]" "cc_RekeySPI (rp_Config plan) = [0, 0, 0, 8]"
      "cc_Random (rp_Config plan) = None"
    by (simp add: NewChildSARekeyPlan_def childSAForRekey_def demo_rekey_cfg_def demo_esp_sa_def Let_def
        IPv4AnyTrafficSelectors_def)
  let ?ps = "[mkPayload PayloadNotify nb, mkPayload PayloadSA b, mkPayload PayloadNonce [7], mkPayload PayloadTSi t, mkPayload PayloadTSr t]"
  have ts: "trafficSelectorsOrIPv4Any IPv4AnyTrafficSelectors = IPv4AnyTrafficSelectors" "tss_Selectors IPv4AnyTrafficSelectors \<noteq> []"
    by (simp_all add: trafficSelectorsOrIPv4Any_def IPv4AnyTrafficSelectors_def)
  have "BuildCreateChildSAPayloads rr' (rp_Config plan) = Inr (?ps, [7], [0, 0, 0, 5], 0)" for rr'
    using bt(1,4) nb(1) ts(2)
    by (simp add: BuildCreateChildSAPayloads_def createChildProposal_def cfg demo_esp_sa_def NotifyPayload_def
        SecurityAssociationPayload_def TrafficSelectorsPayload_def NoncePayload_def Let_def)
  then have "\<exists>r. RunCREATE_CHILD_SA demo_crypto rr' (rp_Config plan) = Inr r" for rr'
    by (intro demo_run [where ps = ?ps and k = 0])
      (use bt nb in \<open>simp_all add: cfg ts firstSecurityAssociation_def isEncryptedPayload_def\<close>)
  with plan show ?thesis by (simp add: RunCREATE_CHILD_SARekey_def)
qed

theorem rekey_within_old_child_witness:
  "\<exists>r msg p ps. RunCREATE_CHILD_SARekey demo_crypto (\<lambda>_ _. Inl Panic) demo_rekey_cfg = Inr r \<and> cr_Rekeyed r \<and>
    UnprotectMessage demo_crypto (cr_RequestBytes r) demo_ike_keys True = Inr (msg, p # ps) \<and>
    ParseNotify (pl_Body p) = Inr \<lparr>ntf_ProtocolID = ProtocolESP, ntf_NotifyType = NotifyRekeySA,
      ntf_SPI = [0, 0, 0, 8], ntf_NotificationData = []\<rparr>"
proof -
  obtain r where r: "RunCREATE_CHILD_SARekey demo_crypto (\<lambda>_ _. Inl Panic) demo_rekey_cfg = Inr r"
    using demo_rekey_run by blast
  have "demo_ike_keys = (if RequiredLength (ik_Profile (rk_Keys demo_rekey_cfg)) = 0 then ir_Keys (rk_Init demo_rekey_cfg)
      else rk_Keys demo_rekey_cfg)"
    by (simp add: demo_rekey_cfg_def)
  note rekeyed = rekey_within_old_child [OF r demo_crypto_ok this]
  show ?thesis
    using r rekeyed [of "hd (sa_Proposals (demo_esp_sa INTEG_HMAC_SHA2_256_128))"]
    by (auto simp: demo_rekey_cfg_def IPv4AnyTrafficSelectors_def demo_esp_sa_def proposal_wf_def transform_wf_def
        KeyLengthAttribute_def)
qed

end
