(* ===== verification/Go_Strings.thy ===== *)
theory Go_Strings
  imports Go_Base
begin

text \<open>
  Go strings are octet sequences.  \<^verbatim>\<open>strings.TrimSpace\<close> removes leading and trailing white space as
  \<^verbatim>\<open>unicode.IsSpace\<close> has it: the six ASCII space characters and the UTF-8 encodings of the other
  code points.
\<close>

definition str :: "string \<Rightarrow> bytes" where
  "str s = map of_char s"

text \<open>Text that the code only prints is kept as a \<open>string\<close>.  \<open>itoa\<close> is \<^verbatim>\<open>%d\<close> for a number
  that is not negative.\<close>

fun itoa :: "nat \<Rightarrow> string" where
  "itoa n = (if n < 10 then [char_of (48 + n)] else itoa (n div 10) @ [char_of (48 + n mod 10)])"

declare itoa.simps [simp del]

definition space_encodings :: "bytes list" where
  "space_encodings =
     [[0x09], [0x0a], [0x0b], [0x0c], [0x0d], [0x20], [0xc2, 0x85], [0xc2, 0xa0], [0xe1, 0x9a, 0x80]]
     @ map (\<lambda>k. [0xe2, 0x80, 0x80 + of_nat k]) [0..<11]
     @ [[0xe2, 0x80, 0xa8], [0xe2, 0x80, 0xa9], [0xe2, 0x80, 0xaf], [0xe2, 0x81, 0x9f], [0xe3, 0x80, 0x80]]"

definition leading_space :: "bytes list \<Rightarrow> bytes \<Rightarrow> nat" where
  "leading_space sp s = (case find (\<lambda>w. take (length w) s = w) sp of None \<Rightarrow> 0 | Some w \<Rightarrow> length w)"

lemma leading_space_le: "leading_space sp s \<le> length s"
  unfolding leading_space_def
  by (auto simp: find_Some_iff split: option.splits) (metis length_take min.cobounded1)

function trim_left :: "bytes list \<Rightarrow> bytes \<Rightarrow> bytes" where
  "trim_left sp s = (let n = leading_space sp s in if n = 0 then s else trim_left sp (drop n s))"
  by pat_completeness auto
termination
proof (relation "measure (\<lambda>(sp, s). length s)")
  fix sp :: "bytes list" and s and n
  assume "n = leading_space sp s" "n \<noteq> 0"
  then show "((sp, drop n s), sp, s) \<in> measure (\<lambda>(sp, s). length s)"
    using leading_space_le [of sp s] by simp
qed simp

declare trim_left.simps [simp del]

definition TrimSpace :: "bytes \<Rightarrow> bytes" where
  "TrimSpace s = rev (trim_left (map rev space_encodings) (rev (trim_left space_encodings s)))"

lemma trim_left_length: "length (trim_left sp s) \<le> length s"
proof (induction sp s rule: trim_left.induct)
  case (1 sp s)
  then show ?case
    by (subst trim_left.simps) (auto simp: Let_def intro: le_trans)
qed

lemma TrimSpace_length: "length (TrimSpace s) \<le> length s"
  unfolding TrimSpace_def by (metis length_rev le_trans trim_left_length)

end
