(* ===== verification/EAP_Crypto.thy ===== *)
theory EAP_Crypto
  imports EAP_AKA Go_Net Go_Strings
begin

text \<open>
  The first half of \<^verbatim>\<open>engine/swu/eapaka/crypto.go\<close>'s concerns: key derivation for EAP-AKA (the
  FIPS 186-2 generator, with its SHA-1 compression written out as in the source) and EAP-AKA'
  (\<^verbatim>\<open>prf'\<close>), the AT_MAC checksum over a packet, and encrypted attributes.  HMAC, SHA-1 and the AES
  block function are fields of the \<open>crypto\<close> record.
\<close>

abbreviation (input) KeyLengthCK :: nat where "KeyLengthCK \<equiv> 16"
abbreviation (input) KeyLengthIK :: nat where "KeyLengthIK \<equiv> 16"
abbreviation (input) KeyLengthKEncr :: nat where "KeyLengthKEncr \<equiv> 16"
abbreviation (input) KeyLengthKAut :: nat where "KeyLengthKAut \<equiv> 16"
abbreviation (input) KeyLengthAKAPrimeKAut :: nat where "KeyLengthAKAPrimeKAut \<equiv> 32"
abbreviation (input) KeyLengthKRe :: nat where "KeyLengthKRe \<equiv> 32"
abbreviation (input) KeyLengthMSK :: nat where "KeyLengthMSK \<equiv> 64"
abbreviation (input) KeyLengthEMSK :: nat where "KeyLengthEMSK \<equiv> 64"
abbreviation (input) AKAPrimeKDFDefault :: u16 where "AKAPrimeKDFDefault \<equiv> 1"
abbreviation (input) aesBlock :: nat where "aesBlock \<equiv> 16"

record Keys =
  keys_MK :: bytes
  keys_KEncr :: bytes
  keys_KAut :: bytes
  keys_KRe :: bytes
  keys_MSK :: bytes
  keys_EMSK :: bytes
  keys_CKPrime :: bytes
  keys_IKPrime :: bytes

record AKAResult =
  aka_RES :: bytes
  aka_CK :: bytes
  aka_IK :: bytes
  aka_AUTS :: bytes

section \<open>The FIPS 186-2 generator\<close>

definition bitsRotateLeft32 :: "u32 \<Rightarrow> nat \<Rightarrow> u32" where
  "bitsRotateLeft32 v n = push_bit n v OR drop_bit (32 - n) v"

text \<open>The message schedule: sixteen words of the block, then sixty-four computed ones.\<close>

definition blockWords :: "bytes \<Rightarrow> u32 list" where
  "blockWords xs =
     map (\<lambda>i. u32_of (xs ! (4 * i)) (xs ! (4 * i + 1)) (xs ! (4 * i + 2)) (xs ! (4 * i + 3))) [0..<16]"

fun extendSchedule :: "nat \<Rightarrow> u32 list \<Rightarrow> u32 list" where
  "extendSchedule 0 w = w"
| "extendSchedule (Suc n) w =
     (let i = length w in
      extendSchedule n (w @ [bitsRotateLeft32
        (w ! (i - 3) XOR w ! (i - 8) XOR w ! (i - 14) XOR w ! (i - 16)) 1]))"

type_synonym sha_state = "u32 \<times> u32 \<times> u32 \<times> u32 \<times> u32"

definition shaRound :: "nat \<Rightarrow> u32 \<Rightarrow> sha_state \<Rightarrow> sha_state" where
  "shaRound i wi s = (case s of (a, b, c, d, e) \<Rightarrow>
     let (f, k) =
       (if i < 20 then ((b AND c) OR (NOT b AND d), 0x5A827999)
        else if i < 40 then (b XOR c XOR d, 0x6ED9EBA1)
        else if i < 60 then ((b AND c) OR (b AND d) OR (c AND d), 0x8F1BBCDC)
        else (b XOR c XOR d, 0xCA62C1D6));
       temp = bitsRotateLeft32 a 5 + f + e + k + wi
     in (temp, a, bitsRotateLeft32 b 30, c, d))"

definition fips1862G :: "bytes \<Rightarrow> bytes" where
  "fips1862G xval =
     (let block = copy_at 0 (replicate 20 0) xval @ replicate 44 0;
          w = extendSchedule 64 (blockWords block);
          (a, b, c, d, e) = fold (\<lambda>(i, wi) s. shaRound i wi s) (enumerate 0 w)
            (0x67452301, 0xEFCDAB89, 0x98BADCFE, 0x10325476, 0xC3D2E1F0)
      in PutUint32 (0x67452301 + a) @ PutUint32 (0xEFCDAB89 + b) @ PutUint32 (0x98BADCFE + c)
         @ PutUint32 (0x10325476 + d) @ PutUint32 (0xC3D2E1F0 + e))"

text \<open>The loop of \<^verbatim>\<open>add160\<close> runs from the last octet to the first: on the octets in reverse order it
  is a fold that carries into the next one.  An operand shorter than twenty octets panics.\<close>

fun add160_loop :: "bytes \<Rightarrow> bytes \<Rightarrow> u16 \<Rightarrow> bytes" where
  "add160_loop (x # xs) (y # ys) carry =
     (let s = ucast x + ucast y + carry in ucast s # add160_loop xs ys (drop_bit 8 s))"
| "add160_loop _ _ carry = []"

definition add160 :: "bytes \<Rightarrow> bytes \<Rightarrow> u16 \<Rightarrow> bytes res" where
  "add160 a b carry =
     (if length a < 20 \<or> length b < 20 then Inl Panic
      else Inr (rev (add160_loop (rev (take 20 a)) (rev (take 20 b)) carry)))"

text \<open>The two nested loops of \<^verbatim>\<open>fips1862PRF\<close> have the same exit condition and one body.\<close>

function fips1862PRF_loop :: "nat \<Rightarrow> bytes \<Rightarrow> bytes \<Rightarrow> bytes res" where
  "fips1862PRF_loop len xkey out =
     (if length out < len
      then let w = fips1862G xkey in
        if w = [] then Inl Diverge
        else rbind (add160 xkey w 1) (\<lambda>xkey'. fips1862PRF_loop len xkey' (out @ w))
      else Inr (take len out))"
  by pat_completeness auto
termination
  by (relation "measure (\<lambda>(len, xkey, out). len - length out)") (auto intro!: diff_less_mono2)

declare fips1862PRF_loop.simps [simp del]

definition fips1862PRF :: "bytes \<Rightarrow> nat \<Rightarrow> bytes res" where
  "fips1862PRF seed len = fips1862PRF_loop len (copy_at 0 (replicate 20 0) seed) []"

section \<open>The pseudo-random function of EAP-AKA'\<close>

function prfPrime_loop :: "crypto \<Rightarrow> bytes \<Rightarrow> bytes \<Rightarrow> nat \<Rightarrow> bytes \<Rightarrow> bytes \<Rightarrow> u8 \<Rightarrow> bytes res" where
  "prfPrime_loop c key seed len out prev counter =
     (if length out < len
      then let block = cr_hmac c SHA256 key (prev @ seed @ [counter]) in
        if block = [] then Inl Diverge
        else prfPrime_loop c key seed len (out @ block) block (counter + 1)
      else Inr (take len out))"
  by pat_completeness auto
termination
  by (relation "measure (\<lambda>(c, key, seed, len, out, prev, counter). len - length out)")
    (auto intro!: diff_less_mono2)

declare prfPrime_loop.simps [simp del]

definition prfPrimeSHA256 :: "crypto \<Rightarrow> bytes \<Rightarrow> bytes \<Rightarrow> nat \<Rightarrow> bytes res" where
  "prfPrimeSHA256 c key seed len = prfPrime_loop c key seed len [] [] 1"

definition kdfInput :: "u8 \<Rightarrow> bytes list \<Rightarrow> bytes" where
  "kdfInput fc params = fc # concat (map (\<lambda>p. p @ PutUint16 (go_uint16 (length p))) params)"

definition deriveAKAPrimeCKIK :: "crypto \<Rightarrow> bytes \<Rightarrow> bytes \<Rightarrow> AKAResult \<Rightarrow> bytes" where
  "deriveAKAPrimeCKIK c networkName sqnXorAK aka =
     cr_hmac c SHA256 (aka_CK aka @ aka_IK aka) (kdfInput 0x20 [networkName, sqnXorAK])"

section \<open>Deriving keys\<close>

definition validateCKIK :: "AKAResult \<Rightarrow> unit res" where
  "validateCKIK aka =
     (if length (aka_CK aka) \<noteq> KeyLengthCK then Inl (Err ErrInvalidKeyMaterial)
      else if length (aka_IK aka) \<noteq> KeyLengthIK then Inl (Err ErrInvalidKeyMaterial)
      else Inr ())"

definition validateRES :: "bytes \<Rightarrow> unit res" where
  "validateRES r =
     (let bits = length r * 8 in
      if bits < 32 \<or> bits > 128 then Inl (Err ErrInvalidKeyMaterial) else Inr ())"

definition DeriveKeys :: "crypto \<Rightarrow> bytes \<Rightarrow> AKAResult \<Rightarrow> Keys res" where
  "DeriveKeys c identity aka =
     rbind (validateCKIK aka) (\<lambda>_.
     let mk = cr_sha1 c (identity @ aka_IK aka @ aka_CK aka) in
     rbind (fips1862PRF mk (KeyLengthKEncr + KeyLengthKAut + KeyLengthMSK + KeyLengthEMSK)) (\<lambda>stream.
     rbind (sub 0 16 stream) (\<lambda>ke.
     rbind (sub 16 32 stream) (\<lambda>ka.
     rbind (sub 32 96 stream) (\<lambda>msk.
     rbind (sub 96 (length stream) stream) (\<lambda>emsk.
       Inr \<lparr>keys_MK = mk, keys_KEncr = ke, keys_KAut = ka, keys_KRe = [], keys_MSK = msk,
            keys_EMSK = emsk, keys_CKPrime = [], keys_IKPrime = []\<rparr>))))))"

definition DeriveAKAPrimeKeys :: "crypto \<Rightarrow> bytes \<Rightarrow> bytes \<Rightarrow> bytes \<Rightarrow> AKAResult \<Rightarrow> Keys res" where
  "DeriveAKAPrimeKeys c identity networkName autn16 aka =
     (if identity = [] then Inl (Err ErrInvalidKeyMaterial)
      else if networkName = [] then Inl (Err ErrInvalidKeyMaterial)
      else if length autn16 \<noteq> AUTNLength then Inl (Err ErrInvalidKeyMaterial)
      else rbind (validateCKIK aka) (\<lambda>_.
        if length networkName > 0xffff then Inl (Err ErrInvalidKeyMaterial)
        else
          rbind (sub 0 6 autn16) (\<lambda>sqn.
          let ckik = deriveAKAPrimeCKIK c networkName sqn aka in
          rbind (sub 0 16 ckik) (\<lambda>ck'.
          rbind (sub 16 (length ckik) ckik) (\<lambda>ik'.
          rbind (prfPrimeSHA256 c (ik' @ ck') (str ''EAP-AKA'' @ [0x27] @ identity)
            (KeyLengthKEncr + KeyLengthAKAPrimeKAut + KeyLengthKRe + KeyLengthMSK + KeyLengthEMSK)) (\<lambda>stream.
          rbind (sub 0 16 stream) (\<lambda>ke.
          rbind (sub 16 48 stream) (\<lambda>ka.
          rbind (sub 48 80 stream) (\<lambda>kre.
          rbind (sub 80 144 stream) (\<lambda>msk.
          rbind (sub 144 208 stream) (\<lambda>emsk.
            Inr \<lparr>keys_MK = stream, keys_KEncr = ke, keys_KAut = ka, keys_KRe = kre, keys_MSK = msk,
                 keys_EMSK = emsk, keys_CKPrime = ck', keys_IKPrime = ik'\<rparr>)))))))))))"

section \<open>The message authentication code\<close>

function findMACAttribute_loop ::
  "bytes \<Rightarrow> nat \<Rightarrow> nat \<Rightarrow> (nat \<times> nat) option \<Rightarrow> (nat \<times> nat) res" where
  "findMACAttribute_loop packet packetLen off found =
     (if off < packetLen
      then (if packetLen - off < 4 then Inl (Err Eap_ErrInvalidAttribute)
            else rbind (idx (off + 1) packet) (\<lambda>b.
              let len = unat b * 4 in
              if len < 4 \<or> off + len > packetLen then Inl (Err Eap_ErrInvalidAttribute)
              else rbind (idx off packet) (\<lambda>t.
                if t = AttributeMAC
                then (if found \<noteq> None then Inl (Err ErrInvalidMAC)
                      else findMACAttribute_loop packet packetLen (off + len) (Some (off, len)))
                else findMACAttribute_loop packet packetLen (off + len) found)))
      else (case found of Some r \<Rightarrow> Inr r | None \<Rightarrow> Inl (Err ErrInvalidMAC)))"
  by pat_completeness auto
termination
  by (relation "measure (\<lambda>(packet, packetLen, off, found). packetLen - off)") auto

declare findMACAttribute_loop.simps [simp del]

definition findMACAttribute :: "bytes \<Rightarrow> (nat \<times> nat) res" where
  "findMACAttribute packet =
     (if length packet < 8 then Inl (Err Eap_ErrInvalidPacket)
      else rbind (u16_at 2 packet) (\<lambda>l.
        let packetLen = unat l in
        if packetLen < 8 \<or> packetLen > length packet then Inl (Err Eap_ErrInvalidPacket)
        else findMACAttribute_loop packet packetLen 8 None))"

definition packetMAC :: "bytes \<Rightarrow> bytes res" where
  "packetMAC packet =
     rbind (findMACAttribute packet) (\<lambda>(off, len).
       if len \<noteq> 20 then Inl (Err ErrInvalidMAC) else sub (off + 4) (off + 20) packet)"

definition packetWithZeroedMAC :: "bytes \<Rightarrow> bytes res" where
  "packetWithZeroedMAC packet =
     rbind (findMACAttribute packet) (\<lambda>(off, len).
       if len \<noteq> 20 then Inl (Err ErrInvalidMAC)
       else if off + len > length packet then Inl Panic
       else Inr (take (off + 2) packet @ replicate (len - 2) 0 @ drop (off + len) packet))"

definition calculateMAC :: "crypto \<Rightarrow> bytes \<Rightarrow> bytes \<Rightarrow> bytes \<Rightarrow> hash \<Rightarrow> bytes res" where
  "calculateMAC c kAut packet extra h =
     (if length kAut = 0 then Inl (Err ErrInvalidKeyMaterial)
      else rbind (packetWithZeroedMAC packet) (\<lambda>zeroed.
        sub 0 16 (cr_hmac c h kAut (zeroed @ extra))))"

definition CalculateMAC :: "crypto \<Rightarrow> bytes \<Rightarrow> bytes \<Rightarrow> bytes \<Rightarrow> bytes res" where
  "CalculateMAC c kAut packet extra =
     (if length kAut \<noteq> KeyLengthKAut then Inl (Err ErrInvalidKeyMaterial)
      else calculateMAC c kAut packet extra SHA1)"

definition CalculateAKAPrimeMAC :: "crypto \<Rightarrow> bytes \<Rightarrow> bytes \<Rightarrow> bytes \<Rightarrow> bytes res" where
  "CalculateAKAPrimeMAC c kAut packet extra =
     (if length kAut \<noteq> KeyLengthAKAPrimeKAut then Inl (Err ErrInvalidKeyMaterial)
      else calculateMAC c kAut packet extra SHA256)"

definition VerifyMAC :: "crypto \<Rightarrow> bytes \<Rightarrow> bytes \<Rightarrow> bytes \<Rightarrow> unit res" where
  "VerifyMAC c kAut packet extra =
     rbind (packetMAC packet) (\<lambda>actual.
     rbind (CalculateMAC c kAut packet extra) (\<lambda>expected.
       if actual \<noteq> expected then Inl (Err ErrInvalidMAC) else Inr ()))"

definition VerifyAKAPrimeMAC :: "crypto \<Rightarrow> bytes \<Rightarrow> bytes \<Rightarrow> bytes \<Rightarrow> unit res" where
  "VerifyAKAPrimeMAC c kAut packet extra =
     rbind (packetMAC packet) (\<lambda>actual.
     rbind (CalculateAKAPrimeMAC c kAut packet extra) (\<lambda>expected.
       if actual \<noteq> expected then Inl (Err ErrInvalidMAC) else Inr ()))"

definition verifyPacketMAC :: "crypto \<Rightarrow> u8 \<Rightarrow> bytes \<Rightarrow> bytes \<Rightarrow> bytes \<Rightarrow> unit res" where
  "verifyPacketMAC c eapType kAut raw extra =
     (if eapType = TypeAKAPrime then VerifyAKAPrimeMAC c kAut raw extra else VerifyMAC c kAut raw extra)"

definition calculatePacketMAC :: "crypto \<Rightarrow> u8 \<Rightarrow> bytes \<Rightarrow> bytes \<Rightarrow> bytes \<Rightarrow> bytes res" where
  "calculatePacketMAC c eapType kAut raw extra =
     (if eapType = TypeAKAPrime then CalculateAKAPrimeMAC c kAut raw extra else CalculateMAC c kAut raw extra)"

definition verifyChallengeMAC :: "crypto \<Rightarrow> u8 \<Rightarrow> bytes \<Rightarrow> bytes \<Rightarrow> unit res" where
  "verifyChallengeMAC c eapType kAut raw = verifyPacketMAC c eapType kAut raw []"

definition calculateChallengeMAC :: "crypto \<Rightarrow> u8 \<Rightarrow> bytes \<Rightarrow> bytes \<Rightarrow> bytes res" where
  "calculateChallengeMAC c eapType kAut raw = calculatePacketMAC c eapType kAut raw []"

definition MACAttribute :: "bytes \<Rightarrow> Attribute" where
  "MACAttribute mac = FixedAttribute AttributeMAC (copy_at 0 (replicate 16 0) mac)"

section \<open>Encrypted attributes\<close>

definition encryptedDataBlock :: "bytes \<Rightarrow> bytes \<Rightarrow> unit res" where
  "encryptedDataBlock kEncr iv =
     (if length kEncr \<noteq> aesBlock then Inl (Err ErrInvalidKeyMaterial)
      else if length iv \<noteq> aesBlock then Inl (Err ErrInvalidEncryptedData)
      else aes_NewCipher kEncr)"

definition encryptedPaddingAttribute :: "nat \<Rightarrow> Attribute res" where
  "encryptedPaddingAttribute totalLength =
     (if totalLength = 4 \<or> totalLength = 8 \<or> totalLength = 12
      then Inr \<lparr>attr_Type = AttributePadding, attr_Data = replicate (totalLength - 2) 0\<rparr>
      else Inl (Err ErrInvalidEncryptedData))"

text \<open>\<^verbatim>\<open>stripEncryptedPadding\<close> looks for the first AT_PADDING; the prefix before it is the result.\<close>

fun stripEncryptedPadding :: "Attribute list \<Rightarrow> Attribute list res" where
  "stripEncryptedPadding [] = Inr []"
| "stripEncryptedPadding (a # attrs) =
     (if attr_Type a \<noteq> AttributePadding
      then rbind (stripEncryptedPadding attrs) (\<lambda>r. Inr (a # r))
      else if attrs \<noteq> [] then Inl (Err ErrInvalidEncryptedData)
      else
        let totalLength = length (attr_Data a) + 2 in
        if totalLength \<noteq> 4 \<and> totalLength \<noteq> 8 \<and> totalLength \<noteq> 12 then Inl (Err ErrInvalidEncryptedData)
        else if list_ex (\<lambda>b. b \<noteq> 0) (attr_Data a) then Inl (Err ErrInvalidEncryptedData)
        else Inr [])"

definition EncryptAttributes :: "crypto \<Rightarrow> bytes \<Rightarrow> bytes \<Rightarrow> Attribute list \<Rightarrow> Attribute res" where
  "EncryptAttributes c kEncr iv attrs =
     rbind (encryptedDataBlock kEncr iv) (\<lambda>_.
     rbind (MarshalAttributes attrs) (\<lambda>plaintext.
     let rem = length plaintext mod aesBlock in
     rbind (if rem \<noteq> 0
            then rbind (encryptedPaddingAttribute (aesBlock - rem)) (\<lambda>padding.
                 rbind (Attribute_MarshalBinary padding) (\<lambda>rawPadding. Inr (plaintext @ rawPadding)))
            else Inr plaintext) (\<lambda>padded.
       Inr (EncrDataAttribute (cbc_encrypt c kEncr iv padded)))))"

definition DecryptAttributes :: "crypto \<Rightarrow> bytes \<Rightarrow> bytes \<Rightarrow> Attribute \<Rightarrow> Attribute list res" where
  "DecryptAttributes c kEncr iv encrypted =
     (if attr_Type encrypted \<noteq> AttributeEncrData then Inl (Err ErrInvalidEncryptedData)
      else
        rbind (encryptedDataBlock kEncr iv) (\<lambda>_.
        rbind (EncrDataValue encrypted) (\<lambda>ciphertext.
        if length ciphertext = 0 \<or> length ciphertext mod aesBlock \<noteq> 0 then Inl (Err ErrInvalidEncryptedData)
        else (case ParseAttributes (cbc_decrypt c kEncr iv ciphertext) of
                Inl e \<Rightarrow> Inl (Err ErrInvalidEncryptedData)
              | Inr attrs \<Rightarrow> stripEncryptedPadding attrs))))"

definition DecryptEncryptedAttributes :: "crypto \<Rightarrow> bytes \<Rightarrow> Attribute \<Rightarrow> Attribute \<Rightarrow> Attribute list res" where
  "DecryptEncryptedAttributes c kEncr ivAttr encrypted =
     rbind (IVValue ivAttr) (\<lambda>iv. DecryptAttributes c kEncr iv encrypted)"

text \<open>The result \<open>None\<close> is the pair \<^verbatim>\<open>(nil, false)\<close> for a packet without encrypted attributes.\<close>

definition DecryptPacketEncryptedAttributes :: "crypto \<Rightarrow> Packet \<Rightarrow> Keys \<Rightarrow> Attribute list option res" where
  "DecryptPacketEncryptedAttributes c request keys =
     rbind (FindSingleAttribute (pkt_Attributes request) AttributeIV) (\<lambda>ivAttr.
     rbind (FindSingleAttribute (pkt_Attributes request) AttributeEncrData) (\<lambda>encryptedAttr.
       case (ivAttr, encryptedAttr) of
         (None, None) \<Rightarrow> Inr None
       | (Some iv, Some enc) \<Rightarrow>
           rbind (DecryptEncryptedAttributes c (keys_KEncr keys) iv enc) (\<lambda>attrs. Inr (Some attrs))
       | _ \<Rightarrow> Inl (Err ErrInvalidEncryptedData)))"

section \<open>Lemmas: addition modulo two to the 160\<close>

lemma be_nat_snoc: "be_nat (xs @ [x]) = 256 * be_nat xs + unat x"
  by (simp add: be_nat_def)

lemma carry_sum:
  fixes x y :: u8 and k :: u16
  assumes "unat k \<le> 1"
  defines "s \<equiv> ucast x + ucast y + k"
  shows "unat (ucast s :: u8) = (unat x + unat y + unat k) mod 256"
    and "unat (drop_bit 8 s) = (unat x + unat y + unat k) div 256"
    and "unat (drop_bit 8 s) \<le> 1"
proof -
  have b: "unat x < 256" "unat y < 256" by (rule unat_u8_less)+
  have s: "unat s = unat x + unat y + unat k"
    unfolding s_def using assms(1) b by (simp add: unat_word_ariths unsigned_ucast_eq take_bit_eq_mod)
  show "unat (ucast s :: u8) = (unat x + unat y + unat k) mod 256"
    by (simp add: unsigned_ucast_eq take_bit_eq_mod s)
  show d: "unat (drop_bit 8 s) = (unat x + unat y + unat k) div 256"
    unfolding unat_drop_bit_eq s by (simp add: drop_bit_eq_div)
  show "unat (drop_bit 8 s) \<le> 1"
    unfolding d using assms(1) b by linarith
qed

lemma length_add160_loop: "length xs = length ys \<Longrightarrow> length (add160_loop xs ys k) = length xs"
  by (induction xs ys arbitrary: k rule: list_induct2) (auto simp: Let_def)

lemma add160_loop_sum:
  "length xs = length ys \<Longrightarrow> unat k \<le> 1 \<Longrightarrow>
   be_nat (rev (add160_loop xs ys k)) =
     (be_nat (rev xs) + be_nat (rev ys) + unat k) mod 256 ^ length xs"
proof (induction xs ys arbitrary: k rule: list_induct2)
  case Nil
  then show ?case by (simp add: be_nat_def)
next
  case (Cons x xs y ys)
  define s where "s = ucast x + ucast y + k"
  let ?t = "unat x + unat y + unat k"
  note c = carry_sum [OF Cons.prems, of x y, folded s_def]
  have "be_nat (rev (add160_loop xs ys (drop_bit 8 s))) =
      (be_nat (rev xs) + be_nat (rev ys) + ?t div 256) mod 256 ^ length xs"
    using Cons.IH [OF c(3)] by (simp add: c(2))
  moreover have "(256 * A + ?t) mod (256 * 256 ^ length xs) =
      256 * ((A + ?t div 256) mod 256 ^ length xs) + ?t mod 256" for A
    by (simp add: mod_mult2_eq)
  note this [of "be_nat (rev xs) + be_nat (rev ys)"]
  moreover have "add160_loop (x # xs) (y # ys) k = ucast s # add160_loop xs ys (drop_bit 8 s)"
    by (simp add: s_def Let_def)
  ultimately show ?case
    by (simp add: be_nat_snoc c(1) algebra_simps del: add160_loop.simps)
qed

section \<open>Lemmas: the attribute that carries the code\<close>

lemma eap_attr_enc_nth:
  "aligned a \<Longrightarrow> eap_attr_enc a @ rest = attr_Type a # go_byte (length (eap_attr_enc a) div 4) # attr_Data a @ rest"
  by (simp add: eap_attr_enc_def)

lemma aligned_length:
  assumes "aligned a"
  shows "length (eap_attr_enc a) = 2 + length (attr_Data a)" "4 \<le> length (eap_attr_enc a)"
    "length (eap_attr_enc a) div 4 * 4 = length (eap_attr_enc a)" "length (eap_attr_enc a) div 4 < 256"
proof -
  have l: "length (eap_attr_enc a) = 2 + length (attr_Data a)" by (simp add: eap_attr_enc_def)
  show "length (eap_attr_enc a) = 2 + length (attr_Data a)" by (rule l)
  show "4 \<le> length (eap_attr_enc a)"
    "length (eap_attr_enc a) div 4 * 4 = length (eap_attr_enc a)" "length (eap_attr_enc a) div 4 < 256"
    using assms unfolding l aligned_def by presburger+
qed

text \<open>One turn of the scan over an encoded attribute.\<close>

lemma findMAC_step:
  assumes "length pre = off" and "aligned a" and "packet = pre @ eap_attr_enc a @ rest"
  shows "findMACAttribute_loop packet (length packet) off found =
    (if attr_Type a = AttributeMAC
     then (if found \<noteq> None then Inl (Err ErrInvalidMAC)
           else findMACAttribute_loop packet (length packet) (off + length (eap_attr_enc a))
             (Some (off, length (eap_attr_enc a))))
     else findMACAttribute_loop packet (length packet) (off + length (eap_attr_enc a)) found)"
proof -
  note l = aligned_length [OF assms(2)]
  have p: "packet ! off = attr_Type a" "packet ! Suc off = go_byte (length (eap_attr_enc a) div 4)"
    using assms(1) by (simp_all add: assms(3) nth_append eap_attr_enc_def)
  have "unat (packet ! Suc off) * 4 = length (eap_attr_enc a)"
    using l by (simp add: p)
  moreover have "off < length packet" "Suc off < length packet" "\<not> length packet - off < 4"
      "off + length (eap_attr_enc a) \<le> length packet"
    using assms(1) l by (auto simp: assms(3))
  ultimately show ?thesis
    using l p by (subst findMACAttribute_loop.simps) (simp add: Let_def)
qed

lemma findMAC_skip:
  assumes "length pre = off" and "list_all aligned as" and "\<forall>a \<in> set as. attr_Type a \<noteq> AttributeMAC"
    and "packet = pre @ concat (map eap_attr_enc as) @ rest"
  shows "findMACAttribute_loop packet (length packet) off found =
    findMACAttribute_loop packet (length packet) (off + length (concat (map eap_attr_enc as))) found"
  using assms
proof (induction as arbitrary: pre off)
  case (Cons a as)
  have "findMACAttribute_loop packet (length packet) off found =
      findMACAttribute_loop packet (length packet) (off + length (eap_attr_enc a)) found"
    using findMAC_step [of pre off a packet "concat (map eap_attr_enc as) @ rest"] Cons.prems by simp
  also have "\<dots> = findMACAttribute_loop packet (length packet)
      (off + length (eap_attr_enc a) + length (concat (map eap_attr_enc as))) found"
    using Cons.prems by (intro Cons.IH [of "pre @ eap_attr_enc a"]) auto
  finally show ?case by (simp add: add.assoc)
qed simp

lemma verifyPacketMAC_eq:
  "verifyPacketMAC c ety kAut raw extra =
     rbind (packetMAC raw) (\<lambda>actual.
     rbind (calculatePacketMAC c ety kAut raw extra) (\<lambda>expected.
       if actual \<noteq> expected then Inl (Err ErrInvalidMAC) else Inr ()))"
  by (simp add: verifyPacketMAC_def VerifyMAC_def VerifyAKAPrimeMAC_def calculatePacketMAC_def)

text \<open>The octets of a packet whose last attribute is AT_MAC, with a given checksum.\<close>

definition mac_packet :: "u8 \<Rightarrow> u8 \<Rightarrow> u8 \<Rightarrow> u8 \<Rightarrow> Attribute list \<Rightarrow> bytes \<Rightarrow> bytes" where
  "mac_packet code ident ty st as mac =
     (let ab = concat (map eap_attr_enc as) in
      [code, ident] @ PutUint16 (go_uint16 (28 + length ab)) @ [ty, st, 0, 0] @ ab
        @ [AttributeMAC, 5, 0, 0] @ mac)"

locale mac_last =
  fixes code ident ty st :: u8 and as :: "Attribute list"
  assumes as_aligned: "list_all aligned as"
    and as_no_mac: "\<forall>a \<in> set as. attr_Type a \<noteq> AttributeMAC"
    and as_bound: "length (concat (map eap_attr_enc as)) \<le> 65507"
begin

lemma find_mac:
  assumes "length mac = 16"
  shows "findMACAttribute (mac_packet code ident ty st as mac) =
    Inr (8 + length (concat (map eap_attr_enc as)), 20)"
proof -
  let ?ab = "concat (map eap_attr_enc as)"
  let ?p = "mac_packet code ident ty st as mac"
  let ?hdr = "[code, ident] @ PutUint16 (go_uint16 (28 + length ?ab)) @ [ty, st, 0, 0]"
  let ?m = "\<lparr>attr_Type = AttributeMAC, attr_Data = [0, 0] @ mac\<rparr>"
  have m: "aligned ?m" "eap_attr_enc ?m = [AttributeMAC, 5, 0, 0] @ mac"
    using assms by (simp_all add: aligned_def eap_attr_enc_def go_byte_def)
  have p: "?p = ?hdr @ ?ab @ eap_attr_enc ?m" unfolding m(2) by (simp add: mac_packet_def Let_def)
  have len: "length ?p = 28 + length ?ab" using assms by (simp add: mac_packet_def Let_def)
  have "findMACAttribute ?p = findMACAttribute_loop ?p (length ?p) 8 None"
    using as_bound
    by (simp add: findMACAttribute_def len) (simp add: mac_packet_def Let_def PutUint16_def)
  also have "\<dots> = findMACAttribute_loop ?p (length ?p) (8 + length ?ab) None"
    using as_aligned as_no_mac p by (intro findMAC_skip [of ?hdr]) auto
  also have "\<dots> = findMACAttribute_loop ?p (length ?p) (8 + length ?ab + 20) (Some (8 + length ?ab, 20))"
    using findMAC_step [of "?hdr @ ?ab" "8 + length ?ab" ?m ?p "[]" None] m assms p by simp
  also have "\<dots> = Inr (8 + length ?ab, 20)"
    by (subst findMACAttribute_loop.simps) (simp add: len)
  finally show ?thesis .
qed

lemma packetMAC_mac_packet:
  assumes "length mac = 16"
  shows "packetMAC (mac_packet code ident ty st as mac) = Inr mac"
proof -
  let ?ab = "concat (map eap_attr_enc as)"
  let ?pre = "[code, ident] @ PutUint16 (go_uint16 (28 + length ?ab)) @ [ty, st, 0, 0] @ ?ab @ [AttributeMAC, 5, 0, 0]"
  have p: "mac_packet code ident ty st as mac = ?pre @ mac" by (simp add: mac_packet_def Let_def)
  have "drop (12 + length ?ab) (mac_packet code ident ty st as mac) = mac"
    unfolding p by (rule drop_append_length) simp
  moreover have "length (mac_packet code ident ty st as mac) = 28 + length ?ab"
    using assms by (simp add: p)
  ultimately show ?thesis
    using find_mac [OF assms] assms by (simp add: packetMAC_def)
qed

text \<open>The checksum is computed over the packet with the checksum field zeroed, so it does not
  depend on what the field holds.\<close>

lemma zeroed_mac_packet:
  assumes "length mac = 16"
  shows "packetWithZeroedMAC (mac_packet code ident ty st as mac) =
    Inr (mac_packet code ident ty st as (replicate 16 0))"
proof -
  let ?ab = "concat (map eap_attr_enc as)"
  let ?hdr = "[code, ident] @ PutUint16 (go_uint16 (28 + length ?ab)) @ [ty, st, 0, 0]"
  have p: "mac_packet code ident ty st as mac = (?hdr @ ?ab @ [AttributeMAC, 5]) @ ([0, 0] @ mac)" for mac
    by (simp add: mac_packet_def Let_def)
  have "take (10 + length ?ab) (mac_packet code ident ty st as mac) = ?hdr @ ?ab @ [AttributeMAC, 5]"
    unfolding p by (rule take_append_length) simp
  moreover have "drop (28 + length ?ab) (mac_packet code ident ty st as mac) = []"
    using assms by (simp add: p)
  moreover have "length (mac_packet code ident ty st as mac) = 28 + length ?ab"
    using assms by (simp add: p)
  ultimately have "packetWithZeroedMAC (mac_packet code ident ty st as mac) =
      Inr ((?hdr @ ?ab @ [AttributeMAC, 5]) @ replicate 18 0)"
    using find_mac [OF assms] by (simp add: packetWithZeroedMAC_def)
  moreover have "replicate 18 0 = [0, 0] @ replicate 16 (0 :: u8)"
    by (simp add: numeral_eq_Suc)
  ultimately show ?thesis
    unfolding p [of "replicate 16 0"] by metis
qed

lemma calculate_mac_packet:
  assumes "length mac = 16" "length mac' = 16"
  shows "calculatePacketMAC c ety kAut (mac_packet code ident ty st as mac) extra =
    calculatePacketMAC c ety kAut (mac_packet code ident ty st as mac') extra"
  by (simp add: calculatePacketMAC_def CalculateMAC_def CalculateAKAPrimeMAC_def calculateMAC_def
      zeroed_mac_packet assms)

lemma verify_mac_packet_iff:
  assumes "length mac = 16"
  shows "verifyPacketMAC c ety kAut (mac_packet code ident ty st as mac) extra = Inr () \<longleftrightarrow>
    calculatePacketMAC c ety kAut (mac_packet code ident ty st as (replicate 16 0)) extra = Inr mac"
proof -
  have "calculatePacketMAC c ety kAut (mac_packet code ident ty st as mac) extra =
      calculatePacketMAC c ety kAut (mac_packet code ident ty st as (replicate 16 0)) extra"
    by (rule calculate_mac_packet) (simp_all add: assms)
  then show ?thesis
    using packetMAC_mac_packet [OF assms] by (auto simp: verifyPacketMAC_eq rbind_eq_Inr_iff)
qed

end

section \<open>Lemmas: encrypted attributes\<close>

lemma concat_enc_mod4: "list_all aligned as \<Longrightarrow> length (concat (map eap_attr_enc as)) mod 4 = 0"
proof (induction as)
  case (Cons a as)
  then have "length (attr_Data a) mod 4 = 2" "length (concat (map eap_attr_enc as)) mod 4 = 0"
    by (auto simp: aligned_def)
  moreover have "length (concat (map eap_attr_enc (a # as))) =
      2 + length (attr_Data a) + length (concat (map eap_attr_enc as))"
    by (simp add: eap_attr_enc_def)
  ultimately show ?case by presburger
qed simp

lemma pad_to_16:
  fixes m :: nat
  assumes "m mod 4 = 0" "m mod 16 \<noteq> 0"
  shows "16 - m mod 16 = 4 \<or> 16 - m mod 16 = 8 \<or> 16 - m mod 16 = 12"
    and "(m + (16 - m mod 16)) mod 16 = 0"
proof -
  define r where "r = m mod 16"
  have r: "r < 16" "r mod 4 = 0" "r \<noteq> 0"
    using assms by (auto simp: r_def mod_mod_cancel)
  then have "r = 4 \<or> r = 8 \<or> r = 12" by presburger
  then show "16 - m mod 16 = 4 \<or> 16 - m mod 16 = 8 \<or> 16 - m mod 16 = 12"
    unfolding r_def [symmetric] by auto
  have "(m + (16 - r)) mod 16 = (r + (16 - r)) mod 16"
    unfolding r_def by (rule mod_add_left_eq [symmetric])
  with r show "(m + (16 - m mod 16)) mod 16 = 0" by (simp add: r_def [symmetric])
qed

lemma stripEncryptedPadding_none:
  "\<forall>a \<in> set as. attr_Type a \<noteq> AttributePadding \<Longrightarrow> stripEncryptedPadding as = Inr as"
  by (induction as) auto

lemma stripEncryptedPadding_last:
  "\<forall>a \<in> set as. attr_Type a \<noteq> AttributePadding \<Longrightarrow> n = 4 \<or> n = 8 \<or> n = 12 \<Longrightarrow>
   stripEncryptedPadding (as @ [\<lparr>attr_Type = AttributePadding, attr_Data = replicate (n - 2) 0\<rparr>]) = Inr as"
  by (induction as) (auto simp: Let_def list_ex_iff)

text \<open>The plaintext that is encrypted: the attributes and, if needed, one padding attribute.\<close>

lemma EncryptAttributes_plaintext:
  assumes "length k = 16" "length iv = 16" "list_all fits attrs"
    and "\<forall>a \<in> set attrs. attr_Type a \<noteq> AttributePadding"
  obtains as where "list_all aligned as" "stripEncryptedPadding as = Inr (map wire attrs)"
    "length (concat (map eap_attr_enc as)) mod 16 = 0"
    "length (concat (map eap_attr_enc (map wire attrs))) \<le> length (concat (map eap_attr_enc as))"
    "EncryptAttributes c k iv attrs = Inr (EncrDataAttribute (cbc_encrypt c k iv (concat (map eap_attr_enc as))))"
proof -
  let ?as = "map wire attrs"
  let ?p = "concat (map eap_attr_enc ?as)"
  have al: "list_all aligned ?as" using assms(3) aligned_wire by (simp add: list_all_iff)
  have np: "\<forall>a \<in> set ?as. attr_Type a \<noteq> AttributePadding" using assms(4) by simp
  have m: "MarshalAttributes attrs = Inr ?p" by (rule MarshalAttributes_fits [OF assms(3)])
  have b: "encryptedDataBlock k iv = Inr ()"
    using assms by (simp add: encryptedDataBlock_def aes_NewCipher_def aes_key_ok_def)
  show thesis
  proof (cases "length ?p mod 16 = 0")
    case True
    show thesis
      by (rule that [of ?as])
        (use al np True m b in \<open>simp_all add: stripEncryptedPadding_none EncryptAttributes_def Let_def\<close>)
  next
    case False
    define n where "n = 16 - length ?p mod 16"
    have n: "n = 4 \<or> n = 8 \<or> n = 12" "(length ?p + n) mod 16 = 0"
      unfolding n_def by (rule pad_to_16 [OF concat_enc_mod4 [OF al] False])+
    define pad where "pad = \<lparr>attr_Type = AttributePadding, attr_Data = replicate (n - 2) (0 :: u8)\<rparr>"
    have pad: "aligned pad" "fits pad" "length (eap_attr_enc pad) = n" "wire pad = pad"
      using n(1) by (auto simp: pad_def aligned_def fits_def eap_attr_enc_def)
    have e: "EncryptAttributes c k iv attrs =
        Inr (EncrDataAttribute (cbc_encrypt c k iv (?p @ eap_attr_enc pad)))"
    proof -
      have "encryptedPaddingAttribute (16 - length ?p mod 16) = Inr pad"
        using n(1) unfolding n_def [symmetric] by (simp add: encryptedPaddingAttribute_def pad_def)
      then show ?thesis
        using False m b pad Attribute_MarshalBinary_fits [OF pad(2)]
        by (simp add: EncryptAttributes_def Let_def del: map_map)
    qed
    show thesis
      by (rule that [of "?as @ [pad]"])
        (use al np n pad e stripEncryptedPadding_last [OF np n(1)] in \<open>simp_all add: pad_def [symmetric]\<close>)
  qed
qed

lemma DecryptAttributes_EncryptAttributes:
  assumes c: "crypto_ok c" and k: "length k = 16" "length iv = 16" and attrs: "list_all fits attrs" "attrs \<noteq> []"
    and np: "\<forall>a \<in> set attrs. attr_Type a \<noteq> AttributePadding"
    and e: "EncryptAttributes c k iv attrs = Inr e"
  shows "DecryptAttributes c k iv e = Inr (map wire attrs)" and "wire e = e" and "attr_Type e = AttributeEncrData"
proof -
  obtain as where as: "list_all aligned as" "stripEncryptedPadding as = Inr (map wire attrs)"
    "length (concat (map eap_attr_enc as)) mod 16 = 0"
    "length (concat (map eap_attr_enc (map wire attrs))) \<le> length (concat (map eap_attr_enc as))"
    "e = EncrDataAttribute (cbc_encrypt c k iv (concat (map eap_attr_enc as)))"
    by (rule EncryptAttributes_plaintext [OF k attrs(1) np, of c]) (simp add: e)
  let ?p = "concat (map eap_attr_enc as)"
  have "concat (map eap_attr_enc (map wire attrs)) \<noteq> []"
    using attrs(2) by (cases attrs) (auto simp: eap_attr_enc_def)
  then have p: "?p \<noteq> []" using as(4) by (metis le_zero_eq length_0_conv)
  have ct: "length (cbc_encrypt c k iv ?p) = length ?p"
    by (rule cbc_encrypt_length [OF c k(2) as(3)])
  have rt: "cbc_decrypt c k iv (cbc_encrypt c k iv ?p) = ?p"
    using k by (intro cbc_roundtrip [OF c _ k(2) as(3)]) (simp add: aes_key_ok_def)
  show "DecryptAttributes c k iv e = Inr (map wire attrs)"
    using p as(1-3) ct rt k
    by (auto simp: as(5) DecryptAttributes_def EncrDataAttribute_def EncrDataValue_def FixedAttribute_def
        encryptedDataBlock_def aes_NewCipher_def aes_key_ok_def ParseAttributes_def eap_attr.many_enc)
  show "attr_Type e = AttributeEncrData" by (simp add: as(5) EncrDataAttribute_def)
  have "length ?p mod 4 = 0" using as(3) by presburger
  then show "wire e = e"
    by (simp add: as(5) EncrDataAttribute_def wire_FixedAttribute ct paddingFor4_def) (simp add: FixedAttribute_def)
qed

section \<open>Lemmas: the generators return\<close>

lemma length_fips1862G [simp]: "length (fips1862G x) = 20"
  by (simp add: fips1862G_def Let_def split: prod.splits)

lemma add160_ok:
  "length a = 20 \<Longrightarrow> length b = 20 \<Longrightarrow> \<exists>r. add160 a b k = Inr r \<and> length r = 20"
  by (simp add: add160_def length_add160_loop)

lemma fips1862PRF_loop_returns:
  "length xkey = 20 \<Longrightarrow> \<exists>r. fips1862PRF_loop len xkey out = Inr r \<and> length r = len"
proof (induction len xkey out rule: fips1862PRF_loop.induct)
  case (1 len xkey out)
  show ?case
  proof (cases "length out < len")
    case True
    have w: "fips1862G xkey \<noteq> []" by (metis length_fips1862G list.size(3) zero_neq_numeral)
    obtain x where x: "add160 xkey (fips1862G xkey) 1 = Inr x" "length x = 20"
      using add160_ok [OF 1(2) length_fips1862G] by blast
    from 1(1) [OF True refl w] x show ?thesis
      using True w by (subst fips1862PRF_loop.simps) (simp add: Let_def)
  next
    case False
    then show ?thesis by (subst fips1862PRF_loop.simps) simp
  qed
qed

lemma fips1862PRF_returns: "\<exists>r. fips1862PRF seed len = Inr r \<and> length r = len"
  unfolding fips1862PRF_def by (rule fips1862PRF_loop_returns) (simp add: copy_at_def)

lemma prfPrime_loop_returns:
  "crypto_ok c \<Longrightarrow> \<exists>r. prfPrime_loop c key seed len out prev k = Inr r \<and> length r = len"
proof (induction c key seed len out prev k rule: prfPrime_loop.induct)
  case (1 c key seed len out prev k)
  show ?case
  proof (cases "length out < len")
    case True
    have w: "cr_hmac c SHA256 key (prev @ seed @ [k]) \<noteq> []"
      using crypto_ok_hmac [OF 1(2), of SHA256 key "prev @ seed @ [k]"] by auto
    from 1(1) [OF True refl w 1(2)] show ?thesis
      using True w by (subst prfPrime_loop.simps) (simp add: Let_def)
  next
    case False
    then show ?thesis by (subst prfPrime_loop.simps) simp
  qed
qed

lemma split5:
  assumes "length xs = 208"
  shows "take 16 xs @ take 32 (drop 16 xs) @ take 32 (drop 48 xs) @ take 64 (drop 80 xs) @ take 64 (drop 144 xs) = xs"
proof -
  have "take 64 (drop 144 xs) = drop 144 xs" using assms by simp
  moreover have "take 64 (drop 80 xs) @ drop 144 xs = drop 80 xs"
    using append_take_drop_id [of 64 "drop 80 xs"] by simp
  moreover have "take 32 (drop 48 xs) @ drop 80 xs = drop 48 xs"
    using append_take_drop_id [of 32 "drop 48 xs"] by simp
  moreover have "take 32 (drop 16 xs) @ drop 48 xs = drop 16 xs"
    using append_take_drop_id [of 32 "drop 16 xs"] by simp
  ultimately show ?thesis by simp
qed

lemma split4:
  "take 16 xs @ take 16 (drop 16 xs) @ take 64 (drop 32 xs) @ drop 96 xs = xs"
proof -
  have "take 64 (drop 32 xs) @ drop 96 xs = drop 32 xs"
    using append_take_drop_id [of 64 "drop 32 xs"] by simp
  moreover have "take 16 (drop 16 xs) @ drop 32 xs = drop 16 xs"
    using append_take_drop_id [of 16 "drop 16 xs"] by simp
  ultimately show ?thesis by simp
qed

section \<open>Properties\<close>

text \<open>\<^verbatim>\<open>add160\<close> with carry one is the addition of the FIPS 186-2 generator: on numbers of twenty
  octets, most significant first, it returns \<open>a + b + 1\<close> modulo two to the 160.\<close>

theorem add160_mod_2_160:
  assumes "length a = 20" and "length b = 20"
  shows "\<exists>r. add160 a b 1 = Inr r \<and> length r = 20 \<and> be_nat r = (be_nat a + be_nat b + 1) mod 2 ^ 160"
proof -
  have "(256 :: nat) ^ 20 = 2 ^ 160" by (simp add: power_mult [of 2 8 20, simplified])
  then show ?thesis
    using add160_loop_sum [of "rev a" "rev b" 1] assms length_add160_loop [of "rev a" "rev b" 1]
    by (simp add: add160_def)
qed

theorem add160_mod_2_160_witness:
  "\<exists>r. add160 (replicate 18 0 @ [1, 255]) (replicate 19 0 @ [5]) 1 = Inr r \<and> be_nat r = 517"
proof -
  have "be_nat (replicate 19 0 @ [5 :: u8]) = 5" by code_simp
  moreover have "be_nat (replicate 18 0 @ [1, 255 :: u8]) = 511" by code_simp
  ultimately show ?thesis
    using add160_mod_2_160 [of "replicate 18 0 @ [1, 255]" "replicate 19 0 @ [5]"] by auto
qed

text \<open>Attributes that are encrypted under a key of sixteen octets and decrypted under the same key and
  initialization vector come back, in order and padded to whole units, without the padding attribute;
  encryption itself never fails on attributes that fit.\<close>

theorem encrypted_attributes_roundtrip:
  assumes "crypto_ok c" and "length kEncr = 16" and "length iv = 16" and "attrs \<noteq> []"
    and "list_all fits attrs" and "\<forall>a \<in> set attrs. attr_Type a \<noteq> AttributePadding"
  shows "rbind (EncryptAttributes c kEncr iv attrs) (DecryptAttributes c kEncr iv) = Inr (map wire attrs)"
proof -
  obtain e where e: "EncryptAttributes c kEncr iv attrs = Inr e"
    using EncryptAttributes_plaintext [OF assms(2,3,5,6), of c] by metis
  show ?thesis
    using DecryptAttributes_EncryptAttributes(1) [OF assms(1-3,5,4,6) e] by (simp add: e)
qed

theorem encrypted_attributes_roundtrip_witness:
  "rbind (EncryptAttributes demo_crypto (replicate 16 1) (replicate 16 2) [CounterAttribute 7, NonceSAttribute (replicate 16 3)])
     (DecryptAttributes demo_crypto (replicate 16 1) (replicate 16 2))
   = Inr [CounterAttribute 7, NonceSAttribute (replicate 16 3)]"
proof -
  have "map wire [CounterAttribute 7, NonceSAttribute (replicate 16 3)] =
      [CounterAttribute 7, NonceSAttribute (replicate 16 3)]"
    by (simp add: CounterAttribute_def NonceSAttribute_def FixedAttribute_def aligned_def)
  then show ?thesis
    using encrypted_attributes_roundtrip [OF demo_crypto_ok, of "replicate 16 1" "replicate 16 2"
        "[CounterAttribute 7, NonceSAttribute (replicate 16 3)]"]
    by (simp add: CounterAttribute_def NonceSAttribute_def)
qed

text \<open>From a SIM result with CK and IK of sixteen octets, key derivation returns for EAP-AKA the keys cut
  without gap or overlap from the generator's 160 octets, and for EAP-AKA' (with an identity, a network
  name that fits its length field and a whole AUTN) the keys that make up the 208 octets of
  \<^verbatim>\<open>prf'\<close>, each of its length.\<close>

theorem derived_keys_partition:
  assumes "crypto_ok c" and "length (aka_CK aka) = 16" and "length (aka_IK aka) = 16"
  shows "(\<exists>k stream. DeriveKeys c ident aka = Inr k \<and>
      keys_MK k = cr_sha1 c (ident @ aka_IK aka @ aka_CK aka) \<and> fips1862PRF (keys_MK k) 160 = Inr stream \<and>
      keys_KEncr k @ keys_KAut k @ keys_MSK k @ keys_EMSK k = stream \<and>
      map length [keys_KEncr k, keys_KAut k, keys_MSK k, keys_EMSK k] = [16, 16, 64, 64]) \<and>
    (ident \<noteq> [] \<and> network \<noteq> [] \<and> length network \<le> 65535 \<and> length autn = 16 \<longrightarrow>
      (\<exists>k. DeriveAKAPrimeKeys c ident network autn aka = Inr k \<and>
        keys_KEncr k @ keys_KAut k @ keys_KRe k @ keys_MSK k @ keys_EMSK k = keys_MK k \<and>
        map length [keys_KEncr k, keys_KAut k, keys_KRe k, keys_MSK k, keys_EMSK k] = [16, 32, 32, 64, 64]))"
proof -
  let ?mk = "cr_sha1 c (ident @ aka_IK aka @ aka_CK aka)"
  have v: "validateCKIK aka = Inr ()" using assms by (simp add: validateCKIK_def)
  obtain s where s: "fips1862PRF ?mk 160 = Inr s" "length s = 160" using fips1862PRF_returns by blast
  have "\<exists>k. DeriveKeys c ident aka = Inr k \<and> keys_MK k = ?mk \<and>
      keys_KEncr k = take 16 s \<and> keys_KAut k = take 16 (drop 16 s) \<and> keys_MSK k = take 64 (drop 32 s) \<and>
      keys_EMSK k = drop 96 s"
    using s by (simp add: DeriveKeys_def v Let_def)
  then have "\<exists>k stream. DeriveKeys c ident aka = Inr k \<and> keys_MK k = ?mk \<and> fips1862PRF (keys_MK k) 160 = Inr stream \<and>
      keys_KEncr k @ keys_KAut k @ keys_MSK k @ keys_EMSK k = stream \<and>
      map length [keys_KEncr k, keys_KAut k, keys_MSK k, keys_EMSK k] = [16, 16, 64, 64]"
    using s split4 [of s] by auto
  moreover have "\<exists>k. DeriveAKAPrimeKeys c ident network autn aka = Inr k \<and>
      keys_KEncr k @ keys_KAut k @ keys_KRe k @ keys_MSK k @ keys_EMSK k = keys_MK k \<and>
      map length [keys_KEncr k, keys_KAut k, keys_KRe k, keys_MSK k, keys_EMSK k] = [16, 32, 32, 64, 64]"
    if "ident \<noteq> []" "network \<noteq> []" "length network \<le> 65535" "length autn = 16"
  proof -
    let ?ck = "deriveAKAPrimeCKIK c network (take 6 autn) aka"
    have l: "length ?ck = 32" using assms(1) by (simp add: deriveAKAPrimeCKIK_def)
    obtain x where x: "prfPrimeSHA256 c (drop 16 ?ck @ take 16 ?ck) (str ''EAP-AKA'' @ [0x27] @ ident) 208 = Inr x"
      "length x = 208"
      unfolding prfPrimeSHA256_def using prfPrime_loop_returns [OF assms(1)] by blast
    show ?thesis
      using that v l x split5 [of x] by (simp add: DeriveAKAPrimeKeys_def Let_def)
  qed
  ultimately show ?thesis by blast
qed

theorem derived_keys_partition_witness:
  "\<exists>k. DeriveAKAPrimeKeys demo_crypto [1] [2] (replicate 16 3)
      \<lparr>aka_RES = [], aka_CK = replicate 16 4, aka_IK = replicate 16 5, aka_AUTS = []\<rparr> = Inr k \<and>
    keys_KEncr k @ keys_KAut k @ keys_KRe k @ keys_MSK k @ keys_EMSK k = keys_MK k"
  using derived_keys_partition [OF demo_crypto_ok,
      of "\<lparr>aka_RES = [], aka_CK = replicate 16 4, aka_IK = replicate 16 5, aka_AUTS = []\<rparr>" "[1]" "[2]" "replicate 16 3"]
  by auto

end
