(* ===== verification/EAP_Exchange.thy ===== *)
theory EAP_Exchange
  imports EAP_Crypto
begin

text \<open>
  The second half of \<^verbatim>\<open>engine/swu/eapaka/crypto.go\<close>: the responses the client builds to the
  server's requests (identity, challenge, notification, synchronization failure, rejection, client
  error), the parsing of challenges, and fast reauthentication with its counter.  A SIM card is a
  function from RAND and AUTN to a result and a possible cause of failure; a cause is an error with
  the AUTS it may carry.
\<close>

section \<open>Data\<close>

abbreviation (input) SupportedVersion :: u16 where "SupportedVersion \<equiv> 1"
abbreviation (input) ClientErrorUnableToProcessPacket :: u16 where "ClientErrorUnableToProcessPacket \<equiv> 0"
abbreviation (input) ClientErrorUnsupportedVersion :: u16 where "ClientErrorUnsupportedVersion \<equiv> 1"

record ChallengeVector =
  cv_RAND :: bytes
  cv_AUTN :: bytes
  cv_AUTNFields :: AUTNFields

record Challenge =
  ch_Packet :: Packet
  ch_Vectors :: "ChallengeVector list"
  ch_RAND :: bytes
  ch_AUTN :: bytes
  ch_AUTNFields :: AUTNFields
  ch_MAC :: bytes
  ch_HasMAC :: bool
  ch_ResultInd :: bool
  ch_Checkcode :: bytes
  ch_HasCheckcode :: bool
  ch_Bidding :: bool
  ch_HasBidding :: bool
  ch_KDFInput :: bytes
  ch_KDFValues :: "u16 list"
  ch_EncryptedAttributes :: "Attribute list"
  ch_IdentityState :: EncryptedIdentityState

record ReauthenticationRequest =
  rq_Counter :: u16
  rq_NonceS :: bytes
  rq_IdentityState :: EncryptedIdentityState
  rq_EncryptedAttributes :: "Attribute list"

record ReauthenticationResponse =
  rp_Counter :: u16
  rp_CounterTooSmall :: bool
  rp_ResultInd :: bool
  rp_IdentityState :: EncryptedIdentityState
  rp_EncryptedAttributes :: "Attribute list"

record ChallengeResponseResult =
  cr_Response :: Packet
  cr_Keys :: Keys
  cr_AKA :: AKAResult
  cr_RAND :: bytes
  cr_AUTN :: bytes
  cr_SyncFailure :: bool
  cr_AuthFailure :: bool
  cr_BiddingDown :: bool

text \<open>An error of the SIM, with the AUTS of a \<^verbatim>\<open>SyncFailureError\<close> in its chain.\<close>

record aka_cause =
  cause_err :: go_error
  cause_carrier :: "bytes option"

type_synonym aka_provider = "bytes \<Rightarrow> bytes \<Rightarrow> AKAResult \<times> aka_cause option"

definition NoKeys :: Keys where
  "NoKeys = \<lparr>keys_MK = [], keys_KEncr = [], keys_KAut = [], keys_KRe = [], keys_MSK = [], keys_EMSK = [],
     keys_CKPrime = [], keys_IKPrime = []\<rparr>"

definition response_to :: "Packet \<Rightarrow> u8 \<Rightarrow> u8 \<Rightarrow> Attribute list \<Rightarrow> Packet" where
  "response_to request ty st attrs =
     \<lparr>pkt_Code = CodeResponse, pkt_Identifier = pkt_Identifier request, pkt_Type = ty, pkt_Subtype = st,
      pkt_Attributes = attrs, pkt_Data = []\<rparr>"

abbreviation (input) eapTypeOf :: "Packet \<Rightarrow> u8" where
  "eapTypeOf request \<equiv> (if pkt_Type request = 0 then TypeAKA else pkt_Type request)"

section \<open>Responses without keys\<close>

definition BuildAuthenticationRejectResponse :: "Packet \<Rightarrow> Packet res" where
  "BuildAuthenticationRejectResponse request =
     (if pkt_Code request \<noteq> CodeRequest \<or> pkt_Subtype request \<noteq> SubtypeChallenge
      then Inl (Err ErrInvalidAKAChallenge)
      else if \<not> isAKAType (pkt_Type request) then Inl (Err ErrInvalidAKAChallenge)
      else Inr (response_to request (eapTypeOf request) SubtypeAuthenticationReject []))"

definition BuildClientErrorResponse :: "Packet \<Rightarrow> u16 \<Rightarrow> Packet res" where
  "BuildClientErrorResponse request code =
     (if pkt_Code request \<noteq> CodeRequest then Inl (Err ErrInvalidAKAChallenge)
      else if \<not> isAKAType (pkt_Type request) then Inl (Err ErrInvalidAKAChallenge)
      else Inr (response_to request (eapTypeOf request) SubtypeClientError [ClientErrorCodeAttribute code]))"

definition supportsVersion :: "u16 list \<Rightarrow> u16 \<Rightarrow> bool" where
  "supportsVersion versions supported = list_ex (\<lambda>v. v = supported) versions"

definition BuildIdentityResponse :: "bytes \<Rightarrow> Packet \<Rightarrow> Packet res" where
  "BuildIdentityResponse ident request =
     (if pkt_Code request \<noteq> CodeRequest \<or> pkt_Subtype request \<noteq> SubtypeIdentity
      then Inl (Err ErrInvalidAKAChallenge)
      else if \<not> isAKAType (pkt_Type request) then Inl (Err ErrInvalidAKAChallenge)
      else
        let ident' = TrimSpace ident in
        if ident' = [] then Inl (Err ErrInvalidKeyMaterial)
        else
          let attrs = [IdentityAttribute ident'] in
          (case FindAttribute (pkt_Attributes request) AttributeVersionList of
             None \<Rightarrow> Inr (response_to request (pkt_Type request) SubtypeIdentity attrs)
           | Some versionAttr \<Rightarrow>
               (case VersionListValue versionAttr of
                  Inl e \<Rightarrow> BuildClientErrorResponse request ClientErrorUnableToProcessPacket
                | Inr versions \<Rightarrow>
                    if \<not> supportsVersion versions SupportedVersion
                    then BuildClientErrorResponse request ClientErrorUnsupportedVersion
                    else Inr (response_to request (pkt_Type request) SubtypeIdentity
                      (attrs @ [SelectedVersionAttribute SupportedVersion])))))"

definition challengeKDFAttributes :: "Attribute list \<Rightarrow> Attribute list" where
  "challengeKDFAttributes attrs = filter (\<lambda>a. attr_Type a = AttributeKDF) attrs"

definition BuildSynchronizationFailureResponse :: "Packet \<Rightarrow> bytes \<Rightarrow> Packet res" where
  "BuildSynchronizationFailureResponse request auts =
     (if pkt_Code request \<noteq> CodeRequest \<or> pkt_Subtype request \<noteq> SubtypeChallenge
      then Inl (Err ErrInvalidAKAChallenge)
      else if \<not> isAKAType (pkt_Type request) then Inl (Err ErrInvalidAKAChallenge)
      else if length auts \<noteq> AUTSLength then Inl (Err ErrInvalidAKAChallenge)
      else Inr (response_to request (pkt_Type request) SubtypeSynchronizationFailure
        (AUTSAttribute auts #
         (if pkt_Type request = TypeAKAPrime then challengeKDFAttributes (pkt_Attributes request) else []))))"

definition syncFailureAUTS :: "AKAResult \<Rightarrow> aka_cause \<Rightarrow> bytes" where
  "syncFailureAUTS aka cause =
     (if length (aka_AUTS aka) > 0 then aka_AUTS aka
      else if \<not> errors_Is (cause_err cause) ErrSyncFailure then []
      else case cause_carrier cause of Some auts \<Rightarrow> auts | None \<Rightarrow> [])"

definition BuildAKAFailureResponse :: "Packet \<Rightarrow> AKAResult \<Rightarrow> aka_cause option \<Rightarrow> Packet option res" where
  "BuildAKAFailureResponse request aka cause =
     (case cause of
        None \<Rightarrow> Inr None
      | Some cs \<Rightarrow>
          if errors_Is (cause_err cs) ErrSyncFailure
          then rbind (BuildSynchronizationFailureResponse request (syncFailureAUTS aka cs)) (\<lambda>p. Inr (Some p))
          else if errors_Is (cause_err cs) ErrAuthFailure
          then rbind (BuildAuthenticationRejectResponse request) (\<lambda>p. Inr (Some p))
          else Inl (cause_err cs))"

definition BuildAKAPrimeKDFNegotiationResponse :: "Packet \<Rightarrow> Packet option res" where
  "BuildAKAPrimeKDFNegotiationResponse request =
     (if pkt_Type request \<noteq> TypeAKAPrime then Inr None
      else if pkt_Code request \<noteq> CodeRequest \<or> pkt_Subtype request \<noteq> SubtypeChallenge
      then Inl (Err ErrInvalidAKAChallenge)
      else rbind (kdfValues (pkt_Attributes request)) (\<lambda>values.
        case values of
          [] \<Rightarrow> Inl (Err ErrInvalidAKAChallenge)
        | v # vs \<Rightarrow>
            if v = AKAPrimeKDFDefault then Inr None
            else if list_ex (\<lambda>x. x = AKAPrimeKDFDefault) vs
            then Inr (Some (response_to request TypeAKAPrime SubtypeChallenge [KDFAttribute AKAPrimeKDFDefault]))
            else Inl (Err ErrUnsupportedKDF)))"

section \<open>Sealing a response\<close>

text \<open>The end of every builder that authenticates: encode the packet with a zero AT_MAC as its last
  attribute, compute the code, put it in.\<close>

definition sealResponse :: "crypto \<Rightarrow> Packet \<Rightarrow> bytes \<Rightarrow> bytes \<Rightarrow> Packet res" where
  "sealResponse c response kAut extra =
     rbind (Packet_MarshalBinary response) (\<lambda>raw.
     rbind (calculatePacketMAC c (pkt_Type response) kAut raw extra) (\<lambda>mac.
       Inr (response\<lparr>pkt_Attributes := butlast (pkt_Attributes response) @ [MACAttribute mac]\<rparr>)))"

definition buildNotificationResponse :: "crypto \<Rightarrow> Packet \<Rightarrow> bytes \<Rightarrow> bool \<Rightarrow> Packet option res" where
  "buildNotificationResponse c request kAut authenticated =
     (if pkt_Subtype request \<noteq> SubtypeNotification then Inr None
      else if pkt_Code request \<noteq> CodeRequest then Inl (Err ErrInvalidAKAChallenge)
      else if \<not> isAKAType (pkt_Type request) then Inl (Err ErrInvalidAKAChallenge)
      else case FindAttribute (pkt_Attributes request) AttributeNotification of
        None \<Rightarrow> Inl (Err ErrInvalidAKAChallenge)
      | Some attr \<Rightarrow>
          rbind (NotificationValue attr) (\<lambda>code.
          if code AND NotificationPBit = 0
          then (if \<not> authenticated then Inl (Err ErrInvalidKeyMaterial)
                else
                  rbind (Packet_MarshalBinary request) (\<lambda>raw.
                  rbind (verifyChallengeMAC c (pkt_Type request) kAut raw) (\<lambda>_.
                  rbind (sealResponse c
                    (response_to request (eapTypeOf request) SubtypeNotification [MACAttribute []]) kAut [])
                    (\<lambda>p. Inr (Some p)))))
          else Inr (Some (response_to request (eapTypeOf request) SubtypeNotification []))))"

definition BuildNotificationResponse :: "crypto \<Rightarrow> Packet \<Rightarrow> Packet option res" where
  "BuildNotificationResponse c request = buildNotificationResponse c request [] False"

definition BuildAuthenticatedNotificationResponse :: "crypto \<Rightarrow> Packet \<Rightarrow> bytes \<Rightarrow> Packet option res" where
  "BuildAuthenticatedNotificationResponse c request kAut = buildNotificationResponse c request kAut True"

section \<open>Challenges\<close>

definition singleChallengeAttribute :: "Attribute list \<Rightarrow> u8 \<Rightarrow> Attribute res" where
  "singleChallengeAttribute attrs typ =
     (case filter (\<lambda>a. attr_Type a = typ) attrs of
        [a] \<Rightarrow> Inr a
      | _ \<Rightarrow> Inl (Err ErrInvalidAKAChallenge))"

definition findChallengeMACAttribute :: "Attribute list \<Rightarrow> Attribute option res" where
  "findChallengeMACAttribute attrs =
     (case filter (\<lambda>a. attr_Type a = AttributeMAC) attrs of
        [] \<Rightarrow> Inr None
      | [a] \<Rightarrow> Inr (Some a)
      | _ \<Rightarrow> Inl (Err ErrInvalidMAC))"

fun pairVectors :: "bytes list \<Rightarrow> bytes list \<Rightarrow> ChallengeVector list res" where
  "pairVectors (r # rs) (a # as) =
     rbind (ParseAUTN a) (\<lambda>f.
     rbind (pairVectors rs as) (\<lambda>vs. Inr (\<lparr>cv_RAND = r, cv_AUTN = a, cv_AUTNFields = f\<rparr> # vs)))"
| "pairVectors _ _ = Inr []"

definition challengeVectors :: "Packet \<Rightarrow> ChallengeVector list res" where
  "challengeVectors request =
     rbind (singleChallengeAttribute (pkt_Attributes request) AttributeRAND) (\<lambda>randAttr.
     rbind (RANDValues randAttr) (\<lambda>rands.
     rbind (singleChallengeAttribute (pkt_Attributes request) AttributeAUTN) (\<lambda>autnAttr.
     rbind (AUTNValues autnAttr) (\<lambda>autns.
       if length rands \<noteq> length autns then Inl (Err ErrInvalidAKAChallenge)
       else pairVectors rands autns))))"

text \<open>A check of an optional attribute: its reader's value, or \<open>None\<close> when it is absent.\<close>

definition parseChallenge :: "crypto \<Rightarrow> Packet \<Rightarrow> Keys option \<Rightarrow> Challenge res" where
  "parseChallenge c request keys =
     (if pkt_Code request \<noteq> CodeRequest \<or> pkt_Subtype request \<noteq> SubtypeChallenge
      then Inl (Err ErrInvalidAKAChallenge)
      else if \<not> isAKAType (pkt_Type request) then Inl (Err ErrInvalidAKAChallenge)
      else
        let attrs = pkt_Attributes request in
        rbind (ValidateAttributes attrs) (\<lambda>_.
        rbind (challengeVectors request) (\<lambda>vectors.
        rbind (idx 0 vectors) (\<lambda>v0.
        rbind (findChallengeMACAttribute attrs) (\<lambda>macAttr.
        rbind (case macAttr of None \<Rightarrow> Inr None | Some a \<Rightarrow> rbind (MACValue a) (\<lambda>m. Inr (Some m))) (\<lambda>mac.
        rbind (valueFromAttributes AttributeResultInd ResultIndValue attrs) (\<lambda>resultInd.
        rbind (valueFromAttributes AttributeCheckcode CheckcodeValue attrs) (\<lambda>checkcode.
        rbind (valueFromAttributes AttributeBidding BiddingValue attrs) (\<lambda>bidding.
        rbind (kdfValues attrs) (\<lambda>kdfs.
        rbind (valueFromAttributes AttributeKDFInput KDFInputValue attrs) (\<lambda>kdfInp.
        rbind (case keys of
                 None \<Rightarrow> Inr ()
               | Some ks \<Rightarrow> rbind (Packet_MarshalBinary request) (\<lambda>raw.
                   verifyChallengeMAC c (pkt_Type request) (keys_KAut ks) raw)) (\<lambda>_.
        rbind (FindSingleAttribute attrs AttributeIV) (\<lambda>ivAttr.
        rbind (FindSingleAttribute attrs AttributeEncrData) (\<lambda>encryptedAttr.
        rbind (case (ivAttr, encryptedAttr) of
                 (None, None) \<Rightarrow> Inr ([], \<lparr>eis_NextPseudonym = [], eis_NextReauthID = []\<rparr>)
               | (Some iv, Some enc) \<Rightarrow>
                   rbind (IVValue iv) (\<lambda>_.
                   rbind (EncrDataValue enc) (\<lambda>_.
                   case keys of
                     None \<Rightarrow> Inr ([], \<lparr>eis_NextPseudonym = [], eis_NextReauthID = []\<rparr>)
                   | Some ks \<Rightarrow>
                       rbind (DecryptEncryptedAttributes c (keys_KEncr ks) iv enc) (\<lambda>das.
                       rbind (IdentityStateFromAttributes das) (\<lambda>state. Inr (das, state)))))
               | _ \<Rightarrow> Inl (Err ErrInvalidEncryptedData)) (\<lambda>(das, state).
          Inr \<lparr>ch_Packet = request, ch_Vectors = vectors, ch_RAND = cv_RAND v0, ch_AUTN = cv_AUTN v0,
               ch_AUTNFields = cv_AUTNFields v0,
               ch_MAC = (case mac of Some m \<Rightarrow> m | None \<Rightarrow> []), ch_HasMAC = (mac \<noteq> None),
               ch_ResultInd = (resultInd \<noteq> None),
               ch_Checkcode = (case checkcode of Some x \<Rightarrow> x | None \<Rightarrow> []), ch_HasCheckcode = (checkcode \<noteq> None),
               ch_Bidding = (case bidding of Some b \<Rightarrow> b | None \<Rightarrow> False), ch_HasBidding = (bidding \<noteq> None),
               ch_KDFInput = (case kdfInp of Some x \<Rightarrow> x | None \<Rightarrow> []), ch_KDFValues = kdfs,
               ch_EncryptedAttributes = das, ch_IdentityState = state\<rparr>)))))))))))))))"

definition ParseChallenge :: "crypto \<Rightarrow> Packet \<Rightarrow> Challenge res" where
  "ParseChallenge c request = parseChallenge c request None"

definition ParseChallengeWithKeys :: "crypto \<Rightarrow> Packet \<Rightarrow> Keys \<Rightarrow> Challenge res" where
  "ParseChallengeWithKeys c request keys = parseChallenge c request (Some keys)"

definition ChallengeRANDAndAUTN :: "crypto \<Rightarrow> Packet \<Rightarrow> (bytes \<times> bytes) res" where
  "ChallengeRANDAndAUTN c request =
     rbind (ParseChallenge c request) (\<lambda>challenge.
       if length (ch_Vectors challenge) \<noteq> 1 then Inl (Err ErrInvalidAKAChallenge)
       else Inr (ch_RAND challenge, ch_AUTN challenge))"

definition firstKDFValue :: "Attribute list \<Rightarrow> u16 res" where
  "firstKDFValue attrs =
     rbind (kdfValues attrs) (\<lambda>values.
       case values of [] \<Rightarrow> Inl (Err ErrInvalidAKAChallenge) | v # _ \<Rightarrow> Inr v)"

definition challengeKDFInput :: "Attribute list \<Rightarrow> bytes res" where
  "challengeKDFInput attrs =
     (case FindAttribute attrs AttributeKDFInput of
        None \<Rightarrow> Inl (Err ErrInvalidAKAChallenge)
      | Some attr \<Rightarrow> rbind (KDFInputValue attr) (\<lambda>value.
          if value = [] then Inl (Err ErrInvalidAKAChallenge) else Inr value))"

definition deriveChallengeKeys :: "crypto \<Rightarrow> bytes \<Rightarrow> Packet \<Rightarrow> AKAResult \<Rightarrow> (Keys \<times> u16) res" where
  "deriveChallengeKeys c ident request aka =
     (if pkt_Type request = 0 \<or> pkt_Type request = TypeAKA
      then rbind (DeriveKeys c ident aka) (\<lambda>keys. Inr (keys, 0))
      else if pkt_Type request = TypeAKAPrime
      then
        rbind (firstKDFValue (pkt_Attributes request)) (\<lambda>kdf.
        if kdf \<noteq> AKAPrimeKDFDefault then Inl (Err ErrUnsupportedKDF)
        else
          rbind (challengeKDFInput (pkt_Attributes request)) (\<lambda>networkName.
          rbind (ChallengeRANDAndAUTN c request) (\<lambda>(_, autn16).
          rbind (DeriveAKAPrimeKeys c ident networkName autn16 aka) (\<lambda>keys. Inr (keys, kdf)))))
      else Inl (Err ErrInvalidAKAChallenge))"

definition challengeBiddingDown :: "Packet \<Rightarrow> bool res" where
  "challengeBiddingDown request =
     (if pkt_Type request \<noteq> 0 \<and> pkt_Type request \<noteq> TypeAKA then Inr False
      else case FindAttribute (pkt_Attributes request) AttributeBidding of
        None \<Rightarrow> Inr False
      | Some attr \<Rightarrow> BiddingValue attr)"

definition verifyChallengeCheckcode :: "crypto \<Rightarrow> Packet \<Rightarrow> bytes list \<Rightarrow> bool res" where
  "verifyChallengeCheckcode c request identityPackets =
     (case FindAttribute (pkt_Attributes request) AttributeCheckcode of
        None \<Rightarrow> Inr False
      | Some attr \<Rightarrow> rbind (VerifyCheckcodeAttribute c attr identityPackets) (\<lambda>_. Inr True))"

definition BuildChallengeResponseWithCheckcode ::
  "crypto \<Rightarrow> bytes \<Rightarrow> Packet \<Rightarrow> AKAResult \<Rightarrow> bytes list \<Rightarrow> (Packet \<times> Keys) res" where
  "BuildChallengeResponseWithCheckcode c ident request aka identityPackets =
     (if pkt_Code request \<noteq> CodeRequest \<or> pkt_Subtype request \<noteq> SubtypeChallenge
      then Inl (Err ErrInvalidAKAChallenge)
      else if \<not> isAKAType (pkt_Type request) then Inl (Err ErrInvalidAKAChallenge)
      else
        rbind (validateRES (aka_RES aka)) (\<lambda>_.
        rbind (deriveChallengeKeys c ident request aka) (\<lambda>(keys, selectedKDF).
        rbind (ParseChallengeWithKeys c request keys) (\<lambda>_.
        rbind (challengeBiddingDown request) (\<lambda>biddingDown.
        if biddingDown then Inl (Err ErrBiddingDown)
        else
          rbind (verifyChallengeCheckcode c request identityPackets) (\<lambda>includeCheckcode.
          let responseAttrs = [RESAttribute (aka_RES aka)]
                @ (if pkt_Type request = TypeAKAPrime then [KDFAttribute selectedKDF] else [])
                @ (if includeCheckcode then [CheckcodeAttributeForPackets c identityPackets] else [])
                @ (if FindAttribute (pkt_Attributes request) AttributeResultInd \<noteq> None
                   then [ResultIndAttribute] else [])
                @ [MACAttribute []]
          in rbind (sealResponse c (response_to request (pkt_Type request) SubtypeChallenge responseAttrs)
               (keys_KAut keys) []) (\<lambda>response. Inr (response, keys))))))))"

definition BuildChallengeResponse :: "crypto \<Rightarrow> bytes \<Rightarrow> Packet \<Rightarrow> AKAResult \<Rightarrow> (Packet \<times> Keys) res" where
  "BuildChallengeResponse c ident request aka = BuildChallengeResponseWithCheckcode c ident request aka []"

definition BuildChallengeResponseFromProvider ::
  "crypto \<Rightarrow> bytes \<Rightarrow> Packet \<Rightarrow> aka_provider option \<Rightarrow> bytes list \<Rightarrow> ChallengeResponseResult res" where
  "BuildChallengeResponseFromProvider c ident request provider identityPackets =
     (case provider of
        None \<Rightarrow> Inl (Err ErrInvalidAKAChallenge)
      | Some CalculateAKA \<Rightarrow>
          rbind (ChallengeRANDAndAUTN c request) (\<lambda>(rand16, autn16).
          let (aka, err) = CalculateAKA rand16 autn16;
              result = (\<lambda>p keys aka' s a b. \<lparr>cr_Response = p, cr_Keys = keys, cr_AKA = aka', cr_RAND = rand16,
                cr_AUTN = autn16, cr_SyncFailure = s, cr_AuthFailure = a, cr_BiddingDown = b\<rparr>)
          in case err of
               Some cs \<Rightarrow>
                 rbind (BuildAKAFailureResponse request aka (Some cs)) (\<lambda>r.
                   case r of
                     None \<Rightarrow> Inl (cause_err cs)
                   | Some response \<Rightarrow>
                       let isSync = errors_Is (cause_err cs) ErrSyncFailure;
                           aka' = (if isSync \<and> length (aka_AUTS aka) = 0
                                   then aka\<lparr>aka_AUTS := syncFailureAUTS aka cs\<rparr> else aka)
                       in Inr (result response NoKeys aka' isSync (errors_Is (cause_err cs) ErrAuthFailure) False))
             | None \<Rightarrow>
                 let ident' = TrimSpace ident in
                 if ident' = [] then Inl (Err ErrInvalidKeyMaterial)
                 else case BuildChallengeResponseWithCheckcode c ident' request aka identityPackets of
                   Inr (response, keys) \<Rightarrow> Inr (result response keys aka False False False)
                 | Inl e \<Rightarrow>
                     if errors_Is e ErrBiddingDown
                     then rbind (BuildAuthenticationRejectResponse request) (\<lambda>response.
                       Inr (result response NoKeys aka False True True))
                     else Inl e))"

section \<open>Fast reauthentication\<close>

definition validateReauthenticationMethod :: "u8 \<Rightarrow> Keys \<Rightarrow> unit res" where
  "validateReauthenticationMethod eapType keys =
     (if length (keys_KEncr keys) \<noteq> KeyLengthKEncr then Inl (Err ErrInvalidKeyMaterial)
      else if eapType = TypeAKAPrime
      then (if length (keys_KRe keys) \<noteq> KeyLengthKRe then Inl (Err ErrInvalidKeyMaterial)
            else if length (keys_KAut keys) \<noteq> KeyLengthAKAPrimeKAut then Inl (Err ErrInvalidKeyMaterial)
            else Inr ())
      else if eapType = 0 \<or> eapType = TypeAKA
      then (if length (keys_KRe keys) > 0 then Inl (Err ErrInvalidReauth)
            else if length (keys_KAut keys) \<noteq> 0 \<and> length (keys_KAut keys) \<noteq> KeyLengthKAut
            then Inl (Err ErrInvalidKeyMaterial)
            else Inr ())
      else Inr ())"

definition ParseReauthenticationRequest :: "crypto \<Rightarrow> Packet \<Rightarrow> Keys \<Rightarrow> ReauthenticationRequest res" where
  "ParseReauthenticationRequest c request keys =
     (if pkt_Code request \<noteq> CodeRequest \<or> pkt_Subtype request \<noteq> SubtypeReauthentication
      then Inl (Err ErrInvalidReauth)
      else if \<not> isAKAType (pkt_Type request) then Inl (Err ErrInvalidReauth)
      else
        rbind (validateReauthenticationMethod (pkt_Type request) keys) (\<lambda>_.
        rbind (Packet_MarshalBinary request) (\<lambda>raw.
        rbind (verifyChallengeMAC c (pkt_Type request) (keys_KAut keys) raw) (\<lambda>_.
        rbind (DecryptPacketEncryptedAttributes c request keys) (\<lambda>r.
        case r of
          None \<Rightarrow> Inl (Err ErrInvalidReauth)
        | Some attrs \<Rightarrow>
            rbind (CounterFromAttributes attrs) (\<lambda>counter.
            case counter of None \<Rightarrow> Inl (Err ErrInvalidReauth) | Some ctr \<Rightarrow>
            rbind (NonceSFromAttributes attrs) (\<lambda>nonceS.
            case nonceS of None \<Rightarrow> Inl (Err ErrInvalidReauth) | Some nonce \<Rightarrow>
            rbind (IdentityStateFromAttributes attrs) (\<lambda>state.
              Inr \<lparr>rq_Counter = ctr, rq_NonceS = nonce, rq_IdentityState = state,
                   rq_EncryptedAttributes = attrs\<rparr>))))))))"

definition ParseReauthenticationResponse ::
  "crypto \<Rightarrow> Packet \<Rightarrow> Keys \<Rightarrow> bytes \<Rightarrow> ReauthenticationResponse res" where
  "ParseReauthenticationResponse c response keys nonceS =
     (if pkt_Code response \<noteq> CodeResponse \<or> pkt_Subtype response \<noteq> SubtypeReauthentication
      then Inl (Err ErrInvalidReauth)
      else if \<not> isAKAType (pkt_Type response) then Inl (Err ErrInvalidReauth)
      else if length nonceS \<noteq> RANDLength then Inl (Err ErrInvalidReauth)
      else
        rbind (validateReauthenticationMethod (pkt_Type response) keys) (\<lambda>_.
        rbind (Packet_MarshalBinary response) (\<lambda>raw.
        rbind (verifyPacketMAC c (pkt_Type response) (keys_KAut keys) raw nonceS) (\<lambda>_.
        rbind (DecryptPacketEncryptedAttributes c response keys) (\<lambda>r.
        case r of
          None \<Rightarrow> Inl (Err ErrInvalidReauth)
        | Some attrs \<Rightarrow>
            rbind (CounterFromAttributes attrs) (\<lambda>counter.
            case counter of None \<Rightarrow> Inl (Err ErrInvalidReauth) | Some ctr \<Rightarrow>
            rbind (CounterTooSmallFromAttributes attrs) (\<lambda>small.
            rbind (ResultIndFromAttributes (pkt_Attributes response)) (\<lambda>resultInd.
            rbind (IdentityStateFromAttributes attrs) (\<lambda>state.
              Inr \<lparr>rp_Counter = ctr, rp_CounterTooSmall = small, rp_ResultInd = resultInd,
                   rp_IdentityState = state, rp_EncryptedAttributes = attrs\<rparr>)))))))))"

definition reauthenticationKeys :: "Keys \<Rightarrow> bytes \<Rightarrow> bytes \<Rightarrow> Keys res" where
  "reauthenticationKeys previous mk stream =
     rbind (sub 0 64 stream) (\<lambda>msk.
     rbind (sub 64 128 stream) (\<lambda>emsk.
       Inr (previous\<lparr>keys_MK := mk, keys_MSK := msk, keys_EMSK := emsk\<rparr>)))"

definition DeriveReauthenticationKeys :: "crypto \<Rightarrow> bytes \<Rightarrow> Keys \<Rightarrow> u16 \<Rightarrow> bytes \<Rightarrow> Keys res" where
  "DeriveReauthenticationKeys c ident previous counter nonceS =
     (if ident = [] then Inl (Err ErrInvalidKeyMaterial)
      else if length (keys_KEncr previous) \<noteq> KeyLengthKEncr then Inl (Err ErrInvalidKeyMaterial)
      else if length nonceS \<noteq> 16 then Inl (Err ErrInvalidReauth)
      else if length (keys_KRe previous) > 0
      then (if length (keys_KRe previous) \<noteq> KeyLengthKRe then Inl (Err ErrInvalidKeyMaterial)
            else if length (keys_KAut previous) \<noteq> KeyLengthAKAPrimeKAut then Inl (Err ErrInvalidKeyMaterial)
            else rbind (prfPrimeSHA256 c (keys_KRe previous)
                (str ''EAP-AKA'' @ [0x27] @ str '' re-auth'' @ ident @ PutUint16 counter @ nonceS)
                (KeyLengthMSK + KeyLengthEMSK)) (\<lambda>stream.
              reauthenticationKeys previous stream stream))
      else if length (keys_KAut previous) \<noteq> KeyLengthKAut then Inl (Err ErrInvalidKeyMaterial)
      else if length (keys_MK previous) = 0 then Inl (Err ErrInvalidKeyMaterial)
      else rbind (fips1862PRF (cr_sha1 c (ident @ PutUint16 counter @ nonceS @ keys_MK previous))
          (KeyLengthMSK + KeyLengthEMSK)) (\<lambda>stream.
        reauthenticationKeys previous (keys_MK previous) stream))"

definition buildReauthenticationResponsePacket ::
  "crypto \<Rightarrow> Packet \<Rightarrow> Keys \<Rightarrow> bytes \<Rightarrow> ReauthenticationRequest \<Rightarrow> Attribute list \<Rightarrow> Packet res" where
  "buildReauthenticationResponsePacket c request keys iv parsed encryptedAttrs =
     rbind (EncryptAttributes c (keys_KEncr keys) iv encryptedAttrs) (\<lambda>encrypted.
     let attrs = [IVAttribute iv, encrypted]
           @ (if FindAttribute (pkt_Attributes request) AttributeResultInd \<noteq> None then [ResultIndAttribute] else [])
           @ [MACAttribute []]
     in sealResponse c (response_to request (eapTypeOf request) SubtypeReauthentication attrs)
          (keys_KAut keys) (rq_NonceS parsed))"

definition buildReauthenticationResponse ::
  "crypto \<Rightarrow> bytes \<Rightarrow> Packet \<Rightarrow> Keys \<Rightarrow> bytes \<Rightarrow> ReauthenticationRequest \<Rightarrow> (Packet \<times> Keys) res" where
  "buildReauthenticationResponse c ident request keys iv parsed =
     rbind (DeriveReauthenticationKeys c ident keys (rq_Counter parsed) (rq_NonceS parsed)) (\<lambda>nextKeys.
     rbind (buildReauthenticationResponsePacket c request keys iv parsed [CounterAttribute (rq_Counter parsed)])
       (\<lambda>response. Inr (response, nextKeys)))"

definition buildReauthenticationCounterTooSmallResponse ::
  "crypto \<Rightarrow> Packet \<Rightarrow> Keys \<Rightarrow> bytes \<Rightarrow> ReauthenticationRequest \<Rightarrow> Packet res" where
  "buildReauthenticationCounterTooSmallResponse c request keys iv parsed =
     buildReauthenticationResponsePacket c request keys iv parsed
       [CounterTooSmallAttribute, CounterAttribute (rq_Counter parsed)]"

definition BuildReauthenticationResponse ::
  "crypto \<Rightarrow> bytes \<Rightarrow> Packet \<Rightarrow> Keys \<Rightarrow> bytes \<Rightarrow> (Packet \<times> Keys) res" where
  "BuildReauthenticationResponse c ident request keys iv =
     rbind (ParseReauthenticationRequest c request keys) (\<lambda>parsed.
       buildReauthenticationResponse c ident request keys iv parsed)"

definition BuildReauthenticationCounterTooSmallResponse ::
  "crypto \<Rightarrow> Packet \<Rightarrow> Keys \<Rightarrow> bytes \<Rightarrow> Packet res" where
  "BuildReauthenticationCounterTooSmallResponse c request keys iv =
     rbind (ParseReauthenticationRequest c request keys) (\<lambda>parsed.
       buildReauthenticationCounterTooSmallResponse c request keys iv parsed)"

text \<open>The last counter is \<open>None\<close> when it is not known.\<close>

definition BuildReauthenticationResponseWithCounterCheck ::
  "crypto \<Rightarrow> bytes \<Rightarrow> Packet \<Rightarrow> Keys \<Rightarrow> bytes \<Rightarrow> u16 option \<Rightarrow> (Packet \<times> Keys \<times> bool) res" where
  "BuildReauthenticationResponseWithCounterCheck c ident request keys iv lastCounter =
     rbind (ParseReauthenticationRequest c request keys) (\<lambda>parsed.
       if (case lastCounter of None \<Rightarrow> False | Some l \<Rightarrow> rq_Counter parsed \<le> l)
       then rbind (buildReauthenticationCounterTooSmallResponse c request keys iv parsed) (\<lambda>response.
         Inr (response, keys, True))
       else rbind (buildReauthenticationResponse c ident request keys iv parsed) (\<lambda>(response, nextKeys).
         Inr (response, nextKeys, False)))"

section \<open>Lemmas: sealed responses\<close>

lemma MACAttribute_16: "length mac = 16 \<Longrightarrow> MACAttribute mac = FixedAttribute AttributeMAC mac"
  by (simp add: MACAttribute_def copy_at_def)

lemma MACAttribute_Nil: "MACAttribute [] = FixedAttribute AttributeMAC (replicate 16 0)"
  by (simp add: MACAttribute_def copy_at_def)

lemma eap_attr_enc_MAC:
  "length mac = 16 \<Longrightarrow> eap_attr_enc (FixedAttribute AttributeMAC mac) = [AttributeMAC, 5, 0, 0] @ mac"
  by (simp add: eap_attr_enc_def FixedAttribute_def go_byte_def)

lemma wire_MAC: "length mac = 16 \<Longrightarrow> wire (FixedAttribute AttributeMAC mac) = FixedAttribute AttributeMAC mac"
  by (simp add: FixedAttribute_def aligned_def)

definition aka_packet :: "u8 \<Rightarrow> u8 \<Rightarrow> u8 \<Rightarrow> u8 \<Rightarrow> Attribute list \<Rightarrow> Packet" where
  "aka_packet code ident ty st attrs =
     \<lparr>pkt_Code = code, pkt_Identifier = ident, pkt_Type = ty, pkt_Subtype = st, pkt_Attributes = attrs,
      pkt_Data = []\<rparr>"

lemma marshal_mac_packet:
  assumes "code = CodeRequest \<or> code = CodeResponse" and "ty = TypeAKA \<or> ty = TypeAKAPrime"
    and "list_all fits as" and "length mac = 16"
  shows "Packet_MarshalBinary (aka_packet code ident ty st (as @ [FixedAttribute AttributeMAC mac])) =
    (if length (concat (map eap_attr_enc (map wire as))) > 65507 then Inl (Err Eap_ErrInvalidPacket)
     else Inr (mac_packet code ident ty st (map wire as) mac))"
proof -
  let ?ab = "concat (map eap_attr_enc (map wire as))"
  have m: "MarshalAttributes (as @ [FixedAttribute AttributeMAC mac]) = Inr (?ab @ [AttributeMAC, 5, 0, 0] @ mac)"
    using assms(3,4) MarshalAttributes_fits [of "as @ [FixedAttribute AttributeMAC mac]"]
    by (simp add: wire_MAC eap_attr_enc_MAC)
  have g: "isEAPCode code" "code \<noteq> CodeSuccess" "code \<noteq> CodeFailure" "ty \<noteq> 0"
    using assms(1,2) by (auto simp: isEAPCode_def)
  have "length (ty # [st, 0, 0] @ ?ab @ [AttributeMAC, 5, 0, 0] @ mac) + 4 = 28 + length ?ab"
    using assms(4) by simp
  then show ?thesis
    using g m by (simp add: aka_packet_def Packet_MarshalBinary_def Let_def mac_packet_def)
qed

lemma marshal_fits:
  assumes "Packet_MarshalBinary (aka_packet code ident ty st attrs) = Inr raw"
    and "code = CodeRequest \<or> code = CodeResponse"
  shows "list_all fits attrs"
  using assms
  by (auto simp: aka_packet_def Packet_MarshalBinary_def Let_def rbind_eq_Inr_iff
      intro: MarshalAttributes_fitsD split: if_splits)

lemma calculatePacketMAC_length: "calculatePacketMAC c ty k raw extra = Inr mac \<Longrightarrow> length mac = 16"
  by (auto simp: calculatePacketMAC_def CalculateMAC_def CalculateAKAPrimeMAC_def calculateMAC_def
      rbind_eq_Inr_iff sub_def split: if_splits)

text \<open>A notification response has no attribute before its AT_MAC.\<close>

interpretation notification_response: mac_last CodeResponse ident ty SubtypeNotification "[]" for ident ty
  by unfold_locales simp_all

text \<open>A sealed packet that travels over the wire arrives with its attributes and a checksum the
  receiver accepts under the same key and extra data.\<close>

lemma sealResponse_arrives:
  assumes code: "code = CodeRequest \<or> code = CodeResponse" and ty: "ty = TypeAKA \<or> ty = TypeAKAPrime"
    and no_mac: "\<forall>a \<in> set as. attr_Type a \<noteq> AttributeMAC"
    and s: "sealResponse c (aka_packet code ident ty st (as @ [MACAttribute []])) kAut extra = Inr p"
  obtains mac raw where "length mac = 16" "list_all fits as"
    "p = aka_packet code ident ty st (as @ [FixedAttribute AttributeMAC mac])"
    "Packet_MarshalBinary p = Inr raw"
    "ParsePacket raw = Inr (aka_packet code ident ty st (map wire as @ [FixedAttribute AttributeMAC mac]))"
    "Packet_MarshalBinary (aka_packet code ident ty st (map wire as @ [FixedAttribute AttributeMAC mac])) = Inr raw"
    "verifyPacketMAC c ty kAut raw extra = Inr ()"
proof -
  let ?z = "replicate 16 (0 :: u8)"
  let ?ws = "map wire as"
  let ?ab = "concat (map eap_attr_enc ?ws)"
  obtain raw0 mac where r: "Packet_MarshalBinary (aka_packet code ident ty st (as @ [MACAttribute []])) = Inr raw0"
    "calculatePacketMAC c ty kAut raw0 extra = Inr mac"
    "p = aka_packet code ident ty st (as @ [MACAttribute mac])"
    using s by (auto simp: sealResponse_def rbind_eq_Inr_iff aka_packet_def)
  have mac: "length mac = 16" by (rule calculatePacketMAC_length [OF r(2)])
  have fits: "list_all fits as" using marshal_fits [OF r(1) code] by simp
  have bound: "length ?ab \<le> 65507" and raw0: "raw0 = mac_packet code ident ty st ?ws ?z"
    using r(1) marshal_mac_packet [OF code ty fits, of ?z ident st]
    by (auto simp: MACAttribute_Nil split: if_splits)
  have al: "list_all aligned ?ws" using fits aligned_wire by (simp add: list_all_iff)
  have last: "mac_last ?ws"
    by (rule mac_last.intro [OF al _ bound]) (use no_mac in simp)
  have p: "p = aka_packet code ident ty st (as @ [FixedAttribute AttributeMAC mac])"
    using r(3) mac by (simp add: MACAttribute_16)
  have ww: "map wire ?ws = ?ws" using al by (rule map_wire_aligned)
  have raw: "Packet_MarshalBinary p = Inr (mac_packet code ident ty st ?ws mac)"
    using marshal_mac_packet [OF code ty fits mac] bound p by simp
  have raw': "Packet_MarshalBinary (aka_packet code ident ty st (?ws @ [FixedAttribute AttributeMAC mac])) =
      Inr (mac_packet code ident ty st ?ws mac)"
    using marshal_mac_packet [OF code ty _ mac, of ?ws ident st] al bound
    unfolding ww by (simp add: list_all_iff aligned_fits del: map_map)
  have wf: "eap_packet_wf (aka_packet code ident ty st (?ws @ [FixedAttribute AttributeMAC mac]))"
    using code ty al bound mac
    by (auto simp: eap_packet_wf_def aka_packet_def eap_attr_enc_MAC) (auto simp: FixedAttribute_def aligned_def)
  show thesis
  proof (rule that [OF mac fits p raw _ raw'])
    show "ParsePacket (mac_packet code ident ty st ?ws mac) =
        Inr (aka_packet code ident ty st (?ws @ [FixedAttribute AttributeMAC mac]))"
      by (rule eap_packet.dec_enc [OF wf raw'])
    show "verifyPacketMAC c ty kAut (mac_packet code ident ty st ?ws mac) extra = Inr ()"
      using r(2) mac_last.verify_mac_packet_iff [OF last mac] by (simp add: raw0)
  qed
qed

section \<open>Lemmas: reauthentication\<close>

lemma fixedValueExact_length: "fixedValueExact n a = Inr v \<Longrightarrow> length v = n"
  by (auto simp: fixedValueExact_def Let_def rbind_eq_Inr_iff sub_def split: if_splits)

lemma NonceSFromAttributes_length: "NonceSFromAttributes attrs = Inr (Some nonce) \<Longrightarrow> length nonce = 16"
  by (auto simp: NonceSFromAttributes_def valueFromAttributes_def NonceSValue_def rbind_eq_Inr_iff
      intro: fixedValueExact_length split: option.splits)

lemma ParseReauthenticationRequest_D:
  assumes "ParseReauthenticationRequest c request keys = Inr parsed"
  shows "pkt_Type request = 0 \<or> pkt_Type request = TypeAKA \<or> pkt_Type request = TypeAKAPrime"
    and "validateReauthenticationMethod (pkt_Type request) keys = Inr ()"
    and "\<exists>attrs. NonceSFromAttributes attrs = Inr (Some (rq_NonceS parsed))"
proof -
  show "pkt_Type request = 0 \<or> pkt_Type request = TypeAKA \<or> pkt_Type request = TypeAKAPrime"
    "validateReauthenticationMethod (pkt_Type request) keys = Inr ()"
    using assms
    by (auto simp: ParseReauthenticationRequest_def isAKAType_def rbind_eq_Inr_iff split: if_splits)
  show "\<exists>attrs. NonceSFromAttributes attrs = Inr (Some (rq_NonceS parsed))"
    using assms unfolding ParseReauthenticationRequest_def
    by (simp add: rbind_eq_Inr_iff split: if_splits option.splits) (elim exE conjE, hypsubst, auto)
qed

lemma ParseReauthenticationRequest_nonce:
  "ParseReauthenticationRequest c request keys = Inr parsed \<Longrightarrow> length (rq_NonceS parsed) = 16"
  using ParseReauthenticationRequest_D(3) NonceSFromAttributes_length by blast

lemma validateReauthenticationMethod_0:
  "validateReauthenticationMethod TypeAKA keys = validateReauthenticationMethod 0 keys"
  by (simp add: validateReauthenticationMethod_def)

text \<open>The two contents of the encrypted part of a reauthentication response.\<close>

definition counter_attrs :: "bool \<Rightarrow> u16 \<Rightarrow> Attribute list" where
  "counter_attrs small ctr = (if small then [CounterTooSmallAttribute] else []) @ [CounterAttribute ctr]"

lemma wire_CounterTooSmall [simp]: "wire CounterTooSmallAttribute = CounterTooSmallAttribute"
  by (simp add: CounterTooSmallAttribute_def FixedAttribute_def aligned_def)

lemma wire_ResultInd [simp]: "wire ResultIndAttribute = ResultIndAttribute"
  by (simp add: ResultIndAttribute_def FixedAttribute_def aligned_def)

lemma wire_IV: "length iv = 16 \<Longrightarrow> wire (IVAttribute iv) = IVAttribute iv"
  by (simp add: IVAttribute_def FixedAttribute_def aligned_def)

lemma wire_counter_attrs: "map wire (counter_attrs small ctr) = counter_attrs small ctr"
  by (simp add: counter_attrs_def CounterAttribute_def)

lemma counter_attrs_values:
  "CounterFromAttributes (counter_attrs small ctr) = Inr (Some ctr)"
  "CounterTooSmallFromAttributes (counter_attrs small ctr) = Inr small"
  "IdentityStateFromAttributes (counter_attrs small ctr) = Inr \<lparr>eis_NextPseudonym = [], eis_NextReauthID = []\<rparr>"
proof -
  have t: "attr_Type CounterTooSmallAttribute = 20" "attr_Type (CounterAttribute ctr) = 19"
    by (simp_all add: CounterTooSmallAttribute_def CounterAttribute_def)
  have v: "CounterValue (CounterAttribute ctr) = Inr ctr" "CounterTooSmallValue CounterTooSmallAttribute = Inr ()"
    by (simp_all add: CounterValue_def CounterAttribute_def directUint16Value_wire CounterTooSmallValue_def
        CounterTooSmallAttribute_def FixedAttribute_def)
  show "CounterFromAttributes (counter_attrs small ctr) = Inr (Some ctr)"
    "CounterTooSmallFromAttributes (counter_attrs small ctr) = Inr small"
    "IdentityStateFromAttributes (counter_attrs small ctr) = Inr \<lparr>eis_NextPseudonym = [], eis_NextReauthID = []\<rparr>"
    by (simp_all add: counter_attrs_def t v CounterFromAttributes_def CounterTooSmallFromAttributes_def
        valueFromAttributes_def FindSingleAttribute_def IdentityStateFromAttributes_def)
qed

lemma counter_attrs_ok:
  "list_all fits (counter_attrs small ctr)" "counter_attrs small ctr \<noteq> []"
  "\<forall>a \<in> set (counter_attrs small ctr). attr_Type a \<noteq> AttributePadding"
  by (simp_all add: counter_attrs_def CounterTooSmallAttribute_def CounterAttribute_def)

lemma EncryptAttributes_D: "EncryptAttributes c k iv attrs = Inr e \<Longrightarrow> length k = 16 \<and> length iv = 16"
  by (auto simp: EncryptAttributes_def encryptedDataBlock_def rbind_eq_Inr_iff split: if_splits)

lemma response_attrs_types:
  "attr_Type (IVAttribute iv) = AttributeIV" "attr_Type ResultIndAttribute = AttributeResultInd"
  by (simp_all add: IVAttribute_def ResultIndAttribute_def)

lemma IVValue_wire: "length iv = 16 \<Longrightarrow> IVValue (IVAttribute iv) = Inr iv"
  using fixedValueExact_wire [of iv 16 AttributeIV] wire_IV [of iv]
  by (simp add: IVValue_def IVAttribute_def)

text \<open>What the server reads from a sealed reauthentication response.\<close>

lemma reauth_response_read:
  assumes c: "crypto_ok c" and e: "EncryptAttributes c (keys_KEncr keys) iv (counter_attrs small ctr) = Inr enc"
    and p: "p = aka_packet CodeResponse ident ty SubtypeReauthentication
      ([IVAttribute iv, enc] @ (if ind then [ResultIndAttribute] else []) @ [FixedAttribute AttributeMAC mac])"
    and ty: "ty = TypeAKA \<or> ty = TypeAKAPrime" and n: "length nonce = 16"
    and v: "validateReauthenticationMethod ty keys = Inr ()"
    and raw: "Packet_MarshalBinary p = Inr raw" "verifyPacketMAC c ty (keys_KAut keys) raw nonce = Inr ()"
  shows "ParseReauthenticationResponse c p keys nonce =
    Inr \<lparr>rp_Counter = ctr, rp_CounterTooSmall = small, rp_ResultInd = ind,
         rp_IdentityState = \<lparr>eis_NextPseudonym = [], eis_NextReauthID = []\<rparr>,
         rp_EncryptedAttributes = counter_attrs small ctr\<rparr>"
proof -
  have k: "length (keys_KEncr keys) = 16" "length iv = 16" using EncryptAttributes_D [OF e] by auto
  note d = DecryptAttributes_EncryptAttributes [OF c k counter_attrs_ok e]
  have attrs: "pkt_Attributes p = [IVAttribute iv, enc] @ (if ind then [ResultIndAttribute] else [])
      @ [FixedAttribute AttributeMAC mac]" "pkt_Type p = ty" "pkt_Code p = CodeResponse"
    "pkt_Subtype p = SubtypeReauthentication"
    by (simp_all add: p aka_packet_def)
  have "DecryptPacketEncryptedAttributes c p keys = Inr (Some (counter_attrs small ctr))"
    using d k
    by (simp add: DecryptPacketEncryptedAttributes_def attrs FindSingleAttribute_def response_attrs_types
        DecryptEncryptedAttributes_def IVValue_wire wire_counter_attrs)
  moreover have "ResultIndFromAttributes (pkt_Attributes p) = Inr ind"
    using d(3)
    by (simp add: ResultIndFromAttributes_def attrs FindSingleAttribute_def response_attrs_types)
      (simp add: ResultIndValue_def ResultIndAttribute_def FixedAttribute_def)
  ultimately show ?thesis
    using ty n v raw
    by (simp add: ParseReauthenticationResponse_def attrs isAKAType_def counter_attrs_values)
qed

lemma buildReauthenticationResponsePacket_accepted:
  assumes c: "crypto_ok c" and parsed: "ParseReauthenticationRequest c request keys = Inr parsed"
    and b: "buildReauthenticationResponsePacket c request keys iv parsed
      (counter_attrs small (rq_Counter parsed)) = Inr response"
  shows "\<exists>raw p. Packet_MarshalBinary response = Inr raw \<and> ParsePacket raw = Inr p \<and>
    ParseReauthenticationResponse c p keys (rq_NonceS parsed) =
      Inr \<lparr>rp_Counter = rq_Counter parsed, rp_CounterTooSmall = small,
           rp_ResultInd = (FindAttribute (pkt_Attributes request) AttributeResultInd \<noteq> None),
           rp_IdentityState = \<lparr>eis_NextPseudonym = [], eis_NextReauthID = []\<rparr>,
           rp_EncryptedAttributes = counter_attrs small (rq_Counter parsed)\<rparr>"
proof -
  let ?ind = "FindAttribute (pkt_Attributes request) AttributeResultInd \<noteq> None"
  let ?ty = "eapTypeOf request"
  obtain enc where e: "EncryptAttributes c (keys_KEncr keys) iv (counter_attrs small (rq_Counter parsed)) = Inr enc"
    using b by (auto simp: buildReauthenticationResponsePacket_def rbind_eq_Inr_iff)
  have k: "length (keys_KEncr keys) = 16" "length iv = 16" using EncryptAttributes_D [OF e] by auto
  note d = DecryptAttributes_EncryptAttributes [OF c k counter_attrs_ok e]
  define as where "as = [IVAttribute iv, enc] @ (if ?ind then [ResultIndAttribute] else [])"
  have ty: "?ty = TypeAKA \<or> ?ty = TypeAKAPrime" and v: "validateReauthenticationMethod ?ty keys = Inr ()"
    using ParseReauthenticationRequest_D [OF parsed] by (auto simp: validateReauthenticationMethod_0)
  have s: "sealResponse c (aka_packet CodeResponse (pkt_Identifier request) ?ty SubtypeReauthentication
      (as @ [MACAttribute []])) (keys_KAut keys) (rq_NonceS parsed) = Inr response"
    using b e by (simp add: buildReauthenticationResponsePacket_def response_to_def aka_packet_def as_def)
  have nm: "\<forall>a \<in> set as. attr_Type a \<noteq> AttributeMAC" and ww: "map wire as = as"
    using d k by (auto simp: as_def response_attrs_types wire_IV)
  let ?p = "\<lambda>mac. aka_packet CodeResponse (pkt_Identifier request) ?ty SubtypeReauthentication
    (as @ [FixedAttribute AttributeMAC mac])"
  obtain mac raw where "Packet_MarshalBinary response = Inr raw" and "ParsePacket raw = Inr (?p mac)"
    and m: "Packet_MarshalBinary (?p mac) = Inr raw"
      "verifyPacketMAC c ?ty (keys_KAut keys) raw (rq_NonceS parsed) = Inr ()"
    by (rule sealResponse_arrives [OF _ ty nm s]) (auto simp: ww)
  moreover have "ParseReauthenticationResponse c (?p mac) keys (rq_NonceS parsed) =
      Inr \<lparr>rp_Counter = rq_Counter parsed, rp_CounterTooSmall = small, rp_ResultInd = ?ind,
           rp_IdentityState = \<lparr>eis_NextPseudonym = [], eis_NextReauthID = []\<rparr>,
           rp_EncryptedAttributes = counter_attrs small (rq_Counter parsed)\<rparr>"
    by (rule reauth_response_read [OF c e _ ty ParseReauthenticationRequest_nonce [OF parsed] v m])
      (simp add: as_def)
  ultimately show ?thesis by blast
qed

text \<open>Building the response does not fail when the keys have the lengths of their method.\<close>

lemma sealResponse_returns:
  assumes c: "crypto_ok c" and code: "code = CodeRequest \<or> code = CodeResponse"
    and ty: "ty = TypeAKA \<or> ty = TypeAKAPrime" and no_mac: "\<forall>a \<in> set as. attr_Type a \<noteq> AttributeMAC"
    and fits: "list_all fits as" and bound: "length (concat (map eap_attr_enc (map wire as))) \<le> 65507"
    and key: "length kAut = (if ty = TypeAKAPrime then KeyLengthAKAPrimeKAut else KeyLengthKAut)"
  shows "\<exists>p. sealResponse c (aka_packet code ident ty st (as @ [MACAttribute []])) kAut extra = Inr p"
proof -
  let ?raw = "mac_packet code ident ty st (map wire as) (replicate 16 0)"
  have al: "list_all aligned (map wire as)" using fits aligned_wire by (simp add: list_all_iff)
  have last: "mac_last (map wire as)"
    by (rule mac_last.intro [OF al _ bound]) (use no_mac in simp)
  have "packetWithZeroedMAC ?raw = Inr ?raw"
    by (rule mac_last.zeroed_mac_packet [OF last]) simp
  then have "\<exists>mac. calculatePacketMAC c ty kAut ?raw extra = Inr mac"
    using c key ty
    by (auto simp: calculatePacketMAC_def CalculateMAC_def CalculateAKAPrimeMAC_def calculateMAC_def
        split: if_splits)
  moreover have "Packet_MarshalBinary (aka_packet code ident ty st (as @ [MACAttribute []])) = Inr ?raw"
    using marshal_mac_packet [OF code ty fits, of "replicate 16 0" ident st] bound by (simp add: MACAttribute_Nil)
  ultimately show ?thesis by (auto simp: sealResponse_def aka_packet_def)
qed

lemma EncryptAttributes_counter_length:
  assumes "crypto_ok c" "EncryptAttributes c k iv (counter_attrs small ctr) = Inr enc"
  shows "length (attr_Data enc) = 18"
proof -
  have k: "length k = 16" "length iv = 16" using EncryptAttributes_D [OF assms(2)] by auto
  have "MarshalAttributes (counter_attrs small ctr) =
      Inr ((if small then [20, 1, 0, 0] else []) @ [19, 1] @ PutUint16 ctr)"
    by (simp add: MarshalAttributes_def Attribute_MarshalBinary_def counter_attrs_def CounterAttribute_def
        CounterTooSmallAttribute_def FixedAttribute_def uint16Attribute_def paddingFor4_def go_byte_def)
  moreover define pt where "pt = (if small then [20, 1, 0, 0, 19, 1] @ PutUint16 ctr @ [6, 2] @ replicate 6 0
    else [19, 1] @ PutUint16 ctr @ [6, 3] @ replicate 10 0)"
  ultimately have "enc = EncrDataAttribute (cbc_encrypt c k iv pt)"
    using assms(2) k
    by (cases small) (auto simp: EncryptAttributes_def encryptedDataBlock_def aes_NewCipher_def aes_key_ok_def
        encryptedPaddingAttribute_def Attribute_MarshalBinary_def paddingFor4_def go_byte_def Let_def)
  moreover have "length pt = 16" by (simp add: pt_def)
  ultimately show ?thesis
    using cbc_encrypt_length [OF assms(1) k(2), of pt k] by (simp add: EncrDataAttribute_def FixedAttribute_def)
qed

lemma buildReauthenticationResponsePacket_returns:
  assumes c: "crypto_ok c" and k: "length (keys_KEncr keys) = 16" "length iv = 16"
    and ty: "isAKAType (pkt_Type request)"
    and key: "length (keys_KAut keys) =
      (if pkt_Type request = TypeAKAPrime then KeyLengthAKAPrimeKAut else KeyLengthKAut)"
  shows "\<exists>p. buildReauthenticationResponsePacket c request keys iv parsed (counter_attrs small ctr) = Inr p"
proof -
  obtain enc where e: "EncryptAttributes c (keys_KEncr keys) iv (counter_attrs small ctr) = Inr enc"
    using EncryptAttributes_plaintext [OF k counter_attrs_ok(1,3), of small ctr c] by metis
  note d = DecryptAttributes_EncryptAttributes [OF c k counter_attrs_ok e]
  let ?as = "[IVAttribute iv, enc] @
    (if FindAttribute (pkt_Attributes request) AttributeResultInd \<noteq> None then [ResultIndAttribute] else [])"
  have l: "length (attr_Data enc) = 18" "length (attr_Data (IVAttribute iv)) = 18"
    "length (attr_Data ResultIndAttribute) = 2"
    using EncryptAttributes_counter_length [OF c e] k(2)
    by (simp_all add: IVAttribute_def ResultIndAttribute_def FixedAttribute_def)
  have "\<exists>p. sealResponse c (aka_packet CodeResponse (pkt_Identifier request) (eapTypeOf request)
      SubtypeReauthentication (?as @ [MACAttribute []])) (keys_KAut keys) (rq_NonceS parsed) = Inr p"
  proof (rule sealResponse_returns [OF c])
    show "\<forall>a \<in> set ?as. attr_Type a \<noteq> AttributeMAC" using d(3) by (auto simp: response_attrs_types)
    show "list_all fits ?as" using l by (auto simp: fits_def)
    show "length (concat (map eap_attr_enc (map wire ?as))) \<le> 65507"
      using d(2) l k(2) by (auto simp: wire_IV eap_attr_enc_def)
  qed (use ty key in \<open>auto simp: isAKAType_def\<close>)
  then show ?thesis
    using e by (simp add: buildReauthenticationResponsePacket_def response_to_def aka_packet_def)
qed

section \<open>Lemmas: synchronization failure\<close>

lemma kdfValues_filter: "kdfValues (challengeKDFAttributes attrs) = kdfValues attrs"
  unfolding challengeKDFAttributes_def by (induction attrs) simp_all

lemma ParseAUTS_16:
  "length auts = 14 \<Longrightarrow>
   ParseAUTS auts = Inr \<lparr>auts_SQNMSXorAK = take 6 auts, auts_MACS = drop 6 auts\<rparr>"
  by (simp add: ParseAUTS_def)

lemma filter_enc_length:
  "length (concat (map f (filter P xs))) \<le> length (concat (map f xs))"
  by (induction xs) auto

text \<open>An EAP-AKA packet on the wire: type 0 becomes EAP-AKA and the attributes are padded.\<close>

lemma packet_arrives:
  assumes "code = CodeRequest \<or> code = CodeResponse" and "isAKAType ty" and "list_all fits attrs"
    and "length (concat (map eap_attr_enc (map wire attrs))) \<le> 65527"
  shows "rbind (Packet_MarshalBinary (aka_packet code ident ty st attrs)) ParsePacket =
    Inr (aka_packet code ident (if ty = 0 then TypeAKA else ty) st (map wire attrs))"
proof -
  let ?p = "aka_packet code ident (if ty = 0 then TypeAKA else ty) st (map wire attrs)"
  have al: "list_all aligned (map wire attrs)" using assms(3) aligned_wire by (simp add: list_all_iff)
  have wf: "eap_packet_wf ?p"
    using assms(1,2,4) al unfolding eap_packet_wf_def aka_packet_def isAKAType_def by auto
  have "Packet_MarshalBinary (aka_packet code ident ty st attrs) = Packet_MarshalBinary ?p"
    using MarshalAttributes_fits [OF assms(3)] MarshalAttributes_aligned [OF al]
    by (simp add: aka_packet_def Packet_MarshalBinary_def Let_def)
  then show ?thesis using eap_packet.roundtrip [OF wf] by simp
qed

lemma sync_failure_classified:
  assumes "length auts = 14" "ty = TypeAKA \<or> ty = TypeAKAPrime" "kdfValues ks = Inr vs"
    "ty = TypeAKAPrime \<longrightarrow> vs \<noteq> []" "\<forall>a \<in> set ks. attr_Type a = AttributeKDF"
  shows "ClassifyAKARecoveryPacket
      (aka_packet CodeResponse ident ty SubtypeSynchronizationFailure (wire (AUTSAttribute auts) # ks)) =
    Inr (Some ((recoveryDecision AKARecoveryResync)\<lparr>rd_SyncFailure := True,
      rd_SyncInfo := Some \<lparr>sfi_AUTS = auts,
        sfi_AUTSFields = \<lparr>auts_SQNMSXorAK = take 6 auts, auts_MACS = drop 6 auts\<rparr>, sfi_KDFValues = vs\<rparr>\<rparr>))"
proof -
  have t: "attr_Type (AUTSAttribute auts) = AttributeAUTS" by (simp add: AUTSAttribute_def)
  have "filter (\<lambda>a. attr_Type a = AttributeAUTS) ks = []" using assms(5) by (auto simp: filter_empty_conv)
  then have "FindSingleAttribute (wire (AUTSAttribute auts) # ks) AttributeAUTS = Inr (Some (wire (AUTSAttribute auts)))"
    by (simp add: FindSingleAttribute_def t)
  moreover have "AUTSValue (wire (AUTSAttribute auts)) = Inr auts" by (rule auts.val_wire [OF assms(1)])
  ultimately show ?thesis
    using assms(2-4)
    by (auto simp: ClassifyAKARecoveryPacket_def ParseSynchronizationFailureResponse_def aka_packet_def
        isAKAType_def ParseAUTS_16 [OF assms(1)] t)
qed

section \<open>Properties\<close>

text \<open>C25: A reauthentication response built by the client is accepted by the server under the same keys
  and nonce after it travelled over the wire, carries the counter of the request, says that the
  counter is too small exactly when the counter is at most the last one known, and repeats the result
  indication iff it was requested; when the counter is too small the keys stay as they are.\<close>

theorem reauthentication_response_accepted:
  assumes c: "crypto_ok c"
    and parsed: "ParseReauthenticationRequest c request keys = Inr parsed"
    and built: "BuildReauthenticationResponseWithCounterCheck c ident request keys iv lastCounter
      = Inr (response, nextKeys, tooSmall)"
  shows "tooSmall = (\<exists>l. lastCounter = Some l \<and> rq_Counter parsed \<le> l) \<and> (tooSmall \<longrightarrow> nextKeys = keys) \<and>
    (\<exists>raw p r. Packet_MarshalBinary response = Inr raw \<and> ParsePacket raw = Inr p \<and>
      ParseReauthenticationResponse c p keys (rq_NonceS parsed) = Inr r \<and>
      rp_Counter r = rq_Counter parsed \<and> rp_CounterTooSmall r = tooSmall \<and>
      rp_ResultInd r = (FindAttribute (pkt_Attributes request) AttributeResultInd \<noteq> None))"
proof -
  have t: "tooSmall = (\<exists>l. lastCounter = Some l \<and> rq_Counter parsed \<le> l)" and k: "tooSmall \<longrightarrow> nextKeys = keys"
    and b: "buildReauthenticationResponsePacket c request keys iv parsed
      (counter_attrs tooSmall (rq_Counter parsed)) = Inr response"
    using built parsed
    by (auto simp: BuildReauthenticationResponseWithCounterCheck_def buildReauthenticationResponse_def
        buildReauthenticationCounterTooSmallResponse_def counter_attrs_def rbind_eq_Inr_iff
        split: if_splits option.splits)
  obtain raw p where "Packet_MarshalBinary response = Inr raw" "ParsePacket raw = Inr p"
    and r: "ParseReauthenticationResponse c p keys (rq_NonceS parsed) =
      Inr \<lparr>rp_Counter = rq_Counter parsed, rp_CounterTooSmall = tooSmall,
           rp_ResultInd = (FindAttribute (pkt_Attributes request) AttributeResultInd \<noteq> None),
           rp_IdentityState = \<lparr>eis_NextPseudonym = [], eis_NextReauthID = []\<rparr>,
           rp_EncryptedAttributes = counter_attrs tooSmall (rq_Counter parsed)\<rparr>" (is "_ = Inr ?r")
    using buildReauthenticationResponsePacket_accepted [OF c parsed b] by blast
  then have "\<exists>raw p r. Packet_MarshalBinary response = Inr raw \<and> ParsePacket raw = Inr p \<and>
      ParseReauthenticationResponse c p keys (rq_NonceS parsed) = Inr r \<and>
      rp_Counter r = rq_Counter parsed \<and> rp_CounterTooSmall r = tooSmall \<and>
      rp_ResultInd r = (FindAttribute (pkt_Attributes request) AttributeResultInd \<noteq> None)"
    by (intro exI [of _ raw] exI [of _ p] exI [of _ ?r]) simp
  with t k show ?thesis by blast
qed

definition demo_eap_keys :: Keys where
  "demo_eap_keys = NoKeys\<lparr>keys_MK := replicate 20 1, keys_KEncr := replicate 16 2, keys_KAut := replicate 16 3\<rparr>"

text \<open>A request with counter 5, encrypted and authenticated with the demonstration primitives.\<close>

definition demo_reauth_request :: Packet where
  "demo_reauth_request =
     aka_packet CodeRequest 9 TypeAKA SubtypeReauthentication
       [IVAttribute (replicate 16 4),
        EncrDataAttribute [30, 12, 11, 8, 24, 8, 11, 11, 9, 9, 9, 9, 9, 9, 9, 9,
          31, 17, 20, 21, 37, 21, 20, 20, 22, 18, 16, 16, 16, 16, 16, 16],
        MACAttribute (replicate 16 234)]"

definition demo_reauth_parsed :: ReauthenticationRequest where
  "demo_reauth_parsed =
     \<lparr>rq_Counter = 5, rq_NonceS = replicate 16 6,
      rq_IdentityState = \<lparr>eis_NextPseudonym = [], eis_NextReauthID = []\<rparr>,
      rq_EncryptedAttributes = [CounterAttribute 5, NonceSAttribute (replicate 16 6)]\<rparr>"

lemma demo_reauth_parses:
  "ParseReauthenticationRequest demo_crypto demo_reauth_request demo_eap_keys = Inr demo_reauth_parsed"
proof -
  let ?ct = "[30, 12, 11, 8, 24, 8, 11, 11, 9, 9, 9, 9, 9, 9, 9, 9,
    31, 17, 20, 21, 37, 21, 20, 20, 22, 18, 16, 16, 16, 16, 16, 16] :: bytes"
  let ?as = "[IVAttribute (replicate 16 4), EncrDataAttribute ?ct]"
  let ?mac = "replicate 16 234 :: bytes"
  let ?raw = "mac_packet CodeRequest 9 TypeAKA SubtypeReauthentication ?as ?mac"
  have al: "list_all aligned ?as"
    by (simp add: IVAttribute_def EncrDataAttribute_def FixedAttribute_def aligned_def)
  have last: "mac_last ?as"
    by (rule mac_last.intro [OF al]) (simp_all add: IVAttribute_def EncrDataAttribute_def eap_attr_enc_def
        FixedAttribute_def)
  have req: "demo_reauth_request =
      aka_packet CodeRequest 9 TypeAKA SubtypeReauthentication (?as @ [FixedAttribute AttributeMAC ?mac])"
    by (simp add: demo_reauth_request_def MACAttribute_16)
  have raw: "Packet_MarshalBinary demo_reauth_request = Inr ?raw"
    using marshal_mac_packet [of CodeRequest TypeAKA ?as ?mac 9 SubtypeReauthentication] al
      mac_last.as_bound [OF last] map_wire_aligned [OF al]
    by (simp add: req list_all_iff aligned_fits)
  have "calculatePacketMAC demo_crypto TypeAKA (replicate 16 3)
      (mac_packet CodeRequest 9 TypeAKA SubtypeReauthentication ?as (replicate 16 0)) [] = Inr ?mac"
    by code_simp
  then have v: "verifyChallengeMAC demo_crypto TypeAKA (keys_KAut demo_eap_keys) ?raw = Inr ()"
    using mac_last.verify_mac_packet_iff [OF last, of ?mac]
    by (simp add: verifyChallengeMAC_def demo_eap_keys_def)
  let ?attrs = "[CounterAttribute 5, NonceSAttribute (replicate 16 6)]"
  let ?pad = "\<lparr>attr_Type = AttributePadding, attr_Data = replicate 6 0\<rparr>"
  have pt: "cbc_decrypt demo_crypto (replicate 16 2) (replicate 16 4) ?ct = concat (map eap_attr_enc (?attrs @ [?pad]))"
    by code_simp
  have "list_all aligned (?attrs @ [?pad])"
    by (simp add: CounterAttribute_def uint16Attribute_def NonceSAttribute_def FixedAttribute_def aligned_def)
  then have "ParseAttributes (cbc_decrypt demo_crypto (replicate 16 2) (replicate 16 4) ?ct) = Inr (?attrs @ [?pad])"
    unfolding pt ParseAttributes_def by (rule eap_attr.many_enc)
  moreover have "stripEncryptedPadding (?attrs @ [?pad]) = Inr ?attrs"
    using stripEncryptedPadding_last [of ?attrs 8] by (simp add: CounterAttribute_def NonceSAttribute_def)
  ultimately have "DecryptAttributes demo_crypto (replicate 16 2) (replicate 16 4) (EncrDataAttribute ?ct) = Inr ?attrs"
    by (simp add: DecryptAttributes_def EncrDataAttribute_def EncrDataValue_def FixedAttribute_def
        encryptedDataBlock_def aes_NewCipher_def aes_key_ok_def)
  then have "DecryptPacketEncryptedAttributes demo_crypto demo_reauth_request demo_eap_keys = Inr (Some ?attrs)"
    by (simp add: DecryptPacketEncryptedAttributes_def req aka_packet_def FindSingleAttribute_def
        response_attrs_types DecryptEncryptedAttributes_def IVValue_wire demo_eap_keys_def)
      (simp add: EncrDataAttribute_def)
  moreover have "CounterFromAttributes ?attrs = Inr (Some 5)" "NonceSFromAttributes ?attrs = Inr (Some (replicate 16 6))"
    "IdentityStateFromAttributes ?attrs = Inr \<lparr>eis_NextPseudonym = [], eis_NextReauthID = []\<rparr>"
    by code_simp+
  ultimately show ?thesis
    using raw v
    by (simp add: ParseReauthenticationRequest_def demo_reauth_parsed_def isAKAType_def
        validateReauthenticationMethod_def demo_eap_keys_def NoKeys_def) (simp add: req aka_packet_def)
qed

theorem reauthentication_response_accepted_witness:
  "\<exists>response raw p r.
     BuildReauthenticationResponseWithCounterCheck demo_crypto [105] demo_reauth_request demo_eap_keys
       (replicate 16 1) (Some 7) = Inr (response, demo_eap_keys, True) \<and>
     Packet_MarshalBinary response = Inr raw \<and> ParsePacket raw = Inr p \<and>
     ParseReauthenticationResponse demo_crypto p demo_eap_keys (replicate 16 6) = Inr r \<and>
     rp_Counter r = 5 \<and> rp_CounterTooSmall r"
proof -
  obtain response where
    "buildReauthenticationResponsePacket demo_crypto demo_reauth_request demo_eap_keys (replicate 16 1)
       demo_reauth_parsed (counter_attrs True 5) = Inr response"
    using buildReauthenticationResponsePacket_returns [OF demo_crypto_ok, of demo_eap_keys "replicate 16 1"
        demo_reauth_request demo_reauth_parsed True 5]
    by (auto simp: demo_eap_keys_def demo_reauth_request_def aka_packet_def isAKAType_def)
  then have b: "BuildReauthenticationResponseWithCounterCheck demo_crypto [105] demo_reauth_request demo_eap_keys
       (replicate 16 1) (Some 7) = Inr (response, demo_eap_keys, True)"
    by (simp add: BuildReauthenticationResponseWithCounterCheck_def demo_reauth_parses demo_reauth_parsed_def
        buildReauthenticationCounterTooSmallResponse_def counter_attrs_def)
  show ?thesis
    using b reauthentication_response_accepted [OF demo_crypto_ok demo_reauth_parses b]
    by (auto simp: demo_reauth_parsed_def)
qed

text \<open>The synchronization failure response to a challenge that arrived over the wire brings the AUTS of
  the SIM, and the offered key derivation functions for EAP-AKA', to the server, which decides to
  resynchronize with them.\<close>

theorem synchronization_failure_resyncs:
  assumes req: "list_all aligned (pkt_Attributes request)" "pkt_Code request = CodeRequest"
      "pkt_Subtype request = SubtypeChallenge" "isAKAType (pkt_Type request)"
    and auts: "length auts = AUTSLength"
    and small: "length (concat (map eap_attr_enc (pkt_Attributes request))) \<le> 60000"
    and kdfs: "kdfValues (pkt_Attributes request) = Inr vs" "pkt_Type request = TypeAKAPrime \<longrightarrow> vs \<noteq> []"
  shows "rbind (rbind (rbind (BuildSynchronizationFailureResponse request auts) Packet_MarshalBinary) ParsePacket)
      ClassifyAKARecoveryPacket =
    Inr (Some ((recoveryDecision AKARecoveryResync)\<lparr>rd_SyncFailure := True,
      rd_SyncInfo := Some \<lparr>sfi_AUTS = auts,
        sfi_AUTSFields = \<lparr>auts_SQNMSXorAK = take 6 auts, auts_MACS = drop 6 auts\<rparr>,
        sfi_KDFValues = (if pkt_Type request = TypeAKAPrime then vs else [])\<rparr>\<rparr>))"
proof -
  let ?ks = "if pkt_Type request = TypeAKAPrime then challengeKDFAttributes (pkt_Attributes request) else []"
  let ?attrs = "AUTSAttribute auts # ?ks"
  let ?ty = "eapTypeOf request"
  have b: "BuildSynchronizationFailureResponse request auts =
      Inr (aka_packet CodeResponse (pkt_Identifier request) (pkt_Type request) SubtypeSynchronizationFailure ?attrs)"
    using req auts by (simp add: BuildSynchronizationFailureResponse_def response_to_def aka_packet_def)
  have kal: "list_all aligned ?ks" and kt: "\<forall>a \<in> set ?ks. attr_Type a = AttributeKDF"
    using req(1) by (auto simp: challengeKDFAttributes_def list_all_iff)
  have ws: "map wire ?attrs = wire (AUTSAttribute auts) # ?ks"
    using map_wire_aligned [OF kal] by simp
  have fit: "list_all fits ?attrs"
    using kal aligned_fits auts by (auto simp: list_all_iff AUTSAttribute_def)
  have "length (eap_attr_enc (wire (AUTSAttribute auts))) = 20"
    using auts by (simp add: AUTSAttribute_def wire_FixedAttribute eap_attr_enc_def paddingFor4_def)
  moreover have "length (concat (map eap_attr_enc ?ks)) \<le> 60000"
    using small filter_enc_length [of eap_attr_enc "\<lambda>a. attr_Type a = AttributeKDF" "pkt_Attributes request"]
    by (simp add: challengeKDFAttributes_def)
  ultimately have len: "length (concat (map eap_attr_enc (map wire ?attrs))) \<le> 65527"
    unfolding ws by simp
  have kv: "kdfValues ?ks = Inr (if pkt_Type request = TypeAKAPrime then vs else [])"
    using kdfs(1) by (simp add: kdfValues_filter)
  have ty: "?ty = TypeAKA \<or> ?ty = TypeAKAPrime" using req(4) by (auto simp: isAKAType_def)
  have "ClassifyAKARecoveryPacket (aka_packet CodeResponse (pkt_Identifier request) ?ty
      SubtypeSynchronizationFailure (map wire ?attrs)) =
    Inr (Some ((recoveryDecision AKARecoveryResync)\<lparr>rd_SyncFailure := True,
      rd_SyncInfo := Some \<lparr>sfi_AUTS = auts,
        sfi_AUTSFields = \<lparr>auts_SQNMSXorAK = take 6 auts, auts_MACS = drop 6 auts\<rparr>,
        sfi_KDFValues = (if pkt_Type request = TypeAKAPrime then vs else [])\<rparr>\<rparr>))"
    unfolding ws by (rule sync_failure_classified [OF auts ty kv _ kt]) (use kdfs(2) in \<open>auto split: if_splits\<close>)
  then show ?thesis
    unfolding b using packet_arrives [OF _ req(4) fit len, of CodeResponse] by simp
qed

theorem synchronization_failure_resyncs_witness:
  "let request = aka_packet CodeRequest 3 TypeAKAPrime SubtypeChallenge [KDFAttribute 1, AUTNAttribute (replicate 16 8)] in
   rbind (rbind (rbind (BuildSynchronizationFailureResponse request (replicate 14 9)) Packet_MarshalBinary) ParsePacket)
     ClassifyAKARecoveryPacket =
   Inr (Some ((recoveryDecision AKARecoveryResync)\<lparr>rd_SyncFailure := True,
     rd_SyncInfo := Some \<lparr>sfi_AUTS = replicate 14 9,
       sfi_AUTSFields = \<lparr>auts_SQNMSXorAK = replicate 6 9, auts_MACS = replicate 8 9\<rparr>, sfi_KDFValues = [1]\<rparr>\<rparr>))"
  using synchronization_failure_resyncs [of
      "aka_packet CodeRequest 3 TypeAKAPrime SubtypeChallenge [KDFAttribute 1, AUTNAttribute (replicate 16 8)]"
      "replicate 14 9" "[1]"]
  by (simp add: aka_packet_def aligned_def KDFAttribute_def AUTNAttribute_def uint16Attribute_def
      FixedAttribute_def eap_attr_enc_def KDFValue_def PutUint16_def isAKAType_def u16_of_def)

end
