(* ===== verification/IKE_Auth.thy ===== *)
theory IKE_Auth
  imports Go_IO IKE_CreateChild EAP_Exchange
begin

text \<open>
  \<^verbatim>\<open>engine/swu/ikev2/auth.go\<close> and the AUTH computation of \<^verbatim>\<open>auth_payload.go\<close>: the IKE_AUTH exchanges of the
  initiator, with EAP-AKA and EAP-AKA' inside.  Every function that talks to the responder is an action.  An error
  of \<^verbatim>\<open>fmt.Errorf("text: %w", err)\<close> is \<^verbatim>\<open>err\<close>; the partial result the code returns beside an error,
  which its caller drops, is not kept.  The clones of the code copy values and are identities.  A request is
  protected with an initialisation vector that was drawn before, so that \<^verbatim>\<open>ProtectMessage\<close> reads no random octets
  itself.
\<close>

section \<open>Data\<close>

abbreviation (input) maxAKAControlFollowups :: nat where "maxAKAControlFollowups \<equiv> 3"
abbreviation (input) maxFullAuthEAPExchanges :: nat where "maxFullAuthEAPExchanges \<equiv> 8"

record AuthConfig =
  ac_Transport :: "transport option"
  ac_Init :: InitResult
  ac_Keys :: IKEKeys
  ac_InitiatorID :: Identity
  ac_EAPIdentity :: bytes
  ac_EAPPseudonym :: bytes
  ac_EAPReauthIdentity :: bytes
  ac_ChildSA :: SecurityAssociation
  ac_ChildSPI :: bytes
  ac_TSi :: TrafficSelectors
  ac_TSr :: TrafficSelectors
  ac_Configuration :: Configuration
  ac_Random :: "reader option"
  ac_InitialIV :: bytes
  ac_EAPIdentityIV :: bytes
  ac_InitialMessageID :: u32

record AuthResult =
  ar_InitialRequestBytes :: bytes
  ar_InitialResponseBytes :: bytes
  ar_IdentityRequestBytes :: bytes
  ar_IdentityResponseBytes :: bytes
  ar_InitialResponseInner :: "Payload list"
  ar_IdentityResponseInner :: "Payload list"
  ar_EAPRequest :: "Packet option"
  ar_EAPAfterIdentity :: "Packet option"
  ar_EAPIdentityUsed :: bytes
  ar_IdentityTranscript :: "bytes list"
  ar_NextMessageID :: u32

record AKAChallengeConfig =
  kc_Transport :: "transport option"
  kc_Init :: InitResult
  kc_Keys :: IKEKeys
  kc_SIM :: "aka_provider option"
  kc_EAPKeys :: Keys
  kc_Identity :: bytes
  kc_Request :: Packet
  kc_IdentityTranscript :: "bytes list"
  kc_ChildSPI :: bytes
  kc_TSi :: TrafficSelectors
  kc_TSr :: TrafficSelectors
  kc_MessageID :: u32
  kc_Random :: "reader option"
  kc_IV :: bytes
  kc_EAPReauthIV :: bytes
  kc_EAPReauthCounter :: u16
  kc_EAPReauthCounterOK :: bool

record AKAChallengeResult =
  kr_RequestBytes :: bytes
  kr_ResponseBytes :: bytes
  kr_ResponseInner :: "Payload list"
  kr_EAPResponse :: Packet
  kr_EAPNext :: "Packet option"
  kr_EAPKeys :: Keys
  kr_EAPEncryptedAttributes :: "Attribute list"
  kr_EAPNextPseudonym :: bytes
  kr_EAPNextReauthID :: bytes
  kr_EAPReauthenticated :: bool
  kr_EAPReauthCounter :: u16
  kr_EAPReauthCounterTooSmall :: bool
  kr_EAPNotifications :: "Packet list"
  kr_EAPClientError :: bool
  kr_ChildSA :: "ChildSAResult option"
  kr_SyncFailure :: bool
  kr_AuthFailure :: bool
  kr_KDFNegotiated :: bool
  kr_NextMessageID :: u32
  kr_FollowupRequestBytes :: "bytes list"
  kr_FollowupResponseBytes :: "bytes list"
  kr_FinalResponseBytes :: bytes
  kr_FinalResponseInner :: "Payload list"

record FullAuthConfig =
  fa_Transport :: "transport option"
  fa_Init :: InitResult
  fa_Keys :: IKEKeys
  fa_SIM :: "aka_provider option"
  fa_EAPKeys :: Keys
  fa_InitiatorID :: Identity
  fa_EAPIdentity :: bytes
  fa_EAPPseudonym :: bytes
  fa_EAPReauthIdentity :: bytes
  fa_EAPReauthCounter :: u16
  fa_EAPReauthCounterOK :: bool
  fa_ChildSA :: SecurityAssociation
  fa_ChildSPI :: bytes
  fa_TSi :: TrafficSelectors
  fa_TSr :: TrafficSelectors
  fa_Configuration :: Configuration
  fa_Random :: "reader option"
  fa_InitialIV :: bytes
  fa_EAPIdentityIV :: bytes
  fa_EAPReauthIV :: bytes
  fa_InitialMessageID :: u32

record EAPIdentityExchange =
  ie_Request :: Packet
  ie_Response :: Packet
  ie_Identity :: bytes
  ie_RequestBytes :: bytes
  ie_ResponseBytes :: bytes
  ie_ResponseInner :: "Payload list"
  ie_EAPNext :: "Packet option"
  ie_Transcript :: "bytes list"
  ie_NextMessageID :: u32

record FullAuthResult =
  fx_Auth :: AuthResult
  fx_IdentityExchanges :: "EAPIdentityExchange list"
  fx_AKAChallenges :: "AKAChallengeResult list"
  fx_ChildSA :: "ChildSAResult option"
  fx_EAPKeys :: Keys
  fx_EAPLast :: "Packet option"
  fx_EAPNotifications :: "Packet list"
  fx_EAPClientError :: bool
  fx_EAPNextPseudonym :: bytes
  fx_EAPNextReauthID :: bytes
  fx_EAPReauthenticated :: bool
  fx_EAPReauthCounter :: u16
  fx_EAPReauthCounterTooSmall :: bool
  fx_SyncFailure :: bool
  fx_AuthFailure :: bool
  fx_KDFNegotiations :: int
  fx_NextMessageID :: u32
  fx_FinalResponseBytes :: bytes
  fx_FinalResponseInner :: "Payload list"

record akaControlFollowups =
  fu_RequestBytes :: "bytes list"
  fu_ResponseBytes :: "bytes list"
  fu_FinalInner :: "Payload list"
  fu_NextMessageID :: u32
  fu_Notifications :: "Packet list"
  fu_ClientError :: bool

record identityExchangeConfig =
  xc_Transport :: "transport option"
  xc_Init :: InitResult
  xc_Keys :: IKEKeys
  xc_Random :: "reader option"
  xc_Request :: Packet
  xc_RequestRaw :: bytes
  xc_Identity :: bytes
  xc_MessageID :: u32

record eapIdentityOptions =
  eo_PermanentIdentity :: bytes
  eo_Pseudonym :: bytes
  eo_ReauthIdentity :: bytes

section \<open>Pieces\<close>

definition authHeader :: "InitResult \<Rightarrow> u32 \<Rightarrow> bool \<Rightarrow> Header" where
  "authHeader init messageID fromInitiator =
     \<lparr>hdr_InitiatorSPI = ir_InitiatorSPI init, hdr_ResponderSPI = ir_ResponderSPI init, hdr_NextPayload = 0,
      hdr_Version = 0, hdr_ExchangeType = ExchangeIKE_AUTH,
      hdr_Flags = (if fromInitiator then FlagInitiator else FlagResponse), hdr_MessageID = messageID, hdr_Length = 0\<rparr>"

definition unprotectAuthResponse ::
  "crypto \<Rightarrow> bytes \<Rightarrow> InitResult \<Rightarrow> IKEKeys \<Rightarrow> u32 \<Rightarrow> (Message \<times> Payload list) res" where
  "unprotectAuthResponse c raw init keys messageID =
     rbind (UnprotectMessage c raw keys False) (\<lambda>(msg, inner).
     let h = msg_Header msg in
     if hdr_InitiatorSPI h \<noteq> ir_InitiatorSPI init \<or> hdr_ResponderSPI h \<noteq> ir_ResponderSPI init \<or>
        hdr_ExchangeType h \<noteq> ExchangeIKE_AUTH \<or> hdr_MessageID h \<noteq> messageID \<or> hdr_Flags h AND FlagResponse = 0
     then Inl (Err ErrInvalidAuthResponse)
     else case FirstNotifyError inner of
         Some e \<Rightarrow> Inl (Wrap ErrInvalidAuthResponse e)
       | None \<Rightarrow> Inr (msg, inner))"

fun firstEAPPacketWithRaw :: "Payload list \<Rightarrow> (Packet \<times> bytes) option res" where
  "firstEAPPacketWithRaw [] = Inr None"
| "firstEAPPacketWithRaw (p # ps) =
     (if pl_Type p \<noteq> PayloadEAP then firstEAPPacketWithRaw ps
      else rbind (ParsePacket (pl_Body p)) (\<lambda>pkt. Inr (Some (pkt, pl_Body p))))"

definition firstEAPPacket :: "Payload list \<Rightarrow> Packet option res" where
  "firstEAPPacket payloads = rbind (firstEAPPacketWithRaw payloads) (\<lambda>r. Inr (map_option fst r))"

definition hasPayload :: "Payload list \<Rightarrow> u8 \<Rightarrow> bool" where
  "hasPayload payloads payloadType = list_ex (\<lambda>p. pl_Type p = payloadType) payloads"

definition firstIKEAuthPayload :: "Payload list \<Rightarrow> u8 \<Rightarrow> Payload option" where
  "firstIKEAuthPayload payloads payloadType = find (\<lambda>p. pl_Type p = payloadType) payloads"

definition firstIKEAuthIdentity :: "Payload list \<Rightarrow> u8 \<Rightarrow> Identity option res" where
  "firstIKEAuthIdentity payloads payloadType =
     (case firstIKEAuthPayload payloads payloadType of
        None \<Rightarrow> Inr None
      | Some p \<Rightarrow> rbind (ParseIdentity (pl_Body p)) (\<lambda>i. Inr (Some i)))"

definition authIV :: "reader \<Rightarrow> KeyMaterialProfile \<Rightarrow> bytes \<Rightarrow> bytes act" where
  "authIV rd profile override =
     (if length override > 0
      then (if int (length override) \<noteq> kmp_EncryptionBlockSize profile then afail (Err ErrInvalidAuthConfig)
            else areturn override)
      else read_random (\<lambda>rnd. RandomIV rnd profile) rd)"

definition eapReauthIV :: "reader \<Rightarrow> bytes \<Rightarrow> bytes act" where
  "eapReauthIV rd override =
     (if length override > 0
      then (if length override \<noteq> 16 then afail (Err ErrInvalidAuthConfig) else areturn override)
      else read_random (\<lambda>rnd. randomBytes rnd 16) rd)"

text \<open>One protected IKE_AUTH exchange: the same statements end every step of the code.\<close>

definition authExchange ::
  "crypto \<Rightarrow> reader \<Rightarrow> transport \<Rightarrow> InitResult \<Rightarrow> IKEKeys \<Rightarrow> u32 \<Rightarrow> Payload list \<Rightarrow> bytes \<Rightarrow> (bytes \<times> bytes \<times> Payload list) act" where
  "authExchange c rd tr init keys messageID payloads iv0 =
     abind (authIV rd (ik_Profile keys) iv0) (\<lambda>iv.
     abind (lift_res (ProtectMessage c (rd 0) (authHeader init messageID True) keys True payloads iv)) (\<lambda>(_, reqBytes).
     abind (ExchangeIKE tr reqBytes) (\<lambda>respBytes.
     abind (lift_res (unprotectAuthResponse c respBytes init keys messageID)) (\<lambda>(_, inner).
       areturn (reqBytes, respBytes, inner)))))"

definition childSAWithLocalSPI :: "SecurityAssociation \<Rightarrow> bytes \<Rightarrow> SecurityAssociation res" where
  "childSAWithLocalSPI sa localSPI =
     (let missing = (\<lambda>p. prop_ProtocolID p = ProtocolESP \<and> length (prop_SPI p) = 0) in
      if list_ex missing (sa_Proposals sa) \<and> length localSPI \<noteq> 4 then Inl (Err ErrInvalidAuthConfig)
      else Inr \<lparr>sa_Proposals = map (\<lambda>p. if missing p then p\<lparr>prop_SPI := localSPI\<rparr> else p) (sa_Proposals sa)\<rparr>)"

definition authOfferedChildSA :: "SecurityAssociation \<Rightarrow> bytes \<Rightarrow> SecurityAssociation res" where
  "authOfferedChildSA sa localSPI =
     (if length (sa_Proposals sa) = 0
      then (if length localSPI = 0 then Inr \<lparr>sa_Proposals = []\<rparr> else Inr (DefaultESPProposal localSPI))
      else childSAWithLocalSPI sa localSPI)"

definition firstConfiguration :: "Configuration \<Rightarrow> Configuration \<Rightarrow> Configuration" where
  "firstConfiguration val fallback =
     (if cfg_Type val \<noteq> 0 \<or> length (cfg_Attributes val) > 0 then val else fallback)"

definition trafficSelectorsOrSWuAny :: "TrafficSelectors \<Rightarrow> TrafficSelectors" where
  "trafficSelectorsOrSWuAny ts = (if length (tss_Selectors ts) = 0 then SWuAnyTrafficSelectors else ts)"

definition authKeys :: "IKEKeys \<Rightarrow> InitResult \<Rightarrow> IKEKeys" where
  "authKeys keys init = (if RequiredLength (ik_Profile keys) = 0 then ir_Keys init else keys)"

abbreviation (input) reader_of :: "reader option \<Rightarrow> reader \<Rightarrow> reader" where
  "reader_of r randReader \<equiv> (case r of Some rd \<Rightarrow> rd | None \<Rightarrow> randReader)"

section \<open>Identities\<close>

definition authPermanentIdentity :: "bytes \<Rightarrow> Identity \<Rightarrow> bytes" where
  "authPermanentIdentity ident initiator =
     (let out = TrimSpace ident in if out = [] then TrimSpace (id_Data initiator) else out)"

fun firstIKEAuthNonEmpty :: "bytes list \<Rightarrow> bytes" where
  "firstIKEAuthNonEmpty [] = []"
| "firstIKEAuthNonEmpty (v # vs) = (if TrimSpace v \<noteq> [] then TrimSpace v else firstIKEAuthNonEmpty vs)"

definition hasEAPIdentityRequestAttribute :: "Packet \<Rightarrow> u8 \<Rightarrow> bool" where
  "hasEAPIdentityRequestAttribute request typ = (FindAttribute (pkt_Attributes request) typ \<noteq> None)"

definition identityForEAPRequest :: "Packet \<Rightarrow> eapIdentityOptions \<Rightarrow> bytes" where
  "identityForEAPRequest request opts =
     (let permanent = TrimSpace (eo_PermanentIdentity opts);
          pseudonym = TrimSpace (eo_Pseudonym opts);
          reauth = TrimSpace (eo_ReauthIdentity opts) in
      if hasEAPIdentityRequestAttribute request AttributePermanentIDReq then permanent
      else if hasEAPIdentityRequestAttribute request AttributeFullAuthIDReq
      then firstIKEAuthNonEmpty [pseudonym, permanent]
      else if hasEAPIdentityRequestAttribute request AttributeAnyIDReq
      then firstIKEAuthNonEmpty [reauth, pseudonym, permanent]
      else permanent)"

section \<open>The first exchange and the EAP identity\<close>

definition BuildIKEAuthInitialPayloads :: "reader \<Rightarrow> AuthConfig \<Rightarrow> Payload list act" where
  "BuildIKEAuthInitialPayloads randReader cfg =
     abind (lift_res (IdentityPayload PayloadIDi (ac_InitiatorID cfg))) (\<lambda>idPayload.
     abind (if length (sa_Proposals (ac_ChildSA cfg)) = 0
            then abind (if length (ac_ChildSPI cfg) = 0
                        then read_random (\<lambda>rnd. randomBytes rnd 4) (reader_of (ac_Random cfg) randReader)
                        else areturn (ac_ChildSPI cfg)) (\<lambda>spi.
              if length spi \<noteq> 4 then afail (Err ErrInvalidAuthConfig) else areturn (DefaultESPProposal spi))
            else lift_res (childSAWithLocalSPI (ac_ChildSA cfg) (ac_ChildSPI cfg))) (\<lambda>childSA.
     abind (lift_res (SecurityAssociationPayload childSA)) (\<lambda>saPayload.
     abind (lift_res (TrafficSelectorsPayload PayloadTSi
       (if length (tss_Selectors (ac_TSi cfg)) = 0 then SWuAnyTrafficSelectors else ac_TSi cfg))) (\<lambda>tsiPayload.
     abind (lift_res (TrafficSelectorsPayload PayloadTSr
       (if length (tss_Selectors (ac_TSr cfg)) = 0 then SWuAnyTrafficSelectors else ac_TSr cfg))) (\<lambda>tsrPayload.
     abind (lift_res (ConfigurationPayload (firstConfiguration (ac_Configuration cfg) SWuConfigurationRequest))) (\<lambda>cfgPayload.
       areturn [idPayload, saPayload, tsiPayload, tsrPayload, cfgPayload]))))))"

definition RunIKE_AUTH_EAPIdentity :: "crypto \<Rightarrow> reader \<Rightarrow> AuthConfig \<Rightarrow> AuthResult act" where
  "RunIKE_AUTH_EAPIdentity c randReader cfg =
     (case ac_Transport cfg of
        None \<Rightarrow> afail (Err ErrInvalidAuthConfig)
      | Some tr \<Rightarrow>
          let init = ac_Init cfg; keys = authKeys (ac_Keys cfg) init; rd = reader_of (ac_Random cfg) randReader in
          abind (lift_res (validateKeySet keys)) (\<lambda>_.
          if ir_InitiatorSPI init = 0 \<or> ir_ResponderSPI init = 0 then afail (Err ErrInvalidAuthConfig)
          else
            let messageID = (if ac_InitialMessageID cfg = 0 then 1 else ac_InitialMessageID cfg) in
            abind (BuildIKEAuthInitialPayloads randReader cfg) (\<lambda>initialInner.
            abind (authExchange c rd tr init keys messageID initialInner (ac_InitialIV cfg))
              (\<lambda>(initialReqBytes, initialRespBytes, initialInnerResp).
            abind (lift_res (firstEAPPacketWithRaw initialInnerResp)) (\<lambda>found.
            let out = \<lparr>ar_InitialRequestBytes = initialReqBytes, ar_InitialResponseBytes = initialRespBytes,
                  ar_IdentityRequestBytes = [], ar_IdentityResponseBytes = [], ar_InitialResponseInner = initialInnerResp,
                  ar_IdentityResponseInner = [], ar_EAPRequest = None, ar_EAPAfterIdentity = None,
                  ar_EAPIdentityUsed = [], ar_IdentityTranscript = [], ar_NextMessageID = messageID + 1\<rparr> in
            case found of
              None \<Rightarrow> areturn out
            | Some (eapReq, eapReqRaw) \<Rightarrow>
                let out = out\<lparr>ar_EAPRequest := Some eapReq\<rparr> in
                if pkt_Code eapReq \<noteq> CodeRequest \<or> pkt_Subtype eapReq \<noteq> SubtypeIdentity then areturn out
                else
                  let ident = identityForEAPRequest eapReq
                        \<lparr>eo_PermanentIdentity = authPermanentIdentity (ac_EAPIdentity cfg) (ac_InitiatorID cfg),
                         eo_Pseudonym = ac_EAPPseudonym cfg, eo_ReauthIdentity = ac_EAPReauthIdentity cfg\<rparr> in
                  if ident = [] then afail (Err ErrInvalidAuthConfig)
                  else
                    abind (lift_res (BuildIdentityResponse ident eapReq)) (\<lambda>identityResponse.
                    abind (lift_res (Packet_MarshalBinary identityResponse)) (\<lambda>identityPacket.
                    abind (authExchange c rd tr init keys (messageID + 1) [EAPPayload identityPacket] (ac_EAPIdentityIV cfg))
                      (\<lambda>(identityReqBytes, identityRespBytes, identityInnerResp).
                    abind (lift_res (firstEAPPacket identityInnerResp)) (\<lambda>nextEAP.
                      areturn (out\<lparr>ar_IdentityRequestBytes := identityReqBytes,
                        ar_IdentityResponseBytes := identityRespBytes, ar_IdentityResponseInner := identityInnerResp,
                        ar_EAPIdentityUsed := ident, ar_IdentityTranscript := [eapReqRaw, identityPacket],
                        ar_NextMessageID := messageID + 2, ar_EAPAfterIdentity := nextEAP\<rparr>))))))))))"

definition runIKEAuthIdentityExchange ::
  "crypto \<Rightarrow> reader \<Rightarrow> identityExchangeConfig \<Rightarrow> EAPIdentityExchange act" where
  "runIKEAuthIdentityExchange c randReader cfg =
     (case xc_Transport cfg of
        None \<Rightarrow> afail (Err ErrInvalidAuthConfig)
      | Some tr \<Rightarrow>
          if xc_MessageID cfg = 0 then afail (Err ErrInvalidAuthConfig)
          else if pkt_Code (xc_Request cfg) \<noteq> CodeRequest \<or> pkt_Subtype (xc_Request cfg) \<noteq> SubtypeIdentity
          then afail (Err ErrInvalidAuthConfig)
          else
            let ident = TrimSpace (xc_Identity cfg) in
            if ident = [] then afail (Err ErrInvalidAuthConfig)
            else
              let keys = authKeys (xc_Keys cfg) (xc_Init cfg) in
              abind (lift_res (validateKeySet keys)) (\<lambda>_.
              abind (lift_res (if length (xc_RequestRaw cfg) = 0 then Packet_MarshalBinary (xc_Request cfg)
                               else Inr (xc_RequestRaw cfg))) (\<lambda>requestRaw.
              abind (lift_res (BuildIdentityResponse ident (xc_Request cfg))) (\<lambda>response.
              abind (lift_res (Packet_MarshalBinary response)) (\<lambda>raw.
              abind (authExchange c (reader_of (xc_Random cfg) randReader) tr (xc_Init cfg) keys (xc_MessageID cfg)
                [EAPPayload raw] []) (\<lambda>(reqBytes, respBytes, inner).
              abind (lift_res (firstEAPPacket inner)) (\<lambda>nextEAP.
                areturn \<lparr>ie_Request = xc_Request cfg, ie_Response = response, ie_Identity = ident,
                  ie_RequestBytes = reqBytes, ie_ResponseBytes = respBytes, ie_ResponseInner = inner,
                  ie_EAPNext = nextEAP, ie_Transcript = [requestRaw, raw], ie_NextMessageID = xc_MessageID cfg + 1\<rparr>)))))))"

section \<open>Challenges\<close>

definition DecryptChallengeEncryptedAttributes :: "crypto \<Rightarrow> Packet \<Rightarrow> Keys \<Rightarrow> Attribute list option res" where
  "DecryptChallengeEncryptedAttributes c request keys = DecryptPacketEncryptedAttributes c request keys"

definition buildAKAControlResponse :: "crypto \<Rightarrow> Packet \<Rightarrow> Keys \<Rightarrow> Packet option res" where
  "buildAKAControlResponse c request keys =
     (case BuildNotificationResponse c request of
        Inl e \<Rightarrow>
          if errors_Is e ErrInvalidKeyMaterial \<and> length (keys_KAut keys) > 0
          then BuildAuthenticatedNotificationResponse c request (keys_KAut keys)
          else Inl e
      | Inr (Some response) \<Rightarrow> Inr (Some response)
      | Inr None \<Rightarrow>
          if pkt_Code request = CodeRequest \<and> pkt_Subtype request \<noteq> SubtypeChallenge \<and>
            pkt_Subtype request \<noteq> SubtypeIdentity
          then rbind (BuildClientErrorResponse request 0) (\<lambda>response. Inr (Some response))
          else Inr None)"

text \<open>The loop of \<^verbatim>\<open>runAKAControlFollowups\<close>, with the number of iterations left, and the check behind it.\<close>

fun controlFollowups_loop ::
  "nat \<Rightarrow> crypto \<Rightarrow> reader \<Rightarrow> transport \<Rightarrow> InitResult \<Rightarrow> IKEKeys \<Rightarrow> Keys \<Rightarrow> akaControlFollowups \<Rightarrow> akaControlFollowups act" where
  "controlFollowups_loop 0 c rd tr init keys eapKeys out =
     abind (lift_res (firstEAPPacket (fu_FinalInner out))) (\<lambda>next'.
       case next' of
         None \<Rightarrow> areturn out
       | Some pkt \<Rightarrow>
           abind (lift_res (buildAKAControlResponse c pkt eapKeys)) (\<lambda>handled.
             if handled \<noteq> None then afail (Err ErrInvalidAuthResponse) else areturn out))"
| "controlFollowups_loop (Suc n) c rd tr init keys eapKeys out =
     abind (lift_res (firstEAPPacket (fu_FinalInner out))) (\<lambda>next'.
       case next' of
         None \<Rightarrow> areturn out
       | Some pkt \<Rightarrow>
           abind (lift_res (buildAKAControlResponse c pkt eapKeys)) (\<lambda>handled.
             case handled of
               None \<Rightarrow> areturn out
             | Some response \<Rightarrow>
                 abind (lift_res (Packet_MarshalBinary response)) (\<lambda>raw.
                 abind (authExchange c rd tr init keys (fu_NextMessageID out) [EAPPayload raw] [])
                   (\<lambda>(reqBytes, respBytes, inner).
                   controlFollowups_loop n c rd tr init keys eapKeys
                     (out\<lparr>fu_Notifications := fu_Notifications out @
                             (if pkt_Subtype response = SubtypeNotification then [pkt] else []),
                         fu_ClientError := (fu_ClientError out \<or> pkt_Subtype response = SubtypeClientError),
                         fu_RequestBytes := fu_RequestBytes out @ [reqBytes],
                         fu_ResponseBytes := fu_ResponseBytes out @ [respBytes],
                         fu_FinalInner := inner, fu_NextMessageID := fu_NextMessageID out + 1\<rparr>)))))"

definition runAKAControlFollowups ::
  "crypto \<Rightarrow> reader \<Rightarrow> AKAChallengeConfig \<Rightarrow> transport \<Rightarrow> IKEKeys \<Rightarrow> Payload list \<Rightarrow> u32 \<Rightarrow> Keys \<Rightarrow> akaControlFollowups act" where
  "runAKAControlFollowups c randReader cfg tr keys initialInner messageID eapKeys =
     controlFollowups_loop maxAKAControlFollowups c (reader_of (kc_Random cfg) randReader) tr (kc_Init cfg) keys eapKeys
       \<lparr>fu_RequestBytes = [], fu_ResponseBytes = [], fu_FinalInner = initialInner, fu_NextMessageID = messageID,
        fu_Notifications = [], fu_ClientError = False\<rparr>"

text \<open>The local variables of \<^verbatim>\<open>runIKE_AUTH_AKAChallenge\<close> that the choice of the response sets.\<close>

record akaAnswer =
  aa_eapResp :: Packet
  aa_eapKeys :: Keys
  aa_syncFailure :: bool
  aa_authFailure :: bool
  aa_kdfNegotiated :: bool
  aa_clientError :: bool
  aa_reauthenticated :: bool
  aa_reauthCounter :: u16
  aa_reauthCounterTooSmall :: bool
  aa_notifications :: "Packet list"
  aa_encryptedAttributes :: "Attribute list"
  aa_identityState :: EncryptedIdentityState

definition akaAnswerOf :: "Packet \<Rightarrow> akaAnswer" where
  "akaAnswerOf response =
     \<lparr>aa_eapResp = response, aa_eapKeys = NoKeys, aa_syncFailure = False, aa_authFailure = False,
      aa_kdfNegotiated = False, aa_clientError = False, aa_reauthenticated = False, aa_reauthCounter = 0,
      aa_reauthCounterTooSmall = False, aa_notifications = [], aa_encryptedAttributes = [],
      aa_identityState = \<lparr>eis_NextPseudonym = [], eis_NextReauthID = []\<rparr>\<rparr>"

definition answerReauthentication :: "crypto \<Rightarrow> reader \<Rightarrow> AKAChallengeConfig \<Rightarrow> akaAnswer act" where
  "answerReauthentication c rd cfg =
     abind (lift_res (ParseReauthenticationRequest c (kc_Request cfg) (kc_EAPKeys cfg))) (\<lambda>parsed.
     abind (eapReauthIV rd (kc_EAPReauthIV cfg)) (\<lambda>eapIV.
       let finish = (\<lambda>response. (akaAnswerOf response)
             \<lparr>aa_reauthCounter := rq_Counter parsed, aa_encryptedAttributes := rq_EncryptedAttributes parsed,
              aa_identityState := rq_IdentityState parsed\<rparr>) in
       if kc_EAPReauthCounterOK cfg \<and> rq_Counter parsed \<le> kc_EAPReauthCounter cfg
       then abind (lift_res (BuildReauthenticationCounterTooSmallResponse c (kc_Request cfg) (kc_EAPKeys cfg) eapIV))
         (\<lambda>response. areturn ((finish response)\<lparr>aa_eapKeys := kc_EAPKeys cfg, aa_reauthCounterTooSmall := True\<rparr>))
       else
         let ident = TrimSpace (kc_Identity cfg) in
         if ident = [] then afail (Err ErrInvalidAuthConfig)
         else abind (lift_res (BuildReauthenticationResponse c ident (kc_Request cfg) (kc_EAPKeys cfg) eapIV))
           (\<lambda>(response, keys). areturn ((finish response)\<lparr>aa_eapKeys := keys, aa_reauthenticated := True\<rparr>))))"

definition answerChallenge :: "crypto \<Rightarrow> AKAChallengeConfig \<Rightarrow> akaAnswer res" where
  "answerChallenge c cfg =
     (case kc_SIM cfg of
        None \<Rightarrow> Inl (Err ErrInvalidAuthConfig)
      | Some provider \<Rightarrow>
          (case BuildChallengeResponseFromProvider c (kc_Identity cfg) (kc_Request cfg) (Some provider)
             (kc_IdentityTranscript cfg) of
             Inl err \<Rightarrow>
               if TrimSpace (kc_Identity cfg) = [] \<and> errors_Is err ErrInvalidKeyMaterial
               then Inl (Err ErrInvalidAuthConfig) else Inl err
           | Inr challenge \<Rightarrow>
               let answer = (akaAnswerOf (cr_Response challenge))\<lparr>aa_eapKeys := cr_Keys challenge,
                     aa_syncFailure := cr_SyncFailure challenge, aa_authFailure := cr_AuthFailure challenge\<rparr> in
               if cr_SyncFailure challenge \<or> cr_AuthFailure challenge then Inr answer
               else
                 rbind (DecryptChallengeEncryptedAttributes c (kc_Request cfg) (cr_Keys challenge)) (\<lambda>r.
                 let attrs = (case r of None \<Rightarrow> [] | Some a \<Rightarrow> a) in
                 if length attrs = 0 then Inr answer
                 else rbind (IdentityStateFromAttributes attrs) (\<lambda>identityState.
                   Inr (answer\<lparr>aa_encryptedAttributes := attrs, aa_identityState := identityState\<rparr>)))))"

definition answerAKARequest :: "crypto \<Rightarrow> reader \<Rightarrow> AKAChallengeConfig \<Rightarrow> akaAnswer act" where
  "answerAKARequest c rd cfg =
     (let request = kc_Request cfg in
      if pkt_Code request = CodeRequest \<and> pkt_Subtype request = SubtypeReauthentication \<and>
        length (keys_KAut (kc_EAPKeys cfg)) > 0
      then answerReauthentication c rd cfg
      else
        abind (lift_res (buildAKAControlResponse c request (kc_EAPKeys cfg))) (\<lambda>handled.
          case handled of
            Some response \<Rightarrow>
              areturn ((akaAnswerOf response)\<lparr>aa_clientError := (pkt_Subtype response = SubtypeClientError),
                aa_notifications := (if pkt_Subtype response = SubtypeNotification then [request] else [])\<rparr>)
          | None \<Rightarrow>
              abind (lift_res (BuildAKAPrimeKDFNegotiationResponse request)) (\<lambda>negotiated.
                case negotiated of
                  Some response \<Rightarrow> areturn ((akaAnswerOf response)\<lparr>aa_kdfNegotiated := True\<rparr>)
                | None \<Rightarrow> lift_res (answerChallenge c cfg))))"

definition parseChildSAOffered ::
  "crypto \<Rightarrow> InitResult \<Rightarrow> Payload list \<Rightarrow> bytes \<Rightarrow> u32 \<Rightarrow> SecurityAssociation \<Rightarrow> TrafficSelectors \<Rightarrow> TrafficSelectors \<Rightarrow>
   ChildSAResult res" where
  "parseChildSAOffered c init inner localSPI nextMessageID offered offeredTSi offeredTSr =
     rbind (parseChildSAResultWithNonces c init inner localSPI (ir_NonceI init) (ir_NonceR init)
       (if length (sa_Proposals offered) > 0 then Some offered else None) offeredTSi offeredTSr) (\<lambda>child.
       Inr (child\<lparr>cs_NextMessageID := nextMessageID\<rparr>))"

definition runIKE_AUTH_AKAChallenge ::
  "crypto \<Rightarrow> reader \<Rightarrow> AKAChallengeConfig \<Rightarrow> SecurityAssociation \<Rightarrow> TrafficSelectors \<Rightarrow> TrafficSelectors \<Rightarrow>
   AKAChallengeResult act" where
  "runIKE_AUTH_AKAChallenge c randReader cfg offeredChildSA offeredTSi offeredTSr =
     (case kc_Transport cfg of
        None \<Rightarrow> afail (Err ErrInvalidAuthConfig)
      | Some tr \<Rightarrow>
          let keys = authKeys (kc_Keys cfg) (kc_Init cfg); rd = reader_of (kc_Random cfg) randReader in
          abind (lift_res (validateKeySet keys)) (\<lambda>_.
          if kc_MessageID cfg = 0 then afail (Err ErrInvalidAuthConfig)
          else
            abind (answerAKARequest c rd cfg) (\<lambda>answer.
            abind (lift_res (Packet_MarshalBinary (aa_eapResp answer))) (\<lambda>eapRaw.
            abind (authExchange c rd tr (kc_Init cfg) keys (kc_MessageID cfg) [EAPPayload eapRaw] (kc_IV cfg))
              (\<lambda>(reqBytes, respBytes, inner).
            let resultEAPKeys = (if length (keys_KAut (aa_eapKeys answer)) = 0 then kc_EAPKeys cfg else aa_eapKeys answer) in
            abind (runAKAControlFollowups c randReader cfg tr keys inner (kc_MessageID cfg + 1) resultEAPKeys) (\<lambda>followups.
            let followed = (length (fu_ResponseBytes followups) > 0);
                finalRespBytes = (if followed then last (fu_ResponseBytes followups) else respBytes);
                finalInner = (if followed then fu_FinalInner followups else inner);
                nextMessageID = (if followed then fu_NextMessageID followups else kc_MessageID cfg + 1) in
            abind (lift_res (firstEAPPacket finalInner)) (\<lambda>nextEAP.
            abind (lift_res (if hasPayload finalInner PayloadSA
                then rbind (parseChildSAOffered c (kc_Init cfg) finalInner (kc_ChildSPI cfg) nextMessageID offeredChildSA
                  offeredTSi offeredTSr) (\<lambda>child. Inr (Some child))
                else Inr None)) (\<lambda>child.
              areturn \<lparr>kr_RequestBytes = reqBytes, kr_ResponseBytes = respBytes, kr_ResponseInner = inner,
                kr_EAPResponse = aa_eapResp answer, kr_EAPNext = nextEAP, kr_EAPKeys = resultEAPKeys,
                kr_EAPEncryptedAttributes = aa_encryptedAttributes answer,
                kr_EAPNextPseudonym = eis_NextPseudonym (aa_identityState answer),
                kr_EAPNextReauthID = eis_NextReauthID (aa_identityState answer),
                kr_EAPReauthenticated = aa_reauthenticated answer, kr_EAPReauthCounter = aa_reauthCounter answer,
                kr_EAPReauthCounterTooSmall = aa_reauthCounterTooSmall answer,
                kr_EAPNotifications = aa_notifications answer @ fu_Notifications followups,
                kr_EAPClientError = (aa_clientError answer \<or> followed \<and> fu_ClientError followups),
                kr_ChildSA = child, kr_SyncFailure = aa_syncFailure answer, kr_AuthFailure = aa_authFailure answer,
                kr_KDFNegotiated = aa_kdfNegotiated answer, kr_NextMessageID = nextMessageID,
                kr_FollowupRequestBytes = fu_RequestBytes followups, kr_FollowupResponseBytes = fu_ResponseBytes followups,
                kr_FinalResponseBytes = finalRespBytes, kr_FinalResponseInner = finalInner\<rparr>)))))))) "

definition RunIKE_AUTH_AKAChallenge :: "crypto \<Rightarrow> reader \<Rightarrow> AKAChallengeConfig \<Rightarrow> AKAChallengeResult act" where
  "RunIKE_AUTH_AKAChallenge c randReader cfg =
     runIKE_AUTH_AKAChallenge c randReader cfg
       (if length (kc_ChildSPI cfg) > 0 then DefaultESPProposal (kc_ChildSPI cfg) else \<lparr>sa_Proposals = []\<rparr>)
       (kc_TSi cfg) (kc_TSr cfg)"

section \<open>AUTH\<close>

definition eapSharedKeyAUTH :: "crypto \<Rightarrow> InitResult \<Rightarrow> IKEKeys \<Rightarrow> Identity \<Rightarrow> bytes \<Rightarrow> bool \<Rightarrow> bytes res" where
  "eapSharedKeyAUTH c init keys ident msk initiator =
     (if length msk = 0 then Inl (Err ErrInvalidAuthenticationPayload)
      else
        rbind (Identity_MarshalBinary ident) (\<lambda>idBody.
        let (prfKey, message, nonce) = (if initiator then (ik_SKPi keys, ir_RequestBytes init, ir_NonceR init)
              else (ik_SKPr keys, ir_ResponseBytes init, ir_NonceI init)) in
        rbind (PRF c (kmp_PRF (ik_Profile keys)) prfKey idBody) (\<lambda>macID.
        rbind (PRF c (kmp_PRF (ik_Profile keys)) msk (str ''Key Pad for IKEv2'')) (\<lambda>sharedKey.
          PRF c (kmp_PRF (ik_Profile keys)) sharedKey (message @ nonce @ macID)))))"

definition verifyEAPSharedKeyAUTH ::
  "crypto \<Rightarrow> InitResult \<Rightarrow> IKEKeys \<Rightarrow> Identity \<Rightarrow> bytes \<Rightarrow> Payload \<Rightarrow> bool \<Rightarrow> unit res" where
  "verifyEAPSharedKeyAUTH c init keys ident msk payload initiator =
     (if pl_Type payload \<noteq> PayloadAUTH then Inl (Err ErrInvalidAuthenticationPayload)
      else
        rbind (ParseAuthentication (pl_Body payload)) (\<lambda>auth.
        if auth_Method auth \<noteq> AuthMethodSharedKeyMIC then Inl (Err ErrInvalidAuthenticationPayload)
        else rbind (eapSharedKeyAUTH c init keys ident msk initiator) (\<lambda>expected.
          if auth_Data auth \<noteq> expected then Inl (Err ErrInvalidAuthenticationPayload) else Inr ())))"

section \<open>The full exchange\<close>

definition authFinalResponse :: "AuthResult \<Rightarrow> Payload list \<times> bytes" where
  "authFinalResponse auth =
     (if length (ar_IdentityResponseInner auth) > 0 \<or> length (ar_IdentityResponseBytes auth) > 0
      then (ar_IdentityResponseInner auth, ar_IdentityResponseBytes auth)
      else (ar_InitialResponseInner auth, ar_InitialResponseBytes auth))"

definition authNextEAP :: "AuthResult \<Rightarrow> Packet option" where
  "authNextEAP auth =
     (case ar_EAPAfterIdentity auth of
        Some p \<Rightarrow> Some p
      | None \<Rightarrow>
          (case ar_EAPRequest auth of
             None \<Rightarrow> None
           | Some p \<Rightarrow>
               if pkt_Code p = CodeRequest \<and> pkt_Subtype p = SubtypeIdentity \<and> length (ar_IdentityResponseBytes auth) > 0
               then None else Some p))"

definition parseChildSAIfPresent ::
  "crypto \<Rightarrow> InitResult \<Rightarrow> Payload list \<Rightarrow> bytes \<Rightarrow> u32 \<Rightarrow> SecurityAssociation \<Rightarrow> TrafficSelectors \<Rightarrow> TrafficSelectors \<Rightarrow>
   ChildSAResult option res" where
  "parseChildSAIfPresent c init inner localSPI nextMessageID offered offeredTSi offeredTSr =
     (if \<not> hasPayload inner PayloadSA then Inr None
      else rbind (parseChildSAOffered c init inner localSPI nextMessageID offered offeredTSi offeredTSr) (\<lambda>child.
        Inr (Some child)))"

definition fullAuthLocalChildSPI :: "reader \<Rightarrow> FullAuthConfig \<Rightarrow> bytes act" where
  "fullAuthLocalChildSPI randReader cfg =
     (case (case sa_Proposals (fa_ChildSA cfg) of
              [] \<Rightarrow> None | p # _ \<Rightarrow> if length (prop_SPI p) > 0 then Some (prop_SPI p) else None) of
        Some spi \<Rightarrow> areturn spi
      | None \<Rightarrow>
          if length (fa_ChildSPI cfg) > 0
          then (if length (fa_ChildSPI cfg) \<noteq> 4 then afail (Err ErrInvalidAuthConfig) else areturn (fa_ChildSPI cfg))
          else read_random (\<lambda>rnd. randomBytes rnd 4) (reader_of (fa_Random cfg) randReader))"

text \<open>What the loop of \<^verbatim>\<open>RunIKE_AUTH_Full\<close> keeps fixed: the SPI and the offer.\<close>

record childOffer =
  co_localChildSPI :: bytes
  co_offeredChildSA :: SecurityAssociation
  co_offeredTSi :: TrafficSelectors
  co_offeredTSr :: TrafficSelectors

abbreviation (input) offeredChild :: "crypto \<Rightarrow> FullAuthConfig \<Rightarrow> childOffer \<Rightarrow> Payload list \<Rightarrow> u32 \<Rightarrow> ChildSAResult option res" where
  "offeredChild c cfg offer inner nextMessageID \<equiv>
     parseChildSAIfPresent c (fa_Init cfg) inner (co_localChildSPI offer) nextMessageID (co_offeredChildSA offer)
       (co_offeredTSi offer) (co_offeredTSr offer)"

definition runIKEAuthEAPFinal ::
  "crypto \<Rightarrow> reader \<Rightarrow> FullAuthConfig \<Rightarrow> FullAuthResult \<Rightarrow> childOffer \<Rightarrow> (ChildSAResult \<times> bytes \<times> Payload list) act" where
  "runIKEAuthEAPFinal c randReader cfg current offer =
     (let keys = authKeys (fa_Keys cfg) (fa_Init cfg); msk = keys_MSK (fx_EAPKeys current) in
      if length msk = 0 then afail (Err ErrInvalidAuthResponse)
      else
        abind (lift_res (eapSharedKeyAUTH c (fa_Init cfg) keys (fa_InitiatorID cfg) msk True)) (\<lambda>authData.
        abind (lift_res (AuthenticationPayload AuthMethodSharedKeyMIC authData)) (\<lambda>authPayload.
        abind (case fa_Transport cfg of
            None \<Rightarrow> afail Panic
          | Some tr \<Rightarrow> authExchange c (reader_of (fa_Random cfg) randReader) tr (fa_Init cfg) keys (fx_NextMessageID current)
              [authPayload] []) (\<lambda>(_, responseBytes, inner).
        abind (lift_res (firstIKEAuthIdentity (ar_InitialResponseInner (fx_Auth current)) PayloadIDr)) (\<lambda>id1.
        abind (lift_res (case id1 of Some i \<Rightarrow> Inr (Some i) | None \<Rightarrow> firstIKEAuthIdentity inner PayloadIDr)) (\<lambda>id2.
        case id2 of
          None \<Rightarrow> afail (Err ErrInvalidAuthResponse)
        | Some responderID \<Rightarrow>
            (case firstIKEAuthPayload inner PayloadAUTH of
               None \<Rightarrow> afail (Err ErrInvalidAuthResponse)
             | Some responderAUTH \<Rightarrow>
                 (case verifyEAPSharedKeyAUTH c (fa_Init cfg) keys responderID msk responderAUTH False of
                    Inl e \<Rightarrow> afail (Wrap ErrInvalidAuthResponse e)
                  | Inr _ \<Rightarrow>
                      abind (lift_res (offeredChild c cfg offer inner (fx_NextMessageID current + 1))) (\<lambda>child.
                      case child of
                        None \<Rightarrow> afail (Err ErrInvalidAuthResponse)
                      | Some ch \<Rightarrow> areturn (ch, responseBytes, inner)))))))))) "

text \<open>The state of the loop: the result so far, the packet to answer, the identity in use and the transcript.\<close>

record authLoop =
  al_out :: FullAuthResult
  al_next :: "Packet option"
  al_currentFullAuthIdentity :: bytes
  al_identityTranscript :: "bytes list"

text \<open>The end of the loop after an EAP success.\<close>

definition finishAfterSuccess ::
  "crypto \<Rightarrow> reader \<Rightarrow> FullAuthConfig \<Rightarrow> childOffer \<Rightarrow> FullAuthResult \<Rightarrow> FullAuthResult act" where
  "finishAfterSuccess c randReader cfg offer out =
     abind (lift_res (offeredChild c cfg offer (fx_FinalResponseInner out) (fx_NextMessageID out))) (\<lambda>present.
     case present of
       Some child \<Rightarrow> areturn (out\<lparr>fx_ChildSA := Some child\<rparr>)
     | None \<Rightarrow>
         abind (runIKEAuthEAPFinal c randReader cfg out offer) (\<lambda>(child, responseBytes, responseInner).
           areturn (out\<lparr>fx_ChildSA := Some child, fx_FinalResponseBytes := responseBytes,
             fx_FinalResponseInner := responseInner, fx_NextMessageID := fx_NextMessageID out + 1\<rparr>)))"

text \<open>An identity request inside the loop: \<open>Inl\<close> is the final result, \<open>Inr\<close> the state to go on with.\<close>

definition answerIdentityRequest ::
  "crypto \<Rightarrow> reader \<Rightarrow> FullAuthConfig \<Rightarrow> childOffer \<Rightarrow> bytes \<Rightarrow> authLoop \<Rightarrow> Packet \<Rightarrow> (FullAuthResult + authLoop) act" where
  "answerIdentityRequest c randReader cfg offer ident st pkt =
     (let out = al_out st in
      abind (lift_res (firstEAPPacketWithRaw (fx_FinalResponseInner out))) (\<lambda>found.
      let requestRaw = (case found of None \<Rightarrow> [] | Some (_, raw) \<Rightarrow> raw);
          exchangeIdentity = identityForEAPRequest pkt
            \<lparr>eo_PermanentIdentity = ident,
             eo_Pseudonym = firstIKEAuthNonEmpty [fx_EAPNextPseudonym out, fa_EAPPseudonym cfg],
             eo_ReauthIdentity = fa_EAPReauthIdentity cfg\<rparr> in
      abind (runIKEAuthIdentityExchange c randReader
        \<lparr>xc_Transport = fa_Transport cfg, xc_Init = fa_Init cfg, xc_Keys = fa_Keys cfg, xc_Random = fa_Random cfg,
         xc_Request = pkt, xc_RequestRaw = requestRaw, xc_Identity = exchangeIdentity,
         xc_MessageID = fx_NextMessageID out\<rparr>) (\<lambda>exchange.
      let out = out\<lparr>fx_IdentityExchanges := fx_IdentityExchanges out @ [exchange],
            fx_NextMessageID := ie_NextMessageID exchange, fx_FinalResponseBytes := ie_ResponseBytes exchange,
            fx_FinalResponseInner := ie_ResponseInner exchange\<rparr> in
      abind (lift_res (offeredChild c cfg offer (fx_FinalResponseInner out) (fx_NextMessageID out))) (\<lambda>present.
      case present of
        Some child \<Rightarrow> areturn (Inl (out\<lparr>fx_ChildSA := Some child\<rparr>))
      | None \<Rightarrow> areturn (Inr (st\<lparr>al_out := out, al_next := ie_EAPNext exchange,
          al_currentFullAuthIdentity := ie_Identity exchange,
          al_identityTranscript := al_identityTranscript st @ ie_Transcript exchange\<rparr>))))))"

text \<open>The result so far, with what a challenge brought.\<close>

definition recordChallenge :: "FullAuthResult \<Rightarrow> AKAChallengeResult \<Rightarrow> FullAuthResult" where
  "recordChallenge out challenge =
     out\<lparr>fx_AKAChallenges := fx_AKAChallenges out @ [challenge], fx_NextMessageID := kr_NextMessageID challenge,
        fx_FinalResponseBytes := kr_FinalResponseBytes challenge, fx_FinalResponseInner := kr_FinalResponseInner challenge,
        fx_EAPNotifications := fx_EAPNotifications out @ kr_EAPNotifications challenge,
        fx_EAPClientError := (fx_EAPClientError out \<or> kr_EAPClientError challenge),
        fx_EAPNextPseudonym := (if kr_EAPNextPseudonym challenge \<noteq> [] then kr_EAPNextPseudonym challenge else fx_EAPNextPseudonym out),
        fx_EAPNextReauthID := (if kr_EAPNextReauthID challenge \<noteq> [] then kr_EAPNextReauthID challenge else fx_EAPNextReauthID out),
        fx_EAPReauthenticated := (fx_EAPReauthenticated out \<or> kr_EAPReauthenticated challenge),
        fx_EAPReauthCounter := (if kr_EAPReauthCounter challenge \<noteq> 0 then kr_EAPReauthCounter challenge else fx_EAPReauthCounter out),
        fx_EAPReauthCounterTooSmall := (fx_EAPReauthCounterTooSmall out \<or> kr_EAPReauthCounterTooSmall challenge),
        fx_SyncFailure := (fx_SyncFailure out \<or> kr_SyncFailure challenge),
        fx_AuthFailure := (fx_AuthFailure out \<or> kr_AuthFailure challenge),
        fx_KDFNegotiations := (if kr_KDFNegotiated challenge then fx_KDFNegotiations out + 1 else fx_KDFNegotiations out),
        fx_EAPKeys := (if length (keys_KAut (kr_EAPKeys challenge)) > 0 then kr_EAPKeys challenge else fx_EAPKeys out)\<rparr>"

definition answerChallengeRequest ::
  "crypto \<Rightarrow> reader \<Rightarrow> FullAuthConfig \<Rightarrow> childOffer \<Rightarrow> authLoop \<Rightarrow> Packet \<Rightarrow> (FullAuthResult + authLoop) act" where
  "answerChallengeRequest c randReader cfg offer st pkt =
     (let out = al_out st;
          challengeIdentity =
            (if pkt_Subtype pkt = SubtypeReauthentication \<and> TrimSpace (fa_EAPReauthIdentity cfg) \<noteq> []
             then TrimSpace (fa_EAPReauthIdentity cfg) else al_currentFullAuthIdentity st) in
      abind (runIKE_AUTH_AKAChallenge c randReader
        \<lparr>kc_Transport = fa_Transport cfg, kc_Init = fa_Init cfg, kc_Keys = fa_Keys cfg, kc_SIM = fa_SIM cfg,
         kc_EAPKeys = fx_EAPKeys out, kc_Identity = challengeIdentity, kc_Request = pkt,
         kc_IdentityTranscript = al_identityTranscript st, kc_ChildSPI = co_localChildSPI offer,
         kc_TSi = co_offeredTSi offer, kc_TSr = co_offeredTSr offer, kc_MessageID = fx_NextMessageID out,
         kc_Random = fa_Random cfg, kc_IV = [], kc_EAPReauthIV = fa_EAPReauthIV cfg,
         kc_EAPReauthCounter = fa_EAPReauthCounter cfg, kc_EAPReauthCounterOK = fa_EAPReauthCounterOK cfg\<rparr>
        (co_offeredChildSA offer) (co_offeredTSi offer) (co_offeredTSr offer)) (\<lambda>challenge.
      let out = recordChallenge out challenge in
      case kr_ChildSA challenge of
        Some child \<Rightarrow>
          areturn (Inl (out\<lparr>fx_ChildSA := Some child,
            fx_EAPLast := (if kr_EAPNext challenge \<noteq> None then kr_EAPNext challenge else fx_EAPLast out)\<rparr>))
      | None \<Rightarrow> areturn (Inr (st\<lparr>al_out := out, al_next := kr_EAPNext challenge\<rparr>))))"

text \<open>The loop, with the number of iterations left.\<close>

fun fullAuth_loop ::
  "nat \<Rightarrow> crypto \<Rightarrow> reader \<Rightarrow> FullAuthConfig \<Rightarrow> childOffer \<Rightarrow> bytes \<Rightarrow> authLoop \<Rightarrow> FullAuthResult act" where
  "fullAuth_loop 0 c randReader cfg offer ident st = afail (Err ErrInvalidAuthResponse)"
| "fullAuth_loop (Suc n) c randReader cfg offer ident st =
     (case al_next st of
        None \<Rightarrow> afail (Err ErrInvalidAuthResponse)
      | Some pkt \<Rightarrow>
          let out = (al_out st)\<lparr>fx_EAPLast := Some pkt\<rparr>; st = st\<lparr>al_out := out\<rparr> in
          if pkt_Code pkt = CodeSuccess then finishAfterSuccess c randReader cfg offer out
          else if pkt_Code pkt = CodeFailure then afail (Err ErrInvalidAuthResponse)
          else if pkt_Code pkt \<noteq> CodeRequest then afail (Err ErrInvalidAuthResponse)
          else
            abind (if pkt_Subtype pkt = SubtypeIdentity then answerIdentityRequest c randReader cfg offer ident st pkt
                   else answerChallengeRequest c randReader cfg offer st pkt) (\<lambda>r.
            case r of
              Inl done' \<Rightarrow> areturn done'
            | Inr st' \<Rightarrow> fullAuth_loop n c randReader cfg offer ident st'))"

definition initialAuthConfig :: "FullAuthConfig \<Rightarrow> bytes \<Rightarrow> AuthConfig" where
  "initialAuthConfig cfg localChildSPI =
     \<lparr>ac_Transport = fa_Transport cfg, ac_Init = fa_Init cfg, ac_Keys = fa_Keys cfg,
      ac_InitiatorID = fa_InitiatorID cfg, ac_EAPIdentity = fa_EAPIdentity cfg, ac_EAPPseudonym = fa_EAPPseudonym cfg,
      ac_EAPReauthIdentity = fa_EAPReauthIdentity cfg, ac_ChildSA = fa_ChildSA cfg, ac_ChildSPI = localChildSPI,
      ac_TSi = fa_TSi cfg, ac_TSr = fa_TSr cfg, ac_Configuration = fa_Configuration cfg, ac_Random = fa_Random cfg,
      ac_InitialIV = fa_InitialIV cfg, ac_EAPIdentityIV = fa_EAPIdentityIV cfg,
      ac_InitialMessageID = fa_InitialMessageID cfg\<rparr>"

definition RunIKE_AUTH_Full :: "crypto \<Rightarrow> reader \<Rightarrow> FullAuthConfig \<Rightarrow> FullAuthResult act" where
  "RunIKE_AUTH_Full c randReader cfg =
     abind (fullAuthLocalChildSPI randReader cfg) (\<lambda>localChildSPI.
     abind (RunIKE_AUTH_EAPIdentity c randReader (initialAuthConfig cfg localChildSPI)) (\<lambda>auth.
     let (finalInner, finalBytes) = authFinalResponse auth;
         out = \<lparr>fx_Auth = auth, fx_IdentityExchanges = [], fx_AKAChallenges = [], fx_ChildSA = None,
           fx_EAPKeys = fa_EAPKeys cfg, fx_EAPLast = None, fx_EAPNotifications = [], fx_EAPClientError = False,
           fx_EAPNextPseudonym = [], fx_EAPNextReauthID = [], fx_EAPReauthenticated = False, fx_EAPReauthCounter = 0,
           fx_EAPReauthCounterTooSmall = False, fx_SyncFailure = False, fx_AuthFailure = False, fx_KDFNegotiations = 0,
           fx_NextMessageID = ar_NextMessageID auth, fx_FinalResponseBytes = finalBytes,
           fx_FinalResponseInner = finalInner\<rparr> in
     abind (lift_res (authOfferedChildSA (fa_ChildSA cfg) localChildSPI)) (\<lambda>offeredChildSA.
     let offer = \<lparr>co_localChildSPI = localChildSPI, co_offeredChildSA = offeredChildSA,
           co_offeredTSi = trafficSelectorsOrSWuAny (fa_TSi cfg), co_offeredTSr = trafficSelectorsOrSWuAny (fa_TSr cfg)\<rparr> in
     abind (lift_res (offeredChild c cfg offer finalInner (fx_NextMessageID out))) (\<lambda>present.
     case present of
       Some child \<Rightarrow> areturn (out\<lparr>fx_ChildSA := Some child\<rparr>)
     | None \<Rightarrow>
         let ident = authPermanentIdentity (fa_EAPIdentity cfg) (fa_InitiatorID cfg) in
         fullAuth_loop maxFullAuthEAPExchanges c randReader cfg offer ident
           \<lparr>al_out = out, al_next = authNextEAP auth,
            al_currentFullAuthIdentity = firstIKEAuthNonEmpty [ar_EAPIdentityUsed auth, ident],
            al_identityTranscript = ar_IdentityTranscript auth\<rparr>))))"

section \<open>The requests of a run\<close>

text \<open>The requests handed to the transport are IKE_AUTH messages, protected with the keys of the IKE SA and numbered
  from \<open>first\<close> on without a gap.  \<open>sends\<close> says that an action started after \<open>n\<close> requests keeps this, stays
  within \<open>N\<close> requests, and on success ends after a number of requests that is related to its result.\<close>

definition numbered :: "crypto \<Rightarrow> IKEKeys \<Rightarrow> u32 \<Rightarrow> bytes list \<Rightarrow> bool" where
  "numbered c keys first reqs \<longleftrightarrow>
     (\<forall>i < length reqs. \<exists>msg inner. UnprotectMessage c (reqs ! i) keys True = Inr (msg, inner) \<and>
       hdr_ExchangeType (msg_Header msg) = ExchangeIKE_AUTH \<and> hdr_MessageID (msg_Header msg) = first + of_nat i)"

definition sends :: "crypto \<Rightarrow> IKEKeys \<Rightarrow> u32 \<Rightarrow> nat \<Rightarrow> nat \<Rightarrow> 'a act \<Rightarrow> (nat \<Rightarrow> 'a \<Rightarrow> bool) \<Rightarrow> bool" where
  "sends c keys first N n m Q \<longleftrightarrow>
     hoare (\<lambda>w. numbered c keys first (io_sent w) \<and> length (io_sent w) = n \<and> n \<le> N) m
       (\<lambda>x w. numbered c keys first (io_sent w) \<and> length (io_sent w) \<le> N \<and> Q (length (io_sent w)) x)
       (\<lambda>w. numbered c keys first (io_sent w) \<and> length (io_sent w) \<le> N)"

lemma sends_lift: "(\<And>x. r = Inr x \<Longrightarrow> Q n x) \<Longrightarrow> sends c keys first N n (lift_res r) Q"
  unfolding sends_def by (rule hoare_lift) auto

lemma sends_bind:
  assumes "sends c keys first N n m R" and "\<And>n' x. R n' x \<Longrightarrow> sends c keys first N n' (f x) Q"
  shows "sends c keys first N n (abind m f) Q"
  using assms unfolding sends_def hoare_def abind_def
  by (fastforce split: prod.splits sum.splits)

lemma sends_weaken: "sends c keys first N n m R \<Longrightarrow> (\<And>n' x. R n' x \<Longrightarrow> Q n' x) \<Longrightarrow> sends c keys first N n m Q"
  unfolding sends_def by (erule hoare_post) auto

lemma sends_bind_lift:
  "(\<And>x. r = Inr x \<Longrightarrow> sends c keys first N n (f x) Q) \<Longrightarrow> sends c keys first N n (abind (lift_res r) f) Q"
  by (rule sends_bind [OF sends_lift [where Q = "\<lambda>n' x. n' = n \<and> r = Inr x"]]) auto

lemma sends_read: "(\<And>x. Q n x) \<Longrightarrow> sends c keys first N n (read_random f rd) Q"
  by (auto simp: sends_def hoare_def read_random_def split: sum.splits)

lemma sends_authIV: "(\<And>x. Q n x) \<Longrightarrow> sends c keys first N n (authIV rd p iv) Q"
  unfolding authIV_def by (auto intro: sends_lift sends_read)

lemma sends_authExchange:
  assumes "crypto_ok c" "mid = first + of_nat n" "n < N" "list_all (\<lambda>p. pl_Type p \<noteq> 0) payloads" "\<And>x. Q (Suc n) x"
  shows "sends c keys first N n (authExchange c rd tr init keys mid payloads iv) Q"
proof -
  have ex: "sends c keys first N n (ExchangeIKE tr raw) (\<lambda>n' x. n' = Suc n)"
    if "ProtectMessage c rnd (authHeader init mid True) keys True payloads iv' = Inr (msg, raw)" for rnd iv' msg raw
  proof -
    have "UnprotectMessage c raw keys True = Inr (complete_message msg, link_payloads payloads)"
      "hdr_ExchangeType (msg_Header (complete_message msg)) = ExchangeIKE_AUTH"
      "hdr_MessageID (msg_Header (complete_message msg)) = first + of_nat n"
      using unprotect_protect [OF assms(1,4) that] ProtectMessage_header [OF that] assms(2)
      by (simp_all add: complete_message_def authHeader_def)
    then show ?thesis
      using assms(3) by (auto simp: sends_def hoare_def ExchangeIKE_def numbered_def nth_append less_Suc_eq split: sum.splits)
  qed
  show ?thesis
    unfolding authExchange_def
    apply (rule sends_bind [OF sends_authIV [where Q = "\<lambda>n' _. n' = n"]], simp)
    apply (rule sends_bind_lift)
    apply (clarsimp split: prod.splits)
    apply (rule sends_bind [OF ex], assumption)
    apply (rule sends_bind_lift)
    apply (clarsimp split: prod.splits)
    apply (rule sends_lift)
    using assms(5) by simp
qed

lemma sends_option:
  "(v = None \<Longrightarrow> sends c keys first N n m Q) \<Longrightarrow> (\<And>x. v = Some x \<Longrightarrow> sends c keys first N n (f x) Q) \<Longrightarrow>
   sends c keys first N n (case v of None \<Rightarrow> m | Some x \<Rightarrow> f x) Q"
  by (cases v) simp_all

lemma sends_if:
  "(b \<Longrightarrow> sends c keys first N n m Q) \<Longrightarrow> (\<not> b \<Longrightarrow> sends c keys first N n m' Q) \<Longrightarrow>
   sends c keys first N n (if b then m else m') Q"
  by simp

lemma sends_afail: "sends c keys first N n (afail e) Q"
  by (rule sends_lift) simp

text \<open>An exchange in the middle of an action.\<close>

lemma sends_bind_exchange:
  assumes "crypto_ok c" "mid = first + of_nat n" "n < N" "list_all (\<lambda>p. pl_Type p \<noteq> 0) payloads"
    and "\<And>req resp inner. sends c keys first N (Suc n) (f (req, resp, inner)) Q"
  shows "sends c keys first N n (abind (authExchange c rd tr init keys mid payloads iv) f) Q"
  by (rule sends_bind [OF sends_authExchange [OF assms(1-4), where Q = "\<lambda>n' _. n' = Suc n"]]) (use assms(5) in auto)

lemma sends_prod:
  "(\<And>x y. v = (x, y) \<Longrightarrow> sends c keys first N n (f x y) Q) \<Longrightarrow> sends c keys first N n (case v of (x, y) \<Rightarrow> f x y) Q"
  by (cases v) simp

lemmas sends_steps = sends_bind_lift sends_option sends_if sends_prod sends_afail sends_bind_exchange sends_lift

lemma EAPPayload_type: "list_all (\<lambda>p. pl_Type p \<noteq> 0) [EAPPayload b]"
  by (simp add: EAPPayload_def)

lemma sends_initial_payloads:
  "sends c keys first N n (BuildIKEAuthInitialPayloads rr cfg) (\<lambda>n' ps. n' = n \<and> list_all (\<lambda>p. pl_Type p \<noteq> 0) ps)"
proof -
  have sa: "sends c keys first N n (if length (sa_Proposals (ac_ChildSA cfg)) = 0
      then abind (if length (ac_ChildSPI cfg) = 0 then read_random f rd else areturn (ac_ChildSPI cfg)) (\<lambda>spi.
        if length spi \<noteq> 4 then afail e else areturn (DefaultESPProposal spi))
      else lift_res r) (\<lambda>n' _. n' = n)" for f rd e r
    by (intro sends_if sends_bind [where R = "\<lambda>n' _. n' = n"] sends_read) (auto intro: sends_lift)
  show ?thesis
    unfolding BuildIKEAuthInitialPayloads_def
    by (intro sends_bind_lift sends_bind [OF sa])
      (auto intro!: sends_bind_lift sends_lift
        simp: IdentityPayload_def SecurityAssociationPayload_def TrafficSelectorsPayload_def ConfigurationPayload_def
          rbind_eq_Inr_iff split: if_splits)
qed

lemma sends_bind_initial:
  "(\<And>ps. list_all (\<lambda>p. pl_Type p \<noteq> 0) ps \<Longrightarrow> sends c keys first N n (f ps) Q) \<Longrightarrow>
   sends c keys first N n (abind (BuildIKEAuthInitialPayloads rr cfg) f) Q"
  by (rule sends_bind [OF sends_initial_payloads]) blast

lemma sends_EAPIdentity:
  assumes "crypto_ok c" and "keys = authKeys (ac_Keys cfg) (ac_Init cfg)"
    and "first = (if ac_InitialMessageID cfg = 0 then 1 else ac_InitialMessageID cfg)" and "2 \<le> N"
  shows "sends c keys first N 0 (RunIKE_AUTH_EAPIdentity c rr cfg) (\<lambda>n r. n \<le> 2 \<and> ar_NextMessageID r = first + of_nat n)"
proof -
  have N: "0 < N" "Suc 0 < N" using assms(4) by auto
  show ?thesis
    unfolding RunIKE_AUTH_EAPIdentity_def Let_def assms(2,3) [symmetric]
    by (intro sends_bind_initial sends_steps assms(1)) (use N in \<open>auto simp: EAPPayload_def\<close>)
qed

lemma sends_identityExchange:
  assumes "crypto_ok c" and "keys = authKeys (xc_Keys cfg) (xc_Init cfg)" and "xc_MessageID cfg = first + of_nat n" and "n < N"
  shows "sends c keys first N n (runIKEAuthIdentityExchange c rr cfg)
    (\<lambda>n' r. n' = Suc n \<and> ie_NextMessageID r = first + of_nat n')"
  unfolding runIKEAuthIdentityExchange_def Let_def assms(2) [symmetric]
  by (intro sends_steps assms(1)) (use assms(3,4) in \<open>auto simp: EAPPayload_def\<close>)

lemma sends_followups:
  assumes "crypto_ok c" and "fu_NextMessageID out = first + of_nat n" and "n + k \<le> N"
  shows "sends c keys first N n (controlFollowups_loop k c rd tr init keys eapKeys out)
    (\<lambda>n' r. n \<le> n' \<and> n' \<le> n + k \<and> fu_NextMessageID r = first + of_nat n' \<and>
      length (fu_ResponseBytes r) = length (fu_ResponseBytes out) + (n' - n))"
  using assms(2,3)
proof (induction k arbitrary: n out)
  case 0
  then show ?case
    unfolding controlFollowups_loop.simps by (intro sends_steps) auto
next
  case (Suc k)
  have step: "sends c keys first N (Suc n) (controlFollowups_loop k c rd tr init keys eapKeys out')
      (\<lambda>n' r. n \<le> n' \<and> n' \<le> n + Suc k \<and> fu_NextMessageID r = first + of_nat n' \<and>
        length (fu_ResponseBytes r) = length (fu_ResponseBytes out) + (n' - n))"
    if "fu_NextMessageID out' = first + of_nat (Suc n)" "length (fu_ResponseBytes out') = Suc (length (fu_ResponseBytes out))" for out'
    by (rule sends_weaken [OF Suc.IH]) (use Suc.prems that in auto)
  show ?case
    unfolding controlFollowups_loop.simps
    by (intro sends_bind_lift sends_option sends_prod sends_bind_exchange assms(1) step sends_lift)
      (use Suc.prems in \<open>auto simp: EAPPayload_def\<close>)
qed

lemma sends_answer: "sends c keys first N n (answerAKARequest c' rd cfg) (\<lambda>n' _. n' = n)"
proof -
  have iv: "sends c keys first N n (eapReauthIV rd iv) (\<lambda>n' _. n' = n)" for iv
    unfolding eapReauthIV_def by (intro sends_if sends_read) (auto intro: sends_lift)
  have "sends c keys first N n (answerReauthentication c' rd cfg) (\<lambda>n' _. n' = n)"
    unfolding answerReauthentication_def Let_def
    by (intro sends_bind_lift sends_bind [OF iv]) (auto intro!: sends_steps)
  then show ?thesis
    unfolding answerAKARequest_def Let_def by (intro sends_steps) auto
qed

lemma sends_AKAChallenge:
  assumes "crypto_ok c" and "keys = authKeys (kc_Keys cfg) (kc_Init cfg)" and "kc_MessageID cfg = first + of_nat n" and "n + 4 \<le> N"
  shows "sends c keys first N n (runIKE_AUTH_AKAChallenge c rr cfg sa tsi tsr)
    (\<lambda>n' r. n' \<le> n + 4 \<and> kr_NextMessageID r = first + of_nat n')"
proof -
  have fol: "sends c keys first N (Suc n) (runAKAControlFollowups c rr cfg tr keys inner (kc_MessageID cfg + 1) ek)
      (\<lambda>n' r. n' \<le> n + 4 \<and>
        (if 0 < length (fu_ResponseBytes r) then fu_NextMessageID r else kc_MessageID cfg + 1) = first + of_nat n')" for tr inner ek
  proof -
    have next': "(if 0 < length (fu_ResponseBytes r) then fu_NextMessageID r else kc_MessageID cfg + 1) = first + of_nat n'"
      if "Suc n \<le> n'" "fu_NextMessageID r = first + of_nat n'" "length (fu_ResponseBytes r) = n' - Suc n" for n' r
      using that assms(3) by (cases "n' = Suc n") auto
    show ?thesis
      unfolding runAKAControlFollowups_def
      by (rule sends_weaken [OF sends_followups [OF assms(1), of _ first "Suc n"]]) (use assms(3,4) next' in auto)
  qed
  have bind_answer: "(\<And>x. sends c keys first N n (f x) Q) \<Longrightarrow> sends c keys first N n (abind (answerAKARequest c rd cfg) f) Q"
    for f :: "akaAnswer \<Rightarrow> AKAChallengeResult act" and Q rd
    by (rule sends_bind [OF sends_answer]) simp
  show ?thesis
    unfolding runIKE_AUTH_AKAChallenge_def Let_def assms(2) [symmetric]
    apply (intro sends_option sends_afail sends_bind_lift sends_if bind_answer sends_bind_exchange assms(1,3) EAPPayload_type)
    using assms(4) apply simp
    apply (intro sends_prod, clarify)
    apply (rule sends_bind [OF fol])
    apply (intro sends_bind_lift sends_lift)
    using assms(3) apply auto
    done
qed

lemma AuthenticationPayload_type: "AuthenticationPayload m d = Inr p \<Longrightarrow> list_all (\<lambda>p. pl_Type p \<noteq> 0) [p]"
  by (auto simp: AuthenticationPayload_def split: if_splits)

lemma sends_sum:
  "(\<And>x. v = Inl x \<Longrightarrow> sends c keys first N n (f x) Q) \<Longrightarrow> (\<And>x. v = Inr x \<Longrightarrow> sends c keys first N n (g x) Q) \<Longrightarrow>
   sends c keys first N n (case v of Inl x \<Rightarrow> f x | Inr x \<Rightarrow> g x) Q"
  by (cases v) simp_all

lemma sends_final:
  assumes "crypto_ok c" and "keys = authKeys (fa_Keys cfg) (fa_Init cfg)" and "fx_NextMessageID out = first + of_nat n" and "n < N"
  shows "sends c keys first N n (finishAfterSuccess c rr cfg offer out)
    (\<lambda>n' r. n' \<le> Suc n \<and> fx_NextMessageID r = first + of_nat n')"
proof -
  have ex: "sends c keys first N n (case fa_Transport cfg of None \<Rightarrow> afail Panic
      | Some tr \<Rightarrow> authExchange c rd tr (fa_Init cfg) keys (fx_NextMessageID out) [p] []) (\<lambda>n' _. n' = Suc n)"
    if "AuthenticationPayload m d = Inr p" for rd p m d
    using assms(1,3,4) AuthenticationPayload_type [OF that] by (intro sends_option sends_afail sends_authExchange) auto
  have "sends c keys first N n (runIKEAuthEAPFinal c rr cfg out offer) (\<lambda>n' _. n' = Suc n)"
    unfolding runIKEAuthEAPFinal_def Let_def assms(2) [symmetric]
    apply (intro sends_if sends_afail sends_bind_lift)
    apply (rule sends_bind [OF ex], assumption)
    apply clarsimp
    apply (intro sends_bind_lift sends_option sends_sum sends_afail sends_lift)
    by auto
  then have bind_final: "(\<And>x. sends c keys first N (Suc n) (f x) Q) \<Longrightarrow>
      sends c keys first N n (abind (runIKEAuthEAPFinal c rr cfg out offer) f) Q"
    for f :: "ChildSAResult \<times> bytes \<times> Payload list \<Rightarrow> FullAuthResult act" and Q
    by (rule sends_bind) simp
  show ?thesis
    unfolding finishAfterSuccess_def
    by (intro sends_bind_lift sends_option sends_prod bind_final sends_lift) (use assms(3,4) in auto)
qed

lemma sends_answerIdentity:
  assumes "crypto_ok c" and "keys = authKeys (fa_Keys cfg) (fa_Init cfg)" and "fx_NextMessageID (al_out st) = first + of_nat n" and "n < N"
  shows "sends c keys first N n (answerIdentityRequest c rr cfg offer ident st pkt)
    (\<lambda>n' r. n' \<le> n + 4 \<and> (case r of Inl out \<Rightarrow> fx_NextMessageID out | Inr st' \<Rightarrow> fx_NextMessageID (al_out st')) = first + of_nat n')"
  unfolding answerIdentityRequest_def Let_def
  apply (intro sends_bind_lift)
  apply (rule sends_bind [OF sends_identityExchange [OF assms(1) _ _ assms(4), where first = first]])
    apply (simp add: assms(2))
   apply (simp add: assms(3))
  apply (intro sends_bind_lift sends_option sends_lift)
  using assms(3) apply auto
  done

lemma sends_answerChallenge:
  assumes "crypto_ok c" and "keys = authKeys (fa_Keys cfg) (fa_Init cfg)" and "fx_NextMessageID (al_out st) = first + of_nat n" and "n + 4 \<le> N"
  shows "sends c keys first N n (answerChallengeRequest c rr cfg offer st pkt)
    (\<lambda>n' r. n' \<le> n + 4 \<and> (case r of Inl out \<Rightarrow> fx_NextMessageID out | Inr st' \<Rightarrow> fx_NextMessageID (al_out st')) = first + of_nat n')"
  unfolding answerChallengeRequest_def Let_def
  apply (rule sends_bind [OF sends_AKAChallenge [OF assms(1) _ _ assms(4), where first = first]])
    apply (simp add: assms(2))
   apply (simp add: assms(3))
  apply (intro sends_option sends_lift)
  apply (auto simp: recordChallenge_def)
  done

lemma sends_loop:
  assumes "crypto_ok c" and "keys = authKeys (fa_Keys cfg) (fa_Init cfg)" and "fx_NextMessageID (al_out st) = first + of_nat n"
    and "n + 4 * k + 1 \<le> N"
  shows "sends c keys first N n (fullAuth_loop k c rr cfg offer ident st) (\<lambda>n' r. fx_NextMessageID r = first + of_nat n')"
  using assms(3,4)
proof (induction k arbitrary: n st)
  case 0
  show ?case unfolding fullAuth_loop.simps by (rule sends_afail)
next
  case (Suc k)
  define st' where "st' = (\<lambda>pkt. st\<lparr>al_out := (al_out st)\<lparr>fx_EAPLast := Some pkt\<rparr>\<rparr>)"
  have st': "fx_NextMessageID (al_out (st' pkt)) = first + of_nat n" for pkt using Suc.prems by (simp add: st'_def)
  have answer: "sends c keys first N n (if pkt_Subtype pkt = SubtypeIdentity then answerIdentityRequest c rr cfg offer ident (st' pkt) pkt
       else answerChallengeRequest c rr cfg offer (st' pkt) pkt)
      (\<lambda>n' r. n' \<le> n + 4 \<and> (case r of Inl out \<Rightarrow> fx_NextMessageID out | Inr st' \<Rightarrow> fx_NextMessageID (al_out st')) = first + of_nat n')" for pkt
    using Suc.prems(2) by (intro sends_if sends_answerIdentity sends_answerChallenge assms(1,2) st') auto
  have final: "sends c keys first N n (finishAfterSuccess c rr cfg offer (al_out (st' pkt))) (\<lambda>n' r. fx_NextMessageID r = first + of_nat n')" for pkt
    by (rule sends_weaken [OF sends_final [OF assms(1,2) st']]) (use Suc.prems(2) in auto)
  show ?case
    unfolding fullAuth_loop.simps Let_def st'_def [symmetric]
    apply (intro sends_option sends_if sends_afail)
     apply (rule final [unfolded st'_def, simplified])
    apply (rule sends_bind [OF answer [unfolded st'_def]])
    apply (erule conjE)
    apply (intro sends_sum sends_lift Suc.IH)
    using Suc.prems(2) apply auto
    done
qed

lemma sends_localChildSPI: "sends c keys first N n (fullAuthLocalChildSPI rr cfg) (\<lambda>n' _. n' = n)"
  unfolding fullAuthLocalChildSPI_def by (intro sends_option sends_if sends_read) (auto intro: sends_lift)

lemma sends_Full:
  assumes "crypto_ok c" and "keys = authKeys (fa_Keys cfg) (fa_Init cfg)"
    and "first = (if fa_InitialMessageID cfg = 0 then 1 else fa_InitialMessageID cfg)"
  shows "sends c keys first 35 0 (RunIKE_AUTH_Full c rr cfg) (\<lambda>n r. fx_NextMessageID r = first + of_nat n)"
proof -
  have bind_spi: "(\<And>x. sends c keys first 35 0 (f x) Q) \<Longrightarrow> sends c keys first 35 0 (abind (fullAuthLocalChildSPI rr cfg) f) Q"
    for f :: "bytes \<Rightarrow> FullAuthResult act" and Q
    by (rule sends_bind [OF sends_localChildSPI]) simp
  have bind_auth: "(\<And>n r. n \<le> 2 \<Longrightarrow> ar_NextMessageID r = first + of_nat n \<Longrightarrow> sends c keys first 35 n (f r) Q) \<Longrightarrow>
      sends c keys first 35 0 (abind (RunIKE_AUTH_EAPIdentity c rr acfg) f) Q"
    if "keys = authKeys (ac_Keys acfg) (ac_Init acfg)" "ac_InitialMessageID acfg = fa_InitialMessageID cfg"
    for f :: "AuthResult \<Rightarrow> FullAuthResult act" and Q acfg
    by (rule sends_bind [OF sends_EAPIdentity [OF assms(1) that(1)]]) (use assms(3) that(2) in auto)
  show ?thesis
    unfolding RunIKE_AUTH_Full_def Let_def
    by (intro bind_spi bind_auth sends_prod sends_bind_lift sends_option sends_lift sends_loop assms(1,2))
      (use assms(2) in \<open>auto simp: initialAuthConfig_def\<close>)
qed

section \<open>What a successful run has checked\<close>

lemma final_Inr:
  assumes "runIKEAuthEAPFinal c rr cfg out offer w = (Inr (child, resp, inner), w')"
    and "keys = authKeys (fa_Keys cfg) (fa_Init cfg)"
  obtains authData p iv req rnd msg tr rmsg ident q where
    "keys_MSK (fx_EAPKeys out) \<noteq> []"
    "eapSharedKeyAUTH c (fa_Init cfg) keys (fa_InitiatorID cfg) (keys_MSK (fx_EAPKeys out)) True = Inr authData"
    "AuthenticationPayload AuthMethodSharedKeyMIC authData = Inr p"
    "ProtectMessage c rnd (authHeader (fa_Init cfg) (fx_NextMessageID out) True) keys True [p] iv = Inr (msg, req)"
    "io_sent w' = io_sent w @ [req]"
    "fa_Transport cfg = Some tr" "tr (length (io_sent w)) req = Inr resp" "UnprotectMessage c resp keys False = Inr (rmsg, inner)"
    "(case firstIKEAuthIdentity (ar_InitialResponseInner (fx_Auth out)) PayloadIDr of
        Inr None \<Rightarrow> firstIKEAuthIdentity inner PayloadIDr | x \<Rightarrow> x) = Inr (Some ident)"
    "firstIKEAuthPayload inner PayloadAUTH = Some q"
    "verifyEAPSharedKeyAUTH c (fa_Init cfg) keys ident (keys_MSK (fx_EAPKeys out)) q False = Inr ()"
    "offeredChild c cfg offer inner (fx_NextMessageID out + 1) = Inr (Some child)"
proof -
  let ?msk = "keys_MSK (fx_EAPKeys out)" and ?init = "fa_Init cfg"
  obtain authData p tr req id1 ident q where
    msk: "?msk \<noteq> []" and a: "eapSharedKeyAUTH c ?init keys (fa_InitiatorID cfg) ?msk True = Inr authData"
    and p: "AuthenticationPayload AuthMethodSharedKeyMIC authData = Inr p" and tr: "fa_Transport cfg = Some tr"
    and ex: "authExchange c (reader_of (fa_Random cfg) rr) tr ?init keys (fx_NextMessageID out) [p] [] w = (Inr (req, resp, inner), w')"
    and i: "firstIKEAuthIdentity (ar_InitialResponseInner (fx_Auth out)) PayloadIDr = Inr id1"
      "(case id1 of Some i \<Rightarrow> Inr (Some i) | None \<Rightarrow> firstIKEAuthIdentity inner PayloadIDr) = Inr (Some ident)"
    and v: "firstIKEAuthPayload inner PayloadAUTH = Some q" "verifyEAPSharedKeyAUTH c ?init keys ident ?msk q False = Inr ()"
    and ch: "offeredChild c cfg offer inner (fx_NextMessageID out + 1) = Inr (Some child)"
    using assms(1) unfolding runIKEAuthEAPFinal_def Let_def assms(2) [symmetric]
    by (auto simp: abind_eq_Inr_iff case_act_iff split: if_splits)
  have iv: "io_sent w2 = io_sent w1" if "authIV rd pr iv w1 = (x, w2)" for rd pr iv w1 x w2
    using that by (auto simp: authIV_def read_random_def split: if_splits)
  from ex obtain rnd iv msg rmsg where
    "ProtectMessage c rnd (authHeader ?init (fx_NextMessageID out) True) keys True [p] iv = Inr (msg, req)"
    "io_sent w' = io_sent w @ [req]" "tr (length (io_sent w)) req = Inr resp" "UnprotectMessage c resp keys False = Inr (rmsg, inner)"
    by (auto simp: authExchange_def abind_eq_Inr_iff ExchangeIKE_def unprotectAuthResponse_def rbind_eq_Inr_iff Let_def
        split: if_splits option.splits dest!: iv)
  moreover have "(case firstIKEAuthIdentity (ar_InitialResponseInner (fx_Auth out)) PayloadIDr of
        Inr None \<Rightarrow> firstIKEAuthIdentity inner PayloadIDr | x \<Rightarrow> x) = Inr (Some ident)"
    using i by (auto split: option.splits)
  ultimately show ?thesis using msk a p tr v ch that by blast
qed

abbreviation (input) has_offered_child :: "crypto \<Rightarrow> FullAuthConfig \<Rightarrow> childOffer \<Rightarrow> FullAuthResult \<Rightarrow> bool" where
  "has_offered_child c cfg offer r \<equiv>
     fx_ChildSA r \<noteq> None \<and> offeredChild c cfg offer (fx_FinalResponseInner r) (fx_NextMessageID r) = Inr (fx_ChildSA r)"

lemma finish_child: "finishAfterSuccess c rr cfg offer out w = (Inr r, w') \<Longrightarrow> has_offered_child c cfg offer r"
  by (auto simp: finishAfterSuccess_def abind_eq_Inr_iff split: option.splits elim!: final_Inr [OF _ refl])

lemma answerIdentity_child:
  "answerIdentityRequest c rr cfg offer ident st pkt w = (Inr (Inl r), w') \<Longrightarrow> has_offered_child c cfg offer r"
  by (auto simp: answerIdentityRequest_def Let_def abind_eq_Inr_iff split: option.splits)

lemma AKAChallenge_child:
  "yields (runIKE_AUTH_AKAChallenge c rr cfg sa tsi tsr) (\<lambda>r. \<forall>child. kr_ChildSA r = Some child \<longrightarrow>
     hasPayload (kr_FinalResponseInner r) PayloadSA \<and>
     parseChildSAOffered c (kc_Init cfg) (kr_FinalResponseInner r) (kc_ChildSPI cfg) (kr_NextMessageID r) sa tsi tsr = Inr child)"
  unfolding runIKE_AUTH_AKAChallenge_def Let_def
  by (intro yields_steps) (auto simp: rbind_eq_Inr_iff split: if_splits)

lemma answerChallenge_child:
  "answerChallengeRequest c rr cfg offer st pkt w = (Inr (Inl r), w') \<Longrightarrow> has_offered_child c cfg offer r"
  by (auto simp: answerChallengeRequest_def Let_def abind_eq_Inr_iff parseChildSAIfPresent_def recordChallenge_def
      split: option.splits dest!: yieldsD [OF AKAChallenge_child])

lemma loop_child: "fullAuth_loop k c rr cfg offer ident st w = (Inr r, w') \<Longrightarrow> has_offered_child c cfg offer r"
proof (induction k arbitrary: st w)
  case (Suc k)
  obtain pkt where pkt: "al_next st = Some pkt" using Suc.prems by (cases "al_next st") auto
  define st' where "st' = st\<lparr>al_out := (al_out st)\<lparr>fx_EAPLast := Some pkt\<rparr>\<rparr>"
  consider "finishAfterSuccess c rr cfg offer (al_out st') w = (Inr r, w')"
    | x w1 where "answerIdentityRequest c rr cfg offer ident st' pkt w = (Inr x, w1) \<or>
        answerChallengeRequest c rr cfg offer st' pkt w = (Inr x, w1)"
      "(case x of Inl y \<Rightarrow> areturn y | Inr st'' \<Rightarrow> fullAuth_loop k c rr cfg offer ident st'') w1 = (Inr r, w')"
    using Suc.prems pkt by (auto simp: Let_def st'_def abind_eq_Inr_iff split: if_splits)
  then show ?case
  proof cases
    case 1
    then show ?thesis by (rule finish_child)
  next
    case 2
    then show ?thesis
      by (cases x) (auto dest: answerIdentity_child answerChallenge_child Suc.IH)
  qed
qed simp

lemma yields_loop: "(\<And>r. has_offered_child c cfg offer r \<Longrightarrow> Q r) \<Longrightarrow> yields (fullAuth_loop k c rr cfg offer ident st) Q"
  using loop_child by (fastforce simp: yields_def)

text \<open>A reader that fills its buffer gives the child SA an SPI, and so the client makes an offer.\<close>

lemma localChildSPI_nonempty:
  assumes "\<forall>n. random_ok (reader_of (fa_Random cfg) rr n)"
  shows "yields (fullAuthLocalChildSPI rr cfg) (\<lambda>spi. spi \<noteq> [])"
proof -
  have "yields (read_random (\<lambda>rnd. randomBytes rnd 4) rd) (\<lambda>spi. spi \<noteq> [])" if rd: "\<forall>n. random_ok (rd n)" for rd
  proof -
    have "length b = 4" if "rd n 4 = Inr b" for n b using rd that by (auto simp: random_ok_def)
    then show ?thesis by (fastforce simp: yields_def read_random_def randomBytes_def)
  qed
  with assms show ?thesis
    unfolding fullAuthLocalChildSPI_def
    by (intro yields_option yields_if yields_lift) (auto split: list.splits if_splits)
qed

lemma authOfferedChildSA_nonempty: "authOfferedChildSA sa spi = Inr offered \<Longrightarrow> spi \<noteq> [] \<Longrightarrow> sa_Proposals offered \<noteq> []"
  by (auto simp: authOfferedChildSA_def childSAWithLocalSPI_def DefaultESPProposal_def Let_def split: if_splits)

lemma Full_child:
  assumes "RunIKE_AUTH_Full c rr cfg w = (Inr r, w')" and "\<forall>n. random_ok (reader_of (fa_Random cfg) rr n)"
  obtains spi sa child where "fx_ChildSA r = Some child" "authOfferedChildSA (fa_ChildSA cfg) spi = Inr sa" "sa_Proposals sa \<noteq> []"
    "parseChildSAOffered c (fa_Init cfg) (fx_FinalResponseInner r) spi (fx_NextMessageID r) sa
       (trafficSelectorsOrSWuAny (fa_TSi cfg)) (trafficSelectorsOrSWuAny (fa_TSr cfg)) = Inr child"
proof -
  note bind_spi = yields_seq [OF localChildSPI_nonempty [OF assms(2)]]
  have "yields (RunIKE_AUTH_Full c rr cfg) (\<lambda>r. \<exists>spi sa. authOfferedChildSA (fa_ChildSA cfg) spi = Inr sa \<and> spi \<noteq> [] \<and>
      has_offered_child c cfg \<lparr>co_localChildSPI = spi, co_offeredChildSA = sa,
        co_offeredTSi = trafficSelectorsOrSWuAny (fa_TSi cfg), co_offeredTSr = trafficSelectorsOrSWuAny (fa_TSr cfg)\<rparr> r)"
    unfolding RunIKE_AUTH_Full_def Let_def
    by (intro bind_spi yields_bind_lift yields_bind [where m = "RunIKE_AUTH_EAPIdentity _ _ _"] yields_prod yields_option yields_lift yields_loop) fastforce+
  from yieldsD [OF this assms(1)] show ?thesis
    by (auto simp: parseChildSAIfPresent_def rbind_eq_Inr_iff split: if_splits intro!: that dest: authOfferedChildSA_nonempty)
qed

lemma parseChildSAOffered_Inr:
  assumes "parseChildSAOffered c init inner spi mid sa oi or' = Inr child" "sa_Proposals sa \<noteq> []"
  obtains out ch where "childPayloads_loop inner NoChildSAResult = Inr out"
    "parseChildSAResultWithNonces c init inner spi (ir_NonceI init) (ir_NonceR init) (Some sa) oi or' = Inr ch"
    "child = ch\<lparr>cs_NextMessageID := mid\<rparr>" "cs_SelectedSA child = cs_SelectedSA out" "cs_TSi child = cs_TSi out"
    "cs_TSr child = cs_TSr out" "cs_Configuration child = cs_Configuration out"
proof -
  obtain ch where ch: "parseChildSAResultWithNonces c init inner spi (ir_NonceI init) (ir_NonceR init) (Some sa) oi or' = Inr ch"
    "child = ch\<lparr>cs_NextMessageID := mid\<rparr>"
    using assms by (auto simp: parseChildSAOffered_def rbind_eq_Inr_iff)
  moreover from ch(1) obtain out where "childPayloads_loop inner NoChildSAResult = Inr out"
    "cs_SelectedSA ch = cs_SelectedSA out" "cs_TSi ch = cs_TSi out" "cs_TSr ch = cs_TSr out" "cs_Configuration ch = cs_Configuration out"
    by (auto simp: parseChildSAResultWithNonces_def rbind_eq_Inr_iff split: if_splits)
  ultimately show ?thesis using that by simp
qed

lemma eapSharedKeyAUTH_verifies:
  assumes "crypto_ok c" "eapSharedKeyAUTH c init keys ident msk initiator = Inr d"
    and "AuthenticationPayload AuthMethodSharedKeyMIC d = Inr p" and "pl_Type p' = pl_Type p" "pl_Body p' = pl_Body p"
  shows "verifyEAPSharedKeyAUTH c init keys ident msk p' initiator = Inr ()"
proof -
  have "d \<noteq> []" "p = mkPayload PayloadAUTH ([2, 0, 0, 0] @ d)"
    using assms(3) by (auto simp: AuthenticationPayload_def split: if_splits)
  then have "ParseAuthentication (pl_Body p') = Inr \<lparr>auth_Method = 2, auth_Data = d\<rparr>"
    using assms(5) by (cases d) (simp_all add: ParseAuthentication_def)
  then show ?thesis using assms(2,4) \<open>p = _\<close> by (simp add: verifyEAPSharedKeyAUTH_def)
qed

text \<open>What an accepted AUTH payload holds (RFC 7296, 2.15 and 2.16): the method, and a keyed hash under the padded master
  key of the first message of the end that sends it, the nonce of the other end and the hash of the sender's identity.\<close>

definition auth_over :: "(bytes \<Rightarrow> bytes \<Rightarrow> bytes) \<Rightarrow> bytes \<Rightarrow> bytes \<Rightarrow> bytes \<Rightarrow> bytes \<Rightarrow> Identity \<Rightarrow> Payload \<Rightarrow> bool" where
  "auth_over prf msk message nonce skp ident p \<longleftrightarrow> pl_Type p = PayloadAUTH \<and>
     (\<exists>b. Identity_MarshalBinary ident = Inr b \<and>
       ParseAuthentication (pl_Body p) = Inr \<lparr>auth_Method = AuthMethodSharedKeyMIC,
         auth_Data = prf (prf msk (str ''Key Pad for IKEv2'')) (message @ nonce @ prf skp b)\<rparr>)"

lemma verified_AUTH:
  assumes "verifyEAPSharedKeyAUTH c init keys ident msk p initiator = Inr ()"
  shows "auth_over (cr_hmac c (kmp_PRF (ik_Profile keys))) msk (if initiator then ir_RequestBytes init else ir_ResponseBytes init)
    (if initiator then ir_NonceR init else ir_NonceI init) (if initiator then ik_SKPi keys else ik_SKPr keys) ident p"
proof -
  obtain a d where a: "pl_Type p = PayloadAUTH" "ParseAuthentication (pl_Body p) = Inr a" "auth_Method a = AuthMethodSharedKeyMIC"
    "auth_Data a = d" "eapSharedKeyAUTH c init keys ident msk initiator = Inr d"
    using assms by (auto simp: verifyEAPSharedKeyAUTH_def rbind_eq_Inr_iff split: if_splits)
  then have "a = \<lparr>auth_Method = AuthMethodSharedKeyMIC, auth_Data = d\<rparr>" by simp
  with a show ?thesis
    by (cases initiator) (auto simp: auth_over_def eapSharedKeyAUTH_def PRF_def rbind_eq_Inr_iff split: if_splits)
qed

section \<open>The last response\<close>

text \<open>The octets and payloads of the last response: the transport's answer to the last request, opened with the keys of
  the IKE SA.\<close>

definition heard :: "crypto \<Rightarrow> transport option \<Rightarrow> IKEKeys \<Rightarrow> io \<Rightarrow> bytes \<Rightarrow> Payload list \<Rightarrow> bool" where
  "heard c transport keys w resp inner \<longleftrightarrow>
     (\<exists>tr sent req msg. transport = Some tr \<and> io_sent w = sent @ [req] \<and> tr (length sent) req = Inr resp \<and>
       UnprotectMessage c resp keys False = Inr (msg, inner))"

lemma authIV_sent: "authIV rd pr iv w = (x, w') \<Longrightarrow> io_sent w' = io_sent w"
  by (auto simp: authIV_def read_random_def split: if_splits)

lemma authExchange_heard:
  "authExchange c rd tr init keys mid ps iv w = (Inr (req, resp, inner), w') \<Longrightarrow> heard c (Some tr) keys w' resp inner"
  by (auto simp: authExchange_def abind_eq_Inr_iff ExchangeIKE_def unprotectAuthResponse_def rbind_eq_Inr_iff Let_def heard_def
      split: if_splits option.splits dest!: authIV_sent)

lemma hoare_bind_exchange:
  assumes "\<And>req resp inner. hoare (\<lambda>w. heard c (Some tr) keys w resp inner) (f (req, resp, inner)) Q (\<lambda>_. True)"
  shows "hoare P (abind (authExchange c rd tr init keys mid ps iv) f) Q (\<lambda>_. True)"
proof (rule hoare_abind [where R = "\<lambda>(req, resp, inner) w. heard c (Some tr) keys w resp inner"])
  show "hoare P (authExchange c rd tr init keys mid ps iv) (\<lambda>(req, resp, inner) w. heard c (Some tr) keys w resp inner) (\<lambda>_. True)"
    by (auto simp: hoare_def dest: authExchange_heard split: sum.splits prod.splits)
qed (use assms in \<open>simp split: prod.splits\<close>)

lemma heard_nonempty: "heard c transport keys w resp inner \<Longrightarrow> resp \<noteq> []"
  by (auto simp: heard_def UnprotectMessage_def ParseMessage_def rbind_eq_Inr_iff ParseHeader_def)

lemma EAPIdentity_heard:
  assumes "keys = authKeys (ac_Keys cfg) (ac_Init cfg)"
  shows "hoare (\<lambda>_. True) (RunIKE_AUTH_EAPIdentity c rr cfg) (\<lambda>auth w.
    heard c (ac_Transport cfg) keys w (snd (authFinalResponse auth)) (fst (authFinalResponse auth))) (\<lambda>_. True)"
  unfolding RunIKE_AUTH_EAPIdentity_def Let_def assms [symmetric]
  by (intro hoare_option hoare_if hoare_prod hoare_bind_lift hoare_bind_exchange hoare_bind_any hoare_lift)
    (auto simp: authFinalResponse_def dest: heard_nonempty)

lemma identityExchange_heard:
  assumes "runIKEAuthIdentityExchange c rr cfg w = (Inr x, w')" and "keys = authKeys (xc_Keys cfg) (xc_Init cfg)"
  shows "heard c (xc_Transport cfg) keys w' (ie_ResponseBytes x) (ie_ResponseInner x)"
  using assms(1) unfolding runIKEAuthIdentityExchange_def Let_def assms(2) [symmetric]
  by (auto simp: abind_eq_Inr_iff case_act_iff split: if_splits option.splits dest!: authExchange_heard)

lemma followups_heard:
  assumes "controlFollowups_loop k c rd tr init keys ek out w = (Inr x, w')"
    and "heard c (Some tr) keys w (if fu_ResponseBytes out = [] then resp else last (fu_ResponseBytes out)) (fu_FinalInner out)"
    and "fu_ResponseBytes out = [] \<longrightarrow> fu_FinalInner out = inner"
  shows "heard c (Some tr) keys w' (if fu_ResponseBytes x = [] then resp else last (fu_ResponseBytes x)) (fu_FinalInner x) \<and>
    (fu_ResponseBytes x = [] \<longrightarrow> fu_FinalInner x = inner)"
  using assms
proof (induction k arbitrary: out w)
  case 0
  then show ?case by (auto simp: abind_eq_Inr_iff split: option.splits if_splits)
next
  case (Suc k)
  consider "x = out" "w' = w"
    | out' w1 where "controlFollowups_loop k c rd tr init keys ek out' w1 = (Inr x, w')" "fu_ResponseBytes out' \<noteq> []"
      "heard c (Some tr) keys w1 (last (fu_ResponseBytes out')) (fu_FinalInner out')"
    using Suc.prems(1) by (fastforce simp: abind_eq_Inr_iff split: option.splits dest: authExchange_heard)
  then show ?case
  proof cases
    case 2
    then show ?thesis using Suc.IH [of out' w1] by simp
  qed (use Suc.prems(2,3) in auto)
qed

lemma hoare_bind_followups:
  assumes "\<And>fu. hoare (\<lambda>w. heard c (Some tr) keys w (if 0 < length (fu_ResponseBytes fu) then last (fu_ResponseBytes fu) else resp)
    (if 0 < length (fu_ResponseBytes fu) then fu_FinalInner fu else inner)) (f fu) Q (\<lambda>_. True)"
  shows "hoare (\<lambda>w. heard c (Some tr) keys w resp inner) (abind (runAKAControlFollowups c rr cfg tr keys inner mid ek) f) Q (\<lambda>_. True)"
proof (rule hoare_abind [OF _ assms])
  show "hoare (\<lambda>w. heard c (Some tr) keys w resp inner) (runAKAControlFollowups c rr cfg tr keys inner mid ek)
      (\<lambda>fu w. heard c (Some tr) keys w (if 0 < length (fu_ResponseBytes fu) then last (fu_ResponseBytes fu) else resp)
        (if 0 < length (fu_ResponseBytes fu) then fu_FinalInner fu else inner)) (\<lambda>_. True)"
  proof (rule hoareI)
    fix w fu w' assume run: "runAKAControlFollowups c rr cfg tr keys inner mid ek w = (Inr fu, w')" and "heard c (Some tr) keys w resp inner"
    then show "heard c (Some tr) keys w' (if 0 < length (fu_ResponseBytes fu) then last (fu_ResponseBytes fu) else resp)
        (if 0 < length (fu_ResponseBytes fu) then fu_FinalInner fu else inner)"
      using followups_heard [OF run [unfolded runAKAControlFollowups_def], of resp inner] by (auto split: if_splits)
  qed
qed

lemma AKAChallenge_heard:
  assumes "keys = authKeys (kc_Keys cfg) (kc_Init cfg)"
  shows "hoare (\<lambda>_. True) (runIKE_AUTH_AKAChallenge c rr cfg sa tsi tsr)
    (\<lambda>x w. heard c (kc_Transport cfg) keys w (kr_FinalResponseBytes x) (kr_FinalResponseInner x)) (\<lambda>_. True)"
  unfolding runIKE_AUTH_AKAChallenge_def Let_def assms [symmetric]
  by (intro hoare_option hoare_if hoare_triple hoare_bind_lift hoare_bind_exchange hoare_bind_followups hoare_bind_any hoare_lift) auto

lemma finish_heard:
  assumes "finishAfterSuccess c rr cfg offer out w = (Inr r, w')" and "keys = authKeys (fa_Keys cfg) (fa_Init cfg)"
    and "heard c (fa_Transport cfg) keys w (fx_FinalResponseBytes out) (fx_FinalResponseInner out)"
  shows "heard c (fa_Transport cfg) keys w' (fx_FinalResponseBytes r) (fx_FinalResponseInner r)"
  using assms
  by (auto simp: finishAfterSuccess_def abind_eq_Inr_iff heard_def split: option.splits elim!: final_Inr [OF _ refl])

definition last_heard :: "crypto \<Rightarrow> FullAuthConfig \<Rightarrow> FullAuthResult \<Rightarrow> io \<Rightarrow> bool" where
  "last_heard c cfg r w \<longleftrightarrow> heard c (fa_Transport cfg) (authKeys (fa_Keys cfg) (fa_Init cfg)) w (fx_FinalResponseBytes r) (fx_FinalResponseInner r)"

lemma answerIdentity_heard:
  assumes "answerIdentityRequest c rr cfg offer ident st pkt w = (Inr x, w')"
  shows "last_heard c cfg (case x of Inl r \<Rightarrow> r | Inr st' \<Rightarrow> al_out st') w'"
  using assms unfolding answerIdentityRequest_def Let_def
  by (auto simp: abind_eq_Inr_iff last_heard_def split: option.splits dest!: identityExchange_heard [OF _ refl])

lemma answerChallenge_heard:
  assumes "answerChallengeRequest c rr cfg offer st pkt w = (Inr x, w')"
  shows "last_heard c cfg (case x of Inl r \<Rightarrow> r | Inr st' \<Rightarrow> al_out st') w'"
  using assms unfolding answerChallengeRequest_def Let_def
  by (auto simp: abind_eq_Inr_iff last_heard_def recordChallenge_def split: option.splits dest!: hoareD [OF AKAChallenge_heard [OF refl] TrueI])

lemma loop_heard:
  "fullAuth_loop k c rr cfg offer ident st w = (Inr r, w') \<Longrightarrow> last_heard c cfg (al_out st) w \<Longrightarrow> last_heard c cfg r w'"
proof (induction k arbitrary: st w)
  case (Suc k)
  obtain pkt where pkt: "al_next st = Some pkt" using Suc.prems by (cases "al_next st") auto
  define st' where "st' = st\<lparr>al_out := (al_out st)\<lparr>fx_EAPLast := Some pkt\<rparr>\<rparr>"
  have st': "last_heard c cfg (al_out st') w" using Suc.prems(2) by (simp add: last_heard_def st'_def)
  consider "finishAfterSuccess c rr cfg offer (al_out st') w = (Inr r, w')"
    | x w1 where "answerIdentityRequest c rr cfg offer ident st' pkt w = (Inr x, w1) \<or>
        answerChallengeRequest c rr cfg offer st' pkt w = (Inr x, w1)"
      "(case x of Inl y \<Rightarrow> areturn y | Inr st'' \<Rightarrow> fullAuth_loop k c rr cfg offer ident st'') w1 = (Inr r, w')"
    using Suc.prems(1) pkt by (auto simp: Let_def st'_def abind_eq_Inr_iff split: if_splits)
  then show ?case
  proof cases
    case 1
    then show ?thesis using finish_heard [OF _ refl] st' by (simp add: last_heard_def)
  next
    case 2
    from 2(1) have "last_heard c cfg (case x of Inl r \<Rightarrow> r | Inr st'' \<Rightarrow> al_out st'') w1"
      using answerIdentity_heard answerChallenge_heard by blast
    then show ?thesis using 2(2) Suc.IH by (cases x) auto
  qed
qed simp

lemma hoare_loop:
  "(\<And>w. P w \<Longrightarrow> last_heard c cfg (al_out st) w) \<Longrightarrow> hoare P (fullAuth_loop k c rr cfg offer ident st) (last_heard c cfg) (\<lambda>_. True)"
  by (auto simp: hoare_def split: sum.splits prod.splits dest: loop_heard)

lemma Full_heard: "hoare (\<lambda>_. True) (RunIKE_AUTH_Full c rr cfg) (last_heard c cfg) (\<lambda>_. True)"
proof -
  have bind_auth: "(\<And>r. hoare (\<lambda>w. heard c (fa_Transport cfg) (authKeys (fa_Keys cfg) (fa_Init cfg)) w (snd (authFinalResponse r)) (fst (authFinalResponse r)))
        (f r) Q (\<lambda>_. True)) \<Longrightarrow> hoare P (abind (RunIKE_AUTH_EAPIdentity c rr (initialAuthConfig cfg spi)) f) Q (\<lambda>_. True)"
    for f :: "AuthResult \<Rightarrow> FullAuthResult act" and P Q spi
    using hoare_abind [OF EAPIdentity_heard [OF refl, of c rr "initialAuthConfig cfg spi"]]
    by (rule hoare_pre) (simp_all add: initialAuthConfig_def)
  show ?thesis
    unfolding RunIKE_AUTH_Full_def Let_def
    by (intro bind_auth hoare_prod hoare_bind_lift hoare_option hoare_lift hoare_loop hoare_bind_any) (auto simp: last_heard_def)
qed

section \<open>A responder that does not authenticate\<close>

text \<open>Until the first request is sent nothing is, and a failure before it leaves no request.\<close>

lemma quiet_read: "hoare (\<lambda>w. io_sent w = []) (read_random f rd) (\<lambda>_ w. io_sent w = []) (\<lambda>w. io_sent w = [])"
  by (auto simp: hoare_def read_random_def split: sum.splits)

lemma quiet_lift: "hoare (\<lambda>w. io_sent w = []) (lift_res r) (\<lambda>x w. io_sent w = [] \<and> r = Inr x) (\<lambda>w. io_sent w = [])"
  by (rule hoare_lift) auto

lemma quiet_bind_lift:
  "(\<And>x. r = Inr x \<Longrightarrow> hoare (\<lambda>w. io_sent w = []) (f x) Q (\<lambda>w. io_sent w = [])) \<Longrightarrow>
   hoare (\<lambda>w. io_sent w = []) (abind (lift_res r) f) Q (\<lambda>w. io_sent w = [])"
  by (rule hoare_abind [OF quiet_lift]) (auto simp: hoare_def)

lemma quiet_localChildSPI:
  "hoare (\<lambda>w. io_sent w = []) (fullAuthLocalChildSPI rr cfg) (\<lambda>_ w. io_sent w = []) (\<lambda>w. io_sent w = [])"
  unfolding fullAuthLocalChildSPI_def by (intro hoare_option hoare_if quiet_read) (auto intro: hoare_lift)

lemma quiet_authIV: "hoare (\<lambda>w. io_sent w = []) (authIV rd p iv) (\<lambda>_ w. io_sent w = []) (\<lambda>w. io_sent w = [])"
  unfolding authIV_def by (intro hoare_if quiet_read) (auto intro: hoare_lift)

lemma quiet_initial_payloads:
  "hoare (\<lambda>w. io_sent w = []) (BuildIKEAuthInitialPayloads rr cfg)
     (\<lambda>_ w. io_sent w = [] \<and> (\<exists>sa. authOfferedChildSA (ac_ChildSA cfg) (ac_ChildSPI cfg) = Inr sa)) (\<lambda>w. io_sent w = [])"
proof -
  let ?Q = "\<lambda>_ w. io_sent w = [] \<and> (\<exists>sa. authOfferedChildSA (ac_ChildSA cfg) (ac_ChildSPI cfg) = Inr sa)"
  have sa: "hoare (\<lambda>w. io_sent w = []) (if length (sa_Proposals (ac_ChildSA cfg)) = 0
      then abind (if length (ac_ChildSPI cfg) = 0 then read_random f rd else areturn (ac_ChildSPI cfg)) (\<lambda>spi.
        if length spi \<noteq> 4 then afail e else areturn (DefaultESPProposal spi))
      else lift_res (childSAWithLocalSPI (ac_ChildSA cfg) (ac_ChildSPI cfg))) ?Q (\<lambda>w. io_sent w = [])" for f rd e
  proof (rule hoare_if)
    assume e: "length (sa_Proposals (ac_ChildSA cfg)) = 0"
    have "hoare (\<lambda>w. io_sent w = []) (if length (ac_ChildSPI cfg) = 0 then read_random f rd else areturn (ac_ChildSPI cfg))
        (\<lambda>_ w. io_sent w = []) (\<lambda>w. io_sent w = [])"
      by (intro hoare_if quiet_read) (auto intro: hoare_lift)
    then show "hoare (\<lambda>w. io_sent w = []) (abind (if length (ac_ChildSPI cfg) = 0 then read_random f rd else areturn (ac_ChildSPI cfg)) (\<lambda>spi.
        if length spi \<noteq> 4 then afail e else areturn (DefaultESPProposal spi))) ?Q (\<lambda>w. io_sent w = [])"
      by (rule hoare_abind) (use e in \<open>auto intro!: hoare_if hoare_lift simp: authOfferedChildSA_def\<close>)
  next
    assume "length (sa_Proposals (ac_ChildSA cfg)) \<noteq> 0"
    then show "hoare (\<lambda>w. io_sent w = []) (lift_res (childSAWithLocalSPI (ac_ChildSA cfg) (ac_ChildSPI cfg))) ?Q (\<lambda>w. io_sent w = [])"
      by (intro hoare_lift) (auto simp: authOfferedChildSA_def)
  qed
  have rest: "hoare (?Q x) (abind (lift_res r1) (\<lambda>a. abind (lift_res (r2 a)) (\<lambda>b. abind (lift_res (r3 a b)) (\<lambda>d. abind (lift_res (r4 a b d)) (\<lambda>e. areturn (g a b d e))))))
      ?Q (\<lambda>w. io_sent w = [])" for x r1 r2 r3 r4 g
    by (auto simp: hoare_def abind_def split: sum.splits)
  show ?thesis
    unfolding BuildIKEAuthInitialPayloads_def
    by (intro quiet_bind_lift hoare_abind [OF sa] rest)
qed

lemma first_exchange:
  assumes "\<forall>req. tr 0 req = Inr raw" "unprotectAuthResponse c raw init keys mid = Inr (msg, inner)"
  shows "hoare (\<lambda>w. io_sent w = []) (authExchange c rd tr init keys mid ps iv)
    (\<lambda>(_, resp, inner') w. length (io_sent w) = 1 \<and> resp = raw \<and> inner' = inner) (\<lambda>w. io_sent w = [])"
proof -
  have "hoare (\<lambda>w. io_sent w = []) (abind (ExchangeIKE tr reqBytes) (\<lambda>respBytes.
     abind (lift_res (unprotectAuthResponse c respBytes init keys mid)) (\<lambda>(_, inner). areturn (reqBytes, respBytes, inner))))
    (\<lambda>(_, resp, inner') w. length (io_sent w) = 1 \<and> resp = raw \<and> inner' = inner) (\<lambda>w. io_sent w = [])" for reqBytes
    using assms by (auto simp: hoare_def abind_def ExchangeIKE_def)
  then show ?thesis
    unfolding authExchange_def by (intro hoare_abind [OF quiet_authIV] quiet_bind_lift) (auto split: prod.splits)
qed

lemma no_eap: "list_all (\<lambda>p. pl_Type p \<noteq> PayloadEAP) ps \<Longrightarrow> firstEAPPacketWithRaw ps = Inr None"
  by (induction ps) auto

lemma unauthenticated_identity:
  assumes "ac_Transport cfg = Some tr" "\<forall>req. tr 0 req = Inr raw" "keys = authKeys (ac_Keys cfg) (ac_Init cfg)"
    and "first = (if ac_InitialMessageID cfg = 0 then 1 else ac_InitialMessageID cfg)"
    and "unprotectAuthResponse c raw (ac_Init cfg) keys first = Inr (msg, inner)" "list_all (\<lambda>p. pl_Type p \<noteq> PayloadEAP) inner"
  shows "hoare (\<lambda>w. io_sent w = []) (RunIKE_AUTH_EAPIdentity c rr cfg)
    (\<lambda>auth w. length (io_sent w) = 1 \<and> authFinalResponse auth = (inner, raw) \<and> ar_NextMessageID auth = first + 1 \<and>
      (\<exists>sa. authOfferedChildSA (ac_ChildSA cfg) (ac_ChildSPI cfg) = Inr sa)) (\<lambda>w. io_sent w = [])"
proof -
  let ?Q = "\<lambda>auth w. length (io_sent w) = 1 \<and> authFinalResponse auth = (inner, raw) \<and> ar_NextMessageID auth = first + 1 \<and>
      (\<exists>sa. authOfferedChildSA (ac_ChildSA cfg) (ac_ChildSPI cfg) = Inr sa)"
  let ?offer = "\<exists>sa. authOfferedChildSA (ac_ChildSA cfg) (ac_ChildSPI cfg) = Inr sa"
  have ex: "hoare (\<lambda>w. io_sent w = [] \<and> ?offer) (authExchange c rd tr (ac_Init cfg) keys first ps iv)
    (\<lambda>(req, resp, inner') w. length (io_sent w) = 1 \<and> resp = raw \<and> inner' = inner \<and> ?offer) (\<lambda>w. io_sent w = [])" for rd ps iv
    using first_exchange [of tr raw c "ac_Init cfg" keys first msg inner rd ps iv, OF assms(2,5)] by (fastforce simp: hoare_def split: sum.splits prod.splits)
  show ?thesis
    unfolding RunIKE_AUTH_EAPIdentity_def assms(1) Let_def assms(3,4) [symmetric] option.case
    apply (intro quiet_bind_lift hoare_if hoare_abind [OF quiet_initial_payloads] hoare_abind [OF ex])
     apply (rule hoare_lift; simp)
    apply (auto simp: hoare_def no_eap [OF assms(6)] authFinalResponse_def split: prod.splits)
    done
qed

section \<open>Properties\<close>

text \<open>C2: Every run of the authentication ends within 35 requests, whatever the responder and the SIM answer, and
  numbers them without a gap: the requests it hands to the transport, also when it fails, are IKE_AUTH messages
  under the keys of the IKE SA, with consecutive message numbers from the configured first one (1 by default) on; a
  successful run reports the next number.\<close>

theorem auth_requests_numbered:
  assumes "crypto_ok c" and "keys = authKeys (fa_Keys cfg) (fa_Init cfg)"
    and "first = (if fa_InitialMessageID cfg = 0 then 1 else fa_InitialMessageID cfg)"
    and "RunIKE_AUTH_Full c rr cfg \<lparr>io_sent = [], io_reads = k\<rparr> = (r, w)"
  shows "length (io_sent w) \<le> 35 \<and>
    (\<forall>i < length (io_sent w). \<exists>msg inner. UnprotectMessage c (io_sent w ! i) keys True = Inr (msg, inner) \<and>
       hdr_ExchangeType (msg_Header msg) = ExchangeIKE_AUTH \<and> hdr_MessageID (msg_Header msg) = first + of_nat i) \<and>
    (\<forall>x. r = Inr x \<longrightarrow> fx_NextMessageID x = first + of_nat (length (io_sent w)))"
  using sends_Full [OF assms(1-3), of rr] assms(4)
  by (cases r) (auto simp: sends_def hoare_def numbered_def dest!: spec [of _ "\<lparr>io_sent = [], io_reads = k\<rparr>"])

text \<open>C5: A successful authentication yields a child SA within the offer.  The last response is the transport's
  answer to the last request and opens under the keys of the IKE SA; the child SA, its proposal, selectors and
  configuration, is read from its payloads; its proposal is one of the client's with transforms the client offered, every
  packet its selectors let through is let through by the client's selectors (any address by default), and its keys are
  derived from SK_d and the nonces of IKE_SA_INIT.  The random source is assumed to give as many octets as it is asked for.\<close>

theorem auth_child_within_offer:
  assumes "RunIKE_AUTH_Full c rr cfg w = (Inr r, w')" and "\<forall>n. random_ok (reader_of (fa_Random cfg) rr n)"
  shows "(\<exists>tr sent req msg. fa_Transport cfg = Some tr \<and> io_sent w' = sent @ [req] \<and>
      tr (length sent) req = Inr (fx_FinalResponseBytes r) \<and>
      UnprotectMessage c (fx_FinalResponseBytes r) (authKeys (fa_Keys cfg) (fa_Init cfg)) False = Inr (msg, fx_FinalResponseInner r)) \<and>
    (\<exists>child out sa p q. fx_ChildSA r = Some child \<and> cs_NextMessageID child = fx_NextMessageID r \<and>
      childPayloads_loop (fx_FinalResponseInner r) NoChildSAResult = Inr out \<and>
      cs_SelectedSA child = cs_SelectedSA out \<and> cs_TSi child = cs_TSi out \<and> cs_TSr child = cs_TSr out \<and>
      cs_Configuration child = cs_Configuration out \<and>
      authOfferedChildSA (fa_ChildSA cfg) (cs_LocalSPI child) = Inr sa \<and>
      sa_Proposals (cs_SelectedSA child) = [p] \<and> q \<in> set (sa_Proposals sa) \<and>
      (\<forall>t \<in> set (prop_Transforms p). \<exists>t' \<in> set (prop_Transforms q). same_transform t' t) \<and>
      (\<forall>s f. s \<in> set (tss_Selectors (cs_TSi child)) \<longrightarrow> lets_through (canonical_selector s) f \<longrightarrow>
        (\<exists>q \<in> set (tss_Selectors (trafficSelectorsOrSWuAny (fa_TSi cfg))). lets_through (canonical_selector q) f)) \<and>
      (\<forall>s f. s \<in> set (tss_Selectors (cs_TSr child)) \<longrightarrow> lets_through (canonical_selector s) f \<longrightarrow>
        (\<exists>q \<in> set (tss_Selectors (trafficSelectorsOrSWuAny (fa_TSr cfg))). lets_through (canonical_selector q) f)) \<and>
      DeriveChildSAKeysWithNonces c (kmp_PRF (ik_Profile (ir_Keys (fa_Init cfg)))) (ik_SKD (ir_Keys (fa_Init cfg)))
        (ir_NonceI (fa_Init cfg)) (ir_NonceR (fa_Init cfg)) (cs_SelectedSA child) = Inr (cs_Keys child))"
proof -
  obtain spi sa child where r: "fx_ChildSA r = Some child" "authOfferedChildSA (fa_ChildSA cfg) spi = Inr sa" "sa_Proposals sa \<noteq> []"
    and p: "parseChildSAOffered c (fa_Init cfg) (fx_FinalResponseInner r) spi (fx_NextMessageID r) sa
       (trafficSelectorsOrSWuAny (fa_TSi cfg)) (trafficSelectorsOrSWuAny (fa_TSr cfg)) = Inr child"
    using Full_child [OF assms] by metis
  obtain out ch where out: "childPayloads_loop (fx_FinalResponseInner r) NoChildSAResult = Inr out"
      "cs_SelectedSA child = cs_SelectedSA out" "cs_TSi child = cs_TSi out" "cs_TSr child = cs_TSr out" "cs_Configuration child = cs_Configuration out"
    and ch: "child = ch\<lparr>cs_NextMessageID := fx_NextMessageID r\<rparr>"
    and c: "parseChildSAResultWithNonces c (fa_Init cfg) (fx_FinalResponseInner r) spi (ir_NonceI (fa_Init cfg)) (ir_NonceR (fa_Init cfg)) (Some sa)
       (trafficSelectorsOrSWuAny (fa_TSi cfg)) (trafficSelectorsOrSWuAny (fa_TSr cfg)) = Inr ch"
    using parseChildSAOffered_Inr [OF p r(3)] by metis
  note P = parseChildSAResult_Inr [OF c]
  have ne: "tss_Selectors (trafficSelectorsOrSWuAny ts) \<noteq> []" for ts
    by (simp add: trafficSelectorsOrSWuAny_def SWuAnyTrafficSelectors_def)
  note n = narrowing_sound [OF P(2) [OF ne]] narrowing_sound [OF P(3) [OF ne]]
  obtain p q where pq: "sa_Proposals (cs_SelectedSA ch) = [p]" "q \<in> set (sa_Proposals sa)"
      "\<forall>t \<in> set (prop_Transforms p). \<exists>t' \<in> set (prop_Transforms q). same_transform t' t"
    using selection_offered [OF P(1) [OF refl]] by metis
  have heard: "\<exists>tr sent req msg. fa_Transport cfg = Some tr \<and> io_sent w' = sent @ [req] \<and>
      tr (length sent) req = Inr (fx_FinalResponseBytes r) \<and>
      UnprotectMessage c (fx_FinalResponseBytes r) (authKeys (fa_Keys cfg) (fa_Init cfg)) False = Inr (msg, fx_FinalResponseInner r)"
    using hoareD [OF Full_heard TrueI assms(1)] unfolding last_heard_def heard_def .
  show ?thesis
    by (rule conjI, rule heard, rule exI [of _ child], rule exI [of _ out], rule exI [of _ sa], rule exI [of _ p], rule exI [of _ q])
      (use r out pq n P(4,5) in \<open>simp add: ch\<close>)
qed

text \<open>C1: The last exchange authenticates both ends by the EAP master key.  When it succeeds, there is a master key; the
  request carries one payload, an AUTH whose value is the keyed hash of the client's IKE_SA_INIT request, the
  responder's nonce and the client's identity; the transport's answer to it opens under the keys of the IKE SA and has
  an AUTH whose value is the keyed hash of the responder's IKE_SA_INIT response, the client's nonce and the responder's
  identity, which is the one of the first response or, when that has none, of the last.\<close>

theorem final_exchange_mutual_auth:
  assumes "crypto_ok c" and "runIKEAuthEAPFinal c rr cfg out offer w = (Inr (child, resp, inner), w')"
    and "keys = authKeys (fa_Keys cfg) (fa_Init cfg)" and "msk = keys_MSK (fx_EAPKeys out)"
    and "prf = cr_hmac c (kmp_PRF (ik_Profile keys))"
  shows "msk \<noteq> [] \<and>
    (\<exists>msg p. UnprotectMessage c (last (io_sent w')) keys True = Inr (msg, [p]) \<and>
      auth_over prf msk (ir_RequestBytes (fa_Init cfg)) (ir_NonceR (fa_Init cfg)) (ik_SKPi keys) (fa_InitiatorID cfg) p) \<and>
    (\<exists>tr msg. fa_Transport cfg = Some tr \<and> tr (length (io_sent w)) (last (io_sent w')) = Inr resp \<and>
      UnprotectMessage c resp keys False = Inr (msg, inner)) \<and>
    (\<exists>ident q. (case firstIKEAuthIdentity (ar_InitialResponseInner (fx_Auth out)) PayloadIDr of
        Inr None \<Rightarrow> firstIKEAuthIdentity inner PayloadIDr | x \<Rightarrow> x) = Inr (Some ident) \<and> q \<in> set inner \<and>
      auth_over prf msk (ir_ResponseBytes (fa_Init cfg)) (ir_NonceI (fa_Init cfg)) (ik_SKPr keys) ident q)"
  using assms(2,3)
proof (rule final_Inr)
  fix authData p iv req rnd msg tr rmsg ident q
  assume a: "keys_MSK (fx_EAPKeys out) \<noteq> []"
      "eapSharedKeyAUTH c (fa_Init cfg) keys (fa_InitiatorID cfg) (keys_MSK (fx_EAPKeys out)) True = Inr authData"
      "AuthenticationPayload AuthMethodSharedKeyMIC authData = Inr p"
      "ProtectMessage c rnd (authHeader (fa_Init cfg) (fx_NextMessageID out) True) keys True [p] iv = Inr (msg, req)"
      "io_sent w' = io_sent w @ [req]"
    and r: "fa_Transport cfg = Some tr" "tr (length (io_sent w)) req = Inr resp" "UnprotectMessage c resp keys False = Inr (rmsg, inner)"
    and id: "(case firstIKEAuthIdentity (ar_InitialResponseInner (fx_Auth out)) PayloadIDr of
        Inr None \<Rightarrow> firstIKEAuthIdentity inner PayloadIDr | x \<Rightarrow> x) = Inr (Some ident)"
    and q: "firstIKEAuthPayload inner PayloadAUTH = Some q"
      "verifyEAPSharedKeyAUTH c (fa_Init cfg) keys ident (keys_MSK (fx_EAPKeys out)) q False = Inr ()"
  obtain p' where p': "link_payloads [p] = [p']" "pl_Type p' = pl_Type p" "pl_Body p' = pl_Body p" by simp
  have "UnprotectMessage c (last (io_sent w')) keys True = Inr (complete_message msg, [p'])"
    using unprotect_protect [OF assms(1) AuthenticationPayload_type [OF a(3)] a(4)] p'(1) a(5) by simp
  moreover have "auth_over prf msk (ir_RequestBytes (fa_Init cfg)) (ir_NonceR (fa_Init cfg)) (ik_SKPi keys) (fa_InitiatorID cfg) p'"
    using verified_AUTH [OF eapSharedKeyAUTH_verifies [OF assms(1) a(2,3) p'(2,3)]] assms(4,5) by simp
  moreover have "q \<in> set inner" using q(1) by (auto simp: firstIKEAuthPayload_def find_Some_iff)
  moreover have "auth_over prf msk (ir_ResponseBytes (fa_Init cfg)) (ir_NonceI (fa_Init cfg)) (ik_SKPr keys) ident q"
    using verified_AUTH [OF q(2)] assms(4,5) by simp
  moreover have "tr (length (io_sent w)) (last (io_sent w')) = Inr resp" using r(2) a(5) by simp
  moreover have "msk \<noteq> []" using a(1) assms(4) by simp
  ultimately show ?thesis using id r(1,3) by (intro conjI exI)
qed

text \<open>C4: The responder need not authenticate.  Let a responder that has the keys of the IKE SA, which are made before
  anyone is authenticated, answer the first request with a selected proposal and traffic selectors that are acceptable for
  the offer, and with no EAP, no identity and no AUTH payload.  Whatever else the configuration, the SIM and the stored EAP
  keys are, once the client has sent that request the authentication succeeds: the child SA is read from this answer
  and accepted after the one exchange, without any EAP exchange, and the one answer has no AUTH that could be checked.\<close>

theorem child_sa_without_authentication:
  assumes "fa_Transport cfg = Some tr" and "\<forall>req. tr 0 req = Inr raw" and "keys = authKeys (fa_Keys cfg) (fa_Init cfg)"
    and "first = (if fa_InitialMessageID cfg = 0 then 1 else fa_InitialMessageID cfg)"
    and "unprotectAuthResponse c raw (fa_Init cfg) keys first = Inr (msg, inner)"
    and "list_all (\<lambda>p. pl_Type p \<notin> {PayloadAUTH, PayloadEAP, PayloadIDr}) inner" and "hasPayload inner PayloadSA"
    and "\<forall>spi sa. authOfferedChildSA (fa_ChildSA cfg) spi = Inr sa \<longrightarrow>
      (\<exists>child. parseChildSAOffered c (fa_Init cfg) inner spi (first + 1) sa (trafficSelectorsOrSWuAny (fa_TSi cfg))
        (trafficSelectorsOrSWuAny (fa_TSr cfg)) = Inr child)"
    and "RunIKE_AUTH_Full c rr cfg \<lparr>io_sent = [], io_reads = k\<rparr> = (res, w)" and "io_sent w \<noteq> []"
  shows "\<exists>r child. res = Inr r \<and> fx_ChildSA r = Some child \<and> length (io_sent w) = 1 \<and> fx_AKAChallenges r = [] \<and>
    fx_FinalResponseBytes r = raw \<and> fx_FinalResponseInner r = inner"
proof -
  have eap: "list_all (\<lambda>p. pl_Type p \<noteq> PayloadEAP) inner" using assms(6) by (auto simp: list_all_iff)
  have auth: "hoare (\<lambda>w. io_sent w = []) (RunIKE_AUTH_EAPIdentity c rr (initialAuthConfig cfg spi))
    (\<lambda>auth w. length (io_sent w) = 1 \<and> authFinalResponse auth = (inner, raw) \<and> ar_NextMessageID auth = first + 1 \<and>
      (\<exists>sa. authOfferedChildSA (fa_ChildSA cfg) spi = Inr sa)) (\<lambda>w. io_sent w = [])" for spi
  proof -
    have sel: "ac_Transport (initialAuthConfig cfg spi) = fa_Transport cfg" "ac_Init (initialAuthConfig cfg spi) = fa_Init cfg"
      "ac_Keys (initialAuthConfig cfg spi) = fa_Keys cfg" "ac_InitialMessageID (initialAuthConfig cfg spi) = fa_InitialMessageID cfg"
      "ac_ChildSA (initialAuthConfig cfg spi) = fa_ChildSA cfg" "ac_ChildSPI (initialAuthConfig cfg spi) = spi"
      by (simp_all add: initialAuthConfig_def)
    show ?thesis
      using unauthenticated_identity [of "initialAuthConfig cfg spi" tr raw keys first c msg inner rr, unfolded sel, OF assms(1-5) eap] .
  qed
  have "hoare (\<lambda>w. io_sent w = []) (RunIKE_AUTH_Full c rr cfg)
    (\<lambda>r w. (\<exists>child. fx_ChildSA r = Some child) \<and> length (io_sent w) = 1 \<and> fx_AKAChallenges r = [] \<and>
      fx_FinalResponseBytes r = raw \<and> fx_FinalResponseInner r = inner) (\<lambda>w. io_sent w = [])"
    unfolding RunIKE_AUTH_Full_def Let_def
    apply (intro hoare_abind [OF quiet_localChildSPI] hoare_abind [OF auth])
    using assms(7,8) by (fastforce simp: hoare_def abind_def parseChildSAIfPresent_def split: sum.splits)
  then show ?thesis using assms(9,10) by (cases res) (auto simp: hoare_def dest!: spec [of _ "\<lparr>io_sent = [], io_reads = k\<rparr>"])
qed

section \<open>Concrete runs\<close>

definition demo_reader :: reader where
  "demo_reader = (\<lambda>_ n. Inr (replicate n 9))"

text \<open>A responder that answers every request with the same payloads under one message number.\<close>

definition demo_auth_cfg :: "u32 \<Rightarrow> Payload list \<Rightarrow> FullAuthConfig" where
  "demo_auth_cfg mid inner =
     \<lparr>fa_Transport = Some (\<lambda>_ _. Inr (demo_reply (authHeader demo_init mid False) inner)), fa_Init = demo_init,
      fa_Keys = demo_ike_keys, fa_SIM = None, fa_EAPKeys = NoKeys, fa_InitiatorID = \<lparr>id_Type = 3, id_Data = [97]\<rparr>,
      fa_EAPIdentity = [97], fa_EAPPseudonym = [], fa_EAPReauthIdentity = [], fa_EAPReauthCounter = 0,
      fa_EAPReauthCounterOK = False, fa_ChildSA = demo_esp_sa INTEG_HMAC_SHA2_256_128, fa_ChildSPI = [],
      fa_TSi = IPv4AnyTrafficSelectors, fa_TSr = IPv4AnyTrafficSelectors,
      fa_Configuration = \<lparr>cfg_Type = CFGRequest, cfg_Attributes = []\<rparr>, fa_Random = None, fa_InitialIV = [], fa_EAPIdentityIV = [],
      fa_EAPReauthIV = [], fa_InitialMessageID = 0\<rparr>"

lemma demo_auth_answer:
  assumes "payloads_wf inner" "inner \<noteq> []" "length (payloads_enc inner) \<le> 1000" "FirstNotifyError inner = None"
  shows "\<exists>msg. unprotectAuthResponse demo_crypto (demo_reply (authHeader demo_init mid False) inner) demo_init demo_ike_keys mid
      = Inr (msg, link_payloads inner)"
proof -
  obtain rmsg where "UnprotectMessage demo_crypto (demo_reply (authHeader demo_init mid False) inner) demo_ike_keys False
      = Inr (complete_message rmsg, link_payloads inner)" "msg_Header rmsg = authHeader demo_init mid False"
    using demo_reply_opens [OF assms(1-3)] by blast
  then show ?thesis
    using assms(4) by (simp add: unprotectAuthResponse_def complete_message_def authHeader_def Let_def)
qed

lemma demo_authExchange:
  assumes "payloads_wf ps" "ps \<noteq> []" "length (payloads_enc ps) \<le> 1000"
    and "payloads_wf inner" "inner \<noteq> []" "length (payloads_enc inner) \<le> 1000" "FirstNotifyError inner = None"
  shows "\<exists>req. authExchange demo_crypto demo_reader (\<lambda>_ _. Inr (demo_reply (authHeader demo_init mid False) inner)) demo_init
    demo_ike_keys mid ps [] w = (Inr (req, demo_reply (authHeader demo_init mid False) inner, link_payloads inner),
      w\<lparr>io_reads := io_reads w + 1, io_sent := io_sent w @ [req]\<rparr>)"
proof -
  have iv: "authIV demo_reader (ik_Profile demo_ike_keys) [] w = (Inr (replicate 8 9), w\<lparr>io_reads := io_reads w + 1\<rparr>)"
    by (simp add: authIV_def read_random_def RandomIV_def randomBytes_def demo_reader_def)
  obtain msg raw where req: "ProtectMessage demo_crypto (demo_reader 0) (authHeader demo_init mid True) demo_ike_keys True ps
      (replicate 8 9) = Inr (msg, raw)"
    using demo_protects [OF assms(1-3), of "replicate 8 9"] by fastforce
  obtain rmsg where "unprotectAuthResponse demo_crypto (demo_reply (authHeader demo_init mid False) inner) demo_init demo_ike_keys mid
      = Inr (rmsg, link_payloads inner)"
    using demo_auth_answer [OF assms(4-7)] by blast
  with req show ?thesis
    by (simp add: authExchange_def abind_def iv ExchangeIKE_def)
qed

lemma firstEAP_link [simp]: "firstEAPPacketWithRaw (link_payloads ps) = firstEAPPacketWithRaw ps"
  by (induction ps) auto

lemma hasPayload_link [simp]: "hasPayload (link_payloads ps) t = hasPayload ps t"
  by (induction ps) (auto simp: hasPayload_def)

text \<open>The responder's child SA is accepted from any message that has it.\<close>

lemma demo_offered_child:
  assumes "childPayloads_loop inner NoChildSAResult = childPayloads_loop (demo_inner INTEG_HMAC_SHA2_256_128) NoChildSAResult"
  shows "\<exists>child. parseChildSAOffered demo_crypto demo_init (link_payloads inner) spi mid
    (demo_esp_sa INTEG_HMAC_SHA2_256_128) IPv4AnyTrafficSelectors IPv4AnyTrafficSelectors = Inr child"
proof -
  have "sa_Proposals (demo_esp_sa INTEG_HMAC_SHA2_256_128) \<noteq> []" by (simp add: demo_esp_sa_def)
  then show ?thesis
    using demo_child_sa parseChildSAResult_local [of demo_init demo_init "link_payloads inner" "demo_inner INTEG_HMAC_SHA2_256_128"
        demo_crypto spi "[7]" "[9]" "Some (demo_esp_sa INTEG_HMAC_SHA2_256_128)"
        IPv4AnyTrafficSelectors IPv4AnyTrafficSelectors "[0, 0, 0, 6]"] assms
    by (auto simp: parseChildSAOffered_def)
qed

lemma demo_initial_payloads:
  assumes "ac_InitiatorID acfg = \<lparr>id_Type = 3, id_Data = [97]\<rparr>" "ac_ChildSA acfg = demo_esp_sa INTEG_HMAC_SHA2_256_128"
    "ac_TSi acfg = IPv4AnyTrafficSelectors" "ac_TSr acfg = IPv4AnyTrafficSelectors"
    "ac_Configuration acfg = \<lparr>cfg_Type = CFGRequest, cfg_Attributes = []\<rparr>"
  shows "\<exists>ps. BuildIKEAuthInitialPayloads rr acfg w = (Inr ps, w) \<and>
    payloads_wf ps \<and> ps \<noteq> [] \<and> length (payloads_enc ps) \<le> 1000"
proof -
  obtain b t where bt: "SecurityAssociation_MarshalBinary (demo_esp_sa INTEG_HMAC_SHA2_256_128) = Inr b" "length b \<le> 100"
    "TrafficSelectors_MarshalBinary IPv4AnyTrafficSelectors = Inr t" "length t \<le> 100"
    using demo_request by blast
  have sa: "\<And>spi. childSAWithLocalSPI (demo_esp_sa INTEG_HMAC_SHA2_256_128) spi = Inr (demo_esp_sa INTEG_HMAC_SHA2_256_128)"
    "sa_Proposals (demo_esp_sa INTEG_HMAC_SHA2_256_128) \<noteq> []" "tss_Selectors IPv4AnyTrafficSelectors \<noteq> []"
    by (simp_all add: childSAWithLocalSPI_def demo_esp_sa_def IPv4AnyTrafficSelectors_def Let_def)
  have id: "IdentityPayload PayloadIDi \<lparr>id_Type = 3, id_Data = [97]\<rparr> = Inr (mkPayload PayloadIDi [3, 0, 0, 0, 97])"
    by (simp add: IdentityPayload_def Identity_MarshalBinary_def)
  have cfg: "ConfigurationPayload (firstConfiguration \<lparr>cfg_Type = CFGRequest, cfg_Attributes = []\<rparr> SWuConfigurationRequest)
      = Inr (mkPayload PayloadCP [1, 0, 0, 0])"
    by (simp add: ConfigurationPayload_def firstConfiguration_def Configuration_MarshalBinary_def)
  show ?thesis
    using bt sa by (simp add: BuildIKEAuthInitialPayloads_def assms SecurityAssociationPayload_def
        TrafficSelectorsPayload_def id cfg isEncryptedPayload_def)
qed

lemma demo_inner_plain:
  "payloads_wf (demo_inner integ) \<and> demo_inner integ \<noteq> [] \<and> length (payloads_enc (demo_inner integ)) \<le> 1000 \<and>
   FirstNotifyError (demo_inner integ) = None \<and> firstEAPPacketWithRaw (demo_inner integ) = Inr None \<and>
   hasPayload (demo_inner integ) PayloadSA \<and> list_all (\<lambda>p. pl_Type p \<notin> {PayloadAUTH, PayloadEAP, PayloadIDr}) (demo_inner integ)"
  using demo_inner_shape [of integ] by (auto simp: isEncryptedPayload_def hasPayload_def)

lemma link_types: "list_all (\<lambda>p. P (pl_Type p)) (link_payloads ps) = list_all (\<lambda>p. P (pl_Type p)) ps"
  by (induction ps) auto

lemma demo_unauthenticated_run:
  "\<exists>r w child. RunIKE_AUTH_Full demo_crypto demo_reader
      ((demo_auth_cfg 1 (demo_inner INTEG_HMAC_SHA2_256_128))\<lparr>fa_SIM := provider, fa_EAPKeys := ek\<rparr>)
      \<lparr>io_sent = [], io_reads = 0\<rparr> = (Inr r, w) \<and>
    fx_ChildSA r = Some child \<and> length (io_sent w) = 1 \<and> fx_AKAChallenges r = [] \<and>
    list_all (\<lambda>p. pl_Type p \<notin> {PayloadAUTH, PayloadEAP, PayloadIDr}) (fx_FinalResponseInner r)"
proof -
  let ?inner = "demo_inner INTEG_HMAC_SHA2_256_128" and ?sa = "demo_esp_sa INTEG_HMAC_SHA2_256_128"
  let ?cfg = "(demo_auth_cfg 1 ?inner)\<lparr>fa_SIM := provider, fa_EAPKeys := ek\<rparr>"
  let ?w = "\<lparr>io_sent = [], io_reads = 0\<rparr> :: io"
  note plain = demo_inner_plain [of INTEG_HMAC_SHA2_256_128]
  define acfg where "acfg = initialAuthConfig ?cfg [0, 0, 0, 5]"
  have spi: "fullAuthLocalChildSPI demo_reader ?cfg ?w = (Inr [0, 0, 0, 5], ?w)"
    by (simp add: fullAuthLocalChildSPI_def demo_auth_cfg_def demo_esp_sa_def)
  obtain ps where ps: "BuildIKEAuthInitialPayloads demo_reader acfg ?w = (Inr ps, ?w)" "payloads_wf ps" "ps \<noteq> []"
    "length (payloads_enc ps) \<le> 1000"
    using demo_initial_payloads [of acfg demo_reader ?w] by (auto simp: acfg_def initialAuthConfig_def demo_auth_cfg_def)
  obtain req where ex: "authExchange demo_crypto demo_reader (\<lambda>_ _. Inr (demo_reply (authHeader demo_init 1 False) ?inner)) demo_init
      demo_ike_keys 1 ps [] ?w = (Inr (req, demo_reply (authHeader demo_init 1 False) ?inner, link_payloads ?inner),
        \<lparr>io_sent = [req], io_reads = 1\<rparr>)"
    using demo_authExchange [OF ps(2-4), of ?inner 1 ?w] plain by auto
  obtain auth where auth: "RunIKE_AUTH_EAPIdentity demo_crypto demo_reader acfg ?w = (Inr auth, \<lparr>io_sent = [req], io_reads = 1\<rparr>)"
    "authFinalResponse auth = (link_payloads ?inner, demo_reply (authHeader demo_init 1 False) ?inner)" "ar_NextMessageID auth = 2"
    using ps(1) ex plain
    by (simp add: RunIKE_AUTH_EAPIdentity_def Let_def acfg_def initialAuthConfig_def demo_auth_cfg_def authKeys_def abind_def authFinalResponse_def)
  obtain child where child: "parseChildSAOffered demo_crypto demo_init (link_payloads ?inner) [0, 0, 0, 5] 2 ?sa
      IPv4AnyTrafficSelectors IPv4AnyTrafficSelectors = Inr child"
    using demo_offered_child [OF refl] by blast
  have offer: "authOfferedChildSA ?sa [0, 0, 0, 5] = Inr ?sa" "trafficSelectorsOrSWuAny IPv4AnyTrafficSelectors = IPv4AnyTrafficSelectors"
    by (simp_all add: authOfferedChildSA_def childSAWithLocalSPI_def demo_esp_sa_def trafficSelectorsOrSWuAny_def IPv4AnyTrafficSelectors_def)
  have types: "list_all (\<lambda>p. pl_Type p \<notin> {PayloadAUTH, PayloadEAP, PayloadIDr}) (link_payloads ?inner)"
    using plain link_types [of "\<lambda>t. t \<notin> {PayloadAUTH, PayloadEAP, PayloadIDr}"] by blast
  have sel: "fa_ChildSA ?cfg = ?sa" "fa_TSi ?cfg = IPv4AnyTrafficSelectors" "fa_TSr ?cfg = IPv4AnyTrafficSelectors" "fa_Init ?cfg = demo_init"
    by (simp_all add: demo_auth_cfg_def)
  show ?thesis
    unfolding RunIKE_AUTH_Full_def
    using spi auth child types plain
    by (simp add: abind_def acfg_def [symmetric] Let_def sel offer parseChildSAIfPresent_def)
qed

theorem auth_requests_numbered_witness:
  "\<exists>r w msg inner. RunIKE_AUTH_Full demo_crypto demo_reader (demo_auth_cfg 1 (demo_inner INTEG_HMAC_SHA2_256_128))
      \<lparr>io_sent = [], io_reads = 0\<rparr> = (Inr r, w) \<and> length (io_sent w) = 1 \<and>
    UnprotectMessage demo_crypto (io_sent w ! 0) demo_ike_keys True = Inr (msg, inner) \<and>
    hdr_MessageID (msg_Header msg) = 1 \<and> fx_NextMessageID r = 2"
proof -
  let ?cfg = "demo_auth_cfg 1 (demo_inner INTEG_HMAC_SHA2_256_128)"
  have eq: "?cfg\<lparr>fa_SIM := None, fa_EAPKeys := NoKeys\<rparr> = ?cfg" by (simp add: demo_auth_cfg_def)
  obtain r w where run: "RunIKE_AUTH_Full demo_crypto demo_reader ?cfg \<lparr>io_sent = [], io_reads = 0\<rparr> = (Inr r, w)" "length (io_sent w) = 1"
    using demo_unauthenticated_run [where provider = None and ek = NoKeys] unfolding eq by blast
  have "demo_ike_keys = authKeys (fa_Keys ?cfg) (fa_Init ?cfg)" "(1 :: u32) = (if fa_InitialMessageID ?cfg = 0 then 1 else fa_InitialMessageID ?cfg)"
    by (simp_all add: demo_auth_cfg_def authKeys_def)
  from auth_requests_numbered [OF demo_crypto_ok this run(1)] run show ?thesis by auto
qed

theorem auth_child_within_offer_witness:
  "\<exists>r w child tr sent req. RunIKE_AUTH_Full demo_crypto demo_reader (demo_auth_cfg 1 (demo_inner INTEG_HMAC_SHA2_256_128))
      \<lparr>io_sent = [], io_reads = 0\<rparr> = (Inr r, w) \<and> fx_ChildSA r = Some child \<and>
    fa_Transport (demo_auth_cfg 1 (demo_inner INTEG_HMAC_SHA2_256_128)) = Some tr \<and> io_sent w = sent @ [req] \<and>
    tr (length sent) req = Inr (fx_FinalResponseBytes r)"
proof -
  let ?cfg = "demo_auth_cfg 1 (demo_inner INTEG_HMAC_SHA2_256_128)"
  have eq: "?cfg\<lparr>fa_SIM := None, fa_EAPKeys := NoKeys\<rparr> = ?cfg" by (simp add: demo_auth_cfg_def)
  obtain r w where run: "RunIKE_AUTH_Full demo_crypto demo_reader ?cfg \<lparr>io_sent = [], io_reads = 0\<rparr> = (Inr r, w)"
    using demo_unauthenticated_run [where provider = None and ek = NoKeys] unfolding eq by blast
  have "\<forall>n. random_ok (reader_of (fa_Random ?cfg) demo_reader n)"
    by (simp add: demo_auth_cfg_def demo_reader_def random_ok_def)
  from auth_child_within_offer [OF run this] run show ?thesis by blast
qed

theorem child_sa_without_authentication_witness:
  "\<exists>r w child. RunIKE_AUTH_Full demo_crypto demo_reader (demo_auth_cfg 1 (demo_inner INTEG_HMAC_SHA2_256_128))
      \<lparr>io_sent = [], io_reads = 0\<rparr> = (Inr r, w) \<and> fx_ChildSA r = Some child \<and> length (io_sent w) = 1 \<and> fx_AKAChallenges r = [] \<and>
    list_all (\<lambda>p. pl_Type p \<notin> {PayloadAUTH, PayloadEAP, PayloadIDr}) (fx_FinalResponseInner r)"
proof -
  let ?inner = "demo_inner INTEG_HMAC_SHA2_256_128" and ?sa = "demo_esp_sa INTEG_HMAC_SHA2_256_128"
  let ?cfg = "demo_auth_cfg 1 ?inner"
  note plain = demo_inner_plain [of INTEG_HMAC_SHA2_256_128]
  have eq: "?cfg\<lparr>fa_SIM := None, fa_EAPKeys := NoKeys\<rparr> = ?cfg" by (simp add: demo_auth_cfg_def)
  obtain r w where run: "RunIKE_AUTH_Full demo_crypto demo_reader ?cfg \<lparr>io_sent = [], io_reads = 0\<rparr> = (Inr r, w)" "io_sent w \<noteq> []"
    using demo_unauthenticated_run [where provider = None and ek = NoKeys] unfolding eq by force
  obtain msg where msg: "unprotectAuthResponse demo_crypto (demo_reply (authHeader demo_init 1 False) ?inner) demo_init demo_ike_keys 1
      = Inr (msg, link_payloads ?inner)"
    using demo_auth_answer [of ?inner 1] plain by auto
  have types: "list_all (\<lambda>p. pl_Type p \<notin> {PayloadAUTH, PayloadEAP, PayloadIDr}) (link_payloads ?inner)"
    using plain link_types [of "\<lambda>t. t \<notin> {PayloadAUTH, PayloadEAP, PayloadIDr}"] by blast
  have sel: "fa_Transport ?cfg = Some (\<lambda>_ _. Inr (demo_reply (authHeader demo_init 1 False) ?inner))" "fa_Init ?cfg = demo_init"
    "authKeys (fa_Keys ?cfg) demo_init = demo_ike_keys" "fa_InitialMessageID ?cfg = 0" "fa_ChildSA ?cfg = ?sa"
    "trafficSelectorsOrSWuAny (fa_TSi ?cfg) = IPv4AnyTrafficSelectors" "trafficSelectorsOrSWuAny (fa_TSr ?cfg) = IPv4AnyTrafficSelectors"
    by (simp_all add: demo_auth_cfg_def authKeys_def trafficSelectorsOrSWuAny_def IPv4AnyTrafficSelectors_def)
  have offer: "\<exists>child. parseChildSAOffered demo_crypto demo_init (link_payloads ?inner) spi (1 + 1) sa IPv4AnyTrafficSelectors
      IPv4AnyTrafficSelectors = Inr child" if "authOfferedChildSA ?sa spi = Inr sa" for spi sa
  proof -
    have "sa = ?sa" using that by (auto simp: authOfferedChildSA_def childSAWithLocalSPI_def demo_esp_sa_def)
    then show ?thesis using demo_offered_child [OF refl] by blast
  qed
  have "\<exists>r' child. (Inr r :: FullAuthResult res) = Inr r' \<and> fx_ChildSA r' = Some child \<and> length (io_sent w) = 1 \<and> fx_AKAChallenges r' = [] \<and>
      fx_FinalResponseBytes r' = demo_reply (authHeader demo_init 1 False) ?inner \<and> fx_FinalResponseInner r' = link_payloads ?inner"
    by (rule child_sa_without_authentication [OF sel(1) _ refl refl _ types _ _ run]) (use msg plain offer in \<open>auto simp: sel\<close>)
  with run(1) types show ?thesis by auto
qed

text \<open>The last response of a responder that has the master key.\<close>

definition demo_final_inner :: "Payload list" where
  "demo_final_inner =
     (case eapSharedKeyAUTH demo_crypto demo_init demo_ike_keys \<lparr>id_Type = 2, id_Data = [1]\<rparr> [1] False of
        Inl _ \<Rightarrow> []
      | Inr d \<Rightarrow> [mkPayload PayloadIDr [2, 0, 0, 0, 1], mkPayload PayloadAUTH ([2, 0, 0, 0] @ d)] @
          demo_inner INTEG_HMAC_SHA2_256_128)"

lemma demo_PRF: "PRF demo_crypto SHA256 k d = Inr (replicate 32 (demo_sum (k @ d)))"
  by (simp add: PRF_def demo_crypto_def hash_Available_def)

lemma demo_AUTH: "id_Type i \<noteq> 0 \<Longrightarrow> \<exists>d. eapSharedKeyAUTH demo_crypto demo_init demo_ike_keys i [1] b = Inr d \<and> length d = 32"
  by (cases b) (simp_all add: eapSharedKeyAUTH_def Identity_MarshalBinary_def demo_PRF)

definition demo_progress :: FullAuthResult where
  "demo_progress =
     \<lparr>fx_Auth = \<lparr>ar_InitialRequestBytes = [], ar_InitialResponseBytes = [], ar_IdentityRequestBytes = [],
        ar_IdentityResponseBytes = [], ar_InitialResponseInner = [], ar_IdentityResponseInner = [], ar_EAPRequest = None,
        ar_EAPAfterIdentity = None, ar_EAPIdentityUsed = [], ar_IdentityTranscript = [], ar_NextMessageID = 2\<rparr>,
      fx_IdentityExchanges = [], fx_AKAChallenges = [], fx_ChildSA = None, fx_EAPKeys = NoKeys\<lparr>keys_MSK := [1]\<rparr>,
      fx_EAPLast = None, fx_EAPNotifications = [], fx_EAPClientError = False, fx_EAPNextPseudonym = [], fx_EAPNextReauthID = [],
      fx_EAPReauthenticated = False, fx_EAPReauthCounter = 0, fx_EAPReauthCounterTooSmall = False, fx_SyncFailure = False,
      fx_AuthFailure = False, fx_KDFNegotiations = 0, fx_NextMessageID = 2, fx_FinalResponseBytes = [], fx_FinalResponseInner = []\<rparr>"

definition demo_offer :: childOffer where
  "demo_offer = \<lparr>co_localChildSPI = [0, 0, 0, 5], co_offeredChildSA = demo_esp_sa INTEG_HMAC_SHA2_256_128,
     co_offeredTSi = IPv4AnyTrafficSelectors, co_offeredTSr = IPv4AnyTrafficSelectors\<rparr>"

lemma demo_final_run:
  "\<exists>child resp inner w. runIKEAuthEAPFinal demo_crypto demo_reader (demo_auth_cfg 2 demo_final_inner) demo_progress demo_offer
     \<lparr>io_sent = [], io_reads = 0\<rparr> = (Inr (child, resp, inner), w)"
proof -
  let ?inner = demo_final_inner and ?cfg = "demo_auth_cfg 2 demo_final_inner" and ?w = "\<lparr>io_sent = [], io_reads = 0\<rparr> :: io"
  obtain d where d: "eapSharedKeyAUTH demo_crypto demo_init demo_ike_keys \<lparr>id_Type = 2, id_Data = [1]\<rparr> [1] False = Inr d" "length d = 32"
    using demo_AUTH [of "\<lparr>id_Type = 2, id_Data = [1]\<rparr>" False] by auto
  obtain d' where d': "eapSharedKeyAUTH demo_crypto demo_init demo_ike_keys (fa_InitiatorID ?cfg) [1] True = Inr d'" "length d' = 32"
    using demo_AUTH [of "fa_InitiatorID ?cfg" True] by (auto simp: demo_auth_cfg_def)
  have inner: "?inner = [mkPayload PayloadIDr [2, 0, 0, 0, 1], mkPayload PayloadAUTH ([2, 0, 0, 0] @ d)] @ demo_inner INTEG_HMAC_SHA2_256_128"
    using d by (simp add: demo_final_inner_def)
  let ?p = "mkPayload PayloadAUTH ([2, 0, 0, 0] @ d')"
  have auth: "AuthenticationPayload AuthMethodSharedKeyMIC d' = Inr ?p" "AuthenticationPayload AuthMethodSharedKeyMIC d = Inr (mkPayload PayloadAUTH ([2, 0, 0, 0] @ d))"
    using d(2) d'(2) by (auto simp: AuthenticationPayload_def)
  have wf: "payloads_wf ?inner" "?inner \<noteq> []" "length (payloads_enc ?inner) \<le> 1000" "FirstNotifyError ?inner = None" "hasPayload ?inner PayloadSA"
    using demo_inner_shape [of INTEG_HMAC_SHA2_256_128] d(2) by (auto simp: inner isEncryptedPayload_def hasPayload_def)
  have wp: "payloads_wf [?p]" "[?p] \<noteq> []" "length (payloads_enc [?p]) \<le> 1000" using d'(2) by (auto simp: isEncryptedPayload_def)
  obtain req where ex: "authExchange demo_crypto demo_reader (\<lambda>_ _. Inr (demo_reply (authHeader demo_init 2 False) ?inner)) demo_init
      demo_ike_keys 2 [?p] [] ?w = (Inr (req, demo_reply (authHeader demo_init 2 False) ?inner, link_payloads ?inner),
        \<lparr>io_sent = [req], io_reads = 1\<rparr>)"
    using demo_authExchange [OF wp wf(1-4), of 2 ?w] by auto
  obtain q where q: "firstIKEAuthPayload (link_payloads ?inner) PayloadAUTH = Some q" "pl_Type q = PayloadAUTH" "pl_Body q = [2, 0, 0, 0] @ d"
    by (simp add: inner firstIKEAuthPayload_def isEncryptedPayload_def)
  have v: "verifyEAPSharedKeyAUTH demo_crypto demo_init demo_ike_keys \<lparr>id_Type = 2, id_Data = [1]\<rparr> [1] q False = Inr ()"
    by (rule eapSharedKeyAUTH_verifies [OF demo_crypto_ok d(1) auth(2)]) (simp_all add: q)
  have i: "firstIKEAuthIdentity (link_payloads ?inner) PayloadIDr = Inr (Some \<lparr>id_Type = 2, id_Data = [1]\<rparr>)"
    by (simp add: inner firstIKEAuthIdentity_def firstIKEAuthPayload_def isEncryptedPayload_def ParseIdentity_Cons)
  have "childPayloads_loop ?inner NoChildSAResult = childPayloads_loop (demo_inner INTEG_HMAC_SHA2_256_128) NoChildSAResult"
    by (simp add: inner)
  from demo_offered_child [OF this, of "[0, 0, 0, 5]" 3] obtain child where ch: "offeredChild demo_crypto ?cfg demo_offer (link_payloads ?inner) 3 = Inr (Some child)"
    using wf(5) by (auto simp: parseChildSAIfPresent_def demo_offer_def demo_auth_cfg_def)
  have sel: "authKeys (fa_Keys ?cfg) (fa_Init ?cfg) = demo_ike_keys" "fa_Init ?cfg = demo_init" "fa_Random ?cfg = None"
    "fa_Transport ?cfg = Some (\<lambda>_ _. Inr (demo_reply (authHeader demo_init 2 False) ?inner))"
    "keys_MSK (fx_EAPKeys demo_progress) = [1]" "fx_NextMessageID demo_progress = 2"
    "firstIKEAuthIdentity (ar_InitialResponseInner (fx_Auth demo_progress)) PayloadIDr = Inr None"
    "authKeys (fa_Keys ?cfg) demo_init = demo_ike_keys"
    by (simp_all add: demo_auth_cfg_def authKeys_def demo_progress_def firstIKEAuthIdentity_def firstIKEAuthPayload_def)
  show ?thesis
    using d'(1) auth(1) ex q(1) v i ch
    by (simp add: runIKEAuthEAPFinal_def Let_def sel abind_def)
qed

theorem final_exchange_mutual_auth_witness:
  "\<exists>child resp inner w msg p. runIKEAuthEAPFinal demo_crypto demo_reader (demo_auth_cfg 2 demo_final_inner) demo_progress demo_offer
     \<lparr>io_sent = [], io_reads = 0\<rparr> = (Inr (child, resp, inner), w) \<and>
    UnprotectMessage demo_crypto (last (io_sent w)) demo_ike_keys True = Inr (msg, [p]) \<and>
    auth_over (cr_hmac demo_crypto SHA256) [1] (ir_RequestBytes demo_init) (ir_NonceR demo_init) (ik_SKPi demo_ike_keys)
      \<lparr>id_Type = 3, id_Data = [97]\<rparr> p"
proof -
  let ?cfg = "demo_auth_cfg 2 demo_final_inner"
  obtain child resp inner w where run: "runIKEAuthEAPFinal demo_crypto demo_reader ?cfg demo_progress demo_offer
     \<lparr>io_sent = [], io_reads = 0\<rparr> = (Inr (child, resp, inner), w)"
    using demo_final_run by blast
  have "demo_ike_keys = authKeys (fa_Keys ?cfg) (fa_Init ?cfg)" "[1] = keys_MSK (fx_EAPKeys demo_progress)"
    "cr_hmac demo_crypto SHA256 = cr_hmac demo_crypto (kmp_PRF (ik_Profile demo_ike_keys))"
    "fa_Init ?cfg = demo_init" "fa_InitiatorID ?cfg = \<lparr>id_Type = 3, id_Data = [97]\<rparr>"
    by (simp_all add: demo_auth_cfg_def authKeys_def demo_progress_def)
  with final_exchange_mutual_auth [OF demo_crypto_ok run this(1-3)] run show ?thesis by metis
qed

end
