(* ===== verification/IKE_Informational.thy ===== *)
theory IKE_Informational
  imports IKE_SK IKE_Child Go_Strings
begin

text \<open>
  \<^verbatim>\<open>engine/swu/ikev2/informational.go\<close>, \<^verbatim>\<open>informational_child.go\<close> and
  \<^verbatim>\<open>informational_handling.go\<close>: the INFORMATIONAL exchange, what a received message asks for, and
  the plan of recovery made of it.  The functions that copy a value (\<^verbatim>\<open>cloneNotify\<close> and its kin)
  are the identity on values and are left out.  The plan is updated in place in Go, by closures handed to
  \<^verbatim>\<open>considerRecovery\<close>; here the plan and the priority are passed on.
\<close>

section \<open>Data\<close>

datatype NotifyActionKind =
    NotifyActionNone | NotifyActionMOBIKESupported | NotifyActionMOBIKEUpdateAddresses
  | NotifyActionMOBIKEAdditionalAddress | NotifyActionMOBIKENoAdditionalAddresses
  | NotifyActionMOBIKEEchoCookie2 | NotifyActionRekeyChildSA | NotifyActionRetryWithSuggestedDH
  | NotifyActionRetryWithDifferentProposal | NotifyActionNarrowTrafficSelectors
  | NotifyActionRecreateChildSA | NotifyActionRecreateIKESA | NotifyActionMOBIKEAddressRecovery
  | NotifyActionWaitAndRetry | NotifyActionReauthenticate | NotifyActionAbort

record NotifyAction =
  na_Notify :: Notify
  na_Kind :: NotifyActionKind
  na_Retry :: bool
  na_RetryLater :: bool
  na_RecreateIKE :: bool
  na_RecreateChild :: bool
  na_SuggestedDHGroup :: u16

record InformationalContent =
  in_Payloads :: "Payload list"
  in_Notifies :: "Notify list"
  in_NotifyActions :: "NotifyAction list"
  in_Deletes :: "Delete list"
  in_NotifyError :: "go_error option"

record InformationalConfig =
  fc_Transport :: "transport option"
  fc_Init :: InitResult
  fc_Keys :: IKEKeys
  fc_MessageID :: u32
  fc_FromResponder :: bool
  fc_Payloads :: "Payload list"
  fc_Random :: "random option"
  fc_IV :: bytes

record InformationalResult =
  fr_RequestBytes :: bytes
  fr_ResponseBytes :: bytes
  fr_ResponseInner :: "Payload list"
  fr_Response :: InformationalContent
  fr_NextMessageID :: u32

section \<open>What a notification asks for\<close>

definition ClassifyNotifyAction :: "Notify \<Rightarrow> NotifyAction" where
  "ClassifyNotifyAction notify =
     (let t = ntf_NotifyType notify;
          action = \<lparr>na_Notify = notify, na_Kind = NotifyActionNone, na_Retry = False, na_RetryLater = False,
            na_RecreateIKE = False, na_RecreateChild = False, na_SuggestedDHGroup = 0\<rparr>
      in
      if t = NotifyMOBIKESupported then action\<lparr>na_Kind := NotifyActionMOBIKESupported\<rparr>
      else if t = NotifyUpdateSAAddresses then action\<lparr>na_Kind := NotifyActionMOBIKEUpdateAddresses\<rparr>
      else if t = NotifyAdditionalIPv4Address \<or> t = NotifyAdditionalIPv6Address
      then action\<lparr>na_Kind := NotifyActionMOBIKEAdditionalAddress\<rparr>
      else if t = NotifyNoAdditionalAddresses then action\<lparr>na_Kind := NotifyActionMOBIKENoAdditionalAddresses\<rparr>
      else if t = NotifyCookie2 then action\<lparr>na_Kind := NotifyActionMOBIKEEchoCookie2\<rparr>
      else if t = NotifyRekeySA then action\<lparr>na_Kind := NotifyActionRekeyChildSA\<rparr>
      else if t = NotifyInvalidKEPayload
      then (if length (ntf_NotificationData notify) = 2
            then action\<lparr>na_Kind := NotifyActionRetryWithSuggestedDH, na_Retry := True,
                   na_SuggestedDHGroup := u16_of (ntf_NotificationData notify ! 0) (ntf_NotificationData notify ! 1)\<rparr>
            else action\<lparr>na_Kind := NotifyActionAbort\<rparr>)
      else if t = NotifyNoProposalChosen
      then action\<lparr>na_Kind := NotifyActionRetryWithDifferentProposal, na_Retry := True\<rparr>
      else if t = NotifySinglePairRequired \<or> t = NotifyTSUnacceptable \<or> t = NotifyInvalidSelectors
      then action\<lparr>na_Kind := NotifyActionNarrowTrafficSelectors, na_Retry := True, na_RecreateChild := True\<rparr>
      else if t = NotifyInvalidSPI
      then action\<lparr>na_Kind := NotifyActionRecreateChildSA, na_Retry := True, na_RecreateChild := True\<rparr>
      else if t = NotifyNoAdditionalSAs
      then action\<lparr>na_Kind := NotifyActionWaitAndRetry, na_Retry := True, na_RetryLater := True\<rparr>
      else if t = NotifyInvalidIKESPI \<or> t = NotifyInternalAddressFailure \<or> t = NotifyFailedCPRequired
      then action\<lparr>na_Kind := NotifyActionRecreateIKESA, na_Retry := True, na_RecreateIKE := True\<rparr>
      else if t = NotifyUnacceptableAddresses \<or> t = NotifyUnexpectedNATDetected \<or> t = NotifyNoNATsAllowed
      then action\<lparr>na_Kind := NotifyActionMOBIKEAddressRecovery, na_Retry := True\<rparr>
      else if t = NotifyAuthenticationFailed
      then action\<lparr>na_Kind := NotifyActionReauthenticate, na_RecreateIKE := True\<rparr>
      else if t = NotifyUnsupportedCriticalPayload \<or> t = NotifyInvalidMajorVersion \<or> t = NotifyInvalidSyntax \<or>
        t = NotifyInvalidMessageID
      then action\<lparr>na_Kind := NotifyActionAbort\<rparr>
      else if t < 16384 then action\<lparr>na_Kind := NotifyActionAbort\<rparr>
      else action)"

definition NotifyActionFromError :: "go_error option \<Rightarrow> NotifyAction option" where
  "NotifyActionFromError err =
     (case err of None \<Rightarrow> None
      | Some e \<Rightarrow> (case errors_As_NotifyError e of None \<Rightarrow> None
         | Some n \<Rightarrow> (let action = ClassifyNotifyAction n in
             if na_Kind action \<noteq> NotifyActionNone then Some action else None)))"

definition CreateChildSANotifyActionFromError :: "go_error option \<Rightarrow> NotifyAction option" where
  "CreateChildSANotifyActionFromError err = NotifyActionFromError err"

definition cloneNotifyError :: "go_error option \<Rightarrow> go_error option" where
  "cloneNotifyError err =
     (case err of None \<Rightarrow> None
      | Some e \<Rightarrow> (case errors_As_NotifyError e of Some n \<Rightarrow> NotifyErrorFor n | None \<Rightarrow> Some e))"

section \<open>The content of a message\<close>

fun informationalContent_loop :: "Payload list \<Rightarrow> InformationalContent \<Rightarrow> InformationalContent res" where
  "informationalContent_loop [] content = Inr content"
| "informationalContent_loop (p # ps) content =
     (if pl_Type p = PayloadNotify
      then (case ParseNotify (pl_Body p) of
              Inl e \<Rightarrow> Inl (Wrap ErrInvalidInformational e)
            | Inr notify \<Rightarrow>
                let action = ClassifyNotifyAction notify in
                informationalContent_loop ps
                  (content\<lparr>in_Notifies := in_Notifies content @ [notify],
                     in_NotifyActions := (if na_Kind action \<noteq> NotifyActionNone
                                          then in_NotifyActions content @ [action] else in_NotifyActions content),
                     in_NotifyError := (case in_NotifyError content of None \<Rightarrow> NotifyErrorFor notify | e \<Rightarrow> e)\<rparr>))
      else if pl_Type p = PayloadDelete
      then (case ParseDelete (pl_Body p) of
              Inl e \<Rightarrow> Inl (Wrap ErrInvalidInformational e)
            | Inr d \<Rightarrow> informationalContent_loop ps (content\<lparr>in_Deletes := in_Deletes content @ [d]\<rparr>))
      else informationalContent_loop ps content)"

definition ParseInformationalContent :: "Payload list \<Rightarrow> InformationalContent res" where
  "ParseInformationalContent payloads =
     informationalContent_loop payloads
       \<lparr>in_Payloads = payloads, in_Notifies = [], in_NotifyActions = [], in_Deletes = [], in_NotifyError = None\<rparr>"

definition informationalHeader :: "InitResult \<Rightarrow> u32 \<Rightarrow> bool \<Rightarrow> bool \<Rightarrow> Header" where
  "informationalHeader init messageID fromInitiator response =
     \<lparr>hdr_InitiatorSPI = ir_InitiatorSPI init, hdr_ResponderSPI = ir_ResponderSPI init, hdr_NextPayload = 0,
      hdr_Version = 0, hdr_ExchangeType = ExchangeINFORMATIONAL,
      hdr_Flags = (if fromInitiator then FlagInitiator else 0) OR (if response then FlagResponse else 0),
      hdr_MessageID = messageID, hdr_Length = 0\<rparr>"

definition validateInformationalHeader :: "Header \<Rightarrow> InitResult \<Rightarrow> u32 \<Rightarrow> bool \<Rightarrow> bool \<Rightarrow> unit res" where
  "validateInformationalHeader h init messageID fromInitiator response =
     (if hdr_InitiatorSPI h \<noteq> ir_InitiatorSPI init \<or> hdr_ResponderSPI h \<noteq> ir_ResponderSPI init \<or>
        hdr_ExchangeType h \<noteq> ExchangeINFORMATIONAL \<or> hdr_MessageID h \<noteq> messageID
      then Inl (Err ErrInvalidInformational)
      else
        let expectedFlags = (if fromInitiator then FlagInitiator else 0) OR (if response then FlagResponse else 0) in
        if hdr_Flags h AND (FlagInitiator OR FlagResponse) \<noteq> expectedFlags then Inl (Err ErrInvalidInformational)
        else Inr ())"

definition BuildInformationalRequestFrom ::
  "crypto \<Rightarrow> random \<Rightarrow> InitResult \<Rightarrow> IKEKeys \<Rightarrow> u32 \<Rightarrow> bool \<Rightarrow> Payload list \<Rightarrow> bytes \<Rightarrow> (Message \<times> bytes) res" where
  "BuildInformationalRequestFrom c rnd init keys messageID fromInitiator inner iv =
     ProtectMessage c rnd (informationalHeader init messageID fromInitiator False) keys fromInitiator inner iv"

definition BuildInformationalResponseFrom ::
  "crypto \<Rightarrow> random \<Rightarrow> InitResult \<Rightarrow> IKEKeys \<Rightarrow> u32 \<Rightarrow> bool \<Rightarrow> Payload list \<Rightarrow> bytes \<Rightarrow> (Message \<times> bytes) res" where
  "BuildInformationalResponseFrom c rnd init keys messageID fromInitiator inner iv =
     ProtectMessage c rnd (informationalHeader init messageID fromInitiator True) keys fromInitiator inner iv"

definition BuildInformationalRequest ::
  "crypto \<Rightarrow> random \<Rightarrow> InitResult \<Rightarrow> IKEKeys \<Rightarrow> u32 \<Rightarrow> Payload list \<Rightarrow> bytes \<Rightarrow> (Message \<times> bytes) res" where
  "BuildInformationalRequest c rnd init keys messageID inner iv =
     BuildInformationalRequestFrom c rnd init keys messageID True inner iv"

definition BuildInformationalResponse ::
  "crypto \<Rightarrow> random \<Rightarrow> InitResult \<Rightarrow> IKEKeys \<Rightarrow> u32 \<Rightarrow> Payload list \<Rightarrow> bytes \<Rightarrow> (Message \<times> bytes) res" where
  "BuildInformationalResponse c rnd init keys messageID inner iv =
     BuildInformationalResponseFrom c rnd init keys messageID False inner iv"

definition ParseInformationalRequestContentFrom ::
  "crypto \<Rightarrow> bytes \<Rightarrow> InitResult \<Rightarrow> IKEKeys \<Rightarrow> u32 \<Rightarrow> bool \<Rightarrow> (Message \<times> InformationalContent) res" where
  "ParseInformationalRequestContentFrom c raw init keys messageID fromInitiator =
     rbind (UnprotectMessage c raw keys fromInitiator) (\<lambda>(msg, inner).
     rbind (validateInformationalHeader (msg_Header msg) init messageID fromInitiator False) (\<lambda>_.
     rbind (ParseInformationalContent inner) (\<lambda>content. Inr (msg, content))))"

definition ParseInformationalResponseContentFrom ::
  "crypto \<Rightarrow> bytes \<Rightarrow> InitResult \<Rightarrow> IKEKeys \<Rightarrow> u32 \<Rightarrow> bool \<Rightarrow> (Message \<times> InformationalContent) res" where
  "ParseInformationalResponseContentFrom c raw init keys messageID fromInitiator =
     rbind (UnprotectMessage c raw keys fromInitiator) (\<lambda>(msg, inner).
     rbind (validateInformationalHeader (msg_Header msg) init messageID fromInitiator True) (\<lambda>_.
     rbind (ParseInformationalContent inner) (\<lambda>content. Inr (msg, content))))"

definition ParseInformationalRequestContent ::
  "crypto \<Rightarrow> bytes \<Rightarrow> InitResult \<Rightarrow> IKEKeys \<Rightarrow> u32 \<Rightarrow> (Message \<times> InformationalContent) res" where
  "ParseInformationalRequestContent c raw init keys messageID =
     ParseInformationalRequestContentFrom c raw init keys messageID True"

definition ParseInformationalResponseContent ::
  "crypto \<Rightarrow> bytes \<Rightarrow> InitResult \<Rightarrow> IKEKeys \<Rightarrow> u32 \<Rightarrow> (Message \<times> InformationalContent) res" where
  "ParseInformationalResponseContent c raw init keys messageID =
     ParseInformationalResponseContentFrom c raw init keys messageID False"

definition ParseInformationalRequestFrom ::
  "crypto \<Rightarrow> bytes \<Rightarrow> InitResult \<Rightarrow> IKEKeys \<Rightarrow> u32 \<Rightarrow> bool \<Rightarrow> (Message \<times> Payload list) res" where
  "ParseInformationalRequestFrom c raw init keys messageID fromInitiator =
     rbind (ParseInformationalRequestContentFrom c raw init keys messageID fromInitiator)
       (\<lambda>(msg, content). Inr (msg, in_Payloads content))"

definition ParseInformationalResponseFrom ::
  "crypto \<Rightarrow> bytes \<Rightarrow> InitResult \<Rightarrow> IKEKeys \<Rightarrow> u32 \<Rightarrow> bool \<Rightarrow> (Message \<times> Payload list) res" where
  "ParseInformationalResponseFrom c raw init keys messageID fromInitiator =
     rbind (ParseInformationalResponseContentFrom c raw init keys messageID fromInitiator)
       (\<lambda>(msg, content). Inr (msg, in_Payloads content))"

definition ParseInformationalRequest ::
  "crypto \<Rightarrow> bytes \<Rightarrow> InitResult \<Rightarrow> IKEKeys \<Rightarrow> u32 \<Rightarrow> (Message \<times> Payload list) res" where
  "ParseInformationalRequest c raw init keys messageID = ParseInformationalRequestFrom c raw init keys messageID True"

definition ParseInformationalResponse ::
  "crypto \<Rightarrow> bytes \<Rightarrow> InitResult \<Rightarrow> IKEKeys \<Rightarrow> u32 \<Rightarrow> (Message \<times> Payload list) res" where
  "ParseInformationalResponse c raw init keys messageID = ParseInformationalResponseFrom c raw init keys messageID False"

section \<open>The exchange\<close>

text \<open>\<^verbatim>\<open>RandomIV\<close> and \<^verbatim>\<open>ProtectMessage\<close> read \<^verbatim>\<open>rand.Reader\<close> when they are given no source:
  \<open>randReader\<close>.\<close>

definition informationalIV :: "random \<Rightarrow> KeyMaterialProfile \<Rightarrow> bytes \<Rightarrow> bytes res" where
  "informationalIV rnd profile override =
     (if length override > 0
      then (if int (length override) \<noteq> kmp_EncryptionBlockSize profile then Inl (Err ErrInvalidInformational)
            else Inr override)
      else RandomIV rnd profile)"

definition RunInformationalExchange :: "crypto \<Rightarrow> random \<Rightarrow> InformationalConfig \<Rightarrow> InformationalResult res" where
  "RunInformationalExchange c randReader cfg =
     (case fc_Transport cfg of
        None \<Rightarrow> Inl (Err ErrInvalidInformational)
      | Some transport \<Rightarrow>
          let init = fc_Init cfg;
              keys = (if RequiredLength (ik_Profile (fc_Keys cfg)) = 0 then ir_Keys init else fc_Keys cfg) in
          rbind (validateKeySet keys) (\<lambda>_.
          if ir_InitiatorSPI init = 0 \<or> ir_ResponderSPI init = 0 then Inl (Err ErrInvalidInformational)
          else
            rbind (informationalIV (case fc_Random cfg of Some r \<Rightarrow> r | None \<Rightarrow> randReader) (ik_Profile keys) (fc_IV cfg))
              (\<lambda>iv.
            let requestFromInitiator = (\<not> fc_FromResponder cfg) in
            rbind (BuildInformationalRequestFrom c randReader init keys (fc_MessageID cfg) requestFromInitiator
              (fc_Payloads cfg) iv) (\<lambda>(_, reqBytes).
            rbind (transport 0 reqBytes) (\<lambda>respBytes.
            rbind (ParseInformationalResponseContentFrom c respBytes init keys (fc_MessageID cfg)
              (\<not> requestFromInitiator)) (\<lambda>(_, response).
              Inr \<lparr>fr_RequestBytes = reqBytes, fr_ResponseBytes = respBytes, fr_ResponseInner = in_Payloads response,
                   fr_Response = response\<lparr>in_NotifyError := cloneNotifyError (in_NotifyError response)\<rparr>,
                   fr_NextMessageID = fc_MessageID cfg + 1\<rparr>))))))"

definition RunLivenessCheck :: "crypto \<Rightarrow> random \<Rightarrow> InformationalConfig \<Rightarrow> InformationalResult res" where
  "RunLivenessCheck c randReader cfg = RunInformationalExchange c randReader (cfg\<lparr>fc_Payloads := []\<rparr>)"

section \<open>Deleted child SAs\<close>

datatype ChildSADeleteOutcome = ChildSADeleteNone | ChildSADeleteCurrent | ChildSADeleteOther | ChildSADeleteMixed

record ChildSADeleteMatch =
  dm_ProtocolID :: u8
  dm_SPI :: bytes
  dm_MatchesLocal :: bool
  dm_MatchesRemote :: bool

record ChildSADeleteSummary =
  ds_Outcome :: ChildSADeleteOutcome
  ds_Deletes :: "ChildSADeleteMatch list"
  ds_CurrentSPIs :: "bytes list"
  ds_OtherSPIs :: "bytes list"
  ds_MatchesLocal :: bool
  ds_MatchesRemote :: bool
  ds_DeleteIKE :: bool

definition NoChildSADeletes :: ChildSADeleteSummary where
  "NoChildSADeletes = \<lparr>ds_Outcome = ChildSADeleteNone, ds_Deletes = [], ds_CurrentSPIs = [], ds_OtherSPIs = [],
     ds_MatchesLocal = False, ds_MatchesRemote = False, ds_DeleteIKE = False\<rparr>"

definition classifyChildSADeleteSPI :: "u8 \<Rightarrow> ChildSAResult \<Rightarrow> ChildSADeleteSummary \<Rightarrow> bytes \<Rightarrow> ChildSADeleteSummary" where
  "classifyChildSADeleteSPI protocolID child out spi =
     (let esp = (protocolID = ProtocolESP);
          match = \<lparr>dm_ProtocolID = protocolID, dm_SPI = spi,
            dm_MatchesLocal = (esp \<and> length (cs_LocalSPI child) > 0 \<and> spi = cs_LocalSPI child),
            dm_MatchesRemote = (esp \<and> length (cs_RemoteSPI child) > 0 \<and> spi = cs_RemoteSPI child)\<rparr>;
          out1 = out\<lparr>ds_Deletes := ds_Deletes out @ [match]\<rparr>
      in if dm_MatchesLocal match \<or> dm_MatchesRemote match
         then out1\<lparr>ds_CurrentSPIs := ds_CurrentSPIs out1 @ [spi],
                ds_MatchesLocal := ds_MatchesLocal out1 \<or> dm_MatchesLocal match,
                ds_MatchesRemote := ds_MatchesRemote out1 \<or> dm_MatchesRemote match\<rparr>
         else out1\<lparr>ds_OtherSPIs := ds_OtherSPIs out1 @ [spi]\<rparr>)"

definition classifyChildSADeleteSPIs :: "ChildSAResult \<Rightarrow> Delete \<Rightarrow> ChildSADeleteSummary \<Rightarrow> ChildSADeleteSummary" where
  "classifyChildSADeleteSPIs child d out =
     foldl (classifyChildSADeleteSPI (del_ProtocolID d) child) out (del_SPIs d)"

definition childSADeleteOutcome :: "ChildSADeleteSummary \<Rightarrow> ChildSADeleteOutcome" where
  "childSADeleteOutcome summary =
     (if length (ds_Deletes summary) = 0 then ChildSADeleteNone
      else if length (ds_CurrentSPIs summary) > 0 \<and> length (ds_OtherSPIs summary) > 0 then ChildSADeleteMixed
      else if length (ds_CurrentSPIs summary) > 0 then ChildSADeleteCurrent
      else ChildSADeleteOther)"

definition ClassifyChildSADeletes :: "InformationalContent \<Rightarrow> ChildSAResult \<Rightarrow> ChildSADeleteSummary" where
  "ClassifyChildSADeletes content child =
     (let out = foldl (\<lambda>out d.
            if del_ProtocolID d = ProtocolIKE then out\<lparr>ds_DeleteIKE := True\<rparr>
            else if del_ProtocolID d = ProtocolAH \<or> del_ProtocolID d = ProtocolESP
            then classifyChildSADeleteSPIs child d out
            else out) NoChildSADeletes (in_Deletes content)
      in out\<lparr>ds_Outcome := childSADeleteOutcome out\<rparr>)"

definition ClassifyChildSADeletePayloads :: "Payload list \<Rightarrow> ChildSAResult \<Rightarrow> ChildSADeleteSummary res" where
  "ClassifyChildSADeletePayloads payloads child =
     rbind (ParseInformationalContent payloads) (\<lambda>content. Inr (ClassifyChildSADeletes content child))"

section \<open>Handling\<close>

record InformationalHandling =
  ih_Empty :: bool
  ih_LivenessCheck :: bool
  ih_DeleteIKE :: bool
  ih_DeleteESP :: "bytes list"
  ih_DeleteAH :: "bytes list"
  ih_UpdateSAAddresses :: bool
  ih_NoAdditionalAddresses :: bool
  ih_AdditionalAddresses :: "ip list"
  ih_Cookie2 :: bytes
  ih_InvalidSelectors :: "InvalidSelectorReport list"
  ih_NotifyError :: "go_error option"
  ih_Notifies :: "Notify list"
  ih_NotifyActions :: "NotifyAction list"
  ih_Deletes :: "Delete list"

record InformationalResponsePlan =
  rp_Payloads :: "Payload list"
  rp_EchoCookie2 :: bool

text \<open>The report of a notification that is not \<^verbatim>\<open>INVALID_SELECTORS\<close> would be the zero value; the
  branch is only taken for one that is.\<close>

definition handleInformationalNotify :: "InformationalHandling \<Rightarrow> Notify \<Rightarrow> InformationalHandling res" where
  "handleInformationalNotify h notify =
     (let t = ntf_NotifyType notify; n = length (ntf_NotificationData notify) in
      if t = NotifyUpdateSAAddresses then Inr (h\<lparr>ih_UpdateSAAddresses := True\<rparr>)
      else if t = NotifyNoAdditionalAddresses then Inr (h\<lparr>ih_NoAdditionalAddresses := True\<rparr>)
      else if t = NotifyAdditionalIPv4Address
      then (if n \<noteq> 4 then Inl (Wrap ErrInvalidInformational (Err ErrInvalidNotify))
            else Inr (h\<lparr>ih_AdditionalAddresses := ih_AdditionalAddresses h @ [ntf_NotificationData notify]\<rparr>))
      else if t = NotifyAdditionalIPv6Address
      then (if n \<noteq> 16 then Inl (Wrap ErrInvalidInformational (Err ErrInvalidNotify))
            else Inr (h\<lparr>ih_AdditionalAddresses := ih_AdditionalAddresses h @ [ntf_NotificationData notify]\<rparr>))
      else if t = NotifyCookie2
      then (if n < 8 \<or> n > 64 then Inl (Wrap ErrInvalidInformational (Err ErrInvalidNotify))
            else Inr (h\<lparr>ih_Cookie2 := ntf_NotificationData notify\<rparr>))
      else if t = NotifyInvalidSelectors
      then (case Notify_InvalidSelectorReport notify of
              Inl e \<Rightarrow> Inl (Wrap ErrInvalidInformational e)
            | Inr r \<Rightarrow> Inr (h\<lparr>ih_InvalidSelectors := ih_InvalidSelectors h @
                (case r of Some report \<Rightarrow> [report] | None \<Rightarrow> [\<lparr>isr_ProtocolID = 0, isr_SPI = [], isr_PacketPrefix = []\<rparr>])\<rparr>))
      else Inr h)"

definition handleDelete :: "InformationalHandling \<Rightarrow> Delete \<Rightarrow> InformationalHandling" where
  "handleDelete h d =
     (if del_ProtocolID d = ProtocolIKE then h\<lparr>ih_DeleteIKE := True\<rparr>
      else if del_ProtocolID d = ProtocolESP then h\<lparr>ih_DeleteESP := ih_DeleteESP h @ del_SPIs d\<rparr>
      else if del_ProtocolID d = ProtocolAH then h\<lparr>ih_DeleteAH := ih_DeleteAH h @ del_SPIs d\<rparr>
      else h)"

fun handleNotifies_loop :: "Notify list \<Rightarrow> InformationalHandling \<Rightarrow> InformationalHandling res" where
  "handleNotifies_loop [] h = Inr h"
| "handleNotifies_loop (n # ns) h =
     rbind (handleInformationalNotify h n) (\<lambda>h1.
       let action = ClassifyNotifyAction n in
       handleNotifies_loop ns (if na_Kind action \<noteq> NotifyActionNone
         then h1\<lparr>ih_NotifyActions := ih_NotifyActions h1 @ [action]\<rparr> else h1))"

definition HandleInformationalContent :: "InformationalContent \<Rightarrow> InformationalHandling res" where
  "HandleInformationalContent content =
     (let handling =
        \<lparr>ih_Empty = (length (in_Payloads content) = 0), ih_LivenessCheck = (length (in_Payloads content) = 0),
         ih_DeleteIKE = False, ih_DeleteESP = [], ih_DeleteAH = [], ih_UpdateSAAddresses = False,
         ih_NoAdditionalAddresses = False, ih_AdditionalAddresses = [], ih_Cookie2 = [], ih_InvalidSelectors = [],
         ih_NotifyError = cloneNotifyError (in_NotifyError content), ih_Notifies = in_Notifies content,
         ih_NotifyActions = [], ih_Deletes = in_Deletes content\<rparr>
      in handleNotifies_loop (in_Notifies content) (foldl handleDelete handling (in_Deletes content)))"

definition HandleInformationalPayloads :: "Payload list \<Rightarrow> InformationalHandling res" where
  "HandleInformationalPayloads payloads = rbind (ParseInformationalContent payloads) HandleInformationalContent"

definition PlanInformationalResponse :: "InformationalHandling \<Rightarrow> InformationalResponsePlan res" where
  "PlanInformationalResponse handling =
     (if length (ih_Cookie2 handling) > 0
      then (case Cookie2Notify (ih_Cookie2 handling) of
              Inl e \<Rightarrow> Inl (Wrap ErrInvalidInformational e)
            | Inr payload \<Rightarrow> Inr \<lparr>rp_Payloads = [payload], rp_EchoCookie2 = True\<rparr>)
      else Inr \<lparr>rp_Payloads = [], rp_EchoCookie2 = False\<rparr>)"

section \<open>The recovery plan\<close>

datatype InformationalRecoveryAction =
    InformationalRecoveryNoAction | InformationalRecoveryUpdateMOBIKEAddresses
  | InformationalRecoveryMOBIKEAddressRecovery | InformationalRecoveryRekeyChildSA
  | InformationalRecoveryRetryExchange | InformationalRecoveryWaitAndRetry
  | InformationalRecoveryRecreateChildSA | InformationalRecoveryRecreateIKESA
  | InformationalRecoveryReauthenticate | InformationalRecoveryAbort

record InformationalRecoveryPlan =
  ip_Action :: InformationalRecoveryAction
  ip_Reason :: string
  ip_Retry :: bool
  ip_RetryLater :: bool
  ip_RecreateIKE :: bool
  ip_RecreateChild :: bool
  ip_RekeyChild :: bool
  ip_Reauthenticate :: bool
  ip_MOBIKEAddressRecovery :: bool
  ip_SuggestedDHGroup :: u16
  ip_EchoCookie2 :: bool
  ip_DeleteIKE :: bool
  ip_DeleteCurrentChild :: bool
  ip_DeleteOtherChild :: bool
  ip_UpdateSAAddresses :: bool
  ip_Response :: InformationalResponsePlan
  ip_ChildDeletes :: ChildSADeleteSummary
  ip_NotifyActions :: "NotifyAction list"

definition NotifyTypeName :: "u16 \<Rightarrow> string" where
  "NotifyTypeName t =
     (if t = NotifyUnsupportedCriticalPayload then ''UNSUPPORTED_CRITICAL_PAYLOAD''
      else if t = NotifyInvalidIKESPI then ''INVALID_IKE_SPI''
      else if t = NotifyInvalidMajorVersion then ''INVALID_MAJOR_VERSION''
      else if t = NotifyInvalidSyntax then ''INVALID_SYNTAX''
      else if t = NotifyInvalidMessageID then ''INVALID_MESSAGE_ID''
      else if t = NotifyInvalidSPI then ''INVALID_SPI''
      else if t = NotifyNoProposalChosen then ''NO_PROPOSAL_CHOSEN''
      else if t = NotifyInvalidKEPayload then ''INVALID_KE_PAYLOAD''
      else if t = NotifyAuthenticationFailed then ''AUTHENTICATION_FAILED''
      else if t = NotifySinglePairRequired then ''SINGLE_PAIR_REQUIRED''
      else if t = NotifyNoAdditionalSAs then ''NO_ADDITIONAL_SAS''
      else if t = NotifyInternalAddressFailure then ''INTERNAL_ADDRESS_FAILURE''
      else if t = NotifyFailedCPRequired then ''FAILED_CP_REQUIRED''
      else if t = NotifyTSUnacceptable then ''TS_UNACCEPTABLE''
      else if t = NotifyInvalidSelectors then ''INVALID_SELECTORS''
      else if t = NotifyUnacceptableAddresses then ''UNACCEPTABLE_ADDRESSES''
      else if t = NotifyUnexpectedNATDetected then ''UNEXPECTED_NAT_DETECTED''
      else if t = NotifyNATDetectionSourceIP then ''NAT_DETECTION_SOURCE_IP''
      else if t = NotifyNATDetectionDestinationIP then ''NAT_DETECTION_DESTINATION_IP''
      else if t = NotifyCookie then ''COOKIE''
      else if t = NotifyRekeySA then ''REKEY_SA''
      else if t = NotifyMOBIKESupported then ''MOBIKE_SUPPORTED''
      else if t = NotifyAdditionalIPv4Address then ''ADDITIONAL_IP4_ADDRESS''
      else if t = NotifyAdditionalIPv6Address then ''ADDITIONAL_IP6_ADDRESS''
      else if t = NotifyNoAdditionalAddresses then ''NO_ADDITIONAL_ADDRESSES''
      else if t = NotifyUpdateSAAddresses then ''UPDATE_SA_ADDRESSES''
      else if t = NotifyCookie2 then ''COOKIE2''
      else if t = NotifyNoNATsAllowed then ''NO_NATS_ALLOWED''
      else ''notify '' @ itoa (unat t))"

definition notifyRecoveryReason :: "NotifyAction \<Rightarrow> string" where
  "notifyRecoveryReason action =
     (if ntf_NotifyType (na_Notify action) = 0 then ''notify recovery required''
      else NotifyTypeName (ntf_NotifyType (na_Notify action)) @ '' notify'')"

definition considerRecovery ::
  "InformationalRecoveryAction \<Rightarrow> nat \<Rightarrow> string \<Rightarrow> (InformationalRecoveryPlan \<Rightarrow> InformationalRecoveryPlan) \<Rightarrow>
   InformationalRecoveryPlan \<times> nat \<Rightarrow> InformationalRecoveryPlan \<times> nat" where
  "considerRecovery action nextPriority reason upd = (\<lambda>(p, priority).
     if nextPriority \<le> priority then (p, priority)
     else (upd (p\<lparr>ip_Action := action, ip_Reason := reason, ip_Retry := False, ip_RetryLater := False,
             ip_RecreateIKE := False, ip_RecreateChild := False, ip_RekeyChild := False, ip_Reauthenticate := False,
             ip_MOBIKEAddressRecovery := False, ip_SuggestedDHGroup := 0\<rparr>), nextPriority))"

definition considerNotifyRecovery ::
  "NotifyAction \<Rightarrow> InformationalRecoveryPlan \<times> nat \<Rightarrow> InformationalRecoveryPlan \<times> nat" where
  "considerNotifyRecovery action =
     (let reason = notifyRecoveryReason action; g = na_SuggestedDHGroup action;
          retry = considerRecovery InformationalRecoveryRetryExchange 55 reason
            (\<lambda>p. p\<lparr>ip_Retry := True, ip_SuggestedDHGroup := g\<rparr>);
          child = considerRecovery InformationalRecoveryRecreateChildSA 70 reason
            (\<lambda>p. p\<lparr>ip_Retry := True, ip_RecreateChild := True, ip_SuggestedDHGroup := g\<rparr>)
      in case na_Kind action of
        NotifyActionMOBIKEUpdateAddresses \<Rightarrow> considerRecovery InformationalRecoveryUpdateMOBIKEAddresses 30 reason id
      | NotifyActionRekeyChildSA \<Rightarrow>
          considerRecovery InformationalRecoveryRekeyChildSA 40 reason (\<lambda>p. p\<lparr>ip_Retry := True, ip_RekeyChild := True\<rparr>)
      | NotifyActionRetryWithSuggestedDH \<Rightarrow> retry
      | NotifyActionRetryWithDifferentProposal \<Rightarrow> retry
      | NotifyActionNarrowTrafficSelectors \<Rightarrow> child
      | NotifyActionRecreateChildSA \<Rightarrow> child
      | NotifyActionWaitAndRetry \<Rightarrow>
          considerRecovery InformationalRecoveryWaitAndRetry 50 reason (\<lambda>p. p\<lparr>ip_Retry := True, ip_RetryLater := True\<rparr>)
      | NotifyActionRecreateIKESA \<Rightarrow>
          considerRecovery InformationalRecoveryRecreateIKESA 80 reason (\<lambda>p. p\<lparr>ip_Retry := True, ip_RecreateIKE := True\<rparr>)
      | NotifyActionMOBIKEAddressRecovery \<Rightarrow>
          considerRecovery InformationalRecoveryMOBIKEAddressRecovery 60 reason
            (\<lambda>p. p\<lparr>ip_Retry := True, ip_MOBIKEAddressRecovery := True\<rparr>)
      | NotifyActionReauthenticate \<Rightarrow>
          considerRecovery InformationalRecoveryReauthenticate 90 reason
            (\<lambda>p. p\<lparr>ip_Retry := True, ip_RecreateIKE := True, ip_Reauthenticate := True\<rparr>)
      | NotifyActionAbort \<Rightarrow> considerRecovery InformationalRecoveryAbort 100 reason id
      | _ \<Rightarrow> id)"

text \<open>The plan before a recovery is chosen.\<close>

definition initialRecoveryPlan ::
  "InformationalHandling \<Rightarrow> InformationalResponsePlan \<Rightarrow> ChildSADeleteSummary \<Rightarrow> InformationalRecoveryPlan" where
  "initialRecoveryPlan handling response childDeletes =
     \<lparr>ip_Action = InformationalRecoveryNoAction, ip_Reason = ''no recovery needed'', ip_Retry = False,
      ip_RetryLater = False, ip_RecreateIKE = False, ip_RecreateChild = False, ip_RekeyChild = False,
      ip_Reauthenticate = False, ip_MOBIKEAddressRecovery = False, ip_SuggestedDHGroup = 0,
      ip_EchoCookie2 = rp_EchoCookie2 response, ip_DeleteIKE = (ih_DeleteIKE handling \<or> ds_DeleteIKE childDeletes),
      ip_DeleteCurrentChild = (ds_Outcome childDeletes = ChildSADeleteCurrent \<or> ds_Outcome childDeletes = ChildSADeleteMixed),
      ip_DeleteOtherChild = (length (ds_OtherSPIs childDeletes) > 0),
      ip_UpdateSAAddresses = ih_UpdateSAAddresses handling, ip_Response = response, ip_ChildDeletes = childDeletes,
      ip_NotifyActions = ih_NotifyActions handling\<rparr>"

text \<open>The choice of the recovery, with its priority.\<close>

definition chooseRecovery :: "InformationalRecoveryPlan \<Rightarrow> NotifyAction list \<Rightarrow> InformationalRecoveryPlan \<times> nat" where
  "chooseRecovery plan actions =
     (let s0 = (plan, 0);
          s1 = (if ip_DeleteIKE plan
                then considerRecovery InformationalRecoveryRecreateIKESA 80 ''ike delete received''
                  (\<lambda>p. p\<lparr>ip_Retry := True, ip_RecreateIKE := True\<rparr>) s0
                else s0);
          s2 = (if ip_DeleteCurrentChild plan
                then considerRecovery InformationalRecoveryRecreateChildSA 70 ''tracked child sa delete received''
                  (\<lambda>p. p\<lparr>ip_Retry := True, ip_RecreateChild := True\<rparr>) s1
                else if ip_DeleteOtherChild plan then (\<lambda>(p, k). (p\<lparr>ip_Reason := ''no tracked child sa deleted''\<rparr>, k)) s1
                else s1);
          s3 = (if ip_UpdateSAAddresses plan
                then considerRecovery InformationalRecoveryUpdateMOBIKEAddresses 30
                  ''UPDATE_SA_ADDRESSES notify received'' id s2
                else s2)
      in foldl (\<lambda>s a. considerNotifyRecovery a s) s3 actions)"

definition PlanInformationalRecovery ::
  "InformationalContent \<Rightarrow> ChildSAResult \<Rightarrow> InformationalRecoveryPlan res" where
  "PlanInformationalRecovery content child =
     rbind (HandleInformationalContent content) (\<lambda>handling.
     rbind (PlanInformationalResponse handling) (\<lambda>response.
     let plan = initialRecoveryPlan handling response (ClassifyChildSADeletes content child) in
     if ih_LivenessCheck handling then Inr (plan\<lparr>ip_Reason := ''liveness check''\<rparr>)
     else
       let (plan', priority) = chooseRecovery plan (ih_NotifyActions handling) in
       Inr (if priority = 0 \<and> ip_EchoCookie2 plan' then plan'\<lparr>ip_Reason := ''COOKIE2 response required''\<rparr> else plan')))"

definition PlanInformationalRecoveryPayloads ::
  "Payload list \<Rightarrow> ChildSAResult \<Rightarrow> InformationalRecoveryPlan res" where
  "PlanInformationalRecoveryPayloads payloads child =
     rbind (ParseInformationalContent payloads) (\<lambda>content. PlanInformationalRecovery content child)"

section \<open>Lemmas\<close>

subsection \<open>Deletes\<close>

text \<open>The AH and ESP SPIs of a message with their protocols, and those of the tracked child SA.\<close>

definition deleted_spis :: "Delete list \<Rightarrow> (u8 \<times> bytes) list" where
  "deleted_spis ds = concat (map (\<lambda>d. map (Pair (del_ProtocolID d)) (del_SPIs d))
     (filter (\<lambda>d. del_ProtocolID d = ProtocolAH \<or> del_ProtocolID d = ProtocolESP) ds))"

definition tracked :: "ChildSAResult \<Rightarrow> u8 \<times> bytes \<Rightarrow> bool" where
  "tracked child = (\<lambda>(p, spi). p = ProtocolESP \<and> spi \<noteq> [] \<and> (spi = cs_LocalSPI child \<or> spi = cs_RemoteSPI child))"

definition ike_deleted :: "Delete list \<Rightarrow> bool" where
  "ike_deleted ds \<longleftrightarrow> (\<exists>d \<in> set ds. del_ProtocolID d = ProtocolIKE)"

lemma deleted_spis_simps [simp]:
  "deleted_spis [] = []"
  "deleted_spis (d # ds) = (if del_ProtocolID d = ProtocolAH \<or> del_ProtocolID d = ProtocolESP
     then map (Pair (del_ProtocolID d)) (del_SPIs d) else []) @ deleted_spis ds"
  by (simp_all add: deleted_spis_def)

lemma classify_spis:
  "ds_CurrentSPIs (foldl (classifyChildSADeleteSPI p child) out spis)
     = ds_CurrentSPIs out @ map snd (filter (tracked child) (map (Pair p) spis))"
  "ds_OtherSPIs (foldl (classifyChildSADeleteSPI p child) out spis)
     = ds_OtherSPIs out @ map snd (filter (\<lambda>x. \<not> tracked child x) (map (Pair p) spis))"
  "length (ds_Deletes (foldl (classifyChildSADeleteSPI p child) out spis)) = length (ds_Deletes out) + length spis"
  "ds_DeleteIKE (foldl (classifyChildSADeleteSPI p child) out spis) = ds_DeleteIKE out"
  by (induction spis arbitrary: out) (auto simp: classifyChildSADeleteSPI_def tracked_def Let_def)

text \<open>The loop of \<^verbatim>\<open>ClassifyChildSADeletes\<close>.\<close>

definition classify_loop :: "ChildSAResult \<Rightarrow> Delete list \<Rightarrow> ChildSADeleteSummary \<Rightarrow> ChildSADeleteSummary" where
  "classify_loop child ds out = foldl (\<lambda>out d.
     if del_ProtocolID d = ProtocolIKE then out\<lparr>ds_DeleteIKE := True\<rparr>
     else if del_ProtocolID d = ProtocolAH \<or> del_ProtocolID d = ProtocolESP then classifyChildSADeleteSPIs child d out
     else out) out ds"

lemma classify_loop_simps [simp]:
  "classify_loop child [] out = out"
  "classify_loop child (d # ds) out = classify_loop child ds
     (if del_ProtocolID d = ProtocolIKE then out\<lparr>ds_DeleteIKE := True\<rparr>
      else if del_ProtocolID d = ProtocolAH \<or> del_ProtocolID d = ProtocolESP then classifyChildSADeleteSPIs child d out
      else out)"
  by (simp_all add: classify_loop_def)

lemma classify_loop:
  "ds_CurrentSPIs (classify_loop child ds out) = ds_CurrentSPIs out @ map snd (filter (tracked child) (deleted_spis ds))"
  "ds_OtherSPIs (classify_loop child ds out) = ds_OtherSPIs out @ map snd (filter (\<lambda>x. \<not> tracked child x) (deleted_spis ds))"
  "length (ds_Deletes (classify_loop child ds out)) = length (ds_Deletes out) + length (deleted_spis ds)"
  "ds_DeleteIKE (classify_loop child ds out) = (ds_DeleteIKE out \<or> ike_deleted ds)"
  by (induction ds arbitrary: out) (auto simp: classifyChildSADeleteSPIs_def classify_spis ike_deleted_def)

lemma ClassifyChildSADeletes_loop:
  "ClassifyChildSADeletes content child =
     (let out = classify_loop child (in_Deletes content) NoChildSADeletes in out\<lparr>ds_Outcome := childSADeleteOutcome out\<rparr>)"
  by (simp add: ClassifyChildSADeletes_def classify_loop_def)

lemma ClassifyChildSADeletes_spec:
  defines "spis content \<equiv> deleted_spis (in_Deletes content)"
  shows "ds_CurrentSPIs (ClassifyChildSADeletes content child) = map snd (filter (tracked child) (spis content))"
    "ds_OtherSPIs (ClassifyChildSADeletes content child) = map snd (filter (\<lambda>x. \<not> tracked child x) (spis content))"
    "ds_DeleteIKE (ClassifyChildSADeletes content child) = ike_deleted (in_Deletes content)"
    "ds_Outcome (ClassifyChildSADeletes content child) =
      (if spis content = [] then ChildSADeleteNone
       else if \<forall>x \<in> set (spis content). tracked child x then ChildSADeleteCurrent
       else if \<exists>x \<in> set (spis content). tracked child x then ChildSADeleteMixed
       else ChildSADeleteOther)"
proof -
  let ?out = "classify_loop child (in_Deletes content) NoChildSADeletes"
  have l: "ds_CurrentSPIs ?out = map snd (filter (tracked child) (spis content))"
    "ds_OtherSPIs ?out = map snd (filter (\<lambda>x. \<not> tracked child x) (spis content))"
    "length (ds_Deletes ?out) = length (spis content)" "ds_DeleteIKE ?out = ike_deleted (in_Deletes content)"
    by (simp_all add: classify_loop NoChildSADeletes_def spis_def)
  then show "ds_CurrentSPIs (ClassifyChildSADeletes content child) = map snd (filter (tracked child) (spis content))"
    "ds_OtherSPIs (ClassifyChildSADeletes content child) = map snd (filter (\<lambda>x. \<not> tracked child x) (spis content))"
    "ds_DeleteIKE (ClassifyChildSADeletes content child) = ike_deleted (in_Deletes content)"
    by (simp_all add: ClassifyChildSADeletes_loop Let_def)
  show "ds_Outcome (ClassifyChildSADeletes content child) =
      (if spis content = [] then ChildSADeleteNone
       else if \<forall>x \<in> set (spis content). tracked child x then ChildSADeleteCurrent
       else if \<exists>x \<in> set (spis content). tracked child x then ChildSADeleteMixed
       else ChildSADeleteOther)"
  proof (cases "spis content")
    case (Cons x xs)
    with l show ?thesis
      by (auto simp: ClassifyChildSADeletes_loop Let_def childSADeleteOutcome_def filter_empty_conv)
  qed (use l in \<open>simp add: ClassifyChildSADeletes_loop Let_def childSADeleteOutcome_def\<close>)
qed

subsection \<open>The choice of a recovery\<close>

text \<open>How urgent a recovery is, what the flags of a plan with it are, and how urgent a notification is.\<close>

fun urgency :: "InformationalRecoveryAction \<Rightarrow> nat" where
  "urgency InformationalRecoveryNoAction = 0"
| "urgency InformationalRecoveryUpdateMOBIKEAddresses = 30"
| "urgency InformationalRecoveryRekeyChildSA = 40"
| "urgency InformationalRecoveryWaitAndRetry = 50"
| "urgency InformationalRecoveryRetryExchange = 55"
| "urgency InformationalRecoveryMOBIKEAddressRecovery = 60"
| "urgency InformationalRecoveryRecreateChildSA = 70"
| "urgency InformationalRecoveryRecreateIKESA = 80"
| "urgency InformationalRecoveryReauthenticate = 90"
| "urgency InformationalRecoveryAbort = 100"

fun recovery_for :: "NotifyActionKind \<Rightarrow> InformationalRecoveryAction" where
  "recovery_for NotifyActionMOBIKEUpdateAddresses = InformationalRecoveryUpdateMOBIKEAddresses"
| "recovery_for NotifyActionRekeyChildSA = InformationalRecoveryRekeyChildSA"
| "recovery_for NotifyActionRetryWithSuggestedDH = InformationalRecoveryRetryExchange"
| "recovery_for NotifyActionRetryWithDifferentProposal = InformationalRecoveryRetryExchange"
| "recovery_for NotifyActionNarrowTrafficSelectors = InformationalRecoveryRecreateChildSA"
| "recovery_for NotifyActionRecreateChildSA = InformationalRecoveryRecreateChildSA"
| "recovery_for NotifyActionWaitAndRetry = InformationalRecoveryWaitAndRetry"
| "recovery_for NotifyActionRecreateIKESA = InformationalRecoveryRecreateIKESA"
| "recovery_for NotifyActionMOBIKEAddressRecovery = InformationalRecoveryMOBIKEAddressRecovery"
| "recovery_for NotifyActionReauthenticate = InformationalRecoveryReauthenticate"
| "recovery_for NotifyActionAbort = InformationalRecoveryAbort"
| "recovery_for _ = InformationalRecoveryNoAction"

definition flags_agree :: "InformationalRecoveryPlan \<Rightarrow> bool" where
  "flags_agree p \<longleftrightarrow>
     (let a = ip_Action p in
      ip_Retry p = (a \<notin> {InformationalRecoveryNoAction, InformationalRecoveryUpdateMOBIKEAddresses, InformationalRecoveryAbort}) \<and>
      ip_RetryLater p = (a = InformationalRecoveryWaitAndRetry) \<and>
      ip_RecreateIKE p = (a \<in> {InformationalRecoveryRecreateIKESA, InformationalRecoveryReauthenticate}) \<and>
      ip_RecreateChild p = (a = InformationalRecoveryRecreateChildSA) \<and>
      ip_RekeyChild p = (a = InformationalRecoveryRekeyChildSA) \<and>
      ip_Reauthenticate p = (a = InformationalRecoveryReauthenticate) \<and>
      ip_MOBIKEAddressRecovery p = (a = InformationalRecoveryMOBIKEAddressRecovery))"

lemma flags_agree_Reason [simp]: "flags_agree (p\<lparr>ip_Reason := r\<rparr>) = flags_agree p"
  by (simp add: flags_agree_def)

definition chosen :: "nat \<Rightarrow> InformationalRecoveryPlan \<times> nat \<Rightarrow> bool" where
  "chosen u s \<longleftrightarrow> snd s = u \<and> urgency (ip_Action (fst s)) = u \<and> flags_agree (fst s)"

lemma considerRecovery_chosen:
  assumes "chosen u s" and "urgency a = k"
    and "\<And>p. ip_Action (upd p) = ip_Action p" and "\<And>p. ip_Action p = a \<Longrightarrow>
      \<not> ip_Retry p \<Longrightarrow> \<not> ip_RetryLater p \<Longrightarrow> \<not> ip_RecreateIKE p \<Longrightarrow> \<not> ip_RecreateChild p \<Longrightarrow> \<not> ip_RekeyChild p \<Longrightarrow>
      \<not> ip_Reauthenticate p \<Longrightarrow> \<not> ip_MOBIKEAddressRecovery p \<Longrightarrow> flags_agree (upd p)"
  shows "chosen (max u k) (considerRecovery a k r upd s)"
  using assms by (cases s) (auto simp: chosen_def considerRecovery_def max_def)

lemma considerNotifyRecovery_chosen:
  "chosen u s \<Longrightarrow> chosen (max u (urgency (recovery_for (na_Kind a)))) (considerNotifyRecovery a s)"
  unfolding considerNotifyRecovery_def Let_def
  by (cases "na_Kind a") (simp_all, (rule considerRecovery_chosen; simp add: flags_agree_def)+)

lemma considerNotifies_chosen:
  "chosen u s \<Longrightarrow> chosen (foldl (\<lambda>u a. max u (urgency (recovery_for (na_Kind a)))) u actions)
     (foldl (\<lambda>s a. considerNotifyRecovery a s) s actions)"
proof (induction actions arbitrary: u s)
  case (Cons a actions)
  from Cons.IH [OF considerNotifyRecovery_chosen [OF Cons.prems]] show ?case by simp
qed simp

lemma foldl_max: "foldl (\<lambda>u a. max u (f a)) u xs = Max (insert u (f ` set xs))" for f :: "'a \<Rightarrow> nat"
proof (induction xs arbitrary: u)
  case (Cons x xs)
  then show ?case by (cases "xs = []") (simp_all add: max.assoc)
qed simp

lemma Max_of_parts:
  fixes S :: "nat set"
  assumes "finite S"
  shows "Max ({0} \<union> (if a then {x} else {}) \<union> (if b then {y} else {}) \<union> (if d then {z} else {}) \<union> S)
    = Max (insert (max (max (if a then x else 0) (if b then y else 0)) (if d then z else 0)) S)"
    (is "Max ?A = Max (insert ?m S)")
proof (rule Max_eqI)
  show "finite ?A" using assms by simp
  have "?m \<le> Max (insert ?m S)" by (rule Max_ge) (use assms in simp_all)
  moreover have "\<forall>s \<in> S. s \<le> Max (insert ?m S)" by (intro ballI Max_ge) (use assms in simp_all)
  ultimately show "\<And>v. v \<in> ?A \<Longrightarrow> v \<le> Max (insert ?m S)" by (auto split: if_splits)
  have "Max (insert ?m S) \<in> insert ?m S" using assms by (intro Max_in) auto
  moreover have "?m \<in> ?A" by (simp add: max_def)
  ultimately show "Max (insert ?m S) \<in> ?A" by (metis (no_types, lifting) UnCI insertE)
qed

lemma chooseRecovery_chosen:
  assumes "chosen 0 (plan, 0)"
  shows "chosen (Max ({0} \<union> (if ip_DeleteIKE plan then {80} else {}) \<union> (if ip_DeleteCurrentChild plan then {70} else {}) \<union>
      (if ip_UpdateSAAddresses plan then {30} else {}) \<union> (\<lambda>a. urgency (recovery_for (na_Kind a))) ` set actions))
    (chooseRecovery plan actions)"
proof -
  let ?k1 = "if ip_DeleteIKE plan then 80 else 0" and ?k2 = "if ip_DeleteCurrentChild plan then 70 else 0 :: nat"
    and ?k3 = "if ip_UpdateSAAddresses plan then 30 else 0 :: nat"
  define s1 where "s1 = (if ip_DeleteIKE plan
      then considerRecovery InformationalRecoveryRecreateIKESA 80 ''ike delete received''
        (\<lambda>p. p\<lparr>ip_Retry := True, ip_RecreateIKE := True\<rparr>) (plan, 0) else (plan, 0))"
  define s2 where "s2 = (if ip_DeleteCurrentChild plan
      then considerRecovery InformationalRecoveryRecreateChildSA 70 ''tracked child sa delete received''
        (\<lambda>p. p\<lparr>ip_Retry := True, ip_RecreateChild := True\<rparr>) s1
      else if ip_DeleteOtherChild plan then (\<lambda>(p, k). (p\<lparr>ip_Reason := ''no tracked child sa deleted''\<rparr>, k)) s1 else s1)"
  define s3 where "s3 = (if ip_UpdateSAAddresses plan
      then considerRecovery InformationalRecoveryUpdateMOBIKEAddresses 30 ''UPDATE_SA_ADDRESSES notify received'' id s2 else s2)"
  have 1: "chosen ?k1 s1"
    using considerRecovery_chosen [OF assms, of InformationalRecoveryRecreateIKESA 80] assms
    by (simp add: s1_def flags_agree_def)
  have 2: "chosen (max ?k1 ?k2) s2"
    using considerRecovery_chosen [OF 1, of InformationalRecoveryRecreateChildSA 70] 1
    by (cases s1) (auto simp: s2_def flags_agree_def chosen_def Let_def)
  have 3: "chosen (max (max ?k1 ?k2) ?k3) s3"
    using considerRecovery_chosen [OF 2, of InformationalRecoveryUpdateMOBIKEAddresses 30 id] 2
    by (simp add: s3_def flags_agree_def)
  have "chooseRecovery plan actions = foldl (\<lambda>s a. considerNotifyRecovery a s) s3 actions"
    by (simp add: chooseRecovery_def Let_def s1_def s2_def s3_def)
  then show ?thesis
    using considerNotifies_chosen [OF 3, of actions] unfolding foldl_max Max_of_parts [OF finite_imageI [OF finite_set]]
    by simp
qed

lemma handleNotifies_loop_Inr:
  "handleNotifies_loop ns h = Inr h' \<Longrightarrow>
   ih_NotifyActions h' = ih_NotifyActions h @ filter (\<lambda>a. na_Kind a \<noteq> NotifyActionNone) (map ClassifyNotifyAction ns) \<and>
   ih_DeleteIKE h' = ih_DeleteIKE h \<and> ih_LivenessCheck h' = ih_LivenessCheck h \<and>
   ih_UpdateSAAddresses h' = (ih_UpdateSAAddresses h \<or> (\<exists>n \<in> set ns. ntf_NotifyType n = NotifyUpdateSAAddresses))"
proof (induction ns arbitrary: h)
  case (Cons n ns)
  obtain h1 where h1: "handleInformationalNotify h n = Inr h1"
    and l: "handleNotifies_loop ns (if na_Kind (ClassifyNotifyAction n) \<noteq> NotifyActionNone
      then h1\<lparr>ih_NotifyActions := ih_NotifyActions h1 @ [ClassifyNotifyAction n]\<rparr> else h1) = Inr h'"
    using Cons.prems by (auto simp: rbind_eq_Inr_iff Let_def)
  have "ih_NotifyActions h1 = ih_NotifyActions h \<and> ih_DeleteIKE h1 = ih_DeleteIKE h \<and>
      ih_LivenessCheck h1 = ih_LivenessCheck h \<and>
      ih_UpdateSAAddresses h1 = (ih_UpdateSAAddresses h \<or> ntf_NotifyType n = NotifyUpdateSAAddresses)"
    using h1 by (auto simp: handleInformationalNotify_def Let_def split: if_splits sum.splits)
  with Cons.IH [OF l] show ?case by auto
qed simp

lemma foldl_handleDelete:
  "ih_DeleteIKE (foldl handleDelete h ds) = (ih_DeleteIKE h \<or> ike_deleted ds)"
  "ih_LivenessCheck (foldl handleDelete h ds) = ih_LivenessCheck h"
  "ih_NotifyActions (foldl handleDelete h ds) = ih_NotifyActions h"
  "ih_UpdateSAAddresses (foldl handleDelete h ds) = ih_UpdateSAAddresses h"
  by (induction ds arbitrary: h) (auto simp: handleDelete_def ike_deleted_def)

lemma insert_absorb_flag:
  "insert d A = insert d B \<Longrightarrow> (u \<Longrightarrow> x \<in> B) \<Longrightarrow> insert d ((if u then {x} else {}) \<union> A) = insert d B"
  by (cases u) auto

lemma insert_union_cong:
  "insert d (U \<union> N) = insert d F \<Longrightarrow> {d} \<union> A \<union> B \<union> U \<union> N = {d} \<union> A \<union> B \<union> F"
proof -
  assume e: "insert d (U \<union> N) = insert d F"
  have "{d} \<union> A \<union> B \<union> U \<union> N = A \<union> B \<union> insert d (U \<union> N)" by auto
  also have "\<dots> = {d} \<union> A \<union> B \<union> F" unfolding e by auto
  finally show ?thesis .
qed

section \<open>Properties\<close>

text \<open>What a message asks for, by urgency: the deletion of the IKE SA, the deletion of the tracked child SA, and
  each notification.\<close>

definition demands :: "InformationalContent \<Rightarrow> ChildSAResult \<Rightarrow> nat set" where
  "demands content child =
     {0} \<union> (if ike_deleted (in_Deletes content) then {80} else {}) \<union>
     (if \<exists>x \<in> set (deleted_spis (in_Deletes content)). tracked child x then {70} else {}) \<union>
     (\<lambda>n. urgency (recovery_for (na_Kind (ClassifyNotifyAction n)))) ` set (in_Notifies content)"

text \<open>C30: The recovery that is planned after an INFORMATIONAL message is the most urgent one of all that its
  delete payloads and notifications ask for, whatever their order, and the flags of the plan (retry, retry
  later, recreate or rekey what) are those of that one recovery.\<close>

theorem recovery_most_urgent:
  assumes "PlanInformationalRecovery content child = Inr plan" and "in_Payloads content \<noteq> []"
  shows "urgency (ip_Action plan) = Max (demands content child) \<and> flags_agree plan"
proof -
  define cd where "cd = ClassifyChildSADeletes content child"
  obtain h resp where h: "HandleInformationalContent content = Inr h" and resp: "PlanInformationalResponse h = Inr resp"
    using assms(1) by (auto simp: PlanInformationalRecovery_def rbind_eq_Inr_iff)
  obtain p' k where ch': "chooseRecovery (initialRecoveryPlan h resp cd) (ih_NotifyActions h) = (p', k)" by fastforce
  have "\<not> ih_LivenessCheck h"
    using h assms(2) by (auto simp: HandleInformationalContent_def Let_def foldl_handleDelete dest!: handleNotifies_loop_Inr)
  then have "plan = p' \<or> plan = p'\<lparr>ip_Reason := ''COOKIE2 response required''\<rparr>"
    using assms(1) h resp ch' by (auto simp: PlanInformationalRecovery_def cd_def Let_def split: if_splits)
  then have p: "ip_Action plan = ip_Action p'" "flags_agree plan = flags_agree p'"
    by (elim disjE; simp)+
  have hs: "ih_NotifyActions h = filter (\<lambda>a. na_Kind a \<noteq> NotifyActionNone) (map ClassifyNotifyAction (in_Notifies content))"
    "ih_DeleteIKE h = ike_deleted (in_Deletes content)"
    "ih_UpdateSAAddresses h = (\<exists>n \<in> set (in_Notifies content). ntf_NotifyType n = NotifyUpdateSAAddresses)"
    using h by (auto simp: HandleInformationalContent_def Let_def foldl_handleDelete dest!: handleNotifies_loop_Inr)
  let ?plan = "initialRecoveryPlan h resp cd"
  let ?f = "\<lambda>n. urgency (recovery_for (na_Kind (ClassifyNotifyAction n)))"
  have "chosen 0 (?plan, 0)" by (simp add: chosen_def initialRecoveryPlan_def flags_agree_def)
  note ch = chooseRecovery_chosen [OF this, of "ih_NotifyActions h"]
  have current: "ip_DeleteCurrentChild ?plan = (\<exists>x \<in> set (deleted_spis (in_Deletes content)). tracked child x)"
    by (cases "deleted_spis (in_Deletes content)") (auto simp: initialRecoveryPlan_def cd_def ClassifyChildSADeletes_spec)
  have ike: "ip_DeleteIKE ?plan = ike_deleted (in_Deletes content)"
    by (simp add: initialRecoveryPlan_def cd_def ClassifyChildSADeletes_spec hs)
  have "insert 0 ((if ip_UpdateSAAddresses ?plan then {30} else {}) \<union>
      (\<lambda>a. urgency (recovery_for (na_Kind a))) ` set (ih_NotifyActions h)) = insert 0 (?f ` set (in_Notifies content))"
  proof -
    have u: "?f n = 30" if "ntf_NotifyType n = NotifyUpdateSAAddresses" for n
      using that by (simp add: ClassifyNotifyAction_def Let_def)
    have "insert 0 ((\<lambda>a. urgency (recovery_for (na_Kind a))) ` set (ih_NotifyActions h)) = insert 0 (?f ` set (in_Notifies content))"
      by (force simp: hs image_iff)
    moreover have "ip_UpdateSAAddresses ?plan \<Longrightarrow> 30 \<in> ?f ` set (in_Notifies content)"
      using u by (force simp: initialRecoveryPlan_def hs)
    ultimately show ?thesis by (rule insert_absorb_flag)
  qed
  then have "{0} \<union> (if ip_DeleteIKE ?plan then {80} else {}) \<union> (if ip_DeleteCurrentChild ?plan then {70} else {}) \<union>
      (if ip_UpdateSAAddresses ?plan then {30} else {}) \<union>
      (\<lambda>a. urgency (recovery_for (na_Kind a))) ` set (ih_NotifyActions h) = demands content child"
    unfolding demands_def ike current by (rule insert_union_cong)
  with ch ch' p show ?thesis by (simp add: chosen_def)
qed

definition demo_content :: InformationalContent where
  "demo_content =
     (let n1 = mkNotify NotifyRekeySA []; n2 = mkNotify NotifyNoAdditionalSAs [] in
      \<lparr>in_Payloads = [IKEDeletePayload], in_Notifies = [n1, n2], in_NotifyActions = [],
       in_Deletes = [\<lparr>del_ProtocolID = ProtocolIKE, del_SPIs = []\<rparr>], in_NotifyError = None\<rparr>)"

theorem recovery_most_urgent_witness:
  "\<exists>plan. PlanInformationalRecovery demo_content NoChildSAResult = Inr plan \<and>
    urgency (ip_Action plan) = Max (demands demo_content NoChildSAResult) \<and> ip_Action plan = InformationalRecoveryRecreateIKESA"
proof -
  obtain plan where p: "PlanInformationalRecovery demo_content NoChildSAResult = Inr plan"
    "ip_Action plan = InformationalRecoveryRecreateIKESA"
    by (simp add: PlanInformationalRecovery_def HandleInformationalContent_def demo_content_def Let_def
        handleInformationalNotify_def ClassifyNotifyAction_def handleDelete_def PlanInformationalResponse_def
        initialRecoveryPlan_def chooseRecovery_def considerRecovery_def considerNotifyRecovery_def
        ClassifyChildSADeletes_loop NoChildSADeletes_def childSADeleteOutcome_def)
  have "in_Payloads demo_content \<noteq> []" by (simp add: demo_content_def Let_def)
  from recovery_most_urgent [OF p(1) this] p show ?thesis by blast
qed

text \<open>The classification of deleted SPIs is exact: the SPIs listed as current are those of the ESP delete
  payloads that equal one of the two SPIs of the tracked child SA, the others are all remaining AH and ESP ones, and
  the outcome says whether there were none, only current, only other, or both.\<close>

theorem child_delete_classification:
  "let spis = deleted_spis (in_Deletes content); s = ClassifyChildSADeletes content child in
   ds_CurrentSPIs s = map snd (filter (tracked child) spis) \<and>
   ds_OtherSPIs s = map snd (filter (\<lambda>x. \<not> tracked child x) spis) \<and>
   (ds_Outcome s = ChildSADeleteNone \<longleftrightarrow> spis = []) \<and>
   (ds_Outcome s = ChildSADeleteCurrent \<longleftrightarrow> spis \<noteq> [] \<and> list_all (tracked child) spis) \<and>
   (ds_Outcome s = ChildSADeleteOther \<longleftrightarrow> spis \<noteq> [] \<and> \<not> list_ex (tracked child) spis) \<and>
   (ds_Outcome s = ChildSADeleteMixed \<longleftrightarrow> list_ex (tracked child) spis \<and> \<not> list_all (tracked child) spis)"
  unfolding Let_def
  by (cases "deleted_spis (in_Deletes content)") (auto simp: ClassifyChildSADeletes_spec list_all_iff list_ex_iff)

text \<open>An INFORMATIONAL request reaches the other end: the receiver that expects the message number the
  sender used reads exactly the payloads that were sent, and one that expects another number refuses the message.\<close>

theorem informational_request_received:
  assumes "crypto_ok c" and "list_all (\<lambda>p. pl_Type p \<noteq> 0) inner"
    and "BuildInformationalRequestFrom c rnd init keys messageID fromInitiator inner iv = Inr (msg, raw)"
  shows "ParseInformationalRequestContentFrom c raw init keys expected fromInitiator =
    (if expected = messageID
     then rbind (ParseInformationalContent (link_payloads inner)) (\<lambda>content. Inr (complete_message msg, content))
     else Inl (Err ErrInvalidInformational))"
proof -
  have "msg_Header msg = informationalHeader init messageID fromInitiator False"
    using assms(3) by (simp add: BuildInformationalRequestFrom_def ProtectMessage_header)
  then have "validateInformationalHeader (msg_Header (complete_message msg)) init expected fromInitiator False =
      (if expected = messageID then Inr () else Inl (Err ErrInvalidInformational))"
    by (auto simp: validateInformationalHeader_def informationalHeader_def complete_message_def)
  moreover have "UnprotectMessage c raw keys fromInitiator = Inr (complete_message msg, link_payloads inner)"
    using assms unfolding BuildInformationalRequestFrom_def by (rule unprotect_protect)
  ultimately show ?thesis by (simp add: ParseInformationalRequestContentFrom_def)
qed

theorem informational_request_received_witness:
  "\<exists>msg raw content. BuildInformationalRequestFrom demo_crypto (\<lambda>n. Inr (replicate n 9)) demo_init demo_keys 3 True
      [IKEDeletePayload] [] = Inr (msg, raw) \<and>
    ParseInformationalRequestContentFrom demo_crypto raw demo_init demo_keys 3 True = Inr (complete_message msg, content) \<and>
    in_Deletes content = [\<lparr>del_ProtocolID = ProtocolIKE, del_SPIs = []\<rparr>] \<and>
    ParseInformationalRequestContentFrom demo_crypto raw demo_init demo_keys 4 True = Inl (Err ErrInvalidInformational)"
proof -
  obtain msg raw where p: "BuildInformationalRequestFrom demo_crypto (\<lambda>n. Inr (replicate n 9)) demo_init demo_keys 3 True
      [IKEDeletePayload] [] = Inr (msg, raw)"
    by (simp add: BuildInformationalRequestFrom_def ProtectMessage_def informationalHeader_def demo_keys_def
        MarshalPayloads_def isEncryptedPayload_def IKEDeletePayload_def demo_simps)
  have w: "list_all (\<lambda>p. pl_Type p \<noteq> 0) [IKEDeletePayload]" by (simp add: IKEDeletePayload_def)
  have "\<exists>content. ParseInformationalContent (link_payloads [IKEDeletePayload]) = Inr content \<and>
      in_Deletes content = [\<lparr>del_ProtocolID = ProtocolIKE, del_SPIs = []\<rparr>]"
    by (simp add: ParseInformationalContent_def IKEDeletePayload_def ParseDelete_def validateDelete_def Let_def
        numeral_2_eq_2 u16_at_def sub_def u16_of_def)
  with p informational_request_received [OF demo_crypto_ok w p, of 3] informational_request_received [OF demo_crypto_ok w p, of 4]
  show ?thesis by auto
qed

end
