(* ===== verification/SWu_Liveness.thy ===== *)
theory SWu_Liveness
  imports Go_Result
begin

text \<open>
  \<^verbatim>\<open>engine/swu/ike_liveness.go\<close>: dead peer detection and NAT keepalives of an IKE SA.  A
  \<^verbatim>\<open>time.Time\<close> is its distance in nanoseconds from the zero time and a \<^verbatim>\<open>time.Duration\<close> a
  number of nanoseconds, both unbounded here.  The argument \<open>clock\<close> of the operations is what
  \<^verbatim>\<open>time.Now()\<close> returns, which they read when they are handed the zero time.  The receivers are
  non-nil pointers; the operations return the new state.
\<close>

type_synonym go_time = int
type_synonym duration = int

abbreviation (input) IsZero :: "go_time \<Rightarrow> bool" where "IsZero t \<equiv> t = 0"

section \<open>Data\<close>

abbreviation (input) second :: duration where "second \<equiv> 1000000000"
abbreviation (input) defaultIKEKeepaliveInterval :: duration where "defaultIKEKeepaliveInterval \<equiv> 20 * second"
abbreviation (input) defaultIKEDPDInterval :: duration where "defaultIKEDPDInterval \<equiv> 60 * second"
abbreviation (input) defaultIKEDPDTimeout :: duration where "defaultIKEDPDTimeout \<equiv> 15 * second"
abbreviation (input) defaultIKEMissedDPDProbes :: int where "defaultIKEMissedDPDProbes \<equiv> 3"

datatype IKELivenessAction =
  IKELivenessNoAction | IKELivenessSendKeepalive | IKELivenessSendDPD | IKELivenessDeclareDead

record IKELivenessConfig =
  lc_KeepaliveInterval :: duration
  lc_DPDInterval :: duration
  lc_DPDTimeout :: duration
  lc_MaxMissedDPDProbes :: int
  lc_DisableKeepalive :: bool
  lc_DisableDPD :: bool

record IKELivenessDecision =
  ld_Action :: IKELivenessAction
  ld_ProbeID :: u32
  ld_MissedDPDProbes :: int
  ld_IdleFor :: duration
  ld_Deadline :: go_time
  ld_NextDue :: go_time
  ld_Dead :: bool
  ld_Reason :: string

record IKELivenessState =
  ls_cfg :: IKELivenessConfig
  ls_lastInbound :: go_time
  ls_lastOutbound :: go_time
  ls_lastDPDProbe :: go_time
  ls_outstandingDPD :: bool
  ls_probeID :: u32
  ls_missedDPDProbes :: int
  ls_dead :: bool
  ls_keepaliveEnabled :: bool
  ls_dpdEnabled :: bool

record IKELivenessSnapshot =
  sn_LastInbound :: go_time
  sn_LastOutbound :: go_time
  sn_LastDPDProbe :: go_time
  sn_OutstandingDPD :: bool
  sn_ProbeID :: u32
  sn_MissedDPDProbes :: int
  sn_Dead :: bool
  sn_KeepaliveEnabled :: bool
  sn_DPDEnabled :: bool

section \<open>Construction\<close>

definition normalizeIKELivenessConfig :: "IKELivenessConfig \<Rightarrow> (IKELivenessConfig \<times> bool \<times> bool) res" where
  "normalizeIKELivenessConfig cfg =
     (if lc_KeepaliveInterval cfg < 0 \<or> lc_DPDInterval cfg < 0 \<or> lc_DPDTimeout cfg < 0 \<or> lc_MaxMissedDPDProbes cfg < 0
      then Inl (Err ErrInvalidIKELiveness)
      else
        let keepaliveEnabled = (\<not> lc_DisableKeepalive cfg);
            dpdEnabled = (\<not> lc_DisableDPD cfg);
            c = cfg
              \<lparr>lc_KeepaliveInterval := (if lc_KeepaliveInterval cfg = 0 then defaultIKEKeepaliveInterval
                                        else lc_KeepaliveInterval cfg),
               lc_DPDInterval := (if lc_DPDInterval cfg = 0 then defaultIKEDPDInterval else lc_DPDInterval cfg),
               lc_DPDTimeout := (if lc_DPDTimeout cfg = 0 then defaultIKEDPDTimeout else lc_DPDTimeout cfg),
               lc_MaxMissedDPDProbes := (if lc_MaxMissedDPDProbes cfg = 0 then defaultIKEMissedDPDProbes
                                         else lc_MaxMissedDPDProbes cfg)\<rparr>
        in if dpdEnabled \<and> lc_DPDTimeout c > lc_DPDInterval c then Inl (Err ErrInvalidIKELiveness)
           else Inr (c, keepaliveEnabled, dpdEnabled))"

definition NewIKELivenessState :: "go_time \<Rightarrow> IKELivenessConfig \<Rightarrow> go_time \<Rightarrow> IKELivenessState res" where
  "NewIKELivenessState clock cfg establishedAt =
     rbind (normalizeIKELivenessConfig cfg) (\<lambda>(normalized, keepaliveEnabled, dpdEnabled).
     let at = (if IsZero establishedAt then clock else establishedAt) in
     Inr \<lparr>ls_cfg = normalized, ls_lastInbound = at, ls_lastOutbound = at, ls_lastDPDProbe = 0,
          ls_outstandingDPD = False, ls_probeID = 0, ls_missedDPDProbes = 0, ls_dead = False,
          ls_keepaliveEnabled = keepaliveEnabled, ls_dpdEnabled = dpdEnabled\<rparr>)"

definition NATTKeepalivePayload :: bytes where
  "NATTKeepalivePayload = [0xff]"

section \<open>Operations\<close>

definition RecordInbound :: "go_time \<Rightarrow> IKELivenessState \<Rightarrow> go_time \<Rightarrow> IKELivenessState" where
  "RecordInbound clock s at0 =
     (let at = (if IsZero at0 then clock else at0);
          s1 = (if at > ls_lastInbound s \<or> IsZero (ls_lastInbound s) then s\<lparr>ls_lastInbound := at\<rparr> else s)
      in s1\<lparr>ls_outstandingDPD := False, ls_missedDPDProbes := 0, ls_dead := False\<rparr>)"

definition RecordOutbound :: "go_time \<Rightarrow> IKELivenessState \<Rightarrow> go_time \<Rightarrow> IKELivenessState" where
  "RecordOutbound clock s at0 =
     (let at = (if IsZero at0 then clock else at0)
      in if at > ls_lastOutbound s \<or> IsZero (ls_lastOutbound s) then s\<lparr>ls_lastOutbound := at\<rparr> else s)"

definition RecordLivenessResult :: "go_time \<Rightarrow> IKELivenessState \<Rightarrow> go_time \<Rightarrow> bool \<Rightarrow> IKELivenessState" where
  "RecordLivenessResult clock s at ok =
     (if ok then RecordInbound clock s at
      else if \<not> ls_outstandingDPD s \<or> ls_dead s then s
      else
        let s1 = s\<lparr>ls_missedDPDProbes := ls_missedDPDProbes s + 1\<rparr>
        in if ls_missedDPDProbes s1 \<ge> lc_MaxMissedDPDProbes (ls_cfg s1) then s1\<lparr>ls_dead := True\<rparr> else s1)"

definition earlierDue :: "go_time \<Rightarrow> go_time \<Rightarrow> go_time" where
  "earlierDue current candidate =
     (if IsZero candidate then current
      else if IsZero current \<or> candidate < current then candidate
      else current)"

definition nextDue :: "IKELivenessState \<Rightarrow> go_time \<Rightarrow> go_time" where
  "nextDue s now =
     (let due0 = (if ls_dpdEnabled s
                  then earlierDue 0 (if ls_outstandingDPD s then ls_lastDPDProbe s + lc_DPDTimeout (ls_cfg s)
                                     else ls_lastInbound s + lc_DPDInterval (ls_cfg s))
                  else 0);
          due = (if ls_keepaliveEnabled s \<and> \<not> ls_outstandingDPD s
                 then earlierDue due0 (ls_lastOutbound s + lc_KeepaliveInterval (ls_cfg s)) else due0)
      in if IsZero due \<or> due < now then now else due)"

definition decision :: "IKELivenessState \<Rightarrow> go_time \<Rightarrow> IKELivenessAction \<Rightarrow> string \<Rightarrow> IKELivenessDecision" where
  "decision s now action reason =
     \<lparr>ld_Action = action, ld_ProbeID = ls_probeID s, ld_MissedDPDProbes = ls_missedDPDProbes s,
      ld_IdleFor = (if \<not> IsZero (ls_lastInbound s) \<and> now > ls_lastInbound s then now - ls_lastInbound s else 0),
      ld_Deadline = (if ls_outstandingDPD s then ls_lastDPDProbe s + lc_DPDTimeout (ls_cfg s) else 0),
      ld_NextDue = nextDue s now, ld_Dead = ls_dead s, ld_Reason = reason\<rparr>"

definition sendDPD :: "IKELivenessState \<Rightarrow> go_time \<Rightarrow> string \<Rightarrow> IKELivenessDecision \<times> IKELivenessState" where
  "sendDPD s now reason =
     (let s1 = s\<lparr>ls_probeID := ls_probeID s + 1, ls_outstandingDPD := True, ls_lastDPDProbe := now,
                 ls_lastOutbound := now\<rparr>
      in (decision s1 now IKELivenessSendDPD reason, s1))"

definition advanceDPD :: "IKELivenessState \<Rightarrow> go_time \<Rightarrow> IKELivenessDecision \<times> IKELivenessState" where
  "advanceDPD s now =
     (if \<not> ls_dpdEnabled s then (decision s now IKELivenessNoAction ''dpd disabled'', s)
      else if ls_outstandingDPD s
      then (if now < ls_lastDPDProbe s + lc_DPDTimeout (ls_cfg s)
            then (decision s now IKELivenessNoAction ''waiting for dpd response'', s)
            else
              let s1 = s\<lparr>ls_missedDPDProbes := ls_missedDPDProbes s + 1\<rparr> in
              if ls_missedDPDProbes s1 \<ge> lc_MaxMissedDPDProbes (ls_cfg s1)
              then let s2 = s1\<lparr>ls_dead := True\<rparr>
                   in (decision s2 now IKELivenessDeclareDead ''dpd retry budget exhausted'', s2)
              else sendDPD s1 now ''dpd response timeout'')
      else if now < ls_lastInbound s + lc_DPDInterval (ls_cfg s)
      then (decision s now IKELivenessNoAction ''peer traffic observed recently'', s)
      else sendDPD s now ''dpd interval elapsed'')"

definition Advance :: "go_time \<Rightarrow> IKELivenessState \<Rightarrow> go_time \<Rightarrow> IKELivenessDecision \<times> IKELivenessState" where
  "Advance clock s now0 =
     (let now = (if IsZero now0 then clock else now0) in
      if ls_dead s then (decision s now IKELivenessNoAction ''peer already declared dead'', s)
      else case advanceDPD s now of (d, s1) \<Rightarrow>
        if ld_Action d \<noteq> IKELivenessNoAction then (d, s1)
        else if ls_keepaliveEnabled s1 \<and> \<not> now < ls_lastOutbound s1 + lc_KeepaliveInterval (ls_cfg s1)
        then let s2 = s1\<lparr>ls_lastOutbound := now\<rparr>
             in (decision s2 now IKELivenessSendKeepalive ''keepalive interval elapsed'', s2)
        else (decision s1 now IKELivenessNoAction ''not due'', s1))"

definition Snapshot :: "IKELivenessState \<Rightarrow> IKELivenessSnapshot" where
  "Snapshot s =
     \<lparr>sn_LastInbound = ls_lastInbound s, sn_LastOutbound = ls_lastOutbound s, sn_LastDPDProbe = ls_lastDPDProbe s,
      sn_OutstandingDPD = ls_outstandingDPD s, sn_ProbeID = ls_probeID s, sn_MissedDPDProbes = ls_missedDPDProbes s,
      sn_Dead = ls_dead s, sn_KeepaliveEnabled = ls_keepaliveEnabled s, sn_DPDEnabled = ls_dpdEnabled s\<rparr>"

section \<open>Runs\<close>

text \<open>What can happen to the state, and the states that can be reached.\<close>

datatype liveness_event =
    EvInbound go_time | EvOutbound go_time | EvResult go_time bool | EvAdvance go_time IKELivenessDecision

inductive liveness_step :: "IKELivenessState \<Rightarrow> liveness_event \<Rightarrow> IKELivenessState \<Rightarrow> bool" where
  inbound: "liveness_step s (EvInbound at) (RecordInbound clock s at)"
| outbound: "liveness_step s (EvOutbound at) (RecordOutbound clock s at)"
| result: "liveness_step s (EvResult at ok) (RecordLivenessResult clock s at ok)"
| advance: "Advance clock s now = (d, s') \<Longrightarrow> liveness_step s (EvAdvance now d) s'"

inductive liveness_run :: "IKELivenessState \<Rightarrow> liveness_event list \<Rightarrow> IKELivenessState \<Rightarrow> bool" where
  start: "liveness_run s [] s"
| step: "liveness_run s es s1 \<Longrightarrow> liveness_step s1 e s2 \<Longrightarrow> liveness_run s (es @ [e]) s2"

inductive_cases liveness_step_advanceE: "liveness_step s (EvAdvance now d) s'"

text \<open>An invariant of every step holds along every run.\<close>

locale liveness_invariant =
  fixes I :: "IKELivenessState \<Rightarrow> bool" and ok :: "liveness_event \<Rightarrow> bool"
  assumes step_inv: "liveness_step s e s' \<Longrightarrow> I s \<Longrightarrow> ok e \<Longrightarrow> I s'"
begin

lemma run_inv: "liveness_run s es s' \<Longrightarrow> I s \<Longrightarrow> (\<forall>e \<in> set es. ok e) \<Longrightarrow> I s'"
  by (induction rule: liveness_run.induct) (auto intro: step_inv)

end

text \<open>The number of missed probes stays within the budget, and the peer is dead exactly when it is used up.\<close>

definition liveness_ok :: "IKELivenessState \<Rightarrow> bool" where
  "liveness_ok s \<longleftrightarrow>
     0 < lc_MaxMissedDPDProbes (ls_cfg s) \<and> 0 < lc_KeepaliveInterval (ls_cfg s) \<and>
     0 < lc_DPDTimeout (ls_cfg s) \<and> 0 < lc_DPDInterval (ls_cfg s) \<and>
     (ls_dpdEnabled s \<longrightarrow> lc_DPDTimeout (ls_cfg s) \<le> lc_DPDInterval (ls_cfg s)) \<and>
     0 \<le> ls_missedDPDProbes s \<and> ls_missedDPDProbes s \<le> lc_MaxMissedDPDProbes (ls_cfg s) \<and>
     (ls_dead s \<longleftrightarrow> ls_missedDPDProbes s = lc_MaxMissedDPDProbes (ls_cfg s)) \<and>
     (ls_missedDPDProbes s > 0 \<longrightarrow> ls_outstandingDPD s) \<and> (ls_outstandingDPD s \<longrightarrow> ls_dpdEnabled s)"

lemmas liveness_ops = RecordInbound_def RecordOutbound_def RecordLivenessResult_def Advance_def advanceDPD_def
  sendDPD_def Let_def

lemma decision_simps [simp]:
  "ld_Action (decision s now a r) = a" "ld_Dead (decision s now a r) = ls_dead s"
  "ld_ProbeID (decision s now a r) = ls_probeID s" "ld_NextDue (decision s now a r) = nextDue s now"
  by (simp_all add: decision_def)

lemma NewIKELivenessState_ok: "NewIKELivenessState clock cfg at = Inr s \<Longrightarrow> liveness_ok s"
  by (auto simp: NewIKELivenessState_def normalizeIKELivenessConfig_def liveness_ok_def rbind_eq_Inr_iff Let_def
      split: if_splits)

interpretation budget: liveness_invariant liveness_ok "\<lambda>_. True"
  by unfold_locales (erule liveness_step.cases; force simp: liveness_ok_def liveness_ops split: if_splits prod.splits)

text \<open>While a probe is outstanding, every counted miss stands for one elapsed timeout.\<close>

definition silence_counted :: "IKELivenessState \<Rightarrow> bool" where
  "silence_counted s \<longleftrightarrow> ls_dead s \<or>
     (if ls_outstandingDPD s
      then ls_lastInbound s + lc_DPDInterval (ls_cfg s) + ls_missedDPDProbes s * lc_DPDTimeout (ls_cfg s)
             \<le> ls_lastDPDProbe s
      else ls_missedDPDProbes s = 0)"

abbreviation (input) not_failed_result :: "liveness_event \<Rightarrow> bool" where
  "not_failed_result e \<equiv> (case e of EvResult at ok \<Rightarrow> ok | _ \<Rightarrow> True)"

lemma advance_silence:
  "Advance clock s now = (d, s') \<Longrightarrow> silence_counted s \<Longrightarrow> silence_counted s'"
  by (auto simp: silence_counted_def liveness_ops algebra_simps split: if_splits)

interpretation silence: liveness_invariant silence_counted not_failed_result
  by unfold_locales
    (erule liveness_step.cases;
      auto simp: silence_counted_def RecordInbound_def RecordOutbound_def RecordLivenessResult_def Let_def
        dest: advance_silence)

text \<open>The times at which the peer was heard.\<close>

fun heard_at :: "liveness_event \<Rightarrow> go_time option" where
  "heard_at (EvInbound at) = Some at"
| "heard_at (EvResult at ok) = (if ok then Some at else None)"
| "heard_at _ = None"

lemma step_lastInbound:
  assumes "liveness_step s e s'" and "0 < ls_lastInbound s"
  shows "ls_lastInbound s \<le> ls_lastInbound s'" "heard_at e = Some at \<Longrightarrow> at \<le> ls_lastInbound s'"
  using assms by (auto elim!: liveness_step.cases simp: liveness_ops split: if_splits)

lemma step_cfg: "liveness_step s e s' \<Longrightarrow> ls_cfg s' = ls_cfg s \<and> ls_dpdEnabled s' = ls_dpdEnabled s"
  by (erule liveness_step.cases) (auto simp: liveness_ops split: if_splits)

lemma run_cfg: "liveness_run s es s' \<Longrightarrow> ls_cfg s' = ls_cfg s \<and> ls_dpdEnabled s' = ls_dpdEnabled s"
  by (induction rule: liveness_run.induct) (auto dest: step_cfg)

lemma run_lastInbound:
  "liveness_run s es s' \<Longrightarrow> 0 < ls_lastInbound s \<Longrightarrow>
   ls_lastInbound s \<le> ls_lastInbound s' \<and> (\<forall>e at. e \<in> set es \<longrightarrow> heard_at e = Some at \<longrightarrow> at \<le> ls_lastInbound s')"
proof (induction rule: liveness_run.induct)
  case (step s es s1 e s2)
  then have "0 < ls_lastInbound s1" by auto
  with step step_lastInbound [OF step.hyps(2) this] show ?case by fastforce
qed simp

text \<open>Calls of \<^verbatim>\<open>Advance\<close> with nothing else in between.\<close>

fun advances :: "IKELivenessState \<Rightarrow> go_time list \<Rightarrow> IKELivenessDecision list \<times> IKELivenessState" where
  "advances s [] = ([], s)"
| "advances s (t # ts) = (let (d, s1) = Advance t s t; (ds, s2) = advances s1 ts in (d # ds, s2))"

fun paced :: "duration \<Rightarrow> go_time \<Rightarrow> go_time list \<Rightarrow> bool" where
  "paced gap t [] = True"
| "paced gap t (u # us) = (t + gap \<le> u \<and> paced gap u us)"

lemma probing_to_death:
  assumes "liveness_ok s" "\<not> ls_dead s" "ls_outstandingDPD s" "paced (lc_DPDTimeout (ls_cfg s)) (ls_lastDPDProbe s) ts"
    and "int (length ts) = lc_MaxMissedDPDProbes (ls_cfg s) - ls_missedDPDProbes s"
  shows "map ld_Action (fst (advances s ts)) = replicate (length ts - 1) IKELivenessSendDPD @ [IKELivenessDeclareDead] \<and>
    ls_dead (snd (advances s ts))"
  using assms
proof (induction ts arbitrary: s)
  case Nil
  then show ?case by (auto simp: liveness_ok_def)
next
  case (Cons t ts)
  show ?case
  proof (cases "ts = []")
    case True
    with Cons.prems show ?thesis
      by (auto simp: liveness_ok_def Advance_def advanceDPD_def Let_def)
  next
    case False
    let ?s = "s\<lparr>ls_missedDPDProbes := ls_missedDPDProbes s + 1, ls_probeID := ls_probeID s + 1,
      ls_outstandingDPD := True, ls_lastDPDProbe := t, ls_lastOutbound := t\<rparr>"
    have l: "0 < length ts" using False by simp
    have m: "ls_missedDPDProbes s + 1 < lc_MaxMissedDPDProbes (ls_cfg s)" using Cons.prems(5) l by (simp del: length_greater_0_conv)
    have "Advance t s t = (decision ?s t IKELivenessSendDPD ''dpd response timeout'', ?s)"
      using Cons.prems m by (simp add: liveness_ok_def liveness_ops)
    moreover have "map ld_Action (fst (advances ?s ts)) = replicate (length ts - 1) IKELivenessSendDPD @ [IKELivenessDeclareDead]
        \<and> ls_dead (snd (advances ?s ts))"
      by (rule Cons.IH) (use Cons.prems m in \<open>auto simp: liveness_ok_def\<close>)
    ultimately show ?thesis
      using l by (cases "length ts") (auto simp: Let_def split: prod.splits)
  qed
qed

section \<open>Properties\<close>

text \<open>The probe budget: in every state the liveness tracker can reach, the number of missed probes is between
  zero and the configured maximum, the peer counts as dead exactly when the maximum is reached, and misses are only
  counted while a probe is outstanding.\<close>

theorem liveness_probe_budget:
  assumes "NewIKELivenessState clock cfg at = Inr s0" and "liveness_run s0 es s"
  shows "0 \<le> ls_missedDPDProbes s \<and> ls_missedDPDProbes s \<le> lc_MaxMissedDPDProbes (ls_cfg s) \<and>
    (ls_dead s \<longleftrightarrow> ls_missedDPDProbes s = lc_MaxMissedDPDProbes (ls_cfg s)) \<and>
    (ls_missedDPDProbes s > 0 \<longrightarrow> ls_outstandingDPD s \<and> ls_dpdEnabled s)"
  using budget.run_inv [OF assms(2) NewIKELivenessState_ok [OF assms(1)]] by (auto simp: liveness_ok_def)

definition demo_liveness :: IKELivenessConfig where
  "demo_liveness = \<lparr>lc_KeepaliveInterval = 0, lc_DPDInterval = 30, lc_DPDTimeout = 10, lc_MaxMissedDPDProbes = 2,
     lc_DisableKeepalive = True, lc_DisableDPD = False\<rparr>"

definition demo_state :: IKELivenessState where
  "demo_state = \<lparr>ls_cfg = demo_liveness\<lparr>lc_KeepaliveInterval := defaultIKEKeepaliveInterval\<rparr>, ls_lastInbound = 100,
     ls_lastOutbound = 100, ls_lastDPDProbe = 0, ls_outstandingDPD = False, ls_probeID = 0, ls_missedDPDProbes = 0,
     ls_dead = False, ls_keepaliveEnabled = False, ls_dpdEnabled = True\<rparr>"

lemma demo_state_new: "NewIKELivenessState 0 demo_liveness 100 = Inr demo_state"
  by (simp add: NewIKELivenessState_def normalizeIKELivenessConfig_def demo_liveness_def demo_state_def)

theorem liveness_probe_budget_witness:
  "liveness_run demo_state [EvAdvance 130 (fst (Advance 0 demo_state 130))] (snd (Advance 0 demo_state 130)) \<and>
   ls_missedDPDProbes (snd (Advance 0 demo_state 130)) \<le> 2"
proof -
  have r: "liveness_run demo_state ([] @ [EvAdvance 130 (fst (Advance 0 demo_state 130))]) (snd (Advance 0 demo_state 130))"
    by (rule liveness_run.step [OF liveness_run.start]) (rule liveness_step.advance, rule prod.collapse [symmetric])
  have "lc_MaxMissedDPDProbes (ls_cfg (snd (Advance 0 demo_state 130))) = 2"
    by (simp add: demo_state_def demo_liveness_def liveness_ops)
  with r liveness_probe_budget [OF demo_state_new r] show ?thesis by simp
qed

text \<open>C28: No live peer is declared dead by timeouts: as long as no probe was reported as failed, when \<^verbatim>\<open>Advance\<close>
  declares the peer dead, everything ever heard from it is older than the probe interval and the full
  number of probe timeouts together.\<close>

theorem dead_peer_was_silent:
  assumes "NewIKELivenessState clock cfg at = Inr s0" and "0 < (if at = 0 then clock else at)"
    and "liveness_run s0 es s" and "\<And>t ok. EvResult t ok \<in> set es \<Longrightarrow> ok"
    and "Advance now s now = (d, s')" and "ld_Action d = IKELivenessDeclareDead"
    and "e \<in> set es" and "heard_at e = Some t"
  shows "t + lc_DPDInterval (ls_cfg s0) + lc_MaxMissedDPDProbes (ls_cfg s0) * lc_DPDTimeout (ls_cfg s0) \<le> now"
proof -
  have i: "silence_counted s0" "0 < ls_lastInbound s0"
    using assms(1,2) by (auto simp: silence_counted_def NewIKELivenessState_def rbind_eq_Inr_iff Let_def split: if_splits)
  have "silence_counted s"
    by (rule silence.run_inv [OF assms(3) i(1)]) (use assms(4) in \<open>auto split: liveness_event.splits\<close>)
  moreover have "liveness_ok s" using budget.run_inv [OF assms(3) NewIKELivenessState_ok [OF assms(1)]] by simp
  moreover have "t \<le> ls_lastInbound s" using run_lastInbound [OF assms(3) i(2)] assms(7,8) by blast
  ultimately have "ls_lastDPDProbe s + lc_DPDTimeout (ls_cfg s) \<le> now"
    "lc_MaxMissedDPDProbes (ls_cfg s) = ls_missedDPDProbes s + 1"
    "t + lc_DPDInterval (ls_cfg s) + ls_missedDPDProbes s * lc_DPDTimeout (ls_cfg s) \<le> ls_lastDPDProbe s"
    using assms(5,6) by (auto simp: liveness_ops silence_counted_def liveness_ok_def split: if_splits)
  then show ?thesis using run_cfg [OF assms(3)] by (simp add: algebra_simps)
qed

theorem dead_peer_was_silent_witness:
  "\<exists>es s d s'. liveness_run demo_state es s \<and> EvInbound 105 \<in> set es \<and> Advance 155 s 155 = (d, s') \<and>
    ld_Action d = IKELivenessDeclareDead \<and> (105 :: int) + 30 + 2 * 10 \<le> 155"
proof -
  let ?a = "RecordInbound 0 demo_state 105"
  let ?b = "snd (Advance 0 ?a 135)"
  let ?c = "snd (Advance 0 ?b 145)"
  let ?es = "[] @ [EvInbound 105] @ [EvAdvance 135 (fst (Advance 0 ?a 135))] @ [EvAdvance 145 (fst (Advance 0 ?b 145))]"
  have adv: "liveness_step u (EvAdvance t (fst (Advance 0 u t))) (snd (Advance 0 u t))" for u t
    by (rule liveness_step.advance) (rule prod.collapse [symmetric])
  have r: "liveness_run demo_state ?es ?c"
    unfolding append_assoc [symmetric] by (rule liveness_run.step liveness_run.start liveness_step.inbound adv)+
  have d: "ld_Action (fst (Advance 155 ?c 155)) = IKELivenessDeclareDead"
    by (simp add: demo_state_def demo_liveness_def liveness_ops)
  have "(105 :: int) + lc_DPDInterval (ls_cfg demo_state)
      + lc_MaxMissedDPDProbes (ls_cfg demo_state) * lc_DPDTimeout (ls_cfg demo_state) \<le> 155"
    by (rule dead_peer_was_silent [OF demo_state_new _ r _ prod.collapse [symmetric] d, of "EvInbound 105"]) auto
  then have "(105 :: int) + 30 + 2 * 10 \<le> 155" by (simp add: demo_state_def demo_liveness_def)
  with r d show ?thesis by (metis append_Cons list.set_intros(1) prod.collapse append_Nil)
qed

text \<open>C29: A silent peer is declared dead: from any state in which no probe is outstanding, calls of
  \<^verbatim>\<open>Advance\<close> that are due, the first once the probe interval has passed and each further one a probe
  timeout later, send the full number of probes and then declare the peer dead.\<close>

theorem silent_peer_declared_dead:
  assumes "NewIKELivenessState clock cfg at = Inr s0" and "liveness_run s0 es s"
    and "ls_dpdEnabled s" "\<not> ls_dead s" "\<not> ls_outstandingDPD s"
    and "ls_lastInbound s + lc_DPDInterval (ls_cfg s) \<le> t" "paced (lc_DPDTimeout (ls_cfg s)) t ts"
    and "int (length ts) = lc_MaxMissedDPDProbes (ls_cfg s)"
  shows "map ld_Action (fst (advances s (t # ts)))
      = replicate (length ts) IKELivenessSendDPD @ [IKELivenessDeclareDead] \<and> ls_dead (snd (advances s (t # ts)))"
proof -
  have ok: "liveness_ok s" using budget.run_inv [OF assms(2) NewIKELivenessState_ok [OF assms(1)]] by simp
  then have l: "0 < length ts" "ls_missedDPDProbes s = 0" using assms(5,8) by (auto simp: liveness_ok_def)
  let ?s = "s\<lparr>ls_probeID := ls_probeID s + 1, ls_outstandingDPD := True, ls_lastDPDProbe := t, ls_lastOutbound := t\<rparr>"
  have ok': "liveness_ok ?s" using ok assms(3,5) by (simp add: liveness_ok_def)
  have "Advance t s t = (decision ?s t IKELivenessSendDPD ''dpd interval elapsed'', ?s)"
    using assms by (simp add: liveness_ops)
  moreover have "map ld_Action (fst (advances ?s ts)) = replicate (length ts - 1) IKELivenessSendDPD @ [IKELivenessDeclareDead]
      \<and> ls_dead (snd (advances ?s ts))"
    by (rule probing_to_death [OF ok']) (use assms(4,7,8) l in simp_all)
  ultimately show ?thesis
    using l(1) by (cases "length ts") (auto simp: Let_def split: prod.splits)
qed

theorem silent_peer_declared_dead_witness:
  "map ld_Action (fst (advances demo_state [130, 140, 150]))
    = [IKELivenessSendDPD, IKELivenessSendDPD, IKELivenessDeclareDead]"
  using silent_peer_declared_dead [OF demo_state_new liveness_run.start, of 130 "[140, 150]"]
  by (simp add: demo_state_def demo_liveness_def numeral_2_eq_2)

text \<open>C38: A failed probe is counted twice: when the caller reports the failure of the outstanding probe, which
  the tunnel does right after sending it, and again when its timeout passes, because the report leaves
  the probe outstanding: one probe uses up two of the configured number of misses.\<close>

theorem failed_probe_counted_twice:
  assumes "ls_outstandingDPD s" "ls_dpdEnabled s" "\<not> ls_dead s"
    and "ls_missedDPDProbes s + 2 < lc_MaxMissedDPDProbes (ls_cfg s)"
    and "ls_lastDPDProbe s + lc_DPDTimeout (ls_cfg s) \<le> now" "now \<noteq> 0"
  shows "ls_probeID (RecordLivenessResult clock s at False) = ls_probeID s \<and>
    ls_missedDPDProbes (snd (Advance clock (RecordLivenessResult clock s at False) now)) = ls_missedDPDProbes s + 2 \<and>
    ls_probeID (snd (Advance clock (RecordLivenessResult clock s at False) now)) = ls_probeID s + 1"
  using assms by (simp add: liveness_ops)

theorem failed_probe_counted_twice_witness:
  "ls_missedDPDProbes (snd (Advance 0 (RecordLivenessResult 0
     (demo_state\<lparr>ls_cfg := demo_liveness\<lparr>lc_MaxMissedDPDProbes := 3\<rparr>, ls_outstandingDPD := True, ls_lastDPDProbe := 130\<rparr>) 131 False) 140)) = 2"
  using failed_probe_counted_twice [of
    "demo_state\<lparr>ls_cfg := demo_liveness\<lparr>lc_MaxMissedDPDProbes := 3\<rparr>, ls_outstandingDPD := True, ls_lastDPDProbe := 130\<rparr>" 140 0 131]
  by (simp add: demo_state_def demo_liveness_def)

end
