(* ===== verification/SWu_Reauth.thy ===== *)
theory SWu_Reauth
  imports EAP_Crypto SWu_Liveness
begin

text \<open>
  \<^verbatim>\<open>engine/swu/eap_reauth.go\<close>: what a device keeps between attachments so that it can reauthenticate: an identity,
  a pseudonym, keys and a counter.  A state is a value; the manager keeps it in a store, which is an interface here and in
  the code, and \<^verbatim>\<open>MemoryEAPReauthenticationStore\<close> is the store that comes with it.  Receivers are non-nil, contexts are
  not used by these stores.  The argument \<open>clock\<close> is what \<^verbatim>\<open>time.Now()\<close> returns.
\<close>

section \<open>Strings\<close>

text \<open>
  \<^verbatim>\<open>strings.ToLower\<close> changes the letters of a text of ASCII octets; for other texts it consults the tables of
  Unicode, which are the parameter \<open>uni\<close>.
\<close>

definition asciiLower :: "u8 \<Rightarrow> u8" where
  "asciiLower b = (if 0x41 \<le> b \<and> b \<le> 0x5a then b + 0x20 else b)"

definition ascii :: "bytes \<Rightarrow> bool" where
  "ascii s = list_all (\<lambda>b. b < 0x80) s"

definition ToLower :: "(bytes \<Rightarrow> bytes) \<Rightarrow> bytes \<Rightarrow> bytes" where
  "ToLower uni s = (if ascii s then map asciiLower s else uni s)"

section \<open>Data\<close>

record EAPReauthenticationState =
  ra_Identity :: bytes
  ra_Counter :: u16
  ra_CounterOK :: bool
  ra_Keys :: Keys
  ra_NextPseudonym :: bytes
  ra_ExpiresAt :: go_time
  ra_OperatorRealm :: bytes
  ra_Reauthenticated :: bool
  ra_CounterTooSmall :: bool
  ra_LastAcceptedCounter :: u16
  ra_LastRejectedCounter :: u16

record EAPReauthenticationUpdate =
  ru_NextReauthID :: bytes
  ru_NextPseudonym :: bytes
  ru_Keys :: Keys
  ru_Reauthenticated :: bool
  ru_CounterTooSmall :: bool
  ru_Counter :: u16
  ru_ExpiresAt :: go_time
  ru_OperatorRealm :: bytes

record EAPReauthenticationKeySnapshot =
  ks_MK :: bytes
  ks_KEncr :: bytes
  ks_KAut :: bytes
  ks_KRe :: bytes
  ks_MSK :: bytes
  ks_EMSK :: bytes
  ks_CKPrime :: bytes
  ks_IKPrime :: bytes

record EAPReauthenticationSnapshot =
  rs_Version :: int
  rs_ReauthIdentity :: bytes
  rs_Pseudonym :: bytes
  rs_Expiry :: go_time
  rs_OperatorRealm :: bytes
  rs_Counter :: u16
  rs_CounterOK :: bool
  rs_Keys :: EAPReauthenticationKeySnapshot
  rs_Reauthenticated :: bool
  rs_CounterTooSmall :: bool
  rs_LastAcceptedCounter :: u16
  rs_LastRejectedCounter :: u16

definition noReauthKeys :: Keys where
  "noReauthKeys = \<lparr>keys_MK = [], keys_KEncr = [], keys_KAut = [], keys_KRe = [], keys_MSK = [], keys_EMSK = [], keys_CKPrime = [], keys_IKPrime = []\<rparr>"

definition NoReauthState :: EAPReauthenticationState where
  "NoReauthState = \<lparr>ra_Identity = [], ra_Counter = 0, ra_CounterOK = False, ra_Keys = noReauthKeys, ra_NextPseudonym = [], ra_ExpiresAt = 0,
     ra_OperatorRealm = [], ra_Reauthenticated = False, ra_CounterTooSmall = False, ra_LastAcceptedCounter = 0, ra_LastRejectedCounter = 0\<rparr>"

abbreviation (input) EAPReauthenticationSnapshotVersion :: int where "EAPReauthenticationSnapshotVersion \<equiv> 1"

section \<open>States\<close>

definition normalizeEAPOperatorRealm :: "(bytes \<Rightarrow> bytes) \<Rightarrow> bytes \<Rightarrow> bytes" where
  "normalizeEAPOperatorRealm uni realm = ToLower uni (TrimSpace realm)"

definition Expired :: "go_time \<Rightarrow> EAPReauthenticationState \<Rightarrow> go_time \<Rightarrow> bool" where
  "Expired clock s now =
     (if IsZero (ra_ExpiresAt s) then False
      else let now = (if IsZero now then clock else now) in \<not> now < ra_ExpiresAt s)"

definition ReauthenticationUsableAt :: "go_time \<Rightarrow> EAPReauthenticationState \<Rightarrow> go_time \<Rightarrow> bool" where
  "ReauthenticationUsableAt clock s now \<longleftrightarrow>
     \<not> Expired clock s now \<and> TrimSpace (ra_Identity s) \<noteq> [] \<and> length (keys_KAut (ra_Keys s)) > 0 \<and> length (keys_KEncr (ra_Keys s)) > 0"

definition PseudonymUsableAt :: "go_time \<Rightarrow> EAPReauthenticationState \<Rightarrow> go_time \<Rightarrow> bool" where
  "PseudonymUsableAt clock s now \<longleftrightarrow> \<not> Expired clock s now \<and> TrimSpace (ra_NextPseudonym s) \<noteq> []"

definition AnyUsableAt :: "go_time \<Rightarrow> EAPReauthenticationState \<Rightarrow> go_time \<Rightarrow> bool" where
  "AnyUsableAt clock s now \<longleftrightarrow> ReauthenticationUsableAt clock s now \<or> PseudonymUsableAt clock s now"

definition Usable :: "go_time \<Rightarrow> EAPReauthenticationState \<Rightarrow> bool" where
  "Usable clock s = ReauthenticationUsableAt clock s clock"

definition MatchesOperatorRealm :: "(bytes \<Rightarrow> bytes) \<Rightarrow> EAPReauthenticationState \<Rightarrow> bytes \<Rightarrow> bool" where
  "MatchesOperatorRealm uni s realm =
     (let stored = normalizeEAPOperatorRealm uni (ra_OperatorRealm s); current = normalizeEAPOperatorRealm uni realm
      in stored = [] \<or> current = [] \<or> stored = current)"

text \<open>A copy of keys is the keys; a copy of a state trims its texts.\<close>

definition cloneEAPAKAKeys :: "Keys \<Rightarrow> Keys" where
  "cloneEAPAKAKeys k = \<lparr>keys_MK = keys_MK k, keys_KEncr = keys_KEncr k, keys_KAut = keys_KAut k, keys_KRe = keys_KRe k, keys_MSK = keys_MSK k,
     keys_EMSK = keys_EMSK k, keys_CKPrime = keys_CKPrime k, keys_IKPrime = keys_IKPrime k\<rparr>"

definition State_clone :: "(bytes \<Rightarrow> bytes) \<Rightarrow> EAPReauthenticationState \<Rightarrow> EAPReauthenticationState" where
  "State_clone uni s = s\<lparr>ra_Identity := TrimSpace (ra_Identity s), ra_NextPseudonym := TrimSpace (ra_NextPseudonym s),
     ra_OperatorRealm := normalizeEAPOperatorRealm uni (ra_OperatorRealm s), ra_Keys := cloneEAPAKAKeys (ra_Keys s)\<rparr>"

text \<open>The switch of \<^verbatim>\<open>ApplyUpdate\<close> over what happened to the counter.\<close>

definition applyCounter :: "EAPReauthenticationState \<Rightarrow> EAPReauthenticationUpdate \<Rightarrow> EAPReauthenticationState \<Rightarrow> EAPReauthenticationState" where
  "applyCounter current update next =
     (if ru_Reauthenticated update
      then next\<lparr>ra_Counter := ru_Counter update, ra_CounterOK := True, ra_LastAcceptedCounter := ru_Counter update\<rparr>
      else if ru_CounterTooSmall update
      then next\<lparr>ra_CounterOK := ra_CounterOK current, ra_LastRejectedCounter := ru_Counter update\<rparr>
      else next\<lparr>ra_Counter := 0, ra_CounterOK := True, ra_LastAcceptedCounter := 0, ra_LastRejectedCounter := 0\<rparr>)"

definition ApplyUpdate :: "(bytes \<Rightarrow> bytes) \<Rightarrow> EAPReauthenticationState \<Rightarrow> EAPReauthenticationUpdate \<Rightarrow> EAPReauthenticationState \<times> bool" where
  "ApplyUpdate uni s update =
     (if length (keys_KAut (ru_Keys update)) = 0 \<or> length (keys_KEncr (ru_Keys update)) = 0 then (State_clone uni s, False)
      else
        let current = State_clone uni s;
            identity = TrimSpace (ru_NextReauthID update);
            n1 = (if identity \<noteq> [] then current\<lparr>ra_Identity := identity\<rparr> else current);
            pseudonym = TrimSpace (ru_NextPseudonym update);
            n2 = (if pseudonym \<noteq> [] then n1\<lparr>ra_NextPseudonym := pseudonym\<rparr> else n1);
            realm = normalizeEAPOperatorRealm uni (ru_OperatorRealm update);
            n3 = (if realm \<noteq> [] then n2\<lparr>ra_OperatorRealm := realm\<rparr> else n2);
            n4 = n3\<lparr>ra_ExpiresAt := ru_ExpiresAt update\<rparr> in
        if TrimSpace (ra_Identity n4) = [] \<and> TrimSpace (ra_NextPseudonym n4) = [] then (current, False)
        else
          let n5 = n4\<lparr>ra_Keys := cloneEAPAKAKeys (ru_Keys update), ra_Reauthenticated := ru_Reauthenticated update,
                     ra_CounterTooSmall := ru_CounterTooSmall update\<rparr>;
              n6 = (if TrimSpace (ra_Identity n5) = []
                    then n5\<lparr>ra_Counter := 0, ra_CounterOK := False, ra_LastAcceptedCounter := 0, ra_LastRejectedCounter := 0,
                           ra_Reauthenticated := False, ra_CounterTooSmall := False\<rparr>
                    else applyCounter current update n5)
          in (State_clone uni n6, True))"

definition authStateAt :: "(bytes \<Rightarrow> bytes) \<Rightarrow> go_time \<Rightarrow> EAPReauthenticationState \<Rightarrow> go_time \<Rightarrow> bytes \<Rightarrow> EAPReauthenticationState" where
  "authStateAt uni clock s0 now operatorRealm =
     (let s1 = State_clone uni s0 in
      if \<not> MatchesOperatorRealm uni s1 operatorRealm \<or> Expired clock s1 now then NoReauthState
      else
        let s2 = (if ra_OperatorRealm s1 = [] then s1\<lparr>ra_OperatorRealm := normalizeEAPOperatorRealm uni operatorRealm\<rparr> else s1);
            s3 = (if \<not> PseudonymUsableAt clock s2 now then s2\<lparr>ra_NextPseudonym := []\<rparr> else s2);
            s4 = (if \<not> ReauthenticationUsableAt clock s3 now
                  then s3\<lparr>ra_Identity := [], ra_Counter := 0, ra_CounterOK := False, ra_Keys := noReauthKeys, ra_Reauthenticated := False,
                         ra_CounterTooSmall := False, ra_LastAcceptedCounter := 0, ra_LastRejectedCounter := 0\<rparr>
                  else s3) in
        if ra_Identity s4 = [] \<and> ra_NextPseudonym s4 = [] then NoReauthState
        else State_clone uni s4)"

section \<open>Snapshots\<close>

definition snapshotEAPAKAKeys :: "Keys \<Rightarrow> EAPReauthenticationKeySnapshot" where
  "snapshotEAPAKAKeys k = \<lparr>ks_MK = keys_MK k, ks_KEncr = keys_KEncr k, ks_KAut = keys_KAut k, ks_KRe = keys_KRe k, ks_MSK = keys_MSK k,
     ks_EMSK = keys_EMSK k, ks_CKPrime = keys_CKPrime k, ks_IKPrime = keys_IKPrime k\<rparr>"

definition KeySnapshot_keys :: "EAPReauthenticationKeySnapshot \<Rightarrow> Keys" where
  "KeySnapshot_keys k = \<lparr>keys_MK = ks_MK k, keys_KEncr = ks_KEncr k, keys_KAut = ks_KAut k, keys_KRe = ks_KRe k, keys_MSK = ks_MSK k,
     keys_EMSK = ks_EMSK k, keys_CKPrime = ks_CKPrime k, keys_IKPrime = ks_IKPrime k\<rparr>"

definition KeySnapshot_clone :: "EAPReauthenticationKeySnapshot \<Rightarrow> EAPReauthenticationKeySnapshot" where
  "KeySnapshot_clone k = \<lparr>ks_MK = ks_MK k, ks_KEncr = ks_KEncr k, ks_KAut = ks_KAut k, ks_KRe = ks_KRe k, ks_MSK = ks_MSK k,
     ks_EMSK = ks_EMSK k, ks_CKPrime = ks_CKPrime k, ks_IKPrime = ks_IKPrime k\<rparr>"

definition Snapshot_clone :: "EAPReauthenticationSnapshot \<Rightarrow> EAPReauthenticationSnapshot" where
  "Snapshot_clone s = s\<lparr>rs_Keys := KeySnapshot_clone (rs_Keys s)\<rparr>"

definition State_Snapshot :: "(bytes \<Rightarrow> bytes) \<Rightarrow> EAPReauthenticationState \<Rightarrow> EAPReauthenticationSnapshot" where
  "State_Snapshot uni s0 =
     (let s = State_clone uni s0 in
      \<lparr>rs_Version = EAPReauthenticationSnapshotVersion, rs_ReauthIdentity = ra_Identity s, rs_Pseudonym = ra_NextPseudonym s,
       rs_Expiry = ra_ExpiresAt s, rs_OperatorRealm = ra_OperatorRealm s, rs_Counter = ra_Counter s, rs_CounterOK = ra_CounterOK s,
       rs_Keys = snapshotEAPAKAKeys (ra_Keys s), rs_Reauthenticated = ra_Reauthenticated s, rs_CounterTooSmall = ra_CounterTooSmall s,
       rs_LastAcceptedCounter = ra_LastAcceptedCounter s, rs_LastRejectedCounter = ra_LastRejectedCounter s\<rparr>)"

definition Snapshot_State :: "(bytes \<Rightarrow> bytes) \<Rightarrow> EAPReauthenticationSnapshot \<Rightarrow> EAPReauthenticationState res" where
  "Snapshot_State uni s =
     (if rs_Version s \<noteq> 0 \<and> rs_Version s \<noteq> EAPReauthenticationSnapshotVersion then Inl (Fmt ''invalid eap reauthentication state: snapshot version'')
      else Inr (State_clone uni
        \<lparr>ra_Identity = TrimSpace (rs_ReauthIdentity s), ra_Counter = rs_Counter s, ra_CounterOK = rs_CounterOK s,
         ra_Keys = KeySnapshot_keys (rs_Keys s), ra_NextPseudonym = TrimSpace (rs_Pseudonym s), ra_ExpiresAt = rs_Expiry s,
         ra_OperatorRealm = normalizeEAPOperatorRealm uni (rs_OperatorRealm s), ra_Reauthenticated = rs_Reauthenticated s,
         ra_CounterTooSmall = rs_CounterTooSmall s, ra_LastAcceptedCounter = rs_LastAcceptedCounter s,
         ra_LastRejectedCounter = rs_LastRejectedCounter s\<rparr>))"

section \<open>The manager\<close>

text \<open>
  The methods of a store, as functions on its state; \<^verbatim>\<open>ok\<close> of a load is \<open>Some\<close>.  \<open>mg_Now\<close> is what the clock of the
  manager returns, 0 when it has none.
\<close>

record 'st EAPReauthenticationStore =
  LoadEAPReauthentication :: "bytes \<Rightarrow> 'st \<Rightarrow> EAPReauthenticationSnapshot option res"
  SaveEAPReauthentication :: "bytes \<Rightarrow> EAPReauthenticationSnapshot \<Rightarrow> 'st \<Rightarrow> unit res \<times> 'st"
  DeleteEAPReauthentication :: "bytes \<Rightarrow> 'st \<Rightarrow> unit res \<times> 'st"

record 'st EAPReauthenticationStateManager =
  mg_Store :: "'st EAPReauthenticationStore option"
  mg_Key :: bytes
  mg_OperatorRealm :: bytes
  mg_Lifetime :: duration
  mg_Now :: go_time

definition manager_now :: "go_time \<Rightarrow> 'st EAPReauthenticationStateManager \<Rightarrow> go_time" where
  "manager_now clock m = (if \<not> IsZero (mg_Now m) then mg_Now m else clock)"

definition storeAndKey :: "'st EAPReauthenticationStateManager \<Rightarrow> ('st EAPReauthenticationStore \<times> bytes) res" where
  "storeAndKey m =
     (case mg_Store m of
        None \<Rightarrow> Inl (Fmt ''invalid eap reauthentication state: store is nil'')
      | Some store \<Rightarrow>
          let key = TrimSpace (mg_Key m) in
          if key = [] then Inl (Fmt ''invalid eap reauthentication state: store key is empty'') else Inr (store, key))"

definition Manager_Load :: "(bytes \<Rightarrow> bytes) \<Rightarrow> go_time \<Rightarrow> 'st EAPReauthenticationStateManager \<Rightarrow> 'st \<Rightarrow> EAPReauthenticationState option res" where
  "Manager_Load uni clock m st =
     rbind (storeAndKey m) (\<lambda>(store, key).
     rbind (LoadEAPReauthentication store key st) (\<lambda>snapshot.
       case snapshot of
         None \<Rightarrow> Inr None
       | Some sn \<Rightarrow>
           rbind (Snapshot_State uni sn) (\<lambda>state.
             if \<not> MatchesOperatorRealm uni state (mg_OperatorRealm m) \<or> \<not> AnyUsableAt clock state (manager_now clock m) then Inr None
             else Inr (Some (State_clone uni state)))))"

text \<open>The state that is written: copied, with the realm of the manager when it has none, and a new expiry.\<close>

definition toSave :: "(bytes \<Rightarrow> bytes) \<Rightarrow> go_time \<Rightarrow> 'st EAPReauthenticationStateManager \<Rightarrow> EAPReauthenticationState \<Rightarrow> EAPReauthenticationState" where
  "toSave uni clock m s0 =
     (let s1 = State_clone uni s0; realm = normalizeEAPOperatorRealm uni (mg_OperatorRealm m);
          s2 = (if ra_OperatorRealm s1 = [] \<and> realm \<noteq> [] then s1\<lparr>ra_OperatorRealm := realm\<rparr> else s1)
      in if mg_Lifetime m > 0 then s2\<lparr>ra_ExpiresAt := manager_now clock m + mg_Lifetime m\<rparr> else s2)"

definition Manager_Save :: "(bytes \<Rightarrow> bytes) \<Rightarrow> go_time \<Rightarrow> 'st EAPReauthenticationStateManager \<Rightarrow> EAPReauthenticationState \<Rightarrow> 'st \<Rightarrow> unit res \<times> 'st" where
  "Manager_Save uni clock m s0 st =
     (case storeAndKey m of
        Inl e \<Rightarrow> (Inl e, st)
      | Inr (store, key) \<Rightarrow>
          let state = toSave uni clock m s0 in
          if \<not> AnyUsableAt clock state (manager_now clock m)
          then (Inl (Fmt ''invalid eap reauthentication state: no usable identity or pseudonym''), st)
          else SaveEAPReauthentication store key (State_Snapshot uni state) st)"

definition Manager_Delete :: "'st EAPReauthenticationStateManager \<Rightarrow> 'st \<Rightarrow> unit res \<times> 'st" where
  "Manager_Delete m st =
     (case storeAndKey m of Inl e \<Rightarrow> (Inl e, st) | Inr (store, key) \<Rightarrow> DeleteEAPReauthentication store key st)"

section \<open>The store in memory\<close>

type_synonym MemoryEAPReauthenticationStore = "bytes \<rightharpoonup> EAPReauthenticationSnapshot"

definition NewMemoryEAPReauthenticationStore :: MemoryEAPReauthenticationStore where
  "NewMemoryEAPReauthenticationStore = (\<lambda>_. None)"

definition Memory_Load :: "bytes \<Rightarrow> MemoryEAPReauthenticationStore \<Rightarrow> EAPReauthenticationSnapshot option res" where
  "Memory_Load key0 snapshots =
     (let key = TrimSpace key0 in
      if key = [] then Inl (Fmt ''invalid eap reauthentication state: store key is empty'')
      else case snapshots key of None \<Rightarrow> Inr None | Some snapshot \<Rightarrow> Inr (Some (Snapshot_clone snapshot)))"

definition Memory_Save :: "bytes \<Rightarrow> EAPReauthenticationSnapshot \<Rightarrow> MemoryEAPReauthenticationStore \<Rightarrow> unit res \<times> MemoryEAPReauthenticationStore" where
  "Memory_Save key0 snapshot snapshots =
     (let key = TrimSpace key0 in
      if key = [] then (Inl (Fmt ''invalid eap reauthentication state: store key is empty''), snapshots)
      else (Inr (), snapshots(key \<mapsto> Snapshot_clone snapshot)))"

definition Memory_Delete :: "bytes \<Rightarrow> MemoryEAPReauthenticationStore \<Rightarrow> unit res \<times> MemoryEAPReauthenticationStore" where
  "Memory_Delete key0 snapshots =
     (let key = TrimSpace key0 in
      if key = [] then (Inl (Fmt ''invalid eap reauthentication state: store key is empty''), snapshots)
      else (Inr (), snapshots(key := None)))"

definition memoryStore :: "MemoryEAPReauthenticationStore EAPReauthenticationStore" where
  "memoryStore = \<lparr>LoadEAPReauthentication = Memory_Load, SaveEAPReauthentication = Memory_Save, DeleteEAPReauthentication = Memory_Delete\<rparr>"

section \<open>Copies\<close>

lemma cloneKeys_id [simp]: "cloneEAPAKAKeys k = k" "KeySnapshot_clone n = n" "Snapshot_clone sn = sn" "KeySnapshot_keys (snapshotEAPAKAKeys k) = k"
  by (simp_all add: cloneEAPAKAKeys_def KeySnapshot_clone_def Snapshot_clone_def KeySnapshot_keys_def snapshotEAPAKAKeys_def)

text \<open>Trimming is idempotent: what is left starts and ends with no space.\<close>

lemma leading_space_0_iff: "[] \<notin> set sp \<Longrightarrow> leading_space sp s = 0 \<longleftrightarrow> (\<forall>w \<in> set sp. take (length w) s \<noteq> w)"
  by (auto simp: leading_space_def find_None_iff find_Some_iff split: option.split) (metis length_greater_0_conv nth_mem)+

lemma trim_left_none: "leading_space sp (trim_left sp s) = 0"
proof (induction sp s rule: trim_left.induct)
  case (1 sp s)
  then show ?case by (subst trim_left.simps) (simp add: Let_def)
qed

lemma trim_left_suffix: "\<exists>pre. s = pre @ trim_left sp s"
proof (induction sp s rule: trim_left.induct)
  case (1 sp s)
  show ?case
  proof (cases "leading_space sp s = 0")
    case True
    then have "trim_left sp s = s" by (subst trim_left.simps) simp
    then show ?thesis by simp
  next
    case False
    then obtain pre where "drop (leading_space sp s) s = pre @ trim_left sp (drop (leading_space sp s) s)" using 1 by blast
    moreover have "trim_left sp s = trim_left sp (drop (leading_space sp s) s)" using False by (subst trim_left.simps) simp
    ultimately have "s = (take (leading_space sp s) s @ pre) @ trim_left sp s" by (metis append.assoc append_take_drop_id)
    then show ?thesis by blast
  qed
qed

lemma trim_left_fix: "leading_space sp s = 0 \<Longrightarrow> trim_left sp s = s"
  by (subst trim_left.simps) simp

lemma space_encodings_nonempty: "[] \<notin> set space_encodings" "[] \<notin> set (map rev space_encodings)"
  by (auto simp: space_encodings_def)

lemma leading_space_prefix:
  assumes "[] \<notin> set sp" "leading_space sp (s @ t) = 0"
  shows "leading_space sp s = 0"
proof -
  have "take (length w) s \<noteq> w" if "w \<in> set sp" for w
  proof
    assume "take (length w) s = w"
    then have "take (length w) (s @ t) = w" by (metis append_take_drop_id length_take min.absorb_iff2 nat_le_linear take_all take_append self_append_conv diff_is_0_eq' take0)
    then show False using assms that leading_space_0_iff by blast
  qed
  then show ?thesis using leading_space_0_iff [OF assms(1)] by blast
qed

lemma TrimSpace_idem [simp]: "TrimSpace (TrimSpace s) = TrimSpace s"
proof -
  let ?r = "map rev space_encodings" and ?l = "trim_left space_encodings s"
  obtain pre where "rev ?l = pre @ trim_left ?r (rev ?l)" using trim_left_suffix by blast
  then have "?l = TrimSpace s @ rev pre" unfolding TrimSpace_def by (metis rev_append rev_rev_ident)
  then have "leading_space space_encodings (TrimSpace s) = 0"
    using leading_space_prefix [OF space_encodings_nonempty(1)] trim_left_none by metis
  then have "trim_left space_encodings (TrimSpace s) = TrimSpace s" by (rule trim_left_fix)
  moreover have "trim_left ?r (rev (TrimSpace s)) = rev (TrimSpace s)"
    unfolding TrimSpace_def rev_rev_ident by (rule trim_left_fix [OF trim_left_none])
  ultimately show ?thesis by (subst TrimSpace_def) simp
qed

text \<open>Realms of ASCII octets: normalising is idempotent.\<close>

lemma asciiLower_octets:
  "list_all (\<lambda>b. asciiLower (asciiLower b) = asciiLower b \<and> (b < 0x80 \<longrightarrow> asciiLower b < 0x80) \<and> (asciiLower b \<le> 0x20 \<longrightarrow> asciiLower b = b))
    (map word_of_int [0..255])"
  by code_simp

lemma asciiLower_simps:
  "asciiLower (asciiLower b) = asciiLower b" "b < 0x80 \<Longrightarrow> asciiLower b < 0x80" "asciiLower b \<le> 0x20 \<Longrightarrow> asciiLower b = b"
proof -
  have "b \<in> set (map word_of_int [0..255])"
    using uint_lt2p [of b] uint_ge_0 [of b] by (auto intro!: image_eqI [where x = "uint b"])
  then have "asciiLower (asciiLower b) = asciiLower b \<and> (b < 0x80 \<longrightarrow> asciiLower b < 0x80) \<and> (asciiLower b \<le> 0x20 \<longrightarrow> asciiLower b = b)"
    using bspec [OF asciiLower_octets [unfolded list_all_iff]] by blast
  then show "asciiLower (asciiLower b) = asciiLower b" "b < 0x80 \<Longrightarrow> asciiLower b < 0x80" "asciiLower b \<le> 0x20 \<Longrightarrow> asciiLower b = b"
    by blast+
qed

lemma space_encodings_ascii: "list_all (\<lambda>w. list_ex (\<lambda>b. 0x80 \<le> b) w \<or> (length w = 1 \<and> hd w \<le> 0x20)) space_encodings"
  by code_simp

lemma leading_space_lower:
  assumes "ascii s" "leading_space sp s = 0" "[] \<notin> set sp"
    and sp: "\<And>w. w \<in> set sp \<Longrightarrow> (\<exists>b \<in> set w. 0x80 \<le> b) \<or> (\<exists>b. w = [b] \<and> b \<le> 0x20)"
  shows "leading_space sp (map asciiLower s) = 0"
proof -
  have "take (length w) (map asciiLower s) \<noteq> w" if w: "w \<in> set sp" for w
  proof
    assume t: "take (length w) (map asciiLower s) = w"
    from sp [OF w] show False
    proof (elim disjE bexE exE conjE)
      fix b assume b: "b \<in> set w" "0x80 \<le> b"
      then have "b \<in> asciiLower ` set s" using t by (metis in_set_takeD list.set_map)
      then have "b < 0x80" using assms(1) asciiLower_simps(2) by (auto simp: ascii_def list_all_iff)
      then show False using b(2) by simp
    next
      fix b assume b: "w = [b]" "b \<le> 0x20"
      then obtain x xs where x: "s = x # xs" "asciiLower x = b" using t by (cases s) auto
      then have "take (length w) s = w" using b asciiLower_simps(3) [of x] by simp
      then show False using leading_space_0_iff [OF assms(3)] assms(2) w by blast
    qed
  qed
  then show ?thesis using leading_space_0_iff [OF assms(3)] by blast
qed

lemma TrimSpace_fix_iff:
  "TrimSpace s = s \<longleftrightarrow> leading_space space_encodings s = 0 \<and> leading_space (map rev space_encodings) (rev s) = 0"
proof
  assume t: "TrimSpace s = s"
  have "length (trim_left space_encodings s) = length s"
    using t trim_left_length [of space_encodings s] trim_left_length [of "map rev space_encodings" "rev (trim_left space_encodings s)"]
    by (metis TrimSpace_def le_antisym length_rev)
  moreover obtain pre where "s = pre @ trim_left space_encodings s" using trim_left_suffix by blast
  ultimately have l: "trim_left space_encodings s = s" by (metis append_self_conv2 length_0_conv length_append add_cancel_left_left)
  then have "rev (trim_left (map rev space_encodings) (rev s)) = s" using t by (simp add: TrimSpace_def)
  then show "leading_space space_encodings s = 0 \<and> leading_space (map rev space_encodings) (rev s) = 0"
    using l trim_left_none by (metis rev_rev_ident)
qed (simp add: TrimSpace_def trim_left_fix)

lemma set_TrimSpace: "set (TrimSpace s) \<subseteq> set s"
proof -
  have "set (trim_left sp t) \<subseteq> set t" for sp t using trim_left_suffix [of t sp] by (metis Un_upper2 set_append)
  then show ?thesis unfolding TrimSpace_def by (metis set_rev subset_trans)
qed

lemma realm_stable [simp]:
  assumes "ascii r"
  shows "normalizeEAPOperatorRealm uni (normalizeEAPOperatorRealm uni r) = normalizeEAPOperatorRealm uni r"
proof -
  define t where "t = TrimSpace r"
  have a: "ascii t" using assms set_TrimSpace [of r] by (auto simp: t_def ascii_def list_all_iff)
  have sp: "(\<exists>b \<in> set w. 0x80 \<le> b) \<or> (\<exists>b. w = [b] \<and> b \<le> 0x20)" if "w \<in> set space_encodings \<union> set (map rev space_encodings)" for w
  proof -
    obtain v where "v \<in> set space_encodings" "w = v \<or> w = rev v" using \<open>w \<in> _\<close> by auto
    with space_encodings_ascii show ?thesis by (fastforce simp: list_all_iff list_ex_iff length_Suc_conv)
  qed
  have "TrimSpace t = t" by (simp add: t_def)
  then have "leading_space space_encodings t = 0" "leading_space (map rev space_encodings) (rev t) = 0" by (simp_all add: TrimSpace_fix_iff)
  moreover have "ascii (rev t)" using a by (simp add: ascii_def list_all_iff)
  ultimately have "leading_space space_encodings (map asciiLower t) = 0" "leading_space (map rev space_encodings) (map asciiLower (rev t)) = 0"
    using leading_space_lower [OF a _ space_encodings_nonempty(1)] leading_space_lower [OF _ _ space_encodings_nonempty(2)] sp by blast+
  then have "TrimSpace (map asciiLower t) = map asciiLower t" by (simp add: TrimSpace_fix_iff rev_map)
  moreover have "ascii (map asciiLower t)" using a asciiLower_simps(2) by (auto simp: ascii_def list_all_iff)
  ultimately show ?thesis using a by (simp add: normalizeEAPOperatorRealm_def ToLower_def t_def [symmetric] asciiLower_simps(1) o_def)
qed

section \<open>Saving and loading\<close>

text \<open>A copy of a copy, the way through a snapshot, and what a manager writes: all leave a copied state as it is.\<close>

definition copied :: "(bytes \<Rightarrow> bytes) \<Rightarrow> EAPReauthenticationState \<Rightarrow> bool" where
  "copied uni s \<longleftrightarrow> State_clone uni s = s"

lemma copied_clone: "ascii (ra_OperatorRealm s) \<Longrightarrow> copied uni (State_clone uni s)"
  by (simp add: copied_def State_clone_def)

lemma copied_toSave: "ascii (ra_OperatorRealm s) \<Longrightarrow> ascii (mg_OperatorRealm m) \<Longrightarrow> copied uni (toSave uni clock m s)"
  by (simp add: copied_def toSave_def State_clone_def Let_def)

lemma State_of_Snapshot: "copied uni s \<Longrightarrow> Snapshot_State uni (State_Snapshot uni s) = Inr s"
  unfolding copied_def
  by (rule EAPReauthenticationState.cases [of s])
     (simp add: Snapshot_State_def State_Snapshot_def Let_def, simp add: State_clone_def)

lemma usable_until_expired:
  "AnyUsableAt clock s now \<Longrightarrow> AnyUsableAt clock' s now' \<longleftrightarrow> \<not> Expired clock' s now'"
  by (auto simp: AnyUsableAt_def ReauthenticationUsableAt_def PseudonymUsableAt_def)

lemma storeAndKey_Inr: "storeAndKey m = Inr (store, key) \<longleftrightarrow> mg_Store m = Some store \<and> key = TrimSpace (mg_Key m) \<and> key \<noteq> []"
  by (auto simp: storeAndKey_def Let_def split: option.splits)

text \<open>What a manager relies on in a store: keys are apart, and the last write counts.\<close>

locale reauth_store =
  fixes store :: "'st EAPReauthenticationStore"
  assumes load_saved: "\<lbrakk>key \<noteq> []; TrimSpace key = key; SaveEAPReauthentication store key sn st = (Inr (), st')\<rbrakk>
      \<Longrightarrow> LoadEAPReauthentication store key st' = Inr (Some sn)"
    and saved_other: "\<lbrakk>TrimSpace key = key; TrimSpace k = k; k \<noteq> key; SaveEAPReauthentication store key sn st = (Inr (), st')\<rbrakk>
      \<Longrightarrow> LoadEAPReauthentication store k st' = LoadEAPReauthentication store k st"
    and load_deleted: "\<lbrakk>key \<noteq> []; TrimSpace key = key; DeleteEAPReauthentication store key st = (Inr (), st')\<rbrakk>
      \<Longrightarrow> LoadEAPReauthentication store key st' = Inr None"
    and deleted_other: "\<lbrakk>TrimSpace key = key; TrimSpace k = k; k \<noteq> key; DeleteEAPReauthentication store key st = (Inr (), st')\<rbrakk>
      \<Longrightarrow> LoadEAPReauthentication store k st' = LoadEAPReauthentication store k st"
begin

lemma saved_snapshot:
  assumes "mg_Store m = Some store" "Manager_Save uni clock m s st = (Inr (), st')"
  shows "TrimSpace (mg_Key m) \<noteq> [] \<and> AnyUsableAt clock (toSave uni clock m s) (manager_now clock m) \<and>
    SaveEAPReauthentication store (TrimSpace (mg_Key m)) (State_Snapshot uni (toSave uni clock m s)) st = (Inr (), st')"
  using assms by (auto simp: Manager_Save_def Let_def storeAndKey_def split: if_splits)

lemma manager_load:
  assumes "mg_Store m = Some store" "TrimSpace (mg_Key m) \<noteq> []"
  shows "LoadEAPReauthentication store (TrimSpace (mg_Key m)) st = Inr None \<Longrightarrow> Manager_Load uni clock m st = Inr None"
    and "\<lbrakk>LoadEAPReauthentication store (TrimSpace (mg_Key m)) st = Inr (Some sn); Snapshot_State uni sn = Inr t\<rbrakk> \<Longrightarrow>
      Manager_Load uni clock m st = Inr (if MatchesOperatorRealm uni t (mg_OperatorRealm m) \<and> AnyUsableAt clock t (manager_now clock m)
        then Some (State_clone uni t) else None)"
    and "LoadEAPReauthentication store (TrimSpace (mg_Key m)) st = LoadEAPReauthentication store (TrimSpace (mg_Key m)) st' \<Longrightarrow>
      Manager_Load uni clock m st = Manager_Load uni clock m st'"
  using assms by (simp_all add: Manager_Load_def storeAndKey_def Let_def)

lemma load_after_save:
  assumes m: "mg_Store m = Some store" and m': "mg_Store m' = Some store" "TrimSpace (mg_Key m') = TrimSpace (mg_Key m)"
    and a: "ascii (ra_OperatorRealm s)" "ascii (mg_OperatorRealm m)"
    and save: "Manager_Save uni clock m s st = (Inr (), st')"
  shows "Manager_Load uni clock' m' st' =
    Inr (let t = toSave uni clock m s in
         if MatchesOperatorRealm uni t (mg_OperatorRealm m') \<and> \<not> Expired clock' t (manager_now clock' m') then Some t else None)"
proof -
  let ?t = "toSave uni clock m s"
  have t: "copied uni ?t" using a by (rule copied_toSave)
  note sv = saved_snapshot [OF m save]
  have "LoadEAPReauthentication store (TrimSpace (mg_Key m')) st' = Inr (Some (State_Snapshot uni ?t))"
    unfolding m'(2) by (rule load_saved [OF conjunct1 [OF sv] TrimSpace_idem conjunct2 [OF conjunct2 [OF sv]]])
  then show ?thesis
    using sv m' t usable_until_expired [OF conjunct1 [OF conjunct2 [OF sv]]]
    by (simp add: manager_load(2) [OF m'(1) _ _ State_of_Snapshot [OF t]] Let_def) (simp add: copied_def)
qed

lemma load_other_key:
  assumes m: "mg_Store m = Some store" and m': "mg_Store m' = Some store" "TrimSpace (mg_Key m') \<noteq> TrimSpace (mg_Key m)"
    and save: "Manager_Save uni clock m s st = (Inr (), st')"
  shows "Manager_Load uni clock' m' st' = Manager_Load uni clock' m' st"
proof (cases "TrimSpace (mg_Key m') = []")
  case True
  then show ?thesis using m' by (simp add: Manager_Load_def storeAndKey_def)
next
  case False
  moreover have "LoadEAPReauthentication store (TrimSpace (mg_Key m')) st' = LoadEAPReauthentication store (TrimSpace (mg_Key m')) st"
    by (rule saved_other [OF TrimSpace_idem TrimSpace_idem m'(2) conjunct2 [OF conjunct2 [OF saved_snapshot [OF m save]]]])
  ultimately show ?thesis by (rule manager_load(3) [OF m'(1)])
qed

lemma load_after_delete:
  assumes "mg_Store m = Some store" "Manager_Delete m st = (Inr (), st')"
  shows "Manager_Load uni clock m st' = Inr None"
  using assms load_deleted [OF _ TrimSpace_idem] by (auto simp: Manager_Delete_def storeAndKey_def manager_load(1) Let_def split: if_splits)

end

interpretation memory: reauth_store memoryStore
  by unfold_locales (auto simp: memoryStore_def Memory_Load_def Memory_Save_def Memory_Delete_def Let_def split: if_splits)

text \<open>C26: a state that a manager has saved in the store in memory is what a manager with the same key loads later, as long as
  the realm of the operator matches and the state has not expired, and nothing else is; managers with other keys see what
  they saw before, and after a deletion nothing is loaded.  The realms are ASCII.
\<close>

theorem reauthentication_state_survives:
  assumes "mg_Store m = Some memoryStore" "mg_Store m' = Some memoryStore"
    and "ascii (ra_OperatorRealm s)" "ascii (mg_OperatorRealm m)"
    and "Manager_Save uni clock m s st = (Inr (), st')"
  shows "(TrimSpace (mg_Key m') = TrimSpace (mg_Key m) \<longrightarrow>
      Manager_Load uni clock' m' st' =
        Inr (let t = toSave uni clock m s in
             if MatchesOperatorRealm uni t (mg_OperatorRealm m') \<and> \<not> Expired clock' t (manager_now clock' m') then Some t else None)) \<and>
    (TrimSpace (mg_Key m') \<noteq> TrimSpace (mg_Key m) \<longrightarrow> Manager_Load uni clock' m' st' = Manager_Load uni clock' m' st) \<and>
    (\<forall>st''. Manager_Delete m' st' = (Inr (), st'') \<longrightarrow> Manager_Load uni clock' m' st'' = Inr None)"
  using memory.load_after_save [OF assms(1,2) _ assms(3-5)] memory.load_other_key [OF assms(1,2) _ assms(5)]
    memory.load_after_delete [OF assms(2)] by blast

text \<open>A state saved at 100 for an hour, in the realm \<open>Ex\<close> of the manager: loaded at 200 by a manager of the realm \<open>eX\<close>.\<close>

definition exampleManager :: "bytes \<Rightarrow> go_time \<Rightarrow> MemoryEAPReauthenticationStore EAPReauthenticationStateManager" where
  "exampleManager realm now = \<lparr>mg_Store = Some memoryStore, mg_Key = [0x6b], mg_OperatorRealm = realm, mg_Lifetime = 3600, mg_Now = now\<rparr>"

definition exampleState :: EAPReauthenticationState where
  "exampleState = NoReauthState\<lparr>ra_Identity := [0x69, 0x64], ra_Counter := 7, ra_CounterOK := True,
     ra_Keys := noReauthKeys\<lparr>keys_KAut := [1], keys_KEncr := [2]\<rparr>\<rparr>"

lemma example_saved:
  "\<exists>st'. Manager_Save id 0 (exampleManager [0x45, 0x78] 100) exampleState NewMemoryEAPReauthenticationStore = (Inr (), st')"
proof -
  have "AnyUsableAt 0 (toSave id 0 (exampleManager [0x45, 0x78] 100) exampleState) (manager_now 0 (exampleManager [0x45, 0x78] 100))"
    by code_simp
  moreover have "TrimSpace [0x6b] = [0x6b]" by code_simp
  ultimately show ?thesis
    by (simp add: Manager_Save_def storeAndKey_def Let_def memoryStore_def Memory_Save_def exampleManager_def)
qed

theorem reauthentication_state_survives_witness:
  "\<exists>st'. Manager_Save id 0 (exampleManager [0x45, 0x78] 100) exampleState NewMemoryEAPReauthenticationStore = (Inr (), st') \<and>
    Manager_Load id 0 (exampleManager [0x65, 0x58] 200) st' = Inr (Some (exampleState\<lparr>ra_ExpiresAt := 3700, ra_OperatorRealm := [0x65, 0x78]\<rparr>)) \<and>
    Manager_Load id 0 (exampleManager [0x65, 0x58] 3700) st' = Inr None \<and>
    Manager_Load id 0 (exampleManager [0x65] 200) st' = Inr None"
proof -
  let ?m = "exampleManager [0x45, 0x78] 100" and ?t = "exampleState\<lparr>ra_ExpiresAt := 3700, ra_OperatorRealm := [0x65, 0x78]\<rparr>"
  obtain st' where st': "Manager_Save id 0 ?m exampleState NewMemoryEAPReauthenticationStore = (Inr (), st')" using example_saved by blast
  have a: "ascii (ra_OperatorRealm exampleState)" "ascii (mg_OperatorRealm ?m)" by code_simp+
  have k: "mg_Store (exampleManager r n) = Some memoryStore" "mg_Key (exampleManager r n) = [0x6b]" for r n by (simp_all add: exampleManager_def)
  have t: "toSave id 0 ?m exampleState = ?t" by code_simp
  have c: "MatchesOperatorRealm id ?t (mg_OperatorRealm (exampleManager [0x65, 0x58] 200))"
    "\<not> Expired 0 ?t (manager_now 0 (exampleManager [0x65, 0x58] 200))" "Expired 0 ?t (manager_now 0 (exampleManager [0x65, 0x58] 3700))"
    "\<not> MatchesOperatorRealm id ?t (mg_OperatorRealm (exampleManager [0x65] 200))" by code_simp+
  note surv = reauthentication_state_survives [OF k(1) k(1) a st', unfolded t Let_def k(2), THEN conjunct1, THEN mp, OF refl, of 0]
  from st' c surv [of "[0x65, 0x58]" 200] surv [of "[0x65, 0x58]" 3700] surv [of "[0x65]" 200] show ?thesis by auto
qed

section \<open>The counter\<close>

text \<open>
  What the counter means: the counter of the last reauthentication that the network accepted since the last full
  authentication.  Updates without keys do not count, and nothing counts before there is an identity.
\<close>

definition lastAccepted :: "u16 \<Rightarrow> EAPReauthenticationUpdate \<Rightarrow> u16" where
  "lastAccepted c u = (if ru_Reauthenticated u then ru_Counter u else if ru_CounterTooSmall u then c else 0)"

definition hasKeys :: "EAPReauthenticationUpdate \<Rightarrow> bool" where
  "hasKeys u \<longleftrightarrow> keys_KAut (ru_Keys u) \<noteq> [] \<and> keys_KEncr (ru_Keys u) \<noteq> []"

definition counting :: "EAPReauthenticationUpdate list \<Rightarrow> EAPReauthenticationUpdate list" where
  "counting us = dropWhile (\<lambda>u. TrimSpace (ru_NextReauthID u) = []) (filter hasKeys us)"

definition updates :: "(bytes \<Rightarrow> bytes) \<Rightarrow> EAPReauthenticationUpdate list \<Rightarrow> EAPReauthenticationState" where
  "updates uni us = foldl (\<lambda>s u. fst (ApplyUpdate uni s u)) NoReauthState us"

lemma dropWhile_snoc: "dropWhile P (xs @ [x]) = (if dropWhile P xs = [] \<and> P x then [] else dropWhile P xs @ [x])"
  by (induction xs) auto

lemma counting_snoc:
  "counting (us @ [u]) = (if hasKeys u \<and> (counting us \<noteq> [] \<or> TrimSpace (ru_NextReauthID u) \<noteq> []) then counting us @ [u] else counting us)"
  by (cases "hasKeys u") (simp_all add: counting_def dropWhile_snoc del: dropWhile_eq_Nil_conv)

text \<open>The fields of one step that matter here; the state before is one that has been copied.\<close>

lemma ApplyUpdate_counter:
  fixes s :: EAPReauthenticationState and u :: EAPReauthenticationUpdate and uni :: "bytes \<Rightarrow> bytes"
  defines "s' \<equiv> fst (ApplyUpdate uni s u)" and "j \<equiv> TrimSpace (ru_NextReauthID u)"
  assumes i: "TrimSpace (ra_Identity s) = ra_Identity s" and e: "ra_Identity s = [] \<Longrightarrow> ra_Counter s = 0 \<and> ra_LastAcceptedCounter s = 0"
    and eq: "ra_LastAcceptedCounter s = ra_Counter s"
  shows "ra_Identity s' = (if hasKeys u \<and> j \<noteq> [] then j else ra_Identity s) \<and>
    ra_Counter s' = (if hasKeys u \<and> (ra_Identity s \<noteq> [] \<or> j \<noteq> []) then lastAccepted (ra_Counter s) u else ra_Counter s) \<and>
    ra_LastAcceptedCounter s' = ra_Counter s'"
  unfolding s'_def j_def
  by (cases "hasKeys u"; cases "TrimSpace (ru_NextReauthID u) = []"; cases "ra_Identity s = []")
     (use e eq i in \<open>auto simp: ApplyUpdate_def State_clone_def hasKeys_def Let_def applyCounter_def lastAccepted_def\<close>)

text \<open>C27: after any updates, from no state at all, the counter is that of the last accepted reauthentication since the last
  full authentication, rejected ones leave it as it was, and the counter last accepted agrees with it.  An update counts when it brings keys
  and there is, or it brings, an identity.
\<close>

theorem reauth_counter_is_last_accepted:
  "ra_Counter (updates uni us) = foldl lastAccepted 0 (counting us) \<and>
   ra_LastAcceptedCounter (updates uni us) = ra_Counter (updates uni us) \<and>
   (ra_Identity (updates uni us) = [] \<longleftrightarrow> counting us = [])"
proof -
  have "TrimSpace (ra_Identity (updates uni us)) = ra_Identity (updates uni us) \<and>
    ra_Counter (updates uni us) = foldl lastAccepted 0 (counting us) \<and>
    ra_LastAcceptedCounter (updates uni us) = ra_Counter (updates uni us) \<and>
    (ra_Identity (updates uni us) = [] \<longleftrightarrow> counting us = [])"
  proof (induction us rule: rev_induct)
    case Nil
    show ?case by (simp add: updates_def counting_def NoReauthState_def) code_simp
  next
    case (snoc u us)
    then have "ra_Identity (updates uni us) = [] \<Longrightarrow> ra_Counter (updates uni us) = 0 \<and> ra_LastAcceptedCounter (updates uni us) = 0"
      by simp
    with snoc have st: "ra_Identity (updates uni (us @ [u])) =
        (if hasKeys u \<and> TrimSpace (ru_NextReauthID u) \<noteq> [] then TrimSpace (ru_NextReauthID u) else ra_Identity (updates uni us)) \<and>
      ra_Counter (updates uni (us @ [u])) =
        (if hasKeys u \<and> (ra_Identity (updates uni us) \<noteq> [] \<or> TrimSpace (ru_NextReauthID u) \<noteq> [])
         then lastAccepted (ra_Counter (updates uni us)) u else ra_Counter (updates uni us)) \<and>
      ra_LastAcceptedCounter (updates uni (us @ [u])) = ra_Counter (updates uni (us @ [u]))"
      using ApplyUpdate_counter [of "updates uni us" uni u] by (simp add: updates_def)
    then show ?case using snoc by (auto simp: counting_snoc)
  qed
  then show ?thesis by blast
qed

section \<open>What is offered to the network\<close>

text \<open>The state that an authentication starts from is empty or usable now in this realm; an identity comes with its keys.\<close>

lemma Expired_expiry: "ra_ExpiresAt s = ra_ExpiresAt t \<Longrightarrow> Expired clock s now \<longleftrightarrow> Expired clock t now"
  by (simp add: Expired_def)

lemma authStateAt_usable:
  fixes uni :: "bytes \<Rightarrow> bytes" and s :: EAPReauthenticationState and clock now :: go_time and realm :: bytes
  defines "t \<equiv> authStateAt uni clock s now realm"
  assumes a: "ascii (ra_OperatorRealm s)" "ascii realm" and t: "t \<noteq> NoReauthState"
  shows "\<not> Expired clock t now \<and> MatchesOperatorRealm uni t realm \<and> AnyUsableAt clock t now \<and>
    (ra_Identity t \<noteq> [] \<longrightarrow> ReauthenticationUsableAt clock t now)"
proof -
  let ?c = "State_clone uni s"
  define s2 where "s2 = (if ra_OperatorRealm ?c = [] then ?c\<lparr>ra_OperatorRealm := normalizeEAPOperatorRealm uni realm\<rparr> else ?c)"
  define s3 where "s3 = (if \<not> PseudonymUsableAt clock s2 now then s2\<lparr>ra_NextPseudonym := []\<rparr> else s2)"
  define s4 where "s4 = (if \<not> ReauthenticationUsableAt clock s3 now
    then s3\<lparr>ra_Identity := [], ra_Counter := 0, ra_CounterOK := False, ra_Keys := noReauthKeys, ra_Reauthenticated := False,
           ra_CounterTooSmall := False, ra_LastAcceptedCounter := 0, ra_LastRejectedCounter := 0\<rparr>
    else s3)"
  have "t = (if \<not> MatchesOperatorRealm uni ?c realm \<or> Expired clock ?c now then NoReauthState
      else if ra_Identity s4 = [] \<and> ra_NextPseudonym s4 = [] then NoReauthState else State_clone uni s4)"
    unfolding t_def authStateAt_def Let_def s4_def s3_def s2_def by (rule refl)
  then have c: "MatchesOperatorRealm uni ?c realm" "\<not> Expired clock ?c now" "ra_Identity s4 \<noteq> [] \<or> ra_NextPseudonym s4 \<noteq> []"
    and t4: "t = State_clone uni s4" using t by meson+
  have r2: "ra_OperatorRealm s2 = (if ra_OperatorRealm ?c = [] then normalizeEAPOperatorRealm uni realm else ra_OperatorRealm ?c)"
    "ra_ExpiresAt s2 = ra_ExpiresAt ?c" by (simp_all add: s2_def)
  have r4: "ra_OperatorRealm s4 = ra_OperatorRealm s2" "ra_ExpiresAt s4 = ra_ExpiresAt s2" "ra_NextPseudonym s4 = ra_NextPseudonym s3"
    by (simp_all add: s4_def s3_def)
  have e: "\<not> Expired clock t now" using c(2) r2 r4 t4 Expired_expiry [of t ?c] by (simp add: State_clone_def)
  have m: "MatchesOperatorRealm uni t realm"
    using c(1) r2 r4 t4 a by (simp add: MatchesOperatorRealm_def State_clone_def split: if_splits)
  have p: "ra_NextPseudonym s4 = [] \<or> TrimSpace (ra_NextPseudonym s4) \<noteq> []"
    using r4(3) by (simp add: s3_def PseudonymUsableAt_def)
  have i: "ra_Identity s4 = [] \<or> TrimSpace (ra_Identity s4) \<noteq> [] \<and> keys_KAut (ra_Keys s4) \<noteq> [] \<and> keys_KEncr (ra_Keys s4) \<noteq> []"
    by (simp add: s4_def ReauthenticationUsableAt_def)
  have n: "TrimSpace [] = []" by code_simp
  show ?thesis using e m p i c(3) n unfolding AnyUsableAt_def ReauthenticationUsableAt_def PseudonymUsableAt_def t4
    by (auto simp: State_clone_def)
qed

end
