(* ===== verification/SWu_Packet.thy ===== *)
theory SWu_Packet
  imports SWu_Reauth IKE_Child
begin

text \<open>
  \<^verbatim>\<open>engine/swu/packet_session.go\<close>: a session that seals the packets of the phone and opens those of the gateway,
  counts them, and replaces the child SA when it gets old; with the texts of a child SA from
  \<^verbatim>\<open>ike_tunnel_manager.go\<close> and the result of a tunnel from \<^verbatim>\<open>swu.go\<close>.  An operation is one step:
  \<^verbatim>\<open>SendInnerPacketWithNextHeader\<close> gives up the lock while it sends and rekeying while the handler runs.
  Receivers, security associations and the transport are non-nil, as \<^verbatim>\<open>NewPacketSession\<close> makes them.  The observation of
  address translators (\<^verbatim>\<open>ObserveMOBIKENAT\<close>) is not modelled; handlers and transports are what they return.
\<close>

section \<open>When a child SA is replaced\<close>

record ChildSARekeyPolicy =
  cp_Lifetime :: duration
  cp_LeadTime :: duration
  cp_Disabled :: bool

datatype ChildSARekeyAction = ChildSARekeyNoAction | ChildSARekeyDue

record ChildSARekeyDecision =
  cd_Action :: ChildSARekeyAction
  cd_EstablishedAt :: go_time
  cd_DueAt :: go_time
  cd_ExpiresAt :: go_time
  cd_NextDue :: go_time
  cd_Age :: duration
  cd_TimeToExpire :: duration
  cd_Lifetime :: duration
  cd_LeadTime :: duration
  cd_Expired :: bool
  cd_Reason :: string

record ChildSARekeySnapshot =
  cn_Enabled :: bool
  cn_EstablishedAt :: go_time
  cn_DueAt :: go_time
  cn_ExpiresAt :: go_time
  cn_Lifetime :: duration
  cn_LeadTime :: duration

record ChildSARekeyWindow =
  cw_Enabled :: bool
  cw_Due :: bool
  cw_Expired :: bool
  cw_EstablishedAt :: go_time
  cw_DueAt :: go_time
  cw_ExpiresAt :: go_time
  cw_Age :: duration
  cw_TimeToRekey :: duration
  cw_TimeToExpire :: duration
  cw_Lifetime :: duration
  cw_LeadTime :: duration

record ChildSARekeyState =
  kr_policy :: ChildSARekeyPolicy
  kr_establishedAt :: go_time
  kr_enabled :: bool

definition NoRekeyWindow :: ChildSARekeyWindow where
  "NoRekeyWindow = \<lparr>cw_Enabled = False, cw_Due = False, cw_Expired = False, cw_EstablishedAt = 0, cw_DueAt = 0, cw_ExpiresAt = 0, cw_Age = 0,
     cw_TimeToRekey = 0, cw_TimeToExpire = 0, cw_Lifetime = 0, cw_LeadTime = 0\<rparr>"

definition NoRekeySnapshot :: ChildSARekeySnapshot where
  "NoRekeySnapshot = \<lparr>cn_Enabled = False, cn_EstablishedAt = 0, cn_DueAt = 0, cn_ExpiresAt = 0, cn_Lifetime = 0, cn_LeadTime = 0\<rparr>"

definition rekeyDisabled :: ChildSARekeyDecision where
  "rekeyDisabled = \<lparr>cd_Action = ChildSARekeyNoAction, cd_EstablishedAt = 0, cd_DueAt = 0, cd_ExpiresAt = 0, cd_NextDue = 0, cd_Age = 0,
     cd_TimeToExpire = 0, cd_Lifetime = 0, cd_LeadTime = 0, cd_Expired = False, cd_Reason = ''rekey disabled''\<rparr>"

definition normalizeChildSARekeyPolicy :: "ChildSARekeyPolicy \<Rightarrow> (ChildSARekeyPolicy \<times> bool) res" where
  "normalizeChildSARekeyPolicy policy =
     (if cp_Lifetime policy < 0 then Inl (Fmt ''invalid swu child sa rekey policy: lifetime is negative'')
      else if cp_LeadTime policy < 0 then Inl (Fmt ''invalid swu child sa rekey policy: lead time is negative'')
      else if cp_Disabled policy \<or> cp_Lifetime policy = 0 then Inr (\<lparr>cp_Lifetime = 0, cp_LeadTime = 0, cp_Disabled = True\<rparr>, False)
      else if cp_LeadTime policy \<ge> cp_Lifetime policy
      then Inl (Fmt ''invalid swu child sa rekey policy: lead time must be less than lifetime'')
      else Inr (policy, True))"

definition ChildSARekeyWindowFor :: "go_time \<Rightarrow> ChildSARekeyPolicy \<Rightarrow> go_time \<Rightarrow> go_time \<Rightarrow> ChildSARekeyWindow res" where
  "ChildSARekeyWindowFor clock policy establishedAt0 now0 =
     rbind (normalizeChildSARekeyPolicy policy) (\<lambda>(normalized, enabled).
       if \<not> enabled then Inr NoRekeyWindow
       else
         let now = (if IsZero now0 then clock else now0);
             establishedAt = (if IsZero establishedAt0 then now else establishedAt0);
             expiresAt = establishedAt + cp_Lifetime normalized;
             dueAt = expiresAt + (- cp_LeadTime normalized)
         in Inr \<lparr>cw_Enabled = True, cw_Due = (\<not> now < dueAt), cw_Expired = (\<not> now < expiresAt), cw_EstablishedAt = establishedAt,
                 cw_DueAt = dueAt, cw_ExpiresAt = expiresAt, cw_Age = (if now > establishedAt then now - establishedAt else 0),
                 cw_TimeToRekey = (if now < dueAt then dueAt - now else 0),
                 cw_TimeToExpire = (if now < expiresAt then expiresAt - now else 0),
                 cw_Lifetime = cp_Lifetime normalized, cw_LeadTime = cp_LeadTime normalized\<rparr>)"

definition NewChildSARekeyState :: "go_time \<Rightarrow> ChildSARekeyPolicy \<Rightarrow> go_time \<Rightarrow> ChildSARekeyState res" where
  "NewChildSARekeyState clock policy establishedAt =
     rbind (normalizeChildSARekeyPolicy policy) (\<lambda>(normalized, enabled).
       Inr \<lparr>kr_policy = normalized, kr_establishedAt = (if IsZero establishedAt then clock else establishedAt), kr_enabled = enabled\<rparr>)"

definition dueAt :: "ChildSARekeyState \<Rightarrow> go_time" where
  "dueAt s = kr_establishedAt s + (cp_Lifetime (kr_policy s) - cp_LeadTime (kr_policy s))"

definition expiresAt :: "ChildSARekeyState \<Rightarrow> go_time" where
  "expiresAt s = kr_establishedAt s + cp_Lifetime (kr_policy s)"

definition rekey_window :: "go_time \<Rightarrow> ChildSARekeyState \<Rightarrow> go_time \<Rightarrow> ChildSARekeyWindow" where
  "rekey_window clock s now = (case ChildSARekeyWindowFor clock (kr_policy s) (kr_establishedAt s) now of Inl _ \<Rightarrow> NoRekeyWindow | Inr w \<Rightarrow> w)"

definition rekey_decision :: "go_time \<Rightarrow> ChildSARekeyState \<Rightarrow> go_time \<Rightarrow> ChildSARekeyAction \<Rightarrow> string \<Rightarrow> ChildSARekeyDecision" where
  "rekey_decision clock s now action reason =
     (let window = rekey_window clock s now in
      \<lparr>cd_Action = action, cd_EstablishedAt = kr_establishedAt s, cd_DueAt = cw_DueAt window, cd_ExpiresAt = cw_ExpiresAt window,
       cd_NextDue = cw_DueAt window, cd_Age = cw_Age window, cd_TimeToExpire = cw_TimeToExpire window,
       cd_Lifetime = cp_Lifetime (kr_policy s), cd_LeadTime = cp_LeadTime (kr_policy s), cd_Expired = cw_Expired window,
       cd_Reason = reason\<rparr>)"

definition Rekey_Advance :: "go_time \<Rightarrow> ChildSARekeyState \<Rightarrow> go_time \<Rightarrow> ChildSARekeyDecision" where
  "Rekey_Advance clock s now0 =
     (let now = (if IsZero now0 then clock else now0) in
      if \<not> kr_enabled s then rekeyDisabled
      else
        let d = rekey_decision clock s now ChildSARekeyNoAction ''child sa rekey not due'' in
        if cd_Expired d then d\<lparr>cd_Action := ChildSARekeyDue, cd_Reason := ''child sa lifetime expired''\<rparr>
        else if \<not> now < cd_DueAt d then d\<lparr>cd_Action := ChildSARekeyDue, cd_Reason := ''child sa rekey due''\<rparr>
        else d)"

definition RecordRekey :: "go_time \<Rightarrow> ChildSARekeyState \<Rightarrow> go_time \<Rightarrow> ChildSARekeyState" where
  "RecordRekey clock s at = (if \<not> kr_enabled s then s else s\<lparr>kr_establishedAt := (if IsZero at then clock else at)\<rparr>)"

definition Rekey_Snapshot :: "ChildSARekeyState \<Rightarrow> ChildSARekeySnapshot" where
  "Rekey_Snapshot s =
     (if \<not> kr_enabled s then NoRekeySnapshot
      else \<lparr>cn_Enabled = True, cn_EstablishedAt = kr_establishedAt s, cn_DueAt = dueAt s, cn_ExpiresAt = expiresAt s,
            cn_Lifetime = cp_Lifetime (kr_policy s), cn_LeadTime = cp_LeadTime (kr_policy s)\<rparr>)"

definition Rekey_NextDue :: "ChildSARekeyState \<Rightarrow> go_time option" where
  "Rekey_NextDue s = (if \<not> kr_enabled s then None else Some (dueAt s))"

section \<open>The texts of a child SA\<close>

definition firstPacketNonEmpty :: "bytes list \<Rightarrow> bytes" where
  "firstPacketNonEmpty items = (case find (\<lambda>item. TrimSpace item \<noteq> []) items of None \<Rightarrow> [] | Some item \<Rightarrow> TrimSpace item)"

text \<open>\<^verbatim>\<open>net.IP.String\<close> of an address of 4 or 16 octets: dotted decimal, or groups of four hexadecimal digits with the first
  longest run of at least two zero groups left out.\<close>

definition hexDigit :: "nat \<Rightarrow> u8" where
  "hexDigit n = (if n < 10 then of_nat (48 + n) else of_nat (87 + n))"

definition EncodeToString :: "bytes \<Rightarrow> bytes" where
  "EncodeToString bs = concat (map (\<lambda>b. [hexDigit (unat b div 16), hexDigit (unat b mod 16)]) bs)"

definition hexGroup :: "nat \<Rightarrow> bytes" where
  "hexGroup n =
     (if n < 16 then [hexDigit n]
      else if n < 256 then [hexDigit (n div 16), hexDigit (n mod 16)]
      else if n < 4096 then [hexDigit (n div 256), hexDigit (n div 16 mod 16), hexDigit (n mod 16)]
      else [hexDigit (n div 4096), hexDigit (n div 256 mod 16), hexDigit (n div 16 mod 16), hexDigit (n mod 16)])"

fun joinBytes :: "bytes \<Rightarrow> bytes list \<Rightarrow> bytes" where
  "joinBytes sep [] = []"
| "joinBytes sep [x] = x"
| "joinBytes sep (x # y # ys) = x @ sep @ joinBytes sep (y # ys)"

fun groups16 :: "bytes \<Rightarrow> nat list" where
  "groups16 (a # b # rest) = (unat a * 256 + unat b) # groups16 rest"
| "groups16 _ = []"

definition zeroRun :: "nat list \<Rightarrow> nat \<Rightarrow> nat" where
  "zeroRun gs i = length (takeWhile (\<lambda>g. g = 0) (drop i gs))"

fun longestRun :: "nat list \<Rightarrow> nat list \<Rightarrow> nat \<times> nat \<Rightarrow> nat \<times> nat" where
  "longestRun gs [] best = best"
| "longestRun gs (i # is) (at, len) = longestRun gs is (if zeroRun gs i > len then (i, zeroRun gs i) else (at, len))"

definition IP_String :: "bytes \<Rightarrow> bytes" where
  "IP_String ip =
     (case To4 ip of
        Some v4 \<Rightarrow> joinBytes [46] (map (\<lambda>b. str (itoa (unat b))) v4)
      | None \<Rightarrow>
          let gs = groups16 ip; (at, len) = longestRun gs [0..<length gs] (0, 1) in
          if len < 2 then joinBytes [58] (map hexGroup gs)
          else joinBytes [58] (map hexGroup (take at gs)) @ [58, 58] @ joinBytes [58] (map hexGroup (drop (at + len) gs)))"

fun chunksOf :: "nat \<Rightarrow> nat \<Rightarrow> bytes \<Rightarrow> bytes list" where
  "chunksOf 0 width value = []"
| "chunksOf (Suc fuel) width value = (if length value \<ge> width then take width value # chunksOf fuel width (drop width value) else [])"

fun addUnseen :: "bytes list \<Rightarrow> bytes list \<Rightarrow> bytes list" where
  "addUnseen out [] = out"
| "addUnseen out (ip # ips) = addUnseen (if ip \<noteq> [] \<and> ip \<notin> set out then out @ [ip] else out) ips"

definition childConfigurationIPStrings :: "ChildSAResult \<Rightarrow> u16 \<Rightarrow> bytes list" where
  "childConfigurationIPStrings child attrType =
     (case cs_Configuration child of
        None \<Rightarrow> []
      | Some cfg \<Rightarrow>
          if attrType \<in> {ConfigInternalIPv4Address, ConfigInternalIPv4DNS, ConfigPCSCFIPv4Address,
               ConfigInternalIPv6Address, ConfigInternalIPv6DNS, ConfigPCSCFIPv6Address}
          then
            let width = (if attrType \<in> {ConfigInternalIPv4Address, ConfigInternalIPv4DNS, ConfigPCSCFIPv4Address} then 4 else 16)
            in addUnseen [] (concat (map (\<lambda>a. map IP_String (chunksOf (length (ca_Value a)) width (ca_Value a)))
                 (filter (\<lambda>a. ca_Type a = attrType) (cfg_Attributes cfg))))
          else [])"

definition childConfigurationAddress :: "ChildSAResult \<Rightarrow> u16 \<Rightarrow> bytes" where
  "childConfigurationAddress child attrType = (case childConfigurationIPStrings child attrType of [] \<Rightarrow> [] | v # _ \<Rightarrow> v)"

definition childConfigurationDNS :: "ChildSAResult \<Rightarrow> bytes list" where
  "childConfigurationDNS child = childConfigurationIPStrings child ConfigInternalIPv4DNS @ childConfigurationIPStrings child ConfigInternalIPv6DNS"

definition childConfigurationPCSCF :: "ChildSAResult \<Rightarrow> bytes list" where
  "childConfigurationPCSCF child = childConfigurationIPStrings child ConfigPCSCFIPv4Address @ childConfigurationIPStrings child ConfigPCSCFIPv6Address"

definition childSAIdentifier :: "ChildSAResult \<Rightarrow> bytes" where
  "childSAIdentifier child =
     (let local = EncodeToString (cs_LocalSPI child); remote = EncodeToString (cs_RemoteSPI child) in
      if local \<noteq> [] \<and> remote \<noteq> [] then local @ [47] @ remote else if local \<noteq> [] then local else remote)"

section \<open>The session\<close>

record TunnelResult =
  tr_Ready :: bool
  tr_Mode :: bytes
  tr_EPDGAddress :: bytes
  tr_LocalInnerIP :: bytes
  tr_RemoteInnerIP :: bytes
  tr_DNSServers :: "bytes list"
  tr_PCSCFServers :: "bytes list"
  tr_ESPEncryptionID :: u16
  tr_ESPIntegrityID :: u16
  tr_InitiatorSelectors :: "bytes list"
  tr_ResponderSelectors :: "bytes list"
  tr_IKEEstablished :: bool
  tr_IPsecEstablished :: bool
  tr_MOBIKESupported :: bool
  tr_ChildSAIdentifier :: bytes
  tr_Reason :: bytes
  tr_EstablishedAt :: go_time

definition IsReady :: "TunnelResult \<Rightarrow> bool" where
  "IsReady r \<longleftrightarrow> tr_Ready r \<and> tr_IKEEstablished r \<and> tr_IPsecEstablished r"

definition isZeroTunnelResult :: "TunnelResult \<Rightarrow> bool" where
  "isZeroTunnelResult r \<longleftrightarrow>
     \<not> tr_Ready r \<and> TrimSpace (tr_Mode r) = [] \<and> TrimSpace (tr_EPDGAddress r) = [] \<and> TrimSpace (tr_LocalInnerIP r) = [] \<and>
     TrimSpace (tr_RemoteInnerIP r) = [] \<and> length (tr_DNSServers r) = 0 \<and> length (tr_PCSCFServers r) = 0 \<and>
     tr_ESPEncryptionID r = 0 \<and> tr_ESPIntegrityID r = 0 \<and> length (tr_InitiatorSelectors r) = 0 \<and>
     length (tr_ResponderSelectors r) = 0 \<and> \<not> tr_IKEEstablished r \<and> \<not> tr_IPsecEstablished r \<and> \<not> tr_MOBIKESupported r \<and>
     TrimSpace (tr_ChildSAIdentifier r) = [] \<and> TrimSpace (tr_Reason r) = [] \<and> IsZero (tr_EstablishedAt r)"

record PacketTunnelStats =
  st_OutboundInnerPackets :: u64
  st_OutboundInnerBytes :: u64
  st_OutboundESPPackets :: u64
  st_OutboundESPBytes :: u64
  st_OutboundErrors :: u64
  st_InboundInnerPackets :: u64
  st_InboundInnerBytes :: u64
  st_InboundESPPackets :: u64
  st_InboundESPBytes :: u64
  st_InboundErrors :: u64
  st_ReplayDrops :: u64
  st_InvalidDrops :: u64
  st_UnsupportedDrops :: u64

definition NoStats :: PacketTunnelStats where
  "NoStats = \<lparr>st_OutboundInnerPackets = 0, st_OutboundInnerBytes = 0, st_OutboundESPPackets = 0, st_OutboundESPBytes = 0,
     st_OutboundErrors = 0, st_InboundInnerPackets = 0, st_InboundInnerBytes = 0, st_InboundESPPackets = 0, st_InboundESPBytes = 0,
     st_InboundErrors = 0, st_ReplayDrops = 0, st_InvalidDrops = 0, st_UnsupportedDrops = 0\<rparr>"

record PacketTunnelPacket =
  pp_SPI :: u32
  pp_Sequence :: u32
  pp_NextHeader :: u8
  pp_Payload :: bytes

record PacketSessionConfig =
  pc_Result :: TunnelResult
  pc_ChildSA :: ChildSAResult
  pc_OutboundSA :: "SA option"
  pc_InboundSA :: "SA option"
  pc_HasTransport :: bool
  pc_Random :: random
  pc_RekeyPolicy :: ChildSARekeyPolicy
  pc_Liveness :: "IKELivenessState option"

record PacketSession =
  ps_result :: TunnelResult
  ps_outbound :: SA
  ps_inbound :: SA
  ps_random :: random
  ps_rekeyState :: ChildSARekeyState
  ps_liveness :: "IKELivenessState option"
  ps_stats :: PacketTunnelStats
  ps_closed :: bool

record MOBIKERequest =
  mq_DeviceID :: bytes
  mq_TraceID :: bytes
  mq_OldIP :: bytes
  mq_NewIP :: bytes
  mq_At :: go_time

record MOBIKEResult =
  mb_Rekeyed :: bool
  mb_OuterLocalIP :: bytes
  mb_LocalInnerIP :: bytes
  mb_RemoteInnerIP :: bytes
  mb_DNSServers :: "bytes list"
  mb_IKEEstablished :: bool
  mb_IPsecEstablished :: bool
  mb_Reason :: bytes
  mb_UpdatedAt :: go_time

text \<open>
  What an operation finds around it: the error of its context, the clock, what the transport says to a packet, what the
  handlers and the other methods of the transport return (\<open>None\<close> for a handler that is nil and for a method that the
  transport does not have), and the text of an error.
\<close>

record PacketEnv =
  pe_ctxErr :: "go_error option"
  pe_clock :: go_time
  pe_send :: "bytes \<Rightarrow> go_error option"
  pe_rekey :: "ChildSAResult res option"
  pe_close :: "go_error option option"
  pe_closeTransport :: "go_error option option"
  pe_read :: "bytes res option"
  pe_keepalive :: "go_error option option"
  pe_dpd :: "go_error option option"
  pe_errorText :: "go_error \<Rightarrow> string"
  pe_mobike :: "MOBIKEResult res option"

abbreviation (input) ErrPacketTunnelClosed :: go_error where "ErrPacketTunnelClosed \<equiv> Fmt ''swu packet tunnel closed''"

definition NextHeaderForInnerPacket :: "bytes \<Rightarrow> u8 res" where
  "NextHeaderForInnerPacket packet =
     (case packet of
        [] \<Rightarrow> Inl (Fmt ''unsupported inner packet: packet is empty'')
      | b # _ \<Rightarrow>
          if drop_bit 4 b = 4 then Inr 4 else if drop_bit 4 b = 6 then Inr 41
          else Inl (Fmt ''unsupported inner packet: ip version''))"

definition validateInnerPacketNextHeader :: "u8 \<Rightarrow> bytes \<Rightarrow> unit res" where
  "validateInnerPacketNextHeader nextHeader packet =
     rbind (NextHeaderForInnerPacket packet) (\<lambda>detected.
       if detected \<noteq> nextHeader then Inl (Fmt ''unsupported inner packet: next header does not match inner packet'') else Inr ())"

text \<open>The errors that wrap \<^verbatim>\<open>ErrUnsupportedInnerPacket\<close> are those whose text starts with its text.\<close>

definition isUnsupportedInnerPacket :: "go_error \<Rightarrow> bool" where
  "isUnsupportedInnerPacket e = (case e of Fmt m \<Rightarrow> take 24 m = ''unsupported inner packet'' | _ \<Rightarrow> False)"

definition hasChildSA :: "ChildSAResult \<Rightarrow> bool" where
  "hasChildSA child \<longleftrightarrow>
     length (cs_LocalSPI child) > 0 \<or> length (cs_RemoteSPI child) > 0 \<or>
     length (ek_EncryptionKey (ck_Outbound (cs_Keys child))) > 0 \<or> length (ek_EncryptionKey (ck_Inbound (cs_Keys child))) > 0"

definition cloneSA :: "SA \<Rightarrow> SA res" where
  "cloneSA sa = NewSA sa"

text \<open>An error of a constructor is wrapped by its text only.\<close>

definition asInvalid :: "string \<Rightarrow> 'a res \<Rightarrow> 'a res" where
  "asInvalid what r = (case r of Inl _ \<Rightarrow> Inl (Fmt (''invalid swu packet tunnel: '' @ what)) | Inr x \<Rightarrow> Inr x)"

definition packetSAs :: "SA option \<Rightarrow> SA option \<Rightarrow> ChildSAResult \<Rightarrow> (SA \<times> SA) res" where
  "packetSAs outboundSA inboundSA child =
     (if (outboundSA = None \<or> inboundSA = None) \<and> \<not> hasChildSA child then Inl (Fmt ''invalid swu packet tunnel: child sa is empty'')
      else
        rbind (case outboundSA of Some sa \<Rightarrow> Inr sa | None \<Rightarrow> asInvalid ''outbound'' (NewOutboundSAFromChild child)) (\<lambda>out0.
        rbind (case inboundSA of Some sa \<Rightarrow> Inr sa | None \<Rightarrow> asInvalid ''inbound'' (NewInboundSAFromChild child)) (\<lambda>in0.
        rbind (asInvalid ''outbound'' (cloneSA out0)) (\<lambda>outbound.
        rbind (asInvalid ''inbound'' (cloneSA in0)) (\<lambda>inbound. Inr (outbound, inbound))))))"

definition NewPacketSession :: "go_time \<Rightarrow> PacketSessionConfig \<Rightarrow> PacketSession res" where
  "NewPacketSession clock cfg =
     (if \<not> pc_HasTransport cfg then Inl (Fmt ''invalid swu packet tunnel: transport is nil'')
      else
        rbind (packetSAs (pc_OutboundSA cfg) (pc_InboundSA cfg) (pc_ChildSA cfg)) (\<lambda>(outbound, inbound).
        let r1 = (if isZeroTunnelResult (pc_Result cfg)
                  then (pc_Result cfg)\<lparr>tr_Ready := True, tr_IKEEstablished := True, tr_IPsecEstablished := True\<rparr> else pc_Result cfg);
            r2 = (if tr_Mode r1 = [] then r1\<lparr>tr_Mode := str ''userspace''\<rparr> else r1);
            r3 = (if tr_Reason r2 = [] then r2\<lparr>tr_Reason := str ''packet tunnel ready''\<rparr> else r2);
            r4 = (if IsZero (tr_EstablishedAt r3) then r3\<lparr>tr_EstablishedAt := clock\<rparr> else r3) in
        rbind (NewChildSARekeyState clock (pc_RekeyPolicy cfg) (tr_EstablishedAt r4)) (\<lambda>rekeyState.
          Inr \<lparr>ps_result = r4, ps_outbound = outbound, ps_inbound = inbound, ps_random = pc_Random cfg, ps_rekeyState = rekeyState,
               ps_liveness = pc_Liveness cfg, ps_stats = NoStats, ps_closed = False\<rparr>)))"

section \<open>Packets\<close>

definition recordOutboundError :: "bool \<Rightarrow> PacketSession \<Rightarrow> PacketSession" where
  "recordOutboundError unsupported s =
     s\<lparr>ps_stats := (ps_stats s)\<lparr>st_OutboundErrors := st_OutboundErrors (ps_stats s) + 1,
        st_UnsupportedDrops := (if unsupported then st_UnsupportedDrops (ps_stats s) + 1 else st_UnsupportedDrops (ps_stats s))\<rparr>\<rparr>"

definition recordInboundErrorLocked :: "go_error \<Rightarrow> PacketSession \<Rightarrow> PacketSession" where
  "recordInboundErrorLocked e s =
     (let t = (ps_stats s)\<lparr>st_InboundErrors := st_InboundErrors (ps_stats s) + 1\<rparr> in
      s\<lparr>ps_stats :=
          (if errors_Is e Esp_ErrReplay then t\<lparr>st_ReplayDrops := st_ReplayDrops t + 1\<rparr>
           else if errors_Is e Esp_ErrInvalidPacket then t\<lparr>st_InvalidDrops := st_InvalidDrops t + 1\<rparr>
           else if isUnsupportedInnerPacket e then t\<lparr>st_UnsupportedDrops := st_UnsupportedDrops t + 1\<rparr>
           else t)\<rparr>)"

text \<open>The result, the packet that reached the transport, and the new session.\<close>

definition SendInnerPacketWithNextHeader ::
  "crypto \<Rightarrow> PacketEnv \<Rightarrow> u8 \<Rightarrow> bytes \<Rightarrow> PacketSession \<Rightarrow> (unit res \<times> bytes option) \<times> PacketSession" where
  "SendInnerPacketWithNextHeader c env nextHeader inner s =
     (case pe_ctxErr env of
        Some e \<Rightarrow> ((Inl e, None), recordOutboundError False s)
      | None \<Rightarrow>
          if ps_closed s then ((Inl ErrPacketTunnelClosed, None), s)
          else
            case validateInnerPacketNextHeader nextHeader inner of
              Inl e \<Rightarrow> ((Inl e, None), recordOutboundError True s)
            | Inr _ \<Rightarrow>
                let (r, sa) = SA_Seal c (ps_outbound s) nextHeader inner \<lparr>so_Sequence = 0, so_IV = [], so_Random = ps_random s\<rparr>;
                    s1 = s\<lparr>ps_outbound := sa\<rparr> in
                case r of
                  Inl e \<Rightarrow> ((Inl e, None), recordOutboundError False s1)
                | Inr packet \<Rightarrow>
                    case pe_send env packet of
                      Some e \<Rightarrow> ((Inl e, Some packet), recordOutboundError False s1)
                    | None \<Rightarrow>
                        ((Inr (), Some packet),
                         s1\<lparr>ps_stats := (ps_stats s1)\<lparr>st_OutboundInnerPackets := st_OutboundInnerPackets (ps_stats s1) + 1,
                              st_OutboundInnerBytes := st_OutboundInnerBytes (ps_stats s1) + of_nat (length inner),
                              st_OutboundESPPackets := st_OutboundESPPackets (ps_stats s1) + 1,
                              st_OutboundESPBytes := st_OutboundESPBytes (ps_stats s1) + of_nat (length packet)\<rparr>,
                           ps_liveness := map_option (\<lambda>l. RecordOutbound (pe_clock env) l (pe_clock env)) (ps_liveness s1)\<rparr>))"

definition SendInnerPacket :: "crypto \<Rightarrow> PacketEnv \<Rightarrow> bytes \<Rightarrow> PacketSession \<Rightarrow> (unit res \<times> bytes option) \<times> PacketSession" where
  "SendInnerPacket c env inner s =
     (case NextHeaderForInnerPacket inner of
        Inl e \<Rightarrow> ((Inl e, None), recordOutboundError True s)
      | Inr nextHeader \<Rightarrow> SendInnerPacketWithNextHeader c env nextHeader inner s)"

definition ReceiveESPPacket :: "crypto \<Rightarrow> PacketEnv \<Rightarrow> bytes \<Rightarrow> PacketSession \<Rightarrow> PacketTunnelPacket res \<times> PacketSession" where
  "ReceiveESPPacket c env packet s =
     (case pe_ctxErr env of
        Some e \<Rightarrow> (Inl e, recordInboundErrorLocked e s)
      | None \<Rightarrow>
          if ps_closed s then (Inl ErrPacketTunnelClosed, s)
          else
            let (r, sa) = SA_Open c (ps_inbound s) packet; s1 = s\<lparr>ps_inbound := sa\<rparr> in
            case r of
              Inl e \<Rightarrow> (Inl e, recordInboundErrorLocked e s1)
            | Inr out \<Rightarrow>
                case validateInnerPacketNextHeader (or_NextHeader out) (or_Payload out) of
                  Inl e \<Rightarrow> (Inl e, recordInboundErrorLocked e s1)
                | Inr _ \<Rightarrow>
                    (Inr \<lparr>pp_SPI = or_SPI out, pp_Sequence = or_Sequence out, pp_NextHeader = or_NextHeader out, pp_Payload = or_Payload out\<rparr>,
                     s1\<lparr>ps_stats := (ps_stats s1)\<lparr>st_InboundInnerPackets := st_InboundInnerPackets (ps_stats s1) + 1,
                          st_InboundInnerBytes := st_InboundInnerBytes (ps_stats s1) + of_nat (length (or_Payload out)),
                          st_InboundESPPackets := st_InboundESPPackets (ps_stats s1) + 1,
                          st_InboundESPBytes := st_InboundESPBytes (ps_stats s1) + of_nat (length packet)\<rparr>,
                        ps_liveness := map_option (\<lambda>l. RecordInbound (pe_clock env) l (pe_clock env)) (ps_liveness s1)\<rparr>))"


section \<open>Liveness\<close>



definition RecordIKELivenessResult :: "go_time \<Rightarrow> go_time \<Rightarrow> bool \<Rightarrow> PacketSession \<Rightarrow> PacketSession" where
  "RecordIKELivenessResult clock at ok s = s\<lparr>ps_liveness := map_option (\<lambda>l. RecordLivenessResult clock l at ok) (ps_liveness s)\<rparr>"

definition markTunnelNotReady :: "bytes \<Rightarrow> PacketSession \<Rightarrow> PacketSession" where
  "markTunnelNotReady reason s =
     (if ps_closed s then s
      else s\<lparr>ps_result := (ps_result s)\<lparr>tr_Ready := False, tr_IKEEstablished := False, tr_IPsecEstablished := False,
               tr_Reason := firstPacketNonEmpty [reason, str ''ike liveness dead'']\<rparr>\<rparr>)"

definition strings_Contains :: "bytes \<Rightarrow> bytes \<Rightarrow> bool" where
  "strings_Contains s t = list_ex (\<lambda>i. take (length t) (drop i s) = t) [0..<Suc (length s)]"

definition ikeLivenessDeadReason :: "(bytes \<Rightarrow> bytes) \<Rightarrow> IKELivenessDecision \<Rightarrow> bytes" where
  "ikeLivenessDeadReason uni d =
     (let reason = firstPacketNonEmpty [str (ld_Reason d), str ''dpd timeout''] in
      if strings_Contains (ToLower uni reason) (str ''ike liveness'') then reason else str ''ike liveness dead: '' @ reason)"

definition noLivenessDecision :: IKELivenessDecision where
  "noLivenessDecision = \<lparr>ld_Action = IKELivenessNoAction, ld_ProbeID = 0, ld_MissedDPDProbes = 0, ld_IdleFor = 0, ld_Deadline = 0, ld_NextDue = 0,
     ld_Dead = False, ld_Reason = []\<rparr>"

text \<open>The state of the liveness is made when it is first needed; without a handler for probes there are none.\<close>

definition livenessOf :: "PacketEnv \<Rightarrow> PacketSession \<Rightarrow> IKELivenessState res" where
  "livenessOf env s =
     (case ps_liveness s of
        Some l \<Rightarrow> Inr l
      | None \<Rightarrow> NewIKELivenessState (pe_clock env)
          \<lparr>lc_KeepaliveInterval = 0, lc_DPDInterval = 0, lc_DPDTimeout = 0, lc_MaxMissedDPDProbes = 0, lc_DisableKeepalive = False,
           lc_DisableDPD = (pe_dpd env = None)\<rparr> (tr_EstablishedAt (ps_result s)))"

text \<open>A probe that failed: the miss is counted, and when the peer is dead now the tunnel is not ready.\<close>

definition probeFailed :: "(bytes \<Rightarrow> bytes) \<Rightarrow> PacketEnv \<Rightarrow> go_time \<Rightarrow> go_error \<Rightarrow> IKELivenessDecision \<Rightarrow> PacketSession \<Rightarrow> IKELivenessDecision \<times> PacketSession" where
  "probeFailed uni env now e d s =
     (let s1 = RecordIKELivenessResult (pe_clock env) now False s in
      case ps_liveness s1 of
        None \<Rightarrow> (d, s1)
      | Some l \<Rightarrow>
          if ls_dead l
          then let d1 = d\<lparr>ld_Dead := True, ld_MissedDPDProbes := ls_missedDPDProbes l,
                          ld_Reason := map (\<lambda>b. char_of (unat b)) (firstPacketNonEmpty [str (pe_errorText env e), str ''dpd probe failed''])\<rparr>
               in (d1, markTunnelNotReady (ikeLivenessDeadReason uni d1) s1)
          else (d, s1))"

definition AdvanceIKELiveness ::
  "(bytes \<Rightarrow> bytes) \<Rightarrow> PacketEnv \<Rightarrow> go_time \<Rightarrow> PacketSession \<Rightarrow> (IKELivenessDecision \<times> go_error option) \<times> PacketSession" where
  "AdvanceIKELiveness uni env now s =
     (case pe_ctxErr env of
        Some e \<Rightarrow> ((noLivenessDecision, Some e), s)
      | None \<Rightarrow>
          if ps_closed s then ((noLivenessDecision, Some ErrPacketTunnelClosed), s)
          else
            case livenessOf env s of
              Inl e \<Rightarrow> ((noLivenessDecision, Some e), s)
            | Inr l \<Rightarrow>
                let (d, l1) = Advance (pe_clock env) l now; s1 = s\<lparr>ps_liveness := Some l1\<rparr> in
                if ld_Action d = IKELivenessSendKeepalive
                then (case pe_keepalive env of
                        None \<Rightarrow> ((d, Some (Fmt ''invalid swu packet tunnel: transport cannot send NAT-T keepalive'')), s1)
                      | Some r \<Rightarrow> ((d, r), s1))
                else if ld_Action d = IKELivenessSendDPD
                then (case pe_dpd env of
                        None \<Rightarrow> ((d, Some (Fmt ''invalid swu packet tunnel: DPD handler is nil'')), s1)
                      | Some None \<Rightarrow> ((d, None), RecordIKELivenessResult (pe_clock env) now True s1)
                      | Some (Some e) \<Rightarrow> (case probeFailed uni env now e d s1 of (d1, s2) \<Rightarrow> ((d1, Some e), s2)))
                else if ld_Action d = IKELivenessDeclareDead
                then ((d, None), markTunnelNotReady (ikeLivenessDeadReason uni d) s1)
                else ((d, None), s1))"

section \<open>Moving the tunnel\<close>


definition applyMOBIKEResult :: "MOBIKEResult \<Rightarrow> PacketSession \<Rightarrow> PacketSession" where
  "applyMOBIKEResult res s =
     (if ps_closed s then s
      else
        let r = (ps_result s)\<lparr>tr_LocalInnerIP := mb_LocalInnerIP res, tr_RemoteInnerIP := mb_RemoteInnerIP res, tr_DNSServers := mb_DNSServers res,
                  tr_IKEEstablished := mb_IKEEstablished res, tr_IPsecEstablished := mb_IPsecEstablished res,
                  tr_Ready := (mb_IKEEstablished res \<and> mb_IPsecEstablished res)\<rparr>
        in s\<lparr>ps_result := (if mb_Reason res \<noteq> [] then r\<lparr>tr_Reason := mb_Reason res\<rparr> else r)\<rparr>)"


section \<open>Rekeying and closing\<close>

definition rekeyChildSA :: "PacketEnv \<Rightarrow> go_time \<Rightarrow> PacketSession \<Rightarrow> TunnelResult res \<times> PacketSession" where
  "rekeyChildSA env rekeyedAt s =
     (case pe_ctxErr env of
        Some e \<Rightarrow> (Inl e, s)
      | None \<Rightarrow>
          if ps_closed s then (Inl ErrPacketTunnelClosed, s)
          else
            case pe_rekey env of
              None \<Rightarrow> (Inl (Fmt ''invalid swu packet tunnel: child sa rekey handler is nil''), s)
            | Some (Inl e) \<Rightarrow> (Inl e, s)
            | Some (Inr child) \<Rightarrow>
                case packetSAs None None child of
                  Inl e \<Rightarrow> (Inl e, s)
                | Inr (outbound, inbound) \<Rightarrow>
                    let r1 = (ps_result s)\<lparr>tr_IKEEstablished := True, tr_IPsecEstablished := True, tr_Ready := True,
                               tr_ChildSAIdentifier := childSAIdentifier child, tr_Reason := str ''child sa rekeyed''\<rparr>;
                        local = firstPacketNonEmpty [childConfigurationAddress child ConfigInternalIPv4Address,
                                  childConfigurationAddress child ConfigInternalIPv6Address];
                        r2 = (if local \<noteq> [] then r1\<lparr>tr_LocalInnerIP := local\<rparr> else r1);
                        dns = childConfigurationDNS child;
                        r3 = (if length dns > 0 then r2\<lparr>tr_DNSServers := dns\<rparr> else r2)
                    in (Inr r3, s\<lparr>ps_outbound := outbound, ps_inbound := inbound, ps_result := r3,
                          ps_rekeyState := RecordRekey (pe_clock env) (ps_rekeyState s) rekeyedAt\<rparr>))"

definition AdvanceChildSARekey :: "PacketEnv \<Rightarrow> go_time \<Rightarrow> PacketSession \<Rightarrow> (ChildSARekeyDecision \<times> go_error option) \<times> PacketSession" where
  "AdvanceChildSARekey env now s =
     (let none = rekeyDisabled\<lparr>cd_Reason := []\<rparr> in
      case pe_ctxErr env of
        Some e \<Rightarrow> ((none, Some e), s)
      | None \<Rightarrow>
          if ps_closed s then ((none, Some ErrPacketTunnelClosed), s)
          else
            let d = Rekey_Advance (pe_clock env) (ps_rekeyState s) now in
            if cd_Action d \<noteq> ChildSARekeyDue then ((d, None), s)
            else case rekeyChildSA env now s of (r, s1) \<Rightarrow> ((d, case r of Inl e \<Rightarrow> Some e | Inr _ \<Rightarrow> None), s1))"

definition NextChildSARekeyDue :: "PacketSession \<Rightarrow> go_time option" where
  "NextChildSARekeyDue s = (if ps_closed s then None else Rekey_NextDue (ps_rekeyState s))"

definition RunChildSARekeyDue :: "PacketEnv \<Rightarrow> go_time \<Rightarrow> PacketSession \<Rightarrow> (ChildSARekeyDecision \<times> go_error option) \<times> PacketSession" where
  "RunChildSARekeyDue env now s =
     (case AdvanceChildSARekey env now s of ((d, err), s1) \<Rightarrow>
        if err \<noteq> None \<or> cd_Action d \<noteq> ChildSARekeyDue then ((d, err), s1)
        else case NextChildSARekeyDue s1 of Some due \<Rightarrow> ((d\<lparr>cd_NextDue := due\<rparr>, None), s1) | None \<Rightarrow> ((d, None), s1))"


section \<open>Two sessions\<close>

lemma SA_Open_seq: "SA_Open c s p = (Inr r, s') \<Longrightarrow> u32_at 4 p = Inr (or_Sequence r)"
  by (auto simp: SA_Open_def openAESCBC_def openAESGCM_def Let_def rbind_eq_Inr_iff split: if_splits sum.splits option.splits)

text \<open>The sending half of one session and the receiving half of another: the same keys, and the receiver is not ahead.\<close>

definition paired :: "PacketSession \<Rightarrow> PacketSession \<Rightarrow> bool" where
  "paired s t \<longleftrightarrow>
     \<not> ps_closed s \<and> \<not> ps_closed t \<and> peers (ps_outbound s) (ps_inbound t) \<and> esp_wf (ps_inbound t) \<and> esp_wf (ps_outbound s) \<and>
     esp_icv_ok (ps_outbound s) \<and> (\<exists>A. window_tracks (ps_inbound t) A) \<and>
     esp_HighestSequence (ps_inbound t) \<le> esp_Sequence (ps_outbound s)"

text \<open>What matters of an environment: the context is live and the transport takes what it is given.\<close>

definition quiet :: "PacketEnv \<Rightarrow> bool" where
  "quiet env \<longleftrightarrow> pe_ctxErr env = None \<and> pe_send env = (\<lambda>_. None)"

definition randomOK :: "PacketSession \<Rightarrow> bool" where
  "randomOK s = (case ps_random s 16 of Inl _ \<Rightarrow> False | Inr iv \<Rightarrow> length iv = 16)"

definition isOK :: "'a res \<Rightarrow> bool" where
  "isOK r = (case r of Inl _ \<Rightarrow> False | Inr _ \<Rightarrow> True)"

lemma send_step:
  assumes "crypto_ok c" "quiet env" "randomOK s" "paired s t" "NextHeaderForInnerPacket inner = Inr nh" "esp_Sequence (ps_outbound s) \<noteq> - 1"
  shows "\<exists>pkt s1. SendInnerPacket c env inner s = ((Inr (), Some pkt), s1) \<and>
    fst (SA_Seal c (ps_outbound s) nh inner (auto_opts (ps_random s))) = Inr pkt \<and>
    ps_outbound s1 = (ps_outbound s)\<lparr>esp_Sequence := esp_Sequence (ps_outbound s) + 1\<rparr> \<and> ps_random s1 = ps_random s \<and> ps_closed s1 = ps_closed s"
proof -
  obtain iv where "ps_random s 16 = Inr iv" "length iv = 16" using assms(3) by (auto simp: randomOK_def split: sum.splits)
  then obtain pkt where pkt: "fst (SA_Seal c (ps_outbound s) nh inner (auto_opts (ps_random s))) = Inr pkt"
    using seal_total [OF assms(1)] assms(4,6) unfolding paired_def by blast
  have sa: "snd (SA_Seal c (ps_outbound s) nh inner (auto_opts (ps_random s))) = (ps_outbound s)\<lparr>esp_Sequence := esp_Sequence (ps_outbound s) + 1\<rparr>"
    using assms(6) by (simp add: SA_Seal_def Let_def)
  from pkt sa have "SA_Seal c (ps_outbound s) nh inner (auto_opts (ps_random s)) =
      (Inr pkt, (ps_outbound s)\<lparr>esp_Sequence := esp_Sequence (ps_outbound s) + 1\<rparr>)" by (metis prod.collapse)
  then show ?thesis
    using assms(2,4,5) pkt
    by (simp add: SendInnerPacket_def SendInnerPacketWithNextHeader_def validateInnerPacketNextHeader_def quiet_def paired_def)
qed

lemma receive_step:
  assumes "quiet env" "\<not> ps_closed t" "SA_Open c (ps_inbound t) pkt = (Inr out, sa)"
    "NextHeaderForInnerPacket (or_Payload out) = Inr (or_NextHeader out)"
  shows "\<exists>t1. ReceiveESPPacket c env pkt t =
      (Inr \<lparr>pp_SPI = or_SPI out, pp_Sequence = or_Sequence out, pp_NextHeader = or_NextHeader out, pp_Payload = or_Payload out\<rparr>, t1) \<and>
    ps_inbound t1 = sa \<and> \<not> ps_closed t1 \<and>
    st_InboundInnerPackets (ps_stats t1) = st_InboundInnerPackets (ps_stats t) + 1 \<and> st_InboundErrors (ps_stats t1) = st_InboundErrors (ps_stats t)"
  using assms by (simp add: ReceiveESPPacket_def validateInnerPacketNextHeader_def quiet_def)

lemma refuse_step:
  assumes "quiet env" "\<not> ps_closed t" "SA_Open c (ps_inbound t) pkt = (Inl e, sa)"
  shows "\<exists>t1. ReceiveESPPacket c env pkt t = (Inl e, t1) \<and> ps_inbound t1 = ps_inbound t \<and> \<not> ps_closed t1 \<and>
    st_InboundInnerPackets (ps_stats t1) = st_InboundInnerPackets (ps_stats t) \<and> st_InboundErrors (ps_stats t1) = st_InboundErrors (ps_stats t) + 1"
  using assms SA_Open_Inl [OF assms(3)] by (simp add: ReceiveESPPacket_def recordInboundErrorLocked_def Let_def quiet_def)

text \<open>A network that loses and copies packets: \<open>n\<close> copies of each one arrive, before the next.\<close>

fun deliver :: "crypto \<Rightarrow> PacketEnv \<Rightarrow> bytes \<Rightarrow> nat \<Rightarrow> PacketSession \<Rightarrow> bytes list \<times> PacketSession" where
  "deliver c env pkt 0 t = ([], t)"
| "deliver c env pkt (Suc n) t =
     (case ReceiveESPPacket c env pkt t of (r, t1) \<Rightarrow>
        case deliver c env pkt n t1 of (out, t2) \<Rightarrow> ((case r of Inl _ \<Rightarrow> out | Inr p \<Rightarrow> pp_Payload p # out), t2))"

fun carry :: "crypto \<Rightarrow> PacketEnv \<Rightarrow> (bytes \<times> nat) list \<Rightarrow> PacketSession \<Rightarrow> PacketSession \<Rightarrow> bytes list \<times> PacketSession \<times> PacketSession" where
  "carry c env [] s t = ([], s, t)"
| "carry c env ((inner, n) # rest) s t =
     (case SendInnerPacket c env inner s of ((r, sent), s1) \<Rightarrow>
        case (case sent of None \<Rightarrow> ([], t) | Some pkt \<Rightarrow> deliver c env pkt n t) of (out, t1) \<Rightarrow>
          case carry c env rest s1 t1 of (outs, s2, t2) \<Rightarrow> (out @ outs, s2, t2))"

lemma deliver_refused:
  assumes "quiet env" "\<not> ps_closed t" "SA_Open c (ps_inbound t) pkt = (Inl e, sa)"
  shows "\<exists>t1. deliver c env pkt n t = ([], t1) \<and> ps_inbound t1 = ps_inbound t \<and> \<not> ps_closed t1 \<and>
    st_InboundInnerPackets (ps_stats t1) = st_InboundInnerPackets (ps_stats t) \<and>
    st_InboundErrors (ps_stats t1) = st_InboundErrors (ps_stats t) + of_nat n"
  using assms
proof (induction n arbitrary: t)
  case (Suc n)
  obtain t1 where t1: "ReceiveESPPacket c env pkt t = (Inl e, t1)" "ps_inbound t1 = ps_inbound t" "\<not> ps_closed t1"
    "st_InboundInnerPackets (ps_stats t1) = st_InboundInnerPackets (ps_stats t)" "st_InboundErrors (ps_stats t1) = st_InboundErrors (ps_stats t) + 1"
    using refuse_step [OF Suc.prems] by blast
  then show ?case using Suc.IH [of t1] Suc.prems(1,3) by (auto simp: algebra_simps)
qed simp

lemma deliver_accepted:
  assumes "quiet env" "\<not> ps_closed t" "SA_Open c (ps_inbound t) pkt = (Inr out, sa)"
    "NextHeaderForInnerPacket (or_Payload out) = Inr (or_NextHeader out)" "window_tracks (ps_inbound t) A"
  shows "\<exists>t1. deliver c env pkt (Suc n) t = ([or_Payload out], t1) \<and> ps_inbound t1 = sa \<and> \<not> ps_closed t1 \<and>
    st_InboundInnerPackets (ps_stats t1) = st_InboundInnerPackets (ps_stats t) + 1 \<and>
    st_InboundErrors (ps_stats t1) = st_InboundErrors (ps_stats t) + of_nat n"
proof -
  obtain p t1 where t1: "ReceiveESPPacket c env pkt t = (Inr p, t1)" "pp_Payload p = or_Payload out" "ps_inbound t1 = sa" "\<not> ps_closed t1"
    "st_InboundInnerPackets (ps_stats t1) = st_InboundInnerPackets (ps_stats t) + 1" "st_InboundErrors (ps_stats t1) = st_InboundErrors (ps_stats t)"
    using receive_step [OF assms(1-4)] by auto
  have sa: "sa = acceptSequence (ps_inbound t) (or_Sequence out)" using SA_Open_Inr [OF assms(3)] by blast
  obtain e where "SA_Open c sa pkt = (Inl e, sa)"
  proof (cases "SA_Open c sa pkt")
    case (Pair r sa')
    have "r \<noteq> Inr x" for x
    proof
      assume "r = Inr x"
      then have "checkReplay sa (or_Sequence x) = Inr ()" "or_Sequence x = or_Sequence out"
        using Pair SA_Open_Inr SA_Open_seq assms(3) by (blast, metis sum.inject(2))
      then show False using window.check_accept [OF assms(5)] sa by metis
    qed
    then obtain e where "r = Inl e" by (cases r) auto
    then show thesis using that Pair SA_Open_Inl by blast
  qed
  then obtain t2 where "deliver c env pkt n t1 = ([], t2)" "ps_inbound t2 = sa" "\<not> ps_closed t2"
    "st_InboundInnerPackets (ps_stats t2) = st_InboundInnerPackets (ps_stats t1)"
    "st_InboundErrors (ps_stats t2) = st_InboundErrors (ps_stats t1) + of_nat n"
    using deliver_refused [OF assms(1) t1(4)] t1(3) by blast
  then show ?thesis using t1 by simp
qed

lemma next_number: "q \<noteq> - 1 \<Longrightarrow> unat (q + 1) = unat q + 1 \<and> q < q + 1" for q :: u32
proof -
  assume "q \<noteq> - 1"
  then have "1 + q \<noteq> 0" by (metis add.commute eq_neg_iff_add_eq_0)
  then have "unat (q + 1) = unat q + 1" by (metis add.commute plus_1_eq_Suc unatSuc)
  then show ?thesis by (simp add: word_less_nat_alt)
qed

lemma not_last_number: "unat q < 2 ^ 32 - 1 \<Longrightarrow> q \<noteq> - 1" for q :: u32
  by (auto simp: unsigned_minus_1_eq_mask mask_eq_exp_minus_1)

lemma static_fields [simp]:
  "encryptionAlgorithm (sa\<lparr>esp_Sequence := q\<rparr>) = encryptionAlgorithm sa" "esp_Integrity (acceptSequence sa q) = esp_Integrity sa"
  by (simp_all add: encryptionAlgorithm_def acceptSequence_def Let_def)

lemma paired_step:
  assumes "paired s t" "esp_Sequence (ps_outbound s) \<noteq> - 1"
    and s1: "ps_outbound s1 = (ps_outbound s)\<lparr>esp_Sequence := esp_Sequence (ps_outbound s) + 1\<rparr>" "ps_closed s1 = ps_closed s"
    and t1: "ps_inbound t1 = ps_inbound t \<or> ps_inbound t1 = acceptSequence (ps_inbound t) (esp_Sequence (ps_outbound s) + 1)" "\<not> ps_closed t1"
  shows "paired s1 t1"
proof -
  let ?q = "esp_Sequence (ps_outbound s) + 1"
  have lt: "esp_Sequence (ps_outbound s) < ?q" using next_number [OF assms(2)] by blast
  have h: "esp_HighestSequence (ps_inbound t) < ?q" using assms(1) lt by (auto simp: paired_def)
  obtain A where A: "window_tracks (ps_inbound t) A" using assms(1) by (auto simp: paired_def)
  then have w: "esp_ReplayWindowSize (ps_inbound t) \<noteq> 0" by (simp add: window_tracks_def)
  have "esp_HighestSequence (acceptSequence (ps_inbound t) ?q) = ?q" using h w by (simp add: acceptSequence_def Let_def)
  moreover have "peers ((ps_outbound s)\<lparr>esp_Sequence := ?q\<rparr>) (ps_inbound t)" "peers ((ps_outbound s)\<lparr>esp_Sequence := ?q\<rparr>) (acceptSequence (ps_inbound t) ?q)"
    using assms(1) by (simp_all add: paired_def peers_def)
  moreover have "esp_icv_ok ((ps_outbound s)\<lparr>esp_Sequence := ?q\<rparr>)" using assms(1) by (simp add: paired_def esp_icv_ok_def)
  ultimately show ?thesis
    using assms(1) s1 t1 h A acceptSequence_tracks [OF A, of ?q] unfolding paired_def by auto
qed

lemma carry_step:
  assumes "crypto_ok c" "quiet env" "randomOK s" "paired s t" "NextHeaderForInnerPacket inner = Inr nh" "esp_Sequence (ps_outbound s) \<noteq> - 1"
  shows "\<exists>pkt s1 t1. SendInnerPacket c env inner s = ((Inr (), Some pkt), s1) \<and> deliver c env pkt n t = ((if n = 0 then [] else [inner]), t1) \<and>
    paired s1 t1 \<and> randomOK s1 \<and> esp_Sequence (ps_outbound s1) = esp_Sequence (ps_outbound s) + 1 \<and>
    st_InboundInnerPackets (ps_stats t1) = st_InboundInnerPackets (ps_stats t) + of_nat (min 1 n) \<and>
    st_InboundErrors (ps_stats t1) = st_InboundErrors (ps_stats t) + of_nat (n - 1)"
proof -
  let ?q = "esp_Sequence (ps_outbound s) + 1"
  obtain pkt s1 where s1: "SendInnerPacket c env inner s = ((Inr (), Some pkt), s1)"
    "fst (SA_Seal c (ps_outbound s) nh inner (auto_opts (ps_random s))) = Inr pkt"
    "ps_outbound s1 = (ps_outbound s)\<lparr>esp_Sequence := ?q\<rparr>" "ps_random s1 = ps_random s" "ps_closed s1 = ps_closed s"
    using send_step [OF assms] by blast
  have q: "seal_seq (ps_outbound s) (auto_opts (ps_random s)) = ?q" by (simp add: seal_seq_def)
  have "esp_Sequence (ps_outbound s) < ?q" using next_number [OF assms(6)] by blast
  then have "checkReplay (ps_inbound t) ?q = Inr ()" using assms(4) by (auto simp: paired_def checkReplay_def Let_def)
  then have open': "SA_Open c (ps_inbound t) pkt =
      (Inr \<lparr>or_SPI = esp_SPI (ps_inbound t), or_Sequence = ?q, or_NextHeader = nh, or_Payload = inner\<rparr>, acceptSequence (ps_inbound t) ?q)"
    using open_seal_peers [OF assms(1) _ _ s1(2)] assms(4) unfolding q paired_def by blast
  have t: "\<not> ps_closed t" using assms(4) by (simp add: paired_def)
  obtain A where A: "window_tracks (ps_inbound t) A" using assms(4) by (auto simp: paired_def)
  obtain t1 where t1: "deliver c env pkt n t = ((if n = 0 then [] else [inner]), t1)"
    "ps_inbound t1 = ps_inbound t \<or> ps_inbound t1 = acceptSequence (ps_inbound t) ?q" "\<not> ps_closed t1"
    "st_InboundInnerPackets (ps_stats t1) = st_InboundInnerPackets (ps_stats t) + of_nat (min 1 n)"
    "st_InboundErrors (ps_stats t1) = st_InboundErrors (ps_stats t) + of_nat (n - 1)"
  proof (cases n)
    case 0
    then show thesis using that [of t] t by simp
  next
    case (Suc m)
    then show thesis using that deliver_accepted [OF assms(2) t open' _ A, of m] assms(5) by auto
  qed
  have "paired s1 t1" by (rule paired_step [OF assms(4,6) s1(3,5) t1(2,3)])
  moreover have "randomOK s1" using assms(3) s1(4) by (simp add: randomOK_def)
  ultimately show ?thesis using s1 t1 by auto
qed

lemma carry_all:
  assumes "crypto_ok c" "quiet env"
  shows "\<lbrakk>randomOK s; paired s t; \<forall>(inner, n) \<in> set ps. isOK (NextHeaderForInnerPacket inner);
      unat (esp_Sequence (ps_outbound s)) + length ps < 2 ^ 32\<rbrakk> \<Longrightarrow>
    \<exists>s' t'. carry c env ps s t = (map fst (filter (\<lambda>(inner, n). n > 0) ps), s', t') \<and>
      st_InboundInnerPackets (ps_stats t') = st_InboundInnerPackets (ps_stats t) + of_nat (length (filter (\<lambda>(inner, n). n > 0) ps)) \<and>
      st_InboundErrors (ps_stats t') = st_InboundErrors (ps_stats t) + of_nat (sum_list (map (\<lambda>(inner, n). n - 1) ps))"
proof (induction ps arbitrary: s t)
  case (Cons p ps)
  obtain inner n where p: "p = (inner, n)" by fastforce
  obtain nh where nh: "NextHeaderForInnerPacket inner = Inr nh" using Cons.prems(3) p by (auto simp: isOK_def split: sum.splits)
  have l: "unat (esp_Sequence (ps_outbound s)) < 2 ^ 32 - 1" using Cons.prems(4) by simp
  then have m: "esp_Sequence (ps_outbound s) \<noteq> - 1" by (rule not_last_number)
  obtain pkt s1 t1 where st: "SendInnerPacket c env inner s = ((Inr (), Some pkt), s1)" "deliver c env pkt n t = ((if n = 0 then [] else [inner]), t1)"
    "paired s1 t1" "randomOK s1" "esp_Sequence (ps_outbound s1) = esp_Sequence (ps_outbound s) + 1"
    "st_InboundInnerPackets (ps_stats t1) = st_InboundInnerPackets (ps_stats t) + of_nat (min 1 n)"
    "st_InboundErrors (ps_stats t1) = st_InboundErrors (ps_stats t) + of_nat (n - 1)"
    using carry_step [OF assms Cons.prems(1,2) nh m] by blast
  have "unat (esp_Sequence (ps_outbound s1)) = unat (esp_Sequence (ps_outbound s)) + 1"
    using next_number [OF m] st(5) by simp
  then obtain s' t' where c: "carry c env ps s1 t1 = (map fst (filter (\<lambda>(inner, n). n > 0) ps), s', t')"
    "st_InboundInnerPackets (ps_stats t') = st_InboundInnerPackets (ps_stats t1) + of_nat (length (filter (\<lambda>(inner, n). n > 0) ps))"
    "st_InboundErrors (ps_stats t') = st_InboundErrors (ps_stats t1) + of_nat (sum_list (map (\<lambda>(inner, n). n - 1) ps))"
    using Cons.IH [OF st(4,3)] Cons.prems(3,4) by fastforce
  have "carry c env (p # ps) s t = ((if n = 0 then [] else [inner]) @ map fst (filter (\<lambda>(inner, n). n > 0) ps), s', t')"
    by (simp only: p carry.simps st(1,2) c(1) prod.case option.case)
  then show ?case by (cases "n = 0") (simp_all only: p, simp_all add: c(2,3) st(6,7) algebra_simps)
qed simp

section \<open>New sessions\<close>

text \<open>A configuration that makes a session of a child SA: its own associations, a sound policy, random octets.\<close>

definition sessionConfig :: "PacketSessionConfig \<Rightarrow> ChildSAResult \<Rightarrow> bool" where
  "sessionConfig cfg child \<longleftrightarrow>
     pc_HasTransport cfg \<and> pc_ChildSA cfg = child \<and> pc_OutboundSA cfg = None \<and> pc_InboundSA cfg = None \<and>
     isOK (normalizeChildSARekeyPolicy (pc_RekeyPolicy cfg)) \<and> (\<exists>iv. pc_Random cfg 16 = Inr iv \<and> length iv = 16)"

lemma inbound_window:
  assumes "NewInboundSAFromChild r = Inr q"
  shows "esp_ReplayWindowSize q = 64 \<and> esp_ReplayBitmap q = 0"
  using assms by (auto simp: NewInboundSAFromChild_def NewSA_def Let_def rbind_eq_Inr_iff split: if_splits)

lemma NewPacketSession_child:
  assumes "sessionConfig cfg child" "NewOutboundSAFromChild child = Inr out" "NewInboundSAFromChild child = Inr inb" "esp_wf out" "esp_wf inb"
    "cs_LocalSPI child \<noteq> []"
  shows "\<exists>s. NewPacketSession clock cfg = Inr s \<and> ps_outbound s = out \<and> ps_inbound s = inb \<and> \<not> ps_closed s \<and> randomOK s \<and> ps_stats s = NoStats"
proof -
  have "packetSAs None None child = Inr (out, inb)"
    using assms by (simp add: packetSAs_def hasChildSA_def asInvalid_def cloneSA_def NewSA_complete)
  moreover obtain pol where "normalizeChildSARekeyPolicy (pc_RekeyPolicy cfg) = Inr pol"
    using assms(1) by (auto simp: sessionConfig_def isOK_def split: sum.splits)
  ultimately show ?thesis
    using assms(1) by (cases pol) (auto simp: sessionConfig_def NewPacketSession_def NewChildSARekeyState_def Let_def randomOK_def)
qed

lemma sessions_paired:
  assumes "child_keys_wf (cs_Keys r)" "esp_integrity_known (ekp_IntegrityID (ck_Profile (cs_Keys r)))"
    and "spiFromBytes (cs_LocalSPI r) = Inr lspi" "spiFromBytes (cs_RemoteSPI r) = Inr rspi"
    and "sessionConfig cfg r" "sessionConfig cfg' (mirror r)"
  shows "\<exists>s t. NewPacketSession clock cfg = Inr s \<and> NewPacketSession clock' cfg' = Inr t \<and> paired s t \<and> paired t s \<and>
    randomOK s \<and> randomOK t \<and> esp_Sequence (ps_outbound s) = 0 \<and> esp_Sequence (ps_outbound t) = 0 \<and> ps_stats s = NoStats \<and> ps_stats t = NoStats"
proof -
  have wf': "child_keys_wf (cs_Keys (mirror r))" using assms(1) by (simp add: child_keys_wf_def)
  obtain o1 i1 where a: "NewOutboundSAFromChild r = Inr o1" "NewInboundSAFromChild (mirror r) = Inr i1"
    "peers o1 i1" "esp_wf i1" "esp_HighestSequence i1 = 0" "esp_wf o1" "esp_Sequence o1 = 0" "esp_icv_ok o1"
    using child_direction [OF assms(1,2,4)] by blast
  obtain o2 i2 where b: "NewOutboundSAFromChild (mirror r) = Inr o2" "NewInboundSAFromChild r = Inr i2"
    "peers o2 i2" "esp_wf i2" "esp_HighestSequence i2 = 0" "esp_wf o2" "esp_Sequence o2 = 0" "esp_icv_ok o2"
    using child_direction [OF wf'] assms(2,3) by auto
  have n: "cs_LocalSPI r \<noteq> []" "cs_LocalSPI (mirror r) \<noteq> []" using assms(3,4) by (auto simp: spiFromBytes_def)
  obtain s where s: "NewPacketSession clock cfg = Inr s" "ps_outbound s = o1" "ps_inbound s = i2" "\<not> ps_closed s" "randomOK s" "ps_stats s = NoStats"
    using NewPacketSession_child [OF assms(5) a(1) b(2) a(6) b(4) n(1)] by blast
  obtain t where t: "NewPacketSession clock' cfg' = Inr t" "ps_outbound t = o2" "ps_inbound t = i1" "\<not> ps_closed t" "randomOK t" "ps_stats t = NoStats"
    using NewPacketSession_child [OF assms(6) b(1) a(2) b(6) a(4) n(2)] by blast
  have "window_tracks i1 {}" "window_tracks i2 {}"
    using inbound_window [OF a(2)] inbound_window [OF b(2)] a(5) b(5) by (simp_all add: window_tracks_def)
  then have "paired s t" "paired t s" using a b s t unfolding paired_def by auto
  then show ?thesis using s t a(7) b(7) by blast
qed

text \<open>C6: two sessions made of the two ends of one negotiated child SA carry traffic both ways over a network that loses and
  copies packets: whatever IP packets are sent, fewer than 2 to the 32, exactly those come out of which at least one copy arrived,
  each once, unchanged and in order; the counters of the receiver say how many came and how many copies were refused.
\<close>

theorem sessions_carry_packets:
  assumes "crypto_ok c"
    and r: "parseChildSAResultWithNonces c init inner localSPI ni nr offered oi or' = Inr r"
    and "spiFromBytes localSPI = Inr lspi" and "spiFromBytes (cs_RemoteSPI r) = Inr rspi"
    and "esp_integrity_known (ekp_IntegrityID (ck_Profile (cs_Keys r)))"
    and "sessionConfig cfg r" "sessionConfig cfg' (mirror r)" "quiet env"
  shows "\<exists>s t. NewPacketSession clock cfg = Inr s \<and> NewPacketSession clock' cfg' = Inr t \<and>
    (\<forall>ps a b. (\<forall>(p, n) \<in> set ps. isOK (NextHeaderForInnerPacket p)) \<longrightarrow> length ps < 2 ^ 32 \<longrightarrow> (a, b) \<in> {(s, t), (t, s)} \<longrightarrow>
      (\<exists>a' b'. carry c env ps a b = (map fst (filter (\<lambda>(p, n). n > 0) ps), a', b') \<and>
        st_InboundInnerPackets (ps_stats b') = of_nat (length (filter (\<lambda>(p, n). n > 0) ps)) \<and>
        st_InboundErrors (ps_stats b') = of_nat (sum_list (map (\<lambda>(p, n). n - 1) ps))))"
proof -
  note k = DeriveChildSAKeys_cuts [OF assms(1) parseChildSAResult_Inr(4) [OF r]]
  have wf: "child_keys_wf (cs_Keys r)" using ESPKeyProfileFromSA_wf [OF k(1)] k(3) by (simp add: child_keys_wf_def)
  have "spiFromBytes (cs_LocalSPI r) = Inr lspi" using assms(3) parseChildSAResult_Inr(5) [OF r] by simp
  then obtain s t where st: "NewPacketSession clock cfg = Inr s" "NewPacketSession clock' cfg' = Inr t" "paired s t" "paired t s"
    "randomOK s" "randomOK t" "esp_Sequence (ps_outbound s) = 0" "esp_Sequence (ps_outbound t) = 0" "ps_stats s = NoStats" "ps_stats t = NoStats"
    using sessions_paired [OF wf assms(5) _ assms(4,6,7)] by blast
  have "\<exists>a' b'. carry c env ps a b = (map fst (filter (\<lambda>(p, n). n > 0) ps), a', b') \<and>
      st_InboundInnerPackets (ps_stats b') = of_nat (length (filter (\<lambda>(p, n). n > 0) ps)) \<and>
      st_InboundErrors (ps_stats b') = of_nat (sum_list (map (\<lambda>(p, n). n - 1) ps))"
    if "\<forall>(p, n) \<in> set ps. isOK (NextHeaderForInnerPacket p)" "length ps < 2 ^ 32" "(a, b) \<in> {(s, t), (t, s)}" for ps a b
    using carry_all [OF assms(1,8), of a b ps] that st by (auto simp: NoStats_def)
  with st(1,2) show ?thesis by blast
qed

definition exampleConfig :: "ChildSAResult \<Rightarrow> PacketSessionConfig" where
  "exampleConfig child =
     \<lparr>pc_Result = \<lparr>tr_Ready = True, tr_Mode = [], tr_EPDGAddress = [], tr_LocalInnerIP = [], tr_RemoteInnerIP = [], tr_DNSServers = [],
        tr_PCSCFServers = [], tr_ESPEncryptionID = 0, tr_ESPIntegrityID = 0, tr_InitiatorSelectors = [], tr_ResponderSelectors = [],
        tr_IKEEstablished = True, tr_IPsecEstablished = True, tr_MOBIKESupported = False, tr_ChildSAIdentifier = [], tr_Reason = [],
        tr_EstablishedAt = 100\<rparr>,
      pc_ChildSA = child, pc_OutboundSA = None, pc_InboundSA = None, pc_HasTransport = True, pc_Random = (\<lambda>n. Inr (replicate n 9)),
      pc_RekeyPolicy = \<lparr>cp_Lifetime = 3600, cp_LeadTime = 300, cp_Disabled = False\<rparr>, pc_Liveness = None\<rparr>"

definition exampleEnv :: PacketEnv where
  "exampleEnv = \<lparr>pe_ctxErr = None, pe_clock = 100, pe_send = (\<lambda>_. None), pe_rekey = None, pe_close = None, pe_closeTransport = None, pe_read = None,
     pe_keepalive = None, pe_dpd = None, pe_errorText = (\<lambda>_. []), pe_mobike = None\<rparr>"

text \<open>Three packets: the first arrives twice, the second is lost.\<close>

theorem sessions_carry_packets_witness:
  "\<exists>r s t s' t'. parseChildSAResultWithNonces demo_crypto demo_init (demo_inner INTEG_HMAC_SHA2_256_128)
      [0, 0, 0, 6] [7] [9] (Some (demo_esp_sa INTEG_HMAC_SHA2_256_128)) IPv4AnyTrafficSelectors IPv4AnyTrafficSelectors = Inr r \<and>
    NewPacketSession 100 (exampleConfig r) = Inr s \<and> NewPacketSession 100 (exampleConfig (mirror r)) = Inr t \<and>
    carry demo_crypto exampleEnv [([0x45, 1], 2), ([0x45, 2], 0), ([0x60, 3], 1)] s t = ([[0x45, 1], [0x60, 3]], s', t') \<and>
    st_InboundInnerPackets (ps_stats t') = 2 \<and> st_InboundErrors (ps_stats t') = 1"
proof -
  let ?p = "\<lparr>ekp_EncryptionID = ENCR_AES_CBC, ekp_EncryptionKeyLength = 16, ekp_IntegrityID = INTEG_HMAC_SHA2_256_128,
      ekp_IntegrityKeyLength = 32, ekp_ESN = False\<rparr>"
  let ?ps = "[([0x45, 1], 2), ([0x45, 2], 0), ([0x60, 3], 1)] :: (bytes \<times> nat) list"
  have p: "ESPKeyProfileFromSA (demo_esp_sa INTEG_HMAC_SHA2_256_128) = Inr ?p"
    "ValidateSelectedSA (demo_esp_sa INTEG_HMAC_SHA2_256_128) (demo_esp_sa INTEG_HMAC_SHA2_256_128) = Inr ()"
    by code_simp+
  obtain r where r: "parseChildSAResultWithNonces demo_crypto demo_init (demo_inner INTEG_HMAC_SHA2_256_128)
      [0, 0, 0, 6] [7] [9] (Some (demo_esp_sa INTEG_HMAC_SHA2_256_128)) IPv4AnyTrafficSelectors IPv4AnyTrafficSelectors = Inr r"
    "cs_RemoteSPI r = [0, 0, 0, 5]" "ck_Profile (cs_Keys r) = ?p"
    using demo_child [OF p(1) _ p(2)] by (auto simp: DirectionKeyLength_def)
  have spi: "spiFromBytes [0, 0, 0, 6] = Inr 6" "spiFromBytes (cs_RemoteSPI r) = Inr 5" unfolding r(2) by code_simp+
  have cfg: "sessionConfig (exampleConfig x) x" for x
    by (simp add: sessionConfig_def exampleConfig_def normalizeChildSARekeyPolicy_def isOK_def)
  have i: "esp_integrity_known (ekp_IntegrityID (ck_Profile (cs_Keys r)))" by (simp add: r(3) esp_integrity_known_def)
  have e: "quiet exampleEnv" by (simp add: quiet_def exampleEnv_def)
  obtain s t where st: "NewPacketSession 100 (exampleConfig r) = Inr s" "NewPacketSession 100 (exampleConfig (mirror r)) = Inr t"
    and c: "\<forall>ps a b. (\<forall>(p, n) \<in> set ps. isOK (NextHeaderForInnerPacket p)) \<longrightarrow> length ps < 2 ^ 32 \<longrightarrow> (a, b) \<in> {(s, t), (t, s)} \<longrightarrow>
      (\<exists>a' b'. carry demo_crypto exampleEnv ps a b = (map fst (filter (\<lambda>(p, n). n > 0) ps), a', b') \<and>
        st_InboundInnerPackets (ps_stats b') = of_nat (length (filter (\<lambda>(p, n). n > 0) ps)) \<and>
        st_InboundErrors (ps_stats b') = of_nat (sum_list (map (\<lambda>(p, n). n - 1) ps)))"
    using sessions_carry_packets [OF demo_crypto_ok r(1) spi i cfg cfg e, of 100 100] by blast
  have "\<forall>(p, n) \<in> set ?ps. isOK (NextHeaderForInnerPacket p)" by code_simp
  then have "\<exists>s' t'. carry demo_crypto exampleEnv ?ps s t = ([[0x45, 1], [0x60, 3]], s', t') \<and>
      st_InboundInnerPackets (ps_stats t') = 2 \<and> st_InboundErrors (ps_stats t') = 1"
    using c [rule_format, of ?ps s t] by auto
  with r(1) st show ?thesis by blast
qed

section \<open>The schedule of rekeying\<close>

text \<open>The policy of a session in which rekeying is on.\<close>

definition rekeyOn :: "PacketSession \<Rightarrow> bool" where
  "rekeyOn s \<longleftrightarrow>
     kr_enabled (ps_rekeyState s) \<and> 0 \<le> cp_LeadTime (kr_policy (ps_rekeyState s)) \<and>
     cp_LeadTime (kr_policy (ps_rekeyState s)) < cp_Lifetime (kr_policy (ps_rekeyState s)) \<and> \<not> cp_Disabled (kr_policy (ps_rekeyState s)) \<and>
     kr_establishedAt (ps_rekeyState s) \<noteq> 0"

text \<open>Whatever policy a new session accepts, rekeying is off or of this form.\<close>

lemma NewPacketSession_rekeyOn:
  assumes "NewPacketSession clock cfg = Inr s" "clock \<noteq> 0"
  shows "rekeyOn s \<longleftrightarrow> \<not> cp_Disabled (pc_RekeyPolicy cfg) \<and> cp_Lifetime (pc_RekeyPolicy cfg) \<noteq> 0"
  using assms
  by (auto simp: NewPacketSession_def NewChildSARekeyState_def normalizeChildSARekeyPolicy_def rekeyOn_def rbind_eq_Inr_iff Let_def
      split: if_splits)

lemma rekey_decision_fields:
  assumes "rekeyOn s" "now \<noteq> 0"
  shows "Rekey_Advance clock (ps_rekeyState s) now =
    (let k = ps_rekeyState s; d = rekey_decision clock k now ChildSARekeyNoAction ''child sa rekey not due'' in
     if expiresAt k \<le> now then d\<lparr>cd_Action := ChildSARekeyDue, cd_Reason := ''child sa lifetime expired''\<rparr>
     else if dueAt k \<le> now then d\<lparr>cd_Action := ChildSARekeyDue, cd_Reason := ''child sa rekey due''\<rparr> else d)"
    and "cd_NextDue (rekey_decision clock (ps_rekeyState s) now a reason) = dueAt (ps_rekeyState s)"
  using assms
  by (simp_all add: Rekey_Advance_def rekey_decision_def rekey_window_def ChildSARekeyWindowFor_def normalizeChildSARekeyPolicy_def
      rekeyOn_def dueAt_def expiresAt_def Let_def not_less algebra_simps)

lemma due_before_expiry: "rekeyOn s \<Longrightarrow> expiresAt (ps_rekeyState s) \<le> now \<Longrightarrow> dueAt (ps_rekeyState s) \<le> now"
  by (simp add: rekeyOn_def expiresAt_def dueAt_def)

lemma rekey_action:
  assumes "rekeyOn s" "now \<noteq> 0"
  shows "cd_Action (Rekey_Advance clock (ps_rekeyState s) now) = ChildSARekeyDue \<longleftrightarrow> dueAt (ps_rekeyState s) \<le> now"
    and "cd_NextDue (Rekey_Advance clock (ps_rekeyState s) now) = dueAt (ps_rekeyState s)"
  using assms due_before_expiry [OF assms(1), of now] rekey_decision_fields(2) [OF assms]
  by (auto simp: rekey_decision_fields(1) [OF assms] Let_def) (simp_all add: rekey_decision_def Let_def)

lemma rekeyChildSA_cases:
  assumes "pe_ctxErr env = None" "\<not> ps_closed s" "rekeyChildSA env now s = (r, s1)"
  shows "case r of
      Inl e \<Rightarrow> s1 = s
    | Inr res \<Rightarrow> \<exists>child out inb. pe_rekey env = Some (Inr child) \<and> packetSAs None None child = Inr (out, inb) \<and>
        ps_outbound s1 = out \<and> ps_inbound s1 = inb \<and> ps_rekeyState s1 = RecordRekey (pe_clock env) (ps_rekeyState s) now \<and>
        ps_result s1 = res \<and> IsReady res \<and> tr_ChildSAIdentifier res = childSAIdentifier child \<and>
        ps_stats s1 = ps_stats s \<and> ps_liveness s1 = ps_liveness s \<and> ps_closed s1 = ps_closed s"
  using assms by (auto simp: rekeyChildSA_def IsReady_def Let_def split: option.splits sum.splits prod.splits)

text \<open>C9: a session replaces its child SA exactly when the lead time before the end of its lifetime has come: before that nothing
  changes; then either the session runs on the new child SA, is ready, keeps its counters and is due again one lifetime less the lead
  time later, as the decision says, or there is an error and the session is what it was.
\<close>

theorem rekey_schedule:
  assumes "rekeyOn s" "\<not> ps_closed s" "pe_ctxErr env = None" "now \<noteq> 0" "RunChildSARekeyDue env now s = ((d, err), s')"
  defines "k \<equiv> kr_policy (ps_rekeyState s)"
  shows "(cd_Action d = ChildSARekeyDue \<longleftrightarrow> kr_establishedAt (ps_rekeyState s) + cp_Lifetime k - cp_LeadTime k \<le> now) \<and>
    (cd_Action d = ChildSARekeyNoAction \<longrightarrow> err = None \<and> s' = s \<and> NextChildSARekeyDue s = Some (cd_NextDue d) \<and> now < cd_NextDue d) \<and>
    (err \<noteq> None \<longrightarrow> s' = s) \<and>
    (cd_Action d = ChildSARekeyDue \<and> err = None \<longrightarrow>
      (\<exists>child. pe_rekey env = Some (Inr child) \<and> packetSAs None None child = Inr (ps_outbound s', ps_inbound s') \<and>
        IsReady (ps_result s') \<and> tr_ChildSAIdentifier (ps_result s') = childSAIdentifier child) \<and>
      rekeyOn s' \<and> ps_stats s' = ps_stats s \<and> \<not> ps_closed s' \<and>
      cd_NextDue d = now + cp_Lifetime k - cp_LeadTime k \<and> NextChildSARekeyDue s' = Some (cd_NextDue d))"
proof -
  let ?d = "Rekey_Advance (pe_clock env) (ps_rekeyState s) now"
  have due: "dueAt (ps_rekeyState s) = kr_establishedAt (ps_rekeyState s) + cp_Lifetime k - cp_LeadTime k" by (simp add: dueAt_def k_def)
  have next_due: "NextChildSARekeyDue s = Some (dueAt (ps_rekeyState s))"
    using assms(1,2) by (simp add: NextChildSARekeyDue_def Rekey_NextDue_def rekeyOn_def)
  have action: "a = ChildSARekeyNoAction \<longleftrightarrow> a \<noteq> ChildSARekeyDue" for a by (cases a) simp_all
  show ?thesis
  proof (cases "cd_Action ?d = ChildSARekeyDue")
    case False
    then have "d = ?d" "err = None" "s' = s"
      using assms(2,3,5) by (auto simp: RunChildSARekeyDue_def AdvanceChildSARekey_def Let_def)
    with False show ?thesis using rekey_action [OF assms(1,4)] due next_due by (simp add: action not_le)
  next
    case True
    obtain r s1 where r: "rekeyChildSA env now s = (r, s1)" by fastforce
    have adv: "AdvanceChildSARekey env now s = ((?d, case r of Inl e \<Rightarrow> Some e | Inr _ \<Rightarrow> None), s1)"
      using True assms(2,3) r by (simp add: AdvanceChildSARekey_def Let_def)
    note c = rekeyChildSA_cases [OF assms(3,2) r]
    show ?thesis
    proof (cases r)
      case (Inl e)
      then have "d = ?d" "err = Some e" "s' = s" using adv c assms(5) by (auto simp: RunChildSARekeyDue_def)
      with True show ?thesis using rekey_action [OF assms(1,4)] due by simp
    next
      case (Inr res)
      have k1: "ps_rekeyState s1 = (ps_rekeyState s)\<lparr>kr_establishedAt := now\<rparr>"
        using c Inr assms(1,4) by (auto simp: RecordRekey_def rekeyOn_def)
      then have on: "rekeyOn s1" using assms(1,4) by (simp add: rekeyOn_def)
      have nd: "NextChildSARekeyDue s1 = Some (now + cp_Lifetime k - cp_LeadTime k)"
        using c Inr assms(2) on k1 by (auto simp: NextChildSARekeyDue_def Rekey_NextDue_def rekeyOn_def dueAt_def k_def)
      have "d = ?d\<lparr>cd_NextDue := now + cp_Lifetime k - cp_LeadTime k\<rparr>" "err = None" "s' = s1"
        using adv Inr nd True assms(5) by (simp_all add: RunChildSARekeyDue_def)
      with True show ?thesis using rekey_action [OF assms(1,4)] due c Inr on nd assms(2) by auto
    qed
  qed
qed

text \<open>A session made at 100 with a lifetime of 3600 and a lead time of 300, asked at 3399 and at 3400.\<close>

theorem rekey_schedule_witness:
  "\<exists>r s. NewPacketSession 100 (exampleConfig r) = Inr s \<and>
    (\<exists>d. RunChildSARekeyDue exampleEnv 3399 s = ((d, None), s) \<and> cd_Action d = ChildSARekeyNoAction \<and> cd_NextDue d = 3400) \<and>
    (\<exists>d s'. RunChildSARekeyDue (exampleEnv\<lparr>pe_rekey := Some (Inr r)\<rparr>) 3400 s = ((d, None), s') \<and> cd_Action d = ChildSARekeyDue \<and> cd_NextDue d = 6700 \<and>
      NextChildSARekeyDue s' = Some 6700)"
proof -
  let ?p = "\<lparr>ekp_EncryptionID = ENCR_AES_CBC, ekp_EncryptionKeyLength = 16, ekp_IntegrityID = INTEG_HMAC_SHA2_256_128,
      ekp_IntegrityKeyLength = 32, ekp_ESN = False\<rparr>"
  let ?k = "\<lparr>ek_EncryptionKey = replicate 16 1, ek_IntegrityKey = replicate 32 2\<rparr>"
  let ?r = "NoChildSAResult\<lparr>cs_LocalSPI := [0, 0, 0, 6], cs_RemoteSPI := [0, 0, 0, 5],
    cs_Keys := \<lparr>ck_Profile = ?p, ck_Outbound = ?k, ck_Inbound = ?k\<rparr>\<rparr>"
  have "isOK (packetSAs None None ?r)" by code_simp
  then obtain out inb where sas: "packetSAs None None ?r = Inr (out, inb)" by (auto simp: isOK_def split: sum.splits)
  obtain s where s: "NewPacketSession 100 (exampleConfig ?r) = Inr s" "\<not> ps_closed s" "rekeyOn s"
    "kr_establishedAt (ps_rekeyState s) = 100" "kr_policy (ps_rekeyState s) = \<lparr>cp_Lifetime = 3600, cp_LeadTime = 300, cp_Disabled = False\<rparr>"
    using sas by (simp add: NewPacketSession_def exampleConfig_def NewChildSARekeyState_def normalizeChildSARekeyPolicy_def rekeyOn_def
        isZeroTunnelResult_def Let_def)
  let ?e = "exampleEnv\<lparr>pe_rekey := Some (Inr ?r)\<rparr>"
  have ctx: "pe_ctxErr exampleEnv = None" "pe_ctxErr ?e = None" by (simp_all add: exampleEnv_def)
  obtain d err s' where a: "RunChildSARekeyDue exampleEnv 3399 s = ((d, err), s')" by (metis prod.collapse)
  obtain d1 err1 s1 where b: "RunChildSARekeyDue ?e 3400 s = ((d1, err1), s1)" by (metis prod.collapse)
  have act: "x \<noteq> ChildSARekeyDue \<longleftrightarrow> x = ChildSARekeyNoAction" for x by (cases x) simp_all
  have "cd_Action d = ChildSARekeyNoAction \<and> err = None \<and> s' = s \<and> NextChildSARekeyDue s = Some (cd_NextDue d)"
    using rekey_schedule [OF s(3,2) ctx(1) _ a] s(4,5) act [of "cd_Action d"] by simp
  moreover have "NextChildSARekeyDue s = Some 3400" using s by (simp add: NextChildSARekeyDue_def Rekey_NextDue_def rekeyOn_def dueAt_def)
  moreover have err1: "err1 = None"
    using b sas s(2,3) ctx(2) by (auto simp: RunChildSARekeyDue_def AdvanceChildSARekey_def rekeyChildSA_def exampleEnv_def Let_def
        split: if_splits option.splits)
  moreover have "cd_Action d1 = ChildSARekeyDue \<and> cd_NextDue d1 = 6700 \<and> NextChildSARekeyDue s1 = Some 6700"
    using rekey_schedule [OF s(3,2) ctx(2) _ b] s(4,5) err1 by simp
  ultimately show ?thesis using s(1) a b by (intro exI [of _ ?r] exI [of _ s]) auto
qed

section \<open>The life of a session\<close>








lemma record_fields [simp]:
  "ps_closed (recordOutboundError u s) = ps_closed s" "ps_outbound (recordOutboundError u s) = ps_outbound s"
  "ps_inbound (recordOutboundError u s) = ps_inbound s"
  "ps_closed (recordInboundErrorLocked e s) = ps_closed s" "ps_outbound (recordInboundErrorLocked e s) = ps_outbound s"
  "ps_inbound (recordInboundErrorLocked e s) = ps_inbound s"
  "ps_closed (RecordIKELivenessResult clock at ok s) = ps_closed s" "ps_outbound (RecordIKELivenessResult clock at ok s) = ps_outbound s"
  "ps_inbound (RecordIKELivenessResult clock at ok s) = ps_inbound s"
  "ps_closed (markTunnelNotReady t s) = ps_closed s" "ps_outbound (markTunnelNotReady t s) = ps_outbound s"
  "ps_inbound (markTunnelNotReady t s) = ps_inbound s"
  "ps_closed (applyMOBIKEResult m s) = ps_closed s" "ps_outbound (applyMOBIKEResult m s) = ps_outbound s"
  "ps_inbound (applyMOBIKEResult m s) = ps_inbound s"
  by (simp_all add: recordOutboundError_def recordInboundErrorLocked_def RecordIKELivenessResult_def markTunnelNotReady_def applyMOBIKEResult_def Let_def)


















text \<open>When a probe fails for the last time or the silence has lasted too long, the tunnel is not ready any more.\<close>

lemma dead_peer_not_ready:
  assumes "AdvanceIKELiveness uni env now s = ((d, err), s')" "pe_ctxErr env = None" "\<not> ps_closed s" "ps_liveness s = Some l" "\<not> ls_dead l" "ld_Dead d"
  shows "\<not> IsReady (ps_result s')"
proof -
  obtain d0 l1 where adv: "Advance (pe_clock env) l now = (d0, l1)" by fastforce
  have dead: "ld_Dead d0 = ls_dead l1 \<and> (ls_dead l1 \<longrightarrow> ld_Action d0 = IKELivenessDeclareDead)"
    using adv assms(5) by (auto simp: Advance_def advanceDPD_def sendDPD_def decision_def Let_def split: if_splits prod.splits)
  have mark: "\<not> IsReady (ps_result (markTunnelNotReady t x))" if "\<not> ps_closed x" for t x
    using that by (simp add: markTunnelNotReady_def IsReady_def)
  show ?thesis
    using assms(1-4,6) adv dead mark
    by (auto simp: AdvanceIKELiveness_def livenessOf_def probeFailed_def Let_def split: if_splits option.splits)
qed

end
