(* ===== verification/Go_Text.thy ===== *)
theory Go_Text
  imports Go_Strings
begin

text \<open>
  Text in Go: a string is its octets, and \<^verbatim>\<open>range\<close> over a string decodes UTF-8, an octet that does not start a
  well-formed sequence being one piece of its own that reads as U+FFFD.  A rune is a code point.  \<open>pieces\<close> is the
  sequence of the steps of such a loop, each with the octets it consumed; UTF-16 is \<^verbatim>\<open>unicode/utf16\<close>.
\<close>

type_synonym rune = nat

abbreviation (input) RuneError :: rune where "RuneError \<equiv> 0xFFFD"

definition scalar :: "rune \<Rightarrow> bool" where
  "scalar r \<longleftrightarrow> r < 0xD800 \<or> 0xE000 \<le> r \<and> r \<le> 0x10FFFF"

section \<open>UTF-8\<close>

definition octet_in :: "nat \<Rightarrow> nat \<Rightarrow> u8 \<Rightarrow> bool" where
  "octet_in lo hi b \<longleftrightarrow> lo \<le> unat b \<and> unat b \<le> hi"

abbreviation (input) cont_octet :: "u8 \<Rightarrow> bool" where
  "cont_octet \<equiv> octet_in 0x80 0xBF"

text \<open>\<^verbatim>\<open>utf8.DecodeRuneInString\<close>: the rune and the number of octets.\<close>

definition DecodeRune :: "bytes \<Rightarrow> rune \<times> nat" where
  "DecodeRune s =
     (case s of
        [] \<Rightarrow> (RuneError, 0)
      | p # t \<Rightarrow>
          let p0 = unat p; low = (\<lambda>b. unat b - 0x80) in
          if p0 < 0x80 then (p0, 1)
          else if 0xC2 \<le> p0 \<and> p0 \<le> 0xDF \<and> (case t of b1 # _ \<Rightarrow> cont_octet b1 | _ \<Rightarrow> False)
          then ((p0 - 0xC0) * 64 + low (t ! 0), 2)
          else if 0xE0 \<le> p0 \<and> p0 \<le> 0xEF \<and>
            (case t of b1 # b2 # _ \<Rightarrow>
               octet_in (if p0 = 0xE0 then 0xA0 else 0x80) (if p0 = 0xED then 0x9F else 0xBF) b1 \<and> cont_octet b2
             | _ \<Rightarrow> False)
          then ((p0 - 0xE0) * 4096 + low (t ! 0) * 64 + low (t ! 1), 3)
          else if 0xF0 \<le> p0 \<and> p0 \<le> 0xF4 \<and>
            (case t of b1 # b2 # b3 # _ \<Rightarrow>
               octet_in (if p0 = 0xF0 then 0x90 else 0x80) (if p0 = 0xF4 then 0x8F else 0xBF) b1 \<and>
               cont_octet b2 \<and> cont_octet b3
             | _ \<Rightarrow> False)
          then ((p0 - 0xF0) * 262144 + low (t ! 0) * 4096 + low (t ! 1) * 64 + low (t ! 2), 4)
          else (RuneError, 1))"

text \<open>\<^verbatim>\<open>utf8.AppendRune\<close>; what is no scalar value is written as U+FFFD.\<close>

definition EncodeRune :: "rune \<Rightarrow> bytes" where
  "EncodeRune r =
     (if r < 0x80 then [go_byte r]
      else if r < 0x800 then [go_byte (0xC0 + r div 64), go_byte (0x80 + r mod 64)]
      else if \<not> scalar r then [0xEF, 0xBF, 0xBD]
      else if r < 0x10000
      then [go_byte (0xE0 + r div 4096), go_byte (0x80 + r div 64 mod 64), go_byte (0x80 + r mod 64)]
      else [go_byte (0xF0 + r div 262144), go_byte (0x80 + r div 4096 mod 64), go_byte (0x80 + r div 64 mod 64),
            go_byte (0x80 + r mod 64)])"

lemma DecodeRune_Nil [simp]: "DecodeRune [] = (RuneError, 0)"
  by (simp add: DecodeRune_def)

lemma DecodeRune_size: "s \<noteq> [] \<Longrightarrow> 0 < snd (DecodeRune s) \<and> snd (DecodeRune s) \<le> length s"
  by (cases s) (auto simp: DecodeRune_def Let_def split: list.splits)

function pieces :: "bytes \<Rightarrow> (rune \<times> bytes) list" where
  "pieces s =
     (if s = [] then []
      else (fst (DecodeRune s), take (snd (DecodeRune s)) s) # pieces (drop (snd (DecodeRune s)) s))"
  by pat_completeness auto
termination
  by (relation "measure length") (use DecodeRune_size in auto)

declare pieces.simps [simp del]

lemma pieces_Nil [simp]: "pieces [] = []"
  by (simp add: pieces.simps)

lemma pieces_step: "s \<noteq> [] \<Longrightarrow>
    pieces s = (fst (DecodeRune s), take (snd (DecodeRune s)) s) # pieces (drop (snd (DecodeRune s)) s)"
  by (subst pieces.simps) simp

lemma pieces_Nil_iff [simp]: "pieces s = [] \<longleftrightarrow> s = []"
  by (subst pieces.simps) simp

lemma concat_pieces [simp]: "concat (map snd (pieces s)) = s"
  by (induction s rule: pieces.induct) (subst pieces.simps, simp)

lemma pieces_nonempty: "p \<in> set (pieces s) \<Longrightarrow> snd p \<noteq> []"
proof (induction s rule: pieces.induct)
  case (1 s)
  then have "s \<noteq> []" by auto
  with 1 DecodeRune_size [of s] pieces_step [of s] show ?case by auto
qed

text \<open>\<^verbatim>\<open>[]rune(s)\<close> and \<^verbatim>\<open>string(rs)\<close>.\<close>

definition runes :: "bytes \<Rightarrow> rune list" where
  "runes s = map fst (pieces s)"

definition of_runes :: "rune list \<Rightarrow> bytes" where
  "of_runes rs = concat (map EncodeRune rs)"

definition ValidUTF8 :: "bytes \<Rightarrow> bool" where
  "ValidUTF8 s \<longleftrightarrow> (\<forall>p \<in> set (pieces s). snd p = EncodeRune (fst p))"

text \<open>\<^verbatim>\<open>strings.ToValidUTF8(s, "")\<close>.\<close>

definition ToValidUTF8 :: "bytes \<Rightarrow> bytes" where
  "ToValidUTF8 s = concat (map snd (filter (\<lambda>p. snd p = EncodeRune (fst p)) (pieces s)))"

lemma runes_Nil [simp]: "runes [] = []"
  by (simp add: runes_def)

lemma runes_Nil_iff [simp]: "runes s = [] \<longleftrightarrow> s = []"
  by (simp add: runes_def)

lemma of_runes_simps [simp]:
  "of_runes [] = []" "of_runes (r # rs) = EncodeRune r @ of_runes rs" "of_runes (rs @ rs') = of_runes rs @ of_runes rs'"
  by (simp_all add: of_runes_def)

lemma of_runes_runes: "ValidUTF8 s \<Longrightarrow> of_runes (runes s) = s"
proof -
  assume "ValidUTF8 s"
  then have "map (\<lambda>p. EncodeRune (fst p)) (pieces s) = map snd (pieces s)"
    by (intro map_cong) (auto simp: ValidUTF8_def)
  then show ?thesis
    by (simp add: of_runes_def runes_def comp_def del: map_eq_conv)
qed

lemma ToValidUTF8_valid [simp]: "ValidUTF8 s \<Longrightarrow> ToValidUTF8 s = s"
  by (simp add: ToValidUTF8_def ValidUTF8_def filter_id_conv [THEN iffD2])

lemma unat_octet_less: "unat (b :: u8) < 256"
  using unsigned_less [of b] by simp

lemma EncodeRune_length [simp]: "0 < length (EncodeRune r)"
  by (simp add: EncodeRune_def)

lemma EncodeRune_neq_Nil [simp]: "EncodeRune r \<noteq> []"
  using EncodeRune_length [of r] by force

text \<open>Digits in base 64.\<close>

lemma sextets: "r = r div 64 * 64 + r mod 64" "r div 64 = r div 4096 * 64 + r div 64 mod 64"
    "r div 4096 = r div 262144 * 64 + r div 4096 mod 64" for r :: nat
proof -
  have "r div 64 div 64 = r div 4096" "r div 4096 div 64 = r div 262144"
    by (simp_all add: div_mult2_eq [symmetric])
  then show "r = r div 64 * 64 + r mod 64" "r div 64 = r div 4096 * 64 + r div 64 mod 64"
    "r div 4096 = r div 262144 * 64 + r div 4096 mod 64"
    using div_mult_mod_eq [of r 64] div_mult_mod_eq [of "r div 64" 64] div_mult_mod_eq [of "r div 4096" 64] by presburger+
qed

lemma DecodeRune_EncodeRune:
  assumes "scalar r"
  shows "DecodeRune (EncodeRune r @ t) = (r, length (EncodeRune r))"
proof -
  let ?a = "r mod 64" and ?b = "r div 64 mod 64" and ?c = "r div 4096 mod 64" and ?d = "r div 262144"
  have lt: "?a \<le> 63" "?b \<le> 63" "?c \<le> 63" by (simp_all add: less_Suc_eq_le [symmetric])
  consider "r < 0x80" | "0x80 \<le> r" "r < 0x800" | "0x800 \<le> r" "r < 0x10000" | "0x10000 \<le> r"
    by linarith
  then show ?thesis
  proof cases
    case 1
    then show ?thesis by (simp add: EncodeRune_def DecodeRune_def)
  next
    case 2
    then have "r div 64 < 32" "2 \<le> r div 64" by (auto simp: less_mult_imp_div_less)
    with 2 lt show ?thesis
      by (simp add: EncodeRune_def DecodeRune_def octet_in_def Let_def)
  next
    case 3
    then have d: "r div 4096 < 16" by (simp add: less_mult_imp_div_less)
    have "r div 4096 = 0 \<Longrightarrow> 32 \<le> ?b" using 3 sextets(1,2) [of r] lt by linarith
    moreover have "r div 4096 = 13 \<Longrightarrow> ?b < 32"
      using assms sextets(1,2) [of r] lt 3 unfolding scalar_def by linarith
    moreover have "r div 4096 * 4096 + ?b * 64 + ?a = r" using sextets(1,2) [of r] by linarith
    ultimately show ?thesis
      using 3 lt d assms by (auto simp: EncodeRune_def DecodeRune_def octet_in_def Let_def)
  next
    case 4
    then have b: "r \<le> 0x10FFFF" using assms by (simp add: scalar_def)
    then have d: "?d < 5" by (simp add: less_mult_imp_div_less)
    have "?d = 0 \<Longrightarrow> 16 \<le> ?c" using 4 sextets [of r] lt by linarith
    moreover have "?d = 4 \<Longrightarrow> ?c < 16" using b sextets [of r] lt by linarith
    moreover have "?d * 262144 + ?c * 4096 + ?b * 64 + ?a = r" using sextets [of r] by linarith
    ultimately show ?thesis
      using 4 b lt d assms by (auto simp: EncodeRune_def DecodeRune_def octet_in_def Let_def)
  qed
qed

lemma pieces_EncodeRune: "scalar r \<Longrightarrow> pieces (EncodeRune r @ t) = (r, EncodeRune r) # pieces t"
  by (subst pieces_step) (simp_all add: DecodeRune_EncodeRune)

lemma pieces_of_runes: "list_all scalar rs \<Longrightarrow> pieces (of_runes rs @ t) = map (\<lambda>r. (r, EncodeRune r)) rs @ pieces t"
  by (induction rs) (simp_all add: pieces_EncodeRune)

lemma runes_of_runes: "list_all scalar rs \<Longrightarrow> runes (of_runes rs) = rs"
  using pieces_of_runes [of rs "[]"] by (simp add: runes_def comp_def)

lemma ValidUTF8_of_runes: "list_all scalar rs \<Longrightarrow> ValidUTF8 (of_runes rs)"
  using pieces_of_runes [of rs "[]"] by (auto simp: ValidUTF8_def)

lemma DecodeRune_scalar: "scalar (fst (DecodeRune s))"
proof (cases s)
  case (Cons p t)
  have "unat p < 256" by (rule unat_octet_less)
  with Cons show ?thesis
    by (auto simp: DecodeRune_def Let_def octet_in_def scalar_def split: list.splits if_splits)
qed (simp add: scalar_def)

lemma scalar_runes: "list_all scalar (runes s)"
  unfolding runes_def
proof (induction s rule: pieces.induct)
  case (1 s)
  then show ?case
    by (cases "s = []") (simp_all add: pieces_step [of s] DecodeRune_scalar)
qed

lemma ValidUTF8_iff: "ValidUTF8 s \<longleftrightarrow> of_runes (runes s) = s"
  by (metis ValidUTF8_of_runes of_runes_runes scalar_runes)

text \<open>A string cut at the end of a piece has the same pieces up to there.\<close>

lemma DecodeRune_take:
  assumes "s \<noteq> []" "snd (DecodeRune s) \<le> n"
  shows "DecodeRune (take n s) = DecodeRune s"
proof -
  obtain p t where s: "s = p # t" using assms by (cases s) auto
  have "n \<noteq> 0" using assms DecodeRune_size [OF assms(1)] by auto
  then consider "n = 1" | "n = 2" | "n = 3" | k where "n = Suc (Suc (Suc (Suc k)))"
    by (metis (no_types) One_nat_def Suc_1 not0_implies_Suc numeral_3_eq_3)
  then show ?thesis
  proof cases
    case 1
    with assms(2) show ?thesis by (simp add: s DecodeRune_def Let_def split: if_splits)
  next
    case 2
    with assms(2) show ?thesis by (cases t) (simp_all add: s DecodeRune_def Let_def split: if_splits list.splits)
  next
    case 3
    with assms(2) show ?thesis
      by (cases t; cases "tl t") (simp_all add: s DecodeRune_def Let_def split: if_splits list.splits)
  next
    case 4
    then show ?thesis
      by (cases t; cases "tl t"; cases "tl (tl t)") (simp_all add: s DecodeRune_def Let_def)
  qed
qed

lemma pieces_take: "pieces (concat (map snd (take k (pieces s)))) = take k (pieces s)"
proof (induction k arbitrary: s)
  case (Suc k)
  show ?case
  proof (cases "s = []")
    case False
    let ?n = "snd (DecodeRune s)" and ?t = "drop (snd (DecodeRune s)) s"
    let ?u = "concat (map snd (take k (pieces ?t)))"
    have n: "0 < ?n" "?n \<le> length s" using DecodeRune_size [OF False] by auto
    have "?u = take (length ?u) ?t"
      by (metis append_eq_conv_conj append_take_drop_id concat_append concat_pieces map_append)
    then have p: "take ?n s @ ?u = take (?n + length ?u) s"
      by (metis take_add)
    have "DecodeRune (take ?n s @ ?u) = DecodeRune s"
      unfolding p using False by (rule DecodeRune_take) simp
    moreover have "take ?n s @ ?u \<noteq> []" using n False by auto
    ultimately have "pieces (take ?n s @ ?u) = (fst (DecodeRune s), take ?n s) # pieces ?u"
      using n by (subst pieces_step) simp_all
    then show ?thesis
      using False by (simp add: pieces_step [of s] Suc)
  qed simp
qed simp

lemma pieces_drop: "pieces (concat (map snd (drop k (pieces s)))) = drop k (pieces s)"
proof (induction k arbitrary: s)
  case (Suc k)
  then show ?case
    by (cases "s = []") (simp_all add: pieces_step [of s])
qed simp

lemma runes_take: "runes (concat (map snd (take k (pieces s)))) = take k (runes s)"
  by (simp add: runes_def pieces_take take_map)

lemma runes_drop: "runes (concat (map snd (drop k (pieces s)))) = drop k (runes s)"
  by (simp add: runes_def pieces_drop drop_map)

section \<open>UTF-16\<close>

definition EncodeUnits :: "rune \<Rightarrow> u16 list" where
  "EncodeUnits r =
     (if r < 0xD800 \<or> 0xE000 \<le> r \<and> r < 0x10000 then [go_uint16 r]
      else if 0x10000 \<le> r \<and> r \<le> 0x10FFFF
      then [go_uint16 (0xD800 + (r - 0x10000) div 1024), go_uint16 (0xDC00 + (r - 0x10000) mod 1024)]
      else [go_uint16 RuneError])"

definition utf16_Encode :: "rune list \<Rightarrow> u16 list" where
  "utf16_Encode rs = concat (map EncodeUnits rs)"

definition surrogate :: "u16 \<Rightarrow> bool" where
  "surrogate u \<longleftrightarrow> 0xD800 \<le> unat u \<and> unat u < 0xE000"

definition surrogate_pair :: "u16 \<Rightarrow> u16 \<Rightarrow> bool" where
  "surrogate_pair u v \<longleftrightarrow> 0xD800 \<le> unat u \<and> unat u < 0xDC00 \<and> 0xDC00 \<le> unat v \<and> unat v < 0xE000"

fun utf16_Decode :: "u16 list \<Rightarrow> rune list" where
  "utf16_Decode [] = []"
| "utf16_Decode [u] = [if surrogate u then RuneError else unat u]"
| "utf16_Decode (u # v # us) =
     (if \<not> surrogate u then unat u # utf16_Decode (v # us)
      else if surrogate_pair u v
      then ((unat u - 0xD800) * 1024 + (unat v - 0xDC00) + 0x10000) # utf16_Decode us
      else RuneError # utf16_Decode (v # us))"

lemma utf16_Decode_unit: "\<not> surrogate u \<Longrightarrow> utf16_Decode (u # us) = unat u # utf16_Decode us"
  by (cases us) simp_all

lemma utf16_Decode_EncodeUnits:
  assumes "scalar r"
  shows "utf16_Decode (EncodeUnits r @ us) = r # utf16_Decode us"
proof (cases "r < 0x10000")
  case True
  with assms have "EncodeUnits r = [go_uint16 r]" "\<not> surrogate (go_uint16 r)"
    by (auto simp: EncodeUnits_def scalar_def surrogate_def)
  with True show ?thesis by (simp add: utf16_Decode_unit)
next
  case False
  let ?q = "(r - 0x10000) div 1024" and ?m = "(r - 0x10000) mod 1024"
  have lt: "?q < 1024" "?m < 1024" using assms by (auto simp: scalar_def less_mult_imp_div_less)
  have "?q * 1024 + ?m + 0x10000 = r" using False by simp
  with False lt assms show ?thesis
    by (auto simp: EncodeUnits_def scalar_def surrogate_def surrogate_pair_def)
qed

lemma utf16_roundtrip: "list_all scalar rs \<Longrightarrow> utf16_Decode (utf16_Encode rs) = rs"
  by (induction rs) (simp_all add: utf16_Encode_def utf16_Decode_EncodeUnits)

lemma length_EncodeUnits: "scalar r \<Longrightarrow> length (EncodeUnits r) = (if r > 0xffff then 2 else 1)"
  by (auto simp: EncodeUnits_def scalar_def)

section \<open>Functions of the package strings\<close>

definition HasPrefix :: "bytes \<Rightarrow> bytes \<Rightarrow> bool" where
  "HasPrefix s p \<longleftrightarrow> take (length p) s = p"

text \<open>\<^verbatim>\<open>strings.Cut\<close> with a separator of one octet.\<close>

definition Cut :: "bytes \<Rightarrow> u8 \<Rightarrow> (bytes \<times> bytes) option" where
  "Cut s sep = (if sep \<in> set s then Some (takeWhile (\<lambda>b. b \<noteq> sep) s, tl (dropWhile (\<lambda>b. b \<noteq> sep) s)) else None)"

text \<open>\<^verbatim>\<open>strings.Trim\<close> with a cutset of ASCII characters.\<close>

definition Trim :: "bytes \<Rightarrow> bytes \<Rightarrow> bytes" where
  "Trim s cutset = rev (dropWhile (\<lambda>b. b \<in> set cutset) (rev (dropWhile (\<lambda>b. b \<in> set cutset) s)))"

text \<open>
  \<^verbatim>\<open>strings.ToLower\<close> is only ever compared with ASCII text.  Besides the capital letters of ASCII two code points
  have an ASCII letter as their lower case: U+0130 and U+212A.
\<close>

definition lower_rune :: "rune \<Rightarrow> rune" where
  "lower_rune r = (if 65 \<le> r \<and> r \<le> 90 then r + 32 else if r = 0x130 then 105 else if r = 0x212A then 107 else r)"

definition ToLower_is :: "bytes \<Rightarrow> string \<Rightarrow> bool" where
  "ToLower_is s lit \<longleftrightarrow> map lower_rune (runes s) = map of_char lit"

definition ToLower_HasPrefix :: "bytes \<Rightarrow> string \<Rightarrow> bool" where
  "ToLower_HasPrefix s lit \<longleftrightarrow> take (length lit) (map lower_rune (runes s)) = map of_char lit"

end
