(* ===== verification/SMS_Tables.thy ===== *)
theory SMS_Tables
  imports Go_Text Go_Result
begin

text \<open>
  The alphabets of \<^verbatim>\<open>runtimehost/messaging/sms_gsm7_nli.go\<close> and the basic alphabet of \<^verbatim>\<open>sms_pdu.go\<close>, as code
  points: the GSM 7-bit alphabet, its extension table and the national language tables of 3GPP TS 23.038.
  65535 marks the position of the escape code in a national locking table, 32 an unused one in a single shift
  table.
\<close>

abbreviation (input) SMSNationalLanguageTurkish :: int where "SMSNationalLanguageTurkish \<equiv> 1"
abbreviation (input) SMSNationalLanguageSpanish :: int where "SMSNationalLanguageSpanish \<equiv> 2"
abbreviation (input) SMSNationalLanguagePortuguese :: int where "SMSNationalLanguagePortuguese \<equiv> 3"
abbreviation (input) SMSNationalLanguageBengali :: int where "SMSNationalLanguageBengali \<equiv> 4"
abbreviation (input) SMSNationalLanguageGujarati :: int where "SMSNationalLanguageGujarati \<equiv> 5"
abbreviation (input) SMSNationalLanguageHindi :: int where "SMSNationalLanguageHindi \<equiv> 6"
abbreviation (input) SMSNationalLanguageKannada :: int where "SMSNationalLanguageKannada \<equiv> 7"
abbreviation (input) SMSNationalLanguageMalayalam :: int where "SMSNationalLanguageMalayalam \<equiv> 8"
abbreviation (input) SMSNationalLanguageOriya :: int where "SMSNationalLanguageOriya \<equiv> 9"
abbreviation (input) SMSNationalLanguagePunjabi :: int where "SMSNationalLanguagePunjabi \<equiv> 10"
abbreviation (input) SMSNationalLanguageTamil :: int where "SMSNationalLanguageTamil \<equiv> 11"
abbreviation (input) SMSNationalLanguageTelugu :: int where "SMSNationalLanguageTelugu \<equiv> 12"
abbreviation (input) SMSNationalLanguageUrdu :: int where "SMSNationalLanguageUrdu \<equiv> 13"

definition gsm7BasicAlphabet :: "rune list" where
  "gsm7BasicAlphabet =
     [64, 163, 36, 165, 232, 233, 249, 236, 242, 199, 10, 216, 248, 13, 197, 229, 916, 95, 934, 915, 923, 937,
      928, 936, 931, 920, 926, 27, 198, 230, 223, 201, 32, 33, 34, 35, 164, 37, 38, 39, 40, 41, 42, 43, 44, 45,
      46, 47, 48, 49, 50, 51, 52, 53, 54, 55, 56, 57, 58, 59, 60, 61, 62, 63, 161, 65, 66, 67, 68, 69, 70, 71, 72,
      73, 74, 75, 76, 77, 78, 79, 80, 81, 82, 83, 84, 85, 86, 87, 88, 89, 90, 196, 214, 209, 220, 167, 191, 97,
      98, 99, 100, 101, 102, 103, 104, 105, 106, 107, 108, 109, 110, 111, 112, 113, 114, 115, 116, 117, 118, 119,
      120, 121, 122, 228, 246, 241, 252, 224]"

definition gsm7DefaultSingleShiftTable :: "rune list" where
  "gsm7DefaultSingleShiftTable =
     [32, 32, 32, 32, 32, 32, 32, 32, 32, 32, 12, 32, 32, 32, 32, 32, 32, 32, 32, 32, 94, 32, 32, 32, 32, 32, 32,
      32, 32, 32, 32, 32, 32, 32, 32, 32, 32, 32, 32, 32, 123, 125, 32, 32, 32, 32, 32, 92, 32, 32, 32, 32, 32,
      32, 32, 32, 32, 32, 32, 32, 91, 126, 93, 32, 124, 32, 32, 32, 32, 32, 32, 32, 32, 32, 32, 32, 32, 32, 32,
      32, 32, 32, 32, 32, 32, 32, 32, 32, 32, 32, 32, 32, 32, 32, 32, 32, 32, 32, 32, 32, 32, 8364, 32, 32, 32,
      32, 32, 32, 32, 32, 32, 32, 32, 32, 32, 32, 32, 32, 32, 32, 32, 32, 32, 32, 32, 32, 32, 32]"

definition singleShiftTurkish :: "rune list" where
  "singleShiftTurkish =
     [32, 32, 32, 32, 32, 32, 32, 32, 32, 32, 12, 32, 32, 32, 32, 32, 32, 32, 32, 32, 94, 32, 32, 32, 32, 32, 32,
      32, 32, 32, 32, 32, 32, 32, 32, 32, 32, 32, 32, 32, 123, 125, 32, 32, 32, 32, 32, 92, 32, 32, 32, 32, 32,
      32, 32, 32, 32, 32, 32, 32, 91, 126, 93, 32, 124, 32, 32, 32, 32, 32, 32, 286, 32, 304, 32, 32, 32, 32, 32,
      32, 32, 32, 32, 350, 32, 32, 32, 32, 32, 32, 32, 32, 32, 32, 32, 32, 32, 32, 32, 231, 32, 8364, 32, 287, 32,
      305, 32, 32, 32, 32, 32, 32, 32, 32, 32, 351, 32, 32, 32, 32, 32, 32, 32, 32, 32, 32, 32, 32]"

definition singleShiftSpanish :: "rune list" where
  "singleShiftSpanish =
     [32, 32, 32, 32, 32, 32, 32, 32, 32, 231, 12, 32, 32, 32, 32, 32, 32, 32, 32, 32, 94, 32, 32, 32, 32, 32, 32,
      32, 32, 32, 32, 32, 32, 32, 32, 32, 32, 32, 32, 32, 123, 125, 32, 32, 32, 32, 32, 92, 32, 32, 32, 32, 32,
      32, 32, 32, 32, 32, 32, 32, 91, 126, 93, 32, 124, 193, 32, 32, 32, 32, 32, 32, 32, 205, 32, 32, 32, 32, 32,
      211, 32, 32, 32, 32, 32, 218, 32, 32, 32, 32, 32, 32, 32, 32, 32, 32, 32, 225, 32, 32, 32, 8364, 32, 32, 32,
      237, 32, 32, 32, 32, 32, 243, 32, 32, 32, 32, 32, 250, 32, 32, 32, 32, 32, 32, 32, 32, 32, 32]"

definition singleShiftPortuguese :: "rune list" where
  "singleShiftPortuguese =
     [32, 32, 32, 32, 32, 234, 32, 32, 32, 231, 12, 212, 244, 32, 193, 225, 32, 32, 934, 915, 94, 937, 928, 936,
      931, 920, 32, 32, 32, 32, 32, 202, 32, 32, 32, 32, 32, 32, 32, 32, 123, 125, 32, 32, 32, 32, 32, 92, 32, 32,
      32, 32, 32, 32, 32, 32, 32, 32, 32, 32, 91, 126, 93, 32, 124, 192, 32, 32, 32, 32, 32, 32, 32, 205, 32, 32,
      32, 32, 32, 211, 32, 32, 32, 32, 32, 218, 32, 32, 32, 32, 32, 195, 213, 32, 32, 32, 32, 194, 32, 32, 32,
      8364, 32, 32, 32, 237, 32, 32, 32, 32, 32, 243, 32, 32, 32, 32, 32, 250, 32, 32, 32, 32, 32, 227, 245, 32,
      32, 226]"

definition singleShiftBengali :: "rune list" where
  "singleShiftBengali =
     [64, 163, 36, 165, 191, 34, 164, 37, 38, 39, 12, 42, 43, 32, 45, 47, 60, 61, 62, 161, 94, 161, 95, 35, 42,
      2534, 2535, 32, 2536, 2537, 2538, 2539, 2540, 2541, 2542, 2543, 2527, 2528, 2529, 2530, 123, 125, 2531,
      2546, 2547, 2548, 2549, 92, 2550, 2551, 2552, 2553, 2554, 32, 32, 32, 32, 32, 32, 32, 91, 126, 93, 32, 124,
      65, 66, 67, 68, 69, 70, 71, 72, 73, 74, 75, 76, 77, 78, 79, 80, 81, 82, 83, 84, 85, 86, 87, 88, 89, 90, 32,
      32, 32, 32, 32, 32, 32, 32, 32, 32, 8364, 32, 32, 32, 32, 32, 32, 32, 32, 32, 32, 32, 32, 32, 32, 32, 32,
      32, 32, 32, 32, 32, 32, 32, 32, 32, 32]"

definition singleShiftGujarati :: "rune list" where
  "singleShiftGujarati =
     [64, 163, 36, 165, 191, 34, 164, 37, 38, 39, 12, 42, 43, 32, 45, 47, 60, 61, 62, 161, 94, 161, 95, 35, 42,
      2404, 2405, 32, 2790, 2791, 2792, 2793, 2794, 2795, 2796, 2797, 2798, 2799, 32, 32, 123, 125, 32, 32, 32,
      32, 32, 92, 32, 32, 32, 32, 32, 32, 32, 32, 32, 32, 32, 32, 91, 126, 93, 32, 124, 65, 66, 67, 68, 69, 70,
      71, 72, 73, 74, 75, 76, 77, 78, 79, 80, 81, 82, 83, 84, 85, 86, 87, 88, 89, 90, 32, 32, 32, 32, 32, 32, 32,
      32, 32, 32, 8364, 32, 32, 32, 32, 32, 32, 32, 32, 32, 32, 32, 32, 32, 32, 32, 32, 32, 32, 32, 32, 32, 32,
      32, 32, 32, 32]"

definition singleShiftHindi :: "rune list" where
  "singleShiftHindi =
     [64, 163, 36, 165, 191, 34, 164, 37, 38, 39, 12, 42, 43, 32, 45, 47, 60, 61, 62, 161, 94, 161, 95, 35, 42,
      2404, 2405, 32, 2406, 2407, 2408, 2409, 2410, 2411, 2412, 2413, 2414, 2415, 2385, 2386, 123, 125, 2387,
      2388, 2392, 2393, 2394, 92, 2395, 2396, 2397, 2398, 2399, 2400, 2401, 2402, 2403, 2416, 2417, 32, 91, 126,
      93, 32, 124, 65, 66, 67, 68, 69, 70, 71, 72, 73, 74, 75, 76, 77, 78, 79, 80, 81, 82, 83, 84, 85, 86, 87, 88,
      89, 90, 32, 32, 32, 32, 32, 32, 32, 32, 32, 32, 8364, 32, 32, 32, 32, 32, 32, 32, 32, 32, 32, 32, 32, 32,
      32, 32, 32, 32, 32, 32, 32, 32, 32, 32, 32, 32, 32]"

definition singleShiftKannada :: "rune list" where
  "singleShiftKannada =
     [64, 163, 36, 165, 191, 34, 164, 37, 38, 39, 12, 42, 43, 32, 45, 47, 60, 61, 62, 161, 94, 161, 95, 35, 42,
      2404, 2405, 32, 3302, 3303, 3304, 3305, 3306, 3307, 3308, 3309, 3310, 3311, 3294, 3313, 123, 125, 3314, 32,
      32, 32, 32, 92, 32, 32, 32, 32, 32, 32, 32, 32, 32, 32, 32, 32, 91, 126, 93, 32, 124, 65, 66, 67, 68, 69,
      70, 71, 72, 73, 74, 75, 76, 77, 78, 79, 80, 81, 82, 83, 84, 85, 86, 87, 88, 89, 90, 32, 32, 32, 32, 32, 32,
      32, 32, 32, 32, 8364, 32, 32, 32, 32, 32, 32, 32, 32, 32, 32, 32, 32, 32, 32, 32, 32, 32, 32, 32, 32, 32,
      32, 32, 32, 32, 32]"

definition singleShiftMalayalam :: "rune list" where
  "singleShiftMalayalam =
     [64, 163, 36, 165, 191, 34, 164, 37, 38, 39, 12, 42, 43, 32, 45, 47, 60, 61, 62, 161, 94, 161, 95, 35, 42,
      2404, 2405, 32, 3430, 3431, 3432, 3433, 3434, 3435, 3436, 3437, 3438, 3439, 3440, 3441, 123, 125, 3442,
      3443, 3444, 3445, 3450, 92, 3451, 3452, 3453, 3454, 3455, 32, 32, 32, 32, 32, 32, 32, 91, 126, 93, 32, 124,
      65, 66, 67, 68, 69, 70, 71, 72, 73, 74, 75, 76, 77, 78, 79, 80, 81, 82, 83, 84, 85, 86, 87, 88, 89, 90, 32,
      32, 32, 32, 32, 32, 32, 32, 32, 32, 8364, 32, 32, 32, 32, 32, 32, 32, 32, 32, 32, 32, 32, 32, 32, 32, 32,
      32, 32, 32, 32, 32, 32, 32, 32, 32, 32]"

definition singleShiftOriya :: "rune list" where
  "singleShiftOriya =
     [64, 163, 36, 165, 191, 34, 164, 37, 38, 39, 12, 42, 43, 32, 45, 47, 60, 61, 62, 161, 94, 161, 95, 35, 42,
      2404, 2405, 32, 2918, 2919, 2920, 2921, 2922, 2923, 2924, 2925, 2926, 2927, 2908, 2909, 123, 125, 2911,
      2928, 2929, 32, 32, 92, 32, 32, 32, 32, 32, 32, 32, 32, 32, 32, 32, 32, 91, 126, 93, 32, 124, 65, 66, 67,
      68, 69, 70, 71, 72, 73, 74, 75, 76, 77, 78, 79, 80, 81, 82, 83, 84, 85, 86, 87, 88, 89, 90, 32, 32, 32, 32,
      32, 32, 32, 32, 32, 32, 8364, 32, 32, 32, 32, 32, 32, 32, 32, 32, 32, 32, 32, 32, 32, 32, 32, 32, 32, 32,
      32, 32, 32, 32, 32, 32, 32]"

definition singleShiftPunjabi :: "rune list" where
  "singleShiftPunjabi =
     [64, 163, 36, 165, 191, 34, 164, 37, 38, 39, 12, 42, 43, 32, 45, 47, 60, 61, 62, 161, 94, 161, 95, 35, 42,
      2404, 2405, 32, 2662, 2663, 2664, 2665, 2666, 2667, 2668, 2669, 2670, 2671, 2649, 2650, 123, 125, 2651,
      2652, 2654, 2677, 32, 92, 32, 32, 32, 32, 32, 32, 32, 32, 32, 32, 32, 32, 91, 126, 93, 32, 124, 65, 66, 67,
      68, 69, 70, 71, 72, 73, 74, 75, 76, 77, 78, 79, 80, 81, 82, 83, 84, 85, 86, 87, 88, 89, 90, 32, 32, 32, 32,
      32, 32, 32, 32, 32, 32, 8364, 32, 32, 32, 32, 32, 32, 32, 32, 32, 32, 32, 32, 32, 32, 32, 32, 32, 32, 32,
      32, 32, 32, 32, 32, 32, 32]"

definition singleShiftTamil :: "rune list" where
  "singleShiftTamil =
     [64, 163, 36, 165, 191, 34, 164, 37, 38, 39, 12, 42, 43, 32, 45, 47, 60, 61, 62, 161, 94, 161, 95, 35, 42,
      2404, 2405, 32, 3046, 3047, 3048, 3049, 3050, 3051, 3052, 3053, 3054, 3055, 3059, 3060, 123, 125, 3061,
      3062, 3063, 3064, 3066, 92, 32, 32, 32, 32, 32, 32, 32, 32, 32, 32, 32, 32, 91, 126, 93, 32, 124, 65, 66,
      67, 68, 69, 70, 71, 72, 73, 74, 75, 76, 77, 78, 79, 80, 81, 82, 83, 84, 85, 86, 87, 88, 89, 90, 32, 32, 32,
      32, 32, 32, 32, 32, 32, 32, 8364, 32, 32, 32, 32, 32, 32, 32, 32, 32, 32, 32, 32, 32, 32, 32, 32, 32, 32,
      32, 32, 32, 32, 32, 32, 32, 32]"

definition singleShiftTelugu :: "rune list" where
  "singleShiftTelugu =
     [64, 163, 36, 165, 191, 34, 164, 37, 38, 39, 12, 42, 43, 32, 45, 47, 60, 61, 62, 161, 94, 161, 95, 35, 42,
      32, 32, 32, 3174, 3175, 3176, 3177, 3178, 3179, 3180, 3181, 3182, 3183, 3160, 3161, 123, 125, 3192, 3193,
      3194, 3195, 3196, 92, 3197, 3198, 3199, 32, 32, 32, 32, 32, 32, 32, 32, 32, 91, 126, 93, 32, 124, 65, 66,
      67, 68, 69, 70, 71, 72, 73, 74, 75, 76, 77, 78, 79, 80, 81, 82, 83, 84, 85, 86, 87, 88, 89, 90, 32, 32, 32,
      32, 32, 32, 32, 32, 32, 32, 8364, 32, 32, 32, 32, 32, 32, 32, 32, 32, 32, 32, 32, 32, 32, 32, 32, 32, 32,
      32, 32, 32, 32, 32, 32, 32, 32]"

definition singleShiftUrdu :: "rune list" where
  "singleShiftUrdu =
     [64, 163, 36, 165, 191, 34, 164, 37, 38, 39, 12, 42, 43, 32, 45, 47, 60, 61, 62, 161, 94, 161, 95, 35, 42,
      1536, 1537, 32, 1776, 1777, 1778, 1779, 1780, 1781, 1782, 1783, 1784, 1785, 1548, 1549, 123, 125, 1550,
      1551, 1552, 1553, 1554, 92, 1555, 1556, 1563, 1567, 1600, 1618, 1624, 1643, 1644, 1650, 1651, 1741, 91, 126,
      93, 1748, 124, 65, 66, 67, 68, 69, 70, 71, 72, 73, 74, 75, 76, 77, 78, 79, 80, 81, 82, 83, 84, 85, 86, 87,
      88, 89, 90, 32, 32, 32, 32, 32, 32, 32, 32, 32, 32, 8364, 32, 32, 32, 32, 32, 32, 32, 32, 32, 32, 32, 32,
      32, 32, 32, 32, 32, 32, 32, 32, 32, 32, 32, 32, 32, 32]"

definition lockingTurkish :: "rune list" where
  "lockingTurkish =
     [64, 163, 36, 165, 8364, 233, 249, 305, 242, 199, 10, 286, 287, 13, 197, 229, 916, 95, 934, 915, 923, 937,
      928, 936, 931, 920, 926, 65535, 350, 351, 223, 201, 32, 33, 34, 35, 164, 37, 38, 39, 40, 41, 42, 43, 44, 45,
      46, 47, 48, 49, 50, 51, 52, 53, 54, 55, 56, 57, 58, 59, 60, 61, 62, 63, 304, 65, 66, 67, 68, 69, 70, 71, 72,
      73, 74, 75, 76, 77, 78, 79, 80, 81, 82, 83, 84, 85, 86, 87, 88, 89, 90, 196, 214, 209, 220, 167, 231, 97,
      98, 99, 100, 101, 102, 103, 104, 105, 106, 107, 108, 109, 110, 111, 112, 113, 114, 115, 116, 117, 118, 119,
      120, 121, 122, 228, 246, 241, 252, 224]"

definition lockingPortuguese :: "rune list" where
  "lockingPortuguese =
     [64, 163, 36, 165, 234, 233, 250, 237, 243, 231, 10, 212, 244, 13, 193, 225, 916, 95, 170, 199, 192, 8734,
      94, 92, 8364, 211, 124, 65535, 194, 226, 202, 201, 32, 33, 34, 35, 186, 37, 38, 39, 40, 41, 42, 43, 44, 45,
      46, 47, 48, 49, 50, 51, 52, 53, 54, 55, 56, 57, 58, 59, 60, 61, 62, 63, 205, 65, 66, 67, 68, 69, 70, 71, 72,
      73, 74, 75, 76, 77, 78, 79, 80, 81, 82, 83, 84, 85, 86, 87, 88, 89, 90, 195, 213, 218, 220, 167, 126, 97,
      98, 99, 100, 101, 102, 103, 104, 105, 106, 107, 108, 109, 110, 111, 112, 113, 114, 115, 116, 117, 118, 119,
      120, 121, 122, 227, 245, 96, 252, 224]"

definition lockingBengali :: "rune list" where
  "lockingBengali =
     [2433, 2434, 2435, 2437, 2438, 2439, 2440, 2441, 2442, 2443, 10, 2444, 32, 13, 32, 2447, 2448, 32, 32, 2451,
      2452, 2453, 2454, 2455, 2456, 2457, 2458, 65535, 2459, 2460, 2461, 2462, 32, 33, 2463, 2464, 2465, 2466,
      2467, 2468, 41, 40, 2469, 2470, 44, 2471, 46, 2472, 48, 49, 50, 51, 52, 53, 54, 55, 56, 57, 58, 59, 32,
      2474, 2475, 63, 2476, 2477, 2478, 2479, 2480, 32, 2482, 32, 32, 32, 2486, 2487, 2488, 2489, 2492, 2493,
      2494, 2495, 2496, 2497, 2498, 2499, 2500, 32, 32, 2503, 2504, 32, 32, 2507, 2508, 2509, 2510, 97, 98, 99,
      100, 101, 102, 103, 104, 105, 106, 107, 108, 109, 110, 111, 112, 113, 114, 115, 116, 117, 118, 119, 120,
      121, 122, 2519, 2524, 2525, 2544, 2545]"

definition lockingGujarati :: "rune list" where
  "lockingGujarati =
     [2689, 2690, 2691, 2693, 2694, 2695, 2696, 2697, 2698, 2699, 10, 2700, 2701, 13, 32, 2703, 2704, 2705, 32,
      2707, 2708, 2709, 2710, 2711, 2712, 2713, 2714, 65535, 2715, 2716, 2717, 2718, 32, 33, 2719, 2720, 2721,
      2722, 2723, 2724, 41, 40, 2725, 2726, 44, 2727, 46, 2728, 48, 49, 50, 51, 52, 53, 54, 55, 56, 57, 58, 59,
      32, 2730, 2731, 63, 2732, 2733, 2734, 2735, 2736, 32, 2738, 2739, 32, 2741, 2742, 2743, 2744, 2745, 2748,
      2749, 2750, 2751, 2752, 2753, 2754, 2755, 2756, 2757, 32, 2759, 2760, 2761, 32, 2763, 2764, 2765, 2768, 97,
      98, 99, 100, 101, 102, 103, 104, 105, 106, 107, 108, 109, 110, 111, 112, 113, 114, 115, 116, 117, 118, 119,
      120, 121, 122, 2784, 2785, 2786, 2787, 2801]"

definition lockingHindi :: "rune list" where
  "lockingHindi =
     [2305, 2306, 2307, 2309, 2310, 2311, 2312, 2313, 2314, 2315, 10, 2316, 2317, 13, 2318, 2319, 2320, 2321,
      2322, 2323, 2324, 2325, 2326, 2327, 2328, 2329, 2330, 65535, 2331, 2332, 2333, 2334, 32, 33, 2335, 2336,
      2337, 2338, 2339, 2340, 41, 40, 2341, 2342, 44, 2343, 46, 2344, 48, 49, 50, 51, 52, 53, 54, 55, 56, 57, 58,
      59, 2345, 2346, 2347, 63, 2348, 2349, 2350, 2351, 2352, 2353, 2354, 2355, 2356, 2357, 2358, 2359, 2360,
      2361, 2364, 2365, 2366, 2367, 2368, 2369, 2370, 2371, 2372, 2373, 2374, 2375, 2376, 2377, 2378, 2379, 2380,
      2381, 2384, 97, 98, 99, 100, 101, 102, 103, 104, 105, 106, 107, 108, 109, 110, 111, 112, 113, 114, 115, 116,
      117, 118, 119, 120, 121, 122, 2418, 2427, 2428, 2430, 2431]"

definition lockingKannada :: "rune list" where
  "lockingKannada =
     [32, 3202, 3203, 3205, 3206, 3207, 3208, 3209, 3210, 3211, 10, 3212, 32, 13, 3214, 3215, 3216, 32, 3218,
      3219, 3220, 3221, 3222, 3223, 3224, 3225, 3226, 65535, 3227, 3228, 3229, 3230, 32, 33, 3231, 3232, 3233,
      3234, 3235, 3236, 41, 40, 3237, 3238, 44, 3239, 46, 3240, 48, 49, 50, 51, 52, 53, 54, 55, 56, 57, 58, 59,
      32, 3242, 3243, 63, 3244, 3245, 3246, 3247, 3248, 3249, 3250, 3251, 32, 3253, 3254, 3255, 3256, 3257, 3260,
      3261, 3262, 3263, 3264, 3265, 3266, 3267, 3268, 32, 3270, 3271, 3272, 32, 3274, 3275, 3276, 3277, 3285, 97,
      98, 99, 100, 101, 102, 103, 104, 105, 106, 107, 108, 109, 110, 111, 112, 113, 114, 115, 116, 117, 118, 119,
      120, 121, 122, 3286, 3296, 3297, 3298, 3299]"

definition lockingMalayalam :: "rune list" where
  "lockingMalayalam =
     [32, 3330, 3331, 3333, 3334, 3335, 3336, 3337, 3338, 3339, 10, 3340, 32, 13, 3342, 3343, 3344, 32, 3346,
      3347, 3348, 3349, 3350, 3351, 3352, 3353, 3354, 65535, 3355, 3356, 3357, 3358, 32, 33, 3359, 3360, 3361,
      3362, 3363, 3364, 41, 40, 3365, 3366, 44, 3367, 46, 3368, 48, 49, 50, 51, 52, 53, 54, 55, 56, 57, 58, 59,
      32, 3370, 3371, 63, 3372, 3373, 3374, 3375, 3376, 3377, 3378, 3379, 3380, 3381, 3382, 3383, 3384, 3385, 32,
      3389, 3390, 3391, 3392, 3393, 3394, 3395, 3396, 32, 3398, 3399, 3400, 32, 3402, 3403, 3404, 3405, 3415, 97,
      98, 99, 100, 101, 102, 103, 104, 105, 106, 107, 108, 109, 110, 111, 112, 113, 114, 115, 116, 117, 118, 119,
      120, 121, 122, 3424, 3425, 3426, 3427, 3449]"

definition lockingOriya :: "rune list" where
  "lockingOriya =
     [2817, 2818, 2819, 2821, 2822, 2823, 2824, 2825, 2826, 2827, 10, 2828, 32, 13, 32, 2831, 2832, 32, 32, 2835,
      2836, 2837, 2838, 2839, 2840, 2841, 2842, 65535, 2843, 2844, 2845, 2846, 32, 33, 2847, 2848, 2849, 2850,
      2851, 2852, 41, 40, 2853, 2854, 44, 2855, 46, 2856, 48, 49, 50, 51, 52, 53, 54, 55, 56, 57, 58, 59, 32,
      2858, 2859, 63, 2860, 2861, 2862, 2863, 2864, 32, 2866, 2867, 32, 2869, 2870, 2871, 2872, 2873, 2876, 2877,
      2878, 2879, 2880, 2881, 2882, 2883, 2884, 32, 32, 2887, 2888, 32, 32, 2891, 2892, 2893, 2902, 97, 98, 99,
      100, 101, 102, 103, 104, 105, 106, 107, 108, 109, 110, 111, 112, 113, 114, 115, 116, 117, 118, 119, 120,
      121, 122, 2903, 2912, 2913, 2914, 2915]"

definition lockingPunjabi :: "rune list" where
  "lockingPunjabi =
     [2561, 2562, 2563, 2565, 2566, 2567, 2568, 2569, 2570, 32, 10, 32, 32, 13, 32, 2575, 2576, 32, 32, 2579,
      2580, 2581, 2582, 2583, 2584, 2585, 2586, 65535, 2587, 2588, 2589, 2590, 32, 33, 2591, 2592, 2593, 2594,
      2595, 2596, 41, 40, 2597, 2598, 44, 2599, 46, 2600, 48, 49, 50, 51, 52, 53, 54, 55, 56, 57, 58, 59, 32,
      2602, 2603, 63, 2604, 2605, 2606, 2607, 2608, 32, 2610, 2611, 32, 2613, 2614, 32, 2616, 2617, 2620, 32,
      2622, 2623, 2624, 2625, 2626, 32, 32, 32, 32, 2631, 2632, 32, 32, 2635, 2636, 2637, 2641, 97, 98, 99, 100,
      101, 102, 103, 104, 105, 106, 107, 108, 109, 110, 111, 112, 113, 114, 115, 116, 117, 118, 119, 120, 121,
      122, 2672, 2673, 2674, 2675, 2676]"

definition lockingTamil :: "rune list" where
  "lockingTamil =
     [32, 2946, 2947, 2949, 2950, 2951, 2952, 2953, 2954, 32, 10, 32, 32, 13, 2958, 2959, 2960, 32, 2962, 2963,
      2964, 2965, 32, 32, 32, 2969, 2970, 65535, 32, 2972, 32, 2974, 32, 33, 2975, 32, 32, 32, 2979, 2980, 41, 40,
      32, 32, 44, 32, 46, 2984, 48, 49, 50, 51, 52, 53, 54, 55, 56, 57, 58, 59, 2985, 2986, 32, 63, 32, 32, 2990,
      2991, 2992, 2993, 2994, 2995, 2996, 2997, 2998, 2999, 3000, 3001, 32, 32, 3006, 3007, 3008, 3009, 3010, 32,
      32, 32, 3014, 3015, 3016, 32, 3018, 3019, 3020, 3021, 3024, 97, 98, 99, 100, 101, 102, 103, 104, 105, 106,
      107, 108, 109, 110, 111, 112, 113, 114, 115, 116, 117, 118, 119, 120, 121, 122, 3031, 3056, 3057, 3058, 3065]"

definition lockingTelugu :: "rune list" where
  "lockingTelugu =
     [3073, 3074, 3075, 3077, 3078, 3079, 3080, 3081, 3082, 3083, 10, 3084, 32, 13, 3086, 3087, 3088, 32, 3090,
      3091, 3092, 3093, 3094, 3095, 3096, 3097, 3098, 65535, 3099, 3100, 3101, 3102, 32, 33, 3103, 3104, 3105,
      3106, 3107, 3108, 41, 40, 3109, 3110, 44, 3111, 46, 3112, 48, 49, 50, 51, 52, 53, 54, 55, 56, 57, 58, 59,
      32, 3114, 3115, 63, 3116, 3117, 3118, 3119, 3120, 3121, 3122, 3123, 32, 3125, 3126, 3127, 3128, 3129, 32,
      3133, 3134, 3135, 3136, 3137, 3138, 3139, 3140, 32, 3142, 3143, 3144, 32, 3146, 3147, 3148, 3149, 3157, 97,
      98, 99, 100, 101, 102, 103, 104, 105, 106, 107, 108, 109, 110, 111, 112, 113, 114, 115, 116, 117, 118, 119,
      120, 121, 122, 3158, 3168, 3169, 3170, 3171]"

definition lockingUrdu :: "rune list" where
  "lockingUrdu =
     [1575, 1570, 1576, 1659, 1664, 1662, 1702, 1578, 1730, 1663, 10, 1657, 1661, 13, 1658, 1660, 1579, 1580,
      1665, 1668, 1667, 1669, 1670, 1671, 1581, 1582, 1583, 65535, 1676, 1672, 1673, 1674, 32, 33, 1679, 1677,
      1584, 1585, 1681, 1683, 41, 40, 1689, 1586, 44, 1686, 46, 1688, 48, 49, 50, 51, 52, 53, 54, 55, 56, 57, 58,
      59, 1690, 1587, 1588, 63, 1589, 1590, 1591, 1592, 1593, 1601, 1602, 1705, 1706, 1707, 1711, 1715, 1713,
      1604, 1605, 1606, 1722, 1723, 1724, 1608, 1732, 1749, 1729, 1726, 1569, 1740, 1744, 1746, 1613, 1616, 1615,
      1623, 1620, 97, 98, 99, 100, 101, 102, 103, 104, 105, 106, 107, 108, 109, 110, 111, 112, 113, 114, 115, 116,
      117, 118, 119, 120, 121, 122, 1621, 1617, 1619, 1622, 1648]"

definition gsm7NationalLanguageSingleShiftTables :: "int \<Rightarrow> rune list option" where
  "gsm7NationalLanguageSingleShiftTables lang =
     map_of
       [(SMSNationalLanguageTurkish, singleShiftTurkish),
        (SMSNationalLanguageSpanish, singleShiftSpanish),
        (SMSNationalLanguagePortuguese, singleShiftPortuguese),
        (SMSNationalLanguageBengali, singleShiftBengali),
        (SMSNationalLanguageGujarati, singleShiftGujarati),
        (SMSNationalLanguageHindi, singleShiftHindi),
        (SMSNationalLanguageKannada, singleShiftKannada),
        (SMSNationalLanguageMalayalam, singleShiftMalayalam),
        (SMSNationalLanguageOriya, singleShiftOriya),
        (SMSNationalLanguagePunjabi, singleShiftPunjabi),
        (SMSNationalLanguageTamil, singleShiftTamil),
        (SMSNationalLanguageTelugu, singleShiftTelugu),
        (SMSNationalLanguageUrdu, singleShiftUrdu)]
       lang"

definition gsm7NationalLanguageLockingTables :: "int \<Rightarrow> rune list option" where
  "gsm7NationalLanguageLockingTables lang =
     map_of
       [(SMSNationalLanguageTurkish, lockingTurkish),
        (SMSNationalLanguagePortuguese, lockingPortuguese),
        (SMSNationalLanguageBengali, lockingBengali),
        (SMSNationalLanguageGujarati, lockingGujarati),
        (SMSNationalLanguageHindi, lockingHindi),
        (SMSNationalLanguageKannada, lockingKannada),
        (SMSNationalLanguageMalayalam, lockingMalayalam),
        (SMSNationalLanguageOriya, lockingOriya),
        (SMSNationalLanguagePunjabi, lockingPunjabi),
        (SMSNationalLanguageTamil, lockingTamil),
        (SMSNationalLanguageTelugu, lockingTelugu),
        (SMSNationalLanguageUrdu, lockingUrdu)]
       lang"


text \<open>\<^verbatim>\<open>mustGSM7Table\<close> panics when the program starts unless a table has 128 entries.\<close>

definition mustGSM7Table :: "rune list \<Rightarrow> rune list res" where
  "mustGSM7Table table = (if length table \<noteq> 128 then Inl Panic else Inr table)"

definition smsNationalLanguageIdentifierKnown :: "int \<Rightarrow> bool" where
  "smsNationalLanguageIdentifierKnown lang \<longleftrightarrow> SMSNationalLanguageTurkish \<le> lang \<and> lang \<le> SMSNationalLanguageUrdu"

definition gsm7LockingTable :: "int \<Rightarrow> rune list" where
  "gsm7LockingTable lang =
     (case gsm7NationalLanguageLockingTables lang of Some table \<Rightarrow> table | None \<Rightarrow> gsm7BasicAlphabet)"

definition gsm7SingleShiftTable :: "int \<Rightarrow> rune list" where
  "gsm7SingleShiftTable lang =
     (case gsm7NationalLanguageSingleShiftTables lang of Some table \<Rightarrow> table | None \<Rightarrow> gsm7DefaultSingleShiftTable)"

text \<open>The loop over a table: the first index whose entry satisfies the test.\<close>

fun firstIndex :: "('a \<Rightarrow> bool) \<Rightarrow> 'a list \<Rightarrow> nat option" where
  "firstIndex P [] = None"
| "firstIndex P (x # xs) = (if P x then Some 0 else map_option Suc (firstIndex P xs))"

definition gsm7LockingCode :: "rune \<Rightarrow> int \<Rightarrow> u8 option" where
  "gsm7LockingCode r lang =
     (let table = gsm7LockingTable lang in
      if r = 32 \<and> length table > 0x20 \<and> table ! 0x20 = 32 then Some 0x20
      else map_option go_byte (firstIndex (\<lambda>candidate. candidate = r \<and> candidate \<noteq> 0xffff) table))"

definition gsm7SingleShiftCode :: "rune \<Rightarrow> int \<Rightarrow> u8 option" where
  "gsm7SingleShiftCode r lang =
     map_option go_byte
       (firstIndex (\<lambda>candidate. candidate = r \<and> candidate \<noteq> 32 \<and> candidate \<noteq> 0xffff) (gsm7SingleShiftTable lang))"

definition gsm7LockingRune :: "u8 \<Rightarrow> int \<Rightarrow> rune option" where
  "gsm7LockingRune code lang =
     (let table = gsm7LockingTable lang in
      if unat code \<ge> length table \<or> table ! unat code = 0xffff then None else Some (table ! unat code))"

definition gsm7SingleShiftRune :: "u8 \<Rightarrow> int \<Rightarrow> rune option" where
  "gsm7SingleShiftRune code lang =
     (let table = gsm7SingleShiftTable lang in
      if unat code \<ge> length table \<or> table ! unat code = 32 \<or> table ! unat code = 0xffff then None
      else Some (table ! unat code))"

section \<open>Facts about the tables\<close>

lemma firstIndex_Some: "firstIndex P xs = Some i \<Longrightarrow> i < length xs \<and> P (xs ! i)"
  by (induction xs arbitrary: i) (auto split: if_splits)

lemma firstIndex_None_iff: "firstIndex P xs = None \<longleftrightarrow> (\<forall>x \<in> set xs. \<not> P x)"
  by (induction xs) auto

lemmas locking_defs =
  lockingTurkish_def lockingPortuguese_def lockingBengali_def lockingGujarati_def lockingHindi_def lockingKannada_def
  lockingMalayalam_def lockingOriya_def lockingPunjabi_def lockingTamil_def lockingTelugu_def lockingUrdu_def

lemmas single_shift_defs =
  singleShiftTurkish_def singleShiftSpanish_def singleShiftPortuguese_def singleShiftBengali_def
  singleShiftGujarati_def singleShiftHindi_def singleShiftKannada_def singleShiftMalayalam_def singleShiftOriya_def
  singleShiftPunjabi_def singleShiftTamil_def singleShiftTelugu_def singleShiftUrdu_def

lemma locking_table_cases:
  "gsm7LockingTable lang \<in> set [gsm7BasicAlphabet, lockingTurkish, lockingPortuguese, lockingBengali, lockingGujarati,
     lockingHindi, lockingKannada, lockingMalayalam, lockingOriya, lockingPunjabi, lockingTamil, lockingTelugu, lockingUrdu]"
  by (simp add: gsm7LockingTable_def gsm7NationalLanguageLockingTables_def)

lemma single_shift_table_cases:
  "gsm7SingleShiftTable lang \<in> set [gsm7DefaultSingleShiftTable, singleShiftTurkish, singleShiftSpanish,
     singleShiftPortuguese, singleShiftBengali, singleShiftGujarati, singleShiftHindi, singleShiftKannada,
     singleShiftMalayalam, singleShiftOriya, singleShiftPunjabi, singleShiftTamil, singleShiftTelugu, singleShiftUrdu]"
  by (simp add: gsm7SingleShiftTable_def gsm7NationalLanguageSingleShiftTables_def)

lemma all_tables:
  "list_all (\<lambda>t. length t = 128 \<and> (t ! 27 = 27 \<or> t ! 27 = 0xffff) \<and> t ! 32 = 32)
     [gsm7BasicAlphabet, lockingTurkish, lockingPortuguese, lockingBengali, lockingGujarati,
      lockingHindi, lockingKannada, lockingMalayalam, lockingOriya, lockingPunjabi, lockingTamil, lockingTelugu, lockingUrdu]"
  "list_all (\<lambda>t. length t = 128) [gsm7DefaultSingleShiftTable, singleShiftTurkish, singleShiftSpanish,
     singleShiftPortuguese, singleShiftBengali, singleShiftGujarati, singleShiftHindi, singleShiftKannada,
     singleShiftMalayalam, singleShiftOriya, singleShiftPunjabi, singleShiftTamil, singleShiftTelugu, singleShiftUrdu]"
  by (simp_all add: gsm7BasicAlphabet_def gsm7DefaultSingleShiftTable_def locking_defs single_shift_defs)

lemma locking_table_ok:
  "length (gsm7LockingTable lang) = 128"
  "gsm7LockingTable lang ! 27 = 27 \<or> gsm7LockingTable lang ! 27 = 0xffff" "gsm7LockingTable lang ! 32 = 32"
  using all_tables(1) locking_table_cases [of lang] unfolding list_all_iff by blast+

lemma single_shift_table_ok:
  "length (gsm7SingleShiftTable lang) = 128"
  using all_tables(2) single_shift_table_cases [of lang] unfolding list_all_iff by blast+

lemma gsm7LockingCode_D:
  assumes "gsm7LockingCode r lang = Some c"
  shows "unat c < 128" "gsm7LockingRune c lang = Some r" "r \<noteq> 27 \<Longrightarrow> c \<noteq> 27"
proof -
  obtain i where i: "c = go_byte i" "i < 128" "gsm7LockingTable lang ! i = r" "r \<noteq> 0xffff"
  proof (cases "r = 32")
    case True
    then show ?thesis
      using assms that [of 32] by (simp add: gsm7LockingCode_def locking_table_ok go_byte_def)
  next
    case False
    then show ?thesis
      using assms that by (auto simp: gsm7LockingCode_def locking_table_ok dest!: firstIndex_Some)
  qed
  then show "unat c < 128" "gsm7LockingRune c lang = Some r"
    by (simp_all add: gsm7LockingRune_def locking_table_ok)
  show "c \<noteq> 27" if "r \<noteq> 27"
  proof
    assume "c = 27"
    then have "unat (go_byte i) = 27" using i(1) by simp
    then have "i = 27" using i(2) by simp
    then show False using i that locking_table_ok(2) [of lang] by auto
  qed
qed

lemma gsm7SingleShiftCode_D:
  assumes "gsm7SingleShiftCode r lang = Some c"
  shows "unat c < 128" "gsm7SingleShiftRune c lang = Some r"
  using assms
  by (auto simp: gsm7SingleShiftCode_def gsm7SingleShiftRune_def single_shift_table_ok dest!: firstIndex_Some)

end
