(* ===== verification/SMS_GSM7.thy ===== *)
theory SMS_GSM7
  imports SMS_Tables
begin

text \<open>
  The GSM 7-bit coding of \<^verbatim>\<open>runtimehost/messaging/sms_pdu.go\<close>: text to septets and back, with the national
  language tables, and the packing of septets into octets after some fill bits.
\<close>

section \<open>Text and septets\<close>

fun encodeGSM7Runes :: "rune list \<Rightarrow> int \<Rightarrow> int \<Rightarrow> bytes res" where
  "encodeGSM7Runes [] lockingLang singleLang = Inr []"
| "encodeGSM7Runes (r # rs) lockingLang singleLang =
     (case gsm7LockingCode r lockingLang of
        Some i \<Rightarrow> rbind (encodeGSM7Runes rs lockingLang singleLang) (\<lambda>out. Inr (i # out))
      | None \<Rightarrow>
          (case gsm7SingleShiftCode r singleLang of
             None \<Rightarrow> Inl (Fmt ''character is not in GSM 7-bit alphabet'')
           | Some ext \<Rightarrow> rbind (encodeGSM7Runes rs lockingLang singleLang) (\<lambda>out. Inr (0x1b # ext # out))))"

definition encodeGSM7WithLanguage :: "bytes \<Rightarrow> int \<Rightarrow> int \<Rightarrow> bytes res" where
  "encodeGSM7WithLanguage txt lockingLang singleLang = encodeGSM7Runes (runes txt) lockingLang singleLang"

definition encodeGSM7 :: "bytes \<Rightarrow> bytes res" where
  "encodeGSM7 txt = encodeGSM7WithLanguage txt 0 0"

fun gsm7SeptetLenRunes :: "rune list \<Rightarrow> int \<Rightarrow> int \<Rightarrow> nat option" where
  "gsm7SeptetLenRunes [] lockingLang singleLang = Some 0"
| "gsm7SeptetLenRunes (r # rs) lockingLang singleLang =
     (if gsm7LockingCode r lockingLang \<noteq> None
      then map_option (\<lambda>n. 1 + n) (gsm7SeptetLenRunes rs lockingLang singleLang)
      else if gsm7SingleShiftCode r singleLang \<noteq> None
      then map_option (\<lambda>n. 2 + n) (gsm7SeptetLenRunes rs lockingLang singleLang)
      else None)"

definition gsm7SeptetLenWithLanguage :: "bytes \<Rightarrow> int \<Rightarrow> int \<Rightarrow> nat option" where
  "gsm7SeptetLenWithLanguage txt lockingLang singleLang = gsm7SeptetLenRunes (runes txt) lockingLang singleLang"

definition gsm7SeptetLen :: "bytes \<Rightarrow> nat option" where
  "gsm7SeptetLen txt = gsm7SeptetLenWithLanguage txt 0 0"

definition isGSM7Text :: "bytes \<Rightarrow> bool" where
  "isGSM7Text txt \<longleftrightarrow> gsm7SeptetLen txt \<noteq> None"

definition gsm7CanEncodeLocking :: "rune \<Rightarrow> int \<Rightarrow> bool" where
  "gsm7CanEncodeLocking r lockingLang \<longleftrightarrow> gsm7LockingCode r lockingLang \<noteq> None"

text \<open>The loop of \<^verbatim>\<open>decodeGSM7WithLanguage\<close>; the runes are written as UTF-8.\<close>

definition plainSeptet :: "u8 \<Rightarrow> int \<Rightarrow> bytes" where
  "plainSeptet code lockingLang = (case gsm7LockingRune code lockingLang of Some r \<Rightarrow> EncodeRune r | None \<Rightarrow> [])"

function decodeGSM7WithLanguage :: "bytes \<Rightarrow> int \<Rightarrow> int \<Rightarrow> bytes" where
  "decodeGSM7WithLanguage [] lockingLang singleLang = []"
| "decodeGSM7WithLanguage (s # rest) lockingLang singleLang =
     (let code = s AND 0x7f in
      if code = 0x1b \<and> rest \<noteq> []
      then
        let shiftCode = hd rest AND 0x7f in
        case gsm7SingleShiftRune shiftCode singleLang of
          Some r \<Rightarrow> EncodeRune r @ decodeGSM7WithLanguage (tl rest) lockingLang singleLang
        | None \<Rightarrow>
            (case (if lockingLang \<noteq> 0 \<or> singleLang \<noteq> 0 then gsm7LockingRune shiftCode lockingLang else None) of
               Some r \<Rightarrow> EncodeRune r @ decodeGSM7WithLanguage (tl rest) lockingLang singleLang
             | None \<Rightarrow> plainSeptet code lockingLang @ decodeGSM7WithLanguage rest lockingLang singleLang)
      else plainSeptet code lockingLang @ decodeGSM7WithLanguage rest lockingLang singleLang)"
  by pat_completeness auto
termination
  by (relation "measure (\<lambda>(s, _, _). length s)") auto

definition decodeGSM7 :: "bytes \<Rightarrow> bytes" where
  "decodeGSM7 septets = decodeGSM7WithLanguage septets 0 0"

text \<open>The loop of \<^verbatim>\<open>decodeGSM7WithLanguage\<close> with the accesses of the code: an index out of range panics.\<close>

function decodeGSM7_loop :: "bytes \<Rightarrow> nat \<Rightarrow> int \<Rightarrow> int \<Rightarrow> bytes res" where
  "decodeGSM7_loop septets i lockingLang singleLang =
     (if i < length septets
      then
        rbind (idx i septets) (\<lambda>s.
        let code = s AND 0x7f in
        rbind (if code = 0x1b \<and> i + 1 < length septets
               then rbind (idx (i + 1) septets) (\<lambda>s1.
                 let shiftCode = s1 AND 0x7f in
                 Inr (case gsm7SingleShiftRune shiftCode singleLang of
                        Some r \<Rightarrow> Some r
                      | None \<Rightarrow> if lockingLang \<noteq> 0 \<or> singleLang \<noteq> 0 then gsm7LockingRune shiftCode lockingLang else None))
               else Inr None) (\<lambda>shifted.
        case shifted of
          Some r \<Rightarrow> rbind (decodeGSM7_loop septets (i + 2) lockingLang singleLang) (\<lambda>rest. Inr (EncodeRune r @ rest))
        | None \<Rightarrow> rbind (decodeGSM7_loop septets (i + 1) lockingLang singleLang) (\<lambda>rest. Inr (plainSeptet code lockingLang @ rest))))
      else Inr [])"
  by pat_completeness auto
termination
  by (relation "measure (\<lambda>(septets, i, _, _). length septets - i)") auto

declare decodeGSM7_loop.simps [simp del]

lemma decodeGSM7_loop_eq [simp]:
  "decodeGSM7_loop septets i lockingLang singleLang = Inr (decodeGSM7WithLanguage (drop i septets) lockingLang singleLang)"
proof (induction "length septets - i" arbitrary: i rule: less_induct)
  case less
  show ?case
  proof (cases "i < length septets")
    case True
    define rest where "rest = drop (Suc i) septets"
    have d: "drop i septets = septets ! i # rest" using True by (simp add: rest_def Cons_nth_drop_Suc)
    have rest: "rest \<noteq> [] \<longleftrightarrow> Suc i < length septets" "Suc i < length septets \<Longrightarrow> hd rest = septets ! Suc i"
      by (auto simp: rest_def hd_drop_conv_nth not_le)
    have "tl rest = drop (Suc (Suc i)) septets" unfolding rest_def by (metis drop_Suc tl_drop)
    then have IH: "decodeGSM7_loop septets (Suc i) lockingLang singleLang = Inr (decodeGSM7WithLanguage rest lockingLang singleLang)"
      "decodeGSM7_loop septets (Suc (Suc i)) lockingLang singleLang = Inr (decodeGSM7WithLanguage (tl rest) lockingLang singleLang)"
      using True by (auto simp: rest_def intro: less)
    show ?thesis
      using True rest by (cases "Suc i < length septets") (simp_all add: decodeGSM7_loop.simps [of septets i] d IH Let_def split: option.split)
  qed (simp add: decodeGSM7_loop.simps)
qed

section \<open>Packing\<close>

definition packSeptet :: "bytes \<Rightarrow> nat \<Rightarrow> u8 \<Rightarrow> bytes" where
  "packSeptet out bitPos septet =
     (let bytePos = bitPos div 8; shift = bitPos mod 8;
          out1 = out[bytePos := out ! bytePos OR push_bit shift (septet AND 0x7f)]
      in if shift > 1 \<and> bytePos + 1 < length out
         then out1[bytePos + 1 := out1 ! (bytePos + 1) OR drop_bit (8 - shift) (septet AND 0x7f)]
         else out1)"

fun packSeptets_loop :: "bytes \<Rightarrow> bytes \<Rightarrow> nat \<Rightarrow> bytes" where
  "packSeptets_loop out [] bitPos = out"
| "packSeptets_loop out (septet # rest) bitPos = packSeptets_loop (packSeptet out bitPos septet) rest (bitPos + 7)"

definition packSeptets :: "bytes \<Rightarrow> nat \<Rightarrow> bytes" where
  "packSeptets septets bitOffset =
     (if length septets = 0 then []
      else
        let totalBits = bitOffset + length septets * 7
        in packSeptets_loop (replicate ((totalBits + 7) div 8) 0) septets bitOffset)"

fun unpackSeptets :: "bytes \<Rightarrow> nat \<Rightarrow> nat \<Rightarrow> bytes" where
  "unpackSeptets dat 0 bitPos = []"
| "unpackSeptets dat (Suc septetCount) bitPos =
     (let bytePos = bitPos div 8; shift = bitPos mod 8 in
      if bytePos \<ge> length dat then []
      else
        let value0 = drop_bit shift (dat ! bytePos) AND 0x7f;
            value1 = (if shift > 1 \<and> bytePos + 1 < length dat
                      then value0 OR (push_bit (8 - shift) (dat ! (bytePos + 1)) AND 0x7f) else value0)
        in value1 # unpackSeptets dat septetCount (bitPos + 7))"

text \<open>The same loop with the accesses of the code.\<close>

fun unpackSeptets_checked :: "bytes \<Rightarrow> nat \<Rightarrow> nat \<Rightarrow> bytes res" where
  "unpackSeptets_checked dat 0 bitPos = Inr []"
| "unpackSeptets_checked dat (Suc septetCount) bitPos =
     (let bytePos = bitPos div 8; shift = bitPos mod 8 in
      if bytePos \<ge> length dat then Inr []
      else
        rbind (idx bytePos dat) (\<lambda>b0.
        let value0 = drop_bit shift b0 AND 0x7f in
        rbind (if shift > 1 \<and> bytePos + 1 < length dat
               then rbind (idx (bytePos + 1) dat) (\<lambda>b1. Inr (value0 OR (push_bit (8 - shift) b1 AND 0x7f)))
               else Inr value0) (\<lambda>value1.
        rbind (unpackSeptets_checked dat septetCount (bitPos + 7)) (\<lambda>rest. Inr (value1 # rest)))))"

lemma unpackSeptets_checked_eq [simp]: "unpackSeptets_checked dat n p = Inr (unpackSeptets dat n p)"
  by (induction n arbitrary: p) (auto simp: Let_def)

definition smsPackedSeptetOctets :: "nat \<Rightarrow> nat \<Rightarrow> nat" where
  "smsPackedSeptetOctets septets bitOffset = (if septets = 0 then 0 else (bitOffset + septets * 7 + 7) div 8)"

section \<open>Cutting text\<close>

text \<open>The loop of \<^verbatim>\<open>takeGSM7ChunkWithLanguage\<close> over the pieces of the text: how many pieces go into the chunk.\<close>

definition gsm7CharSeptets :: "rune \<Rightarrow> int \<Rightarrow> int \<Rightarrow> nat" where
  "gsm7CharSeptets r lockingLang singleLang =
     (if gsm7CanEncodeLocking r lockingLang then 1 else if gsm7SingleShiftCode r singleLang \<noteq> None then 2 else 1)"

fun chunkPieces :: "('a \<Rightarrow> nat) \<Rightarrow> nat \<Rightarrow> nat \<Rightarrow> 'a list \<Rightarrow> nat" where
  "chunkPieces cost limit used [] = 0"
| "chunkPieces cost limit used (p # ps) =
     (if used > 0 \<and> used + cost p > limit then 0
      else if used + cost p \<ge> limit then 1
      else 1 + chunkPieces cost limit (used + cost p) ps)"

text \<open>\<^verbatim>\<open>text[:end], text[end:]\<close> for the end of the last piece taken; the first piece is always taken.\<close>

definition cutPieces :: "(rune \<times> bytes \<Rightarrow> nat) \<Rightarrow> nat \<Rightarrow> bytes \<Rightarrow> bytes \<times> bytes" where
  "cutPieces cost limit txt =
     (if txt = [] \<or> limit = 0 then ([], txt)
      else
        let ps = pieces txt; k0 = chunkPieces cost limit 0 ps; k = (if k0 = 0 then 1 else k0)
        in (concat (map snd (take k ps)), concat (map snd (drop k ps))))"

definition takeGSM7ChunkWithLanguage :: "bytes \<Rightarrow> nat \<Rightarrow> int \<Rightarrow> int \<Rightarrow> bytes \<times> bytes" where
  "takeGSM7ChunkWithLanguage txt limit lockingLang singleLang =
     cutPieces (\<lambda>p. gsm7CharSeptets (fst p) lockingLang singleLang) limit txt"

definition takeUCS2Chunk :: "bytes \<Rightarrow> nat \<Rightarrow> bytes \<times> bytes" where
  "takeUCS2Chunk txt limit = cutPieces (\<lambda>p. if fst p > 0xffff then 2 else 1) limit txt"

section \<open>Septets carry the text\<close>

lemma mask_septet: "unat (c :: u8) < 128 \<Longrightarrow> c AND 0x7f = c"
proof -
  assume "unat c < 128"
  then have "unat (take_bit 7 c) = unat c"
    by (simp add: unsigned_take_bit_eq take_bit_nat_eq_self)
  then have "take_bit 7 c = c" by (simp only: unsigned_word_eqI)
  then show ?thesis by (simp add: take_bit_eq_mask mask_eq_exp_minus_1)
qed

lemma encodeGSM7Runes_septets: "encodeGSM7Runes rs ll sl = Inr out \<Longrightarrow> list_all (\<lambda>c. unat c < 128) out"
  by (induction rs arbitrary: out)
    (auto simp: rbind_eq_Inr_iff gsm7LockingCode_D(1) gsm7SingleShiftCode_D(1) split: option.splits)

lemma encodeGSM7Runes_length: "encodeGSM7Runes rs ll sl = Inr out \<Longrightarrow> gsm7SeptetLenRunes rs ll sl = Some (length out)"
  by (induction rs arbitrary: out) (auto simp: rbind_eq_Inr_iff split: option.splits)

lemma gsm7SeptetLenRunes_encodes: "gsm7SeptetLenRunes rs ll sl = Some n \<Longrightarrow> \<exists>out. encodeGSM7Runes rs ll sl = Inr out \<and> length out = n"
proof (induction rs arbitrary: n)
  case (Cons r rs)
  then show ?case by (cases "gsm7LockingCode r ll"; cases "gsm7SingleShiftCode r sl") fastforce+
qed simp

lemma decode_encode_runes:
  assumes "encodeGSM7Runes rs ll sl = Inr out" "27 \<notin> set rs"
  shows "decodeGSM7WithLanguage out ll sl = of_runes rs"
  using assms
proof (induction rs arbitrary: out)
  case (Cons r rs)
  show ?case
  proof (cases "gsm7LockingCode r ll")
    case None
    then obtain ext out' where o: "gsm7SingleShiftCode r sl = Some ext" "encodeGSM7Runes rs ll sl = Inr out'"
        "out = 0x1b # ext # out'"
      using Cons.prems by (auto simp: rbind_eq_Inr_iff split: option.splits)
    then show ?thesis
      using Cons gsm7SingleShiftCode_D [OF o(1)] by (simp add: mask_septet)
  next
    case (Some c)
    then obtain out' where o: "encodeGSM7Runes rs ll sl = Inr out'" "out = c # out'"
      using Cons.prems by (auto simp: rbind_eq_Inr_iff)
    then show ?thesis
      using Cons gsm7LockingCode_D [OF Some] by (simp add: mask_septet plainSeptet_def)
  qed
qed simp

lemma decodeGSM7_encodeGSM7:
  assumes "encodeGSM7WithLanguage txt ll sl = Inr out" "27 \<notin> set (runes txt)"
  shows "decodeGSM7WithLanguage out ll sl = of_runes (runes txt)"
  using decode_encode_runes assms unfolding encodeGSM7WithLanguage_def by blast

section \<open>Packing is undone by unpacking\<close>

text \<open>The octets as a stream of bits, the least significant bit of an octet first.\<close>

definition stream_bit :: "bytes \<Rightarrow> nat \<Rightarrow> bool" where
  "stream_bit d n \<longleftrightarrow> n div 8 < length d \<and> bit (d ! (n div 8)) (n mod 8)"

lemma bit_septet: "bit (v AND 0x7f :: u8) k \<longleftrightarrow> k < 7 \<and> bit v k"
proof -
  have "v AND 0x7f = take_bit 7 v" by (simp add: take_bit_eq_mask mask_eq_exp_minus_1)
  then show ?thesis by (simp add: bit_take_bit_iff)
qed

lemma length_packSeptet [simp]: "length (packSeptet out p v) = length out"
  by (simp add: packSeptet_def Let_def)

lemma nth_packSeptet:
  assumes "c < length out"
  shows "packSeptet out p v ! c =
    out ! c OR (if c = p div 8 then push_bit (p mod 8) (v AND 0x7f)
      else if c = p div 8 + 1 \<and> p mod 8 > 1 then drop_bit (8 - p mod 8) (v AND 0x7f) else 0)"
  using assms by (simp add: packSeptet_def Let_def nth_list_update)

lemma stream_bit_packSeptet:
  assumes "(p + 6) div 8 < length out"
  shows "stream_bit (packSeptet out p v) n \<longleftrightarrow> stream_bit out n \<or> (p \<le> n \<and> n < p + 7 \<and> bit v (n - p))"
proof -
  define b s c k where "b = p div 8" and "s = p mod 8" and "c = n div 8" and "k = n mod 8"
  have p: "p = b * 8 + s" "s < 8" and n: "n = c * 8 + k" "k < 8" by (simp_all add: b_def s_def c_def k_def)
  have b: "b < length out" using assms by (simp add: b_def)
  have fits: "s > 1 \<Longrightarrow> b + 1 < length out" using assms p by linarith
  have nth: "packSeptet out p v ! c = out ! c OR (if c = b then push_bit s (v AND 0x7f)
      else if c = b + 1 \<and> s > 1 then drop_bit (8 - s) (v AND 0x7f) else 0)" if "c < length out"
    using nth_packSeptet [OF that, of p v] by (simp only: b_def s_def)
  consider "c = b" | "c = b + 1" | "c < b \<or> c > b + 1" by linarith
  then show ?thesis
  proof cases
    case 1
    then have "p \<le> n \<longleftrightarrow> s \<le> k" "n - p = k - s" "n < p + 7 \<longleftrightarrow> k < s + 7" using p n by linarith+
    moreover have "s \<le> k \<Longrightarrow> k - s < 7 \<longleftrightarrow> k < s + 7" by linarith
    moreover have "bit (packSeptet out p v ! b) k \<longleftrightarrow> bit (out ! b) k \<or> s \<le> k \<and> k - s < 7 \<and> bit v (k - s)"
    proof -
      have "packSeptet out p v ! b = out ! b OR push_bit s (v AND 0x7f)" using nth 1 b by simp
      then show ?thesis using n(2) by (simp only: bit_or_iff bit_push_bit_iff bit_septet) simp
    qed
    ultimately show ?thesis
      using 1 b n(2) by (simp add: stream_bit_def c_def [symmetric] k_def [symmetric]) blast
  next
    case 2
    then have e: "p \<le> n" "n - p = 8 - s + k" "n < p + 7 \<longleftrightarrow> k + 1 < s" using p n by linarith+
    show ?thesis
    proof (cases "s > 1")
      case True
      then have "c < length out" "8 - s + k < 7 \<longleftrightarrow> k + 1 < s" using 2 fits p(2) by auto
      moreover have "bit (packSeptet out p v ! c) k \<longleftrightarrow> bit (out ! c) k \<or> 8 - s + k < 7 \<and> bit v (8 - s + k)"
      proof -
        have "packSeptet out p v ! c = out ! c OR drop_bit (8 - s) (v AND 0x7f)"
          using nth \<open>c < length out\<close> 2 True by simp
        then show ?thesis by (simp only: bit_or_iff bit_drop_bit_eq comp_def bit_septet)
      qed
      ultimately show ?thesis
        using e by (simp add: stream_bit_def c_def [symmetric] k_def [symmetric])
    next
      case False
      with nth 2 have "c < length out \<Longrightarrow> packSeptet out p v ! c = out ! c" by simp
      with False e show ?thesis
        by (auto simp: stream_bit_def c_def [symmetric] k_def [symmetric])
    qed
  next
    case 3
    then have "\<not> (p \<le> n \<and> n < p + 7)" using p n by linarith
    moreover from nth 3 have "c < length out \<Longrightarrow> packSeptet out p v ! c = out ! c" by auto
    ultimately show ?thesis
      by (auto simp: stream_bit_def c_def [symmetric] k_def [symmetric])
  qed
qed

lemma stream_bit_loop:
  assumes "(p + 7 * length ss + 7) div 8 \<le> length out"
  shows "stream_bit (packSeptets_loop out ss p) n \<longleftrightarrow>
    stream_bit out n \<or> (p \<le> n \<and> n < p + 7 * length ss \<and> bit (ss ! ((n - p) div 7)) ((n - p) mod 7))"
  using assms
proof (induction ss arbitrary: out p)
  case (Cons v ss)
  have "(p + 6) div 8 < length out" using Cons.prems by auto
  note step = stream_bit_packSeptet [OF this, of v n]
  have IH: "stream_bit (packSeptets_loop (packSeptet out p v) ss (p + 7)) n \<longleftrightarrow>
      stream_bit (packSeptet out p v) n \<or>
      (p + 7 \<le> n \<and> n < p + 7 + 7 * length ss \<and> bit (ss ! ((n - (p + 7)) div 7)) ((n - (p + 7)) mod 7))"
    using Cons.prems by (intro Cons.IH) simp
  consider "n < p" | "p \<le> n" "n < p + 7" | "p + 7 \<le> n" by linarith
  then show ?case
  proof cases
    case 1
    then show ?thesis by (simp add: IH step)
  next
    case 2
    then show ?thesis by (simp add: IH step)
  next
    case 3
    then obtain m where "n = p + 7 + m" using le_Suc_ex by blast
    then have "(n - p) div 7 = Suc ((n - (p + 7)) div 7)" "(n - p) mod 7 = (n - (p + 7)) mod 7" by simp_all
    with 3 show ?thesis by (simp add: IH step) linarith
  qed
qed auto

lemma length_packSeptets_loop [simp]: "length (packSeptets_loop out ss p) = length out"
  by (induction ss arbitrary: out p) simp_all

lemma length_packSeptets: "length (packSeptets ss off) = smsPackedSeptetOctets (length ss) off"
  by (simp add: packSeptets_def smsPackedSeptetOctets_def Let_def)

lemma stream_bit_packSeptets:
  "stream_bit (packSeptets ss off) n \<longleftrightarrow>
    off \<le> n \<and> n < off + 7 * length ss \<and> bit (ss ! ((n - off) div 7)) ((n - off) mod 7)"
proof (cases "ss = []")
  case False
  have "\<not> stream_bit (replicate m 0) n" for m by (simp add: stream_bit_def)
  with False show ?thesis
    by (simp add: packSeptets_def Let_def stream_bit_loop mult.commute)
qed (simp add: packSeptets_def stream_bit_def)

definition septet_at :: "bytes \<Rightarrow> nat \<Rightarrow> u8" where
  "septet_at d p = (drop_bit (p mod 8) (d ! (p div 8)) AND 0x7f) OR
     (if p mod 8 > 1 \<and> p div 8 + 1 < length d then push_bit (8 - p mod 8) (d ! (p div 8 + 1)) AND 0x7f else 0)"

lemma bit_septet_at:
  assumes "p div 8 < length d"
  shows "bit (septet_at d p) k \<longleftrightarrow> k < 7 \<and> stream_bit d (p + k)"
proof -
  define b s where "b = p div 8" and "s = p mod 8"
  have p: "p = b * 8 + s" "s < 8" by (simp_all add: b_def s_def)
  show ?thesis
  proof (cases "s + k < 8")
    case True
    then have "(p + k) div 8 = b" "(p + k) mod 8 = s + k" using p by (simp_all add: add.assoc mod_mult_self3)
    moreover have "s > 1 \<Longrightarrow> \<not> 8 - s \<le> k" using True by linarith
    ultimately show ?thesis
      using assms by (auto simp: septet_at_def stream_bit_def b_def [symmetric] s_def [symmetric] bit_or_iff bit_septet
        bit_drop_bit_eq bit_push_bit_iff)
  next
    case False
    have nb: "\<not> bit (d ! b) (s + k)" using False by (simp add: bit_imp_le_length leD impossible_bit)
    show ?thesis
    proof (cases "k < 7")
      case True
      have "p + k = (b + 1) * 8 + (s + k - 8)" "s + k - 8 < 8" "s > 1" "k - (8 - s) = s + k - 8" "8 - s \<le> k"
        using False True p by auto
      then have "(p + k) div 8 = b + 1" "(p + k) mod 8 = s + k - 8"
        by (simp_all only: div_mult_self3 mod_mult_self3 div_less mod_less)
      with \<open>s > 1\<close> \<open>k - (8 - s) = s + k - 8\<close> \<open>8 - s \<le> k\<close> True nb show ?thesis
        by (auto simp: septet_at_def stream_bit_def b_def [symmetric] s_def [symmetric] bit_or_iff bit_septet
          bit_drop_bit_eq bit_push_bit_iff)
    next
      case False
      then show ?thesis by (simp add: septet_at_def bit_or_iff bit_septet)
    qed
  qed
qed

lemma unpackSeptets_step:
  "p div 8 < length d \<Longrightarrow> unpackSeptets d (Suc n) p = septet_at d p # unpackSeptets d n (p + 7)"
  by (simp add: septet_at_def Let_def)

lemma unpack_pack_from:
  assumes "k + m = length ss" "0 < m \<Longrightarrow> ss \<noteq> []"
  shows "unpackSeptets (packSeptets ss off) m (off + 7 * k) = map (\<lambda>v. v AND 0x7f) (drop k ss)"
  using assms
proof (induction m arbitrary: k)
  case (Suc m)
  let ?d = "packSeptets ss off" and ?p = "off + 7 * k"
  have k: "k < length ss" using Suc.prems by simp
  then have "?p + 7 \<le> off + 7 * length ss" by simp
  then have lt: "?p div 8 < length ?d"
    using k by (auto simp: length_packSeptets smsPackedSeptetOctets_def)
  have "septet_at ?d ?p = ss ! k AND 0x7f"
  proof (rule bit_word_eqI)
    fix i
    have "(?p + i - off) div 7 = k" "(?p + i - off) mod 7 = i" if "i < 7" using that by simp_all
    then show "bit (septet_at ?d ?p) i = bit (ss ! k AND 0x7f) i"
      using k by (auto simp: bit_septet_at [OF lt] bit_septet stream_bit_packSeptets)
  qed
  moreover have "unpackSeptets ?d m (?p + 7) = map (\<lambda>v. v AND 0x7f) (drop (Suc k) ss)"
    using Suc.IH [of "Suc k"] Suc.prems by (simp add: algebra_simps)
  ultimately show ?case
    using k by (simp only: unpackSeptets_step [OF lt] Cons_nth_drop_Suc [symmetric] list.map)
qed simp

lemma unpackSeptets_packSeptets:
  "unpackSeptets (packSeptets ss off) (length ss) off = map (\<lambda>v. v AND 0x7f) ss"
  using unpack_pack_from [of 0 "length ss" ss off] by simp

text \<open>The text survives: what the encoder produces, packed after any fill, reads back as the same text.\<close>

lemma gsm7_text_roundtrip:
  assumes "encodeGSM7WithLanguage txt ll sl = Inr septets" "27 \<notin> set (runes txt)" "ValidUTF8 txt"
  shows "decodeGSM7WithLanguage (unpackSeptets (packSeptets septets off) (length septets) off) ll sl = txt"
proof -
  have "list_all (\<lambda>c. unat c < 128) septets"
    using assms(1) encodeGSM7Runes_septets unfolding encodeGSM7WithLanguage_def by blast
  then have "map (\<lambda>v. v AND 0x7f) septets = septets"
    by (intro map_idI) (simp add: list_all_iff mask_septet)
  then show ?thesis
    using decodeGSM7_encodeGSM7 [OF assms(1,2)] assms(3) by (simp add: unpackSeptets_packSeptets of_runes_runes)
qed

section \<open>Chunks\<close>

text \<open>The cost of a prefix that the loop takes.\<close>

lemma chunkPieces_le: "chunkPieces cost limit used ps \<le> length ps"
  by (induction ps arbitrary: used) auto

lemma chunkPieces_cost:
  assumes "\<And>p. cost p \<le> limit" "used \<le> limit"
  shows "used + sum_list (map cost (take (chunkPieces cost limit used ps) ps)) \<le> limit"
  using assms(2)
proof (induction ps arbitrary: used)
  case (Cons p ps)
  show ?case
  proof (cases "used + cost p \<ge> limit")
    case True
    then show ?thesis using Cons.prems assms(1) [of p] by (cases "used = 0") auto
  next
    case False
    then show ?thesis using Cons.IH [of "used + cost p"] by (simp add: add.assoc)
  qed
qed simp

lemma chunkPieces_pos: "ps \<noteq> [] \<Longrightarrow> chunkPieces cost limit 0 ps \<noteq> 0"
  by (cases ps) auto

lemma cutPieces_split:
  assumes "cutPieces cost limit txt = (chunk, rest)"
  shows "chunk @ rest = txt" "pieces chunk @ pieces rest = pieces txt"
    "txt \<noteq> [] \<Longrightarrow> 0 < limit \<Longrightarrow> chunk \<noteq> [] \<and> length rest < length txt"
    "(\<And>p. cost p \<le> limit) \<Longrightarrow> sum_list (map cost (pieces chunk)) \<le> limit"
proof -
  let ?ps = "pieces txt" and ?k = "chunkPieces cost limit 0 (pieces txt)"
  have "(chunk = [] \<and> rest = txt \<and> (txt = [] \<or> limit = 0)) \<or>
      (txt \<noteq> [] \<and> ?k \<noteq> 0 \<and> chunk = concat (map snd (take ?k ?ps)) \<and> rest = concat (map snd (drop ?k ?ps)))"
    using assms chunkPieces_pos [of ?ps cost limit] by (auto simp: cutPieces_def Let_def split: if_splits)
  then consider "chunk = []" "rest = txt" "txt = [] \<or> limit = 0"
    | "txt \<noteq> []" "?k \<noteq> 0" "chunk = concat (map snd (take ?k ?ps))" "rest = concat (map snd (drop ?k ?ps))"
    by blast
  then have "chunk @ rest = txt \<and> pieces chunk @ pieces rest = pieces txt \<and>
      (txt \<noteq> [] \<longrightarrow> 0 < limit \<longrightarrow> chunk \<noteq> [] \<and> length rest < length txt) \<and>
      ((\<forall>p. cost p \<le> limit) \<longrightarrow> sum_list (map cost (pieces chunk)) \<le> limit)"
  proof cases
    case 2
    have cat: "chunk @ rest = txt"
      unfolding 2(3,4) by (metis append_take_drop_id concat_append concat_pieces map_append)
    have pc: "pieces chunk = take ?k ?ps" "pieces rest = drop ?k ?ps"
      by (simp_all add: 2(3,4) pieces_take pieces_drop)
    then have "chunk \<noteq> []" using 2(1,2) by (metis pieces_Nil_iff take_eq_Nil)
    moreover have "length rest < length txt" using cat calculation by auto
    ultimately show ?thesis
      using cat pc chunkPieces_cost [of cost limit 0 ?ps] by auto
  qed auto
  then show "chunk @ rest = txt" "pieces chunk @ pieces rest = pieces txt"
    "txt \<noteq> [] \<Longrightarrow> 0 < limit \<Longrightarrow> chunk \<noteq> [] \<and> length rest < length txt"
    "(\<And>p. cost p \<le> limit) \<Longrightarrow> sum_list (map cost (pieces chunk)) \<le> limit"
    by blast+
qed

end
