(* ===== verification/SMS_Address.thy ===== *)
theory SMS_Address
  imports SMS_GSM7
begin

text \<open>
  Addresses and time stamps of \<^verbatim>\<open>runtimehost/messaging/sms_pdu.go\<close>: telephone numbers as semi-octets, the address
  of the relay layer, seven octets of service centre time, and the validity period of a submission.
\<close>

section \<open>Numbers\<close>

abbreviation (input) char_octet :: "char \<Rightarrow> u8" where
  "char_octet c \<equiv> of_char c"

text \<open>\<^verbatim>\<open>normalizeSMSNumber\<close>: the number inside a SIP or tel URI, without visual separators.\<close>

fun normalizeDigits :: "nat \<Rightarrow> (rune \<times> bytes) list \<Rightarrow> bytes option" where
  "normalizeDigits i [] = Some []"
| "normalizeDigits i ((r, b) # ps) =
     (if 48 \<le> r \<and> r \<le> 57 \<or> r = 43 \<and> i = 0
      then map_option (\<lambda>out. EncodeRune r @ out) (normalizeDigits (i + length b) ps)
      else if r = 32 \<or> r = 45 \<or> r = 40 \<or> r = 41 then normalizeDigits (i + length b) ps
      else None)"

definition stripSIPURI :: "bytes \<Rightarrow> bytes" where
  "stripSIPURI value =
     (if ToLower_HasPrefix value ''sip:'' \<or> ToLower_HasPrefix value ''sips:''
      then
        let value = (case Cut value 58 of Some (_, rest) \<Rightarrow> rest | None \<Rightarrow> value)
        in (case Cut value 64 of Some (user, _) \<Rightarrow> user | None \<Rightarrow> value)
      else value)"

definition normalizeSMSNumber :: "bytes \<Rightarrow> bytes" where
  "normalizeSMSNumber value =
     (let v1 = stripSIPURI (TrimSpace value);
          v2 = (if ToLower_HasPrefix v1 ''tel:'' then TrimSpace (drop 4 v1) else v1);
          v3 = takeWhile (\<lambda>b. b \<noteq> 59) v2;
          v4 = Trim v3 [60, 62]
      in case normalizeDigits 0 (pieces v4) of Some out \<Rightarrow> out | None \<Rightarrow> TrimSpace v4)"

definition smsAddressSemiOctet :: "rune \<Rightarrow> u8 option" where
  "smsAddressSemiOctet r =
     (if 48 \<le> r \<and> r \<le> 57 then Some (go_byte (r - 48))
      else if r = 42 then Some 0x0a
      else if r = 35 then Some 0x0b
      else if r = 97 \<or> r = 65 then Some 0x0c
      else if r = 98 \<or> r = 66 then Some 0x0d
      else if r = 99 \<or> r = 67 then Some 0x0e
      else None)"

definition smsAddressSemiOctetDigit :: "u8 \<Rightarrow> u8 option" where
  "smsAddressSemiOctetDigit nibble =
     (if nibble \<le> 9 then Some (48 + nibble)
      else if nibble = 0x0a then Some 42
      else if nibble = 0x0b then Some 35
      else if nibble = 0x0c then Some 97
      else if nibble = 0x0d then Some 98
      else if nibble = 0x0e then Some 99
      else None)"

text \<open>The loop that fills the semi-octets: two digits to an octet, the last half filled with ones.\<close>

fun packDigits :: "u8 list \<Rightarrow> bytes" where
  "packDigits [] = []"
| "packDigits [d] = [d OR 0xf0]"
| "packDigits (d # e # ds) = (d OR push_bit 4 e) # packDigits ds"

definition encodeSMSAddress :: "bytes \<Rightarrow> (nat \<times> u8 \<times> bytes) res" where
  "encodeSMSAddress number0 =
     (let number1 = normalizeSMSNumber number0 in
      if number1 = [] then Inl (Fmt ''sms address is empty'')
      else
        let hasPlus = HasPrefix number1 [43]; toa = (if hasPlus then 0x91 else 0x81);
            number = (if hasPlus then drop 1 number1 else number1) in
        if number = [] then Inl (Fmt ''sms address has no digits'')
        else if \<not> list_all (\<lambda>r. smsAddressSemiOctet r \<noteq> None) (runes number)
        then Inl (Fmt ''sms address contains unsupported digit'')
        else Inr (length number, toa,
          packDigits (map (\<lambda>b. case smsAddressSemiOctet (unat b) of Some d \<Rightarrow> d | None \<Rightarrow> 0) number)))"

definition smsAddressOctets :: "nat \<Rightarrow> u8 \<Rightarrow> nat" where
  "smsAddressOctets digits toa = (if toa AND 0x70 = 0x50 then (digits * 7 + 7) div 8 else (digits + 1) div 2)"

definition nibbles :: "bytes \<Rightarrow> u8 list" where
  "nibbles bcd = concat (map (\<lambda>item. [item AND 0x0f, drop_bit 4 item AND 0x0f]) bcd)"

fun decodeNibbles :: "u8 list \<Rightarrow> nat \<Rightarrow> nat \<Rightarrow> bytes \<Rightarrow> bytes res" where
  "decodeNibbles [] digits written b = (if written < digits then Inl (Fmt ''sms address truncated'') else Inr b)"
| "decodeNibbles (nibble # rest) digits written b =
     (if written \<ge> digits then Inr b
      else if nibble = 0x0f then Inr b
      else
        (case smsAddressSemiOctetDigit nibble of
           None \<Rightarrow> Inl (Fmt ''invalid BCD digit'')
         | Some digit \<Rightarrow> decodeNibbles rest digits (written + 1) (b @ [digit])))"

definition decodeSMSAddress :: "nat \<Rightarrow> u8 \<Rightarrow> bytes \<Rightarrow> bytes res" where
  "decodeSMSAddress digits toa bcd =
     (if toa AND 0x70 = 0x50 then rbind (unpackSeptets_checked bcd digits 0) (\<lambda>septets. decodeGSM7_loop septets 0 0 0)
      else decodeNibbles (nibbles bcd) digits 0 (if toa AND 0x70 = 0x10 then [43] else []))"

definition encodeRPAddress :: "bytes \<Rightarrow> bytes res" where
  "encodeRPAddress number0 =
     (let number = normalizeSMSNumber number0 in
      if number = [] then Inr [0x00]
      else
        rbind (encodeSMSAddress number) (\<lambda>(_, toa, bcd).
          if length bcd > 254 then Inl (Fmt ''SMS RP address too long'')
          else Inr ([go_byte (1 + length bcd), toa] @ bcd)))"

definition decodeRPAddressValue :: "bytes \<Rightarrow> bytes res" where
  "decodeRPAddressValue value =
     (if length value = 0 then Inr []
      else
        rbind (idx 0 value) (\<lambda>toa.
        rbind (sub 1 (length value) value) (\<lambda>bcd. decodeSMSAddress ((length value - 1) * 2) toa bcd)))"

section \<open>Time stamps\<close>

text \<open>
  A \<^verbatim>\<open>time.Time\<close> as its calendar fields in its own zone and the offset of the zone in seconds.  \<open>time_Date\<close> is
  \<^verbatim>\<open>time.Date\<close> for a month from 1 to 12, a day from 1 to 31 and a time of day in range: a day past the end of the
  month runs into the next month.
\<close>

record Time =
  t_Year :: int
  t_Month :: int
  t_Day :: int
  t_Hour :: int
  t_Minute :: int
  t_Second :: int
  t_Nanosecond :: int
  t_Offset :: int

definition leap_year :: "int \<Rightarrow> bool" where
  "leap_year y \<longleftrightarrow> y mod 4 = 0 \<and> (y mod 100 \<noteq> 0 \<or> y mod 400 = 0)"

definition days_in_month :: "int \<Rightarrow> int \<Rightarrow> int" where
  "days_in_month y m = (if m = 2 then (if leap_year y then 29 else 28) else if m \<in> {4, 6, 9, 11} then 30 else 31)"

definition time_Date :: "int \<Rightarrow> int \<Rightarrow> int \<Rightarrow> int \<Rightarrow> int \<Rightarrow> int \<Rightarrow> int \<Rightarrow> Time" where
  "time_Date year month day hour minute sec offset =
     (let over = day > days_in_month year month in
      \<lparr>t_Year = year, t_Month = (if over then month + 1 else month),
       t_Day = (if over then day - days_in_month year month else day), t_Hour = hour, t_Minute = minute,
       t_Second = sec, t_Nanosecond = 0, t_Offset = offset\<rparr>)"

text \<open>\<^verbatim>\<open>Time_IsZero\<close>: the instant is midnight of January 1 of the year 1, UTC.\<close>

definition days_before :: "int \<Rightarrow> int \<Rightarrow> int \<Rightarrow> int" where
  "days_before y m d =
     365 * (y - 1) + (y - 1) div 4 - (y - 1) div 100 + (y - 1) div 400 +
     sum_list (map (days_in_month y) [1..m - 1]) + (d - 1)"

definition Time_IsZero :: "Time \<Rightarrow> bool" where
  "Time_IsZero t \<longleftrightarrow> t_Nanosecond t = 0 \<and>
     ((days_before (t_Year t) (t_Month t) (t_Day t) * 24 + t_Hour t) * 60 + t_Minute t) * 60 + t_Second t - t_Offset t = 0"

definition ZeroTime :: Time where
  "ZeroTime = \<lparr>t_Year = 1, t_Month = 1, t_Day = 1, t_Hour = 0, t_Minute = 0, t_Second = 0, t_Nanosecond = 0, t_Offset = 0\<rparr>"

definition encodeSemiOctetDecimal :: "int \<Rightarrow> u8" where
  "encodeSemiOctetDecimal value =
     (if value < 0 then 0 else word_of_int (push_bit 4 (value mod 10) OR (value div 10) mod 10))"

definition decodeSemiOctetDecimal :: "u8 \<Rightarrow> int" where
  "decodeSemiOctetDecimal value =
     (let lo = uint (value AND 0x0f); hi = uint (drop_bit 4 value AND 0x0f)
      in if lo > 9 \<or> hi > 9 then - 1 else lo * 10 + hi)"

definition decodeSMSTimestamp :: "bytes \<Rightarrow> Time res" where
  "decodeSMSTimestamp raw =
     (if length raw \<noteq> 7 then Inl (Fmt ''SMS timestamp must be 7 octets'')
      else
        rbind (idx 0 raw) (\<lambda>b0. rbind (idx 1 raw) (\<lambda>b1. rbind (idx 2 raw) (\<lambda>b2. rbind (idx 3 raw) (\<lambda>b3.
        rbind (idx 4 raw) (\<lambda>b4. rbind (idx 5 raw) (\<lambda>b5. rbind (idx 6 raw) (\<lambda>b6.
          let year = decodeSemiOctetDecimal b0; month = decodeSemiOctetDecimal b1; day = decodeSemiOctetDecimal b2;
              hour = decodeSemiOctetDecimal b3; minute = decodeSemiOctetDecimal b4; sec = decodeSemiOctetDecimal b5;
              negative = (b6 AND 0x08 \<noteq> 0); tzQuarterHours = decodeSemiOctetDecimal (b6 AND NOT 0x08) in
          if year < 0 \<or> month \<le> 0 \<or> month > 12 \<or> day \<le> 0 \<or> day > 31 \<or> hour < 0 \<or> hour > 23 \<or> minute < 0 \<or>
             minute > 59 \<or> sec < 0 \<or> sec > 59 \<or> tzQuarterHours < 0
          then Inl (Fmt ''SMS timestamp contains invalid BCD'')
          else
            let fullYear = (if year \<ge> 90 then 1900 + year else 2000 + year); off = tzQuarterHours * 15 * 60
            in Inr (time_Date fullYear month day hour minute sec (if negative then - off else off))))))))))"

definition encodeSMSTimestamp :: "Time \<Rightarrow> bytes res" where
  "encodeSMSTimestamp ts =
     (if Time_IsZero ts then Inl (Fmt ''SMS timestamp is zero'')
      else if t_Year ts < 1990 \<or> t_Year ts > 2089 then Inl (Fmt ''SMS timestamp year is outside encodable range'')
      else if t_Offset ts mod 900 \<noteq> 0 then Inl (Fmt ''SMS timestamp timezone offset is not a 15-minute multiple'')
      else
        let q = t_Offset ts div 900; negative = q < 0; tzQuarterHours = (if negative then - q else q) in
        if tzQuarterHours > 79 then Inl (Fmt ''SMS timestamp timezone quarter-hours out of range'')
        else
          let tz = encodeSemiOctetDecimal tzQuarterHours in
          Inr [encodeSemiOctetDecimal (t_Year ts mod 100), encodeSemiOctetDecimal (t_Month ts),
            encodeSemiOctetDecimal (t_Day ts), encodeSemiOctetDecimal (t_Hour ts), encodeSemiOctetDecimal (t_Minute ts),
            encodeSemiOctetDecimal (t_Second ts), if negative then tz OR 0x08 else tz])"

section \<open>Validity\<close>

text \<open>Durations in nanoseconds.\<close>

abbreviation (input) time_Minute :: int where "time_Minute \<equiv> 60000000000"
abbreviation (input) time_Hour :: int where "time_Hour \<equiv> 3600000000000"
abbreviation (input) oneDay :: int where "oneDay \<equiv> 24 * time_Hour"
abbreviation (input) oneWeek :: int where "oneWeek \<equiv> 7 * oneDay"

definition ceilDuration :: "int \<Rightarrow> int \<Rightarrow> int" where
  "ceilDuration value unit = (if value \<le> 0 then 0 else (value + unit - 1) div unit)"

definition encodeSMSRelativeValidityPeriod :: "int \<Rightarrow> u8 option res" where
  "encodeSMSRelativeValidityPeriod validity =
     (if validity = 0 then Inr None
      else if validity < 0 then Inl (Fmt ''sms validity period is negative'')
      else if validity > 63 * oneWeek then Inl (Fmt ''sms validity period exceeds maximum'')
      else if validity \<le> 12 * time_Hour then Inr (Some (word_of_int (ceilDuration validity (5 * time_Minute) - 1)))
      else if validity \<le> oneDay
      then let steps = ceilDuration (validity - 12 * time_Hour) (30 * time_Minute)
           in Inr (Some (word_of_int (143 + (if steps < 1 then 1 else steps))))
      else if validity \<le> 30 * oneDay
      then let days = ceilDuration validity oneDay in Inr (Some (word_of_int (166 + (if days < 2 then 2 else days))))
      else let weeks = ceilDuration validity oneWeek
           in Inr (Some (word_of_int (192 + (if weeks < 5 then 5 else weeks)))))"

definition encodeSMSSubmitValidityPeriod :: "int \<Rightarrow> Time \<Rightarrow> (u8 \<times> bytes) res" where
  "encodeSMSSubmitValidityPeriod relative absolute =
     (if relative \<noteq> 0 \<and> \<not> Time_IsZero absolute
      then Inl (Fmt ''sms validity period and deadline are mutually exclusive'')
      else if \<not> Time_IsZero absolute then rbind (encodeSMSTimestamp absolute) (\<lambda>encoded. Inr (0x18, encoded))
      else
        rbind (encodeSMSRelativeValidityPeriod relative) (\<lambda>vp.
          case vp of None \<Rightarrow> Inr (0, []) | Some v \<Rightarrow> Inr (0x10, [v])))"

section \<open>Time stamps read back\<close>

lemma semi_octets: "list_all (\<lambda>v. decodeSemiOctetDecimal (encodeSemiOctetDecimal v) = v) [0..99]"
  by code_simp

lemma zone_octets:
  "list_all (\<lambda>v. decodeSemiOctetDecimal (encodeSemiOctetDecimal v AND NOT 0x08) = v \<and> encodeSemiOctetDecimal v AND 0x08 = 0 \<and>
     decodeSemiOctetDecimal ((encodeSemiOctetDecimal v OR 0x08) AND NOT 0x08) = v \<and>
     (encodeSemiOctetDecimal v OR 0x08) AND 0x08 \<noteq> 0) [0..79]"
  by code_simp

lemma decode_semi_octet: "0 \<le> v \<Longrightarrow> v \<le> 99 \<Longrightarrow> decodeSemiOctetDecimal (encodeSemiOctetDecimal v) = v"
  using semi_octets by (auto simp: list_all_iff)

definition calendar :: "Time \<Rightarrow> bool" where
  "calendar t \<longleftrightarrow> 1 \<le> t_Month t \<and> t_Month t \<le> 12 \<and> 1 \<le> t_Day t \<and> t_Day t \<le> days_in_month (t_Year t) (t_Month t) \<and>
     0 \<le> t_Hour t \<and> t_Hour t \<le> 23 \<and> 0 \<le> t_Minute t \<and> t_Minute t \<le> 59 \<and> 0 \<le> t_Second t \<and> t_Second t \<le> 59"

lemma days_in_month_le: "days_in_month y m \<le> 31"
  by (simp add: days_in_month_def)

lemma decodeSMSTimestamp_octets:
  "decodeSMSTimestamp [b0, b1, b2, b3, b4, b5, b6] =
     (let year = decodeSemiOctetDecimal b0; month = decodeSemiOctetDecimal b1; day = decodeSemiOctetDecimal b2;
              hour = decodeSemiOctetDecimal b3; minute = decodeSemiOctetDecimal b4; sec = decodeSemiOctetDecimal b5;
              negative = (b6 AND 0x08 \<noteq> 0); tzQuarterHours = decodeSemiOctetDecimal (b6 AND NOT 0x08) in
          if year < 0 \<or> month \<le> 0 \<or> month > 12 \<or> day \<le> 0 \<or> day > 31 \<or> hour < 0 \<or> hour > 23 \<or> minute < 0 \<or>
             minute > 59 \<or> sec < 0 \<or> sec > 59 \<or> tzQuarterHours < 0
          then Inl (Fmt ''SMS timestamp contains invalid BCD'')
          else
            let fullYear = (if year \<ge> 90 then 1900 + year else 2000 + year); off = tzQuarterHours * 15 * 60
            in Inr (time_Date fullYear month day hour minute sec (if negative then - off else off)))"
  by (simp add: decodeSMSTimestamp_def Let_def)

lemma timestamp_roundtrip:
  assumes "encodeSMSTimestamp t = Inr raw" "calendar t"
  shows "decodeSMSTimestamp raw = Inr (t\<lparr>t_Nanosecond := 0\<rparr>)" "length raw = 7"
proof -
  let ?q = "t_Offset t div 900" and ?tz = "\<lambda>v. encodeSemiOctetDecimal v"
  define y where "y = t_Year t mod 100"
  define v where "v = (if ?q < 0 then - ?q else ?q)"
  define z where "z = (if ?q < 0 then ?tz v OR 0x08 else ?tz v)"
  have ok: "1990 \<le> t_Year t" "t_Year t \<le> 2089" "t_Offset t mod 900 = 0" "v \<le> 79"
    and raw: "raw = [?tz y, ?tz (t_Month t), ?tz (t_Day t), ?tz (t_Hour t), ?tz (t_Minute t), ?tz (t_Second t), z]"
    using assms(1) by (auto simp: encodeSMSTimestamp_def Let_def v_def z_def y_def split: if_splits)
  have v0: "0 \<le> v" by (simp add: v_def)
  have off: "t_Offset t = ?q * 900" using ok(3) by (metis mod_0_imp_dvd dvd_div_mult_self)
  have z: "decodeSemiOctetDecimal (z AND NOT 0x08) = v" "z AND 0x08 \<noteq> 0 \<longleftrightarrow> ?q < 0"
    using zone_octets v0 ok(4) unfolding list_all_iff z_def by auto
  have zone: "(if ?q < 0 then - (v * 15 * 60) else v * 15 * 60) = t_Offset t"
    using off by (auto simp: v_def)
  have year: "(if y \<ge> 90 then 1900 + y else 2000 + y) = t_Year t"
    using ok(1,2) unfolding y_def by (cases "t_Year t < 2000") presburger+
  have y: "0 \<le> y" "y \<le> 99" unfolding y_def by (simp_all add: less_Suc_eq_le zle_diff1_eq [symmetric])
  have range: "1 \<le> t_Month t" "t_Month t \<le> 12" "1 \<le> t_Day t" "t_Day t \<le> 31" "0 \<le> t_Hour t" "t_Hour t \<le> 23"
      "0 \<le> t_Minute t" "t_Minute t \<le> 59" "0 \<le> t_Second t" "t_Second t \<le> 59"
    using assms(2) days_in_month_le [of "t_Year t" "t_Month t"] by (simp_all add: calendar_def)
  have "decodeSMSTimestamp raw = Inr (time_Date (if y \<ge> 90 then 1900 + y else 2000 + y) (t_Month t) (t_Day t) (t_Hour t)
      (t_Minute t) (t_Second t) (if ?q < 0 then - (v * 15 * 60) else v * 15 * 60))"
    unfolding raw decodeSMSTimestamp_octets Let_def z
    using y range v0 by (simp add: decode_semi_octet)
  then show "decodeSMSTimestamp raw = Inr (t\<lparr>t_Nanosecond := 0\<rparr>)"
    unfolding year zone using assms(2) by (simp add: time_Date_def calendar_def)
  show "length raw = 7" by (simp add: raw)
qed

section \<open>The validity octet\<close>

text \<open>The period a validity octet stands for, as 3GPP TS 23.040 section 9.2.3.12.1 has it.\<close>

definition vp_period :: "u8 \<Rightarrow> int" where
  "vp_period b =
     (let v = uint b in
      if v \<le> 143 then (v + 1) * (5 * time_Minute)
      else if v \<le> 167 then 12 * time_Hour + (v - 143) * (30 * time_Minute)
      else if v \<le> 196 then (v - 166) * oneDay
      else (v - 192) * oneWeek)"

lemma ceilDuration_bounds:
  assumes "0 < x" "0 < u"
  shows "x \<le> ceilDuration x u * u" "(ceilDuration x u - 1) * u < x"
proof -
  define q where "q = (x + u - 1) div u"
  have "q * u + (x + u - 1) mod u = x + u - 1" unfolding q_def by (rule div_mult_mod_eq)
  moreover have "0 \<le> (x + u - 1) mod u" "(x + u - 1) mod u < u" using assms by simp_all
  moreover have c: "ceilDuration x u = q" using assms by (simp add: ceilDuration_def q_def)
  moreover have "(q - 1) * u = q * u - u" by (simp add: left_diff_distrib)
  ultimately show "x \<le> ceilDuration x u * u" "(ceilDuration x u - 1) * u < x"
    unfolding c by linarith+
qed

lemma vp_branches:
  assumes "encodeSMSRelativeValidityPeriod v = Inr (Some b)"
  obtains c where "0 < v" "v \<le> 12 * time_Hour" "uint b = c - 1" "1 \<le> c" "c \<le> 144"
      "v \<le> c * (5 * time_Minute)" "(c - 1) * (5 * time_Minute) < v"
  | c where "12 * time_Hour < v" "v \<le> oneDay" "uint b = 143 + c" "1 \<le> c" "c \<le> 24"
      "v - 12 * time_Hour \<le> c * (30 * time_Minute)" "(c - 1) * (30 * time_Minute) < v - 12 * time_Hour"
  | c where "oneDay < v" "v \<le> 30 * oneDay" "uint b = 166 + c" "2 \<le> c" "c \<le> 30" "v \<le> c * oneDay" "(c - 1) * oneDay < v"
  | c where "30 * oneDay < v" "v \<le> 63 * oneWeek" "uint b = 192 + c" "5 \<le> c" "c \<le> 63" "v \<le> c * oneWeek" "(c - 1) * oneWeek < v"
proof -
  have v: "0 < v" "v \<le> 63 * oneWeek"
    using assms by (auto simp: encodeSMSRelativeValidityPeriod_def split: if_splits)
  have b: "uint b = i" if "b = word_of_int i" "0 \<le> i" "i < 256" for i
    using that by (simp add: uint_word_of_int_eq take_bit_int_eq_self)
  consider "v \<le> 12 * time_Hour" | "12 * time_Hour < v" "v \<le> oneDay" | "oneDay < v" "v \<le> 30 * oneDay" | "30 * oneDay < v"
    by linarith
  then show thesis
  proof cases
    case 1
    let ?c = "ceilDuration v (5 * time_Minute)"
    note c = ceilDuration_bounds [OF v(1), of "5 * time_Minute", simplified]
    have "1 \<le> ?c" "?c \<le> 144" using c 1 v by simp_all
    moreover have "b = word_of_int (?c - 1)" using assms 1 v by (simp add: encodeSMSRelativeValidityPeriod_def)
    then have "uint b = ?c - 1" using b [of "?c - 1"] calculation by simp
    ultimately show thesis using that(1) [of ?c] c 1 v by simp
  next
    case 2
    let ?c = "ceilDuration (v - 12 * time_Hour) (30 * time_Minute)"
    have "0 < v - 12 * time_Hour" using 2 by simp
    note c = ceilDuration_bounds [OF this, of "30 * time_Minute", simplified]
    have "1 \<le> ?c" "?c \<le> 24" using c 2 by simp_all
    moreover have "b = word_of_int (143 + ?c)" using assms 2 v calculation by (simp add: encodeSMSRelativeValidityPeriod_def Let_def)
    then have "uint b = 143 + ?c" using b [of "143 + ?c"] calculation by simp
    ultimately show thesis using that(2) [of ?c] c 2 by simp
  next
    case 3
    let ?c = "ceilDuration v oneDay"
    note c = ceilDuration_bounds [OF v(1), of oneDay, simplified]
    have "2 \<le> ?c" "?c \<le> 30" using c 3 by simp_all
    moreover have "b = word_of_int (166 + ?c)" using assms 3 v calculation by (simp add: encodeSMSRelativeValidityPeriod_def Let_def)
    then have "uint b = 166 + ?c" using b [of "166 + ?c"] calculation by simp
    ultimately show thesis using that(3) [of ?c] c 3 by simp
  next
    case 4
    let ?c = "ceilDuration v oneWeek"
    note c = ceilDuration_bounds [OF v(1), of oneWeek, simplified]
    have "5 \<le> ?c" "?c \<le> 63" using c 4 v by simp_all
    moreover have "b = word_of_int (192 + ?c)" using assms 4 v calculation by (simp add: encodeSMSRelativeValidityPeriod_def Let_def)
    then have "uint b = 192 + ?c" using b [of "192 + ?c"] calculation by simp
    ultimately show thesis using that(4) [of ?c] c 4 v by simp
  qed
qed

text \<open>C35: \<^verbatim>\<open>encodeSMSRelativeValidityPeriod\<close> rounds a validity period up as little as the octet allows: the
  period the octet stands for in 3GPP TS 23.040 is at least the one that was asked for, and no smaller octet stands
  for one that is.\<close>

theorem validity_octet_smallest:
  assumes "encodeSMSRelativeValidityPeriod v = Inr (Some b)"
  shows "v \<le> vp_period b \<and> (v \<le> vp_period b' \<longrightarrow> b \<le> b')"
proof -
  have "v \<le> vp_period b" using assms
    by (rule vp_branches) (simp_all add: vp_period_def)
  moreover have "vp_period b' < v" if "uint b' < uint b"
    using assms
  proof (rule vp_branches)
    fix c assume "12 * time_Hour < v" "v \<le> oneDay" "uint b = 143 + c" "1 \<le> c" "c \<le> 24"
      "v - 12 * time_Hour \<le> c * (30 * time_Minute)" "(c - 1) * (30 * time_Minute) < v - 12 * time_Hour"
    with that show ?thesis by (auto simp: vp_period_def Let_def)
  next
    fix c assume "oneDay < v" "v \<le> 30 * oneDay" "uint b = 166 + c" "2 \<le> c" "c \<le> 30" "v \<le> c * oneDay" "(c - 1) * oneDay < v"
    with that show ?thesis by (auto simp: vp_period_def Let_def)
  next
    fix c assume "30 * oneDay < v" "v \<le> 63 * oneWeek" "uint b = 192 + c" "5 \<le> c" "c \<le> 63" "v \<le> c * oneWeek" "(c - 1) * oneWeek < v"
    with that show ?thesis by (auto simp: vp_period_def Let_def)
  qed (use that in \<open>auto simp: vp_period_def Let_def\<close>)
  ultimately show ?thesis by (auto simp: word_le_def not_le [symmetric])
qed

theorem validity_octet_smallest_witness:
  "encodeSMSRelativeValidityPeriod (13 * time_Hour) = Inr (Some 145) \<and> 13 * time_Hour \<le> vp_period 145"
proof -
  have e: "encodeSMSRelativeValidityPeriod (13 * time_Hour) = Inr (Some 145)"
    by (simp add: encodeSMSRelativeValidityPeriod_def ceilDuration_def)
  from validity_octet_smallest [OF this, of 145] show ?thesis by (simp only: e)
qed

section \<open>Addresses read back\<close>

text \<open>Characters that a number can have, and how they are written when they are read back.\<close>

definition telOctet :: "u8 \<Rightarrow> bool" where
  "telOctet b \<longleftrightarrow> smsAddressSemiOctet (unat b) \<noteq> None"

definition telDigit :: "u8 \<Rightarrow> u8" where
  "telDigit b = (if b \<in> {65, 66, 67} then b + 32 else b)"

definition dialable :: "bytes \<Rightarrow> bool" where
  "dialable n \<longleftrightarrow> (let m = (if HasPrefix n [43] then drop 1 n else n) in m \<noteq> [] \<and> list_all telOctet m)"

lemma tel_octets: "list_all (\<lambda>b. telOctet b \<longrightarrow> (\<exists>d \<in> set [0..14]. smsAddressSemiOctet (unat b) = Some (word_of_int d) \<and>
    smsAddressSemiOctetDigit (word_of_int d) = Some (telDigit b) \<and> unat (word_of_int d :: u8) < 15)) (map word_of_int [0..255])"
  by code_simp

lemma telOctet_digit:
  assumes "telOctet b"
  obtains d where "smsAddressSemiOctet (unat b) = Some d" "smsAddressSemiOctetDigit d = Some (telDigit b)" "unat d < 15"
proof -
  have "b = word_of_int (uint b)" "uint b \<in> set [0..255]"
    using uint_bounded [of b] by simp_all
  then have "b \<in> set (map word_of_int [0..255])" by (metis image_eqI set_map)
  with tel_octets assms that show thesis
    unfolding list_all_iff by blast
qed

lemma nibble_split:
  assumes "unat d < 16" "unat e < 16"
  shows "(d OR push_bit 4 e :: u8) AND 0x0f = d" "drop_bit 4 (d OR push_bit 4 e) AND 0x0f = e"
proof -
  have b: "bit d n \<Longrightarrow> n < 4" "bit e n \<Longrightarrow> n < 4" for n
  proof -
    have "unat (take_bit 4 d) = unat d" "unat (take_bit 4 e) = unat e"
      using assms by (simp_all add: unsigned_take_bit_eq take_bit_nat_eq_self)
    then have "take_bit 4 d = d" "take_bit 4 e = e" by (simp_all only: unsigned_word_eqI)
    then show "bit d n \<Longrightarrow> n < 4" "bit e n \<Longrightarrow> n < 4" by (metis bit_take_bit_iff)+
  qed
  have m: "(0x0f :: u8) = mask 4" by (simp add: mask_eq_exp_minus_1)
  show "(d OR push_bit 4 e :: u8) AND 0x0f = d" "drop_bit 4 (d OR push_bit 4 e) AND 0x0f = e"
    unfolding m
    by (rule bit_word_eqI, auto simp: bit_and_iff bit_or_iff bit_push_bit_iff bit_mask_iff bit_drop_bit_eq not_less dest: b)+
qed

lemma nibbles_packDigits:
  "list_all (\<lambda>d. unat d < 15) ds \<Longrightarrow>
    nibbles (packDigits ds) = ds @ (if even (length ds) then [] else [0x0f])"
proof (induction ds rule: packDigits.induct)
  case (2 d)
  have "d OR 0xf0 = d OR push_bit 4 0x0f" by simp
  then show ?case
    using nibble_split [of d "0x0f"] 2 by (simp add: nibbles_def)
next
  case (3 d e ds)
  then show ?case
    using nibble_split [of d e] by (simp add: nibbles_def)
qed (simp add: nibbles_def)

lemma length_packDigits [simp]: "length (packDigits ds) = (length ds + 1) div 2"
  by (induction ds rule: packDigits.induct) simp_all

lemma decodeNibbles_digits:
  assumes "list_all2 (\<lambda>d c. unat d < 15 \<and> smsAddressSemiOctetDigit d = Some c) ds cs" "rest = [] \<or> hd rest = 0x0f"
    "written + length ds \<le> digits" "rest = [] \<Longrightarrow> written + length ds = digits"
  shows "decodeNibbles (ds @ rest) digits written acc = Inr (acc @ cs)"
  using assms
proof (induction arbitrary: written acc rule: list_all2_induct)
  case Nil
  then show ?case by (cases rest) auto
next
  case (Cons d ds c cs)
  then have "d \<noteq> 0x0f" by auto
  with Cons show ?case by simp
qed

lemma address_digits:
  assumes "list_all telOctet m"
  shows "list_all2 (\<lambda>d c. unat d < 15 \<and> smsAddressSemiOctetDigit d = Some c)
    (map (\<lambda>b. case smsAddressSemiOctet (unat b) of Some d \<Rightarrow> d | None \<Rightarrow> 0) m) (map telDigit m)"
  using assms by (induction m) (auto elim!: telOctet_digit)

text \<open>Octets below 128 are runes of their own.\<close>

lemma DecodeRune_ascii:
  "s \<noteq> [] \<Longrightarrow> fst (DecodeRune s) < 128 \<Longrightarrow> snd (DecodeRune s) = 1 \<and> unat (hd s) = fst (DecodeRune s)"
  by (cases s) (auto simp: DecodeRune_def Let_def octet_in_def split: list.splits if_splits)

lemma DecodeRune_ascii_octet: "s \<noteq> [] \<Longrightarrow> unat (hd s) < 128 \<Longrightarrow> DecodeRune s = (unat (hd s), 1)"
  by (cases s) (auto simp: DecodeRune_def Let_def)

lemma ascii_runes: "list_all (\<lambda>r. r < 128) (runes s) \<Longrightarrow> runes s = map unat s"
proof (induction s rule: pieces.induct)
  case (1 s)
  show ?case
  proof (cases "s = []")
    case False
    have r: "runes s = fst (DecodeRune s) # runes (drop (snd (DecodeRune s)) s)"
      using pieces_step [OF False] by (simp add: runes_def)
    with 1 False DecodeRune_ascii [OF False] show ?thesis
      by (cases s) auto
  qed simp
qed

lemma ascii_pieces: "list_all (\<lambda>b. unat b < 128) s \<Longrightarrow> pieces s = map (\<lambda>b. (unat b, [b])) s"
proof (induction s)
  case (Cons b s)
  then show ?case
    using DecodeRune_ascii_octet [of "b # s"] by (subst pieces_step) simp_all
qed simp

lemma semi_octet_ascii: "smsAddressSemiOctet r \<noteq> None \<Longrightarrow> r < 128"
  by (auto simp: smsAddressSemiOctet_def split: if_splits)

lemma encodeSMSAddress_Inr:
  assumes "encodeSMSAddress x = Inr (digits, toa, bcd)"
  obtains m where "list_all telOctet m" "m \<noteq> []" "digits = length m"
    "bcd = packDigits (map (\<lambda>b. case smsAddressSemiOctet (unat b) of Some d \<Rightarrow> d | None \<Rightarrow> 0) m)"
    "normalizeSMSNumber x = m \<and> toa = 0x81 \<and> \<not> HasPrefix m [43] \<or> normalizeSMSNumber x = 43 # m \<and> toa = 0x91"
proof -
  let ?n = "normalizeSMSNumber x"
  define m where "m = (if HasPrefix ?n [43] then drop 1 ?n else ?n)"
  have a: "m \<noteq> []" "list_all (\<lambda>r. smsAddressSemiOctet r \<noteq> None) (runes m)" "digits = length m"
    "bcd = packDigits (map (\<lambda>b. case smsAddressSemiOctet (unat b) of Some d \<Rightarrow> d | None \<Rightarrow> 0) m)"
    "toa = (if HasPrefix ?n [43] then 0x91 else 0x81)"
    using assms by (auto simp: encodeSMSAddress_def Let_def m_def split: if_splits)
  have "list_all (\<lambda>r. r < 128) (runes m)"
    using a(2) semi_octet_ascii by (auto simp: list_all_iff)
  then have "list_all telOctet m" using a(2) ascii_runes [of m] by (simp add: list_all_iff telOctet_def)
  moreover have "?n = 43 # m" if "HasPrefix ?n [43]"
    using that by (cases ?n) (auto simp: HasPrefix_def m_def)
  ultimately show thesis using that [of m] a by (auto simp: m_def)
qed

lemma decode_address:
  assumes "list_all telOctet m" "m \<noteq> []" "toa = 0x81 \<and> pre = [] \<or> toa = 0x91 \<and> pre = [43]"
    "digits = length m \<or> digits = 2 * ((length m + 1) div 2)"
  shows "decodeSMSAddress digits toa (packDigits (map (\<lambda>b. case smsAddressSemiOctet (unat b) of Some d \<Rightarrow> d | None \<Rightarrow> 0) m)) =
    Inr (pre @ map telDigit m)"
proof -
  let ?ds = "map (\<lambda>b. case smsAddressSemiOctet (unat b) of Some d \<Rightarrow> d | None \<Rightarrow> 0) m"
  have r: "list_all2 (\<lambda>d c. unat d < 15 \<and> smsAddressSemiOctetDigit d = Some c) ?ds (map telDigit m)"
    using assms(1) by (rule address_digits)
  then have "list_all (\<lambda>d. unat d < 15) ?ds"
    by (auto simp: list_all2_conv_all_nth list_all_length)
  from nibbles_packDigits [OF this] decodeNibbles_digits [OF r, of "if even (length m) then [] else [0x0f]" 0 digits pre]
    assms(4)
  have "decodeNibbles (nibbles (packDigits ?ds)) digits 0 pre = Inr (pre @ map telDigit m)"
    by (auto elim: oddE)
  then show ?thesis using assms(3) by (auto simp: decodeSMSAddress_def)
qed

lemma telDigit_plus [simp]: "telDigit 43 = 43"
  by (simp add: telDigit_def)

text \<open>What the encoder accepts is read back, capital letters as small ones.\<close>

lemma decodeSMSAddress_encodeSMSAddress:
  assumes "encodeSMSAddress x = Inr (digits, toa, bcd)"
  shows "decodeSMSAddress digits toa bcd = Inr (map telDigit (normalizeSMSNumber x))"
    and "decodeRPAddressValue (toa # bcd) = Inr (map telDigit (normalizeSMSNumber x))"
    and "length bcd = smsAddressOctets digits toa" "dialable (normalizeSMSNumber x)"
proof -
  from assms obtain m where m: "list_all telOctet m" "m \<noteq> []" "digits = length m"
    "bcd = packDigits (map (\<lambda>b. case smsAddressSemiOctet (unat b) of Some d \<Rightarrow> d | None \<Rightarrow> 0) m)"
    "normalizeSMSNumber x = m \<and> toa = 0x81 \<and> \<not> HasPrefix m [43] \<or> normalizeSMSNumber x = 43 # m \<and> toa = 0x91"
    by (rule encodeSMSAddress_Inr)
  let ?plus = "if toa = 0x91 then [43] else []"
  have p: "toa = 0x81 \<and> ?plus = [] \<or> toa = 0x91 \<and> ?plus = [43]" "?plus @ map telDigit m = map telDigit (normalizeSMSNumber x)"
    using m(5) by auto
  show "decodeSMSAddress digits toa bcd = Inr (map telDigit (normalizeSMSNumber x))"
    unfolding m(4) p(2) [symmetric] using decode_address [OF m(1,2) p(1)] m(3) by blast
  have "decodeSMSAddress (length bcd * 2) toa bcd = Inr (map telDigit (normalizeSMSNumber x))"
    unfolding m(4) p(2) [symmetric] by (rule decode_address [OF m(1,2) p(1)]) simp
  then show "decodeRPAddressValue (toa # bcd) = Inr (map telDigit (normalizeSMSNumber x))"
    by (simp add: decodeRPAddressValue_def)
  show "length bcd = smsAddressOctets digits toa"
    using m(3,4,5) by (auto simp: smsAddressOctets_def)
  show "dialable (normalizeSMSNumber x)"
    using m by (auto simp: dialable_def Let_def HasPrefix_def)
qed

definition numberOctet :: "u8 \<Rightarrow> bool" where
  "numberOctet b \<longleftrightarrow> unat b < 128 \<and> unat b \<notin> set [58, 59, 60, 62, 32, 45, 40, 41] \<and>
     list_all (\<lambda>w. w \<noteq> [] \<and> hd w \<noteq> b \<and> last w \<noteq> b) space_encodings"

lemma number_octets: "list_all (\<lambda>b. telOctet b \<or> b = 43 \<longrightarrow> numberOctet b) (map word_of_int [0..255])"
  by code_simp

lemma number_octet: "telOctet b \<or> b = 43 \<Longrightarrow> numberOctet b"
proof -
  assume t: "telOctet b \<or> b = 43"
  have "b = word_of_int (uint b)" "uint b \<in> set [0..255]"
    using uint_bounded [of b] by simp_all
  then have "b \<in> set (map word_of_int [0..255])" by (metis image_eqI set_map)
  from bspec [OF number_octets [unfolded list_all_iff] this] t show ?thesis by blast
qed

lemma numberOctet_D:
  assumes "numberOctet b"
  shows "unat b < 128" "unat b \<notin> {58, 59, 60, 62, 32, 45, 40, 41}" "b \<notin> {58, 59, 60, 62}"
    "w \<in> set space_encodings \<Longrightarrow> w \<noteq> [] \<and> hd w \<noteq> b \<and> last w \<noteq> b"
  using assms by (auto simp: numberOctet_def list_all_iff)

lemma trim_left_same: "(\<And>w. w \<in> set sp \<Longrightarrow> w \<noteq> [] \<and> hd w \<noteq> hd s) \<Longrightarrow> s \<noteq> [] \<Longrightarrow> trim_left sp s = s"
proof -
  assume a: "\<And>w. w \<in> set sp \<Longrightarrow> w \<noteq> [] \<and> hd w \<noteq> hd s" "s \<noteq> []"
  have "take (length w) s \<noteq> w" if "w \<in> set sp" for w
    using a(1) [OF that] a(2) by (cases w; cases s) auto
  then have "leading_space sp s = 0" by (auto simp: leading_space_def find_None_iff split: option.splits dest!: find_Some_iff [THEN iffD1])
  then show ?thesis by (subst trim_left.simps) simp
qed

lemma TrimSpace_number: "list_all (\<lambda>b. telOctet b \<or> b = 43) s \<Longrightarrow> TrimSpace s = s"
proof (cases "s = []")
  case False
  assume "list_all (\<lambda>b. telOctet b \<or> b = 43) s"
  then have h: "telOctet (hd s) \<or> hd s = 43" and l: "telOctet (last s) \<or> last s = 43"
    using False by (auto simp: list_all_iff)
  have "trim_left space_encodings s = s"
    using numberOctet_D(4) [OF number_octet [OF h]] False by (intro trim_left_same) auto
  moreover have "trim_left (map rev space_encodings) (rev s) = rev s"
    using numberOctet_D(4) [OF number_octet [OF l]] False by (intro trim_left_same) (auto simp: hd_rev)
  ultimately show ?thesis by (simp add: TrimSpace_def)
qed (use trim_left_length [of _ "[]"] in \<open>simp add: TrimSpace_def\<close>)

lemma lower_rune_colon: "lower_rune r = 58 \<longleftrightarrow> r = 58"
  by (auto simp: lower_rune_def)

lemma no_colon_prefix:
  assumes "58 \<notin> set (runes s)" "CHR '':'' \<in> set lit"
  shows "\<not> ToLower_HasPrefix s lit"
proof
  assume "ToLower_HasPrefix s lit"
  then have "set (map of_char lit) \<subseteq> lower_rune ` set (runes s)"
    unfolding ToLower_HasPrefix_def by (metis set_map set_take_subset)
  moreover have "58 \<in> set (map of_char lit)" using assms(2) by force
  ultimately show False using assms(1) by (auto simp: lower_rune_colon)
qed

lemma dropWhile_none: "list_all (\<lambda>x. \<not> P x) xs \<Longrightarrow> dropWhile P xs = xs"
  by (cases xs) auto

lemma normalizeDigits_same:
  assumes "normalizeDigits i (map (\<lambda>b. (unat b, [b])) s) = Some out" "list_all (\<lambda>b. telOctet b \<or> b = 43) s"
  shows "out = s"
  using assms
proof (induction s arbitrary: i out)
  case (Cons b s)
  then have "numberOctet b" using number_octet by simp
  with Cons numberOctet_D(1,2) [of b] show ?case by (auto simp: EncodeRune_def split: if_splits)
qed simp

text \<open>A number in the international or national form is left as it is.\<close>

lemma normalize_dialable:
  assumes "dialable n"
  shows "normalizeSMSNumber n = n"
proof -
  have all: "list_all (\<lambda>b. telOctet b \<or> b = 43) n"
    using assms by (cases n) (auto simp: dialable_def Let_def HasPrefix_def list_all_iff split: if_splits)
  then have ascii: "list_all (\<lambda>b. unat b < 128) n" using number_octet numberOctet_D(1) by (auto simp: list_all_iff)
  have np: "b \<notin> {58, 59, 60, 62}" "unat b \<noteq> 58" if "b \<in> set n" for b
    using all that number_octet [of b] numberOctet_D(2,3) [of b] by (auto simp: list_all_iff)
  have pc: "pieces n = map (\<lambda>b. (unat b, [b])) n" by (rule ascii_pieces [OF ascii])
  then have "runes n = map unat n" by (simp add: runes_def)
  then have "58 \<notin> set (runes n)" using np(2) by auto
  from no_colon_prefix [OF this]
  have "\<not> ToLower_HasPrefix n ''sip:''" "\<not> ToLower_HasPrefix n ''sips:''" "\<not> ToLower_HasPrefix n ''tel:''"
    by simp_all
  moreover have tw: "takeWhile (\<lambda>b. b \<noteq> 59) n = n" using np by (auto simp: takeWhile_eq_all_conv)
  moreover have "Trim n [60, 62] = n"
    using np by (simp add: Trim_def dropWhile_none list_all_iff)
  moreover have "out = n" if "normalizeDigits 0 (pieces n) = Some out" for out
    using that all unfolding pc by (rule normalizeDigits_same)
  ultimately show ?thesis
    using TrimSpace_number [OF all]
    by (auto simp: normalizeSMSNumber_def stripSIPURI_def Let_def tw simp del: takeWhile_eq_all_conv split: option.splits)
qed

lemma normalize_idem:
  assumes "encodeSMSAddress x = Inr r"
  shows "normalizeSMSNumber (normalizeSMSNumber x) = normalizeSMSNumber x"
  using assms decodeSMSAddress_encodeSMSAddress(4) normalize_dialable by (cases r) blast

lemma dialable_encodes: "dialable n \<Longrightarrow> \<exists>r. encodeSMSAddress n = Inr r"
proof -
  assume d: "dialable n"
  define m where "m = (if HasPrefix n [43] then drop 1 n else n)"
  have m: "m \<noteq> []" "list_all telOctet m" using d by (simp_all add: dialable_def m_def Let_def)
  then have "pieces m = map (\<lambda>b. (unat b, [b])) m"
    using number_octet numberOctet_D(1) by (intro ascii_pieces) (auto simp: list_all_iff)
  then have "list_all (\<lambda>r. smsAddressSemiOctet r \<noteq> None) (runes m)"
    using m(2) by (auto simp: runes_def list_all_iff telOctet_def)
  moreover have "n \<noteq> []" using m by (auto simp: m_def HasPrefix_def)
  ultimately show ?thesis
    using m(1) by (simp add: encodeSMSAddress_def normalize_dialable [OF d] Let_def m_def [symmetric] flip: m_def)
qed

end
