(* ===== verification/SMS_UDH.thy ===== *)
theory SMS_UDH
  imports SMS_Tables
begin

text \<open>
  The user data header of an SMS: its elements as \<^verbatim>\<open>runtimehost/messaging/messaging.go\<close> builds them for a
  submission and as \<^verbatim>\<open>sms_pdu.go\<close> reads them from a delivery.  Go's \<^verbatim>\<open>int\<close> is \<open>int\<close>.
\<close>

section \<open>Data\<close>

record SMSConcatInfo =
  sc_IsConcat :: bool
  sc_Ref :: int
  sc_RefBits :: int
  sc_Total :: int
  sc_Seq :: int

record SMSUDHElement =
  ue_Identifier :: u8
  ue_Data :: bytes

record SMSSpecialMessageIndication =
  sm_Raw :: u8
  sm_StoreMessage :: bool
  sm_ProfileID :: nat
  sm_BasicType :: nat
  sm_ExtendedType :: nat
  sm_MessageType :: string
  sm_Count :: nat
  sm_Active :: bool
  sm_ReservedType :: bool

record SMSSMSCControlParameters =
  sp_Raw :: u8
  sp_StatusReportTransactionCompleted :: bool
  sp_StatusReportPermanentError :: bool
  sp_StatusReportTemporaryErrorNoMoreAttempts :: bool
  sp_StatusReportTemporaryErrorMoreAttempts :: bool
  sp_CancelSRRForRemainingConcatParts :: bool
  sp_IncludeOriginalUDHInStatusReport :: bool
  sp_ReservedBits :: u8

record SMSUDHSourceIndicator =
  si_Value :: nat
  si_Description :: string

record SMSUserDataHeaderInfo =
  uh_Raw :: bytes
  uh_Elements :: "SMSUDHElement list"
  uh_Concat :: SMSConcatInfo
  uh_HasPorts :: bool
  uh_DestinationPort :: int
  uh_SourcePort :: int
  uh_PortBits :: int
  uh_SpecialMessageIndications :: "SMSSpecialMessageIndication list"
  uh_HasSMSCControl :: bool
  uh_SMSCControl :: SMSSMSCControlParameters
  uh_SourceIndicators :: "SMSUDHSourceIndicator list"
  uh_HasRFC822EmailHeader :: bool
  uh_RFC822EmailHeaderLength :: nat
  uh_HasSingleShift :: bool
  uh_SingleShiftLang :: int
  uh_HasLockingShift :: bool
  uh_LockingShiftLang :: int

definition NoConcat :: SMSConcatInfo where
  "NoConcat = \<lparr>sc_IsConcat = False, sc_Ref = 0, sc_RefBits = 0, sc_Total = 0, sc_Seq = 0\<rparr>"

definition NoUDH :: SMSUserDataHeaderInfo where
  "NoUDH =
     \<lparr>uh_Raw = [], uh_Elements = [], uh_Concat = NoConcat, uh_HasPorts = False, uh_DestinationPort = 0,
      uh_SourcePort = 0, uh_PortBits = 0, uh_SpecialMessageIndications = [], uh_HasSMSCControl = False,
      uh_SMSCControl = \<lparr>sp_Raw = 0, sp_StatusReportTransactionCompleted = False, sp_StatusReportPermanentError = False,
        sp_StatusReportTemporaryErrorNoMoreAttempts = False, sp_StatusReportTemporaryErrorMoreAttempts = False,
        sp_CancelSRRForRemainingConcatParts = False, sp_IncludeOriginalUDHInStatusReport = False, sp_ReservedBits = 0\<rparr>,
      uh_SourceIndicators = [], uh_HasRFC822EmailHeader = False, uh_RFC822EmailHeaderLength = 0,
      uh_HasSingleShift = False, uh_SingleShiftLang = 0, uh_HasLockingShift = False, uh_LockingShiftLang = 0\<rparr>"

section \<open>Building\<close>

text \<open>\<^verbatim>\<open>byte(x)\<close> of an \<^verbatim>\<open>int\<close>.\<close>

abbreviation byte_of_int :: "int \<Rightarrow> u8" where
  "byte_of_int i \<equiv> word_of_int i"

definition validateSMSNationalLanguageOptions :: "int \<Rightarrow> int \<Rightarrow> unit res" where
  "validateSMSNationalLanguageOptions singleLang lockingLang =
     (if singleLang < 0 \<or> lockingLang < 0 then Inl (Fmt ''sms national language identifier out of range'')
      else if singleLang \<noteq> 0 \<and> \<not> smsNationalLanguageIdentifierKnown singleLang
      then Inl (Fmt ''unsupported sms national single shift language identifier'')
      else if lockingLang \<noteq> 0 \<and> \<not> smsNationalLanguageIdentifierKnown lockingLang
      then Inl (Fmt ''unsupported sms national locking shift language identifier'')
      else Inr ())"

definition validateSMSApplicationPortOptions :: "int \<Rightarrow> int \<Rightarrow> int \<Rightarrow> (int \<times> bool) res" where
  "validateSMSApplicationPortOptions destPort sourcePort portBits =
     (if \<not> (destPort \<noteq> 0 \<or> sourcePort \<noteq> 0 \<or> portBits \<noteq> 0) then Inr (0, False)
      else if destPort < 0 \<or> sourcePort < 0 then Inl (Fmt ''sms application port out of range'')
      else if portBits \<noteq> 0 \<and> portBits \<noteq> 8 \<and> portBits \<noteq> 16 then Inl (Fmt ''unsupported sms application port size'')
      else
        let bits = (if portBits = 0 then (if destPort \<le> 0xff \<and> sourcePort \<le> 0xff then 8 else 16) else portBits);
            maxPort = (if bits = 8 then 0xff else 0xffff) in
        if destPort > maxPort \<or> sourcePort > maxPort then Inl (Fmt ''sms application port out of range'')
        else Inr (bits, True))"

definition smsApplicationPortUDHElement :: "int \<Rightarrow> int \<Rightarrow> int \<Rightarrow> bytes res" where
  "smsApplicationPortUDHElement destPort sourcePort portBits =
     rbind (validateSMSApplicationPortOptions destPort sourcePort portBits) (\<lambda>(bits, hasPorts).
       if \<not> hasPorts then Inr []
       else if bits = 8 then Inr [0x04, 0x02, byte_of_int destPort, byte_of_int sourcePort]
       else Inr [0x05, 0x04, byte_of_int (drop_bit 8 destPort), byte_of_int destPort,
         byte_of_int (drop_bit 8 sourcePort), byte_of_int sourcePort])"

definition smsConcatUDHElement :: "int \<Rightarrow> int \<Rightarrow> int \<Rightarrow> int \<Rightarrow> bytes res" where
  "smsConcatUDHElement ref refBits totalParts partNo =
     (if totalParts \<le> 1 then Inr []
      else if totalParts > 255 then Inl (Fmt ''sms concat total parts out of range'')
      else if partNo \<le> 0 \<or> partNo > totalParts then Inl (Fmt ''sms concat part number out of range'')
      else if refBits = 8
      then (if ref < 0 \<or> ref > 0xff then Inl (Fmt ''sms 8-bit concat reference out of range'')
            else Inr [0x00, 0x03, byte_of_int ref, byte_of_int totalParts, byte_of_int partNo])
      else if refBits = 16
      then (if ref < 0 \<or> ref > 0xffff then Inl (Fmt ''sms 16-bit concat reference out of range'')
            else Inr [0x08, 0x04, byte_of_int (drop_bit 8 ref), byte_of_int ref, byte_of_int totalParts, byte_of_int partNo])
      else Inl (Fmt ''unsupported sms concat reference size''))"

definition smsUDHFromElements :: "bytes list \<Rightarrow> bytes" where
  "smsUDHFromElements elements =
     (let bodyLen = sum_list (map length elements) in if bodyLen = 0 then [] else go_byte bodyLen # concat elements)"

definition concatUDHWithRef :: "int \<Rightarrow> int \<Rightarrow> int \<Rightarrow> int \<Rightarrow> bytes res" where
  "concatUDHWithRef ref refBits totalParts partNo =
     rbind (smsConcatUDHElement ref refBits totalParts partNo) (\<lambda>elem.
       if elem = [] then Inr elem else Inr (smsUDHFromElements [elem]))"

definition concatUDH :: "int \<Rightarrow> int \<Rightarrow> bytes" where
  "concatUDH totalParts partNo = (case concatUDHWithRef 1 8 totalParts partNo of Inl _ \<Rightarrow> [] | Inr udh \<Rightarrow> udh)"

definition buildSMSSubmitUDH ::
  "bool \<Rightarrow> int \<Rightarrow> int \<Rightarrow> int \<Rightarrow> int \<Rightarrow> int \<Rightarrow> int \<Rightarrow> int \<Rightarrow> int \<Rightarrow> int \<Rightarrow> bytes res" where
  "buildSMSSubmitUDH hasPorts destPort sourcePort portBits ref refBits totalParts partNo singleLang lockingLang =
     rbind (validateSMSNationalLanguageOptions singleLang lockingLang) (\<lambda>_.
     let e1 = (if singleLang \<noteq> 0 then [[0x24, 0x01, byte_of_int singleLang]] else []);
         e2 = (if lockingLang \<noteq> 0 then [[0x25, 0x01, byte_of_int lockingLang]] else []) in
     rbind (if hasPorts then rbind (smsApplicationPortUDHElement destPort sourcePort portBits) (\<lambda>e. Inr [e]) else Inr [])
       (\<lambda>e3.
     rbind (if totalParts > 1 then rbind (smsConcatUDHElement ref refBits totalParts partNo) (\<lambda>e. Inr [e]) else Inr []) (\<lambda>e4.
       Inr (smsUDHFromElements (e1 @ e2 @ e3 @ e4)))))"

definition smsSubmitUDHLength :: "bool \<Rightarrow> int \<Rightarrow> bool \<Rightarrow> int \<Rightarrow> int \<Rightarrow> int \<Rightarrow> nat" where
  "smsSubmitUDHLength hasPorts portBits hasConcat concatRefBits singleLang lockingLang =
     (let bodyLen = (if singleLang \<noteq> 0 then 3 else 0) + (if lockingLang \<noteq> 0 then 3 else 0) +
            (if hasPorts then (if portBits = 8 then 4 else 6) else 0) +
            (if hasConcat then (if concatRefBits = 16 then 6 else 5) else 0)
      in if bodyLen = 0 then 0 else 1 + bodyLen)"

definition normalizeSMSConcatRefBits :: "int \<Rightarrow> int \<Rightarrow> int" where
  "normalizeSMSConcatRefBits ref refBits =
     (if refBits = 8 \<or> refBits = 16 then refBits
      else if refBits = 0 then (if ref > 0xff then 16 else 8) else refBits)"

definition validateSMSConcatOptions :: "int \<Rightarrow> int \<Rightarrow> int res" where
  "validateSMSConcatOptions ref refBits =
     (if ref < 0 then Inl (Fmt ''sms concat reference out of range'')
      else
        let bits = normalizeSMSConcatRefBits ref refBits in
        if bits = 8
        then (if ref > 0xff then Inl (Fmt ''sms 8-bit concat reference out of range'') else Inr bits)
        else if bits = 16
        then (if ref > 0xffff then Inl (Fmt ''sms 16-bit concat reference out of range'') else Inr bits)
        else Inl (Fmt ''unsupported sms concat reference size''))"

definition concatUDHLength :: "int \<Rightarrow> nat" where
  "concatUDHLength refBits = (if refBits = 16 then 7 else 6)"

text \<open>\<^verbatim>\<open>nextSMSConcatRef\<close>: the counter is a 32-bit atomic, so it wraps; the result is never zero.\<close>

definition nextSMSConcatRef :: "int \<Rightarrow> u32 \<Rightarrow> int \<times> u32" where
  "nextSMSConcatRef refBits smsConcatRefCounter =
     (let n = smsConcatRefCounter + 1
      in (if refBits = 16 then uint (n mod 0xffff) + 1 else uint (n mod 0xff) + 1, n))"

section \<open>Reading\<close>

definition smsSpecialMessageIndicationType :: "nat \<Rightarrow> nat \<Rightarrow> string \<times> bool" where
  "smsSpecialMessageIndicationType basic extended =
     (if extended = 0
      then (if basic = 0 then ''voicemail'' else if basic = 1 then ''fax'' else if basic = 2 then ''email'' else ''other'', False)
      else if basic = 3 \<and> extended = 1 then (''video'', False)
      else (''reserved'', True))"

definition parseSMSSpecialMessageIndication :: "u8 \<Rightarrow> u8 \<Rightarrow> SMSSpecialMessageIndication" where
  "parseSMSSpecialMessageIndication raw cnt =
     (let basic = unat (raw AND 0x03); extended = unat (drop_bit 2 raw AND 0x07);
          (typ, reserved) = smsSpecialMessageIndicationType basic extended
      in \<lparr>sm_Raw = raw, sm_StoreMessage = (raw AND 0x80 \<noteq> 0), sm_ProfileID = unat (drop_bit 5 raw AND 0x03) + 1,
          sm_BasicType = basic, sm_ExtendedType = extended, sm_MessageType = typ, sm_Count = unat cnt,
          sm_Active = (unat cnt > 0), sm_ReservedType = reserved\<rparr>)"

definition parseSMSSMSCControlParameters :: "u8 \<Rightarrow> SMSSMSCControlParameters" where
  "parseSMSSMSCControlParameters raw =
     \<lparr>sp_Raw = raw, sp_StatusReportTransactionCompleted = (raw AND 0x01 \<noteq> 0),
      sp_StatusReportPermanentError = (raw AND 0x02 \<noteq> 0),
      sp_StatusReportTemporaryErrorNoMoreAttempts = (raw AND 0x04 \<noteq> 0),
      sp_StatusReportTemporaryErrorMoreAttempts = (raw AND 0x08 \<noteq> 0),
      sp_CancelSRRForRemainingConcatParts = (raw AND 0x40 \<noteq> 0),
      sp_IncludeOriginalUDHInStatusReport = (raw AND 0x80 \<noteq> 0), sp_ReservedBits = raw AND 0x30\<rparr>"

definition smsUDHSourceIndicatorDescription :: "nat \<Rightarrow> string" where
  "smsUDHSourceIndicatorDescription value =
     (if value = 1 then ''original-sender'' else if value = 2 then ''original-receiver'' else if value = 3 then ''smsc''
      else ''reserved'')"

abbreviation int_of :: "u8 \<Rightarrow> int" where
  "int_of b \<equiv> uint b"

text \<open>The switch over the identifier of one element.\<close>

definition parseUDHElement :: "u8 \<Rightarrow> bytes \<Rightarrow> SMSUserDataHeaderInfo \<Rightarrow> SMSUserDataHeaderInfo" where
  "parseUDHElement iei ie info =
     (if iei = 0x00
      then (case ie of
              [a, b, c] \<Rightarrow>
                if b > 1
                then info\<lparr>uh_Concat := \<lparr>sc_IsConcat = True, sc_Ref = int_of a, sc_RefBits = 8, sc_Total = int_of b, sc_Seq = int_of c\<rparr>\<rparr>
                else info
            | _ \<Rightarrow> info)
      else if iei = 0x01
      then (case ie of
              [a, b] \<Rightarrow> info\<lparr>uh_SpecialMessageIndications := uh_SpecialMessageIndications info @ [parseSMSSpecialMessageIndication a b]\<rparr>
            | _ \<Rightarrow> info)
      else if iei = 0x04
      then (case ie of
              [a, b] \<Rightarrow> info\<lparr>uh_HasPorts := True, uh_DestinationPort := int_of a, uh_SourcePort := int_of b, uh_PortBits := 8\<rparr>
            | _ \<Rightarrow> info)
      else if iei = 0x05
      then (case ie of
              [a, b, c, d] \<Rightarrow>
                info\<lparr>uh_HasPorts := True, uh_DestinationPort := push_bit 8 (int_of a) OR int_of b,
                  uh_SourcePort := push_bit 8 (int_of c) OR int_of d, uh_PortBits := 16\<rparr>
            | _ \<Rightarrow> info)
      else if iei = 0x08
      then (case ie of
              [a, b, c, d] \<Rightarrow>
                if c > 1
                then info\<lparr>uh_Concat := \<lparr>sc_IsConcat = True, sc_Ref = push_bit 8 (int_of a) OR int_of b, sc_RefBits = 16,
                       sc_Total = int_of c, sc_Seq = int_of d\<rparr>\<rparr>
                else info
            | _ \<Rightarrow> info)
      else if iei = 0x06
      then (case ie of
              [a] \<Rightarrow> info\<lparr>uh_HasSMSCControl := True, uh_SMSCControl := parseSMSSMSCControlParameters a\<rparr>
            | _ \<Rightarrow> info)
      else if iei = 0x07
      then (case ie of
              [a] \<Rightarrow> info\<lparr>uh_SourceIndicators := uh_SourceIndicators info @
                       [\<lparr>si_Value = unat a, si_Description = smsUDHSourceIndicatorDescription (unat a)\<rparr>]\<rparr>
            | _ \<Rightarrow> info)
      else if iei = 0x20
      then (case ie of
              [a] \<Rightarrow> info\<lparr>uh_HasRFC822EmailHeader := True, uh_RFC822EmailHeaderLength := unat a\<rparr>
            | _ \<Rightarrow> info)
      else if iei = 0x24
      then (case ie of
              [a] \<Rightarrow> if smsNationalLanguageIdentifierKnown (int_of a)
                      then info\<lparr>uh_HasSingleShift := True, uh_SingleShiftLang := int_of a\<rparr> else info
            | _ \<Rightarrow> info)
      else if iei = 0x25
      then (case ie of
              [a] \<Rightarrow> if smsNationalLanguageIdentifierKnown (int_of a)
                      then info\<lparr>uh_HasLockingShift := True, uh_LockingShiftLang := int_of a\<rparr> else info
            | _ \<Rightarrow> info)
      else info)"

text \<open>The loop of \<^verbatim>\<open>parseSMSUDHInfo\<close> over the octets after the length.\<close>

function parseUDHElements :: "bytes \<Rightarrow> SMSUserDataHeaderInfo \<Rightarrow> SMSUserDataHeaderInfo" where
  "parseUDHElements (iei # iedl # rest) info =
     (let n = unat iedl in
      if n > length rest then info
      else
        let ie = take n rest in
        parseUDHElements (drop n rest)
          (parseUDHElement iei ie (info\<lparr>uh_Elements := uh_Elements info @ [\<lparr>ue_Identifier = iei, ue_Data = ie\<rparr>]\<rparr>)))"
| "parseUDHElements [] info = info"
| "parseUDHElements [x] info = info"
  by pat_completeness auto
termination
  by (relation "measure (\<lambda>(d, _). length d)") auto

definition parseSMSUDHInfo :: "bytes \<Rightarrow> SMSUserDataHeaderInfo" where
  "parseSMSUDHInfo udh =
     (let info = NoUDH\<lparr>uh_Raw := udh\<rparr> in if length udh < 2 then info else parseUDHElements (drop 1 udh) info)"

definition parseSMSConcatUDH :: "bytes \<Rightarrow> SMSConcatInfo" where
  "parseSMSConcatUDH udh = uh_Concat (parseSMSUDHInfo udh)"

text \<open>The reader of a header with the accesses of the code: the switch over one element, the loop over the octets of the
  header with its index, and the function.  An index or slice out of range panics; there is none.\<close>

definition parseUDHElement_checked :: "u8 \<Rightarrow> bytes \<Rightarrow> SMSUserDataHeaderInfo \<Rightarrow> SMSUserDataHeaderInfo res" where
  "parseUDHElement_checked iei ie info =
     (if iei = 0x00
      then (if length ie = 3
            then rbind (idx 1 ie) (\<lambda>total.
              if total > 1
              then rbind (idx 0 ie) (\<lambda>ref. rbind (idx 2 ie) (\<lambda>sequence.
                Inr (info\<lparr>uh_Concat := \<lparr>sc_IsConcat = True, sc_Ref = int_of ref, sc_RefBits = 8, sc_Total = int_of total, sc_Seq = int_of sequence\<rparr>\<rparr>)))
              else Inr info)
            else Inr info)
      else if iei = 0x01
      then (if length ie = 2
            then rbind (idx 0 ie) (\<lambda>raw. rbind (idx 1 ie) (\<lambda>count.
              Inr (info\<lparr>uh_SpecialMessageIndications := uh_SpecialMessageIndications info @ [parseSMSSpecialMessageIndication raw count]\<rparr>)))
            else Inr info)
      else if iei = 0x04
      then (if length ie = 2
            then rbind (idx 0 ie) (\<lambda>a. rbind (idx 1 ie) (\<lambda>b.
              Inr (info\<lparr>uh_HasPorts := True, uh_DestinationPort := int_of a, uh_SourcePort := int_of b, uh_PortBits := 8\<rparr>)))
            else Inr info)
      else if iei = 0x05
      then (if length ie = 4
            then rbind (idx 0 ie) (\<lambda>a. rbind (idx 1 ie) (\<lambda>b. rbind (idx 2 ie) (\<lambda>c. rbind (idx 3 ie) (\<lambda>d.
              Inr (info\<lparr>uh_HasPorts := True, uh_DestinationPort := push_bit 8 (int_of a) OR int_of b,
                uh_SourcePort := push_bit 8 (int_of c) OR int_of d, uh_PortBits := 16\<rparr>)))))
            else Inr info)
      else if iei = 0x08
      then (if length ie = 4
            then rbind (idx 2 ie) (\<lambda>total.
              if total > 1
              then rbind (idx 0 ie) (\<lambda>a. rbind (idx 1 ie) (\<lambda>b. rbind (idx 3 ie) (\<lambda>sequence.
                Inr (info\<lparr>uh_Concat := \<lparr>sc_IsConcat = True, sc_Ref = push_bit 8 (int_of a) OR int_of b, sc_RefBits = 16,
                  sc_Total = int_of total, sc_Seq = int_of sequence\<rparr>\<rparr>))))
              else Inr info)
            else Inr info)
      else if iei = 0x06
      then (if length ie = 1
            then rbind (idx 0 ie) (\<lambda>a. Inr (info\<lparr>uh_HasSMSCControl := True, uh_SMSCControl := parseSMSSMSCControlParameters a\<rparr>))
            else Inr info)
      else if iei = 0x07
      then (if length ie = 1
            then rbind (idx 0 ie) (\<lambda>a. Inr (info\<lparr>uh_SourceIndicators := uh_SourceIndicators info @
              [\<lparr>si_Value = unat a, si_Description = smsUDHSourceIndicatorDescription (unat a)\<rparr>]\<rparr>))
            else Inr info)
      else if iei = 0x20
      then (if length ie = 1
            then rbind (idx 0 ie) (\<lambda>a. Inr (info\<lparr>uh_HasRFC822EmailHeader := True, uh_RFC822EmailHeaderLength := unat a\<rparr>))
            else Inr info)
      else if iei = 0x24
      then (if length ie = 1
            then rbind (idx 0 ie) (\<lambda>a.
              Inr (if smsNationalLanguageIdentifierKnown (int_of a) then info\<lparr>uh_HasSingleShift := True, uh_SingleShiftLang := int_of a\<rparr> else info))
            else Inr info)
      else if iei = 0x25
      then (if length ie = 1
            then rbind (idx 0 ie) (\<lambda>a.
              Inr (if smsNationalLanguageIdentifierKnown (int_of a) then info\<lparr>uh_HasLockingShift := True, uh_LockingShiftLang := int_of a\<rparr> else info))
            else Inr info)
      else Inr info)"

function parseSMSUDHInfo_loop :: "bytes \<Rightarrow> nat \<Rightarrow> SMSUserDataHeaderInfo \<Rightarrow> SMSUserDataHeaderInfo res" where
  "parseSMSUDHInfo_loop udh i info =
     (if i + 1 < length udh
      then
        rbind (idx i udh) (\<lambda>iei.
        rbind (idx (i + 1) udh) (\<lambda>len.
        let iedl = unat len; i' = i + 2 in
        if i' + iedl > length udh then Inr info
        else
          rbind (sub i' (i' + iedl) udh) (\<lambda>ie.
          rbind (parseUDHElement_checked iei ie
            (info\<lparr>uh_Elements := uh_Elements info @ [\<lparr>ue_Identifier = iei, ue_Data = ie\<rparr>]\<rparr>)) (\<lambda>info'.
            parseSMSUDHInfo_loop udh (i' + iedl) info'))))
      else Inr info)"
  by pat_completeness auto
termination
  by (relation "measure (\<lambda>(udh, i, _). length udh - i)") auto

declare parseSMSUDHInfo_loop.simps [simp del]

definition parseSMSUDHInfo_checked :: "bytes \<Rightarrow> SMSUserDataHeaderInfo res" where
  "parseSMSUDHInfo_checked udh =
     (let info = NoUDH\<lparr>uh_Raw := udh\<rparr> in if length udh < 2 then Inr info else parseSMSUDHInfo_loop udh 1 info)"

lemma parseUDHElement_checked_eq [simp]: "parseUDHElement_checked iei ie info = Inr (parseUDHElement iei ie info)"
proof -
  consider "ie = []" | a where "ie = [a]" | a b where "ie = [a, b]" | a b c where "ie = [a, b, c]" | a b c d where "ie = [a, b, c, d]"
    | a b c d e rest where "ie = a # b # c # d # e # rest"
    by (metis list.exhaust)
  then show ?thesis by cases (simp_all add: parseUDHElement_checked_def parseUDHElement_def)
qed

lemma parseSMSUDHInfo_loop_eq [simp]: "parseSMSUDHInfo_loop udh i info = Inr (parseUDHElements (drop i udh) info)"
proof (induction udh i info rule: parseSMSUDHInfo_loop.induct)
  case (1 udh i info)
  show ?case
  proof (cases "i + 1 < length udh")
    case True
    then have d: "drop i udh = udh ! i # udh ! Suc i # drop (i + 2) udh" by (simp add: Cons_nth_drop_Suc)
    show ?thesis
      using True 1 by (subst parseSMSUDHInfo_loop.simps) (auto simp: d Let_def add.commute)
  next
    case False
    then have "drop i udh = [] \<or> (\<exists>x. drop i udh = [x])" by (cases "drop i udh"; cases "tl (drop i udh)") (auto dest: arg_cong [of _ _ length])
    then show ?thesis using False by (subst parseSMSUDHInfo_loop.simps) auto
  qed
qed

lemma parseSMSUDHInfo_checked_eq [simp]: "parseSMSUDHInfo_checked udh = Inr (parseSMSUDHInfo udh)"
  by (simp add: parseSMSUDHInfo_checked_def parseSMSUDHInfo_def Let_def)

section \<open>A header reads back as it was built\<close>

lemma uint_byte_of_int [simp]: "0 \<le> i \<Longrightarrow> i < 256 \<Longrightarrow> int_of (byte_of_int i) = i"
  by (simp add: uint_word_of_int_eq take_bit_int_eq_self)

lemma split_16bit:
  assumes "0 \<le> i" "i < 65536"
  shows "push_bit 8 (int_of (byte_of_int (drop_bit 8 i))) OR int_of (byte_of_int i) = i"
proof -
  have "drop_bit 8 i < 256" "0 \<le> drop_bit 8 i" using assms by (simp_all add: drop_bit_eq_div)
  then have "push_bit 8 (int_of (byte_of_int (drop_bit 8 i))) OR int_of (byte_of_int i) = push_bit 8 (drop_bit 8 i) OR take_bit 8 i"
    by (simp add: uint_word_of_int_eq take_bit_int_eq_self)
  also have "\<dots> = i"
    by (rule bit_eqI) (auto simp: bit_or_iff bit_push_bit_iff bit_drop_bit_eq bit_take_bit_iff)
  finally show ?thesis .
qed

lemma less_byte_of_int: "1 < i \<Longrightarrow> i < 256 \<Longrightarrow> 1 < byte_of_int i"
  by (simp add: word_less_def)

text \<open>What the reader does with each element the builder can write.\<close>

definition addElement :: "bytes \<Rightarrow> SMSUserDataHeaderInfo \<Rightarrow> SMSUserDataHeaderInfo" where
  "addElement e info = info\<lparr>uh_Elements := uh_Elements info @ [\<lparr>ue_Identifier = hd e, ue_Data = drop 2 e\<rparr>]\<rparr>"

lemma parse_single_shift:
  assumes "smsNationalLanguageIdentifierKnown l"
  shows "parseUDHElements ([0x24, 0x01, byte_of_int l] @ rest) info =
    parseUDHElements rest (addElement [0x24, 0x01, byte_of_int l] info\<lparr>uh_HasSingleShift := True, uh_SingleShiftLang := l\<rparr>)"
  using assms by (simp add: parseUDHElement_def addElement_def smsNationalLanguageIdentifierKnown_def)

lemma parse_locking_shift:
  assumes "smsNationalLanguageIdentifierKnown l"
  shows "parseUDHElements ([0x25, 0x01, byte_of_int l] @ rest) info =
    parseUDHElements rest (addElement [0x25, 0x01, byte_of_int l] info\<lparr>uh_HasLockingShift := True, uh_LockingShiftLang := l\<rparr>)"
  using assms by (simp add: parseUDHElement_def addElement_def smsNationalLanguageIdentifierKnown_def)

lemma parse_ports:
  assumes "smsApplicationPortUDHElement d s bits = Inr e" "validateSMSApplicationPortOptions d s bits = Inr (bits, True)"
  shows "parseUDHElements (e @ rest) info = parseUDHElements rest
      (addElement e info\<lparr>uh_HasPorts := True, uh_DestinationPort := d, uh_SourcePort := s, uh_PortBits := bits\<rparr>)"
    and "length e = (if bits = 8 then 4 else 6)"
proof -
  have ok: "0 \<le> d" "0 \<le> s" "bits = 8 \<or> bits = 16" "d \<le> (if bits = 8 then 0xff else 0xffff)"
      "s \<le> (if bits = 8 then 0xff else 0xffff)"
    using assms(2) by (auto simp: validateSMSApplicationPortOptions_def Let_def split: if_splits)
  show "parseUDHElements (e @ rest) info = parseUDHElements rest
      (addElement e info\<lparr>uh_HasPorts := True, uh_DestinationPort := d, uh_SourcePort := s, uh_PortBits := bits\<rparr>)"
    "length e = (if bits = 8 then 4 else 6)"
    using assms(1) ok
    by (auto simp: smsApplicationPortUDHElement_def assms(2) parseUDHElement_def addElement_def split_16bit)
qed

lemma parse_concat:
  assumes "smsConcatUDHElement ref refBits n k = Inr e" "1 < n"
  shows "parseUDHElements (e @ rest) info = parseUDHElements rest (addElement e info\<lparr>uh_Concat :=
      \<lparr>sc_IsConcat = True, sc_Ref = ref, sc_RefBits = refBits, sc_Total = n, sc_Seq = k\<rparr>\<rparr>)"
    and "length e = (if refBits = 16 then 6 else 5)" "refBits = 8 \<or> refBits = 16" "1 \<le> k" "k \<le> n" "n \<le> 255" "0 \<le> ref"
  using assms
  by (auto simp: smsConcatUDHElement_def parseUDHElement_def addElement_def split_16bit less_byte_of_int split: if_splits)

text \<open>The pieces of a header that was built.\<close>

lemma buildSMSSubmitUDH_elements:
  assumes "buildSMSSubmitUDH hasPorts d s bits ref refBits n k sl ll = Inr udh"
  obtains e1 e2 e3 e4 where
    "udh = smsUDHFromElements (e1 @ e2 @ e3 @ e4)"
    "e1 = (if sl \<noteq> 0 then [[0x24, 0x01, byte_of_int sl]] else [])" "sl \<noteq> 0 \<longrightarrow> smsNationalLanguageIdentifierKnown sl"
    "e2 = (if ll \<noteq> 0 then [[0x25, 0x01, byte_of_int ll]] else [])" "ll \<noteq> 0 \<longrightarrow> smsNationalLanguageIdentifierKnown ll"
    "if hasPorts then \<exists>e. e3 = [e] \<and> smsApplicationPortUDHElement d s bits = Inr e else e3 = []"
    "if n > 1 then \<exists>e. e4 = [e] \<and> smsConcatUDHElement ref refBits n k = Inr e else e4 = []"
proof -
  have "sl \<noteq> 0 \<longrightarrow> smsNationalLanguageIdentifierKnown sl" "ll \<noteq> 0 \<longrightarrow> smsNationalLanguageIdentifierKnown ll"
    using assms by (auto simp: buildSMSSubmitUDH_def rbind_eq_Inr_iff validateSMSNationalLanguageOptions_def split: if_splits)
  with assms that show thesis
    by (auto simp: buildSMSSubmitUDH_def rbind_eq_Inr_iff Let_def split: if_splits)
qed

lemma buildSMSSubmitUDH_length:
  assumes "buildSMSSubmitUDH hasPorts d s bits ref refBits n k sl ll = Inr udh"
    and "hasPorts \<Longrightarrow> validateSMSApplicationPortOptions d s bits = Inr (bits, True)"
  shows "length udh = smsSubmitUDHLength hasPorts bits (n > 1) refBits sl ll"
    and "udh \<noteq> [] \<Longrightarrow> unat (hd udh) + 1 = length udh"
proof -
  from assms(1) obtain e1 e2 e3 e4 where e:
    "udh = smsUDHFromElements (e1 @ e2 @ e3 @ e4)"
    "e1 = (if sl \<noteq> 0 then [[0x24, 0x01, byte_of_int sl]] else [])"
    "e2 = (if ll \<noteq> 0 then [[0x25, 0x01, byte_of_int ll]] else [])"
    "if hasPorts then \<exists>e. e3 = [e] \<and> smsApplicationPortUDHElement d s bits = Inr e else e3 = []"
    "if n > 1 then \<exists>e. e4 = [e] \<and> smsConcatUDHElement ref refBits n k = Inr e else e4 = []"
    by (rule buildSMSSubmitUDH_elements)
  let ?l = "\<lambda>es. sum_list (map length es)"
  have l3: "?l e3 = (if hasPorts then if bits = 8 then 4 else 6 else 0)"
    using e(4) assms(2) parse_ports(2) by (auto split: if_splits)
  have l4: "?l e4 = (if n > 1 then if refBits = 16 then 6 else 5 else 0)"
    using e(5) parse_concat(2) by (auto split: if_splits)
  have l: "?l (e1 @ e2 @ e3 @ e4) = smsSubmitUDHLength hasPorts bits (n > 1) refBits sl ll - 1" "?l (e1 @ e2 @ e3 @ e4) \<le> 18"
    by (simp_all add: e(2,3) l3 l4 smsSubmitUDHLength_def Let_def)
  have cat: "length (concat es) = ?l es" for es :: "bytes list"
    by (simp add: length_concat)
  show "length udh = smsSubmitUDHLength hasPorts bits (n > 1) refBits sl ll" "udh \<noteq> [] \<Longrightarrow> unat (hd udh) + 1 = length udh"
    using l unfolding e(1) smsUDHFromElements_def Let_def
    by (auto simp: cat smsSubmitUDHLength_def Let_def simp del: map_append concat_append split: if_splits)
qed

lemma parse_built:
  assumes "buildSMSSubmitUDH hasPorts d s bits ref refBits n k sl ll = Inr udh" "udh \<noteq> []"
    and "hasPorts \<Longrightarrow> validateSMSApplicationPortOptions d s bits = Inr (bits, True)"
  shows "uh_Raw (parseSMSUDHInfo udh) = udh"
    and "uh_SingleShiftLang (parseSMSUDHInfo udh) = sl" "uh_LockingShiftLang (parseSMSUDHInfo udh) = ll"
    and "uh_HasPorts (parseSMSUDHInfo udh) = hasPorts"
    and "hasPorts \<Longrightarrow> uh_DestinationPort (parseSMSUDHInfo udh) = d \<and> uh_SourcePort (parseSMSUDHInfo udh) = s"
    and "uh_Concat (parseSMSUDHInfo udh) =
      (if n > 1 then \<lparr>sc_IsConcat = True, sc_Ref = ref, sc_RefBits = refBits, sc_Total = n, sc_Seq = k\<rparr> else NoConcat)"
proof -
  from assms(1) obtain e1 e2 e3 e4 where e:
    "udh = smsUDHFromElements (e1 @ e2 @ e3 @ e4)"
    "e1 = (if sl \<noteq> 0 then [[0x24, 0x01, byte_of_int sl]] else [])" "sl \<noteq> 0 \<longrightarrow> smsNationalLanguageIdentifierKnown sl"
    "e2 = (if ll \<noteq> 0 then [[0x25, 0x01, byte_of_int ll]] else [])" "ll \<noteq> 0 \<longrightarrow> smsNationalLanguageIdentifierKnown ll"
    "if hasPorts then \<exists>e. e3 = [e] \<and> smsApplicationPortUDHElement d s bits = Inr e else e3 = []"
    "if n > 1 then \<exists>e. e4 = [e] \<and> smsConcatUDHElement ref refBits n k = Inr e else e4 = []"
    by (rule buildSMSSubmitUDH_elements)
  define f1 where "f1 = (if sl \<noteq> 0 then \<lambda>i. addElement (hd e1) i\<lparr>uh_HasSingleShift := True, uh_SingleShiftLang := sl\<rparr> else id)"
  define f2 where "f2 = (if ll \<noteq> 0 then \<lambda>i. addElement (hd e2) i\<lparr>uh_HasLockingShift := True, uh_LockingShiftLang := ll\<rparr> else id)"
  define f3 where "f3 = (if hasPorts then \<lambda>i. addElement (hd e3) i\<lparr>uh_HasPorts := True, uh_DestinationPort := d,
    uh_SourcePort := s, uh_PortBits := bits\<rparr> else id)"
  define f4 where "f4 = (if n > 1 then \<lambda>i. addElement (hd e4) i\<lparr>uh_Concat :=
    \<lparr>sc_IsConcat = True, sc_Ref = ref, sc_RefBits = refBits, sc_Total = n, sc_Seq = k\<rparr>\<rparr> else id)"
  have 1: "parseUDHElements (concat e1 @ rest) i = parseUDHElements rest (f1 i)" for rest i
    using e(2,3) parse_single_shift [of sl] by (simp add: f1_def)
  have 2: "parseUDHElements (concat e2 @ rest) i = parseUDHElements rest (f2 i)" for rest i
    using e(4,5) parse_locking_shift [of ll] by (simp add: f2_def)
  have 3: "parseUDHElements (concat e3 @ rest) i = parseUDHElements rest (f3 i)" for rest i
    using e(6) assms(3) parse_ports(1) by (auto simp: f3_def split: if_splits)
  have 4: "parseUDHElements (concat e4 @ rest) i = parseUDHElements rest (f4 i)" for rest i
    using e(7) parse_concat(1) by (auto simp: f4_def split: if_splits)
  have "2 \<le> length udh"
    using assms(2) buildSMSSubmitUDH_length [OF assms(1,3)] by (auto simp: smsSubmitUDHLength_def Let_def split: if_splits)
  moreover have "udh = hd udh # concat e1 @ concat e2 @ concat e3 @ concat e4"
    using assms(2) e(1) by (simp add: smsUDHFromElements_def Let_def split: if_splits)
  then have "drop 1 udh = concat e1 @ concat e2 @ concat e3 @ concat e4 @ []" by (metis append_Nil2 drop0 drop_Suc_Cons One_nat_def)
  ultimately have "parseSMSUDHInfo udh = f4 (f3 (f2 (f1 (NoUDH\<lparr>uh_Raw := udh\<rparr>))))"
    by (simp only: parseSMSUDHInfo_def Let_def 1 2 3 4 parseUDHElements.simps) simp
  then show "uh_Raw (parseSMSUDHInfo udh) = udh"
    and "uh_SingleShiftLang (parseSMSUDHInfo udh) = sl" "uh_LockingShiftLang (parseSMSUDHInfo udh) = ll"
    and "uh_HasPorts (parseSMSUDHInfo udh) = hasPorts"
    and "hasPorts \<Longrightarrow> uh_DestinationPort (parseSMSUDHInfo udh) = d \<and> uh_SourcePort (parseSMSUDHInfo udh) = s"
    and "uh_Concat (parseSMSUDHInfo udh) =
      (if n > 1 then \<lparr>sc_IsConcat = True, sc_Ref = ref, sc_RefBits = refBits, sc_Total = n, sc_Seq = k\<rparr> else NoConcat)"
    by (simp_all add: f1_def f2_def f3_def f4_def addElement_def NoUDH_def)
qed

end
