(* ===== verification/SMS_PDU.thy ===== *)
theory SMS_PDU
  imports SMS_Address SMS_UDH
begin

text \<open>
  The protocol data units of \<^verbatim>\<open>runtimehost/messaging/sms_pdu.go\<close>: user data with its coding, SMS-SUBMIT,
  SMS-DELIVER and SMS-STATUS-REPORT, and the relay layer that carries them.  An error is kept by its fixed text.
\<close>

section \<open>Data coding\<close>

record SMSDataCodingInfo =
  dc_Raw :: u8
  dc_Alphabet :: string
  dc_Compressed :: bool
  dc_AutoDelete :: bool
  dc_HasMessageClass :: bool
  dc_MessageClass :: nat
  dc_MessageWaiting :: bool
  dc_MessageWaitingActive :: bool
  dc_MessageWaitingDiscard :: bool
  dc_MessageWaitingType :: string
  dc_Reserved :: bool

definition NoDataCoding :: SMSDataCodingInfo where
  "NoDataCoding =
     \<lparr>dc_Raw = 0, dc_Alphabet = [], dc_Compressed = False, dc_AutoDelete = False, dc_HasMessageClass = False,
      dc_MessageClass = 0, dc_MessageWaiting = False, dc_MessageWaitingActive = False, dc_MessageWaitingDiscard = False,
      dc_MessageWaitingType = [], dc_Reserved = False\<rparr>"

definition smsMessageWaitingType :: "u8 \<Rightarrow> string" where
  "smsMessageWaitingType dcs =
     (let t = dcs AND 0x03 in
      if t = 0 then ''voicemail'' else if t = 1 then ''fax'' else if t = 2 then ''email'' else ''other'')"

definition ParseSMSDataCodingScheme :: "u8 \<Rightarrow> SMSDataCodingInfo" where
  "ParseSMSDataCodingScheme dcs =
     (let info = NoDataCoding\<lparr>dc_Raw := dcs, dc_Alphabet := ''gsm7''\<rparr>; group = dcs AND 0xf0 in
      if group \<le> 0x70
      then
        let i1 = info\<lparr>dc_AutoDelete := (dcs AND 0x40 \<noteq> 0), dc_Compressed := (dcs AND 0x20 \<noteq> 0)\<rparr>;
            i2 = (if dcs AND 0x10 \<noteq> 0 then i1\<lparr>dc_HasMessageClass := True, dc_MessageClass := unat (dcs AND 0x03)\<rparr> else i1);
            a = dcs AND 0x0c
        in if a = 0x04 then i2\<lparr>dc_Alphabet := ''8bit''\<rparr> else if a = 0x08 then i2\<lparr>dc_Alphabet := ''ucs2''\<rparr>
           else if a = 0x0c then i2\<lparr>dc_Reserved := True\<rparr> else i2
      else if group \<ge> 0x80 \<and> group \<le> 0xb0 then info\<lparr>dc_Reserved := True\<rparr>
      else if group = 0xc0
      then info\<lparr>dc_MessageWaiting := True, dc_MessageWaitingActive := (dcs AND 0x08 \<noteq> 0), dc_MessageWaitingDiscard := True,
             dc_MessageWaitingType := smsMessageWaitingType dcs\<rparr>
      else if group = 0xd0
      then info\<lparr>dc_MessageWaiting := True, dc_MessageWaitingActive := (dcs AND 0x08 \<noteq> 0),
             dc_MessageWaitingType := smsMessageWaitingType dcs\<rparr>
      else if group = 0xe0
      then info\<lparr>dc_Alphabet := ''ucs2'', dc_MessageWaiting := True, dc_MessageWaitingActive := (dcs AND 0x08 \<noteq> 0),
             dc_MessageWaitingType := smsMessageWaitingType dcs\<rparr>
      else if group = 0xf0
      then
        let i1 = info\<lparr>dc_HasMessageClass := True, dc_MessageClass := unat (dcs AND 0x03)\<rparr>
        in if dcs AND 0x04 \<noteq> 0 then i1\<lparr>dc_Alphabet := ''8bit''\<rparr> else i1
      else info)"

definition smsDCSAlphabet :: "u8 \<Rightarrow> string" where
  "smsDCSAlphabet dcs = dc_Alphabet (ParseSMSDataCodingScheme dcs)"

section \<open>User data\<close>

text \<open>The names of the encodings, as text.\<close>

definition encGSM7 :: bytes where "encGSM7 = [103, 115, 109, 55]"
definition encUCS2 :: bytes where "encUCS2 = [117, 99, 115, 50]"
definition encUTF8 :: bytes where "encUTF8 = [117, 116, 102, 56]"

definition encodeSMSUserDataWithLanguage :: "bytes \<Rightarrow> bytes \<Rightarrow> bytes \<Rightarrow> int \<Rightarrow> int \<Rightarrow> (bytes \<times> nat \<times> u8) res" where
  "encodeSMSUserDataWithLanguage txt encoding udh lockingLang singleLang =
     (if encoding = encGSM7
      then
        rbind (encodeGSM7WithLanguage txt lockingLang singleLang) (\<lambda>septets.
          let fillBits = (if length udh > 0 then (7 - (length udh * 8) mod 7) mod 7 else 0);
              userData = udh @ packSeptets septets fillBits;
              udl = length septets + (if length udh > 0 then (length udh * 8 + 6) div 7 else 0)
          in Inr (userData, udl, 0x00))
      else if encoding = encUTF8
      then let userData = udh @ txt in Inr (userData, length userData, 0x04)
      else let userData = udh @ concat (map PutUint16 (utf16_Encode (runes txt))) in Inr (userData, length userData, 0x08))"

definition encodeSMSUserData :: "bytes \<Rightarrow> bytes \<Rightarrow> bytes \<Rightarrow> (bytes \<times> nat \<times> u8) res" where
  "encodeSMSUserData txt encoding udh = encodeSMSUserDataWithLanguage txt encoding udh 0 0"

fun ucs2Units :: "bytes \<Rightarrow> u16 list" where
  "ucs2Units (a # b # rest) = u16_of a b # ucs2Units rest"
| "ucs2Units _ = []"

text \<open>The loop of \<^verbatim>\<open>decodeUCS2\<close>, with the accesses of the code.\<close>

function decodeUCS2_loop :: "bytes \<Rightarrow> nat \<Rightarrow> u16 list res" where
  "decodeUCS2_loop dat i =
     (if i + 1 < length dat
      then rbind (idx i dat) (\<lambda>a. rbind (idx (i + 1) dat) (\<lambda>b.
        rbind (decodeUCS2_loop dat (i + 2)) (\<lambda>units. Inr (u16_of a b # units))))
      else Inr [])"
  by pat_completeness auto
termination
  by (relation "measure (\<lambda>(dat, i). length dat - i)") auto

declare decodeUCS2_loop.simps [simp del]

lemma decodeUCS2_loop_eq [simp]: "decodeUCS2_loop dat i = Inr (ucs2Units (drop i dat))"
proof (induction dat i rule: decodeUCS2_loop.induct)
  case (1 dat i)
  show ?case
  proof (cases "i + 1 < length dat")
    case True
    then have "drop i dat = dat ! i # dat ! Suc i # drop (i + 2) dat" by (simp add: Cons_nth_drop_Suc)
    then show ?thesis using True 1 by (subst decodeUCS2_loop.simps) simp
  next
    case False
    then have "drop i dat = [] \<or> (\<exists>x. drop i dat = [x])" by (cases "drop i dat"; cases "tl (drop i dat)") (auto dest: arg_cong [of _ _ length])
    then show ?thesis using False by (subst decodeUCS2_loop.simps) auto
  qed
qed

definition decodeUCS2 :: "bytes \<Rightarrow> bytes res" where
  "decodeUCS2 dat =
     (if length dat mod 2 \<noteq> 0 then Inl (Fmt ''UCS2 payload has odd length'')
      else rbind (decodeUCS2_loop dat 0) (\<lambda>units. Inr (of_runes (utf16_Decode units))))"

definition smsOctetUserDataLength :: "nat \<Rightarrow> bytes \<Rightarrow> bytes \<Rightarrow> nat res" where
  "smsOctetUserDataLength udl udh payload =
     (let payloadOctets = int udl - (if length udh > 0 then int (length udh) else 0) in
      if payloadOctets < 0 then Inl (Fmt ''SMS user data length is shorter than UDH length'')
      else if payloadOctets > int (length payload) then Inl (Fmt ''SMS user data truncated'')
      else if payloadOctets < int (length payload) then Inl (Fmt ''SMS user data has trailing data'')
      else Inr (nat payloadOctets))"

definition splitSMSUDH :: "bytes \<Rightarrow> bool \<Rightarrow> (bytes \<times> bytes \<times> nat \<times> SMSUserDataHeaderInfo) res" where
  "splitSMSUDH dat hasUDH =
     (if \<not> hasUDH then Inr ([], dat, 0, NoUDH)
      else
        if length dat = 0 then Inl (Fmt ''SMS UDH length missing'')
        else
          rbind (idx 0 dat) (\<lambda>b.
          let headerLen = unat b + 1 in
          if headerLen > length dat then Inl (Fmt ''SMS UDH truncated'')
          else
            rbind (sub 0 headerLen dat) (\<lambda>udh.
            rbind (parseSMSUDHInfo_checked udh) (\<lambda>headerInfo.
            rbind (sub headerLen (length dat) dat) (\<lambda>payload.
              Inr (udh, payload, (headerLen * 8 + 6) div 7, headerInfo))))))"

definition decodeSMSUserDataWithHeader :: "bytes \<Rightarrow> nat \<Rightarrow> u8 \<Rightarrow> bool \<Rightarrow> (bytes \<times> SMSUserDataHeaderInfo) res" where
  "decodeSMSUserDataWithHeader dat udl dcs hasUDH =
     rbind (splitSMSUDH dat hasUDH) (\<lambda>(udh, payload, headerSeptets, headerInfo).
       if smsDCSAlphabet dcs = ''ucs2''
       then
         rbind (smsOctetUserDataLength udl udh payload) (\<lambda>payloadOctets.
         rbind (sub 0 payloadOctets payload) (\<lambda>octets.
         rbind (decodeUCS2 octets) (\<lambda>txt. Inr (txt, headerInfo))))
       else if smsDCSAlphabet dcs = ''8bit''
       then
         rbind (smsOctetUserDataLength udl udh payload) (\<lambda>payloadOctets.
         rbind (sub 0 payloadOctets payload) (\<lambda>octets. Inr (ToValidUTF8 octets, headerInfo)))
       else
         let septets = int udl - (if hasUDH then int headerSeptets else 0) in
         if septets < 0 then Inl (Fmt ''SMS user data length is shorter than UDH septets'')
         else
           let fillBits = (if hasUDH then (7 - (length udh * 8) mod 7) mod 7 else 0);
               payloadOctets = smsPackedSeptetOctets (nat septets) fillBits in
           if payloadOctets > length payload then Inl (Fmt ''SMS user data truncated'')
           else if payloadOctets < length payload then Inl (Fmt ''SMS user data has trailing data'')
           else
             rbind (unpackSeptets_checked payload (nat septets) fillBits) (\<lambda>unpacked.
             rbind (decodeGSM7_loop unpacked 0 (uh_LockingShiftLang headerInfo) (uh_SingleShiftLang headerInfo)) (\<lambda>txt.
               Inr (txt, headerInfo))))"

definition decodeSMSUserData :: "bytes \<Rightarrow> nat \<Rightarrow> u8 \<Rightarrow> bool \<Rightarrow> (bytes \<times> SMSConcatInfo) res" where
  "decodeSMSUserData dat udl dcs hasUDH =
     rbind (decodeSMSUserDataWithHeader dat udl dcs hasUDH) (\<lambda>(txt, headerInfo). Inr (txt, uh_Concat headerInfo))"

section \<open>SMS-SUBMIT\<close>

record SMSPart =
  pt_PartNo :: int
  pt_TotalParts :: int
  pt_Text :: bytes
  pt_Encoding :: bytes
  pt_UDH :: bytes
  pt_ValidityPeriod :: int
  pt_ValidityDeadline :: Time
  pt_ProtocolID :: u8
  pt_DataCodingScheme :: u8
  pt_UseProtocolID :: bool
  pt_UseDataCodingScheme :: bool
  pt_ReplyPath :: bool
  pt_RejectDuplicates :: bool
  pt_ConcatRef :: int
  pt_ConcatRefBits :: int
  pt_ApplicationDestPort :: int
  pt_ApplicationSourcePort :: int
  pt_ApplicationPortBits :: int
  pt_SingleShiftLang :: int
  pt_LockingShiftLang :: int
  pt_RequestStatusReport :: bool

definition normalizeEncoding :: "bytes \<Rightarrow> bytes \<Rightarrow> bytes" where
  "normalizeEncoding txt requested =
     (let req = TrimSpace requested in
      if ToLower_is req ''gsm7'' \<or> ToLower_is req ''7bit'' \<or> ToLower_is req ''gsm-7'' then encGSM7
      else if ToLower_is req ''ucs2'' \<or> ToLower_is req ''utf16'' then encUCS2
      else if ToLower_is req ''utf8'' then encUTF8
      else if isGSM7Text txt then encGSM7
      else encUCS2)"

definition smsEncodingForDCS :: "u8 \<Rightarrow> bytes" where
  "smsEncodingForDCS dcs =
     (if smsDCSAlphabet dcs = ''ucs2'' then encUCS2 else if smsDCSAlphabet dcs = ''8bit'' then encUTF8 else encGSM7)"

definition validateSMSSubmitDataCodingScheme :: "u8 \<Rightarrow> bytes \<Rightarrow> unit res" where
  "validateSMSSubmitDataCodingScheme dcs encoding =
     (let info = ParseSMSDataCodingScheme dcs in
      if dc_Compressed info then Inl (Fmt ''sms compressed data coding scheme is unsupported'')
      else
        let got = (if encoding = encUCS2 then ''ucs2'' else if encoding = encUTF8 then ''8bit'' else ''gsm7'')
        in if dc_Alphabet info \<noteq> got then Inl (Fmt ''sms data coding scheme expects other user data'') else Inr ())"

definition normalizeSMSSubmitEncoding :: "bytes \<Rightarrow> bytes \<Rightarrow> u8 \<Rightarrow> bool \<Rightarrow> bytes res" where
  "normalizeSMSSubmitEncoding txt requested dcs hasDCS =
     (let encodingRequested = (TrimSpace requested \<noteq> []); encoding = normalizeEncoding txt requested in
      if \<not> hasDCS then Inr encoding
      else
        let enc = (if \<not> encodingRequested then smsEncodingForDCS dcs else encoding)
        in rbind (validateSMSSubmitDataCodingScheme dcs enc) (\<lambda>_. Inr enc))"

definition normalizeSMSSubmitEncodingWithLanguage :: "bytes \<Rightarrow> bytes \<Rightarrow> u8 \<Rightarrow> bool \<Rightarrow> int \<Rightarrow> int \<Rightarrow> bytes res" where
  "normalizeSMSSubmitEncodingWithLanguage txt requested dcs hasDCS lockingLang singleLang =
     (if TrimSpace requested \<noteq> [] \<or> hasDCS then normalizeSMSSubmitEncoding txt requested dcs hasDCS
      else if gsm7SeptetLenWithLanguage txt lockingLang singleLang \<noteq> None then Inr encGSM7
      else normalizeSMSSubmitEncoding txt requested dcs hasDCS)"

definition smsSubmitProtocolID :: "SMSPart \<Rightarrow> u8" where
  "smsSubmitProtocolID part = (if pt_UseProtocolID part \<or> pt_ProtocolID part \<noteq> 0 then pt_ProtocolID part else 0)"

definition smsSubmitDataCodingScheme :: "SMSPart \<Rightarrow> u8 \<times> bool" where
  "smsSubmitDataCodingScheme part =
     (if pt_UseDataCodingScheme part \<or> pt_DataCodingScheme part \<noteq> 0 then (pt_DataCodingScheme part, True) else (0, False))"

definition buildSMSSubmitUDHForPart :: "SMSPart \<Rightarrow> bytes res" where
  "buildSMSSubmitUDHForPart part =
     rbind (validateSMSNationalLanguageOptions (pt_SingleShiftLang part) (pt_LockingShiftLang part)) (\<lambda>_.
     rbind (validateSMSApplicationPortOptions (pt_ApplicationDestPort part) (pt_ApplicationSourcePort part)
       (pt_ApplicationPortBits part)) (\<lambda>(portBits, hasPorts).
       if \<not> hasPorts \<and> pt_SingleShiftLang part = 0 \<and> pt_LockingShiftLang part = 0 then Inr []
       else buildSMSSubmitUDH hasPorts (pt_ApplicationDestPort part) (pt_ApplicationSourcePort part) portBits 0 0 1 1
              (pt_SingleShiftLang part) (pt_LockingShiftLang part)))"

definition BuildSMSSubmitTPDU :: "bytes \<Rightarrow> SMSPart \<Rightarrow> u8 \<Rightarrow> bytes res" where
  "BuildSMSSubmitTPDU to part mr =
     (let number = normalizeSMSNumber to in
      if number = [] then Inl (Fmt ''sms destination address is empty'')
      else
        rbind (encodeSMSAddress number) (\<lambda>(digits, toa, bcd).
        let (dcsOverride, hasDCSOverride) = smsSubmitDataCodingScheme part in
        rbind (normalizeSMSSubmitEncodingWithLanguage (pt_Text part) (pt_Encoding part) dcsOverride hasDCSOverride
          (pt_LockingShiftLang part) (pt_SingleShiftLang part)) (\<lambda>encoding.
        rbind (if length (pt_UDH part) = 0 then buildSMSSubmitUDHForPart part else Inr (pt_UDH part)) (\<lambda>udh.
        rbind (encodeSMSSubmitValidityPeriod (pt_ValidityPeriod part) (pt_ValidityDeadline part)) (\<lambda>(vpf, vp).
        let firstOctet = 0x01 OR (if pt_RejectDuplicates part then 0x04 else 0) OR
              (if pt_RequestStatusReport part then 0x20 else 0) OR (if length udh > 0 then 0x40 else 0) OR
              (if pt_ReplyPath part then 0x80 else 0) OR vpf in
        rbind (encodeSMSUserDataWithLanguage (pt_Text part) encoding udh (pt_LockingShiftLang part) (pt_SingleShiftLang part))
          (\<lambda>(userData, udl, dcs0).
          let dcs = (if hasDCSOverride then dcsOverride else dcs0)
          in Inr ([firstOctet, mr, go_byte digits, toa] @ bcd @ [smsSubmitProtocolID part, dcs] @ vp @ [go_byte udl] @ userData)))))))"

section \<open>User data reads back\<close>

lemma enc_distinct [simp]: "encGSM7 \<noteq> encUCS2" "encGSM7 \<noteq> encUTF8" "encUCS2 \<noteq> encUTF8"
    "encUCS2 \<noteq> encGSM7" "encUTF8 \<noteq> encGSM7" "encUTF8 \<noteq> encUCS2"
  by (simp_all add: encGSM7_def encUCS2_def encUTF8_def)

text \<open>The alphabet that a data coding scheme must name for user data in an encoding.\<close>

definition alphabetOf :: "bytes \<Rightarrow> string" where
  "alphabetOf encoding = (if encoding = encUCS2 then ''ucs2'' else if encoding = encUTF8 then ''8bit'' else ''gsm7'')"

lemma ucs2Units_PutUint16: "ucs2Units (concat (map PutUint16 us)) = us"
  by (induction us) (simp_all add: PutUint16_def)

lemma length_PutUint16s: "length (concat (map PutUint16 us)) = 2 * length us"
  by (induction us) simp_all

lemma decodeUCS2_units: "decodeUCS2 (concat (map PutUint16 (utf16_Encode (runes txt)))) = Inr (of_runes (runes txt))"
  by (simp add: decodeUCS2_def length_PutUint16s ucs2Units_PutUint16 utf16_roundtrip scalar_runes)

text \<open>A header that a decoder can find again: its first octet is its length, and it names the languages.\<close>

definition header_for :: "bytes \<Rightarrow> int \<Rightarrow> int \<Rightarrow> bool" where
  "header_for udh ll sl \<longleftrightarrow>
     (if udh = [] then ll = 0 \<and> sl = 0
      else unat (hd udh) + 1 = length udh \<and> uh_LockingShiftLang (parseSMSUDHInfo udh) = ll \<and>
        uh_SingleShiftLang (parseSMSUDHInfo udh) = sl)"

definition header_info :: "bytes \<Rightarrow> SMSUserDataHeaderInfo" where
  "header_info udh = (if udh = [] then NoUDH else parseSMSUDHInfo udh)"

lemma splitSMSUDH_header:
  assumes "header_for udh ll sl"
  shows "splitSMSUDH (udh @ payload) (udh \<noteq> []) =
    Inr (udh, payload, if udh = [] then 0 else (length udh * 8 + 6) div 7, header_info udh)"
  using assms by (cases udh) (simp_all add: splitSMSUDH_def header_info_def header_for_def Let_def)

lemma user_data_roundtrip:
  assumes enc: "encodeSMSUserDataWithLanguage txt encoding udh ll sl = Inr (ud, udl, dcs0)"
    and dcs: "smsDCSAlphabet dcs = alphabetOf encoding" "encoding \<in> {encGSM7, encUCS2, encUTF8}"
    and udh: "header_for udh ll sl" and valid: "ValidUTF8 txt" "27 \<notin> set (runes txt)"
  shows "decodeSMSUserDataWithHeader ud udl dcs (udh \<noteq> []) = Inr (txt, header_info udh)"
proof -
  have langs: "uh_LockingShiftLang (header_info udh) = ll" "uh_SingleShiftLang (header_info udh) = sl"
    using udh by (auto simp: header_for_def header_info_def NoUDH_def split: if_splits)
  note split = splitSMSUDH_header [OF udh]
  consider "encoding = encGSM7" | "encoding = encUCS2" | "encoding = encUTF8" using dcs(2) by blast
  then show ?thesis
  proof cases
    case 1
    let ?fill = "if udh \<noteq> [] then (7 - length udh * 8 mod 7) mod 7 else 0"
    from 1 enc obtain septets where s: "encodeGSM7WithLanguage txt ll sl = Inr septets"
        "ud = udh @ packSeptets septets ?fill" "udl = length septets + (if udh \<noteq> [] then (length udh * 8 + 6) div 7 else 0)"
      by (auto simp: encodeSMSUserDataWithLanguage_def rbind_eq_Inr_iff Let_def)
    have "decodeGSM7WithLanguage (unpackSeptets (packSeptets septets ?fill) (length septets) ?fill) ll sl = txt"
      by (rule gsm7_text_roundtrip [OF s(1) valid(2,1)])
    moreover have "int udl - (if udh \<noteq> [] then int (if udh = [] then 0 else (length udh * 8 + 6) div 7) else 0) = int (length septets)"
      unfolding s(3) by simp
    moreover have "smsDCSAlphabet dcs = ''gsm7''" using dcs(1) 1 by (simp add: alphabetOf_def)
    ultimately show ?thesis
      unfolding decodeSMSUserDataWithHeader_def s(2) split rbind_Inr prod.case
      by (simp add: Let_def length_packSeptets langs)
  next
    case 2
    then have s: "ud = udh @ concat (map PutUint16 (utf16_Encode (runes txt)))" "udl = length ud"
      using enc by (auto simp: encodeSMSUserDataWithLanguage_def Let_def)
    moreover have "smsDCSAlphabet dcs = ''ucs2''" using dcs(1) 2 by (simp add: alphabetOf_def)
    ultimately show ?thesis
      unfolding decodeSMSUserDataWithHeader_def s(1) split rbind_Inr prod.case
      by (simp add: smsOctetUserDataLength_def Let_def decodeUCS2_units of_runes_runes [OF valid(1)])
  next
    case 3
    then have s: "ud = udh @ txt" "udl = length ud"
      using enc by (auto simp: encodeSMSUserDataWithLanguage_def Let_def)
    moreover have "smsDCSAlphabet dcs = ''8bit''" using dcs(1) 3 by (simp add: alphabetOf_def)
    ultimately show ?thesis
      unfolding decodeSMSUserDataWithHeader_def s(1) split rbind_Inr prod.case
      by (simp add: smsOctetUserDataLength_def Let_def valid(1))
  qed
qed

lemma header_for_built:
  assumes "buildSMSSubmitUDH hasPorts d s bits ref refBits n k sl ll = Inr udh"
    and "hasPorts \<Longrightarrow> validateSMSApplicationPortOptions d s bits = Inr (bits, True)"
  shows "header_for udh ll sl"
proof (cases "udh = []")
  case True
  then have "smsSubmitUDHLength hasPorts bits (n > 1) refBits sl ll = 0"
    using buildSMSSubmitUDH_length(1) [OF assms] by simp
  then show ?thesis
    using True by (auto simp: header_for_def smsSubmitUDHLength_def Let_def split: if_splits)
next
  case False
  then show ?thesis
    using parse_built(2,3) [OF assms(1) False assms(2)] buildSMSSubmitUDH_length(2) [OF assms False]
    by (simp add: header_for_def)
qed

end
