(* ===== verification/SMS_TPDU.thy ===== *)
theory SMS_TPDU
  imports SMS_PDU
begin

text \<open>
  What arrives: SMS-DELIVER and SMS-STATUS-REPORT, the relay layer (RP-DATA, RP-ACK, RP-ERROR) and the meaning of
  causes and states, from \<^verbatim>\<open>runtimehost/messaging/sms_pdu.go\<close>.
\<close>

section \<open>SMS-DELIVER\<close>

record SMSDeliver =
  dl_Sender :: bytes
  dl_Recipient :: bytes
  dl_Text :: bytes
  dl_Timestamp :: Time
  dl_Concat :: SMSConcatInfo
  dl_FirstOctet :: u8
  dl_ProtocolID :: u8
  dl_DataCodingScheme :: u8
  dl_DataCoding :: SMSDataCodingInfo
  dl_UserDataLength :: nat
  dl_UserDataHeader :: bool
  dl_UserDataHeaderInfo :: SMSUserDataHeaderInfo
  dl_MoreMessagesToSend :: bool
  dl_StatusReportIndication :: bool
  dl_ReplyPath :: bool
  dl_RawTPDU :: bytes

definition ParseSMSDeliverTPDU :: "bytes \<Rightarrow> SMSDeliver res" where
  "ParseSMSDeliverTPDU tpdu =
     (if length tpdu < 12 then Inl (Fmt ''SMS-DELIVER TPDU too short'')
      else
        rbind (idx 0 tpdu) (\<lambda>firstOctet.
        if firstOctet AND 0x03 \<noteq> 0x00 then Inl (Fmt ''not SMS-DELIVER TPDU'')
        else
          rbind (idx 1 tpdu) (\<lambda>digits.
          rbind (idx 2 tpdu) (\<lambda>oaTOA.
          let oaDigits = unat digits; oaOctets = smsAddressOctets oaDigits oaTOA; i = 3 in
          if i + oaOctets > length tpdu then Inl (Fmt ''SMS-DELIVER originator address truncated'')
          else
            rbind (sub i (i + oaOctets) tpdu) (\<lambda>bcd.
            rbind (decodeSMSAddress oaDigits oaTOA bcd) (\<lambda>sender.
            let i = i + oaOctets in
            if i + 10 > length tpdu then Inl (Fmt ''SMS-DELIVER fields truncated'')
            else
              rbind (idx i tpdu) (\<lambda>pid.
              rbind (idx (i + 1) tpdu) (\<lambda>dcs.
              rbind (sub (i + 2) (i + 9) tpdu) (\<lambda>rawTS.
              rbind (decodeSMSTimestamp rawTS) (\<lambda>ts.
              rbind (idx (i + 9) tpdu) (\<lambda>udlOctet.
              rbind (sub (i + 10) (length tpdu) tpdu) (\<lambda>rest.
              let udl = unat udlOctet; hasUDH = (firstOctet AND 0x40 \<noteq> 0) in
              rbind (decodeSMSUserDataWithHeader rest udl dcs hasUDH) (\<lambda>(txt, headerInfo).
                Inr \<lparr>dl_Sender = sender, dl_Recipient = [], dl_Text = txt, dl_Timestamp = ts, dl_Concat = uh_Concat headerInfo,
                  dl_FirstOctet = firstOctet, dl_ProtocolID = pid, dl_DataCodingScheme = dcs,
                  dl_DataCoding = ParseSMSDataCodingScheme dcs, dl_UserDataLength = udl, dl_UserDataHeader = hasUDH,
                  dl_UserDataHeaderInfo = headerInfo, dl_MoreMessagesToSend = (firstOctet AND 0x04 = 0),
                  dl_StatusReportIndication = (firstOctet AND 0x20 \<noteq> 0), dl_ReplyPath = (firstOctet AND 0x80 \<noteq> 0),
                  dl_RawTPDU = tpdu\<rparr>)))))))))))))"

section \<open>SMS-STATUS-REPORT\<close>

record SMSStatusReport =
  sr_Reference :: u8
  sr_Recipient :: bytes
  sr_Timestamp :: Time
  sr_DoneAt :: Time
  sr_Status :: u8
  sr_State :: string
  sr_FirstOctet :: u8
  sr_MoreMessagesToSend :: bool
  sr_StatusReportQualifier :: bool
  sr_UserDataHeader :: bool
  sr_ParameterIndicator :: u8
  sr_HasParameterIndicator :: bool
  sr_ProtocolID :: u8
  sr_HasProtocolID :: bool
  sr_DataCodingScheme :: u8
  sr_HasDataCodingScheme :: bool
  sr_DataCoding :: SMSDataCodingInfo
  sr_UserDataLength :: nat
  sr_UserDataHeaderInfo :: SMSUserDataHeaderInfo
  sr_UserData :: bytes
  sr_HasUserData :: bool
  sr_RawTPDU :: bytes

definition smsStatusReportState :: "u8 \<Rightarrow> string" where
  "smsStatusReportState status =
     (if status \<le> 0x1f then ''delivered'' else if status \<ge> 0x40 then ''failed'' else ''accepted'')"

definition parseSMSStatusReportOptionalParameters :: "bytes \<Rightarrow> SMSStatusReport \<Rightarrow> SMSStatusReport res" where
  "parseSMSStatusReportOptionalParameters dat report =
     (if length dat = 0 then Inr report
      else
        rbind (idx 0 dat) (\<lambda>ind.
        let r0 = report\<lparr>sr_ParameterIndicator := ind, sr_HasParameterIndicator := True\<rparr> in
        rbind (if ind AND 0x01 \<noteq> 0
               then (if 1 \<ge> length dat then Inl (Fmt ''SMS-STATUS-REPORT PID missing'')
                     else rbind (idx 1 dat) (\<lambda>b. Inr (r0\<lparr>sr_ProtocolID := b, sr_HasProtocolID := True\<rparr>, 2)))
               else Inr (r0, 1)) (\<lambda>(r1, i).
        rbind (if ind AND 0x02 \<noteq> 0
               then (if i \<ge> length dat then Inl (Fmt ''SMS-STATUS-REPORT DCS missing'')
                     else rbind (idx i dat) (\<lambda>b.
                       Inr (r1\<lparr>sr_DataCodingScheme := b, sr_DataCoding := ParseSMSDataCodingScheme b,
                              sr_HasDataCodingScheme := True\<rparr>, i + 1)))
               else Inr (r1, i)) (\<lambda>(r2, i).
        if ind AND 0x04 \<noteq> 0
        then (if i \<ge> length dat then Inl (Fmt ''SMS-STATUS-REPORT UDL missing'')
              else
                rbind (idx i dat) (\<lambda>b.
                rbind (sub (i + 1) (length dat) dat) (\<lambda>rest.
                rbind (decodeSMSUserDataWithHeader rest (unat b) (sr_DataCodingScheme r2) (sr_UserDataHeader r2))
                  (\<lambda>(txt, headerInfo).
                  Inr (r2\<lparr>sr_UserDataLength := unat b, sr_UserDataHeaderInfo := headerInfo, sr_UserData := txt,
                         sr_HasUserData := True\<rparr>)))))
        else Inr r2))))"

definition ParseSMSStatusReportTPDU :: "bytes \<Rightarrow> SMSStatusReport res" where
  "ParseSMSStatusReportTPDU tpdu =
     (if length tpdu < 17 then Inl (Fmt ''SMS-STATUS-REPORT TPDU too short'')
      else
        rbind (idx 0 tpdu) (\<lambda>b0.
        if b0 AND 0x03 \<noteq> 0x02 then Inl (Fmt ''not SMS-STATUS-REPORT TPDU'')
        else
          rbind (idx 1 tpdu) (\<lambda>ref.
          rbind (idx 2 tpdu) (\<lambda>digits.
          rbind (idx 3 tpdu) (\<lambda>raTOA.
          let raDigits = unat digits; raOctets = smsAddressOctets raDigits raTOA; i = 4 in
          if i + raOctets > length tpdu then Inl (Fmt ''SMS-STATUS-REPORT recipient address truncated'')
          else
            rbind (sub i (i + raOctets) tpdu) (\<lambda>bcd.
            rbind (decodeSMSAddress raDigits raTOA bcd) (\<lambda>recipient.
            let i = i + raOctets in
            if i + 15 > length tpdu then Inl (Fmt ''SMS-STATUS-REPORT timestamps truncated'')
            else
              rbind (sub i (i + 7) tpdu) (\<lambda>raw1.
              rbind (decodeSMSTimestamp raw1) (\<lambda>ts.
              rbind (sub (i + 7) (i + 14) tpdu) (\<lambda>raw2.
              rbind (decodeSMSTimestamp raw2) (\<lambda>doneAt.
              rbind (idx (i + 14) tpdu) (\<lambda>status.
              let report =
                \<lparr>sr_Reference = ref, sr_Recipient = recipient, sr_Timestamp = ts, sr_DoneAt = doneAt, sr_Status = status,
                 sr_State = smsStatusReportState status, sr_FirstOctet = b0, sr_MoreMessagesToSend = (b0 AND 0x04 = 0),
                 sr_StatusReportQualifier = (b0 AND 0x20 \<noteq> 0), sr_UserDataHeader = (b0 AND 0x40 \<noteq> 0),
                 sr_ParameterIndicator = 0, sr_HasParameterIndicator = False, sr_ProtocolID = 0, sr_HasProtocolID = False,
                 sr_DataCodingScheme = 0, sr_HasDataCodingScheme = False, sr_DataCoding = NoDataCoding,
                 sr_UserDataLength = 0, sr_UserDataHeaderInfo = NoUDH, sr_UserData = [], sr_HasUserData = False,
                 sr_RawTPDU = tpdu\<rparr> in
              if i + 15 < length tpdu
              then rbind (sub (i + 15) (length tpdu) tpdu) (\<lambda>rest. parseSMSStatusReportOptionalParameters rest report)
              else Inr report))))))))))))"

definition smsStatusReportFirstOctet :: "SMSStatusReport \<Rightarrow> u8" where
  "smsStatusReportFirstOctet report =
     (if sr_FirstOctet report \<noteq> 0 then (sr_FirstOctet report AND NOT 0x03) OR 0x02
      else 0x02 OR (if \<not> sr_MoreMessagesToSend report then 0x04 else 0) OR
        (if sr_StatusReportQualifier report then 0x20 else 0) OR
        (if sr_UserDataHeader report \<or> length (uh_Raw (sr_UserDataHeaderInfo report)) > 0 then 0x40 else 0))"

text \<open>\<^verbatim>\<open>firstOctet\<close> is passed by pointer and may get the header bit: it is returned with the octets.\<close>

definition encodeSMSStatusReportOptionalParameters :: "SMSStatusReport \<Rightarrow> u8 \<Rightarrow> (bytes \<times> u8) res" where
  "encodeSMSStatusReportOptionalParameters report firstOctet =
     (let hasProtocolID = (sr_HasProtocolID report \<or> sr_ProtocolID report \<noteq> 0);
          dcs = (if \<not> sr_HasDataCodingScheme report \<and> sr_DataCodingScheme report = 0 \<and> dc_Raw (sr_DataCoding report) \<noteq> 0
                 then dc_Raw (sr_DataCoding report) else sr_DataCodingScheme report);
          hasDataCodingScheme = (sr_HasDataCodingScheme report \<or> dcs \<noteq> 0);
          udh = uh_Raw (sr_UserDataHeaderInfo report); headerInfo = sr_UserDataHeaderInfo report;
          parsed = parseSMSUDHInfo udh;
          lockingLang = (if length udh > 0 \<and> \<not> uh_HasLockingShift headerInfo \<and> uh_HasLockingShift parsed
                         then uh_LockingShiftLang parsed else uh_LockingShiftLang headerInfo);
          singleLang = (if length udh > 0 \<and> \<not> uh_HasSingleShift headerInfo \<and> uh_HasSingleShift parsed
                        then uh_SingleShiftLang parsed else uh_SingleShiftLang headerInfo);
          hasUserData = (sr_HasUserData report \<or> sr_UserData report \<noteq> [] \<or> sr_UserDataLength report \<noteq> 0 \<or> length udh > 0) in
      if (sr_UserDataHeader report \<or> firstOctet AND 0x40 \<noteq> 0) \<and> length udh = 0
      then Inl (Fmt ''SMS-STATUS-REPORT user data header is empty'')
      else
        rbind (if hasUserData
               then
                 let encoding = smsEncodingForDCS dcs in
                 rbind (validateSMSSubmitDataCodingScheme dcs encoding) (\<lambda>_.
                 rbind (encodeSMSUserDataWithLanguage (sr_UserData report) encoding udh lockingLang singleLang)
                   (\<lambda>(userData, udl, _).
                   if udl > 255 then Inl (Fmt ''SMS-STATUS-REPORT user data length too long'')
                   else Inr (userData, udl, if length udh > 0 then firstOctet OR 0x40 else firstOctet)))
               else Inr ([], 0, firstOctet)) (\<lambda>(userData, udl, fo).
        if fo AND 0x40 \<noteq> 0 \<and> \<not> hasUserData then Inl (Fmt ''SMS-STATUS-REPORT user data header requires user data'')
        else if \<not> (sr_HasParameterIndicator report \<or> hasProtocolID \<or> hasDataCodingScheme \<or> hasUserData) then Inr ([], fo)
        else
          let ind = (sr_ParameterIndicator report AND NOT 0x07) OR (if hasProtocolID then 0x01 else 0) OR
                (if hasDataCodingScheme then 0x02 else 0) OR (if hasUserData then 0x04 else 0)
          in Inr ([ind] @ (if hasProtocolID then [sr_ProtocolID report] else []) @
                  (if hasDataCodingScheme then [dcs] else []) @
                  (if hasUserData then [go_byte udl] @ userData else []), fo)))"

definition BuildSMSStatusReportTPDU :: "SMSStatusReport \<Rightarrow> bytes res" where
  "BuildSMSStatusReportTPDU report =
     (let number = normalizeSMSNumber (sr_Recipient report) in
      if number = [] then Inl (Fmt ''SMS-STATUS-REPORT recipient address is empty'')
      else
        rbind (encodeSMSAddress number) (\<lambda>(digits, toa, bcd).
        rbind (encodeSMSTimestamp (sr_Timestamp report)) (\<lambda>ts.
        rbind (encodeSMSTimestamp (sr_DoneAt report)) (\<lambda>doneAt.
        rbind (encodeSMSStatusReportOptionalParameters report (smsStatusReportFirstOctet report)) (\<lambda>(optional, firstOctet).
          Inr ([firstOctet, sr_Reference report, go_byte digits, toa] @ bcd @ ts @ doneAt @ [sr_Status report] @ optional))))))"

section \<open>The relay layer\<close>

datatype SMSRPDUKind = SMSRPDUKindUnknown | SMSRPDUKindData | SMSRPDUKindAck | SMSRPDUKindError

record SMSRPDU =
  rp_Kind :: SMSRPDUKind
  rp_RawType :: u8
  rp_MR :: u8
  rp_Cause :: nat
  rp_CauseDiagnostics :: bytes
  rp_Originator :: bytes
  rp_Destination :: bytes
  rp_TPDU :: bytes

definition BuildSMSRPData :: "u8 \<Rightarrow> bytes \<Rightarrow> bytes \<Rightarrow> bytes res" where
  "BuildSMSRPData rpMR smsc tpdu =
     (if length tpdu > 255 then Inl (Fmt ''SMS TPDU too long'')
      else rbind (encodeRPAddress smsc) (\<lambda>rpDA. Inr ([0x00, rpMR, 0x00] @ rpDA @ [go_byte (length tpdu)] @ tpdu)))"

text \<open>One length-prefixed address of RP-DATA at an offset: the address and the offset after it.\<close>

definition parseRPAddressAt :: "bytes \<Rightarrow> nat \<Rightarrow> string \<Rightarrow> (bytes \<times> nat) res" where
  "parseRPAddressAt body i label =
     (if i \<ge> length body then Inl (Fmt (label @ '' address missing''))
      else
        rbind (idx i body) (\<lambda>b.
        let n = unat b; i = i + 1 in
        if i + n > length body then Inl (Fmt (label @ '' address truncated''))
        else
          rbind (if n > 0 then rbind (sub i (i + n) body) decodeRPAddressValue else Inr []) (\<lambda>addr. Inr (addr, i + n))))"

definition parseSMSRPDataFields :: "bytes \<Rightarrow> (bytes \<times> bytes \<times> bytes) res" where
  "parseSMSRPDataFields body =
     (if length body < 5 then Inl (Fmt ''RP-DATA too short'')
      else
        rbind (parseRPAddressAt body 2 ''RP originator'') (\<lambda>(originator, i).
        rbind (parseRPAddressAt body i ''RP destination'') (\<lambda>(destination, i).
        if i \<ge> length body then Inl (Fmt ''RP user data missing'')
        else
          rbind (idx i body) (\<lambda>b.
          let udLen = unat b; i = i + 1 in
          if i + udLen > length body then Inl (Fmt ''RP user data truncated'')
          else if i + udLen \<noteq> length body then Inl (Fmt ''RP-DATA has trailing data'')
          else rbind (sub i (i + udLen) body) (\<lambda>tpdu. Inr (originator, destination, tpdu))))))"

definition parseSMSRPErrorCauseFields :: "bytes \<Rightarrow> (u8 \<times> bytes \<times> nat) res" where
  "parseSMSRPErrorCauseFields body =
     (if length body < 4 then Inl (Fmt ''RP-ERROR too short'')
      else
        rbind (idx 0 body) (\<lambda>t.
        if t \<noteq> 0x04 \<and> t \<noteq> 0x05 then Inl (Fmt ''not RP-ERROR'')
        else
          rbind (idx 2 body) (\<lambda>b.
          let causeLen = unat b in
          if causeLen = 0 then Inl (Fmt ''RP-ERROR cause IE empty'')
          else if 3 + causeLen > length body then Inl (Fmt ''RP-ERROR cause IE truncated'')
          else
            rbind (if causeLen > 1 then sub 4 (3 + causeLen) body else Inr []) (\<lambda>diagnostics.
            rbind (idx 3 body) (\<lambda>cause. Inr (cause AND 0x7f, diagnostics, 3 + causeLen))))))"

definition ParseSMSRPErrorCause :: "bytes \<Rightarrow> u8 res" where
  "ParseSMSRPErrorCause body = rbind (parseSMSRPErrorCauseFields body) (\<lambda>(cause, _, _). Inr cause)"

definition parseSMSRPUserData :: "bytes \<Rightarrow> nat \<Rightarrow> string \<Rightarrow> bytes res" where
  "parseSMSRPUserData body offset label =
     (if offset \<ge> length body then Inr []
      else
        rbind (idx offset body) (\<lambda>b.
        let udLen = unat b; offset = offset + 1 in
        if offset + udLen > length body then Inl (Fmt (label @ '' user data truncated''))
        else if udLen = 0
        then (if offset \<noteq> length body then Inl (Fmt (label @ '' has trailing data'')) else Inr [])
        else if offset + udLen \<noteq> length body then Inl (Fmt (label @ '' has trailing data''))
        else sub offset (offset + udLen) body))"

definition ParseSMSRPDU :: "bytes \<Rightarrow> SMSRPDU res" where
  "ParseSMSRPDU body =
     (if length body < 2 then Inl (Fmt ''RPDU too short'')
      else
        rbind (idx 0 body) (\<lambda>t.
        rbind (idx 1 body) (\<lambda>mr.
        let rpdu = \<lparr>rp_Kind = SMSRPDUKindUnknown, rp_RawType = t, rp_MR = mr, rp_Cause = 0, rp_CauseDiagnostics = [],
              rp_Originator = [], rp_Destination = [], rp_TPDU = []\<rparr> in
        if t = 0x00 \<or> t = 0x01
        then rbind (parseSMSRPDataFields body) (\<lambda>(originator, destination, tpdu).
          Inr (rpdu\<lparr>rp_Kind := SMSRPDUKindData, rp_Originator := originator, rp_Destination := destination, rp_TPDU := tpdu\<rparr>))
        else if t = 0x02 \<or> t = 0x03
        then rbind (parseSMSRPUserData body 2 ''RP-ACK'') (\<lambda>tpdu. Inr (rpdu\<lparr>rp_Kind := SMSRPDUKindAck, rp_TPDU := tpdu\<rparr>))
        else if t = 0x04 \<or> t = 0x05
        then
          rbind (parseSMSRPErrorCauseFields body) (\<lambda>(cause, diagnostics, next').
          rbind (parseSMSRPUserData body next' ''RP-ERROR'') (\<lambda>tpdu.
            Inr (rpdu\<lparr>rp_Kind := SMSRPDUKindError, rp_Cause := unat cause, rp_CauseDiagnostics := diagnostics, rp_TPDU := tpdu\<rparr>)))
        else Inl (Fmt ''unsupported RPDU type''))))"

definition ParseSMSRPData :: "bytes \<Rightarrow> (u8 \<times> bytes) res" where
  "ParseSMSRPData body =
     rbind (ParseSMSRPDU body) (\<lambda>rpdu.
       if rp_Kind rpdu \<noteq> SMSRPDUKindData then Inl (Fmt ''not RP-DATA'') else Inr (rp_MR rpdu, rp_TPDU rpdu))"

definition BuildSMSRPAck :: "u8 \<Rightarrow> bytes" where
  "BuildSMSRPAck rpMR = [0x02, rpMR]"

definition BuildSMSRPAckWithTPDU :: "u8 \<Rightarrow> bytes \<Rightarrow> bytes res" where
  "BuildSMSRPAckWithTPDU rpMR tpdu =
     (if length tpdu > 255 then Inl (Fmt ''SMS TPDU too long'') else Inr ([0x02, rpMR, go_byte (length tpdu)] @ tpdu))"

definition BuildSMSRPError :: "u8 \<Rightarrow> u8 \<Rightarrow> bytes" where
  "BuildSMSRPError rpMR cause = [0x04, rpMR, 0x01, cause, 0x00]"

definition BuildSMSRPErrorWithDiagnostics :: "u8 \<Rightarrow> u8 \<Rightarrow> bytes \<Rightarrow> bytes \<Rightarrow> bytes res" where
  "BuildSMSRPErrorWithDiagnostics rpMR cause diagnostics tpdu =
     (if length diagnostics > 254 then Inl (Fmt ''SMS RP-ERROR diagnostics too long'')
      else if length tpdu > 255 then Inl (Fmt ''SMS TPDU too long'')
      else Inr ([0x04, rpMR, go_byte (1 + length diagnostics), cause] @ diagnostics @ [go_byte (length tpdu)] @ tpdu))"

section \<open>The relay layer reads back what it writes\<close>

lemma normalize_Nil [simp]: "normalizeSMSNumber [] = []"
proof -
  have "TrimSpace [] = []" using TrimSpace_number [of "[]"] by simp
  then show ?thesis
    by (simp add: normalizeSMSNumber_def stripSIPURI_def ToLower_HasPrefix_def Trim_def)
qed

text \<open>The address of the service centre as it is read back.\<close>

definition rpDestination :: "bytes \<Rightarrow> bytes" where
  "rpDestination smsc = map telDigit (normalizeSMSNumber (normalizeSMSNumber smsc))"

lemma rpDestination_dialable: "dialable smsc \<Longrightarrow> rpDestination smsc = map telDigit smsc"
  by (simp add: rpDestination_def normalize_dialable)

lemma encodeRPAddress_shape:
  assumes "encodeRPAddress smsc = Inr a"
  obtains v where "a = go_byte (length v) # v" "length v < 256" "decodeRPAddressValue v = Inr (rpDestination smsc)"
proof (cases "normalizeSMSNumber smsc = []")
  case True
  with assms that [of "[]"] show thesis
    by (simp add: encodeRPAddress_def rpDestination_def decodeRPAddressValue_def go_byte_def)
next
  case False
  with assms obtain d toa bcd where e: "encodeSMSAddress (normalizeSMSNumber smsc) = Inr (d, toa, bcd)" "length bcd \<le> 254"
      "a = go_byte (1 + length bcd) # toa # bcd"
    by (auto simp: encodeRPAddress_def Let_def rbind_eq_Inr_iff split: if_splits)
  from decodeSMSAddress_encodeSMSAddress(2) [OF e(1)] e that [of "toa # bcd"] show thesis
    by (simp add: rpDestination_def)
qed

lemma parseRPAddressAt_value:
  assumes "length v < 256" "decodeRPAddressValue v = Inr x" "i = length pre"
  shows "parseRPAddressAt (pre @ go_byte (length v) # v @ rest) i label = Inr (x, i + 1 + length v)"
proof (cases "v = []")
  case True
  then have "x = []" using assms(2) by (simp add: decodeRPAddressValue_def)
  with True assms(3) show ?thesis by (simp add: parseRPAddressAt_def nth_append Let_def)
next
  case False
  with assms show ?thesis by (simp add: parseRPAddressAt_def nth_append Let_def)
qed

lemma rp_data_roundtrip:
  assumes "BuildSMSRPData mr smsc tpdu = Inr body"
  shows "ParseSMSRPDU body = Inr \<lparr>rp_Kind = SMSRPDUKindData, rp_RawType = 0, rp_MR = mr, rp_Cause = 0,
    rp_CauseDiagnostics = [], rp_Originator = [], rp_Destination = rpDestination smsc, rp_TPDU = tpdu\<rparr>"
proof -
  from assms obtain a where a: "encodeRPAddress smsc = Inr a" "length tpdu \<le> 255"
      "body = [0x00, mr, 0x00] @ a @ [go_byte (length tpdu)] @ tpdu"
    by (auto simp: BuildSMSRPData_def rbind_eq_Inr_iff split: if_splits)
  from encodeRPAddress_shape [OF a(1)] obtain v where v: "a = go_byte (length v) # v" "length v < 256"
      "decodeRPAddressValue v = Inr (rpDestination smsc)" .
  have "parseRPAddressAt body 2 ''RP originator'' = Inr ([], 3)"
    unfolding a(3) by (simp add: parseRPAddressAt_def)
  moreover have "parseRPAddressAt body 3 ''RP destination'' = Inr (rpDestination smsc, 4 + length v)"
    using parseRPAddressAt_value [OF v(2,3), of 3 "[0x00, mr, 0x00]" "go_byte (length tpdu) # tpdu" "''RP destination''"]
    unfolding a(3) v(1) by simp
  moreover have "length body = 5 + length v + length tpdu" by (simp add: a(3) v(1))
  moreover have "body ! (4 + length v) = go_byte (length tpdu)"
    by (simp add: a(3) v(1) nth_append nth_Cons')
  moreover have "drop (5 + length v) body = tpdu" by (simp add: a(3) v(1))
  moreover have "body ! 0 = 0" "body ! 1 = mr" by (simp_all add: a(3))
  ultimately show ?thesis
    using a(2) by (simp add: ParseSMSRPDU_def parseSMSRPDataFields_def Let_def)
qed

lemma rp_ack_roundtrip:
  assumes "BuildSMSRPAckWithTPDU mr tpdu = Inr body"
  shows "ParseSMSRPDU body = Inr \<lparr>rp_Kind = SMSRPDUKindAck, rp_RawType = 2, rp_MR = mr, rp_Cause = 0,
    rp_CauseDiagnostics = [], rp_Originator = [], rp_Destination = [], rp_TPDU = tpdu\<rparr>"
  using assms
  by (auto simp: BuildSMSRPAckWithTPDU_def ParseSMSRPDU_def parseSMSRPUserData_def Let_def split: if_splits)

lemma rp_error_roundtrip:
  assumes "BuildSMSRPErrorWithDiagnostics mr cause diagnostics tpdu = Inr body"
  shows "ParseSMSRPDU body = Inr \<lparr>rp_Kind = SMSRPDUKindError, rp_RawType = 4, rp_MR = mr, rp_Cause = unat (cause AND 0x7f),
    rp_CauseDiagnostics = diagnostics, rp_Originator = [], rp_Destination = [], rp_TPDU = tpdu\<rparr>"
proof -
  have b: "body = [0x04, mr, go_byte (1 + length diagnostics), cause] @ diagnostics @ [go_byte (length tpdu)] @ tpdu"
      "length diagnostics \<le> 254" "length tpdu \<le> 255"
    using assms by (auto simp: BuildSMSRPErrorWithDiagnostics_def split: if_splits)
  have "parseSMSRPErrorCauseFields body = Inr (cause AND 0x7f, diagnostics, 4 + length diagnostics)"
    using b(2) by (cases diagnostics) (simp_all add: b(1) parseSMSRPErrorCauseFields_def Let_def)
  moreover have "parseSMSRPUserData body (4 + length diagnostics) ''RP-ERROR'' = Inr tpdu"
    using b(3) by (auto simp: b(1) parseSMSRPUserData_def Let_def nth_append)
  ultimately show ?thesis
    by (simp add: ParseSMSRPDU_def b(1))
qed

text \<open>the relay layer carries what it is given.  RP-DATA built by \<^verbatim>\<open>BuildSMSRPData\<close> is read by
  \<^verbatim>\<open>ParseSMSRPDU\<close> as RP-DATA with the same reference and the same TPDU and with the number of the service centre; an
  acknowledgement and an error report come back with their TPDU, an error report with its diagnostics and the seven
  bits of its cause.\<close>

theorem rp_messages_roundtrip:
  "(BuildSMSRPData mr smsc tpdu = Inr body \<longrightarrow>
     ParseSMSRPDU body = Inr \<lparr>rp_Kind = SMSRPDUKindData, rp_RawType = 0, rp_MR = mr, rp_Cause = 0,
       rp_CauseDiagnostics = [], rp_Originator = [], rp_Destination = rpDestination smsc, rp_TPDU = tpdu\<rparr>) \<and>
   (BuildSMSRPAckWithTPDU mr tpdu = Inr body \<longrightarrow>
     ParseSMSRPDU body = Inr \<lparr>rp_Kind = SMSRPDUKindAck, rp_RawType = 2, rp_MR = mr, rp_Cause = 0,
       rp_CauseDiagnostics = [], rp_Originator = [], rp_Destination = [], rp_TPDU = tpdu\<rparr>) \<and>
   (BuildSMSRPErrorWithDiagnostics mr cause diagnostics tpdu = Inr body \<longrightarrow>
     ParseSMSRPDU body = Inr \<lparr>rp_Kind = SMSRPDUKindError, rp_RawType = 4, rp_MR = mr, rp_Cause = unat (cause AND 0x7f),
       rp_CauseDiagnostics = diagnostics, rp_Originator = [], rp_Destination = [], rp_TPDU = tpdu\<rparr>)"
  using rp_data_roundtrip rp_ack_roundtrip rp_error_roundtrip by blast

theorem rp_messages_roundtrip_witness:
  "BuildSMSRPData 7 [43, 49, 50] [1, 2] = Inr [0, 7, 0, 2, 0x91, 0x21, 2, 1, 2] \<and>
    ParseSMSRPDU [0, 7, 0, 2, 0x91, 0x21, 2, 1, 2] = Inr \<lparr>rp_Kind = SMSRPDUKindData, rp_RawType = 0, rp_MR = 7, rp_Cause = 0,
       rp_CauseDiagnostics = [], rp_Originator = [], rp_Destination = [43, 49, 50], rp_TPDU = [1, 2]\<rparr>"
proof -
  have "dialable [43, 49, 50]" "encodeSMSAddress [43, 49, 50] = Inr (2, 0x91, [0x21])" "map telDigit [43, 49, 50] = [43, 49, 50]"
    by code_simp+
  then show ?thesis
    using rp_messages_roundtrip [of 7 "[43, 49, 50]" "[1, 2]" "[0, 7, 0, 2, 0x91, 0x21, 2, 1, 2]"] normalize_dialable [of "[43, 49, 50]"]
    by (simp add: BuildSMSRPData_def encodeRPAddress_def rpDestination_def go_byte_def)
qed

section \<open>Status reports read back\<close>

lemma flag_bits:
  fixes x :: u8
  shows "x AND 0x01 = 0 \<longleftrightarrow> \<not> bit x 0" "x AND 0x02 = 0 \<longleftrightarrow> \<not> bit x 1" "x AND 0x04 = 0 \<longleftrightarrow> \<not> bit x 2"
    "x AND 0x08 = 0 \<longleftrightarrow> \<not> bit x 3" "x AND 0x10 = 0 \<longleftrightarrow> \<not> bit x 4" "x AND 0x20 = 0 \<longleftrightarrow> \<not> bit x 5"
    "x AND 0x40 = 0 \<longleftrightarrow> \<not> bit x 6" "x AND 0x80 = 0 \<longleftrightarrow> \<not> bit x 7"
  using and_exp_eq_0_iff_not_bit [of x 0] and_exp_eq_0_iff_not_bit [of x 1] and_exp_eq_0_iff_not_bit [of x 2]
    and_exp_eq_0_iff_not_bit [of x 3] and_exp_eq_0_iff_not_bit [of x 4] and_exp_eq_0_iff_not_bit [of x 5]
    and_exp_eq_0_iff_not_bit [of x 6] and_exp_eq_0_iff_not_bit [of x 7]
  by simp_all

lemma octet_all:
  assumes "list_all P (map word_of_int [0..255])"
  shows "P (b :: u8)"
proof -
  have "b = word_of_int (uint b)" "uint b \<in> set [0..255]" using uint_bounded [of b] by simp_all
  then have "b \<in> set (map word_of_int [0..255])" by (metis image_eqI set_map)
  with assms show ?thesis by (metis list_all_iff)
qed

lemma tpdu_type: fixes x :: u8 shows "x AND 0x03 = 0x02 \<longleftrightarrow> \<not> bit x 0 \<and> bit x 1" "x AND 0x03 = 0 \<longleftrightarrow> \<not> bit x 0 \<and> \<not> bit x 1"
proof -
  show "x AND 0x03 = 0x02 \<longleftrightarrow> \<not> bit x 0 \<and> bit x 1" by (rule octet_all) code_simp
  show "x AND 0x03 = 0 \<longleftrightarrow> \<not> bit x 0 \<and> \<not> bit x 1" by (rule octet_all) code_simp
qed

lemma alphabet_cases: "smsDCSAlphabet dcs \<in> {''gsm7'', ''8bit'', ''ucs2''}"
  by (simp add: smsDCSAlphabet_def ParseSMSDataCodingScheme_def NoDataCoding_def Let_def)

lemma alphabetOf_DCS: "alphabetOf (smsEncodingForDCS dcs) = smsDCSAlphabet dcs" "smsEncodingForDCS dcs \<in> {encGSM7, encUCS2, encUTF8}"
  using alphabet_cases [of dcs] by (auto simp: smsEncodingForDCS_def alphabetOf_def)

lemma first_octet_bits:
  "bit (smsStatusReportFirstOctet r) 0 = False" "bit (smsStatusReportFirstOctet r) 1 = True"
  by (simp_all add: smsStatusReportFirstOctet_def bit_or_iff bit_and_iff bit_not_iff)

lemma indicator_bits:
  fixes p :: u8 and a b c :: bool
  defines "i \<equiv> (p AND NOT 0x07) OR (if a then 0x01 else 0) OR (if b then 0x02 else 0) OR (if c then 0x04 else 0)"
  shows "bit i 0 = a" "bit i 1 = b" "bit i 2 = c"
  unfolding i_def by (simp_all add: bit_or_iff bit_and_iff bit_not_iff)

lemma uh_Raw_parseUDHElements: "uh_Raw (parseUDHElements d info) = uh_Raw info"
proof (induction d info rule: parseUDHElements.induct)
  case (1 iei iedl rest info)
  have "uh_Raw (parseUDHElement iei ie i) = uh_Raw i" for ie i
    by (simp add: parseUDHElement_def split: list.split)
  with 1 show ?case by (simp add: Let_def)
qed simp_all

lemma uh_Raw_header_info [simp]: "uh_Raw (header_info udh) = udh"
  by (simp add: header_info_def parseSMSUDHInfo_def Let_def uh_Raw_parseUDHElements NoUDH_def)

text \<open>The data coding scheme that a report is written with.\<close>

definition reportDCS :: "SMSStatusReport \<Rightarrow> u8" where
  "reportDCS r =
     (if \<not> sr_HasDataCodingScheme r \<and> sr_DataCodingScheme r = 0 \<and> dc_Raw (sr_DataCoding r) \<noteq> 0
      then dc_Raw (sr_DataCoding r) else sr_DataCodingScheme r)"

text \<open>The header of a report is one that a reader can find.\<close>

definition report_header :: "SMSStatusReport \<Rightarrow> bytes \<Rightarrow> bool" where
  "report_header r udh \<longleftrightarrow> sr_UserDataHeaderInfo r = header_info udh \<and> (udh \<noteq> [] \<longrightarrow> unat (hd udh) + 1 = length udh)"

lemma report_header_for:
  "report_header r udh \<Longrightarrow>
    header_for udh (uh_LockingShiftLang (sr_UserDataHeaderInfo r)) (uh_SingleShiftLang (sr_UserDataHeaderInfo r))"
  by (cases "udh = []") (auto simp: report_header_def header_for_def header_info_def NoUDH_def)

lemma validate_alphabet:
  "validateSMSSubmitDataCodingScheme dcs encoding = Inr u \<Longrightarrow> encoding \<in> {encGSM7, encUCS2, encUTF8} \<Longrightarrow>
    smsDCSAlphabet dcs = alphabetOf encoding"
  by (auto simp: validateSMSSubmitDataCodingScheme_def smsDCSAlphabet_def alphabetOf_def Let_def split: if_splits)

lemma optional_parameters_written:
  assumes "encodeSMSStatusReportOptionalParameters r fo0 = Inr (opt, fo)" "report_header r udh"
  obtains (none) "opt = []" "sr_ProtocolID r = 0" "reportDCS r = 0" "sr_UserData r = []" "udh = []"
      "fo = fo0" "fo0 AND 0x40 = 0"
  | (some) hp hd hu ud udl where
      "opt = [(sr_ParameterIndicator r AND NOT 0x07) OR (if hp then 0x01 else 0) OR (if hd then 0x02 else 0) OR
          (if hu then 0x04 else 0)] @ (if hp then [sr_ProtocolID r] else []) @ (if hd then [reportDCS r] else []) @
          (if hu then [go_byte udl] @ ud else [])"
      "\<not> hp \<longrightarrow> sr_ProtocolID r = 0" "\<not> hd \<longrightarrow> reportDCS r = 0" "\<not> hu \<longrightarrow> sr_UserData r = [] \<and> udh = []"
      "fo = (if udh \<noteq> [] then fo0 OR 0x40 else fo0)" "fo AND 0x40 \<noteq> 0 \<longleftrightarrow> udh \<noteq> []"
      "hu \<longrightarrow> udl < 256 \<and> (\<exists>dcs0. encodeSMSUserDataWithLanguage (sr_UserData r) (smsEncodingForDCS (reportDCS r)) udh
         (uh_LockingShiftLang (sr_UserDataHeaderInfo r)) (uh_SingleShiftLang (sr_UserDataHeaderInfo r)) = Inr (ud, udl, dcs0))"
proof -
  let ?i = "sr_UserDataHeaderInfo r"
  define hp where "hp \<longleftrightarrow> sr_HasProtocolID r \<or> sr_ProtocolID r \<noteq> 0"
  define hd where "hd \<longleftrightarrow> sr_HasDataCodingScheme r \<or> reportDCS r \<noteq> 0"
  define hu where "hu \<longleftrightarrow> sr_HasUserData r \<or> sr_UserData r \<noteq> [] \<or> sr_UserDataLength r \<noteq> 0 \<or> length udh > 0"
  have raw: "uh_Raw ?i = udh" and info: "udh \<noteq> [] \<Longrightarrow> ?i = parseSMSUDHInfo udh"
    using assms(2) by (auto simp: report_header_def header_info_def uh_Raw_header_info [unfolded header_info_def])
  have noudh: "udh = [] \<Longrightarrow> fo0 AND 0x40 = 0"
    using assms(1) by (auto simp: encodeSMSStatusReportOptionalParameters_def Let_def raw split: if_splits)
  have langs: "(if length udh > 0 \<and> \<not> uh_HasLockingShift ?i \<and> uh_HasLockingShift (parseSMSUDHInfo udh)
        then uh_LockingShiftLang (parseSMSUDHInfo udh) else uh_LockingShiftLang ?i) = uh_LockingShiftLang ?i"
      "(if length udh > 0 \<and> \<not> uh_HasSingleShift ?i \<and> uh_HasSingleShift (parseSMSUDHInfo udh)
        then uh_SingleShiftLang (parseSMSUDHInfo udh) else uh_SingleShiftLang ?i) = uh_SingleShiftLang ?i"
    using info by auto
  have or40: "(fo0 OR 0x40) AND 0x40 \<noteq> 0" by (simp add: flag_bits bit_or_iff)
  note enc = assms(1) [unfolded encodeSMSStatusReportOptionalParameters_def Let_def raw langs,
      folded reportDCS_def hp_def, folded hd_def hu_def]
  show thesis
  proof (cases hu)
    case True
    from enc True obtain ud udl dcs0 where u:
        "encodeSMSUserDataWithLanguage (sr_UserData r) (smsEncodingForDCS (reportDCS r)) udh
         (uh_LockingShiftLang ?i) (uh_SingleShiftLang ?i) = Inr (ud, udl, dcs0)" "udl \<le> 255"
        "fo = (if udh \<noteq> [] then fo0 OR 0x40 else fo0)"
        "opt = [(sr_ParameterIndicator r AND NOT 0x07) OR (if hp then 0x01 else 0) OR (if hd then 0x02 else 0) OR 0x04] @
          (if hp then [sr_ProtocolID r] else []) @ (if hd then [reportDCS r] else []) @ ([go_byte udl] @ ud)"
      by (auto simp: rbind_eq_Inr_iff split: if_splits)
    show thesis
      by (rule some [of hp hd True udl ud]) (use u noudh or40 in \<open>auto simp: hp_def hd_def\<close>)
  next
    case False
    then have nu: "sr_UserData r = []" "udh = []" by (auto simp: hu_def)
    show thesis
    proof (cases "opt = []")
      case True
      with enc False show thesis
        by (intro none) (use nu noudh in \<open>auto simp: hp_def hd_def split: if_splits\<close>)
    next
      case ne: False
      show thesis
        by (rule some [of hp hd False 0 "[]"])
          (use enc False ne nu noudh in \<open>auto simp: hp_def hd_def split: if_splits\<close>)
    qed
  qed
qed

lemma optional_parameters_roundtrip:
  assumes enc: "encodeSMSStatusReportOptionalParameters r fo0 = Inr (opt, fo)" and hdr: "report_header r udh"
    and valid: "ValidUTF8 (sr_UserData r)" "27 \<notin> set (runes (sr_UserData r))"
    and r0: "sr_UserDataHeader r0 = (fo AND 0x40 \<noteq> 0)" "sr_ProtocolID r0 = 0" "sr_DataCodingScheme r0 = 0" "sr_UserData r0 = []"
      "sr_UserDataHeaderInfo r0 = NoUDH"
  obtains ind hpi hp hd dc n hu where "parseSMSStatusReportOptionalParameters opt r0 =
    Inr (r0\<lparr>sr_ParameterIndicator := ind, sr_HasParameterIndicator := hpi, sr_ProtocolID := sr_ProtocolID r, sr_HasProtocolID := hp,
      sr_DataCodingScheme := reportDCS r, sr_HasDataCodingScheme := hd, sr_DataCoding := dc, sr_UserDataLength := n,
      sr_UserDataHeaderInfo := sr_UserDataHeaderInfo r, sr_UserData := sr_UserData r, sr_HasUserData := hu\<rparr>)"
    "sr_UserDataHeader r0 = (udh \<noteq> [])"
  using enc hdr
proof (cases rule: optional_parameters_written)
  case none
  then have "sr_UserDataHeaderInfo r = NoUDH" using hdr by (simp add: report_header_def header_info_def)
  with none r0 show thesis
    by (intro that [where ind = "sr_ParameterIndicator r0" and hpi = "sr_HasParameterIndicator r0" and hp = "sr_HasProtocolID r0"
        and hd = "sr_HasDataCodingScheme r0" and dc = "sr_DataCoding r0" and n = "sr_UserDataLength r0" and hu = "sr_HasUserData r0"])
      (simp_all add: parseSMSStatusReportOptionalParameters_def)
next
  case (some hp hd hu ud udl)
  define ind where "ind = (sr_ParameterIndicator r AND NOT 0x07) OR (if hp then 0x01 else 0) OR (if hd then 0x02 else 0) OR
    (if hu then 0x04 else 0)"
  have bits: "ind AND 0x01 \<noteq> 0 \<longleftrightarrow> hp" "ind AND 0x02 \<noteq> 0 \<longleftrightarrow> hd" "ind AND 0x04 \<noteq> 0 \<longleftrightarrow> hu"
    by (simp_all only: ind_def flag_bits not_not indicator_bits)
  have user: "decodeSMSUserDataWithHeader ud udl (reportDCS r) (udh \<noteq> []) = Inr (sr_UserData r, sr_UserDataHeaderInfo r)" if hu
  proof -
    have i: "sr_UserDataHeaderInfo r = header_info udh" using hdr by (simp add: report_header_def)
    from that some(7) obtain dcs0 where "encodeSMSUserDataWithLanguage (sr_UserData r) (smsEncodingForDCS (reportDCS r)) udh
        (uh_LockingShiftLang (sr_UserDataHeaderInfo r)) (uh_SingleShiftLang (sr_UserDataHeaderInfo r)) = Inr (ud, udl, dcs0)"
      by blast
    from user_data_roundtrip [OF this alphabetOf_DCS(1) [symmetric] alphabetOf_DCS(2) report_header_for [OF hdr] valid]
    show ?thesis unfolding i .
  qed
  have nohdr: "\<not> hu \<Longrightarrow> sr_UserDataHeaderInfo r = NoUDH" using some(4) hdr by (simp add: report_header_def header_info_def)
  have u: "sr_UserDataHeader r0 = (udh \<noteq> [])" using some(6) r0(1) by blast
  have udl: "hu \<Longrightarrow> udl < 256" using some(7) by blast
  note [simp] = parseSMSStatusReportOptionalParameters_def some(1) [folded ind_def]
  consider "hp" "hd" "hu" | "hp" "hd" "\<not> hu" | "hp" "\<not> hd" "hu" | "hp" "\<not> hd" "\<not> hu" |
      "\<not> hp" "hd" "hu" | "\<not> hp" "hd" "\<not> hu" | "\<not> hp" "\<not> hd" "hu" | "\<not> hp" "\<not> hd" "\<not> hu"
    by blast
  then have "parseSMSStatusReportOptionalParameters opt r0 =
      Inr (r0\<lparr>sr_ParameterIndicator := ind, sr_HasParameterIndicator := True, sr_ProtocolID := sr_ProtocolID r,
        sr_HasProtocolID := (if hp then True else sr_HasProtocolID r0), sr_DataCodingScheme := reportDCS r,
        sr_HasDataCodingScheme := (if hd then True else sr_HasDataCodingScheme r0),
        sr_DataCoding := (if hd then ParseSMSDataCodingScheme (reportDCS r) else sr_DataCoding r0),
        sr_UserDataLength := (if hu then udl else sr_UserDataLength r0),
        sr_UserDataHeaderInfo := sr_UserDataHeaderInfo r, sr_UserData := sr_UserData r,
        sr_HasUserData := (if hu then True else sr_HasUserData r0)\<rparr>)"
    by cases (use some(2-4) r0(2-5) user nohdr u udl in \<open>simp_all add: bits\<close>)
  then show thesis by (rule that) (rule u)
qed

lemma packDigits_neq_Nil: "ds \<noteq> [] \<Longrightarrow> packDigits ds \<noteq> []"
  by (cases ds rule: packDigits.cases) simp_all

lemma encodeSMSAddress_digits:
  assumes "encodeSMSAddress x = Inr (d, toa, bcd)"
  shows "d \<le> length (normalizeSMSNumber x) \<and> bcd \<noteq> []"
proof -
  from assms obtain m where m: "m \<noteq> []" "d = length m"
      "bcd = packDigits (map (\<lambda>b. case smsAddressSemiOctet (unat b) of Some d \<Rightarrow> d | None \<Rightarrow> 0) m)"
      "normalizeSMSNumber x = m \<and> toa = 0x81 \<and> \<not> HasPrefix m [43] \<or> normalizeSMSNumber x = 43 # m \<and> toa = 0x91"
    by (rule encodeSMSAddress_Inr)
  have "bcd \<noteq> []" unfolding m(3) using m(1) by (intro packDigits_neq_Nil) simp
  with m(2,4) show ?thesis by auto
qed

text \<open>C31: a status report reads back as it was written.  What \<^verbatim>\<open>BuildSMSStatusReportTPDU\<close> returns is accepted by
  \<^verbatim>\<open>ParseSMSStatusReportTPDU\<close>, which finds the reference, the number of the recipient, both time stamps to the second,
  the status with the state it stands for, the protocol identifier, the data coding scheme, the user data and its
  header.  The recipient has at most 255 digits, the header carries its own length, and the text is valid UTF-8 without
  the escape character.\<close>

theorem status_report_roundtrip:
  assumes "BuildSMSStatusReportTPDU r = Inr tpdu"
    and "calendar (sr_Timestamp r)" "calendar (sr_DoneAt r)" "length (rpDestination (sr_Recipient r)) \<le> 255"
    and "report_header r udh" "ValidUTF8 (sr_UserData r)" "27 \<notin> set (runes (sr_UserData r))"
  shows "\<exists>r'. ParseSMSStatusReportTPDU tpdu = Inr r' \<and> sr_Reference r' = sr_Reference r \<and>
    sr_Recipient r' = rpDestination (sr_Recipient r) \<and>
    sr_Timestamp r' = (sr_Timestamp r)\<lparr>t_Nanosecond := 0\<rparr> \<and> sr_DoneAt r' = (sr_DoneAt r)\<lparr>t_Nanosecond := 0\<rparr> \<and>
    sr_Status r' = sr_Status r \<and> sr_State r' = smsStatusReportState (sr_Status r) \<and>
    sr_ProtocolID r' = sr_ProtocolID r \<and> sr_DataCodingScheme r' = reportDCS r \<and>
    sr_UserDataHeader r' = (udh \<noteq> []) \<and> sr_UserDataHeaderInfo r' = sr_UserDataHeaderInfo r \<and> sr_UserData r' = sr_UserData r"
proof -
  let ?n = "normalizeSMSNumber (sr_Recipient r)"
  from assms(1) obtain d toa bcd ts dt opt fo where b: "encodeSMSAddress ?n = Inr (d, toa, bcd)"
      "encodeSMSTimestamp (sr_Timestamp r) = Inr ts" "encodeSMSTimestamp (sr_DoneAt r) = Inr dt"
      "encodeSMSStatusReportOptionalParameters r (smsStatusReportFirstOctet r) = Inr (opt, fo)"
      "tpdu = [fo, sr_Reference r, go_byte d, toa] @ bcd @ ts @ dt @ [sr_Status r] @ opt"
    by (auto simp: BuildSMSStatusReportTPDU_def Let_def rbind_eq_Inr_iff split: if_splits)
  note addr = decodeSMSAddress_encodeSMSAddress(1,3) [OF b(1)] encodeSMSAddress_digits [OF b(1)]
  then have d: "unat (go_byte d) = d" using assms(4) by (simp add: rpDestination_def)
  note ts = timestamp_roundtrip [OF b(2) assms(2)] timestamp_roundtrip [OF b(3) assms(3)]
  have fo: "fo AND 0x03 = 0x02"
  proof -
    have "fo = smsStatusReportFirstOctet r \<or> fo = smsStatusReportFirstOctet r OR 0x40"
      using b(4) assms(5) by (cases rule: optional_parameters_written) simp_all
    then show ?thesis using first_octet_bits [of r] by (auto simp: tpdu_type bit_or_iff)
  qed
  let ?r0 = "\<lparr>sr_Reference = sr_Reference r, sr_Recipient = rpDestination (sr_Recipient r),
      sr_Timestamp = (sr_Timestamp r)\<lparr>t_Nanosecond := 0\<rparr>, sr_DoneAt = (sr_DoneAt r)\<lparr>t_Nanosecond := 0\<rparr>, sr_Status = sr_Status r,
      sr_State = smsStatusReportState (sr_Status r), sr_FirstOctet = fo, sr_MoreMessagesToSend = (fo AND 0x04 = 0),
      sr_StatusReportQualifier = (fo AND 0x20 \<noteq> 0), sr_UserDataHeader = (fo AND 0x40 \<noteq> 0),
      sr_ParameterIndicator = 0, sr_HasParameterIndicator = False, sr_ProtocolID = 0, sr_HasProtocolID = False,
      sr_DataCodingScheme = 0, sr_HasDataCodingScheme = False, sr_DataCoding = NoDataCoding,
      sr_UserDataLength = 0, sr_UserDataHeaderInfo = NoUDH, sr_UserData = [], sr_HasUserData = False, sr_RawTPDU = tpdu\<rparr>"
  have at: "take 7 (drop (4 + length bcd) tpdu) = ts" "take 7 (drop (11 + length bcd) tpdu) = dt"
      "tpdu ! (18 + length bcd) = sr_Status r" "drop (19 + length bcd) tpdu = opt" "take (length bcd) (drop 4 tpdu) = bcd"
      "length tpdu = 19 + length bcd + length opt" "length bcd > 0"
      "tpdu ! 0 = fo" "tpdu ! 1 = sr_Reference r" "tpdu ! 2 = go_byte d" "tpdu ! 3 = toa"
    using ts addr(3) by (simp_all add: b(5) nth_append)
  have "parseSMSStatusReportOptionalParameters [] ?r0 = Inr ?r0" by (simp add: parseSMSStatusReportOptionalParameters_def)
  then have parse: "ParseSMSStatusReportTPDU tpdu = parseSMSStatusReportOptionalParameters opt ?r0"
    using at fo d addr ts by (cases "opt = []") (simp_all add: ParseSMSStatusReportTPDU_def rpDestination_def)
  obtain ind hpi hp hd dc n hu where "parseSMSStatusReportOptionalParameters opt ?r0 =
    Inr (?r0\<lparr>sr_ParameterIndicator := ind, sr_HasParameterIndicator := hpi, sr_ProtocolID := sr_ProtocolID r, sr_HasProtocolID := hp,
      sr_DataCodingScheme := reportDCS r, sr_HasDataCodingScheme := hd, sr_DataCoding := dc, sr_UserDataLength := n,
      sr_UserDataHeaderInfo := sr_UserDataHeaderInfo r, sr_UserData := sr_UserData r, sr_HasUserData := hu\<rparr>)"
    "sr_UserDataHeader ?r0 = (udh \<noteq> [])"
    by (rule optional_parameters_roundtrip [OF b(4) assms(5-7), of ?r0]) simp_all
  then show ?thesis unfolding parse by simp
qed

definition sampleTime :: Time where
  "sampleTime = \<lparr>t_Year = 2024, t_Month = 5, t_Day = 17, t_Hour = 13, t_Minute = 4, t_Second = 59, t_Nanosecond = 5, t_Offset = 7200\<rparr>"

definition sampleReport :: SMSStatusReport where
  "sampleReport =
     \<lparr>sr_Reference = 7, sr_Recipient = [43, 52, 57, 49], sr_Timestamp = sampleTime, sr_DoneAt = sampleTime, sr_Status = 0x41,
      sr_State = [], sr_FirstOctet = 0, sr_MoreMessagesToSend = True, sr_StatusReportQualifier = False, sr_UserDataHeader = False,
      sr_ParameterIndicator = 0, sr_HasParameterIndicator = False, sr_ProtocolID = 0, sr_HasProtocolID = True,
      sr_DataCodingScheme = 8, sr_HasDataCodingScheme = True, sr_DataCoding = NoDataCoding, sr_UserDataLength = 0,
      sr_UserDataHeaderInfo = NoUDH, sr_UserData = [111, 107], sr_HasUserData = True, sr_RawTPDU = []\<rparr>"

theorem status_report_roundtrip_witness:
  "\<exists>tpdu r'. BuildSMSStatusReportTPDU sampleReport = Inr tpdu \<and> ParseSMSStatusReportTPDU tpdu = Inr r' \<and>
    sr_Recipient r' = [43, 52, 57, 49] \<and> sr_State r' = ''failed'' \<and> sr_UserData r' = [111, 107]"
proof -
  have u: "smsEncodingForDCS 8 = encUCS2" "validateSMSSubmitDataCodingScheme 8 encUCS2 = Inr ()"
      "runes [111, 107] = [111, 107]" "encodeSMSAddress [43, 52, 57, 49] = Inr (3, 145, [148, 241])"
      "concat (map PutUint16 [111, 107]) = [0, 111, 0, 107]" "dialable [43, 52, 57, 49]" "map telDigit [43, 52, 57, 49] = [43, 52, 57, 49]"
      "encodeSMSTimestamp sampleTime = Inr [66, 80, 113, 49, 64, 149, 128]" "smsStatusReportFirstOctet sampleReport = 2"
    by code_simp+
  then have v: "concat (map PutUint16 (utf16_Encode (runes [111, 107]))) = [0, 111, 0, 107]"
    by (simp add: utf16_Encode_def EncodeUnits_def go_uint16_def)
  from u have n: "normalizeSMSNumber [43, 52, 57, 49] = [43, 52, 57, 49]" by (simp add: normalize_dialable)
  have "encodeSMSUserDataWithLanguage [111, 107] encUCS2 [] 0 0 = Inr ([0, 111, 0, 107], 4, 8)"
    unfolding encodeSMSUserDataWithLanguage_def Let_def v by simp
  with u(1,2) have "encodeSMSStatusReportOptionalParameters sampleReport 2 = Inr ([7, 0, 8, 4, 0, 111, 0, 107], 2)"
    by (simp add: encodeSMSStatusReportOptionalParameters_def sampleReport_def NoUDH_def go_byte_def)
  then have 1: "BuildSMSStatusReportTPDU sampleReport =
      Inr [2, 7, 3, 145, 148, 241, 66, 80, 113, 49, 64, 149, 128, 66, 80, 113, 49, 64, 149, 128, 65, 7, 0, 8, 4, 0, 111, 0, 107]"
    using u(4,8-9) n by (simp add: BuildSMSStatusReportTPDU_def Let_def sampleReport_def go_byte_def)
  have 2: "calendar sampleTime" "ValidUTF8 [111, 107]" "smsStatusReportState 0x41 = ''failed''"
    by code_simp+
  have "report_header sampleReport []" by (simp add: report_header_def header_info_def sampleReport_def)
  from status_report_roundtrip [OF 1 _ _ _ this] 1 2 u n show ?thesis
    by (auto simp: sampleReport_def rpDestination_def)
qed

section \<open>No input makes a reader panic\<close>

lemma safe_idx: "i < length xs \<Longrightarrow> safe (idx i xs)" and safe_sub: "a \<le> b \<Longrightarrow> b \<le> length xs \<Longrightarrow> safe (sub a b xs)"
  by simp_all

lemmas safe_intros = safe_rbind safe_if safe_idx safe_sub

lemma decodeNibbles_safe: "safe (decodeNibbles ns d w b)"
  by (induction ns d w b rule: decodeNibbles.induct) (auto split: option.split)

lemma decodeSMSAddress_safe: "safe (decodeSMSAddress d toa bcd)"
  by (simp add: decodeSMSAddress_def decodeNibbles_safe)

lemma decodeRPAddressValue_safe: "safe (decodeRPAddressValue v)"
  by (auto simp: decodeRPAddressValue_def decodeSMSAddress_safe Suc_le_eq intro!: safe_intros)

lemma decodeSMSTimestamp_safe: "safe (decodeSMSTimestamp raw)"
  by (auto simp: decodeSMSTimestamp_def Let_def intro!: safe_intros)

lemma decodeUCS2_safe: "safe (decodeUCS2 d)"
  by (simp add: decodeUCS2_def)

lemma smsOctetUserDataLength_safe: "safe (smsOctetUserDataLength udl udh p)"
  by (simp add: smsOctetUserDataLength_def Let_def)

lemma smsOctetUserDataLength_le: "smsOctetUserDataLength udl udh p = Inr n \<Longrightarrow> n \<le> length p"
  by (auto simp: smsOctetUserDataLength_def Let_def split: if_splits)

lemma decodeSMSUserDataWithHeader_safe: "safe (decodeSMSUserDataWithHeader d udl dcs h)"
proof -
  have "safe (splitSMSUDH d h)" by (auto simp: splitSMSUDH_def Let_def intro!: safe_intros)
  then show ?thesis
    by (auto simp: decodeSMSUserDataWithHeader_def Let_def smsOctetUserDataLength_safe decodeUCS2_safe
      intro!: safe_intros intro: smsOctetUserDataLength_le)
qed

lemma ParseSMSDeliverTPDU_safe: "safe (ParseSMSDeliverTPDU tpdu)"
  by (auto simp: ParseSMSDeliverTPDU_def Let_def decodeSMSAddress_safe decodeSMSTimestamp_safe
    decodeSMSUserDataWithHeader_safe intro!: safe_intros)

lemma parseSMSStatusReportOptionalParameters_safe: "safe (parseSMSStatusReportOptionalParameters d r)"
  by (auto simp: parseSMSStatusReportOptionalParameters_def Let_def decodeSMSUserDataWithHeader_safe
    intro!: safe_intros split: prod.splits)

lemma ParseSMSStatusReportTPDU_safe: "safe (ParseSMSStatusReportTPDU tpdu)"
  by (auto simp: ParseSMSStatusReportTPDU_def Let_def decodeSMSAddress_safe decodeSMSTimestamp_safe
    parseSMSStatusReportOptionalParameters_safe intro!: safe_intros)

lemma parseRPAddressAt_safe: "safe (parseRPAddressAt body i l)"
  by (auto simp: parseRPAddressAt_def Let_def decodeRPAddressValue_safe intro!: safe_intros)

lemma parseSMSRPUserData_safe: "safe (parseSMSRPUserData body i l)"
  by (auto simp: parseSMSRPUserData_def Let_def intro!: safe_intros)

lemma parseSMSRPErrorCauseFields_safe: "safe (parseSMSRPErrorCauseFields body)"
  by (auto simp: parseSMSRPErrorCauseFields_def Let_def intro!: safe_intros)

lemma ParseSMSRPDU_safe: "safe (ParseSMSRPDU body)"
proof -
  have "safe (parseSMSRPDataFields body)"
    by (auto simp: parseSMSRPDataFields_def Let_def parseRPAddressAt_safe intro!: safe_intros split: prod.splits)
  then show ?thesis
    by (auto simp: ParseSMSRPDU_def Let_def parseSMSRPErrorCauseFields_safe parseSMSRPUserData_safe
      intro!: safe_intros split: prod.splits)
qed

text \<open>C37: whatever octets the network delivers, the readers of relay messages, deliveries and status reports return a
  message or an error: no index into and no slice of the octets is out of range, in the fields of the message, in the user
  data header and its elements, in time stamps and addresses, and in the loops that unpack septets and read the text.\<close>

theorem sms_readers_never_panic:
  "safe (ParseSMSRPDU d) \<and> safe (ParseSMSDeliverTPDU d) \<and> safe (ParseSMSStatusReportTPDU d)"
  by (simp add: ParseSMSRPDU_safe ParseSMSDeliverTPDU_safe ParseSMSStatusReportTPDU_safe)

end
