(* ===== verification/SMS_Segment.thy ===== *)
theory SMS_Segment
  imports SMS_TPDU
begin

text \<open>
  How a text becomes short messages: the segmentation of \<^verbatim>\<open>runtimehost/messaging/messaging.go\<close>
  (\<^verbatim>\<open>segmentSMS\<close> with the limits, lengths and chunks it uses).  \<^verbatim>\<open>smsConcatRefCounter\<close>, an
  atomic counter of the package, is passed through.
\<close>

section \<open>Limits and lengths\<close>

record SendOptions =
  so_Encoding :: bytes
  so_ValidityPeriod :: int
  so_ValidityDeadline :: Time
  so_ProtocolID :: u8
  so_DataCodingScheme :: u8
  so_UseProtocolID :: bool
  so_UseDataCodingScheme :: bool
  so_ReplyPath :: bool
  so_RejectDuplicates :: bool
  so_ConcatRef :: int
  so_ConcatRefBits :: int
  so_ApplicationDestPort :: int
  so_ApplicationSourcePort :: int
  so_ApplicationPortBits :: int
  so_SingleShiftLang :: int
  so_LockingShiftLang :: int

text \<open>The division rounds towards zero; no header is longer than a message, so it never sees a negative number.\<close>

definition smsPartLimitForUDH :: "bytes \<Rightarrow> nat \<Rightarrow> int" where
  "smsPartLimitForUDH encoding udhBytes =
     (if udhBytes = 0 then (if encoding = encUTF8 then 140 else if encoding = encUCS2 then 70 else 160)
      else if encoding = encGSM7 then 160 - int ((udhBytes * 8 + 6) div 7)
      else if encoding = encUTF8 then 140 - int udhBytes
      else if udhBytes \<le> 140 then (140 - int udhBytes) div 2 else - ((int udhBytes - 140) div 2))"

definition smsPartLimitsForUDH :: "bytes \<Rightarrow> nat \<Rightarrow> int \<times> int" where
  "smsPartLimitsForUDH encoding udhBytes = (smsPartLimitForUDH encoding 0, smsPartLimitForUDH encoding udhBytes)"

definition smsPartLimits :: "bytes \<Rightarrow> int \<times> int" where
  "smsPartLimits encoding = smsPartLimitsForUDH encoding 6"

definition messageLenWithLanguage :: "bytes \<Rightarrow> bytes \<Rightarrow> int \<Rightarrow> int \<Rightarrow> nat" where
  "messageLenWithLanguage txt encoding lockingLang singleLang =
     (if encoding = encUTF8 then length txt
      else if encoding = encGSM7
      then (case gsm7SeptetLenWithLanguage txt lockingLang singleLang of Some septets \<Rightarrow> septets | None \<Rightarrow> length (runes txt))
      else length (utf16_Encode (runes txt)))"

definition messageLen :: "bytes \<Rightarrow> bytes \<Rightarrow> nat" where
  "messageLen txt encoding = messageLenWithLanguage txt encoding 0 0"

section \<open>Chunks\<close>

text \<open>The loop over the starts of the characters: the last one that is not past the limit.\<close>

fun lastStart :: "nat \<Rightarrow> nat \<Rightarrow> nat \<Rightarrow> (rune \<times> bytes) list \<Rightarrow> nat" where
  "lastStart limit pos i [] = i"
| "lastStart limit pos i (p # ps) = (if pos > limit then i else lastStart limit (pos + length (snd p)) pos ps)"

definition takeSMSChunkWithLanguage :: "bytes \<Rightarrow> bytes \<Rightarrow> nat \<Rightarrow> int \<Rightarrow> int \<Rightarrow> bytes \<times> bytes" where
  "takeSMSChunkWithLanguage txt encoding limit lockingLang singleLang =
     (if encoding = encUTF8
      then
        if length txt \<le> limit then (txt, [])
        else
          let i0 = lastStart limit 0 0 (pieces txt); i = (if i0 = 0 then snd (DecodeRune txt) else i0)
          in (take i txt, drop i txt)
      else if encoding = encGSM7 then takeGSM7ChunkWithLanguage txt limit lockingLang singleLang
      else if encoding = encUCS2 then takeUCS2Chunk txt limit
      else if length (runes txt) \<le> limit then (txt, [])
      else (of_runes (take limit (runes txt)), of_runes (drop limit (runes txt))))"

definition takeSMSChunk :: "bytes \<Rightarrow> bytes \<Rightarrow> nat \<Rightarrow> bytes \<times> bytes" where
  "takeSMSChunk txt encoding limit = takeSMSChunkWithLanguage txt encoding limit 0 0"

section \<open>Segmentation\<close>

text \<open>The part that both branches of \<^verbatim>\<open>segmentSMS\<close> write down.\<close>

definition newPart :: "SendOptions \<Rightarrow> int \<Rightarrow> bytes \<Rightarrow> int \<Rightarrow> int \<Rightarrow> bytes \<Rightarrow> bytes \<Rightarrow> int \<Rightarrow> int \<Rightarrow> SMSPart" where
  "newPart opts portBits enc partNo totalParts txt udh ref refBits =
     \<lparr>pt_PartNo = partNo, pt_TotalParts = totalParts, pt_Text = txt, pt_Encoding = enc, pt_UDH = udh,
      pt_ValidityPeriod = so_ValidityPeriod opts, pt_ValidityDeadline = so_ValidityDeadline opts,
      pt_ProtocolID = so_ProtocolID opts, pt_DataCodingScheme = so_DataCodingScheme opts,
      pt_UseProtocolID = so_UseProtocolID opts, pt_UseDataCodingScheme = so_UseDataCodingScheme opts,
      pt_ReplyPath = so_ReplyPath opts, pt_RejectDuplicates = so_RejectDuplicates opts, pt_ConcatRef = ref,
      pt_ConcatRefBits = refBits, pt_ApplicationDestPort = so_ApplicationDestPort opts,
      pt_ApplicationSourcePort = so_ApplicationSourcePort opts, pt_ApplicationPortBits = portBits,
      pt_SingleShiftLang = so_SingleShiftLang opts, pt_LockingShiftLang = so_LockingShiftLang opts,
      pt_RequestStatusReport = False\<rparr>"

text \<open>The header of one part of \<open>n\<close>.\<close>

definition partUDH :: "SendOptions \<Rightarrow> int \<Rightarrow> bool \<Rightarrow> int \<Rightarrow> int \<Rightarrow> int \<Rightarrow> int \<Rightarrow> bytes res" where
  "partUDH opts portBits hasPorts ref refBits totalParts partNo =
     buildSMSSubmitUDH hasPorts (so_ApplicationDestPort opts) (so_ApplicationSourcePort opts) portBits ref refBits
       totalParts partNo (so_SingleShiftLang opts) (so_LockingShiftLang opts)"

text \<open>
  The first loop.  Every turn takes at least one octet, so as many turns as the text has octets are enough; running
  out of them is \<open>Diverge\<close>.
\<close>

fun segmentLoop ::
  "nat \<Rightarrow> SendOptions \<Rightarrow> int \<Rightarrow> bool \<Rightarrow> bytes \<Rightarrow> nat \<Rightarrow> int \<Rightarrow> int \<Rightarrow> int \<Rightarrow> bytes \<Rightarrow> int \<Rightarrow> SMSPart list res" where
  "segmentLoop fuel opts portBits hasPorts enc limit ref refBits totalParts [] partNo = Inr []"
| "segmentLoop 0 opts portBits hasPorts enc limit ref refBits totalParts (b # bs) partNo = Inl Diverge"
| "segmentLoop (Suc fuel) opts portBits hasPorts enc limit ref refBits totalParts (b # bs) partNo =
     (let (chunk, rest) = takeSMSChunkWithLanguage (b # bs) enc limit (so_LockingShiftLang opts) (so_SingleShiftLang opts) in
      rbind (partUDH opts portBits hasPorts ref refBits totalParts partNo) (\<lambda>udh.
      rbind (segmentLoop fuel opts portBits hasPorts enc limit ref refBits totalParts rest (partNo + 1)) (\<lambda>out.
        Inr (newPart opts portBits enc partNo totalParts chunk udh ref refBits # out))))"

text \<open>The second loop writes the number of parts there are.\<close>

fun renumberParts :: "SendOptions \<Rightarrow> int \<Rightarrow> bool \<Rightarrow> int \<Rightarrow> int \<Rightarrow> int \<Rightarrow> SMSPart list \<Rightarrow> SMSPart list res" where
  "renumberParts opts portBits hasPorts ref refBits n [] = Inr []"
| "renumberParts opts portBits hasPorts ref refBits n (p # ps) =
     rbind (partUDH opts portBits hasPorts ref refBits n (pt_PartNo p)) (\<lambda>udh.
     rbind (renumberParts opts portBits hasPorts ref refBits n ps) (\<lambda>rest.
       Inr (p\<lparr>pt_TotalParts := n, pt_UDH := udh\<rparr> # rest)))"

text \<open>The checks before any part is made: the encoding and the ports.\<close>

definition segmentSetup :: "bytes \<Rightarrow> SendOptions \<Rightarrow> (bytes \<times> int \<times> bool) res" where
  "segmentSetup txt opts =
     rbind (encodeSMSSubmitValidityPeriod (so_ValidityPeriod opts) (so_ValidityDeadline opts)) (\<lambda>_.
     rbind (validateSMSNationalLanguageOptions (so_SingleShiftLang opts) (so_LockingShiftLang opts)) (\<lambda>_.
     rbind (normalizeSMSSubmitEncodingWithLanguage txt (so_Encoding opts) (so_DataCodingScheme opts)
       (so_UseDataCodingScheme opts \<or> so_DataCodingScheme opts \<noteq> 0) (so_LockingShiftLang opts) (so_SingleShiftLang opts)) (\<lambda>enc.
     rbind (validateSMSApplicationPortOptions (so_ApplicationDestPort opts) (so_ApplicationSourcePort opts)
       (so_ApplicationPortBits opts)) (\<lambda>(portBits, hasPorts). Inr (enc, portBits, hasPorts)))))"

text \<open>
  The branch for several parts, with the reference chosen.  The number of parts is computed with floating point
  numbers: the quotient of two numbers below \<open>2 ^ 40\<close>, the second at most 160, is rounded up exactly.
\<close>

definition segmentConcat :: "bytes \<Rightarrow> SendOptions \<Rightarrow> bytes \<Rightarrow> int \<Rightarrow> bool \<Rightarrow> int \<Rightarrow> int \<Rightarrow> SMSPart list res" where
  "segmentConcat txt opts enc portBits hasPorts ref refBits =
     (let sl = so_SingleShiftLang opts; ll = so_LockingShiftLang opts;
          concatUDHLen = smsSubmitUDHLength hasPorts portBits True refBits sl ll;
          concat = smsPartLimitForUDH enc concatUDHLen in
      if concat \<le> 0 then Inl (Fmt ''sms UDH leaves no room for payload'')
      else
        let total0 = (int (messageLenWithLanguage txt enc ll sl) + concat - 1) div concat;
            totalParts = (if total0 \<le> 0 then 1 else total0) in
        if totalParts > 255 then Inl (Fmt ''sms message requires too many parts'')
        else
          rbind (segmentLoop (length txt) opts portBits hasPorts enc (nat concat) ref refBits totalParts txt 1) (\<lambda>out.
            renumberParts opts portBits hasPorts ref refBits (int (length out)) out))"

definition segmentSMS :: "bytes \<Rightarrow> SendOptions \<Rightarrow> u32 \<Rightarrow> SMSPart list res \<times> u32" where
  "segmentSMS txt opts smsConcatRefCounter =
     (if txt = [] then (Inr [], smsConcatRefCounter)
      else
        case segmentSetup txt opts of
          Inl e \<Rightarrow> (Inl e, smsConcatRefCounter)
        | Inr (enc, portBits, hasPorts) \<Rightarrow>
            let sl = so_SingleShiftLang opts; ll = so_LockingShiftLang opts;
                singleUDHLen = smsSubmitUDHLength hasPorts portBits False 0 sl ll;
                singleLimit = smsPartLimitForUDH enc singleUDHLen in
            if int (messageLenWithLanguage txt enc ll sl) \<le> singleLimit
            then (rbind (partUDH opts portBits hasPorts 0 0 1 1) (\<lambda>udh. Inr [newPart opts portBits enc 1 1 txt udh 0 0]),
                  smsConcatRefCounter)
            else
              case validateSMSConcatOptions (so_ConcatRef opts) (so_ConcatRefBits opts) of
                Inl e \<Rightarrow> (Inl e, smsConcatRefCounter)
              | Inr refBits \<Rightarrow>
                  let (ref, counter) = (if so_ConcatRef opts = 0 then nextSMSConcatRef refBits smsConcatRefCounter
                                        else (so_ConcatRef opts, smsConcatRefCounter))
                  in (segmentConcat txt opts enc portBits hasPorts ref refBits, counter))"

definition SegmentSMSWithOptions :: "bytes \<Rightarrow> SendOptions \<Rightarrow> u32 \<Rightarrow> SMSPart list \<times> u32" where
  "SegmentSMSWithOptions txt opts counter =
     (case segmentSMS txt opts counter of (Inr parts, c) \<Rightarrow> (parts, c) | (Inl _, c) \<Rightarrow> ([], c))"

definition NoOptions :: SendOptions where
  "NoOptions =
     \<lparr>so_Encoding = [], so_ValidityPeriod = 0, so_ValidityDeadline = ZeroTime, so_ProtocolID = 0, so_DataCodingScheme = 0,
      so_UseProtocolID = False, so_UseDataCodingScheme = False, so_ReplyPath = False, so_RejectDuplicates = False,
      so_ConcatRef = 0, so_ConcatRefBits = 0, so_ApplicationDestPort = 0, so_ApplicationSourcePort = 0,
      so_ApplicationPortBits = 0, so_SingleShiftLang = 0, so_LockingShiftLang = 0\<rparr>"

definition SegmentSMS :: "bytes \<Rightarrow> bytes \<Rightarrow> u32 \<Rightarrow> SMSPart list \<times> u32" where
  "SegmentSMS txt encoding counter = SegmentSMSWithOptions txt (NoOptions\<lparr>so_Encoding := encoding\<rparr>) counter"

section \<open>A chunk is a prefix within the limit\<close>

text \<open>The cost of a text in the unit of its encoding.\<close>

definition textCost :: "bytes \<Rightarrow> bytes \<Rightarrow> int \<Rightarrow> int \<Rightarrow> nat" where
  "textCost txt enc ll sl =
     (if enc = encUTF8 then length txt
      else sum_list (map (\<lambda>p. if enc = encGSM7 then gsm7CharSeptets (fst p) ll sl else if fst p > 0xffff then 2 else 1) (pieces txt)))"

lemma septets_cost: "gsm7SeptetLenRunes rs ll sl = Some n \<Longrightarrow> n = sum_list (map (\<lambda>r. gsm7CharSeptets r ll sl) rs)"
  by (induction rs arbitrary: n) (auto simp: gsm7CharSeptets_def gsm7CanEncodeLocking_def split: if_splits)

lemma messageLen_le_textCost:
  assumes "enc \<in> {encGSM7, encUCS2, encUTF8}"
  shows "messageLenWithLanguage txt enc ll sl \<le> textCost txt enc ll sl"
proof -
  have "length (runes txt) \<le> sum_list (map (\<lambda>p. gsm7CharSeptets (fst p) ll sl) (pieces txt))"
    using sum_list_mono [of "pieces txt" "\<lambda>p. 1" "\<lambda>p. gsm7CharSeptets (fst p) ll sl"]
    by (simp add: runes_def gsm7CharSeptets_def sum_list_triv)
  moreover have "n = sum_list (map (\<lambda>p. gsm7CharSeptets (fst p) ll sl) (pieces txt))"
    if "gsm7SeptetLenWithLanguage txt ll sl = Some n" for n
    using that septets_cost [of "runes txt" ll sl n] by (simp add: gsm7SeptetLenWithLanguage_def runes_def comp_def)
  moreover have "length (utf16_Encode rs) = sum_list (map (\<lambda>r. if r > 0xffff then 2 else 1) rs)" if "list_all scalar rs" for rs
    using that by (induction rs) (simp_all add: utf16_Encode_def length_EncodeUnits)
  from this [OF scalar_runes, of "txt"]
  have "length (utf16_Encode (runes txt)) = sum_list (map (\<lambda>p. if fst p > 0xffff then 2 else 1) (pieces txt))"
    by (simp add: runes_def comp_def)
  ultimately show ?thesis
    using assms by (auto simp: messageLenWithLanguage_def textCost_def split: option.split)
qed

lemma DecodeRune_size_le: "snd (DecodeRune s) \<le> 4"
  by (cases s) (auto simp: DecodeRune_def Let_def)

lemma lastStart_boundary:
  "lastStart limit pos i ps = i \<or>
    (\<exists>k < length ps. lastStart limit pos i ps = pos + length (concat (map snd (take k ps))) \<and> lastStart limit pos i ps \<le> limit)"
proof (induction ps arbitrary: pos i)
  case (Cons p ps)
  show ?case
  proof (cases "pos > limit")
    case False
    from Cons.IH [of "pos + length (snd p)" pos] show ?thesis
    proof (elim disjE exE conjE)
      assume "lastStart limit (pos + length (snd p)) pos ps = pos"
      with False show ?thesis by (intro disjI2 exI [of _ 0]) simp
    next
      fix k
      assume "k < length ps" "lastStart limit (pos + length (snd p)) pos ps =
          pos + length (snd p) + length (concat (map snd (take k ps)))" "lastStart limit (pos + length (snd p)) pos ps \<le> limit"
      with False show ?thesis by (intro disjI2 exI [of _ "Suc k"]) simp
    qed
  qed simp
qed simp

lemma take_concat_boundary:
  "take (length (concat (take k xss))) (concat xss) = concat (take k xss)"
  "drop (length (concat (take k xss))) (concat xss) = concat (drop k xss)"
  using append_take_drop_id [of k xss] by (metis append_eq_conv_conj concat_append)+

lemma utf8_chunk:
  assumes "takeSMSChunkWithLanguage txt encUTF8 limit ll sl = (chunk, rest)" "4 \<le> limit" "txt \<noteq> []"
  obtains k where "chunk = concat (map snd (take k (pieces txt)))" "rest = concat (map snd (drop k (pieces txt)))"
    "chunk \<noteq> []" "length chunk \<le> limit"
proof (cases "length txt \<le> limit")
  case True
  with assms that [of "length (pieces txt)"] show thesis
    by (simp add: takeSMSChunkWithLanguage_def)
next
  case False
  define i where "i = (let i0 = lastStart limit 0 0 (pieces txt) in if i0 = 0 then snd (DecodeRune txt) else i0)"
  have c: "chunk = take i txt" "rest = drop i txt"
    using assms(1) False by (auto simp: takeSMSChunkWithLanguage_def i_def Let_def)
  have "snd (hd (pieces txt)) = take (snd (DecodeRune txt)) txt" "pieces txt \<noteq> []"
    using assms(3) by (simp_all add: pieces_step)
  then have 1: "length (concat (map snd (take 1 (pieces txt)))) = snd (DecodeRune txt)"
    using DecodeRune_size [OF assms(3)] by (cases "pieces txt") auto
  have "\<exists>k. i = length (concat (map snd (take k (pieces txt)))) \<and> i \<le> limit"
  proof (cases "lastStart limit 0 0 (pieces txt) = 0")
    case True
    then have "i = snd (DecodeRune txt)" by (simp add: i_def)
    then show ?thesis using 1 DecodeRune_size_le [of "txt"] assms(2) by (intro exI [of _ 1]) simp
  next
    case False
    then show ?thesis using lastStart_boundary [of limit 0 0 "pieces txt"] by (auto simp: i_def Let_def)
  qed
  then obtain k where k: "i = length (concat (map snd (take k (pieces txt))))" "i \<le> limit" by blast
  have "0 < i" using DecodeRune_size [OF assms(3)] by (auto simp: i_def Let_def)
  then have "chunk \<noteq> []" "length chunk \<le> limit" using c(1) assms(3) k(2) by auto
  moreover have "chunk = concat (map snd (take k (pieces txt)))" "rest = concat (map snd (drop k (pieces txt)))"
    using take_concat_boundary [of k "map snd (pieces txt)"] unfolding c k(1) by (simp_all add: take_map drop_map)
  ultimately show thesis using that by blast
qed

text \<open>In the three encodings a chunk is a non-empty run of whole characters that the limit allows.\<close>

lemma chunk_split:
  assumes "takeSMSChunkWithLanguage txt enc limit ll sl = (chunk, rest)" "enc \<in> {encGSM7, encUCS2, encUTF8}"
    "4 \<le> limit" "txt \<noteq> []"
  shows "chunk @ rest = txt" "pieces chunk @ pieces rest = pieces txt" "chunk \<noteq> []" "length rest < length txt"
    "textCost chunk enc ll sl \<le> limit"
proof -
  have "chunk @ rest = txt \<and> pieces chunk @ pieces rest = pieces txt \<and> chunk \<noteq> [] \<and> textCost chunk enc ll sl \<le> limit"
  proof (cases "enc = encUTF8")
    case True
    with assms obtain k where k: "chunk = concat (map snd (take k (pieces txt)))" "rest = concat (map snd (drop k (pieces txt)))"
        "chunk \<noteq> []" "length chunk \<le> limit"
      using utf8_chunk by metis
    moreover have "chunk @ rest = txt"
      unfolding k(1,2) by (metis append_take_drop_id concat_append concat_pieces map_append)
    moreover have "pieces chunk @ pieces rest = pieces txt"
      unfolding k(1,2) by (simp only: pieces_take pieces_drop append_take_drop_id)
    ultimately show ?thesis using True by (simp add: textCost_def)
  next
    case False
    define cost where "cost = (\<lambda>p :: rune \<times> bytes. if enc = encGSM7 then gsm7CharSeptets (fst p) ll sl else if fst p > 0xffff then 2 else 1)"
    have "cutPieces cost limit txt = (chunk, rest)"
      using assms(1,2) False by (auto simp: takeSMSChunkWithLanguage_def takeGSM7ChunkWithLanguage_def takeUCS2Chunk_def cost_def)
    moreover have "cost p \<le> limit" for p
      using assms(3) by (simp add: cost_def gsm7CharSeptets_def)
    ultimately show ?thesis
      using cutPieces_split [of cost limit "txt" chunk rest] assms(3,4) False by (simp add: textCost_def cost_def)
  qed
  then show "chunk @ rest = txt" "pieces chunk @ pieces rest = pieces txt" "chunk \<noteq> []" "length rest < length txt"
    "textCost chunk enc ll sl \<le> limit" by auto
qed

text \<open>What the limits mean: within them, the user data of a part is at most 140 octets and 160 septets.\<close>

lemma fill_bits: "n \<le> 19 \<Longrightarrow> (7 - n * 8 mod 7) mod 7 + n * 8 = 7 * ((n * 8 + 6) div 7)" for n :: nat
proof -
  have "list_all (\<lambda>n :: nat. (7 - n * 8 mod 7) mod 7 + n * 8 = 7 * ((n * 8 + 6) div 7)) [0..<20]" by code_simp
  then show "n \<le> 19 \<Longrightarrow> ?thesis" unfolding list_all_iff by simp
qed

lemma packed_octets:
  fixes f u h s :: nat
  assumes "f + u * 8 = 7 * h" "s + h \<le> 160"
  shows "u + (f + s * 7 + 7) div 8 \<le> 140"
proof -
  have "u + (f + s * 7 + 7) div 8 = (u * 8 + (f + s * 7 + 7)) div 8" by simp
  also have "\<dots> \<le> 1127 div 8" using assms by (intro div_le_mono) linarith
  finally show ?thesis by simp
qed

lemma user_data_fits:
  assumes "encodeSMSUserDataWithLanguage txt enc udh ll sl = Inr (ud, udl, dcs)" "enc \<in> {encGSM7, encUCS2, encUTF8}"
    and "int (messageLenWithLanguage txt enc ll sl) \<le> smsPartLimitForUDH enc (length udh)" "length udh \<le> 19"
  shows "length ud \<le> 140 \<and> udl \<le> 160"
proof -
  consider "enc = encGSM7" | "enc = encUCS2" | "enc = encUTF8" using assms(2) by blast
  then show ?thesis
  proof cases
    case 1
    with assms(1) obtain septets where s: "encodeGSM7WithLanguage txt ll sl = Inr septets"
        "ud = udh @ packSeptets septets (if udh \<noteq> [] then (7 - length udh * 8 mod 7) mod 7 else 0)"
        "udl = length septets + (if udh \<noteq> [] then (length udh * 8 + 6) div 7 else 0)"
      by (auto simp: encodeSMSUserDataWithLanguage_def rbind_eq_Inr_iff Let_def)
    have "messageLenWithLanguage txt enc ll sl = length septets"
      using s(1) encodeGSM7Runes_length [of "runes txt" ll sl septets] 1
      by (simp add: messageLenWithLanguage_def gsm7SeptetLenWithLanguage_def encodeGSM7WithLanguage_def)
    then have "udl \<le> 160" using assms(3) s(3) 1 by (auto simp: smsPartLimitForUDH_def split: if_splits)
    then have "length ud \<le> 140"
      using s(2,3) assms(4) packed_octets [OF fill_bits [OF assms(4)], of "length septets"] packed_octets [of 0 0 0 "length septets"]
      by (cases "septets = []"; cases "udh = []") (simp_all add: length_packSeptets smsPackedSeptetOctets_def)
    with \<open>udl \<le> 160\<close> show ?thesis by blast
  next
    case 2
    then have "ud = udh @ concat (map PutUint16 (utf16_Encode (runes txt)))" "udl = length ud"
      using assms(1) by (auto simp: encodeSMSUserDataWithLanguage_def Let_def)
    moreover have "2 * length (utf16_Encode (runes txt)) + length udh \<le> 140"
      using assms(3,4) 2 by (auto simp: smsPartLimitForUDH_def messageLenWithLanguage_def split: if_splits)
    ultimately show ?thesis by (simp add: length_PutUint16s)
  next
    case 3
    then show ?thesis
      using assms by (auto simp: encodeSMSUserDataWithLanguage_def Let_def smsPartLimitForUDH_def messageLenWithLanguage_def
        split: if_splits)
  qed
qed

section \<open>The parts of a text\<close>

text \<open>Part \<open>k\<close> of \<open>n\<close>: the header is the one that names it, the rest comes from the options.\<close>

definition isPart :: "SendOptions \<Rightarrow> int \<Rightarrow> bool \<Rightarrow> bytes \<Rightarrow> int \<Rightarrow> int \<Rightarrow> nat \<Rightarrow> nat \<Rightarrow> bytes \<Rightarrow> SMSPart \<Rightarrow> bool" where
  "isPart opts portBits hasPorts enc ref refBits n k chunk p \<longleftrightarrow>
     partUDH opts portBits hasPorts ref refBits (int n) (int k) = Inr (pt_UDH p) \<and>
     p = newPart opts portBits enc (int k) (int n) chunk (pt_UDH p) ref refBits"

lemma segmentLoop_parts:
  assumes "segmentLoop fuel opts portBits hasPorts enc limit ref refBits n txt k = Inr out"
    "enc \<in> {encGSM7, encUCS2, encUTF8}" "4 \<le> limit"
  obtains chunks udhs where "length chunks = length out" "length udhs = length out" "concat chunks = txt"
    "concat (map pieces chunks) = pieces txt"
    "\<forall>c \<in> set chunks. c \<noteq> [] \<and> textCost c enc (so_LockingShiftLang opts) (so_SingleShiftLang opts) \<le> limit"
    "\<forall>i < length out. out ! i = newPart opts portBits enc (k + int i) n (chunks ! i) (udhs ! i) ref refBits"
  using assms
proof (induction fuel arbitrary: "txt" k out thesis)
  case 0
  then show ?case by (cases "txt") (auto simp: )
next
  case (Suc fuel)
  let ?ll = "so_LockingShiftLang opts" and ?sl = "so_SingleShiftLang opts"
  show ?case
  proof (cases "txt")
    case Nil
    with Suc.prems show ?thesis by auto
  next
    case (Cons b bs)
    obtain chunk rest where cr: "takeSMSChunkWithLanguage txt enc limit ?ll ?sl = (chunk, rest)" by fastforce
    note sp = chunk_split [OF cr Suc.prems(3,4)]
    from Suc.prems(2) Cons cr obtain udh out' where o: "partUDH opts portBits hasPorts ref refBits n k = Inr udh"
        "segmentLoop fuel opts portBits hasPorts enc limit ref refBits n rest (k + 1) = Inr out'"
        "out = newPart opts portBits enc k n chunk udh ref refBits # out'"
      by (auto simp: rbind_eq_Inr_iff)
    obtain chunks udhs where i: "length chunks = length out'" "length udhs = length out'" "concat chunks = rest"
        "concat (map pieces chunks) = pieces rest" "\<forall>c \<in> set chunks. c \<noteq> [] \<and> textCost c enc ?ll ?sl \<le> limit"
        "\<forall>i < length out'. out' ! i = newPart opts portBits enc (k + 1 + int i) n (chunks ! i) (udhs ! i) ref refBits"
      by (rule Suc.IH [OF _ o(2) Suc.prems(3,4)])
    have "out ! j = newPart opts portBits enc (k + int j) n ((chunk # chunks) ! j) ((udh # udhs) ! j) ref refBits"
      if "j < length out" for j
      using that i(6) by (cases j) (auto simp: o(3) algebra_simps)
    with i sp Cons show ?thesis
      by (intro Suc.prems(1) [of "chunk # chunks" "udh # udhs"]) (auto simp: o(3))
  qed
qed

lemma renumberParts_parts:
  assumes "renumberParts opts portBits hasPorts ref refBits n ps = Inr out"
  shows "length out = length ps"
    "\<And>i. i < length ps \<Longrightarrow> partUDH opts portBits hasPorts ref refBits n (pt_PartNo (ps ! i)) = Inr (pt_UDH (out ! i)) \<and>
       out ! i = (ps ! i)\<lparr>pt_TotalParts := n, pt_UDH := pt_UDH (out ! i)\<rparr>"
proof -
  have "length out = length ps \<and> (\<forall>i < length ps. partUDH opts portBits hasPorts ref refBits n (pt_PartNo (ps ! i)) =
      Inr (pt_UDH (out ! i)) \<and> out ! i = (ps ! i)\<lparr>pt_TotalParts := n, pt_UDH := pt_UDH (out ! i)\<rparr>)"
    using assms by (induction ps arbitrary: out) (auto simp: rbind_eq_Inr_iff nth_Cons')
  then show "length out = length ps"
    "\<And>i. i < length ps \<Longrightarrow> partUDH opts portBits hasPorts ref refBits n (pt_PartNo (ps ! i)) = Inr (pt_UDH (out ! i)) \<and>
       out ! i = (ps ! i)\<lparr>pt_TotalParts := n, pt_UDH := pt_UDH (out ! i)\<rparr>"
    by blast+
qed

lemma both_loops:
  assumes "rbind (segmentLoop fuel opts portBits hasPorts enc limit ref refBits n0 txt 1)
      (\<lambda>out. renumberParts opts portBits hasPorts ref refBits (int (length out)) out) = Inr parts"
    "enc \<in> {encGSM7, encUCS2, encUTF8}" "4 \<le> limit"
  obtains chunks where "length chunks = length parts" "concat chunks = txt" "concat (map pieces chunks) = pieces txt"
    "\<forall>c \<in> set chunks. c \<noteq> [] \<and> textCost c enc (so_LockingShiftLang opts) (so_SingleShiftLang opts) \<le> limit"
    "\<forall>i < length parts. isPart opts portBits hasPorts enc ref refBits (length parts) (i + 1) (chunks ! i) (parts ! i)"
proof -
  from assms(1) obtain out where o: "segmentLoop fuel opts portBits hasPorts enc limit ref refBits n0 txt 1 = Inr out"
      "renumberParts opts portBits hasPorts ref refBits (int (length out)) out = Inr parts"
    by (auto simp: rbind_eq_Inr_iff)
  obtain chunks udhs where c: "length chunks = length out" "length udhs = length out" "concat chunks = txt"
      "concat (map pieces chunks) = pieces txt"
      "\<forall>c \<in> set chunks. c \<noteq> [] \<and> textCost c enc (so_LockingShiftLang opts) (so_SingleShiftLang opts) \<le> limit"
      "\<forall>i < length out. out ! i = newPart opts portBits enc (1 + int i) n0 (chunks ! i) (udhs ! i) ref refBits"
    by (rule segmentLoop_parts [OF o(1) assms(2,3)])
  note r = renumberParts_parts [OF o(2)]
  have "isPart opts portBits hasPorts enc ref refBits (length parts) (i + 1) (chunks ! i) (parts ! i)" if "i < length parts" for i
  proof -
    have "out ! i = newPart opts portBits enc (1 + int i) n0 (chunks ! i) (udhs ! i) ref refBits"
      using that r(1) c(6) by simp
    with r(2) [of i] that r(1) show ?thesis
      by (simp add: isPart_def newPart_def)
  qed
  with that c r(1) show thesis by simp
qed

lemma setup_encoding:
  assumes "segmentSetup txt opts = Inr (enc, portBits, hasPorts)"
  shows "enc \<in> {encGSM7, encUCS2, encUTF8}"
    and "hasPorts \<Longrightarrow> validateSMSApplicationPortOptions (so_ApplicationDestPort opts) (so_ApplicationSourcePort opts) portBits = Inr (portBits, True)"
    and "so_UseDataCodingScheme opts \<or> so_DataCodingScheme opts \<noteq> 0 \<Longrightarrow>
      validateSMSSubmitDataCodingScheme (so_DataCodingScheme opts) enc = Inr ()"
proof -
  have n: "normalizeEncoding t q \<in> {encGSM7, encUCS2, encUTF8}" for t q by (simp add: normalizeEncoding_def Let_def)
  show "enc \<in> {encGSM7, encUCS2, encUTF8}"
    using assms n alphabetOf_DCS(2)
    by (auto simp: segmentSetup_def rbind_eq_Inr_iff normalizeSMSSubmitEncodingWithLanguage_def normalizeSMSSubmitEncoding_def Let_def
      split: if_splits)
  show "so_UseDataCodingScheme opts \<or> so_DataCodingScheme opts \<noteq> 0 \<Longrightarrow>
      validateSMSSubmitDataCodingScheme (so_DataCodingScheme opts) enc = Inr ()"
    using assms
    by (auto simp: segmentSetup_def rbind_eq_Inr_iff normalizeSMSSubmitEncodingWithLanguage_def normalizeSMSSubmitEncoding_def Let_def
      split: if_splits)
  show "hasPorts \<Longrightarrow> validateSMSApplicationPortOptions (so_ApplicationDestPort opts) (so_ApplicationSourcePort opts) portBits = Inr (portBits, True)"
    using assms
    by (auto simp: segmentSetup_def rbind_eq_Inr_iff validateSMSApplicationPortOptions_def Let_def split: if_splits)
qed

lemma smsSubmitUDHLength_le: "smsSubmitUDHLength hasPorts bits h refBits sl ll \<le> 19"
  by (simp add: smsSubmitUDHLength_def Let_def)

lemma limit_bounds:
  assumes "n \<le> 19"
  shows "4 \<le> smsPartLimitForUDH enc n"
  using assms by (auto simp: smsPartLimitForUDH_def)

lemma limit_mono: "m \<le> n \<Longrightarrow> n \<le> 19 \<Longrightarrow> smsPartLimitForUDH enc n \<le> smsPartLimitForUDH enc m"
  by (auto simp: smsPartLimitForUDH_def intro!: div_le_mono)

lemma segment_parts:
  assumes "fst (segmentSMS txt opts c) = Inr parts" "txt \<noteq> []"
  obtains enc portBits hasPorts ref refBits chunks where "segmentSetup txt opts = Inr (enc, portBits, hasPorts)"
    "length chunks = length parts" "concat chunks = txt" "concat (map pieces chunks) = pieces txt"
    "\<forall>i < length parts. isPart opts portBits hasPorts enc ref refBits (length parts) (i + 1) (chunks ! i) (parts ! i)"
    "\<forall>c \<in> set chunks. c \<noteq> [] \<and> int (messageLenWithLanguage c enc (so_LockingShiftLang opts) (so_SingleShiftLang opts)) \<le>
       smsPartLimitForUDH enc (smsSubmitUDHLength hasPorts portBits (length parts > 1) refBits (so_SingleShiftLang opts)
         (so_LockingShiftLang opts))"
proof -
  let ?ll = "so_LockingShiftLang opts" and ?sl = "so_SingleShiftLang opts"
  from assms obtain enc portBits hasPorts where su: "segmentSetup txt opts = Inr (enc, portBits, hasPorts)"
    by (auto simp: segmentSMS_def split: sum.splits)
  note enc = setup_encoding(1) [OF su]
  let ?len = "messageLenWithLanguage txt enc ?ll ?sl"
  let ?lim = "\<lambda>h b. smsPartLimitForUDH enc (smsSubmitUDHLength hasPorts portBits h b ?sl ?ll)"
  show thesis
  proof (cases "int ?len \<le> ?lim False 0")
    case True
    with assms su obtain udh where u: "partUDH opts portBits hasPorts 0 0 1 1 = Inr udh"
        "parts = [newPart opts portBits enc 1 1 txt udh 0 0]"
      by (auto simp: segmentSMS_def Let_def rbind_eq_Inr_iff)
    with True assms(2) show thesis
      by (intro that [OF su, of "[txt]" 0 0]) (simp_all add: isPart_def newPart_def)
  next
    case False
    with assms su obtain refBits ref where "segmentConcat txt opts enc portBits hasPorts ref refBits = Inr parts"
      by (auto simp: segmentSMS_def Let_def split: sum.splits prod.splits)
    then obtain n0 where r: "0 < ?lim True refBits"
        "rbind (segmentLoop (length txt) opts portBits hasPorts enc (nat (?lim True refBits)) ref refBits n0 txt 1)
         (\<lambda>out. renumberParts opts portBits hasPorts ref refBits (int (length out)) out) = Inr parts"
      unfolding segmentConcat_def Let_def by (metis (no_types, lifting) Inl_Inr_False not_le)
    have "4 \<le> nat (?lim True refBits)"
      using limit_bounds [OF smsSubmitUDHLength_le, of enc hasPorts portBits True refBits ?sl ?ll] by linarith
    from both_loops [OF r(2) enc this] obtain chunks where ch: "length chunks = length parts" "concat chunks = txt"
        "concat (map pieces chunks) = pieces txt"
        "\<forall>c \<in> set chunks. c \<noteq> [] \<and> textCost c enc ?ll ?sl \<le> nat (?lim True refBits)"
        "\<forall>i < length parts. isPart opts portBits hasPorts enc ref refBits (length parts) (i + 1) (chunks ! i) (parts ! i)"
      by metis
    have bound: "int (messageLenWithLanguage ch enc ?ll ?sl) \<le> ?lim True refBits" if "ch \<in> set chunks" for ch
      using messageLen_le_textCost [OF enc, of ch ?ll ?sl] ch(4) that r(1) by fastforce
    have "length parts \<noteq> 1"
    proof
      assume "length parts = 1"
      then have "chunks = [txt]" using ch(1,2) by (cases chunks) auto
      then have "int ?len \<le> ?lim True refBits" using bound by simp
      also have "\<dots> \<le> ?lim False 0"
        using smsSubmitUDHLength_le by (intro limit_mono) (auto simp: smsSubmitUDHLength_def Let_def)
      finally show False using False by simp
    qed
    moreover have "parts \<noteq> []" using ch(1,2) assms(2) by auto
    ultimately have "length parts > 1" by (cases parts) (auto simp: Suc_lessI)
    with that [OF su ch(1,2,3,5)] ch(4) bound show thesis by simp
  qed
qed

lemma isPart_header:
  assumes "isPart opts portBits hasPorts enc ref refBits n k chunk p" "segmentSetup txt opts = Inr (enc, portBits, hasPorts)"
  shows "length (pt_UDH p) = smsSubmitUDHLength hasPorts portBits (n > 1) refBits (so_SingleShiftLang opts) (so_LockingShiftLang opts)"
    and "header_for (pt_UDH p) (so_LockingShiftLang opts) (so_SingleShiftLang opts)"
    and "n > 1 \<Longrightarrow> pt_UDH p \<noteq> [] \<and> uh_Concat (parseSMSUDHInfo (pt_UDH p)) =
      \<lparr>sc_IsConcat = True, sc_Ref = ref, sc_RefBits = refBits, sc_Total = int n, sc_Seq = int k\<rparr>"
    and "pt_UDH p \<noteq> [] \<Longrightarrow> \<not> n > 1 \<Longrightarrow> uh_Concat (parseSMSUDHInfo (pt_UDH p)) = NoConcat"
proof -
  note u = assms(1) [unfolded isPart_def partUDH_def, THEN conjunct1]
  note ports = setup_encoding(2) [OF assms(2)]
  show l: "length (pt_UDH p) = smsSubmitUDHLength hasPorts portBits (n > 1) refBits (so_SingleShiftLang opts) (so_LockingShiftLang opts)"
    using buildSMSSubmitUDH_length(1) [OF u ports] by simp
  show "header_for (pt_UDH p) (so_LockingShiftLang opts) (so_SingleShiftLang opts)"
    by (rule header_for_built [OF u ports])
  show "pt_UDH p \<noteq> [] \<and> uh_Concat (parseSMSUDHInfo (pt_UDH p)) =
      \<lparr>sc_IsConcat = True, sc_Ref = ref, sc_RefBits = refBits, sc_Total = int n, sc_Seq = int k\<rparr>" if "n > 1"
  proof -
    have ne: "pt_UDH p \<noteq> []" using l that by (auto simp: smsSubmitUDHLength_def Let_def split: if_splits)
    with parse_built(6) [OF u ne ports] that show ?thesis by simp
  qed
  show "uh_Concat (parseSMSUDHInfo (pt_UDH p)) = NoConcat" if "pt_UDH p \<noteq> []" "\<not> n > 1"
    using parse_built(6) [OF u that(1) ports] that(2) by simp
qed

section \<open>When segmentation succeeds, and when it does not\<close>

lemma partUDH_ok:
  assumes "segmentSetup txt opts = Inr (enc, portBits, hasPorts)" "1 \<le> k" "k \<le> n" "n \<le> 255"
    and "refBits = 8 \<and> 0 \<le> ref \<and> ref \<le> 0xff \<or> refBits = 16 \<and> 0 \<le> ref \<and> ref \<le> 0xffff"
  shows "\<exists>udh. partUDH opts portBits hasPorts ref refBits n k = Inr udh"
proof -
  have "validateSMSNationalLanguageOptions (so_SingleShiftLang opts) (so_LockingShiftLang opts) = Inr ()"
    using assms(1) by (auto simp: segmentSetup_def rbind_eq_Inr_iff)
  moreover have "hasPorts \<Longrightarrow> \<exists>e. smsApplicationPortUDHElement (so_ApplicationDestPort opts) (so_ApplicationSourcePort opts) portBits = Inr e"
    using setup_encoding(2) [OF assms(1)] by (simp add: smsApplicationPortUDHElement_def)
  moreover have "\<exists>e. smsConcatUDHElement ref refBits n k = Inr e"
    using assms(2-5) by (auto simp: smsConcatUDHElement_def)
  ultimately show ?thesis
    unfolding partUDH_def buildSMSSubmitUDH_def by (cases hasPorts; cases "n > 1") (auto simp: Let_def)
qed

lemma partUDH_beyond:
  assumes "segmentSetup txt opts = Inr (enc, portBits, hasPorts)" "1 < n" "n \<le> 255" "n < k"
  shows "partUDH opts portBits hasPorts ref refBits n k = Inl (Fmt ''sms concat part number out of range'')"
proof -
  have "validateSMSNationalLanguageOptions (so_SingleShiftLang opts) (so_LockingShiftLang opts) = Inr ()"
    using assms(1) by (auto simp: segmentSetup_def rbind_eq_Inr_iff)
  moreover have "hasPorts \<Longrightarrow> \<exists>e. smsApplicationPortUDHElement (so_ApplicationDestPort opts) (so_ApplicationSourcePort opts) portBits = Inr e"
    using setup_encoding(2) [OF assms(1)] by (simp add: smsApplicationPortUDHElement_def)
  moreover have "smsConcatUDHElement ref refBits n k = Inl (Fmt ''sms concat part number out of range'')"
    using assms(2-4) by (simp add: smsConcatUDHElement_def)
  ultimately show ?thesis
    using assms(2) unfolding partUDH_def buildSMSSubmitUDH_def by (cases hasPorts) (auto simp: Let_def)
qed

lemma segmentLoop_step:
  assumes "txt \<noteq> []" "takeSMSChunkWithLanguage txt enc limit (so_LockingShiftLang opts) (so_SingleShiftLang opts) = (chunk, rest)"
  shows "segmentLoop (Suc fuel) opts portBits hasPorts enc limit ref refBits n txt k =
    rbind (partUDH opts portBits hasPorts ref refBits n k) (\<lambda>udh.
    rbind (segmentLoop fuel opts portBits hasPorts enc limit ref refBits n rest (k + 1)) (\<lambda>out.
      Inr (newPart opts portBits enc k n chunk udh ref refBits # out)))"
  using assms by (cases "txt") simp_all

lemma chosen_reference:
  assumes "validateSMSConcatOptions (so_ConcatRef opts) (so_ConcatRefBits opts) = Inr refBits"
    "(if so_ConcatRef opts = 0 then nextSMSConcatRef refBits counter else (so_ConcatRef opts, counter)) = (ref, counter')"
  shows "refBits = 8 \<and> 0 \<le> ref \<and> ref \<le> 0xff \<or> refBits = 16 \<and> 0 \<le> ref \<and> ref \<le> 0xffff"
proof -
  have "uint (w mod 0xff) < 0xff" "uint (w mod 0xffff) < 0xffff" for w :: u32 by (simp_all add: uint_mod)
  from this [of "counter + 1"] assms show ?thesis
    by (auto simp: validateSMSConcatOptions_def nextSMSConcatRef_def Let_def split: if_splits)
qed

text \<open>Characters of one unit fill a chunk exactly.\<close>

lemma chunkPieces_unit:
  assumes "\<forall>p \<in> set ps. cost p = 1" "used < limit"
  shows "chunkPieces cost limit used ps = min (limit - used) (length ps)"
  using assms
proof (induction ps arbitrary: used)
  case (Cons p ps)
  then show ?case by (cases "used + 1 < limit") auto
qed simp

definition unitText :: "bytes \<Rightarrow> bytes \<Rightarrow> int \<Rightarrow> int \<Rightarrow> bool" where
  "unitText txt enc ll sl \<longleftrightarrow>
     enc = encGSM7 \<and> (\<forall>r \<in> set (runes txt). gsm7LockingCode r ll \<noteq> None) \<or> enc = encUCS2 \<and> (\<forall>r \<in> set (runes txt). r \<le> 0xffff)"

lemma unit_chunk:
  assumes "unitText txt enc ll sl" "0 < limit" "takeSMSChunkWithLanguage txt enc limit ll sl = (chunk, rest)"
  shows "unitText rest enc ll sl" "length (runes rest) = length (runes txt) - limit"
proof -
  define cost where "cost = (\<lambda>p :: rune \<times> bytes. if enc = encGSM7 then gsm7CharSeptets (fst p) ll sl else if fst p > 0xffff then 2 else 1)"
  have u: "\<forall>p \<in> set (pieces txt). cost p = 1"
    using assms(1) by (auto simp: unitText_def cost_def gsm7CharSeptets_def gsm7CanEncodeLocking_def runes_def)
  have "cutPieces cost limit txt = (chunk, rest)"
    using assms(1,3) by (auto simp: unitText_def takeSMSChunkWithLanguage_def takeGSM7ChunkWithLanguage_def takeUCS2Chunk_def cost_def)
  then have "runes rest = drop limit (runes txt)"
    using assms(2) chunkPieces_unit [OF u assms(2)] by (auto simp: cutPieces_def Let_def min_def runes_def pieces_drop drop_map split: if_splits)
  moreover have "set (drop limit (runes txt)) \<subseteq> set (runes txt)" by (rule set_drop_subset)
  ultimately show "unitText rest enc ll sl" "length (runes rest) = length (runes txt) - limit"
    using assms(1) by (auto simp: unitText_def)
qed

lemma segmentLoop_returns:
  assumes "segmentSetup t opts = Inr (enc, portBits, hasPorts)" "4 \<le> limit" "n \<le> 255"
    and "refBits = 8 \<and> 0 \<le> ref \<and> ref \<le> 0xff \<or> refBits = 16 \<and> 0 \<le> ref \<and> ref \<le> 0xffff"
    and "length txt \<le> fuel" "unitText txt enc (so_LockingShiftLang opts) (so_SingleShiftLang opts)"
    and "1 \<le> k" "int (length (runes txt)) \<le> (n - k + 1) * int limit"
  shows "\<exists>out. segmentLoop fuel opts portBits hasPorts enc limit ref refBits n txt k = Inr out \<and> int (length out) \<le> n - k + 1 \<and>
    (\<forall>i < length out. pt_PartNo (out ! i) = k + int i)"
  using assms(5-8)
proof (induction fuel arbitrary: "txt" k)
  case 0
  then show ?case using assms(2) by (simp add: zero_le_mult_iff)
next
  case (Suc fuel)
  let ?ll = "so_LockingShiftLang opts" and ?sl = "so_SingleShiftLang opts"
  show ?case
  proof (cases "txt = []")
    case False
    obtain chunk rest where cr: "takeSMSChunkWithLanguage txt enc limit ?ll ?sl = (chunk, rest)" by fastforce
    have enc: "enc \<in> {encGSM7, encUCS2, encUTF8}" by (rule setup_encoding(1) [OF assms(1)])
    have "0 < int (length (runes txt))" using False by simp
    then have "0 < (n - k + 1) * int limit" using Suc.prems(4) by (rule order_less_le_trans)
    then have k: "k \<le> n" using assms(2) by (simp add: zero_less_mult_iff)
    have "length rest \<le> fuel" using chunk_split(4) [OF cr enc assms(2) False] Suc.prems(1) by simp
    moreover have "int (length (runes rest)) \<le> (n - (k + 1) + 1) * int limit"
    proof -
      have "int (length (runes rest)) = max 0 (int (length (runes txt)) - int limit)"
        using unit_chunk(2) [OF Suc.prems(2) _ cr] assms(2) by simp
      moreover have "(n - (k + 1) + 1) * int limit = (n - k + 1) * int limit - int limit" by (simp add: algebra_simps)
      moreover have "0 \<le> (n - (k + 1) + 1) * int limit" using k by simp
      ultimately show ?thesis using Suc.prems(4) by linarith
    qed
    moreover have "unitText rest enc ?ll ?sl" using unit_chunk(1) [OF Suc.prems(2) _ cr] assms(2) by simp
    ultimately obtain out where o: "segmentLoop fuel opts portBits hasPorts enc limit ref refBits n rest (k + 1) = Inr out"
        "int (length out) \<le> n - (k + 1) + 1" "\<forall>i < length out. pt_PartNo (out ! i) = k + 1 + int i"
      using Suc.IH [of rest "k + 1"] Suc.prems(3) by auto
    from partUDH_ok [OF assms(1) Suc.prems(3) k assms(3,4)] obtain udh where
      "partUDH opts portBits hasPorts ref refBits n k = Inr udh" by blast
    with o segmentLoop_step [OF False cr, of fuel portBits hasPorts ref refBits n k] show ?thesis
      by (auto simp: nth_Cons' newPart_def)
  qed (use Suc.prems assms(2) in \<open>simp add: zero_le_mult_iff\<close>)
qed

lemma renumberParts_ok:
  assumes "\<forall>p \<in> set ps. \<exists>udh. partUDH opts portBits hasPorts ref refBits n (pt_PartNo p) = Inr udh"
  shows "\<exists>out. renumberParts opts portBits hasPorts ref refBits n ps = Inr out"
  using assms
proof (induction ps)
  case (Cons p ps)
  then obtain udh out where "partUDH opts portBits hasPorts ref refBits n (pt_PartNo p) = Inr udh"
      "renumberParts opts portBits hasPorts ref refBits n ps = Inr out"
    by auto
  then show ?case by simp
qed simp

lemma unit_text_length:
  assumes "unitText txt enc ll sl"
  shows "messageLenWithLanguage txt enc ll sl = length (runes txt)"
proof -
  have "gsm7SeptetLenRunes rs ll sl = Some (length rs)" if "\<forall>r \<in> set rs. gsm7LockingCode r ll \<noteq> None" for rs
    using that by (induction rs) auto
  moreover have "length (utf16_Encode rs) = length rs" if "\<forall>r \<in> set rs. r \<le> 0xffff" "list_all scalar rs" for rs
    using that by (induction rs) (auto simp: utf16_Encode_def length_EncodeUnits)
  ultimately show ?thesis
    using assms scalar_runes [of "txt"]
    by (auto simp: unitText_def messageLenWithLanguage_def gsm7SeptetLenWithLanguage_def)
qed

lemma ceil_div_bounds:
  fixes l a m :: int
  assumes "0 < l"
  shows "a \<le> m * l \<Longrightarrow> (a + l - 1) div l \<le> m" "a \<le> (a + l - 1) div l * l"
proof -
  assume "a \<le> m * l"
  then have "(a + l - 1) div l \<le> (m * l + (l - 1)) div l" using assms by (intro zdiv_mono1) simp_all
  also have "\<dots> = m" using assms by (simp add: div_pos_pos_trivial)
  finally show "(a + l - 1) div l \<le> m" .
next
  have "(a + l - 1) mod l < l" using assms by simp
  then show "a \<le> (a + l - 1) div l * l" using div_mult_mod_eq [of "a + l - 1" l] by linarith
qed

lemma partUDH_single:
  assumes "segmentSetup txt opts = Inr (enc, portBits, hasPorts)"
  shows "\<exists>udh. partUDH opts portBits hasPorts 0 0 1 1 = Inr udh"
proof -
  have "validateSMSNationalLanguageOptions (so_SingleShiftLang opts) (so_LockingShiftLang opts) = Inr ()"
    using assms by (auto simp: segmentSetup_def rbind_eq_Inr_iff)
  moreover have "hasPorts \<Longrightarrow> \<exists>e. smsApplicationPortUDHElement (so_ApplicationDestPort opts) (so_ApplicationSourcePort opts) portBits = Inr e"
    using setup_encoding(2) [OF assms] by (simp add: smsApplicationPortUDHElement_def)
  ultimately show ?thesis
    unfolding partUDH_def buildSMSSubmitUDH_def by (cases hasPorts) (auto simp: Let_def)
qed

text \<open>C23: texts of characters that take one unit each are always cut.  For a text whose characters are all in the locking
  table (GSM 7-bit) or all in the basic multilingual plane (UCS-2), once the options are accepted and no more than 255 parts
  are needed, \<^verbatim>\<open>segmentSMS\<close> returns parts.\<close>

theorem unit_text_is_segmented:
  assumes su: "segmentSetup txt opts = Inr (enc, portBits, hasPorts)"
    and ref: "validateSMSConcatOptions (so_ConcatRef opts) (so_ConcatRefBits opts) = Inr refBits"
    and unit: "unitText txt enc (so_LockingShiftLang opts) (so_SingleShiftLang opts)"
    and few: "int (messageLenWithLanguage txt enc (so_LockingShiftLang opts) (so_SingleShiftLang opts)) \<le>
      255 * smsPartLimitForUDH enc (smsSubmitUDHLength hasPorts portBits True refBits (so_SingleShiftLang opts) (so_LockingShiftLang opts))"
  shows "\<exists>parts. fst (segmentSMS txt opts counter) = Inr parts"
proof -
  let ?ll = "so_LockingShiftLang opts" and ?sl = "so_SingleShiftLang opts"
  let ?len = "int (messageLenWithLanguage txt enc ?ll ?sl)"
  let ?lim = "smsPartLimitForUDH enc (smsSubmitUDHLength hasPorts portBits True refBits ?sl ?ll)"
  obtain r c where rc: "(if so_ConcatRef opts = 0 then nextSMSConcatRef refBits counter else (so_ConcatRef opts, counter)) = (r, c)"
    by fastforce
  note range = chosen_reference [OF ref rc]
  have len: "?len = int (length (runes txt))"
    using unit unit_text_length by simp
  have lim: "4 \<le> ?lim" by (rule limit_bounds [OF smsSubmitUDHLength_le])
  define n where "n = (?len + ?lim - 1) div ?lim"
  have n: "n \<le> 255" "?len \<le> n * ?lim"
    using ceil_div_bounds(1) [of ?lim ?len 255] ceil_div_bounds(2) [of ?lim ?len] few lim by (simp_all add: n_def)
  define n1 where "n1 = (if n \<le> 0 then 1 else n)"
  have n1: "n1 \<le> 255" "?len \<le> n1 * ?lim" using n lim by (auto simp: n1_def mult_nonneg_nonpos intro: order_trans)
  have "\<exists>out. segmentLoop (length txt) opts portBits hasPorts enc (nat ?lim) r refBits n1 txt 1 = Inr out \<and>
      int (length out) \<le> n1 - 1 + 1 \<and> (\<forall>i < length out. pt_PartNo (out ! i) = 1 + int i)"
    by (rule segmentLoop_returns [OF su _ n1(1) range order_refl unit]) (use lim n1(2) len in auto)
  then obtain out where o: "segmentLoop (length txt) opts portBits hasPorts enc (nat ?lim) r refBits n1 txt 1 = Inr out"
      "int (length out) \<le> 255" "\<forall>i < length out. pt_PartNo (out ! i) = 1 + int i"
    using n1(1) by auto
  have "\<exists>res. renumberParts opts portBits hasPorts r refBits (int (length out)) out = Inr res"
  proof (rule renumberParts_ok, rule ballI)
    fix p assume "p \<in> set out"
    then obtain i where "i < length out" "p = out ! i" by (metis in_set_conv_nth)
    then show "\<exists>udh. partUDH opts portBits hasPorts r refBits (int (length out)) (pt_PartNo p) = Inr udh"
      using o(2,3) by (intro partUDH_ok [OF su _ _ _ range]) auto
  qed
  then have multi: "\<exists>res. segmentConcat txt opts enc portBits hasPorts r refBits = Inr res"
    using o(1) n1(1) lim by (auto simp: segmentConcat_def Let_def n1_def n_def)
  have "\<exists>udh. partUDH opts portBits hasPorts 0 0 1 1 = Inr udh"
    by (rule partUDH_single [OF su])
  with multi show ?thesis
    using su ref rc by (auto simp: segmentSMS_def Let_def)
qed

theorem unit_text_is_segmented_witness:
  "\<exists>parts. fst (segmentSMS [104, 105] (NoOptions\<lparr>so_Encoding := encUCS2\<rparr>) 0) = Inr parts"
proof -
  let ?o = "NoOptions\<lparr>so_Encoding := encUCS2\<rparr>"
  have e: "TrimSpace encUCS2 = encUCS2" "\<not> ToLower_is encUCS2 ''gsm7''" "\<not> ToLower_is encUCS2 ''7bit''"
      "\<not> ToLower_is encUCS2 ''gsm-7''" "ToLower_is encUCS2 ''ucs2''" "encUCS2 \<noteq> []" "Time_IsZero ZeroTime"
      "validateSMSConcatOptions 0 0 = Inr 8" "runes [104, 105] = [104, 105]"
    by code_simp+
  then have su: "segmentSetup [104, 105] ?o = Inr (encUCS2, 0, False)"
    by (simp add: segmentSetup_def NoOptions_def encodeSMSSubmitValidityPeriod_def encodeSMSRelativeValidityPeriod_def
      validateSMSNationalLanguageOptions_def normalizeSMSSubmitEncodingWithLanguage_def normalizeSMSSubmitEncoding_def
      normalizeEncoding_def validateSMSApplicationPortOptions_def)
  have u: "unitText [104, 105] encUCS2 0 0" using e(9) by (simp add: unitText_def)
  from unit_text_is_segmented [OF su, of 8 0] u e(8) unit_text_length [OF u] e(9) show ?thesis
    by (simp add: NoOptions_def smsPartLimitForUDH_def smsSubmitUDHLength_def)
qed

lemma chunkPieces_pairs:
  assumes "\<forall>p \<in> set ps. cost p = 2" "j \<le> 33"
  shows "chunkPieces cost 67 (2 * j) ps = min (33 - j) (length ps)"
  using assms
proof (induction ps arbitrary: j)
  case (Cons p ps)
  show ?case
  proof (cases "j = 33")
    case False
    then have "chunkPieces cost 67 (2 * Suc j) ps = min (33 - Suc j) (length ps)" using Cons by (intro Cons.IH) auto
    then show ?thesis using False Cons.prems by (simp add: min_def) linarith
  qed (use Cons.prems in simp)
qed simp

lemma pair_chunk:
  assumes "list_all (\<lambda>r. scalar r \<and> r > 0xffff) rs" "rs \<noteq> []"
  shows "takeSMSChunkWithLanguage (of_runes rs) encUCS2 67 ll sl = (of_runes (take 33 rs), of_runes (drop 33 rs))"
proof -
  let ?ps = "map (\<lambda>r. (r, EncodeRune r)) rs" and ?cost = "\<lambda>p :: rune \<times> bytes. if fst p > 0xffff then 2 else 1 :: nat"
  have ps: "pieces (of_runes rs) = ?ps"
    using pieces_of_runes [of rs "[]"] assms(1) by (simp add: list_all_iff)
  have "\<forall>p \<in> set ?ps. ?cost p = 2" using assms(1) by (auto simp: list_all_iff)
  then have k: "chunkPieces ?cost 67 0 ?ps = min 33 (length rs)" using chunkPieces_pairs [of ?ps ?cost 0] by simp
  have ne: "of_runes rs \<noteq> []" using assms(2) by (cases rs) simp_all
  have o: "concat (map snd (map (\<lambda>r. (r, EncodeRune r)) xs)) = of_runes xs" for xs by (induction xs) simp_all
  have "cutPieces ?cost 67 (of_runes rs) = (of_runes (take (min 33 (length rs)) rs), of_runes (drop (min 33 (length rs)) rs))"
    using assms(2) ne by (simp only: cutPieces_def ps k Let_def take_map drop_map o) simp
  then show ?thesis by (simp add: takeSMSChunkWithLanguage_def takeUCS2Chunk_def min_def)
qed

lemma astral_not_gsm7:
  assumes "r > 0xffff"
  shows "gsm7LockingCode r 0 = None" "gsm7SingleShiftCode r 0 = None"
proof -
  have "list_all (\<lambda>c. c \<le> 0xffff) gsm7BasicAlphabet" "list_all (\<lambda>c. c \<le> 0xffff) gsm7DefaultSingleShiftTable"
    by (simp_all add: gsm7BasicAlphabet_def gsm7DefaultSingleShiftTable_def)
  with assms show "gsm7LockingCode r 0 = None" "gsm7SingleShiftCode r 0 = None"
    by (auto simp: gsm7LockingCode_def gsm7SingleShiftCode_def gsm7LockingTable_def gsm7SingleShiftTable_def Let_def
      gsm7NationalLanguageLockingTables_def gsm7NationalLanguageSingleShiftTables_def firstIndex_None_iff list_all_iff)
qed

lemma astral_setup:
  assumes "list_all (\<lambda>r. scalar r \<and> r > 0xffff) rs" "rs \<noteq> []"
  shows "segmentSetup (of_runes rs) NoOptions = Inr (encUCS2, 0, False)"
proof -
  have "runes (of_runes rs) = rs" using assms(1) by (intro runes_of_runes) (simp add: list_all_iff)
  then have "gsm7SeptetLenWithLanguage (of_runes rs) 0 0 = None"
    using assms by (cases rs) (simp_all add: gsm7SeptetLenWithLanguage_def astral_not_gsm7)
  moreover have "TrimSpace [] = []" using TrimSpace_number [of "[]"] by simp
  moreover have "\<not> ToLower_is [] s" if "s \<noteq> []" for s using that by (simp add: ToLower_is_def)
  moreover have "Time_IsZero ZeroTime" by code_simp
  ultimately show ?thesis
    by (simp add: segmentSetup_def NoOptions_def encodeSMSSubmitValidityPeriod_def encodeSMSRelativeValidityPeriod_def
      validateSMSNationalLanguageOptions_def normalizeSMSSubmitEncodingWithLanguage_def normalizeSMSSubmitEncoding_def
      normalizeEncoding_def isGSM7Text_def gsm7SeptetLen_def validateSMSApplicationPortOptions_def)
qed

text \<open>C22: segmentation rejects messages that it could send.  The number of parts is estimated by dividing the length of the
  message by the room of a part, but a character of two units is never split, so a part may stay one unit short.  A message
  of 67 characters outside the basic multilingual plane, such as emoji, is estimated at two parts and needs three: the third
  part has a number beyond the estimate, building its header fails, and \<^verbatim>\<open>segmentSMS\<close> returns that error.\<close>

theorem segmentation_rejects_67_emoji:
  assumes "list_all (\<lambda>r. scalar r \<and> r > 0xffff) rs" "length rs = 67"
  shows "fst (segmentSMS (of_runes rs) NoOptions counter) = Inl (Fmt ''sms concat part number out of range'')"
proof -
  have ne: "rs \<noteq> []" "of_runes rs \<noteq> []" using assms(2) by (cases rs; simp)+
  note su = astral_setup [OF assms(1) ne(1)]
  have "length (utf16_Encode xs) = 2 * length xs" if "list_all (\<lambda>r. scalar r \<and> r > 0xffff) xs" for xs
    using that by (induction xs) (auto simp: utf16_Encode_def length_EncodeUnits)
  moreover have "runes (of_runes rs) = rs" using assms(1) by (intro runes_of_runes) (simp add: list_all_iff)
  ultimately have len: "messageLenWithLanguage (of_runes rs) encUCS2 0 0 = 134"
    using assms by (simp add: messageLenWithLanguage_def)
  have v: "validateSMSConcatOptions 0 0 = Inr 8" by code_simp
  obtain ref c where rc: "nextSMSConcatRef 8 counter = (ref, c)" by fastforce
  have range: "8 = (8 :: int) \<and> 0 \<le> ref \<and> ref \<le> 0xff \<or> 8 = (16 :: int) \<and> 0 \<le> ref \<and> ref \<le> 0xffff"
    by (rule chosen_reference [of NoOptions]) (use v rc in \<open>simp_all add: NoOptions_def\<close>)
  let ?loop = "\<lambda>f t k. segmentLoop f NoOptions 0 False encUCS2 67 ref 8 2 t k"
  have step: "?loop (Suc f) (of_runes xs) k = rbind (partUDH NoOptions 0 False ref 8 2 k) (\<lambda>udh.
      rbind (?loop f (of_runes (drop 33 xs)) (k + 1)) (\<lambda>out.
        Inr (newPart NoOptions 0 encUCS2 k 2 (of_runes (take 33 xs)) udh ref 8 # out)))"
    if "list_all (\<lambda>r. scalar r \<and> r > 0xffff) xs" "xs \<noteq> []" for f xs k
  proof (rule segmentLoop_step)
    show "of_runes xs \<noteq> []" using that(2) by (cases xs) simp_all
  qed (rule pair_chunk [OF that])
  have sub: "list_all (\<lambda>r. scalar r \<and> r > 0xffff) (drop n rs)" for n
    using assms(1) by (auto simp: list_all_iff dest: in_set_dropD)
  have "3 \<le> length (of_runes rs)"
  proof -
    have "length xs \<le> length (of_runes xs)" for xs
      by (induction xs) (simp_all add: Suc_le_eq add_strict_increasing)
    from this [of rs] assms(2) show ?thesis by simp
  qed
  then have "length (of_runes rs) = Suc (Suc (Suc (length (of_runes rs) - 3)))" by simp
  then obtain f where f: "length (of_runes rs) = Suc (Suc (Suc f))" by blast
  have "?loop (Suc f) (of_runes (drop 66 rs)) 3 = Inl (Fmt ''sms concat part number out of range'')"
    using partUDH_beyond [OF su, of 2 3 ref 8] assms(2) by (subst step [OF sub]) simp_all
  moreover obtain u1 u2 where "partUDH NoOptions 0 False ref 8 2 1 = Inr u1" "partUDH NoOptions 0 False ref 8 2 2 = Inr u2"
    using partUDH_ok [OF su, of 1 2 8 ref] partUDH_ok [OF su, of 2 2 8 ref] range by auto
  ultimately have "?loop (length (of_runes rs)) (of_runes rs) 1 = Inl (Fmt ''sms concat part number out of range'')"
    using assms(2) ne(1) step [OF sub, of 33 "Suc f" 2] step [OF assms(1) ne(1), of "Suc (Suc f)" 1] unfolding f
    by (simp add: )
  then have "segmentConcat (of_runes rs) NoOptions encUCS2 0 False ref 8 = Inl (Fmt ''sms concat part number out of range'')"
    by (simp add: segmentConcat_def NoOptions_def [THEN arg_cong [where f = so_SingleShiftLang]]
      NoOptions_def [THEN arg_cong [where f = so_LockingShiftLang]] smsSubmitUDHLength_def smsPartLimitForUDH_def len)
  then show ?thesis
    using ne(2) su v rc len by (simp add: segmentSMS_def NoOptions_def smsSubmitUDHLength_def smsPartLimitForUDH_def)
qed

theorem segmentation_rejects_67_emoji_witness:
  "fst (segmentSMS (of_runes (replicate 67 128512)) NoOptions 0) = Inl (Fmt ''sms concat part number out of range'')"
  by (rule segmentation_rejects_67_emoji) (simp_all add: scalar_def list_all_iff)

text \<open>C18: segmentation loses nothing and every part fits.  When \<^verbatim>\<open>segmentSMS\<close> succeeds, the texts of the parts joined
  give the message, the parts are numbered from 1 up to their number, which each of them carries, every part of several
  has a header that names the common reference, the number of parts and its own number, and whatever user data the part
  encodes to is at most 140 octets and at most 160 in its length field.\<close>

theorem segmentation_sound:
  assumes "fst (segmentSMS txt opts counter) = Inr parts"
  shows "concat (map pt_Text parts) = txt \<and>
    (\<forall>i < length parts. pt_PartNo (parts ! i) = int (i + 1) \<and> pt_TotalParts (parts ! i) = int (length parts) \<and>
       (length parts > 1 \<longrightarrow> parseSMSConcatUDH (pt_UDH (parts ! i)) =
          \<lparr>sc_IsConcat = True, sc_Ref = pt_ConcatRef (parts ! 0), sc_RefBits = pt_ConcatRefBits (parts ! 0),
           sc_Total = int (length parts), sc_Seq = int (i + 1)\<rparr>) \<and>
       (\<forall>ud udl dcs. encodeSMSUserDataWithLanguage (pt_Text (parts ! i)) (pt_Encoding (parts ! i)) (pt_UDH (parts ! i))
            (pt_LockingShiftLang (parts ! i)) (pt_SingleShiftLang (parts ! i)) = Inr (ud, udl, dcs) \<longrightarrow>
          length ud \<le> 140 \<and> udl \<le> 160))"
proof (cases "txt = []")
  case False
  from segment_parts [OF assms False] obtain enc portBits hasPorts ref refBits chunks where
    s: "segmentSetup txt opts = Inr (enc, portBits, hasPorts)"
    "length chunks = length parts" "concat chunks = txt"
    "\<forall>i < length parts. isPart opts portBits hasPorts enc ref refBits (length parts) (i + 1) (chunks ! i) (parts ! i)"
    "\<forall>c \<in> set chunks. c \<noteq> [] \<and> int (messageLenWithLanguage c enc (so_LockingShiftLang opts) (so_SingleShiftLang opts)) \<le>
       smsPartLimitForUDH enc (smsSubmitUDHLength hasPorts portBits (length parts > 1) refBits (so_SingleShiftLang opts)
         (so_LockingShiftLang opts))"
    by metis
  have f: "pt_Text (parts ! i) = chunks ! i" "pt_PartNo (parts ! i) = int (i + 1)" "pt_TotalParts (parts ! i) = int (length parts)"
      "pt_ConcatRef (parts ! i) = ref" "pt_ConcatRefBits (parts ! i) = refBits" "pt_Encoding (parts ! i) = enc"
      "pt_LockingShiftLang (parts ! i) = so_LockingShiftLang opts" "pt_SingleShiftLang (parts ! i) = so_SingleShiftLang opts"
    if "i < length parts" for i
  proof -
    from s(4) that obtain udh where "parts ! i = newPart opts portBits enc (int (i + 1)) (int (length parts)) (chunks ! i) udh ref refBits"
      unfolding isPart_def by metis
    then show "pt_Text (parts ! i) = chunks ! i" "pt_PartNo (parts ! i) = int (i + 1)" "pt_TotalParts (parts ! i) = int (length parts)"
      "pt_ConcatRef (parts ! i) = ref" "pt_ConcatRefBits (parts ! i) = refBits" "pt_Encoding (parts ! i) = enc"
      "pt_LockingShiftLang (parts ! i) = so_LockingShiftLang opts" "pt_SingleShiftLang (parts ! i) = so_SingleShiftLang opts"
      by (simp_all add: newPart_def)
  qed
  have "map pt_Text parts = chunks" using f(1) s(2) by (simp add: list_eq_iff_nth_eq)
  moreover have "length ud \<le> 140 \<and> udl \<le> 160"
    if "i < length parts" "encodeSMSUserDataWithLanguage (chunks ! i) enc (pt_UDH (parts ! i)) (so_LockingShiftLang opts)
      (so_SingleShiftLang opts) = Inr (ud, udl, dcs)" for i ud udl dcs
  proof (rule user_data_fits [OF that(2) setup_encoding(1) [OF s(1)]])
    have p: "isPart opts portBits hasPorts enc ref refBits (length parts) (i + 1) (chunks ! i) (parts ! i)" using s(4) that(1) by blast
    show "int (messageLenWithLanguage (chunks ! i) enc (so_LockingShiftLang opts) (so_SingleShiftLang opts)) \<le>
        smsPartLimitForUDH enc (length (pt_UDH (parts ! i)))"
      using s(2,5) that(1) by (simp add: isPart_header(1) [OF p s(1)])
    show "length (pt_UDH (parts ! i)) \<le> 19"
      unfolding isPart_header(1) [OF p s(1)] by (rule smsSubmitUDHLength_le)
  qed
  moreover have "parseSMSConcatUDH (pt_UDH (parts ! i)) = \<lparr>sc_IsConcat = True, sc_Ref = ref, sc_RefBits = refBits,
      sc_Total = int (length parts), sc_Seq = int (i + 1)\<rparr>" if "i < length parts" "length parts > 1" for i
    using isPart_header(3) [OF _ s(1)] s(4) that by (metis parseSMSConcatUDH_def)
  moreover have "pt_ConcatRef (parts ! 0) = ref" "pt_ConcatRefBits (parts ! 0) = refBits" if "i < length parts" for i
    using f(4,5) [of 0] that by fastforce+
  ultimately show ?thesis using s(3) f by auto
qed (use assms in \<open>simp add: segmentSMS_def\<close>)

theorem segmentation_sound_witness:
  "\<exists>parts. fst (segmentSMS (of_runes [128512]) NoOptions 0) = Inr parts \<and> length parts = 1 \<and>
    concat (map pt_Text parts) = of_runes [128512]"
proof -
  have a: "list_all (\<lambda>r. scalar r \<and> r > 0xffff) [128512]" by (simp add: scalar_def)
  have "runes (of_runes [128512]) = [128512]" by (intro runes_of_runes) (simp add: scalar_def)
  then have "messageLenWithLanguage (of_runes [128512]) encUCS2 0 0 = 2"
    by (simp add: messageLenWithLanguage_def utf16_Encode_def length_EncodeUnits scalar_def)
  then have "\<exists>p. fst (segmentSMS (of_runes [128512]) NoOptions 0) = Inr [p]"
    using astral_setup [OF a] by (simp add: segmentSMS_def NoOptions_def smsSubmitUDHLength_def smsPartLimitForUDH_def partUDH_def
      buildSMSSubmitUDH_def validateSMSNationalLanguageOptions_def)
  then obtain p where p: "fst (segmentSMS (of_runes [128512]) NoOptions 0) = Inr [p]" by blast
  from segmentation_sound [OF this] p show ?thesis by simp
qed

end
