(* ===== verification/SMS_Relay.thy ===== *)
theory SMS_Relay
  imports SMS_Segment
begin

text \<open>
  The service centre between two phones: what it makes of an SMS-SUBMIT is part of the specification
  (3GPP TS 23.040, sections 9.2.2.1 and 9.2.2.2), and with it the two halves of
  \<^verbatim>\<open>runtimehost/messaging/sms_pdu.go\<close> meet: what \<^verbatim>\<open>BuildSMSSubmitTPDU\<close> writes is what \<^verbatim>\<open>ParseSMSDeliverTPDU\<close> reads.
\<close>

section \<open>The service centre\<close>

definition submitValidityLength :: "u8 \<Rightarrow> nat" where
  "submitValidityLength fo = (if fo AND 0x18 = 0 then 0 else if fo AND 0x18 = 0x10 then 1 else 7)"

text \<open>
  The delivery of a submission: the address of the sender in place of the reference and the destination, the time stamp
  of the service centre in place of the validity, everything from the length of the user data on as it was.
\<close>

definition smsc_relay :: "nat \<times> u8 \<times> bytes \<Rightarrow> bytes \<Rightarrow> bytes \<Rightarrow> bytes" where
  "smsc_relay sender scts submit =
     (let (digits, toa, bcd) = sender; fo = submit ! 0;
          i = 4 + smsAddressOctets (unat (submit ! 2)) (submit ! 3)
      in [(fo AND 0xc0) OR 0x04, go_byte digits, toa] @ bcd @ [submit ! i, submit ! (i + 1)] @ scts @
         drop (i + 2 + submitValidityLength fo) submit)"

section \<open>What a submission looks like\<close>

lemma submit_first_octet:
  fixes vpf :: u8 and a b c d :: bool
  assumes "vpf = 0 \<or> vpf = 0x10 \<or> vpf = 0x18"
  defines "fo \<equiv> 0x01 OR (if a then 0x04 else 0) OR (if b then 0x20 else 0) OR (if c then 0x40 else 0) OR
    (if d then 0x80 else 0) OR vpf"
  shows "fo AND 0x18 = vpf" "((fo AND 0xc0) OR 0x04) AND 0x03 = 0" "((fo AND 0xc0) OR 0x04) AND 0x40 \<noteq> 0 \<longleftrightarrow> c"
  unfolding fo_def using assms(1) by (cases a; cases b; cases c; cases d; auto)+

lemma encodeSMSTimestamp_length: "encodeSMSTimestamp t = Inr raw \<Longrightarrow> length raw = 7"
  by (auto simp: encodeSMSTimestamp_def Let_def split: if_splits)

lemma validity_length:
  assumes "encodeSMSSubmitValidityPeriod p t = Inr (vpf, vp)"
  shows "(vpf = 0 \<or> vpf = 0x10 \<or> vpf = 0x18) \<and> length vp = submitValidityLength vpf"
  using assms
  by (auto simp: encodeSMSSubmitValidityPeriod_def rbind_eq_Inr_iff submitValidityLength_def encodeSMSTimestamp_length
    split: if_splits option.splits)

lemma known_encodings:
  assumes "enc \<in> {encGSM7, encUCS2, encUTF8}"
  shows "TrimSpace enc \<noteq> []" "normalizeEncoding txt enc = enc"
proof -
  have t: "TrimSpace encGSM7 = encGSM7" "TrimSpace encUCS2 = encUCS2" "TrimSpace encUTF8 = encUTF8" by code_simp+
  have "runes encGSM7 = [103, 115, 109, 55]" "runes encUCS2 = [117, 99, 115, 50]" "runes encUTF8 = [117, 116, 102, 56]"
    by code_simp+
  then have l: "ToLower_is encGSM7 ''gsm7''" "\<not> ToLower_is encUCS2 ''gsm7''" "\<not> ToLower_is encUCS2 ''7bit''"
      "\<not> ToLower_is encUCS2 ''gsm-7''" "ToLower_is encUCS2 ''ucs2''" "\<not> ToLower_is encUTF8 ''gsm7''"
      "\<not> ToLower_is encUTF8 ''7bit''" "\<not> ToLower_is encUTF8 ''gsm-7''" "\<not> ToLower_is encUTF8 ''ucs2''"
      "\<not> ToLower_is encUTF8 ''utf16''" "ToLower_is encUTF8 ''utf8''"
    by (simp_all add: ToLower_is_def lower_rune_def)
  show "TrimSpace enc \<noteq> []" using assms t by (auto simp: encGSM7_def encUCS2_def encUTF8_def)
  show "normalizeEncoding txt enc = enc" using assms t l by (auto simp: normalizeEncoding_def)
qed

lemma submit_encoding:
  assumes "normalizeSMSSubmitEncodingWithLanguage txt enc dcs hasDCS ll sl = Inr enc'" "enc \<in> {encGSM7, encUCS2, encUTF8}"
  shows "enc' = enc" "hasDCS \<Longrightarrow> smsDCSAlphabet dcs = alphabetOf enc"
proof -
  have "normalizeSMSSubmitEncoding txt enc dcs hasDCS = Inr enc'"
    using assms known_encodings(1) by (simp add: normalizeSMSSubmitEncodingWithLanguage_def)
  then show "enc' = enc" "hasDCS \<Longrightarrow> smsDCSAlphabet dcs = alphabetOf enc"
    using known_encodings [OF assms(2)] validate_alphabet [OF _ assms(2)]
    by (auto simp: normalizeSMSSubmitEncoding_def Let_def rbind_eq_Inr_iff split: if_splits)
qed

lemma default_alphabets: "smsDCSAlphabet 0 = ''gsm7''" "smsDCSAlphabet 4 = ''8bit''" "smsDCSAlphabet 8 = ''ucs2''"
  by code_simp+

lemma user_data_dcs:
  "encodeSMSUserDataWithLanguage txt enc udh ll sl = Inr (ud, udl, dcs) \<Longrightarrow> enc \<in> {encGSM7, encUCS2, encUTF8} \<Longrightarrow>
    smsDCSAlphabet dcs = alphabetOf enc"
  by (auto simp: encodeSMSUserDataWithLanguage_def rbind_eq_Inr_iff Let_def default_alphabets alphabetOf_def)

lemma submit_shape:
  assumes "BuildSMSSubmitTPDU to part mr = Inr tpdu" "pt_Encoding part \<in> {encGSM7, encUCS2, encUTF8}"
    and "(if pt_UDH part = [] then buildSMSSubmitUDHForPart part else Inr (pt_UDH part)) = Inr udh"
  obtains fo digits toa bcd dcs vp ud udl dcs0 where
    "tpdu = [fo, mr, go_byte digits, toa] @ bcd @ [smsSubmitProtocolID part, dcs] @ vp @ [go_byte udl] @ ud"
    "encodeSMSAddress (normalizeSMSNumber to) = Inr (digits, toa, bcd)" "length vp = submitValidityLength fo"
    "((fo AND 0xc0) OR 0x04) AND 0x03 = 0" "((fo AND 0xc0) OR 0x04) AND 0x40 \<noteq> 0 \<longleftrightarrow> udh \<noteq> []"
    "smsDCSAlphabet dcs = alphabetOf (pt_Encoding part)"
    "encodeSMSUserDataWithLanguage (pt_Text part) (pt_Encoding part) udh (pt_LockingShiftLang part) (pt_SingleShiftLang part) =
       Inr (ud, udl, dcs0)"
proof -
  obtain ov has where ov: "smsSubmitDataCodingScheme part = (ov, has)" by fastforce
  have u: "(if length (pt_UDH part) = 0 then buildSMSSubmitUDHForPart part else Inr (pt_UDH part)) = Inr udh" using assms(3) by simp
  from assms(1) obtain digits toa bcd enc vpf vp ud udl dcs0 where b:
    "encodeSMSAddress (normalizeSMSNumber to) = Inr (digits, toa, bcd)"
    "normalizeSMSSubmitEncodingWithLanguage (pt_Text part) (pt_Encoding part) ov has (pt_LockingShiftLang part)
       (pt_SingleShiftLang part) = Inr enc"
    "encodeSMSSubmitValidityPeriod (pt_ValidityPeriod part) (pt_ValidityDeadline part) = Inr (vpf, vp)"
    "encodeSMSUserDataWithLanguage (pt_Text part) enc udh (pt_LockingShiftLang part) (pt_SingleShiftLang part) = Inr (ud, udl, dcs0)"
    "tpdu = [0x01 OR (if pt_RejectDuplicates part then 0x04 else 0) OR (if pt_RequestStatusReport part then 0x20 else 0) OR
        (if udh \<noteq> [] then 0x40 else 0) OR (if pt_ReplyPath part then 0x80 else 0) OR vpf, mr, go_byte digits, toa] @ bcd @
      [smsSubmitProtocolID part, if has then ov else dcs0] @ vp @ [go_byte udl] @ ud"
    unfolding BuildSMSSubmitTPDU_def Let_def u ov by (auto simp: rbind_eq_Inr_iff split: if_splits)
  note v = validity_length [OF b(3)]
  note enc = submit_encoding [OF b(2) assms(2)]
  have alph: "smsDCSAlphabet (if has then ov else dcs0) = alphabetOf (pt_Encoding part)"
    using enc user_data_dcs [OF b(4)] assms(2) by simp
  have vlen: "length vp = submitValidityLength (0x01 OR (if pt_RejectDuplicates part then 0x04 else 0) OR
      (if pt_RequestStatusReport part then 0x20 else 0) OR (if udh \<noteq> [] then 0x40 else 0) OR (if pt_ReplyPath part then 0x80 else 0) OR vpf)"
  proof -
    have "submitValidityLength x = submitValidityLength vpf" if "x AND 0x18 = vpf" for x
      using that v by (auto simp: submitValidityLength_def)
    moreover have "vpf = 0 \<or> vpf = 0x10 \<or> vpf = 0x18" "length vp = submitValidityLength vpf" using v by blast+
    ultimately show ?thesis by (simp only: submit_first_octet(1))
  qed
  have vpf: "vpf = 0 \<or> vpf = 0x10 \<or> vpf = 0x18" using v by blast
  show thesis
    by (rule that [OF b(5,1) vlen submit_first_octet(2,3) [OF vpf] alph b(4) [unfolded enc(1)]])
qed

section \<open>A submission is delivered\<close>

lemma submission_delivered:
  assumes sub: "BuildSMSSubmitTPDU to part mr = Inr tpdu" "pt_Encoding part \<in> {encGSM7, encUCS2, encUTF8}"
      "(if pt_UDH part = [] then buildSMSSubmitUDHForPart part else Inr (pt_UDH part)) = Inr udh"
    and hdr: "header_for udh (pt_LockingShiftLang part) (pt_SingleShiftLang part)"
    and tx: "ValidUTF8 (pt_Text part)" "27 \<notin> set (runes (pt_Text part))" "length (rpDestination to) \<le> 255"
    and fits: "\<And>ud udl dcs. encodeSMSUserDataWithLanguage (pt_Text part) (pt_Encoding part) udh (pt_LockingShiftLang part)
      (pt_SingleShiftLang part) = Inr (ud, udl, dcs) \<Longrightarrow> udl \<le> 160"
    and from': "encodeSMSAddress sender = Inr (d, toa, bcd)" "d \<le> 255"
    and at: "encodeSMSTimestamp t = Inr scts" "calendar t"
  shows "\<exists>dl. ParseSMSDeliverTPDU (smsc_relay (d, toa, bcd) scts tpdu) = Inr dl \<and>
    dl_Sender dl = map telDigit (normalizeSMSNumber sender) \<and> dl_Recipient dl = [] \<and> dl_Text dl = pt_Text part \<and>
    dl_Timestamp dl = t\<lparr>t_Nanosecond := 0\<rparr> \<and> dl_UserDataHeader dl = (udh \<noteq> []) \<and> dl_UserDataHeaderInfo dl = header_info udh \<and>
    dl_Concat dl = uh_Concat (header_info udh) \<and> dl_ProtocolID dl = smsSubmitProtocolID part"
proof -
  from sub obtain fo digits toa' bcd' dcs vp ud udl dcs0 where b:
    "tpdu = [fo, mr, go_byte digits, toa'] @ bcd' @ [smsSubmitProtocolID part, dcs] @ vp @ [go_byte udl] @ ud"
    "encodeSMSAddress (normalizeSMSNumber to) = Inr (digits, toa', bcd')" "length vp = submitValidityLength fo"
    "((fo AND 0xc0) OR 0x04) AND 0x03 = 0" "((fo AND 0xc0) OR 0x04) AND 0x40 \<noteq> 0 \<longleftrightarrow> udh \<noteq> []"
    "smsDCSAlphabet dcs = alphabetOf (pt_Encoding part)"
    "encodeSMSUserDataWithLanguage (pt_Text part) (pt_Encoding part) udh (pt_LockingShiftLang part) (pt_SingleShiftLang part) =
       Inr (ud, udl, dcs0)"
    by (rule submit_shape)
  define dfo where "dfo = (fo AND 0xc0) OR 0x04"
  have "digits \<le> 255" using encodeSMSAddress_digits [OF b(2)] tx(3) by (simp add: rpDestination_def)
  then have len: "smsAddressOctets (unat (go_byte digits)) toa' = length bcd'"
    using decodeSMSAddress_encodeSMSAddress(3) [OF b(2)] by simp
  have relay: "smsc_relay (d, toa, bcd) scts tpdu =
      [dfo, go_byte d, toa] @ bcd @ [smsSubmitProtocolID part, dcs] @ scts @ [go_byte udl] @ ud"
  proof -
    have "tpdu = ([fo, mr, go_byte digits, toa'] @ bcd' @ [smsSubmitProtocolID part, dcs] @ vp) @ [go_byte udl] @ ud"
      by (simp add: b(1))
    moreover have "length ([fo, mr, go_byte digits, toa'] @ bcd' @ [smsSubmitProtocolID part, dcs] @ vp) =
        4 + length bcd' + 2 + submitValidityLength fo" by (simp add: b(3))
    ultimately have "drop (4 + length bcd' + 2 + submitValidityLength fo) tpdu = [go_byte udl] @ ud"
      by (metis append_eq_conv_conj)
    moreover have "tpdu ! 0 = fo" "tpdu ! 2 = go_byte digits" "tpdu ! 3 = toa'" "tpdu ! (4 + length bcd') = smsSubmitProtocolID part"
        "tpdu ! (4 + length bcd' + 1) = dcs"
      by (simp_all add: b(1) nth_append)
    ultimately show ?thesis unfolding smsc_relay_def Let_def prod.case len dfo_def by (simp add: len)
  qed
  note a = decodeSMSAddress_encodeSMSAddress(1,3) [OF from'(1)]
  note ts = timestamp_roundtrip [OF at]
  have user: "decodeSMSUserDataWithHeader ud udl dcs (udh \<noteq> []) = Inr (pt_Text part, header_info udh)"
    by (rule user_data_roundtrip [OF b(7,6) sub(2) hdr tx(1,2)])
  have bcd: "0 < length bcd" using encodeSMSAddress_digits [OF from'(1)] by simp
  define m where "m = [dfo, go_byte d, toa] @ bcd @ [smsSubmitProtocolID part, dcs] @ scts @ [go_byte udl] @ ud"
  have at': "m ! 0 = dfo" "m ! 1 = go_byte d" "m ! 2 = toa" "take (length bcd) (drop 3 m) = bcd"
      "m ! (3 + length bcd) = smsSubmitProtocolID part" "m ! (4 + length bcd) = dcs"
      "take 7 (drop (5 + length bcd) m) = scts" "m ! (12 + length bcd) = go_byte udl" "drop (13 + length bcd) m = ud"
      "length m = 13 + length bcd + length ud"
  proof -
    have g: "m = ([dfo, go_byte d, toa] @ bcd @ [smsSubmitProtocolID part, dcs]) @ scts @ [go_byte udl] @ ud"
        "m = ([dfo, go_byte d, toa] @ bcd @ [smsSubmitProtocolID part, dcs] @ scts @ [go_byte udl]) @ ud"
      by (simp_all add: m_def)
    show "take 7 (drop (5 + length bcd) m) = scts" by (subst g(1), subst drop_append) (simp add: ts(2))
    show "drop (13 + length bcd) m = ud" by (subst g(2), subst drop_append) (simp add: ts(2))
  qed (use ts(2) in \<open>simp_all add: m_def nth_append\<close>)
  have "unat (go_byte udl) = udl" "unat (go_byte d) = d" using fits [OF b(7)] from'(2) by simp_all
  then show ?thesis
    unfolding relay m_def [symmetric] using at' a ts user bcd b(4,5)
    by (simp add: ParseSMSDeliverTPDU_def dfo_def [symmetric])
qed

end
