(* ===== verification/SMS_Status.thy ===== *)
theory SMS_Status
  imports SMS_TPDU Go_Strings
begin

text \<open>
  What causes and states mean, from \<^verbatim>\<open>runtimehost/messaging/sms_pdu.go\<close>: the cause of an RP-ERROR and the status of an
  SMS-STATUS-REPORT, each with its text and its disposition.
\<close>

section \<open>Causes\<close>

definition smsRPCauseText :: "int \<Rightarrow> string" where
  "smsRPCauseText code =
     (if code = 1 then ''RP cause 1: unassigned number''
      else if code = 8 then ''RP cause 8: operator determined barring''
      else if code = 10 then ''RP cause 10: call barred''
      else if code = 21 then ''RP cause 21: short message transfer rejected''
      else if code = 22 then ''RP cause 22: memory capacity exceeded''
      else if code = 27 then ''RP cause 27: destination out of order''
      else if code = 28 then ''RP cause 28: unidentified subscriber''
      else if code = 29 then ''RP cause 29: facility rejected''
      else if code = 30 then ''RP cause 30: unknown subscriber''
      else if code = 38 then ''RP cause 38: network out of order''
      else if code = 41 then ''RP cause 41: temporary failure''
      else if code = 42 then ''RP cause 42: congestion''
      else if code = 47 then ''RP cause 47: resources unavailable''
      else if code = 50 then ''RP cause 50: requested facility not subscribed''
      else if code = 69 then ''RP cause 69: requested facility not implemented''
      else if code = 81 then ''RP cause 81: invalid short message transfer reference''
      else if code = 95 then ''RP cause 95: semantically incorrect message''
      else if code = 96 then ''RP cause 96: invalid mandatory information''
      else if code = 97 then ''RP cause 97: message type not implemented''
      else if code = 98 then ''RP cause 98: message not compatible with SMS protocol state''
      else if code = 99 then ''RP cause 99: information element not implemented''
      else if code = 111 then ''RP cause 111: protocol error''
      else if code = 127 then ''RP cause 127: interworking unspecified''
      else [])"

definition RPCauseText :: "int \<Rightarrow> string" where
  "RPCauseText code =
     (if code = 0 then [] else if smsRPCauseText code \<noteq> [] then smsRPCauseText code
      else ''RP cause '' @ (if code < 0 then ''-'' @ itoa (nat (- code)) else itoa (nat code)))"

datatype SMSRPCauseClass =
    SMSRPCauseClassUnknown
  | SMSRPCauseClassAddressing
  | SMSRPCauseClassBarring
  | SMSRPCauseClassSubscriber
  | SMSRPCauseClassTemporaryNetwork
  | SMSRPCauseClassFacility
  | SMSRPCauseClassProtocol
  | SMSRPCauseClassInterworking

record SMSRPCauseDisposition =
  rd_Cause :: int
  rd_Class :: SMSRPCauseClass
  rd_Text :: string
  rd_Temporary :: bool
  rd_Permanent :: bool
  rd_Retryable :: bool
  rd_Terminal :: bool
  rd_RegistrationRecoverable :: bool
  rd_SubscriberActionNeeded :: bool
  rd_ProtocolError :: bool

definition ClassifySMSRPCause :: "int \<Rightarrow> SMSRPCauseDisposition" where
  "ClassifySMSRPCause cause =
     (let d = \<lparr>rd_Cause = cause, rd_Class = SMSRPCauseClassUnknown, rd_Text = RPCauseText cause, rd_Temporary = False,
            rd_Permanent = False, rd_Retryable = False, rd_Terminal = False, rd_RegistrationRecoverable = False,
            rd_SubscriberActionNeeded = False, rd_ProtocolError = False\<rparr> in
      if cause \<in> {1, 27} then d\<lparr>rd_Class := SMSRPCauseClassAddressing, rd_Permanent := True, rd_Terminal := True\<rparr>
      else if cause \<in> {8, 10}
      then d\<lparr>rd_Class := SMSRPCauseClassBarring, rd_Permanent := True, rd_Terminal := True, rd_SubscriberActionNeeded := True\<rparr>
      else if cause \<in> {22, 28, 30}
      then d\<lparr>rd_Class := SMSRPCauseClassSubscriber, rd_Permanent := True, rd_Terminal := True,
             rd_SubscriberActionNeeded := (cause = 22)\<rparr>
      else if cause \<in> {38, 41, 42, 47}
      then d\<lparr>rd_Class := SMSRPCauseClassTemporaryNetwork, rd_Temporary := True, rd_Retryable := True,
             rd_RegistrationRecoverable := True\<rparr>
      else if cause \<in> {21, 29, 50, 69}
      then d\<lparr>rd_Class := SMSRPCauseClassFacility, rd_Permanent := (cause = 50 \<or> cause = 69),
             rd_Temporary := (cause = 21 \<or> cause = 29), rd_Retryable := (cause = 21 \<or> cause = 29), rd_Terminal := True,
             rd_SubscriberActionNeeded := (cause = 50)\<rparr>
      else if cause \<in> {81, 95, 96, 97, 98, 99, 111}
      then d\<lparr>rd_Class := SMSRPCauseClassProtocol, rd_Permanent := True, rd_Terminal := True, rd_ProtocolError := True\<rparr>
      else if cause = 127
      then d\<lparr>rd_Class := SMSRPCauseClassInterworking, rd_Temporary := True, rd_Retryable := True,
             rd_RegistrationRecoverable := True\<rparr>
      else d\<lparr>rd_Permanent := True, rd_Terminal := True\<rparr>)"

section \<open>States\<close>

definition hexByte :: "u8 \<Rightarrow> string" where
  "hexByte v = [''0123456789abcdef'' ! unat (drop_bit 4 v), ''0123456789abcdef'' ! unat (v AND 0x0f)]"

text \<open>\<^verbatim>\<open>strings.ToUpper\<close> on ASCII text.\<close>

definition ToUpper_ascii :: "string \<Rightarrow> string" where
  "ToUpper_ascii s = map (\<lambda>c. let n = of_char c :: nat in if 97 \<le> n \<and> n \<le> 122 then char_of (n - 32) else c) s"

definition SMSStatusReportText :: "u8 \<Rightarrow> string" where
  "SMSStatusReportText status =
     (if status = 0x00 then ''SMS status 0x00: short message received by SME''
      else if status = 0x01 then ''SMS status 0x01: short message forwarded by service center but delivery not confirmed''
      else if status = 0x02 then ''SMS status 0x02: short message replaced by service center''
      else if status = 0x20 then ''SMS status 0x20: congestion, service center still retrying''
      else if status = 0x21 then ''SMS status 0x21: SME busy, service center still retrying''
      else if status = 0x22 then ''SMS status 0x22: no response from SME, service center still retrying''
      else if status = 0x23 then ''SMS status 0x23: service rejected, service center still retrying''
      else if status = 0x24 then ''SMS status 0x24: quality of service unavailable, service center still retrying''
      else if status = 0x25 then ''SMS status 0x25: error in SME, service center still retrying''
      else if status = 0x40 then ''SMS status 0x40: remote procedure error''
      else if status = 0x41 then ''SMS status 0x41: incompatible destination''
      else if status = 0x42 then ''SMS status 0x42: connection rejected by SME''
      else if status = 0x43 then ''SMS status 0x43: not obtainable''
      else if status = 0x44 then ''SMS status 0x44: quality of service not available''
      else if status = 0x45 then ''SMS status 0x45: no interworking available''
      else if status = 0x46 then ''SMS status 0x46: short message validity period expired''
      else if status = 0x47 then ''SMS status 0x47: short message deleted by originating SME''
      else if status = 0x48 then ''SMS status 0x48: short message deleted by service center administration''
      else if status = 0x49 then ''SMS status 0x49: short message does not exist''
      else 
        (let hex = ''SMS status 0x'' @ ToUpper_ascii (hexByte status) in
         if status \<le> 0x1f then hex @ '': completed''
         else if status \<le> 0x3f then hex @ '': temporary error, service center still retrying''
         else if status \<le> 0x5f then hex @ '': permanent error, service center stopped retrying''
         else if status \<le> 0x7f then hex @ '': temporary error, service center stopped retrying''
         else hex @ '': reserved''))"

datatype SMSStatusReportClass =
    SMSStatusReportClassUnknown
  | SMSStatusReportClassCompleted
  | SMSStatusReportClassTemporaryRetrying
  | SMSStatusReportClassPermanentFailure
  | SMSStatusReportClassTemporaryFailure
  | SMSStatusReportClassReserved

record SMSStatusReportDisposition =
  sd_Status :: u8
  sd_Class :: SMSStatusReportClass
  sd_State :: string
  sd_Text :: string
  sd_Delivered :: bool
  sd_Failed :: bool
  sd_Temporary :: bool
  sd_Permanent :: bool
  sd_ServiceCenterRetrying :: bool
  sd_Terminal :: bool
  sd_Retryable :: bool
  sd_Reserved :: bool

definition ClassifySMSStatusReport :: "u8 \<Rightarrow> SMSStatusReportDisposition" where
  "ClassifySMSStatusReport status =
     (let d = \<lparr>sd_Status = status, sd_Class = SMSStatusReportClassUnknown, sd_State = smsStatusReportState status,
            sd_Text = SMSStatusReportText status, sd_Delivered = False, sd_Failed = False, sd_Temporary = False,
            sd_Permanent = False, sd_ServiceCenterRetrying = False, sd_Terminal = False, sd_Retryable = False,
            sd_Reserved = False\<rparr> in
      if status \<le> 0x1f
      then d\<lparr>sd_Class := SMSStatusReportClassCompleted, sd_Delivered := True, sd_Terminal := True\<rparr>
      else if status \<le> 0x3f
      then d\<lparr>sd_Class := SMSStatusReportClassTemporaryRetrying, sd_Temporary := True, sd_ServiceCenterRetrying := True\<rparr>
      else if status \<le> 0x5f
      then d\<lparr>sd_Class := SMSStatusReportClassPermanentFailure, sd_Failed := True, sd_Permanent := True, sd_Terminal := True\<rparr>
      else if status \<le> 0x7f
      then d\<lparr>sd_Class := SMSStatusReportClassTemporaryFailure, sd_Failed := True, sd_Temporary := True, sd_Terminal := True,
             sd_Retryable := True\<rparr>
      else d\<lparr>sd_Class := SMSStatusReportClassReserved, sd_Failed := True, sd_Terminal := True, sd_Reserved := True\<rparr>)"

section \<open>Dispositions are consistent\<close>

text \<open>The flags agree with the state that the report is recorded with: delivered, failed, or still tried.\<close>

lemma status_disposition_consistent:
  "sd_Delivered (ClassifySMSStatusReport st) = (smsStatusReportState st = ''delivered'')"
  "sd_Failed (ClassifySMSStatusReport st) = (smsStatusReportState st = ''failed'')"
  "sd_ServiceCenterRetrying (ClassifySMSStatusReport st) = (smsStatusReportState st = ''accepted'')"
  "sd_Terminal (ClassifySMSStatusReport st) = (\<not> sd_ServiceCenterRetrying (ClassifySMSStatusReport st))"
  by (auto simp: ClassifySMSStatusReport_def smsStatusReportState_def Let_def word_le_nat_alt)

text \<open>A cause is temporary or permanent, never both; only a temporary one may be retried.\<close>

lemma cause_disposition_consistent:
  "rd_Temporary (ClassifySMSRPCause c) = (\<not> rd_Permanent (ClassifySMSRPCause c))"
  "rd_Retryable (ClassifySMSRPCause c) = rd_Temporary (ClassifySMSRPCause c)"
  by (auto simp: ClassifySMSRPCause_def Let_def)

end
