(* ===== verification/SMS_Inbound.thy ===== *)
theory SMS_Inbound
  imports SMS_Relay SMS_Status
begin

text \<open>
  What arrives: \<^verbatim>\<open>runtimehost/messaging/ims_inbound_sms.go\<close> from the body of a SIP MESSAGE with
  \<^verbatim>\<open>application/vnd.3gpp.sms\<close> on, with the collection of the parts of a long message, and the parts of
  \<^verbatim>\<open>messaging.go\<close> that it calls.  The mutex is dropped: each call is one step.  The records have the fields that this
  code reads or writes.  The texts of errors that reports carry are written by this code and have no spaces at their ends, so
  trimming them is dropped; an error that wraps another is the error it wraps, so \<^verbatim>\<open>errors.Is\<close> is equality.
\<close>

section \<open>Data\<close>

text \<open>An instant of the clock in nanoseconds; 0 is the zero \<^verbatim>\<open>time.Time\<close>.\<close>

type_synonym instant = int

record IncomingSMS =
  in_Sender :: bytes
  in_Recipient :: bytes
  in_Content :: bytes
  in_Timestamp :: Time
  in_ProtocolID :: u8
  in_DataCodingScheme :: u8
  in_DataCoding :: SMSDataCodingInfo
  in_UserDataHeader :: bool
  in_UserDataHeaderInfo :: SMSUserDataHeaderInfo
  in_MoreMessagesToSend :: bool
  in_StatusReportIndication :: bool
  in_ReplyPath :: bool

definition NoIncoming :: IncomingSMS where
  "NoIncoming = \<lparr>in_Sender = [], in_Recipient = [], in_Content = [], in_Timestamp = ZeroTime, in_ProtocolID = 0,
     in_DataCodingScheme = 0, in_DataCoding = NoDataCoding, in_UserDataHeader = False, in_UserDataHeaderInfo = NoUDH,
     in_MoreMessagesToSend = False, in_StatusReportIndication = False, in_ReplyPath = False\<rparr>"

record smsConcatKey =
  cq_sender :: bytes
  cq_recipient :: bytes
  cq_ref :: int
  cq_refBits :: int
  cq_total :: int

record smsConcatState =
  cs_parts :: "(int \<times> bytes) list"
  cs_timestamp :: Time
  cs_protocolID :: u8
  cs_dataCodingScheme :: u8
  cs_userDataHeader :: bool
  cs_userDataHeaderInfo :: SMSUserDataHeaderInfo
  cs_moreMessagesToSend :: bool
  cs_statusReportIndication :: bool
  cs_replyPath :: bool
  cs_firstSeen :: instant
  cs_updatedAt :: instant

type_synonym concat_sets = "(smsConcatKey \<times> smsConcatState) list"

abbreviation (input) smsConcatTTL :: instant where "smsConcatTTL \<equiv> 10 * 60000000000"
abbreviation (input) smsConcatMaxSets :: nat where "smsConcatMaxSets \<equiv> 64"

section \<open>Collecting the parts of a message\<close>

definition validSMSConcatInfo :: "SMSConcatInfo \<Rightarrow> bool" where
  "validSMSConcatInfo info \<longleftrightarrow>
     sc_IsConcat info \<and> sc_Total info > 1 \<and> sc_Seq info \<ge> 1 \<and> sc_Seq info \<le> sc_Total info \<and>
     (sc_RefBits info = 8 \<or> sc_RefBits info = 16)"

definition lastTouched :: "smsConcatState \<Rightarrow> instant" where
  "lastTouched state = (if cs_updatedAt state = 0 then cs_firstSeen state else cs_updatedAt state)"

definition cleanupSMSConcatLocked :: "instant \<Rightarrow> concat_sets \<Rightarrow> concat_sets" where
  "cleanupSMSConcatLocked now sets =
     filter (\<lambda>(_, state). \<not> (lastTouched state = 0 \<or> now - lastTouched state > smsConcatTTL)) sets"

text \<open>
  The loop over the map: Go gives no order, so the order is a parameter of the eviction, a function that lists the
  entries of the map.
\<close>

fun oldestSet :: "concat_sets \<Rightarrow> (smsConcatKey \<times> instant) option \<Rightarrow> (smsConcatKey \<times> instant) option" where
  "oldestSet [] found = found"
| "oldestSet ((key, state) # sets) found =
     oldestSet sets
       (case found of
          None \<Rightarrow> Some (key, lastTouched state)
        | Some (_, oldestAt) \<Rightarrow> if lastTouched state < oldestAt then Some (key, lastTouched state) else found)"

definition deleteSet :: "smsConcatKey \<Rightarrow> concat_sets \<Rightarrow> concat_sets" where
  "deleteSet key sets = filter (\<lambda>(k, _). k \<noteq> key) sets"

definition evictOldestSMSConcatLocked :: "(concat_sets \<Rightarrow> concat_sets) \<Rightarrow> concat_sets \<Rightarrow> concat_sets" where
  "evictOldestSMSConcatLocked order sets =
     (case oldestSet (order sets) None of None \<Rightarrow> sets | Some (key, _) \<Rightarrow> deleteSet key sets)"

definition newConcatState :: "instant \<Rightarrow> smsConcatState" where
  "newConcatState now =
     \<lparr>cs_parts = [], cs_timestamp = ZeroTime, cs_protocolID = 0, cs_dataCodingScheme = 0, cs_userDataHeader = False,
      cs_userDataHeaderInfo = NoUDH, cs_moreMessagesToSend = False, cs_statusReportIndication = False,
      cs_replyPath = False, cs_firstSeen = now, cs_updatedAt = 0\<rparr>"

text \<open>What a part adds to its set.\<close>

definition recordPart :: "IncomingSMS \<Rightarrow> int \<Rightarrow> instant \<Rightarrow> smsConcatState \<Rightarrow> smsConcatState" where
  "recordPart incoming seqNo now state =
     (let s1 = state\<lparr>cs_updatedAt := now\<rparr>;
          s2 = (if \<not> Time_IsZero (in_Timestamp incoming) \<and> (Time_IsZero (cs_timestamp s1) \<or> seqNo = 1)
                then s1\<lparr>cs_timestamp := in_Timestamp incoming\<rparr> else s1);
          s3 = (if seqNo = 1 \<or> length (cs_parts s2) = 0
                then s2\<lparr>cs_protocolID := in_ProtocolID incoming, cs_dataCodingScheme := in_DataCodingScheme incoming,
                       cs_userDataHeader := in_UserDataHeader incoming,
                       cs_userDataHeaderInfo := in_UserDataHeaderInfo incoming,
                       cs_moreMessagesToSend := in_MoreMessagesToSend incoming,
                       cs_statusReportIndication := in_StatusReportIndication incoming, cs_replyPath := in_ReplyPath incoming\<rparr>
                else s2)
      in if map_of (cs_parts s3) seqNo = None then s3\<lparr>cs_parts := (seqNo, in_Content incoming) # cs_parts s3\<rparr> else s3)"

fun assembleParts :: "(int \<times> bytes) list \<Rightarrow> int list \<Rightarrow> bytes option" where
  "assembleParts parts [] = Some []"
| "assembleParts parts (n # ns) =
     (case map_of parts n of None \<Rightarrow> None | Some part \<Rightarrow> map_option (\<lambda>rest. part @ rest) (assembleParts parts ns))"

definition assembledSMS :: "IncomingSMS \<Rightarrow> smsConcatState \<Rightarrow> bytes \<Rightarrow> IncomingSMS" where
  "assembledSMS incoming state content =
     incoming\<lparr>in_Content := content,
       in_Timestamp := (if \<not> Time_IsZero (cs_timestamp state) then cs_timestamp state else in_Timestamp incoming),
       in_ProtocolID := cs_protocolID state, in_DataCodingScheme := cs_dataCodingScheme state,
       in_UserDataHeader := cs_userDataHeader state, in_UserDataHeaderInfo := cs_userDataHeaderInfo state,
       in_MoreMessagesToSend := cs_moreMessagesToSend state, in_StatusReportIndication := cs_statusReportIndication state,
       in_ReplyPath := cs_replyPath state\<rparr>"

definition concatKey :: "IncomingSMS \<Rightarrow> SMSConcatInfo \<Rightarrow> smsConcatKey" where
  "concatKey incoming info =
     \<lparr>cq_sender = TrimSpace (in_Sender incoming), cq_recipient = TrimSpace (in_Recipient incoming), cq_ref = sc_Ref info,
      cq_refBits = sc_RefBits info, cq_total = sc_Total info\<rparr>"

text \<open>\<open>now0\<close> is the argument, \<open>clock\<close> the clock that is read when it is zero.\<close>

definition collectSMSConcatPart ::
  "(concat_sets \<Rightarrow> concat_sets) \<Rightarrow> instant \<Rightarrow> IncomingSMS \<Rightarrow> SMSConcatInfo \<Rightarrow> instant \<Rightarrow> concat_sets \<Rightarrow>
   (IncomingSMS \<times> bool) \<times> concat_sets" where
  "collectSMSConcatPart order clock incoming info now0 sets =
     (if \<not> validSMSConcatInfo info then ((incoming, True), sets)
      else
        let now = (if now0 = 0 then clock else now0);
            key = concatKey incoming info;
            sets1 = cleanupSMSConcatLocked now sets;
            (state0, sets2) =
              (case map_of sets1 key of
                 Some state \<Rightarrow> (state, sets1)
               | None \<Rightarrow> (newConcatState now,
                   if length sets1 \<ge> smsConcatMaxSets then evictOldestSMSConcatLocked order sets1 else sets1));
            state = recordPart incoming (sc_Seq info) now state0;
            sets3 = (key, state) # deleteSet key sets2 in
        if int (length (cs_parts state)) < sc_Total info then ((NoIncoming, False), sets3)
        else
          case assembleParts (cs_parts state) [1..sc_Total info] of
            None \<Rightarrow> ((NoIncoming, False), sets3)
          | Some content \<Rightarrow> ((assembledSMS incoming state content, True), deleteSet key sets3))"

section \<open>The service\<close>

record SMSDeliveryReport =
  dr_InReplyTo :: bytes
  dr_CallID :: bytes
  dr_RPMR :: int
  dr_State :: string
  dr_SIPCode :: int
  dr_RPCause :: int
  dr_ErrorText :: string
  dr_ReportAt :: Time
  dr_Recipient :: bytes
  dr_SentAt :: Time
  dr_FirstOctet :: u8
  dr_MoreMessagesToSend :: bool
  dr_StatusReportQualifier :: bool
  dr_UserDataHeader :: bool
  dr_UserDataHeaderInfo :: SMSUserDataHeaderInfo
  dr_ParameterIndicator :: u8
  dr_ProtocolID :: u8
  dr_DataCodingScheme :: u8
  dr_DataCoding :: SMSDataCodingInfo
  dr_UserData :: bytes

definition NoReport :: SMSDeliveryReport where
  "NoReport = \<lparr>dr_InReplyTo = [], dr_CallID = [], dr_RPMR = 0, dr_State = [], dr_SIPCode = 0, dr_RPCause = 0,
     dr_ErrorText = [], dr_ReportAt = ZeroTime, dr_Recipient = [], dr_SentAt = ZeroTime, dr_FirstOctet = 0,
     dr_MoreMessagesToSend = False, dr_StatusReportQualifier = False, dr_UserDataHeader = False,
     dr_UserDataHeaderInfo = NoUDH, dr_ParameterIndicator = 0, dr_ProtocolID = 0, dr_DataCodingScheme = 0,
     dr_DataCoding = NoDataCoding, dr_UserData = []\<rparr>"

record DeliveryPartMatch =
  dm_MessageID :: bytes
  dm_PartNo :: int
  dm_State :: bytes

record SMSReceived =
  ev_DevID :: bytes
  ev_Sender :: bytes
  ev_Content :: bytes
  ev_Time :: Time

text \<open>
  The delivery store is an interface of the host: a call to it is recorded, and what \<^verbatim>\<open>MarkSMSDeliveryPartReport\<close>
  answers is a parameter.
\<close>

datatype storeCall =
    MarkSMSDeliveryPartReport bytes bytes bytes int string int int string Time
  | RecomputeSMSDelivery bytes Time

record Service =
  sv_deviceID :: bytes
  sv_hasStore :: bool
  sv_hasDispatch :: bool
  sv_smsConcat :: concat_sets
  sv_storeCalls :: "storeCall list"
  sv_dispatched :: "SMSReceived list"

record InboundEnv =
  env_order :: "concat_sets \<Rightarrow> concat_sets"
  env_mark :: "storeCall \<Rightarrow> DeliveryPartMatch res"
  env_clock :: instant
  env_Now :: Time

record IMSMessageRequest =
  mq_FromURI :: bytes
  mq_ToURI :: bytes
  mq_CallID :: bytes
  mq_Body :: bytes

text \<open>The reason is \<^verbatim>\<open>OK\<close> or the text of an error; the error is kept.\<close>

record IMSMessageResult =
  mr_StatusCode :: int
  mr_Reason :: "go_error option"
  mr_RPDU :: SMSRPDU
  mr_Incoming :: "IncomingSMS option"
  mr_DeliveryReport :: "SMSDeliveryReport option"
  mr_ReplyContentType :: string
  mr_ReplyBody :: bytes

definition NoRPDU :: SMSRPDU where
  "NoRPDU = \<lparr>rp_Kind = SMSRPDUKindUnknown, rp_RawType = 0, rp_MR = 0, rp_Cause = 0, rp_CauseDiagnostics = [], rp_Originator = [],
     rp_Destination = [], rp_TPDU = []\<rparr>"

definition NoResult :: IMSMessageResult where
  "NoResult = \<lparr>mr_StatusCode = 0, mr_Reason = None, mr_RPDU = NoRPDU, mr_Incoming = None, mr_DeliveryReport = None,
     mr_ReplyContentType = [], mr_ReplyBody = []\<rparr>"

abbreviation (input) ErrDeliveryNotFound :: go_error where "ErrDeliveryNotFound \<equiv> Fmt ''delivery not found''"
abbreviation (input) IMS3GPPSMSContentType :: string where "IMS3GPPSMSContentType \<equiv> ''application/vnd.3gpp.sms''"

fun firstNonEmpty :: "bytes list \<Rightarrow> bytes" where
  "firstNonEmpty [] = []"
| "firstNonEmpty (item # items) = (if TrimSpace item \<noteq> [] then TrimSpace item else firstNonEmpty items)"

definition incomingSMSHasUserDataHeader :: "IncomingSMS \<Rightarrow> bool" where
  "incomingSMSHasUserDataHeader msg \<longleftrightarrow>
     in_UserDataHeader msg \<or> length (uh_Raw (in_UserDataHeaderInfo msg)) > 0 \<or> length (uh_Elements (in_UserDataHeaderInfo msg)) > 0"

definition HandleIncomingSMS :: "InboundEnv \<Rightarrow> IncomingSMS \<Rightarrow> Service \<Rightarrow> go_error option \<times> Service" where
  "HandleIncomingSMS env msg s =
     (let sender = TrimSpace (in_Sender msg); content = in_Content msg in
      if sender = [] then (Some (Fmt ''incoming sms sender is empty''), s)
      else if content = [] \<and> \<not> incomingSMSHasUserDataHeader msg then (Some (Fmt ''incoming sms content is empty''), s)
      else
        let at = (if Time_IsZero (in_Timestamp msg) then env_Now env else in_Timestamp msg) in
        if content \<noteq> [] \<and> sv_hasDispatch s
        then (None, s\<lparr>sv_dispatched := sv_dispatched s @
               [\<lparr>ev_DevID = sv_deviceID s, ev_Sender = sender, ev_Content = content, ev_Time = at\<rparr>]\<rparr>)
        else (None, s))"

text \<open>The states that reports are given here are in lower case and without spaces, so only the switch is left.\<close>

definition normalizeDeliveryReportState :: "string \<Rightarrow> int \<Rightarrow> int \<Rightarrow> string" where
  "normalizeDeliveryReportState state sipCode rpCause =
     (if state \<in> {''delivered'', ''failed'', ''sent'', ''accepted''} then state
      else if rpCause \<noteq> 0 then ''failed''
      else if sipCode \<ge> 200 \<and> sipCode < 300 then ''delivered''
      else if sipCode \<ge> 300 then ''failed''
      else ''delivered'')"

definition HandleSMSDeliveryReport :: "InboundEnv \<Rightarrow> SMSDeliveryReport \<Rightarrow> Service \<Rightarrow> DeliveryPartMatch res \<times> Service" where
  "HandleSMSDeliveryReport env report s =
     (if \<not> sv_hasStore s then (Inl ErrDeliveryNotFound, s)
      else
        let at = (if Time_IsZero (dr_ReportAt report) then env_Now env else dr_ReportAt report);
            state = normalizeDeliveryReportState (dr_State report) (dr_SIPCode report) (dr_RPCause report);
            errText = (if dr_ErrorText report = [] \<and> dr_RPCause report \<noteq> 0 then RPCauseText (dr_RPCause report)
                       else dr_ErrorText report);
            call = MarkSMSDeliveryPartReport (TrimSpace (dr_InReplyTo report)) (TrimSpace (dr_CallID report)) (sv_deviceID s)
              (dr_RPMR report) state (dr_SIPCode report) (dr_RPCause report) errText at;
            s1 = s\<lparr>sv_storeCalls := sv_storeCalls s @ [call]\<rparr> in
        case env_mark env call of
          Inl e \<Rightarrow> (Inl e, s1)
        | Inr m \<Rightarrow>
            (Inr m, if dm_MessageID m \<noteq> []
                    then s1\<lparr>sv_storeCalls := sv_storeCalls s1 @ [RecomputeSMSDelivery (dm_MessageID m) at]\<rparr> else s1))"

definition smsStatusReportError :: "SMSStatusReport \<Rightarrow> string" where
  "smsStatusReportError report = (if sr_State report \<noteq> ''failed'' then [] else SMSStatusReportText (sr_Status report))"

definition handleIMSSMSStatusReport ::
  "InboundEnv \<Rightarrow> IMSMessageRequest \<Rightarrow> SMSStatusReport \<Rightarrow> Service \<Rightarrow> (SMSDeliveryReport \<times> go_error option) \<times> Service" where
  "handleIMSSMSStatusReport env msg r s =
     (let report = \<lparr>dr_InReplyTo = [], dr_CallID = mq_CallID msg, dr_RPMR = uint (sr_Reference r), dr_State = sr_State r,
            dr_SIPCode = 200, dr_RPCause = uint (sr_Status r), dr_ErrorText = smsStatusReportError r, dr_ReportAt = sr_DoneAt r,
            dr_Recipient = sr_Recipient r, dr_SentAt = sr_Timestamp r, dr_FirstOctet = sr_FirstOctet r,
            dr_MoreMessagesToSend = sr_MoreMessagesToSend r, dr_StatusReportQualifier = sr_StatusReportQualifier r,
            dr_UserDataHeader = sr_UserDataHeader r, dr_UserDataHeaderInfo = sr_UserDataHeaderInfo r,
            dr_ParameterIndicator = sr_ParameterIndicator r, dr_ProtocolID = sr_ProtocolID r,
            dr_DataCodingScheme = sr_DataCodingScheme r, dr_DataCoding = sr_DataCoding r, dr_UserData = sr_UserData r\<rparr>;
          (res, s1) = HandleSMSDeliveryReport env report s
      in ((report, case res of Inl e \<Rightarrow> Some e | Inr _ \<Rightarrow> None), s1))"

section \<open>The handlers\<close>

text \<open>A result that refuses a message: the code, the error as the reason and as the error.\<close>

definition refuse :: "IMSMessageResult \<Rightarrow> int \<Rightarrow> go_error \<Rightarrow> IMSMessageResult \<times> go_error option" where
  "refuse out code e = (out\<lparr>mr_StatusCode := code, mr_Reason := Some e\<rparr>, Some e)"

definition withReply :: "bytes \<Rightarrow> IMSMessageResult \<Rightarrow> IMSMessageResult" where
  "withReply body out = out\<lparr>mr_ReplyContentType := IMS3GPPSMSContentType, mr_ReplyBody := body\<rparr>"

text \<open>The end of every branch that records a delivery report: only a report that the store does not know is no error.\<close>

definition afterReport :: "IMSMessageResult \<Rightarrow> go_error option \<Rightarrow> IMSMessageResult \<times> go_error option" where
  "afterReport out err =
     (case err of Some e \<Rightarrow> if e \<noteq> ErrDeliveryNotFound then refuse out 500 e else (out, None) | None \<Rightarrow> (out, None))"

definition incomingOf :: "IMSMessageRequest \<Rightarrow> SMSRPDU \<Rightarrow> SMSDeliver \<Rightarrow> IncomingSMS" where
  "incomingOf msg rpdu deliver =
     \<lparr>in_Sender = firstNonEmpty [dl_Sender deliver, rp_Originator rpdu, mq_FromURI msg],
      in_Recipient = firstNonEmpty [dl_Recipient deliver, rp_Destination rpdu, mq_ToURI msg],
      in_Content = dl_Text deliver, in_Timestamp = dl_Timestamp deliver, in_ProtocolID = dl_ProtocolID deliver,
      in_DataCodingScheme = dl_DataCodingScheme deliver, in_DataCoding = dl_DataCoding deliver,
      in_UserDataHeader = dl_UserDataHeader deliver, in_UserDataHeaderInfo = dl_UserDataHeaderInfo deliver,
      in_MoreMessagesToSend = dl_MoreMessagesToSend deliver, in_StatusReportIndication = dl_StatusReportIndication deliver,
      in_ReplyPath = dl_ReplyPath deliver\<rparr>"

definition deliverIncoming :: "InboundEnv \<Rightarrow> SMSRPDU \<Rightarrow> IncomingSMS \<Rightarrow> IMSMessageResult \<Rightarrow> Service \<Rightarrow>
    (IMSMessageResult \<times> go_error option) \<times> Service" where
  "deliverIncoming env rpdu incoming out s =
     (let (err, s1) = HandleIncomingSMS env incoming s; out1 = out\<lparr>mr_Incoming := Some incoming\<rparr> in
      case err of
        Some e \<Rightarrow> (refuse (withReply (BuildSMSRPError (rp_MR rpdu) 41) out1) 400 e, s1)
      | None \<Rightarrow> ((withReply (BuildSMSRPAck (rp_MR rpdu)) out1, None), s1))"

definition handleIMSRPData :: "InboundEnv \<Rightarrow> IMSMessageRequest \<Rightarrow> SMSRPDU \<Rightarrow> IMSMessageResult \<Rightarrow> Service \<Rightarrow>
    (IMSMessageResult \<times> go_error option) \<times> Service" where
  "handleIMSRPData env msg rpdu out s =
     (let failed = withReply (BuildSMSRPError (rp_MR rpdu) 41) out in
      case rp_TPDU rpdu of
        [] \<Rightarrow> (refuse failed 400 (Fmt ''IMS SMS RP-DATA has no TPDU''), s)
      | t # _ \<Rightarrow>
          if t AND 0x03 = 0x00
          then
            (case ParseSMSDeliverTPDU (rp_TPDU rpdu) of
               Inl e \<Rightarrow> (refuse failed 400 e, s)
             | Inr deliver \<Rightarrow>
                 let incoming = incomingOf msg rpdu deliver in
                 if sc_IsConcat (dl_Concat deliver)
                 then
                   let ((assembled, ready), sets) =
                         collectSMSConcatPart (env_order env) (env_clock env) incoming (dl_Concat deliver) (env_clock env) (sv_smsConcat s);
                       s1 = s\<lparr>sv_smsConcat := sets\<rparr>
                   in if \<not> ready then ((withReply (BuildSMSRPAck (rp_MR rpdu)) out, None), s1)
                      else deliverIncoming env rpdu assembled out s1
                 else deliverIncoming env rpdu incoming out s)
          else if t AND 0x03 = 0x02
          then
            (case ParseSMSStatusReportTPDU (rp_TPDU rpdu) of
               Inl e \<Rightarrow> (refuse failed 400 e, s)
             | Inr r \<Rightarrow>
                 let ((report, err), s1) = handleIMSSMSStatusReport env msg r s
                 in (afterReport (withReply (BuildSMSRPAck (rp_MR rpdu)) (out\<lparr>mr_DeliveryReport := Some report\<rparr>)) err, s1))
          else (refuse failed 400 (Fmt ''unsupported IMS SMS TPDU type''), s))"

definition recordReport :: "InboundEnv \<Rightarrow> SMSDeliveryReport \<Rightarrow> IMSMessageResult \<Rightarrow> Service \<Rightarrow>
    (IMSMessageResult \<times> go_error option) \<times> Service" where
  "recordReport env report out s =
     (let (res, s1) = HandleSMSDeliveryReport env report s
      in (afterReport (out\<lparr>mr_DeliveryReport := Some report\<rparr>) (case res of Inl e \<Rightarrow> Some e | Inr _ \<Rightarrow> None), s1))"

definition handleIMS3GPPSMS :: "InboundEnv \<Rightarrow> IMSMessageRequest \<Rightarrow> Service \<Rightarrow> (IMSMessageResult \<times> go_error option) \<times> Service" where
  "handleIMS3GPPSMS env msg s =
     (case ParseSMSRPDU (mq_Body msg) of
        Inl e \<Rightarrow> (refuse NoResult 400 e, s)
      | Inr rpdu \<Rightarrow>
          let out = NoResult\<lparr>mr_StatusCode := 200, mr_RPDU := rpdu\<rparr> in
          case rp_Kind rpdu of
            SMSRPDUKindData \<Rightarrow> handleIMSRPData env msg rpdu out s
          | SMSRPDUKindAck \<Rightarrow>
              if rp_TPDU rpdu \<noteq> [] \<and> hd (rp_TPDU rpdu) AND 0x03 = 0x02
              then
                (case ParseSMSStatusReportTPDU (rp_TPDU rpdu) of
                   Inl e \<Rightarrow> (refuse out 400 e, s)
                 | Inr r \<Rightarrow>
                     let ((report, err), s1) = handleIMSSMSStatusReport env msg r s
                     in (afterReport (out\<lparr>mr_DeliveryReport := Some report\<rparr>) err, s1))
              else recordReport env (NoReport\<lparr>dr_CallID := mq_CallID msg, dr_RPMR := uint (rp_MR rpdu), dr_State := ''delivered'',
                     dr_SIPCode := 200\<rparr>) out s
          | SMSRPDUKindError \<Rightarrow>
              recordReport env (NoReport\<lparr>dr_CallID := mq_CallID msg, dr_RPMR := uint (rp_MR rpdu), dr_State := ''failed'',
                dr_SIPCode := 200, dr_RPCause := int (rp_Cause rpdu), dr_ErrorText := RPCauseText (int (rp_Cause rpdu))\<rparr>) out s
          | SMSRPDUKindUnknown \<Rightarrow> (refuse out 400 (Fmt ''unsupported IMS SMS RPDU kind''), s))"

end
