(* ===== verification/SMS_Reassembly.thy ===== *)
theory SMS_Reassembly
  imports SMS_Inbound
begin

text \<open>
  The collection of parts against its meaning: a set of parts per message, that is complete when every number from one to
  the total is there.  The sets stay well formed and bounded; whatever the order of the parts and whatever else arrives in
  between, the last missing part completes the message.
\<close>

section \<open>Sets as maps\<close>

lemma map_of_deleteSet [simp]: "map_of (deleteSet key sets) = (map_of sets)(key := None)"
  by (induction sets) (auto simp: deleteSet_def)

lemma set_deleteSet: "set (deleteSet key sets) = {e \<in> set sets. fst e \<noteq> key}"
  by (auto simp: deleteSet_def)

lemma distinct_filter_fst: "distinct (map fst xs) \<Longrightarrow> distinct (map fst (filter P xs))"
  by (induction xs) auto

lemma distinct_deleteSet: "distinct (map fst sets) \<Longrightarrow> distinct (map fst (deleteSet key sets))"
  unfolding deleteSet_def by (rule distinct_filter_fst)

lemma length_deleteSet: "distinct (map fst sets) \<Longrightarrow> key \<in> fst ` set sets \<Longrightarrow> Suc (length (deleteSet key sets)) = length sets"
proof (induction sets)
  case (Cons e sets)
  show ?case
  proof (cases "fst e = key")
    case True
    then have "\<forall>e' \<in> set sets. fst e' \<noteq> key" using Cons.prems(1) by (metis distinct.simps(2) image_eqI list.set_map list.simps(9))
    then have "deleteSet key sets = sets" unfolding deleteSet_def by (intro filter_True) (simp add: case_prod_beta)
    with True show ?thesis by (simp add: deleteSet_def case_prod_beta)
  next
    case False
    with Cons show ?thesis by (auto simp: deleteSet_def case_prod_beta)
  qed
qed simp

lemma cleanup_sub: "set (cleanupSMSConcatLocked now sets) \<subseteq> set sets" "length (cleanupSMSConcatLocked now sets) \<le> length sets"
  by (auto simp: cleanupSMSConcatLocked_def)

lemma cleanup_distinct: "distinct (map fst sets) \<Longrightarrow> distinct (map fst (cleanupSMSConcatLocked now sets))"
  unfolding cleanupSMSConcatLocked_def by (rule distinct_filter_fst)

lemma cleanup_keeps:
  assumes "distinct (map fst sets)" "map_of sets k = Some st" "lastTouched st \<noteq> 0" "now - lastTouched st \<le> smsConcatTTL"
  shows "map_of (cleanupSMSConcatLocked now sets) k = Some st"
proof (rule map_of_is_SomeI)
  show "(k, st) \<in> set (cleanupSMSConcatLocked now sets)"
    using map_of_SomeD [OF assms(2)] assms(3,4) by (simp add: cleanupSMSConcatLocked_def)
qed (rule cleanup_distinct [OF assms(1)])

lemma cleanup_None: "map_of sets k = None \<Longrightarrow> map_of (cleanupSMSConcatLocked now sets) k = None"
  using cleanup_sub(1) by (fastforce simp: map_of_eq_None_iff)

lemma oldestSet_key:
  "oldestSet sets found = Some (key, at) \<Longrightarrow> key \<in> fst ` set sets \<or> found = Some (key, at)"
  by (induction sets found rule: oldestSet.induct) (auto split: option.splits if_splits)

lemma oldestSet_None_iff: "oldestSet sets found = None \<longleftrightarrow> sets = [] \<and> found = None"
  by (induction sets found rule: oldestSet.induct) (auto split: option.split)

text \<open>An eviction removes exactly one set.\<close>

lemma evict_length:
  assumes "\<And>xs. set (order xs) = set xs" "distinct (map fst sets)" "sets \<noteq> []"
  shows "Suc (length (evictOldestSMSConcatLocked order sets)) = length sets"
proof -
  have "order sets \<noteq> []" using assms(1) [of sets] assms(3) by auto
  then obtain key at where o: "oldestSet (order sets) None = Some (key, at)"
    by (cases "oldestSet (order sets) None") (auto simp: oldestSet_None_iff)
  then have "key \<in> fst ` set sets" using oldestSet_key [OF o] assms(1) by simp
  then show ?thesis using o length_deleteSet [OF assms(2)] by (simp add: evictOldestSMSConcatLocked_def)
qed

lemma evict_sub: "set (evictOldestSMSConcatLocked order sets) \<subseteq> set sets"
    "distinct (map fst sets) \<Longrightarrow> distinct (map fst (evictOldestSMSConcatLocked order sets))"
  by (auto simp: evictOldestSMSConcatLocked_def set_deleteSet distinct_deleteSet split: option.split)

section \<open>One set of parts\<close>

lemma recordPart_parts:
  "cs_parts (recordPart m n now st) = (if map_of (cs_parts st) n = None then (n, in_Content m) # cs_parts st else cs_parts st)"
  "cs_updatedAt (recordPart m n now st) = now"
  by (simp_all add: recordPart_def Let_def)

lemma newConcatState_parts [simp]: "cs_parts (newConcatState now) = []"
  by (simp add: newConcatState_def)

text \<open>As many parts as the total, with different numbers in range: no part is missing.\<close>

lemma all_parts_present:
  assumes "distinct (map fst parts)" "fst ` set parts \<subseteq> {1..n}" "n \<le> int (length parts)"
  shows "fst ` set parts = {1..n}"
proof (rule card_subset_eq)
  have "card (fst ` set parts) = length parts" using assms(1) by (metis distinct_card length_map set_map)
  moreover have "card (fst ` set parts) \<le> card {1..n}" using assms(2) by (intro card_mono) auto
  ultimately show "card (fst ` set parts) = card {1..n}" using assms(3) by simp
qed (use assms in auto)

lemma assembleParts_present:
  "\<forall>n \<in> set ns. map_of parts n = Some (c n) \<Longrightarrow> assembleParts parts ns = Some (concat (map c ns))"
  by (induction ns) auto

section \<open>The sets stay well formed\<close>

definition parts_wf :: "smsConcatKey \<Rightarrow> smsConcatState \<Rightarrow> bool" where
  "parts_wf k st \<longleftrightarrow> distinct (map fst (cs_parts st)) \<and> fst ` set (cs_parts st) \<subseteq> {1..cq_total k}"

definition sets_wf :: "concat_sets \<Rightarrow> bool" where
  "sets_wf sets \<longleftrightarrow>
     distinct (map fst sets) \<and> length sets \<le> smsConcatMaxSets \<and>
     (\<forall>(k, st) \<in> set sets. 1 < cq_total k \<and> parts_wf k st \<and> cs_parts st \<noteq> [] \<and> int (length (cs_parts st)) < cq_total k)"

lemma sets_wf_sub:
  assumes "sets_wf sets" "set ys \<subseteq> set sets" "distinct (map fst ys)"
  shows "sets_wf ys"
proof -
  have "length ys \<le> length sets"
    using assms by (metis card_mono distinct_card distinct_map finite_set sets_wf_def)
  then show ?thesis using assms by (auto simp: sets_wf_def)
qed

text \<open>The set that a part goes to, and the sets around it.\<close>

definition roomFor :: "(concat_sets \<Rightarrow> concat_sets) \<Rightarrow> instant \<Rightarrow> smsConcatKey \<Rightarrow> concat_sets \<Rightarrow> smsConcatState \<times> concat_sets" where
  "roomFor order now key sets1 =
     (case map_of sets1 key of
        Some state \<Rightarrow> (state, sets1)
      | None \<Rightarrow> (newConcatState now, if length sets1 \<ge> smsConcatMaxSets then evictOldestSMSConcatLocked order sets1 else sets1))"

lemma roomFor_wf:
  assumes "sets_wf sets" "\<And>xs. set (order xs) = set xs" "roomFor order now key sets = (st, rest)"
  shows "sets_wf rest" "length (deleteSet key rest) < smsConcatMaxSets" "parts_wf key st"
proof -
  have d: "distinct (map fst sets)" using assms(1) by (simp add: sets_wf_def)
  have "sets_wf rest \<and> length (deleteSet key rest) < smsConcatMaxSets \<and> parts_wf key st"
  proof (cases "map_of sets key")
    case None
    have r: "set rest \<subseteq> set sets" "distinct (map fst rest)" "st = newConcatState now" "length rest < smsConcatMaxSets"
      using assms(3) None d evict_sub(1) [where order = order and sets = sets] evict_sub(2) [where order = order and sets = sets] evict_length [OF assms(2) d] assms(1)
      by (cases "sets = []"; auto simp: roomFor_def sets_wf_def split: if_splits)+
    moreover have "length (deleteSet key rest) \<le> length rest" by (simp add: deleteSet_def)
    ultimately show ?thesis using sets_wf_sub [OF assms(1) r(1,2)] by (simp add: parts_wf_def)
  next
    case (Some s)
    then have r: "st = s" "rest = sets" using assms(3) by (simp_all add: roomFor_def)
    have "(key, s) \<in> set sets" using Some by (rule map_of_SomeD)
    then have "key \<in> fst ` set sets" by force
    then show ?thesis
      using r assms(1) length_deleteSet [OF d, of key] \<open>(key, s) \<in> set sets\<close> by (auto simp: sets_wf_def)
  qed
  then show "sets_wf rest" "length (deleteSet key rest) < smsConcatMaxSets" "parts_wf key st" by blast+
qed

lemma collect_cases:
  assumes "validSMSConcatInfo i" "now \<noteq> 0"
  obtains (waiting) st rest where "roomFor order now (concatKey m i) (cleanupSMSConcatLocked now sets) = (st, rest)"
      "collectSMSConcatPart order clock m i now sets =
        ((NoIncoming, False), (concatKey m i, recordPart m (sc_Seq i) now st) # deleteSet (concatKey m i) rest)"
      "int (length (cs_parts (recordPart m (sc_Seq i) now st))) < sc_Total i \<or>
       assembleParts (cs_parts (recordPart m (sc_Seq i) now st)) [1..sc_Total i] = None"
  | (ready) st rest content where "roomFor order now (concatKey m i) (cleanupSMSConcatLocked now sets) = (st, rest)"
      "collectSMSConcatPart order clock m i now sets =
        ((assembledSMS m (recordPart m (sc_Seq i) now st) content, True), deleteSet (concatKey m i) rest)"
      "sc_Total i \<le> int (length (cs_parts (recordPart m (sc_Seq i) now st)))"
      "assembleParts (cs_parts (recordPart m (sc_Seq i) now st)) [1..sc_Total i] = Some content"
proof -
  let ?k = "concatKey m i"
  obtain st rest where r: "roomFor order now ?k (cleanupSMSConcatLocked now sets) = (st, rest)" by fastforce
  let ?s = "recordPart m (sc_Seq i) now st"
  have dd: "deleteSet ?k ((?k, ?s) # deleteSet ?k rest) = deleteSet ?k rest" by (simp add: deleteSet_def)
  have e: "collectSMSConcatPart order clock m i now sets =
      (if int (length (cs_parts ?s)) < sc_Total i then ((NoIncoming, False), (?k, ?s) # deleteSet ?k rest)
       else case assembleParts (cs_parts ?s) [1..sc_Total i] of
          None \<Rightarrow> ((NoIncoming, False), (?k, ?s) # deleteSet ?k rest)
        | Some content \<Rightarrow> ((assembledSMS m ?s content, True), deleteSet ?k rest))"
    using assms r unfolding collectSMSConcatPart_def Let_def roomFor_def [symmetric] by (simp add: dd split: option.split)
  show thesis
  proof (cases "int (length (cs_parts ?s)) < sc_Total i \<or> assembleParts (cs_parts ?s) [1..sc_Total i] = None")
    case True
    then have "collectSMSConcatPart order clock m i now sets = ((NoIncoming, False), (?k, ?s) # deleteSet ?k rest)"
      using e by auto
    then show thesis by (rule waiting [OF r _ True])
  next
    case False
    then obtain content where "assembleParts (cs_parts ?s) [1..sc_Total i] = Some content" by blast
    with False e show thesis by (intro ready [OF r, of content]) simp_all
  qed
qed

lemma recordPart_wf:
  assumes "parts_wf k st" "cq_total k = sc_Total i" "validSMSConcatInfo i"
  shows "parts_wf k (recordPart m (sc_Seq i) now st)"
  using assms by (auto simp: parts_wf_def recordPart_parts validSMSConcatInfo_def map_of_eq_None_iff)

lemma concatKey_total [simp]: "cq_total (concatKey m i) = sc_Total i"
  by (simp add: concatKey_def)

lemma parts_complete:
  assumes "parts_wf k st" "cq_total k \<le> int (length (cs_parts st))"
  shows "assembleParts (cs_parts st) [1..cq_total k] = Some (concat (map (\<lambda>n. the (map_of (cs_parts st) n)) [1..cq_total k]))"
proof (rule assembleParts_present, rule ballI)
  fix n assume "n \<in> set [1..cq_total k]"
  then have "n \<in> fst ` set (cs_parts st)" using all_parts_present [of "cs_parts st" "cq_total k"] assms by (simp add: parts_wf_def)
  then show "map_of (cs_parts st) n = Some (the (map_of (cs_parts st) n))"
    by (metis (no_types) map_of_eq_None_iff option.collapse)
qed

lemma collect_wf:
  assumes "sets_wf sets" "\<And>xs. set (order xs) = set xs" "now \<noteq> 0"
  shows "sets_wf (snd (collectSMSConcatPart order clock m i now sets))"
proof (cases "validSMSConcatInfo i")
  case True
  have c: "sets_wf (cleanupSMSConcatLocked now sets)"
    using assms(1) by (intro sets_wf_sub [OF assms(1) cleanup_sub(1)] cleanup_distinct) (simp add: sets_wf_def)
  note wf = roomFor_wf [OF c assms(2)]
  have del: "sets_wf (deleteSet k rest)" if "sets_wf rest" for k rest
    using that sets_wf_sub [OF that] distinct_deleteSet by (simp add: set_deleteSet sets_wf_def)
  show ?thesis
    using True assms(3)
  proof (cases rule: collect_cases [where order = order and clock = clock and m = m and sets = sets])
    case (waiting st rest)
    let ?k = "concatKey m i" and ?s = "recordPart m (sc_Seq i) now st"
    note w = wf [OF waiting(1)]
    have s: "parts_wf ?k ?s" by (rule recordPart_wf [OF w(3) _ True]) simp
    have "int (length (cs_parts ?s)) < sc_Total i"
      using waiting(3) parts_complete [OF s] by fastforce
    moreover have "cs_parts ?s \<noteq> []" by (cases "cs_parts st") (auto simp: recordPart_parts)
    moreover have "1 < sc_Total i" using True by (simp add: validSMSConcatInfo_def)
    ultimately show ?thesis
      using del [OF w(1), of ?k] w(2) s waiting(2) by (auto simp: sets_wf_def set_deleteSet)
  next
    case (ready st rest content)
    then show ?thesis using del [OF wf(1) [OF ready(1)]] by simp
  qed
qed (use assms in \<open>simp add: collectSMSConcatPart_def\<close>)

text \<open>A sequence of arrivals: a message, what its header says, and the time.\<close>

type_synonym arrival = "IncomingSMS \<times> SMSConcatInfo \<times> instant"

fun collectAll :: "(concat_sets \<Rightarrow> concat_sets) \<Rightarrow> arrival list \<Rightarrow> concat_sets \<Rightarrow> (IncomingSMS \<times> bool) list \<times> concat_sets" where
  "collectAll order [] sets = ([], sets)"
| "collectAll order ((m, i, t) # es) sets =
     (let (r, sets1) = collectSMSConcatPart order t m i t sets; (rs, sets2) = collectAll order es sets1 in (r # rs, sets2))"

lemma collectAll_Cons:
  "collectAll order (e # es) sets =
    (case collectSMSConcatPart order (snd (snd e)) (fst e) (fst (snd e)) (snd (snd e)) sets of
       (r, sets1) \<Rightarrow> (r # fst (collectAll order es sets1), snd (collectAll order es sets1)))"
  by (cases e) (simp add: Let_def case_prod_beta)

declare collectAll.simps(2) [simp del]

lemma collectAll_append:
  "collectAll order (es @ fs) sets =
    (fst (collectAll order es sets) @ fst (collectAll order fs (snd (collectAll order es sets))),
     snd (collectAll order fs (snd (collectAll order es sets))))"
  by (induction es arbitrary: sets) (simp_all add: collectAll_Cons case_prod_beta)

lemma collectAll_length: "length (fst (collectAll order es sets)) = length es"
  by (induction es arbitrary: sets) (simp_all add: collectAll_Cons case_prod_beta)

section \<open>Messages are put together\<close>

text \<open>The numbers of the parts of a message that have arrived.\<close>

definition arrived :: "smsConcatKey \<Rightarrow> arrival list \<Rightarrow> int set" where
  "arrived k es = {sc_Seq i | m i t. (m, i, t) \<in> set es \<and> validSMSConcatInfo i \<and> concatKey m i = k}"

definition arrivalKeys :: "arrival list \<Rightarrow> smsConcatKey set" where
  "arrivalKeys es = {concatKey m i | m i t. (m, i, t) \<in> set es \<and> validSMSConcatInfo i}"

lemma arrived_snoc [simp]:
  "arrived k (es @ [(m, i, t)]) = (if validSMSConcatInfo i \<and> concatKey m i = k then insert (sc_Seq i) (arrived k es) else arrived k es)"
  "arrived k [] = {}"
  by (auto simp: arrived_def)

lemma arrivalKeys_snoc [simp]:
  "arrivalKeys (es @ [(m, i, t)]) = (if validSMSConcatInfo i then insert (concatKey m i) (arrivalKeys es) else arrivalKeys es)"
  "arrivalKeys [] = {}"
  by (auto simp: arrivalKeys_def)

text \<open>A set of parts that holds exactly some numbered texts.\<close>

definition holds :: "smsConcatState \<Rightarrow> int set \<Rightarrow> (int \<Rightarrow> bytes) \<Rightarrow> bool" where
  "holds st ns c \<longleftrightarrow> distinct (map fst (cs_parts st)) \<and> map_of (cs_parts st) = (\<lambda>n. if n \<in> ns then Some (c n) else None)"

lemma holds_record:
  assumes "holds st ns c" "in_Content m = c n"
  shows "holds (recordPart m n now st) (insert n ns) c"
proof (cases "n \<in> ns")
  case True
  then have "insert n ns = ns" by blast
  then show ?thesis using assms True by (simp add: holds_def recordPart_parts)
next
  case False
  then have "map_of (cs_parts st) n = None" using assms(1) by (simp add: holds_def)
  moreover then have "n \<notin> fst ` set (cs_parts st)" by (simp add: map_of_eq_None_iff)
  ultimately show ?thesis using assms by (auto simp: holds_def recordPart_parts)
qed

lemma holds_new: "holds (newConcatState now) {} c"
  by (simp add: holds_def)

lemma holds_length: "holds st ns c \<Longrightarrow> length (cs_parts st) = card ns \<and> fst ` set (cs_parts st) = ns"
proof -
  assume h: "holds st ns c"
  have "fst ` set (cs_parts st) = dom (map_of (cs_parts st))" by (rule dom_map_of_conv_image_fst [symmetric])
  also have "\<dots> = ns" using h by (auto simp: holds_def dom_def split: if_splits)
  finally have n: "fst ` set (cs_parts st) = ns" .
  have "card (fst ` set (cs_parts st)) = length (cs_parts st)" using h by (metis distinct_card holds_def length_map set_map)
  with n show ?thesis by simp
qed

text \<open>
  What holds of message \<open>k\<close> after some arrivals, as long as nothing has expired and there was always room: no set
  when nothing of it has arrived, else a fresh set with exactly what has arrived.
\<close>

definition tracks :: "smsConcatKey \<Rightarrow> (int \<Rightarrow> bytes) \<Rightarrow> instant \<Rightarrow> int set \<Rightarrow> concat_sets \<Rightarrow> bool" where
  "tracks k c t0 ns sets \<longleftrightarrow>
     distinct (map fst sets) \<and>
     (if ns = {} then map_of sets k = None
      else \<exists>st. map_of sets k = Some st \<and> holds st ns c \<and> t0 \<le> cs_updatedAt st \<and> cs_updatedAt st \<noteq> 0)"

lemma tracks_cleanup:
  assumes "tracks k c t0 ns sets" "now \<le> t0 + smsConcatTTL"
  shows "tracks k c t0 ns (cleanupSMSConcatLocked now sets)"
proof (cases "ns = {}")
  case True
  then show ?thesis using assms cleanup_None cleanup_distinct by (simp add: tracks_def)
next
  case False
  then obtain st where st: "map_of sets k = Some st" "holds st ns c" "t0 \<le> cs_updatedAt st" "cs_updatedAt st \<noteq> 0"
      "distinct (map fst sets)"
    using assms(1) by (auto simp: tracks_def)
  then have "map_of (cleanupSMSConcatLocked now sets) k = Some st"
    using assms(2) by (intro cleanup_keeps) (simp_all add: lastTouched_def)
  then show ?thesis using False st cleanup_distinct [OF st(5)] by (simp add: tracks_def)
qed

lemma no_eviction:
  assumes "distinct (map fst sets)" "insert key (fst ` set sets) \<subseteq> K" "finite K" "card K \<le> smsConcatMaxSets"
  shows "roomFor order now key sets = (case map_of sets key of Some st \<Rightarrow> st | None \<Rightarrow> newConcatState now, sets)"
proof (cases "map_of sets key")
  case None
  then have "key \<notin> fst ` set sets" by (simp add: map_of_eq_None_iff)
  then have "Suc (length sets) = card (insert key (fst ` set sets))"
    using assms(1) by (metis card_insert_disjoint distinct_card finite_imageI finite_set length_map set_map)
  also have "\<dots> \<le> card K" by (rule card_mono [OF assms(3,2)])
  finally show ?thesis using None assms(4) by (simp add: roomFor_def)
qed (simp add: roomFor_def)

lemma roomFor_sub: "roomFor order now key sets = (st, rest) \<Longrightarrow> set rest \<subseteq> set sets"
  using evict_sub(1) [where order = order and sets = sets] by (auto simp: roomFor_def split: option.splits if_splits)

lemma collect_keys:
  assumes "now \<noteq> 0"
  shows "fst ` set (snd (collectSMSConcatPart order now m i now sets)) \<subseteq>
    (if validSMSConcatInfo i then insert (concatKey m i) (fst ` set sets) else fst ` set sets)"
proof (cases "validSMSConcatInfo i")
  case True
  have sub: "fst ` set (deleteSet k rest) \<subseteq> fst ` set sets"
    if "roomFor order now (concatKey m i) (cleanupSMSConcatLocked now sets) = (st, rest)" for k st rest
    using roomFor_sub [OF that] cleanup_sub(1) [of now sets] by (auto simp: set_deleteSet)
  from True assms show ?thesis
    by (cases rule: collect_cases [where order = order and clock = now and m = m and sets = sets])
      (use True in \<open>auto dest: subsetD [OF sub]\<close>)
qed (simp add: collectSMSConcatPart_def)

text \<open>The assumptions of a step: nothing has expired, and there is room for the message that arrives.\<close>

definition calm :: "instant \<Rightarrow> smsConcatKey set \<Rightarrow> instant \<Rightarrow> smsConcatKey \<Rightarrow> concat_sets \<Rightarrow> bool" where
  "calm t0 K now key sets \<longleftrightarrow>
     0 < t0 \<and> t0 \<le> now \<and> now \<le> t0 + smsConcatTTL \<and> insert key (fst ` set sets) \<subseteq> K \<and> finite K \<and> card K \<le> smsConcatMaxSets"

lemma calm_room:
  assumes "calm t0 K now key sets" "distinct (map fst sets)"
    and "roomFor order now key (cleanupSMSConcatLocked now sets) = (st, rest)"
  shows "rest = cleanupSMSConcatLocked now sets"
    and "st = (case map_of (cleanupSMSConcatLocked now sets) key of Some st \<Rightarrow> st | None \<Rightarrow> newConcatState now)"
proof -
  have "insert key (fst ` set (cleanupSMSConcatLocked now sets)) \<subseteq> K"
    using assms(1) cleanup_sub(1) [of now sets] by (auto simp: calm_def)
  then show "rest = cleanupSMSConcatLocked now sets"
    "st = (case map_of (cleanupSMSConcatLocked now sets) key of Some st \<Rightarrow> st | None \<Rightarrow> newConcatState now)"
    using no_eviction [OF cleanup_distinct [OF assms(2)]] assms(1,3) by (auto simp: calm_def)
qed

lemma tracks_cong:
  "tracks k c t0 ns sets \<Longrightarrow> distinct (map fst sets') \<Longrightarrow> map_of sets' k = map_of sets k \<Longrightarrow> tracks k c t0 ns sets'"
  unfolding tracks_def by (elim conjE, rule conjI, assumption, simp only:)

lemma tracks_other:
  assumes "tracks k c t0 ns sets" "calm t0 K now (concatKey m i) sets" "validSMSConcatInfo i" "concatKey m i \<noteq> k"
  shows "tracks k c t0 ns (snd (collectSMSConcatPart order now m i now sets))"
proof -
  have d: "distinct (map fst sets)" using assms(1) by (simp add: tracks_def)
  have t: "tracks k c t0 ns (cleanupSMSConcatLocked now sets)"
    using assms(1,2) by (intro tracks_cleanup) (simp_all add: calm_def)
  have n: "now \<noteq> 0" using assms(2) by (simp add: calm_def)
  from assms(3) n show ?thesis
  proof (cases rule: collect_cases [where order = order and clock = now and m = m and sets = sets])
    case (waiting st rest)
    then show ?thesis
      using calm_room(1) [OF assms(2) d waiting(1)] assms(4) distinct_deleteSet [OF cleanup_distinct [OF d]]
      by (intro tracks_cong [OF t]) (auto simp: set_deleteSet)
  next
    case (ready st rest content)
    then show ?thesis
      using calm_room(1) [OF assms(2) d ready(1)] assms(4) distinct_deleteSet [OF cleanup_distinct [OF d]]
      by (intro tracks_cong [OF t]) auto
  qed
qed

lemma holds_room:
  assumes "tracks k c t0 ns sets" "calm t0 K now k sets"
    and "roomFor order now k (cleanupSMSConcatLocked now sets) = (st, rest)"
  shows "holds st ns c" "distinct (map fst rest)"
proof -
  have d: "distinct (map fst sets)" using assms(1) by (simp add: tracks_def)
  have "tracks k c t0 ns (cleanupSMSConcatLocked now sets)"
    using assms(1,2) by (intro tracks_cleanup) (simp_all add: calm_def)
  then show "holds st ns c" "distinct (map fst rest)"
    using calm_room [OF assms(2) d assms(3)] holds_new by (auto simp: tracks_def split: if_splits)
qed

lemma tracks_waiting:
  assumes "tracks k c t0 ns sets" "calm t0 K now k sets" "validSMSConcatInfo i" "concatKey m i = k"
    and "in_Content m = c (sc_Seq i)" "insert (sc_Seq i) ns \<subset> {1..cq_total k}"
  shows "tracks k c t0 (insert (sc_Seq i) ns) (snd (collectSMSConcatPart order now m i now sets))"
    and "\<not> snd (fst (collectSMSConcatPart order now m i now sets))"
proof -
  have n: "now \<noteq> 0" "t0 \<le> now" using assms(2) by (simp_all add: calm_def)
  have "card (insert (sc_Seq i) ns) < card {1..cq_total k}" by (rule psubset_card_mono [OF _ assms(6)]) simp
  moreover have "cq_total k = sc_Total i" using assms(4) by auto
  ultimately have few: "int (card (insert (sc_Seq i) ns)) < sc_Total i" by simp
  have "tracks k c t0 (insert (sc_Seq i) ns) (snd (collectSMSConcatPart order now m i now sets)) \<and>
    \<not> snd (fst (collectSMSConcatPart order now m i now sets))"
    using assms(3) n(1)
  proof (cases rule: collect_cases [where order = order and clock = now and m = m and sets = sets])
    case (waiting st rest)
    note h = holds_room [OF assms(1,2) waiting(1) [unfolded assms(4)]]
    show ?thesis
      using waiting(2) assms(4) holds_record [OF h(1) assms(5)] n distinct_deleteSet [OF h(2)]
      by (auto simp: tracks_def recordPart_parts set_deleteSet)
  next
    case (ready st rest content)
    note h = holds_room [OF assms(1,2) ready(1) [unfolded assms(4)]]
    show ?thesis using ready(3) few holds_length [OF holds_record [OF h(1) assms(5), of now]] by simp
  qed
  then show "tracks k c t0 (insert (sc_Seq i) ns) (snd (collectSMSConcatPart order now m i now sets))"
    "\<not> snd (fst (collectSMSConcatPart order now m i now sets))" by blast+
qed

lemma tracks_ready:
  assumes "tracks k c t0 ns sets" "calm t0 K now k sets" "validSMSConcatInfo i" "concatKey m i = k"
    and "in_Content m = c (sc_Seq i)" "insert (sc_Seq i) ns = {1..cq_total k}"
  shows "snd (fst (collectSMSConcatPart order now m i now sets)) \<and>
    in_Content (fst (fst (collectSMSConcatPart order now m i now sets))) = concat (map c [1..cq_total k]) \<and>
    in_Sender (fst (fst (collectSMSConcatPart order now m i now sets))) = in_Sender m \<and>
    map_of (snd (collectSMSConcatPart order now m i now sets)) k = None"
proof -
  have n: "now \<noteq> 0" using assms(2) by (simp add: calm_def)
  have total: "cq_total k = sc_Total i" using assms(4) by auto
  have full: "int (length (cs_parts s)) = sc_Total i \<and>
      assembleParts (cs_parts s) [1..sc_Total i] = Some (concat (map c [1..sc_Total i]))"
    if "roomFor order now (concatKey m i) (cleanupSMSConcatLocked now sets) = (st, rest)" "s = recordPart m (sc_Seq i) now st" for st rest s
  proof -
    have h: "holds s {1..cq_total k} c"
      using holds_record [OF holds_room(1) [OF assms(1,2) that(1) [unfolded assms(4)]] assms(5)] assms(6) that(2) by simp
    then have "assembleParts (cs_parts s) [1..sc_Total i] = Some (concat (map c [1..sc_Total i]))"
      using total by (intro assembleParts_present) (simp add: holds_def)
    moreover have "0 \<le> sc_Total i" using assms(3) by (simp add: validSMSConcatInfo_def)
    ultimately show ?thesis using holds_length [OF h] total by simp
  qed
  from assms(3) n show ?thesis
  proof (cases rule: collect_cases [where order = order and clock = now and m = m and sets = sets])
    case (waiting st rest)
    then show ?thesis using full [OF waiting(1) refl] by simp
  next
    case (ready st rest content)
    then show ?thesis using full [OF ready(1) refl] total assms(4) by (simp add: assembledSMS_def)
  qed
qed

lemma collectAll_keys:
  assumes "\<forall>(m, i, t) \<in> set es. t \<noteq> 0"
  shows "fst ` set (snd (collectAll order es sets)) \<subseteq> fst ` set sets \<union> arrivalKeys es"
  using assms
proof (induction es rule: rev_induct)
  case (snoc e es)
  obtain m i t where e: "e = (m, i, t)" by (rule prod_cases3)
  with snoc have ih: "fst ` set (snd (collectAll order es sets)) \<subseteq> fst ` set sets \<union> arrivalKeys es" "t \<noteq> 0" by auto
  have "fst ` set (snd (collectAll order (es @ [e]) sets)) \<subseteq>
      (if validSMSConcatInfo i then insert (concatKey m i) (fst ` set (snd (collectAll order es sets))) else fst ` set (snd (collectAll order es sets)))"
    using collect_keys [OF ih(2)] by (simp add: e collectAll_append collectAll_Cons case_prod_beta)
  also have "\<dots> \<subseteq> fst ` set sets \<union> arrivalKeys (es @ [e])"
    using ih(1) by (cases "validSMSConcatInfo i") (auto simp: e)
  finally show ?case .
qed simp

lemma arrivalKeys_finite: "finite (arrivalKeys es)"
proof -
  have "arrivalKeys es \<subseteq> (\<lambda>(m, i, t). concatKey m i) ` set es" by (force simp: arrivalKeys_def)
  then show ?thesis by (rule finite_subset) simp
qed

lemma arrived_range: "arrived k es \<subseteq> {1..cq_total k}"
  by (auto simp: arrived_def validSMSConcatInfo_def)

text \<open>Arrivals within the lifetime of a set, of no more messages than there is room for, the parts of message \<open>k\<close> with the texts \<open>c\<close>.\<close>

definition fine :: "smsConcatKey \<Rightarrow> (int \<Rightarrow> bytes) \<Rightarrow> instant \<Rightarrow> concat_sets \<Rightarrow> arrival list \<Rightarrow> bool" where
  "fine k c t0 sets es \<longleftrightarrow>
     0 < t0 \<and> (\<forall>(m, i, t) \<in> set es. t0 \<le> t \<and> t \<le> t0 + smsConcatTTL) \<and>
     card (fst ` set sets \<union> arrivalKeys es) \<le> smsConcatMaxSets \<and>
     (\<forall>(m, i, t) \<in> set es. validSMSConcatInfo i \<and> concatKey m i = k \<longrightarrow> in_Content m = c (sc_Seq i))"

lemma fine_butlast: "fine k c t0 sets (es @ fs) \<Longrightarrow> fine k c t0 sets es"
proof -
  assume f: "fine k c t0 sets (es @ fs)"
  have "card (fst ` set sets \<union> arrivalKeys es) \<le> card (fst ` set sets \<union> arrivalKeys (es @ fs))"
    by (rule card_mono) (auto simp: arrivalKeys_finite, auto simp: arrivalKeys_def)
  with f show ?thesis by (auto simp: fine_def)
qed

lemma fine_calm:
  assumes "fine k c t0 sets (es @ [(m, i, t)])" "validSMSConcatInfo i"
  shows "calm t0 (fst ` set sets \<union> arrivalKeys (es @ [(m, i, t)])) t (concatKey m i) (snd (collectAll order es sets))"
proof -
  have "\<forall>(m, i, t) \<in> set es. t \<noteq> 0" using assms(1) by (auto simp: fine_def)
  then have "fst ` set (snd (collectAll order es sets)) \<subseteq> fst ` set sets \<union> arrivalKeys es" by (rule collectAll_keys)
  then show ?thesis using assms by (auto simp: fine_def calm_def arrivalKeys_finite)
qed

lemma collectAll_tracks:
  assumes "fine k c t0 sets es" "distinct (map fst sets)" "map_of sets k = None" "arrived k es \<noteq> {1..cq_total k}"
  shows "tracks k c t0 (arrived k es) (snd (collectAll order es sets))"
  using assms(1,4)
proof (induction es rule: rev_induct)
  case Nil
  then show ?case using assms(2,3) by (simp add: tracks_def)
next
  case (snoc e es)
  obtain m i t where e: "e = (m, i, t)" by (rule prod_cases3)
  let ?s = "snd (collectAll order es sets)"
  have step: "snd (collectAll order (es @ [e]) sets) = snd (collectSMSConcatPart order t m i t ?s)"
    by (simp add: e collectAll_append collectAll_Cons case_prod_beta)
  have sub: "arrived k (es @ [e]) \<subset> {1..cq_total k}" using arrived_range snoc.prems(2) by blast
  moreover have "arrived k es \<subseteq> arrived k (es @ [e])" by (auto simp: arrived_def)
  ultimately have "arrived k es \<noteq> {1..cq_total k}" by blast
  then have ih: "tracks k c t0 (arrived k es) ?s" using snoc.IH fine_butlast [OF snoc.prems(1)] by blast
  show ?case
  proof (cases "validSMSConcatInfo i")
    case True
    note calm = fine_calm [OF snoc.prems(1) [unfolded e] True, of order]
    show ?thesis
    proof (cases "concatKey m i = k")
      case k: True
      have "in_Content m = c (sc_Seq i)" using snoc.prems(1) True k by (auto simp: fine_def e)
      then show ?thesis using tracks_waiting(1) [OF ih _ True k] calm sub k True unfolding step by (simp add: e)
    next
      case False
      then show ?thesis using tracks_other [OF ih calm True] unfolding step by (simp add: e)
    qed
  next
    case False
    then show ?thesis using ih unfolding step by (simp add: e collectSMSConcatPart_def)
  qed
qed

lemma collectAll_nth:
  assumes "n < length es" "es ! n = (m, i, t)"
  shows "fst (collectAll order (es @ fs) sets) ! n = fst (collectSMSConcatPart order t m i t (snd (collectAll order (take n es) sets)))"
proof -
  have "es @ fs = take n es @ (m, i, t) # drop (Suc n) es @ fs"
    using assms by (metis append_Cons append_assoc id_take_nth_drop)
  then have "fst (collectAll order (es @ fs) sets) ! n =
      (fst (collectAll order (take n es) sets) @
       fst (collectAll order ((m, i, t) # drop (Suc n) es @ fs) (snd (collectAll order (take n es) sets)))) ! n"
    by (simp only: collectAll_append fst_conv)
  then show ?thesis using assms(1) by (simp add: nth_append collectAll_length collectAll_Cons case_prod_beta)
qed

lemma arrived_mono: "set es \<subseteq> set fs \<Longrightarrow> arrived k es \<subseteq> arrived k fs"
  by (auto simp: arrived_def)

lemma not_ready_before:
  assumes "fine k c t0 sets es" "distinct (map fst sets)" "map_of sets k = None" "arrived k es \<noteq> {1..cq_total k}"
    and "n < length es" "es ! n = (m, i, t)" "validSMSConcatInfo i" "concatKey m i = k"
  shows "\<not> snd (fst (collectAll order (es @ fs) sets) ! n)"
proof -
  have es: "es = (take n es @ [(m, i, t)]) @ drop (Suc n) es"
    using assms(5,6) by (metis append_Cons append_Nil append_assoc id_take_nth_drop)
  then have f: "fine k c t0 sets (take n es @ [(m, i, t)])" using assms(1) fine_butlast by metis
  have "arrived k (take n es @ [(m, i, t)]) \<subseteq> arrived k es" by (rule arrived_mono) (subst (2) es, auto)
  also have "\<dots> \<subset> {1..cq_total k}" using arrived_range [of k es] assms(4) by blast
  finally have sub: "insert (sc_Seq i) (arrived k (take n es)) \<subset> {1..cq_total k}" using assms(7,8) by simp
  then have "tracks k c t0 (arrived k (take n es)) (snd (collectAll order (take n es) sets))"
    using collectAll_tracks [OF fine_butlast [OF f] assms(2,3)] by blast
  moreover have "in_Content m = c (sc_Seq i)" using f assms(7,8) by (auto simp: fine_def)
  moreover note fine_calm [OF f assms(7), of order]
  ultimately show ?thesis
    using tracks_waiting(2) [OF _ _ assms(7,8) _ sub] assms(8) unfolding collectAll_nth [OF assms(5,6)] by blast
qed

lemma message_completed:
  assumes "fine k c t0 sets (es @ [(m, i, t)])" "distinct (map fst sets)" "map_of sets k = None"
    and "validSMSConcatInfo i" "concatKey m i = k"
    and "arrived k es \<noteq> {1..cq_total k}" "arrived k (es @ [(m, i, t)]) = {1..cq_total k}"
  obtains msg sets' where "collectSMSConcatPart order t m i t (snd (collectAll order es sets)) = ((msg, True), sets')"
    "in_Content msg = concat (map c [1..cq_total k])" "in_Sender msg = in_Sender m" "map_of sets' k = None"
proof -
  let ?r = "collectSMSConcatPart order t m i t (snd (collectAll order es sets))"
  have "in_Content m = c (sc_Seq i)" using assms(1,4,5) by (auto simp: fine_def)
  moreover have "insert (sc_Seq i) (arrived k es) = {1..cq_total k}" using assms(4,5,7) by simp
  ultimately have "snd (fst ?r) \<and> in_Content (fst (fst ?r)) = concat (map c [1..cq_total k]) \<and> in_Sender (fst (fst ?r)) = in_Sender m \<and>
      map_of (snd ?r) k = None"
    using tracks_ready [OF collectAll_tracks [OF fine_butlast [OF assms(1)] assms(2,3,6)] fine_calm [OF assms(1,4), unfolded assms(5)] assms(4,5)]
    by blast
  then show thesis by (intro that [of "fst (fst ?r)" "snd ?r"]) (auto simp: prod_eq_iff)
qed

text \<open>C19: the parts of a message are put together.  Let parts arrive in any order, more than once and mixed with parts of other
  messages, within ten minutes and of at most 64 messages in all, those already waiting included.  The arrival that brings the last
  missing part of a
  message returns it with the texts of its parts in the order of their numbers, and forgets its set; no earlier arrival of
  one of its parts returns anything.\<close>

theorem reassembly:
  assumes "fine k c t0 sets (es @ [(m, i, t)])" "distinct (map fst sets)" "map_of sets k = None"
    and "validSMSConcatInfo i" "concatKey m i = k"
    and "arrived k es \<noteq> {1..cq_total k}" "arrived k (es @ [(m, i, t)]) = {1..cq_total k}"
  shows "(\<exists>msg. last (fst (collectAll order (es @ [(m, i, t)]) sets)) = (msg, True) \<and> in_Content msg = concat (map c [1..cq_total k])) \<and>
    map_of (snd (collectAll order (es @ [(m, i, t)]) sets)) k = None \<and>
    (\<forall>n m' i' t'. n < length es \<and> es ! n = (m', i', t') \<and> validSMSConcatInfo i' \<and> concatKey m' i' = k \<longrightarrow>
       \<not> snd (fst (collectAll order (es @ [(m, i, t)]) sets) ! n))"
proof -
  obtain msg sets' where r: "collectSMSConcatPart order t m i t (snd (collectAll order es sets)) = ((msg, True), sets')"
      "in_Content msg = concat (map c [1..cq_total k])" "map_of sets' k = None"
    using message_completed [OF assms] by metis
  have s: "collectAll order (es @ [(m, i, t)]) sets = (fst (collectAll order es sets) @ [(msg, True)], sets')"
    by (simp add: collectAll_append collectAll_Cons r(1))
  have "\<not> snd (fst (collectAll order (es @ [(m, i, t)]) sets) ! n)"
    if "n < length es" "es ! n = (m', i', t')" "validSMSConcatInfo i'" "concatKey m' i' = k" for n m' i' t'
    by (rule not_ready_before [OF fine_butlast [OF assms(1)] assms(2,3,6) that])
  then show ?thesis using r(2,3) by (auto simp: s)
qed

text \<open>Two parts that arrive in the wrong order.\<close>

definition part_of_two :: "int \<Rightarrow> SMSConcatInfo" where
  "part_of_two n = \<lparr>sc_IsConcat = True, sc_Ref = 7, sc_RefBits = 8, sc_Total = 2, sc_Seq = n\<rparr>"

lemma part_of_two_valid [simp]: "validSMSConcatInfo (part_of_two 1)" "validSMSConcatInfo (part_of_two 2)"
  by (simp_all add: validSMSConcatInfo_def part_of_two_def)

theorem reassembly_witness:
  "\<exists>msg. last (fst (collectAll id [(NoIncoming\<lparr>in_Content := [2]\<rparr>, part_of_two 2, 5), (NoIncoming\<lparr>in_Content := [1]\<rparr>, part_of_two 1, 6)] [])) =
      (msg, True) \<and> in_Content msg = [1, 2]"
proof -
  let ?k = "concatKey NoIncoming (part_of_two 1)" and ?c = "\<lambda>n. if n = 1 then [1] else [2 :: 8 word]"
  let ?e = "(NoIncoming\<lparr>in_Content := [2]\<rparr>, part_of_two 2, 5)"
  have k: "concatKey (NoIncoming\<lparr>in_Content := [2]\<rparr>) (part_of_two 2) = ?k" "concatKey (NoIncoming\<lparr>in_Content := [1]\<rparr>) (part_of_two 1) = ?k"
    by (simp_all add: concatKey_def part_of_two_def NoIncoming_def)
  have t: "cq_total ?k = 2" "sc_Seq (part_of_two 1) = 1" "sc_Seq (part_of_two 2) = 2" by (simp_all add: part_of_two_def)
  have two: "{1..2} = {1, 2 :: int}" "[1..2] = [1, 2 :: int]" by (auto simp: upto.simps)
  have keys: "arrivalKeys ([?e] @ [(NoIncoming\<lparr>in_Content := [1]\<rparr>, part_of_two 1, 6)]) = {?k}"
    unfolding arrivalKeys_snoc using k by (simp add: arrivalKeys_def)
  have a: "arrived ?k [?e] = {2}" using arrived_snoc(1) [of ?k "[]"] k t by simp
  have "fine ?k ?c 5 [] ([?e] @ [(NoIncoming\<lparr>in_Content := [1]\<rparr>, part_of_two 1, 6)])"
    unfolding fine_def keys by (simp add: t)
  moreover have "arrived ?k ([?e] @ [(NoIncoming\<lparr>in_Content := [1]\<rparr>, part_of_two 1, 6)]) = {1, 2}"
    unfolding arrived_snoc(1) a using k t by simp
  moreover have "arrived ?k [?e] \<noteq> {1..cq_total ?k}" unfolding a t two by simp
  moreover have "concat (map ?c [1..cq_total ?k]) = [1, 2]" unfolding t two by simp
  ultimately show ?thesis
    using reassembly [where k = ?k and es = "[?e]" and order = id and c = ?c and ?t0.0 = 5 and sets = "[]" and t = 6,
        OF _ _ _ part_of_two_valid(1) k(2)] unfolding t two by (simp only: append.simps) simp
qed

end
