(* ===== verification/SMS_Delivery.thy ===== *)
theory SMS_Delivery
  imports SMS_Reassembly
begin

text \<open>
  The handler of \<^verbatim>\<open>runtimehost/messaging/ims_inbound_sms.go\<close> over sequences of messages, and the way of a long message from
  \<^verbatim>\<open>segmentSMS\<close> over the service centre to the event of the phone that receives it.
\<close>

section \<open>A service and an environment\<close>

text \<open>A service before the first message, with a store and a dispatcher, and an environment whose store knows no message.\<close>

definition newService :: "bytes \<Rightarrow> Service" where
  "newService device = \<lparr>sv_deviceID = device, sv_hasStore = True, sv_hasDispatch = True, sv_smsConcat = [], sv_storeCalls = [], sv_dispatched = []\<rparr>"

definition envAt :: "instant \<Rightarrow> Time \<Rightarrow> InboundEnv" where
  "envAt clock now = \<lparr>env_order = (\<lambda>xs. xs), env_mark = (\<lambda>_. Inl ErrDeliveryNotFound), env_clock = clock, env_Now = now\<rparr>"

section \<open>Sequences of messages\<close>

text \<open>Each message comes with the environment at its time.\<close>

fun handleAll :: "(InboundEnv \<times> IMSMessageRequest) list \<Rightarrow> Service \<Rightarrow> (IMSMessageResult \<times> go_error option) list \<times> Service" where
  "handleAll [] s = ([], s)"
| "handleAll ((env, msg) # es) s =
     (let (r, s1) = handleIMS3GPPSMS env msg s; (rs, s2) = handleAll es s1 in (r # rs, s2))"

lemma HandleIncomingSMS_sets [simp]: "sv_smsConcat (snd (HandleIncomingSMS env m s)) = sv_smsConcat s"
  by (simp add: HandleIncomingSMS_def Let_def)

lemma deliverIncoming_sets [simp]: "sv_smsConcat (snd (deliverIncoming env rpdu m out s)) = sv_smsConcat s"
  by (simp add: deliverIncoming_def Let_def case_prod_beta split: option.split)

lemma HandleSMSDeliveryReport_sets [simp]: "sv_smsConcat (snd (HandleSMSDeliveryReport env r s)) = sv_smsConcat s"
  by (simp add: HandleSMSDeliveryReport_def Let_def split: sum.split)

lemma status_report_sets [simp]: "sv_smsConcat (snd (handleIMSSMSStatusReport env msg r s)) = sv_smsConcat s"
  by (simp add: handleIMSSMSStatusReport_def Let_def case_prod_beta)

lemma recordReport_sets [simp]: "sv_smsConcat (snd (recordReport env r out s)) = sv_smsConcat s"
  by (simp add: recordReport_def Let_def case_prod_beta)

lemma handle_sets:
  "sv_smsConcat (snd (handleIMS3GPPSMS env msg s)) = sv_smsConcat s \<or>
   (\<exists>m i. sv_smsConcat (snd (handleIMS3GPPSMS env msg s)) =
      snd (collectSMSConcatPart (env_order env) (env_clock env) m i (env_clock env) (sv_smsConcat s)))"
proof -
  have "sv_smsConcat (snd (handleIMSRPData env msg rpdu out s)) = sv_smsConcat s \<or>
      (\<exists>m i. sv_smsConcat (snd (handleIMSRPData env msg rpdu out s)) =
        snd (collectSMSConcatPart (env_order env) (env_clock env) m i (env_clock env) (sv_smsConcat s)))" for rpdu out
    by (auto simp: handleIMSRPData_def Let_def case_prod_beta split: list.split sum.split)
  then show ?thesis
    by (auto simp: handleIMS3GPPSMS_def Let_def case_prod_beta split: sum.split SMSRPDUKind.split)
qed

text \<open>C20: the store of unfinished messages stays well formed whatever arrives.  Each message has one set, there are never more
  than 64 sets, a set has at least one part and never all of them, and the numbers of its parts are different and between one
  and the total of the message.\<close>

theorem unfinished_sets_wf:
  assumes "sets_wf (sv_smsConcat s)" "\<forall>(env, msg) \<in> set es. env_clock env \<noteq> 0 \<and> (\<forall>xs. set (env_order env xs) = set xs)"
  shows "sets_wf (sv_smsConcat (snd (handleAll es s)))"
  using assms
proof (induction es s rule: handleAll.induct)
  case (2 env msg es s)
  have "sets_wf (sv_smsConcat (snd (handleIMS3GPPSMS env msg s)))"
    using handle_sets [of env msg s] 2 collect_wf [of "sv_smsConcat s" "env_order env" "env_clock env"] by auto
  then have "sets_wf (sv_smsConcat (snd (handleAll es (snd (handleIMS3GPPSMS env msg s)))))"
    using 2 by (cases "handleIMS3GPPSMS env msg s") auto
  then show ?case by (simp add: Let_def case_prod_beta)
qed simp

theorem unfinished_sets_wf_witness:
  "sets_wf (sv_smsConcat (snd (handleAll [(envAt 5 ZeroTime, \<lparr>mq_FromURI = [], mq_ToURI = [], mq_CallID = [], mq_Body = [1, 7, 0, 0, 1, 3]\<rparr>)] (newService []))))"
  by (rule unfinished_sets_wf) (simp_all add: sets_wf_def newService_def envAt_def)

section \<open>Answers\<close>

text \<open>A TPDU that cannot be read: there is none, its type is neither that of a delivery nor that of a status report, or it
  cannot be parsed as what its type says.\<close>

definition unreadable :: "bytes \<Rightarrow> bool" where
  "unreadable tpdu \<longleftrightarrow> tpdu = [] \<or> hd tpdu AND 3 \<notin> {0, 2} \<or> hd tpdu AND 3 = 0 \<and> isl (ParseSMSDeliverTPDU tpdu) \<or>
     hd tpdu AND 3 = 2 \<and> isl (ParseSMSStatusReportTPDU tpdu)"

text \<open>The message a delivery brings: the delivery itself, or what the parts of a long message have become with this one.\<close>

definition brought :: "InboundEnv \<Rightarrow> IMSMessageRequest \<Rightarrow> SMSRPDU \<Rightarrow> SMSDeliver \<Rightarrow> Service \<Rightarrow> IncomingSMS option" where
  "brought env msg rpdu d s =
     (if sc_IsConcat (dl_Concat d)
      then case collectSMSConcatPart (env_order env) (env_clock env) (incomingOf msg rpdu d) (dl_Concat d) (env_clock env) (sv_smsConcat s) of
             ((m, ready), _) \<Rightarrow> if ready then Some m else None
      else Some (incomingOf msg rpdu d))"

definition deliverable :: "IncomingSMS \<Rightarrow> bool" where
  "deliverable m \<longleftrightarrow> TrimSpace (in_Sender m) \<noteq> [] \<and> (in_Content m \<noteq> [] \<or> incomingSMSHasUserDataHeader m)"

definition eventsOf :: "InboundEnv \<Rightarrow> Service \<Rightarrow> IncomingSMS \<Rightarrow> SMSReceived list" where
  "eventsOf env s m =
     (if in_Content m \<noteq> [] \<and> sv_hasDispatch s
      then [\<lparr>ev_DevID = sv_deviceID s, ev_Sender = TrimSpace (in_Sender m), ev_Content = in_Content m,
             ev_Time = (if Time_IsZero (in_Timestamp m) then env_Now env else in_Timestamp m)\<rparr>]
      else [])"

text \<open>The error of the first call to the store between two states, unless the store does not know the message.\<close>

definition storeError :: "InboundEnv \<Rightarrow> Service \<Rightarrow> Service \<Rightarrow> go_error option" where
  "storeError env s s' =
     (case drop (length (sv_storeCalls s)) (sv_storeCalls s') of
        [] \<Rightarrow> None
      | call # _ \<Rightarrow> (case env_mark env call of Inl e \<Rightarrow> if e = ErrDeliveryNotFound then None else Some e | Inr _ \<Rightarrow> None))"

lemma HandleIncomingSMS_spec:
  "HandleIncomingSMS env m s = (if deliverable m then (None, s\<lparr>sv_dispatched := sv_dispatched s @ eventsOf env s m\<rparr>)
     else (Some (if TrimSpace (in_Sender m) = [] then Fmt ''incoming sms sender is empty'' else Fmt ''incoming sms content is empty''), s))"
  by (auto simp: HandleIncomingSMS_def deliverable_def eventsOf_def Let_def)

lemma deliverIncoming_spec:
  "deliverIncoming env rpdu m out s =
     (if deliverable m then ((withReply (BuildSMSRPAck (rp_MR rpdu)) (out\<lparr>mr_Incoming := Some m\<rparr>), None),
        s\<lparr>sv_dispatched := sv_dispatched s @ eventsOf env s m\<rparr>)
      else (refuse (withReply (BuildSMSRPError (rp_MR rpdu) 41) (out\<lparr>mr_Incoming := Some m\<rparr>)) 400
        (if TrimSpace (in_Sender m) = [] then Fmt ''incoming sms sender is empty'' else Fmt ''incoming sms content is empty''), s))"
  by (simp add: deliverIncoming_def HandleIncomingSMS_spec)

lemma eventsOf_sets: "eventsOf env (s\<lparr>sv_smsConcat := x\<rparr>) m = eventsOf env s m"
  by (simp add: eventsOf_def)

lemma NoResult_fields [simp]: "mr_Incoming NoResult = None" "mr_Reason NoResult = None"
  by (simp_all add: NoResult_def)

lemma HandleSMSDeliveryReport_error:
  assumes "HandleSMSDeliveryReport env report s = (res, s')"
  shows "storeError env s s' = (case res of Inl e \<Rightarrow> if e = ErrDeliveryNotFound then None else Some e | Inr _ \<Rightarrow> None) \<and>
    sv_dispatched s' = sv_dispatched s"
  using assms by (auto simp: HandleSMSDeliveryReport_def storeError_def Let_def split: if_splits sum.splits)

lemma status_report_error:
  assumes "handleIMSSMSStatusReport env msg r s = ((report, err), s')"
  shows "storeError env s s' = (case err of Some e \<Rightarrow> if e = ErrDeliveryNotFound then None else Some e | None \<Rightarrow> None) \<and>
    sv_dispatched s' = sv_dispatched s"
proof -
  obtain rep res where "HandleSMSDeliveryReport env rep s = (res, s')" "err = (case res of Inl e \<Rightarrow> Some e | Inr _ \<Rightarrow> None)"
    using assms by (auto simp: handleIMSSMSStatusReport_def Let_def split: prod.splits)
  then show ?thesis using HandleSMSDeliveryReport_error [of env rep s res s'] by (cases res) auto
qed

text \<open>C21: every RP-DATA is answered as its content deserves, in the reply of the result and with its reference.
  A TPDU that cannot be read gets an RP-ERROR of cause 41 and the code 400, and changes nothing.
  A delivery that is a part of an unfinished message gets an RP-ACK and the code 200, and nothing is passed on.
  Any other delivery brings a message: with a sender, and with a text or a user data header, it gets an RP-ACK and the
  code 200 and its text is passed on exactly once; else it gets an RP-ERROR and the code 400 and nothing is passed on.
  A status report gets an RP-ACK, with the code 500 and the store's error when the store failed, and 200 otherwise.
  The error that the handler returns is the reason of its result.\<close>

theorem rp_data_is_answered:
  assumes "ParseSMSRPDU (mq_Body msg) = Inr rpdu" "rp_Kind rpdu = SMSRPDUKindData" "tpdu = rp_TPDU rpdu"
    and "handleIMS3GPPSMS env msg s = ((out, err), s')" "ack = BuildSMSRPAck (rp_MR rpdu)" "rejection = BuildSMSRPError (rp_MR rpdu) 41"
  shows "mr_ReplyContentType out = IMS3GPPSMSContentType \<and> mr_RPDU out = rpdu \<and> mr_Reason out = err \<and>
    (if unreadable tpdu then mr_ReplyBody out = rejection \<and> mr_StatusCode out = 400 \<and> err \<noteq> None \<and> s' = s
     else if hd tpdu AND 3 = 0
     then \<exists>d. ParseSMSDeliverTPDU tpdu = Inr d \<and>
       (case brought env msg rpdu d s of
          None \<Rightarrow> mr_ReplyBody out = ack \<and> mr_StatusCode out = 200 \<and> err = None \<and> mr_Incoming out = None \<and>
            sv_dispatched s' = sv_dispatched s
        | Some m \<Rightarrow> mr_Incoming out = Some m \<and>
            (if deliverable m
             then mr_ReplyBody out = ack \<and> mr_StatusCode out = 200 \<and> err = None \<and>
               sv_dispatched s' = sv_dispatched s @ eventsOf env s m
             else mr_ReplyBody out = rejection \<and> mr_StatusCode out = 400 \<and> err \<noteq> None \<and>
               sv_dispatched s' = sv_dispatched s))
     else mr_ReplyBody out = ack \<and> mr_DeliveryReport out \<noteq> None \<and> err = storeError env s s' \<and>
       mr_StatusCode out = (if err = None then 200 else 500) \<and> sv_dispatched s' = sv_dispatched s)"
proof -
  let ?out = "NoResult\<lparr>mr_StatusCode := 200, mr_RPDU := rpdu\<rparr>"
  have run: "handleIMSRPData env msg rpdu ?out s = ((out, err), s')" using assms(1,2,4) by (simp add: handleIMS3GPPSMS_def)
  show ?thesis
  proof (cases "rp_TPDU rpdu")
    case Nil
    then show ?thesis using run assms(3,5,6) by (auto simp: handleIMSRPData_def unreadable_def refuse_def withReply_def)
  next
    case (Cons t ts)
    consider (deliver) "t AND 3 = 0" | (report) "t AND 3 = 2" | (other) "t AND 3 \<noteq> 0" "t AND 3 \<noteq> 2" by blast
    then show ?thesis
    proof cases
      case deliver
      show ?thesis
        using run deliver Cons assms(3,5,6)
        by (cases "ParseSMSDeliverTPDU (rp_TPDU rpdu)")
          (auto simp: handleIMSRPData_def unreadable_def refuse_def withReply_def deliverIncoming_spec brought_def eventsOf_sets Let_def
            split: if_splits prod.splits)
    next
      case report
      then show ?thesis
        using run Cons assms(3,5,6)
        by (cases "ParseSMSStatusReportTPDU (rp_TPDU rpdu)")
          (auto simp: handleIMSRPData_def unreadable_def refuse_def withReply_def afterReport_def Let_def
            split: if_splits prod.splits option.splits dest!: status_report_error)
    next
      case other
      then show ?thesis using run Cons assms(3,5,6) by (auto simp: handleIMSRPData_def unreadable_def refuse_def withReply_def)
    qed
  qed
qed

theorem rp_data_is_answered_witness:
  "\<exists>out err s'. handleIMS3GPPSMS (envAt 5 ZeroTime) \<lparr>mq_FromURI = [], mq_ToURI = [], mq_CallID = [], mq_Body = [1, 7, 0, 0, 1, 3]\<rparr> (newService [])
      = ((out, err), s') \<and> mr_ReplyBody out = BuildSMSRPError 7 41 \<and> mr_StatusCode out = 400 \<and> err \<noteq> None \<and> s' = newService []"
proof -
  let ?m = "\<lparr>mq_FromURI = [], mq_ToURI = [], mq_CallID = [], mq_Body = [1, 7, 0, 0, 1, 3]\<rparr>"
  have p: "case ParseSMSRPDU [1, 7, 0, 0, 1, 3] of Inl _ \<Rightarrow> False | Inr r \<Rightarrow> rp_Kind r = SMSRPDUKindData \<and> rp_MR r = 7 \<and> rp_TPDU r = [3]" by code_simp
  then obtain rpdu where r: "ParseSMSRPDU [1, 7, 0, 0, 1, 3] = Inr rpdu" "rp_Kind rpdu = SMSRPDUKindData" "rp_MR rpdu = 7" "rp_TPDU rpdu = [3]"
    by (auto split: sum.splits)
  obtain out err s' where h: "handleIMS3GPPSMS (envAt 5 ZeroTime) ?m (newService []) = ((out, err), s')" by (metis prod.exhaust)
  have "unreadable [3]" by (simp add: unreadable_def)
  then show ?thesis using rp_data_is_answered [OF _ r(2) refl h refl refl] r h by simp
qed

section \<open>The error text of a delivered message\<close>

text \<open>C39: a status report of a message that has been delivered is recorded with the text of a network error.
  \<^verbatim>\<open>handleIMSSMSStatusReport\<close> passes the status of the report as the RP cause, and \<^verbatim>\<open>HandleSMSDeliveryReport\<close>
  explains every cause that comes without an error text: the status 1, a message that was forwarded but whose delivery the service
  centre cannot confirm, is stored as delivered with the text of cause 1, an unassigned number.\<close>

theorem delivered_report_gets_cause_text:
  assumes "sv_hasStore s" "sr_Status r = 1" "sr_State r = smsStatusReportState (sr_Status r)"
  shows "\<exists>d rest. sv_storeCalls (snd (handleIMSSMSStatusReport env msg r s)) = sv_storeCalls s @
    MarkSMSDeliveryPartReport [] (TrimSpace (mq_CallID msg)) (sv_deviceID s) (uint (sr_Reference r)) ''delivered'' 200 1
      ''RP cause 1: unassigned number'' d # rest"
proof -
  have "smsStatusReportState 1 = ''delivered''" by code_simp
  moreover have "RPCauseText 1 = ''RP cause 1: unassigned number''" by code_simp
  moreover have "TrimSpace [] = []" by code_simp
  ultimately show ?thesis
    using assms by (simp add: handleIMSSMSStatusReport_def HandleSMSDeliveryReport_def normalizeDeliveryReportState_def smsStatusReportError_def
      Let_def case_prod_beta split: sum.split)
qed

definition forwardedReport :: SMSStatusReport where
  "forwardedReport = \<lparr>sr_Reference = 0, sr_Recipient = [], sr_Timestamp = ZeroTime, sr_DoneAt = ZeroTime, sr_Status = 1,
     sr_State = smsStatusReportState 1, sr_FirstOctet = 2, sr_MoreMessagesToSend = False, sr_StatusReportQualifier = False,
     sr_UserDataHeader = False, sr_ParameterIndicator = 0, sr_HasParameterIndicator = False, sr_ProtocolID = 0,
     sr_HasProtocolID = False, sr_DataCodingScheme = 0, sr_HasDataCodingScheme = False, sr_DataCoding = NoDataCoding,
     sr_UserDataLength = 0, sr_UserDataHeaderInfo = NoUDH, sr_UserData = [], sr_HasUserData = False, sr_RawTPDU = []\<rparr>"

theorem delivered_report_gets_cause_text_witness:
  "\<exists>d rest. sv_storeCalls (snd (handleIMSSMSStatusReport (envAt 5 ZeroTime) \<lparr>mq_FromURI = [], mq_ToURI = [], mq_CallID = [], mq_Body = []\<rparr>
      forwardedReport (newService []))) =
    MarkSMSDeliveryPartReport [] [] [] 0 ''delivered'' 200 1 ''RP cause 1: unassigned number'' d # rest"
proof -
  have "TrimSpace [] = []" by code_simp
  then show ?thesis
    using delivered_report_gets_cause_text [of "newService []" forwardedReport "envAt 5 ZeroTime"
      "\<lparr>mq_FromURI = [], mq_ToURI = [], mq_CallID = [], mq_Body = []\<rparr>"]
    by (simp add: newService_def forwardedReport_def)
qed

section \<open>The way of a long message\<close>

text \<open>A message whose RP-DATA carries one part of a long message.\<close>

lemma deliver_tpdu:
  assumes "ParseSMSDeliverTPDU t = Inr dl"
  obtains b bs where "t = b # bs" "b AND 0x03 = 0"
  using assms by (cases t) (auto simp: ParseSMSDeliverTPDU_def split: if_splits)

lemma handle_part:
  assumes "ParseSMSRPDU (mq_Body msg) = Inr rpdu" "rp_Kind rpdu = SMSRPDUKindData" "ParseSMSDeliverTPDU (rp_TPDU rpdu) = Inr dl"
    and "sc_IsConcat (dl_Concat dl)"
    and "collectSMSConcatPart (env_order env) (env_clock env) (incomingOf msg rpdu dl) (dl_Concat dl) (env_clock env) (sv_smsConcat s) =
      ((m, ready), sets)"
  shows "snd (handleIMS3GPPSMS env msg s) =
    (if ready then snd (HandleIncomingSMS env m (s\<lparr>sv_smsConcat := sets\<rparr>)) else s\<lparr>sv_smsConcat := sets\<rparr>)"
proof -
  obtain b bs where "rp_TPDU rpdu = b # bs" "b AND 0x03 = 0" using assms(3) by (rule deliver_tpdu)
  then show ?thesis
    using assms by (simp add: handleIMS3GPPSMS_def handleIMSRPData_def deliverIncoming_def Let_def case_prod_beta split: option.split)
qed

text \<open>What a message brings, when it is such a message.\<close>

definition carries :: "InboundEnv \<times> IMSMessageRequest \<Rightarrow> arrival \<Rightarrow> bool" where
  "carries e a \<longleftrightarrow>
     (\<exists>rpdu dl. ParseSMSRPDU (mq_Body (snd e)) = Inr rpdu \<and> rp_Kind rpdu = SMSRPDUKindData \<and>
        ParseSMSDeliverTPDU (rp_TPDU rpdu) = Inr dl \<and> sc_IsConcat (dl_Concat dl) \<and>
        a = (incomingOf (snd e) rpdu dl, dl_Concat dl, env_clock (fst e)))"

lemma handle_carried:
  assumes "carries (env, msg) (m, i, t)"
    and "collectSMSConcatPart (env_order env) t m i t (sv_smsConcat s) = ((m', ready), sets)"
  shows "snd (handleIMS3GPPSMS env msg s) =
    (if ready then snd (HandleIncomingSMS env m' (s\<lparr>sv_smsConcat := sets\<rparr>)) else s\<lparr>sv_smsConcat := sets\<rparr>)"
  using assms handle_part by (auto simp: carries_def)

lemma handle_unready:
  assumes "list_all2 carries es as" "\<forall>(env, msg) \<in> set es. env_order env = order"
    and "list_all (\<lambda>r. \<not> snd r) (fst (collectAll order as (sv_smsConcat s)))"
  shows "snd (handleAll es s) = s\<lparr>sv_smsConcat := snd (collectAll order as (sv_smsConcat s))\<rparr>"
  using assms
proof (induction es as arbitrary: s rule: list_all2_induct)
  case (Cons e es a as)
  obtain env msg m i t where e: "e = (env, msg)" "a = (m, i, t)" by (metis prod_cases3 surj_pair)
  obtain m' ready sets where c: "collectSMSConcatPart order t m i t (sv_smsConcat s) = ((m', ready), sets)" by (metis surj_pair)
  then have r: "\<not> ready" using Cons.prems(2) by (simp add: e collectAll_Cons)
  then have "snd (handleIMS3GPPSMS env msg s) = s\<lparr>sv_smsConcat := sets\<rparr>"
    using handle_carried [of env msg m i t s m' ready sets] Cons.hyps(1) Cons.prems(1) c by (simp add: e)
  then show ?case
    using Cons.IH [of "s\<lparr>sv_smsConcat := sets\<rparr>"] Cons.prems c by (simp add: e collectAll_Cons case_prod_beta Let_def)
qed simp

lemma handleAll_snoc: "snd (handleAll (es @ [(env, msg)]) s) = snd (handleIMS3GPPSMS env msg (snd (handleAll es s)))"
  by (induction es arbitrary: s) (auto simp: Let_def case_prod_beta)

text \<open>The parts that \<^verbatim>\<open>segmentSMS\<close> makes can be sent.\<close>

definition partInfo :: "int \<Rightarrow> int \<Rightarrow> nat \<Rightarrow> nat \<Rightarrow> SMSConcatInfo" where
  "partInfo ref refBits n i = \<lparr>sc_IsConcat = True, sc_Ref = ref, sc_RefBits = refBits, sc_Total = int n, sc_Seq = int i + 1\<rparr>"

definition sendable :: "SMSConcatInfo \<Rightarrow> SMSPart \<Rightarrow> bool" where
  "sendable info p \<longleftrightarrow>
     validSMSConcatInfo info \<and> pt_Encoding p \<in> {encGSM7, encUCS2, encUTF8} \<and> pt_UDH p \<noteq> [] \<and>
     uh_Concat (parseSMSUDHInfo (pt_UDH p)) = info \<and> header_for (pt_UDH p) (pt_LockingShiftLang p) (pt_SingleShiftLang p) \<and>
     ValidUTF8 (pt_Text p) \<and> 27 \<notin> set (runes (pt_Text p)) \<and>
     (\<forall>ud udl dcs. encodeSMSUserDataWithLanguage (pt_Text p) (pt_Encoding p) (pt_UDH p) (pt_LockingShiftLang p) (pt_SingleShiftLang p) =
        Inr (ud, udl, dcs) \<longrightarrow> udl \<le> 160)"

lemma segmented_parts:
  assumes "fst (segmentSMS txt opts counter) = Inr parts" "1 < length parts" "ValidUTF8 txt" "27 \<notin> set (runes txt)"
  obtains ref refBits where "concat (map pt_Text parts) = txt"
    "\<forall>i < length parts. sendable (partInfo ref refBits (length parts) i) (parts ! i)"
proof -
  have ne: "txt \<noteq> []" using assms(1,2) by (auto simp: segmentSMS_def)
  from segment_parts [OF assms(1) ne] obtain enc portBits hasPorts ref refBits chunks where
    s: "segmentSetup txt opts = Inr (enc, portBits, hasPorts)"
    "length chunks = length parts" "concat chunks = txt" "concat (map pieces chunks) = pieces txt"
    "\<forall>i < length parts. isPart opts portBits hasPorts enc ref refBits (length parts) (i + 1) (chunks ! i) (parts ! i)"
    "\<forall>c \<in> set chunks. c \<noteq> [] \<and> int (messageLenWithLanguage c enc (so_LockingShiftLang opts) (so_SingleShiftLang opts)) \<le>
       smsPartLimitForUDH enc (smsSubmitUDHLength hasPorts portBits (length parts > 1) refBits (so_SingleShiftLang opts)
         (so_LockingShiftLang opts))"
    by metis
  have part: "isPart opts portBits hasPorts enc ref refBits (length parts) (i + 1) (chunks ! i) (parts ! i)" if "i < length parts" for i
    using s(5) that by blast
  have f: "pt_Text (parts ! i) = chunks ! i \<and> pt_Encoding (parts ! i) = enc \<and>
      pt_LockingShiftLang (parts ! i) = so_LockingShiftLang opts \<and> pt_SingleShiftLang (parts ! i) = so_SingleShiftLang opts"
    if "i < length parts" for i
    using part [OF that] unfolding isPart_def newPart_def
    by (metis SMSPart.select_convs(3,4,19,20))
  have c: "pt_UDH (parts ! i) \<noteq> [] \<and> uh_Concat (parseSMSUDHInfo (pt_UDH (parts ! i))) =
      partInfo ref refBits (length parts) i" if "i < length parts" for i
    using isPart_header(3) [OF part [OF that] s(1) assms(2)] by (simp add: partInfo_def)
  have "0 < length parts" using assms(2) by linarith
  then have "\<exists>e. smsConcatUDHElement ref refBits (int (length parts)) 1 = Inr e"
    using part [of 0] assms(2) unfolding isPart_def partUDH_def
    by (auto simp: buildSMSSubmitUDH_def rbind_eq_Inr_iff Let_def)
  then have bits: "refBits = 8 \<or> refBits = 16"
    using assms(2) by (auto simp: smsConcatUDHElement_def split: if_splits)
  have piece: "set (pieces (chunks ! i)) \<subseteq> set (pieces txt)" if "i < length parts" for i
    using that s(2,4) by (metis (no_types, lifting) concat.simps(2) in_set_conv_nth in_set_conv_decomp list.set_map image_eqI set_concat UN_upper)
  have "sendable (partInfo ref refBits (length parts) i) (parts ! i)" if i: "i < length parts" for i
  proof -
    have "validSMSConcatInfo (partInfo ref refBits (length parts) i)"
      using i bits assms(2) by (auto simp: validSMSConcatInfo_def partInfo_def)
    moreover have enc: "pt_Encoding (parts ! i) \<in> {encGSM7, encUCS2, encUTF8}" using f [OF i] setup_encoding(1) [OF s(1)] by simp
    moreover have "header_for (pt_UDH (parts ! i)) (pt_LockingShiftLang (parts ! i)) (pt_SingleShiftLang (parts ! i))"
      using f [OF i] isPart_header(2) [OF part [OF i] s(1)] by simp
    moreover have "ValidUTF8 (pt_Text (parts ! i))" "27 \<notin> set (runes (pt_Text (parts ! i)))"
      using f [OF i] piece [OF i] assms(3,4) by (auto simp: ValidUTF8_def runes_def)
    moreover have len: "int (messageLenWithLanguage (pt_Text (parts ! i)) (pt_Encoding (parts ! i)) (pt_LockingShiftLang (parts ! i))
        (pt_SingleShiftLang (parts ! i))) \<le> smsPartLimitForUDH (pt_Encoding (parts ! i)) (length (pt_UDH (parts ! i)))"
      using s(2,6) i f [OF i] by (simp add: isPart_header(1) [OF part [OF i] s(1)])
    moreover have "length (pt_UDH (parts ! i)) \<le> 19"
      unfolding isPart_header(1) [OF part [OF i] s(1)] by (rule smsSubmitUDHLength_le)
    ultimately show ?thesis
      using c [OF i] user_data_fits [OF _ enc len] unfolding sendable_def by blast
  qed
  moreover have "concat (map pt_Text parts) = txt"
    unfolding s(3) [symmetric] by (rule arg_cong [where f = concat], rule nth_equalityI) (use f s(2) in auto)
  ultimately show thesis using that by blast
qed

text \<open>A number that can be dialled reads back as a number.\<close>

lemma telDigit_tel: "list_all (\<lambda>b. telOctet b \<longrightarrow> telOctet (telDigit b)) (map word_of_int [0..255])"
  by code_simp

lemma dialable_reads_back:
  assumes "dialable n"
  shows "map telDigit n \<noteq> []" "TrimSpace (map telDigit n) = map telDigit n"
proof -
  have t: "telOctet b \<Longrightarrow> telOctet (telDigit b)" for b
  proof -
    have "b \<in> set (map word_of_int [0..255])"
      using uint_lt2p [of b] uint_ge_0 [of b] by (auto intro!: image_eqI [where x = "uint b"])
    then show "telOctet b \<Longrightarrow> telOctet (telDigit b)" using telDigit_tel by (simp only: list_all_iff)
  qed
  show "map telDigit n \<noteq> []" using assms by (auto simp: dialable_def Let_def HasPrefix_def)
  have "list_all (\<lambda>b. telOctet b \<or> b = 43) n"
    using assms by (cases n) (auto simp: dialable_def Let_def HasPrefix_def list_all_iff split: if_splits)
  then show "TrimSpace (map telDigit n) = map telDigit n" by (intro TrimSpace_number) (auto simp: list_all_iff dest: t)
qed

text \<open>
  A message of the network that brings a TPDU within ten minutes of \<open>t0\<close>, for a recipient; \<open>order\<close> is the order in
  which the map of sets is listed.
\<close>

definition brings :: "(concat_sets \<Rightarrow> concat_sets) \<Rightarrow> instant \<Rightarrow> bytes \<Rightarrow> bytes \<Rightarrow> InboundEnv \<times> IMSMessageRequest \<Rightarrow> bool" where
  "brings order t0 rcpt tpdu e \<longleftrightarrow>
     (\<exists>rpdu. ParseSMSRPDU (mq_Body (snd e)) = Inr rpdu \<and> rp_Kind rpdu = SMSRPDUKindData \<and> rp_TPDU rpdu = tpdu \<and>
        firstNonEmpty [rp_Destination rpdu, mq_ToURI (snd e)] = rcpt) \<and>
     env_order (fst e) = order \<and> t0 \<le> env_clock (fst e) \<and> env_clock (fst e) \<le> t0 + smsConcatTTL"

lemma brings_order:
  "list_all2 (\<lambda>i. brings order t0 rcpt (f i)) xs es \<Longrightarrow> \<forall>(env, msg) \<in> set es. env_order env = order"
  by (induction xs es rule: list_all2_induct) (auto simp: brings_def)

text \<open>The arrival of part \<open>i\<close> of the message with key \<open>k\<close>.\<close>

definition arrivalOf :: "smsConcatKey \<Rightarrow> instant \<Rightarrow> (nat \<Rightarrow> bytes) \<Rightarrow> nat \<Rightarrow> arrival \<Rightarrow> bool" where
  "arrivalOf k t0 c i a \<longleftrightarrow>
     (case a of (m, info, t) \<Rightarrow> validSMSConcatInfo info \<and> sc_Seq info = int i + 1 \<and> concatKey m info = k \<and> in_Content m = c i \<and>
        in_Sender m = cq_sender k \<and> t0 \<le> t \<and> t \<le> t0 + smsConcatTTL)"

lemma list_all2_choice:
  assumes "list_all2 P xs es" "\<And>x e. x \<in> set xs \<Longrightarrow> P x e \<Longrightarrow> \<exists>a. Q e a \<and> R x a"
  shows "\<exists>as. list_all2 Q es as \<and> list_all2 R xs as"
  using assms
proof (induction xs es rule: list_all2_induct)
  case (Cons x xs e es)
  then obtain a as where "Q e a" "R x a" "list_all2 Q es as" "list_all2 R xs as" by fastforce
  then show ?case by (intro exI [of _ "a # as"]) simp
qed simp

lemma arrivals_of_message:
  assumes "list_all2 (arrivalOf k t0 c) is as"
  shows "arrived k as = (\<lambda>i. int i + 1) ` set is" "arrivalKeys as \<subseteq> {k}"
    "\<forall>(m, info, t) \<in> set as. t0 \<le> t \<and> t \<le> t0 + smsConcatTTL \<and> validSMSConcatInfo info \<and> concatKey m info = k \<and> in_Content m = c (nat (sc_Seq info - 1))"
proof -
  have r: "arrived k as = (\<lambda>i. int i + 1) ` set is \<and> arrivalKeys as \<subseteq> {k} \<and>
    (\<forall>(m, info, t) \<in> set as. t0 \<le> t \<and> t \<le> t0 + smsConcatTTL \<and> validSMSConcatInfo info \<and> concatKey m info = k \<and> in_Content m = c (nat (sc_Seq info - 1)))"
    using assms
  proof (induction "is" as rule: list_all2_induct)
    case (Cons i "is" a as)
    obtain m info t where a: "a = (m, info, t)" by (rule prod_cases3)
    have "arrived k (a # as) = arrived k (as @ [a])" "arrivalKeys (a # as) = arrivalKeys (as @ [a])"
      by (simp_all add: arrived_def arrivalKeys_def)
    then have "arrived k (a # as) = insert (sc_Seq info) (arrived k as)" "arrivalKeys (a # as) = insert k (arrivalKeys as)"
      using Cons.hyps(1) by (simp_all add: a arrivalOf_def)
    then show ?case using Cons by (auto simp: a arrivalOf_def)
  qed (simp add: arrivalKeys_def arrived_def)
  from r show "arrived k as = (\<lambda>i. int i + 1) ` set is" by (rule conjunct1)
  from r show "arrivalKeys as \<subseteq> {k}" by (rule conjunct2 [THEN conjunct1])
  from r show "\<forall>(m, info, t) \<in> set as. t0 \<le> t \<and> t \<le> t0 + smsConcatTTL \<and> validSMSConcatInfo info \<and> concatKey m info = k \<and>
      in_Content m = c (nat (sc_Seq info - 1))"
    by (rule conjunct2 [THEN conjunct2])
qed

lemma arrivals_fine:
  assumes "list_all2 (arrivalOf k t0 c) is as" "0 < t0" "distinct (map fst sets)" "length sets < smsConcatMaxSets"
  shows "fine k (\<lambda>n. c (nat (n - 1))) t0 sets as"
proof -
  note a = arrivals_of_message [OF assms(1)]
  have "card (fst ` set sets \<union> arrivalKeys as) \<le> card (insert k (fst ` set sets))" using a(2) by (intro card_mono) auto
  also have "\<dots> \<le> Suc (length sets)" using card_length [of "map fst sets"] by (simp add: card_insert_if)
  finally show ?thesis using a(3) assms(2,4) by (fastforce simp: fine_def)
qed

text \<open>A text in parts, and the texts of the numbers from one on.\<close>

lemma concat_numbered: "concat (map (\<lambda>n. pt_Text (parts ! nat (n - 1))) [1..int (length parts)]) = concat (map pt_Text parts)"
  by (rule arg_cong [where f = concat], rule nth_equalityI) auto

text \<open>All parts but one bring nothing, the last one brings the text.\<close>

lemma handle_message:
  assumes arr: "list_all2 (arrivalOf k t0 c) (js @ [j]) (as @ [a])" "list_all2 carries (es @ [e]) (as @ [a])"
    and order: "\<forall>(env, msg) \<in> set (es @ [e]). env_order env = order"
    and parts: "set (js @ [j]) = {..<n}" "j \<notin> set js" "cq_total k = int n"
    and s: "distinct (map fst (sv_smsConcat s))" "length (sv_smsConcat s) < smsConcatMaxSets" "map_of (sv_smsConcat s) k = None" "0 < t0"
  shows "sv_dispatched (snd (handleAll es s)) = sv_dispatched s"
    and "\<exists>m sets. snd (handleAll (es @ [e]) s) = snd (HandleIncomingSMS (fst e) m (s\<lparr>sv_smsConcat := sets\<rparr>)) \<and>
    in_Content m = concat (map (\<lambda>x. c (nat (x - 1))) [1..int n]) \<and> in_Sender m = cq_sender k"
proof -
  obtain m i t env msg where a: "a = (m, i, t)" "e = (env, msg)" by (metis prod_cases3 surj_pair)
  let ?c = "\<lambda>x. c (nat (x - 1))"
  note f = arrivals_fine [OF arr(1) s(4,1,2)]
  have arr': "list_all2 (arrivalOf k t0 c) js as" "arrivalOf k t0 c j a" "list_all2 carries es as" "carries e a"
    using arr by (auto simp: list_all2_append1 dest: list_all2_lengthD)
  have "(\<lambda>i. int i + 1) ` {..<n} = {1..int n}"
    by (auto intro!: image_eqI [where x = "nat (x - 1)" for x])
  then have all: "arrived k (as @ [(m, i, t)]) = {1..cq_total k}"
    using arrivals_of_message(1) [OF arr(1)] parts(1,3) unfolding a(1) by metis
  have "int j + 1 \<in> {1..cq_total k} - arrived k as"
    using parts arrivals_of_message(1) [OF arr'(1)] by auto
  then have before: "arrived k as \<noteq> {1..cq_total k}" by blast
  have v: "validSMSConcatInfo i" "concatKey m i = k" "in_Sender m = cq_sender k" using arr'(2) by (auto simp: arrivalOf_def a)
  have unready: "list_all (\<lambda>r. \<not> snd r) (fst (collectAll order as (sv_smsConcat s)))"
    unfolding list_all_length
  proof (intro allI impI)
    fix x assume "x < length (fst (collectAll order as (sv_smsConcat s)))"
    then have x: "x < length as" by (simp add: collectAll_length)
    obtain m' i' t' where x': "as ! x = (m', i', t')" by (rule prod_cases3)
    then have "validSMSConcatInfo i' \<and> concatKey m' i' = k"
      using bspec [OF arrivals_of_message(3) [OF arr'(1)] nth_mem [OF x]] by simp
    then show "\<not> snd (fst (collectAll order as (sv_smsConcat s)) ! x)"
      using not_ready_before [OF fine_butlast [OF f] s(1,3) before x x', of order "[]"] by simp
  qed
  have o: "\<forall>(env, msg) \<in> set es. env_order env = order" "env_order env = order" using order a by auto
  obtain m' sets where r: "collectSMSConcatPart order t m i t (snd (collectAll order as (sv_smsConcat s))) = ((m', True), sets)"
      "in_Content m' = concat (map ?c [1..cq_total k])" "in_Sender m' = in_Sender m"
    using message_completed [OF f [unfolded a(1)] s(1,3) v(1,2) before all, of order] by metis
  have "snd (handleAll (es @ [e]) s) = snd (HandleIncomingSMS env m' (s\<lparr>sv_smsConcat := sets\<rparr>))"
    unfolding a(2) handleAll_snoc handle_unready [OF arr'(3) o(1) unready]
    using handle_carried [OF arr'(4) [unfolded a], of "s\<lparr>sv_smsConcat := snd (collectAll order as (sv_smsConcat s))\<rparr>" m' True sets] r(1) o(2)
    by simp
  then show "\<exists>m sets. snd (handleAll (es @ [e]) s) = snd (HandleIncomingSMS (fst e) m (s\<lparr>sv_smsConcat := sets\<rparr>)) \<and>
      in_Content m = concat (map ?c [1..int n]) \<and> in_Sender m = cq_sender k"
    using r v(3) parts(3) a(2) by auto
  show "sv_dispatched (snd (handleAll es s)) = sv_dispatched s"
    using handle_unready [OF arr'(3) o(1) unready] by simp
qed

text \<open>What the service centre makes of a part is an arrival of it.\<close>

lemma relayed_part_arrives:
  assumes part: "sendable info p" "BuildSMSSubmitTPDU to p mr = Inr submit" "sc_Seq info = int i + 1" "length (rpDestination to) \<le> 255"
    and smsc: "dialable sender" "encodeSMSAddress sender = Inr (d, toa, bcd)" "d \<le> 255" "encodeSMSTimestamp ts = Inr scts" "calendar ts"
    and e: "brings order t0 rcpt (smsc_relay (d, toa, bcd) scts submit) e"
    and k: "k = \<lparr>cq_sender = map telDigit sender, cq_recipient = TrimSpace rcpt, cq_ref = sc_Ref info, cq_refBits = sc_RefBits info, cq_total = sc_Total info\<rparr>"
    and c: "c i = pt_Text p"
  shows "\<exists>a. carries e a \<and> arrivalOf k t0 c i a"
proof -
  note n = normalize_dialable [OF smsc(1)] dialable_reads_back [OF smsc(1)]
  have p: "validSMSConcatInfo info" "pt_Encoding p \<in> {encGSM7, encUCS2, encUTF8}" "pt_UDH p \<noteq> []" "uh_Concat (parseSMSUDHInfo (pt_UDH p)) = info"
      "header_for (pt_UDH p) (pt_LockingShiftLang p) (pt_SingleShiftLang p)" "ValidUTF8 (pt_Text p)" "27 \<notin> set (runes (pt_Text p))"
    using part(1) unfolding sendable_def by blast+
  have u: "(if pt_UDH p = [] then buildSMSSubmitUDHForPart p else Inr (pt_UDH p)) = Inr (pt_UDH p)" using p(3) by simp
  have fits: "udl \<le> 160" if "encodeSMSUserDataWithLanguage (pt_Text p) (pt_Encoding p) (pt_UDH p) (pt_LockingShiftLang p)
      (pt_SingleShiftLang p) = Inr (ud, udl, dcs)" for ud udl dcs
    using part(1) that unfolding sendable_def by blast
  have "\<exists>dl. ParseSMSDeliverTPDU (smsc_relay (d, toa, bcd) scts submit) = Inr dl \<and>
      dl_Sender dl = map telDigit (normalizeSMSNumber sender) \<and> dl_Recipient dl = [] \<and> dl_Text dl = pt_Text p \<and>
      dl_Timestamp dl = ts\<lparr>t_Nanosecond := 0\<rparr> \<and> dl_UserDataHeader dl = (pt_UDH p \<noteq> []) \<and> dl_UserDataHeaderInfo dl = header_info (pt_UDH p) \<and>
      dl_Concat dl = uh_Concat (header_info (pt_UDH p)) \<and> dl_ProtocolID dl = smsSubmitProtocolID p"
    by (rule submission_delivered [OF part(2) p(2) u p(5,6,7) part(4) _ smsc(2,3,4,5)], rule fits)
  then obtain dl where dl: "ParseSMSDeliverTPDU (smsc_relay (d, toa, bcd) scts submit) = Inr dl" "dl_Sender dl = map telDigit sender"
      "dl_Recipient dl = []" "dl_Text dl = pt_Text p" "dl_Concat dl = info"
    using p(3,4) n(1) by (auto simp: header_info_def)
  from e obtain rpdu where rp: "ParseSMSRPDU (mq_Body (snd e)) = Inr rpdu" "rp_Kind rpdu = SMSRPDUKindData"
      "rp_TPDU rpdu = smsc_relay (d, toa, bcd) scts submit" "firstNonEmpty [rp_Destination rpdu, mq_ToURI (snd e)] = rcpt"
      "t0 \<le> env_clock (fst e)" "env_clock (fst e) \<le> t0 + smsConcatTTL"
    by (auto simp: brings_def)
  have empty: "TrimSpace [] = []" by code_simp
  let ?m = "incomingOf (snd e) rpdu dl"
  have m: "in_Sender ?m = map telDigit sender" "in_Recipient ?m = rcpt" "in_Content ?m = pt_Text p"
    using dl n rp(4) by (simp_all add: incomingOf_def empty)
  have "sc_IsConcat info" using p(1) by (simp add: validSMSConcatInfo_def)
  then have "carries e (?m, info, env_clock (fst e))" using rp dl by (auto simp: carries_def)
  moreover have "arrivalOf k t0 c i (?m, info, env_clock (fst e))"
    using m n p(1) part(3) rp(5,6) c by (simp add: arrivalOf_def k concatKey_def)
  ultimately show ?thesis by blast
qed

text \<open>C3: a long message arrives.  The parts that \<^verbatim>\<open>segmentSMS\<close> makes of a text, each written by
  \<^verbatim>\<open>BuildSMSSubmitTPDU\<close>, relayed by a service centre and handled by \<^verbatim>\<open>handleIMS3GPPSMS\<close> in any order, some of them
  perhaps twice, within ten minutes: with the last one that is missing, and not before, the receiving service dispatches one event,
  with the number of the sender and exactly the text that was sent.  The text is valid UTF-8 without the escape character, the number of the sender is made
  of dialable digits, and the service has room for a set and holds no unfinished message of this sender.\<close>

theorem long_message_arrives:
  assumes seg: "fst (segmentSMS txt opts counter) = Inr parts" "1 < length parts" "ValidUTF8 txt" "27 \<notin> set (runes txt)"
    and send: "\<And>i. i < length parts \<Longrightarrow> BuildSMSSubmitTPDU to (parts ! i) (mr i) = Inr (submit i)" "length (rpDestination to) \<le> 255"
    and smsc: "dialable sender" "encodeSMSAddress sender = Inr (d, toa, bcd)" "d \<le> 255"
      "\<And>i. i < length parts \<Longrightarrow> encodeSMSTimestamp (ts i) = Inr (scts i) \<and> calendar (ts i)"
    and recv: "list_all2 (\<lambda>i. brings order t0 rcpt (smsc_relay (d, toa, bcd) (scts i) (submit i))) (js @ [j]) (es @ [e])"
      "set (js @ [j]) = {..<length parts}" "j \<notin> set js" "0 < t0"
    and s: "distinct (map fst (sv_smsConcat s))" "length (sv_smsConcat s) < smsConcatMaxSets" "sv_hasDispatch s"
      "\<forall>k \<in> fst ` set (sv_smsConcat s). cq_sender k \<noteq> map telDigit sender"
  shows "sv_dispatched (snd (handleAll es s)) = sv_dispatched s \<and>
    (\<exists>at. sv_dispatched (snd (handleAll (es @ [e]) s)) = sv_dispatched s @
      [\<lparr>ev_DevID = sv_deviceID s, ev_Sender = map telDigit sender, ev_Content = txt, ev_Time = at\<rparr>])"
proof -
  obtain ref refBits where p: "concat (map pt_Text parts) = txt" "\<forall>i < length parts. sendable (partInfo ref refBits (length parts) i) (parts ! i)"
    by (rule segmented_parts [OF seg])
  define k where "k = \<lparr>cq_sender = map telDigit sender, cq_recipient = TrimSpace rcpt, cq_ref = ref, cq_refBits = refBits, cq_total = int (length parts)\<rparr>"
  let ?c = "\<lambda>i. pt_Text (parts ! i)"
  have "\<exists>a. carries e a \<and> arrivalOf k t0 ?c i a"
    if "i \<in> set (js @ [j])" "brings order t0 rcpt (smsc_relay (d, toa, bcd) (scts i) (submit i)) e" for i e
  proof -
    have i: "i < length parts" using that(1) recv(2) by auto
    show ?thesis
      by (rule relayed_part_arrives [OF p(2) [rule_format, OF i] send(1) [OF i] _ send(2) smsc(1,2,3) smsc(4) [OF i, THEN conjunct1]
            smsc(4) [OF i, THEN conjunct2] that(2)])
        (simp_all add: k_def partInfo_def)
  qed
  then obtain bs where bs: "list_all2 carries (es @ [e]) bs" "list_all2 (arrivalOf k t0 ?c) (js @ [j]) bs"
    using list_all2_choice [OF recv(1), of carries "arrivalOf k t0 ?c"] by blast
  obtain as a where as: "bs = as @ [a]" using list_all2_lengthD [OF bs(1)] by (cases bs rule: rev_cases) auto
  have o: "\<forall>(env, msg) \<in> set (es @ [e]). env_order env = order"
    by (rule brings_order [OF recv(1)])
  have "map_of (sv_smsConcat s) k = None" using s(4) by (fastforce simp: map_of_eq_None_iff k_def)
  note h = handle_message [OF bs(2,1) [unfolded as] o recv(2,3) _ s(1,2) this recv(4)]
  have total: "cq_total k = int (length parts)" by (simp add: k_def)
  obtain m sets where m: "snd (handleAll (es @ [e]) s) = snd (HandleIncomingSMS (fst e) m (s\<lparr>sv_smsConcat := sets\<rparr>))"
      "in_Content m = txt" "in_Sender m = map telDigit sender"
    using h(2) [OF total] concat_numbered [of parts] p(1) by (auto simp: k_def)
  have "txt \<noteq> []" using seg(1,2) by (auto simp: segmentSMS_def)
  then have "\<exists>at. sv_dispatched (snd (handleAll (es @ [e]) s)) = sv_dispatched s @
      [\<lparr>ev_DevID = sv_deviceID s, ev_Sender = map telDigit sender, ev_Content = txt, ev_Time = at\<rparr>]"
    using m s(3) dialable_reads_back [OF smsc(1)] by (simp add: HandleIncomingSMS_def Let_def)
  with h(1) [OF total] show ?thesis by blast
qed

section \<open>A message on its way\<close>

text \<open>A text of 141 letters, sent as octets in two parts, from the number 2 to the number 1.\<close>

definition utf8Options :: SendOptions where "utf8Options = NoOptions\<lparr>so_Encoding := encUTF8\<rparr>"

lemma dialable_digit: "dialable [49]" "dialable [50]" by code_simp+
lemma go_byte_1 [simp]: "go_byte (Suc 0) = 1" by (simp add: go_byte_def)
lemma digit_address: "encodeSMSAddress [49] = Inr (1, 0x81, [0xf1])" "encodeSMSAddress [50] = Inr (1, 0x81, [0xf2])"
proof -
  have "runes [49] = [49]" "runes [50] = [50]" by code_simp+
  moreover have "HasPrefix [49] [43] = False" "HasPrefix [50] [43] = False" by code_simp+
  moreover have "packDigits [1] = [0xf1]" "packDigits [2] = [0xf2]" by code_simp+
  moreover have "smsAddressSemiOctet 49 = Some 1" "smsAddressSemiOctet 50 = Some 2" by code_simp+
  ultimately show "encodeSMSAddress [49] = Inr (1, 0x81, [0xf1])" "encodeSMSAddress [50] = Inr (1, 0x81, [0xf2])"
   using dialable_digit [THEN normalize_dialable] by (simp_all add: encodeSMSAddress_def)
qed
lemma utf8_submit:
  "BuildSMSSubmitTPDU [49] (newPart utf8Options 0 encUTF8 k n txt (b # u) ref 8) 0 =
    Inr ([0x41, 0, 1, 0x81, 0xf1, 0, 4, go_byte (length (b # u @ txt))] @ b # u @ txt)"
proof -
  have "encodeSMSSubmitValidityPeriod 0 ZeroTime = Inr (0, [])" by code_simp
  moreover have "encUTF8 \<noteq> encGSM7" by code_simp
  ultimately show ?thesis
  using normalize_dialable [OF dialable_digit(1)] digit_address(1) known_encodings [of encUTF8]
  by (simp add: BuildSMSSubmitTPDU_def newPart_def utf8Options_def NoOptions_def smsSubmitDataCodingScheme_def normalizeSMSSubmitEncodingWithLanguage_def
    normalizeSMSSubmitEncoding_def encodeSMSUserDataWithLanguage_def smsSubmitProtocolID_def)
qed
definition relayedTime :: Time where "relayedTime = ZeroTime\<lparr>t_Year := 2024\<rparr>"
lemma relayedTime_ok: "encodeSMSTimestamp relayedTime = Inr [0x42, 0x10, 0x10, 0, 0, 0, 0]" "calendar relayedTime"
  by code_simp+
lemma utf8_relayed: "smsc_relay (1, 0x81, [0xf2]) scts ([0x41, 0, 1, 0x81, 0xf1, 0, 4, l] @ ud) = [0x44, 1, 0x81, 0xf2, 0, 4] @ scts @ l # ud"
  by (simp add: smsc_relay_def smsAddressOctets_def submitValidityLength_def)
lemma rp_data_body:
  assumes "length t < 256"
  shows "\<exists>rpdu. ParseSMSRPDU ([1, 0, 0, 0, go_byte (length t)] @ t) = Inr rpdu \<and> rp_Kind rpdu = SMSRPDUKindData \<and> rp_TPDU rpdu = t \<and> rp_Destination rpdu = []"
proof -
  have z: "go_byte 0 = 0" "decodeRPAddressValue [] = Inr []" by (simp_all add: go_byte_def decodeRPAddressValue_def)
  then show ?thesis using assms 
    apply (simp add: ParseSMSRPDU_def parseSMSRPDataFields_def parseRPAddressAt_def)
    done
qed

lemma a_pieces: "pieces (replicate n 97) = replicate n (97, [97])"
  by (induction n) (simp_all add: pieces.simps DecodeRune_def)

lemma a_valid: "ValidUTF8 (replicate n 97)" "27 \<notin> set (runes (replicate n 97))" 
  by (auto simp: ValidUTF8_def runes_def a_pieces EncodeRune_def go_byte_def)
lemma a_lastStart: "lastStart limit pos i (replicate n (97, [97])) = (if n = 0 \<or> limit < pos then i else min limit (pos + n - 1))"
  by (induction n arbitrary: pos i) auto
lemma a_chunk: "n > 0 \<Longrightarrow> takeSMSChunkWithLanguage (replicate n 97) encUTF8 134 0 0 = (replicate (min n 134) 97, replicate (n - 134) 97)"
  by (auto simp: takeSMSChunkWithLanguage_def a_pieces a_lastStart Let_def)
lemma a_headers: "partUDH utf8Options 0 False 2 8 2 1 = Inr [5, 0, 3, 2, 2, 1]" "partUDH utf8Options 0 False 2 8 2 2 = Inr [5, 0, 3, 2, 2, 2]"
  by code_simp+
lemma a_setup: "segmentSetup (replicate 141 97) utf8Options = Inr (encUTF8, 0, False)"
proof -
  have "encodeSMSSubmitValidityPeriod 0 ZeroTime = Inr (0, [])" "validateSMSNationalLanguageOptions 0 0 = Inr ()"
    "validateSMSApplicationPortOptions 0 0 0 = Inr (0, False)" by code_simp+
  then show ?thesis using known_encodings [of encUTF8] by (simp add: segmentSetup_def utf8Options_def NoOptions_def normalizeSMSSubmitEncodingWithLanguage_def
    normalizeSMSSubmitEncoding_def)
qed
lemma o8: "so_LockingShiftLang utf8Options = 0" "so_SingleShiftLang utf8Options = 0" "so_ConcatRef utf8Options = 0" "so_ConcatRefBits utf8Options = 0"
  by (simp_all add: utf8Options_def NoOptions_def)

definition aPart :: "nat \<Rightarrow> SMSPart" where
  "aPart i = (if i = 0 then newPart utf8Options 0 encUTF8 1 2 (replicate 134 97) [5, 0, 3, 2, 2, 1] 2 8
    else newPart utf8Options 0 encUTF8 2 2 (replicate 7 97) [5, 0, 3, 2, 2, 2] 2 8)"

lemma a_loop: "segmentLoop 141 utf8Options 0 False encUTF8 134 2 8 2 (replicate 141 97) 1 = Inr [aPart 0, aPart 1]"
proof -
  have "segmentLoop (Suc 140) utf8Options 0 False encUTF8 134 2 8 2 (replicate 141 97) 1 =
      rbind (segmentLoop (Suc 139) utf8Options 0 False encUTF8 134 2 8 2 (replicate 7 97) 2) (\<lambda>out. Inr (aPart 0 # out))"
    using a_chunk [of 141] a_headers by (subst segmentLoop_step) (auto simp: o8 aPart_def)
  also have "segmentLoop (Suc 139) utf8Options 0 False encUTF8 134 2 8 2 (replicate 7 97) 2 = Inr [aPart 1]"
    using a_chunk [of 7] a_headers by (subst segmentLoop_step) (auto simp: o8 aPart_def)
  finally show ?thesis by simp
qed
lemma two_parts: "fst (segmentSMS (replicate 141 97) utf8Options 0) = Inr [aPart 0, aPart 1]"
proof -
  have "validateSMSConcatOptions 0 0 = Inr 8" "nextSMSConcatRef 8 0 = (2, 1)" by code_simp+
  moreover have "renumberParts utf8Options 0 False 2 8 2 [aPart 0, aPart 1] = Inr [aPart 0, aPart 1]"
    using a_headers by (simp add: aPart_def newPart_def)
  ultimately show ?thesis 
  using a_setup a_loop
  by (simp add: segmentSMS_def segmentConcat_def messageLenWithLanguage_def o8 smsSubmitUDHLength_def smsPartLimitForUDH_def)
qed

definition aSubmit :: "nat \<Rightarrow> bytes" where
  "aSubmit i = [0x41, 0, 1, 0x81, 0xf1, 0, 4, go_byte (length (pt_UDH (aPart i) @ pt_Text (aPart i)))] @ pt_UDH (aPart i) @ pt_Text (aPart i)"

definition aMessage :: "nat \<Rightarrow> IMSMessageRequest" where
  "aMessage i = (let t = smsc_relay (1, 0x81, [0xf2]) [0x42, 0x10, 0x10, 0, 0, 0, 0] (aSubmit i) in
     \<lparr>mq_FromURI = [], mq_ToURI = [49], mq_CallID = [], mq_Body = [1, 0, 0, 0, go_byte (length t)] @ t\<rparr>)"

lemma aMessage_brings:
  assumes "i < 2" "5 \<le> t" "t \<le> 5 + smsConcatTTL"
  shows "brings (\<lambda>xs. xs) 5 (firstNonEmpty [[], [49]]) (smsc_relay (1, 0x81, [0xf2]) [0x42, 0x10, 0x10, 0, 0, 0, 0] (aSubmit i)) (envAt t now, aMessage i)"
proof -
  define tpdu where "tpdu = smsc_relay (1, 0x81, [0xf2]) [0x42, 0x10, 0x10, 0, 0, 0, 0] (aSubmit i)"
  have "length tpdu < 256" unfolding tpdu_def aSubmit_def utf8_relayed by (simp add: aPart_def newPart_def)
  then obtain rpdu where r: "ParseSMSRPDU ([1, 0, 0, 0, go_byte (length tpdu)] @ tpdu) = Inr rpdu" "rp_Kind rpdu = SMSRPDUKindData"
      "rp_TPDU rpdu = tpdu" "rp_Destination rpdu = []"
    using rp_data_body by blast
  have m: "mq_Body (aMessage i) = [1, 0, 0, 0, go_byte (length tpdu)] @ tpdu" "mq_ToURI (aMessage i) = [49]"
    unfolding aMessage_def Let_def tpdu_def by simp_all
  show ?thesis
    unfolding tpdu_def [symmetric] brings_def snd_conv m
  proof (intro conjI exI [of _ rpdu])
    show "firstNonEmpty [rp_Destination rpdu, [49]] = firstNonEmpty [[], [49]]" by (simp only: r(4))
  qed (use r assms(2,3) in \<open>simp_all add: envAt_def\<close>)
qed

lemma aSubmit_built: "i < 2 \<Longrightarrow> BuildSMSSubmitTPDU [49] ([aPart 0, aPart 1] ! i) 0 = Inr (aSubmit i)"
  using utf8_submit by (cases i) (auto simp: aSubmit_def aPart_def newPart_def)

theorem long_message_arrives_witness:
  "\<exists>at. sv_dispatched (snd (handleAll [(envAt 5 ZeroTime, aMessage 1), (envAt 6 ZeroTime, aMessage 0)] (newService [7]))) =
    [\<lparr>ev_DevID = [7], ev_Sender = [50], ev_Content = replicate 141 97, ev_Time = at\<rparr>]"
proof -
  have l: "list_all2 (\<lambda>i. brings (\<lambda>xs. xs) 5 (firstNonEmpty [[], [49]]) (smsc_relay (1, 0x81, [0xf2]) [0x42, 0x10, 0x10, 0, 0, 0, 0] (aSubmit i)))
      ([1] @ [0]) ([(envAt 5 ZeroTime, aMessage 1)] @ [(envAt 6 ZeroTime, aMessage 0)])"
    using aMessage_brings by simp
  have r: "length (rpDestination [49]) \<le> 255" by (simp add: rpDestination_dialable dialable_digit)
  have t: "map telDigit [50] = [50]" by (simp add: telDigit_def)
  have "{..<length [aPart 0, aPart 1]} = set ([1] @ [0])" by auto
  note w = long_message_arrives [OF two_parts _ a_valid, where to = "[49]" and mr = "\<lambda>_. 0" and submit = aSubmit and sender = "[50]" and d = 1 and toa = "0x81"
    and bcd = "[0xf2]" and ts = "\<lambda>_. relayedTime" and scts = "\<lambda>_. [0x42, 0x10, 0x10, 0, 0, 0, 0]" and s = "newService [7]",
    OF _ aSubmit_built r dialable_digit(2) digit_address(2) _ _ l this [symmetric]]
  show ?thesis using w relayedTime_ok t by (simp add: newService_def)
qed

end
