(* ===== verification/Spec2Isabelle.thy ===== *)
theory Spec2Isabelle
  imports IKE_Auth IKE_Informational SWu_Packet SMS_Delivery
begin

text \<open>
  A verification development for \<^verbatim>\<open>vowifi-go\<close>, the runtime that attaches a phone's SIM to its operator over
  an untrusted network: an IKEv2 initiator that authenticates with EAP-AKA inside IKE_AUTH, ESP tunnels for the
  traffic, and the messaging and calls that run inside.

  \<^bold>\<open>The program's parts and the theories that model them.\<close>
  \<^item> \<open>Go_Base\<close>, \<open>Go_Result\<close>, \<open>Go_Net\<close>, \<open>Go_Strings\<close>, \<open>Go_Crypto\<close>, \<open>Go_IO\<close>: what the code uses of Go.
    Integers are words of their width, a slice is a list, \<^verbatim>\<open>(T, error)\<close> is a sum, an access out of range is the
    value \<open>Panic\<close>.  The primitives of \<^verbatim>\<open>crypto/*\<close> are a record \<open>crypto\<close> of functions with the laws the code
    relies on in \<open>crypto_ok\<close> (lengths of digests, inverses of the block cipher and of GCM); \<open>demo_crypto\<close>
    satisfies them.  A random source is the sequence of its reads; a transport is a function of the number of the
    request and of the request; an action of \<open>Go_IO\<close> keeps what was sent, also when it fails.  \<open>Go_Text\<close> has UTF-8 and
    UTF-16 as the code reads and writes them.
    \<open>Go_Result\<close> has the interfaces \<open>codec\<close> and \<open>stream_item\<close> of encoders and decoders.
  \<^item> \<open>IKE_Types\<close>, \<open>IKE_Payloads\<close>, \<open>IKE_SA\<close>, \<open>IKE_Session_Payloads\<close> (\<^verbatim>\<open>engine/swu/ikev2/types.go\<close>,
    \<^verbatim>\<open>payloads.go\<close>, \<^verbatim>\<open>sa.go\<close>, \<^verbatim>\<open>session_payloads.go\<close>, \<^verbatim>\<open>fragments.go\<close>): the message formats.  Their lemmas show that
    decoding inverts encoding, that decoders never panic and always end, that an accepted selection was offered,
    and that accepted traffic selectors only narrow the offer.
  \<^item> \<open>IKE_Keys\<close>, \<open>IKE_DH\<close>, \<open>IKE_SK\<close> (\<^verbatim>\<open>crypto.go\<close>, \<^verbatim>\<open>keys.go\<close>, \<^verbatim>\<open>dh.go\<close>, \<^verbatim>\<open>sk.go\<close>): key derivation against its
    definition in RFC 7296, Diffie-Hellman agreement, protection of messages.
  \<^item> \<open>IKE_Init\<close> (\<^verbatim>\<open>init.go\<close>), \<open>IKE_Auth\<close> (\<^verbatim>\<open>auth.go\<close>, \<^verbatim>\<open>auth_payload.go\<close>), \<open>IKE_Child\<close> (\<^verbatim>\<open>childsa.go\<close>),
    \<open>IKE_CreateChild\<close> (\<^verbatim>\<open>create_child.go\<close>, \<^verbatim>\<open>create_child_rekey.go\<close>), \<open>IKE_Informational\<close>
    (\<^verbatim>\<open>informational*.go\<close>): the exchanges, each with what a run that succeeds guarantees, what was sent before an
    error, and agreement with a responder that follows the protocol.
  \<^item> \<open>EAP_AKA\<close>, \<open>EAP_Crypto\<close>, \<open>EAP_Exchange\<close> (\<^verbatim>\<open>engine/swu/eapaka\<close>): packets and attributes, the FIPS 186-2
    generator and the key hierarchy, the answers to the requests of the server.
  \<^item> \<open>ESP\<close> (\<^verbatim>\<open>engine/swu/esp/esp.go\<close>): sealing and opening of packets; the replay window refines the set of the
    sequence numbers that were accepted.
  \<^item> \<open>SWu_Liveness\<close> (\<^verbatim>\<open>engine/swu/ike_liveness.go\<close>): dead peer detection as a state machine over time.
  \<^item> \<open>SWu_Reauth\<close> (\<^verbatim>\<open>engine/swu/eap_reauth.go\<close>): what is kept between attachments.  A store is the interface
    \<open>reauth_store\<close>, which the store in memory meets: what a manager saves is what a manager with the same key loads
    until it expires, and the counter is that of the last reauthentication that was accepted.
  \<^item> \<open>SWu_Packet\<close> (\<^verbatim>\<open>engine/swu/packet_session.go\<close>, with parts of \<^verbatim>\<open>ike_tunnel_manager.go\<close> and \<^verbatim>\<open>swu.go\<close>): the
    session over a pair of ESP associations.  Two sessions of one child SA carry packets in order and once over a network
    that loses and copies; the operations form a step relation in which closing is final; a child SA is replaced when
    it is due.  Handlers, transports, the clock and the context are fields of \<open>PacketEnv\<close>.
  \<^item> \<open>SMS_Tables\<close>, \<open>SMS_GSM7\<close>, \<open>SMS_UDH\<close>, \<open>SMS_Address\<close>, \<open>SMS_PDU\<close>, \<open>SMS_TPDU\<close>, \<open>SMS_Status\<close>
    (\<^verbatim>\<open>runtimehost/messaging/sms_pdu.go\<close>, \<^verbatim>\<open>sms_gsm7_nli.go\<close>): the formats of short messages, from the 7-bit alphabets with
    their national tables to the transfer and relay layers.  Their lemmas show that readers invert writers, that an octet of a
    validity period rounds up as little as it can, and that readers never panic.  A loop that reads octets stands there twice, over the
    list and with the index and the checked accesses of the code (\<open>_loop\<close>, \<open>_checked\<close>), which are shown to agree; the readers
    use the checked ones.
  \<^item> \<open>SMS_Segment\<close> (\<^verbatim>\<open>messaging.go\<close>): how a text becomes parts; nothing is lost and each part fits, and which texts are
    refused.
  \<^item> \<open>SMS_Relay\<close>: the service centre, which is no code of the repository but part of the specification: it makes a
    delivery of a submission as 3GPP TS 23.040 has it.
  \<^item> \<open>SMS_Inbound\<close> (\<^verbatim>\<open>ims_inbound_sms.go\<close>, \<^verbatim>\<open>messaging.go\<close>, \<^verbatim>\<open>eventhost.go\<close>), \<open>SMS_Reassembly\<close>, \<open>SMS_Delivery\<close>: the
    handler of received messages, the parts of a long message against a set of parts per message, and the whole
    way of a long message from \<^verbatim>\<open>segmentSMS\<close> to the event of the phone that receives it.  The order in which a Go map is
    walked, the clock and the answers of the delivery store are fields of \<open>InboundEnv\<close>.

  \<^bold>\<open>Bounds.\<close>  The loops of the code that are bounded stay bounded by the constants of the code: two IKE_SA_INIT
  requests (one cookie), eight EAP exchanges, three control follow-ups.  \<^verbatim>\<open>randomSPI\<close>, which repeats until the
  source gives a number that is not zero, is a partial function into options.  Decoders over the remaining octets
  are total by a measure.  The loop of \<^verbatim>\<open>segmentSMS\<close> has the length of the text as fuel; each round takes at least one character, so it
  is enough.  The number of unfinished messages is bounded by the constant of the code.  A time is an integer of nanoseconds without bounds.

  \<^bold>\<open>Not modelled.\<close>  Sockets, goroutines, timers and mutexes (each call of a guarded object is one step); the kernel
  interfaces for TUN and XFRM and the pump that moves packets between them and a session; the observation of address
  translators; the SIP, SDP, XML and HTTP text of the registration, voice, USSD and emergency parts, which is mostly work on strings
  over sockets; multipart, CPIM and IMDN bodies of messages; the retry stores; access to the card over APDU and AT commands;
  tables of carriers; the text of errors, unless a message carries it.
\<close>

end
